(* ===== verification/Prelude.thy ===== *)
theory Prelude
  imports Main "HOL-Library.Char_ord" "HOL-Library.List_Lexorder" "HOL-Library.Word"
    "HOL-Library.Multiset"
begin

text \<open>
  Shared vocabulary of the StarStats development: the machine integers, the Rust string
  operations the crates call (a Rust \<open>String\<close> is its UTF-8 byte sequence, an Isabelle
  \<open>string\<close>), integer parsing, panics as values, and the generic list lemmas the component
  theories share.
\<close>

section \<open>Automation and type names\<close>

named_theorems str_simps \<open>characterisations of the string operations\<close>
named_theorems outcome_simps \<open>reasoning about panics as values\<close>

type_synonym u8 = "8 word"
type_synonym u16 = "16 word"
type_synonym u32 = "32 word"
type_synonym u64 = "64 word"

section \<open>Panics as values\<close>

text \<open>\<open>Panic\<close> stands for a Rust panic (an index into a missing capture group, for one).\<close>

datatype 'a outcome = Panic | Ret 'a

fun obind :: "'a outcome \<Rightarrow> ('a \<Rightarrow> 'b outcome) \<Rightarrow> 'b outcome" where
  "obind Panic f = Panic"
| "obind (Ret a) f = f a"

fun of_opt :: "'a option \<Rightarrow> 'a outcome" where
  "of_opt None = Panic"
| "of_opt (Some a) = Ret a"

lemma obind_Ret_iff [outcome_simps]: "obind m f = Ret b \<longleftrightarrow> (\<exists>a. m = Ret a \<and> f a = Ret b)"
  by (cases m) auto

lemma obind_Panic_iff [outcome_simps]: "obind m f = Panic \<longleftrightarrow> m = Panic \<or> (\<exists>a. m = Ret a \<and> f a = Panic)"
  by (cases m) auto

lemma of_opt_Ret_iff [outcome_simps]: "of_opt x = Ret a \<longleftrightarrow> x = Some a"
  by (cases x) auto

lemma of_opt_Panic_iff [outcome_simps]: "of_opt x = Panic \<longleftrightarrow> x = None"
  by (cases x) auto

text \<open>The question mark operator on \<open>Result\<close>: the first error ends the function.\<close>

fun sbind :: "'e + 'a \<Rightarrow> ('a \<Rightarrow> 'e + 'b) \<Rightarrow> 'e + 'b" where
  "sbind (Inl e) f = Inl e"
| "sbind (Inr a) f = f a"

lemma sbind_Inr_iff [outcome_simps]: "sbind m f = Inr b \<longleftrightarrow> (\<exists>a. m = Inr a \<and> f a = Inr b)"
  by (cases m) auto

lemma sbind_Inl_iff [outcome_simps]: "sbind m f = Inl e \<longleftrightarrow> m = Inl e \<or> (\<exists>a. m = Inr a \<and> f a = Inl e)"
  by (cases m) auto

section \<open>String operations\<close>

definition starts_with :: "string \<Rightarrow> string \<Rightarrow> bool" where
  "starts_with s p \<longleftrightarrow> take (length p) s = p"

definition ends_with :: "string \<Rightarrow> string \<Rightarrow> bool" where
  "ends_with s p \<longleftrightarrow> starts_with (rev s) (rev p)"

fun contains :: "string \<Rightarrow> string \<Rightarrow> bool" where
  "contains [] n \<longleftrightarrow> n = []"
| "contains (c # cs) n \<longleftrightarrow> starts_with (c # cs) n \<or> contains cs n"

lemma starts_with_iff [str_simps]: "starts_with s p \<longleftrightarrow> (\<exists>v. s = p @ v)"
  by (metis append_eq_conv_conj append_take_drop_id starts_with_def)

lemma ends_with_iff [str_simps]: "ends_with s p \<longleftrightarrow> (\<exists>u. s = u @ p)"
  by (metis ends_with_def rev_append rev_swap starts_with_iff)

lemma contains_iff [str_simps]: "contains s n \<longleftrightarrow> (\<exists>u v. s = u @ n @ v)"
proof (induction s)
  case Nil
  then show ?case by simp
next
  case (Cons c cs)
  show ?case
  proof
    assume "contains (c # cs) n"
    then consider "starts_with (c # cs) n" | "contains cs n" by auto
    then show "\<exists>u v. c # cs = u @ n @ v"
    proof cases
      case 1
      then show ?thesis by (metis append_Nil starts_with_iff)
    next
      case 2
      then show ?thesis by (metis Cons.IH append_Cons)
    qed
  next
    assume "\<exists>u v. c # cs = u @ n @ v"
    then obtain u v where uv: "c # cs = u @ n @ v" by blast
    show "contains (c # cs) n"
    proof (cases u)
      case Nil
      with uv have "starts_with (c # cs) n" by (auto simp: starts_with_iff)
      then show ?thesis by simp
    next
      case (Cons a u')
      with uv have "cs = u' @ n @ v" by simp
      then have "contains cs n" using Cons.IH by blast
      then show ?thesis by simp
    qed
  qed
qed

lemma contains_Nil [simp]: "contains s []"
  by (metis append_Nil contains_iff)

text \<open>\<open>char::is_whitespace\<close>: the UTF-8 encodings of the White\_Space code points.\<close>

definition ws_encodings :: "string list" where
  "ws_encodings =
     [[CHR 0x20], [CHR 0x09], [CHR 0x0A], [CHR 0x0B], [CHR 0x0C], [CHR 0x0D],
      [CHR 0xC2, CHR 0x85], [CHR 0xC2, CHR 0xA0], [CHR 0xE1, CHR 0x9A, CHR 0x80],
      [CHR 0xE2, CHR 0x80, CHR 0x80], [CHR 0xE2, CHR 0x80, CHR 0x81],
      [CHR 0xE2, CHR 0x80, CHR 0x82], [CHR 0xE2, CHR 0x80, CHR 0x83],
      [CHR 0xE2, CHR 0x80, CHR 0x84], [CHR 0xE2, CHR 0x80, CHR 0x85],
      [CHR 0xE2, CHR 0x80, CHR 0x86], [CHR 0xE2, CHR 0x80, CHR 0x87],
      [CHR 0xE2, CHR 0x80, CHR 0x88], [CHR 0xE2, CHR 0x80, CHR 0x89],
      [CHR 0xE2, CHR 0x80, CHR 0x8A], [CHR 0xE2, CHR 0x80, CHR 0xA8],
      [CHR 0xE2, CHR 0x80, CHR 0xA9], [CHR 0xE2, CHR 0x80, CHR 0xAF],
      [CHR 0xE2, CHR 0x81, CHR 0x9F], [CHR 0xE3, CHR 0x80, CHR 0x80]]"

fun match_len :: "string list \<Rightarrow> string \<Rightarrow> nat" where
  "match_len [] s = 0"
| "match_len (w # ws) s = (if starts_with s w then length w else match_len ws s)"

function trim_by :: "string list \<Rightarrow> string \<Rightarrow> string" where
  "trim_by ws s =
     (let n = match_len ws s in
      if 0 < n \<and> n \<le> length s then trim_by ws (drop n s) else s)"
  by pat_completeness auto
termination
  by (relation "measure (\<lambda>(ws, s). length s)") auto

declare trim_by.simps [simp del]

definition trim_start :: "string \<Rightarrow> string" where
  "trim_start s = trim_by ws_encodings s"

definition trim_end :: "string \<Rightarrow> string" where
  "trim_end s = rev (trim_by (map rev ws_encodings) (rev s))"

definition trim :: "string \<Rightarrow> string" where
  "trim s = trim_end (trim_start s)"

definition trim_end_matches :: "char list \<Rightarrow> string \<Rightarrow> string" where
  "trim_end_matches cs s = rev (dropWhile (\<lambda>c. c \<in> set cs) (rev s))"

lemma match_len_le: "match_len ws s \<le> length s"
  by (induction ws) (auto simp: starts_with_iff)

lemma trim_by_suffix: "\<exists>u. s = u @ trim_by ws s"
proof (induction ws s rule: trim_by.induct)
  case (1 ws s)
  show ?case
  proof (cases "0 < match_len ws s")
    case True
    let ?n = "match_len ws s"
    obtain u where "drop ?n s = u @ trim_by ws (drop ?n s)"
      using "1.IH" [OF refl] True match_len_le [of ws s] by auto
    then have "s = (take ?n s @ u) @ trim_by ws (drop ?n s)"
      by (metis append.assoc append_take_drop_id)
    moreover have "trim_by ws s = trim_by ws (drop ?n s)"
      using True match_len_le [of ws s] by (simp add: trim_by.simps [of ws s] Let_def)
    ultimately show ?thesis by metis
  next
    case False
    then show ?thesis by (simp add: trim_by.simps [of ws s] Let_def)
  qed
qed

lemma trim_by_stable: "match_len ws (trim_by ws s) = 0"
proof (induction ws s rule: trim_by.induct)
  case (1 ws s)
  show ?case
  proof (cases "0 < match_len ws s")
    case True
    then show ?thesis
      using "1.IH" [OF refl] match_len_le [of ws s]
      by (simp add: trim_by.simps [of ws s] Let_def)
  next
    case False
    then show ?thesis by (simp add: trim_by.simps [of ws s] Let_def)
  qed
qed

lemma trim_by_idem: "trim_by ws (trim_by ws s) = trim_by ws s"
  by (subst trim_by.simps) (simp add: trim_by_stable Let_def)

lemma trim_start_suffix: "\<exists>u. s = u @ trim_start s"
  by (simp add: trim_start_def trim_by_suffix)

lemma trim_end_prefix: "\<exists>v. s = trim_end s @ v"
  by (metis rev_append rev_rev_ident trim_by_suffix trim_end_def)

lemma trim_infix: "\<exists>u v. s = u @ trim s @ v"
  by (metis trim_def trim_end_prefix trim_start_suffix)

lemma length_trim_le: "length (trim s) \<le> length s"
proof -
  obtain u v where "s = u @ trim s @ v" using trim_infix by blast
  then show ?thesis by (metis length_append le_add1 le_add2 order_trans)
qed

text \<open>\<open>str::split\<close> on a set of separator characters: always at least one piece.\<close>

fun split_on :: "char list \<Rightarrow> string \<Rightarrow> string list" where
  "split_on seps [] = [[]]"
| "split_on seps (c # cs) =
     (if c \<in> set seps then [] # split_on seps cs
      else (case split_on seps cs of [] \<Rightarrow> [[c]] | p # ps \<Rightarrow> (c # p) # ps))"

lemma split_on_nonempty [simp]: "split_on seps s \<noteq> []"
  by (cases s) (auto split: list.splits)

lemma split_on_no_sep: "p \<in> set (split_on seps s) \<Longrightarrow> c \<in> set p \<Longrightarrow> c \<notin> set seps"
proof (induction s arbitrary: p)
  case (Cons d s)
  then show ?case by (cases "split_on seps s") (fastforce split: if_splits)+
qed simp

lemma split_on_first: "hd (split_on seps s) = takeWhile (\<lambda>c. c \<notin> set seps) s"
proof (induction s)
  case (Cons c s)
  then show ?case by (cases "split_on seps s") auto
qed simp

text \<open>The ASCII lower-case letters are the upper-case ones with bit 5 set.\<close>

definition to_lower_char :: "char \<Rightarrow> char" where
  "to_lower_char c =
     (if CHR ''A'' \<le> c \<and> c \<le> CHR ''Z''
      then (case c of Char b0 b1 b2 b3 b4 b5 b6 b7 \<Rightarrow> Char b0 b1 b2 b3 b4 True b6 b7)
      else c)"

definition to_ascii_lowercase :: "string \<Rightarrow> string" where
  "to_ascii_lowercase s = map to_lower_char s"

definition is_ascii_digit :: "char \<Rightarrow> bool" where
  "is_ascii_digit c \<longleftrightarrow> CHR ''0'' \<le> c \<and> c \<le> CHR ''9''"

section \<open>Integer parsing\<close>

text \<open>
  \<open>str::parse\<close> for integer types: an optional sign (\<open>+\<close>, and \<open>-\<close> for signed types), at least
  one ASCII digit, nothing else, and a value in range.
\<close>

definition digit_val :: "char \<Rightarrow> nat" where
  "digit_val c = of_char c - 48"

definition digits_val :: "string \<Rightarrow> nat" where
  "digits_val s = foldl (\<lambda>n c. 10 * n + digit_val c) 0 s"

definition parse_digits :: "string \<Rightarrow> nat option" where
  "parse_digits s = (if s \<noteq> [] \<and> list_all is_ascii_digit s then Some (digits_val s) else None)"

fun parse_unsigned :: "nat \<Rightarrow> string \<Rightarrow> nat option" where
  "parse_unsigned bits s =
     (case parse_digits (case s of c # cs \<Rightarrow> if c = CHR ''+'' then cs else s | [] \<Rightarrow> s) of
        None \<Rightarrow> None
      | Some n \<Rightarrow> if n < 2 ^ bits then Some n else None)"

definition parse_i64 :: "string \<Rightarrow> int option" where
  "parse_i64 s =
     (case s of
        [] \<Rightarrow> None
      | c # cs \<Rightarrow>
          if c = CHR ''-'' then
            (case parse_digits cs of
               None \<Rightarrow> None
             | Some n \<Rightarrow> if n \<le> 2 ^ 63 then Some (- int n) else None)
          else
            (case parse_digits (if c = CHR ''+'' then cs else s) of
               None \<Rightarrow> None
             | Some n \<Rightarrow> if n < 2 ^ 63 then Some (int n) else None))"

lemma parse_unsigned_bound: "parse_unsigned bits s = Some n \<Longrightarrow> n < 2 ^ bits"
  by (auto split: option.splits if_splits)

lemma parse_i64_bounds: "parse_i64 s = Some i \<Longrightarrow> - (2 ^ 63) \<le> i \<and> i < 2 ^ 63"
proof -
  assume a: "parse_i64 s = Some i"
  have neg: "n \<le> 2 ^ 63 \<Longrightarrow> int n \<le> 2 ^ 63" for n
    by (metis (mono_tags) of_nat_le_iff of_nat_numeral of_nat_power)
  have pos: "n < 2 ^ 63 \<Longrightarrow> int n < 2 ^ 63" for n
    by (metis (mono_tags) of_nat_less_iff of_nat_numeral of_nat_power)
  from a show ?thesis
    by (auto simp: parse_i64_def split: list.splits if_splits option.splits dest: neg pos)
qed

text \<open>
  No component computes with an \<open>f64\<close>: the values are read from a decimal literal or widened
  from a \<open>u32\<close>, stored and handed on. A value is therefore kept as where it came from, and
  \<open>parse_f64\<close> is the acceptance grammar of \<open>f64::from_str\<close>.
\<close>

datatype f64 = F64_literal string | F64_of_u32 u32

definition strip_sign :: "string \<Rightarrow> string" where
  "strip_sign s =
     (case s of c # cs \<Rightarrow> if c = CHR ''+'' \<or> c = CHR ''-'' then cs else s | [] \<Rightarrow> s)"

definition float_exponent :: "string \<Rightarrow> bool" where
  "float_exponent r =
     (case r of
        [] \<Rightarrow> True
      | e # t \<Rightarrow> (e = CHR ''e'' \<or> e = CHR ''E'') \<and> strip_sign t \<noteq> [] \<and>
                 list_all is_ascii_digit (strip_sign t))"

definition float_number :: "string \<Rightarrow> bool" where
  "float_number b =
     (let ip = takeWhile is_ascii_digit b; r = dropWhile is_ascii_digit b
      in case r of
           [] \<Rightarrow> ip \<noteq> []
         | c # t \<Rightarrow>
             if c = CHR ''.'' then
               (ip \<noteq> [] \<or> takeWhile is_ascii_digit t \<noteq> []) \<and>
               float_exponent (dropWhile is_ascii_digit t)
             else ip \<noteq> [] \<and> float_exponent r)"

definition parse_f64 :: "string \<Rightarrow> f64 option" where
  "parse_f64 s =
     (let b = strip_sign s in
      if to_ascii_lowercase b \<in> set [''inf'', ''infinity'', ''nan''] \<or> float_number b
      then Some (F64_literal s) else None)"

section \<open>Generic list lemmas\<close>

text \<open>The present values of a list of options, in order.\<close>

definition somes :: "'a option list \<Rightarrow> 'a list" where
  "somes xs = List.map_filter id xs"

lemma somes_simps [simp]:
  "somes [] = []" "somes (None # xs) = somes xs" "somes (Some x # xs) = x # somes xs"
  by (simp_all add: somes_def List.map_filter_simps)

lemma set_somes: "x \<in> set (somes xs) \<longleftrightarrow> Some x \<in> set xs"
proof (induction xs)
  case (Cons a xs)
  then show ?case by (cases a) auto
qed simp

lemma length_somes: "length (somes xs) = length (filter (\<lambda>c. c \<noteq> None) xs)"
proof (induction xs)
  case (Cons a xs)
  then show ?case by (cases a) auto
qed simp

lemma somes_replicate_None [simp]: "somes (replicate n None) = []"
  by (induction n) auto

lemma mset_somes_update:
  assumes "i < length xs" and "xs ! i = None"
  shows "mset (somes (xs[i := Some r])) = add_mset r (mset (somes xs))"
  using assms
proof (induction xs arbitrary: i)
  case (Cons x xs)
  show ?case
  proof (cases i)
    case 0
    then show ?thesis using Cons.prems by simp
  next
    case (Suc j)
    have "mset (somes (xs[j := Some r])) = add_mset r (mset (somes xs))"
      using Cons.IH [of j] Cons.prems Suc by simp
    then show ?thesis using Suc by (cases x) auto
  qed
qed simp

text \<open>Rust's integer division truncates towards zero.\<close>

definition quot_zero :: "int \<Rightarrow> int \<Rightarrow> int" where
  "quot_zero n d = (let q = \<bar>n\<bar> div \<bar>d\<bar> in if (n < 0) = (d < 0) then q else - q)"

lemma find_Some_splitD:
  assumes "find P xs = Some x"
  shows "P x \<and> (\<exists>ys zs. xs = ys @ x # zs \<and> (\<forall>y \<in> set ys. \<not> P y))"
  using assms
proof (induction xs)
  case (Cons y ys)
  show ?case
  proof (cases "P y")
    case True
    then show ?thesis using Cons.prems by (auto intro: exI [of _ "[]"])
  next
    case False
    then obtain us zs where "P x" "ys = us @ x # zs" "\<forall>u \<in> set us. \<not> P u" using Cons by auto
    then show ?thesis using False by (intro conjI exI [of _ "y # us"] exI [of _ zs]) auto
  qed
qed simp

end
