(* ===== verification/Events.thy ===== *)
theory Events
  imports Prelude
begin

text \<open>
  The event vocabulary of \<^verbatim>\<open>crates/starstats-core/src/events.rs\<close>: one record per payload struct
  (its fields carry a short prefix, since Isabelle's field names are global), one datatype per
  enum, and the top-level \<open>game_event\<close> with one constructor per variant.
\<close>

section \<open>Payload structs\<close>

record process_init =
  pi_timestamp :: string
  pi_local_session :: string
  pi_env_session :: string
  pi_online :: bool

record legacy_login =
  ll_timestamp :: string
  ll_handle :: string
  ll_server_time :: "string option"

record join_pu =
  jp_timestamp :: string
  jp_address :: string
  jp_port :: u16
  jp_shard :: string
  jp_location_id :: string

datatype server_phase = ServerStart | ServerEnd

record change_server =
  cs_timestamp :: string
  cs_phase :: server_phase
  cs_is_shard_persisted :: bool
  cs_is_server :: bool
  cs_is_multiplayer :: bool
  cs_is_online :: "bool option"

record seed_solar_system =
  ss_timestamp :: string
  ss_solar_system :: string
  ss_shard :: string
  ss_success :: bool

record resolve_spawn =
  rs_timestamp :: string
  rs_player_geid :: string
  rs_fallback :: bool

record actor_death =
  ad_timestamp :: string
  ad_victim :: string
  ad_victim_geid :: "string option"
  ad_zone :: string
  ad_killer :: string
  ad_killer_geid :: "string option"
  ad_weapon :: string
  ad_damage_type :: string

record player_death =
  pd_timestamp :: string
  pd_body_class :: string
  pd_body_id :: string
  pd_zone :: "string option"

record player_incapacitated =
  pin_timestamp :: string
  pin_queue_id :: u64
  pin_zone :: "string option"

record vehicle_destruction =
  vd_timestamp :: string
  vd_vehicle_class :: string
  vd_vehicle_id :: "string option"
  vd_destroy_level :: u8
  vd_caused_by :: string
  vd_zone :: "string option"

record hud_notification =
  hn_timestamp :: string
  hn_text :: string
  hn_notification_id :: u64
  hn_mission_id :: "string option"

record location_inventory_requested =
  li_timestamp :: string
  li_player :: string
  li_location :: string

record planet_terrain_load =
  pt_timestamp :: string
  pt_planet :: string

datatype quantum_target_phase = FuelRequested | Selected

record quantum_target_selected =
  qt_timestamp :: string
  qt_phase :: quantum_target_phase
  qt_vehicle_class :: string
  qt_vehicle_id :: string
  qt_destination :: string

record attachment_received =
  ar_timestamp :: string
  ar_player :: string
  ar_item_class :: string
  ar_item_id :: string
  ar_status :: string
  ar_port :: string
  ar_elapsed_seconds :: f64

record vehicle_stowed =
  vs_timestamp :: string
  vs_vehicle_id :: string
  vs_landing_area :: string
  vs_landing_area_id :: string
  vs_zone_host_id :: "string option"

record game_crash =
  gc_timestamp :: string
  gc_channel :: string
  gc_crash_dir_name :: string
  gc_primary_log_name :: "string option"
  gc_total_size_bytes :: u64

datatype launcher_category = CatAuth | CatInstall | CatPatch | CatUpdate | CatError | CatInfo

record launcher_activity =
  la_timestamp :: string
  la_level :: string
  la_message :: string
  la_category :: launcher_category

datatype mission_marker_kind = MarkerPhase | MarkerObjective

record mission_start =
  ms_timestamp :: string
  ms_mission_id :: string
  ms_marker_kind :: mission_marker_kind
  ms_mission_name :: "string option"

record mission_end =
  me_timestamp :: string
  me_mission_id :: "string option"
  me_outcome :: "string option"

record shop_buy_request =
  sb_timestamp :: string
  sb_shop_id :: "string option"
  sb_item_class :: "string option"
  sb_quantity :: "u32 option"
  sb_raw :: string

record shop_flow_response =
  sf_timestamp :: string
  sf_shop_id :: "string option"
  sf_success :: "bool option"
  sf_raw :: string

record commodity_buy_request =
  cb_timestamp :: string
  cb_commodity :: "string option"
  cb_quantity :: "f64 option"
  cb_raw :: string

record commodity_sell_request =
  csl_timestamp :: string
  csl_commodity :: "string option"
  csl_quantity :: "f64 option"
  csl_raw :: string

datatype session_end_kind = SystemQuit | FastShutdown

record session_end =
  se_timestamp :: string
  se_kind :: session_end_kind

record remote_match =
  rm_timestamp :: string
  rm_rule_id :: string
  rm_event_name :: string
  rm_fields :: "string \<rightharpoonup> string"

record burst_summary =
  bs_timestamp :: string
  bs_rule_id :: string
  bs_size :: u32
  bs_end_timestamp :: string
  bs_anchor_body_sample :: "string option"

record location_changed =
  lc_timestamp :: string
  lc_from :: "string option"
  lc_to :: string

record shop_request_timed_out =
  st_timestamp :: string
  st_shop_id :: "string option"
  st_item_class :: "string option"
  st_timed_out_after_secs :: u32

section \<open>The event enum\<close>

datatype game_event =
    ProcessInit process_init
  | LegacyLogin legacy_login
  | JoinPu join_pu
  | ChangeServer change_server
  | SeedSolarSystem seed_solar_system
  | ResolveSpawn resolve_spawn
  | ActorDeath actor_death
  | PlayerDeath player_death
  | PlayerIncapacitated player_incapacitated
  | VehicleDestruction vehicle_destruction
  | HudNotification hud_notification
  | LocationInventoryRequested location_inventory_requested
  | PlanetTerrainLoad planet_terrain_load
  | QuantumTargetSelected quantum_target_selected
  | AttachmentReceived attachment_received
  | VehicleStowed vehicle_stowed
  | GameCrash game_crash
  | LauncherActivity launcher_activity
  | MissionStart mission_start
  | MissionEnd mission_end
  | ShopBuyRequest shop_buy_request
  | ShopFlowResponse shop_flow_response
  | CommodityBuyRequest commodity_buy_request
  | CommoditySellRequest commodity_sell_request
  | SessionEnd session_end
  | RemoteMatch remote_match
  | BurstSummary burst_summary
  | LocationChanged location_changed
  | ShopRequestTimedOut shop_request_timed_out

text \<open>
  \<open>timestamp_of\<close> of \<^verbatim>\<open>inference.rs\<close>, the same dispatch \<open>validate_game_event\<close> starts with.
\<close>

fun timestamp_of :: "game_event \<Rightarrow> string" where
  "timestamp_of (ProcessInit e) = pi_timestamp e"
| "timestamp_of (LegacyLogin e) = ll_timestamp e"
| "timestamp_of (JoinPu e) = jp_timestamp e"
| "timestamp_of (ChangeServer e) = cs_timestamp e"
| "timestamp_of (SeedSolarSystem e) = ss_timestamp e"
| "timestamp_of (ResolveSpawn e) = rs_timestamp e"
| "timestamp_of (ActorDeath e) = ad_timestamp e"
| "timestamp_of (PlayerDeath e) = pd_timestamp e"
| "timestamp_of (PlayerIncapacitated e) = pin_timestamp e"
| "timestamp_of (VehicleDestruction e) = vd_timestamp e"
| "timestamp_of (HudNotification e) = hn_timestamp e"
| "timestamp_of (LocationInventoryRequested e) = li_timestamp e"
| "timestamp_of (PlanetTerrainLoad e) = pt_timestamp e"
| "timestamp_of (QuantumTargetSelected e) = qt_timestamp e"
| "timestamp_of (AttachmentReceived e) = ar_timestamp e"
| "timestamp_of (VehicleStowed e) = vs_timestamp e"
| "timestamp_of (GameCrash e) = gc_timestamp e"
| "timestamp_of (LauncherActivity e) = la_timestamp e"
| "timestamp_of (MissionStart e) = ms_timestamp e"
| "timestamp_of (MissionEnd e) = me_timestamp e"
| "timestamp_of (ShopBuyRequest e) = sb_timestamp e"
| "timestamp_of (ShopFlowResponse e) = sf_timestamp e"
| "timestamp_of (CommodityBuyRequest e) = cb_timestamp e"
| "timestamp_of (CommoditySellRequest e) = csl_timestamp e"
| "timestamp_of (SessionEnd e) = se_timestamp e"
| "timestamp_of (RemoteMatch e) = rm_timestamp e"
| "timestamp_of (BurstSummary e) = bs_timestamp e"
| "timestamp_of (LocationChanged e) = lc_timestamp e"
| "timestamp_of (ShopRequestTimedOut e) = st_timestamp e"

end
