(* ===== verification/Transactions.thy ===== *)
theory Transactions
  imports Events
begin

text \<open>
  Models \<^verbatim>\<open>crates/starstats-core/src/transactions.rs\<close>: pairing shop requests with their responses,
  ageing the unanswered ones, and the hand-written ISO-8601 reader with the days-from-civil
  algorithm. Timestamps are compared as byte strings, as the source does. The \<open>i64\<close> and
  \<open>u64\<close> arithmetic wraps as in a release build.
\<close>

section \<open>Clock arithmetic\<close>

definition wrap_i64 :: "int \<Rightarrow> int" where
  "wrap_i64 x = (x + 2 ^ 63) mod 2 ^ 64 - 2 ^ 63"

definition wrap_u64 :: "int \<Rightarrow> int" where
  "wrap_u64 x = x mod 2 ^ 64"

definition days_from_civil :: "int \<Rightarrow> int \<Rightarrow> int \<Rightarrow> int" where
  "days_from_civil y0 m d =
     (let y = (if m \<le> 2 then wrap_i64 (y0 - 1) else y0);
          era = quot_zero (if y \<ge> 0 then y else wrap_i64 (y - 399)) 400;
          yoe = wrap_u64 (wrap_i64 (y - era * 400));
          m_u = wrap_u64 m;
          d_u = wrap_u64 d;
          doy = wrap_u64 (wrap_u64 (153 * (if m_u > 2 then m_u - 3 else m_u + 9) + 2) div 5 + d_u - 1);
          doe = wrap_u64 (yoe * 365 + yoe div 4 - yoe div 100 + doy)
      in wrap_i64 (era * 146097 + wrap_i64 doe - 719468))"

definition first_piece :: "char list \<Rightarrow> string \<Rightarrow> string" where
  "first_piece seps s = hd (split_on seps s)"

definition parse_iso_secs :: "string \<Rightarrow> int option" where
  "parse_iso_secs s =
     (if s = [] then None
      else
        (let normalised = map (\<lambda>c. if c = CHR ''T'' then CHR '' '' else c) s;
             primary = trim (first_piece ''Z'' (first_piece ''+'' (first_piece ''.'' normalised)))
         in case map parse_i64 (split_on '' -:'' primary) of
              Some y # Some mo # Some d # Some h # Some mi # Some se # _ \<Rightarrow>
                Some (wrap_i64 (days_from_civil y mo d * 86400 + h * 3600 + mi * 60 + se))
            | _ \<Rightarrow> None))"

section \<open>Transactions\<close>

datatype transaction_kind = TxShop | TxCommodityBuy | TxCommoditySell

datatype transaction_status = Pending | Confirmed | Rejected | TimedOut | Submitted

record transaction =
  tx_kind :: transaction_kind
  tx_status :: transaction_status
  tx_started_at :: string
  tx_confirmed_at :: "string option"
  tx_shop_id :: "string option"
  tx_item :: "string option"
  tx_quantity :: "f64 option"
  tx_raw_request :: string
  tx_raw_response :: "string option"

definition age_status :: "string \<Rightarrow> int option \<Rightarrow> int \<Rightarrow> transaction_status" where
  "age_status started_at now_secs window_secs =
     (case (now_secs, parse_iso_secs started_at) of
        (Some now, Some start) \<Rightarrow> if wrap_i64 (now - start) > window_secs then TimedOut else Pending
      | _ \<Rightarrow> Pending)"

text \<open>The four buckets the events are sorted into.\<close>

definition shop_requests :: "game_event list \<Rightarrow> shop_buy_request list" where
  "shop_requests = List.map_filter (\<lambda>ev. case ev of ShopBuyRequest r \<Rightarrow> Some r | _ \<Rightarrow> None)"

definition shop_responses :: "game_event list \<Rightarrow> shop_flow_response list" where
  "shop_responses = List.map_filter (\<lambda>ev. case ev of ShopFlowResponse r \<Rightarrow> Some r | _ \<Rightarrow> None)"

definition commodity_buys :: "game_event list \<Rightarrow> commodity_buy_request list" where
  "commodity_buys = List.map_filter (\<lambda>ev. case ev of CommodityBuyRequest r \<Rightarrow> Some r | _ \<Rightarrow> None)"

definition commodity_sells :: "game_event list \<Rightarrow> commodity_sell_request list" where
  "commodity_sells = List.map_filter (\<lambda>ev. case ev of CommoditySellRequest r \<Rightarrow> Some r | _ \<Rightarrow> None)"

definition shop_compatible :: "string option \<Rightarrow> string option \<Rightarrow> bool" where
  "shop_compatible resp_shop req_shop =
     (case (resp_shop, req_shop) of (Some a, Some b) \<Rightarrow> a = b | _ \<Rightarrow> True)"

definition eligible ::
    "shop_flow_response \<Rightarrow> shop_buy_request \<times> shop_flow_response option \<Rightarrow> bool" where
  "eligible resp slot \<longleftrightarrow>
     snd slot = None \<and> shop_compatible (sf_shop_id resp) (sb_shop_id (fst slot)) \<and>
     sb_timestamp (fst slot) \<le> sf_timestamp resp"

text \<open>
  \<open>filter\<close> followed by \<open>max_by\<close> on the timestamp: the last of the maximal eligible requests.
\<close>

fun pick_request ::
    "shop_flow_response \<Rightarrow> nat \<Rightarrow> (shop_buy_request \<times> shop_flow_response option) list \<Rightarrow>
     (nat \<times> string) option \<Rightarrow> (nat \<times> string) option" where
  "pick_request resp idx [] best = best"
| "pick_request resp idx (slot # slots) best =
     pick_request resp (Suc idx) slots
       (if eligible resp slot \<and>
           (case best of None \<Rightarrow> True | Some (_, ts) \<Rightarrow> ts \<le> sb_timestamp (fst slot))
        then Some (idx, sb_timestamp (fst slot)) else best)"

definition pair_one ::
    "shop_buy_request list \<Rightarrow> shop_flow_response option list \<Rightarrow> shop_flow_response \<Rightarrow>
     shop_flow_response option list" where
  "pair_one reqs paired resp =
     (case pick_request resp 0 (zip reqs paired) None of
        None \<Rightarrow> paired
      | Some (idx, _) \<Rightarrow> paired[idx := Some resp])"

definition pair_responses ::
    "shop_buy_request list \<Rightarrow> shop_flow_response list \<Rightarrow> shop_flow_response option list" where
  "pair_responses reqs resps = foldl (pair_one reqs) (replicate (length reqs) None) resps"

definition shop_status ::
    "int option \<Rightarrow> int \<Rightarrow> shop_buy_request \<Rightarrow> shop_flow_response option \<Rightarrow> transaction_status" where
  "shop_status now_secs window_secs req resp =
     (case resp of
        Some r \<Rightarrow>
          (case sf_success r of
             Some True \<Rightarrow> Confirmed
           | Some False \<Rightarrow> Rejected
           | None \<Rightarrow> Confirmed)
      | None \<Rightarrow> age_status (sb_timestamp req) now_secs window_secs)"

definition shop_transaction ::
    "int option \<Rightarrow> int \<Rightarrow> shop_buy_request \<times> shop_flow_response option \<Rightarrow> transaction" where
  "shop_transaction now_secs window_secs slot =
     (let req = fst slot; resp = snd slot in
      \<lparr>tx_kind = TxShop, tx_status = shop_status now_secs window_secs req resp,
       tx_started_at = sb_timestamp req, tx_confirmed_at = map_option sf_timestamp resp,
       tx_shop_id = sb_shop_id req, tx_item = sb_item_class req,
       tx_quantity = map_option F64_of_u32 (sb_quantity req),
       tx_raw_request = sb_raw req, tx_raw_response = map_option sf_raw resp\<rparr>)"

definition buy_transaction :: "commodity_buy_request \<Rightarrow> transaction" where
  "buy_transaction b =
     \<lparr>tx_kind = TxCommodityBuy, tx_status = Submitted, tx_started_at = cb_timestamp b,
      tx_confirmed_at = None, tx_shop_id = None, tx_item = cb_commodity b,
      tx_quantity = cb_quantity b, tx_raw_request = cb_raw b, tx_raw_response = None\<rparr>"

definition sell_transaction :: "commodity_sell_request \<Rightarrow> transaction" where
  "sell_transaction b =
     \<lparr>tx_kind = TxCommoditySell, tx_status = Submitted, tx_started_at = csl_timestamp b,
      tx_confirmed_at = None, tx_shop_id = None, tx_item = csl_commodity b,
      tx_quantity = csl_quantity b, tx_raw_request = csl_raw b, tx_raw_response = None\<rparr>"

definition pair_transactions :: "game_event list \<Rightarrow> string \<Rightarrow> int \<Rightarrow> transaction list" where
  "pair_transactions events now window_secs =
     (let reqs = shop_requests events;
          paired = pair_responses reqs (shop_responses events);
          now_secs = parse_iso_secs now
      in sort_key tx_started_at
           (map (shop_transaction now_secs window_secs) (zip reqs paired) @
            map buy_transaction (commodity_buys events) @
            map sell_transaction (commodity_sells events)))"

section \<open>Lemmas on pairing\<close>

lemma pick_request_spec:
  assumes "\<And>i ts. best = Some (i, ts) \<Longrightarrow> i < idx"
    and "pick_request resp idx slots best = Some (i, ts)"
  shows "(best = Some (i, ts) \<or>
      (\<exists>k < length slots. i = idx + k \<and> eligible resp (slots ! k) \<and> ts = sb_timestamp (fst (slots ! k)))) \<and>
    (\<forall>slot \<in> set slots. eligible resp slot \<longrightarrow> sb_timestamp (fst slot) \<le> ts) \<and>
    (\<forall>j u. best = Some (j, u) \<longrightarrow> u \<le> ts)"
  using assms
proof (induction resp idx slots best rule: pick_request.induct)
  case (2 resp idx slot slots best)
  let ?take = "eligible resp slot \<and>
    (case best of None \<Rightarrow> True | Some (_, ts) \<Rightarrow> ts \<le> sb_timestamp (fst slot))"
  let ?b = "if ?take then Some (idx, sb_timestamp (fst slot)) else best"
  have pre: "\<And>j u. ?b = Some (j, u) \<Longrightarrow> j < Suc idx"
    using "2.prems"(1) by (auto split: if_splits simp: less_Suc_eq)
  have r: "pick_request resp (Suc idx) slots ?b = Some (i, ts)" using "2.prems"(2) by simp
  note ih = "2.IH" [OF pre r]
  have orig: "best = Some (i, ts) \<or>
      (\<exists>k < length (slot # slots). i = idx + k \<and> eligible resp ((slot # slots) ! k) \<and>
        ts = sb_timestamp (fst ((slot # slots) ! k)))"
  proof (cases "?b = Some (i, ts)")
    case True
    then show ?thesis by (auto split: if_splits intro!: exI [of _ 0])
  next
    case False
    have "?b = Some (i, ts) \<or> (\<exists>k < length slots. i = Suc idx + k \<and> eligible resp (slots ! k) \<and>
      ts = sb_timestamp (fst (slots ! k)))" using ih by (rule conjunct1)
    then have "\<exists>k < length slots. i = Suc idx + k \<and> eligible resp (slots ! k) \<and>
      ts = sb_timestamp (fst (slots ! k))" using False by (metis (no_types, lifting))
    then obtain k where "k < length slots" "i = Suc idx + k" "eligible resp (slots ! k)"
      "ts = sb_timestamp (fst (slots ! k))" by blast
    then show ?thesis by (auto intro!: exI [of _ "Suc k"])
  qed
  from ih have rest: "\<forall>s \<in> set slots. eligible resp s \<longrightarrow> sb_timestamp (fst s) \<le> ts"
    by (rule conjunct1 [OF conjunct2])
  from ih have b_le: "\<forall>j u. ?b = Some (j, u) \<longrightarrow> u \<le> ts"
    by (rule conjunct2 [OF conjunct2])
  have best_le: "u \<le> ts" if "best = Some (j, u)" for j u
  proof (cases ?take)
    case True
    then have "u \<le> sb_timestamp (fst slot)" using that by simp
    also have "\<dots> \<le> ts" using b_le True by simp
    finally show ?thesis .
  next
    case False
    then have "?b = best" by (rule if_not_P)
    then show ?thesis using b_le that by metis
  qed
  have "sb_timestamp (fst slot) \<le> ts" if "eligible resp slot"
  proof (cases ?take)
    case True
    then show ?thesis using b_le by simp
  next
    case False
    with that obtain j u where "best = Some (j, u)" "\<not> u \<le> sb_timestamp (fst slot)"
      by (auto split: option.splits)
    then show ?thesis using best_le by force
  qed
  then show ?case using orig rest best_le by auto
qed simp

lemma pick_request_None:
  assumes "pick_request resp idx slots best = None"
  shows "best = None \<and> (\<forall>slot \<in> set slots. \<not> eligible resp slot)"
  using assms
proof (induction resp idx slots best rule: pick_request.induct)
  case (2 resp idx slot slots best)
  then show ?case by (fastforce split: if_splits option.splits)
qed simp

lemma length_pair_one [simp]: "length (pair_one reqs paired resp) = length paired"
  by (auto simp: pair_one_def split: option.splits prod.splits)

lemma length_foldl_pair_one [simp]: "length (foldl (pair_one reqs) paired resps) = length paired"
  by (induction resps arbitrary: paired) auto

lemma length_pair_responses [simp]: "length (pair_responses reqs resps) = length reqs"
  by (simp add: pair_responses_def)

text \<open>One response either leaves the pairing alone or fills one empty, eligible, latest slot.\<close>

lemma pair_one_cases:
  assumes "length paired = length reqs"
  obtains (none) "pair_one reqs paired resp = paired"
      "\<forall>slot \<in> set (zip reqs paired). \<not> eligible resp slot"
    | (pick) i where "i < length reqs" "paired ! i = None"
      "pair_one reqs paired resp = paired[i := Some resp]"
      "shop_compatible (sf_shop_id resp) (sb_shop_id (reqs ! i))"
      "sb_timestamp (reqs ! i) \<le> sf_timestamp resp"
      "\<forall>slot \<in> set (zip reqs paired). eligible resp slot \<longrightarrow>
         sb_timestamp (fst slot) \<le> sb_timestamp (reqs ! i)"
proof (cases "pick_request resp 0 (zip reqs paired) None")
  case None
  then show thesis
    using none pick_request_None [OF None] by (simp add: pair_one_def)
next
  case (Some p)
  obtain i ts where p: "p = (i, ts)" by fastforce
  have "(None = Some (i, ts) \<or>
      (\<exists>k < length (zip reqs paired). i = 0 + k \<and> eligible resp (zip reqs paired ! k) \<and>
        ts = sb_timestamp (fst (zip reqs paired ! k)))) \<and>
    (\<forall>slot \<in> set (zip reqs paired). eligible resp slot \<longrightarrow> sb_timestamp (fst slot) \<le> ts) \<and>
    (\<forall>j u. (None :: (nat \<times> string) option) = Some (j, u) \<longrightarrow> u \<le> ts)"
    using Some p by (intro pick_request_spec [of None 0 resp]) simp_all
  then have lt: "i < length (zip reqs paired)" and el: "eligible resp (zip reqs paired ! i)"
    and ts: "ts = sb_timestamp (fst (zip reqs paired ! i))"
    and mx: "\<forall>slot \<in> set (zip reqs paired). eligible resp slot \<longrightarrow> sb_timestamp (fst slot) \<le> ts"
    by (metis add_0 option.distinct(1))+
  have "zip reqs paired ! i = (reqs ! i, paired ! i)" using lt by simp
  then have i: "i < length reqs" "eligible resp (reqs ! i, paired ! i)" "ts = sb_timestamp (reqs ! i)"
    using lt el ts by auto
  then show thesis
    using pick [of i] Some p mx by (auto simp: pair_one_def eligible_def)
qed

definition pairing_ok ::
    "shop_buy_request list \<Rightarrow> shop_flow_response option list \<Rightarrow> shop_flow_response list \<Rightarrow> bool" where
  "pairing_ok reqs paired resps \<longleftrightarrow>
     length paired = length reqs \<and>
     mset (somes paired) \<subseteq># mset resps \<and>
     (\<forall>i < length reqs. \<forall>r. paired ! i = Some r \<longrightarrow>
        shop_compatible (sf_shop_id r) (sb_shop_id (reqs ! i)) \<and>
        sb_timestamp (reqs ! i) \<le> sf_timestamp r)"

lemma pair_one_ok:
  assumes "pairing_ok reqs paired resps"
  shows "pairing_ok reqs (pair_one reqs paired resp) (resps @ [resp])"
proof -
  have len: "length paired = length reqs" using assms by (simp add: pairing_ok_def)
  from len show ?thesis
  proof (cases rule: pair_one_cases [where resp = resp])
    case none
    then show ?thesis
      using assms by (auto simp: pairing_ok_def intro: subset_mset.order_trans)
  next
    case (pick i)
    have "mset (somes (paired[i := Some resp])) \<subseteq># mset (resps @ [resp])"
      using assms pick(1,2) len by (simp add: mset_somes_update pairing_ok_def)
    then show ?thesis
      using assms pick by (auto simp: pairing_ok_def nth_list_update)
  qed
qed

lemma foldl_pair_one_ok:
  "pairing_ok reqs paired done \<Longrightarrow> pairing_ok reqs (foldl (pair_one reqs) paired resps) (done @ resps)"
proof (induction resps arbitrary: paired "done")
  case (Cons r resps)
  then show ?case using Cons.IH [OF pair_one_ok [OF Cons.prems]] by simp
qed simp

lemma pair_responses_ok: "pairing_ok reqs (pair_responses reqs resps) resps"
proof -
  have "pairing_ok reqs (replicate (length reqs) None) []"
    by (simp add: pairing_ok_def)
  then show ?thesis using foldl_pair_one_ok by (fastforce simp: pair_responses_def)
qed

text \<open>What the pairing pass sees of an event: a request opens one row of its kind.\<close>

fun request_row :: "game_event \<Rightarrow> (transaction_kind \<times> string \<times> string) option" where
  "request_row (ShopBuyRequest r) = Some (TxShop, sb_timestamp r, sb_raw r)"
| "request_row (CommodityBuyRequest r) = Some (TxCommodityBuy, cb_timestamp r, cb_raw r)"
| "request_row (CommoditySellRequest r) = Some (TxCommoditySell, csl_timestamp r, csl_raw r)"
| "request_row _ = None"

abbreviation tx_row :: "transaction \<Rightarrow> transaction_kind \<times> string \<times> string" where
  "tx_row t \<equiv> (tx_kind t, tx_started_at t, tx_raw_request t)"

lemmas bucket_defs = shop_requests_def shop_responses_def commodity_buys_def commodity_sells_def

lemma bucket_simps [simp]:
  "shop_requests (ev # evs) =
     (case ev of ShopBuyRequest r \<Rightarrow> r # shop_requests evs | _ \<Rightarrow> shop_requests evs)"
  "shop_responses (ev # evs) =
     (case ev of ShopFlowResponse r \<Rightarrow> r # shop_responses evs | _ \<Rightarrow> shop_responses evs)"
  "commodity_buys (ev # evs) =
     (case ev of CommodityBuyRequest r \<Rightarrow> r # commodity_buys evs | _ \<Rightarrow> commodity_buys evs)"
  "commodity_sells (ev # evs) =
     (case ev of CommoditySellRequest r \<Rightarrow> r # commodity_sells evs | _ \<Rightarrow> commodity_sells evs)"
  "shop_requests [] = []" "shop_responses [] = []" "commodity_buys [] = []" "commodity_sells [] = []"
  by (simp_all add: bucket_defs List.map_filter_simps split: game_event.splits)

lemma set_shop_responses: "r \<in> set (shop_responses evs) \<longleftrightarrow> ShopFlowResponse r \<in> set evs"
  by (induction evs) (auto split: game_event.splits)

lemma map_shop_transaction_zip:
  "length paired = length reqs \<Longrightarrow>
     map tx_row (map (shop_transaction n w) (zip reqs paired)) =
     map (\<lambda>r. (TxShop, sb_timestamp r, sb_raw r)) reqs"
  by (induction paired reqs rule: list_induct2) (auto simp: shop_transaction_def Let_def)

lemma set_pair_transactions:
  "t \<in> set (pair_transactions evs now w) \<longleftrightarrow>
     t \<in> shop_transaction (parse_iso_secs now) w `
       set (zip (shop_requests evs) (pair_responses (shop_requests evs) (shop_responses evs))) \<or>
     t \<in> buy_transaction ` set (commodity_buys evs) \<or>
     t \<in> sell_transaction ` set (commodity_sells evs)"
  by (auto simp: pair_transactions_def Let_def)

lemma paired_slot:
  assumes "(req, Some r) \<in> set (zip reqs (pair_responses reqs resps))"
  shows "r \<in> set resps \<and> shop_compatible (sf_shop_id r) (sb_shop_id req) \<and>
    sb_timestamp req \<le> sf_timestamp r"
proof -
  from assms obtain i where i: "i < length reqs" "reqs ! i = req" "pair_responses reqs resps ! i = Some r"
    by (auto simp: set_zip)
  have "Some r \<in> set (pair_responses reqs resps)" using i by (metis length_pair_responses nth_mem)
  then have "r \<in># mset (somes (pair_responses reqs resps))" by (simp add: set_somes)
  then have "r \<in># mset resps" using pair_responses_ok [of reqs resps]
    by (metis mset_subset_eqD pairing_ok_def)
  then show ?thesis using pair_responses_ok [of reqs resps] i by (auto simp: pairing_ok_def)
qed

lemma somes_raw_responses:
  "length paired = length reqs \<Longrightarrow>
     somes (map tx_raw_response (map (shop_transaction n w) (zip reqs paired))) =
     map sf_raw (somes paired)"
proof (induction paired reqs rule: list_induct2)
  case (Cons p ps r rs)
  then show ?case by (cases p) (auto simp: shop_transaction_def Let_def)
qed simp

lemma somes_append [simp]: "somes (xs @ ys) = somes xs @ somes ys"
proof (induction xs)
  case (Cons x xs)
  then show ?case by (cases x) auto
qed simp

lemma somes_map_None [simp]: "(\<And>x. x \<in> set xs \<Longrightarrow> f x = None) \<Longrightarrow> somes (map f xs) = []"
  by (induction xs) auto

lemma mset_map_sort_key: "mset (map f (sort_key k xs)) = mset (map f xs)"
  by (simp only: mset_map mset_sort)

lemma mset_somes_map: "mset (somes (map f xs)) = (\<Sum>x \<in># mset xs. case f x of None \<Rightarrow> {#} | Some y \<Rightarrow> {#y#})"
proof (induction xs)
  case (Cons x xs)
  then show ?case by (cases "f x") auto
qed simp

section \<open>Lemmas on the calendar\<close>

lemma wrap_i64_id: "- (2 ^ 63) \<le> x \<Longrightarrow> x < 2 ^ 63 \<Longrightarrow> wrap_i64 x = x"
  by (simp add: wrap_i64_def)

lemma wrap_u64_id: "0 \<le> x \<Longrightarrow> x < 2 ^ 64 \<Longrightarrow> wrap_u64 x = x"
  by (simp add: wrap_u64_def)

definition is_leap :: "int \<Rightarrow> bool" where
  "is_leap y \<longleftrightarrow> y mod 4 = 0 \<and> (y mod 100 \<noteq> 0 \<or> y mod 400 = 0)"

definition days_in_month :: "int \<Rightarrow> int \<Rightarrow> int" where
  "days_in_month y m =
     (if m = 2 then (if is_leap y then 29 else 28)
      else if m \<in> {4, 6, 9, 11} then 30 else 31)"

definition valid_date :: "int \<Rightarrow> int \<Rightarrow> int \<Rightarrow> bool" where
  "valid_date y m d \<longleftrightarrow> 1 \<le> y \<and> y < 2 ^ 40 \<and> 1 \<le> m \<and> m \<le> 12 \<and> 1 \<le> d \<and> d \<le> days_in_month y m"

definition next_day :: "int \<Rightarrow> int \<Rightarrow> int \<Rightarrow> int \<times> int \<times> int" where
  "next_day y m d =
     (if d < days_in_month y m then (y, m, d + 1)
      else if m < 12 then (y, m + 1, 1)
      else (y + 1, 1, 1))"

text \<open>On years the calendar can reach no step wraps, and the result is a closed formula.\<close>

definition year_days :: "int \<Rightarrow> int" where
  "year_days y = 365 * y + y div 4 - y div 100 + y div 400"

lemma year_days_era:
  "y div 400 * 146097 + (y mod 400 * 365 + y mod 400 div 4 - y mod 400 div 100) = year_days y"
proof -
  have y: "y = y mod 400 + 4 * (100 * (y div 400))" "y = y mod 400 + 100 * (4 * (y div 400))"
    by simp_all
  have "y div 4 = y mod 400 div 4 + 100 * (y div 400)"
    by (subst (1) y(1), subst div_mult_self2) simp_all
  moreover have "y div 100 = y mod 400 div 100 + 4 * (y div 400)"
    by (subst (1) y(2), subst div_mult_self2) simp_all
  moreover have "y mod 400 = y - 400 * (y div 400)" by (simp add: minus_mult_div_eq_mod)
  ultimately show ?thesis by (simp add: year_days_def)
qed

lemma div_pred:
  fixes y k :: int
  assumes "1 < k"
  shows "y div k = (y - 1) div k + (if y mod k = 0 then 1 else 0)"
proof -
  have y: "y = k * (y div k) + y mod k" by simp
  have r: "0 \<le> y mod k" "y mod k < k" using assms by simp_all
  show ?thesis
  proof (cases "y mod k = 0")
    case True
    then have "y - 1 = k * (y div k - 1) + (k - 1)" using y by (simp add: algebra_simps)
    then have "(y - 1) div k = y div k - 1"
      using assms by (intro int_div_pos_eq [of "y - 1" k _ "k - 1"]) auto
    then show ?thesis using True by simp
  next
    case False
    then have "y - 1 = k * (y div k) + (y mod k - 1)" using y by simp
    then have "(y - 1) div k = y div k"
      using r False by (intro int_div_pos_eq [of "y - 1" k _ "y mod k - 1"]) auto
    then show ?thesis using False by simp
  qed
qed

lemma leap_count:
  fixes y a b c a' b' c' :: int
  assumes "a = a' + (if p then 1 else 0)" "b = b' + (if q then 1 else 0)" "c = c' + (if r then 1 else 0)"
    and "r \<longrightarrow> q" "q \<longrightarrow> p"
  shows "365 * y + a - b + c = 365 * (y - 1) + a' - b' + c' + (if p \<and> (\<not> q \<or> r) then 366 else 365)"
  using assms by (cases p; cases q; cases r) simp_all

lemma year_days_step: "year_days y = year_days (y - 1) + (if is_leap y then 366 else 365)"
proof -
  have "y mod 400 = 0 \<longrightarrow> y mod 100 = 0" "y mod 100 = 0 \<longrightarrow> y mod 4 = 0"
    using dvd_trans [of 100 400 y] dvd_trans [of 4 100 y] by (simp_all add: mod_eq_0_iff_dvd)
  then show ?thesis
    unfolding year_days_def is_leap_def by (intro leap_count div_pred) simp_all
qed

definition month_days :: "int \<Rightarrow> int" where
  "month_days mp = (153 * mp + 2) div 5"

lemma days_wraps:
  assumes "0 \<le> y" "y \<le> 2 ^ 40" "0 \<le> mp" "mp \<le> 11" "1 \<le> d" "d \<le> 31"
  shows "wrap_u64 (wrap_i64 (y - quot_zero y 400 * 400)) = y mod 400"
    and "wrap_u64 (153 * mp + 2) div 5 = month_days mp"
    and "wrap_u64 (month_days mp + d - 1) = month_days mp + d - 1"
    and "wrap_i64 (quot_zero y 400 * 146097 +
           wrap_i64 (wrap_u64 (y mod 400 * 365 + y mod 400 div 4 - y mod 400 div 100 +
             (month_days mp + d - 1))) - 719468) =
         year_days y + month_days mp + d - 719469"
proof -
  have td: "quot_zero y 400 = y div 400"
    using assms(1) by (cases "y = 0") (auto simp: quot_zero_def)
  have yoe: "0 \<le> y mod 400" "y mod 400 < 400" by simp_all
  have "y - y div 400 * 400 = y mod 400" by (simp add: minus_div_mult_eq_mod)
  then show "wrap_u64 (wrap_i64 (y - quot_zero y 400 * 400)) = y mod 400"
    using yoe by (simp add: td wrap_i64_id wrap_u64_id)
  show "wrap_u64 (153 * mp + 2) div 5 = month_days mp"
    using assms by (simp add: wrap_u64_id month_days_def)
  have md: "0 \<le> month_days mp" "month_days mp \<le> 400" using assms by (auto simp: month_days_def)
  then show "wrap_u64 (month_days mp + d - 1) = month_days mp + d - 1"
    using assms by (intro wrap_u64_id) auto
  define doe where "doe = y mod 400 * 365 + y mod 400 div 4 - y mod 400 div 100 + (month_days mp + d - 1)"
  have "0 \<le> y mod 400 div 4" "y mod 400 div 4 \<le> 99" "y mod 400 div 100 \<le> y mod 400"
    "0 \<le> y mod 400 div 100" using yoe by linarith+
  then have doe: "0 \<le> doe" "doe \<le> 200000" using md assms yoe unfolding doe_def by linarith+
  have e: "0 \<le> y div 400" "y div 400 \<le> 2 ^ 40" using assms by linarith+
  have sum: "y div 400 * 146097 + doe - 719468 = year_days y + month_days mp + d - 719469"
    using year_days_era [of y] by (simp add: doe_def)
  have "wrap_i64 (y div 400 * 146097 + doe - 719468) = y div 400 * 146097 + doe - 719468"
    using e doe by (intro wrap_i64_id) auto
  then show "wrap_i64 (quot_zero y 400 * 146097 +
      wrap_i64 (wrap_u64 (y mod 400 * 365 + y mod 400 div 4 - y mod 400 div 100 +
        (month_days mp + d - 1))) - 719468) = year_days y + month_days mp + d - 719469"
    using doe by (simp add: td wrap_u64_id wrap_i64_id sum flip: doe_def)
qed

lemma days_from_civil_eq:
  assumes "1 \<le> y" "y \<le> 2 ^ 40" "1 \<le> m" "m \<le> 12" "1 \<le> d" "d \<le> 31"
  shows "days_from_civil y m d =
    (if m \<le> 2 then year_days (y - 1) + month_days (m + 9) else year_days y + month_days (m - 3)) +
      d - 719469"
proof -
  have w: "wrap_i64 (y - 1) = y - 1" "wrap_u64 m = m" "wrap_u64 d = d"
    using assms by (auto intro: wrap_i64_id wrap_u64_id)
  show ?thesis
  proof (cases "m \<le> 2")
    case True
    then show ?thesis
      using days_wraps [of "y - 1" "m + 9" d] assms
      by (simp add: days_from_civil_def w del: of_int_add)
  next
    case False
    then show ?thesis
      using days_wraps [of y "m - 3" d] assms by (simp add: days_from_civil_def w)
  qed
qed

lemma days_from_civil_epoch: "days_from_civil 1970 1 1 = 0"
  by (simp add: days_from_civil_eq year_days_def month_days_def)

lemma days_from_civil_next:
  assumes "valid_date y m d" and "next_day y m d = (y', m', d')"
  shows "days_from_civil y' m' d' = days_from_civil y m d + 1"
proof -
  have v: "1 \<le> y" "y < 2 ^ 40" "1 \<le> m" "m \<le> 12" "1 \<le> d" "d \<le> days_in_month y m"
    using assms(1) by (auto simp: valid_date_def)
  have dm: "days_in_month y m \<le> 31" "28 \<le> days_in_month y m" by (auto simp: days_in_month_def)
  note eq = days_from_civil_eq
  from v(3,4) have m: "m \<in> {1, 2, 3, 4, 5, 6, 7, 8, 9, 10, 11, 12}"
    by (simp, presburger)
  consider (same) "d < days_in_month y m" | (month) "d = days_in_month y m" "m < 12"
    | (year) "d = days_in_month y m" "m = 12" using v by linarith
  then show ?thesis
  proof cases
    case same
    then have "(y', m', d') = (y, m, d + 1)" using assms(2) by (simp add: next_day_def)
    then show ?thesis using v dm same by (simp add: eq)
  next
    case month
    then have n: "(y', m', d') = (y, m + 1, 1)" using assms(2) by (simp add: next_day_def)
    show ?thesis
      using n v dm month m year_days_step [of y]
      by (auto simp: eq month_days_def days_in_month_def)
  next
    case year
    then have n: "(y', m', d') = (y + 1, 1, 1)" using assms(2) by (simp add: next_day_def)
    show ?thesis using n v year by (auto simp: eq month_days_def days_in_month_def)
  qed
qed

section \<open>Pairing loses no response\<close>

lemma foldl_pair_one_keeps:
  assumes "length paired = length reqs" "i < length reqs" "paired ! i = Some r"
  shows "foldl (pair_one reqs) paired resps ! i = Some r"
  using assms
proof (induction resps arbitrary: paired)
  case (Cons x resps)
  have "pair_one reqs paired x ! i = Some r"
    using Cons.prems(1)
  proof (cases rule: pair_one_cases [where resp = x])
    case (pick j)
    then have "i \<noteq> j" using Cons.prems(3) by auto
    then show ?thesis using pick(3) Cons.prems(3) by simp
  qed (simp add: Cons.prems)
  then show ?case using Cons.IH Cons.prems by simp
qed simp

text \<open>
  A request that ends unanswered was open at every turn, so every response it could have taken went
  to another request, one at least as late.
\<close>

lemma pair_responses_unanswered:
  assumes len: "length paired = length reqs" and i: "i < length reqs"
    and open_slot: "foldl (pair_one reqs) paired resps ! i = None"
    and r: "r \<in> set resps" and el: "eligible r (reqs ! i, None)"
  shows "\<exists>j < length reqs. foldl (pair_one reqs) paired resps ! j = Some r \<and>
    sb_timestamp (reqs ! i) \<le> sb_timestamp (reqs ! j)"
  using len open_slot r
proof (induction resps arbitrary: paired)
  case (Cons x resps)
  let ?p = "pair_one reqs paired x"
  have none: "paired ! i = None"
    using foldl_pair_one_keeps [OF Cons.prems(1) i, of _ "x # resps"] Cons.prems(2)
    by (cases "paired ! i") auto
  show ?case
  proof (cases "x = r")
    case True
    have "(reqs ! i, None) \<in> set (zip reqs paired)"
      using i Cons.prems(1) none by (auto simp: set_zip intro!: exI [of _ i])
    with Cons.prems(1) show ?thesis
    proof (cases rule: pair_one_cases [where resp = x])
      case (pick j)
      then have "?p ! j = Some r" using True Cons.prems(1) by simp
      then have "foldl (pair_one reqs) ?p resps ! j = Some r"
        using foldl_pair_one_keeps [of ?p reqs j r resps] Cons.prems(1) pick(1) by simp
      moreover have "sb_timestamp (reqs ! i) \<le> sb_timestamp (reqs ! j)"
        using pick(6) el True \<open>(reqs ! i, None) \<in> set (zip reqs paired)\<close> by fastforce
      ultimately show ?thesis using pick(1) by auto
    qed (use el True in auto)
  next
    case False
    then show ?thesis using Cons.IH [of ?p] Cons.prems by simp
  qed
qed simp

section \<open>Properties\<close>

text \<open>
  C30. Pairing neither drops nor invents a purchase: the rows are, with multiplicity, one per request
  event of each kind, carrying that request's time and raw body, and they come out ordered by start
  time.
\<close>

theorem pair_transactions_conserves:
  "mset (map tx_row (pair_transactions evs now w)) = mset (List.map_filter request_row evs) \<and>
   sorted (map tx_started_at (pair_transactions evs now w))"
proof
  have "mset (map tx_row (pair_transactions evs now w)) =
      mset (map tx_row (map (shop_transaction (parse_iso_secs now) w)
          (zip (shop_requests evs) (pair_responses (shop_requests evs) (shop_responses evs)))) @
        map tx_row (map buy_transaction (commodity_buys evs)) @
        map tx_row (map sell_transaction (commodity_sells evs)))"
    by (simp only: pair_transactions_def Let_def mset_map_sort_key map_append)
  also have "\<dots> =
      mset (map (\<lambda>r. (TxShop, sb_timestamp r, sb_raw r)) (shop_requests evs)) +
      mset (map (\<lambda>r. (TxCommodityBuy, cb_timestamp r, cb_raw r)) (commodity_buys evs)) +
      mset (map (\<lambda>r. (TxCommoditySell, csl_timestamp r, csl_raw r)) (commodity_sells evs))"
    by (subst map_shop_transaction_zip) (simp_all add: buy_transaction_def sell_transaction_def
        o_def del: mset_map)
  also have "\<dots> = mset (List.map_filter request_row evs)"
    by (induction evs) (auto simp: List.map_filter_simps split: game_event.splits)
  finally show "mset (map tx_row (pair_transactions evs now w)) = mset (List.map_filter request_row evs)" .
  show "sorted (map tx_started_at (pair_transactions evs now w))"
    by (simp add: pair_transactions_def Let_def)
qed

text \<open>
  A row that claims an answer has one: a confirmation time on a row means the row is a shop
  purchase and some logged response carries that time, arrived no earlier than the request, concerns
  the same shop when both name one, and decided the row's status.
\<close>

theorem confirmed_by_a_response:
  assumes "t \<in> set (pair_transactions evs now w)" and "tx_confirmed_at t = Some c"
  shows "tx_kind t = TxShop \<and>
    (\<exists>r. ShopFlowResponse r \<in> set evs \<and> sf_timestamp r = c \<and> tx_started_at t \<le> c \<and>
       shop_compatible (sf_shop_id r) (tx_shop_id t) \<and> tx_raw_response t = Some (sf_raw r) \<and>
       tx_status t = (if sf_success r = Some False then Rejected else Confirmed))"
proof -
  from assms obtain req p where
    in_zip: "(req, p) \<in> set (zip (shop_requests evs) (pair_responses (shop_requests evs) (shop_responses evs)))"
    and t: "t = shop_transaction (parse_iso_secs now) w (req, p)"
    by (auto simp: set_pair_transactions buy_transaction_def sell_transaction_def)
  from assms(2) obtain r where p: "p = Some r" and c: "sf_timestamp r = c"
    by (auto simp: t shop_transaction_def Let_def)
  have "ShopFlowResponse r \<in> set evs \<and> shop_compatible (sf_shop_id r) (sb_shop_id req) \<and>
      sb_timestamp req \<le> sf_timestamp r"
    using paired_slot [OF in_zip [unfolded p]] by (simp add: set_shop_responses)
  then show ?thesis
    using c by (auto simp: t p shop_transaction_def Let_def shop_status_def intro!: exI [of _ r]
        split: option.splits bool.splits)
qed

theorem confirmed_by_a_response_witness:
  "let a = \<lparr>sb_timestamp = ''10'', sb_shop_id = Some ''k'', sb_item_class = None, sb_quantity = None, sb_raw = ''q''\<rparr>;
       r = \<lparr>sf_timestamp = ''11'', sf_shop_id = None, sf_success = Some False, sf_raw = ''p''\<rparr>;
       evs = [ShopBuyRequest a, ShopFlowResponse r];
       t = hd (pair_transactions evs '''' 30)
   in t \<in> set (pair_transactions evs '''' 30) \<and> tx_confirmed_at t = Some ''11'' \<and>
      tx_kind t = TxShop \<and> tx_status t = Rejected"
  using confirmed_by_a_response
    [of "\<lparr>tx_kind = TxShop, tx_status = Rejected, tx_started_at = ''10'', tx_confirmed_at = Some ''11'',
         tx_shop_id = Some ''k'', tx_item = None, tx_quantity = None, tx_raw_request = ''q'',
         tx_raw_response = Some ''p''\<rparr>"
      "[ShopBuyRequest \<lparr>sb_timestamp = ''10'', sb_shop_id = Some ''k'', sb_item_class = None, sb_quantity = None, sb_raw = ''q''\<rparr>,
        ShopFlowResponse \<lparr>sf_timestamp = ''11'', sf_shop_id = None, sf_success = Some False, sf_raw = ''p''\<rparr>]"
      "''''" 30 "''11''"]
  by (simp add: pair_transactions_def pair_responses_def pair_one_def eligible_def shop_compatible_def
      shop_transaction_def shop_status_def Let_def)

text \<open>
  A response answers at most one purchase: the raw responses shown on the rows are, with
  multiplicity, among the responses that were logged.
\<close>

theorem responses_used_once:
  "mset (somes (map tx_raw_response (pair_transactions evs now w))) \<subseteq># mset (map sf_raw (shop_responses evs))"
proof -
  let ?p = "pair_responses (shop_requests evs) (shop_responses evs)"
  have "mset (somes (map tx_raw_response (pair_transactions evs now w))) =
      mset (somes (map tx_raw_response
        (map (shop_transaction (parse_iso_secs now) w) (zip (shop_requests evs) ?p) @
         map buy_transaction (commodity_buys evs) @ map sell_transaction (commodity_sells evs))))"
    by (simp only: mset_somes_map pair_transactions_def Let_def mset_sort)
  also have "\<dots> = mset (map sf_raw (somes ?p))"
    by (simp add: somes_raw_responses [simplified] buy_transaction_def sell_transaction_def del: mset_map)
  also have "\<dots> \<subseteq># mset (map sf_raw (shop_responses evs))"
    using pair_responses_ok [of "shop_requests evs" "shop_responses evs"]
    by (simp add: pairing_ok_def image_mset_subseteq_mono)
  finally show ?thesis .
qed

text \<open>
  No answer is wasted while a purchase is left waiting: when a shop row has no confirmation,
  every logged response it could have taken is shown on another row, one that started no earlier.
\<close>

theorem unanswered_only_when_taken:
  assumes "t \<in> set (pair_transactions evs now w)" and "tx_kind t = TxShop" and "tx_confirmed_at t = None"
    and "ShopFlowResponse r \<in> set evs" and "shop_compatible (sf_shop_id r) (tx_shop_id t)"
    and "tx_started_at t \<le> sf_timestamp r"
  shows "\<exists>t' \<in> set (pair_transactions evs now w). tx_raw_response t' = Some (sf_raw r) \<and>
    tx_confirmed_at t' = Some (sf_timestamp r) \<and> tx_started_at t \<le> tx_started_at t'"
proof -
  let ?reqs = "shop_requests evs"
  let ?p = "pair_responses ?reqs (shop_responses evs)"
  let ?tx = "shop_transaction (parse_iso_secs now) w"
  from assms(1,2) obtain i where i: "i < length ?reqs" and t: "t = ?tx (?reqs ! i, ?p ! i)"
    by (auto simp: set_pair_transactions buy_transaction_def sell_transaction_def set_zip)
  then have none: "?p ! i = None" using assms(3) by (simp add: shop_transaction_def Let_def)
  have "eligible r (?reqs ! i, None)"
    using assms(5,6) by (simp add: t eligible_def shop_transaction_def Let_def)
  then obtain j where j: "j < length ?reqs" "?p ! j = Some r"
    "sb_timestamp (?reqs ! i) \<le> sb_timestamp (?reqs ! j)"
    using pair_responses_unanswered [of "replicate (length ?reqs) None" ?reqs i "shop_responses evs" r]
      i none assms(4) by (auto simp: pair_responses_def set_shop_responses)
  have "(?reqs ! j, ?p ! j) \<in> set (zip ?reqs ?p)" using j(1) by (auto simp: set_zip)
  then have "?tx (?reqs ! j, ?p ! j) \<in> set (pair_transactions evs now w)"
    by (auto simp: set_pair_transactions)
  then show ?thesis
    using j by (intro bexI) (auto simp: t shop_transaction_def Let_def)
qed

theorem unanswered_only_when_taken_witness:
  "let a = \<lparr>sb_timestamp = ''10'', sb_shop_id = None, sb_item_class = None, sb_quantity = None, sb_raw = ''a''\<rparr>;
       b = \<lparr>sb_timestamp = ''11'', sb_shop_id = None, sb_item_class = None, sb_quantity = None, sb_raw = ''b''\<rparr>;
       r = \<lparr>sf_timestamp = ''12'', sf_shop_id = None, sf_success = None, sf_raw = ''p''\<rparr>
   in \<exists>t' \<in> set (pair_transactions [ShopBuyRequest a, ShopBuyRequest b, ShopFlowResponse r] '''' 30).
        tx_raw_response t' = Some ''p'' \<and> ''10'' \<le> tx_started_at t'"
  using unanswered_only_when_taken
    [of "\<lparr>tx_kind = TxShop, tx_status = Pending, tx_started_at = ''10'', tx_confirmed_at = None,
         tx_shop_id = None, tx_item = None, tx_quantity = None, tx_raw_request = ''a'',
         tx_raw_response = None\<rparr>"
      "[ShopBuyRequest \<lparr>sb_timestamp = ''10'', sb_shop_id = None, sb_item_class = None, sb_quantity = None, sb_raw = ''a''\<rparr>,
        ShopBuyRequest \<lparr>sb_timestamp = ''11'', sb_shop_id = None, sb_item_class = None, sb_quantity = None, sb_raw = ''b''\<rparr>,
        ShopFlowResponse \<lparr>sf_timestamp = ''12'', sf_shop_id = None, sf_success = None, sf_raw = ''p''\<rparr>]"
      "''''" 30 "\<lparr>sf_timestamp = ''12'', sf_shop_id = None, sf_success = None, sf_raw = ''p''\<rparr>"]
  by (simp add: pair_transactions_def pair_responses_def pair_one_def eligible_def shop_compatible_def
      shop_transaction_def shop_status_def age_status_def parse_iso_secs_def Let_def)

text \<open>
  The hand-written calendar counts days: it maps 1 January 1970 to 0 and any valid date's
  successor, leap years and month ends included, to the next integer, with no wrap-around for a
  positive year below \<open>2 ^ 40\<close>.
\<close>

theorem calendar_counts_days:
  assumes "valid_date y m d" and "next_day y m d = (y', m', d')"
  shows "days_from_civil 1970 1 1 = 0 \<and> days_from_civil y' m' d' = days_from_civil y m d + 1"
  using days_from_civil_next [OF assms] days_from_civil_epoch by (rule conjI [rotated])

theorem calendar_counts_days_witness:
  "days_from_civil 1970 1 1 = 0 \<and> days_from_civil 2024 2 29 = days_from_civil 2024 2 28 + 1"
  using calendar_counts_days [of 2024 2 28 2024 2 29]
  by (simp add: valid_date_def next_day_def days_in_month_def is_leap_def)

text \<open>
  With several purchases open at one shop, the answers are handed out newest purchase first:
  the first response goes to the latest request, so two requests and two in-order responses are
  paired crosswise.
\<close>

theorem pairing_is_last_in_first_out:
  assumes "t1 \<le> t2" and "t2 \<le> u1" and "t2 \<le> u2"
  shows "pair_responses
      [\<lparr>sb_timestamp = t1, sb_shop_id = k, sb_item_class = c1, sb_quantity = q1, sb_raw = w1\<rparr>,
       \<lparr>sb_timestamp = t2, sb_shop_id = k, sb_item_class = c2, sb_quantity = q2, sb_raw = w2\<rparr>]
      [\<lparr>sf_timestamp = u1, sf_shop_id = k, sf_success = s1, sf_raw = x1\<rparr>,
       \<lparr>sf_timestamp = u2, sf_shop_id = k, sf_success = s2, sf_raw = x2\<rparr>] =
    [Some \<lparr>sf_timestamp = u2, sf_shop_id = k, sf_success = s2, sf_raw = x2\<rparr>,
     Some \<lparr>sf_timestamp = u1, sf_shop_id = k, sf_success = s1, sf_raw = x1\<rparr>]"
proof -
  have "t1 \<le> u1" "t1 \<le> u2" using assms order_trans by blast+
  then show ?thesis
    using assms by (simp add: pair_responses_def pair_one_def eligible_def shop_compatible_def split: option.splits)
qed

theorem pairing_is_last_in_first_out_witness:
  "map (map_option sf_raw) (pair_responses
      [\<lparr>sb_timestamp = ''10'', sb_shop_id = None, sb_item_class = None, sb_quantity = None, sb_raw = ''a''\<rparr>,
       \<lparr>sb_timestamp = ''12'', sb_shop_id = None, sb_item_class = None, sb_quantity = None, sb_raw = ''b''\<rparr>]
      [\<lparr>sf_timestamp = ''13'', sf_shop_id = None, sf_success = None, sf_raw = ''x''\<rparr>,
       \<lparr>sf_timestamp = ''14'', sf_shop_id = None, sf_success = None, sf_raw = ''y''\<rparr>]) =
    [Some ''y'', Some ''x'']"
  by (subst pairing_is_last_in_first_out) simp_all

end
