(* ===== verification/Metadata.thy ===== *)
theory Metadata
  imports Complex_Main Events
begin

text \<open>
  Models \<^verbatim>\<open>crates/starstats-core/src/metadata.rs\<close> and the wire types of
  \<^verbatim>\<open>crates/starstats-core/src/wire.rs\<close> that carry it: the entity vocabulary, the dispatch from an
  event to its primary entity, the snake-case type key, the timeline group key and \<open>stamp\<close>.
  The lemmas show that the type key is the serde name of the variant, and that a group key
  determines the event type, the entity kind and the entity id it was built from.
\<close>

section \<open>Vocabulary\<close>

datatype entity_kind =
    KPlayer | KVehicle | KItem | KLocation | KShop | KMission | KSession | KSystem

fun entity_kind_key :: "entity_kind \<Rightarrow> string" where
  "entity_kind_key KPlayer = ''player''"
| "entity_kind_key KVehicle = ''vehicle''"
| "entity_kind_key KItem = ''item''"
| "entity_kind_key KLocation = ''location''"
| "entity_kind_key KShop = ''shop''"
| "entity_kind_key KMission = ''mission''"
| "entity_kind_key KSession = ''session''"
| "entity_kind_key KSystem = ''system''"

record entity_ref =
  er_kind :: entity_kind
  er_id :: string
  er_display_name :: string

datatype event_source = Observed | Inferred | Synthesized

datatype field_provenance =
    ProvObserved
  | InferredFrom "string list" string

text \<open>
  A confidence is an \<open>f32\<close>: not a number, an infinity (\<open>True\<close> for the positive one), or a finite
  value. The code only compares it with 0, 1 and the machine epsilon; on finite values in
  \<open>[0, 1]\<close> those comparisons are exact, so the finite values are rationals.
\<close>

datatype f32 = F32_NaN | F32_Inf bool | F32 rat

record event_metadata =
  em_primary_entity :: entity_ref
  em_source :: event_source
  em_confidence :: f32
  em_group_key :: string
  em_field_provenance :: "string \<rightharpoonup> field_provenance"
  em_inference_inputs :: "string list"
  em_rule_id :: "string option"

datatype log_source = Live | Ptu | Eptu | Hotfix | Tech | OtherSource

record event_envelope =
  ee_idempotency_key :: string
  ee_raw_line :: string
  ee_event :: "game_event option"
  ee_source :: log_source
  ee_source_offset :: u64
  ee_metadata :: "event_metadata option"

record ingest_batch =
  ib_schema_version :: u16
  ib_batch_id :: string
  ib_game_build :: "string option"
  ib_claimed_handle :: string
  ib_events :: "event_envelope list"

definition CURRENT_SCHEMA_VERSION :: u16 where
  "CURRENT_SCHEMA_VERSION = 2"

section \<open>Building metadata\<close>

definition observed_metadata :: "entity_ref \<Rightarrow> string \<Rightarrow> event_metadata" where
  "observed_metadata primary_entity group_key =
     \<lparr>em_primary_entity = primary_entity, em_source = Observed, em_confidence = F32 1,
      em_group_key = group_key, em_field_provenance = Map.empty, em_inference_inputs = [],
      em_rule_id = None\<rparr>"

definition UNKNOWN_ID :: string where
  "UNKNOWN_ID = ''unknown''"

definition entity_with_fallback ::
    "entity_kind \<Rightarrow> string option \<Rightarrow> string option \<Rightarrow> entity_ref" where
  "entity_with_fallback kind ident display_name =
     (let i = (case ident of Some s \<Rightarrow> s | None \<Rightarrow> UNKNOWN_ID);
          d = (case display_name of Some s \<Rightarrow> s | None \<Rightarrow> i)
      in \<lparr>er_kind = kind, er_id = i, er_display_name = d\<rparr>)"

abbreviation entity :: "entity_kind \<Rightarrow> string \<Rightarrow> string \<Rightarrow> entity_ref" where
  "entity k i d \<equiv> \<lparr>er_kind = k, er_id = i, er_display_name = d\<rparr>"

definition local_player :: "string option \<Rightarrow> entity_ref" where
  "local_player claimed_handle =
     (let handle = (case claimed_handle of Some h \<Rightarrow> h | None \<Rightarrow> UNKNOWN_ID)
      in entity KPlayer handle handle)"

fun primary_entity_for :: "game_event \<Rightarrow> string option \<Rightarrow> entity_ref" where
  "primary_entity_for (PlayerDeath e) h = local_player h"
| "primary_entity_for (PlayerIncapacitated e) h = local_player h"
| "primary_entity_for (LegacyLogin e) h = entity KPlayer (ll_handle e) (ll_handle e)"
| "primary_entity_for (ActorDeath e) h = entity KPlayer (ad_victim e) (ad_victim e)"
| "primary_entity_for (ResolveSpawn e) h = entity KPlayer (rs_player_geid e) (rs_player_geid e)"
| "primary_entity_for (VehicleDestruction e) h =
     entity KVehicle (case vd_vehicle_id e of Some i \<Rightarrow> i | None \<Rightarrow> UNKNOWN_ID) (vd_vehicle_class e)"
| "primary_entity_for (VehicleStowed e) h = entity KVehicle (vs_vehicle_id e) (vs_vehicle_id e)"
| "primary_entity_for (QuantumTargetSelected e) h =
     entity KVehicle (qt_vehicle_id e) (qt_vehicle_class e)"
| "primary_entity_for (AttachmentReceived e) h = entity KItem (ar_item_id e) (ar_item_class e)"
| "primary_entity_for (LocationInventoryRequested e) h =
     entity KLocation (li_location e) (li_location e)"
| "primary_entity_for (PlanetTerrainLoad e) h = entity KLocation (pt_planet e) (pt_planet e)"
| "primary_entity_for (SeedSolarSystem e) h =
     entity KLocation (ss_solar_system e) (ss_solar_system e)"
| "primary_entity_for (ShopBuyRequest e) h = entity_with_fallback KShop (sb_shop_id e) None"
| "primary_entity_for (ShopFlowResponse e) h = entity_with_fallback KShop (sf_shop_id e) None"
| "primary_entity_for (CommodityBuyRequest e) h = entity_with_fallback KShop (cb_commodity e) None"
| "primary_entity_for (CommoditySellRequest e) h =
     entity_with_fallback KShop (csl_commodity e) None"
| "primary_entity_for (MissionStart e) h =
     entity KMission (ms_mission_id e)
       (case ms_mission_name e of Some n \<Rightarrow> n | None \<Rightarrow> ms_mission_id e)"
| "primary_entity_for (MissionEnd e) h = entity_with_fallback KMission (me_mission_id e) None"
| "primary_entity_for (ProcessInit e) h =
     entity KSession (pi_local_session e) (pi_local_session e)"
| "primary_entity_for (JoinPu e) h = entity KSession (jp_shard e) (jp_shard e)"
| "primary_entity_for (ChangeServer e) h = entity KSession ''session'' ''session''"
| "primary_entity_for (SessionEnd e) h = entity KSession ''session'' ''session''"
| "primary_entity_for (HudNotification e) h = entity KSystem ''hud'' ''HUD''"
| "primary_entity_for (GameCrash e) h = entity KSystem ''crash'' ''crash''"
| "primary_entity_for (LauncherActivity e) h = entity KSystem ''launcher'' ''launcher''"
| "primary_entity_for (RemoteMatch e) h = entity KSystem (rm_event_name e) (rm_event_name e)"
| "primary_entity_for (BurstSummary e) h = entity KSystem (bs_rule_id e) (bs_rule_id e)"
| "primary_entity_for (LocationChanged e) h = entity KLocation (lc_to e) (lc_to e)"
| "primary_entity_for (ShopRequestTimedOut e) h = entity_with_fallback KShop (st_shop_id e) None"

fun event_type_key :: "game_event \<Rightarrow> string" where
  "event_type_key (ProcessInit e) = ''process_init''"
| "event_type_key (LegacyLogin e) = ''legacy_login''"
| "event_type_key (JoinPu e) = ''join_pu''"
| "event_type_key (ChangeServer e) = ''change_server''"
| "event_type_key (SeedSolarSystem e) = ''seed_solar_system''"
| "event_type_key (ResolveSpawn e) = ''resolve_spawn''"
| "event_type_key (ActorDeath e) = ''actor_death''"
| "event_type_key (PlayerDeath e) = ''player_death''"
| "event_type_key (PlayerIncapacitated e) = ''player_incapacitated''"
| "event_type_key (VehicleDestruction e) = ''vehicle_destruction''"
| "event_type_key (HudNotification e) = ''hud_notification''"
| "event_type_key (LocationInventoryRequested e) = ''location_inventory_requested''"
| "event_type_key (PlanetTerrainLoad e) = ''planet_terrain_load''"
| "event_type_key (QuantumTargetSelected e) = ''quantum_target_selected''"
| "event_type_key (AttachmentReceived e) = ''attachment_received''"
| "event_type_key (VehicleStowed e) = ''vehicle_stowed''"
| "event_type_key (GameCrash e) = ''game_crash''"
| "event_type_key (LauncherActivity e) = ''launcher_activity''"
| "event_type_key (MissionStart e) = ''mission_start''"
| "event_type_key (MissionEnd e) = ''mission_end''"
| "event_type_key (ShopBuyRequest e) = ''shop_buy_request''"
| "event_type_key (ShopFlowResponse e) = ''shop_flow_response''"
| "event_type_key (CommodityBuyRequest e) = ''commodity_buy_request''"
| "event_type_key (CommoditySellRequest e) = ''commodity_sell_request''"
| "event_type_key (SessionEnd e) = ''session_end''"
| "event_type_key (RemoteMatch e) = ''remote_match''"
| "event_type_key (BurstSummary e) = ''burst_summary''"
| "event_type_key (LocationChanged e) = ''location_changed''"
| "event_type_key (ShopRequestTimedOut e) = ''shop_request_timed_out''"

definition compose_group_key :: "game_event \<Rightarrow> entity_ref \<Rightarrow> string" where
  "compose_group_key ev ent =
     event_type_key ev @ '':'' @ entity_kind_key (er_kind ent) @ '':'' @ er_id ent"

definition group_key_for :: "game_event \<Rightarrow> string option \<Rightarrow> string" where
  "group_key_for ev claimed_handle = compose_group_key ev (primary_entity_for ev claimed_handle)"

definition provenance_for_inferred_field :: "string \<Rightarrow> event_envelope list \<Rightarrow> field_provenance" where
  "provenance_for_inferred_field field sources =
     (if sources = [] then ProvObserved
      else InferredFrom (map ee_idempotency_key sources)
             (''inferred_'' @ field @ ''_from_sources''))"

definition stamp :: "game_event \<Rightarrow> string option \<Rightarrow> event_metadata" where
  "stamp ev claimed_handle =
     (let primary = primary_entity_for ev claimed_handle
      in observed_metadata primary (compose_group_key ev primary))"

text \<open>
  The variant identifiers of the Rust enum and serde's \<open>snake_case\<close> renaming rule (an underscore
  before every upper-case letter but the first, everything lower-cased): the wire discriminator
  the type key has to agree with.
\<close>

fun variant_name :: "game_event \<Rightarrow> string" where
  "variant_name (ProcessInit e) = ''ProcessInit''"
| "variant_name (LegacyLogin e) = ''LegacyLogin''"
| "variant_name (JoinPu e) = ''JoinPu''"
| "variant_name (ChangeServer e) = ''ChangeServer''"
| "variant_name (SeedSolarSystem e) = ''SeedSolarSystem''"
| "variant_name (ResolveSpawn e) = ''ResolveSpawn''"
| "variant_name (ActorDeath e) = ''ActorDeath''"
| "variant_name (PlayerDeath e) = ''PlayerDeath''"
| "variant_name (PlayerIncapacitated e) = ''PlayerIncapacitated''"
| "variant_name (VehicleDestruction e) = ''VehicleDestruction''"
| "variant_name (HudNotification e) = ''HudNotification''"
| "variant_name (LocationInventoryRequested e) = ''LocationInventoryRequested''"
| "variant_name (PlanetTerrainLoad e) = ''PlanetTerrainLoad''"
| "variant_name (QuantumTargetSelected e) = ''QuantumTargetSelected''"
| "variant_name (AttachmentReceived e) = ''AttachmentReceived''"
| "variant_name (VehicleStowed e) = ''VehicleStowed''"
| "variant_name (GameCrash e) = ''GameCrash''"
| "variant_name (LauncherActivity e) = ''LauncherActivity''"
| "variant_name (MissionStart e) = ''MissionStart''"
| "variant_name (MissionEnd e) = ''MissionEnd''"
| "variant_name (ShopBuyRequest e) = ''ShopBuyRequest''"
| "variant_name (ShopFlowResponse e) = ''ShopFlowResponse''"
| "variant_name (CommodityBuyRequest e) = ''CommodityBuyRequest''"
| "variant_name (CommoditySellRequest e) = ''CommoditySellRequest''"
| "variant_name (SessionEnd e) = ''SessionEnd''"
| "variant_name (RemoteMatch e) = ''RemoteMatch''"
| "variant_name (BurstSummary e) = ''BurstSummary''"
| "variant_name (LocationChanged e) = ''LocationChanged''"
| "variant_name (ShopRequestTimedOut e) = ''ShopRequestTimedOut''"

definition is_upper :: "char \<Rightarrow> bool" where
  "is_upper c \<longleftrightarrow> CHR ''A'' \<le> c \<and> c \<le> CHR ''Z''"

fun snake_tail :: "string \<Rightarrow> string" where
  "snake_tail [] = []"
| "snake_tail (c # cs) =
     (if is_upper c then [CHR ''_'', to_lower_char c] else [c]) @ snake_tail cs"

fun snake_case :: "string \<Rightarrow> string" where
  "snake_case [] = []"
| "snake_case (c # cs) = to_lower_char c # snake_tail cs"

section \<open>Lemmas\<close>

lemma entity_kind_key_inject [simp]: "entity_kind_key a = entity_kind_key b \<longleftrightarrow> a = b"
  by (cases a; cases b) simp_all

lemma entity_kind_key_no_colon: "CHR '':'' \<notin> set (entity_kind_key k)"
  by (cases k) simp_all

lemma event_type_key_no_colon: "CHR '':'' \<notin> set (event_type_key e)"
  by (cases e) simp_all

text \<open>Two concatenations around a separator that the left parts avoid agree part by part.\<close>

lemma append_sep_inject:
  assumes "c \<notin> set a" and "c \<notin> set a'"
  shows "a @ c # b = a' @ c # b' \<longleftrightarrow> a = a' \<and> b = b'"
proof
  assume eq: "a @ c # b = a' @ c # b'"
  have "a = takeWhile (\<lambda>x. x \<noteq> c) (a @ c # b)"
    using assms(1) by (induction a) auto
  also have "\<dots> = takeWhile (\<lambda>x. x \<noteq> c) (a' @ c # b')" by (simp only: eq)
  also have "\<dots> = a'" using assms(2) by (induction a') auto
  finally show "a = a' \<and> b = b'" using eq by simp
qed simp

lemma compose_group_key_inject:
  "compose_group_key e a = compose_group_key e' a' \<longleftrightarrow>
     event_type_key e = event_type_key e' \<and> er_kind a = er_kind a' \<and> er_id a = er_id a'"
  unfolding compose_group_key_def
  by (simp add: append_sep_inject event_type_key_no_colon entity_kind_key_no_colon)

lemma stamp_group_key [simp]: "em_group_key (stamp e h) = group_key_for e h"
  by (simp add: stamp_def observed_metadata_def group_key_for_def Let_def)

lemma stamp_fields [simp]:
  "em_primary_entity (stamp e h) = primary_entity_for e h"
  "em_source (stamp e h) = Observed"
  "em_confidence (stamp e h) = F32 1"
  "em_inference_inputs (stamp e h) = []"
  "em_rule_id (stamp e h) = None"
  by (simp_all add: stamp_def observed_metadata_def Let_def)

section \<open>Properties\<close>

text \<open>
  The key of an event is the serde discriminator of its variant: the snake-case form of the
  variant's identifier, for every one of the 29 variants.
\<close>

theorem event_type_key_is_serde_name: "event_type_key e = snake_case (variant_name e)"
  by (cases e) (simp_all add: is_upper_def to_lower_char_def)

text \<open>
  A group key identifies what it was built from: two events get the same key exactly when
  they have the same type key, the same entity kind and the same entity id, whatever characters
  (colons included) the id holds.
\<close>

theorem group_key_identifies_entity:
  "group_key_for e h = group_key_for e' h' \<longleftrightarrow>
     event_type_key e = event_type_key e' \<and>
     er_kind (primary_entity_for e h) = er_kind (primary_entity_for e' h') \<and>
     er_id (primary_entity_for e h) = er_id (primary_entity_for e' h')"
  by (simp add: group_key_for_def compose_group_key_inject)

end
