(* ===== verification/Validators.thy ===== *)
theory Validators
  imports Metadata
begin

text \<open>
  Models \<^verbatim>\<open>crates/starstats-core/src/validators.rs\<close>, the sanity checks the core crate offers for an
  uploaded event (the ingest handler does not call them, see \<open>Ingest\<close>). \<open>validate_event\<close> returns the first error in the order of the source; the
  lemmas give the exact set of envelopes it accepts and show that metadata built by
  \<open>stamp\<close> always passes.
\<close>

section \<open>Model\<close>

datatype validation_error =
    EmptyTimestamp
  | BadTimestamp
  | EmptyField string
  | BadPort u16
  | InvalidMetadata string

definition check_timestamp :: "string \<Rightarrow> validation_error + unit" where
  "check_timestamp ts =
     (if ts = [] then Inl EmptyTimestamp
      else
        (let has_separator = CHR ''T'' \<in> set ts \<or> CHR '' '' \<in> set ts;
             has_time_colon = CHR '':'' \<in> set ts
         in if \<not> has_separator \<or> \<not> has_time_colon then Inl BadTimestamp else Inr ()))"

fun validate_payload :: "game_event \<Rightarrow> validation_error + unit" where
  "validate_payload (LegacyLogin e) =
     (if ll_handle e = [] then Inl (EmptyField ''handle'') else Inr ())"
| "validate_payload (JoinPu e) =
     (if jp_shard e = [] then Inl (EmptyField ''shard'')
      else if jp_port e = 0 then Inl (BadPort (jp_port e))
      else Inr ())"
| "validate_payload (ActorDeath e) =
     (if ad_victim e = [] then Inl (EmptyField ''victim'')
      else if ad_killer e = [] then Inl (EmptyField ''killer'')
      else Inr ())"
| "validate_payload (VehicleDestruction e) =
     (if vd_vehicle_class e = [] then Inl (EmptyField ''vehicle_class'') else Inr ())"
| "validate_payload (BurstSummary e) =
     (if bs_rule_id e = [] then Inl (EmptyField ''rule_id'')
      else if bs_size e = 0 then Inl (EmptyField ''size'')
      else check_timestamp (bs_end_timestamp e))"
| "validate_payload _ = Inr ()"

definition validate_game_event :: "game_event \<Rightarrow> validation_error + unit" where
  "validate_game_event e = sbind (check_timestamp (timestamp_of e)) (\<lambda>_. validate_payload e)"

text \<open>The \<open>f32\<close> comparisons of the source; an ordering comparison with a NaN is false.\<close>

definition F32_EPSILON :: rat where
  "F32_EPSILON = 1 / 2 ^ 23"

fun in_unit_range :: "f32 \<Rightarrow> bool" where
  "in_unit_range (F32 q) = (0 \<le> q \<and> q \<le> 1)"
| "in_unit_range _ = False"

fun away_from_one :: "f32 \<Rightarrow> bool" where
  "away_from_one (F32 q) = (\<bar>q - 1\<bar> > F32_EPSILON)"
| "away_from_one (F32_Inf _) = True"
| "away_from_one F32_NaN = False"

fun at_least_one :: "f32 \<Rightarrow> bool" where
  "at_least_one (F32 q) = (q \<ge> 1)"
| "at_least_one (F32_Inf positive) = positive"
| "at_least_one F32_NaN = False"

definition validate_metadata :: "event_metadata \<Rightarrow> validation_error + unit" where
  "validate_metadata meta =
     (if \<not> in_unit_range (em_confidence meta) then Inl (InvalidMetadata ''confidence out of range'')
      else
        (case em_source meta of
           Observed \<Rightarrow>
             if away_from_one (em_confidence meta) \<or> em_inference_inputs meta \<noteq> [] then
               Inl (InvalidMetadata
                 ''observed event must have confidence=1.0 and no inference_inputs'')
             else Inr ()
         | Inferred \<Rightarrow>
             if at_least_one (em_confidence meta) \<or> em_inference_inputs meta = [] then
               Inl (InvalidMetadata
                 ''inferred event must have confidence<1.0 and at least one inference input'')
             else Inr ()
         | Synthesized \<Rightarrow> Inr ()))"

definition validate_event :: "event_envelope \<Rightarrow> validation_error + unit" where
  "validate_event envelope =
     sbind (case ee_event envelope of Some e \<Rightarrow> validate_game_event e | None \<Rightarrow> Inr ())
       (\<lambda>_. case ee_metadata envelope of Some m \<Rightarrow> validate_metadata m | None \<Rightarrow> Inr ())"

section \<open>What the validators accept\<close>

text \<open>A declarative description, independent of the order of the checks.\<close>

definition timestamp_plausible :: "string \<Rightarrow> bool" where
  "timestamp_plausible ts \<longleftrightarrow>
     (CHR ''T'' \<in> set ts \<or> CHR '' '' \<in> set ts) \<and> CHR '':'' \<in> set ts"

fun payload_plausible :: "game_event \<Rightarrow> bool" where
  "payload_plausible (LegacyLogin e) \<longleftrightarrow> ll_handle e \<noteq> []"
| "payload_plausible (JoinPu e) \<longleftrightarrow> jp_shard e \<noteq> [] \<and> jp_port e \<noteq> 0"
| "payload_plausible (ActorDeath e) \<longleftrightarrow> ad_victim e \<noteq> [] \<and> ad_killer e \<noteq> []"
| "payload_plausible (VehicleDestruction e) \<longleftrightarrow> vd_vehicle_class e \<noteq> []"
| "payload_plausible (BurstSummary e) \<longleftrightarrow>
     bs_rule_id e \<noteq> [] \<and> bs_size e \<noteq> 0 \<and> timestamp_plausible (bs_end_timestamp e)"
| "payload_plausible _ \<longleftrightarrow> True"

definition metadata_consistent :: "event_metadata \<Rightarrow> bool" where
  "metadata_consistent m \<longleftrightarrow>
     (\<exists>q. em_confidence m = F32 q \<and> 0 \<le> q \<and> q \<le> 1 \<and>
        (em_source m = Observed \<longrightarrow> 1 - q \<le> 1 / 2 ^ 23 \<and> em_inference_inputs m = []) \<and>
        (em_source m = Inferred \<longrightarrow> q < 1 \<and> em_inference_inputs m \<noteq> []))"

lemma check_timestamp_ok [simp]: "check_timestamp ts = Inr u \<longleftrightarrow> timestamp_plausible ts"
  by (auto simp: check_timestamp_def timestamp_plausible_def Let_def)

lemma validate_payload_ok: "validate_payload e = Inr () \<longleftrightarrow> payload_plausible e"
  by (cases e) auto

lemma validate_game_event_ok:
  "validate_game_event e = Inr () \<longleftrightarrow> timestamp_plausible (timestamp_of e) \<and> payload_plausible e"
  by (auto simp: validate_game_event_def outcome_simps validate_payload_ok)

lemma validate_metadata_ok: "validate_metadata m = Inr () \<longleftrightarrow> metadata_consistent m"
proof (cases "em_confidence m")
  case (F32 q)
  then show ?thesis
    by (cases "em_source m")
      (auto simp: validate_metadata_def metadata_consistent_def F32_EPSILON_def)
qed (auto simp: validate_metadata_def metadata_consistent_def)

lemma stamp_consistent: "metadata_consistent (stamp e h)"
  by (simp add: metadata_consistent_def)

section \<open>Properties\<close>

text \<open>
  The validators accept an envelope exactly when its parsed event (if any) has a plausible
  timestamp and the fields its variant requires, and its metadata (if any) respects the
  confidence and provenance rules of its source.
\<close>

theorem validate_event_accepts_iff:
  "validate_event env = Inr () \<longleftrightarrow>
     (case ee_event env of
        None \<Rightarrow> True
      | Some e \<Rightarrow> timestamp_plausible (timestamp_of e) \<and> payload_plausible e) \<and>
     (case ee_metadata env of None \<Rightarrow> True | Some m \<Rightarrow> metadata_consistent m)"
  by (auto simp: validate_event_def outcome_simps validate_game_event_ok validate_metadata_ok
      split: option.splits)

text \<open>
  Metadata stamped by the client for an observed event never fails the validators: an
  envelope carrying \<open>stamp e h\<close> is accepted or refused on the event alone.
\<close>

theorem stamped_metadata_accepted:
  "validate_event (env\<lparr>ee_event := Some e, ee_metadata := Some (stamp e h)\<rparr>) = validate_game_event e"
proof -
  have "validate_metadata (stamp e h) = Inr ()"
    by (simp add: validate_metadata_ok stamp_consistent)
  then show ?thesis
    by (cases "validate_game_event e") (auto simp: validate_event_def)
qed

end
