(* ===== verification/Inference.thy ===== *)
theory Inference
  imports Validators Transactions
begin

text \<open>
  Models \<^verbatim>\<open>crates/starstats-core/src/inference.rs\<close>: the three rules that synthesise events from the
  surrounding stream and the pass that marks an inferred row as superseded by an observed one.
  The RFC 3339 reader of the \<^verbatim>\<open>chrono\<close> crate is the parameter \<open>parse_ts\<close>; an instant is an
  integer number of nanoseconds, and \<open>num_seconds\<close> truncates a difference towards zero.
  The two forward scans share the interface \<open>window_scan\<close>.
\<close>

section \<open>Model\<close>

type_synonym instant = int

definition num_seconds :: "int \<Rightarrow> int" where
  "num_seconds nanos = quot_zero nanos 1000000000"

record inference_config =
  ic_window_size :: nat
  ic_reconciliation_secs :: int

definition default_config :: inference_config where
  "default_config = \<lparr>ic_window_size = 200, ic_reconciliation_secs = 5\<rparr>"

record inferred_event =
  ie_event :: game_event
  ie_metadata :: event_metadata
  ie_trigger_idempotency_key :: string
  ie_superseded_by :: "string option"

definition envelope_timestamp :: "event_envelope \<Rightarrow> string option" where
  "envelope_timestamp env = map_option timestamp_of (ee_event env)"

definition envelope_instant :: "(string \<Rightarrow> instant option) \<Rightarrow> event_envelope \<Rightarrow> instant option" where
  "envelope_instant parse_ts env = Option.bind (envelope_timestamp env) parse_ts"

definition build_inferred_metadata ::
    "entity_ref \<Rightarrow> game_event \<Rightarrow> f32 \<Rightarrow> string \<Rightarrow> string list \<Rightarrow> event_metadata" where
  "build_inferred_metadata primary_entity event confidence rule_id inference_inputs =
     \<lparr>em_primary_entity = primary_entity, em_source = Inferred, em_confidence = confidence,
      em_group_key = event_type_key event @ '':'' @ entity_kind_key (er_kind primary_entity) @ '':'' @
        er_id primary_entity,
      em_field_provenance = Map.empty, em_inference_inputs = inference_inputs,
      em_rule_id = Some rule_id\<rparr>"

definition inferred_row :: "game_event \<Rightarrow> f32 \<Rightarrow> string \<Rightarrow> string list \<Rightarrow> string \<Rightarrow> inferred_event" where
  "inferred_row event confidence rule_id inputs trigger =
     \<lparr>ie_event = event,
      ie_metadata = build_inferred_metadata (primary_entity_for event None) event confidence rule_id inputs,
      ie_trigger_idempotency_key = trigger, ie_superseded_by = None\<rparr>"

subsection \<open>Implicit death after vehicle destruction\<close>

definition RULE_ID_IMPLICIT_DEATH :: string where
  "RULE_ID_IMPLICIT_DEATH = ''implicit_death_after_vehicle_destruction''"

definition IMPLICIT_DEATH_WINDOW_SECS :: int where
  "IMPLICIT_DEATH_WINDOW_SECS = 15"

text \<open>The \<open>f32\<close> literals are the nearest multiples of \<open>2 ^ -24\<close>.\<close>

definition IMPLICIT_DEATH_CONFIDENCE :: f32 where
  "IMPLICIT_DEATH_CONFIDENCE = F32 (14260634 / 2 ^ 24)"

fun is_resolve_spawn :: "event_envelope \<Rightarrow> bool" where
  "is_resolve_spawn env = (case ee_event env of Some (ResolveSpawn _) \<Rightarrow> True | _ \<Rightarrow> False)"

fun scan_for_spawn ::
    "(string \<Rightarrow> instant option) \<Rightarrow> instant \<Rightarrow> event_envelope list \<Rightarrow> event_envelope option" where
  "scan_for_spawn parse_ts veh_ts [] = None"
| "scan_for_spawn parse_ts veh_ts (follower # followers) =
     (case envelope_instant parse_ts follower of
        None \<Rightarrow> scan_for_spawn parse_ts veh_ts followers
      | Some follower_ts \<Rightarrow>
          (let delta = num_seconds (follower_ts - veh_ts)
           in if delta > IMPLICIT_DEATH_WINDOW_SECS then None
              else if delta < 0 then scan_for_spawn parse_ts veh_ts followers
              else if is_resolve_spawn follower then Some follower
              else scan_for_spawn parse_ts veh_ts followers))"

definition death_row :: "event_envelope \<Rightarrow> vehicle_destruction \<Rightarrow> event_envelope \<Rightarrow> inferred_event" where
  "death_row env veh spawn =
     inferred_row
       (PlayerDeath \<lparr>pd_timestamp = vd_timestamp veh, pd_body_class = ''inferred'',
          pd_body_id = ''inferred_'' @ ee_idempotency_key env, pd_zone = vd_zone veh\<rparr>)
       IMPLICIT_DEATH_CONFIDENCE RULE_ID_IMPLICIT_DEATH
       [ee_idempotency_key env, ee_idempotency_key spawn] (ee_idempotency_key env)"

fun rule_implicit_death ::
    "(string \<Rightarrow> instant option) \<Rightarrow> inference_config \<Rightarrow> event_envelope list \<Rightarrow> inferred_event list" where
  "rule_implicit_death parse_ts config [] = []"
| "rule_implicit_death parse_ts config (env # rest) =
     (case ee_event env of
        Some (VehicleDestruction veh) \<Rightarrow>
          (case parse_ts (vd_timestamp veh) of
             None \<Rightarrow> []
           | Some veh_ts \<Rightarrow>
               (case scan_for_spawn parse_ts veh_ts (take (ic_window_size config) rest) of
                  None \<Rightarrow> []
                | Some spawn \<Rightarrow> [death_row env veh spawn]))
      | _ \<Rightarrow> []) @ rule_implicit_death parse_ts config rest"

subsection \<open>Implicit location change\<close>

definition RULE_ID_IMPLICIT_LOCATION_CHANGE :: string where
  "RULE_ID_IMPLICIT_LOCATION_CHANGE = ''implicit_location_change''"

definition IMPLICIT_LOCATION_CHANGE_CONFIDENCE :: f32 where
  "IMPLICIT_LOCATION_CHANGE_CONFIDENCE = F32 (11744051 / 2 ^ 24)"

definition location_row ::
    "event_envelope \<Rightarrow> string \<Rightarrow> event_envelope \<Rightarrow> planet_terrain_load \<Rightarrow> inferred_event" where
  "location_row prev_env prev_planet_name env planet_load =
     inferred_row
       (LocationChanged \<lparr>lc_timestamp = pt_timestamp planet_load, lc_from = Some prev_planet_name,
          lc_to = pt_planet planet_load\<rparr>)
       IMPLICIT_LOCATION_CHANGE_CONFIDENCE RULE_ID_IMPLICIT_LOCATION_CHANGE
       [ee_idempotency_key prev_env, ee_idempotency_key env] (ee_idempotency_key env)"

fun location_scan ::
    "(event_envelope \<times> string) option \<Rightarrow> bool \<Rightarrow> event_envelope list \<Rightarrow> inferred_event list" where
  "location_scan prev_planet inventory_seen [] = []"
| "location_scan prev_planet inventory_seen (env # rest) =
     (case ee_event env of
        Some (PlanetTerrainLoad planet_load) \<Rightarrow>
          (case prev_planet of
             Some (prev_env, prev_planet_name) \<Rightarrow>
               if \<not> inventory_seen \<and> prev_planet_name \<noteq> pt_planet planet_load
               then [location_row prev_env prev_planet_name env planet_load] else []
           | None \<Rightarrow> []) @ location_scan (Some (env, pt_planet planet_load)) False rest
      | Some (LocationInventoryRequested _) \<Rightarrow> location_scan prev_planet True rest
      | _ \<Rightarrow> location_scan prev_planet inventory_seen rest)"

definition rule_implicit_location_change :: "event_envelope list \<Rightarrow> inferred_event list" where
  "rule_implicit_location_change events = location_scan None False events"

subsection \<open>Implicit shop request timeout\<close>

definition RULE_ID_IMPLICIT_SHOP_REQUEST_TIMEOUT :: string where
  "RULE_ID_IMPLICIT_SHOP_REQUEST_TIMEOUT = ''implicit_shop_request_timeout''"

definition IMPLICIT_SHOP_REQUEST_TIMEOUT_SECS :: int where
  "IMPLICIT_SHOP_REQUEST_TIMEOUT_SECS = 30"

definition IMPLICIT_SHOP_REQUEST_TIMEOUT_CONFIDENCE :: f32 where
  "IMPLICIT_SHOP_REQUEST_TIMEOUT_CONFIDENCE = F32 (15099494 / 2 ^ 24)"

fun answers_request :: "shop_buy_request \<Rightarrow> event_envelope \<Rightarrow> bool" where
  "answers_request req env =
     (case ee_event env of
        Some (ShopFlowResponse resp) \<Rightarrow>
          (case (sb_shop_id req, sf_shop_id resp) of (Some a, Some b) \<Rightarrow> a = b | _ \<Rightarrow> True)
      | _ \<Rightarrow> False)"

fun scan_for_response ::
    "(string \<Rightarrow> instant option) \<Rightarrow> shop_buy_request \<Rightarrow> instant \<Rightarrow> event_envelope list \<Rightarrow> bool" where
  "scan_for_response parse_ts req req_ts [] = False"
| "scan_for_response parse_ts req req_ts (follower # followers) =
     (case envelope_instant parse_ts follower of
        None \<Rightarrow> scan_for_response parse_ts req req_ts followers
      | Some follower_ts \<Rightarrow>
          (let delta = num_seconds (follower_ts - req_ts)
           in if delta > IMPLICIT_SHOP_REQUEST_TIMEOUT_SECS then False
              else if delta < 0 then scan_for_response parse_ts req req_ts followers
              else if answers_request req follower then True
              else scan_for_response parse_ts req req_ts followers))"

definition timed_out_after_secs :: u32 where
  "timed_out_after_secs =
     (if 0 \<le> IMPLICIT_SHOP_REQUEST_TIMEOUT_SECS \<and> IMPLICIT_SHOP_REQUEST_TIMEOUT_SECS < 2 ^ 32
      then of_int IMPLICIT_SHOP_REQUEST_TIMEOUT_SECS else - 1)"

definition timeout_row :: "event_envelope \<Rightarrow> shop_buy_request \<Rightarrow> inferred_event" where
  "timeout_row env req =
     inferred_row
       (ShopRequestTimedOut \<lparr>st_timestamp = sb_timestamp req, st_shop_id = sb_shop_id req,
          st_item_class = sb_item_class req, st_timed_out_after_secs = timed_out_after_secs\<rparr>)
       IMPLICIT_SHOP_REQUEST_TIMEOUT_CONFIDENCE RULE_ID_IMPLICIT_SHOP_REQUEST_TIMEOUT
       [ee_idempotency_key env] (ee_idempotency_key env)"

fun rule_implicit_shop_request_timeout ::
    "(string \<Rightarrow> instant option) \<Rightarrow> inference_config \<Rightarrow> event_envelope list \<Rightarrow> inferred_event list" where
  "rule_implicit_shop_request_timeout parse_ts config [] = []"
| "rule_implicit_shop_request_timeout parse_ts config (env # rest) =
     (case ee_event env of
        Some (ShopBuyRequest req) \<Rightarrow>
          (case parse_ts (sb_timestamp req) of
             None \<Rightarrow> []
           | Some req_ts \<Rightarrow>
               if scan_for_response parse_ts req req_ts (take (ic_window_size config) rest) then []
               else [timeout_row env req])
      | _ \<Rightarrow> []) @ rule_implicit_shop_request_timeout parse_ts config rest"

subsection \<open>Reconciliation and the pass\<close>

definition supersedes ::
    "(string \<Rightarrow> instant option) \<Rightarrow> inference_config \<Rightarrow> inferred_event \<Rightarrow> instant \<Rightarrow> event_envelope \<Rightarrow> bool" where
  "supersedes parse_ts config row inferred_ts env =
     (case ee_event env of
        None \<Rightarrow> False
      | Some observed \<Rightarrow>
          if event_type_key observed \<noteq> event_type_key (ie_event row) then False
          else
            (let observed_entity = primary_entity_for observed None;
                 inferred_entity = em_primary_entity (ie_metadata row)
             in if er_kind observed_entity \<noteq> er_kind inferred_entity \<or>
                   er_id observed_entity \<noteq> er_id inferred_entity then False
                else
                  (case parse_ts (timestamp_of observed) of
                     None \<Rightarrow> False
                   | Some observed_ts \<Rightarrow>
                       (let delta = num_seconds (observed_ts - inferred_ts)
                        in \<not> (delta < 0 \<or> delta > ic_reconciliation_secs config)))))"

definition reconcile_row ::
    "(string \<Rightarrow> instant option) \<Rightarrow> event_envelope list \<Rightarrow> inference_config \<Rightarrow> inferred_event \<Rightarrow> inferred_event" where
  "reconcile_row parse_ts events config row =
     (case parse_ts (timestamp_of (ie_event row)) of
        None \<Rightarrow> row
      | Some inferred_ts \<Rightarrow>
          (case find (supersedes parse_ts config row inferred_ts) events of
             None \<Rightarrow> row
           | Some env \<Rightarrow> row\<lparr>ie_superseded_by := Some (ee_idempotency_key env)\<rparr>))"

definition reconcile_supersedes ::
    "(string \<Rightarrow> instant option) \<Rightarrow> event_envelope list \<Rightarrow> inference_config \<Rightarrow> inferred_event list \<Rightarrow>
     inferred_event list" where
  "reconcile_supersedes parse_ts events config = map (reconcile_row parse_ts events config)"

definition infer ::
    "(string \<Rightarrow> instant option) \<Rightarrow> event_envelope list \<Rightarrow> inference_config \<Rightarrow> inferred_event list" where
  "infer parse_ts events config =
     reconcile_supersedes parse_ts events config
       (rule_implicit_death parse_ts config events @
        rule_implicit_location_change events @
        rule_implicit_shop_request_timeout parse_ts config events)"

section \<open>The shared forward scan\<close>

text \<open>
  A bounded forward scan: entries without an instant and entries before the anchor are skipped, the
  first one past the budget ends the scan, the first hit inside the budget is the answer.
\<close>

definition past_budget :: "int \<Rightarrow> instant \<Rightarrow> instant option \<Rightarrow> bool" where
  "past_budget budget t u = (case u of None \<Rightarrow> False | Some u \<Rightarrow> num_seconds (u - t) > budget)"

definition in_budget :: "int \<Rightarrow> instant \<Rightarrow> instant option \<Rightarrow> bool" where
  "in_budget budget t u =
     (case u of None \<Rightarrow> False | Some u \<Rightarrow> 0 \<le> num_seconds (u - t) \<and> num_seconds (u - t) \<le> budget)"

lemma not_past_in_budget: "past_budget b t u \<Longrightarrow> in_budget b t u \<Longrightarrow> False"
  by (auto simp: past_budget_def in_budget_def split: option.splits)

locale window_scan =
  fixes scan :: "'a \<Rightarrow> instant \<Rightarrow> 'e list \<Rightarrow> 'r"
    and instant_of :: "'e \<Rightarrow> instant option"
    and hit :: "'a \<Rightarrow> 'e \<Rightarrow> bool"
    and budget :: int
    and miss :: 'r
    and found :: "'e \<Rightarrow> 'r"
  assumes scan_Nil: "scan a t [] = miss"
    and scan_Cons: "scan a t (x # xs) =
      (case instant_of x of
         None \<Rightarrow> scan a t xs
       | Some u \<Rightarrow>
           if num_seconds (u - t) > budget then miss
           else if num_seconds (u - t) < 0 then scan a t xs
           else if hit a x then found x else scan a t xs)"
    and found_not_miss: "found x \<noteq> miss"
begin

lemma scan_Cons_cases:
  "scan a t (x # xs) =
     (if past_budget budget t (instant_of x) then miss
      else if in_budget budget t (instant_of x) \<and> hit a x then found x else scan a t xs)"
  by (auto simp: scan_Cons past_budget_def in_budget_def split: option.splits)

lemma scan_eq_find:
  "scan a t xs =
     (case find (\<lambda>x. in_budget budget t (instant_of x) \<and> hit a x)
             (takeWhile (\<lambda>x. \<not> past_budget budget t (instant_of x)) xs) of
        None \<Rightarrow> miss | Some x \<Rightarrow> found x)"
  by (induction xs) (auto simp: scan_Nil scan_Cons_cases)

lemma scan_hit:
  assumes "scan a t xs \<noteq> miss"
  obtains ys x zs where "xs = ys @ x # zs" "scan a t xs = found x" "hit a x"
    "in_budget budget t (instant_of x)" "\<forall>y \<in> set ys. \<not> past_budget budget t (instant_of y)"
    "\<forall>y \<in> set ys. \<not> (in_budget budget t (instant_of y) \<and> hit a y)"
proof -
  have "\<exists>ys x zs. xs = ys @ x # zs \<and> scan a t xs = found x \<and> hit a x \<and>
    in_budget budget t (instant_of x) \<and> (\<forall>y \<in> set ys. \<not> past_budget budget t (instant_of y)) \<and>
    (\<forall>y \<in> set ys. \<not> (in_budget budget t (instant_of y) \<and> hit a y))"
    using assms
  proof (induction xs)
    case (Cons x xs)
    show ?case
    proof (cases "in_budget budget t (instant_of x) \<and> hit a x")
      case True
      then show ?thesis
        using not_past_in_budget
        by (intro exI [of _ "[]"] exI [of _ x] exI [of _ xs]) (auto simp: scan_Cons_cases)
    next
      case False
      then have np: "\<not> past_budget budget t (instant_of x)" and eq: "scan a t (x # xs) = scan a t xs"
        using Cons.prems by (auto simp: scan_Cons_cases split: if_splits)
      from Cons.IH obtain ys z zs where "xs = ys @ z # zs" "scan a t xs = found z" "hit a z"
        "in_budget budget t (instant_of z)" "\<forall>y \<in> set ys. \<not> past_budget budget t (instant_of y)"
        "\<forall>y \<in> set ys. \<not> (in_budget budget t (instant_of y) \<and> hit a y)"
        using Cons.prems eq by auto
      then show ?thesis
        using np False eq by (intro exI [of _ "x # ys"] exI [of _ z] exI [of _ zs]) auto
    qed
  qed (simp add: scan_Nil)
  then show thesis using that by blast
qed

lemma scan_append_skip:
  "\<forall>y \<in> set ys. \<not> past_budget budget t (instant_of y) \<Longrightarrow>
   \<forall>y \<in> set ys. \<not> (in_budget budget t (instant_of y) \<and> hit a y) \<Longrightarrow>
   scan a t (ys @ zs) = scan a t zs"
  by (induction ys) (auto simp: scan_Cons_cases)

lemma scan_take_found:
  assumes "xs = ys @ x # zs" "length ys < n" "hit a x" "in_budget budget t (instant_of x)"
    and "\<forall>y \<in> set ys. \<not> past_budget budget t (instant_of y)"
    and "\<forall>y \<in> set ys. \<not> (in_budget budget t (instant_of y) \<and> hit a y)"
  shows "scan a t (take n xs) = found x"
proof -
  obtain k where "n - length ys = Suc k" using assms(2) by (metis Suc_diff_Suc)
  then have "take n xs = ys @ x # take k zs" using assms(1,2) by simp
  then show ?thesis
    using assms(3-6) not_past_in_budget [OF _ assms(4)] by (auto simp: scan_append_skip scan_Cons_cases)
qed

lemma scan_take_hit:
  assumes "scan a t (take n xs) \<noteq> miss"
  obtains ys x zs where "xs = ys @ x # zs" "length ys < n" "scan a t (take n xs) = found x" "hit a x"
    "in_budget budget t (instant_of x)" "\<forall>y \<in> set ys. \<not> past_budget budget t (instant_of y)"
    "\<forall>y \<in> set ys. \<not> (in_budget budget t (instant_of y) \<and> hit a y)"
proof -
  from scan_hit [OF assms] obtain ys x zs where *: "take n xs = ys @ x # zs"
    "scan a t (take n xs) = found x" "hit a x" "in_budget budget t (instant_of x)"
    "\<forall>y \<in> set ys. \<not> past_budget budget t (instant_of y)"
    "\<forall>y \<in> set ys. \<not> (in_budget budget t (instant_of y) \<and> hit a y)" .
  have "xs = ys @ x # (zs @ drop n xs)" using *(1) by (metis append_take_drop_id append_assoc append_Cons)
  moreover have "length ys < n"
  proof -
    have "length (take n xs) = length ys + Suc (length zs)" using *(1) by simp
    then show ?thesis by simp
  qed
  ultimately show thesis using that * by blast
qed

text \<open>When nothing past the budget precedes something inside it, the scan misses no hit.\<close>

lemma scan_miss_ordered:
  assumes "sorted_wrt (\<lambda>x y. past_budget budget t (instant_of x) \<longrightarrow> \<not> in_budget budget t (instant_of y)) xs"
  shows "scan a t xs = miss \<longleftrightarrow> (\<forall>x \<in> set xs. \<not> (in_budget budget t (instant_of x) \<and> hit a x))"
  using assms
proof (induction xs)
  case (Cons x xs)
  then show ?case
    using not_past_in_budget [of budget t "instant_of x"]
    by (auto simp: scan_Cons_cases found_not_miss)
qed (simp add: scan_Nil)

end

interpretation spawn: window_scan "\<lambda>_ :: unit. scan_for_spawn parse_ts" "envelope_instant parse_ts"
    "\<lambda>_. is_resolve_spawn" IMPLICIT_DEATH_WINDOW_SECS None Some for parse_ts
  by unfold_locales (simp_all add: Let_def split: option.splits)

interpretation response: window_scan "scan_for_response parse_ts" "envelope_instant parse_ts"
    answers_request IMPLICIT_SHOP_REQUEST_TIMEOUT_SECS False "\<lambda>_. True" for parse_ts
  by unfold_locales (simp_all add: Let_def split: option.splits)

text \<open>A stream whose readable instants never decrease.\<close>

definition time_ordered :: "(string \<Rightarrow> instant option) \<Rightarrow> event_envelope list \<Rightarrow> bool" where
  "time_ordered parse_ts = sorted_wrt (\<lambda>x y.
     case (envelope_instant parse_ts x, envelope_instant parse_ts y) of
       (Some u, Some v) \<Rightarrow> u \<le> v
     | _ \<Rightarrow> True)"

lemma num_seconds_mono: "a \<le> b \<Longrightarrow> num_seconds a \<le> num_seconds b"
proof -
  assume "a \<le> b"
  have neg: "num_seconds x = - (- x div 1000000000)" if "x \<le> 0" for x
    using that by (cases "x = 0") (auto simp: num_seconds_def quot_zero_def)
  have pos: "num_seconds x = x div 1000000000" if "0 \<le> x" for x
    using that by (cases "x = 0") (auto simp: num_seconds_def quot_zero_def)
  consider "0 \<le> a" | "b \<le> 0" | "a \<le> 0" "0 \<le> b" by linarith
  then show ?thesis
  proof cases
    case 3
    have "- (- a div 1000000000) \<le> 0" using 3 by (simp add: pos_imp_zdiv_nonneg_iff)
    also have "0 \<le> b div 1000000000" using 3 by (simp add: pos_imp_zdiv_nonneg_iff)
    finally show ?thesis using 3 by (simp add: pos neg)
  qed (use \<open>a \<le> b\<close> in \<open>simp_all add: pos neg zdiv_mono1\<close>)
qed

lemma time_ordered_budget:
  assumes "time_ordered parse_ts xs"
  shows "sorted_wrt (\<lambda>x y. past_budget b t (envelope_instant parse_ts x) \<longrightarrow>
    \<not> in_budget b t (envelope_instant parse_ts y)) xs"
  using assms unfolding time_ordered_def
proof (rule sorted_wrt_mono_rel [rotated])
  fix x y
  assume o: "case (envelope_instant parse_ts x, envelope_instant parse_ts y) of
      (Some u, Some v) \<Rightarrow> u \<le> v | _ \<Rightarrow> True"
  show "past_budget b t (envelope_instant parse_ts x) \<longrightarrow> \<not> in_budget b t (envelope_instant parse_ts y)"
  proof (cases "envelope_instant parse_ts x"; cases "envelope_instant parse_ts y")
    fix u v
    assume "envelope_instant parse_ts x = Some u" "envelope_instant parse_ts y = Some v"
    then show ?thesis
      using o num_seconds_mono [of "u - t" "v - t"] by (auto simp: past_budget_def in_budget_def)
  qed (auto simp: past_budget_def in_budget_def)
qed

section \<open>What the rules emit\<close>

fun as_destruction :: "game_event option \<Rightarrow> vehicle_destruction option" where
  "as_destruction (Some (VehicleDestruction v)) = Some v"
| "as_destruction _ = None"

fun as_shop_request :: "game_event option \<Rightarrow> shop_buy_request option" where
  "as_shop_request (Some (ShopBuyRequest r)) = Some r"
| "as_shop_request _ = None"

fun as_terrain_load :: "game_event option \<Rightarrow> planet_terrain_load option" where
  "as_terrain_load (Some (PlanetTerrainLoad l)) = Some l"
| "as_terrain_load _ = None"

fun is_inventory_request :: "game_event option \<Rightarrow> bool" where
  "is_inventory_request (Some (LocationInventoryRequested _)) = True"
| "is_inventory_request _ = False"

lemma as_Some_iff:
  "as_destruction ev = Some v \<longleftrightarrow> ev = Some (VehicleDestruction v)"
  "as_shop_request ev = Some r \<longleftrightarrow> ev = Some (ShopBuyRequest r)"
  "as_terrain_load ev = Some l \<longleftrightarrow> ev = Some (PlanetTerrainLoad l)"
  by (auto elim: as_destruction.elims as_shop_request.elims as_terrain_load.elims)

lemma rule_implicit_death_Cons:
  "rule_implicit_death parse_ts config (env # rest) =
     (case as_destruction (ee_event env) of
        None \<Rightarrow> []
      | Some veh \<Rightarrow>
          (case parse_ts (vd_timestamp veh) of
             None \<Rightarrow> []
           | Some t \<Rightarrow>
               (case scan_for_spawn parse_ts t (take (ic_window_size config) rest) of
                  None \<Rightarrow> []
                | Some spawn \<Rightarrow> [death_row env veh spawn]))) @ rule_implicit_death parse_ts config rest"
proof (cases "ee_event env")
  case (Some e)
  then show ?thesis by (cases e) simp_all
qed simp

lemma rule_implicit_shop_request_timeout_Cons:
  "rule_implicit_shop_request_timeout parse_ts config (env # rest) =
     (case as_shop_request (ee_event env) of
        None \<Rightarrow> []
      | Some req \<Rightarrow>
          (case parse_ts (sb_timestamp req) of
             None \<Rightarrow> []
           | Some t \<Rightarrow>
               if scan_for_response parse_ts req t (take (ic_window_size config) rest) then []
               else [timeout_row env req])) @ rule_implicit_shop_request_timeout parse_ts config rest"
proof (cases "ee_event env")
  case (Some e)
  then show ?thesis by (cases e) simp_all
qed simp

lemma location_scan_Cons:
  "location_scan prev seen (env # rest) =
     (case as_terrain_load (ee_event env) of
        None \<Rightarrow> location_scan prev (seen \<or> is_inventory_request (ee_event env)) rest
      | Some load \<Rightarrow>
          (case prev of
             None \<Rightarrow> []
           | Some (p, name) \<Rightarrow>
               if \<not> seen \<and> name \<noteq> pt_planet load then [location_row p name env load] else []) @
          location_scan (Some (env, pt_planet load)) False rest)"
proof (cases "ee_event env")
  case (Some e)
  then show ?thesis by (cases e) simp_all
qed simp

lemmas rule_equations [simp del] = rule_implicit_death.simps(2)
  rule_implicit_shop_request_timeout.simps(2) location_scan.simps(2)

lemma ex_split_Cons:
  "(\<exists>pre x rest. e # events = pre @ x # rest \<and> R x rest) \<longleftrightarrow>
     R e events \<or> (\<exists>pre x rest. events = pre @ x # rest \<and> R x rest)"
  by (auto simp: Cons_eq_append_conv)

lemma set_rule_implicit_death:
  "row \<in> set (rule_implicit_death parse_ts config events) \<longleftrightarrow>
     (\<exists>pre env rest. events = pre @ env # rest \<and>
        (\<exists>veh t spawn. as_destruction (ee_event env) = Some veh \<and> parse_ts (vd_timestamp veh) = Some t \<and>
          scan_for_spawn parse_ts t (take (ic_window_size config) rest) = Some spawn \<and>
          row = death_row env veh spawn))"
proof (induction events)
  case (Cons env rest)
  show ?case
    unfolding ex_split_Cons rule_implicit_death_Cons set_append Un_iff Cons.IH
    by (rule disj_cong, simp only: split: option.split) auto
qed simp

lemma set_rule_implicit_shop_request_timeout:
  "row \<in> set (rule_implicit_shop_request_timeout parse_ts config events) \<longleftrightarrow>
     (\<exists>pre env rest. events = pre @ env # rest \<and>
        (\<exists>req t. as_shop_request (ee_event env) = Some req \<and> parse_ts (sb_timestamp req) = Some t \<and>
          \<not> scan_for_response parse_ts req t (take (ic_window_size config) rest) \<and>
          row = timeout_row env req))"
proof (induction events)
  case (Cons env rest)
  show ?case
    unfolding ex_split_Cons rule_implicit_shop_request_timeout_Cons set_append Un_iff Cons.IH
    by (rule disj_cong, simp only: split: option.split) auto
qed simp

text \<open>
  The events the location rule passes over, and the first event after them that satisfies a
  condition.
\<close>

definition location_neutral :: "event_envelope \<Rightarrow> bool" where
  "location_neutral env \<longleftrightarrow>
     as_terrain_load (ee_event env) = None \<and> \<not> is_inventory_request (ee_event env)"

definition moved :: "event_envelope \<Rightarrow> string \<Rightarrow> event_envelope \<Rightarrow> inferred_event \<Rightarrow> bool" where
  "moved p name env row \<longleftrightarrow>
     (\<exists>load. as_terrain_load (ee_event env) = Some load \<and> name \<noteq> pt_planet load \<and>
        row = location_row p name env load)"

fun after_neutral :: "(event_envelope \<Rightarrow> bool) \<Rightarrow> event_envelope list \<Rightarrow> bool" where
  "after_neutral P [] \<longleftrightarrow> False"
| "after_neutral P (env # rest) \<longleftrightarrow> P env \<or> location_neutral env \<and> after_neutral P rest"

lemma after_neutral_iff:
  "after_neutral P events \<longleftrightarrow>
     (\<exists>mid env post. events = mid @ env # post \<and> list_all location_neutral mid \<and> P env)"
proof (induction events)
  case (Cons e events)
  show ?case
  proof
    assume "after_neutral P (e # events)"
    then consider "P e" | "location_neutral e" "after_neutral P events" by auto
    then show "\<exists>mid env post. e # events = mid @ env # post \<and> list_all location_neutral mid \<and> P env"
    proof cases
      case 2
      then obtain mid env post where "events = mid @ env # post" "list_all location_neutral mid" "P env"
        using Cons.IH by blast
      then show ?thesis using 2 by (intro exI [of _ "e # mid"] exI [of _ env] exI [of _ post]) auto
    qed (auto intro: exI [of _ "[]"])
  next
    assume "\<exists>mid env post. e # events = mid @ env # post \<and> list_all location_neutral mid \<and> P env"
    then obtain mid env post where "e # events = mid @ env # post" "list_all location_neutral mid" "P env"
      by blast
    then show "after_neutral P (e # events)" using Cons.IH by (cases mid) auto
  qed
qed simp

lemma set_location_scan:
  "row \<in> set (location_scan prev seen events) \<longleftrightarrow>
     (\<exists>p name. prev = Some (p, name) \<and> \<not> seen \<and> after_neutral (\<lambda>env. moved p name env row) events) \<or>
     (\<exists>pre a rest. events = pre @ a # rest \<and>
        (\<exists>la. as_terrain_load (ee_event a) = Some la \<and>
          after_neutral (\<lambda>env. moved a (pt_planet la) env row) rest))"
proof (induction events arbitrary: prev seen)
  case (Cons e events)
  show ?case
    unfolding ex_split_Cons location_scan_Cons
    by (cases "as_terrain_load (ee_event e)")
      (auto simp: Cons.IH location_neutral_def moved_def split: option.split)
qed simp

lemma row_fields [simp]:
  "ie_event (inferred_row e c r ins tr) = e"
  "ie_trigger_idempotency_key (inferred_row e c r ins tr) = tr"
  "ie_superseded_by (inferred_row e c r ins tr) = None"
  "em_inference_inputs (ie_metadata (inferred_row e c r ins tr)) = ins"
  "em_confidence (ie_metadata (inferred_row e c r ins tr)) = c"
  "em_source (ie_metadata (inferred_row e c r ins tr)) = Inferred"
  "em_primary_entity (ie_metadata (inferred_row e c r ins tr)) = primary_entity_for e None"
  by (simp_all add: inferred_row_def build_inferred_metadata_def)

lemmas row_defs = death_row_def location_row_def timeout_row_def
lemmas confidence_defs = IMPLICIT_DEATH_CONFIDENCE_def IMPLICIT_LOCATION_CHANGE_CONFIDENCE_def
  IMPLICIT_SHOP_REQUEST_TIMEOUT_CONFIDENCE_def

lemma inferred_row_consistent:
  "0 \<le> q \<Longrightarrow> q < 1 \<Longrightarrow> ins \<noteq> [] \<Longrightarrow> metadata_consistent (ie_metadata (inferred_row e (F32 q) r ins tr))"
  by (simp add: metadata_consistent_def)

lemma reconcile_row_fields [simp]:
  "ie_event (reconcile_row p evs c row) = ie_event row"
  "ie_metadata (reconcile_row p evs c row) = ie_metadata row"
  "ie_trigger_idempotency_key (reconcile_row p evs c row) = ie_trigger_idempotency_key row"
  by (simp_all add: reconcile_row_def split: option.split)

text \<open>
  The three shapes a row of the pass can have before reconciliation, with the envelopes of the
  stream it is made from.
\<close>

lemma infer_cases:
  assumes "row \<in> set (infer parse_ts events config)"
  obtains (death) env veh spawn where "row = reconcile_row parse_ts events config (death_row env veh spawn)"
      "env \<in> set events" "ee_event env = Some (VehicleDestruction veh)" "spawn \<in> set events"
  | (loc) a name env load where "row = reconcile_row parse_ts events config (location_row a name env load)"
      "a \<in> set events" "env \<in> set events" "ee_event env = Some (PlanetTerrainLoad load)"
  | (timeout) env req where "row = reconcile_row parse_ts events config (timeout_row env req)"
      "env \<in> set events" "ee_event env = Some (ShopBuyRequest req)"
proof -
  from assms obtain r where r: "row = reconcile_row parse_ts events config r" and
    "r \<in> set (rule_implicit_death parse_ts config events) \<or>
     r \<in> set (location_scan None False events) \<or>
     r \<in> set (rule_implicit_shop_request_timeout parse_ts config events)"
    by (auto simp: infer_def reconcile_supersedes_def rule_implicit_location_change_def)
  then consider "r \<in> set (rule_implicit_death parse_ts config events)"
    | "r \<in> set (location_scan None False events)"
    | "r \<in> set (rule_implicit_shop_request_timeout parse_ts config events)" by blast
  then show thesis
  proof cases
    case 1
    then obtain pre env rest veh t spawn where *: "events = pre @ env # rest"
      "as_destruction (ee_event env) = Some veh"
      "scan_for_spawn parse_ts t (take (ic_window_size config) rest) = Some spawn"
      "r = death_row env veh spawn" by (auto simp: set_rule_implicit_death)
    have "scan_for_spawn parse_ts t (take (ic_window_size config) rest) \<noteq> None" using *(3) by simp
    then have "spawn \<in> set (take (ic_window_size config) rest)"
      by (rule spawn.scan_hit) (use *(3) in auto)
    then show thesis using death [of env veh spawn] * r by (auto simp: as_Some_iff dest: in_set_takeD)
  next
    case 2
    then show thesis
      using loc r by (auto simp: set_location_scan after_neutral_iff moved_def as_Some_iff)
  next
    case 3
    then show thesis using timeout r by (auto simp: set_rule_implicit_shop_request_timeout as_Some_iff)
  qed
qed

text \<open>A request and an inventory envelope, for concrete instances.\<close>

definition demo_request :: shop_buy_request where
  "demo_request = \<lparr>sb_timestamp = ''1T1:1'', sb_shop_id = None, sb_item_class = None,
     sb_quantity = None, sb_raw = ''''\<rparr>"

definition demo_env :: "string \<Rightarrow> game_event \<Rightarrow> event_envelope" where
  "demo_env k e = \<lparr>ee_idempotency_key = k, ee_raw_line = '''', ee_event = Some e, ee_source = Live,
     ee_source_offset = 0, ee_metadata = None\<rparr>"

definition request_env :: "string \<Rightarrow> event_envelope" where
  "request_env k = demo_env k (ShopBuyRequest demo_request)"

definition inventory_env :: "string \<Rightarrow> event_envelope" where
  "inventory_env k = demo_env k (LocationInventoryRequested
     \<lparr>li_timestamp = ''1T1:2'', li_player = ''p'', li_location = ''l''\<rparr>)"

lemmas demo_defs = demo_request_def demo_env_def request_env_def inventory_env_def

lemma demo_infer:
  "infer (\<lambda>_. Some 0) [request_env ''q''] default_config = [timeout_row (request_env ''q'') demo_request]"
  by (simp add: infer_def reconcile_supersedes_def rule_implicit_death_Cons location_scan_Cons
      rule_implicit_shop_request_timeout_Cons rule_implicit_location_change_def demo_defs reconcile_row_def
      supersedes_def timeout_row_def)

section \<open>Properties\<close>

text \<open>
  What the pass infers is valid: when the events of the stream carry plausible
  timestamps, every inferred row, wrapped in an envelope with its metadata, passes the
  validators (source inferred, confidence below one, at least one input).
\<close>

theorem inferred_rows_accepted:
  assumes "\<forall>env \<in> set events. \<forall>e. ee_event env = Some e \<longrightarrow> timestamp_plausible (timestamp_of e)"
    and "row \<in> set (infer parse_ts events config)"
  shows "validate_event (env\<lparr>ee_event := Some (ie_event row), ee_metadata := Some (ie_metadata row)\<rparr>) = Inr ()"
proof -
  have "timestamp_plausible (timestamp_of (ie_event row)) \<and> payload_plausible (ie_event row) \<and>
      metadata_consistent (ie_metadata row)"
    using assms(2)
  proof (cases rule: infer_cases)
    case (death env veh spawn)
    then have "timestamp_plausible (vd_timestamp veh)" using assms(1) by fastforce
    then show ?thesis using death(1) by (simp add: row_defs inferred_row_consistent confidence_defs)
  next
    case (loc a name env load)
    then have "timestamp_plausible (pt_timestamp load)" using assms(1) by fastforce
    then show ?thesis using loc(1) by (simp add: row_defs inferred_row_consistent confidence_defs)
  next
    case (timeout env req)
    then have "timestamp_plausible (sb_timestamp req)" using assms(1) by fastforce
    then show ?thesis using timeout(1) by (simp add: row_defs inferred_row_consistent confidence_defs)
  qed
  then show ?thesis
    by (simp add: validate_event_def validate_metadata_ok validate_game_event_ok outcome_simps)
qed

theorem inferred_rows_accepted_witness:
  "validate_event
     (inventory_env ''k''\<lparr>ee_event := Some (ie_event (timeout_row (request_env ''q'') demo_request)),
        ee_metadata := Some (ie_metadata (timeout_row (request_env ''q'') demo_request))\<rparr>) = Inr ()"
proof (rule inferred_rows_accepted [of "[request_env ''q'']" _ "\<lambda>_. Some 0" default_config])
  show "\<forall>env \<in> set [request_env ''q'']. \<forall>e. ee_event env = Some e \<longrightarrow> timestamp_plausible (timestamp_of e)"
    by (simp add: demo_defs timestamp_plausible_def)
qed (simp add: demo_infer)

text \<open>
  Every inferred row can be audited: its trigger is one of its declared inputs, every input is
  the idempotency key of an envelope of the stream, and its group key is that of the event it
  carries.
\<close>

theorem inferred_rows_traceable:
  assumes "row \<in> set (infer parse_ts events config)"
  shows "ie_trigger_idempotency_key row \<in> set (em_inference_inputs (ie_metadata row)) \<and>
    set (em_inference_inputs (ie_metadata row)) \<subseteq> ee_idempotency_key ` set events \<and>
    em_group_key (ie_metadata row) = group_key_for (ie_event row) None"
  using assms
  by (cases rule: infer_cases)
    (auto simp: row_defs inferred_row_def build_inferred_metadata_def group_key_for_def compose_group_key_def)

theorem inferred_rows_traceable_witness:
  "ie_trigger_idempotency_key (timeout_row (request_env ''q'') demo_request) \<in>
     set (em_inference_inputs (ie_metadata (timeout_row (request_env ''q'') demo_request)))"
  using inferred_rows_traceable [of "timeout_row (request_env ''q'') demo_request" "\<lambda>_. Some 0"
      "[request_env ''q'']" default_config]
  by (simp add: demo_infer)

text \<open>
  A death is inferred exactly when the evidence is there: the rows of the death rule are those of
  a vehicle destruction and the first spawn resolution that follows it by at most 15 seconds and at
  most \<open>window_size\<close> events, with no event past the 15 seconds in between.
\<close>

theorem death_inferred_iff:
  "row \<in> set (rule_implicit_death parse_ts config events) \<longleftrightarrow>
     (\<exists>pre env mid spawn post veh t.
        events = pre @ env # mid @ spawn # post \<and> length mid < ic_window_size config \<and>
        ee_event env = Some (VehicleDestruction veh) \<and> parse_ts (vd_timestamp veh) = Some t \<and>
        is_resolve_spawn spawn \<and> in_budget 15 t (envelope_instant parse_ts spawn) \<and>
        (\<forall>x \<in> set mid. \<not> past_budget 15 t (envelope_instant parse_ts x)) \<and>
        (\<forall>x \<in> set mid. \<not> (in_budget 15 t (envelope_instant parse_ts x) \<and> is_resolve_spawn x)) \<and>
        row = death_row env veh spawn)"
  (is "_ \<longleftrightarrow> ?spec")
proof -
  note secs = IMPLICIT_DEATH_WINDOW_SECS_def
  have scan: "scan_for_spawn parse_ts t (take n rest) = Some spawn \<longleftrightarrow>
      (\<exists>mid post. rest = mid @ spawn # post \<and> length mid < n \<and> is_resolve_spawn spawn \<and>
        in_budget 15 t (envelope_instant parse_ts spawn) \<and>
        (\<forall>x \<in> set mid. \<not> past_budget 15 t (envelope_instant parse_ts x)) \<and>
        (\<forall>x \<in> set mid. \<not> (in_budget 15 t (envelope_instant parse_ts x) \<and> is_resolve_spawn x)))"
    (is "?l \<longleftrightarrow> ?r") for t n rest spawn
  proof
    assume l: ?l
    then have "scan_for_spawn parse_ts t (take n rest) \<noteq> None" by simp
    then show ?r by (rule spawn.scan_take_hit) (use l in \<open>auto simp: secs simp del: is_resolve_spawn.simps\<close>)
  next
    assume ?r
    then show ?l using spawn.scan_take_found [where parse_ts = parse_ts] by (auto simp: secs simp del: is_resolve_spawn.simps)
  qed
  show ?thesis
    unfolding set_rule_implicit_death scan as_Some_iff by blast
qed

definition demo_wreck :: vehicle_destruction where
  "demo_wreck = \<lparr>vd_timestamp = ''1T1:1'', vd_vehicle_class = ''v'', vd_vehicle_id = None, vd_destroy_level = 2,
     vd_caused_by = ''c'', vd_zone = None\<rparr>"

definition spawn_env :: event_envelope where
  "spawn_env = demo_env ''s'' (ResolveSpawn \<lparr>rs_timestamp = ''1T1:2'', rs_player_geid = ''g'', rs_fallback = True\<rparr>)"

theorem death_inferred_iff_witness:
  "death_row (demo_env ''d'' (VehicleDestruction demo_wreck)) demo_wreck spawn_env \<in>
     set (rule_implicit_death (\<lambda>_. Some 0) default_config
       [demo_env ''d'' (VehicleDestruction demo_wreck), spawn_env])"
  unfolding death_inferred_iff
  by (rule exI [of _ "[]"], rule exI [of _ "demo_env ''d'' (VehicleDestruction demo_wreck)"], rule exI [of _ "[]"],
      rule exI [of _ spawn_env], rule exI [of _ "[]"], rule exI [of _ demo_wreck], rule exI [of _ 0])
    (simp add: default_config_def demo_env_def spawn_env_def in_budget_def envelope_instant_def
      envelope_timestamp_def num_seconds_def quot_zero_def)

text \<open>
  A purchase times out exactly when nothing answers it: on a stream in time order, the rows of
  the timeout rule are those of the shop requests for which none of the next \<open>window_size\<close> events is
  a response to the same shop (or with a shop missing on one side) at most 30 seconds later.
\<close>

theorem timeout_inferred_iff:
  assumes "time_ordered parse_ts events"
  shows "row \<in> set (rule_implicit_shop_request_timeout parse_ts config events) \<longleftrightarrow>
     (\<exists>pre env rest req t.
        events = pre @ env # rest \<and> ee_event env = Some (ShopBuyRequest req) \<and>
        parse_ts (sb_timestamp req) = Some t \<and>
        (\<forall>x \<in> set (take (ic_window_size config) rest).
           \<not> (in_budget 30 t (envelope_instant parse_ts x) \<and> answers_request req x)) \<and>
        row = timeout_row env req)"
proof -
  have "\<not> scan_for_response parse_ts req t (take n rest) \<longleftrightarrow>
      (\<forall>x \<in> set (take n rest). \<not> (in_budget 30 t (envelope_instant parse_ts x) \<and> answers_request req x))"
    if "events = pre @ env # rest" for pre env rest req t n
  proof -
    have "time_ordered parse_ts (take n rest)"
      using assms that by (auto simp: time_ordered_def sorted_wrt_append sorted_wrt_take)
    from response.scan_miss_ordered [OF time_ordered_budget [OF this], of req t] show ?thesis
      by (simp add: IMPLICIT_SHOP_REQUEST_TIMEOUT_SECS_def)
  qed
  then show ?thesis
    unfolding set_rule_implicit_shop_request_timeout as_Some_iff by blast
qed

theorem timeout_inferred_iff_witness:
  "timeout_row (request_env ''q'') demo_request \<in>
     set (rule_implicit_shop_request_timeout (\<lambda>_. Some 0) default_config [request_env ''q'', inventory_env ''k''])"
proof -
  have "time_ordered (\<lambda>_. Some 0) [request_env ''q'', inventory_env ''k'']"
    by (simp add: time_ordered_def demo_defs envelope_instant_def envelope_timestamp_def)
  then show ?thesis
    by (subst timeout_inferred_iff)
      (assumption, rule exI [of _ "[]"], simp add: default_config_def demo_defs)
qed

text \<open>
  A change of location is inferred exactly between two terrain loads of different planets with
  neither a terrain load nor an inventory request in between.
\<close>

theorem location_change_inferred_iff:
  "row \<in> set (rule_implicit_location_change events) \<longleftrightarrow>
     (\<exists>pre a la mid env load post.
        events = pre @ a # mid @ env # post \<and>
        ee_event a = Some (PlanetTerrainLoad la) \<and> ee_event env = Some (PlanetTerrainLoad load) \<and>
        list_all location_neutral mid \<and> pt_planet la \<noteq> pt_planet load \<and>
        row = location_row a (pt_planet la) env load)"
  unfolding rule_implicit_location_change_def set_location_scan after_neutral_iff moved_def as_Some_iff
  by (simp, intro iffI; elim exE conjE; hypsubst; intro exI conjI; (assumption | rule refl))

text \<open>An observed event that confirms an inferred row.\<close>

definition confirms ::
    "(string \<Rightarrow> instant option) \<Rightarrow> inference_config \<Rightarrow> inferred_event \<Rightarrow> event_envelope \<Rightarrow> bool" where
  "confirms parse_ts config row env \<longleftrightarrow>
     (\<exists>observed t u. ee_event env = Some observed \<and>
        event_type_key observed = event_type_key (ie_event row) \<and>
        er_kind (primary_entity_for observed None) = er_kind (em_primary_entity (ie_metadata row)) \<and>
        er_id (primary_entity_for observed None) = er_id (em_primary_entity (ie_metadata row)) \<and>
        parse_ts (timestamp_of (ie_event row)) = Some t \<and> parse_ts (timestamp_of observed) = Some u \<and>
        in_budget (ic_reconciliation_secs config) t (Some u))"

lemma supersedes_confirms:
  "parse_ts (timestamp_of (ie_event row)) = Some t \<Longrightarrow>
     supersedes parse_ts config row t = confirms parse_ts config row"
  by (rule ext) (auto simp: supersedes_def confirms_def in_budget_def Let_def split: option.split)

lemma reconcile_row_superseded:
  assumes "ie_superseded_by row = None"
  shows "ie_superseded_by (reconcile_row parse_ts events config row) =
    map_option ee_idempotency_key (find (confirms parse_ts config row) events)"
proof (cases "parse_ts (timestamp_of (ie_event row))")
  case None
  then have "find (confirms parse_ts config row) events = None" by (auto simp: find_None_iff confirms_def)
  then show ?thesis using None assms by (simp add: reconcile_row_def)
next
  case (Some t)
  then show ?thesis
    using assms by (simp add: reconcile_row_def supersedes_confirms split: option.split)
qed

text \<open>
  Reconciliation retires a guess exactly when it was observed: an inferred row is superseded
  precisely when some envelope of the stream carries an event of the same type about the same
  entity between 0 and \<open>reconciliation_secs\<close> seconds after it, and then by the first such envelope.
\<close>

theorem superseded_iff_confirmed:
  assumes "row \<in> set (infer parse_ts events config)"
  shows "(ie_superseded_by row = None \<longleftrightarrow> (\<forall>env \<in> set events. \<not> confirms parse_ts config row env)) \<and>
    (\<forall>k. ie_superseded_by row = Some k \<longrightarrow>
       (\<exists>pre env post. events = pre @ env # post \<and> ee_idempotency_key env = k \<and>
          confirms parse_ts config row env \<and> (\<forall>e \<in> set pre. \<not> confirms parse_ts config row e)))"
proof -
  from assms obtain r where r: "row = reconcile_row parse_ts events config r" "ie_superseded_by r = None"
    by (cases rule: infer_cases) (auto simp: row_defs)
  have c: "confirms parse_ts config r = confirms parse_ts config row"
    by (rule ext) (simp add: confirms_def r(1))
  have s: "ie_superseded_by row = map_option ee_idempotency_key (find (confirms parse_ts config row) events)"
    using reconcile_row_superseded [OF r(2), of parse_ts events config] by (simp only: c r(1) [symmetric])
  show ?thesis
  proof (cases "find (confirms parse_ts config row) events")
    case None
    then have "\<forall>env \<in> set events. \<not> confirms parse_ts config row env" by (auto simp: find_None_iff)
    then show ?thesis using s None by simp
  next
    case (Some env)
    then show ?thesis
      using s find_Some_splitD [OF Some] by auto
  qed
qed

theorem superseded_iff_confirmed_witness:
  "\<not> confirms (\<lambda>_. Some 0) default_config (timeout_row (request_env ''q'') demo_request) (request_env ''q'')"
  using superseded_iff_confirmed [of "timeout_row (request_env ''q'') demo_request" "\<lambda>_. Some 0"
      "[request_env ''q'']" default_config]
  by (simp add: demo_infer row_defs)

end
