(* ===== verification/Log_Line.thy ===== *)
theory Log_Line
  imports Prelude
begin

text \<open>
  Pass 1 of \<^verbatim>\<open>crates/starstats-core/src/parser.rs\<close>: the structural shell of a \<open>Game.log\<close> line, and
  the lines of the RSI launcher log. The \<open>regex\<close> crate is not part of the repository; it is the
  parameter \<open>rx\<close>, a record of the calls the sources make. The compiled patterns are named by
  their \<open>static\<close> (\<open>regex_id\<close>) or, for a runtime rule, by their text.
\<close>

section \<open>The regex engine as a parameter\<close>

datatype regex_id =
    LAUNCHER_RE | SHELL_RE | TAG_TAIL_RE
  | PROCESS_INIT_RE | LEGACY_LOGIN_RE | JOIN_PU_RE | CHANGE_SERVER_RE | SEED_SS_RE
  | RESOLVE_SPAWN_RE | ACTOR_DEATH_RE | VEHICLE_DESTRUCTION_RE | PLAYER_DEATH_RE
  | HUD_NOTIFICATION_RE | LOCATION_INVENTORY_RE | PLANET_TERRAIN_RE | QUANTUM_TARGET_RE
  | VEHICLE_STOWED_RE | ATTACHMENT_RECEIVED_RE | MISSION_PHASE_RE | MISSION_OBJECTIVE_RE
  | MISSION_END_RE | SHOP_BUY_RE | SHOP_RESPONSE_RE | COMMODITY_BUY_RE | COMMODITY_SELL_RE
  | TS_RE | UUID_RE | GEID_RE | IPPORT_RE | QUOTED_RE | SHARD_RE
  | Dynamic string

text \<open>One match: its text (group 0), the named groups that took part, and group 1.\<close>

record captures =
  cap_whole :: string
  cap_name :: "string \<Rightarrow> string option"
  cap_one :: "string option"

text \<open>
  \<open>rx_captures\<close> is \<open>Regex::captures\<close>; \<open>rx_find_iter\<close> and \<open>rx_group1_iter\<close> are the byte spans of
  \<open>find_iter\<close> and of group 1 of \<open>captures_iter\<close>; \<open>rx_find\<close> is \<open>find\<close>; \<open>rx_replace_all\<close> is
  \<open>replace_all\<close>; \<open>rx_new\<close> is \<open>Regex::new\<close> on a pattern text, with its error message.
\<close>

record regex_engine =
  rx_captures :: "regex_id \<Rightarrow> string \<Rightarrow> captures option"
  rx_find :: "regex_id \<Rightarrow> string \<Rightarrow> string option"
  rx_find_iter :: "regex_id \<Rightarrow> string \<Rightarrow> (nat \<times> nat) list"
  rx_group1_iter :: "regex_id \<Rightarrow> string \<Rightarrow> (nat \<times> nat) list"
  rx_replace_all :: "regex_id \<Rightarrow> string \<Rightarrow> string \<Rightarrow> string"
  rx_new :: "string \<Rightarrow> string + regex_id"

section \<open>Structural parse\<close>

record log_line =
  l_timestamp :: string
  l_level :: "string option"
  l_event_name :: "string option"
  l_body :: string
  l_tags :: "string list"

definition split_tags :: "string \<Rightarrow> string list" where
  "split_tags tag_run = filter (\<lambda>s. s \<noteq> []) (split_on [CHR ''['', CHR '']''] tag_run)"

definition structural_parse :: "regex_engine \<Rightarrow> string \<Rightarrow> log_line option outcome" where
  "structural_parse rx line0 =
     (let line = trim_end_matches [CHR 0x0D, CHR 0x0A] line0 in
      case rx_captures rx SHELL_RE line of
        None \<Rightarrow> Ret None
      | Some caps \<Rightarrow>
          (case cap_name caps ''ts'' of
             None \<Rightarrow> Ret None
           | Some timestamp \<Rightarrow>
               let level = cap_name caps ''level'';
                   event_name = cap_name caps ''event'';
                   rest = (case cap_name caps ''rest'' of Some r \<Rightarrow> r | None \<Rightarrow> []);
                   mk = (\<lambda>body tags. Ret (Some
                     \<lparr>l_timestamp = timestamp, l_level = level, l_event_name = event_name,
                      l_body = body, l_tags = tags\<rparr>))
               in case rx_captures rx TAG_TAIL_RE rest of
                    None \<Rightarrow> mk (trim rest) []
                  | Some tag_caps \<Rightarrow>
                      let tag_run = (case cap_one tag_caps of Some t \<Rightarrow> t | None \<Rightarrow> []) in
                      if length (cap_whole tag_caps) \<le> length rest then
                        mk (trim (take (length rest - length (cap_whole tag_caps)) rest))
                           (split_tags tag_run)
                      else Panic))"

section \<open>Launcher lines\<close>

record launcher_log_line =
  ll_line_timestamp :: string
  ll_line_level :: string
  ll_line_message :: string

definition parse_launcher_line :: "regex_engine \<Rightarrow> string \<Rightarrow> launcher_log_line option" where
  "parse_launcher_line rx line0 =
     (let line = trim_end_matches [CHR 0x0D, CHR 0x0A] line0 in
      if line = [] then None
      else
        (case rx_captures rx LAUNCHER_RE line of
           None \<Rightarrow> None
         | Some caps \<Rightarrow>
             (case cap_name caps ''ts'' of
                None \<Rightarrow> None
              | Some ts \<Rightarrow>
                  (case cap_name caps ''level'' of
                     None \<Rightarrow> None
                   | Some level \<Rightarrow>
                       (case cap_name caps ''msg'' of
                          None \<Rightarrow> None
                        | Some msg \<Rightarrow>
                            if trim msg = [] then None
                            else Some \<lparr>ll_line_timestamp = trim ts, ll_line_level = level,
                                       ll_line_message = trim msg\<rparr>)))))"

section \<open>Lemmas\<close>

text \<open>
  What the sources rely on of \<open>TAG_TAIL_RE\<close>, a pattern anchored at the end of its input: the
  match is a suffix of the text searched.
\<close>

definition tag_tail_is_suffix :: "regex_engine \<Rightarrow> bool" where
  "tag_tail_is_suffix rx \<longleftrightarrow>
     (\<forall>rest c. rx_captures rx TAG_TAIL_RE rest = Some c \<longrightarrow> ends_with rest (cap_whole c))"

lemma split_tags_clean:
  "t \<in> set (split_tags s) \<Longrightarrow> t \<noteq> [] \<and> CHR ''['' \<notin> set t \<and> CHR '']'' \<notin> set t"
  using split_on_no_sep [of t "[CHR ''['', CHR '']'']" s] by (auto simp: split_tags_def)

lemma structural_parse_tags:
  "structural_parse rx line = Ret (Some l) \<Longrightarrow> t \<in> set (l_tags l) \<Longrightarrow>
     t \<noteq> [] \<and> CHR ''['' \<notin> set t \<and> CHR '']'' \<notin> set t"
  by (auto simp: structural_parse_def Let_def split: option.splits if_splits
      dest: split_tags_clean)

lemma structural_parse_no_panic:
  assumes "tag_tail_is_suffix rx"
  shows "structural_parse rx line \<noteq> Panic"
proof -
  have "rx_captures rx TAG_TAIL_RE rest = Some c \<Longrightarrow> length (cap_whole c) \<le> length rest" for rest c
    using assms by (fastforce simp: tag_tail_is_suffix_def ends_with_iff)
  then show ?thesis
    by (fastforce simp: structural_parse_def Let_def split: option.splits)
qed

end
