(* ===== verification/Parser_Defs.thy ===== *)
theory Parser_Defs
  imports Log_Line Events
begin

text \<open>
  Models \<^verbatim>\<open>crates/starstats-core/src/parser_defs.rs\<close>: the remote parser rules a client downloads,
  their compilation and their application to a line the built-in classifier did not recognise.
\<close>

section \<open>Model\<close>

datatype rule_match_kind = MatchEventName | MatchBodyKeyword

record remote_rule =
  rr_id :: string
  rr_event_name :: string
  rr_match_kind :: rule_match_kind
  rr_body_regex :: string
  rr_fields :: "string list"

record manifest =
  mf_version :: u32
  mf_schema_version :: u32
  mf_issued_at :: string
  mf_rules :: "remote_rule list"
  mf_signature :: "string option"

definition empty_manifest :: manifest where
  "empty_manifest = \<lparr>mf_version = 0, mf_schema_version = 1, mf_issued_at = [], mf_rules = [],
     mf_signature = None\<rparr>"

record compiled_remote_rule =
  cr_id :: string
  cr_event_name :: string
  cr_match_kind :: rule_match_kind
  cr_regex :: regex_id
  cr_fields :: "string list"

fun compile_rules ::
    "regex_engine \<Rightarrow> remote_rule list \<Rightarrow> compiled_remote_rule list \<times> (string \<times> string) list" where
  "compile_rules rx [] = ([], [])"
| "compile_rules rx (r # rs) =
     (let (ok, bad) = compile_rules rx rs
      in case rx_new rx (rr_body_regex r) of
           Inr re \<Rightarrow>
             (\<lparr>cr_id = rr_id r, cr_event_name = rr_event_name r, cr_match_kind = rr_match_kind r,
               cr_regex = re, cr_fields = rr_fields r\<rparr> # ok, bad)
         | Inl e \<Rightarrow> (ok, (rr_id r, e) # bad))"

definition matches_anchor :: "log_line \<Rightarrow> compiled_remote_rule \<Rightarrow> bool" where
  "matches_anchor line rule =
     (case cr_match_kind rule of
        MatchEventName \<Rightarrow> l_event_name line = Some (cr_event_name rule)
      | MatchBodyKeyword \<Rightarrow> contains (l_body line) (cr_event_name rule))"

definition insert_field :: "captures \<Rightarrow> (string \<rightharpoonup> string) \<Rightarrow> string \<Rightarrow> (string \<rightharpoonup> string)" where
  "insert_field caps fs f =
     (case cap_name caps f of None \<Rightarrow> fs | Some m \<Rightarrow> fs(f \<mapsto> m))"

definition remote_match_of :: "log_line \<Rightarrow> compiled_remote_rule \<Rightarrow> captures \<Rightarrow> game_event" where
  "remote_match_of line rule caps =
     RemoteMatch \<lparr>rm_timestamp = l_timestamp line, rm_rule_id = cr_id rule,
       rm_event_name = cr_event_name rule,
       rm_fields = foldl (insert_field caps) Map.empty (cr_fields rule)\<rparr>"

text \<open>
  The question mark after \<open>captures\<close> leaves the whole function, not the iteration: the first
  rule whose anchor matches decides.
\<close>

fun apply_remote_rules ::
    "regex_engine \<Rightarrow> log_line \<Rightarrow> compiled_remote_rule list \<Rightarrow> game_event option" where
  "apply_remote_rules rx line [] = None"
| "apply_remote_rules rx line (rule # rules) =
     (if \<not> matches_anchor line rule then apply_remote_rules rx line rules
      else
        (case rx_captures rx (cr_regex rule) (l_body line) of
           None \<Rightarrow> None
         | Some caps \<Rightarrow> Some (remote_match_of line rule caps)))"

section \<open>Lemmas\<close>

definition field_value :: "captures \<Rightarrow> string list \<Rightarrow> string \<Rightarrow> string option" where
  "field_value caps fs f = (if f \<in> set fs then cap_name caps f else None)"

lemma foldl_insert_field:
  "foldl (insert_field caps) m fs f = (case field_value caps fs f of None \<Rightarrow> m f | Some v \<Rightarrow> Some v)"
  by (induction fs arbitrary: m) (auto simp: insert_field_def field_value_def split: option.splits)

lemma remote_match_fields: "foldl (insert_field caps) Map.empty fs = field_value caps fs"
  by (rule ext) (simp add: foldl_insert_field split: option.split)

lemma apply_remote_rules_eq:
  "apply_remote_rules rx line rules =
     (case find (matches_anchor line) rules of
        None \<Rightarrow> None
      | Some rule \<Rightarrow> map_option (remote_match_of line rule) (rx_captures rx (cr_regex rule) (l_body line)))"
  by (induction rules) (auto split: option.split)

lemma compile_rules_eq:
  "compile_rules rx rs =
     (List.map_filter (\<lambda>r. case rx_new rx (rr_body_regex r) of
          Inl _ \<Rightarrow> None
        | Inr re \<Rightarrow> Some \<lparr>cr_id = rr_id r, cr_event_name = rr_event_name r,
            cr_match_kind = rr_match_kind r, cr_regex = re, cr_fields = rr_fields r\<rparr>) rs,
      List.map_filter (\<lambda>r. case rx_new rx (rr_body_regex r) of
          Inl e \<Rightarrow> Some (rr_id r, e)
        | Inr _ \<Rightarrow> None) rs)"
  by (induction rs) (auto simp: List.map_filter_simps split: sum.split)

section \<open>Properties\<close>

text \<open>
  Compilation sorts the rules into two lists and loses none: the identifiers of the compiled
  rules and of the reported failures are, with multiplicity, those of the manifest, and both lists
  keep the manifest's order.
\<close>

theorem compile_rules_partitions:
  "mset (map cr_id (fst (compile_rules rx rs))) + mset (map fst (snd (compile_rules rx rs))) =
     mset (map rr_id rs) \<and>
   map cr_id (fst (compile_rules rx rs)) =
     map rr_id (filter (\<lambda>r. \<exists>re. rx_new rx (rr_body_regex r) = Inr re) rs) \<and>
   map fst (snd (compile_rules rx rs)) =
     map rr_id (filter (\<lambda>r. \<exists>e. rx_new rx (rr_body_regex r) = Inl e) rs)"
  by (induction rs) (auto simp: Let_def split: sum.split prod.split)

text \<open>
  A remote match is what its rule says: it comes from a rule of the list that is anchored on the
  line, is the first such rule, carries the line's timestamp and that rule's name, and its fields
  are exactly the declared captures that took part in the match.
\<close>

theorem apply_remote_rules_sound:
  assumes "apply_remote_rules rx line rules = Some ev"
  shows "\<exists>pre rule post caps. rules = pre @ rule # post \<and> matches_anchor line rule \<and>
    list_all (\<lambda>r. \<not> matches_anchor line r) pre \<and>
    rx_captures rx (cr_regex rule) (l_body line) = Some caps \<and>
    ev = RemoteMatch \<lparr>rm_timestamp = l_timestamp line, rm_rule_id = cr_id rule,
      rm_event_name = cr_event_name rule,
      rm_fields = (\<lambda>f. if f \<in> set (cr_fields rule) then cap_name caps f else None)\<rparr>"
proof -
  from assms obtain rule caps where r: "find (matches_anchor line) rules = Some rule"
    and c: "rx_captures rx (cr_regex rule) (l_body line) = Some caps" and ev: "ev = remote_match_of line rule caps"
    by (auto simp: apply_remote_rules_eq split: option.splits)
  have "field_value caps (cr_fields rule) = (\<lambda>f. if f \<in> set (cr_fields rule) then cap_name caps f else None)"
    by (rule ext) (simp add: field_value_def)
  then show ?thesis
    using find_Some_splitD [OF r] c
    by (auto simp: ev remote_match_of_def remote_match_fields list_all_iff)
qed

definition demo_rule :: "string \<Rightarrow> string \<Rightarrow> compiled_remote_rule" where
  "demo_rule i r = \<lparr>cr_id = i, cr_event_name = ''E'', cr_match_kind = MatchEventName,
     cr_regex = Dynamic r, cr_fields = [''x'']\<rparr>"

definition demo_line :: log_line where
  "demo_line = \<lparr>l_timestamp = ''t'', l_level = None, l_event_name = Some ''E'', l_body = ''b'', l_tags = []\<rparr>"

text \<open>An engine on which only the pattern \<open>hit\<close> matches, capturing the whole text as \<open>x\<close>.\<close>

definition demo_rx :: regex_engine where
  "demo_rx = \<lparr>rx_captures = (\<lambda>re s. if re = Dynamic ''hit''
       then Some \<lparr>cap_whole = s, cap_name = [''x'' \<mapsto> s], cap_one = None\<rparr> else None),
     rx_find = (\<lambda>_ _. None), rx_find_iter = (\<lambda>_ _. []), rx_group1_iter = (\<lambda>_ _. []),
     rx_replace_all = (\<lambda>_ s _. s), rx_new = (\<lambda>p. Inr (Dynamic p))\<rparr>"

lemmas demo_rule_defs = demo_rule_def demo_line_def demo_rx_def matches_anchor_def remote_match_of_def

theorem apply_remote_rules_sound_witness:
  "\<exists>pre rule post. [demo_rule ''a'' ''hit''] = pre @ rule # post \<and> matches_anchor demo_line rule \<and>
     cr_id rule = ''a''"
proof -
  have "apply_remote_rules demo_rx demo_line [demo_rule ''a'' ''hit''] =
      Some (remote_match_of demo_line (demo_rule ''a'' ''hit'')
        \<lparr>cap_whole = ''b'', cap_name = [''x'' \<mapsto> ''b''], cap_one = None\<rparr>)"
    by (simp add: demo_rule_def demo_line_def demo_rx_def matches_anchor_def)
  from apply_remote_rules_sound [OF this] show ?thesis
    by (auto simp: Cons_eq_append_conv demo_rule_def)
qed

text \<open>
  The first anchored rule decides alone: when its pattern does not match the body, no rule after
  it is tried, whatever the rest of the list holds.
\<close>

theorem first_anchored_rule_decides:
  assumes "list_all (\<lambda>r. \<not> matches_anchor line r) pre" and "matches_anchor line rule"
    and "rx_captures rx (cr_regex rule) (l_body line) = None"
  shows "apply_remote_rules rx line (pre @ rule # post) = None"
  using assms by (induction pre) auto

theorem first_anchored_rule_decides_witness:
  "apply_remote_rules demo_rx demo_line [demo_rule ''a'' ''miss'', demo_rule ''b'' ''hit''] = None \<and>
   apply_remote_rules demo_rx demo_line [demo_rule ''b'' ''hit''] \<noteq> None"
  using first_anchored_rule_decides [of demo_line "[]" "demo_rule ''a'' ''miss''" demo_rx "[demo_rule ''b'' ''hit'']"]
  by (simp add: demo_rule_defs)

end
