(* ===== verification/Unknown_Lines.thy ===== *)
theory Unknown_Lines
  imports Log_Line Metadata
begin

text \<open>
  Models \<^verbatim>\<open>crates/starstats-core/src/unknown_lines.rs\<close>: the shape of an unrecognised line, its
  interest score, the detection of personal tokens, and the captured record. The regex engine is
  the parameter \<open>rx\<close>, the standard library's \<open>DefaultHasher\<close> the parameter \<open>hash64\<close>, and the
  random identifier of the \<^verbatim>\<open>uuid\<close> crate the argument \<open>new_id\<close>.
\<close>

section \<open>Model\<close>

datatype pii_kind = OwnHandle | FriendHandle | ShardId | Geid | IpPort

record pii_token =
  pii_kind :: pii_kind
  pii_start :: nat
  pii_end :: nat
  pii_suggested_redaction :: string
  pii_default_redact :: bool

record unknown_line =
  ul_id :: string
  ul_raw_line :: string
  ul_timestamp :: "string option"
  ul_shell_tag :: "string option"
  ul_partial_structured :: "string \<rightharpoonup> string"
  ul_context_before :: "string list"
  ul_context_after :: "string list"
  ul_game_build :: "string option"
  ul_channel :: log_source
  ul_interest_score :: u8
  ul_shape_hash :: string
  ul_occurrence_count :: u32
  ul_first_seen :: string
  ul_last_seen :: string
  ul_detected_pii :: "pii_token list"
  ul_dismissed :: bool

subsection \<open>Shape\<close>

definition shape_of :: "regex_engine \<Rightarrow> string \<Rightarrow> string" where
  "shape_of rx line =
     (let s = rx_replace_all rx TS_RE line ''<TS>'';
          s = rx_replace_all rx UUID_RE s ''<UUID>'';
          s = rx_replace_all rx GEID_RE s ''[<GEID>]'';
          s = rx_replace_all rx IPPORT_RE s ''<IPPORT>'';
          s = rx_replace_all rx QUOTED_RE s (CHR 0x22 # ''<STR>'' @ [CHR 0x22])
      in s)"

definition hex_digit :: "nat \<Rightarrow> char" where
  "hex_digit n = ''0123456789abcdef'' ! n"

text \<open>\<open>{:016x}\<close>: sixteen lower-case hexadecimal digits, most significant first.\<close>

fun hex_pad :: "nat \<Rightarrow> nat \<Rightarrow> string" where
  "hex_pad 0 n = []"
| "hex_pad (Suc k) n = hex_pad k (n div 16) @ [hex_digit (n mod 16)]"

definition shape_hash :: "regex_engine \<Rightarrow> (string \<Rightarrow> u64) \<Rightarrow> string \<Rightarrow> string" where
  "shape_hash rx hash64 line = ''sh_'' @ hex_pad 16 (unat (hash64 (shape_of rx line)))"

subsection \<open>Interest score\<close>

record interest_context =
  ix_known_shell_tags :: "string set"
  ix_known_rule_tags :: "string set"
  ix_session_occurrence_count :: u32
  ix_multi_session :: bool
  ix_already_remote_matched :: bool

definition interest_sum :: "string \<Rightarrow> string option \<Rightarrow> interest_context \<Rightarrow> int" where
  "interest_sum line shell_tag ctx =
     (case shell_tag of
        None \<Rightarrow> 0
      | Some tag \<Rightarrow>
          if tag \<notin> ix_known_shell_tags ctx then 40
          else if tag \<notin> ix_known_rule_tags ctx then 30 else 0) +
     (if CHR ''['' \<in> set line \<and> length (filter is_ascii_digit line) \<ge> 5 then 15 else 0) +
     (if contains line ''OOC_'' \<or> contains line ''body_'' \<or> contains line ''_class'' then 10 else 0) +
     (if ix_session_occurrence_count ctx \<ge> 3 then 10 else 0) +
     (if ix_multi_session ctx then 20 else 0) -
     (if \<not> (20 \<le> length line \<and> length line \<le> 2000) then 30 else 0)"

definition interest_score :: "string \<Rightarrow> string option \<Rightarrow> interest_context \<Rightarrow> u8" where
  "interest_score line shell_tag ctx =
     (if ix_already_remote_matched ctx then 0
      else of_int (max 0 (min 100 (interest_sum line shell_tag ctx))))"

subsection \<open>Personal tokens\<close>

text \<open>
  \<open>str::match_indices\<close>: the start offsets of the non-overlapping occurrences, left to right, of a
  non-empty needle. The counter skips the rest of an occurrence that was just reported.
\<close>

fun match_indices_from :: "nat \<Rightarrow> nat \<Rightarrow> string \<Rightarrow> string \<Rightarrow> nat list" where
  "match_indices_from pos skip [] n = []"
| "match_indices_from pos (Suc k) (c # cs) n = match_indices_from (Suc pos) k cs n"
| "match_indices_from pos 0 (c # cs) n =
     (if starts_with (c # cs) n
      then pos # match_indices_from (Suc pos) (length n - 1) cs n
      else match_indices_from (Suc pos) 0 cs n)"

definition match_indices :: "string \<Rightarrow> string \<Rightarrow> nat list" where
  "match_indices s n = match_indices_from 0 0 s n"

definition token :: "pii_kind \<Rightarrow> string \<Rightarrow> bool \<Rightarrow> nat \<times> nat \<Rightarrow> pii_token" where
  "token kind redaction redact rng =
     \<lparr>pii_kind = kind, pii_start = fst rng, pii_end = snd rng,
      pii_suggested_redaction = redaction, pii_default_redact = redact\<rparr>"

definition handle_spans :: "string \<Rightarrow> string \<Rightarrow> (nat \<times> nat) list" where
  "handle_spans line handle =
     (if handle = [] then [] else map (\<lambda>i. (i, i + length handle)) (match_indices line handle))"

definition detect_pii :: "regex_engine \<Rightarrow> string \<Rightarrow> string \<Rightarrow> string list \<Rightarrow> pii_token list" where
  "detect_pii rx line own_handle known_friends =
     sort_key pii_start
       (map (token OwnHandle ''[HANDLE]'' True) (handle_spans line own_handle) @
        concat (map (\<lambda>friend. map (token FriendHandle ''[FRIEND]'' False) (handle_spans line friend))
          known_friends) @
        map (token Geid ''[GEID]'' False) (rx_find_iter rx GEID_RE line) @
        map (token IpPort ''[IPPORT]'' False) (rx_find_iter rx IPPORT_RE line) @
        map (token ShardId ''[SHARD]'' True) (rx_group1_iter rx SHARD_RE line))"

subsection \<open>Capture\<close>

record capture_context =
  cx_own_handle :: string
  cx_known_friends :: "string list"
  cx_known_shell_tags :: "string set"
  cx_known_rule_tags :: "string set"
  cx_session_occurrence_count :: u32
  cx_multi_session :: bool
  cx_already_remote_matched :: bool
  cx_game_build :: "string option"
  cx_channel :: log_source
  cx_context_before :: "string list"

definition default_capture_context :: capture_context where
  "default_capture_context =
     \<lparr>cx_own_handle = [], cx_known_friends = [], cx_known_shell_tags = {}, cx_known_rule_tags = {},
      cx_session_occurrence_count = 0, cx_multi_session = False, cx_already_remote_matched = False,
      cx_game_build = None, cx_channel = OtherSource, cx_context_before = []\<rparr>"

definition extract_timestamp :: "regex_engine \<Rightarrow> string \<Rightarrow> string option" where
  "extract_timestamp rx line = rx_find rx TS_RE line"

definition interest_context_of :: "capture_context \<Rightarrow> interest_context" where
  "interest_context_of ctx =
     \<lparr>ix_known_shell_tags = cx_known_shell_tags ctx, ix_known_rule_tags = cx_known_rule_tags ctx,
      ix_session_occurrence_count = cx_session_occurrence_count ctx,
      ix_multi_session = cx_multi_session ctx,
      ix_already_remote_matched = cx_already_remote_matched ctx\<rparr>"

definition capture ::
    "regex_engine \<Rightarrow> (string \<Rightarrow> u64) \<Rightarrow> string \<Rightarrow> string \<Rightarrow> string option \<Rightarrow> capture_context \<Rightarrow> string \<Rightarrow>
     unknown_line" where
  "capture rx hash64 new_id line shell_tag ctx now_rfc3339 =
     \<lparr>ul_id = new_id, ul_raw_line = line, ul_timestamp = extract_timestamp rx line,
      ul_shell_tag = shell_tag, ul_partial_structured = Map.empty,
      ul_context_before = cx_context_before ctx, ul_context_after = [],
      ul_game_build = cx_game_build ctx, ul_channel = cx_channel ctx,
      ul_interest_score = interest_score line shell_tag (interest_context_of ctx),
      ul_shape_hash = shape_hash rx hash64 line, ul_occurrence_count = 1,
      ul_first_seen = now_rfc3339, ul_last_seen = now_rfc3339,
      ul_detected_pii = detect_pii rx line (cx_own_handle ctx) (cx_known_friends ctx),
      ul_dismissed = False\<rparr>"

section \<open>Lemmas\<close>

lemma length_hex_pad [simp]: "length (hex_pad k n) = k"
  by (induction k arbitrary: n) auto

lemma hex_digit_inj: "a < 16 \<Longrightarrow> b < 16 \<Longrightarrow> hex_digit a = hex_digit b \<Longrightarrow> a = b"
proof -
  have "distinct ''0123456789abcdef''" by simp
  then show "a < 16 \<Longrightarrow> b < 16 \<Longrightarrow> hex_digit a = hex_digit b \<Longrightarrow> a = b"
    unfolding hex_digit_def by (subst (asm) nth_eq_iff_index_eq) simp_all
qed

lemma hex_pad_inj: "a < 16 ^ k \<Longrightarrow> b < 16 ^ k \<Longrightarrow> hex_pad k a = hex_pad k b \<Longrightarrow> a = b"
proof (induction k arbitrary: a b)
  case (Suc k)
  have "a div 16 < 16 ^ k" "b div 16 < 16 ^ k" using Suc.prems(1,2) by (simp_all add: less_mult_imp_div_less mult.commute)
  then have "a div 16 = b div 16" using Suc.IH Suc.prems(3) by simp
  moreover have "a mod 16 = b mod 16" using Suc.prems(3) by (auto intro: hex_digit_inj)
  ultimately show ?case by (metis div_mult_mod_eq)
qed simp

lemma match_indices_from_sound:
  "i \<in> set (match_indices_from pos skip s n) \<Longrightarrow> n \<noteq> [] \<Longrightarrow>
     pos + skip \<le> i \<and> i + length n \<le> pos + length s \<and> take (length n) (drop (i - pos) s) = n"
proof (induction pos skip s n rule: match_indices_from.induct)
  case (2 pos k c cs n)
  then show ?case by (auto simp: Suc_diff_le Suc_le_eq drop_Cons' split: if_splits)
next
  case (3 pos c cs n)
  show ?case
  proof (cases "starts_with (c # cs) n \<and> i = pos")
    case True
    then have "take (length n) (c # cs) = n" by (simp add: starts_with_def)
    then have "length n \<le> length (c # cs)" by (metis nat_le_linear take_all)
    then show ?thesis using True \<open>take (length n) (c # cs) = n\<close> by simp
  next
    case False
    then have "i \<in> set (match_indices_from (Suc pos) (length n - 1) cs n) \<or>
        i \<in> set (match_indices_from (Suc pos) 0 cs n)" using "3.prems"(1) by (auto split: if_splits)
    then have "Suc pos \<le> i \<and> i + length n \<le> Suc pos + length cs \<and> take (length n) (drop (i - Suc pos) cs) = n"
      using 3 False by (auto split: if_splits)
    then show ?thesis by (auto simp: drop_Cons' Suc_diff_Suc)
  qed
qed simp

text \<open>Every occurrence of the needle overlaps a reported one.\<close>

lemma match_indices_from_complete:
  assumes "n \<noteq> []" and "starts_with (drop j s) n" and "skip \<le> j" and "j < length s"
  shows "\<exists>i \<in> set (match_indices_from pos skip s n). i \<le> pos + j \<and> pos + j < i + length n"
  using assms
proof (induction pos skip s n arbitrary: j rule: match_indices_from.induct)
  case (2 pos k c cs n)
  then obtain j' where j': "j = Suc j'" by (cases j) auto
  then show ?case using "2.IH" [of j'] "2.prems" by fastforce
next
  case (3 pos c cs n)
  show ?case
  proof (cases "starts_with (c # cs) n")
    case True
    show ?thesis
    proof (cases "j < length n")
      case True
      then show ?thesis using \<open>starts_with (c # cs) n\<close> by auto
    next
      case False
      then obtain j' where j': "j = Suc j'" using \<open>n \<noteq> []\<close> by (cases j) auto
      then have "\<exists>i \<in> set (match_indices_from (Suc pos) (length n - 1) cs n). i \<le> Suc pos + j' \<and> Suc pos + j' < i + length n"
        using "3.IH"(1) [OF True, of j'] "3.prems" False by auto
      then show ?thesis using True j' by auto
    qed
  next
    case False
    then obtain j' where j': "j = Suc j'" using "3.prems"(2) by (cases j) auto
    then have "\<exists>i \<in> set (match_indices_from (Suc pos) 0 cs n). i \<le> Suc pos + j' \<and> Suc pos + j' < i + length n"
      using "3.IH"(2) [OF False, of j'] "3.prems" by auto
    then show ?thesis using False j' by auto
  qed
qed simp

lemma handle_spans_sound:
  assumes "(a, b) \<in> set (handle_spans line h)"
  shows "a < b \<and> b \<le> length line \<and> take (b - a) (drop a line) = h"
proof -
  from assms have h: "h \<noteq> []" and a: "a \<in> set (match_indices_from 0 0 line h)" and b: "b = a + length h"
    by (auto simp: handle_spans_def match_indices_def split: if_splits)
  from match_indices_from_sound [OF a h] show ?thesis using b h by auto
qed

lemma handle_spans_complete:
  assumes "h \<noteq> []" and "starts_with (drop j line) h"
  shows "\<exists>(a, b) \<in> set (handle_spans line h). a \<le> j \<and> j < b"
proof -
  have "j < length line" using assms by (metis drop_all leI length_greater_0_conv list.size(3) starts_with_def take_Nil)
  then obtain a where "a \<in> set (match_indices_from 0 0 line h)" "a \<le> j" "j < a + length h"
    using match_indices_from_complete [of h j line 0 0] assms by auto
  then show ?thesis
    using assms(1) by (intro bexI [of _ "(a, a + length h)"]) (auto simp: handle_spans_def match_indices_def)
qed

text \<open>What the detector relies on of the engine: a match lies inside the text and is not empty.\<close>

definition spans_ok :: "regex_engine \<Rightarrow> bool" where
  "spans_ok rx \<longleftrightarrow>
     (\<forall>re s a b. (a, b) \<in> set (rx_find_iter rx re s) \<union> set (rx_group1_iter rx re s) \<longrightarrow>
        re \<in> {GEID_RE, IPPORT_RE, SHARD_RE} \<longrightarrow> a < b \<and> b \<le> length s)"

lemma set_detect_pii:
  "t \<in> set (detect_pii rx line own friends) \<longleftrightarrow>
     t \<in> token OwnHandle ''[HANDLE]'' True ` set (handle_spans line own) \<or>
     (\<exists>f \<in> set friends. t \<in> token FriendHandle ''[FRIEND]'' False ` set (handle_spans line f)) \<or>
     t \<in> token Geid ''[GEID]'' False ` set (rx_find_iter rx GEID_RE line) \<or>
     t \<in> token IpPort ''[IPPORT]'' False ` set (rx_find_iter rx IPPORT_RE line) \<or>
     t \<in> token ShardId ''[SHARD]'' True ` set (rx_group1_iter rx SHARD_RE line)"
  by (auto simp: detect_pii_def)

lemma token_fields [simp]:
  "pii_kind (token k r d p) = k" "pii_start (token k r d p) = fst p" "pii_end (token k r d p) = snd p"
  "pii_default_redact (token k r d p) = d"
  by (simp_all add: token_def)

lemma interest_sum_bounds: "- 30 \<le> interest_sum line tag ctx \<and> interest_sum line tag ctx \<le> 95"
  by (simp add: interest_sum_def split: option.split)

section \<open>Properties\<close>

text \<open>
  The player's own handle never escapes review: wherever it occurs in a captured line, a token
  flagged for redaction by default covers the first byte of the occurrence, and every handle token
  spans exactly the handle.
\<close>

theorem own_handle_flagged:
  assumes "own \<noteq> []" and "starts_with (drop j line) own"
  shows "(\<exists>t \<in> set (detect_pii rx line own friends). pii_kind t = OwnHandle \<and> pii_default_redact t \<and>
      pii_start t \<le> j \<and> j < pii_end t) \<and>
    (\<forall>t \<in> set (detect_pii rx line own friends). pii_kind t = OwnHandle \<longrightarrow>
      take (pii_end t - pii_start t) (drop (pii_start t) line) = own)"
proof
  from handle_spans_complete [OF assms] obtain a b where
    "(a, b) \<in> set (handle_spans line own)" "a \<le> j" "j < b" by auto
  then show "\<exists>t \<in> set (detect_pii rx line own friends). pii_kind t = OwnHandle \<and> pii_default_redact t \<and>
      pii_start t \<le> j \<and> j < pii_end t"
    by (intro bexI [of _ "token OwnHandle ''[HANDLE]'' True (a, b)"]) (auto simp: set_detect_pii)
  show "\<forall>t \<in> set (detect_pii rx line own friends). pii_kind t = OwnHandle \<longrightarrow>
      take (pii_end t - pii_start t) (drop (pii_start t) line) = own"
    using handle_spans_sound by (auto simp: set_detect_pii)
qed

definition no_match_rx :: regex_engine where
  "no_match_rx = \<lparr>rx_captures = (\<lambda>_ _. None), rx_find = (\<lambda>_ _. None), rx_find_iter = (\<lambda>_ _. []),
     rx_group1_iter = (\<lambda>_ _. []), rx_replace_all = (\<lambda>_ s _. s), rx_new = (\<lambda>p. Inr (Dynamic p))\<rparr>"

theorem own_handle_flagged_witness:
  "starts_with (drop 3 ''by aab'') ''aa'' \<and>
   (\<exists>t \<in> set (detect_pii no_match_rx ''by aab'' ''aa'' []). pii_kind t = OwnHandle \<and> pii_default_redact t)"
  using own_handle_flagged [of "''aa''" 3 "''by aab''" no_match_rx "[]"]
  by (auto simp: starts_with_def)

text \<open>
  The tokens of a line are usable spans: they come out ordered by start offset, each is non-empty
  and lies inside the line, so replacing them cannot run out of range.
\<close>

theorem detected_spans_valid:
  assumes "spans_ok rx"
  shows "sorted (map pii_start (detect_pii rx line own friends)) \<and>
    (\<forall>t \<in> set (detect_pii rx line own friends). pii_start t < pii_end t \<and> pii_end t \<le> length line)"
proof
  show "sorted (map pii_start (detect_pii rx line own friends))" by (simp add: detect_pii_def)
  have *: "a < b \<and> b \<le> length line"
    if "(a, b) \<in> set (rx_find_iter rx GEID_RE line) \<union> set (rx_find_iter rx IPPORT_RE line) \<union>
      set (rx_group1_iter rx SHARD_RE line)" for a b
    using that assms unfolding spans_ok_def by blast
  show "\<forall>t \<in> set (detect_pii rx line own friends). pii_start t < pii_end t \<and> pii_end t \<le> length line"
  proof
    fix t
    assume "t \<in> set (detect_pii rx line own friends)"
    then obtain k r d a b where t: "t = token k r d (a, b)" and "a < b \<and> b \<le> length line"
      using * handle_spans_sound unfolding set_detect_pii by fast
    then show "pii_start t < pii_end t \<and> pii_end t \<le> length line" by simp
  qed
qed

theorem detected_spans_valid_witness:
  "sorted (map pii_start (detect_pii (no_match_rx\<lparr>rx_find_iter := (\<lambda>_ s. if s = [] then [] else [(0, 1)])\<rparr>)
     ''ab'' ''b'' []))"
  using detected_spans_valid [of "no_match_rx\<lparr>rx_find_iter := (\<lambda>_ s. if s = [] then [] else [(0, 1)])\<rparr>"
      "''ab''" "''b''" "[]"]
  by (auto simp: spans_ok_def no_match_rx_def Suc_le_eq)

text \<open>
  The interest score fits its byte and the documented range: it is the clamped sum of the
  signals, 0 for a line a remote rule already matched, and never exceeds 95.
\<close>

theorem interest_score_range:
  "unat (interest_score line tag ctx) =
     (if ix_already_remote_matched ctx then 0 else nat (max 0 (interest_sum line tag ctx))) \<and>
   unat (interest_score line tag ctx) \<le> 95"
proof -
  let ?s = "max 0 (min 100 (interest_sum line tag ctx))"
  have s: "?s = max 0 (interest_sum line tag ctx)" "?s \<le> 95"
    using interest_sum_bounds [of line tag ctx] by auto
  have "unat (of_int ?s :: u8) = nat ?s"
    using s(2) by (simp add: unat_eq_nat_uint uint_word_of_int take_bit_int_eq_self flip: of_int_of_nat_eq del: of_int_max)
  then show ?thesis using s by (auto simp: interest_score_def)
qed

text \<open>
  Lines are deduplicated by shape and nothing else: two lines get the same shape hash exactly
  when the 64-bit hashes of their shapes agree, in particular when their shapes do.
\<close>

theorem shape_hash_eq_iff:
  "shape_hash rx hash64 a = shape_hash rx hash64 b \<longleftrightarrow> hash64 (shape_of rx a) = hash64 (shape_of rx b)"
proof
  assume "shape_hash rx hash64 a = shape_hash rx hash64 b"
  then have "hex_pad 16 (unat (hash64 (shape_of rx a))) = hex_pad 16 (unat (hash64 (shape_of rx b)))"
    by (simp add: shape_hash_def)
  moreover have "unat (w :: u64) < 16 ^ 16" for w using unsigned_less [of w] by simp
  ultimately have "unat (hash64 (shape_of rx a)) = unat (hash64 (shape_of rx b))" by (intro hex_pad_inj) auto
  then show "hash64 (shape_of rx a) = hash64 (shape_of rx b)" by (simp add: word_unat_eq_iff)
qed (simp add: shape_hash_def)

end
