(* ===== verification/Classify.thy ===== *)
theory Classify
  imports Parser_Defs Unknown_Lines Validators
begin

text \<open>
  Pass 2 of \<^verbatim>\<open>crates/starstats-core/src/parser.rs\<close>: the classification of a structurally parsed line
  into a typed event, the launcher categories, the coverage tally, and the entry point that tries
  the built-in rules, then the remote ones, then captures the line. Indexing a capture group
  (\<open>c["name"]\<close>) panics when the group took no part in the match, so the classifier returns an
  \<open>outcome\<close>; a question mark in an arm leaves the whole function with \<open>None\<close>.
\<close>

section \<open>Launcher categories\<close>

definition contains_any :: "string \<Rightarrow> string list \<Rightarrow> bool" where
  "contains_any s ks \<longleftrightarrow> list_ex (contains s) ks"

definition classify_launcher_message :: "string \<Rightarrow> string \<Rightarrow> launcher_category" where
  "classify_launcher_message level message =
     (let lower = to_ascii_lowercase message;
          level_is_error = (level = ''error'' \<or> level = ''fatal'');
          body_says_error = contains_any lower [''error'', ''failed'', ''failure'', ''exception'', ''err_'']
      in if level_is_error \<or> body_says_error then CatError
         else if contains_any lower [''log in'', ''logged in'', ''logging in'', ''log out'',
             ''logged out'', ''sign in'', ''signed in'', ''authenticat'', ''credential'',
             ''session refresh'', ''token refresh'', ''oauth''] then CatAuth
         else if contains_any lower [''patch'', ''delta'', ''applying update'', ''applying ''] then CatPatch
         else if contains_any lower [''install'', ''download'', ''verify'', ''verification'',
             ''integrity'', ''repair'', ''file check''] then CatInstall
         else if contains_any lower [''launcher update'', ''self-update'', ''self update'',
             ''checking for updates''] then CatUpdate
         else CatInfo)"

section \<open>Coverage tally\<close>

record parse_stats =
  ps_total :: u64
  ps_recognised :: u64
  ps_structural_only :: u64
  ps_skipped :: u64

definition record_line :: "parse_stats \<Rightarrow> bool \<Rightarrow> bool \<Rightarrow> parse_stats" where
  "record_line st parsed structural =
     (let st = st\<lparr>ps_total := ps_total st + 1\<rparr> in
      if parsed then st\<lparr>ps_recognised := ps_recognised st + 1\<rparr>
      else if structural then st\<lparr>ps_structural_only := ps_structural_only st + 1\<rparr>
      else st\<lparr>ps_skipped := ps_skipped st + 1\<rparr>)"

definition coverage :: "parse_stats \<Rightarrow> rat" where
  "coverage st =
     (if ps_total st = 0 then 0
      else rat_of_nat (unat (ps_recognised st)) / rat_of_nat (unat (ps_total st)))"

section \<open>The arms of the classifier\<close>

abbreviation grp :: "captures \<Rightarrow> string \<Rightarrow> (string \<Rightarrow> 'a outcome) \<Rightarrow> 'a outcome" where
  "grp c n k \<equiv> obind (of_opt (cap_name c n)) k"

definition with_captures ::
    "regex_engine \<Rightarrow> regex_id \<Rightarrow> string \<Rightarrow> (captures \<Rightarrow> game_event option outcome) \<Rightarrow> game_event option outcome" where
  "with_captures rx re body k = (case rx_captures rx re body of None \<Rightarrow> Ret None | Some c \<Rightarrow> k c)"

definition parsed ::
    "'a option \<Rightarrow> ('a \<Rightarrow> game_event option outcome) \<Rightarrow> game_event option outcome" where
  "parsed v k = (case v of None \<Rightarrow> Ret None | Some a \<Rightarrow> k a)"

abbreviation hit :: "game_event \<Rightarrow> game_event option outcome" where
  "hit e \<equiv> Ret (Some e)"

definition parse_u8 :: "string \<Rightarrow> u8 option" where
  "parse_u8 s = map_option of_nat (parse_unsigned 8 s)"

definition parse_u16 :: "string \<Rightarrow> u16 option" where
  "parse_u16 s = map_option of_nat (parse_unsigned 16 s)"

definition parse_u32 :: "string \<Rightarrow> u32 option" where
  "parse_u32 s = map_option of_nat (parse_unsigned 32 s)"

definition parse_u64 :: "string \<Rightarrow> u64 option" where
  "parse_u64 s = map_option of_nat (parse_unsigned 64 s)"

definition arm_process_init :: "regex_engine \<Rightarrow> string \<Rightarrow> string \<Rightarrow> game_event option outcome" where
  "arm_process_init rx ts body = with_captures rx PROCESS_INIT_RE body (\<lambda>c.
     grp c ''local'' (\<lambda>local. grp c ''env'' (\<lambda>env. grp c ''online'' (\<lambda>online.
       hit (ProcessInit \<lparr>pi_timestamp = ts, pi_local_session = trim local,
         pi_env_session = trim env, pi_online = (online = ''1'')\<rparr>)))))"

definition arm_legacy_login :: "regex_engine \<Rightarrow> string \<Rightarrow> string \<Rightarrow> game_event option outcome" where
  "arm_legacy_login rx ts body = with_captures rx LEGACY_LOGIN_RE body (\<lambda>c.
     grp c ''handle'' (\<lambda>handle.
       hit (LegacyLogin \<lparr>ll_timestamp = ts, ll_handle = handle, ll_server_time = cap_name c ''time''\<rparr>)))"

definition arm_join_pu :: "regex_engine \<Rightarrow> string \<Rightarrow> string \<Rightarrow> game_event option outcome" where
  "arm_join_pu rx ts body = with_captures rx JOIN_PU_RE body (\<lambda>c.
     grp c ''address'' (\<lambda>address. grp c ''port'' (\<lambda>port. parsed (parse_u16 port) (\<lambda>port.
       grp c ''shard'' (\<lambda>shard. grp c ''loc'' (\<lambda>loc.
         hit (JoinPu \<lparr>jp_timestamp = ts, jp_address = address, jp_port = port, jp_shard = shard,
           jp_location_id = loc\<rparr>)))))))"

definition arm_change_server ::
    "regex_engine \<Rightarrow> server_phase \<Rightarrow> string \<Rightarrow> string \<Rightarrow> game_event option outcome" where
  "arm_change_server rx phase ts body = with_captures rx CHANGE_SERVER_RE body (\<lambda>c.
     grp c ''shard'' (\<lambda>shard. grp c ''server'' (\<lambda>server. grp c ''mp'' (\<lambda>mp.
       hit (ChangeServer \<lparr>cs_timestamp = ts, cs_phase = phase, cs_is_shard_persisted = (shard = ''1''),
         cs_is_server = (server = ''1''), cs_is_multiplayer = (mp = ''1''),
         cs_is_online = map_option (\<lambda>m. m = ''1'') (cap_name c ''online'')\<rparr>)))))"

definition arm_seed_solar_system ::
    "regex_engine \<Rightarrow> bool \<Rightarrow> string \<Rightarrow> string \<Rightarrow> game_event option outcome" where
  "arm_seed_solar_system rx success ts body = with_captures rx SEED_SS_RE body (\<lambda>c.
     grp c ''ss'' (\<lambda>ss. grp c ''shard'' (\<lambda>shard.
       hit (SeedSolarSystem \<lparr>ss_timestamp = ts, ss_solar_system = ss, ss_shard = shard,
         ss_success = success\<rparr>))))"

definition arm_resolve_spawn :: "regex_engine \<Rightarrow> string \<Rightarrow> string \<Rightarrow> game_event option outcome" where
  "arm_resolve_spawn rx ts body = with_captures rx RESOLVE_SPAWN_RE body (\<lambda>c.
     grp c ''geid'' (\<lambda>geid.
       hit (ResolveSpawn \<lparr>rs_timestamp = ts, rs_player_geid = geid, rs_fallback = True\<rparr>)))"

definition arm_actor_death :: "regex_engine \<Rightarrow> string \<Rightarrow> string \<Rightarrow> game_event option outcome" where
  "arm_actor_death rx ts body = with_captures rx ACTOR_DEATH_RE body (\<lambda>c.
     grp c ''victim'' (\<lambda>victim. grp c ''zone'' (\<lambda>zone. grp c ''killer'' (\<lambda>killer.
     grp c ''weapon'' (\<lambda>weapon. grp c ''dmg'' (\<lambda>dmg.
       hit (ActorDeath \<lparr>ad_timestamp = ts, ad_victim = victim, ad_victim_geid = cap_name c ''vgeid'',
         ad_zone = zone, ad_killer = killer, ad_killer_geid = cap_name c ''kgeid'',
         ad_weapon = weapon, ad_damage_type = dmg\<rparr>)))))))"

definition arm_vehicle_destruction :: "regex_engine \<Rightarrow> string \<Rightarrow> string \<Rightarrow> game_event option outcome" where
  "arm_vehicle_destruction rx ts body = with_captures rx VEHICLE_DESTRUCTION_RE body (\<lambda>c.
     grp c ''vclass'' (\<lambda>vclass. grp c ''level'' (\<lambda>level. parsed (parse_u8 level) (\<lambda>level.
     grp c ''cause'' (\<lambda>cause.
       hit (VehicleDestruction \<lparr>vd_timestamp = ts, vd_vehicle_class = vclass,
         vd_vehicle_id = cap_name c ''vid'', vd_destroy_level = level, vd_caused_by = cause,
         vd_zone = cap_name c ''zone''\<rparr>))))))"

definition arm_hud_notification :: "regex_engine \<Rightarrow> string \<Rightarrow> string \<Rightarrow> game_event option outcome" where
  "arm_hud_notification rx ts body = with_captures rx HUD_NOTIFICATION_RE body (\<lambda>c.
     grp c ''text'' (\<lambda>txt. grp c ''id'' (\<lambda>ident. parsed (parse_u64 ident) (\<lambda>ident.
       if starts_with txt ''Incapacitated:'' then
         hit (PlayerIncapacitated \<lparr>pin_timestamp = ts, pin_queue_id = ident, pin_zone = None\<rparr>)
       else
         (let mission = (case cap_name c ''mission'' of
              Some m \<Rightarrow> if m = ''00000000-0000-0000-0000-000000000000'' then None else Some m
            | None \<Rightarrow> None)
          in hit (HudNotification \<lparr>hn_timestamp = ts, hn_text = txt, hn_notification_id = ident,
               hn_mission_id = mission\<rparr>))))))"

definition arm_player_death :: "regex_engine \<Rightarrow> string \<Rightarrow> string \<Rightarrow> game_event option outcome" where
  "arm_player_death rx ts body = with_captures rx PLAYER_DEATH_RE body (\<lambda>c.
     grp c ''body_class'' (\<lambda>body_class. grp c ''body_id'' (\<lambda>body_id.
       hit (PlayerDeath \<lparr>pd_timestamp = ts, pd_body_class = body_class, pd_body_id = body_id,
         pd_zone = None\<rparr>))))"

definition arm_location_inventory :: "regex_engine \<Rightarrow> string \<Rightarrow> string \<Rightarrow> game_event option outcome" where
  "arm_location_inventory rx ts body = with_captures rx LOCATION_INVENTORY_RE body (\<lambda>c.
     grp c ''player'' (\<lambda>player. grp c ''location'' (\<lambda>location.
       hit (LocationInventoryRequested \<lparr>li_timestamp = ts, li_player = player,
         li_location = location\<rparr>))))"

definition arm_planet_terrain :: "regex_engine \<Rightarrow> string \<Rightarrow> string \<Rightarrow> game_event option outcome" where
  "arm_planet_terrain rx ts body = with_captures rx PLANET_TERRAIN_RE body (\<lambda>c.
     grp c ''planet'' (\<lambda>planet.
       hit (PlanetTerrainLoad \<lparr>pt_timestamp = ts, pt_planet = planet\<rparr>)))"

definition arm_vehicle_stowed :: "regex_engine \<Rightarrow> string \<Rightarrow> string \<Rightarrow> game_event option outcome" where
  "arm_vehicle_stowed rx ts body = with_captures rx VEHICLE_STOWED_RE body (\<lambda>c.
     grp c ''zone_host'' (\<lambda>zone_host. grp c ''vehicle_id'' (\<lambda>vehicle_id. grp c ''area'' (\<lambda>area.
     grp c ''area_id'' (\<lambda>area_id.
       hit (VehicleStowed \<lparr>vs_timestamp = ts, vs_vehicle_id = vehicle_id, vs_landing_area = area,
         vs_landing_area_id = area_id,
         vs_zone_host_id = (if zone_host = ''0'' then None else Some zone_host)\<rparr>))))))"

definition arm_attachment_received :: "regex_engine \<Rightarrow> string \<Rightarrow> string \<Rightarrow> game_event option outcome" where
  "arm_attachment_received rx ts body = with_captures rx ATTACHMENT_RECEIVED_RE body (\<lambda>c.
     grp c ''player'' (\<lambda>player. grp c ''class'' (\<lambda>cls. grp c ''id'' (\<lambda>ident.
     grp c ''status'' (\<lambda>status. grp c ''port'' (\<lambda>port. grp c ''elapsed'' (\<lambda>elapsed.
     parsed (parse_f64 elapsed) (\<lambda>elapsed.
       hit (AttachmentReceived \<lparr>ar_timestamp = ts, ar_player = player, ar_item_class = cls,
         ar_item_id = ident, ar_status = status, ar_port = port,
         ar_elapsed_seconds = elapsed\<rparr>)))))))))"

definition strip_comma :: "string \<Rightarrow> string" where
  "strip_comma s = (if ends_with s '','' then butlast s else s)"

definition arm_quantum_target ::
    "regex_engine \<Rightarrow> quantum_target_phase \<Rightarrow> string \<Rightarrow> string \<Rightarrow> game_event option outcome" where
  "arm_quantum_target rx phase ts body = with_captures rx QUANTUM_TARGET_RE body (\<lambda>c.
     grp c ''dest'' (\<lambda>dest. grp c ''vehicle'' (\<lambda>vehicle. grp c ''vid'' (\<lambda>vid.
       hit (QuantumTargetSelected \<lparr>qt_timestamp = ts, qt_phase = phase, qt_vehicle_class = vehicle,
         qt_vehicle_id = vid, qt_destination = strip_comma dest\<rparr>)))))"

definition arm_mission_phase :: "regex_engine \<Rightarrow> string \<Rightarrow> string \<Rightarrow> game_event option outcome" where
  "arm_mission_phase rx ts body = with_captures rx MISSION_PHASE_RE body (\<lambda>c.
     grp c ''id'' (\<lambda>ident.
       hit (MissionStart \<lparr>ms_timestamp = ts, ms_mission_id = ident, ms_marker_kind = MarkerPhase,
         ms_mission_name = cap_name c ''name''\<rparr>)))"

definition opt_group :: "captures option \<Rightarrow> string \<Rightarrow> string option" where
  "opt_group c n = Option.bind c (\<lambda>c. cap_name c n)"

definition arm_end_mission :: "regex_engine \<Rightarrow> string \<Rightarrow> string \<Rightarrow> game_event option outcome" where
  "arm_end_mission rx ts body =
     (let c = rx_captures rx MISSION_END_RE body
      in hit (MissionEnd \<lparr>me_timestamp = ts, me_mission_id = opt_group c ''id'',
           me_outcome = opt_group c ''outcome''\<rparr>))"

section \<open>Dispatch on the body\<close>

definition classify_body_prefix :: "regex_engine \<Rightarrow> string \<Rightarrow> string \<Rightarrow> game_event option outcome" where
  "classify_body_prefix rx ts body =
     (if contains body ''CreateMissionObjectiveMarker'' then
        with_captures rx MISSION_OBJECTIVE_RE body (\<lambda>c. grp c ''id'' (\<lambda>ident.
          hit (MissionStart \<lparr>ms_timestamp = ts, ms_mission_id = ident,
            ms_marker_kind = MarkerObjective, ms_mission_name = None\<rparr>)))
      else if contains body ''BuyRequest'' \<and>
        (contains body ''SendShopBuyRequest'' \<or> contains body ''SendStandardItemBuyRequest'' \<or>
         contains body ''SendStandardShopBuyRequest'') then
        (let c = rx_captures rx SHOP_BUY_RE body
         in hit (ShopBuyRequest \<lparr>sb_timestamp = ts, sb_shop_id = opt_group c ''shop'',
              sb_item_class = opt_group c ''item'',
              sb_quantity = Option.bind (opt_group c ''qty'') parse_u32, sb_raw = trim body\<rparr>))
      else if contains body ''ShopFlowResponse'' then
        (let c = rx_captures rx SHOP_RESPONSE_RE body
         in hit (ShopFlowResponse \<lparr>sf_timestamp = ts, sf_shop_id = opt_group c ''shop'',
              sf_success = map_option (\<lambda>m. m \<in> set [''Success'', ''OK'', ''ok'']) (opt_group c ''result''),
              sf_raw = trim body\<rparr>))
      else if contains body ''SendCommodityBuyRequest'' then
        (let c = rx_captures rx COMMODITY_BUY_RE body
         in hit (CommodityBuyRequest \<lparr>cb_timestamp = ts, cb_commodity = opt_group c ''commodity'',
              cb_quantity = Option.bind (opt_group c ''qty'') parse_f64, cb_raw = trim body\<rparr>))
      else if contains body ''SendCommoditySellRequest'' then
        (let c = rx_captures rx COMMODITY_SELL_RE body
         in hit (CommoditySellRequest \<lparr>csl_timestamp = ts, csl_commodity = opt_group c ''commodity'',
              csl_quantity = Option.bind (opt_group c ''qty'') parse_f64, csl_raw = trim body\<rparr>))
      else if contains body ''CCIGBroker::FastShutdown'' then
        hit (SessionEnd \<lparr>se_timestamp = ts, se_kind = FastShutdown\<rparr>)
      else Ret None)"

section \<open>Dispatch on the event name\<close>

text \<open>
  \<open>shell_arm\<close> is the \<open>match\<close> on the event name: the arm that is taken, or none. An arm that is
  taken decides: its \<open>None\<close> comes from a question mark and is the result of \<open>classify\<close>.
\<close>

definition shell_arm :: "string list \<Rightarrow> string \<Rightarrow>
    (regex_engine \<Rightarrow> string \<Rightarrow> string \<Rightarrow> game_event option outcome) option" where
  "shell_arm tags event =
     (if event = ''Init'' \<and> ''ProcessInit'' \<in> set tags then Some arm_process_init
      else if event = ''Legacy login response'' then Some arm_legacy_login
      else if event = ''Join PU'' then Some arm_join_pu
      else if event = ''Change Server Start'' then Some (\<lambda>rx. arm_change_server rx ServerStart)
      else if event = ''Change Server End'' then Some (\<lambda>rx. arm_change_server rx ServerEnd)
      else if event = ''Seed Solar System'' then Some (\<lambda>rx. arm_seed_solar_system rx False)
      else if event = ''Seed Solar System Success'' then Some (\<lambda>rx. arm_seed_solar_system rx True)
      else if event = ''ResolveSpawnLocation Location Not Found'' then Some arm_resolve_spawn
      else if event = ''Actor Death'' then Some arm_actor_death
      else if event = ''Vehicle Destruction'' then Some arm_vehicle_destruction
      else if event = ''SHUDEvent_OnNotification'' then Some arm_hud_notification
      else if event = ''Adding non kept item [CSCActorCorpseUtils::PopulateItemPortForItemRecoveryEntitlement]''
        then Some arm_player_death
      else if event = ''RequestLocationInventory'' then Some arm_location_inventory
      else if event = ''InvalidateAllTerrainCells'' then Some arm_planet_terrain
      else if event = ''CLandingArea::UnregisterFromExternalSystems'' then Some arm_vehicle_stowed
      else if event = ''AttachmentReceived'' then Some arm_attachment_received
      else if event = ''Player Selected Quantum Target - Local'' then
        Some (\<lambda>rx. arm_quantum_target rx Selected)
      else if event = ''Player Requested Fuel to Quantum Target - Server Routing'' then
        Some (\<lambda>rx. arm_quantum_target rx FuelRequested)
      else if event = ''CLocalMissionPhaseMarker::CreateMarker'' then Some arm_mission_phase
      else if event = ''EndMission'' then Some arm_end_mission
      else if event = ''SystemQuit'' then
        Some (\<lambda>rx ts body. hit (SessionEnd \<lparr>se_timestamp = ts, se_kind = SystemQuit\<rparr>))
      else None)"

definition classify :: "regex_engine \<Rightarrow> log_line \<Rightarrow> game_event option outcome" where
  "classify rx line =
     (case l_event_name line of
        None \<Rightarrow> classify_body_prefix rx (l_timestamp line) (l_body line)
      | Some event \<Rightarrow>
          (case shell_arm (l_tags line) event of
             Some arm \<Rightarrow> arm rx (l_timestamp line) (l_body line)
           | None \<Rightarrow> classify_body_prefix rx (l_timestamp line) (l_body line)))"

definition classify_with_metadata ::
    "regex_engine \<Rightarrow> log_line \<Rightarrow> string option \<Rightarrow> (game_event option \<times> event_metadata option) outcome" where
  "classify_with_metadata rx line claimed_handle =
     obind (classify rx line) (\<lambda>event.
       Ret (event, map_option (\<lambda>e. stamp e claimed_handle) event))"

datatype classify_outcome = Classified game_event | RemoteMatched game_event | Unknown unknown_line

definition classify_or_capture ::
    "regex_engine \<Rightarrow> (string \<Rightarrow> u64) \<Rightarrow> string \<Rightarrow> log_line \<Rightarrow> compiled_remote_rule list \<Rightarrow>
     capture_context \<Rightarrow> string \<Rightarrow> string \<Rightarrow> classify_outcome outcome" where
  "classify_or_capture rx hash64 new_id line remote_rules capture_ctx raw_line now_rfc3339 =
     obind (classify rx line) (\<lambda>ev.
       case ev of
         Some event \<Rightarrow> Ret (Classified event)
       | None \<Rightarrow>
           (case apply_remote_rules rx line remote_rules of
              Some event \<Rightarrow> Ret (RemoteMatched event)
            | None \<Rightarrow> Ret (Unknown (capture rx hash64 new_id raw_line (l_event_name line) capture_ctx
                now_rfc3339))))"

section \<open>What the patterns promise\<close>

text \<open>
  The named groups of each pattern that are not optional: they take part in every match. Groups
  whose body is repeated at least once never capture the empty string; only those the validators
  look at are listed.
\<close>

fun mandatory_groups :: "regex_id \<Rightarrow> string list" where
  "mandatory_groups PROCESS_INIT_RE = [''local'', ''env'', ''online'']"
| "mandatory_groups LEGACY_LOGIN_RE = [''handle'']"
| "mandatory_groups JOIN_PU_RE = [''address'', ''port'', ''shard'', ''loc'']"
| "mandatory_groups CHANGE_SERVER_RE = [''shard'', ''server'', ''mp'']"
| "mandatory_groups SEED_SS_RE = [''ss'', ''shard'']"
| "mandatory_groups RESOLVE_SPAWN_RE = [''geid'']"
| "mandatory_groups ACTOR_DEATH_RE = [''victim'', ''zone'', ''killer'', ''weapon'', ''dmg'']"
| "mandatory_groups VEHICLE_DESTRUCTION_RE = [''vclass'', ''level'', ''cause'']"
| "mandatory_groups HUD_NOTIFICATION_RE = [''text'', ''id'']"
| "mandatory_groups PLAYER_DEATH_RE = [''body_class'', ''body_id'']"
| "mandatory_groups LOCATION_INVENTORY_RE = [''player'', ''location'']"
| "mandatory_groups PLANET_TERRAIN_RE = [''planet'']"
| "mandatory_groups VEHICLE_STOWED_RE = [''area'', ''area_id'', ''vehicle_id'', ''zone_host'']"
| "mandatory_groups ATTACHMENT_RECEIVED_RE = [''player'', ''class'', ''id'', ''status'', ''port'', ''elapsed'']"
| "mandatory_groups QUANTUM_TARGET_RE = [''vehicle'', ''vid'', ''vid2'', ''dest'']"
| "mandatory_groups MISSION_PHASE_RE = [''id'']"
| "mandatory_groups MISSION_OBJECTIVE_RE = [''id'']"
| "mandatory_groups _ = []"

fun nonempty_groups :: "regex_id \<Rightarrow> string list" where
  "nonempty_groups LEGACY_LOGIN_RE = [''handle'']"
| "nonempty_groups JOIN_PU_RE = [''shard'']"
| "nonempty_groups ACTOR_DEATH_RE = [''victim'', ''killer'']"
| "nonempty_groups VEHICLE_DESTRUCTION_RE = [''vclass'']"
| "nonempty_groups _ = []"

definition groups_present :: "regex_engine \<Rightarrow> bool" where
  "groups_present rx \<longleftrightarrow>
     (\<forall>re s c. rx_captures rx re s = Some c \<longrightarrow> (\<forall>g \<in> set (mandatory_groups re). cap_name c g \<noteq> None))"

definition groups_nonempty :: "regex_engine \<Rightarrow> bool" where
  "groups_nonempty rx \<longleftrightarrow>
     (\<forall>re s c. rx_captures rx re s = Some c \<longrightarrow>
        (\<forall>g \<in> set (nonempty_groups re). cap_name c g \<noteq> Some []))"

lemma of_opt_group:
  "groups_present rx \<Longrightarrow> rx_captures rx re s = Some c \<Longrightarrow> g \<in> set (mandatory_groups re) \<Longrightarrow>
     of_opt (cap_name c g) = Ret (the (cap_name c g))"
  by (force simp: groups_present_def)

lemmas arm_defs = arm_process_init_def arm_legacy_login_def arm_join_pu_def arm_change_server_def
  arm_seed_solar_system_def arm_resolve_spawn_def arm_actor_death_def arm_vehicle_destruction_def
  arm_hud_notification_def arm_player_death_def arm_location_inventory_def arm_planet_terrain_def
  arm_vehicle_stowed_def arm_attachment_received_def arm_quantum_target_def arm_mission_phase_def
  arm_end_mission_def

lemma with_captures_no_panic:
  "(\<And>c. rx_captures rx re body = Some c \<Longrightarrow> k c \<noteq> Panic) \<Longrightarrow> with_captures rx re body k \<noteq> Panic"
  by (simp add: with_captures_def split: option.split)

lemma parsed_no_panic: "(\<And>a. k a \<noteq> Panic) \<Longrightarrow> parsed v k \<noteq> Panic"
  by (simp add: parsed_def split: option.split)

lemma if_no_panic: "(b \<Longrightarrow> x \<noteq> Panic) \<Longrightarrow> (\<not> b \<Longrightarrow> y \<noteq> Panic) \<Longrightarrow> (if b then x else y) \<noteq> Panic"
  by simp

lemma grp_no_panic:
  "groups_present rx \<Longrightarrow> rx_captures rx re s = Some c \<Longrightarrow> g \<in> set (mandatory_groups re) \<Longrightarrow>
     (\<And>v. k v \<noteq> Panic) \<Longrightarrow> grp c g k \<noteq> Panic"
  by (simp add: of_opt_group)

lemma arm_no_panic:
  assumes "groups_present rx"
  shows "arm_process_init rx ts body \<noteq> Panic" "arm_legacy_login rx ts body \<noteq> Panic"
    "arm_join_pu rx ts body \<noteq> Panic" "arm_change_server rx ph ts body \<noteq> Panic"
    "arm_seed_solar_system rx su ts body \<noteq> Panic" "arm_resolve_spawn rx ts body \<noteq> Panic"
    "arm_actor_death rx ts body \<noteq> Panic" "arm_vehicle_destruction rx ts body \<noteq> Panic"
    "arm_hud_notification rx ts body \<noteq> Panic" "arm_player_death rx ts body \<noteq> Panic"
    "arm_location_inventory rx ts body \<noteq> Panic" "arm_planet_terrain rx ts body \<noteq> Panic"
    "arm_vehicle_stowed rx ts body \<noteq> Panic" "arm_attachment_received rx ts body \<noteq> Panic"
    "arm_quantum_target rx qp ts body \<noteq> Panic" "arm_mission_phase rx ts body \<noteq> Panic"
    "arm_end_mission rx ts body \<noteq> Panic"
  unfolding arm_defs Let_def
  by (intro with_captures_no_panic parsed_no_panic grp_no_panic [OF assms] | assumption | simp)+

lemma classify_body_prefix_no_panic:
  assumes "groups_present rx"
  shows "classify_body_prefix rx ts body \<noteq> Panic"
  unfolding classify_body_prefix_def Let_def
  by (intro with_captures_no_panic grp_no_panic [OF assms] if_no_panic | assumption | simp)+

lemma shell_arm_no_panic:
  assumes "groups_present rx" and "shell_arm tags event = Some arm"
  shows "arm rx ts body \<noteq> Panic"
  using assms(2) arm_no_panic [OF assms(1)] by (auto simp: shell_arm_def split: if_splits)

lemma classify_not_Panic:
  assumes "groups_present rx"
  shows "classify rx line \<noteq> Panic"
  using classify_body_prefix_no_panic [OF assms] shell_arm_no_panic [OF assms]
  by (auto simp: classify_def split: option.split)

section \<open>What the classifier emits\<close>

definition emits :: "(game_event \<Rightarrow> bool) \<Rightarrow> game_event option outcome \<Rightarrow> bool" where
  "emits P m \<longleftrightarrow> (\<forall>e. m = Ret (Some e) \<longrightarrow> P e)"

lemma emits_hit [simp]: "emits P (hit e) \<longleftrightarrow> P e"
  by (simp add: emits_def)

lemma emits_None [simp]: "emits P (Ret None)"
  by (simp add: emits_def)

lemma with_captures_emits:
  "(\<And>c. rx_captures rx re body = Some c \<Longrightarrow> emits P (k c)) \<Longrightarrow> emits P (with_captures rx re body k)"
  by (simp add: with_captures_def split: option.split)

lemma parsed_emits: "(\<And>a. emits P (k a)) \<Longrightarrow> emits P (parsed v k)"
  by (simp add: parsed_def split: option.split)

lemma grp_emits: "(\<And>v. cap_name c g = Some v \<Longrightarrow> emits P (k v)) \<Longrightarrow> emits P (grp c g k)"
  by (cases "cap_name c g") (simp_all add: emits_def)

lemma if_emits: "(b \<Longrightarrow> emits P x) \<Longrightarrow> (\<not> b \<Longrightarrow> emits P y) \<Longrightarrow> emits P (if b then x else y)"
  by simp

lemmas emits_intros = with_captures_emits parsed_emits grp_emits if_emits

lemma group_nonempty:
  "groups_nonempty rx \<Longrightarrow> rx_captures rx re s = Some c \<Longrightarrow> cap_name c g = Some v \<Longrightarrow>
     g \<in> set (nonempty_groups re) \<Longrightarrow> v \<noteq> []"
  by (auto simp: groups_nonempty_def)

text \<open>The one event the classifier can build that the validators refuse: a join on port 0.\<close>

fun joins_port_zero :: "game_event \<Rightarrow> bool" where
  "joins_port_zero (JoinPu j) \<longleftrightarrow> jp_port j = 0 \<and> jp_shard j \<noteq> []"
| "joins_port_zero _ \<longleftrightarrow> False"

definition sendable :: "string \<Rightarrow> game_event \<Rightarrow> bool" where
  "sendable ts e \<longleftrightarrow> timestamp_of e = ts \<and> (joins_port_zero e \<or> payload_plausible e)"

lemma arm_emits:
  assumes "groups_nonempty rx"
  shows "emits (sendable ts) (arm_process_init rx ts body)" "emits (sendable ts) (arm_legacy_login rx ts body)"
    "emits (sendable ts) (arm_join_pu rx ts body)" "emits (sendable ts) (arm_change_server rx ph ts body)"
    "emits (sendable ts) (arm_seed_solar_system rx su ts body)" "emits (sendable ts) (arm_resolve_spawn rx ts body)"
    "emits (sendable ts) (arm_actor_death rx ts body)" "emits (sendable ts) (arm_vehicle_destruction rx ts body)"
    "emits (sendable ts) (arm_hud_notification rx ts body)" "emits (sendable ts) (arm_player_death rx ts body)"
    "emits (sendable ts) (arm_location_inventory rx ts body)" "emits (sendable ts) (arm_planet_terrain rx ts body)"
    "emits (sendable ts) (arm_vehicle_stowed rx ts body)" "emits (sendable ts) (arm_attachment_received rx ts body)"
    "emits (sendable ts) (arm_quantum_target rx qp ts body)" "emits (sendable ts) (arm_mission_phase rx ts body)"
    "emits (sendable ts) (arm_end_mission rx ts body)"
  unfolding arm_defs Let_def
  by ((intro emits_intros)?;
      auto simp: sendable_def dest: group_nonempty [OF assms] simp del: mandatory_groups.simps)+

lemma classify_body_prefix_emits: "emits (sendable ts) (classify_body_prefix rx ts body)"
  unfolding classify_body_prefix_def Let_def by (intro emits_intros) (simp_all add: sendable_def)

lemma shell_arm_emits:
  assumes "groups_nonempty rx" and "shell_arm tags event = Some arm"
  shows "emits (sendable ts) (arm rx ts body)"
  using assms(2) arm_emits [OF assms(1)] by (auto simp: shell_arm_def sendable_def split: if_splits)

lemma classify_emits:
  "groups_nonempty rx \<Longrightarrow> emits (sendable (l_timestamp line)) (classify rx line)"
  by (auto simp: classify_def classify_body_prefix_emits shell_arm_emits split: option.split)

section \<open>Lemmas on the tally\<close>

definition record_lines :: "(bool \<times> bool) list \<Rightarrow> parse_stats" where
  "record_lines flags =
     foldl (\<lambda>st (p, s). record_line st p s)
       \<lparr>ps_total = 0, ps_recognised = 0, ps_structural_only = 0, ps_skipped = 0\<rparr> flags"

lemma record_lines_snoc: "record_lines (fs @ [f]) = record_line (record_lines fs) (fst f) (snd f)"
  by (simp add: record_lines_def split: prod.split)

lemma record_lines_counts:
  "ps_total (record_lines fs) = of_nat (length fs) \<and>
   ps_recognised (record_lines fs) = of_nat (length (filter fst fs)) \<and>
   ps_structural_only (record_lines fs) = of_nat (length (filter (\<lambda>f. \<not> fst f \<and> snd f) fs)) \<and>
   ps_skipped (record_lines fs) = of_nat (length (filter (\<lambda>f. \<not> fst f \<and> \<not> snd f) fs))"
proof (induction fs rule: rev_induct)
  case (snoc f fs)
  then show ?case by (cases f) (simp add: record_lines_snoc record_line_def)
qed (simp add: record_lines_def)

lemma unat_of_nat_small: "n < 2 ^ 64 \<Longrightarrow> unat (of_nat n :: u64) = n"
  by (simp add: unsigned_of_nat take_bit_nat_eq_self)

section \<open>Properties\<close>

text \<open>
  The classifier never panics: with an engine that reports the non-optional groups of each
  pattern, no line can make it index a missing capture.
\<close>

theorem classify_no_panic:
  assumes "groups_present rx"
  shows "\<exists>r. classify rx line = Ret r"
  using classify_not_Panic [OF assms, of line] by (cases "classify rx line") auto

definition login_rx :: regex_engine where
  "login_rx = no_match_rx\<lparr>rx_captures := (\<lambda>re s. if re = LEGACY_LOGIN_RE
     then Some \<lparr>cap_whole = s, cap_name = [''handle'' \<mapsto> ''h''], cap_one = None\<rparr> else None)\<rparr>"

definition login_line :: log_line where
  "login_line = \<lparr>l_timestamp = ''1T1:1'', l_level = None, l_event_name = Some ''Legacy login response'',
     l_body = ''b'', l_tags = []\<rparr>"

lemma login_rx_ok: "groups_present login_rx" "groups_nonempty login_rx"
  by (auto simp: groups_present_def groups_nonempty_def login_rx_def no_match_rx_def split: if_splits)

theorem classify_no_panic_witness: "\<exists>r. classify login_rx login_line = Ret r"
  by (rule classify_no_panic) (rule login_rx_ok(1))

lemma check_timestamp_plausible: "timestamp_plausible ts \<Longrightarrow> check_timestamp ts = Inr ()"
  by simp

text \<open>An envelope to carry an event, for concrete instances.\<close>

definition undef_env :: event_envelope where
  "undef_env = \<lparr>ee_idempotency_key = [], ee_raw_line = [], ee_event = None, ee_source = Live,
     ee_source_offset = 0, ee_metadata = None\<rparr>"

text \<open>
  What the client classifies, the validators accept: an event built from a line with a plausible
  timestamp keeps that timestamp and passes them with its stamped metadata, the only
  exception being a join on port 0, which is refused as a bad port.
\<close>

theorem classified_events_accepted:
  assumes "groups_nonempty rx" and "timestamp_plausible (l_timestamp line)"
    and "classify_with_metadata rx line handle = Ret (Some e, meta)"
  shows "timestamp_of e = l_timestamp line \<and> meta = Some (stamp e handle) \<and>
    validate_event (env\<lparr>ee_event := Some e, ee_metadata := meta\<rparr>) =
      (case e of JoinPu j \<Rightarrow> if jp_port j = 0 then Inl (BadPort 0) else Inr () | _ \<Rightarrow> Inr ())"
proof -
  from assms(3) have c: "classify rx line = Ret (Some e)" and m: "meta = Some (stamp e handle)"
    by (auto simp: classify_with_metadata_def outcome_simps)
  have s: "sendable (l_timestamp line) e"
    using classify_emits [OF assms(1)] c by (simp add: emits_def)
  have "validate_event (env\<lparr>ee_event := Some e, ee_metadata := meta\<rparr>) = validate_game_event e"
    using validate_metadata_ok [of "stamp e handle"] stamp_consistent
    by (cases "validate_game_event e") (auto simp: validate_event_def m)
  also have "\<dots> = (case e of JoinPu j \<Rightarrow> if jp_port j = 0 then Inl (BadPort 0) else Inr () | _ \<Rightarrow> Inr ())"
  proof (cases "joins_port_zero e")
    case True
    then obtain j where e: "e = JoinPu j" "jp_port j = 0" "jp_shard j \<noteq> []" by (cases e) auto
    then show ?thesis
      using s assms(2) e by (simp add: validate_game_event_def sendable_def check_timestamp_plausible)
  next
    case False
    then have "validate_game_event e = Inr ()"
      using s assms(2) by (auto simp: validate_game_event_ok sendable_def)
    then show ?thesis using False s by (cases e) (auto simp: sendable_def)
  qed
  finally show ?thesis using s m by (simp add: sendable_def)
qed

theorem classified_events_accepted_witness:
  "validate_event (undef_env\<lparr>ee_event := Some (LegacyLogin \<lparr>ll_timestamp = ''1T1:1'', ll_handle = ''h'',
     ll_server_time = None\<rparr>), ee_metadata := Some (stamp (LegacyLogin \<lparr>ll_timestamp = ''1T1:1'',
     ll_handle = ''h'', ll_server_time = None\<rparr>) None)\<rparr>) = Inr ()"
proof -
  let ?e = "LegacyLogin \<lparr>ll_timestamp = ''1T1:1'', ll_handle = ''h'', ll_server_time = None\<rparr>"
  have c: "classify_with_metadata login_rx login_line None = Ret (Some ?e, Some (stamp ?e None))"
    by (simp add: classify_with_metadata_def classify_def login_line_def shell_arm_def
        arm_legacy_login_def with_captures_def login_rx_def)
  have t: "timestamp_plausible (l_timestamp login_line)"
    by (simp add: login_line_def timestamp_plausible_def)
  from classified_events_accepted [OF login_rx_ok(2) t c, of undef_env] show ?thesis by (simp add: login_line_def)
qed

text \<open>
  Every line ends in exactly one bucket, built-in rules first: it is classified when a built-in
  rule knows it, remote-matched when only a remote rule does, and otherwise captured with its raw
  text, its shell tag and a count of one.
\<close>

theorem classify_or_capture_priority:
  assumes "classify rx line = Ret ev"
  shows "classify_or_capture rx hash64 new_id line rules ctx raw now =
     Ret (case (ev, apply_remote_rules rx line rules) of
            (Some e, _) \<Rightarrow> Classified e
          | (None, Some e) \<Rightarrow> RemoteMatched e
          | (None, None) \<Rightarrow> Unknown (capture rx hash64 new_id raw (l_event_name line) ctx now)) \<and>
    (\<forall>e. classify_or_capture rx hash64 new_id line rules ctx raw now = Ret (RemoteMatched e) \<longrightarrow>
       (\<exists>r. e = RemoteMatch r \<and> rm_rule_id r \<in> cr_id ` set rules))"
proof
  show "classify_or_capture rx hash64 new_id line rules ctx raw now =
     Ret (case (ev, apply_remote_rules rx line rules) of
            (Some e, _) \<Rightarrow> Classified e
          | (None, Some e) \<Rightarrow> RemoteMatched e
          | (None, None) \<Rightarrow> Unknown (capture rx hash64 new_id raw (l_event_name line) ctx now))"
    using assms by (simp add: classify_or_capture_def split: option.split)
  show "\<forall>e. classify_or_capture rx hash64 new_id line rules ctx raw now = Ret (RemoteMatched e) \<longrightarrow>
       (\<exists>r. e = RemoteMatch r \<and> rm_rule_id r \<in> cr_id ` set rules)"
    using assms
    by (auto simp: classify_or_capture_def apply_remote_rules_eq remote_match_of_def
        split: option.splits dest: find_Some_splitD)
qed

theorem classify_or_capture_priority_witness:
  "classify_or_capture login_rx (\<lambda>_. 0) ''id'' login_line [] default_capture_context ''raw'' ''now'' =
     Ret (Classified (LegacyLogin \<lparr>ll_timestamp = ''1T1:1'', ll_handle = ''h'', ll_server_time = None\<rparr>))"
proof -
  have "classify login_rx login_line =
      Ret (Some (LegacyLogin \<lparr>ll_timestamp = ''1T1:1'', ll_handle = ''h'', ll_server_time = None\<rparr>))"
    by (simp add: classify_def login_line_def shell_arm_def arm_legacy_login_def with_captures_def login_rx_def)
  from classify_or_capture_priority [OF this] show ?thesis by simp
qed

text \<open>
  A recognised event name decides alone: when its pattern does not match the body, the line is
  not classified, even if the body holds a function call the body dispatch would have recognised.
\<close>

theorem recognised_name_blocks_body_dispatch:
  assumes "l_event_name line = Some ''Join PU''" and "rx_captures rx JOIN_PU_RE (l_body line) = None"
    and "contains (l_body line) ''CCIGBroker::FastShutdown''"
    and "\<forall>k \<in> {''CreateMissionObjectiveMarker'', ''BuyRequest'', ''ShopFlowResponse'', ''SendCommoditySellRequest'',
      ''SendCommodityBuyRequest''}. \<not> contains (l_body line) k"
  shows "classify rx line = Ret None \<and>
    classify_body_prefix rx (l_timestamp line) (l_body line) =
      Ret (Some (SessionEnd \<lparr>se_timestamp = l_timestamp line, se_kind = FastShutdown\<rparr>)) \<and>
    classify rx (line\<lparr>l_event_name := None\<rparr>) =
      Ret (Some (SessionEnd \<lparr>se_timestamp = l_timestamp line, se_kind = FastShutdown\<rparr>))"
proof -
  have b: "classify_body_prefix rx (l_timestamp line) (l_body line) =
      Ret (Some (SessionEnd \<lparr>se_timestamp = l_timestamp line, se_kind = FastShutdown\<rparr>))"
    using assms(3,4) by (simp add: classify_body_prefix_def)
  moreover have "classify rx line = Ret None"
    using assms(1,2) by (simp add: classify_def shell_arm_def arm_join_pu_def with_captures_def)
  ultimately show ?thesis by (simp add: classify_def)
qed

theorem recognised_name_blocks_body_dispatch_witness:
  "classify no_match_rx \<lparr>l_timestamp = ''t'', l_level = None, l_event_name = Some ''Join PU'',
     l_body = ''CCIGBroker::FastShutdown'', l_tags = []\<rparr> = Ret None"
  using recognised_name_blocks_body_dispatch [of "\<lparr>l_timestamp = ''t'', l_level = None,
      l_event_name = Some ''Join PU'', l_body = ''CCIGBroker::FastShutdown'', l_tags = []\<rparr>" no_match_rx]
  by (simp add: no_match_rx_def starts_with_def)

text \<open>
  The coverage tally is exact: after fewer than \<open>2 ^ 64\<close> lines the three buckets add up to the
  total and the coverage is the fraction of recognised lines, between 0 and 1.
\<close>

theorem parse_stats_exact:
  assumes "length flags < 2 ^ 64"
  shows "unat (ps_total (record_lines flags)) = length flags \<and>
    unat (ps_recognised (record_lines flags)) + unat (ps_structural_only (record_lines flags)) +
      unat (ps_skipped (record_lines flags)) = length flags \<and>
    coverage (record_lines flags) =
      (if flags = [] then 0 else of_nat (length (filter fst flags)) / of_nat (length flags)) \<and>
    0 \<le> coverage (record_lines flags) \<and> coverage (record_lines flags) \<le> 1"
proof -
  have le: "length (filter P flags) < 2 ^ 64" for P
    using assms length_filter_le [of P flags] by linarith
  have n: "unat (ps_total (record_lines flags)) = length flags"
    "unat (ps_recognised (record_lines flags)) = length (filter fst flags)"
    "unat (ps_structural_only (record_lines flags)) = length (filter (\<lambda>f. \<not> fst f \<and> snd f) flags)"
    "unat (ps_skipped (record_lines flags)) = length (filter (\<lambda>f. \<not> fst f \<and> \<not> snd f) flags)"
    using record_lines_counts [of flags] assms le by (simp_all add: unat_of_nat_small del: word_of_nat_eq_0_iff)
  have sum: "length (filter fst flags) + length (filter (\<lambda>f. \<not> fst f \<and> snd f) flags) +
      length (filter (\<lambda>f. \<not> fst f \<and> \<not> snd f) flags) = length flags"
    by (induction flags) auto
  have z: "ps_total (record_lines flags) = 0 \<longleftrightarrow> flags = []"
    using n(1) by (metis length_0_conv unat_eq_0)
  have cov: "coverage (record_lines flags) =
      (if flags = [] then 0 else of_nat (length (filter fst flags)) / of_nat (length flags))"
    by (simp add: coverage_def n z)
  show ?thesis
    unfolding n cov using sum length_filter_le [of fst flags] by (auto simp: divide_le_eq)
qed

theorem parse_stats_exact_witness:
  "coverage (record_lines [(True, True), (False, True)]) = 1 / 2"
  using parse_stats_exact [of "[(True, True), (False, True)]"] by simp

end
