(* ===== verification/Templates.thy ===== *)
theory Templates
  imports Log_Line Complex_Main
begin

text \<open>
  Models \<^verbatim>\<open>crates/starstats-core/src/templates.rs\<close>: fixed-sequence ritual templates
  (\<open>match_templates\<close>) and variable-length burst clustering (\<open>detect_bursts\<close>). The loops over a
  window are recursive functions with the loop variables as arguments; \<open>usize\<close> counters are
  bounded by the window length, so they are natural numbers.
\<close>

section \<open>Fingerprints\<close>

datatype step_match =
    EventName string
  | BodyStartsWith string
  | BodyContains string
  | AnyLine

fun body_match :: "log_line \<Rightarrow> step_match \<Rightarrow> bool" where
  "body_match line (EventName name) \<longleftrightarrow> l_event_name line = Some name"
| "body_match line (BodyStartsWith pfx) \<longleftrightarrow> starts_with (l_body line) pfx"
| "body_match line (BodyContains needle) \<longleftrightarrow> contains (l_body line) needle"
| "body_match line AnyLine \<longleftrightarrow> True"

definition line_matches :: "log_line \<Rightarrow> step_match \<Rightarrow> string list \<Rightarrow> bool" where
  "line_matches line mat tags \<longleftrightarrow>
     body_match line mat \<and> list_all (\<lambda>tag. tag \<in> set (l_tags line)) tags"

section \<open>Fixed-sequence templates\<close>

record template_step =
  ts_match :: step_match
  ts_tags :: "string list"
  ts_optional :: bool
  ts_label :: "string option"

record event_template =
  et_id :: string
  et_steps :: "template_step list"
  et_max_slack :: nat
  et_min_match_count :: nat

text \<open>The confidence is kept as the exact quotient that the code rounds to an \<open>f32\<close>.\<close>

record template_hit =
  th_template_id :: string
  th_matched_count :: nat
  th_total_steps :: nat
  th_confidence :: rat
  th_captured_indices :: "nat option list"
  th_missing_steps :: "nat list"

text \<open>
  The inner \<open>for (offset, line)\<close> loop: the first matching line at or after the window position,
  giving up once the slack already used plus the current offset reaches the budget.
\<close>

fun find_step ::
    "template_step \<Rightarrow> nat \<Rightarrow> nat \<Rightarrow> nat \<Rightarrow> log_line list \<Rightarrow> nat option" where
  "find_step step max_slack slack_used offset [] = None"
| "find_step step max_slack slack_used offset (line # rest) =
     (if line_matches line (ts_match step) (ts_tags step) then Some offset
      else if slack_used + offset \<ge> max_slack then None
      else find_step step max_slack slack_used (Suc offset) rest)"

text \<open>The outer loop over the steps; returns the captured and the missing vectors.\<close>

fun walk_steps ::
    "log_line list \<Rightarrow> nat \<Rightarrow> template_step list \<Rightarrow> nat \<Rightarrow> nat \<Rightarrow> nat \<Rightarrow>
     nat option list \<times> nat list" where
  "walk_steps window max_slack [] step_idx window_pos slack_used = ([], [])"
| "walk_steps window max_slack (step # steps) step_idx window_pos slack_used =
     (case find_step step max_slack slack_used 0 (drop window_pos window) of
        Some offset \<Rightarrow>
          (let (captured, missing) =
             walk_steps window max_slack steps (Suc step_idx)
               (Suc (window_pos + offset)) (slack_used + offset)
           in (Some (window_pos + offset) # captured, missing))
      | None \<Rightarrow>
          (let (captured, missing) =
             walk_steps window max_slack steps (Suc step_idx) window_pos slack_used
           in (None # captured, if ts_optional step then missing else step_idx # missing)))"

definition required_total :: "template_step list \<Rightarrow> nat" where
  "required_total steps = length (filter (\<lambda>s. \<not> ts_optional s) steps)"

definition required_matched :: "nat option list \<Rightarrow> template_step list \<Rightarrow> nat" where
  "required_matched captured steps =
     length (filter (\<lambda>(c, s). c \<noteq> None \<and> \<not> ts_optional s) (zip captured steps))"

definition match_one_template :: "log_line list \<Rightarrow> event_template \<Rightarrow> template_hit option" where
  "match_one_template window tpl =
     (if window = [] \<or> et_steps tpl = [] then None
      else
        (let (captured, missing) = walk_steps window (et_max_slack tpl) (et_steps tpl) 0 0 0;
             total = required_total (et_steps tpl);
             matched = required_matched captured (et_steps tpl)
         in if matched < et_min_match_count tpl then None
            else Some
              \<lparr>th_template_id = et_id tpl,
               th_matched_count = length (filter (\<lambda>c. c \<noteq> None) captured),
               th_total_steps = length (et_steps tpl),
               th_confidence =
                 (if total = 0 then 1 else of_nat (min matched total) / of_nat total),
               th_captured_indices = captured,
               th_missing_steps = missing\<rparr>))"

definition match_templates :: "log_line list \<Rightarrow> event_template list \<Rightarrow> template_hit list" where
  "match_templates window templates = List.map_filter (match_one_template window) templates"

section \<open>Burst clustering\<close>

record burst_rule =
  br_id :: string
  br_anchor :: step_match
  br_member :: step_match
  br_tags :: "string list"
  br_min_burst_size :: nat
  br_max_member_gap :: nat

record burst_hit =
  bh_rule_id :: string
  bh_start_index :: nat
  bh_end_index :: nat
  bh_size :: nat
  bh_member_indices :: "nat list"

text \<open>
  The inner \<open>while j < window.len()\<close> loop: the members found from \<open>j\<close> on and the final \<open>j\<close>. A slot
  an earlier burst consumed counts as a non-member.
\<close>

function collect_members ::
    "burst_rule \<Rightarrow> log_line list \<Rightarrow> bool list \<Rightarrow> nat \<Rightarrow> nat \<Rightarrow> nat list \<times> nat" where
  "collect_members rule window consumed gap j =
     (if j < length window then
        (if \<not> consumed ! j \<and> line_matches (window ! j) (br_member rule) (br_tags rule) then
           (let (ms, j') = collect_members rule window consumed 0 (Suc j) in (j # ms, j'))
         else if Suc gap > br_max_member_gap rule then ([], j)
         else collect_members rule window consumed (Suc gap) (Suc j))
      else ([], j))"
  by pat_completeness auto
termination
  by (relation "measure (\<lambda>(rule, window, consumed, gap, j). length window - j)") auto

declare collect_members.simps [simp del]

definition mark_consumed :: "nat list \<Rightarrow> bool list \<Rightarrow> bool list" where
  "mark_consumed members consumed = foldl (\<lambda>c idx. c[idx := True]) consumed members"

definition mk_hit :: "burst_rule \<Rightarrow> nat list \<Rightarrow> burst_hit" where
  "mk_hit rule members =
     \<lparr>bh_rule_id = br_id rule, bh_start_index = hd members, bh_end_index = last members,
      bh_size = length members, bh_member_indices = members\<rparr>"

lemma collect_members_ge: "j \<le> snd (collect_members rule window consumed gap j)"
proof (induction rule window consumed gap j rule: collect_members.induct)
  case (1 rule window consumed gap j)
  then show ?case
    by (auto simp: collect_members.simps [of rule window consumed gap j] case_prod_beta Let_def
        Suc_le_eq less_imp_le)
qed

text \<open>The outer \<open>while i < window.len()\<close> loop of one rule.\<close>

function scan_rule ::
    "burst_rule \<Rightarrow> log_line list \<Rightarrow> bool list \<Rightarrow> nat \<Rightarrow> bool list \<times> burst_hit list" where
  "scan_rule rule window consumed i =
     (if i < length window then
        (if consumed ! i then scan_rule rule window consumed (Suc i)
         else if \<not> line_matches (window ! i) (br_anchor rule) (br_tags rule) then
           scan_rule rule window consumed (Suc i)
         else
           (let (ms, j) = collect_members rule window consumed 0 (Suc i); members = i # ms in
            if length members \<ge> br_min_burst_size rule then
              (let (consumed', hits) = scan_rule rule window (mark_consumed members consumed) j
               in (consumed', mk_hit rule members # hits))
            else scan_rule rule window consumed (Suc i)))
      else (consumed, []))"
  by pat_completeness auto
termination
proof (relation "measure (\<lambda>(rule, window, consumed, i). length window - i)", goal_cases)
  case (4 rule window consumed i p ms j members)
  then show ?case
    using collect_members_ge [of "Suc i" rule window consumed 0] by (auto simp: prod_eq_iff)
qed auto

declare scan_rule.simps [simp del]

fun scan_rules ::
    "burst_rule list \<Rightarrow> log_line list \<Rightarrow> bool list \<Rightarrow> bool list \<times> burst_hit list" where
  "scan_rules [] window consumed = (consumed, [])"
| "scan_rules (rule # rules) window consumed =
     (let (consumed', hits) = scan_rule rule window consumed 0;
          (consumed'', hits') = scan_rules rules window consumed'
      in (consumed'', hits @ hits'))"

definition detect_bursts :: "log_line list \<Rightarrow> burst_rule list \<Rightarrow> burst_hit list" where
  "detect_bursts window rules =
     (if window = [] then []
      else sort_key bh_start_index
             (snd (scan_rules rules window (replicate (length window) False))))"

section \<open>Lemmas on template matching\<close>

lemma find_step_Some:
  assumes "find_step st ms sl off ls = Some d"
  shows "off \<le> d \<and> d - off < length ls \<and>
    line_matches (ls ! (d - off)) (ts_match st) (ts_tags st) \<and> (d = off \<or> sl + d \<le> ms)"
  using assms
proof (induction st ms sl off ls rule: find_step.induct)
  case (2 st ms sl off l ls)
  show ?case
  proof (cases "line_matches l (ts_match st) (ts_tags st)")
    case True
    with "2.prems" show ?thesis by simp
  next
    case False
    with "2.prems" have lt: "sl + off < ms" and r: "find_step st ms sl (Suc off) ls = Some d"
      by (auto split: if_splits)
    from "2.IH" [OF False _ r] lt
    have ih: "Suc off \<le> d" "d - Suc off < length ls"
      "line_matches (ls ! (d - Suc off)) (ts_match st) (ts_tags st)" "d = Suc off \<or> sl + d \<le> ms"
      by auto
    have "(l # ls) ! (d - off) = ls ! (d - Suc off)"
      using ih(1) by (simp add: nth_Cons')
    with ih lt show ?thesis by auto
  qed
qed simp

text \<open>
  The facts a walk establishes, from a position and a used slack: indices strictly increase from
  the position on, each captured line matches its step, the missing list names exactly the
  unmatched required steps, and the lines skipped stay within the budget.
\<close>

definition walk_ok ::
    "log_line list \<Rightarrow> nat \<Rightarrow> template_step list \<Rightarrow> nat \<Rightarrow> nat \<Rightarrow> nat \<Rightarrow>
     nat option list \<Rightarrow> nat list \<Rightarrow> bool" where
  "walk_ok w ms steps idx pos sl cap miss \<longleftrightarrow>
     length cap = length steps \<and>
     sorted_wrt (<) (somes cap) \<and>
     (\<forall>i \<in> set (somes cap). pos \<le> i \<and> i < length w) \<and>
     (\<forall>k < length steps. \<forall>i. cap ! k = Some i \<longrightarrow>
        line_matches (w ! i) (ts_match (steps ! k)) (ts_tags (steps ! k))) \<and>
     miss = map (\<lambda>k. k + idx)
       (filter (\<lambda>k. cap ! k = None \<and> \<not> ts_optional (steps ! k)) [0..<length steps]) \<and>
     (somes cap \<noteq> [] \<longrightarrow> sl + Suc (last (somes cap)) \<le> ms + pos + length (somes cap))"

lemma upt_filter_Suc:
  "map (\<lambda>k. k + idx) (filter P [0..<Suc n]) =
     (if P 0 then [idx] else []) @ map (\<lambda>k. k + Suc idx) (filter (\<lambda>k. P (Suc k)) [0..<n])"
proof -
  have "[0..<Suc n] = 0 # map Suc [0..<n]"
    by (metis map_Suc_upt upt_conv_Cons zero_less_Suc)
  then show ?thesis by (simp add: filter_map o_def)
qed

lemma walk_steps_ok:
  assumes "sl \<le> ms"
  shows "walk_ok w ms steps idx pos sl
    (fst (walk_steps w ms steps idx pos sl)) (snd (walk_steps w ms steps idx pos sl))"
  using assms
proof (induction steps arbitrary: idx pos sl)
  case Nil
  then show ?case by (simp add: walk_ok_def)
next
  case (Cons st steps)
  show ?case
  proof (cases "find_step st ms sl 0 (drop pos w)")
    case None
    obtain cap miss where ws: "walk_steps w ms steps (Suc idx) pos sl = (cap, miss)"
      by fastforce
    have "walk_ok w ms steps (Suc idx) pos sl cap miss"
      using Cons.IH [OF Cons.prems, of "Suc idx" pos] ws by simp
    then show ?thesis
      using None ws
      by (simp add: walk_ok_def nth_Cons' upt_filter_Suc All_less_Suc2 del: upt_Suc)
  next
    case (Some d)
    from find_step_Some [OF Some] have d: "d < length (drop pos w)"
      "line_matches (drop pos w ! d) (ts_match st) (ts_tags st)" "d = 0 \<or> sl + d \<le> ms"
      by auto
    then have wd: "pos + d < length w" "line_matches (w ! (pos + d)) (ts_match st) (ts_tags st)"
      by auto
    have sl': "sl + d \<le> ms" using d(3) Cons.prems by auto
    obtain cap miss where ws: "walk_steps w ms steps (Suc idx) (Suc (pos + d)) (sl + d) = (cap, miss)"
      by fastforce
    have ok: "walk_ok w ms steps (Suc idx) (Suc (pos + d)) (sl + d) cap miss"
      using Cons.IH [OF sl', of "Suc idx" "Suc (pos + d)"] ws by simp
    then have "\<forall>i \<in> set (somes cap). pos \<le> i \<and> pos + d < i \<and> i < length w"
      by (fastforce simp: walk_ok_def)
    moreover have "sl + Suc (last ((pos + d) # somes cap)) \<le> ms + pos + length ((pos + d) # somes cap)"
      using ok sl' by (cases "somes cap = []") (auto simp: walk_ok_def)
    ultimately show ?thesis
      using Some ws ok wd
      by (simp add: walk_ok_def upt_filter_Suc All_less_Suc2 del: upt_Suc last.simps)
  qed
qed

lemma required_counts:
  assumes "length cap = length steps"
  shows "required_matched cap steps +
    length (filter (\<lambda>k. cap ! k = None \<and> \<not> ts_optional (steps ! k)) [0..<length steps]) =
    required_total steps"
  using assms
proof (induction cap steps rule: list_induct2)
  case (Cons c cap st steps)
  have "[0..<length (st # steps)] = 0 # map Suc [0..<length steps]"
    by (metis length_Cons map_Suc_upt upt_conv_Cons zero_less_Suc)
  with Cons show ?case
    by (auto simp: required_matched_def required_total_def filter_map o_def)
qed (simp add: required_matched_def required_total_def)

lemma match_one_template_unfold:
  assumes "match_one_template w tpl = Some hit"
  obtains cap miss where "walk_ok w (et_max_slack tpl) (et_steps tpl) 0 0 0 cap miss"
    and "th_captured_indices hit = cap" and "th_missing_steps hit = miss"
    and "et_min_match_count tpl \<le> required_matched cap (et_steps tpl)"
    and "th_confidence hit = (if required_total (et_steps tpl) = 0 then 1 else
      of_nat (min (required_matched cap (et_steps tpl)) (required_total (et_steps tpl))) /
      of_nat (required_total (et_steps tpl)))"
    and "th_template_id hit = et_id tpl" and "th_matched_count hit = length (somes cap)"
    and "th_total_steps hit = length (et_steps tpl)"
proof -
  obtain cap miss where ws: "walk_steps w (et_max_slack tpl) (et_steps tpl) 0 0 0 = (cap, miss)"
    by fastforce
  have "walk_ok w (et_max_slack tpl) (et_steps tpl) 0 0 0 cap miss"
    using walk_steps_ok [of 0 "et_max_slack tpl" w "et_steps tpl" 0 0] ws by simp
  then show thesis
    using that [of cap miss] assms ws
    by (auto simp: match_one_template_def length_somes Let_def split: if_splits)
qed

section \<open>Lemmas on burst detection\<close>

fun gaps_ok :: "nat \<Rightarrow> nat list \<Rightarrow> bool" where
  "gaps_ok g (a # b # xs) \<longleftrightarrow> b \<le> Suc (a + g) \<and> gaps_ok g (b # xs)"
| "gaps_ok g _ \<longleftrightarrow> True"

abbreviation member_at :: "burst_rule \<Rightarrow> log_line list \<Rightarrow> nat \<Rightarrow> bool" where
  "member_at rule w k \<equiv> line_matches (w ! k) (br_member rule) (br_tags rule)"

definition collect_ok ::
    "burst_rule \<Rightarrow> log_line list \<Rightarrow> bool list \<Rightarrow> nat \<Rightarrow> nat \<Rightarrow> nat list \<Rightarrow> nat \<Rightarrow> bool" where
  "collect_ok rule w c gap j ms j' \<longleftrightarrow>
     j' \<le> length w \<and> sorted_wrt (<) ms \<and>
     (\<forall>m \<in> set ms. j \<le> m \<and> m < j' \<and> \<not> c ! m \<and> member_at rule w m) \<and>
     (\<forall>p. Suc (p + gap) = j \<longrightarrow> gaps_ok (br_max_member_gap rule) (p # ms)) \<and>
     (\<forall>k. j \<le> k \<longrightarrow> k < j' \<longrightarrow> k \<in> set ms \<or> c ! k \<or> \<not> member_at rule w k) \<and>
     (\<forall>n. (\<forall>k. j \<le> k \<longrightarrow> k < j + n \<longrightarrow> k < length w \<and> \<not> c ! k \<and> member_at rule w k) \<longrightarrow> n \<le> length ms)"

lemma collect_members_ok:
  assumes "j \<le> length w" and "gap \<le> br_max_member_gap rule"
  shows "collect_ok rule w c gap j (fst (collect_members rule w c gap j))
    (snd (collect_members rule w c gap j))"
  using assms
proof (induction rule w c gap j rule: collect_members.induct)
  case (1 rule w c gap j)
  note eq = collect_members.simps [of rule w c gap j]
  consider (stop) "\<not> j < length w"
    | (hit) "j < length w" "\<not> c ! j" "member_at rule w j"
    | (miss) "j < length w" "c ! j \<or> \<not> member_at rule w j"
    by blast
  then show ?case
  proof cases
    case stop
    with "1.prems" have "n = 0" if "\<forall>k. j \<le> k \<longrightarrow> k < j + n \<longrightarrow> k < length w \<and> Q k" for n Q
      using that by (metis le_refl less_add_same_cancel1 not_gr_zero)
    moreover have "collect_members rule w c gap j = ([], j)" using stop by (simp add: eq)
    ultimately show ?thesis using "1.prems" by (auto simp: collect_ok_def)
  next
    case hit
    obtain ms j' where r: "collect_members rule w c 0 (Suc j) = (ms, j')" by fastforce
    have ok: "collect_ok rule w c 0 (Suc j) ms j'"
      using "1.IH"(1) hit r by auto
    have ge: "Suc j \<le> j'" using collect_members_ge [of "Suc j" rule w c 0] r by simp
    have run: "n \<le> Suc (length ms)"
      if "\<forall>k. j \<le> k \<longrightarrow> k < j + n \<longrightarrow> k < length w \<and> \<not> c ! k \<and> member_at rule w k" for n
    proof -
      have "n - 1 \<le> length ms"
        using ok that unfolding collect_ok_def by fastforce
      then show ?thesis by simp
    qed
    have cover: "k = j \<or> k \<in> set ms \<or> c ! k \<or> \<not> member_at rule w k" if "j \<le> k" "k < j'" for k
      using ok that unfolding collect_ok_def by (metis Suc_leI le_neq_implies_less)
    have gaps: "gaps_ok (br_max_member_gap rule) (p # j # ms)" if "Suc (p + gap) = j" for p
      using ok that "1.prems" unfolding collect_ok_def by auto
    have mem: "\<forall>m \<in> set ms. Suc j \<le> m \<and> m < j' \<and> \<not> c ! m \<and> member_at rule w m"
      and srt: "sorted_wrt (<) ms" and j': "j' \<le> length w"
      using ok unfolding collect_ok_def by auto
    have "collect_members rule w c gap j = (j # ms, j')" using hit r by (simp add: eq)
    then show ?thesis
      unfolding collect_ok_def using mem srt j' ge hit run gaps cover by fastforce
  next
    case miss
    show ?thesis
    proof (cases "Suc gap > br_max_member_gap rule")
      case True
      have "n = 0" if "\<forall>k. j \<le> k \<longrightarrow> k < j + n \<longrightarrow> k < length w \<and> \<not> c ! k \<and> member_at rule w k" for n
        using that miss by (metis le_refl less_add_same_cancel1 not_gr_zero)
      with True miss show ?thesis by (auto simp: eq collect_ok_def)
    next
      case False
      then have ok: "collect_ok rule w c (Suc gap) (Suc j)
          (fst (collect_members rule w c (Suc gap) (Suc j)))
          (snd (collect_members rule w c (Suc gap) (Suc j)))"
        using "1.IH"(2) miss by auto
      have run0: "n = 0" if "\<forall>k. j \<le> k \<longrightarrow> k < j + n \<longrightarrow> k < length w \<and> \<not> c ! k \<and> member_at rule w k" for n
        using that miss by (metis le_refl less_add_same_cancel1 not_gr_zero)
      have step: "collect_members rule w c gap j = collect_members rule w c (Suc gap) (Suc j)"
        using False miss by (auto simp: eq)
      have cover: "k \<in> set (fst (collect_members rule w c (Suc gap) (Suc j))) \<or> c ! k \<or> \<not> member_at rule w k"
        if "j \<le> k" "k < snd (collect_members rule w c (Suc gap) (Suc j))" for k
        using ok miss that unfolding collect_ok_def by (metis Suc_leI le_neq_implies_less)
      have gaps: "gaps_ok (br_max_member_gap rule) (p # fst (collect_members rule w c (Suc gap) (Suc j)))"
        if "Suc (p + gap) = j" for p
        using ok that unfolding collect_ok_def by simp
      have mem: "\<forall>m \<in> set (fst (collect_members rule w c (Suc gap) (Suc j))).
          Suc j \<le> m \<and> m < snd (collect_members rule w c (Suc gap) (Suc j)) \<and> \<not> c ! m \<and> member_at rule w m"
        and srt: "sorted_wrt (<) (fst (collect_members rule w c (Suc gap) (Suc j)))"
        and le: "snd (collect_members rule w c (Suc gap) (Suc j)) \<le> length w"
        using ok unfolding collect_ok_def by auto
      show ?thesis
        unfolding step collect_ok_def
        using mem srt le gaps cover run0 by fastforce
    qed
  qed
qed

definition burst_hit_ok :: "burst_rule \<Rightarrow> log_line list \<Rightarrow> burst_hit \<Rightarrow> bool" where
  "burst_hit_ok rule w h \<longleftrightarrow>
     (let ms = bh_member_indices h in
      ms \<noteq> [] \<and> sorted_wrt (<) ms \<and> (\<forall>m \<in> set ms. m < length w) \<and>
      line_matches (w ! hd ms) (br_anchor rule) (br_tags rule) \<and>
      (\<forall>m \<in> set (tl ms). member_at rule w m) \<and>
      gaps_ok (br_max_member_gap rule) ms \<and> br_min_burst_size rule \<le> length ms \<and>
      bh_rule_id h = br_id rule \<and> bh_start_index h = hd ms \<and> bh_end_index h = last ms \<and>
      bh_size h = length ms)"

abbreviation claimed :: "burst_hit list \<Rightarrow> nat list" where
  "claimed hits \<equiv> concat (map bh_member_indices hits)"

lemma mk_hit_ok:
  assumes "collect_ok rule w c 0 (Suc i) ms j" and "i < length w"
    and "line_matches (w ! i) (br_anchor rule) (br_tags rule)"
    and "br_min_burst_size rule \<le> Suc (length ms)"
  shows "burst_hit_ok rule w (mk_hit rule (i # ms))"
  using assms by (fastforce simp: burst_hit_ok_def mk_hit_def collect_ok_def)

lemma length_mark_consumed [simp]: "length (mark_consumed ms c) = length c"
proof -
  have "length (foldl (\<lambda>c idx. c[idx := True]) c ms) = length c"
    by (induction ms arbitrary: c) auto
  then show ?thesis by (simp add: mark_consumed_def)
qed

lemma nth_mark_consumed:
  "k < length c \<Longrightarrow> mark_consumed ms c ! k \<longleftrightarrow> c ! k \<or> k \<in> set ms"
proof -
  have "k < length c \<Longrightarrow> foldl (\<lambda>c idx. c[idx := True]) c ms ! k \<longleftrightarrow> c ! k \<or> k \<in> set ms"
  proof (induction ms arbitrary: c)
    case (Cons a ms)
    then show ?case by (cases "a = k") auto
  qed simp
  then show "k < length c \<Longrightarrow> mark_consumed ms c ! k \<longleftrightarrow> c ! k \<or> k \<in> set ms"
    by (simp add: mark_consumed_def)
qed

text \<open>What a scan guarantees: sound hits, disjoint from what was consumed before and from each
  other, and a consumed vector that grows by exactly the claimed indices.\<close>

definition scan_ok ::
    "log_line list \<Rightarrow> bool list \<Rightarrow> bool list \<Rightarrow> burst_hit list \<Rightarrow> bool" where
  "scan_ok w c c' hits \<longleftrightarrow>
     length c' = length w \<and> distinct (claimed hits) \<and>
     (\<forall>m \<in> set (claimed hits). m < length w \<and> \<not> c ! m) \<and>
     (\<forall>k < length w. c' ! k \<longleftrightarrow> c ! k \<or> k \<in> set (claimed hits))"

lemma scan_ok_Nil: "length c = length w \<Longrightarrow> scan_ok w c c []"
  by (simp add: scan_ok_def)

lemma scan_ok_append:
  "scan_ok w c c1 h1 \<Longrightarrow> scan_ok w c1 c2 h2 \<Longrightarrow> scan_ok w c c2 (h1 @ h2)"
  unfolding scan_ok_def by (auto simp del: set_concat)

lemma scan_ok_burst:
  assumes "length c = length w" and "burst_hit_ok rule w h"
    and "\<forall>m \<in> set (bh_member_indices h). \<not> c ! m"
  shows "scan_ok w c (mark_consumed (bh_member_indices h) c) [h]"
  using assms by (auto simp: scan_ok_def burst_hit_ok_def Let_def nth_mark_consumed strict_sorted_iff)

lemma scan_rule_ok:
  assumes "length c = length w"
  shows "scan_ok w c (fst (scan_rule rule w c i)) (snd (scan_rule rule w c i)) \<and>
    (\<forall>h \<in> set (snd (scan_rule rule w c i)). burst_hit_ok rule w h)"
  using assms
proof (induction rule w c i rule: scan_rule.induct)
  case (1 rule w c i)
  note eq = scan_rule.simps [of rule w c i]
  let ?cm = "collect_members rule w c 0 (Suc i)"
  consider (stop) "\<not> i < length w"
    | (skip) "i < length w" "c ! i \<or> \<not> line_matches (w ! i) (br_anchor rule) (br_tags rule)"
    | (short) "i < length w" "\<not> c ! i" "line_matches (w ! i) (br_anchor rule) (br_tags rule)"
        "\<not> br_min_burst_size rule \<le> Suc (length (fst ?cm))"
    | (burst) "i < length w" "\<not> c ! i" "line_matches (w ! i) (br_anchor rule) (br_tags rule)"
        "br_min_burst_size rule \<le> Suc (length (fst ?cm))"
    by blast
  then show ?case
  proof cases
    case stop
    then show ?thesis using "1.prems" by (simp add: eq scan_ok_Nil)
  next
    case skip
    then show ?thesis using "1.IH"(1,2) "1.prems" by (auto simp: eq)
  next
    case short
    moreover have "scan_rule rule w c i = scan_rule rule w c (Suc i)"
      using short by (simp add: eq case_prod_beta Let_def)
    ultimately show ?thesis using "1.IH"(4) "1.prems" by (simp add: prod_eq_iff)
  next
    case burst
    let ?ms = "i # fst ?cm" and ?h = "mk_hit rule (i # fst ?cm)"
    let ?r = "scan_rule rule w (mark_consumed ?ms c) (snd ?cm)"
    have cok: "collect_ok rule w c 0 (Suc i) (fst ?cm) (snd ?cm)"
      using collect_members_ok [of "Suc i" w 0 rule c] burst by simp
    have hok: "burst_hit_ok rule w ?h" by (rule mk_hit_ok [OF cok burst(1,3,4)])
    have free: "\<forall>m \<in> set (bh_member_indices ?h). \<not> c ! m"
      using cok burst by (auto simp: mk_hit_def collect_ok_def)
    have s1: "scan_ok w c (mark_consumed ?ms c) [?h]"
      using scan_ok_burst [OF "1.prems" hok free] by (simp add: mk_hit_def)
    have ih: "scan_ok w (mark_consumed ?ms c) (fst ?r) (snd ?r) \<and>
        (\<forall>h \<in> set (snd ?r). burst_hit_ok rule w h)"
      using "1.IH"(3) [OF burst(1) _ _ _ _ refl] burst "1.prems" by (simp add: prod_eq_iff)
    have res: "scan_rule rule w c i = (fst ?r, ?h # snd ?r)"
      using burst by (simp add: eq case_prod_beta Let_def)
    show ?thesis
      using scan_ok_append [OF s1] ih hok by (simp add: res)
  qed
qed

lemma scan_rules_ok:
  assumes "length c = length w"
  shows "scan_ok w c (fst (scan_rules rules w c)) (snd (scan_rules rules w c)) \<and>
    (\<forall>h \<in> set (snd (scan_rules rules w c)). \<exists>rule \<in> set rules. burst_hit_ok rule w h)"
  using assms
proof (induction rules arbitrary: c)
  case Nil
  then show ?case by (simp add: scan_ok_Nil)
next
  case (Cons rule rules)
  let ?s = "scan_rule rule w c 0"
  have s1: "scan_ok w c (fst ?s) (snd ?s)" "\<forall>h \<in> set (snd ?s). burst_hit_ok rule w h"
    using scan_rule_ok [OF Cons.prems] by auto
  have len: "length (fst ?s) = length w" using s1(1) by (simp add: scan_ok_def)
  show ?case
    using Cons.IH [OF len] s1 by (auto simp: case_prod_beta Let_def intro: scan_ok_append)
qed

text \<open>A run of matching lines long enough for a homogeneous rule is never left wholly unclaimed.\<close>

lemma scan_rule_mono:
  "length c = length w \<Longrightarrow> k < length w \<Longrightarrow> c ! k \<Longrightarrow> fst (scan_rule rule w c i) ! k"
  using scan_rule_ok [of c w rule i] by (auto simp: scan_ok_def)

lemma scan_rule_complete:
  assumes "length c = length w" and "br_anchor rule = br_member rule" and "i \<le> s"
    and "0 < br_min_burst_size rule"
    and run: "\<forall>k < br_min_burst_size rule. s + k < length w \<and> member_at rule w (s + k)"
  shows "\<exists>k < br_min_burst_size rule. fst (scan_rule rule w c i) ! (s + k)"
  using assms(1-4) run
proof (induction rule w c i rule: scan_rule.induct)
  case (1 rule w c i)
  note eq = scan_rule.simps [of rule w c i]
  let ?n = "br_min_burst_size rule" and ?cm = "collect_members rule w c 0 (Suc i)"
  have s: "s < length w" "member_at rule w s" using "1.prems"(4,5) by force+
  then have i: "i < length w" using "1.prems"(3) by simp
  consider (taken) "\<exists>k < ?n. c ! (s + k)"
    | (skip) "\<forall>k < ?n. \<not> c ! (s + k)" "c ! i \<or> \<not> member_at rule w i"
    | (short) "\<forall>k < ?n. \<not> c ! (s + k)" "\<not> c ! i" "member_at rule w i" "\<not> ?n \<le> Suc (length (fst ?cm))"
    | (burst) "\<forall>k < ?n. \<not> c ! (s + k)" "\<not> c ! i" "member_at rule w i" "?n \<le> Suc (length (fst ?cm))"
    by blast
  then show ?case
  proof cases
    case taken
    then show ?thesis using scan_rule_mono "1.prems"(1,5) by blast
  next
    case skip
    then have "i \<noteq> s" using s "1.prems"(4) by (metis add.right_neutral)
    then have "Suc i \<le> s" using "1.prems"(3) by simp
    moreover have "scan_rule rule w c i = scan_rule rule w c (Suc i)"
      using skip i "1.prems"(2) by (auto simp: eq)
    ultimately show ?thesis using "1.IH"(1,2) i skip "1.prems" by (cases "c ! i") auto
  next
    case short
    have cok: "collect_ok rule w c 0 (Suc i) (fst ?cm) (snd ?cm)"
      using collect_members_ok [of "Suc i" w 0 rule c] i by simp
    have "i \<noteq> s"
    proof
      assume "i = s"
      have "\<forall>k. Suc i \<le> k \<longrightarrow> k < Suc i + (?n - 1) \<longrightarrow> k < length w \<and> \<not> c ! k \<and> member_at rule w k"
      proof (intro allI impI)
        fix k assume "Suc i \<le> k" "k < Suc i + (?n - 1)"
        then have "k - s < ?n" "s + (k - s) = k" using \<open>i = s\<close> by auto
        then show "k < length w \<and> \<not> c ! k \<and> member_at rule w k"
          using short(1) "1.prems"(5) by metis
      qed
      then have "?n - 1 \<le> length (fst ?cm)" using cok unfolding collect_ok_def by blast
      then show False using short(4) by simp
    qed
    then have "Suc i \<le> s" using "1.prems"(3) by simp
    moreover have "scan_rule rule w c i = scan_rule rule w c (Suc i)"
      using short i "1.prems"(2) by (simp add: eq case_prod_beta Let_def)
    ultimately show ?thesis using "1.IH"(4) i short "1.prems" by (simp add: prod_eq_iff)
  next
    case burst
    let ?ms = "i # fst ?cm" and ?c' = "mark_consumed (i # fst ?cm) c"
    let ?r = "scan_rule rule w ?c' (snd ?cm)"
    have cok: "collect_ok rule w c 0 (Suc i) (fst ?cm) (snd ?cm)"
      using collect_members_ok [of "Suc i" w 0 rule c] i by simp
    have res: "fst (scan_rule rule w c i) = fst ?r"
      using burst i "1.prems"(2) by (simp add: eq case_prod_beta Let_def)
    show ?thesis
    proof (cases "snd ?cm \<le> s")
      case True
      have "\<exists>k < ?n. fst ?r ! (s + k)"
        using "1.IH"(3) [OF i _ _ _ _ refl] burst "1.prems" True by (simp add: prod_eq_iff)
      then show ?thesis by (simp only: res)
    next
      case False
      have "c ! (s + 0) = c ! s" by simp
      then have "\<not> c ! s" using burst(1) "1.prems"(4) by (metis)
      then have "s \<in> set ?ms"
        using False s(2) "1.prems"(3) cok unfolding collect_ok_def
        by (metis Suc_leI le_neq_implies_less linorder_not_le list.set_intros)
      then have "?c' ! s" using s(1) "1.prems"(1) by (simp add: nth_mark_consumed)
      then have "fst ?r ! s" using scan_rule_mono [of ?c' w s] s(1) "1.prems"(1) by simp
      then show ?thesis using res "1.prems"(4) by (metis add.right_neutral)
    qed
  qed
qed

lemma scan_rules_mono:
  "length c = length w \<Longrightarrow> k < length w \<Longrightarrow> c ! k \<Longrightarrow> fst (scan_rules rules w c) ! k"
  using scan_rules_ok [of c w rules] by (auto simp: scan_ok_def)

lemma scan_rules_complete:
  assumes "length c = length w" and "rule \<in> set rules" and "br_anchor rule = br_member rule"
    and "0 < br_min_burst_size rule"
    and run: "\<forall>k < br_min_burst_size rule. s + k < length w \<and> member_at rule w (s + k)"
  shows "\<exists>k < br_min_burst_size rule. fst (scan_rules rules w c) ! (s + k)"
  using assms(1,2)
proof (induction rules arbitrary: c)
  case (Cons r rules)
  let ?s = "scan_rule r w c 0"
  have len: "length (fst ?s) = length w"
    using scan_rule_ok [OF Cons.prems(1), of r 0] by (simp add: scan_ok_def)
  have eq: "fst (scan_rules (r # rules) w c) = fst (scan_rules rules w (fst ?s))"
    by (simp add: case_prod_beta Let_def)
  show ?case
  proof (cases "rule = r")
    case True
    obtain k where "k < br_min_burst_size rule" "fst ?s ! (s + k)"
      using scan_rule_complete [OF Cons.prems(1) assms(3) _ assms(4) run, of 0] True by auto
    then show ?thesis using scan_rules_mono [OF len] run eq by metis
  next
    case False
    then show ?thesis using Cons.IH [OF len] Cons.prems(2) eq by auto
  qed
qed simp

section \<open>Properties\<close>

lemma set_detect_bursts:
  "set (detect_bursts w rules) = set (snd (scan_rules rules w (replicate (length w) False)))"
proof (cases "w = []")
  case True
  have "burst_hit_ok rule [] h \<Longrightarrow> False" for rule h
    by (auto simp: burst_hit_ok_def Let_def)
  then show ?thesis using True scan_rules_ok [of "[]" w rules] by (fastforce simp: detect_bursts_def)
qed (simp add: detect_bursts_def)

lemma claimed_detect_bursts:
  "mset (claimed (detect_bursts w rules)) =
     mset (claimed (snd (scan_rules rules w (replicate (length w) False))))"
proof (cases "w = []")
  case True
  have "set (snd (scan_rules rules w (replicate (length w) False))) = {}"
    using set_detect_bursts [of w rules] True by (simp add: detect_bursts_def)
  then show ?thesis using True by (simp add: detect_bursts_def)
next
  case False
  have "mset (concat (map f xs)) = (\<Sum>x \<in># mset xs. mset (f x))" for f :: "burst_hit \<Rightarrow> nat list" and xs
    by (induction xs) auto
  then show ?thesis using False by (simp add: detect_bursts_def)
qed

lemma detect_bursts_in_range:
  assumes "h \<in> set (detect_bursts w rules)"
  shows "bh_start_index h < length w \<and> bh_end_index h < length w \<and> set (bh_member_indices h) \<subseteq> {..< length w}"
proof -
  obtain rule where "burst_hit_ok rule w h"
    using assms scan_rules_ok [of "replicate (length w) False" w rules] by (auto simp: set_detect_bursts)
  then show ?thesis by (auto simp: burst_hit_ok_def Let_def)
qed

text \<open>
  C1. Every burst reported is a real one: it belongs to a rule of the list, its member indices are
  strictly increasing and inside the window, the first matches the rule's anchor and the others its
  member pattern, no two consecutive members are separated by more than \<open>max_member_gap\<close> lines, it
  has at least \<open>min_burst_size\<close> members, and the reported start, end and size are those of the
  member list.
\<close>

theorem detect_bursts_sound:
  assumes "h \<in> set (detect_bursts w rules)"
  shows "\<exists>rule \<in> set rules. burst_hit_ok rule w h"
  using assms scan_rules_ok [of "replicate (length w) False" w rules] by (auto simp: set_detect_bursts)

text \<open>
  Bursts never overlap: no window index is claimed twice, neither by two bursts nor by two rules,
  and the bursts are reported in the order of their start indices.
\<close>

theorem detect_bursts_disjoint:
  "distinct (claimed (detect_bursts w rules)) \<and>
   sorted (map bh_start_index (detect_bursts w rules))"
proof
  have "distinct (claimed (snd (scan_rules rules w (replicate (length w) False))))"
    using scan_rules_ok [of "replicate (length w) False" w rules] by (simp add: scan_ok_def)
  then show "distinct (claimed (detect_bursts w rules))"
    using claimed_detect_bursts [of w rules] by (metis mset_eq_imp_distinct_iff)
  show "sorted (map bh_start_index (detect_bursts w rules))"
    by (simp add: detect_bursts_def)
qed

text \<open>
  C2. No burst is missed: for a rule of the list whose anchor and member patterns coincide, any run of
  \<open>min_burst_size\<close> consecutive lines matching it has a line claimed by some reported burst.
\<close>

theorem detect_bursts_complete:
  assumes "rule \<in> set rules" and "br_anchor rule = br_member rule"
    and "0 < br_min_burst_size rule"
    and "\<forall>k < br_min_burst_size rule. s + k < length w \<and> member_at rule w (s + k)"
  shows "\<exists>k < br_min_burst_size rule. s + k \<in> set (claimed (detect_bursts w rules))"
proof -
  let ?c = "replicate (length w) False"
  obtain k where k: "k < br_min_burst_size rule" "fst (scan_rules rules w ?c) ! (s + k)"
    using scan_rules_complete [OF _ assms, of ?c] by auto
  have "s + k < length w" using assms(4) k(1) by blast
  then have "s + k \<in> set (claimed (snd (scan_rules rules w ?c)))"
    using k(2) scan_rules_ok [of ?c w rules] by (auto simp: scan_ok_def)
  then have "s + k \<in> set (claimed (detect_bursts w rules))"
    by (metis claimed_detect_bursts set_mset_mset)
  then show ?thesis using k(1) by blast
qed

text \<open>
  A template hit describes a genuine in-order walk: one slot per step, the captured window
  indices strictly increase and lie in the window, each captured line matches its step's pattern
  and tags, the unmatched required steps are exactly \<open>missing_steps\<close>, the lines skipped before
  and between the captured ones stay within \<open>max_slack\<close>, and at least \<open>min_match_count\<close> required
  steps matched.
\<close>

theorem template_hit_sound:
  assumes "match_one_template w tpl = Some hit"
  shows "length (th_captured_indices hit) = length (et_steps tpl) \<and>
    sorted_wrt (<) (somes (th_captured_indices hit)) \<and>
    (\<forall>k < length (et_steps tpl). \<forall>i. th_captured_indices hit ! k = Some i \<longrightarrow>
       i < length w \<and>
       line_matches (w ! i) (ts_match (et_steps tpl ! k)) (ts_tags (et_steps tpl ! k))) \<and>
    th_missing_steps hit =
      filter (\<lambda>k. th_captured_indices hit ! k = None \<and> \<not> ts_optional (et_steps tpl ! k))
        [0..<length (et_steps tpl)] \<and>
    (somes (th_captured_indices hit) \<noteq> [] \<longrightarrow>
       Suc (last (somes (th_captured_indices hit))) - length (somes (th_captured_indices hit))
         \<le> et_max_slack tpl) \<and>
    et_min_match_count tpl \<le> required_matched (th_captured_indices hit) (et_steps tpl)"
proof -
  from assms obtain cap miss where ok: "walk_ok w (et_max_slack tpl) (et_steps tpl) 0 0 0 cap miss"
    and f: "th_captured_indices hit = cap" "th_missing_steps hit = miss"
      "et_min_match_count tpl \<le> required_matched cap (et_steps tpl)"
    by (rule match_one_template_unfold)
  have "i < length w" if "k < length (et_steps tpl)" "cap ! k = Some i" for k i
  proof -
    have "Some i \<in> set cap" using ok that by (metis nth_mem walk_ok_def)
    then show ?thesis using ok by (auto simp: walk_ok_def set_somes)
  qed
  then show ?thesis using ok f by (auto simp: walk_ok_def)
qed

text \<open>
  Drift is visible in the confidence: it lies in \<open>[0, 1]\<close>, and it is 1 exactly when no required
  step is missing.
\<close>

theorem template_confidence_drift:
  assumes "match_one_template w tpl = Some hit"
  shows "0 \<le> th_confidence hit \<and> th_confidence hit \<le> 1 \<and>
    (th_confidence hit = 1 \<longleftrightarrow> th_missing_steps hit = [])"
proof -
  from assms obtain cap miss where ok: "walk_ok w (et_max_slack tpl) (et_steps tpl) 0 0 0 cap miss"
    and f: "th_missing_steps hit = miss"
      "th_confidence hit = (if required_total (et_steps tpl) = 0 then 1 else
        of_nat (min (required_matched cap (et_steps tpl)) (required_total (et_steps tpl))) /
        of_nat (required_total (et_steps tpl)))"
    by (rule match_one_template_unfold)
  let ?m = "required_matched cap (et_steps tpl)" and ?t = "required_total (et_steps tpl)"
  have "?m + length miss = ?t"
    using required_counts [of cap "et_steps tpl"] ok by (simp add: walk_ok_def)
  then show ?thesis
    using f by (auto simp: divide_simps)
qed

section \<open>Witnesses\<close>

definition spam_line :: log_line where
  "spam_line = \<lparr>l_timestamp = ''T1'', l_level = None, l_event_name = Some ''AttachmentReceived'',
     l_body = ''body'', l_tags = [''Inventory'']\<rparr>"

definition other_line :: log_line where
  "other_line = \<lparr>l_timestamp = ''T2'', l_level = None, l_event_name = Some ''Unrelated'',
     l_body = ''body'', l_tags = []\<rparr>"

definition spam_rule :: burst_rule where
  "spam_rule = \<lparr>br_id = ''loadout_restore'', br_anchor = EventName ''AttachmentReceived'',
     br_member = EventName ''AttachmentReceived'', br_tags = [''Inventory''],
     br_min_burst_size = 2, br_max_member_gap = 1\<rparr>"

definition spam_window :: "log_line list" where
  "spam_window = [other_line, spam_line, spam_line, other_line, spam_line]"

definition spam_hit :: burst_hit where
  "spam_hit = \<lparr>bh_rule_id = ''loadout_restore'', bh_start_index = 1, bh_end_index = 4,
     bh_size = 3, bh_member_indices = [1, 2, 4]\<rparr>"

lemma spam_window_bursts: "detect_bursts spam_window [spam_rule] = [spam_hit]"
  by code_simp

theorem detect_bursts_sound_witness: "\<exists>rule \<in> set [spam_rule]. burst_hit_ok rule spam_window spam_hit"
  by (rule detect_bursts_sound) (simp add: spam_window_bursts)

theorem detect_bursts_complete_witness:
  "\<exists>k < 2. 1 + k \<in> set (claimed (detect_bursts spam_window [spam_rule]))"
proof -
  have n: "br_min_burst_size spam_rule = 2" by (simp add: spam_rule_def)
  have "\<forall>k < br_min_burst_size spam_rule. 1 + k < length spam_window \<and> member_at spam_rule spam_window (1 + k)"
    unfolding n by code_simp
  then show ?thesis
    using detect_bursts_complete [of spam_rule "[spam_rule]" 1 spam_window]
    by (simp add: spam_rule_def)
qed

definition spam_template :: event_template where
  "spam_template = \<lparr>et_id = ''t'', et_steps =
     [\<lparr>ts_match = EventName ''AttachmentReceived'', ts_tags = [], ts_optional = False, ts_label = None\<rparr>,
      \<lparr>ts_match = EventName ''Gone'', ts_tags = [], ts_optional = False, ts_label = None\<rparr>],
     et_max_slack = 1, et_min_match_count = 1\<rparr>"

definition spam_template_hit :: template_hit where
  "spam_template_hit = \<lparr>th_template_id = ''t'', th_matched_count = 1, th_total_steps = 2,
     th_confidence = 1 / 2, th_captured_indices = [Some 1, None], th_missing_steps = [1]\<rparr>"

lemma spam_template_matches: "match_one_template spam_window spam_template = Some spam_template_hit"
  by code_simp

theorem template_hit_sound_witness:
  "length (th_captured_indices spam_template_hit) = length (et_steps spam_template) \<and>
   sorted_wrt (<) (somes (th_captured_indices spam_template_hit)) \<and>
   et_min_match_count spam_template
     \<le> required_matched (th_captured_indices spam_template_hit) (et_steps spam_template)"
  using template_hit_sound [OF spam_template_matches] by blast

theorem template_confidence_drift_witness:
  "0 \<le> th_confidence spam_template_hit \<and> th_confidence spam_template_hit \<le> 1 \<and>
   th_confidence spam_template_hit \<noteq> 1"
  using template_confidence_drift [OF spam_template_matches] by (simp add: spam_template_hit_def)

end
