(* ===== verification/Storage.thy ===== *)
theory Storage
  imports Unknown_Lines
begin

text \<open>
  Models \<^verbatim>\<open>crates/starstats-client/src/storage.rs\<close> and the tables of \<^verbatim>\<open>sql/schema.sql\<close>: the tray
  client's local store. A table is the list of its rows in insertion order; \<open>AUTOINCREMENT\<close> is a
  counter that is never reset. \<open>datetime('now')\<close> is the argument \<open>now\<close>. The mutex around the
  connection makes every method one atomic step. The JSON columns of \<open>unknown_lines\<close> hold the
  values they encode.
\<close>

section \<open>Model\<close>

definition UNKNOWN_LINE_MIN_INTEREST :: u8 where
  "UNKNOWN_LINE_MIN_INTEREST = 50"

definition RAW_EXAMPLES_CAP :: nat where
  "RAW_EXAMPLES_CAP = 5"

record event_row =
  ev_id :: int
  ev_idempotency_key :: string
  ev_event_type :: string
  ev_timestamp :: string
  ev_raw_line :: string
  ev_payload_json :: string
  ev_log_source :: string
  ev_source_offset :: u64

record unknown_sample_row =
  us_log_source :: string
  us_event_name :: string
  us_occurrences :: nat
  us_first_seen :: string
  us_last_seen :: string
  us_sample_line :: string
  us_sample_body :: string

text \<open>A cached unknown line: the captured record, its raw samples, and when it was submitted.\<close>

record cached_line =
  cl_line :: unknown_line
  cl_raw_examples :: "string list"
  cl_submitted_at :: "string option"

record storage =
  s_events :: "event_row list"
  s_next_id :: int
  s_tail_cursor :: "string \<rightharpoonup> u64"
  s_sync_cursor :: "int option"
  s_unknown_samples :: "unknown_sample_row list"
  s_noise :: "(string \<times> string) list"
  s_manifest :: "(u32 \<times> string) option"
  s_unknown_lines :: "cached_line list"

definition empty_storage :: storage where
  "empty_storage = \<lparr>s_events = [], s_next_id = 1, s_tail_cursor = Map.empty, s_sync_cursor = None,
     s_unknown_samples = [], s_noise = [], s_manifest = None, s_unknown_lines = []\<rparr>"

subsection \<open>Noise list\<close>

definition DEFAULT_NOISE :: "string list" where
  "DEFAULT_NOISE =
    [''StatObjLoad 0x800 Format'', ''CContextEstablisherStepStart'', ''ContextEstablisherTaskFinished'',
     ''Context Establisher Blocked'', ''Context Establisher Unblocked'', ''Context Establisher Done'',
     ''ContextEstablisher Model Change State'', ''ContextEstablisher State Change Delivery Result'',
     ''ContextEstablisher Send State Change'', ''ContextEstablisher Remote Change State Success'',
     ''CSCLoadingPlatformManager::TransitionLightGroupState'',
     ''CSCLoadingPlatformManager::LoadEntitiesReference'',
     ''CSCLoadingPlatformManager::LoadEntitiesReference::<lambda_1>::operator ()'',
     ''CSCLoadingPlatformManager::OnLoadingPlatformStateChanged'',
     ''CSCLoadingPlatformManager::StopEffectForAllTags'',
     ''CSCLoadingPlatformManager::loadEntityFromXML::<lambda_1>::operator ()'',
     ''LoadingPlatformUtilities::LoadFromXmlNode'', ''Update group cache'', ''SerializedOverwrite'',
     ''RegisterUniverseHierarchy_End'', ''ReuseChannel'', ''Stream started'',
     ''[BuildingBlocks] Invalid Url'', ''ProximitySensorMakingLocalHelper'']"

text \<open>SQLite's \<open>LIKE\<close> ignores the case of ASCII letters.\<close>

definition like_contains :: "string \<Rightarrow> string \<Rightarrow> bool" where
  "like_contains s n \<longleftrightarrow> contains (to_ascii_lowercase s) (to_ascii_lowercase n)"

definition insert_noise :: "string \<Rightarrow> string \<Rightarrow> storage \<Rightarrow> storage" where
  "insert_noise name src st =
     (if name \<in> fst ` set (s_noise st) then st else st\<lparr>s_noise := s_noise st @ [(name, src)]\<rparr>)"

definition seed_default_noise :: "storage \<Rightarrow> storage" where
  "seed_default_noise st =
     foldl (\<lambda>st name. insert_noise name ''builtin'' st)
       (st\<lparr>s_noise := filter (\<lambda>(name, src). \<not> (src = ''builtin'' \<and> like_contains name ''::<lambda'' \<and>
          \<not> like_contains name ''operator ()'')) (s_noise st)\<rparr>)
       DEFAULT_NOISE"

definition purge_noise_from_unknowns :: "storage \<Rightarrow> storage" where
  "purge_noise_from_unknowns st =
     st\<lparr>s_unknown_samples := filter (\<lambda>r. \<not> (us_event_name r \<in> fst ` set (s_noise st)) \<and>
          \<not> (like_contains (us_event_name r) ''::<lambda'' \<and> \<not> ends_with (us_event_name r) ''>''))
        (s_unknown_samples st)\<rparr>"

definition open_storage :: "storage \<Rightarrow> storage" where
  "open_storage st = purge_noise_from_unknowns (seed_default_noise st)"

definition is_noise :: "string \<Rightarrow> storage \<Rightarrow> bool" where
  "is_noise name st \<longleftrightarrow> name \<in> fst ` set (s_noise st)"

definition add_noise :: "string \<Rightarrow> string \<Rightarrow> storage \<Rightarrow> storage" where
  "add_noise name src st =
     (let st = insert_noise name src st
      in st\<lparr>s_unknown_samples := filter (\<lambda>r. us_event_name r \<noteq> name) (s_unknown_samples st)\<rparr>)"

subsection \<open>Events\<close>

definition insert_event ::
    "string \<Rightarrow> string \<Rightarrow> string \<Rightarrow> string \<Rightarrow> string \<Rightarrow> string \<Rightarrow> u64 \<Rightarrow> storage \<Rightarrow> storage" where
  "insert_event key event_type timestamp raw payload_json log_source source_offset st =
     (if key \<in> ev_idempotency_key ` set (s_events st) then st
      else st\<lparr>s_events := s_events st @
              [\<lparr>ev_id = s_next_id st, ev_idempotency_key = key, ev_event_type = event_type,
                ev_timestamp = timestamp, ev_raw_line = raw, ev_payload_json = payload_json,
                ev_log_source = log_source, ev_source_offset = source_offset\<rparr>],
            s_next_id := s_next_id st + 1\<rparr>)"

definition read_unsent :: "int \<Rightarrow> nat \<Rightarrow> storage \<Rightarrow> event_row list" where
  "read_unsent after_id limit st =
     take limit (sort_key ev_id (filter (\<lambda>r. ev_id r > after_id) (s_events st)))"

definition read_sync_cursor :: "storage \<Rightarrow> int" where
  "read_sync_cursor st = (case s_sync_cursor st of Some n \<Rightarrow> max n 0 | None \<Rightarrow> 0)"

definition write_sync_cursor :: "int \<Rightarrow> storage \<Rightarrow> storage" where
  "write_sync_cursor last_event_id st = st\<lparr>s_sync_cursor := Some last_event_id\<rparr>"

text \<open>Offsets go through \<open>i64\<close>: above \<open>2 ^ 63\<close> they read back as 0.\<close>

definition read_cursor :: "string \<Rightarrow> storage \<Rightarrow> u64" where
  "read_cursor path st =
     (case s_tail_cursor st path of
        None \<Rightarrow> 0
      | Some n \<Rightarrow> if uint n < 2 ^ 63 then n else 0)"

definition write_cursor :: "string \<Rightarrow> u64 \<Rightarrow> storage \<Rightarrow> storage" where
  "write_cursor path offset st = st\<lparr>s_tail_cursor := (s_tail_cursor st)(path \<mapsto> offset)\<rparr>"

definition total_events :: "storage \<Rightarrow> nat" where
  "total_events st = length (s_events st)"

definition recent_events :: "nat \<Rightarrow> storage \<Rightarrow> event_row list" where
  "recent_events limit st =
     take limit (rev (sort_key (\<lambda>r. (ev_timestamp r)) (sort_key ev_id (s_events st))))"

definition update_event_classification ::
    "int \<Rightarrow> string \<Rightarrow> string \<Rightarrow> string \<Rightarrow> storage \<Rightarrow> nat \<times> storage" where
  "update_event_classification i event_type timestamp payload_json st =
     (length (filter (\<lambda>r. ev_id r = i) (s_events st)),
      st\<lparr>s_events := map (\<lambda>r. if ev_id r = i then
           r\<lparr>ev_event_type := event_type, ev_timestamp := timestamp, ev_payload_json := payload_json\<rparr>
           else r) (s_events st)\<rparr>)"

definition delete_event_by_id :: "int \<Rightarrow> storage \<Rightarrow> nat \<times> storage" where
  "delete_event_by_id i st =
     (length (filter (\<lambda>r. ev_id r = i) (s_events st)),
      st\<lparr>s_events := filter (\<lambda>r. ev_id r \<noteq> i) (s_events st)\<rparr>)"

definition events_for_burst_scan :: "string \<Rightarrow> storage \<Rightarrow> event_row list" where
  "events_for_burst_scan log_source st =
     sort_key (\<lambda>r. uint (ev_source_offset r))
       (sort_key ev_id (filter (\<lambda>r. ev_log_source r = log_source) (s_events st)))"

lemma length_filter_less:
  assumes "x \<in> set xs" and "P x" and "\<not> Q x" and "\<And>y. Q y \<Longrightarrow> P y"
  shows "length (filter Q xs) < length (filter P xs)"
proof -
  have "length (filter Q ys) \<le> length (filter P ys)" for ys
    using assms(4) by (induction ys) auto
  then have "length (filter Q ys) < length (filter P ys)" if "x \<in> set ys" for ys
    using that assms(2-4) by (induction ys) (auto simp: less_Suc_eq_le)
  then show ?thesis using assms(1) by blast
qed

text \<open>The batches \<open>for_each_event\<close> visits: pages of rows after the last id seen.\<close>

function event_batches :: "nat \<Rightarrow> int \<Rightarrow> event_row list \<Rightarrow> event_row list" where
  "event_batches batch_size last_id events =
     (case take batch_size (filter (\<lambda>r. ev_id r > last_id) events) of
        [] \<Rightarrow> []
      | r # rs \<Rightarrow> (r # rs) @ event_batches batch_size (ev_id (last (r # rs))) events)"
  by pat_completeness auto
termination
proof (relation "measure (\<lambda>(n, last_id, events). length (filter (\<lambda>r. ev_id r > last_id) events))", goal_cases)
  case (2 batch_size last_id events r rs)
  let ?l = "last (r # rs)"
  have "?l \<in> set (take batch_size (filter (\<lambda>r. ev_id r > last_id) events))"
    unfolding 2 by (rule last_in_set) simp
  then have l: "?l \<in> set events" "ev_id ?l > last_id" by (auto dest: in_set_takeD)
  have "length (filter (\<lambda>r. ev_id r > ev_id ?l) events) < length (filter (\<lambda>r. ev_id r > last_id) events)"
    using l by (intro length_filter_less [of ?l]) auto
  then show ?case by simp
qed simp

declare event_batches.simps [simp del]

subsection \<open>Unknown samples and cached unknown lines\<close>

definition record_unknown ::
    "string \<Rightarrow> string \<Rightarrow> string \<Rightarrow> string \<Rightarrow> string \<Rightarrow> storage \<Rightarrow> storage" where
  "record_unknown log_source event_name sample_line sample_body now st =
     (let hits = (\<lambda>r. us_log_source r = log_source \<and> us_event_name r = event_name)
      in if list_ex hits (s_unknown_samples st)
         then st\<lparr>s_unknown_samples := map (\<lambda>r. if hits r then
                r\<lparr>us_occurrences := us_occurrences r + 1, us_last_seen := now,
                  us_sample_line := sample_line, us_sample_body := sample_body\<rparr> else r)
              (s_unknown_samples st)\<rparr>
         else st\<lparr>s_unknown_samples := s_unknown_samples st @
                [\<lparr>us_log_source = log_source, us_event_name = event_name, us_occurrences = 1,
                  us_first_seen = now, us_last_seen = now, us_sample_line = sample_line,
                  us_sample_body = sample_body\<rparr>]\<rparr>)"

definition delete_unknown :: "string \<Rightarrow> string \<Rightarrow> storage \<Rightarrow> nat \<times> storage" where
  "delete_unknown log_source event_name st =
     (let hits = (\<lambda>r. us_log_source r = log_source \<and> us_event_name r = event_name)
      in (length (filter hits (s_unknown_samples st)),
          st\<lparr>s_unknown_samples := filter (\<lambda>r. \<not> hits r) (s_unknown_samples st)\<rparr>))"

definition write_parser_def_manifest :: "u32 \<Rightarrow> string \<Rightarrow> storage \<Rightarrow> storage" where
  "write_parser_def_manifest version payload_json st = st\<lparr>s_manifest := Some (version, payload_json)\<rparr>"

definition read_parser_def_manifest :: "storage \<Rightarrow> string option" where
  "read_parser_def_manifest st = map_option snd (s_manifest st)"

text \<open>The oldest samples go once the cap is exceeded.\<close>

definition push_sample :: "string \<Rightarrow> string list \<Rightarrow> string list" where
  "push_sample line samples = drop (length samples + 1 - RAW_EXAMPLES_CAP) (samples @ [line])"

definition has_shape :: "string \<Rightarrow> cached_line \<Rightarrow> bool" where
  "has_shape h c \<longleftrightarrow> ul_shape_hash (cl_line c) = h"

definition cache_unknown_line :: "unknown_line \<Rightarrow> storage \<Rightarrow> storage" where
  "cache_unknown_line line st =
     (if list_ex (has_shape (ul_shape_hash line)) (s_unknown_lines st)
      then st\<lparr>s_unknown_lines := map (\<lambda>c. if has_shape (ul_shape_hash line) c then
             c\<lparr>cl_line := (cl_line c)\<lparr>ul_occurrence_count := ul_occurrence_count (cl_line c) + 1,
                 ul_last_seen := ul_last_seen line\<rparr>,
               cl_raw_examples := push_sample (ul_raw_line line) (cl_raw_examples c)\<rparr>
             else c) (s_unknown_lines st)\<rparr>
      else st\<lparr>s_unknown_lines := s_unknown_lines st @
             [\<lparr>cl_line = line, cl_raw_examples = [ul_raw_line line], cl_submitted_at = None\<rparr>]\<rparr>)"

definition listed :: "u8 \<Rightarrow> cached_line \<Rightarrow> bool" where
  "listed min_interest c \<longleftrightarrow> \<not> ul_dismissed (cl_line c) \<and> ul_interest_score (cl_line c) \<ge> min_interest"

text \<open>
  \<open>ORDER BY interest_score DESC, occurrence_count DESC, last_seen DESC\<close>, as three stable sorts on the
  reversed keys; \<open>last_seen\<close> is compared last to first.
\<close>

definition list_unknown_lines :: "u8 \<Rightarrow> storage \<Rightarrow> unknown_line list" where
  "list_unknown_lines min_interest st =
     map cl_line (rev (sort_key (\<lambda>c. uint (ul_interest_score (cl_line c)))
       (sort_key (\<lambda>c. uint (ul_occurrence_count (cl_line c)))
         (sort_key (\<lambda>c. ul_last_seen (cl_line c)) (filter (listed min_interest) (s_unknown_lines st))))))"

definition count_unknown_lines :: "u8 \<Rightarrow> storage \<Rightarrow> nat" where
  "count_unknown_lines min_interest st = length (filter (listed min_interest) (s_unknown_lines st))"

definition dismiss_unknown_line :: "string \<Rightarrow> storage \<Rightarrow> storage" where
  "dismiss_unknown_line h st =
     st\<lparr>s_unknown_lines := map (\<lambda>c. if has_shape h c then c\<lparr>cl_line := (cl_line c)\<lparr>ul_dismissed := True\<rparr>\<rparr> else c)
        (s_unknown_lines st)\<rparr>"

definition mark_submitted :: "string \<Rightarrow> string \<Rightarrow> storage \<Rightarrow> storage" where
  "mark_submitted h submitted_at st =
     st\<lparr>s_unknown_lines := map (\<lambda>c. if has_shape h c then c\<lparr>cl_submitted_at := Some submitted_at\<rparr> else c)
        (s_unknown_lines st)\<rparr>"

section \<open>Insert-or-ignore stores\<close>

text \<open>
  The contract of \<open>ON CONFLICT DO NOTHING\<close>: an insert under a key that is present changes nothing,
  otherwise it makes the key present and disturbs no other. Replaying inserts is then harmless.
\<close>

locale insert_or_ignore =
  fixes put :: "'k \<Rightarrow> 'v \<Rightarrow> 's \<Rightarrow> 's"
    and lookup :: "'s \<Rightarrow> 'k \<Rightarrow> 'v option"
  assumes put_present: "lookup s k \<noteq> None \<Longrightarrow> put k v s = s"
    and put_absent: "lookup s k = None \<Longrightarrow> lookup (put k v s) = (lookup s)(k \<mapsto> v)"
begin

definition put_all :: "('k \<times> 'v) list \<Rightarrow> 's \<Rightarrow> 's" where
  "put_all kvs s = foldl (\<lambda>s (k, v). put k v s) s kvs"

lemma put_all_simps [simp]:
  "put_all [] s = s" "put_all ((k, v) # kvs) s = put_all kvs (put k v s)"
  by (simp_all add: put_all_def)

lemma put_mono: "lookup s k = Some v \<Longrightarrow> lookup (put k' v' s) k = Some v"
  by (cases "lookup s k'") (auto simp: put_absent put_present)

lemma put_all_mono: "lookup s k = Some v \<Longrightarrow> lookup (put_all kvs s) k = Some v"
  by (induction kvs arbitrary: s) (auto simp: put_mono)

lemma put_stored: "lookup (put k v s) k \<noteq> None"
  by (cases "lookup s k") (auto simp: put_absent put_present)

lemma put_all_stored: "k \<in> fst ` set kvs \<Longrightarrow> lookup (put_all kvs s) k \<noteq> None"
proof (induction kvs arbitrary: s)
  case (Cons kv kvs)
  obtain k' v' where kv: "kv = (k', v')" by fastforce
  show ?case
  proof (cases "k = k'")
    case True
    then obtain w where "lookup (put k' v' s) k = Some w" using put_stored [of k' v' s] by auto
    then show ?thesis using put_all_mono by (simp add: kv)
  next
    case False
    then show ?thesis using Cons by (simp add: kv)
  qed
qed simp

lemma put_all_present: "\<forall>k \<in> fst ` set kvs. lookup s k \<noteq> None \<Longrightarrow> put_all kvs s = s"
  by (induction kvs) (auto simp: put_present)

text \<open>Replaying any part of what was stored leaves the store as it is.\<close>

lemma replay: "fst ` set again \<subseteq> fst ` set kvs \<Longrightarrow> put_all again (put_all kvs s) = put_all kvs s"
  by (rule put_all_present) (use put_all_stored in \<open>auto simp: subset_iff\<close>)

end

definition event_values :: "event_row \<Rightarrow> string \<times> string \<times> string \<times> string \<times> string \<times> u64" where
  "event_values r = (ev_event_type r, ev_timestamp r, ev_raw_line r, ev_payload_json r, ev_log_source r,
     ev_source_offset r)"

definition put_event :: "string \<Rightarrow> string \<times> string \<times> string \<times> string \<times> string \<times> u64 \<Rightarrow> storage \<Rightarrow> storage" where
  "put_event k v st = (case v of (ty, ts, raw, payload, src, off) \<Rightarrow> insert_event k ty ts raw payload src off st)"

definition event_lookup :: "storage \<Rightarrow> string \<Rightarrow> (string \<times> string \<times> string \<times> string \<times> string \<times> u64) option" where
  "event_lookup st k = map_option event_values (find (\<lambda>r. ev_idempotency_key r = k) (s_events st))"

lemma find_append: "find P (xs @ ys) = (case find P xs of None \<Rightarrow> find P ys | Some x \<Rightarrow> Some x)"
  by (induction xs) auto

lemma event_lookup_None: "event_lookup st k = None \<longleftrightarrow> k \<notin> ev_idempotency_key ` set (s_events st)"
  by (auto simp: event_lookup_def find_None_iff)

interpretation local_events: insert_or_ignore put_event event_lookup
proof
  fix st k v
  assume "event_lookup st k \<noteq> None"
  then show "put_event k v st = st"
    by (auto simp: put_event_def insert_event_def event_lookup_None split: prod.split)
next
  fix st k v
  assume "event_lookup st k = None"
  then have a: "k \<notin> ev_idempotency_key ` set (s_events st)" by (simp add: event_lookup_None)
  then have n: "find (\<lambda>r. ev_idempotency_key r = k) (s_events st) = None" by (auto simp: find_None_iff)
  show "event_lookup (put_event k v st) = (event_lookup st)(k \<mapsto> v)"
    by (rule ext) (use a n in \<open>auto simp: put_event_def insert_event_def event_lookup_def find_append
        event_values_def split: prod.split option.split\<close>)
qed

definition noise_lookup :: "storage \<Rightarrow> string \<Rightarrow> string option" where
  "noise_lookup st k = map_of (s_noise st) k"

interpretation noise: insert_or_ignore insert_noise noise_lookup
proof
  fix st k v
  assume "noise_lookup st k \<noteq> None"
  then show "insert_noise k v st = st"
    by (auto simp: insert_noise_def noise_lookup_def map_of_eq_None_iff)
next
  fix st k v
  assume a: "noise_lookup st k = None"
  then have "k \<notin> fst ` set (s_noise st)" by (simp add: noise_lookup_def map_of_eq_None_iff)
  moreover have "[k \<mapsto> v] ++ map_of (s_noise st) = (map_of (s_noise st))(k \<mapsto> v)"
    using a by (auto simp: map_add_def noise_lookup_def fun_eq_iff split: option.split)
  ultimately show "noise_lookup (insert_noise k v st) = (noise_lookup st)(k \<mapsto> v)"
    by (simp add: insert_noise_def noise_lookup_def fun_eq_iff)
qed

section \<open>Invariant\<close>

definition storage_ok :: "storage \<Rightarrow> bool" where
  "storage_ok st \<longleftrightarrow>
     sorted_wrt (<) (map ev_id (s_events st)) \<and>
     (\<forall>r \<in> set (s_events st). 1 \<le> ev_id r \<and> ev_id r < s_next_id st) \<and> 1 \<le> s_next_id st \<and>
     distinct (map ev_idempotency_key (s_events st)) \<and>
     distinct (map (\<lambda>r. (us_log_source r, us_event_name r)) (s_unknown_samples st)) \<and>
     distinct (map (\<lambda>c. ul_shape_hash (cl_line c)) (s_unknown_lines st)) \<and>
     (\<forall>c \<in> set (s_unknown_lines st). cl_raw_examples c \<noteq> [] \<and> length (cl_raw_examples c) \<le> RAW_EXAMPLES_CAP) \<and>
     distinct (map fst (s_noise st))"

text \<open>Every method that writes, as one step.\<close>

datatype storage_op =
    OpenStorage
  | AddNoise string string
  | InsertEvent string string string string string string u64
  | WriteSyncCursor int
  | WriteCursor string u64
  | RecordUnknown string string string string string
  | DeleteUnknown string string
  | UpdateEvent int string string string
  | DeleteEvent int
  | WriteManifest u32 string
  | CacheLine unknown_line
  | DismissLine string
  | MarkSubmitted string string

fun storage_step :: "storage_op \<Rightarrow> storage \<Rightarrow> storage" where
  "storage_step OpenStorage st = open_storage st"
| "storage_step (AddNoise n s) st = add_noise n s st"
| "storage_step (InsertEvent k ty ts raw p src off) st = insert_event k ty ts raw p src off st"
| "storage_step (WriteSyncCursor n) st = write_sync_cursor n st"
| "storage_step (WriteCursor p off) st = write_cursor p off st"
| "storage_step (RecordUnknown src n l b now) st = record_unknown src n l b now st"
| "storage_step (DeleteUnknown src n) st = snd (delete_unknown src n st)"
| "storage_step (UpdateEvent i ty ts p) st = snd (update_event_classification i ty ts p st)"
| "storage_step (DeleteEvent i) st = snd (delete_event_by_id i st)"
| "storage_step (WriteManifest v p) st = write_parser_def_manifest v p st"
| "storage_step (CacheLine l) st = cache_unknown_line l st"
| "storage_step (DismissLine h) st = dismiss_unknown_line h st"
| "storage_step (MarkSubmitted h t) st = mark_submitted h t st"

lemma insert_noise_ok: "storage_ok st \<Longrightarrow> storage_ok (insert_noise n s st)"
  by (auto simp: storage_ok_def insert_noise_def)

lemma seed_ok: "storage_ok st \<Longrightarrow> storage_ok (foldl (\<lambda>st name. insert_noise name src st) st names)"
  by (induction names arbitrary: st) (auto simp: insert_noise_ok)

lemma distinct_map_filter_key: "distinct (map f xs) \<Longrightarrow> distinct (map f (filter P xs))"
  by (simp add: distinct_map_filter)

lemma open_storage_ok: "storage_ok st \<Longrightarrow> storage_ok (open_storage st)"
proof -
  assume a: "storage_ok st"
  have "storage_ok (st\<lparr>s_noise := filter P (s_noise st)\<rparr>)" for P
    using a by (simp add: storage_ok_def distinct_map_filter_key)
  then have "storage_ok (seed_default_noise st)" unfolding seed_default_noise_def by (intro seed_ok)
  then show ?thesis
    by (simp add: open_storage_def purge_noise_from_unknowns_def storage_ok_def distinct_map_filter_key)
qed

lemma insert_event_ok: "storage_ok st \<Longrightarrow> storage_ok (insert_event k ty ts raw p src off st)"
  by (auto simp: storage_ok_def insert_event_def sorted_wrt_append)

lemma events_map_ok:
  assumes "\<And>r. ev_id (f r) = ev_id r" and "\<And>r. ev_idempotency_key (f r) = ev_idempotency_key r"
    and "storage_ok st"
  shows "storage_ok (st\<lparr>s_events := map f (s_events st)\<rparr>)"
  using assms by (simp add: storage_ok_def o_def)

lemma update_event_ok: "storage_ok st \<Longrightarrow> storage_ok (snd (update_event_classification i ty ts p st))"
  unfolding update_event_classification_def snd_conv by (rule events_map_ok) simp_all

lemma delete_event_ok: "storage_ok st \<Longrightarrow> storage_ok (snd (delete_event_by_id i st))"
  by (auto simp: storage_ok_def delete_event_by_id_def distinct_map_filter_key sorted_wrt_map
      intro: sorted_wrt_filter)

lemma samples_map_ok:
  assumes "\<And>r. us_log_source (f r) = us_log_source r" and "\<And>r. us_event_name (f r) = us_event_name r"
    and "storage_ok st"
  shows "storage_ok (st\<lparr>s_unknown_samples := map f (s_unknown_samples st)\<rparr>)"
  using assms by (simp add: storage_ok_def o_def)

lemma record_unknown_ok:
  assumes "storage_ok st"
  shows "storage_ok (record_unknown src n l b now st)"
proof (cases "list_ex (\<lambda>r. us_log_source r = src \<and> us_event_name r = n) (s_unknown_samples st)")
  case True
  then show ?thesis
    unfolding record_unknown_def Let_def if_P [OF True] by (intro samples_map_ok assms) simp_all
next
  case False
  then have "(src, n) \<notin> (\<lambda>r. (us_log_source r, us_event_name r)) ` set (s_unknown_samples st)"
    by (auto simp: list_ex_iff)
  then show ?thesis using assms False by (simp add: storage_ok_def record_unknown_def Let_def)
qed

lemma push_sample_bounds:
  "push_sample l xs \<noteq> [] \<and> (length xs \<le> RAW_EXAMPLES_CAP \<longrightarrow> length (push_sample l xs) \<le> RAW_EXAMPLES_CAP)"
  by (auto simp: push_sample_def RAW_EXAMPLES_CAP_def)

lemma cached_map_ok:
  assumes "storage_ok st"
    and "\<And>c. ul_shape_hash (cl_line (f c)) = ul_shape_hash (cl_line c)"
    and "\<And>c. cl_raw_examples (f c) = cl_raw_examples c \<or> (\<exists>l. cl_raw_examples (f c) = push_sample l (cl_raw_examples c))"
  shows "storage_ok (st\<lparr>s_unknown_lines := map f (s_unknown_lines st)\<rparr>)"
proof -
  have "map (\<lambda>c. ul_shape_hash (cl_line c)) (map f xs) = map (\<lambda>c. ul_shape_hash (cl_line c)) xs" for xs
    using assms(2) by simp
  moreover have "cl_raw_examples (f c) \<noteq> [] \<and> length (cl_raw_examples (f c)) \<le> RAW_EXAMPLES_CAP"
    if "c \<in> set (s_unknown_lines st)" for c
  proof -
    have "cl_raw_examples c \<noteq> [] \<and> length (cl_raw_examples c) \<le> RAW_EXAMPLES_CAP"
      using assms(1) that by (simp add: storage_ok_def)
    then show ?thesis using assms(3) [of c] push_sample_bounds [of _ "cl_raw_examples c"] by metis
  qed
  ultimately show ?thesis using assms(1) by (simp add: storage_ok_def del: map_map)
qed

lemma cache_unknown_line_ok: "storage_ok st \<Longrightarrow> storage_ok (cache_unknown_line l st)"
proof (cases "list_ex (has_shape (ul_shape_hash l)) (s_unknown_lines st)")
  case True
  assume "storage_ok st"
  then show ?thesis
    unfolding cache_unknown_line_def if_P [OF True]
  proof (rule cached_map_ok)
    fix c
    let ?c = "if has_shape (ul_shape_hash l) c then
      c\<lparr>cl_line := (cl_line c)\<lparr>ul_occurrence_count := ul_occurrence_count (cl_line c) + 1,
        ul_last_seen := ul_last_seen l\<rparr>,
        cl_raw_examples := push_sample (ul_raw_line l) (cl_raw_examples c)\<rparr> else c"
    show "ul_shape_hash (cl_line ?c) = ul_shape_hash (cl_line c)" by simp
    show "cl_raw_examples ?c = cl_raw_examples c \<or> (\<exists>x. cl_raw_examples ?c = push_sample x (cl_raw_examples c))"
      by (cases "has_shape (ul_shape_hash l) c") (auto intro: exI [of _ "ul_raw_line l"])
  qed
next
  case False
  then have "ul_shape_hash l \<notin> (\<lambda>c. ul_shape_hash (cl_line c)) ` set (s_unknown_lines st)"
    by (auto simp: list_ex_iff has_shape_def)
  moreover assume "storage_ok st"
  ultimately show ?thesis
    using False by (simp add: cache_unknown_line_def storage_ok_def RAW_EXAMPLES_CAP_def)
qed

lemma storage_step_ok: "storage_ok st \<Longrightarrow> storage_ok (storage_step op st)"
proof (cases op)
  case OpenStorage
  assume "storage_ok st"
  then show ?thesis using OpenStorage open_storage_ok by simp
next
  case (AddNoise n s)
  assume "storage_ok st"
  then show ?thesis
    using AddNoise insert_noise_ok [of st n s]
    by (simp add: add_noise_def Let_def storage_ok_def distinct_map_filter_key)
next
  case (DeleteUnknown src n)
  assume "storage_ok st"
  then show ?thesis
    using DeleteUnknown by (simp add: delete_unknown_def Let_def storage_ok_def distinct_map_filter_key)
next
  case (DismissLine h)
  assume "storage_ok st"
  then show ?thesis
    unfolding DismissLine storage_step.simps dismiss_unknown_line_def by (rule cached_map_ok) simp_all
next
  case (MarkSubmitted h t)
  assume "storage_ok st"
  then show ?thesis
    unfolding MarkSubmitted storage_step.simps mark_submitted_def by (rule cached_map_ok) simp_all
qed (auto simp: insert_event_ok update_event_ok delete_event_ok record_unknown_ok cache_unknown_line_ok,
    auto simp: storage_ok_def write_sync_cursor_def write_cursor_def write_parser_def_manifest_def)

lemma storage_steps_ok: "storage_ok st \<Longrightarrow> storage_ok (foldl (\<lambda>st op. storage_step op st) st ops)"
  by (induction ops arbitrary: st) (auto simp: storage_step_ok)

section \<open>Properties\<close>

text \<open>
  C37. The local store stays well formed: starting from an empty database, after any sequence of the
  methods that write, event ids increase and lie below the next one, no idempotency key, unknown
  sample, shape or noise entry is stored twice, and every cached shape keeps between one and five
  raw samples.
\<close>

theorem storage_invariant:
  "storage_ok (foldl (\<lambda>st op. storage_step op st) empty_storage ops)"
  by (intro storage_steps_ok) (simp add: storage_ok_def empty_storage_def)

text \<open>
  Submitting a line does not stop its samples from growing: caching a line of a shape that was
  already submitted still bumps its count and appends the raw text.
\<close>

theorem submitted_shape_keeps_accruing:
  assumes "storage_ok st" and "c \<in> set (s_unknown_lines st)" and "has_shape (ul_shape_hash line) c"
  shows "\<exists>c' \<in> set (s_unknown_lines (cache_unknown_line line (mark_submitted (ul_shape_hash line) t st))).
    cl_submitted_at c' = Some t \<and>
    cl_raw_examples c' = push_sample (ul_raw_line line) (cl_raw_examples c) \<and>
    last (cl_raw_examples c') = ul_raw_line line \<and>
    ul_occurrence_count (cl_line c') = ul_occurrence_count (cl_line c) + 1"
proof -
  let ?m = "c\<lparr>cl_submitted_at := Some t\<rparr>"
  let ?st = "mark_submitted (ul_shape_hash line) t st"
  let ?c' = "?m\<lparr>cl_line := (cl_line c)\<lparr>ul_occurrence_count := ul_occurrence_count (cl_line c) + 1,
    ul_last_seen := ul_last_seen line\<rparr>, cl_raw_examples := push_sample (ul_raw_line line) (cl_raw_examples c)\<rparr>"
  have m: "?m \<in> set (s_unknown_lines ?st)" using assms(2,3) by (force simp: mark_submitted_def)
  have h: "has_shape (ul_shape_hash line) ?m" using assms(3) by (simp add: has_shape_def)
  then have "list_ex (has_shape (ul_shape_hash line)) (s_unknown_lines ?st)" using m by (auto simp: list_ex_iff)
  then have "?c' \<in> set (s_unknown_lines (cache_unknown_line line ?st))"
    using m h by (force simp: cache_unknown_line_def)
  moreover have "last (push_sample (ul_raw_line line) (cl_raw_examples c)) = ul_raw_line line"
    by (simp add: push_sample_def RAW_EXAMPLES_CAP_def)
  ultimately show ?thesis by (intro bexI) simp_all
qed

definition sample_line :: unknown_line where
  "sample_line = \<lparr>ul_id = ''u'', ul_raw_line = ''raw2'', ul_timestamp = None, ul_shell_tag = None, ul_partial_structured = Map.empty,
     ul_context_before = [], ul_context_after = [], ul_game_build = None, ul_channel = Live, ul_interest_score = 50,
     ul_shape_hash = ''h'', ul_occurrence_count = 1, ul_first_seen = ''t'', ul_last_seen = ''t'',
     ul_detected_pii = [], ul_dismissed = False\<rparr>"

theorem submitted_shape_keeps_accruing_witness:
  "let st = cache_unknown_line sample_line empty_storage
   in \<exists>c' \<in> set (s_unknown_lines (cache_unknown_line sample_line (mark_submitted ''h'' ''t1'' st))).
     cl_submitted_at c' = Some ''t1'' \<and> cl_raw_examples c' = [''raw2'', ''raw2'']"
proof -
  let ?st = "cache_unknown_line sample_line empty_storage"
  let ?c = "\<lparr>cl_line = sample_line, cl_raw_examples = [''raw2''], cl_submitted_at = None\<rparr>"
  have "storage_ok ?st" by (intro cache_unknown_line_ok) (simp add: storage_ok_def empty_storage_def)
  moreover have "?c \<in> set (s_unknown_lines ?st)" "has_shape (ul_shape_hash sample_line) ?c"
    by (simp_all add: cache_unknown_line_def empty_storage_def sample_line_def has_shape_def)
  ultimately show ?thesis
    using submitted_shape_keeps_accruing [of ?st ?c sample_line "''t1''"]
    by (simp add: sample_line_def push_sample_def RAW_EXAMPLES_CAP_def) blast
qed

end
