(* ===== verification/Gamelog.thy ===== *)
theory Gamelog
  imports Storage Classify Templates "HOL-Library.Sublist"
begin

text \<open>
  Models \<^verbatim>\<open>crates/starstats-client/src/gamelog.rs\<close>, \<^verbatim>\<open>burst_rules.rs\<close> and \<^verbatim>\<open>backfill.rs\<close>: the tail of
  the live log, the collapsing of bursts, the ingest of one line, and the replay of rotated logs.
  A file is the string of its bytes. \<open>Uuid::new_v5\<close>, the JSON printer and the clock are fields of the
  parameter \<open>pf\<close>, with the regex engine; a SQLite call always succeeds.
\<close>

section \<open>Model\<close>

record platform =
  pf_rx :: regex_engine
  pf_uuid5 :: "string \<Rightarrow> string"
  pf_to_json :: "game_event \<Rightarrow> string"
  pf_now :: string

subsection \<open>Bytes and text\<close>

definition is_cont :: "char \<Rightarrow> bool" where
  "is_cont c \<longleftrightarrow> (of_char c :: nat) div 64 = 2"

definition byte_in :: "nat \<Rightarrow> nat \<Rightarrow> char \<Rightarrow> bool" where
  "byte_in lo hi c \<longleftrightarrow> lo \<le> of_char c \<and> of_char c \<le> hi"

text \<open>\<open>str::from_utf8\<close>: the well-formed byte sequences of the Unicode standard.\<close>

fun utf8_valid :: "string \<Rightarrow> bool" where
  "utf8_valid (a # b # c # d # cs) \<longleftrightarrow>
     (if byte_in 0 0x7F a then utf8_valid (b # c # d # cs)
      else if byte_in 0xC2 0xDF a then is_cont b \<and> utf8_valid (c # d # cs)
      else if byte_in 0xE0 0xEF a then
        (if byte_in 0xE0 0xE0 a then byte_in 0xA0 0xBF b
         else if byte_in 0xED 0xED a then byte_in 0x80 0x9F b else is_cont b) \<and>
        is_cont c \<and> utf8_valid (d # cs)
      else if byte_in 0xF0 0xF4 a then
        (if byte_in 0xF0 0xF0 a then byte_in 0x90 0xBF b
         else if byte_in 0xF4 0xF4 a then byte_in 0x80 0x8F b else is_cont b) \<and>
        is_cont c \<and> is_cont d \<and> utf8_valid cs
      else False)"
| "utf8_valid [a, b, c] \<longleftrightarrow>
     (if byte_in 0 0x7F a then utf8_valid [b, c]
      else if byte_in 0xC2 0xDF a then is_cont b \<and> utf8_valid [c]
      else byte_in 0xE0 0xEF a \<and>
        (if byte_in 0xE0 0xE0 a then byte_in 0xA0 0xBF b
         else if byte_in 0xED 0xED a then byte_in 0x80 0x9F b else is_cont b) \<and> is_cont c)"
| "utf8_valid [a, b] \<longleftrightarrow>
     (if byte_in 0 0x7F a then utf8_valid [b] else byte_in 0xC2 0xDF a \<and> is_cont b)"
| "utf8_valid [a] \<longleftrightarrow> byte_in 0 0x7F a"
| "utf8_valid [] \<longleftrightarrow> True"

text \<open>\<open>s.chars().take(n).collect()\<close> on well-formed bytes.\<close>

fun take_chars :: "nat \<Rightarrow> string \<Rightarrow> string" where
  "take_chars n [] = []"
| "take_chars n (c # cs) =
     (if is_cont c then c # take_chars n cs
      else case n of 0 \<Rightarrow> [] | Suc m \<Rightarrow> c # take_chars m cs)"

definition to_ascii_uppercase :: "string \<Rightarrow> string" where
  "to_ascii_uppercase s =
     map (\<lambda>c. if CHR ''a'' \<le> c \<and> c \<le> CHR ''z''
       then (case c of Char b0 b1 b2 b3 b4 b5 b6 b7 \<Rightarrow> Char b0 b1 b2 b3 b4 False b6 b7) else c) s"

text \<open>Decimal printing.\<close>

fun nat_text :: "nat \<Rightarrow> string" where
  "nat_text n = (if n < 10 then [char_of (48 + n)] else nat_text (n div 10) @ [char_of (48 + n mod 10)])"

declare nat_text.simps [simp del]

text \<open>Indexing panics out of range; \<open>omap\<close> runs a step that may panic over a list.\<close>

definition idx :: "'a list \<Rightarrow> nat \<Rightarrow> 'a outcome" where
  "idx xs i = (if i < length xs then Ret (xs ! i) else Panic)"

fun omap :: "('a \<Rightarrow> 'b outcome) \<Rightarrow> 'a list \<Rightarrow> 'b list outcome" where
  "omap f [] = Ret []"
| "omap f (x # xs) = obind (f x) (\<lambda>y. obind (omap f xs) (\<lambda>ys. Ret (y # ys)))"

fun ofold :: "('a \<Rightarrow> 's \<Rightarrow> 's outcome) \<Rightarrow> 'a list \<Rightarrow> 's \<Rightarrow> 's outcome" where
  "ofold f [] s = Ret s"
| "ofold f (x # xs) s = obind (f x s) (ofold f xs)"

subsection \<open>Built-in burst rules\<close>

definition builtin_burst_rules :: "burst_rule list" where
  "builtin_burst_rules =
    [\<lparr>br_id = ''loadout_restore_burst'', br_anchor = EventName ''AttachmentReceived'',
      br_member = EventName ''AttachmentReceived'', br_tags = [''Inventory''],
      br_min_burst_size = 3, br_max_member_gap = 1\<rparr>,
     \<lparr>br_id = ''terrain_load_burst'', br_anchor = EventName ''StatObjLoad 0x800 Format'',
      br_member = EventName ''StatObjLoad 0x800 Format'', br_tags = [''CoreTech''],
      br_min_burst_size = 5, br_max_member_gap = 0\<rparr>,
     \<lparr>br_id = ''hud_notification_burst'', br_anchor = EventName ''SHUDEvent_OnNotification'',
      br_member = EventName ''SHUDEvent_OnNotification'', br_tags = [],
      br_min_burst_size = 3, br_max_member_gap = 0\<rparr>,
     \<lparr>br_id = ''vehicle_stowed_burst'', br_anchor = EventName ''VehicleStowed'',
      br_member = EventName ''VehicleStowed'', br_tags = [],
      br_min_burst_size = 3, br_max_member_gap = 0\<rparr>]"

subsection \<open>Keys and sources\<close>

text \<open>A path is the list of its components.\<close>

definition path_parent :: "string list \<Rightarrow> string list option" where
  "path_parent p = (if p = [] then None else Some (butlast p))"

definition file_name :: "string list \<Rightarrow> string option" where
  "file_name p = (if p = [] then None else Some (last p))"

definition log_source_from_path :: "string list \<Rightarrow> string" where
  "log_source_from_path path =
     (let parent = path_parent path;
          grandparent = Option.bind parent path_parent;
          segment = (case Option.bind parent file_name of
              Some name \<Rightarrow> if name = ''Logs'' then Option.bind grandparent file_name else Some name
            | None \<Rightarrow> None);
          upper = to_ascii_uppercase (case segment of Some s \<Rightarrow> s | None \<Rightarrow> ''OTHER'')
      in if upper = ''LIVE'' then ''live'' else if upper = ''PTU'' then ''ptu''
         else if upper = ''EPTU'' then ''eptu'' else if upper = ''HOTFIX'' then ''hotfix''
         else if upper = ''TECH-PREVIEW'' then ''tech'' else ''other'')"

definition key_payload :: "string \<Rightarrow> u64 \<Rightarrow> string \<Rightarrow> string" where
  "key_payload log_source offset line = log_source @ '':'' @ nat_text (unat offset) @ '':'' @ line"

definition idempotency_key :: "platform \<Rightarrow> string \<Rightarrow> u64 \<Rightarrow> string \<Rightarrow> string" where
  "idempotency_key pf log_source offset line = pf_uuid5 pf (key_payload log_source offset line)"

text \<open>The tag and the timestamp of the printed object are those of the derived serialiser.\<close>

definition serialise_event :: "platform \<Rightarrow> game_event \<Rightarrow> (string \<times> string \<times> string) option" where
  "serialise_event pf event = Some (event_type_key event, timestamp_of event, pf_to_json pf event)"

subsection \<open>One line\<close>

datatype ingest_outcome =
    Skipped
  | Noise
  | StructuralOnly
  | Recognised string string

definition ingest_one_line ::
    "platform \<Rightarrow> string \<Rightarrow> compiled_remote_rule list \<Rightarrow> string \<Rightarrow> u64 \<Rightarrow> storage \<Rightarrow> (ingest_outcome \<times> storage) outcome" where
  "ingest_one_line pf log_source remote_rules line line_offset st =
     obind (structural_parse (pf_rx pf) line) (\<lambda>pl.
       case pl of
         None \<Rightarrow> Ret (Skipped, st)
       | Some l \<Rightarrow>
           obind (classify (pf_rx pf) l) (\<lambda>built_in.
             case (case built_in of Some e \<Rightarrow> Some e | None \<Rightarrow> apply_remote_rules (pf_rx pf) l remote_rules) of
               None \<Rightarrow>
                 (case l_event_name l of
                    None \<Rightarrow> Ret (StructuralOnly, st)
                  | Some name \<Rightarrow>
                      if is_noise name st then Ret (Noise, st)
                      else Ret (StructuralOnly, record_unknown log_source name line (l_body l) (pf_now pf) st))
             | Some event \<Rightarrow>
                 (case serialise_event pf event of
                    None \<Rightarrow> Ret (Skipped, st)
                  | Some (event_type, timestamp, payload) \<Rightarrow>
                      Ret (Recognised event_type timestamp,
                           insert_event (idempotency_key pf log_source line_offset line)
                             event_type timestamp line payload log_source line_offset st))))"

record tail_stats =
  tl_bytes_read :: u64
  tl_lines_processed :: u64
  tl_events_recognised :: u64
  tl_last_event_at :: "string option"
  tl_last_event_type :: "string option"
  tl_lines_structural_only :: u64
  tl_lines_skipped :: u64
  tl_lines_noise :: u64

definition count_event :: "string \<Rightarrow> string \<Rightarrow> tail_stats \<Rightarrow> tail_stats" where
  "count_event event_type ts s =
     s\<lparr>tl_events_recognised := tl_events_recognised s + 1, tl_last_event_type := Some event_type,
       tl_last_event_at := Some ts\<rparr>"

fun count_outcome :: "ingest_outcome \<Rightarrow> tail_stats \<Rightarrow> tail_stats" where
  "count_outcome Skipped s = s\<lparr>tl_lines_skipped := tl_lines_skipped s + 1\<rparr>"
| "count_outcome Noise s = s\<lparr>tl_lines_noise := tl_lines_noise s + 1\<rparr>"
| "count_outcome StructuralOnly s = s\<lparr>tl_lines_structural_only := tl_lines_structural_only s + 1\<rparr>"
| "count_outcome (Recognised ty ts) s = count_event ty ts s"

definition process_line ::
    "platform \<Rightarrow> string \<Rightarrow> compiled_remote_rule list \<Rightarrow> string \<times> u64 \<Rightarrow> storage \<times> tail_stats \<Rightarrow>
     (storage \<times> tail_stats) outcome" where
  "process_line pf log_source rules entry s =
     obind (ingest_one_line pf log_source rules (fst entry) (snd entry) (fst s))
       (\<lambda>(out, st). Ret (st, count_outcome out (snd s)))"

subsection \<open>One buffer\<close>

definition valid_subset :: "log_line option list \<Rightarrow> (nat \<times> log_line) list" where
  "valid_subset ps = List.map_filter (\<lambda>(i, p). map_option (Pair i) p) (enumerate 0 ps)"

definition burst_summary_of :: "burst_hit \<Rightarrow> log_line \<Rightarrow> log_line \<Rightarrow> game_event" where
  "burst_summary_of burst anchor_log end_log =
     (let sample = take_chars 200 (l_body anchor_log)
      in BurstSummary \<lparr>bs_timestamp = l_timestamp anchor_log, bs_rule_id = bh_rule_id burst,
           bs_size = of_nat (bh_size burst), bs_end_timestamp = l_timestamp end_log,
           bs_anchor_body_sample = (if sample = [] then None else Some sample)\<rparr>)"

definition synthetic_line :: "string \<Rightarrow> burst_hit \<Rightarrow> string" where
  "synthetic_line anchor_line burst =
     anchor_line @ ''|burst:'' @ bh_rule_id burst @ '':'' @ nat_text (bh_size burst)"

definition emit_burst ::
    "platform \<Rightarrow> string \<Rightarrow> (string \<times> u64) list \<Rightarrow> (nat \<times> log_line) list \<Rightarrow> burst_hit \<Rightarrow>
     storage \<times> tail_stats \<Rightarrow> (storage \<times> tail_stats) outcome" where
  "emit_burst pf log_source buffer valid burst s =
     obind (idx valid (bh_start_index burst)) (\<lambda>(anchor_buf_idx, anchor_log).
     obind (idx valid (bh_end_index burst)) (\<lambda>(end_buf_idx, end_log).
     obind (idx buffer anchor_buf_idx) (\<lambda>(anchor_line, anchor_offset).
       case serialise_event pf (burst_summary_of burst anchor_log end_log) of
         None \<Rightarrow> Ret s
       | Some (event_type, ts, payload) \<Rightarrow>
           Ret (insert_event (idempotency_key pf log_source anchor_offset (synthetic_line anchor_line burst))
                  event_type ts anchor_line payload log_source anchor_offset (fst s),
                count_event event_type ts (snd s)))))"

definition process_buffer ::
    "platform \<Rightarrow> string \<Rightarrow> compiled_remote_rule list \<Rightarrow> burst_rule list \<Rightarrow> (string \<times> u64) list \<Rightarrow>
     storage \<times> tail_stats \<Rightarrow> (storage \<times> tail_stats) outcome" where
  "process_buffer pf log_source remote_rules burst_rules buffer s =
     obind (omap (\<lambda>(line, _). structural_parse (pf_rx pf) line) buffer) (\<lambda>ps.
       let valid = valid_subset ps;
           bursts = detect_bursts (map snd valid) burst_rules
       in obind (omap (\<lambda>i. obind (idx valid i) (\<lambda>v. Ret (fst v))) (concat (map bh_member_indices bursts))) (\<lambda>suppressed.
          obind (ofold (emit_burst pf log_source buffer valid) bursts s) (\<lambda>s.
            ofold (\<lambda>(i, entry). process_line pf log_source remote_rules entry)
              (filter (\<lambda>(i, entry). i \<notin> set suppressed) (enumerate 0 buffer)) s)))"

subsection \<open>The tail\<close>

text \<open>What successive calls of \<open>read_line\<close> return: a line with its newline, or the unfinished rest.\<close>

abbreviation newline :: char where
  "newline \<equiv> CHR 0x0A"

fun chunks :: "string \<Rightarrow> string list" where
  "chunks [] = []"
| "chunks (c # cs) =
     (if c = newline then [c] # chunks cs
      else case chunks cs of [] \<Rightarrow> [[c]] | x # xs \<Rightarrow> (c # x) # xs)"

definition trim_line :: "string \<Rightarrow> string" where
  "trim_line s = trim_end_matches [CHR 0x0D, CHR 0x0A] s"

text \<open>
  The read loop: the complete lines with the offset of each, the offset reached, and whether it
  ended in an error (\<open>read_line\<close> refuses bytes that are not UTF-8).
\<close>

fun read_loop :: "u64 \<Rightarrow> string list \<Rightarrow> (string \<times> u64) list \<times> u64 \<times> bool" where
  "read_loop offset [] = ([], offset, False)"
| "read_loop offset (buf # rest) =
     (if \<not> utf8_valid buf then ([], offset, True)
      else if \<not> ends_with buf [newline] then ([], offset, False)
      else (let (ls, end, err) = read_loop (offset + of_nat (length buf)) rest
            in ((trim_line buf, offset) # ls, end, err)))"

datatype open_result = NotFound | OpenFailed | Opened string

record tail_state =
  td_offset :: u64
  td_storage :: storage
  td_stats :: tail_stats

text \<open>One drain; the flag says whether it returned an error.\<close>

definition drain ::
    "platform \<Rightarrow> string list \<Rightarrow> string \<Rightarrow> compiled_remote_rule list \<Rightarrow> open_result \<Rightarrow> tail_state \<Rightarrow>
     (bool \<times> tail_state) outcome" where
  "drain pf path path_str rules file td =
     (case file of
        NotFound \<Rightarrow> Ret (False, td)
      | OpenFailed \<Rightarrow> Ret (True, td)
      | Opened content \<Rightarrow>
          let len = of_nat (length content) :: u64;
              offset = (if len < td_offset td then 0 else td_offset td);
              td = td\<lparr>td_offset := offset\<rparr>
          in if len = offset then Ret (False, td)
             else
               (let (ls, offset', err) = read_loop offset (chunks (drop (unat offset) content));
                    td = td\<lparr>td_offset := offset'\<rparr>
                in if err then Ret (True, td)
                   else
                     obind
                       (if ls = [] then Ret td
                        else
                          obind (process_buffer pf (log_source_from_path path) rules builtin_burst_rules ls
                                   (td_storage td, td_stats td))
                            (\<lambda>(st, stats). Ret (td\<lparr>td_storage := st,
                               td_stats := stats\<lparr>tl_bytes_read := offset',
                                 tl_lines_processed := tl_lines_processed stats + of_nat (length ls)\<rparr>\<rparr>)))
                       (\<lambda>td. Ret (False, td\<lparr>td_storage := write_cursor path_str offset' (td_storage td)\<rparr>))))"

subsection \<open>Rotated logs\<close>

record backfill_stats =
  bk_files_processed :: u32
  bk_files_already_done :: u32
  bk_lines_processed :: u64
  bk_events_recognised :: u64

definition saturating_add :: "u64 \<Rightarrow> u64 \<Rightarrow> u64" where
  "saturating_add a b = (if uint a + uint b < 2 ^ 64 then a + b else - 1)"

fun is_recognised :: "ingest_outcome \<Rightarrow> bool" where
  "is_recognised (Recognised _ _) = True"
| "is_recognised _ = False"

text \<open>The loop of one file: lines go to the store as they are read, before a later read can fail.\<close>

fun backfill_loop ::
    "platform \<Rightarrow> string \<Rightarrow> compiled_remote_rule list \<Rightarrow> string list \<Rightarrow> u64 \<Rightarrow> u64 \<Rightarrow> u64 \<Rightarrow> storage \<Rightarrow>
     (bool \<times> u64 \<times> u64 \<times> u64 \<times> storage) outcome" where
  "backfill_loop pf log_source rules [] offset n_lines n_events st = Ret (False, offset, n_lines, n_events, st)"
| "backfill_loop pf log_source rules (buf # rest) offset n_lines n_events st =
     (if \<not> utf8_valid buf then Ret (True, offset, n_lines, n_events, st)
      else if \<not> ends_with buf [newline] then Ret (False, offset, n_lines, n_events, st)
      else
        obind (ingest_one_line pf log_source rules (trim_line buf) offset st) (\<lambda>(out, st).
          backfill_loop pf log_source rules rest (offset + of_nat (length buf)) (n_lines + 1)
            (n_events + (if is_recognised out then 1 else 0)) st))"

definition backfill_file ::
    "platform \<Rightarrow> string list \<Rightarrow> string \<Rightarrow> compiled_remote_rule list \<Rightarrow> open_result \<Rightarrow> storage \<times> backfill_stats \<Rightarrow>
     (bool \<times> storage \<times> backfill_stats) outcome" where
  "backfill_file pf path path_str rules file s =
     (case s of (st, stats) \<Rightarrow>
        case file of
          NotFound \<Rightarrow> Ret (False, st, stats\<lparr>bk_files_already_done := bk_files_already_done stats + 1\<rparr>)
        | OpenFailed \<Rightarrow> Ret (True, st, stats)
        | Opened content \<Rightarrow>
            let start = read_cursor path_str st
            in if start \<ge> of_nat (length content)
               then Ret (False, st, stats\<lparr>bk_files_already_done := bk_files_already_done stats + 1\<rparr>)
               else
                 obind (backfill_loop pf (log_source_from_path path) rules (chunks (drop (unat start) content)) start 0 0 st)
                   (\<lambda>(err, offset, n_lines, n_events, st).
                     if err then Ret (True, st, stats)
                     else Ret (False, write_cursor path_str offset st,
                       stats\<lparr>bk_files_processed := bk_files_processed stats + 1,
                         bk_lines_processed := saturating_add (bk_lines_processed stats) n_lines,
                         bk_events_recognised := saturating_add (bk_events_recognised stats) n_events\<rparr>)))"

text \<open>A sweep over the archives, a failed file being skipped.\<close>

definition backfill_run ::
    "platform \<Rightarrow> compiled_remote_rule list \<Rightarrow> (string list \<times> string \<times> open_result) list \<Rightarrow>
     storage \<times> backfill_stats \<Rightarrow> (storage \<times> backfill_stats) outcome" where
  "backfill_run pf rules files s =
     ofold (\<lambda>(path, path_str, file) s. obind (backfill_file pf path path_str rules file s) (\<lambda>(err, s). Ret s)) files s"

section \<open>Lemmas on reading\<close>

lemma concat_chunks: "concat (chunks s) = s"
  by (induction s) (auto split: list.split)

lemma chunks_Nil_iff [simp]: "chunks s = [] \<longleftrightarrow> s = []"
  by (cases s) (auto split: list.split)

lemma ends_with_newline: "ends_with s [newline] \<longleftrightarrow> s \<noteq> [] \<and> last s = newline"
  by (cases s rule: rev_cases) (auto simp: ends_with_iff)

text \<open>Chunks that end in a newline stay chunks whatever follows them.\<close>

lemma chunks_prefix:
  "chunks s = xs @ ys \<Longrightarrow> (xs \<noteq> [] \<Longrightarrow> ends_with (last xs) [newline]) \<Longrightarrow> chunks (concat xs @ t) = xs @ chunks t"
proof (induction s arbitrary: xs ys)
  case (Cons c s)
  show ?case
  proof (cases xs)
    case (Cons x xs')
    show ?thesis
    proof (cases "c = newline")
      case True
      then show ?thesis using Cons.IH [of xs' ys] Cons.prems Cons by (cases "xs' = []") auto
    next
      case False
      obtain y zs where y: "chunks s = y # zs"
        using False Cons.prems Cons by (cases "chunks s") (auto simp: ends_with_newline)
      then have "x = c # y" "zs = xs' @ ys" using False Cons.prems(1) Cons by simp_all
      then show ?thesis
        using Cons.IH [of "y # xs'" ys] Cons.prems(2) y False Cons
        by (auto simp: ends_with_newline split: if_splits)
    qed
  qed simp
qed simp

fun with_offsets :: "u64 \<Rightarrow> string list \<Rightarrow> (string \<times> u64) list" where
  "with_offsets offset [] = []"
| "with_offsets offset (buf # rest) =
     (trim_line buf, offset) # with_offsets (offset + of_nat (length buf)) rest"

text \<open>Why a read loop stopped before the chunks \<open>rest\<close>.\<close>

fun stops_at :: "bool \<Rightarrow> string list \<Rightarrow> bool" where
  "stops_at err [] \<longleftrightarrow> \<not> err"
| "stops_at err (x # xs) \<longleftrightarrow> (if err then \<not> utf8_valid x else utf8_valid x \<and> \<not> ends_with x [newline])"

lemma read_loop_shape:
  assumes "read_loop offset cs = (ls, end, err)"
  shows "\<exists>done rest. cs = done @ rest \<and> ls = with_offsets offset done \<and>
    end = offset + of_nat (length (concat done)) \<and>
    list_all (\<lambda>x. utf8_valid x \<and> ends_with x [newline]) done \<and> stops_at err rest"
  using assms
proof (induction offset cs arbitrary: ls "end" err rule: read_loop.induct)
  case (2 offset buf rest)
  show ?case
  proof (cases "utf8_valid buf \<and> ends_with buf [newline]")
    case True
    then obtain ls' where r: "read_loop (offset + of_nat (length buf)) rest = (ls', end, err)"
      "ls = (trim_line buf, offset) # ls'"
      using 2(2) by (auto simp: Let_def split: prod.splits)
    obtain "done" rest' where d: "rest = done @ rest'" "ls' = with_offsets (offset + of_nat (length buf)) done"
      "end = offset + of_nat (length buf) + of_nat (length (concat done))"
      "list_all (\<lambda>x. utf8_valid x \<and> ends_with x [newline]) done" "stops_at err rest'"
      using 2(1) [OF _ _ r(1)] True by blast
    show ?thesis
      by (rule exI [of _ "buf # done"], rule exI [of _ rest']) (use d r True in \<open>auto simp: add.assoc\<close>)
  next
    case False
    then show ?thesis
      by (intro exI [of _ "[]"] exI [of _ "buf # rest"]) (use 2(2) in \<open>auto split: if_splits\<close>)
  qed
qed auto

lemma read_loop_append:
  assumes "list_all (\<lambda>x. utf8_valid x \<and> ends_with x [newline]) done"
  shows "read_loop offset (done @ rest) =
    (let (ls, end, err) = read_loop (offset + of_nat (length (concat done))) rest
     in (with_offsets offset done @ ls, end, err))"
  using assms by (induction "done" arbitrary: offset) (auto simp: Let_def add.assoc split: prod.split)

lemma read_loop_stopped: "stops_at False rest \<Longrightarrow> read_loop offset rest = ([], offset, False)"
  by (cases rest) auto

text \<open>
  Reading on from where a drain stopped is reading from the start: with the bytes \<open>t\<close> appended, the
  lines of the second read follow those of the first.
\<close>

lemma read_loop_grows:
  assumes "read_loop offset (chunks s) = (ls, end, False)"
  shows "\<exists>k \<le> length s. end = offset + of_nat k \<and> read_loop offset (chunks (s @ t)) =
    (let (ls', end', err) = read_loop end (chunks (drop k s @ t)) in (ls @ ls', end', err))"
proof -
  obtain "done" rest where d: "chunks s = done @ rest" "ls = with_offsets offset done"
    "end = offset + of_nat (length (concat done))"
    "list_all (\<lambda>x. utf8_valid x \<and> ends_with x [newline]) done"
    using read_loop_shape [OF assms] by blast
  have s: "s = concat done @ concat rest" using concat_chunks [of s] d(1) by simp
  have "chunks (concat done @ concat rest @ t) = done @ chunks (concat rest @ t)"
    using d(4) by (intro chunks_prefix [OF d(1)]) (auto simp: list_all_iff)
  then show ?thesis
    using d s by (intro exI [of _ "length (concat done)"]) (simp add: read_loop_append)
qed

section \<open>What a buffer stores\<close>

text \<open>The rows a line or a burst asks the store for, independent of what it holds.\<close>

type_synonym insert_request = "string \<times> (string \<times> string \<times> string \<times> string \<times> string \<times> u64)"

definition event_request :: "platform \<Rightarrow> string \<Rightarrow> string \<Rightarrow> string \<Rightarrow> u64 \<Rightarrow> game_event \<Rightarrow> insert_request" where
  "event_request pf log_source keyed line offset e =
     (idempotency_key pf log_source offset keyed,
      (event_type_key e, timestamp_of e, line, pf_to_json pf e, log_source, offset))"

definition line_event :: "regex_engine \<Rightarrow> compiled_remote_rule list \<Rightarrow> string \<Rightarrow> game_event option" where
  "line_event rx rules line =
     (case structural_parse rx line of
        Ret (Some l) \<Rightarrow>
          (case classify rx l of
             Ret (Some e) \<Rightarrow> Some e
           | Ret None \<Rightarrow> apply_remote_rules rx l rules
           | Panic \<Rightarrow> None)
      | _ \<Rightarrow> None)"

definition line_requests ::
    "platform \<Rightarrow> string \<Rightarrow> compiled_remote_rule list \<Rightarrow> string \<times> u64 \<Rightarrow> insert_request list" where
  "line_requests pf log_source rules entry =
     (case line_event (pf_rx pf) rules (fst entry) of
        None \<Rightarrow> []
      | Some e \<Rightarrow> [event_request pf log_source (fst entry) (fst entry) (snd entry) e])"

definition parses :: "regex_engine \<Rightarrow> (string \<times> u64) list \<Rightarrow> log_line option list" where
  "parses rx buffer = map (\<lambda>(line, _). case structural_parse rx line of Ret p \<Rightarrow> p | Panic \<Rightarrow> None) buffer"

definition buffer_bursts :: "regex_engine \<Rightarrow> burst_rule list \<Rightarrow> (string \<times> u64) list \<Rightarrow> burst_hit list" where
  "buffer_bursts rx burst_rules buffer = detect_bursts (map snd (valid_subset (parses rx buffer))) burst_rules"

definition suppressed :: "regex_engine \<Rightarrow> burst_rule list \<Rightarrow> (string \<times> u64) list \<Rightarrow> nat set" where
  "suppressed rx burst_rules buffer =
     (\<lambda>i. fst (valid_subset (parses rx buffer) ! i)) ` set (claimed (buffer_bursts rx burst_rules buffer))"

definition burst_request :: "platform \<Rightarrow> string \<Rightarrow> (string \<times> u64) list \<Rightarrow> burst_hit \<Rightarrow> insert_request" where
  "burst_request pf log_source buffer b =
     (let valid = valid_subset (parses (pf_rx pf) buffer);
          (i, anchor_log) = valid ! bh_start_index b;
          (line, offset) = buffer ! i
      in event_request pf log_source (synthetic_line line b) line offset
           (burst_summary_of b anchor_log (snd (valid ! bh_end_index b))))"

definition kept_lines :: "regex_engine \<Rightarrow> burst_rule list \<Rightarrow> (string \<times> u64) list \<Rightarrow> (string \<times> u64) list" where
  "kept_lines rx burst_rules buffer =
     map snd (filter (\<lambda>(i, entry). i \<notin> suppressed rx burst_rules buffer) (enumerate 0 buffer))"

definition buffer_requests ::
    "platform \<Rightarrow> string \<Rightarrow> compiled_remote_rule list \<Rightarrow> burst_rule list \<Rightarrow> (string \<times> u64) list \<Rightarrow> insert_request list" where
  "buffer_requests pf log_source rules burst_rules buffer =
     map (burst_request pf log_source buffer) (buffer_bursts (pf_rx pf) burst_rules buffer) @
     concat (map (line_requests pf log_source rules) (kept_lines (pf_rx pf) burst_rules buffer))"

text \<open>The part of the store that holds events.\<close>

abbreviation ev_view :: "storage \<Rightarrow> event_row list \<times> int" where
  "ev_view st \<equiv> (s_events st, s_next_id st)"

abbreviation store :: "insert_request list \<Rightarrow> storage \<Rightarrow> storage" where
  "store \<equiv> local_events.put_all"

lemma ev_view_put: "ev_view a = ev_view b \<Longrightarrow> ev_view (put_event k v a) = ev_view (put_event k v b)"
  by (cases v) (simp add: put_event_def insert_event_def)

lemma ev_view_store: "ev_view a = ev_view b \<Longrightarrow> ev_view (store rs a) = ev_view (store rs b)"
proof (induction rs arbitrary: a b)
  case (Cons r rs)
  obtain k v where r: "r = (k, v)" by (cases r)
  show ?case unfolding r local_events.put_all_simps by (rule Cons.IH) (rule ev_view_put [OF Cons.prems])
qed (simp only: local_events.put_all_simps)

lemma store_append: "store (rs @ rs') st = store rs' (store rs st)"
  by (simp add: local_events.put_all_def)

lemma record_unknown_view: "ev_view (record_unknown src n l b now st) = ev_view st"
  by (simp add: record_unknown_def Let_def)

lemma ingest_view:
  assumes "ingest_one_line pf src rules line off st = Ret (out, st')"
  shows "ev_view st' = ev_view (store (line_requests pf src rules (line, off)) st)"
proof -
  obtain pl where pl: "structural_parse (pf_rx pf) line = Ret pl"
    using assms by (auto simp: ingest_one_line_def outcome_simps)
  show ?thesis
  proof (cases pl)
    case (Some l)
    obtain ev where c: "classify (pf_rx pf) l = Ret ev"
      using assms pl Some by (auto simp: ingest_one_line_def outcome_simps)
    have ev: "line_event (pf_rx pf) rules line = (case ev of Some e \<Rightarrow> Some e | None \<Rightarrow> apply_remote_rules (pf_rx pf) l rules)"
      using pl Some c by (simp add: line_event_def split: option.split)
    show ?thesis
    proof (cases "line_event (pf_rx pf) rules line")
      case None
      then show ?thesis
        using assms pl Some c ev record_unknown_view
        by (auto simp: ingest_one_line_def line_requests_def split: option.splits if_splits)
    next
      case (Some e)
      then show ?thesis
        using assms pl \<open>pl = Some l\<close> c ev
        by (auto simp: ingest_one_line_def line_requests_def serialise_event_def event_request_def put_event_def
            split: option.splits)
    qed
  qed (use assms pl in \<open>auto simp: ingest_one_line_def line_requests_def line_event_def\<close>)
qed

lemma omap_Ret: "omap f xs = Ret ys \<longleftrightarrow> list_all2 (\<lambda>x y. f x = Ret y) xs ys"
  by (induction xs arbitrary: ys) (auto simp: outcome_simps list_all2_Cons1)

lemma process_line_Ret:
  "process_line pf src rules entry s = Ret (st', stats') \<longleftrightarrow>
     (\<exists>out. ingest_one_line pf src rules (fst entry) (snd entry) (fst s) = Ret (out, st') \<and>
        stats' = count_outcome out (snd s))"
  by (auto simp: process_line_def outcome_simps)

lemma ofold_process_view:
  assumes "ofold (\<lambda>(i, entry). process_line pf src rules entry) es (st, stats) = Ret (st', stats')"
  shows "ev_view st' = ev_view (store (concat (map (line_requests pf src rules) (map snd es))) st)"
  using assms
proof (induction es arbitrary: st stats)
  case (Cons e es)
  obtain i entry where e: "e = (i, entry)" by (cases e)
  obtain out st1 where o1: "ingest_one_line pf src rules (fst entry) (snd entry) st = Ret (out, st1)"
    and o2: "ofold (\<lambda>(i, entry). process_line pf src rules entry) es (st1, count_outcome out stats) = Ret (st', stats')"
    using Cons.prems by (auto simp: e process_line_Ret outcome_simps)
  have "ev_view st' = ev_view (store (concat (map (line_requests pf src rules) (map snd es))) st1)"
    by (rule Cons.IH [OF o2])
  also have "\<dots> = ev_view (store (concat (map (line_requests pf src rules) (map snd es)))
      (store (line_requests pf src rules entry) st))"
    using ingest_view [OF o1] by (intro ev_view_store) simp
  finally show ?case by (simp add: e store_append)
qed simp

lemma emit_burst_Ret:
  assumes "emit_burst pf src buffer (valid_subset (parses (pf_rx pf) buffer)) b (st, stats) = Ret (st', stats')"
  shows "st' = store [burst_request pf src buffer b] st"
  using assms
  by (auto simp: emit_burst_def idx_def outcome_simps serialise_event_def burst_request_def event_request_def
      put_event_def Let_def split: if_splits prod.splits)

lemma ofold_bursts_view:
  assumes "ofold (emit_burst pf src buffer (valid_subset (parses (pf_rx pf) buffer))) bs (st, stats) = Ret (st', stats')"
  shows "st' = store (map (burst_request pf src buffer) bs) st"
  using assms
proof (induction bs arbitrary: st stats)
  case (Cons b bs)
  obtain st1 stats1 where o1: "emit_burst pf src buffer (valid_subset (parses (pf_rx pf) buffer)) b (st, stats) = Ret (st1, stats1)"
    and o2: "ofold (emit_burst pf src buffer (valid_subset (parses (pf_rx pf) buffer))) bs (st1, stats1) = Ret (st', stats')"
    using Cons.prems by (auto simp: outcome_simps)
  have "st' = store (map (burst_request pf src buffer) bs) (store [burst_request pf src buffer b] st)"
    unfolding emit_burst_Ret [OF o1, symmetric] by (rule Cons.IH [OF o2])
  also have "\<dots> = store ([burst_request pf src buffer b] @ map (burst_request pf src buffer) bs) st"
    by (rule store_append [symmetric])
  finally show ?case by simp
qed simp

lemma omap_idx: "omap (\<lambda>i. obind (idx xs i) (\<lambda>v. Ret (f v))) is = Ret ys \<Longrightarrow> ys = map (\<lambda>i. f (xs ! i)) is"
  by (induction "is" arbitrary: ys) (auto simp: outcome_simps idx_def split: if_splits)

lemma omap_parses:
  assumes "omap (\<lambda>(line, _). structural_parse rx line) buffer = Ret ps"
  shows "ps = parses rx buffer"
  using assms by (induction buffer arbitrary: ps) (auto simp: parses_def outcome_simps)

text \<open>The three passes over a buffer, once no call panics.\<close>

lemma process_buffer_passes:
  assumes "process_buffer pf src rules brs buffer s = Ret s'"
  shows "\<exists>s1. ofold (emit_burst pf src buffer (valid_subset (parses (pf_rx pf) buffer)))
      (buffer_bursts (pf_rx pf) brs buffer) s = Ret s1 \<and>
    ofold (\<lambda>(i, entry). process_line pf src rules entry)
      (filter (\<lambda>(i, entry). i \<notin> suppressed (pf_rx pf) brs buffer) (enumerate 0 buffer)) s1 = Ret s'"
proof -
  obtain ps sup s1 where p: "omap (\<lambda>(line, _). structural_parse (pf_rx pf) line) buffer = Ret ps"
    "omap (\<lambda>i. obind (idx (valid_subset ps) i) (\<lambda>v. Ret (fst v)))
       (claimed (detect_bursts (map snd (valid_subset ps)) brs)) = Ret sup"
    "ofold (emit_burst pf src buffer (valid_subset ps)) (detect_bursts (map snd (valid_subset ps)) brs) s = Ret s1"
    "ofold (\<lambda>(i, entry). process_line pf src rules entry)
      (filter (\<lambda>(i, entry). i \<notin> set sup) (enumerate 0 buffer)) s1 = Ret s'"
    using assms by (auto simp: process_buffer_def Let_def outcome_simps)
  have ps: "ps = parses (pf_rx pf) buffer" using p(1) by (rule omap_parses)
  have "set sup = suppressed (pf_rx pf) brs buffer"
    using omap_idx [OF p(2)] by (simp add: suppressed_def buffer_bursts_def ps)
  then show ?thesis using p(3,4) by (intro exI [of _ s1]) (simp add: ps buffer_bursts_def)
qed

lemma process_buffer_view:
  assumes "process_buffer pf src rules brs buffer (st, stats) = Ret (st', stats')"
  shows "ev_view st' = ev_view (store (buffer_requests pf src rules brs buffer) st)"
proof -
  obtain st1 stats1 where p1: "ofold (emit_burst pf src buffer (valid_subset (parses (pf_rx pf) buffer)))
      (buffer_bursts (pf_rx pf) brs buffer) (st, stats) = Ret (st1, stats1)"
    and p2: "ofold (\<lambda>(i, entry). process_line pf src rules entry)
      (filter (\<lambda>(i, entry). i \<notin> suppressed (pf_rx pf) brs buffer) (enumerate 0 buffer)) (st1, stats1) = Ret (st', stats')"
    using process_buffer_passes [OF assms] by auto
  show ?thesis
    unfolding buffer_requests_def kept_lines_def store_append ofold_bursts_view [OF p1, symmetric]
    by (rule ofold_process_view [OF p2])
qed

section \<open>No panic\<close>

lemma omap_no_panic: "(\<And>x. x \<in> set xs \<Longrightarrow> f x \<noteq> Panic) \<Longrightarrow> omap f xs \<noteq> Panic"
proof (induction xs)
  case (Cons x xs)
  then have "f x \<noteq> Panic" "omap f xs \<noteq> Panic" by auto
  then show ?case by (simp add: outcome_simps)
qed simp

lemma ofold_no_panic: "(\<And>x s. x \<in> set xs \<Longrightarrow> f x s \<noteq> Panic) \<Longrightarrow> ofold f xs s \<noteq> Panic"
proof (induction xs arbitrary: s)
  case (Cons x xs)
  have "f x s \<noteq> Panic" using Cons.prems by simp
  moreover have "ofold f xs t \<noteq> Panic" for t using Cons by simp
  ultimately show ?case by (simp add: outcome_simps)
qed simp

lemma ingest_no_panic:
  assumes "tag_tail_is_suffix (pf_rx pf)" and "groups_present (pf_rx pf)"
  shows "ingest_one_line pf src rules line off st \<noteq> Panic"
  using structural_parse_no_panic [OF assms(1), of line] classify_not_Panic [OF assms(2)]
  by (auto simp: ingest_one_line_def serialise_event_def outcome_simps split: option.splits)

lemma valid_subset_index:
  assumes "v \<in> set (valid_subset ps)"
  shows "fst v < length ps \<and> ps ! fst v = Some (snd v)"
  using assms by (auto simp: valid_subset_def List.map_filter_def in_set_enumerate_eq)

lemma process_buffer_no_panic:
  assumes "tag_tail_is_suffix (pf_rx pf)" and "groups_present (pf_rx pf)"
  shows "process_buffer pf src rules brs buffer s \<noteq> Panic"
proof -
  have p: "omap (\<lambda>(line, _). structural_parse (pf_rx pf) line) buffer \<noteq> Panic"
    using structural_parse_no_panic [OF assms(1)] by (intro omap_no_panic) auto
  then obtain ps where ps: "omap (\<lambda>(line, _). structural_parse (pf_rx pf) line) buffer = Ret ps"
    by (cases "omap (\<lambda>(line, _). structural_parse (pf_rx pf) line) buffer") auto
  let ?v = "valid_subset ps" and ?bs = "detect_bursts (map snd (valid_subset ps)) brs"
  have len: "length ps = length buffer" using omap_parses [OF ps] by (simp add: parses_def)
  have b: "bh_start_index b < length ?v \<and> bh_end_index b < length ?v \<and> set (bh_member_indices b) \<subseteq> {..< length ?v}"
    if "b \<in> set ?bs" for b
    using detect_bursts_in_range [OF that] by simp
  have 1: "omap (\<lambda>i. obind (idx ?v i) (\<lambda>v. Ret (fst v))) (claimed ?bs) \<noteq> Panic"
    using b by (intro omap_no_panic) (fastforce simp: idx_def)
  have 2: "ofold (emit_burst pf src buffer ?v) ?bs s \<noteq> Panic" for s
  proof (rule ofold_no_panic)
    fix b s assume "b \<in> set ?bs"
    then have r: "bh_start_index b < length ?v" "bh_end_index b < length ?v" using b by auto
    have "fst (?v ! bh_start_index b) < length buffer"
      using valid_subset_index [OF nth_mem [OF r(1)]] len by simp
    then show "emit_burst pf src buffer ?v b s \<noteq> Panic"
      using r by (auto simp: emit_burst_def idx_def serialise_event_def split: prod.splits)
  qed
  have 3: "ofold (\<lambda>(i :: nat, entry). process_line pf src rules entry) es s \<noteq> Panic" for es s
    using ingest_no_panic [OF assms] by (intro ofold_no_panic) (auto simp: process_line_def outcome_simps)
  show ?thesis
    using ps 1 2 3 by (simp add: process_buffer_def Let_def outcome_simps)
qed

lemma drain_no_panic:
  assumes "tag_tail_is_suffix (pf_rx pf)" and "groups_present (pf_rx pf)"
  shows "drain pf path path_str rules file td \<noteq> Panic"
  using process_buffer_no_panic [OF assms]
  by (auto simp: drain_def Let_def outcome_simps split: open_result.split prod.splits)

section \<open>The tail over a growing file\<close>

text \<open>The lines of a file, complete ones only, each with its byte offset.\<close>

definition complete_lines :: "string \<Rightarrow> (string \<times> u64) list" where
  "complete_lines content = fst (read_loop 0 (chunks content))"

definition readable :: "string \<Rightarrow> bool" where
  "readable content \<longleftrightarrow> length content < 2 ^ 64 \<and> list_all utf8_valid (chunks content)"

fun grows :: "string list \<Rightarrow> bool" where
  "grows (a # b # cs) \<longleftrightarrow> prefix a b \<and> grows (b # cs)"
| "grows _ \<longleftrightarrow> True"

text \<open>Drains one after another, each seeing the file as it is then.\<close>

definition drains ::
    "platform \<Rightarrow> string list \<Rightarrow> string \<Rightarrow> compiled_remote_rule list \<Rightarrow> string list \<Rightarrow> tail_state \<Rightarrow> tail_state outcome" where
  "drains pf path path_str rules contents td =
     ofold (\<lambda>c td. obind (drain pf path path_str rules (Opened c) td) (\<lambda>(err, td). Ret td)) contents td"

lemma read_loop_readable:
  assumes "list_all utf8_valid cs"
  shows "\<not> snd (snd (read_loop offset cs))"
  using assms by (induction offset cs rule: read_loop.induct) (auto simp: Let_def split: prod.split)

text \<open>The state of a tail that has delivered the complete lines of \<open>c\<close> in the batches \<open>bs\<close>.\<close>

definition tailed ::
    "platform \<Rightarrow> string \<Rightarrow> compiled_remote_rule list \<Rightarrow> tail_state \<Rightarrow> string \<Rightarrow> (string \<times> u64) list list \<Rightarrow> tail_state \<Rightarrow> bool" where
  "tailed pf src rules td0 c bs td \<longleftrightarrow>
     concat bs = complete_lines c \<and>
     unat (td_offset td) \<le> length c \<and>
     read_loop 0 (chunks c) = (complete_lines c, td_offset td, False) \<and>
     ev_view (td_storage td) =
       ev_view (store (concat (map (buffer_requests pf src rules builtin_burst_rules) bs)) (td_storage td0)) \<and>
     tl_lines_processed (td_stats td) = tl_lines_processed (td_stats td0) + of_nat (length (complete_lines c))"

lemma ofold_preserves:
  assumes "\<And>x s s'. f x s = Ret s' \<Longrightarrow> g s' = g s" and "ofold f xs s = Ret s'"
  shows "g s' = g s"
  using assms(2) by (induction xs arbitrary: s) (auto simp: outcome_simps assms(1))

lemma count_outcome_lines [simp]: "tl_lines_processed (count_outcome out s) = tl_lines_processed s"
  by (cases out) (simp_all add: count_event_def)

lemma process_buffer_lines:
  assumes "process_buffer pf src rules brs buffer s = Ret s'"
  shows "tl_lines_processed (snd s') = tl_lines_processed (snd s)"
proof -
  let ?g = "\<lambda>s :: storage \<times> tail_stats. tl_lines_processed (snd s)"
  have 1: "?g t' = ?g t" if "emit_burst pf src buffer valid b t = Ret t'" for valid b t t'
    using that by (auto simp: emit_burst_def serialise_event_def count_event_def outcome_simps)
  have 2: "?g t' = ?g t" if "(case e of (i :: nat, entry) \<Rightarrow> process_line pf src rules entry) t = Ret t'" for e t t'
    using that by (cases t'; cases e) (auto simp: process_line_Ret)
  obtain s1 where "ofold (emit_burst pf src buffer (valid_subset (parses (pf_rx pf) buffer)))
      (buffer_bursts (pf_rx pf) brs buffer) s = Ret s1"
    "ofold (\<lambda>(i, entry). process_line pf src rules entry)
      (filter (\<lambda>(i, entry). i \<notin> suppressed (pf_rx pf) brs buffer) (enumerate 0 buffer)) s1 = Ret s'"
    using process_buffer_passes [OF assms] by blast
  from ofold_preserves [where g = ?g, OF 1 this(1)] ofold_preserves [where g = ?g, OF 2 this(2)]
  show ?thesis by simp
qed

lemma unat_small: "n < 2 ^ 64 \<Longrightarrow> unat (of_nat n :: u64) = n"
  by (simp add: unsigned_of_nat take_bit_nat_eq_self)

text \<open>One drain that finds new bytes.\<close>

lemma drain_Opened:
  assumes "drain pf path path_str rules (Opened c) td = Ret (err, td')"
    and "unat (td_offset td) < length c" and "length c < 2 ^ 64"
    and "read_loop (td_offset td) (chunks (drop (unat (td_offset td)) c)) = (ls, end, False)"
  shows "\<not> err \<and> td_offset td' = end \<and>
    ev_view (td_storage td') =
      ev_view (store (if ls = [] then [] else buffer_requests pf (log_source_from_path path) rules builtin_burst_rules ls)
        (td_storage td)) \<and>
    tl_lines_processed (td_stats td') = tl_lines_processed (td_stats td) + of_nat (length ls)"
proof -
  have len: "\<not> of_nat (length c) < td_offset td" "of_nat (length c) \<noteq> td_offset td"
    using assms(2,3) unat_small [of "length c"] by (auto simp: word_less_nat_alt)
  show ?thesis
  proof (cases "ls = []")
    case True
    then show ?thesis using assms(1,4) len by (auto simp: drain_def Let_def write_cursor_def)
  next
    case False
    obtain st stats where p: "process_buffer pf (log_source_from_path path) rules builtin_burst_rules ls
        (td_storage td, td_stats td) = Ret (st, stats)"
      and td': "td' = td\<lparr>td_offset := end, td_storage := write_cursor path_str end st,
        td_stats := stats\<lparr>tl_bytes_read := end, tl_lines_processed := tl_lines_processed stats + of_nat (length ls)\<rparr>\<rparr>"
      and "\<not> err"
      using assms(1,4) len False by (auto simp: drain_def Let_def outcome_simps)
    show ?thesis
      using process_buffer_view [OF p] process_buffer_lines [OF p] False \<open>\<not> err\<close>
      by (simp add: td' write_cursor_def)
  qed
qed

lemma tailed_offset:
  assumes "read_loop 0 (chunks c) = (ls, end, False)" and "length c < 2 ^ 64"
  shows "unat end \<le> length c \<and> read_loop 0 (chunks (c @ t)) =
    (let (ls', end', err) = read_loop end (chunks (drop (unat end) (c @ t))) in (ls @ ls', end', err))"
proof -
  obtain k where k: "k \<le> length c" "end = of_nat k"
    "read_loop 0 (chunks (c @ t)) =
      (let (ls', end', err) = read_loop end (chunks (drop k c @ t)) in (ls @ ls', end', err))"
    using read_loop_grows [OF assms(1), of t] by auto
  then have "unat end = k" using assms(2) unat_small [of k] by simp
  then show ?thesis using k by simp
qed

lemma tailed_step:
  assumes t: "tailed pf (log_source_from_path path) rules td0 c bs td" and "prefix c c'" and "readable c'"
    and d: "drain pf path path_str rules (Opened c') td = Ret (err, td')"
  shows "\<not> err \<and> (\<exists>bs'. tailed pf (log_source_from_path path) rules td0 c' bs' td')"
proof -
  obtain t where c': "c' = c @ t" using assms(2) by (auto simp: prefix_def)
  have small: "length c' < 2 ^ 64" "length c < 2 ^ 64" using assms(3) c' by (auto simp: readable_def)
  let ?k = "unat (td_offset td)" and ?req = "buffer_requests pf (log_source_from_path path) rules builtin_burst_rules"
  have r0: "read_loop 0 (chunks c) = (complete_lines c, td_offset td, False)" using t by (simp add: tailed_def)
  obtain ls "end" e where rl: "read_loop (td_offset td) (chunks (drop ?k c')) = (ls, end, e)" by (metis surj_pair)
  then have r1: "read_loop 0 (chunks c') = (complete_lines c @ ls, end, e)"
    using tailed_offset [OF r0 small(2), of t] c' by simp
  then have "\<not> e" using read_loop_readable [of "chunks c'" 0] assms(3) by (simp add: readable_def)
  then have r2: "read_loop 0 (chunks c') = (complete_lines c', end, False)" and cl: "complete_lines c' = complete_lines c @ ls"
    using r1 by (simp_all add: complete_lines_def)
  have le: "unat end \<le> length c'" using tailed_offset [OF r2 small(1), of "[]"] by simp
  have k: "?k \<le> length c" using t by (simp add: tailed_def)
  show ?thesis
  proof (cases "?k = length c'")
    case True
    then have "of_nat (length c') = td_offset td" by (metis of_nat_unat ucast_id)
    then have td': "td' = td" "\<not> err" using d by (auto simp: drain_def Let_def)
    moreover have "ls = []" "end = td_offset td" using rl True \<open>\<not> e\<close> by auto
    ultimately show ?thesis using t r2 cl le by (intro conjI exI [of _ bs]) (auto simp: tailed_def)
  next
    case False
    then have "?k < length c'" using k c' by simp
    from drain_Opened [OF d this small(1)] rl \<open>\<not> e\<close>
    have dd: "\<not> err" "td_offset td' = end"
      "ev_view (td_storage td') = ev_view (store (if ls = [] then [] else ?req ls) (td_storage td))"
      "tl_lines_processed (td_stats td') = tl_lines_processed (td_stats td) + of_nat (length ls)" by auto
    let ?bs = "if ls = [] then bs else bs @ [ls]"
    have "ev_view (td_storage td') =
        ev_view (store (if ls = [] then [] else ?req ls) (store (concat (map ?req bs)) (td_storage td0)))"
      unfolding dd(3) by (rule ev_view_store) (use t in \<open>simp add: tailed_def\<close>)
    also have "\<dots> = ev_view (store (concat (map ?req ?bs)) (td_storage td0))"
      by (simp add: store_append)
    finally show ?thesis
      using dd t r2 cl le by (intro conjI exI [of _ ?bs]) (auto simp: tailed_def)
  qed
qed

lemma drains_tailed:
  assumes "drains pf path path_str rules contents td = Ret td'"
    and "tailed pf (log_source_from_path path) rules td0 c bs td"
    and "grows (c # contents)" and "list_all readable contents"
  shows "\<exists>bs'. tailed pf (log_source_from_path path) rules td0 (last (c # contents)) bs' td'"
  using assms
proof (induction contents arbitrary: c bs td)
  case (Cons c' contents)
  obtain err td1 where d: "drain pf path path_str rules (Opened c') td = Ret (err, td1)"
    and ds: "drains pf path path_str rules contents td1 = Ret td'"
    using Cons.prems(1) by (auto simp: drains_def outcome_simps)
  obtain bs1 where "tailed pf (log_source_from_path path) rules td0 c' bs1 td1"
    using tailed_step [OF Cons.prems(2) _ _ d] Cons.prems(3,4) by auto
  from Cons.IH [OF ds this] show ?case using Cons.prems(3,4) by simp
qed (auto simp: drains_def)

lemma tailed_start: "td_offset td = 0 \<Longrightarrow> tailed pf src rules td [] [] td"
  by (simp add: tailed_def complete_lines_def)

section \<open>Properties\<close>

text \<open>
  C5. The tail delivers every complete line exactly once: while the file only grows and its text is
  well formed, any number of drains at any points hand the burst matcher and the classifier a
  sequence of batches that concatenates to the complete lines of the file, each with its own byte
  offset; the events stored are those batches' and nothing else, and the line counter agrees.
\<close>

theorem tail_delivers_each_line_once:
  assumes "drains pf path path_str rules contents td = Ret td'" and "td_offset td = 0"
    and "grows contents" and "list_all readable contents" and "contents \<noteq> []"
  shows "\<exists>batches. concat batches = complete_lines (last contents) \<and>
    s_events (td_storage td') =
      s_events (store (concat (map (buffer_requests pf (log_source_from_path path) rules builtin_burst_rules) batches))
        (td_storage td)) \<and>
    tl_lines_processed (td_stats td') =
      tl_lines_processed (td_stats td) + of_nat (length (complete_lines (last contents)))"
proof -
  have "grows ([] # contents)" using assms(3) by (cases contents) auto
  from drains_tailed [OF assms(1) tailed_start [OF assms(2)] this assms(4)]
  show ?thesis using assms(5) by (auto simp: tailed_def)
qed

text \<open>
  Tailing the same lines again stores nothing new: once a buffer was processed, processing it a
  second time (after a crash before the cursor was written) leaves the events as they are.
\<close>

theorem retail_is_idempotent:
  assumes "process_buffer pf src rules brs buffer (st, stats) = Ret (st1, stats1)"
    and "process_buffer pf src rules brs buffer (st1, stats2) = Ret (st2, stats3)"
  shows "s_events st2 = s_events st1"
proof -
  let ?rs = "buffer_requests pf src rules brs buffer"
  have "ev_view st2 = ev_view (store ?rs st1)" by (rule process_buffer_view [OF assms(2)])
  also have "\<dots> = ev_view (store ?rs (store ?rs st))"
    by (rule ev_view_store) (rule process_buffer_view [OF assms(1)])
  also have "\<dots> = ev_view (store ?rs st)" by (simp only: local_events.replay [OF order_refl])
  also have "\<dots> = ev_view st1" by (rule process_buffer_view [OF assms(1), symmetric])
  finally show ?thesis by simp
qed

text \<open>
  The tail never panics: with a tag pattern that matches at the end of its input and patterns that
  report their non-optional groups, a drain returns whatever the file holds.
\<close>

theorem drain_total:
  assumes "tag_tail_is_suffix (pf_rx pf)" and "groups_present (pf_rx pf)"
  shows "\<exists>err td'. drain pf path path_str rules file td = Ret (err, td')"
  using drain_no_panic [OF assms, where td = td]
  by (cases "drain pf path path_str rules file td") auto

text \<open>
  One line that is not UTF-8 stops the tail for good and loses the lines read with it: the drain
  fails, nothing of the batch is stored and the cursor is not written, yet the offset has moved
  past the lines before the bad one; every later drain of the grown file fails again at the same
  place.
\<close>

theorem bad_utf8_line_wedges_tail:
  assumes "\<not> utf8_valid bad" and "ends_with bad [newline]" and "chunks (drop (unat (td_offset td)) c) = good @ bad # rest"
    and "list_all (\<lambda>x. utf8_valid x \<and> ends_with x [newline]) good"
    and "unat (td_offset td) < length c" and "length (c @ later) < 2 ^ 64"
  shows "drain pf path path_str rules (Opened c) td =
      Ret (True, td\<lparr>td_offset := td_offset td + of_nat (length (concat good))\<rparr>) \<and>
    drain pf path path_str rules (Opened (c @ later)) (td\<lparr>td_offset := td_offset td + of_nat (length (concat good))\<rparr>) =
      Ret (True, td\<lparr>td_offset := td_offset td + of_nat (length (concat good))\<rparr>)"
proof -
  let ?k = "unat (td_offset td)" and ?g = "length (concat good)"
  have s: "drop ?k c = concat good @ concat (bad # rest)" using concat_chunks [of "drop ?k c"] assms(3) by simp
  have l: "length (concat good) + length bad \<le> length (drop ?k c)" unfolding s by simp
  have "bad \<noteq> []" using assms(2) by (auto simp: ends_with_newline)
  then have k: "?k + ?g < length c" using l assms(5) by (cases bad) auto
  have u: "unat (td_offset td + of_nat ?g) = ?k + ?g"
    using k assms(6) by (simp add: unat_word_ariths unat_small)
  have r: "read_loop (td_offset td) (chunks (drop ?k c)) = ([] @ with_offsets (td_offset td) good, td_offset td + of_nat ?g, True)"
    using assms(1) by (simp add: assms(3) read_loop_append [OF assms(4)])
  have "chunks (drop (?k + ?g) c @ later) = bad # chunks (concat rest @ later)"
  proof -
    have "drop (?k + ?g) c = concat [bad] @ concat rest"
      using s by (metis append_eq_conv_conj concat.simps drop_drop add.commute append.right_neutral)
    moreover have "chunks (concat (good @ [bad]) @ concat rest @ later) = (good @ [bad]) @ chunks (concat rest @ later)"
      by (rule chunks_prefix [where s = "drop ?k c" and ys = rest]) (use assms(2,3) in auto)
    moreover have "chunks (concat good @ concat [bad] @ concat rest @ later) = good @ chunks (concat [bad] @ concat rest @ later)"
      by (rule chunks_prefix [where s = "drop ?k c" and ys = "bad # rest"]) (use assms(3,4) in \<open>auto simp: list_all_iff\<close>)
    ultimately show ?thesis by simp
  qed
  then have r': "read_loop (td_offset td + of_nat ?g) (chunks (drop (?k + ?g) (c @ later))) = ([], td_offset td + of_nat ?g, True)"
    using assms(1) k by simp
  have n: "unat (of_nat (length c) :: u64) = length c" "unat (of_nat (length (c @ later)) :: u64) = length (c @ later)"
    using assms(6) unat_small [of "length c"] unat_small [of "length (c @ later)"] by simp_all
  have 1: "drain pf path path_str rules (Opened c) td =
      Ret (True, td\<lparr>td_offset := td_offset td + of_nat ?g\<rparr>)"
    using r n(1) assms(5) by (auto simp: drain_def Let_def word_less_nat_alt)
  have "drain pf path path_str rules (Opened (c @ later)) (td\<lparr>td_offset := td_offset td + of_nat ?g\<rparr>) =
      Ret (True, td\<lparr>td_offset := td_offset td + of_nat ?g\<rparr>)"
    using r' n(2) k u by (auto simp: drain_def Let_def word_less_nat_alt)
  with 1 show ?thesis by blast
qed

lemma body_prefix_not_stowed: "emits (\<lambda>e. \<forall>v. e \<noteq> VehicleStowed v) (classify_body_prefix rx ts body)"
  unfolding classify_body_prefix_def Let_def by (intro emits_intros) simp_all

lemma other_arms_not_stowed:
  "emits (\<lambda>e. \<forall>v. e \<noteq> VehicleStowed v) (arm_hud_notification rx ts body)"
  "emits (\<lambda>e. \<forall>v. e \<noteq> VehicleStowed v) (arm_attachment_received rx ts body)"
  unfolding arm_hud_notification_def arm_attachment_received_def Let_def
  by (intro emits_intros; simp)+

text \<open>
  Stowed vehicles are never collapsed: no built-in burst rule, the one named for them included,
  matches a line that is classified as a stowed vehicle.
\<close>

theorem stowed_lines_match_no_burst_rule:
  assumes "classify rx line = Ret (Some (VehicleStowed v))" and "rule \<in> set builtin_burst_rules"
  shows "\<not> line_matches line (br_anchor rule) (br_tags rule) \<and> \<not> line_matches line (br_member rule) (br_tags rule)"
proof -
  have e: "emits (\<lambda>e. \<forall>v. e \<noteq> VehicleStowed v) (classify rx line)"
    if "l_event_name line \<in> Some ` {''AttachmentReceived'', ''StatObjLoad 0x800 Format'',
      ''SHUDEvent_OnNotification'', ''VehicleStowed''}"
    using that body_prefix_not_stowed other_arms_not_stowed by (auto simp: classify_def shell_arm_def)
  have "l_event_name line \<notin> Some ` {''AttachmentReceived'', ''StatObjLoad 0x800 Format'',
      ''SHUDEvent_OnNotification'', ''VehicleStowed''}"
    using e assms(1) by (auto simp: emits_def)
  then show ?thesis
    using assms(2) by (auto simp: builtin_burst_rules_def line_matches_def)
qed

section \<open>Keys\<close>

lemma nat_text_digits: "c \<in> set (nat_text n) \<Longrightarrow> c \<noteq> CHR '':''"
proof (induction n rule: nat_text.induct)
  case (1 n)
  have d: "char_of (48 + m) \<noteq> CHR '':''" if "m < 10" for m :: nat
  proof
    assume "char_of (48 + m) = CHR '':''"
    then have "of_char (char_of (48 + m) :: char) = (58 :: nat)" by simp
    then show False using that by (simp add: of_char_of)
  qed
  show ?case
    using 1 d [of n] d [of "n mod 10"] by (cases "n < 10") (auto simp: nat_text.simps [of n])
qed

lemma nat_text_inj: "nat_text m = nat_text n \<Longrightarrow> m = n"
proof (induction m arbitrary: n rule: nat_text.induct)
  case (1 m)
  have l: "nat_text k \<noteq> []" "[] \<noteq> nat_text k" for k by (simp_all add: nat_text.simps [of k])
  have c: "a = b" if "(char_of (48 + a) :: char) = char_of (48 + b)" "a < 10" "b < 10" for a b :: nat
    using arg_cong [OF that(1), of "of_char :: char \<Rightarrow> nat"] that(2,3) by (simp add: of_char_of)
  show ?case
  proof (cases "m < 10 \<or> n < 10")
    case True
    then show ?thesis
      using 1(2) l c by (auto simp: nat_text.simps [of m] nat_text.simps [of n] split: if_splits)
  next
    case False
    then have "nat_text (m div 10) = nat_text (n div 10)" "m mod 10 = n mod 10"
      using 1(2) c by (auto simp: nat_text.simps [of m] nat_text.simps [of n])
    then show ?thesis using 1(1) [of "n div 10"] False by (metis div_mod_decomp)
  qed
qed

lemma split_at_colon:
  assumes "a @ CHR '':'' # b = c @ CHR '':'' # d" and "CHR '':'' \<notin> set a" and "CHR '':'' \<notin> set c"
  shows "a = c \<and> b = d"
  using assms
proof (induction a arbitrary: c)
  case Nil
  then show ?case by (cases c) auto
next
  case (Cons x a)
  then show ?case by (cases c) auto
qed

text \<open>
  Two events share an idempotency seed only when they are the same line: the text hashed into the
  key determines the log source, the byte offset and the line.
\<close>

theorem key_payload_injective:
  "key_payload (log_source_from_path p) off line = key_payload (log_source_from_path p') off' line' \<longleftrightarrow>
     log_source_from_path p = log_source_from_path p' \<and> off = off' \<and> line = line'"
proof
  have src: "CHR '':'' \<notin> set (log_source_from_path q)" for q
    by (simp add: log_source_from_path_def Let_def)
  have num: "CHR '':'' \<notin> set (nat_text n)" for n using nat_text_digits by blast
  assume "key_payload (log_source_from_path p) off line = key_payload (log_source_from_path p') off' line'"
  then have "log_source_from_path p = log_source_from_path p'"
    "nat_text (unat off) @ CHR '':'' # line = nat_text (unat off') @ CHR '':'' # line'"
    using split_at_colon [OF _ src src] by (auto simp: key_payload_def)
  then show "log_source_from_path p = log_source_from_path p' \<and> off = off' \<and> line = line'"
    using split_at_colon [OF _ num num] nat_text_inj by (metis unsigned_word_eqI)
qed simp

section \<open>Concrete instances\<close>

definition quit_rx :: regex_engine where
  "quit_rx = no_match_rx\<lparr>rx_captures := (\<lambda>re s. if re = SHELL_RE
     then Some \<lparr>cap_whole = s, cap_name = [''ts'' \<mapsto> ''1T1:1'', ''event'' \<mapsto> ''SystemQuit''], cap_one = None\<rparr> else None)\<rparr>"

definition quit_pf :: platform where
  "quit_pf = \<lparr>pf_rx = quit_rx, pf_uuid5 = (\<lambda>s. s), pf_to_json = event_type_key, pf_now = ''now''\<rparr>"

definition zero_stats :: tail_stats where
  "zero_stats = \<lparr>tl_bytes_read = 0, tl_lines_processed = 0, tl_events_recognised = 0, tl_last_event_at = None,
     tl_last_event_type = None, tl_lines_structural_only = 0, tl_lines_skipped = 0, tl_lines_noise = 0\<rparr>"

definition fresh_tail :: tail_state where
  "fresh_tail = \<lparr>td_offset = 0, td_storage = empty_storage, td_stats = zero_stats\<rparr>"

lemma quit_rx_ok: "tag_tail_is_suffix (pf_rx quit_pf)" "groups_present (pf_rx quit_pf)"
  by (auto simp: tag_tail_is_suffix_def groups_present_def quit_pf_def quit_rx_def no_match_rx_def split: if_splits)

lemma drains_total:
  assumes "tag_tail_is_suffix (pf_rx pf)" and "groups_present (pf_rx pf)"
  shows "\<exists>td'. drains pf path path_str rules contents td = Ret td'"
proof -
  have "drains pf path path_str rules contents td \<noteq> Panic"
    unfolding drains_def using drain_no_panic [OF assms] by (intro ofold_no_panic) (auto simp: outcome_simps)
  then show ?thesis by (cases "drains pf path path_str rules contents td") auto
qed

theorem tail_delivers_each_line_once_witness:
  "\<exists>td' batches. drains quit_pf [''LIVE'', ''Game.log''] ''p'' [] [''a'', ''ab'' @ [newline] @ ''c''] fresh_tail = Ret td' \<and>
     concat batches = [(''ab'', 0 :: u64)] \<and> tl_lines_processed (td_stats td') = 1"
proof -
  let ?cs = "[''a'', ''ab'' @ [newline] @ ''c'']"
  obtain td' where d: "drains quit_pf [''LIVE'', ''Game.log''] ''p'' [] ?cs fresh_tail = Ret td'"
    using drains_total [OF quit_rx_ok] by blast
  have "grows ?cs" "list_all readable ?cs" by (simp_all add: readable_def byte_in_def)
  moreover have "complete_lines (last ?cs) = [(''ab'', 0)]"
    by (simp add: complete_lines_def byte_in_def ends_with_def starts_with_def trim_line_def trim_end_matches_def)
  ultimately obtain batches where "concat batches = [(''ab'', 0 :: u64)]" "tl_lines_processed (td_stats td') = 1"
    using tail_delivers_each_line_once [OF d] by (auto simp: fresh_tail_def zero_stats_def)
  then show ?thesis using d by blast
qed

theorem retail_is_idempotent_witness:
  "\<exists>st1 stats1 st2 stats3. process_buffer quit_pf ''live'' [] builtin_burst_rules [(''ab'', 0)] (empty_storage, zero_stats) = Ret (st1, stats1) \<and>
     process_buffer quit_pf ''live'' [] builtin_burst_rules [(''ab'', 0)] (st1, stats1) = Ret (st2, stats3) \<and>
     s_events st2 = s_events st1"
proof -
  let ?p = "process_buffer quit_pf ''live'' [] builtin_burst_rules [(''ab'', 0)]"
  have total: "\<exists>st stats. ?p s = Ret (st, stats)" for s
    using process_buffer_no_panic [OF quit_rx_ok, of "''live''" "[]" builtin_burst_rules "[(''ab'', 0)]" s]
    by (cases "?p s") auto
  obtain st1 stats1 where 1: "?p (empty_storage, zero_stats) = Ret (st1, stats1)" using total by blast
  obtain st2 stats3 where 2: "?p (st1, stats1) = Ret (st2, stats3)" using total by blast
  show ?thesis using 1 2 retail_is_idempotent [OF 1 2] by blast
qed

theorem drain_total_witness: "\<exists>err td'. drain quit_pf [''LIVE'', ''Game.log''] ''p'' [] (Opened ''x'') fresh_tail = Ret (err, td')"
  using drain_total [OF quit_rx_ok] by blast

theorem bad_utf8_line_wedges_tail_witness:
  "drain quit_pf [''LIVE'', ''Game.log''] ''p'' [] (Opened (''ok'' @ [newline, CHR 0xFF, newline])) fresh_tail =
     Ret (True, fresh_tail\<lparr>td_offset := 3\<rparr>)"
proof -
  let ?c = "''ok'' @ [newline, CHR 0xFF, newline]"
  have "\<not> utf8_valid [CHR 0xFF, newline]" "ends_with [CHR 0xFF, newline] [newline]"
    "chunks (drop (unat (td_offset fresh_tail)) ?c) = [''ok'' @ [newline]] @ [CHR 0xFF, newline] # []"
    "list_all (\<lambda>x. utf8_valid x \<and> ends_with x [newline]) [''ok'' @ [newline]]"
    "unat (td_offset fresh_tail) < length ?c" "length (?c @ []) < 2 ^ 64"
    by (simp_all add: byte_in_def ends_with_def starts_with_def fresh_tail_def)
  from bad_utf8_line_wedges_tail [OF this, of quit_pf "[''LIVE'', ''Game.log'']" "''p''" "[]"]
  show ?thesis by (simp add: fresh_tail_def)
qed

definition stowed_rx :: regex_engine where
  "stowed_rx = no_match_rx\<lparr>rx_captures := (\<lambda>re s. if re = VEHICLE_STOWED_RE
     then Some \<lparr>cap_whole = s, cap_name = (\<lambda>_. Some ''0''), cap_one = None\<rparr> else None)\<rparr>"

theorem stowed_lines_match_no_burst_rule_witness:
  "\<not> line_matches \<lparr>l_timestamp = ''t'', l_level = None, l_event_name = Some ''CLandingArea::UnregisterFromExternalSystems'',
      l_body = [], l_tags = []\<rparr> (br_member (last builtin_burst_rules)) (br_tags (last builtin_burst_rules))"
proof -
  let ?l = "\<lparr>l_timestamp = ''t'', l_level = None, l_event_name = Some ''CLandingArea::UnregisterFromExternalSystems'',
      l_body = [], l_tags = []\<rparr>"
  have "classify stowed_rx ?l = Ret (Some (VehicleStowed \<lparr>vs_timestamp = ''t'', vs_vehicle_id = ''0'',
      vs_landing_area = ''0'', vs_landing_area_id = ''0'', vs_zone_host_id = None\<rparr>))"
    by (simp add: classify_def shell_arm_def arm_vehicle_stowed_def with_captures_def stowed_rx_def)
  moreover have "last builtin_burst_rules \<in> set builtin_burst_rules" by (simp add: builtin_burst_rules_def)
  ultimately show ?thesis using stowed_lines_match_no_burst_rule by blast
qed

end
