(* ===== verification/Sync.thy ===== *)
theory Sync
  imports Storage
begin

text \<open>
  Models \<^verbatim>\<open>crates/starstats-client/src/sync.rs\<close>: the worker that ships locally stored events, its
  spawning from the configuration, and the device pairing that restarts it. The server's answer to
  a request is a value, the JSON reader of a stored payload the parameter \<open>from_json\<close>, the batch
  identifier and the clock arguments. A drain suspends while the request is in flight: its two
  halves are two steps, between which the tail and the user interface write to the store.
\<close>

section \<open>Model\<close>

text \<open>What one request comes back with: no answer, or a status, a body and the counts read from it.\<close>

datatype http_result =
    SendFailed
  | Response nat string "(u32 \<times> u32 \<times> u32) option"

datatype drain_error =
    PostFailed
  | AuthLost nat
  | IngestFailed nat string
  | BadResponse

fun drain_error_text :: "(nat \<Rightarrow> string) \<Rightarrow> drain_error \<Rightarrow> string" where
  "drain_error_text status_text PostFailed = ''POST /v1/ingest''"
| "drain_error_text status_text (AuthLost code) = ''auth lost: ingest returned '' @ status_text code"
| "drain_error_text status_text (IngestFailed code body) = ''ingest failed: '' @ status_text code @ '' '' @ body"
| "drain_error_text status_text BadResponse = ''parse ingest response''"

record sync_stats =
  sy_last_attempt_at :: "string option"
  sy_last_success_at :: "string option"
  sy_last_error :: "string option"
  sy_batches_sent :: u64
  sy_events_accepted :: u64
  sy_events_duplicate :: u64
  sy_events_rejected :: u64

record remote_sync_config =
  rs_enabled :: bool
  rs_api_url :: "string option"
  rs_claimed_handle :: "string option"
  rs_access_token :: "string option"
  rs_interval_secs :: u64
  rs_batch_size :: nat

definition default_remote_sync :: remote_sync_config where
  "default_remote_sync =
     \<lparr>rs_enabled = False, rs_api_url = Some ''https://api.starstats.app'', rs_claimed_handle = None,
      rs_access_token = None, rs_interval_secs = 60, rs_batch_size = 200\<rparr>"

text \<open>What the spawned task captured from the configuration.\<close>

record sync_worker =
  wk_api_url :: string
  wk_claimed_handle :: string
  wk_access_token :: string
  wk_interval_secs :: u64
  wk_batch_size :: nat

record sync_state =
  ss_storage :: storage
  ss_stats :: sync_stats
  ss_auth_lost :: bool
  ss_config :: remote_sync_config
  ss_worker :: "sync_worker option"
  ss_inflight :: "event_row list option"

fun parse_source :: "string \<Rightarrow> log_source" where
  "parse_source s =
     (if s = ''live'' then Live else if s = ''ptu'' then Ptu else if s = ''eptu'' then Eptu
      else if s = ''hotfix'' then Hotfix else if s = ''tech'' then Tech else OtherSource)"

definition build_envelope :: "(string \<Rightarrow> game_event option) \<Rightarrow> event_row \<Rightarrow> event_envelope" where
  "build_envelope from_json e =
     \<lparr>ee_idempotency_key = ev_idempotency_key e, ee_raw_line = ev_raw_line e,
      ee_event = from_json (ev_payload_json e), ee_source = parse_source (ev_log_source e),
      ee_source_offset = ev_source_offset e, ee_metadata = None\<rparr>"

definition build_batch :: "(string \<Rightarrow> game_event option) \<Rightarrow> string \<Rightarrow> string \<Rightarrow> event_row list \<Rightarrow> ingest_batch" where
  "build_batch from_json batch_id claimed_handle events =
     \<lparr>ib_schema_version = CURRENT_SCHEMA_VERSION, ib_batch_id = batch_id, ib_game_build = None,
      ib_claimed_handle = claimed_handle, ib_events = map (build_envelope from_json) events\<rparr>"

fun highest_id :: "int \<Rightarrow> event_row list \<Rightarrow> int" where
  "highest_id cursor [] = cursor"
| "highest_id cursor (e # es) = foldl (\<lambda>m r. max m (ev_id r)) (ev_id e) es"

definition start :: "remote_sync_config \<Rightarrow> sync_worker option" where
  "start cfg =
     (if \<not> rs_enabled cfg then None
      else case (rs_api_url cfg, rs_claimed_handle cfg, rs_access_token cfg) of
        (Some url, Some handle, Some tok) \<Rightarrow>
          Some \<lparr>wk_api_url = url, wk_claimed_handle = handle, wk_access_token = tok,
            wk_interval_secs = max (rs_interval_secs cfg) 5, wk_batch_size = max (rs_batch_size cfg) 1\<rparr>
      | _ \<Rightarrow> None)"

text \<open>Aborting the old task drops its request in flight.\<close>

definition respawn :: "sync_state \<Rightarrow> sync_state" where
  "respawn st = st\<lparr>ss_inflight := None, ss_worker := start (ss_config st)\<rparr>"

definition clear_persisted_device_token :: "remote_sync_config \<Rightarrow> remote_sync_config" where
  "clear_persisted_device_token cfg = cfg\<lparr>rs_access_token := None, rs_claimed_handle := None\<rparr>"

text \<open>The first half of a drain: up to sending the request. Nothing is sent when nothing is pending.\<close>

definition drain_send :: "nat \<Rightarrow> string \<Rightarrow> sync_state \<Rightarrow> sync_state" where
  "drain_send batch_size now st =
     (let pending = read_unsent (read_sync_cursor (ss_storage st)) batch_size (ss_storage st)
      in if pending = [] then st
         else st\<lparr>ss_inflight := Some pending,
                 ss_stats := (ss_stats st)\<lparr>sy_last_attempt_at := Some now\<rparr>\<rparr>)"

definition count_success :: "string \<Rightarrow> u32 \<times> u32 \<times> u32 \<Rightarrow> sync_stats \<Rightarrow> sync_stats" where
  "count_success now counts s =
     (case counts of (accepted, duplicate, rejected) \<Rightarrow>
        s\<lparr>sy_last_success_at := Some now, sy_last_error := None, sy_batches_sent := sy_batches_sent s + 1,
          sy_events_accepted := sy_events_accepted s + ucast accepted,
          sy_events_duplicate := sy_events_duplicate s + ucast duplicate,
          sy_events_rejected := sy_events_rejected s + ucast rejected\<rparr>)"

text \<open>The second half, from the answer on: the rows \<open>pending\<close> are those of the request.\<close>

definition drain_receive ::
    "string \<Rightarrow> http_result \<Rightarrow> event_row list \<Rightarrow> sync_state \<Rightarrow> (drain_error + unit) \<times> sync_state" where
  "drain_receive now resp pending st =
     (case resp of
        SendFailed \<Rightarrow> (Inl PostFailed, st)
      | Response code body counts \<Rightarrow>
          if code = 401 \<or> code = 403
          then (Inl (AuthLost code),
                st\<lparr>ss_config := clear_persisted_device_token (ss_config st), ss_auth_lost := True\<rparr>)
          else if \<not> (200 \<le> code \<and> code < 300) then (Inl (IngestFailed code body), st)
          else
            (case counts of
               None \<Rightarrow> (Inl BadResponse, st)
             | Some counts \<Rightarrow>
                 (Inr (),
                  st\<lparr>ss_storage := write_sync_cursor (highest_id (read_sync_cursor (ss_storage st)) pending) (ss_storage st),
                     ss_stats := count_success now counts (ss_stats st)\<rparr>)))"

text \<open>
  The two halves inside the worker's loop. The second component is the log of the row ids whose
  delivery the server confirmed.
\<close>

fun worker_send :: "string \<Rightarrow> sync_state \<times> int list \<Rightarrow> sync_state \<times> int list" where
  "worker_send now (st, acked) =
     (case ss_worker st of
        None \<Rightarrow> (st, acked)
      | Some w \<Rightarrow>
          if ss_auth_lost st \<or> ss_inflight st \<noteq> None then (st, acked)
          else (drain_send (wk_batch_size w) now st, acked))"

fun worker_receive ::
    "(nat \<Rightarrow> string) \<Rightarrow> string \<Rightarrow> http_result \<Rightarrow> sync_state \<times> int list \<Rightarrow> sync_state \<times> int list" where
  "worker_receive status_text now resp (st, acked) =
     (case ss_inflight st of
        None \<Rightarrow> (st, acked)
      | Some pending \<Rightarrow>
          (case drain_receive now resp pending (st\<lparr>ss_inflight := None\<rparr>) of
             (Inr _, st') \<Rightarrow> (st', acked @ map ev_id pending)
           | (Inl e, st') \<Rightarrow>
               (st'\<lparr>ss_stats := (ss_stats st')\<lparr>sy_last_error := Some (drain_error_text status_text e)\<rparr>\<rparr>, acked)))"

definition save_config :: "remote_sync_config \<Rightarrow> sync_state \<Rightarrow> sync_state" where
  "save_config cfg st = respawn (st\<lparr>ss_config := cfg\<rparr>)"

text \<open>What a redeemed pairing code does to the worker; the token and handle come from the server.\<close>

definition pair_device :: "string \<Rightarrow> string \<Rightarrow> string \<Rightarrow> sync_state \<Rightarrow> sync_state" where
  "pair_device api_url tok claimed_handle st =
     respawn (st\<lparr>ss_config := (ss_config st)\<lparr>rs_api_url := Some api_url, rs_access_token := Some tok,
         rs_claimed_handle := Some claimed_handle, rs_enabled := True\<rparr>, ss_auth_lost := False\<rparr>)"

section \<open>The worker beside the writers\<close>

datatype sync_op =
    Send string
  | Receive string http_result
  | Write storage_op
  | SaveConfig remote_sync_config
  | Pair string string string

text \<open>The writers beside the worker: everything but the worker's own cursor.\<close>

fun other_writer :: "storage_op \<Rightarrow> bool" where
  "other_writer (WriteSyncCursor n) = False"
| "other_writer _ = True"

fun sync_step :: "(nat \<Rightarrow> string) \<Rightarrow> sync_op \<Rightarrow> sync_state \<times> int list \<Rightarrow> sync_state \<times> int list" where
  "sync_step status_text (Send now) s = worker_send now s"
| "sync_step status_text (Receive now resp) s = worker_receive status_text now resp s"
| "sync_step status_text (Write op) (st, acked) =
     (st\<lparr>ss_storage := (if other_writer op then storage_step op (ss_storage st) else ss_storage st)\<rparr>, acked)"
| "sync_step status_text (SaveConfig cfg) (st, acked) = (save_config cfg st, acked)"
| "sync_step status_text (Pair url tok handle) (st, acked) = (pair_device url tok handle st, acked)"

definition initial_sync :: "remote_sync_config \<Rightarrow> sync_state" where
  "initial_sync cfg =
     \<lparr>ss_storage = open_storage empty_storage,
      ss_stats = \<lparr>sy_last_attempt_at = None, sy_last_success_at = None, sy_last_error = None,
        sy_batches_sent = 0, sy_events_accepted = 0, sy_events_duplicate = 0, sy_events_rejected = 0\<rparr>,
      ss_auth_lost = False, ss_config = cfg, ss_worker = start cfg, ss_inflight = None\<rparr>"

definition run_sync :: "(nat \<Rightarrow> string) \<Rightarrow> sync_op list \<Rightarrow> sync_state \<times> int list \<Rightarrow> sync_state \<times> int list" where
  "run_sync status_text ops s = foldl (\<lambda>s op. sync_step status_text op s) s ops"

section \<open>Lemmas\<close>

lemma sorted_events: "storage_ok st \<Longrightarrow> sorted (map ev_id (s_events st)) \<and> distinct (map ev_id (s_events st))"
  by (simp add: storage_ok_def strict_sorted_iff)

lemma read_unsent_sorted:
  assumes "storage_ok st"
  shows "read_unsent c n st = take n (filter (\<lambda>r. ev_id r > c) (s_events st))"
proof -
  have "sorted (map ev_id (filter (\<lambda>r. ev_id r > c) (s_events st)))"
    using sorted_events [OF assms] by (simp add: sorted_filter)
  then show ?thesis by (simp add: read_unsent_def sorted_sort_id sort_key_id_if_sorted)
qed

lemma foldl_max: "foldl (\<lambda>m r. max m (f r)) a xs = Max (insert a (f ` set xs))"
proof (induction xs arbitrary: a)
  case (Cons x xs)
  have "Max (insert (max a (f x)) (f ` set xs)) = Max (insert a (insert (f x) (f ` set xs)))"
    by (cases "xs = []") (simp_all add: max.assoc)
  then show ?case using Cons by simp
qed simp

lemma sorted_last:
  assumes "sorted (map f es)" and "y \<in> f ` set es"
  shows "y \<le> f (last es)"
proof -
  obtain r where "r \<in> set es" "y = f r" using assms(2) by blast
  then obtain k where "k < length es" "y = f (es ! k)" by (auto simp: in_set_conv_nth)
  moreover have "es \<noteq> []" using assms(2) by auto
  ultimately show ?thesis
    using sorted_nth_mono [OF assms(1), of k "length es - 1"] by (simp add: last_conv_nth)
qed

lemma highest_id_last:
  assumes "sorted (map ev_id es)" and "es \<noteq> []"
  shows "highest_id c es = ev_id (last es)"
proof -
  obtain e es' where es: "es = e # es'" using assms(2) by (cases es) auto
  have "highest_id c es = Max (ev_id ` set es)" by (simp add: es foldl_max)
  also have "\<dots> = ev_id (last es)"
    using assms by (intro Max_eqI) (auto intro: sorted_last)
  finally show ?thesis .
qed

text \<open>
  The invariant: what was confirmed increases strictly and lies at or below the cursor, every stored
  row at or below the cursor was confirmed, and a request in flight carries every row between the
  cursor and its last row.
\<close>

definition inflight_ok :: "storage \<Rightarrow> event_row list \<Rightarrow> bool" where
  "inflight_ok st p \<longleftrightarrow>
     p \<noteq> [] \<and> sorted_wrt (<) (map ev_id p) \<and>
     (\<forall>i \<in> set (map ev_id p). read_sync_cursor st < i \<and> i < s_next_id st) \<and>
     (\<forall>r \<in> set (s_events st). read_sync_cursor st < ev_id r \<and> ev_id r \<le> ev_id (last p) \<longrightarrow>
        ev_id r \<in> ev_id ` set p)"

definition sync_inv :: "sync_state \<times> int list \<Rightarrow> bool" where
  "sync_inv s \<longleftrightarrow> (case s of (st, acked) \<Rightarrow>
     storage_ok (ss_storage st) \<and> sorted_wrt (<) acked \<and>
     (\<forall>i \<in> set acked. i \<le> read_sync_cursor (ss_storage st)) \<and>
     read_sync_cursor (ss_storage st) < s_next_id (ss_storage st) \<and>
     (\<forall>r \<in> set (s_events (ss_storage st)). ev_id r \<le> read_sync_cursor (ss_storage st) \<longrightarrow> ev_id r \<in> set acked) \<and>
     (case ss_inflight st of None \<Rightarrow> True | Some p \<Rightarrow> inflight_ok (ss_storage st) p))"

lemma seed_frame:
  "s_events (foldl (\<lambda>st name. insert_noise name src st) st names) = s_events st"
  "s_next_id (foldl (\<lambda>st name. insert_noise name src st) st names) = s_next_id st"
  "s_sync_cursor (foldl (\<lambda>st name. insert_noise name src st) st names) = s_sync_cursor st"
  by (induction names arbitrary: st) (simp_all add: insert_noise_def)

lemma open_storage_frame:
  "s_events (open_storage st) = s_events st" "s_next_id (open_storage st) = s_next_id st"
  "s_sync_cursor (open_storage st) = s_sync_cursor st"
  by (simp_all add: open_storage_def purge_noise_from_unknowns_def seed_default_noise_def seed_frame)

lemma other_writer_frame:
  assumes "other_writer op"
  shows "read_sync_cursor (storage_step op st) = read_sync_cursor st"
    and "s_next_id st \<le> s_next_id (storage_step op st)"
    and "ev_id ` set (s_events (storage_step op st)) \<subseteq> ev_id ` set (s_events st) \<union> {s_next_id st ..}"
proof -
  note defs = open_storage_frame add_noise_def Let_def
    insert_noise_def insert_event_def write_cursor_def record_unknown_def delete_unknown_def
    update_event_classification_def delete_event_by_id_def write_parser_def_manifest_def
    cache_unknown_line_def dismiss_unknown_line_def mark_submitted_def read_sync_cursor_def
  show "read_sync_cursor (storage_step op st) = read_sync_cursor st"
    using assms by (cases op) (auto simp: defs)
  show "s_next_id st \<le> s_next_id (storage_step op st)"
    using assms by (cases op) (auto simp: defs)
  show "ev_id ` set (s_events (storage_step op st)) \<subseteq> ev_id ` set (s_events st) \<union> {s_next_id st ..}"
    using assms by (cases op) (auto simp: defs)
qed

lemma inv_write:
  assumes "sync_inv (st, acked)" and "other_writer op"
  shows "sync_inv (st\<lparr>ss_storage := storage_step op (ss_storage st)\<rparr>, acked)"
proof -
  let ?s = "ss_storage st" and ?s' = "storage_step op (ss_storage st)"
  note f = other_writer_frame [OF assms(2), of ?s]
  have old: "ev_id r \<in> ev_id ` set (s_events ?s) \<or> s_next_id ?s \<le> ev_id r" if "r \<in> set (s_events ?s')" for r
    using f(3) that by force
  have fl: "inflight_ok ?s' p" if "inflight_ok ?s p" for p
  proof -
    have "ev_id (last p) < s_next_id ?s" using that by (auto simp: inflight_ok_def)
    then have "ev_id r \<in> ev_id ` set p"
      if "r \<in> set (s_events ?s')" "read_sync_cursor ?s < ev_id r" "ev_id r \<le> ev_id (last p)" for r
      using old [OF that(1)] that(2,3) \<open>inflight_ok ?s p\<close> by (fastforce simp: inflight_ok_def)
    then show ?thesis using that f(1,2) by (fastforce simp: inflight_ok_def)
  qed
  have "ev_id r \<in> set acked" if "r \<in> set (s_events ?s')" "ev_id r \<le> read_sync_cursor ?s" for r
    using old [OF that(1)] that(2) assms(1) by (fastforce simp: sync_inv_def)
  then show ?thesis
    using assms(1) f(1,2) fl storage_step_ok [of ?s op] by (auto simp: sync_inv_def split: option.splits)
qed

lemma read_unsent_inflight:
  assumes "storage_ok st" and "0 \<le> read_sync_cursor st" and "read_unsent (read_sync_cursor st) n st \<noteq> []"
  shows "inflight_ok st (read_unsent (read_sync_cursor st) n st)"
proof -
  let ?c = "read_sync_cursor st" and ?fs = "filter (\<lambda>r. ev_id r > read_sync_cursor st) (s_events st)"
  let ?p = "take n ?fs"
  have p: "read_unsent ?c n st = ?p" using assms(1) by (rule read_unsent_sorted)
  have s: "sorted_wrt (<) (map ev_id ?fs)"
    using assms(1) by (auto simp: storage_ok_def sorted_wrt_map intro: sorted_wrt_filter)
  then have sp: "sorted_wrt (<) (map ev_id ?p)" by (simp add: take_map [symmetric] sorted_wrt_take)
  have b: "?c < ev_id r \<and> ev_id r < s_next_id st" if "r \<in> set ?p" for r
    using that assms(1) by (auto dest!: in_set_takeD simp: storage_ok_def)
  have all: "ev_id r \<in> ev_id ` set ?p"
    if r: "r \<in> set (s_events st)" "?c < ev_id r" "ev_id r \<le> ev_id (last ?p)" for r
  proof -
    have "set ?fs = set ?p \<union> set (drop n ?fs)" by (metis append_take_drop_id set_append)
    then have "r \<in> set ?p \<union> set (drop n ?fs)" using r(1,2) by auto
    moreover have "r \<notin> set (drop n ?fs)"
    proof
      assume "r \<in> set (drop n ?fs)"
      moreover have "sorted_wrt (<) (map ev_id ?p @ map ev_id (drop n ?fs))"
        using s by (metis append_take_drop_id map_append)
      moreover have "last ?p \<in> set ?p" using assms(3) p by (intro last_in_set) simp
      ultimately have "ev_id (last ?p) < ev_id r" by (auto simp: sorted_wrt_append)
      then show False using r(3) by simp
    qed
    ultimately have "r \<in> set ?p" by blast
    then show ?thesis by (rule imageI)
  qed
  show ?thesis
    unfolding p inflight_ok_def
  proof (intro conjI ballI impI)
    show "?p \<noteq> []" using assms(3) unfolding p .
    show "?c < i" "i < s_next_id st" if "i \<in> set (map ev_id ?p)" for i
      using that b unfolding set_map by blast+
  qed (use sp all in simp_all)
qed

lemma read_sync_cursor_nonneg: "0 \<le> read_sync_cursor st"
  by (simp add: read_sync_cursor_def split: option.split)

lemma read_write_cursor: "0 \<le> i \<Longrightarrow> read_sync_cursor (write_sync_cursor i st) = i"
  by (simp add: read_sync_cursor_def write_sync_cursor_def)

lemma inv_send: "sync_inv s \<Longrightarrow> sync_inv (worker_send now s)"
  using read_unsent_inflight [OF _ read_sync_cursor_nonneg]
  by (cases s) (auto simp: sync_inv_def drain_send_def Let_def split: option.splits)

lemma inv_receive_ok:
  assumes "sync_inv (st, acked)" and p: "ss_inflight st = Some p"
  shows "sync_inv (st\<lparr>ss_inflight := None,
    ss_storage := write_sync_cursor (highest_id (read_sync_cursor (ss_storage st)) p) (ss_storage st),
    ss_stats := x\<rparr>, acked @ map ev_id p)"
proof -
  have f: "inflight_ok (ss_storage st) p" using assms by (simp add: sync_inv_def)
  then have ne: "p \<noteq> []" and srt: "sorted_wrt (<) (map ev_id p)" by (simp_all add: inflight_ok_def)
  have h: "highest_id (read_sync_cursor (ss_storage st)) p = ev_id (last p)"
    using srt ne by (intro highest_id_last) (simp_all add: strict_sorted_iff)
  have l: "read_sync_cursor (ss_storage st) < ev_id (last p)" "ev_id (last p) < s_next_id (ss_storage st)"
    using f ne by (auto simp: inflight_ok_def)
  then have c: "read_sync_cursor (write_sync_cursor (ev_id (last p)) (ss_storage st)) = ev_id (last p)"
    using read_sync_cursor_nonneg [of "ss_storage st"] by (simp add: read_write_cursor)
  have top: "i \<le> ev_id (last p)" if "i \<in> ev_id ` set p" for i
    using that srt by (intro sorted_last) (simp_all add: strict_sorted_iff)
  have "storage_ok (write_sync_cursor (ev_id (last p)) (ss_storage st))"
    using storage_step_ok [of "ss_storage st" "WriteSyncCursor (ev_id (last p))"] assms(1)
    by (simp add: sync_inv_def)
  moreover have "sorted_wrt (<) (acked @ map ev_id p)"
    using assms(1) srt f by (fastforce simp: sync_inv_def inflight_ok_def sorted_wrt_append)
  moreover have "i \<le> ev_id (last p)" if "i \<in> set (acked @ map ev_id p)" for i
    using that top l(1) assms(1) by (fastforce simp: sync_inv_def)
  moreover have "ev_id r \<in> set (acked @ map ev_id p)"
    if "r \<in> set (s_events (ss_storage st))" "ev_id r \<le> ev_id (last p)" for r
    using that f assms(1) by (cases "read_sync_cursor (ss_storage st) < ev_id r") (auto simp: sync_inv_def inflight_ok_def)
  ultimately show ?thesis
    unfolding h using c l(2) by (simp add: sync_inv_def write_sync_cursor_def)
qed

lemma inv_frame:
  assumes "sync_inv (st, acked)" and "ss_storage st' = ss_storage st" and "ss_inflight st' = None"
  shows "sync_inv (st', acked)"
  using assms by (simp add: sync_inv_def)

lemma inv_receive:
  assumes "sync_inv s"
  shows "sync_inv (worker_receive status_text now resp s)"
proof (cases s)
  case (Pair st acked)
  show ?thesis
  proof (cases "ss_inflight st")
    case (Some p)
    show ?thesis
    proof (cases resp)
      case (Response code body counts)
      then show ?thesis
        using assms Some inv_receive_ok [OF _ Some, of acked] Pair
        by (cases counts) (auto simp: drain_receive_def intro: inv_frame)
    qed (use assms Some Pair in \<open>auto simp: drain_receive_def intro: inv_frame\<close>)
  qed (use assms Pair in simp)
qed

lemma inv_step: "sync_inv s \<Longrightarrow> sync_inv (sync_step status_text op s)"
  using inv_write by (cases s; cases op)
    (auto simp: inv_send inv_receive save_config_def pair_device_def respawn_def
      simp del: worker_send.simps worker_receive.simps intro: inv_frame)

lemma inv_run: "sync_inv s \<Longrightarrow> sync_inv (run_sync status_text ops s)"
  unfolding run_sync_def by (induction ops arbitrary: s) (simp_all add: inv_step)

lemma inv_initial: "sync_inv (initial_sync cfg, [])"
proof -
  have "storage_ok empty_storage" by (simp add: storage_ok_def empty_storage_def)
  moreover note f = other_writer_frame [of OpenStorage empty_storage]
  ultimately show ?thesis
    using f(1,2) open_storage_ok [of empty_storage]
    by (auto simp: sync_inv_def initial_sync_def read_sync_cursor_def empty_storage_def storage_ok_def)
qed

text \<open>One exchange in which the server confirms the batch.\<close>

definition good_round :: "string \<Rightarrow> string \<Rightarrow> u32 \<times> u32 \<times> u32 \<Rightarrow> sync_op list" where
  "good_round now body counts = [Send now, Receive now (Response 200 body (Some counts))]"

definition backlog :: "sync_state \<Rightarrow> nat" where
  "backlog st = length (filter (\<lambda>r. ev_id r > read_sync_cursor (ss_storage st)) (s_events (ss_storage st)))"

text \<open>The worker runs: it was spawned, its token stands, and it is not waiting for an answer.\<close>

definition running :: "sync_state \<Rightarrow> bool" where
  "running st \<longleftrightarrow> (\<exists>w. ss_worker st = Some w \<and> 1 \<le> wk_batch_size w) \<and> \<not> ss_auth_lost st \<and> ss_inflight st = None"

lemma start_batch_size: "start cfg = Some w \<Longrightarrow> 1 \<le> wk_batch_size w"
  by (auto simp: start_def split: if_splits option.splits)

lemma worker_batch_size:
  "(\<forall>w. ss_worker (fst s) = Some w \<longrightarrow> 1 \<le> wk_batch_size w) \<Longrightarrow>
   \<forall>w. ss_worker (fst (run_sync status_text ops s)) = Some w \<longrightarrow> 1 \<le> wk_batch_size w"
proof (induction ops arbitrary: s)
  case (Cons op ops)
  obtain st acked where s: "s = (st, acked)" by fastforce
  have "\<forall>w. ss_worker (fst (sync_step status_text op s)) = Some w \<longrightarrow> 1 \<le> wk_batch_size w"
    using Cons.prems start_batch_size unfolding s
    by (cases op) (auto simp: drain_send_def drain_receive_def Let_def save_config_def pair_device_def
        respawn_def split: option.splits http_result.splits sum.splits)
  then show ?case using Cons.IH by (simp add: run_sync_def)
qed (simp add: run_sync_def)

lemma good_round_progress:
  assumes inv: "sync_inv (st, acked)" and r: "running st"
    and e: "(st', acked') = run_sync status_text (good_round now body counts) (st, acked)"
  shows "running st' \<and> s_events (ss_storage st') = s_events (ss_storage st) \<and> backlog st' \<le> backlog st - 1"
proof -
  obtain w where w: "ss_worker st = Some w" "1 \<le> wk_batch_size w" "\<not> ss_auth_lost st" "ss_inflight st = None"
    using r by (auto simp: running_def)
  let ?c = "read_sync_cursor (ss_storage st)"
  let ?p = "read_unsent ?c (wk_batch_size w) (ss_storage st)"
  have ok: "storage_ok (ss_storage st)" using inv by (simp add: sync_inv_def)
  show ?thesis
  proof (cases "?p = []")
    case True
    then have "st' = st" using e w by (simp add: good_round_def run_sync_def drain_send_def)
    moreover have "backlog st = 0"
      using True w(2) by (simp add: read_unsent_sorted [OF ok] backlog_def)
    ultimately show ?thesis using r by simp
  next
    case False
    let ?h = "highest_id ?c ?p"
    have srt: "sorted (map ev_id ?p)"
      using read_unsent_inflight [OF ok read_sync_cursor_nonneg False] by (simp add: inflight_ok_def strict_sorted_iff)
    have l: "last ?p \<in> set (s_events (ss_storage st))" "?c < ev_id (last ?p)"
      using last_in_set [OF False] by (auto simp: read_unsent_sorted [OF ok] dest!: in_set_takeD)
    have h: "?h = ev_id (last ?p)" using srt False by (rule highest_id_last)
    have "st' = st\<lparr>ss_inflight := None, ss_storage := write_sync_cursor ?h (ss_storage st), ss_stats := ss_stats st'\<rparr>"
      using e w False by (simp add: good_round_def run_sync_def drain_send_def Let_def drain_receive_def)
    then obtain y where st': "st' = st\<lparr>ss_inflight := None, ss_storage := write_sync_cursor ?h (ss_storage st), ss_stats := y\<rparr>"
      by blast
    have "read_sync_cursor (write_sync_cursor ?h (ss_storage st)) = ev_id (last ?p)"
      unfolding h using l(2) read_sync_cursor_nonneg [of "ss_storage st"] by (intro read_write_cursor) linarith
    then have "backlog st' = length (filter (\<lambda>r. ev_id r > ev_id (last ?p)) (s_events (ss_storage st)))"
      by (simp add: backlog_def st' write_sync_cursor_def)
    also have "\<dots> < backlog st"
      unfolding backlog_def using l by (intro length_filter_less [of "last ?p"]) auto
    finally show ?thesis using r st' by (simp add: running_def write_sync_cursor_def)
  qed
qed

lemma good_rounds_drain:
  assumes "sync_inv (st, acked)" and "running st" and "backlog st \<le> n"
  shows "\<forall>r \<in> set (s_events (ss_storage st)).
    ev_id r \<in> set (snd (run_sync status_text (concat (replicate n (good_round now body counts))) (st, acked)))"
  using assms
proof (induction n arbitrary: st acked)
  case 0
  then show ?case
    by (auto simp: run_sync_def sync_inv_def backlog_def filter_empty_conv not_less)
next
  case (Suc n)
  obtain st' acked' where e: "(st', acked') = run_sync status_text (good_round now body counts) (st, acked)"
    by (metis surj_pair)
  have p: "running st'" "s_events (ss_storage st') = s_events (ss_storage st)" "backlog st' \<le> n"
    using good_round_progress [OF Suc.prems(1,2) e] Suc.prems(3) by auto
  have "sync_inv (st', acked')" unfolding e by (rule inv_run) (rule Suc.prems(1))
  then have "\<forall>r \<in> set (s_events (ss_storage st')).
      ev_id r \<in> set (snd (run_sync status_text (concat (replicate n (good_round now body counts))) (st', acked')))"
    using p by (intro Suc.IH)
  then show ?case using p(2) e by (simp add: run_sync_def)
qed

section \<open>Properties\<close>

text \<open>
  C3. No event is lost and none is confirmed twice: however sends, answers (failures, refused
  tokens, unreadable bodies), re-pairings, configuration changes and the tail's writes interleave,
  the confirmed ids increase strictly, every stored event at or below the sync cursor was confirmed,
  and every stored event above it is what the next reads return.
\<close>

theorem sync_exactly_once:
  assumes "(st, acked) = run_sync status_text ops (initial_sync cfg, [])"
  shows "distinct acked \<and> sorted acked \<and>
    (\<forall>r \<in> set (s_events (ss_storage st)).
       ev_id r \<in> set acked \<or>
       (read_sync_cursor (ss_storage st) < ev_id r \<and>
        r \<in> set (read_unsent (read_sync_cursor (ss_storage st)) (length (s_events (ss_storage st))) (ss_storage st)))) \<and>
    (\<forall>i \<in> set acked. \<forall>r \<in> set (read_unsent (read_sync_cursor (ss_storage st)) n (ss_storage st)). ev_id r \<noteq> i)"
proof -
  have inv: "sync_inv (st, acked)" unfolding assms by (intro inv_run inv_initial)
  then have ok: "storage_ok (ss_storage st)" by (simp add: sync_inv_def)
  have len: "length (filter P xs) \<le> length xs" for P and xs :: "event_row list" by simp
  show ?thesis
    using inv unfolding read_unsent_sorted [OF ok]
    by (auto simp: sync_inv_def strict_sorted_iff len dest!: in_set_takeD)
qed

definition sample_config :: remote_sync_config where
  "sample_config = default_remote_sync\<lparr>rs_enabled := True, rs_claimed_handle := Some ''pilot'',
     rs_access_token := Some ''t0'', rs_batch_size := 1\<rparr>"

definition sample_insert :: "string \<Rightarrow> sync_op" where
  "sample_insert k = Write (InsertEvent k ''join_pu'' ''T'' ''raw'' ''{}'' ''live'' 0)"

text \<open>A send whose answer arrives after a second event was stored, then a refused token and a new pairing.\<close>

definition sample_ops :: "sync_op list" where
  "sample_ops = [sample_insert ''k1'', Send ''t'', sample_insert ''k2'', Receive ''t'' (Response 200 [] (Some (1, 0, 0))),
     sample_insert ''k1'', Send ''t'', Receive ''t'' (Response 401 [] None), Pair ''https://h'' ''t1'' ''pilot'']"

abbreviation sample_run :: "sync_state \<times> int list" where
  "sample_run \<equiv> run_sync (\<lambda>_. []) sample_ops (initial_sync sample_config, [])"

lemma sample_run_values:
  "snd sample_run = [1]" "map ev_id (s_events (ss_storage (fst sample_run))) = [1, 2]"
  "ss_worker (fst sample_run) \<noteq> None \<and> \<not> ss_auth_lost (fst sample_run) \<and> ss_inflight (fst sample_run) = None"
  by code_simp+

theorem sync_exactly_once_witness:
  "snd sample_run = [1] \<and> map ev_id (s_events (ss_storage (fst sample_run))) = [1, 2] \<and>
   distinct (snd sample_run) \<and> sorted (snd sample_run)"
  using sync_exactly_once [OF prod.collapse, where n = 200] sample_run_values(1,2) by blast

text \<open>
  C4. The queue drains: whatever happened before, while the worker runs, as many confirmed exchanges
  as there are stored events deliver every one of them.
\<close>

theorem sync_drains:
  assumes "(st, acked) = run_sync status_text ops (initial_sync cfg, [])"
    and "ss_worker st \<noteq> None" and "\<not> ss_auth_lost st" and "ss_inflight st = None"
    and "length (s_events (ss_storage st)) \<le> n"
  shows "\<forall>r \<in> set (s_events (ss_storage st)).
    ev_id r \<in> set (snd (run_sync status_text (concat (replicate n (good_round now body counts))) (st, acked)))"
proof (rule good_rounds_drain)
  show "sync_inv (st, acked)" unfolding assms(1) by (intro inv_run inv_initial)
  have "\<forall>w. ss_worker (fst (st, acked)) = Some w \<longrightarrow> 1 \<le> wk_batch_size w"
    unfolding assms(1) by (rule worker_batch_size) (auto simp: initial_sync_def dest: start_batch_size)
  then show "running st" using assms(2-4) by (auto simp: running_def)
  show "backlog st \<le> n" using assms(5) le_trans [OF length_filter_le] by (simp add: backlog_def)
qed

theorem sync_drains_witness:
  "{1, 2} \<subseteq> set (snd (run_sync (\<lambda>_. []) (concat (replicate 2 (good_round ''t'' [] (1, 0, 0)))) sample_run))"
proof -
  have "length (s_events (ss_storage (fst sample_run))) \<le> 2"
    using arg_cong [OF sample_run_values(2), of length] by simp
  then have "set (map ev_id (s_events (ss_storage (fst sample_run)))) \<subseteq>
      set (snd (run_sync (\<lambda>_. []) (concat (replicate 2 (good_round ''t'' [] (1, 0, 0)))) sample_run))"
    using sync_drains [OF prod.collapse, where n = 2] sample_run_values(3) by auto
  then show ?thesis unfolding sample_run_values(2) by simp
qed

end
