(* ===== verification/Tray_Health.thy ===== *)
theory Tray_Health
  imports Gamelog Sync "HOL-Library.Product_Lexorder"
begin

text \<open>
  Models the tray's configuration and its health surface: \<^verbatim>\<open>crates/starstats-client/src/config.rs\<close>,
  \<^verbatim>\<open>crates/starstats-client/src/health.rs\<close> and the commands of \<^verbatim>\<open>crates/starstats-client/src/commands.rs\<close> that read
  and write them (\<open>get_config\<close>, \<open>save_config\<close>, \<open>get_health\<close>, \<open>dismiss_health\<close>, the RSI cookie, the version
  notice, the pairing address, the anonymous identifier). The configuration file and the keychain are
  fields of the state and their accesses succeed; the clock, the time formatter and reader, the JSON
  printer, the process list and the disks are the environment. Times are integer nanoseconds.
\<close>

section \<open>Configuration\<close>

datatype tray_theme = Stanton | Pyro | Terra | Nyx

fun theme_as_str :: "tray_theme \<Rightarrow> string" where
  "theme_as_str Stanton = ''stanton''"
| "theme_as_str Pyro = ''pyro''"
| "theme_as_str Terra = ''terra''"
| "theme_as_str Nyx = ''nyx''"

datatype release_channel = AlphaChannel | BetaChannel | RcChannel | LiveChannel

fun channel_as_str :: "release_channel \<Rightarrow> string" where
  "channel_as_str AlphaChannel = ''alpha''"
| "channel_as_str BetaChannel = ''beta''"
| "channel_as_str RcChannel = ''rc''"
| "channel_as_str LiveChannel = ''live''"

definition from_version :: "string \<Rightarrow> release_channel" where
  "from_version v =
     (if CHR ''-'' \<notin> set v then LiveChannel
      else
        (let suffix = hd (split_on ''.'' (tl (dropWhile (\<lambda>c. c \<noteq> CHR ''-'') v)))
         in if suffix = ''alpha'' then AlphaChannel else if suffix = ''beta'' then BetaChannel
            else if suffix = ''rc'' then RcChannel else LiveChannel))"

definition manifest_url :: "release_channel \<Rightarrow> string" where
  "manifest_url c =
     ''https://raw.githubusercontent.com/ntatschner/StarStats/main/release-manifests/'' @ channel_as_str c @ ''.json''"

datatype health_id =
    IdGamelogMissing | IdApiUrlMissing | IdPairMissing | IdAuthLost | IdCookieMissing | IdSyncFailing
  | IdHangarSkip | IdEmailUnverified | IdGameLogStale | IdUpdateAvailable | IdDiskFreeLow

record dismissed_health =
  dh_id :: health_id
  dh_fingerprint :: string
  dh_dismissed_at :: int

record tray_config =
  tc_gamelog_path :: "string option"
  tc_remote_sync :: remote_sync_config
  tc_web_origin :: "string option"
  tc_auto_update_check :: bool
  tc_release_channel :: release_channel
  tc_debug_logging :: bool
  tc_theme :: tray_theme
  tc_dismissed_health :: "dismissed_health list"
  tc_client_anon_id :: "string option"

definition default_config :: "string \<Rightarrow> tray_config" where
  "default_config pkg_version =
     \<lparr>tc_gamelog_path = None, tc_remote_sync = default_remote_sync, tc_web_origin = None, tc_auto_update_check = True,
      tc_release_channel = from_version pkg_version, tc_debug_logging = False, tc_theme = Stanton,
      tc_dismissed_health = [], tc_client_anon_id = None\<rparr>"

text \<open>\<open>split_once("://")\<close>: the first occurrence.\<close>

fun split_scheme :: "string \<Rightarrow> (string \<times> string) option" where
  "split_scheme [] = None"
| "split_scheme (c # cs) =
     (if starts_with (c # cs) ''://'' then Some ([], drop 3 (c # cs))
      else map_option (\<lambda>(scheme, rest). (c # scheme, rest)) (split_scheme cs))"

definition derive_web_origin_from_api_url :: "string \<Rightarrow> string option" where
  "derive_web_origin_from_api_url api_url =
     (let trimmed = trim_end_matches ''/'' (trim api_url)
      in if trimmed = [] then None
         else (case split_scheme trimmed of
            None \<Rightarrow> None
          | Some (scheme, rest) \<Rightarrow>
              if scheme = [] \<or> rest = [] then None
              else
                (let authority = hd (split_on ''/?#'' rest)
                 in if \<not> starts_with authority ''api.'' then None
                    else if drop 4 authority = [] then None
                    else Some (scheme @ ''://'' @ drop 4 authority))))"

definition effective_web_origin :: "tray_config \<Rightarrow> string option" where
  "effective_web_origin cfg =
     (let derived = Option.bind (rs_api_url (tc_remote_sync cfg)) derive_web_origin_from_api_url
      in case tc_web_origin cfg of
           Some origin \<Rightarrow> if trim origin \<noteq> [] then Some (trim_end_matches ''/'' (trim origin)) else derived
         | None \<Rightarrow> derived)"

section \<open>Health items\<close>

datatype severity = SevError | SevWarn | SevInfo

datatype settings_field = FieldGamelogPath | FieldApiUrl | FieldPairingCode | FieldRsiCookie | FieldUpdates

datatype health_action = GoToSettings settings_field | RetrySync | RefreshHangar | OpenUrl string

datatype health_params =
    HpGamelogMissing | HpApiUrlMissing | HpPairMissing | HpAuthLost | HpCookieMissing
  | HpSyncFailing string u32
  | HpHangarSkip string string
  | HpEmailUnverified
  | HpGameLogStale string
  | HpUpdateAvailable string
  | HpDiskFreeLow u64

record health_item =
  hi_id :: health_id
  hi_severity :: severity
  hi_params :: health_params
  hi_action :: "health_action option"
  hi_dismissible :: bool
  hi_fingerprint :: string

record health_inputs =
  hx_now :: int
  hx_gamelog_discovered_count :: nat
  hx_gamelog_override_set :: bool
  hx_remote_sync_enabled :: bool
  hx_api_url :: "string option"
  hx_access_token :: "string option"
  hx_web_origin :: "string option"
  hx_auth_lost :: bool
  hx_email_verified :: "bool option"
  hx_cookie_configured :: bool
  hx_sync_last_error :: "string option"
  hx_sync_attempts_since_success :: u32
  hx_hangar_last_attempt_at :: "int option"
  hx_hangar_last_success_at :: "int option"
  hx_hangar_last_skip_reason :: "string option"
  hx_tail_current_path :: "string option"
  hx_tail_last_event_at :: "int option"
  hx_sc_process_running :: bool
  hx_disk_free_bytes :: "u64 option"
  hx_update_available_version :: "string option"
  hx_dismissed :: "dismissed_health list"

text \<open>What the tray calls around it.\<close>

record tray_env =
  tn_now :: int
  tn_rfc3339 :: "int \<Rightarrow> string"
  tn_parse_rfc3339 :: "string \<Rightarrow> int option"
  tn_json :: "health_params \<Rightarrow> string"
  tn_discovered :: nat
  tn_tick :: int
  tn_sysinfo :: "bool \<times> u64 option"
  tn_uuid :: string

definition GAME_LOG_STALE_MIN :: int where
  "GAME_LOG_STALE_MIN = 30"

definition DISK_FREE_LOW_THRESHOLD :: u64 where
  "DISK_FREE_LOW_THRESHOLD = 1073741824"

fun dismissible_for :: "severity \<Rightarrow> bool" where
  "dismissible_for SevError = False"
| "dismissible_for SevWarn = True"
| "dismissible_for SevInfo = True"

fun severity_order :: "severity \<Rightarrow> nat" where
  "severity_order SevError = 0"
| "severity_order SevWarn = 1"
| "severity_order SevInfo = 2"

fun id_order :: "health_id \<Rightarrow> nat" where
  "id_order IdGamelogMissing = 0"
| "id_order IdApiUrlMissing = 1"
| "id_order IdPairMissing = 2"
| "id_order IdAuthLost = 3"
| "id_order IdCookieMissing = 4"
| "id_order IdSyncFailing = 5"
| "id_order IdHangarSkip = 6"
| "id_order IdEmailUnverified = 7"
| "id_order IdGameLogStale = 8"
| "id_order IdUpdateAvailable = 9"
| "id_order IdDiskFreeLow = 10"

definition item :: "tray_env \<Rightarrow> health_id \<Rightarrow> severity \<Rightarrow> health_params \<Rightarrow> health_action option \<Rightarrow> health_item" where
  "item en i sev params action =
     \<lparr>hi_id = i, hi_severity = sev, hi_params = params, hi_action = action, hi_dismissible = dismissible_for sev,
      hi_fingerprint = tn_json en params\<rparr>"

definition is_dismissed :: "health_item \<Rightarrow> dismissed_health list \<Rightarrow> bool" where
  "is_dismissed i dismissed \<longleftrightarrow> list_ex (\<lambda>d. dh_id d = hi_id i \<and> dh_fingerprint d = hi_fingerprint i) dismissed"

text \<open>Whole minutes of a difference, truncated towards zero.\<close>

definition num_minutes :: "int \<Rightarrow> int" where
  "num_minutes nanos = quot_zero (quot_zero nanos 1000000000) 60"

definition email_item :: "tray_env \<Rightarrow> health_inputs \<Rightarrow> health_item list" where
  "email_item en inp =
     (case hx_web_origin inp of
        Some origin \<Rightarrow>
          if starts_with origin ''http://'' \<or> starts_with origin ''https://''
          then [item en IdEmailUnverified SevWarn HpEmailUnverified (Some (OpenUrl (trim_end_matches ''/'' origin @ ''/verify-email'')))]
          else []
      | None \<Rightarrow> [])"

definition stale_item :: "tray_env \<Rightarrow> health_inputs \<Rightarrow> health_item list" where
  "stale_item en inp =
     (case hx_tail_last_event_at inp of
        Some seen \<Rightarrow>
          if num_minutes (hx_now inp - seen) \<ge> GAME_LOG_STALE_MIN
          then [item en IdGameLogStale SevWarn (HpGameLogStale (tn_rfc3339 en seen)) None] else []
      | None \<Rightarrow> [])"

text \<open>The checks in the order they are made.\<close>

definition health_checks :: "tray_env \<Rightarrow> health_inputs \<Rightarrow> health_item list" where
  "health_checks en inp =
     (let go = (\<lambda>f. Some (GoToSettings f));
          paired = hx_api_url inp \<noteq> None \<and> hx_access_token inp \<noteq> None
      in (if hx_gamelog_discovered_count inp = 0 \<and> \<not> hx_gamelog_override_set inp
          then [item en IdGamelogMissing SevWarn HpGamelogMissing (go FieldGamelogPath)] else []) @
         (if hx_remote_sync_enabled inp \<and> hx_api_url inp = None
          then [item en IdApiUrlMissing SevWarn HpApiUrlMissing (go FieldApiUrl)] else []) @
         (if hx_remote_sync_enabled inp \<and> hx_api_url inp \<noteq> None \<and> hx_access_token inp = None
          then [item en IdPairMissing SevWarn HpPairMissing (go FieldPairingCode)] else []) @
         (if hx_auth_lost inp then [item en IdAuthLost SevError HpAuthLost (go FieldPairingCode)] else []) @
         (if paired \<and> \<not> hx_cookie_configured inp \<and> hx_hangar_last_attempt_at inp \<noteq> None
          then [item en IdCookieMissing SevWarn HpCookieMissing (go FieldRsiCookie)] else []) @
         (case hx_sync_last_error inp of
            Some last_error \<Rightarrow>
              if hx_auth_lost inp then []
              else [item en IdSyncFailing SevError (HpSyncFailing last_error (hx_sync_attempts_since_success inp)) (Some RetrySync)]
          | None \<Rightarrow> []) @
         (case hx_hangar_last_skip_reason inp of
            Some reason \<Rightarrow>
              if hx_hangar_last_success_at inp \<noteq> None then []
              else [item en IdHangarSkip SevWarn (HpHangarSkip reason
                (tn_rfc3339 en (case hx_hangar_last_attempt_at inp of Some t \<Rightarrow> t | None \<Rightarrow> hx_now inp))) (Some RefreshHangar)]
          | None \<Rightarrow> []) @
         (if hx_email_verified inp = Some False then email_item en inp else []) @
         (if hx_sc_process_running inp \<and> hx_tail_current_path inp \<noteq> None then stale_item en inp else []) @
         (case hx_update_available_version inp of
            Some version \<Rightarrow> [item en IdUpdateAvailable SevInfo (HpUpdateAvailable version) (go FieldUpdates)]
          | None \<Rightarrow> []) @
         (case hx_disk_free_bytes inp of
            Some free \<Rightarrow> if free < DISK_FREE_LOW_THRESHOLD then [item en IdDiskFreeLow SevWarn (HpDiskFreeLow free) None] else []
          | None \<Rightarrow> []))"

definition current_health :: "tray_env \<Rightarrow> health_inputs \<Rightarrow> health_item list" where
  "current_health en inp =
     sort_key (\<lambda>i. (severity_order (hi_severity i), id_order (hi_id i)))
       (filter (\<lambda>i. \<not> is_dismissed i (hx_dismissed inp)) (health_checks en inp))"

section \<open>The tray's state\<close>

record hangar_stats =
  hs_last_attempt_at :: "string option"
  hs_last_success_at :: "string option"
  hs_last_error :: "string option"
  hs_ships_pushed :: u32
  hs_last_skip_reason :: "string option"

record update_info =
  ui_version :: string
  ui_checked_at :: int

record tray_state =
  ts_config :: tray_config
  ts_cookie :: "string option"
  ts_auth_lost :: bool
  ts_email_verified :: "bool option"
  ts_tail_current_path :: "string option"
  ts_tail_last_event_at :: "string option"
  ts_sync_last_error :: "string option"
  ts_hangar :: hangar_stats
  ts_update_available :: "update_info option"
  ts_sysinfo_cache :: "(int \<times> bool \<times> u64 option) option"

definition SYSINFO_TTL :: int where
  "SYSINFO_TTL = 60 * 1000000000"

definition cached_sysinfo :: "tray_env \<Rightarrow> tray_state \<Rightarrow> (bool \<times> u64 option) \<times> tray_state" where
  "cached_sysinfo en st =
     (case ts_sysinfo_cache st of
        Some (stamped, sc, free) \<Rightarrow>
          if tn_tick en - stamped < SYSINFO_TTL then ((sc, free), st)
          else (tn_sysinfo en, st\<lparr>ts_sysinfo_cache := Some (tn_tick en, tn_sysinfo en)\<rparr>)
      | None \<Rightarrow> (tn_sysinfo en, st\<lparr>ts_sysinfo_cache := Some (tn_tick en, tn_sysinfo en)\<rparr>))"

text \<open>The free space of the deepest mount point above the path; a mount point is its components and the length of its name.\<close>

fun last_longest :: "('a \<times> nat \<times> u64) option \<Rightarrow> ('a \<times> nat \<times> u64) list \<Rightarrow> u64 option" where
  "last_longest best [] = map_option (snd \<circ> snd) best"
| "last_longest best (d # ds) =
     last_longest (if (case best of None \<Rightarrow> True | Some b \<Rightarrow> fst (snd b) \<le> fst (snd d)) then Some d else best) ds"

definition free_bytes_for_path :: "(string list \<times> nat \<times> u64) list \<Rightarrow> string list \<Rightarrow> u64 option" where
  "free_bytes_for_path disks path = last_longest None (filter (\<lambda>d. take (length (fst d)) path = fst d) disks)"

definition parse_dt :: "tray_env \<Rightarrow> string option \<Rightarrow> int option" where
  "parse_dt en s = Option.bind s (tn_parse_rfc3339 en)"

definition snapshot_health_inputs :: "tray_env \<Rightarrow> tray_state \<Rightarrow> health_inputs \<times> tray_state" where
  "snapshot_health_inputs en st =
     (let cfg = ts_config st;
          ((sc_process_running, disk_free_bytes), st') = cached_sysinfo en st
      in (\<lparr>hx_now = tn_now en, hx_gamelog_discovered_count = tn_discovered en,
           hx_gamelog_override_set = (tc_gamelog_path cfg \<noteq> None),
           hx_remote_sync_enabled = rs_enabled (tc_remote_sync cfg), hx_api_url = rs_api_url (tc_remote_sync cfg),
           hx_access_token = rs_access_token (tc_remote_sync cfg), hx_web_origin = tc_web_origin cfg,
           hx_auth_lost = ts_auth_lost st, hx_email_verified = ts_email_verified st,
           hx_cookie_configured = (ts_cookie st \<noteq> None), hx_sync_last_error = ts_sync_last_error st,
           hx_sync_attempts_since_success = 0,
           hx_hangar_last_attempt_at = parse_dt en (hs_last_attempt_at (ts_hangar st)),
           hx_hangar_last_success_at = parse_dt en (hs_last_success_at (ts_hangar st)),
           hx_hangar_last_skip_reason = hs_last_skip_reason (ts_hangar st),
           hx_tail_current_path = ts_tail_current_path st,
           hx_tail_last_event_at = parse_dt en (ts_tail_last_event_at st),
           hx_sc_process_running = sc_process_running, hx_disk_free_bytes = disk_free_bytes,
           hx_update_available_version = map_option ui_version (ts_update_available st),
           hx_dismissed = tc_dismissed_health cfg\<rparr>, st'))"

section \<open>Commands\<close>

definition get_health :: "tray_env \<Rightarrow> tray_state \<Rightarrow> health_item list \<times> tray_state" where
  "get_health en st = (let (inp, st') = snapshot_health_inputs en st in (current_health en inp, st'))"

datatype dismiss_error = NoLiveItem | NotDismissible

definition dismiss_health :: "tray_env \<Rightarrow> health_id \<Rightarrow> tray_state \<Rightarrow> (dismiss_error + unit) \<times> tray_state" where
  "dismiss_health en i st =
     (let (live, st) = get_health en st
      in case find (\<lambda>h. hi_id h = i) live of
           None \<Rightarrow> (Inl NoLiveItem, st)
         | Some target \<Rightarrow>
             if \<not> hi_dismissible target then (Inl NotDismissible, st)
             else (Inr (), st\<lparr>ts_config := (ts_config st)\<lparr>tc_dismissed_health := tc_dismissed_health (ts_config st) @
               [\<lparr>dh_id = hi_id target, dh_fingerprint = hi_fingerprint target, dh_dismissed_at = tn_now en\<rparr>]\<rparr>\<rparr>))"

definition get_config :: "tray_state \<Rightarrow> tray_config" where
  "get_config st =
     (let cfg = ts_config st
      in if tc_web_origin cfg = None then cfg\<lparr>tc_web_origin := effective_web_origin cfg\<rparr> else cfg)"

text \<open>The file is overwritten as a whole; the restart of the sync worker is in \<open>Sync\<close>.\<close>

definition save_config_file :: "tray_config \<Rightarrow> tray_state \<Rightarrow> tray_state" where
  "save_config_file cfg st = st\<lparr>ts_config := cfg\<rparr>"

definition validate_pair_url :: "string \<Rightarrow> string option" where
  "validate_pair_url api_url =
     (if starts_with api_url ''https://'' then
        (if drop 8 api_url = [] then Some ''API URL must include a host'' else None)
      else if starts_with api_url ''http://'' then
        (let host = hd (split_on ''/'' (drop 7 api_url));
             host_only = hd (split_on '':'' host)
         in if host_only = ''localhost'' \<or> host_only = ''127.0.0.1'' then None
            else Some ''API URL must be https:// (http:// is only allowed for localhost)'')
      else Some ''API URL must start with https:// (or http://localhost for dev)'')"

definition is_version_char :: "char \<Rightarrow> bool" where
  "is_version_char c \<longleftrightarrow>
     (CHR ''0'' \<le> c \<and> c \<le> CHR ''9'') \<or> (CHR ''A'' \<le> c \<and> c \<le> CHR ''Z'') \<or> (CHR ''a'' \<le> c \<and> c \<le> CHR ''z'') \<or>
     c \<in> set ''.-+_''"

definition set_update_available :: "tray_env \<Rightarrow> string \<Rightarrow> tray_state \<Rightarrow> (string + unit) \<times> tray_state" where
  "set_update_available en version0 st =
     (let version = trim version0
      in if version = [] \<or> length version > 64 then (Inl ''invalid version: must be 1-64 chars'', st)
         else if \<not> list_all is_version_char version
         then (Inl ''invalid version: only alphanumerics, '.', '-', '+', '_' allowed'', st)
         else (Inr (), st\<lparr>ts_update_available := Some \<lparr>ui_version = version, ui_checked_at = tn_now en\<rparr>\<rparr>))"

definition resolve_client_anon_id :: "tray_env \<Rightarrow> string option \<Rightarrow> string \<times> bool" where
  "resolve_client_anon_id en existing =
     (let fresh = (''anon_'' @ tn_uuid en, True)
      in case existing of
           Some e \<Rightarrow> if trim e \<noteq> [] then (e, False) else fresh
         | None \<Rightarrow> fresh)"

definition get_or_create_client_anon_id :: "tray_env \<Rightarrow> tray_state \<Rightarrow> string \<times> tray_state" where
  "get_or_create_client_anon_id en st =
     (let (i, dirty) = resolve_client_anon_id en (tc_client_anon_id (ts_config st))
      in (i, if dirty then st\<lparr>ts_config := (ts_config st)\<lparr>tc_client_anon_id := Some i\<rparr>\<rparr> else st))"

subsection \<open>The RSI cookie\<close>

definition MAX_COOKIE_CHARS :: nat where
  "MAX_COOKIE_CHARS = 4096"

definition char_count :: "string \<Rightarrow> nat" where
  "char_count s = length (filter (\<lambda>c. \<not> is_cont c) s)"

text \<open>The last \<open>n\<close> characters of well-formed bytes: the bytes from the \<open>n\<close>-th leading byte from the end on.\<close>

definition last_chars :: "nat \<Rightarrow> string \<Rightarrow> string" where
  "last_chars n s = drop (length (take_chars (char_count s - n) s)) s"

definition redact :: "string \<Rightarrow> string" where
  "redact s = [CHR 0xE2, CHR 0x80, CHR 0xA6] @ last_chars 4 s"

record rsi_cookie_status =
  ck_configured :: bool
  ck_preview :: "string option"

definition set_rsi_cookie :: "string \<Rightarrow> tray_state \<Rightarrow> (string + rsi_cookie_status) \<times> tray_state" where
  "set_rsi_cookie cookie_value st =
     (let trimmed = trim cookie_value
      in if trimmed = [] then (Inl ''cookie value is empty'', st)
         else if char_count trimmed > MAX_COOKIE_CHARS then (Inl ''cookie value too long'', st)
         else (Inr \<lparr>ck_configured = True, ck_preview = Some (redact trimmed)\<rparr>, st\<lparr>ts_cookie := Some trimmed\<rparr>))"

definition clear_rsi_cookie :: "tray_state \<Rightarrow> rsi_cookie_status \<times> tray_state" where
  "clear_rsi_cookie st = (\<lparr>ck_configured = False, ck_preview = None\<rparr>, st\<lparr>ts_cookie := None\<rparr>)"

definition get_rsi_cookie_status :: "tray_state \<Rightarrow> rsi_cookie_status" where
  "get_rsi_cookie_status st = \<lparr>ck_configured = (ts_cookie st \<noteq> None), ck_preview = map_option redact (ts_cookie st)\<rparr>"

end
