(* ===== verification/Tray_Health_Props.thy ===== *)
theory Tray_Health_Props
  imports Tray_Health
begin

text \<open>
  What the health surface guarantees: which items are shown and in which order, what a dismissal hides,
  for how long, and what the commands beside it undo; the derived web origin, the pairing address and the
  preview of the cookie.
\<close>

section \<open>The items that are shown\<close>

text \<open>When each item is called for, stated per item.\<close>

fun called_for :: "health_inputs \<Rightarrow> health_id \<Rightarrow> bool" where
  "called_for x IdGamelogMissing \<longleftrightarrow> hx_gamelog_discovered_count x = 0 \<and> \<not> hx_gamelog_override_set x"
| "called_for x IdApiUrlMissing \<longleftrightarrow> hx_remote_sync_enabled x \<and> hx_api_url x = None"
| "called_for x IdPairMissing \<longleftrightarrow> hx_remote_sync_enabled x \<and> hx_api_url x \<noteq> None \<and> hx_access_token x = None"
| "called_for x IdAuthLost \<longleftrightarrow> hx_auth_lost x"
| "called_for x IdCookieMissing \<longleftrightarrow> hx_api_url x \<noteq> None \<and> hx_access_token x \<noteq> None \<and> \<not> hx_cookie_configured x \<and>
     hx_hangar_last_attempt_at x \<noteq> None"
| "called_for x IdSyncFailing \<longleftrightarrow> hx_sync_last_error x \<noteq> None \<and> \<not> hx_auth_lost x"
| "called_for x IdHangarSkip \<longleftrightarrow> hx_hangar_last_skip_reason x \<noteq> None \<and> hx_hangar_last_success_at x = None"
| "called_for x IdEmailUnverified \<longleftrightarrow> hx_email_verified x = Some False \<and>
     (\<exists>origin. hx_web_origin x = Some origin \<and> (starts_with origin ''http://'' \<or> starts_with origin ''https://''))"
| "called_for x IdGameLogStale \<longleftrightarrow> hx_sc_process_running x \<and> hx_tail_current_path x \<noteq> None \<and>
     (\<exists>seen. hx_tail_last_event_at x = Some seen \<and> 30 * 60 * 1000000000 \<le> hx_now x - seen)"
| "called_for x IdUpdateAvailable \<longleftrightarrow> hx_update_available_version x \<noteq> None"
| "called_for x IdDiskFreeLow \<longleftrightarrow> (\<exists>free. hx_disk_free_bytes x = Some free \<and> unat free < 2 ^ 30)"

definition all_health_ids :: "health_id list" where
  "all_health_ids = [IdGamelogMissing, IdApiUrlMissing, IdPairMissing, IdAuthLost, IdCookieMissing, IdSyncFailing,
     IdHangarSkip, IdEmailUnverified, IdGameLogStale, IdUpdateAvailable, IdDiskFreeLow]"

lemma all_health_ids: "distinct all_health_ids" "i \<in> set all_health_ids"
  by (simp_all add: all_health_ids_def) (cases i; simp)

lemma item_simps [simp]:
  "hi_id (item en i sev params action) = i" "hi_severity (item en i sev params action) = sev"
  "hi_dismissible (item en i sev params action) = dismissible_for sev"
  "hi_fingerprint (item en i sev params action) = tn_json en params"
  by (simp_all add: item_def)

lemma le_div_times: "0 < k \<Longrightarrow> a \<le> d div k \<longleftrightarrow> a * k \<le> (d :: int)"
proof
  assume k: "0 < k"
  show "a * k \<le> d" if "a \<le> d div k"
  proof -
    have "a * k \<le> d div k * k" using that k by (intro mult_right_mono) simp_all
    also have "\<dots> \<le> d" using k by (simp add: minus_mod_eq_div_mult [symmetric])
    finally show ?thesis .
  qed
  show "a \<le> d div k" if "a * k \<le> d"
    using zdiv_mono1 [OF that k] k by simp
qed

lemma half_hour: "GAME_LOG_STALE_MIN \<le> num_minutes d \<longleftrightarrow> 30 * 60 * 1000000000 \<le> d"
proof (cases "0 \<le> d")
  case True
  then have "0 \<le> d div 1000000000" by (simp add: pos_imp_zdiv_nonneg_iff)
  then have "num_minutes d = d div (1000000000 * 60)"
    using True by (simp add: num_minutes_def quot_zero_def not_less Let_def zdiv_zmult2_eq)
  then show ?thesis by (simp add: GAME_LOG_STALE_MIN_def le_div_times)
next
  case False
  then have "num_minutes d \<le> 0"
    by (auto simp: num_minutes_def quot_zero_def Let_def pos_imp_zdiv_nonneg_iff)
  then show ?thesis using False by (simp add: GAME_LOG_STALE_MIN_def)
qed

lemma disk_low: "free < DISK_FREE_LOW_THRESHOLD \<longleftrightarrow> unat free < 2 ^ 30"
  by (simp add: DISK_FREE_LOW_THRESHOLD_def word_less_nat_alt)

lemma checked_ids: "map hi_id (health_checks en x) = filter (called_for x) all_health_ids"
proof -
  have f: "filter P (i # is) = (if P i then [i] else []) @ filter P is" for P and i :: health_id and "is" by simp
  show ?thesis
    unfolding health_checks_def Let_def map_append all_health_ids_def f filter.simps(1) append_Nil2
    by (intro arg_cong2 [where f = append]) (auto simp: email_item_def stale_item_def half_hour disk_low split: option.split)
qed

definition rank :: "health_item \<Rightarrow> nat \<times> nat" where
  "rank h = (severity_order (hi_severity h), id_order (hi_id h))"

lemma id_order_inj: "id_order i = id_order j \<Longrightarrow> i = j"
  by (cases i; cases j; simp)

lemma checked_distinct: "distinct (map hi_id (health_checks en x))"
  unfolding checked_ids using all_health_ids(1) by (rule distinct_filter)

lemma checked_called: "(\<exists>h \<in> set (health_checks en x). hi_id h = i) \<longleftrightarrow> called_for x i"
proof -
  have "(\<exists>h \<in> set (health_checks en x). hi_id h = i) \<longleftrightarrow> i \<in> set (map hi_id (health_checks en x))" by auto
  then show ?thesis unfolding checked_ids using all_health_ids(2) by simp
qed

lemma set_current [simp]:
  "set (current_health en x) = {h \<in> set (health_checks en x). \<not> is_dismissed h (hx_dismissed x)}"
  by (auto simp: current_health_def)

lemma sorted_strict:
  fixes f :: "'a \<Rightarrow> 'b :: linorder"
  assumes "sorted (map f xs)" and "distinct (map f xs)"
  shows "sorted_wrt (<) (map f xs)"
  using assms by (simp add: strict_sorted_iff)

lemma current_sorted: "sorted_wrt (<) (map rank (current_health en x))"
proof (rule sorted_strict)
  have r: "rank = (\<lambda>h. (severity_order (hi_severity h), id_order (hi_id h)))" by (simp add: rank_def fun_eq_iff)
  show "sorted (map rank (current_health en x))" unfolding r current_health_def by (rule sorted_sort_key)
  have "distinct (current_health en x)" "inj_on hi_id (set (health_checks en x))"
    using checked_distinct [of en x] by (simp_all add: current_health_def distinct_map)
  moreover have "inj_on rank (set (health_checks en x))"
    using calculation(2) by (auto simp: inj_on_def rank_def dest: id_order_inj)
  ultimately show "distinct (map rank (current_health en x))" by (auto simp: distinct_map inj_on_def)
qed

text \<open>
  The health surface is exact: the items come in strictly increasing order of severity and identifier, at
  most one per identifier; an identifier is there exactly when its condition holds and its item was not
  dismissed with the same parameters.
\<close>

theorem health_items_exact:
  "sorted_wrt (<) (map rank (current_health en x)) \<and> distinct (map hi_id (current_health en x)) \<and>
   (\<forall>i. i \<in> set (map hi_id (current_health en x)) \<longleftrightarrow>
      called_for x i \<and> (\<exists>h \<in> set (health_checks en x). hi_id h = i \<and> \<not> is_dismissed h (hx_dismissed x)))"
proof -
  have "distinct (map hi_id (current_health en x))"
    using checked_distinct [of en x] by (auto simp: current_health_def distinct_map inj_on_def)
  then show ?thesis using current_sorted checked_called [of en x] by auto
qed

section \<open>Dismissal\<close>

lemma cached_again: "cached_sysinfo en (snd (cached_sysinfo en st)) = (fst (cached_sysinfo en st), snd (cached_sysinfo en st))"
  by (auto simp: cached_sysinfo_def SYSINFO_TTL_def split: option.split prod.split)

lemma cached_config [simp]:
  "ts_config (snd (cached_sysinfo en st)) = ts_config st"
  "cached_sysinfo en (st\<lparr>ts_config := cfg\<rparr>) = (fst (cached_sysinfo en st), snd (cached_sysinfo en st)\<lparr>ts_config := cfg\<rparr>)"
  by (auto simp: cached_sysinfo_def split: option.split prod.split)

lemma cached_frame [simp]:
  "ts_cookie (snd (cached_sysinfo en st)) = ts_cookie st" "ts_auth_lost (snd (cached_sysinfo en st)) = ts_auth_lost st"
  "ts_email_verified (snd (cached_sysinfo en st)) = ts_email_verified st"
  "ts_sync_last_error (snd (cached_sysinfo en st)) = ts_sync_last_error st"
  "ts_hangar (snd (cached_sysinfo en st)) = ts_hangar st"
  "ts_tail_current_path (snd (cached_sysinfo en st)) = ts_tail_current_path st"
  "ts_tail_last_event_at (snd (cached_sysinfo en st)) = ts_tail_last_event_at st"
  "ts_update_available (snd (cached_sysinfo en st)) = ts_update_available st"
  by (auto simp: cached_sysinfo_def split: option.split prod.split)

lemma checks_dismissed [simp]: "health_checks en (x\<lparr>hx_dismissed := ds\<rparr>) = health_checks en x"
  by (simp add: health_checks_def email_item_def stale_item_def cong: option.case_cong if_cong)

text \<open>The inputs after a change of the dismissal log alone.\<close>

lemma snapshot_dismissed:
  assumes "st' = (snd (get_health en st))\<lparr>ts_config := (ts_config st)\<lparr>tc_dismissed_health := ds\<rparr>\<rparr>"
  shows "fst (snapshot_health_inputs en st') = (fst (snapshot_health_inputs en st))\<lparr>hx_dismissed := ds\<rparr>"
  using assms by (simp add: get_health_def snapshot_health_inputs_def Let_def case_prod_unfold cached_again)

lemma get_health_fst: "fst (get_health en st) = current_health en (fst (snapshot_health_inputs en st))"
  by (simp add: get_health_def Let_def case_prod_unfold)

lemma snapshot_log [simp]: "hx_dismissed (fst (snapshot_health_inputs en st)) = tc_dismissed_health (ts_config st)"
  by (simp add: snapshot_health_inputs_def Let_def case_prod_unfold)

lemma dismiss_Inr:
  assumes "dismiss_health en i st = (Inr (), st')"
  shows "\<exists>h. h \<in> set (fst (get_health en st)) \<and> hi_id h = i \<and> hi_dismissible h \<and>
    st' = (snd (get_health en st))\<lparr>ts_config := (ts_config st)\<lparr>tc_dismissed_health := tc_dismissed_health (ts_config st) @
      [\<lparr>dh_id = i, dh_fingerprint = hi_fingerprint h, dh_dismissed_at = tn_now en\<rparr>]\<rparr>\<rparr>"
proof -
  have c: "ts_config (snd (get_health en st)) = ts_config st"
    by (simp add: get_health_def snapshot_health_inputs_def Let_def case_prod_unfold)
  obtain h where h: "find (\<lambda>h. hi_id h = i) (fst (get_health en st)) = Some h" "hi_dismissible h"
    using assms by (auto simp: dismiss_health_def Let_def case_prod_unfold split: option.splits if_splits)
  have "h \<in> set (fst (get_health en st)) \<and> hi_id h = i"
    using h(1) by (auto simp: find_Some_iff)
  then show ?thesis
    using assms h c by (intro exI [of _ h]) (auto simp: dismiss_health_def Let_def case_prod_unfold)
qed

lemma same_item:
  assumes "h \<in> set (health_checks en x)" and "h' \<in> set (health_checks en x)" and "hi_id h = hi_id h'"
  shows "h = h'"
  using checked_distinct [of en x] assms by (auto simp: distinct_map dest: inj_onD)

lemma is_dismissed_append: "is_dismissed h (ds @ [d]) \<longleftrightarrow> is_dismissed h ds \<or> (dh_id d = hi_id h \<and> dh_fingerprint d = hi_fingerprint h)"
  by (auto simp: is_dismissed_def)

text \<open>
  A dismissal hides one item and nothing else: as long as nothing else changes, the health surface is the one
  before without the item that was dismissed.
\<close>

theorem dismissal_hides_one_item:
  assumes "dismiss_health en i st = (Inr (), st')"
  shows "i \<in> set (map hi_id (fst (get_health en st))) \<and>
    fst (get_health en st') = filter (\<lambda>h. hi_id h \<noteq> i) (fst (get_health en st))"
proof -
  let ?x = "fst (snapshot_health_inputs en st)"
  obtain t where t: "t \<in> set (fst (get_health en st))" "hi_id t = i" and st': "st' = (snd (get_health en st))\<lparr>ts_config :=
      (ts_config st)\<lparr>tc_dismissed_health := tc_dismissed_health (ts_config st) @
        [\<lparr>dh_id = i, dh_fingerprint = hi_fingerprint t, dh_dismissed_at = tn_now en\<rparr>]\<rparr>\<rparr>"
    using dismiss_Inr [OF assms] by blast
  let ?d = "\<lparr>dh_id = i, dh_fingerprint = hi_fingerprint t, dh_dismissed_at = tn_now en\<rparr>"
  have tc: "t \<in> set (health_checks en ?x)" using t(1) by (simp add: get_health_fst)
  have "filter (\<lambda>h. \<not> is_dismissed h (hx_dismissed ?x @ [?d])) (health_checks en ?x) =
      filter (\<lambda>h. hi_id h \<noteq> i) (filter (\<lambda>h. \<not> is_dismissed h (hx_dismissed ?x)) (health_checks en ?x))"
    unfolding filter_filter by (rule filter_cong [OF refl]) (use same_item [OF _ tc] t(2) in \<open>auto simp: is_dismissed_append\<close>)
  then have "current_health en (?x\<lparr>hx_dismissed := hx_dismissed ?x @ [?d]\<rparr>) = filter (\<lambda>h. hi_id h \<noteq> i) (current_health en ?x)"
    by (simp add: current_health_def filter_sort del: filter_filter)
  then have "fst (get_health en st') = filter (\<lambda>h. hi_id h \<noteq> i) (fst (get_health en st))"
    unfolding get_health_fst snapshot_dismissed [OF st'] by simp
  then show ?thesis using t by auto
qed

lemma error_items:
  assumes "h \<in> set (health_checks en x)" and "hi_id h \<in> {IdAuthLost, IdSyncFailing}"
  shows "\<not> hi_dismissible h"
  using assms by (auto simp: health_checks_def email_item_def stale_item_def Let_def split: if_splits option.splits)

text \<open>A lost pairing and a failing upload cannot be dismissed: the command fails and the configuration stays.\<close>

theorem errors_cannot_be_dismissed:
  assumes "i \<in> {IdAuthLost, IdSyncFailing}"
  shows "fst (dismiss_health en i st) \<noteq> Inr () \<and> ts_config (snd (dismiss_health en i st)) = ts_config st"
proof -
  have c: "ts_config (snd (get_health en st)) = ts_config st"
    by (simp add: get_health_def snapshot_health_inputs_def Let_def case_prod_unfold)
  have "\<not> hi_dismissible h" if "find (\<lambda>h. hi_id h = i) (fst (get_health en st)) = Some h" for h
  proof -
    have "h \<in> set (fst (get_health en st))" "hi_id h = i" using that by (auto simp: find_Some_iff)
    then show ?thesis using error_items [of h] assms by (auto simp: get_health_fst)
  qed
  then show ?thesis using c by (auto simp: dismiss_health_def Let_def case_prod_unfold split: option.split)
qed

text \<open>
  Dismissing the notice of a full disk does not last: its parameters are the free bytes, so with the next
  byte written the notice is another one and is shown again.
\<close>

theorem disk_dismissal_lapses:
  assumes "dismiss_health en IdDiskFreeLow st = (Inr (), st1)"
    and "snd (fst (cached_sysinfo en st)) = Some free" and "snd (fst (cached_sysinfo en' st2)) = Some free'"
    and "ts_config st2 = ts_config st1" and "unat free' < 2 ^ 30" and "tn_json en' (HpDiskFreeLow free') \<noteq> tn_json en (HpDiskFreeLow free)"
    and "\<forall>d \<in> set (tc_dismissed_health (ts_config st)). dh_fingerprint d \<noteq> tn_json en' (HpDiskFreeLow free')"
  shows "IdDiskFreeLow \<in> set (map hi_id (fst (get_health en' st2)))"
proof -
  obtain t where t: "t \<in> set (fst (get_health en st))" "hi_id t = IdDiskFreeLow" and st1: "st1 = (snd (get_health en st))\<lparr>ts_config :=
      (ts_config st)\<lparr>tc_dismissed_health := tc_dismissed_health (ts_config st) @
        [\<lparr>dh_id = IdDiskFreeLow, dh_fingerprint = hi_fingerprint t, dh_dismissed_at = tn_now en\<rparr>]\<rparr>\<rparr>"
    using dismiss_Inr [OF assms(1)] by blast
  have free: "hx_disk_free_bytes (fst (snapshot_health_inputs e s)) = snd (fst (cached_sysinfo e s))" for e s
    by (simp add: snapshot_health_inputs_def Let_def case_prod_unfold)
  have disk: "h = item e IdDiskFreeLow SevWarn (HpDiskFreeLow f) None"
    if "h \<in> set (health_checks e x)" "hi_id h = IdDiskFreeLow" "hx_disk_free_bytes x = Some f" for h e x f
    using that by (auto simp: health_checks_def email_item_def stale_item_def Let_def split: if_splits option.splits)
  have fp: "hi_fingerprint t = tn_json en (HpDiskFreeLow free)"
    using disk [of t en "fst (snapshot_health_inputs en st)" free] t free [of en st] assms(2) by (simp add: get_health_fst)
  let ?x = "fst (snapshot_health_inputs en' st2)"
  have x: "hx_disk_free_bytes ?x = Some free'" using free assms(3) by simp
  then have "called_for ?x IdDiskFreeLow" using assms(5) by simp
  then obtain h where h: "h \<in> set (health_checks en' ?x)" "hi_id h = IdDiskFreeLow" using checked_called by blast
  then have "hi_fingerprint h = tn_json en' (HpDiskFreeLow free')" using disk [OF h x] by simp
  then have "\<not> is_dismissed h (hx_dismissed ?x)"
    using assms(4,6,7) st1 fp by (auto simp: is_dismissed_def list_ex_iff)
  then have "h \<in> set (current_health en' ?x)" using h(1) by simp
  then have "hi_id h \<in> hi_id ` set (current_health en' ?x)" by (rule imageI)
  then show ?thesis using h(2) by (simp only: get_health_fst set_map)
qed

section \<open>The web origin\<close>

lemma split_scheme_Some: "split_scheme s = Some (a, b) \<Longrightarrow> s = a @ ''://'' @ b"
  by (induction s arbitrary: a) (auto simp: starts_with_iff split: if_splits)

text \<open>The derived origin is the address of the API up to its path, with \<open>api.\<close> dropped from the host.\<close>

theorem web_origin_drops_api:
  assumes "derive_web_origin_from_api_url url = Some origin"
  shows "\<exists>scheme auth tail. trim_end_matches ''/'' (trim url) = scheme @ ''://api.'' @ auth @ tail \<and> scheme \<noteq> [] \<and> auth \<noteq> [] \<and>
    origin = scheme @ ''://'' @ auth \<and> set auth \<inter> set ''/?#'' = {} \<and> (tail = [] \<or> hd tail \<in> set ''/?#'')"
proof -
  obtain scheme rest where s: "split_scheme (trim_end_matches ''/'' (trim url)) = Some (scheme, rest)" "scheme \<noteq> []"
    and a: "starts_with (hd (split_on ''/?#'' rest)) ''api.''" "drop 4 (hd (split_on ''/?#'' rest)) \<noteq> []"
    "origin = scheme @ ''://'' @ drop 4 (hd (split_on ''/?#'' rest))"
    using assms by (auto simp: derive_web_origin_from_api_url_def Let_def split: if_splits option.splits)
  let ?auth = "takeWhile (\<lambda>c. c \<notin> set ''/?#'') rest" and ?tail = "dropWhile (\<lambda>c. c \<notin> set ''/?#'') rest"
  obtain auth where auth: "?auth = ''api.'' @ auth" using a(1) unfolding split_on_first starts_with_iff by blast
  have "rest = ''api.'' @ auth @ ?tail" using takeWhile_dropWhile_id [of "\<lambda>c. c \<notin> set ''/?#''" rest] unfolding auth by simp
  moreover have "set auth \<inter> set ''/?#'' = {}"
    using set_takeWhileD [of _ "\<lambda>c. c \<notin> set ''/?#''" rest] unfolding auth by fastforce
  moreover have "?tail = [] \<or> hd ?tail \<in> set ''/?#''"
    using hd_dropWhile [of "\<lambda>c. c \<notin> set ''/?#''" rest] by blast
  moreover have "drop 4 (hd (split_on ''/?#'' rest)) = auth" unfolding split_on_first auth by simp
  ultimately show ?thesis
    using split_scheme_Some [OF s(1)] s(2) a(2,3)
    by (intro exI [of _ scheme] exI [of _ auth] exI [of _ ?tail]) simp
qed

text \<open>
  The health surface does not use the derived origin: with the configuration the tray is installed with, the
  notice of an unconfirmed e-mail address is never shown, although the origin it needs can be derived.
\<close>

theorem derived_origin_never_prompts:
  assumes "tc_web_origin (ts_config st) = None"
  shows "IdEmailUnverified \<notin> set (map hi_id (fst (get_health en st)))"
proof -
  have "hx_web_origin (fst (snapshot_health_inputs en st)) = None"
    using assms by (simp add: snapshot_health_inputs_def Let_def case_prod_unfold)
  then have "\<not> called_for (fst (snapshot_health_inputs en st)) IdEmailUnverified" by simp
  then show ?thesis using checked_called [of en _ IdEmailUnverified] by (fastforce simp: get_health_fst)
qed

section \<open>What a save undoes\<close>

text \<open>
  Saving the configuration that was read before a dismissal undoes it: the log of dismissals is written back
  as it was and the item is shown again. The settings page saves the whole configuration it read at its start.
\<close>

lemma checks_web_origin:
  "filter (\<lambda>h. hi_id h \<noteq> IdEmailUnverified) (health_checks en (x\<lparr>hx_web_origin := origin\<rparr>)) =
   filter (\<lambda>h. hi_id h \<noteq> IdEmailUnverified) (health_checks en x)"
proof -
  have e: "filter (\<lambda>h. hi_id h \<noteq> IdEmailUnverified) (if c then email_item en y else []) = []" for c y
    by (auto simp: email_item_def split: option.split)
  show ?thesis unfolding health_checks_def Let_def filter_append e
    by (intro arg_cong2 [where f = append]) (auto simp: stale_item_def split: option.split)
qed

theorem stale_save_undoes_dismissal:
  assumes "dismiss_health en i st = (Inr (), st')"
  shows "i \<notin> set (map hi_id (fst (get_health en st'))) \<and>
    tc_dismissed_health (ts_config (save_config_file (get_config st) st')) = tc_dismissed_health (ts_config st) \<and>
    (i \<noteq> IdEmailUnverified \<longrightarrow> i \<in> set (map hi_id (fst (get_health en (save_config_file (get_config st) st')))))"
proof -
  let ?st = "save_config_file (get_config st) st'"
  have hidden: "i \<in> set (map hi_id (fst (get_health en st)))" "i \<notin> set (map hi_id (fst (get_health en st')))"
    using dismissal_hides_one_item [OF assms] by auto
  have log: "tc_dismissed_health (ts_config ?st) = tc_dismissed_health (ts_config st)"
    by (simp add: save_config_file_def get_config_def Let_def)
  obtain t :: health_item where st': "st' = (snd (get_health en st))\<lparr>ts_config := (ts_config st)\<lparr>tc_dismissed_health :=
      tc_dismissed_health (ts_config st) @ [\<lparr>dh_id = i, dh_fingerprint = hi_fingerprint t, dh_dismissed_at = tn_now en\<rparr>]\<rparr>\<rparr>"
    using dismiss_Inr [OF assms] by blast
  obtain origin where x: "fst (snapshot_health_inputs en ?st) = (fst (snapshot_health_inputs en st))\<lparr>hx_web_origin := origin\<rparr>"
    by (simp add: st' save_config_file_def get_config_def get_health_def snapshot_health_inputs_def Let_def case_prod_unfold cached_again)
  obtain h where h: "h \<in> set (health_checks en (fst (snapshot_health_inputs en st)))" "hi_id h = i"
    "\<not> is_dismissed h (tc_dismissed_health (ts_config st))"
    using hidden(1) by (auto simp: get_health_fst)
  have "h \<in> set (health_checks en (fst (snapshot_health_inputs en ?st)))" if "i \<noteq> IdEmailUnverified"
    using arg_cong [OF checks_web_origin, of set en origin "fst (snapshot_health_inputs en st)"] h(1,2) that
    unfolding x by auto
  then show ?thesis using hidden(2) log h(2,3) by (auto simp: get_health_fst)
qed

section \<open>The pairing address and the cookie\<close>

text \<open>
  Of the addresses without encryption the check of the pairing address means to let only the local machine
  through, but what precedes an \<open>@\<close> is not the host: with any host behind it the address passes.
\<close>

lemma validate_localhost: "validate_pair_url (''http://localhost:'' @ rest) = None"
  by (simp add: validate_pair_url_def starts_with_def Let_def split_on_first del: split_on.simps)

theorem pair_url_lets_any_host_through: "validate_pair_url (''http://localhost:x@'' @ host) = None"
  using validate_localhost [of "''x@'' @ host"] by simp

text \<open>Exactly what passes: a non-empty rest after \<open>https://\<close>, or a name of the local machine up to the first \<open>:\<close> or \<open>/\<close>.\<close>

lemma takeWhile_is: "takeWhile P xs = h \<longleftrightarrow> (\<exists>rest. xs = h @ rest \<and> list_all P h \<and> (rest = [] \<or> \<not> P (hd rest)))"
proof
  assume h: "takeWhile P xs = h"
  have "xs = h @ dropWhile P xs" using takeWhile_dropWhile_id [of P xs] h by simp
  moreover have "list_all P h" using h set_takeWhileD by (fastforce simp: list_all_iff)
  moreover have "dropWhile P xs = [] \<or> \<not> P (hd (dropWhile P xs))" using hd_dropWhile by blast
  ultimately show "\<exists>rest. xs = h @ rest \<and> list_all P h \<and> (rest = [] \<or> \<not> P (hd rest))" by blast
next
  assume "\<exists>rest. xs = h @ rest \<and> list_all P h \<and> (rest = [] \<or> \<not> P (hd rest))"
  then obtain rest where rest: "xs = h @ rest" "list_all P h" "rest = [] \<or> \<not> P (hd rest)" by blast
  then have "takeWhile P xs = h @ takeWhile P rest" by (simp add: takeWhile_append2 list_all_iff)
  then show "takeWhile P xs = h" using rest(3) by (cases rest) auto
qed

theorem pair_url_accepts:
  "validate_pair_url url = None \<longleftrightarrow>
     (\<exists>rest. url = ''https://'' @ rest \<and> rest \<noteq> []) \<or>
     (\<exists>host \<in> {''localhost'', ''127.0.0.1''}. \<exists>rest. url = ''http://'' @ host @ rest \<and> (rest = [] \<or> hd rest \<in> {CHR '':'', CHR ''/''}))"
proof -
  let ?only = "takeWhile (\<lambda>c. c \<noteq> CHR ''/'' \<and> c \<noteq> CHR '':'')"
  have only: "?only s = host \<longleftrightarrow> (\<exists>rest. s = host @ rest \<and> (rest = [] \<or> hd rest \<in> {CHR '':'', CHR ''/''}))"
    if "host \<in> {''localhost'', ''127.0.0.1''}" for s host
    using that unfolding takeWhile_is by auto
  have "validate_pair_url url = None \<longleftrightarrow> (\<exists>rest. url = ''https://'' @ rest \<and> rest \<noteq> []) \<or>
      (\<exists>rest. url = ''http://'' @ rest \<and> ?only rest \<in> {''localhost'', ''127.0.0.1''})"
  proof (cases "starts_with url ''https://''")
    case True
    then obtain rest where "url = ''https://'' @ rest" by (auto simp: starts_with_iff)
    then show ?thesis by (simp add: validate_pair_url_def starts_with_def)
  next
    case s: False
    show ?thesis
    proof (cases "starts_with url ''http://''")
      case True
      then obtain rest where "url = ''http://'' @ rest" by (auto simp: starts_with_iff)
      then show ?thesis by (simp add: validate_pair_url_def starts_with_def Let_def split_on_first takeWhile_takeWhile del: split_on.simps)
    next
      case False
      then have "\<nexists>rest. url = ''http://'' @ rest" "\<nexists>rest. url = ''https://'' @ rest" using s by (auto simp only: starts_with_iff)
      moreover have "validate_pair_url url \<noteq> None" using s False by (simp add: validate_pair_url_def)
      ultimately show ?thesis by blast
    qed
  qed
  moreover have each: "(\<exists>rest. url = p @ rest \<and> ?only rest = h) \<longleftrightarrow>
      (\<exists>rest. url = p @ h @ rest \<and> (rest = [] \<or> hd rest \<in> {CHR '':'', CHR ''/''}))"
    if "h \<in> {''localhost'', ''127.0.0.1''}" for p h
    unfolding only [OF that] by blast
  have "(\<exists>rest. url = p @ rest \<and> ?only rest \<in> {a, b}) \<longleftrightarrow>
      (\<exists>rest. url = p @ rest \<and> ?only rest = a) \<or> (\<exists>rest. url = p @ rest \<and> ?only rest = b)" for p a b
    by blast
  then have "(\<exists>rest. url = ''http://'' @ rest \<and> ?only rest \<in> {''localhost'', ''127.0.0.1''}) \<longleftrightarrow>
      (\<exists>host \<in> {''localhost'', ''127.0.0.1''}. \<exists>rest. url = ''http://'' @ host @ rest \<and> (rest = [] \<or> hd rest \<in> {CHR '':'', CHR ''/''}))"
    by (simp only: each insertI1 insertI2 bex_simps simp_thms)
  ultimately show ?thesis by (simp only:)
qed

text \<open>Of a cookie of single-byte characters the preview holds the last four bytes.\<close>

lemma take_chars_ascii: "list_all (\<lambda>c. \<not> is_cont c) s \<Longrightarrow> take_chars n s = take n s"
  by (induction s arbitrary: n) (auto split: nat.split)

theorem redact_last_four:
  assumes "list_all (\<lambda>c. \<not> is_cont c) s"
  shows "redact s = [CHR 0xE2, CHR 0x80, CHR 0xA6] @ drop (length s - 4) s"
proof -
  have "char_count s = length s" using assms by (simp add: char_count_def filter_id_conv list_all_iff)
  then show ?thesis using take_chars_ascii [OF assms] by (simp add: redact_def last_chars_def)
qed

end
