(* ===== verification/Reparse.thy ===== *)
theory Reparse
  imports Gamelog
begin

text \<open>
  Models the maintenance commands of \<^verbatim>\<open>crates/starstats-client/src/commands.rs\<close>: \<open>run_reparse\<close> with its
  three phases (classify the stored lines again, promote unknown samples, collapse bursts afterwards)
  and \<open>run_reingest\<close> (walk every rotated log again). The statements of the local store do not fail in the
  model, as in \<open>Storage\<close>; the discovered archives are an argument.
\<close>

section \<open>Reparse\<close>

record reparse_stats =
  rz_examined :: u64
  rz_updated :: u64
  rz_kept_unmatched :: u64
  rz_promoted_unknowns :: u64
  rz_bursts_collapsed :: u64
  rz_members_suppressed :: u64

definition no_reparse :: reparse_stats where
  "no_reparse = \<lparr>rz_examined = 0, rz_updated = 0, rz_kept_unmatched = 0, rz_promoted_unknowns = 0, rz_bursts_collapsed = 0,
     rz_members_suppressed = 0\<rparr>"

text \<open>The tag and the timestamp of the printed object are those of the derived serialiser.\<close>

definition serialise_for_reparse :: "platform \<Rightarrow> game_event \<Rightarrow> (string \<times> string \<times> string) option" where
  "serialise_for_reparse pf event = Some (event_type_key event, timestamp_of event, pf_to_json pf event)"

text \<open>The current rules on one stored line: \<open>None\<close> when it does not parse or nothing matches.\<close>

definition classify_stored :: "platform \<Rightarrow> compiled_remote_rule list \<Rightarrow> string \<Rightarrow> game_event option outcome" where
  "classify_stored pf rules line =
     obind (structural_parse (pf_rx pf) line) (\<lambda>parsed.
       case parsed of
         None \<Rightarrow> Ret None
       | Some l \<Rightarrow>
           obind (classify (pf_rx pf) l) (\<lambda>built_in.
             Ret (case built_in of Some e \<Rightarrow> Some e | None \<Rightarrow> apply_remote_rules (pf_rx pf) l rules)))"

subsection \<open>Phase 1\<close>

definition track_zone :: "game_event \<Rightarrow> string option \<Rightarrow> string option" where
  "track_zone event last_zone =
     (case event of
        PlanetTerrainLoad t \<Rightarrow> Some (pt_planet t)
      | LocationInventoryRequested l \<Rightarrow> if li_location l \<noteq> ''INVALID_LOCATION_ID'' then Some (li_location l) else last_zone
      | _ \<Rightarrow> last_zone)"

definition enrich_zone :: "string option \<Rightarrow> game_event \<Rightarrow> game_event" where
  "enrich_zone last_zone event =
     (case event of
        PlayerDeath d \<Rightarrow> if pd_zone d = None then PlayerDeath (d\<lparr>pd_zone := last_zone\<rparr>) else event
      | PlayerIncapacitated i \<Rightarrow> if pin_zone i = None then PlayerIncapacitated (i\<lparr>pin_zone := last_zone\<rparr>) else event
      | _ \<Rightarrow> event)"

definition reparse_row ::
    "platform \<Rightarrow> compiled_remote_rule list \<Rightarrow> event_row \<Rightarrow> reparse_stats \<times> string option \<times> storage \<Rightarrow>
     (reparse_stats \<times> string option \<times> storage) outcome" where
  "reparse_row pf rules row s =
     (case s of (stats, last_zone, st) \<Rightarrow>
        let stats = stats\<lparr>rz_examined := rz_examined stats + 1\<rparr>;
            kept = stats\<lparr>rz_kept_unmatched := rz_kept_unmatched stats + 1\<rparr>
        in obind (classify_stored pf rules (ev_raw_line row)) (\<lambda>classified.
             case classified of
               None \<Rightarrow> Ret (kept, last_zone, st)
             | Some new_event \<Rightarrow>
                 let last_zone = track_zone new_event last_zone
                 in case serialise_for_reparse pf (enrich_zone last_zone new_event) of
                      None \<Rightarrow> Ret (kept, last_zone, st)
                    | Some (new_type, new_ts, new_payload) \<Rightarrow>
                        if new_type \<noteq> ev_event_type row \<or> new_ts \<noteq> ev_timestamp row \<or> new_payload \<noteq> ev_payload_json row
                        then Ret (stats\<lparr>rz_updated := rz_updated stats + 1\<rparr>, last_zone,
                               snd (update_event_classification (ev_id row) new_type new_ts new_payload st))
                        else Ret (stats, last_zone, st)))"

definition reparse_phase1 ::
    "platform \<Rightarrow> compiled_remote_rule list \<Rightarrow> storage \<Rightarrow> (reparse_stats \<times> storage) outcome" where
  "reparse_phase1 pf rules st =
     obind (ofold (reparse_row pf rules) (event_batches 500 0 (s_events st)) (no_reparse, None, st)) (\<lambda>(stats, _, st). Ret (stats, st))"

subsection \<open>Phase 2\<close>

definition recent_unknowns :: "storage \<Rightarrow> unknown_sample_row list" where
  "recent_unknowns st = rev (sort_key us_occurrences (sort_key us_last_seen (s_unknown_samples st)))"

definition reparse_idempotency_key :: "platform \<Rightarrow> string \<Rightarrow> string \<Rightarrow> string" where
  "reparse_idempotency_key pf log_source line = pf_uuid5 pf (''reparse:'' @ log_source @ '':'' @ line)"

definition promote_unknown ::
    "platform \<Rightarrow> compiled_remote_rule list \<Rightarrow> unknown_sample_row \<Rightarrow> reparse_stats \<times> storage \<Rightarrow> (reparse_stats \<times> storage) outcome" where
  "promote_unknown pf rules sample s =
     (case s of (stats, st) \<Rightarrow>
        obind (classify_stored pf rules (us_sample_line sample)) (\<lambda>classified.
          case classified of
            None \<Rightarrow> Ret (stats, st)
          | Some new_event \<Rightarrow>
              (case serialise_for_reparse pf new_event of
                 None \<Rightarrow> Ret (stats, st)
               | Some (new_type, new_ts, new_payload) \<Rightarrow>
                   Ret (stats\<lparr>rz_promoted_unknowns := rz_promoted_unknowns stats + 1\<rparr>,
                     snd (delete_unknown (us_log_source sample) (us_event_name sample)
                       (insert_event (reparse_idempotency_key pf (us_log_source sample) (us_sample_line sample)) new_type new_ts
                          (us_sample_line sample) new_payload (us_log_source sample) 0 st))))))"

definition reparse_phase2 ::
    "platform \<Rightarrow> compiled_remote_rule list \<Rightarrow> reparse_stats \<times> storage \<Rightarrow> (reparse_stats \<times> storage) outcome" where
  "reparse_phase2 pf rules s = ofold (promote_unknown pf rules) (recent_unknowns (snd s)) s"

subsection \<open>Phase 3\<close>

definition distinct_log_sources :: "storage \<Rightarrow> string list" where
  "distinct_log_sources st = sort (remdups (map ev_log_source (s_events st)))"

definition burst_idempotency_key :: "platform \<Rightarrow> string \<Rightarrow> u64 \<Rightarrow> string \<Rightarrow> string" where
  "burst_idempotency_key pf log_source offset line = pf_uuid5 pf (log_source @ '':'' @ nat_text (unat offset) @ '':'' @ line)"

text \<open>The members of a burst are deleted after its summary was inserted.\<close>

definition delete_members :: "int list \<Rightarrow> reparse_stats \<times> storage \<Rightarrow> reparse_stats \<times> storage" where
  "delete_members ids s = fold (\<lambda>i (stats, st). let (n, st) = delete_event_by_id i st
     in (stats\<lparr>rz_members_suppressed := saturating_add (rz_members_suppressed stats) (of_nat n)\<rparr>, st)) ids s"

definition collapse_hit ::
    "platform \<Rightarrow> string \<Rightarrow> event_row list \<Rightarrow> (nat \<times> log_line) list \<Rightarrow> burst_hit \<Rightarrow> reparse_stats \<times> storage \<Rightarrow>
     (reparse_stats \<times> storage) outcome" where
  "collapse_hit pf log_source rows valid burst s =
     obind (idx valid (bh_start_index burst)) (\<lambda>(anchor_row_idx, anchor_log).
     obind (idx rows anchor_row_idx) (\<lambda>anchor_row.
     obind (idx valid (bh_end_index burst)) (\<lambda>(_, end_log).
     obind (omap (\<lambda>i. obind (idx valid i) (\<lambda>(j, _). obind (idx rows j) (\<lambda>r. Ret (ev_id r)))) (bh_member_indices burst)) (\<lambda>member_db_ids.
       case serialise_for_reparse pf (burst_summary_of burst anchor_log end_log) of
         None \<Rightarrow> Ret s
       | Some (event_type, ts, payload) \<Rightarrow>
           let key = burst_idempotency_key pf log_source (ev_source_offset anchor_row) (synthetic_line (ev_raw_line anchor_row) burst);
               (stats, st) = delete_members member_db_ids (fst s,
                 insert_event key event_type ts (ev_raw_line anchor_row) payload log_source (ev_source_offset anchor_row) (snd s))
           in Ret (stats\<lparr>rz_bursts_collapsed := rz_bursts_collapsed stats + 1\<rparr>, st)))))"

definition collapse_source :: "platform \<Rightarrow> string \<Rightarrow> reparse_stats \<times> storage \<Rightarrow> (reparse_stats \<times> storage) outcome" where
  "collapse_source pf log_source s =
     (let rows = events_for_burst_scan log_source (snd s)
      in obind (omap (\<lambda>(i, r). if ev_event_type r = ''burst_summary'' then Ret None
               else obind (structural_parse (pf_rx pf) (ev_raw_line r)) (\<lambda>p. Ret (map_option (Pair i) p))) (enumerate 0 rows)) (\<lambda>ps.
           let valid = List.map_filter id ps
           in if length valid < 2 then Ret s
              else ofold (collapse_hit pf log_source rows valid) (detect_bursts (map snd valid) builtin_burst_rules) s))"

definition reparse_phase3 :: "platform \<Rightarrow> reparse_stats \<times> storage \<Rightarrow> (reparse_stats \<times> storage) outcome" where
  "reparse_phase3 pf s = ofold (collapse_source pf) (distinct_log_sources (snd s)) s"

definition run_reparse :: "platform \<Rightarrow> compiled_remote_rule list \<Rightarrow> storage \<Rightarrow> (reparse_stats \<times> storage) outcome" where
  "run_reparse pf rules st =
     obind (reparse_phase1 pf rules st) (\<lambda>s. obind (reparse_phase2 pf rules s) (reparse_phase3 pf))"

section \<open>Reingest\<close>

record reingest_stats =
  ri_files_walked :: u32
  ri_files_failed :: u32
  ri_lines_processed :: u64
  ri_events_recognised :: u64

text \<open>A read error or an unfinished last line ends the walk of the file.\<close>

fun reingest_loop ::
    "platform \<Rightarrow> string \<Rightarrow> compiled_remote_rule list \<Rightarrow> string list \<Rightarrow> u64 \<Rightarrow> u64 \<Rightarrow> u64 \<Rightarrow> storage \<Rightarrow>
     (u64 \<times> u64 \<times> u64 \<times> storage) outcome" where
  "reingest_loop pf log_source rules [] offset n_lines n_events st = Ret (offset, n_lines, n_events, st)"
| "reingest_loop pf log_source rules (buf # rest) offset n_lines n_events st =
     (if \<not> utf8_valid buf \<or> \<not> ends_with buf [newline] then Ret (offset, n_lines, n_events, st)
      else
        obind (ingest_one_line pf log_source rules (trim_line buf) offset st) (\<lambda>(out, st).
          reingest_loop pf log_source rules rest (offset + of_nat (length buf)) (n_lines + 1)
            (n_events + (if is_recognised out then 1 else 0)) st))"

definition reingest_file ::
    "platform \<Rightarrow> compiled_remote_rule list \<Rightarrow> string list \<times> string \<times> string option \<Rightarrow> storage \<times> reingest_stats \<Rightarrow>
     (storage \<times> reingest_stats) outcome" where
  "reingest_file pf rules archive s =
     (case (archive, s) of ((path, path_str, file), (st, stats)) \<Rightarrow>
        case file of
          None \<Rightarrow> Ret (st, stats\<lparr>ri_files_failed := ri_files_failed stats + 1\<rparr>)
        | Some content \<Rightarrow>
            obind (reingest_loop pf (log_source_from_path path) rules (chunks content) 0 0 0 st) (\<lambda>(offset, n_lines, n_events, st).
              Ret (write_cursor path_str offset st,
                stats\<lparr>ri_files_walked := ri_files_walked stats + 1,
                  ri_lines_processed := saturating_add (ri_lines_processed stats) n_lines,
                  ri_events_recognised := saturating_add (ri_events_recognised stats) n_events\<rparr>)))"

definition run_reingest ::
    "platform \<Rightarrow> compiled_remote_rule list \<Rightarrow> (string list \<times> string \<times> string option) list \<Rightarrow> storage \<Rightarrow> (storage \<times> reingest_stats) outcome" where
  "run_reingest pf rules archived st =
     ofold (reingest_file pf rules) archived
       (st, \<lparr>ri_files_walked = 0, ri_files_failed = 0, ri_lines_processed = 0, ri_events_recognised = 0\<rparr>)"

end
