(* ===== verification/Reparse_Props.thy ===== *)
theory Reparse_Props
  imports Reparse
begin

text \<open>
  What the maintenance commands of \<open>Reparse\<close> guarantee: Phase 1 against a one-pass reference, its second
  run, what it does to burst summaries, how Phase 2 treats lines that are stored already, the walk of the
  rotated logs, and that neither command panics or breaks the store.
\<close>

section \<open>Phase 1 as one pass\<close>

lemma classify_stored_Ret:
  assumes "classify_stored pf rules line = Ret x"
  shows "x = line_event (pf_rx pf) rules line"
  using assms by (auto simp: classify_stored_def line_event_def outcome_simps split: option.splits)

lemma sorted_filter_tail:
  fixes f :: "'a \<Rightarrow> int"
  assumes "sorted_wrt (<) (map f (xs @ ys))" and "xs \<noteq> []"
  shows "filter (\<lambda>r. f r > f (last xs)) (xs @ ys) = ys"
proof -
  obtain b l where xs: "xs = b @ [l]" using assms(2) by (cases xs rule: rev_cases) auto
  have "f x \<le> f l" if "x \<in> set xs" for x
    using assms(1) that by (auto simp: xs sorted_wrt_append)
  then have 1: "filter (\<lambda>r. f r > f l) xs = []" by (auto simp: filter_empty_conv not_less)
  have "f l < f y" if "y \<in> set ys" for y
    using assms(1) that by (auto simp: xs sorted_wrt_append)
  then have 2: "filter (\<lambda>r. f r > f l) ys = ys" by (auto simp: filter_id_conv)
  show ?thesis using 1 2 by (simp add: xs)
qed

lemma event_batches_all:
  assumes "sorted_wrt (<) (map ev_id events)" and "0 < n"
  shows "event_batches n i events = filter (\<lambda>r. ev_id r > i) events"
  using assms
proof (induction n i events rule: event_batches.induct)
  case (1 n i events)
  let ?fs = "filter (\<lambda>r. ev_id r > i) events"
  show ?case
  proof (cases "take n ?fs")
    case Nil
    then show ?thesis using 1(3) by (subst event_batches.simps) simp
  next
    case (Cons r rs)
    let ?l = "last (r # rs)"
    have split: "?fs = (r # rs) @ drop n ?fs" using Cons by (metis append_take_drop_id)
    have srt: "sorted_wrt (<) (map ev_id ?fs)" using 1(2) by (simp add: sorted_wrt_map sorted_wrt_filter)
    have "?l \<in> set ?fs" using split by (metis Un_iff last_in_set list.discI set_append)
    then have above: "ev_id ?l > i" by simp
    have "filter (\<lambda>x. ev_id x > ev_id ?l) events = filter (\<lambda>x. ev_id x > ev_id ?l) ?fs"
      using above by (auto intro: filter_cong)
    also have "\<dots> = filter (\<lambda>x. ev_id x > ev_id ?l) ((r # rs) @ drop n ?fs)" by (rule arg_cong [OF split])
    also have "\<dots> = drop n ?fs"
      by (rule sorted_filter_tail) (use srt split in \<open>simp_all only: list.discI list.simps not_False_eq_True\<close>)
    finally have rest: "filter (\<lambda>x. ev_id x > ev_id ?l) events = drop n ?fs" .
    have "event_batches n i events = (r # rs) @ event_batches n (ev_id ?l) events"
      by (subst event_batches.simps) (simp add: Cons)
    also have "\<dots> = (r # rs) @ drop n ?fs" by (simp only: 1(1) [OF Cons 1(2,3)] rest)
    finally show ?thesis by (simp only: split [symmetric])
  qed
qed

text \<open>The rows after Phase 1, with the zone carried along.\<close>

definition zone_after :: "platform \<Rightarrow> compiled_remote_rule list \<Rightarrow> string option \<Rightarrow> event_row \<Rightarrow> string option" where
  "zone_after pf rules z row = (case line_event (pf_rx pf) rules (ev_raw_line row) of None \<Rightarrow> z | Some e \<Rightarrow> track_zone e z)"

definition relabel_row :: "platform \<Rightarrow> compiled_remote_rule list \<Rightarrow> string option \<Rightarrow> event_row \<Rightarrow> event_row" where
  "relabel_row pf rules z row =
     (case line_event (pf_rx pf) rules (ev_raw_line row) of
        None \<Rightarrow> row
      | Some e \<Rightarrow>
          let e = enrich_zone (track_zone e z) e
          in row\<lparr>ev_event_type := event_type_key e, ev_timestamp := timestamp_of e, ev_payload_json := pf_to_json pf e\<rparr>)"

fun relabel :: "platform \<Rightarrow> compiled_remote_rule list \<Rightarrow> string option \<Rightarrow> event_row list \<Rightarrow> event_row list" where
  "relabel pf rules z [] = []"
| "relabel pf rules z (row # rows) = relabel_row pf rules z row # relabel pf rules (zone_after pf rules z row) rows"

lemma relabel_row_keeps [simp]:
  "ev_raw_line (relabel_row pf rules z row) = ev_raw_line row"
  "ev_id (relabel_row pf rules z row) = ev_id row"
  "ev_idempotency_key (relabel_row pf rules z row) = ev_idempotency_key row"
  "ev_log_source (relabel_row pf rules z row) = ev_log_source row"
  "ev_source_offset (relabel_row pf rules z row) = ev_source_offset row"
  by (simp_all add: relabel_row_def Let_def split: option.split)

lemma zone_after_relabel [simp]: "zone_after pf rules z' (relabel_row pf rules z row) = zone_after pf rules z' row"
  by (simp add: zone_after_def)

lemma relabel_row_twice [simp]: "relabel_row pf rules z (relabel_row pf rules z row) = relabel_row pf rules z row"
  by (cases row) (simp add: relabel_row_def Let_def split: option.split)

lemma relabel_twice: "relabel pf rules z (relabel pf rules z rows) = relabel pf rules z rows"
  by (induction rows arbitrary: z) simp_all

lemma relabel_ids [simp]:
  "map ev_id (relabel pf rules z rows) = map ev_id rows"
  "map ev_idempotency_key (relabel pf rules z rows) = map ev_idempotency_key rows"
  "map ev_raw_line (relabel pf rules z rows) = map ev_raw_line rows"
  "length (relabel pf rules z rows) = length rows"
  by (induction rows arbitrary: z) simp_all

definition changed_rows :: "event_row list \<Rightarrow> event_row list \<Rightarrow> nat" where
  "changed_rows old new = length (filter (\<lambda>(a, b). a \<noteq> b) (zip old new))"

lemma changed_rows_simps [simp]:
  "changed_rows [] [] = 0" "changed_rows (a # as) (b # bs) = (if a = b then 0 else 1) + changed_rows as bs"
  by (simp_all add: changed_rows_def)

lemma changed_rows_same [simp]: "changed_rows rows rows = 0"
  by (induction rows) simp_all

lemma relabel_row_same:
  "relabel_row pf rules z row = row \<longleftrightarrow>
     (\<forall>e. line_event (pf_rx pf) rules (ev_raw_line row) = Some e \<longrightarrow>
       ev_event_type row = event_type_key (enrich_zone (track_zone e z) e) \<and>
       ev_timestamp row = timestamp_of (enrich_zone (track_zone e z) e) \<and>
       ev_payload_json row = pf_to_json pf (enrich_zone (track_zone e z) e))"
  by (cases row) (auto simp: relabel_row_def Let_def split: option.split)

lemma update_middle:
  assumes "distinct (map ev_id (a @ row # b))"
  shows "snd (update_event_classification (ev_id row) ty ts p (st\<lparr>s_events := a @ row # b\<rparr>)) =
    st\<lparr>s_events := a @ row\<lparr>ev_event_type := ty, ev_timestamp := ts, ev_payload_json := p\<rparr> # b\<rparr>"
proof -
  have "\<forall>r \<in> set a \<union> set b. ev_id r \<noteq> ev_id row" using assms by (auto simp: image_iff)
  then have "map (\<lambda>r. if ev_id r = ev_id row then
      r\<lparr>ev_event_type := ty, ev_timestamp := ts, ev_payload_json := p\<rparr> else r) xs = xs" if "set xs \<subseteq> set a \<union> set b" for xs
    using that by (intro map_idI) auto
  then show ?thesis by (simp add: update_event_classification_def)
qed

lemma reparse_row_step:
  assumes "reparse_row pf rules row (stats, z, st\<lparr>s_events := a @ row # b\<rparr>) = Ret (stats', z', st')"
    and "distinct (map ev_id (a @ row # b))"
  shows "st' = st\<lparr>s_events := a @ relabel_row pf rules z row # b\<rparr> \<and> z' = zone_after pf rules z row \<and>
    rz_examined stats' = rz_examined stats + 1 \<and>
    rz_updated stats' = rz_updated stats + (if relabel_row pf rules z row = row then 0 else 1) \<and>
    rz_kept_unmatched stats' = rz_kept_unmatched stats +
      (if line_event (pf_rx pf) rules (ev_raw_line row) = None then 1 else 0)"
proof -
  obtain c where c: "classify_stored pf rules (ev_raw_line row) = Ret c"
    using assms(1) by (auto simp: reparse_row_def Let_def outcome_simps)
  have e: "line_event (pf_rx pf) rules (ev_raw_line row) = c" using classify_stored_Ret [OF c] by simp
  show ?thesis
  proof (cases c)
    case None
    then show ?thesis using assms(1) c e by (auto simp: reparse_row_def Let_def relabel_row_def zone_after_def)
  next
    case (Some ev)
    let ?e = "enrich_zone (track_zone ev z) ev"
    let ?same = "ev_event_type row = event_type_key ?e \<and> ev_timestamp row = timestamp_of ?e \<and> ev_payload_json row = pf_to_json pf ?e"
    have same: "relabel_row pf rules z row = row \<longleftrightarrow> ?same" using e Some by (simp add: relabel_row_same)
    have new: "relabel_row pf rules z row = row\<lparr>ev_event_type := event_type_key ?e, ev_timestamp := timestamp_of ?e,
        ev_payload_json := pf_to_json pf ?e\<rparr>"
      using e Some by (simp add: relabel_row_def Let_def)
    have z: "zone_after pf rules z row = track_zone ev z" using e Some by (simp add: zone_after_def)
    show ?thesis
    proof (cases ?same)
      case True
      then have "relabel_row pf rules z row = row" using same by blast
      then show ?thesis using True assms(1) c Some e z by (auto simp: reparse_row_def Let_def serialise_for_reparse_def)
    next
      case False
      then have "relabel_row pf rules z row \<noteq> row" using same by blast
      then show ?thesis
        using False assms(1) c Some e z update_middle [OF assms(2)]
        by (auto simp: reparse_row_def Let_def serialise_for_reparse_def new [symmetric])
    qed
  qed
qed

lemma reparse_fold:
  assumes "ofold (reparse_row pf rules) rows (stats, z, st\<lparr>s_events := a @ rows\<rparr>) = Ret (stats', z', st')"
    and "distinct (map ev_id (a @ rows))"
  shows "st' = st\<lparr>s_events := a @ relabel pf rules z rows\<rparr> \<and>
    rz_examined stats' = rz_examined stats + of_nat (length rows) \<and>
    rz_updated stats' = rz_updated stats + of_nat (changed_rows rows (relabel pf rules z rows)) \<and>
    rz_kept_unmatched stats' = rz_kept_unmatched stats +
      of_nat (length (filter (\<lambda>r. line_event (pf_rx pf) rules (ev_raw_line r) = None) rows))"
  using assms
proof (induction rows arbitrary: stats z a)
  case (Cons row rows)
  obtain stats1 z1 st1 where s: "reparse_row pf rules row (stats, z, st\<lparr>s_events := a @ row # rows\<rparr>) = Ret (stats1, z1, st1)"
    and r: "ofold (reparse_row pf rules) rows (stats1, z1, st1) = Ret (stats', z', st')"
    using Cons.prems(1) by (auto simp: outcome_simps)
  note 1 = reparse_row_step [OF s Cons.prems(2)]
  have "ofold (reparse_row pf rules) rows (stats1, zone_after pf rules z row,
      st\<lparr>s_events := (a @ [relabel_row pf rules z row]) @ rows\<rparr>) = Ret (stats', z', st')"
    using r 1 by simp
  from Cons.IH [OF this] Cons.prems(2) 1 show ?case by (simp add: add.assoc eq_commute [of row])
qed simp

lemma relabelled_ok:
  assumes "storage_ok st"
  shows "storage_ok (st\<lparr>s_events := relabel pf rules z (s_events st)\<rparr>)"
proof -
  have "(\<forall>r \<in> set (relabel pf rules z rows). P (ev_id r)) \<longleftrightarrow> (\<forall>r \<in> set rows. P (ev_id r))" for P z rows
    by (induction rows arbitrary: z) auto
  from this [of z "s_events st" "\<lambda>i. 1 \<le> i \<and> i < s_next_id st"] show ?thesis
    using assms by (simp add: storage_ok_def)
qed

lemma reparse_phase1_reference:
  assumes "storage_ok st" and "reparse_phase1 pf rules st = Ret (stats, st')"
  shows "st' = st\<lparr>s_events := relabel pf rules None (s_events st)\<rparr> \<and>
    rz_examined stats = of_nat (length (s_events st)) \<and>
    rz_updated stats = of_nat (changed_rows (s_events st) (relabel pf rules None (s_events st))) \<and>
    rz_kept_unmatched stats =
      of_nat (length (filter (\<lambda>r. line_event (pf_rx pf) rules (ev_raw_line r) = None) (s_events st)))"
proof -
  have srt: "sorted_wrt (<) (map ev_id (s_events st))" and pos: "\<forall>r \<in> set (s_events st). ev_id r > 0"
    using assms(1) by (auto simp: storage_ok_def)
  then have "event_batches 500 0 (s_events st) = s_events st"
    by (simp add: event_batches_all filter_id_conv)
  moreover have "distinct (map ev_id ([] @ s_events st))"
    using srt by (simp add: strict_sorted_iff)
  ultimately show ?thesis
    using assms(2) reparse_fold [where rows = "s_events st" and stats = no_reparse and z = None and st = st and a = "[]"]
    by (auto simp: reparse_phase1_def outcome_simps no_reparse_def)
qed


text \<open>
  Phase 1 is one pass of the current rules over the rows in id order: the ids, the keys, the raw lines and
  the sources stay, a row whose line no rule recognises stays as it is, and every other row gets the type,
  the timestamp and the payload of its line's event, a death without a zone the last zone seen above it. The
  three counters are exact, and a second Phase 1 changes nothing and reports no update.
\<close>

theorem reparse_phase1_is_one_pass:
  assumes "storage_ok st" and "reparse_phase1 pf rules st = Ret (stats, st')"
  shows "st' = st\<lparr>s_events := relabel pf rules None (s_events st)\<rparr> \<and>
    rz_examined stats = of_nat (length (s_events st)) \<and>
    rz_updated stats = of_nat (changed_rows (s_events st) (s_events st')) \<and>
    rz_kept_unmatched stats =
      of_nat (length (filter (\<lambda>r. line_event (pf_rx pf) rules (ev_raw_line r) = None) (s_events st))) \<and>
    (\<forall>stats2 st2. reparse_phase1 pf rules st' = Ret (stats2, st2) \<longrightarrow> st2 = st' \<and> rz_updated stats2 = 0)"
proof -
  note 1 = reparse_phase1_reference [OF assms]
  have ok: "storage_ok st'" using 1 relabelled_ok [OF assms(1)] by simp
  have "st2 = st' \<and> rz_updated stats2 = 0" if "reparse_phase1 pf rules st' = Ret (stats2, st2)" for stats2 st2
    using reparse_phase1_reference [OF ok that] 1 by (simp add: relabel_twice)
  then show ?thesis using 1 by simp
qed

section \<open>Phase 1 and burst summaries\<close>

lemma body_prefix_not_summary: "emits (\<lambda>e. event_type_key e \<noteq> ''burst_summary'') (classify_body_prefix rx ts body)"
  unfolding classify_body_prefix_def Let_def by (intro emits_intros) simp_all

lemma arms_not_summary:
  assumes "shell_arm tags event = Some arm"
  shows "emits (\<lambda>e. event_type_key e \<noteq> ''burst_summary'') (arm rx ts body)"
proof -
  let ?P = "\<lambda>e. event_type_key e \<noteq> ''burst_summary''"
  have "emits ?P (arm_process_init rx ts body)" "emits ?P (arm_legacy_login rx ts body)"
    "emits ?P (arm_join_pu rx ts body)" "emits ?P (arm_change_server rx ph ts body)"
    "emits ?P (arm_seed_solar_system rx su ts body)" "emits ?P (arm_resolve_spawn rx ts body)"
    "emits ?P (arm_actor_death rx ts body)" "emits ?P (arm_vehicle_destruction rx ts body)"
    "emits ?P (arm_hud_notification rx ts body)" "emits ?P (arm_player_death rx ts body)"
    "emits ?P (arm_location_inventory rx ts body)" "emits ?P (arm_planet_terrain rx ts body)"
    "emits ?P (arm_vehicle_stowed rx ts body)" "emits ?P (arm_attachment_received rx ts body)"
    "emits ?P (arm_quantum_target rx qp ts body)" "emits ?P (arm_mission_phase rx ts body)"
    "emits ?P (arm_end_mission rx ts body)" for ph su qp
    unfolding arm_defs Let_def by ((intro emits_intros)?; auto)+
  then show ?thesis using assms by (auto simp: shell_arm_def split: if_splits)
qed

lemma line_event_not_summary:
  assumes "line_event rx rules line = Some e"
  shows "event_type_key e \<noteq> ''burst_summary''"
proof -
  have c: "emits (\<lambda>e. event_type_key e \<noteq> ''burst_summary'') (classify rx l)" for l
    by (auto simp: classify_def body_prefix_not_summary arms_not_summary split: option.split)
  have "event_type_key e \<noteq> ''burst_summary''" if "apply_remote_rules rx l rules = Some e" for l
    using that by (auto simp: apply_remote_rules_eq remote_match_of_def split: option.splits)
  then show ?thesis
    using assms c by (auto simp: line_event_def emits_def split: outcome.splits option.splits)
qed

lemma enrich_zone_key [simp]: "event_type_key (enrich_zone z e) = event_type_key e"
  by (simp add: enrich_zone_def split: game_event.split)


lemma relabel_rows: "r \<in> set (relabel pf rules z rows) \<Longrightarrow> \<exists>z' r0. r0 \<in> set rows \<and> r = relabel_row pf rules z' r0"
  by (induction rows arbitrary: z) (auto, blast)

lemma relabelled_summary:
  assumes "r \<in> set (relabel pf rules z rows)" and "ev_event_type r = ''burst_summary''"
  shows "line_event (pf_rx pf) rules (ev_raw_line r) = None"
proof -
  obtain z' r0 where r: "r0 \<in> set rows" "r = relabel_row pf rules z' r0" using relabel_rows [OF assms(1)] by blast
  show ?thesis
  proof (cases "line_event (pf_rx pf) rules (ev_raw_line r0)")
    case (Some e)
    then have "ev_event_type r = event_type_key e" using r(2) by (simp add: relabel_row_def Let_def)
    then show ?thesis using assms(2) line_event_not_summary [OF Some] by simp
  qed (use r(2) in simp)
qed

text \<open>
  A burst does not survive a Re-parse. A summary row, whoever wrote it, keeps the line of its anchor as its
  raw line, and the members are gone or were never stored; Phase 1 has no exception for such rows. So when
  the anchor's line is one the rules recognise, the row turns into that single event: after Phase 1 no
  summary is left but those whose anchor alone classifies as nothing.
\<close>

theorem reparse_turns_summaries_into_anchors:
  assumes "storage_ok st" and "reparse_phase1 pf rules st = Ret (stats, st')"
    and "r \<in> set (s_events st)" and "ev_event_type r = ''burst_summary''"
    and "line_event (pf_rx pf) rules (ev_raw_line r) = Some e"
  shows "(\<exists>r' \<in> set (s_events st'). ev_id r' = ev_id r \<and> ev_idempotency_key r' = ev_idempotency_key r \<and>
      ev_event_type r' = event_type_key e \<and> ev_event_type r' \<noteq> ''burst_summary'') \<and>
    (\<forall>r' \<in> set (s_events st'). ev_event_type r' = ''burst_summary'' \<longrightarrow>
      line_event (pf_rx pf) rules (ev_raw_line r') = None)"
proof -
  have st': "s_events st' = relabel pf rules None (s_events st)" using reparse_phase1_reference [OF assms(1,2)] by simp
  have "\<exists>z'. relabel_row pf rules z' r \<in> set (relabel pf rules z rows)" if "r \<in> set rows" for z rows
    using that by (induction rows arbitrary: z) auto
  then obtain z' where "relabel_row pf rules z' r \<in> set (s_events st')" using assms(3) unfolding st' by blast
  moreover have "ev_event_type (relabel_row pf rules z' r) = event_type_key e"
    using assms(5) by (simp add: relabel_row_def Let_def)
  ultimately show ?thesis
    using line_event_not_summary [OF assms(5)] relabelled_summary unfolding st' by (metis relabel_row_keeps(2,3))
qed


section \<open>Promotion\<close>

definition promotion_request :: "platform \<Rightarrow> unknown_sample_row \<Rightarrow> game_event \<Rightarrow> insert_request" where
  "promotion_request pf u e =
     (reparse_idempotency_key pf (us_log_source u) (us_sample_line u),
      (event_type_key e, timestamp_of e, us_sample_line u, pf_to_json pf e, us_log_source u, 0))"

lemma promote_Ret:
  assumes "promote_unknown pf rules u (stats, st) = Ret (stats', st')"
  shows "(line_event (pf_rx pf) rules (us_sample_line u) = None \<and> st' = st \<and> stats' = stats) \<or>
    (\<exists>e. line_event (pf_rx pf) rules (us_sample_line u) = Some e \<and>
      st' = snd (delete_unknown (us_log_source u) (us_event_name u) (store [promotion_request pf u e] st)) \<and>
      stats' = stats\<lparr>rz_promoted_unknowns := rz_promoted_unknowns stats + 1\<rparr>)"
proof -
  obtain c where c: "classify_stored pf rules (us_sample_line u) = Ret c"
    using assms by (auto simp: promote_unknown_def outcome_simps)
  show ?thesis
    using assms c classify_stored_Ret [OF c, symmetric]
    by (cases c) (auto simp: promote_unknown_def serialise_for_reparse_def promotion_request_def put_event_def)
qed

lemma store_one_ok: "storage_ok st \<Longrightarrow> storage_ok (store [r] st)"
  by (cases r) (simp add: put_event_def insert_event_ok split: prod.split)

lemma delete_unknown_ok: "storage_ok st \<Longrightarrow> storage_ok (snd (delete_unknown src n st))"
  by (simp add: delete_unknown_def Let_def storage_ok_def distinct_map_filter_key)

lemma store_samples [simp]: "s_unknown_samples (store rs st) = s_unknown_samples st"
  by (induction rs arbitrary: st) (auto simp: put_event_def insert_event_def split: prod.split)

lemma promote_samples:
  assumes "promote_unknown pf rules u (stats, st) = Ret (stats', st')"
  shows "s_unknown_samples st' = filter (\<lambda>x. \<not> (us_log_source x = us_log_source u \<and> us_event_name x = us_event_name u \<and>
      line_event (pf_rx pf) rules (us_sample_line u) \<noteq> None)) (s_unknown_samples st)"
  using promote_Ret [OF assms] by (auto simp: delete_unknown_def Let_def intro!: filter_cong)

lemma promote_fold_samples:
  assumes "ofold (promote_unknown pf rules) us (stats, st) = Ret (stats', st')"
  shows "s_unknown_samples st' = filter (\<lambda>x. \<forall>u \<in> set us. \<not> (us_log_source x = us_log_source u \<and> us_event_name x = us_event_name u \<and>
      line_event (pf_rx pf) rules (us_sample_line u) \<noteq> None)) (s_unknown_samples st)"
  using assms
proof (induction us arbitrary: stats st)
  case (Cons u us)
  obtain stats1 st1 where 1: "promote_unknown pf rules u (stats, st) = Ret (stats1, st1)"
    and 2: "ofold (promote_unknown pf rules) us (stats1, st1) = Ret (stats', st')"
    using Cons.prems by (auto simp: outcome_simps)
  show ?case unfolding Cons.IH [OF 2] promote_samples [OF 1] filter_filter by (rule filter_cong) auto
qed simp

lemma set_recent_unknowns [simp]: "set (recent_unknowns st) = set (s_unknown_samples st)"
  by (simp add: recent_unknowns_def)

lemma distinct_key_eq: "distinct (map f xs) \<Longrightarrow> x \<in> set xs \<Longrightarrow> y \<in> set xs \<Longrightarrow> f x = f y \<Longrightarrow> x = y"
  by (auto simp: distinct_map dest: inj_onD)

text \<open>
  After Phase 2 the samples that are left are those the rules still say nothing about; a sample is
  never dropped without its line having been offered to the events.
\<close>

theorem reparse_drains_known_samples:
  assumes "storage_ok st" and "reparse_phase2 pf rules (stats, st) = Ret (stats', st')"
  shows "s_unknown_samples st' =
    filter (\<lambda>u. line_event (pf_rx pf) rules (us_sample_line u) = None) (s_unknown_samples st)"
proof -
  have d: "distinct (map (\<lambda>r. (us_log_source r, us_event_name r)) (s_unknown_samples st))"
    using assms(1) by (simp add: storage_ok_def)
  have same: "u = x" if "x \<in> set (s_unknown_samples st)" "u \<in> set (s_unknown_samples st)"
      "us_log_source x = us_log_source u" "us_event_name x = us_event_name u" for x u
    using distinct_key_eq [OF d that(2,1)] that(3,4) by simp
  have "s_unknown_samples st' = filter (\<lambda>x. \<forall>u \<in> set (recent_unknowns st). \<not> (us_log_source x = us_log_source u \<and>
      us_event_name x = us_event_name u \<and> line_event (pf_rx pf) rules (us_sample_line u) \<noteq> None)) (s_unknown_samples st)"
    using assms(2) by (intro promote_fold_samples) (simp add: reparse_phase2_def)
  also have "\<dots> = filter (\<lambda>u. line_event (pf_rx pf) rules (us_sample_line u) = None) (s_unknown_samples st)"
    unfolding set_recent_unknowns by (rule filter_cong [OF refl]) (metis same)
  finally show ?thesis .
qed

text \<open>
  Promotion does not see that a line is stored already: its key has a shape of its own, so a sample whose
  line a later walk of the logs has stored under the usual key is stored a second time, at offset 0.
\<close>

theorem promotion_repeats_stored_line:
  assumes "promote_unknown pf rules u (stats, st) = Ret (stats', st')"
    and "r \<in> set (s_events st)" and "ev_raw_line r = us_sample_line u" and "ev_log_source r = us_log_source u"
    and "line_event (pf_rx pf) rules (us_sample_line u) = Some e"
    and "reparse_idempotency_key pf (us_log_source u) (us_sample_line u) \<notin> ev_idempotency_key ` set (s_events st)"
  shows "\<exists>r'. s_events st' = s_events st @ [r'] \<and> ev_raw_line r' = ev_raw_line r \<and> ev_log_source r' = ev_log_source r \<and>
    ev_source_offset r' = 0 \<and> rz_promoted_unknowns stats' = rz_promoted_unknowns stats + 1"
  using promote_Ret [OF assms(1)] assms(3-6)
  by (auto simp: promotion_request_def put_event_def insert_event_def delete_unknown_def Let_def)


section \<open>No panic\<close>

lemma classify_stored_no_panic:
  assumes "tag_tail_is_suffix (pf_rx pf)" and "groups_present (pf_rx pf)"
  shows "classify_stored pf rules line \<noteq> Panic"
  using structural_parse_no_panic [OF assms(1), of line] classify_not_Panic [OF assms(2)]
  by (auto simp: classify_stored_def outcome_simps split: option.splits)

lemma reparse_row_no_panic:
  assumes "tag_tail_is_suffix (pf_rx pf)" and "groups_present (pf_rx pf)"
  shows "reparse_row pf rules row s \<noteq> Panic"
  using classify_stored_no_panic [OF assms]
  by (auto simp: reparse_row_def Let_def outcome_simps split: option.splits prod.splits)

lemma promote_no_panic:
  assumes "tag_tail_is_suffix (pf_rx pf)" and "groups_present (pf_rx pf)"
  shows "promote_unknown pf rules u s \<noteq> Panic"
  using classify_stored_no_panic [OF assms]
  by (auto simp: promote_unknown_def outcome_simps split: option.splits prod.splits)

lemma set_map_filter_id: "x \<in> set (List.map_filter id ps) \<longleftrightarrow> Some x \<in> set ps"
  by (force simp: List.map_filter_def)

lemma scanned_in_range:
  assumes "omap (\<lambda>(i, r). if ev_event_type r = ''burst_summary'' then Ret None
      else obind (structural_parse rx (ev_raw_line r)) (\<lambda>p. Ret (map_option (Pair i) p))) (enumerate n rows) = Ret ps"
    and "Some (i, l) \<in> set ps"
  shows "i < n + length rows"
  using assms
proof (induction rows arbitrary: n ps)
  case (Cons r rows)
  obtain p ps' where ps: "ps = p # ps'" and 1: "omap (\<lambda>(i, r). if ev_event_type r = ''burst_summary'' then Ret None
      else obind (structural_parse rx (ev_raw_line r)) (\<lambda>p. Ret (map_option (Pair i) p))) (enumerate (Suc n) rows) = Ret ps'"
    and p: "\<forall>j l. p = Some (j, l) \<longrightarrow> j = n"
    using Cons.prems(1) by (auto simp: outcome_simps split: if_splits)
  show ?case
  proof (cases "p = Some (i, l)")
    case False
    then have "Some (i, l) \<in> set ps'" using Cons.prems(2) by (auto simp: ps)
    from Cons.IH [OF 1 this] show ?thesis by simp
  qed (use p in simp)
qed simp

lemma collapse_no_panic:
  assumes "\<And>i l. (i, l) \<in> set valid \<Longrightarrow> i < length rows" and "burst \<in> set (detect_bursts (map snd valid) brs)"
  shows "collapse_hit pf src rows valid burst s \<noteq> Panic"
proof -
  have b: "bh_start_index burst < length valid" "bh_end_index burst < length valid"
    "\<And>i. i \<in> set (bh_member_indices burst) \<Longrightarrow> i < length valid"
    using detect_bursts_in_range [OF assms(2)] by auto
  have v: "fst (valid ! i) < length rows" if "i < length valid" for i
    using assms(1) [of "fst (valid ! i)" "snd (valid ! i)"] that by simp
  have m: "omap (\<lambda>i. obind (idx valid i) (\<lambda>(j, _). obind (idx rows j) (\<lambda>r. Ret (ev_id r)))) (bh_member_indices burst) \<noteq> Panic"
    using b(3) v by (intro omap_no_panic) (simp add: idx_def case_prod_unfold)
  show ?thesis
    using b(1,2) v [OF b(1)] m
    by (auto simp: collapse_hit_def idx_def serialise_for_reparse_def Let_def outcome_simps split: prod.splits)
qed

lemma collapse_source_no_panic:
  assumes "tag_tail_is_suffix (pf_rx pf)"
  shows "collapse_source pf src s \<noteq> Panic"
proof -
  let ?rows = "events_for_burst_scan src (snd s)"
  let ?f = "\<lambda>(i, r). if ev_event_type r = ''burst_summary'' then Ret None
      else obind (structural_parse (pf_rx pf) (ev_raw_line r)) (\<lambda>p. Ret (map_option (Pair i) p))"
  have "omap ?f (enumerate 0 ?rows) \<noteq> Panic"
    using structural_parse_no_panic [OF assms] by (intro omap_no_panic) (auto simp: outcome_simps split: if_splits)
  then obtain ps where ps: "omap ?f (enumerate 0 ?rows) = Ret ps" by (cases "omap ?f (enumerate 0 ?rows)") auto
  let ?v = "List.map_filter id ps"
  have v: "i < length ?rows" if "(i, l) \<in> set ?v" for i l
    using scanned_in_range [OF ps] that unfolding set_map_filter_id by fastforce
  have "ofold (collapse_hit pf src ?rows ?v) (detect_bursts (map snd ?v) builtin_burst_rules) s \<noteq> Panic"
    by (rule ofold_no_panic, rule collapse_no_panic [OF v])
  then show ?thesis using ps by (simp add: collapse_source_def Let_def)
qed

lemma run_reparse_no_panic:
  assumes "tag_tail_is_suffix (pf_rx pf)" and "groups_present (pf_rx pf)"
  shows "run_reparse pf rules st \<noteq> Panic"
proof -
  have "ofold (reparse_row pf rules) rows s \<noteq> Panic" for rows s
    by (rule ofold_no_panic, rule reparse_row_no_panic [OF assms])
  then have 1: "reparse_phase1 pf rules st \<noteq> Panic" for st
    by (auto simp: reparse_phase1_def outcome_simps split: prod.splits)
  have 2: "reparse_phase2 pf rules s \<noteq> Panic" for s
    unfolding reparse_phase2_def by (rule ofold_no_panic, rule promote_no_panic [OF assms])
  have 3: "reparse_phase3 pf s \<noteq> Panic" for s
    unfolding reparse_phase3_def by (rule ofold_no_panic, rule collapse_source_no_panic [OF assms(1)])
  show ?thesis using 1 2 3 by (auto simp: run_reparse_def outcome_simps)
qed

lemma ofold_invariant:
  assumes "\<And>x s s'. P s \<Longrightarrow> f x s = Ret s' \<Longrightarrow> P s'" and "P s" and "ofold f xs s = Ret s'"
  shows "P s'"
  using assms(2,3) by (induction xs arbitrary: s) (auto simp: outcome_simps dest: assms(1))

lemma promote_ok:
  assumes "storage_ok (snd s)" and "promote_unknown pf rules u s = Ret s'"
  shows "storage_ok (snd s')"
  using promote_Ret [of pf rules u "fst s" "snd s" "fst s'" "snd s'"] assms
  by (auto simp: store_one_ok delete_unknown_ok simp del: local_events.put_all_simps)

lemma delete_members_store: "snd (delete_members ids s) = fold (\<lambda>i st. snd (delete_event_by_id i st)) ids (snd s)"
  by (induction ids arbitrary: s) (auto simp: delete_members_def Let_def split: prod.splits)

lemma delete_members_ok: "storage_ok (snd s) \<Longrightarrow> storage_ok (snd (delete_members ids s))"
  unfolding delete_members_store by (rule fold_invariant [where Q = "\<lambda>_. True"]) (auto simp: delete_event_ok)

lemma collapse_hit_ok:
  assumes "storage_ok (snd s)" and "collapse_hit pf src rows valid burst s = Ret s'"
  shows "storage_ok (snd s')"
  using assms(2,1)
  by (auto simp: collapse_hit_def outcome_simps serialise_for_reparse_def Let_def case_prod_unfold
      intro!: delete_members_ok insert_event_ok)

lemma collapse_source_ok:
  assumes "storage_ok (snd s)" and "collapse_source pf src s = Ret s'"
  shows "storage_ok (snd s')"
proof -
  have "storage_ok (snd s')" if "ofold (collapse_hit pf src rows valid) bs s = Ret s'" for rows valid bs
    by (rule ofold_invariant [where P = "\<lambda>s. storage_ok (snd s)", OF _ assms(1) that]) (rule collapse_hit_ok)
  then show ?thesis using assms by (auto simp: collapse_source_def Let_def outcome_simps split: if_splits)
qed

lemma phase2_ok:
  assumes "storage_ok (snd s)" and "reparse_phase2 pf rules s = Ret s'"
  shows "storage_ok (snd s')"
  by (rule ofold_invariant [where P = "\<lambda>s. storage_ok (snd s)", OF _ assms(1) assms(2) [unfolded reparse_phase2_def]])
    (rule promote_ok)

lemma phase3_ok:
  assumes "storage_ok (snd s)" and "reparse_phase3 pf s = Ret s'"
  shows "storage_ok (snd s')"
  by (rule ofold_invariant [where P = "\<lambda>s. storage_ok (snd s)", OF _ assms(1) assms(2) [unfolded reparse_phase3_def]])
    (rule collapse_source_ok)

text \<open>
  C33. Re-parse is total and keeps the local store in order: with patterns that behave as the tail needs them to,
  it returns for every store, and ids, keys and samples stay unique.
\<close>

theorem run_reparse_total:
  assumes "tag_tail_is_suffix (pf_rx pf)" and "groups_present (pf_rx pf)" and "storage_ok st"
  shows "\<exists>stats st'. run_reparse pf rules st = Ret (stats, st') \<and> storage_ok st'"
proof -
  obtain s1 s2 s3 where 1: "reparse_phase1 pf rules st = Ret s1" and 2: "reparse_phase2 pf rules s1 = Ret s2"
    and 3: "reparse_phase3 pf s2 = Ret s3" and r: "run_reparse pf rules st = Ret s3"
    using run_reparse_no_panic [OF assms(1,2), of rules st]
    by (cases "run_reparse pf rules st") (auto simp: run_reparse_def outcome_simps)
  have "storage_ok (snd s1)"
    using reparse_phase1_reference [of st pf rules "fst s1" "snd s1"] 1 assms(3) relabelled_ok by simp
  then have "storage_ok (snd s3)" using phase2_ok [OF _ 2] phase3_ok [OF _ 3] by blast
  then show ?thesis using r by (cases s3) auto
qed


section \<open>The walk of the rotated logs\<close>

definition archive_requests ::
    "platform \<Rightarrow> compiled_remote_rule list \<Rightarrow> string list \<times> string \<times> string option \<Rightarrow> insert_request list" where
  "archive_requests pf rules archive =
     (case archive of (path, path_str, file) \<Rightarrow>
        case file of
          None \<Rightarrow> []
        | Some content \<Rightarrow> concat (map (line_requests pf (log_source_from_path path) rules) (complete_lines content)))"

lemma reingest_loop_view:
  assumes "reingest_loop pf src rules cs off n m st = Ret (off', n', m', st')"
  shows "ev_view st' = ev_view (store (concat (map (line_requests pf src rules) (fst (read_loop off cs)))) st)"
  using assms
proof (induction cs arbitrary: off n m st)
  case (Cons c cs)
  show ?case
  proof (cases "\<not> utf8_valid c \<or> \<not> ends_with c [newline]")
    case True
    then show ?thesis using Cons.prems by (auto split: if_splits)
  next
    case False
    then obtain out st1 k where 1: "ingest_one_line pf src rules (trim_line c) off st = Ret (out, st1)"
      and 2: "reingest_loop pf src rules cs (off + of_nat (length c)) (n + 1) k st1 = Ret (off', n', m', st')"
      using Cons.prems by (auto simp: outcome_simps)
    let ?more = "concat (map (line_requests pf src rules) (fst (read_loop (off + of_nat (length c)) cs)))"
    have "ev_view st' = ev_view (store ?more st1)" by (rule Cons.IH [OF 2])
    also have "\<dots> = ev_view (store ?more (store (line_requests pf src rules (trim_line c, off)) st))"
      by (rule ev_view_store) (rule ingest_view [OF 1])
    also have "\<dots> = ev_view (store (line_requests pf src rules (trim_line c, off) @ ?more) st)"
      by (simp only: store_append)
    finally show ?thesis using False by (simp add: Let_def case_prod_unfold)
  qed
qed simp

lemma reingest_file_view:
  assumes "reingest_file pf rules archive (st, stats) = Ret (st', stats')"
  shows "ev_view st' = ev_view (store (archive_requests pf rules archive) st)"
proof -
  obtain path path_str opened where a: "archive = (path, path_str, opened)" by (cases archive)
  show ?thesis
  proof (cases opened)
    case None
    then show ?thesis using assms by (simp add: a reingest_file_def archive_requests_def)
  next
    case (Some content)
    then obtain off n m st1 where 1: "reingest_loop pf (log_source_from_path path) rules (chunks content) 0 0 0 st = Ret (off, n, m, st1)"
      and 2: "st' = write_cursor path_str off st1"
      using assms by (auto simp: a reingest_file_def outcome_simps)
    show ?thesis
      using reingest_loop_view [OF 1] 2 Some
      by (simp add: a archive_requests_def complete_lines_def write_cursor_def)
  qed
qed

lemma run_reingest_view:
  assumes "run_reingest pf rules archived st = Ret (st', stats)"
  shows "ev_view st' = ev_view (store (concat (map (archive_requests pf rules) archived)) st)"
proof -
  have "ev_view st' = ev_view (store (concat (map (archive_requests pf rules) logs)) st)"
    if "ofold (reingest_file pf rules) logs (st, stats0) = Ret (st', stats)" for logs stats0 st
    using that
  proof (induction logs arbitrary: st stats0)
    case (Cons a logs)
    obtain st1 stats1 where 1: "reingest_file pf rules a (st, stats0) = Ret (st1, stats1)"
      and 2: "ofold (reingest_file pf rules) logs (st1, stats1) = Ret (st', stats)"
      using Cons.prems by (auto simp: outcome_simps)
    have "ev_view st' = ev_view (store (concat (map (archive_requests pf rules) logs)) (store (archive_requests pf rules a) st))"
      unfolding Cons.IH [OF 2] by (rule ev_view_store) (rule reingest_file_view [OF 1])
    then show ?case by (simp add: store_append)
  qed simp
  then show ?thesis using assms by (simp add: run_reingest_def)
qed

text \<open>
  The walk recovers what the rules recognise: afterwards every complete line of every archive that could be
  opened has its event under the key the tail would have given it - the members of a burst the tail had
  suppressed included - no event that was there is lost, and a second walk of the same archives adds none.
\<close>

theorem reingest_recovers_every_line:
  assumes "run_reingest pf rules archived st = Ret (st', stats)"
  shows "(\<forall>path path_str content line off e. (path, path_str, Some content) \<in> set archived \<longrightarrow>
      (line, off) \<in> set (complete_lines content) \<longrightarrow> line_event (pf_rx pf) rules line = Some e \<longrightarrow>
      event_lookup st' (idempotency_key pf (log_source_from_path path) off line) \<noteq> None) \<and>
    (\<forall>k v. event_lookup st k = Some v \<longrightarrow> event_lookup st' k = Some v) \<and>
    (\<forall>st2 stats2. run_reingest pf rules archived st' = Ret (st2, stats2) \<longrightarrow> s_events st2 = s_events st')"
proof -
  let ?rs = "concat (map (archive_requests pf rules) archived)"
  note view = run_reingest_view [OF assms]
  have same: "event_lookup st' = event_lookup (store ?rs st)" using view by (simp add: event_lookup_def fun_eq_iff)
  have 1: "event_lookup st' (idempotency_key pf (log_source_from_path path) off line) \<noteq> None"
    if "(path, path_str, Some content) \<in> set archived" "(line, off) \<in> set (complete_lines content)"
      "line_event (pf_rx pf) rules line = Some e" for path path_str content line off e
  proof -
    have "(idempotency_key pf (log_source_from_path path) off line) \<in> fst ` set (line_requests pf (log_source_from_path path) rules (line, off))"
      using that(3) by (simp add: line_requests_def event_request_def)
    then have "(idempotency_key pf (log_source_from_path path) off line) \<in> fst ` set (archive_requests pf rules (path, path_str, Some content))"
      using that(2) by (fastforce simp: archive_requests_def)
    then have "(idempotency_key pf (log_source_from_path path) off line) \<in> fst ` set ?rs" using that(1) by fastforce
    then show ?thesis unfolding same by (rule local_events.put_all_stored)
  qed
  have 2: "s_events st2 = s_events st'" if "run_reingest pf rules archived st' = Ret (st2, stats2)" for st2 stats2
  proof -
    have "ev_view st2 = ev_view (store ?rs (store ?rs st))"
      unfolding run_reingest_view [OF that] by (rule ev_view_store) (rule view)
    then show ?thesis using view by (simp only: local_events.replay [OF order_refl] prod.inject)
  qed
  show ?thesis using 1 2 local_events.put_all_mono unfolding same by blast
qed


section \<open>Concrete instances\<close>

lemma quit_line_event:
  "line_event (pf_rx quit_pf) [] line = Some (SessionEnd \<lparr>se_timestamp = ''1T1:1'', se_kind = SystemQuit\<rparr>)"
  by (simp add: line_event_def quit_pf_def quit_rx_def no_match_rx_def structural_parse_def classify_def shell_arm_def)

text \<open>A stored burst summary over the line \<open>''ab''\<close>, and an unknown sample of the same line.\<close>

definition summary_store :: storage where
  "summary_store = record_unknown ''live'' ''New'' ''ab'' ''b'' ''now''
     (insert_event ''k'' ''burst_summary'' ''1T1:1'' ''ab'' ''payload'' ''live'' 7 empty_storage)"

lemma summary_store_ok: "storage_ok summary_store"
  unfolding summary_store_def
  by (intro record_unknown_ok insert_event_ok) (simp add: storage_ok_def empty_storage_def)

lemma summary_store_rows:
  "s_events summary_store = [\<lparr>ev_id = 1, ev_idempotency_key = ''k'', ev_event_type = ''burst_summary'',
     ev_timestamp = ''1T1:1'', ev_raw_line = ''ab'', ev_payload_json = ''payload'', ev_log_source = ''live'', ev_source_offset = 7\<rparr>]"
  by (simp add: summary_store_def record_unknown_def insert_event_def empty_storage_def Let_def)

lemma phase1_returns: "\<exists>stats st'. reparse_phase1 quit_pf [] st = Ret (stats, st')"
proof -
  have "ofold (reparse_row quit_pf []) rows s \<noteq> Panic" for rows s
    by (rule ofold_no_panic, rule reparse_row_no_panic [OF quit_rx_ok])
  then have "reparse_phase1 quit_pf [] st \<noteq> Panic" by (auto simp: reparse_phase1_def outcome_simps split: prod.splits)
  then show ?thesis by (cases "reparse_phase1 quit_pf [] st") auto
qed

theorem reparse_phase1_is_one_pass_witness:
  "\<exists>stats st'. reparse_phase1 quit_pf [] summary_store = Ret (stats, st') \<and> rz_examined stats = 1 \<and> rz_updated stats = 1 \<and>
     map ev_event_type (s_events st') = [''session_end'']"
proof -
  obtain stats st' where r: "reparse_phase1 quit_pf [] summary_store = Ret (stats, st')" using phase1_returns by blast
  have new: "relabel quit_pf [] None (s_events summary_store) =
      [(hd (s_events summary_store))\<lparr>ev_event_type := ''session_end'', ev_payload_json := ''session_end''\<rparr>]"
    by (simp add: summary_store_rows relabel_row_def quit_line_event Let_def enrich_zone_def quit_pf_def [THEN arg_cong, of pf_to_json])
  have "rz_examined stats = 1 \<and> rz_updated stats = 1 \<and> map ev_event_type (s_events st') = [''session_end'']"
    using reparse_phase1_is_one_pass [OF summary_store_ok r] by (simp add: new) (simp add: summary_store_rows)
  then show ?thesis using r by (intro exI [of _ stats] exI [of _ st']) simp
qed

theorem reparse_turns_summaries_into_anchors_witness:
  "\<exists>stats st' r'. reparse_phase1 quit_pf [] summary_store = Ret (stats, st') \<and> r' \<in> set (s_events st') \<and>
     ev_idempotency_key r' = ''k'' \<and> ev_event_type r' = ''session_end''"
proof -
  obtain stats st' where r: "reparse_phase1 quit_pf [] summary_store = Ret (stats, st')" using phase1_returns by blast
  have h: "hd (s_events summary_store) \<in> set (s_events summary_store)"
    "ev_event_type (hd (s_events summary_store)) = ''burst_summary''" by (simp_all add: summary_store_rows)
  from reparse_turns_summaries_into_anchors [OF summary_store_ok r h quit_line_event] r show ?thesis
    by (auto simp: summary_store_rows)
qed

lemma phase2_returns: "\<exists>stats' st'. reparse_phase2 quit_pf [] s = Ret (stats', st')"
proof -
  have "reparse_phase2 quit_pf [] s \<noteq> Panic"
    unfolding reparse_phase2_def by (rule ofold_no_panic, rule promote_no_panic [OF quit_rx_ok])
  then show ?thesis by (cases "reparse_phase2 quit_pf [] s") auto
qed

theorem reparse_drains_known_samples_witness:
  "\<exists>stats st'. reparse_phase2 quit_pf [] (no_reparse, summary_store) = Ret (stats, st') \<and> s_unknown_samples st' = []"
proof -
  obtain stats st' where r: "reparse_phase2 quit_pf [] (no_reparse, summary_store) = Ret (stats, st')"
    using phase2_returns by blast
  from reparse_drains_known_samples [OF summary_store_ok r] r show ?thesis by (simp add: quit_line_event)
qed

theorem promotion_repeats_stored_line_witness:
  "\<exists>u stats st'. s_unknown_samples summary_store = [u] \<and> promote_unknown quit_pf [] u (no_reparse, summary_store) = Ret (stats, st') \<and>
     map ev_raw_line (s_events st') = [''ab'', ''ab'']"
proof -
  define u where "u = hd (s_unknown_samples summary_store)"
  have u: "s_unknown_samples summary_store = [u]" "us_sample_line u = ''ab''" "us_log_source u = ''live''"
    by (simp_all add: u_def summary_store_def record_unknown_def insert_event_def empty_storage_def Let_def)
  obtain stats st' where r: "promote_unknown quit_pf [] u (no_reparse, summary_store) = Ret (stats, st')"
    using promote_no_panic [OF quit_rx_ok, of "[]" u "(no_reparse, summary_store)"]
    by (cases "promote_unknown quit_pf [] u (no_reparse, summary_store)") auto
  have "hd (s_events summary_store) \<in> set (s_events summary_store)"
    "ev_raw_line (hd (s_events summary_store)) = us_sample_line u" "ev_log_source (hd (s_events summary_store)) = us_log_source u"
    "reparse_idempotency_key quit_pf (us_log_source u) (us_sample_line u) \<notin> ev_idempotency_key ` set (s_events summary_store)"
    by (simp_all add: summary_store_rows u reparse_idempotency_key_def quit_pf_def)
  from promotion_repeats_stored_line [OF r this(1-3) quit_line_event this(4)] u(1) r show ?thesis
    by (auto simp: summary_store_rows)
qed

theorem run_reparse_total_witness: "\<exists>stats st'. run_reparse quit_pf [] summary_store = Ret (stats, st') \<and> storage_ok st'"
  by (rule run_reparse_total [OF quit_rx_ok summary_store_ok])

lemma reingest_returns: "run_reingest quit_pf [] archived st \<noteq> Panic"
proof -
  have "reingest_loop quit_pf src [] cs off n m st \<noteq> Panic" for src cs off n m st
    by (induction cs arbitrary: off n m st)
      (auto simp: outcome_simps ingest_no_panic [OF quit_rx_ok] split: prod.splits)
  then have "reingest_file quit_pf [] a s \<noteq> Panic" for a s
    by (auto simp: reingest_file_def outcome_simps split: prod.splits option.splits)
  then show ?thesis unfolding run_reingest_def by (intro ofold_no_panic)
qed

theorem reingest_recovers_every_line_witness:
  "\<exists>st' stats. run_reingest quit_pf [] [([''LIVE'', ''old.log''], ''p'', Some (''ab'' @ [newline]))] summary_store = Ret (st', stats) \<and>
     event_lookup st' (idempotency_key quit_pf ''live'' 0 ''ab'') \<noteq> None"
proof -
  let ?a = "[([''LIVE'', ''old.log''], ''p'', Some (''ab'' @ [newline]))]"
  obtain st' stats where r: "run_reingest quit_pf [] ?a summary_store = Ret (st', stats)"
    using reingest_returns [of ?a summary_store] by (cases "run_reingest quit_pf [] ?a summary_store") auto
  have "(''ab'', 0) \<in> set (complete_lines (''ab'' @ [newline]))"
    by (simp add: complete_lines_def byte_in_def ends_with_def starts_with_def trim_line_def trim_end_matches_def)
  moreover have "log_source_from_path [''LIVE'', ''old.log''] = ''live''"
    by (simp add: log_source_from_path_def path_parent_def file_name_def to_ascii_uppercase_def Let_def)
  ultimately show ?thesis
    using reingest_recovers_every_line [OF r, THEN conjunct1, rule_format, of "[''LIVE'', ''old.log'']" "''p''" "''ab'' @ [newline]" "''ab''" 0,
        OF list.set_intros(1) _ quit_line_event] r by auto
qed

end
