(* ===== verification/Single_Use.thy ===== *)
theory Single_Use
  imports Prelude
begin

text \<open>
  The contract the server's one-shot credentials share (device pairing codes, magic links, recovery
  codes): an operation may honour a token, a token honoured once is spent, and no operation makes a
  spent token good again. The client of the contract is any sequence of requests.
\<close>

type_synonym uuid = string
type_synonym time = int

text \<open>The tokens honoured along a sequence of operations, in order.\<close>

fun honoured :: "('op \<Rightarrow> 'st \<Rightarrow> 'tok option \<times> 'st) \<Rightarrow> 'op list \<Rightarrow> 'st \<Rightarrow> 'tok list" where
  "honoured run [] s = []"
| "honoured run (op # ops) s =
     (case run op s of
        (None, s') \<Rightarrow> honoured run ops s'
      | (Some k, s') \<Rightarrow> k # honoured run ops s')"

definition run_all :: "('op \<Rightarrow> 'st \<Rightarrow> 'tok option \<times> 'st) \<Rightarrow> 'op list \<Rightarrow> 'st \<Rightarrow> 'st" where
  "run_all run ops s = foldl (\<lambda>s op. snd (run op s)) s ops"

locale single_use =
  fixes run :: "'op \<Rightarrow> 'st \<Rightarrow> 'tok option \<times> 'st"
    and spent :: "'st \<Rightarrow> 'tok \<Rightarrow> bool"
  assumes honours_unspent: "run op s = (Some k, s') \<Longrightarrow> \<not> spent s k \<and> spent s' k"
    and keeps_spent: "run op s = (r, s') \<Longrightarrow> spent s k \<Longrightarrow> spent s' k"
begin

lemma spent_run_all: "spent s k \<Longrightarrow> spent (run_all run ops s) k"
proof (induction ops arbitrary: s)
  case (Cons op ops)
  then show ?case using keeps_spent [of op s "fst (run op s)" "snd (run op s)" k] by (simp add: run_all_def)
qed (simp add: run_all_def)

lemma spent_never_honoured: "spent s k \<Longrightarrow> k \<notin> set (honoured run ops s)"
proof (induction ops arbitrary: s)
  case (Cons op ops)
  obtain r s' where r: "run op s = (r, s')" by fastforce
  with Cons have "k \<notin> set (honoured run ops s')" using keeps_spent by blast
  moreover have "r \<noteq> Some k" using honours_unspent Cons.prems r by blast
  ultimately show ?case using r by (cases r) auto
qed simp

lemma honoured_distinct: "distinct (honoured run ops s)"
proof (induction ops arbitrary: s)
  case (Cons op ops)
  obtain r s' where r: "run op s = (r, s')" by fastforce
  show ?case
  proof (cases r)
    case (Some k)
    then have "spent s' k" using honours_unspent r by blast
    then show ?thesis using Cons.IH r Some spent_never_honoured by simp
  qed (use Cons.IH r in simp)
qed simp

end

end
