(* ===== verification/Audit_Chain.thy ===== *)
theory Audit_Chain
  imports Single_Use
begin

text \<open>
  Models \<^verbatim>\<open>crates/starstats-server/src/audit.rs\<close> and the table of
  \<^verbatim>\<open>migrations/0002_audit_log.sql\<close> it writes to. SHA-256 (\<open>sha256\<close>) and the JSON writer
  \<open>serde_json::to_vec\<close> (\<open>to_vec\<close>) are parameters. The database assigns \<open>seq\<close> from a sequence that a
  rolled-back insert also advances, so the table carries the sequence's next value beside its rows.
\<close>

section \<open>JSON values\<close>

text \<open>A number is kept as its literal; an object is the list of its entries in iteration order.\<close>

datatype json =
    JNull
  | JBool bool
  | JNumber string
  | JString string
  | JArray "json list"
  | JObject "(string \<times> json) list"

fun sort_keys :: "json \<Rightarrow> json" where
  "sort_keys (JObject entries) = JObject (sort_key fst (map (\<lambda>(k, v). (k, sort_keys v)) entries))"
| "sort_keys (JArray vs) = JArray (map sort_keys vs)"
| "sort_keys v = v"

definition canonicalize :: "(json \<Rightarrow> string) \<Rightarrow> json \<Rightarrow> string" where
  "canonicalize to_vec v = to_vec (sort_keys v)"

section \<open>The log\<close>

record audit_entry =
  ae_actor_sub :: "string option"
  ae_actor_handle :: "string option"
  ae_action :: string
  ae_payload :: json

record audit_row =
  aw_seq :: int
  aw_occurred_at :: time
  aw_actor_sub :: "string option"
  aw_actor_handle :: "string option"
  aw_action :: string
  aw_payload :: json
  aw_prev_hash :: string
  aw_row_hash :: string

text \<open>Rows oldest first, as the sequence orders them, and the sequence's next value.\<close>

record audit_table =
  at_rows :: "audit_row list"
  at_next_seq :: int

definition zero_hash :: string where
  "zero_hash = replicate 32 (CHR 0x00)"

definition tail_hash :: "audit_row list \<Rightarrow> string" where
  "tail_hash rows = (if rows = [] then zero_hash else aw_row_hash (last rows))"

fun digits_rev :: "nat \<Rightarrow> nat \<Rightarrow> string" where
  "digits_rev 0 n = []"
| "digits_rev (Suc fuel) n =
     char_of (48 + n mod 10) # (if n < 10 then [] else digits_rev fuel (n div 10))"

text \<open>\<open>i64::to_string\<close>; a number needs no more digits than its own value plus one.\<close>

definition i64_to_string :: "int \<Rightarrow> string" where
  "i64_to_string i =
     (if i < 0 then ''-'' @ rev (digits_rev (Suc (nat (- i))) (nat (- i)))
      else rev (digits_rev (Suc (nat i)) (nat i)))"

definition hash_input :: "(json \<Rightarrow> string) \<Rightarrow> string \<Rightarrow> json \<Rightarrow> int \<Rightarrow> string" where
  "hash_input to_vec prev_hash payload seq = prev_hash @ canonicalize to_vec payload @ i64_to_string seq"

text \<open>
  The insert of the database: the chain trigger refuses a row that does not link to the newest one;
  either way the sequence moves on.
\<close>

definition insert_audit_row :: "audit_row \<Rightarrow> audit_table \<Rightarrow> bool \<times> audit_table" where
  "insert_audit_row row tbl =
     (let tbl' = tbl\<lparr>at_next_seq := at_next_seq tbl + 1\<rparr>
      in if aw_prev_hash row \<noteq> tail_hash (at_rows tbl) \<or> aw_row_hash row \<in> aw_row_hash ` set (at_rows tbl)
         then (False, tbl')
         else (True, tbl'\<lparr>at_rows := at_rows tbl @ [row\<lparr>aw_seq := at_next_seq tbl\<rparr>]\<rparr>))"

definition append_entry ::
    "(string \<Rightarrow> string) \<Rightarrow> (json \<Rightarrow> string) \<Rightarrow> time \<Rightarrow> audit_entry \<Rightarrow> audit_table \<Rightarrow> bool \<times> audit_table" where
  "append_entry sha256 to_vec now entry tbl =
     (let (next_seq, prev_hash) =
            (if at_rows tbl = [] then (1, zero_hash)
             else (aw_seq (last (at_rows tbl)) + 1, aw_row_hash (last (at_rows tbl))));
          row_hash = sha256 (hash_input to_vec prev_hash (ae_payload entry) next_seq)
      in insert_audit_row
           \<lparr>aw_seq = next_seq, aw_occurred_at = now, aw_actor_sub = ae_actor_sub entry,
            aw_actor_handle = ae_actor_handle entry, aw_action = ae_action entry,
            aw_payload = ae_payload entry, aw_prev_hash = prev_hash, aw_row_hash = row_hash\<rparr> tbl)"

text \<open>An insert that fails for another reason (a rolled-back transaction) only moves the sequence.\<close>

definition aborted_append :: "audit_table \<Rightarrow> audit_table" where
  "aborted_append tbl = tbl\<lparr>at_next_seq := at_next_seq tbl + 1\<rparr>"

subsection \<open>Reading\<close>

record audit_filters =
  af_actor_handle :: "string option"
  af_action :: "string option"
  af_since :: "time option"
  af_until :: "time option"
  af_limit :: int
  af_offset :: int

definition clamp :: "int \<Rightarrow> int \<Rightarrow> int \<Rightarrow> int" where
  "clamp x lo hi = max lo (min hi x)"

text \<open>
  \<open>ILIKE\<close> of PostgreSQL on the pattern with per cent signs around the handle is the parameter
  \<open>ilike\<close>; a missing handle never matches.
\<close>

definition matches_filters :: "(string \<Rightarrow> string \<Rightarrow> bool) \<Rightarrow> audit_filters \<Rightarrow> audit_row \<Rightarrow> bool" where
  "matches_filters ilike f r \<longleftrightarrow>
     (case af_actor_handle f of
        None \<Rightarrow> True
      | Some h \<Rightarrow> (case aw_actor_handle r of None \<Rightarrow> False | Some a \<Rightarrow> ilike a (''%'' @ h @ ''%''))) \<and>
     (case af_action f of None \<Rightarrow> True | Some a \<Rightarrow> aw_action r = a) \<and>
     (case af_since f of None \<Rightarrow> True | Some t \<Rightarrow> aw_occurred_at r \<ge> t) \<and>
     (case af_until f of None \<Rightarrow> True | Some t \<Rightarrow> aw_occurred_at r \<le> t)"

definition list_entries :: "(string \<Rightarrow> string \<Rightarrow> bool) \<Rightarrow> audit_filters \<Rightarrow> audit_table \<Rightarrow> audit_row list" where
  "list_entries ilike f tbl =
     take (nat (clamp (af_limit f) 1 500)) (drop (nat (max (af_offset f) 0))
       (rev (filter (matches_filters ilike f) (at_rows tbl))))"

section \<open>Verification of a chain\<close>

fun chain_from :: "(string \<Rightarrow> string) \<Rightarrow> (json \<Rightarrow> string) \<Rightarrow> string \<Rightarrow> audit_row list \<Rightarrow> bool" where
  "chain_from sha256 to_vec prev [] \<longleftrightarrow> True"
| "chain_from sha256 to_vec prev (r # rs) \<longleftrightarrow>
     aw_prev_hash r = prev \<and>
     aw_row_hash r = sha256 (hash_input to_vec prev (aw_payload r) (aw_seq r)) \<and>
     chain_from sha256 to_vec (aw_row_hash r) rs"

text \<open>The table as the code leaves it when no insert was ever rolled back.\<close>

definition gap_free :: "audit_table \<Rightarrow> bool" where
  "gap_free tbl \<longleftrightarrow> map aw_seq (at_rows tbl) = map int [1..<Suc (length (at_rows tbl))] \<and>
     at_next_seq tbl = int (length (at_rows tbl)) + 1"

section \<open>Lemmas\<close>

lemma chain_from_append:
  "chain_from sha256 to_vec prev (xs @ ys) \<longleftrightarrow>
     chain_from sha256 to_vec prev xs \<and>
     chain_from sha256 to_vec (if xs = [] then prev else aw_row_hash (last xs)) ys"
  by (induction xs arbitrary: prev) auto

lemma append_entry_cases:
  assumes "append_entry sha256 to_vec now entry tbl = (ok, tbl')"
  shows "at_next_seq tbl' = at_next_seq tbl + 1 \<and>
    (if ok then
       \<exists>row. at_rows tbl' = at_rows tbl @ [row] \<and> aw_seq row = at_next_seq tbl \<and>
         aw_prev_hash row = tail_hash (at_rows tbl) \<and> aw_payload row = ae_payload entry \<and>
         aw_action row = ae_action entry \<and> aw_actor_sub row = ae_actor_sub entry \<and>
         aw_actor_handle row = ae_actor_handle entry \<and> aw_occurred_at row = now \<and>
         aw_row_hash row = sha256 (hash_input to_vec (tail_hash (at_rows tbl)) (ae_payload entry)
           (if at_rows tbl = [] then 1 else aw_seq (last (at_rows tbl)) + 1))
     else at_rows tbl' = at_rows tbl)"
  using assms by (auto simp: append_entry_def insert_audit_row_def tail_hash_def Let_def split: if_splits)

lemma gap_free_last:
  assumes "gap_free tbl" and "at_rows tbl \<noteq> []"
  shows "aw_seq (last (at_rows tbl)) + 1 = at_next_seq tbl"
proof -
  have "last (map aw_seq (at_rows tbl)) = last (map int [1..<Suc (length (at_rows tbl))])"
    using assms(1) by (simp only: gap_free_def)
  then have "aw_seq (last (at_rows tbl)) = int (length (at_rows tbl))"
    using assms(2) by (simp add: last_map Suc_le_eq)
  then show ?thesis using assms(1) by (simp add: gap_free_def)
qed

lemma append_entry_keeps:
  assumes "gap_free tbl" and "chain_from sha256 to_vec zero_hash (at_rows tbl)"
    and "append_entry sha256 to_vec now entry tbl = (True, tbl')"
  shows "gap_free tbl' \<and> chain_from sha256 to_vec zero_hash (at_rows tbl')"
proof -
  from append_entry_cases [OF assms(3)] obtain row where row: "at_rows tbl' = at_rows tbl @ [row]"
    "aw_seq row = at_next_seq tbl" "aw_prev_hash row = tail_hash (at_rows tbl)"
    "aw_payload row = ae_payload entry"
    "aw_row_hash row = sha256 (hash_input to_vec (tail_hash (at_rows tbl)) (ae_payload entry)
       (if at_rows tbl = [] then 1 else aw_seq (last (at_rows tbl)) + 1))"
    and n: "at_next_seq tbl' = at_next_seq tbl + 1" by auto
  have seq: "(if at_rows tbl = [] then 1 else aw_seq (last (at_rows tbl)) + 1) = at_next_seq tbl"
    using gap_free_last [OF assms(1)] assms(1) by (simp add: gap_free_def)
  have "gap_free tbl'" using assms(1) row(1,2) n by (simp add: gap_free_def)
  moreover have "chain_from sha256 to_vec zero_hash (at_rows tbl')"
    using assms(2) row seq by (simp add: chain_from_append tail_hash_def)
  ultimately show ?thesis by simp
qed

subsection \<open>Canonical form\<close>

text \<open>Two values that differ only in the order of object entries.\<close>

inductive same_value :: "json \<Rightarrow> json \<Rightarrow> bool" where
  same_atom: "same_value v v"
| same_array: "list_all2 same_value vs ws \<Longrightarrow> same_value (JArray vs) (JArray ws)"
| same_object: "list_all2 (\<lambda>e f. fst e = fst f \<and> same_value (snd e) (snd f)) es fs \<Longrightarrow>
     mset fs = mset gs \<Longrightarrow> same_value (JObject es) (JObject gs)"

fun keys_distinct :: "json \<Rightarrow> bool" where
  "keys_distinct (JObject entries) \<longleftrightarrow> distinct (map fst entries) \<and> list_all (\<lambda>e. keys_distinct (snd e)) entries"
| "keys_distinct (JArray vs) \<longleftrightarrow> list_all keys_distinct vs"
| "keys_distinct _ \<longleftrightarrow> True"

lemma sort_key_fst_eq:
  fixes xs ys :: "('a :: linorder \<times> 'b) list"
  assumes "mset xs = mset ys" and "distinct (map fst xs)"
  shows "sort_key fst xs = sort_key fst ys"
proof -
  have m: "mset (sort_key fst xs) = mset (sort_key fst ys)" using assms(1) by simp
  have "distinct (map fst (sort_key fst xs))"
    using assms(2) mset_map [of fst "sort_key fst xs"] by (metis mset_eq_imp_distinct_iff mset_map mset_sort)
  then have inj: "inj_on fst (set (sort_key fst xs))" by (simp add: distinct_map)
  have srt: "sort (map fst zs) = map fst (sort_key fst zs)" for zs :: "('a \<times> 'b) list"
    by (rule properties_for_sort) simp_all
  have "sort (map fst xs) = sort (map fst ys)"
    by (rule properties_for_sort) (use assms(1) in simp_all)
  then have k: "map fst (sort_key fst xs) = map fst (sort_key fst ys)" by (simp only: srt)
  have "set (sort_key fst xs) = set (sort_key fst ys)" using m by (rule mset_eq_setD)
  then have "inj_on fst (set (sort_key fst xs) \<union> set (sort_key fst ys))" using inj by simp
  then show ?thesis using k by (rule map_inj_on [rotated])
qed

lemma sort_keys_same_value: "same_value v w \<Longrightarrow> keys_distinct v \<Longrightarrow> sort_keys v = sort_keys w"
proof (induction rule: same_value.induct)
  case (same_array vs ws)
  then have "list_all2 (\<lambda>v w. sort_keys v = sort_keys w) vs ws"
    by (auto simp: list_all2_conv_all_nth list_all_length)
  then show ?case by (simp add: list_all2_conv_all_nth list_eq_iff_nth_eq)
next
  case (same_object es fs gs)
  let ?f = "\<lambda>(k, v). (k, sort_keys v)"
  have "map ?f es = map ?f fs"
    using same_object by (auto simp: list_all2_conv_all_nth list_eq_iff_nth_eq list_all_length split: prod.split)
  moreover have "mset (map ?f fs) = mset (map ?f gs)" using same_object(2) by simp
  moreover have "distinct (map fst (map ?f es))"
    using same_object.prems by (simp add: o_def case_prod_beta)
  ultimately show ?case using sort_key_fst_eq [of "map ?f fs" "map ?f gs"] by simp
qed simp

subsection \<open>Decimal numerals\<close>

fun from_rev :: "string \<Rightarrow> nat" where
  "from_rev [] = 0"
| "from_rev (c # cs) = of_char c - 48 + 10 * from_rev cs"

lemma of_char_digit [simp]: "of_char (char_of (48 + n mod 10) :: char) = (48 + n mod 10 :: nat)"
proof -
  have "n mod 10 < 10" by simp
  then have "48 + n mod 10 < 256" by linarith
  then show ?thesis by (simp add: of_char_of take_bit_eq_mod)
qed

lemma from_rev_digits: "n < fuel \<Longrightarrow> from_rev (digits_rev fuel n) = n"
proof (induction fuel n rule: digits_rev.induct)
  case (2 fuel n)
  show ?case
  proof (cases "n < 10")
    case False
    then have "n div 10 < fuel" using "2.prems" by linarith
    then show ?thesis using "2.IH" False by simp
  qed simp
qed simp

lemma i64_to_string_inj: "0 \<le> a \<Longrightarrow> 0 \<le> b \<Longrightarrow> i64_to_string a = i64_to_string b \<Longrightarrow> a = b"
proof -
  assume a: "0 \<le> a" "0 \<le> b" "i64_to_string a = i64_to_string b"
  then have "digits_rev (Suc (nat a)) (nat a) = digits_rev (Suc (nat b)) (nat b)"
    by (simp only: i64_to_string_def rev_is_rev_conv if_not_P not_less)
  then have "nat a = nat b" using from_rev_digits [of "nat a" "Suc (nat a)"] from_rev_digits [of "nat b" "Suc (nat b)"]
    by (metis lessI)
  then show "a = b" using a by simp
qed

lemma rev_induct2 [case_names 1 2 3 4]:
  assumes "P [] []" "\<And>x xs. P (xs @ [x]) []" "\<And>y ys. P [] (ys @ [y])"
    and "\<And>x xs y ys. P xs ys \<Longrightarrow> P (xs @ [x]) (ys @ [y])"
  shows "P xs ys"
proof (induction xs arbitrary: ys rule: rev_induct)
  case Nil
  then show ?case using assms(1,3) by (cases ys rule: rev_cases) auto
next
  case (snoc x xs)
  then show ?case using assms(2,4) by (cases ys rule: rev_cases) auto
qed

section \<open>Properties\<close>

fun append_all ::
    "(string \<Rightarrow> string) \<Rightarrow> (json \<Rightarrow> string) \<Rightarrow> (time \<times> audit_entry) list \<Rightarrow> audit_table \<Rightarrow> audit_table option" where
  "append_all sha256 to_vec [] tbl = Some tbl"
| "append_all sha256 to_vec ((now, e) # es) tbl =
     (case append_entry sha256 to_vec now e tbl of
        (True, tbl') \<Rightarrow> append_all sha256 to_vec es tbl'
      | (False, _) \<Rightarrow> None)"

definition empty_audit :: audit_table where
  "empty_audit = \<lparr>at_rows = [], at_next_seq = 1\<rparr>"

lemma append_all_keeps:
  assumes "append_all sha256 to_vec es tbl = Some tbl'" and "gap_free tbl"
    and "chain_from sha256 to_vec zero_hash (at_rows tbl)"
  shows "gap_free tbl' \<and> chain_from sha256 to_vec zero_hash (at_rows tbl') \<and>
    map (\<lambda>r. (aw_occurred_at r, aw_actor_sub r, aw_actor_handle r, aw_action r, aw_payload r)) (at_rows tbl') =
      map (\<lambda>r. (aw_occurred_at r, aw_actor_sub r, aw_actor_handle r, aw_action r, aw_payload r)) (at_rows tbl) @
      map (\<lambda>(t, e). (t, ae_actor_sub e, ae_actor_handle e, ae_action e, ae_payload e)) es"
  using assms
proof (induction sha256 to_vec es tbl rule: append_all.induct)
  case (2 sha256 to_vec now e es tbl)
  obtain ok tbl1 where a: "append_entry sha256 to_vec now e tbl = (ok, tbl1)" by fastforce
  with "2.prems" have ok: ok and rest: "append_all sha256 to_vec es tbl1 = Some tbl'" by (auto split: bool.splits)
  note keep = append_entry_keeps [OF "2.prems"(2,3), of now e tbl1]
  from append_entry_cases [OF a] ok obtain row where "at_rows tbl1 = at_rows tbl @ [row]"
    "aw_occurred_at row = now" "aw_actor_sub row = ae_actor_sub e" "aw_actor_handle row = ae_actor_handle e"
    "aw_action row = ae_action e" "aw_payload row = ae_payload e" by auto
  then show ?case using "2.IH" [OF a [symmetric]] ok rest keep a by simp
qed simp

text \<open>
  C36. The audit log verifies: after any sequence of appends that all commit, every row links to the
  row before it and its hash is that of its stored payload and sequence number, the numbers run
  from one without a gap, and the rows are the appended entries in order: each with its time, who did
  it (subject and handle), what was done and its payload.
\<close>

theorem audit_chain_verifies:
  assumes "append_all sha256 to_vec es empty_audit = Some tbl"
  shows "chain_from sha256 to_vec zero_hash (at_rows tbl) \<and>
    map aw_seq (at_rows tbl) = map int [1..<Suc (length es)] \<and>
    map (\<lambda>r. (aw_occurred_at r, aw_actor_sub r, aw_actor_handle r, aw_action r, aw_payload r)) (at_rows tbl) =
      map (\<lambda>(t, e). (t, ae_actor_sub e, ae_actor_handle e, ae_action e, ae_payload e)) es"
proof -
  have "gap_free tbl \<and> chain_from sha256 to_vec zero_hash (at_rows tbl) \<and>
      map (\<lambda>r. (aw_occurred_at r, aw_actor_sub r, aw_actor_handle r, aw_action r, aw_payload r)) (at_rows tbl) =
        map (\<lambda>(t, e). (t, ae_actor_sub e, ae_actor_handle e, ae_action e, ae_payload e)) es"
    using append_all_keeps [OF assms] by (simp add: empty_audit_def gap_free_def)
  moreover from this have "length (at_rows tbl) = length es"
    using map_eq_imp_length_eq by blast
  ultimately show ?thesis by (simp add: gap_free_def)
qed

theorem audit_chain_verifies_witness:
  "\<exists>tbl. append_all (\<lambda>s. s) (\<lambda>_. ''p'') [(0, \<lparr>ae_actor_sub = None, ae_actor_handle = None, ae_action = ''a'',
       ae_payload = JNull\<rparr>)] empty_audit = Some tbl \<and>
     chain_from (\<lambda>s. s) (\<lambda>_. ''p'') zero_hash (at_rows tbl)"
proof -
  have "\<exists>tbl. append_all (\<lambda>s. s) (\<lambda>_. ''p'') [(0, \<lparr>ae_actor_sub = None, ae_actor_handle = None,
      ae_action = ''a'', ae_payload = JNull\<rparr>)] empty_audit = Some tbl"
    by (simp add: append_entry_def insert_audit_row_def empty_audit_def tail_hash_def)
  then show ?thesis using audit_chain_verifies by blast
qed

text \<open>The strings that were hashed, row by row.\<close>

definition inputs_of :: "(json \<Rightarrow> string) \<Rightarrow> audit_row list \<Rightarrow> string list" where
  "inputs_of to_vec rows = map (\<lambda>r. hash_input to_vec (aw_prev_hash r) (aw_payload r) (aw_seq r)) rows"

lemma chain_hash_length:
  assumes "\<And>s. length (sha256 s) = 32" and "chain_from sha256 to_vec prev rows" and "r \<in> set rows"
  shows "length (aw_row_hash r) = 32"
  using assms(2,3) by (induction rows arbitrary: prev) (auto simp: assms(1))

lemma hash_input_split:
  "length p = length q \<Longrightarrow> hash_input to_vec p a n = hash_input to_vec q b n \<Longrightarrow>
     p = q \<and> canonicalize to_vec a = canonicalize to_vec b"
  by (simp add: hash_input_def)

lemma chains_agree_or_collide:
  assumes len: "\<And>s. length (sha256 s) = 32" and prev: "length prev = 32"
  shows "length xs = length ys \<Longrightarrow> chain_from sha256 to_vec prev xs \<Longrightarrow> chain_from sha256 to_vec prev ys \<Longrightarrow>
    map aw_seq xs = map aw_seq ys \<Longrightarrow> xs \<noteq> [] \<Longrightarrow> aw_row_hash (last xs) = aw_row_hash (last ys) \<Longrightarrow>
    map (\<lambda>r. canonicalize to_vec (aw_payload r)) xs = map (\<lambda>r. canonicalize to_vec (aw_payload r)) ys \<or>
    (\<exists>i < length xs. inputs_of to_vec xs ! i \<noteq> inputs_of to_vec ys ! i \<and>
       sha256 (inputs_of to_vec xs ! i) = sha256 (inputs_of to_vec ys ! i))"
proof (induction xs ys rule: rev_induct2)
  case (4 x xs y ys)
  let ?in = "\<lambda>r. hash_input to_vec (aw_prev_hash r) (aw_payload r) (aw_seq r)"
  let ?p = "\<lambda>zs. if zs = [] then prev else aw_row_hash (last zs)"
  have lxy: "length xs = length ys" using "4.prems"(1) by simp
  have x: "aw_prev_hash x = ?p xs" "aw_row_hash x = sha256 (?in x)" "chain_from sha256 to_vec prev xs"
    and y: "aw_prev_hash y = ?p ys" "aw_row_hash y = sha256 (?in y)" "chain_from sha256 to_vec prev ys"
    using "4.prems"(2,3) by (auto simp: chain_from_append)
  have pl: "length (?p zs) = 32" if "chain_from sha256 to_vec prev zs" for zs
    using that chain_hash_length [OF len that] prev by auto
  have sxy: "aw_seq x = aw_seq y" "map aw_seq xs = map aw_seq ys" using "4.prems"(4) by auto
  have hxy: "sha256 (?in x) = sha256 (?in y)" using "4.prems"(6) x(2) y(2) by simp
  show ?case
  proof (cases "?in x = ?in y")
    case False
    then show ?thesis using hxy lxy
      by (intro disjI2 exI [of _ "length xs"]) (simp add: inputs_of_def nth_append)
  next
    case True
    then have "aw_prev_hash x = aw_prev_hash y \<and> canonicalize to_vec (aw_payload x) = canonicalize to_vec (aw_payload y)"
      using hash_input_split [of "aw_prev_hash x" "aw_prev_hash y"] pl x(1,3) y(1,3) sxy(1) by simp
    then have pxy: "?p xs = ?p ys" and cxy: "canonicalize to_vec (aw_payload x) = canonicalize to_vec (aw_payload y)"
      using x(1) y(1) by auto
    show ?thesis
    proof (cases "xs = []")
      case True
      then show ?thesis using lxy cxy by simp
    next
      case False
      then have "ys \<noteq> []" using lxy by auto
      then have "aw_row_hash (last xs) = aw_row_hash (last ys)" using pxy False by simp
      from "4.IH" [OF lxy x(3) y(3) sxy(2) False this] show ?thesis
      proof
        assume "\<exists>i < length xs. inputs_of to_vec xs ! i \<noteq> inputs_of to_vec ys ! i \<and>
          sha256 (inputs_of to_vec xs ! i) = sha256 (inputs_of to_vec ys ! i)"
        then obtain i where i: "i < length xs" "inputs_of to_vec xs ! i \<noteq> inputs_of to_vec ys ! i"
          "sha256 (inputs_of to_vec xs ! i) = sha256 (inputs_of to_vec ys ! i)" by blast
        have e: "inputs_of to_vec (xs @ [x]) ! i = inputs_of to_vec xs ! i"
          "inputs_of to_vec (ys @ [y]) ! i = inputs_of to_vec ys ! i"
          using i(1) lxy by (simp_all add: inputs_of_def nth_append)
        show ?thesis by (intro disjI2 exI [of _ i]) (use i e in simp)
      qed (use cxy in simp)
    qed
  qed
qed auto

text \<open>
  Rewriting a payload is detected: two logs with the same sequence numbers that both verify from
  the same start and end in the same row hash hold the same canonical payloads, unless at some
  position their two different hash inputs collide.
\<close>

theorem payload_tampering_detected:
  assumes "\<And>s. length (sha256 s) = 32" and "length prev = 32"
    and "chain_from sha256 to_vec prev xs" and "chain_from sha256 to_vec prev ys"
    and "map aw_seq xs = map aw_seq ys" and "xs \<noteq> []" and "aw_row_hash (last xs) = aw_row_hash (last ys)"
  shows "map (\<lambda>r. canonicalize to_vec (aw_payload r)) xs = map (\<lambda>r. canonicalize to_vec (aw_payload r)) ys \<or>
    (\<exists>i < length xs. inputs_of to_vec xs ! i \<noteq> inputs_of to_vec ys ! i \<and>
       sha256 (inputs_of to_vec xs ! i) = sha256 (inputs_of to_vec ys ! i))"
  using assms by (intro chains_agree_or_collide) (auto dest: map_eq_imp_length_eq)

theorem payload_tampering_detected_witness:
  "let sha = \<lambda>s. take 32 (s @ replicate 32 CHR ''x''); tv = \<lambda>_. ''p'';
       r = \<lparr>aw_seq = 1, aw_occurred_at = 0, aw_actor_sub = None, aw_actor_handle = None, aw_action = ''a'',
         aw_payload = JNull, aw_prev_hash = replicate 32 CHR ''z'', aw_row_hash = replicate 32 CHR ''z''\<rparr>
   in chain_from sha tv (replicate 32 CHR ''z'') [r] \<and>
      map (\<lambda>r. canonicalize tv (aw_payload r)) [r] = map (\<lambda>r. canonicalize tv (aw_payload r)) [r]"
proof -
  let ?sha = "\<lambda>s. take 32 (s @ replicate 32 CHR ''x'')"
  let ?r = "\<lparr>aw_seq = 1, aw_occurred_at = 0, aw_actor_sub = None, aw_actor_handle = None, aw_action = ''a'',
    aw_payload = JNull, aw_prev_hash = replicate 32 CHR ''z'', aw_row_hash = replicate 32 CHR ''z''\<rparr>"
  have c: "chain_from ?sha (\<lambda>_. ''p'') (replicate 32 CHR ''z'') [?r]" by (simp add: hash_input_def)
  have l: "length (?sha s) = 32" for s by simp
  from payload_tampering_detected [of ?sha, OF l _ c c] show ?thesis using c by simp
qed

text \<open>
  Only the payload is protected: the actor, the action and the time of any row can be rewritten
  without breaking the chain.
\<close>

theorem chain_ignores_actor_and_action:
  "chain_from sha256 to_vec prev
     (map (\<lambda>r. r\<lparr>aw_action := act r, aw_actor_sub := sub r, aw_actor_handle := hnd r, aw_occurred_at := t r\<rparr>) rows) \<longleftrightarrow>
   chain_from sha256 to_vec prev rows"
  by (induction rows arbitrary: prev) auto

text \<open>
  One rolled-back insert breaks the chain for good: the row appended after it is stored under a
  sequence number other than the one its hash was computed for, so it verifies only if SHA-256
  collides on these two different inputs.
\<close>

theorem sequence_gap_breaks_chain:
  assumes "gap_free tbl" and "append_entry sha256 to_vec now entry (aborted_append tbl) = (True, tbl')"
  shows "aw_seq (last (at_rows tbl')) = at_next_seq tbl + 1 \<and>
    (chain_from sha256 to_vec zero_hash (at_rows tbl') \<longrightarrow>
       (\<exists>x y. x = hash_input to_vec (tail_hash (at_rows tbl)) (ae_payload entry) (at_next_seq tbl) \<and>
         y = hash_input to_vec (tail_hash (at_rows tbl)) (ae_payload entry) (at_next_seq tbl + 1) \<and>
         x \<noteq> y \<and> sha256 x = sha256 y))"
proof -
  let ?x = "hash_input to_vec (tail_hash (at_rows tbl)) (ae_payload entry) (at_next_seq tbl)"
  let ?y = "hash_input to_vec (tail_hash (at_rows tbl)) (ae_payload entry) (at_next_seq tbl + 1)"
  from append_entry_cases [OF assms(2)] obtain row where row: "at_rows tbl' = at_rows tbl @ [row]"
    "aw_seq row = at_next_seq tbl + 1" "aw_prev_hash row = tail_hash (at_rows tbl)"
    "aw_payload row = ae_payload entry"
    "aw_row_hash row = sha256 (hash_input to_vec (tail_hash (at_rows tbl)) (ae_payload entry)
       (if at_rows tbl = [] then 1 else aw_seq (last (at_rows tbl)) + 1))"
    by (auto simp: aborted_append_def)
  have seq: "(if at_rows tbl = [] then 1 else aw_seq (last (at_rows tbl)) + 1) = at_next_seq tbl"
    using gap_free_last [OF assms(1)] assms(1) by (simp add: gap_free_def)
  have "0 \<le> at_next_seq tbl" using assms(1) by (simp add: gap_free_def)
  then have "i64_to_string (at_next_seq tbl) \<noteq> i64_to_string (at_next_seq tbl + 1)"
    using i64_to_string_inj [of "at_next_seq tbl" "at_next_seq tbl + 1"] by auto
  then have ne: "?x \<noteq> ?y" by (simp add: hash_input_def)
  have "chain_from sha256 to_vec zero_hash (at_rows tbl') \<longrightarrow> aw_row_hash row = sha256 ?y"
    using row by (simp add: chain_from_append tail_hash_def)
  then show ?thesis using ne row seq by auto
qed

theorem sequence_gap_breaks_chain_witness:
  "\<exists>tbl'. append_entry (\<lambda>s. s) (\<lambda>_. ''p'') 0 \<lparr>ae_actor_sub = None, ae_actor_handle = None, ae_action = ''a'',
       ae_payload = JNull\<rparr> (aborted_append empty_audit) = (True, tbl') \<and>
     \<not> chain_from (\<lambda>s. s) (\<lambda>_. ''p'') zero_hash (at_rows tbl')"
proof -
  let ?e = "\<lparr>ae_actor_sub = None, ae_actor_handle = None, ae_action = ''a'', ae_payload = JNull\<rparr>"
  have "\<exists>tbl'. append_entry (\<lambda>s. s) (\<lambda>_. ''p'') 0 ?e (aborted_append empty_audit) = (True, tbl')"
    by (simp add: append_entry_def insert_audit_row_def aborted_append_def empty_audit_def tail_hash_def)
  then obtain tbl' where a: "append_entry (\<lambda>s. s) (\<lambda>_. ''p'') 0 ?e (aborted_append empty_audit) = (True, tbl')"
    by blast
  have g: "gap_free empty_audit" by (simp add: gap_free_def empty_audit_def)
  from sequence_gap_breaks_chain [OF g a] have "\<not> chain_from (\<lambda>s. s) (\<lambda>_. ''p'') zero_hash (at_rows tbl')" by auto
  then show ?thesis using a by blast
qed

text \<open>
  Equal payloads hash equally: two JSON values that differ only in the order of object entries,
  at any depth, have the same canonical bytes.
\<close>

theorem canonical_form_unique:
  assumes "same_value v w" and "keys_distinct v"
  shows "canonicalize to_vec v = canonicalize to_vec w"
  using sort_keys_same_value [OF assms] by (simp add: canonicalize_def)

theorem canonical_form_unique_witness:
  "canonicalize (\<lambda>v. if v = JNull then ''n'' else ''v'') (JObject [(''b'', JNull), (''a'', JBool True)]) =
   canonicalize (\<lambda>v. if v = JNull then ''n'' else ''v'') (JObject [(''a'', JBool True), (''b'', JNull)])"
proof (rule canonical_form_unique)
  have "list_all2 (\<lambda>e f. fst e = fst f \<and> same_value (snd e) (snd f))
      [(''b'', JNull), (''a'', JBool True)] [(''b'', JNull), (''a'', JBool True)]"
    by (simp add: same_atom)
  then show "same_value (JObject [(''b'', JNull), (''a'', JBool True)]) (JObject [(''a'', JBool True), (''b'', JNull)])"
    by (rule same_object) simp
qed simp

end
