(* ===== verification/Event_Repo.thy ===== *)
theory Event_Repo
  imports Audit_Chain Metadata
begin

text \<open>
  Models the event table of the server: \<^verbatim>\<open>crates/starstats-server/src/repo.rs\<close> (the Postgres store),
  the helpers of \<^verbatim>\<open>validation.rs\<close> and the read endpoints of \<^verbatim>\<open>query.rs\<close> that go with them. A query is
  the function its SQL text denotes on the rows of the table; an event time is a number of
  microseconds, \<open>NOW()\<close> an argument. \<open>serde_json::to_value\<close> (\<open>to_value\<close>) and chrono's RFC 3339 parser
  (\<open>parse_rfc3339\<close>) are parameters.
\<close>

section \<open>Model\<close>

type_synonym micros = int

record stored_event =
  sv_seq :: int
  sv_id :: uuid
  sv_key :: string
  sv_handle :: string
  sv_type :: string
  sv_timestamp :: "micros option"
  sv_log_source :: string
  sv_source_offset :: int
  sv_raw_line :: string
  sv_payload :: json
  sv_hidden_at :: "micros option"

record event_table =
  tb_rows :: "stored_event list"
  tb_next_seq :: int

datatype insert_outcome = Inserted | Duplicate

datatype repo_error = RepoDatabase string

fun log_source_to_str :: "log_source \<Rightarrow> string" where
  "log_source_to_str Live = ''live''"
| "log_source_to_str Ptu = ''ptu''"
| "log_source_to_str Eptu = ''eptu''"
| "log_source_to_str Hotfix = ''hotfix''"
| "log_source_to_str Tech = ''tech''"
| "log_source_to_str OtherSource = ''other''"

fun json_get :: "json \<Rightarrow> string \<Rightarrow> json option" where
  "json_get (JObject entries) k = map_of entries k"
| "json_get _ k = None"

fun as_str :: "json \<Rightarrow> string option" where
  "as_str (JString s) = Some s"
| "as_str _ = None"

definition extract_type_and_ts :: "(string \<Rightarrow> micros option) \<Rightarrow> json \<Rightarrow> string \<times> micros option" where
  "extract_type_and_ts parse_rfc3339 payload =
     (case Option.bind (json_get payload ''type'') as_str of Some t \<Rightarrow> t | None \<Rightarrow> ''unknown'',
      Option.bind (Option.bind (json_get payload ''timestamp'') as_str) parse_rfc3339)"

definition from_envelope ::
    "(game_event \<Rightarrow> json option) \<Rightarrow> (string \<Rightarrow> micros option) \<Rightarrow> uuid \<Rightarrow> event_envelope \<Rightarrow> string \<Rightarrow> stored_event" where
  "from_envelope to_value parse_rfc3339 new_id env claimed_handle =
     (let payload = (case ee_event env of
            None \<Rightarrow> JNull
          | Some e \<Rightarrow> (case to_value e of Some v \<Rightarrow> v | None \<Rightarrow> JNull));
          (event_type, ts) = extract_type_and_ts parse_rfc3339 payload
      in \<lparr>sv_seq = 0, sv_id = new_id, sv_key = ee_idempotency_key env, sv_handle = claimed_handle,
          sv_type = event_type, sv_timestamp = ts, sv_log_source = log_source_to_str (ee_source env),
          sv_source_offset = sint (ee_source_offset env), sv_raw_line = ee_raw_line env, sv_payload = payload,
          sv_hidden_at = None\<rparr>)"

text \<open>
  How the one call of \<open>insert\<close> can fail although the statement is valid for the table: it never reaches the
  database (the pool, or a text with \<open>U+0000\<close>), the database gives it up after it drew a sequence number,
  or the row is stored and the answer is lost on the way back.
\<close>

datatype db_fault = Unsent string | Refused string | AnswerLost string

text \<open>
  \<open>INSERT ... ON CONFLICT (claimed_handle, idempotency_key) DO NOTHING\<close>: the sequence advances even
  when nothing is inserted.
\<close>

definition insert_stored ::
    "db_fault option \<Rightarrow> stored_event \<Rightarrow> event_table \<Rightarrow> (repo_error + insert_outcome) \<times> event_table" where
  "insert_stored fault ev tbl =
     (let tbl' = tbl\<lparr>tb_next_seq := tb_next_seq tbl + 1\<rparr>;
          (res, stored) =
            (if \<exists>r \<in> set (tb_rows tbl). sv_handle r = sv_handle ev \<and> sv_key r = sv_key ev
             then (Inr Duplicate, tbl')
             else if sv_id ev \<in> sv_id ` set (tb_rows tbl) then (Inl (RepoDatabase ''unique violation''), tbl')
             else (Inr Inserted, tbl'\<lparr>tb_rows := tb_rows tbl @ [ev\<lparr>sv_seq := tb_next_seq tbl\<rparr>]\<rparr>))
      in case fault of
           None \<Rightarrow> (res, stored)
         | Some (Unsent e) \<Rightarrow> (Inl (RepoDatabase e), tbl)
         | Some (Refused e) \<Rightarrow> (Inl (RepoDatabase e), tbl')
         | Some (AnswerLost e) \<Rightarrow> (Inl (RepoDatabase e), stored))"

subsection \<open>Listing\<close>

datatype seq_cursor = Before int | After int

record event_filters =
  fl_cursor :: "seq_cursor option"
  fl_event_type :: "string option"
  fl_since :: "micros option"
  fl_until :: "micros option"
  fl_limit :: int

definition row_matches :: "string \<Rightarrow> event_filters \<Rightarrow> stored_event \<Rightarrow> bool" where
  "row_matches handle f r \<longleftrightarrow>
     sv_handle r = handle \<and>
     (case fl_event_type f of None \<Rightarrow> True | Some t \<Rightarrow> sv_type r = t) \<and>
     (case fl_since f of None \<Rightarrow> True | Some s \<Rightarrow> (case sv_timestamp r of None \<Rightarrow> False | Some t \<Rightarrow> t \<ge> s)) \<and>
     (case fl_until f of None \<Rightarrow> True | Some u \<Rightarrow> (case sv_timestamp r of None \<Rightarrow> False | Some t \<Rightarrow> t \<le> u))"

definition list_filtered :: "string \<Rightarrow> event_filters \<Rightarrow> event_table \<Rightarrow> stored_event list" where
  "list_filtered handle f tbl =
     (let rows = sort_key sv_seq (filter (row_matches handle f) (tb_rows tbl))
      in take (nat (fl_limit f))
           (case fl_cursor f of
              Some (Before n) \<Rightarrow> rev (filter (\<lambda>r. sv_seq r < n) rows)
            | Some (After n) \<Rightarrow> filter (\<lambda>r. sv_seq r > n) rows
            | None \<Rightarrow> rev rows))"

definition EVENT_TYPE_MAX_LEN :: nat where
  "EVENT_TYPE_MAX_LEN = 64"

definition is_valid_event_type :: "string \<Rightarrow> bool" where
  "is_valid_event_type s \<longleftrightarrow>
     s \<noteq> [] \<and> length s \<le> EVENT_TYPE_MAX_LEN \<and>
     list_all (\<lambda>c. (CHR ''a'' \<le> c \<and> c \<le> CHR ''z'') \<or> is_ascii_digit c \<or> c = CHR ''_'') s"

record list_params =
  lp_after :: "int option"
  lp_before_seq :: "int option"
  lp_after_seq :: "int option"
  lp_event_type :: "string option"
  lp_since :: "micros option"
  lp_until :: "micros option"
  lp_limit :: nat

datatype list_error = InvalidEventType | ConflictingCursors

definition LIST_LIMIT_MAX :: nat where
  "LIST_LIMIT_MAX = 500"

definition LIST_LIMIT_MIN :: nat where
  "LIST_LIMIT_MIN = 1"

definition cursor_of :: "list_params \<Rightarrow> seq_cursor option" where
  "cursor_of p =
     (case (lp_before_seq p, lp_after_seq p, lp_after p) of
        (Some b, _, _) \<Rightarrow> Some (Before b)
      | (None, Some a, _) \<Rightarrow> Some (After a)
      | (None, None, Some a) \<Rightarrow> if a > 0 then Some (After a) else None
      | (None, None, None) \<Rightarrow> None)"

text \<open>The page and \<open>next_after\<close>, the largest sequence number on it.\<close>

definition list_events :: "string \<Rightarrow> list_params \<Rightarrow> event_table \<Rightarrow> list_error + (stored_event list \<times> int option)" where
  "list_events user p tbl =
     (if (case lp_event_type p of Some t \<Rightarrow> \<not> is_valid_event_type t | None \<Rightarrow> False) then Inl InvalidEventType
      else if lp_before_seq p \<noteq> None \<and> lp_after_seq p \<noteq> None then Inl ConflictingCursors
      else
        (let events = list_filtered user
               \<lparr>fl_cursor = cursor_of p, fl_event_type = lp_event_type p, fl_since = lp_since p, fl_until = lp_until p,
                fl_limit = int (max LIST_LIMIT_MIN (min LIST_LIMIT_MAX (lp_limit p)))\<rparr> tbl
         in Inr (events, if events = [] then None else Some (Max (sv_seq ` set events)))))"

subsection \<open>Counting\<close>

definition day_of :: "micros \<Rightarrow> int" where
  "day_of t = t div 86400000000"

text \<open>\<open>GROUP BY day ORDER BY day\<close>: one row per day that has a matching event.\<close>

definition counts_by_day :: "(stored_event \<Rightarrow> bool) \<Rightarrow> stored_event list \<Rightarrow> (int \<times> nat) list" where
  "counts_by_day P rows =
     (let ds = List.map_filter (\<lambda>r. if P r then map_option day_of (sv_timestamp r) else None) rows
      in map (\<lambda>d. (d, count_list ds d)) (sorted_list_of_set (set ds)))"

definition in_window :: "micros \<Rightarrow> nat \<Rightarrow> stored_event \<Rightarrow> bool" where
  "in_window now days r \<longleftrightarrow> (case sv_timestamp r of None \<Rightarrow> False | Some t \<Rightarrow> t \<ge> now - int days * 86400000000)"

definition timeline_rows :: "string \<Rightarrow> nat \<Rightarrow> micros \<Rightarrow> event_table \<Rightarrow> (int \<times> nat) list" where
  "timeline_rows handle days now tbl = counts_by_day (\<lambda>r. sv_handle r = handle \<and> in_window now days r) (tb_rows tbl)"

definition timeline_shared :: "string \<Rightarrow> nat \<Rightarrow> micros \<Rightarrow> event_table \<Rightarrow> (int \<times> nat) list" where
  "timeline_shared handle days now tbl =
     counts_by_day (\<lambda>r. sv_handle r = handle \<and> in_window now days r \<and> sv_hidden_at r = None) (tb_rows tbl)"

definition timeline_shared_filtered ::
    "string \<Rightarrow> nat \<Rightarrow> string list option \<Rightarrow> string list option \<Rightarrow> micros \<Rightarrow> event_table \<Rightarrow> (int \<times> nat) list" where
  "timeline_shared_filtered handle days allow deny now tbl =
     (if allow = None \<and> deny = None then timeline_shared handle days now tbl
      else counts_by_day (\<lambda>r. sv_handle r = handle \<and> in_window now days r \<and> sv_hidden_at r = None \<and>
             (case allow of None \<Rightarrow> True | Some ts \<Rightarrow> sv_type r \<in> set ts) \<and>
             (case deny of None \<Rightarrow> True | Some ts \<Rightarrow> sv_type r \<notin> set ts)) (tb_rows tbl))"

definition TIMELINE_DAYS_DEFAULT :: nat where
  "TIMELINE_DAYS_DEFAULT = 30"

definition TIMELINE_DAYS_MAX :: nat where
  "TIMELINE_DAYS_MAX = 90"

definition resolve_timeline_days :: "nat option \<Rightarrow> nat option" where
  "resolve_timeline_days days =
     (let d = (case days of Some d \<Rightarrow> d | None \<Rightarrow> TIMELINE_DAYS_DEFAULT)
      in if d = 0 \<or> d > TIMELINE_DAYS_MAX then None else Some d)"

text \<open>The buckets carry the day number where the code prints its date.\<close>

definition build_timeline_buckets :: "(int \<times> nat) list \<Rightarrow> nat \<Rightarrow> int \<Rightarrow> (int \<times> nat) list" where
  "build_timeline_buckets rows days today =
     map (\<lambda>d. (d, case map_of rows d of Some c \<Rightarrow> c | None \<Rightarrow> 0)) [today - (int days - 1)..today]"

definition timeline :: "string \<Rightarrow> nat option \<Rightarrow> micros \<Rightarrow> event_table \<Rightarrow> (int \<times> nat) list option" where
  "timeline user days now tbl =
     map_option (\<lambda>d. build_timeline_buckets (timeline_rows user d now tbl) d (day_of now)) (resolve_timeline_days days)"

text \<open>
  \<open>GROUP BY event_type ORDER BY count DESC\<close>; the order of types with equal counts, which SQL leaves
  open, is that of their first row.
\<close>

definition counts_by_type :: "stored_event list \<Rightarrow> (string \<times> nat) list" where
  "counts_by_type rows =
     (let ts = map sv_type rows
      in sort_key (\<lambda>(t, n). - int n) (map (\<lambda>t. (t, count_list ts t)) (remdups ts)))"

definition summary_for_handle :: "string \<Rightarrow> event_table \<Rightarrow> nat \<times> (string \<times> nat) list" where
  "summary_for_handle handle tbl =
     (let rows = filter (\<lambda>r. sv_handle r = handle) (tb_rows tbl) in (length rows, counts_by_type rows))"

definition summary_for_handle_shared :: "string \<Rightarrow> event_table \<Rightarrow> nat \<times> (string \<times> nat) list" where
  "summary_for_handle_shared handle tbl =
     (let rows = filter (\<lambda>r. sv_handle r = handle \<and> sv_hidden_at r = None) (tb_rows tbl)
      in (length rows, counts_by_type rows))"

definition set_event_hidden :: "string \<Rightarrow> int \<Rightarrow> bool \<Rightarrow> micros \<Rightarrow> event_table \<Rightarrow> bool \<times> event_table" where
  "set_event_hidden handle seq hide now tbl =
     (let hits = (\<lambda>r. sv_handle r = handle \<and> sv_seq r = seq \<and> (sv_hidden_at r = None \<longleftrightarrow> hide))
      in (list_ex hits (tb_rows tbl),
          tbl\<lparr>tb_rows := map (\<lambda>r. if hits r then r\<lparr>sv_hidden_at := (if hide then Some now else None)\<rparr> else r)
            (tb_rows tbl)\<rparr>))"

subsection \<open>Sessions\<close>

definition SESSION_IDLE_GAP_MICROS :: int where
  "SESSION_IDLE_GAP_MICROS = 30 * 60 * 1000000"

record inferred_session =
  is_start_at :: micros
  is_end_at :: micros
  is_event_count :: nat

text \<open>
  The window functions over the sorted times: a new session starts at the first row and after a gap
  longer than the threshold.
\<close>

fun split_sessions :: "micros list \<Rightarrow> micros list list" where
  "split_sessions [] = []"
| "split_sessions [t] = [[t]]"
| "split_sessions (t # u # ts) =
     (if u - t > SESSION_IDLE_GAP_MICROS then [t] # split_sessions (u # ts)
      else case split_sessions (u # ts) of s # ss \<Rightarrow> (t # s) # ss | [] \<Rightarrow> [[t]])"

definition sessions_for_handle :: "string \<Rightarrow> nat \<Rightarrow> nat \<Rightarrow> event_table \<Rightarrow> inferred_session list" where
  "sessions_for_handle handle limit offset tbl =
     (let ts = sort (List.map_filter (\<lambda>r. if sv_handle r = handle then sv_timestamp r else None) (tb_rows tbl))
      in take limit (drop offset (rev
           (map (\<lambda>s. \<lparr>is_start_at = hd s, is_end_at = last s, is_event_count = length s\<rparr>) (split_sessions ts)))))"

section \<open>Invariant\<close>

definition table_ok :: "event_table \<Rightarrow> bool" where
  "table_ok tbl \<longleftrightarrow>
     sorted_wrt (<) (map sv_seq (tb_rows tbl)) \<and>
     (\<forall>r \<in> set (tb_rows tbl). 1 \<le> sv_seq r \<and> sv_seq r < tb_next_seq tbl) \<and> 1 \<le> tb_next_seq tbl \<and>
     distinct (map (\<lambda>r. (sv_handle r, sv_key r)) (tb_rows tbl)) \<and> distinct (map sv_id (tb_rows tbl))"

definition empty_events :: event_table where
  "empty_events = \<lparr>tb_rows = [], tb_next_seq = 1\<rparr>"

lemma empty_events_ok: "table_ok empty_events"
  by (simp add: table_ok_def empty_events_def)

lemma insert_stored_ok: "table_ok tbl \<Longrightarrow> table_ok (snd (insert_stored fault ev tbl))"
  by (auto simp: table_ok_def insert_stored_def Let_def sorted_wrt_append split: option.split db_fault.split)

lemma rows_map_ok:
  assumes "\<And>r. sv_seq (f r) = sv_seq r" and "\<And>r. sv_id (f r) = sv_id r"
    and "\<And>r. sv_handle (f r) = sv_handle r" and "\<And>r. sv_key (f r) = sv_key r" and "table_ok tbl"
  shows "table_ok (tbl\<lparr>tb_rows := map f (tb_rows tbl)\<rparr>)"
  using assms by (simp add: table_ok_def o_def)

lemma set_event_hidden_ok: "table_ok tbl \<Longrightarrow> table_ok (snd (set_event_hidden handle seq hide now tbl))"
  unfolding set_event_hidden_def Let_def snd_conv by (rule rows_map_ok) simp_all

section \<open>Lemmas on listing\<close>

lemma rows_sorted: "table_ok tbl \<Longrightarrow> sorted (map sv_seq (filter P (tb_rows tbl)))"
  by (simp add: table_ok_def strict_sorted_iff sorted_filter)

lemma list_filtered_ok:
  assumes "table_ok tbl"
  shows "list_filtered handle f tbl =
    (let rows = filter (row_matches handle f) (tb_rows tbl)
     in take (nat (fl_limit f))
          (case fl_cursor f of
             Some (Before n) \<Rightarrow> rev (filter (\<lambda>r. sv_seq r < n) rows)
           | Some (After n) \<Rightarrow> filter (\<lambda>r. sv_seq r > n) rows
           | None \<Rightarrow> rev rows))"
  unfolding list_filtered_def Let_def sort_key_id_if_sorted [OF rows_sorted [OF assms]] ..

text \<open>The rows of one handle that pass the filters, newest first.\<close>

definition newest_first :: "string \<Rightarrow> event_filters \<Rightarrow> event_table \<Rightarrow> stored_event list" where
  "newest_first handle f tbl = rev (filter (row_matches handle f) (tb_rows tbl))"

lemma newest_first_desc:
  assumes "table_ok tbl"
  shows "sorted_wrt (\<lambda>r s. sv_seq r > sv_seq s) (newest_first handle f tbl)"
proof -
  have "sorted_wrt (\<lambda>r s. sv_seq r < sv_seq s) (filter (row_matches handle f) (tb_rows tbl))"
    using assms by (intro sorted_wrt_filter) (simp add: table_ok_def sorted_wrt_map)
  then show ?thesis by (simp add: newest_first_def sorted_wrt_rev)
qed

lemma desc_below_last:
  assumes "sorted_wrt (\<lambda>r s. sv_seq r > sv_seq s) xs" and "take (Suc n) xs \<noteq> []"
  shows "filter (\<lambda>r. sv_seq r < sv_seq (last (take (Suc n) xs))) xs = drop (Suc n) xs"
  using assms
proof (induction n arbitrary: xs)
  case 0
  then obtain x ys where "xs = x # ys" by (cases xs) auto
  then show ?case using 0 by (auto simp: filter_id_conv)
next
  case (Suc n)
  obtain x ys where xs: "xs = x # ys" using Suc.prems(2) by (cases xs) auto
  show ?case
  proof (cases "ys = []")
    case True
    then show ?thesis using xs by simp
  next
    case False
    then have ne: "take (Suc n) ys \<noteq> []" by (cases ys) auto
    have l: "last (take (Suc n) ys) \<in> set ys" by (rule in_set_takeD [OF last_in_set [OF ne]])
    then have "sv_seq (last (take (Suc n) ys)) < sv_seq x" using Suc.prems(1) xs by auto
    then show ?thesis using Suc.IH [of ys] Suc.prems(1) xs ne by simp
  qed
qed

text \<open>
  A client walking backwards: each request passes the sequence number of the last row it got as
  \<open>before_seq\<close>, until a page comes back empty.
\<close>

function walk_back :: "string \<Rightarrow> event_filters \<Rightarrow> int \<Rightarrow> event_table \<Rightarrow> stored_event list" where
  "walk_back handle f b tbl =
     (case list_filtered handle (f\<lparr>fl_cursor := Some (Before b)\<rparr>) tbl of
        [] \<Rightarrow> []
      | r # rs \<Rightarrow> (r # rs) @ walk_back handle f (sv_seq (last (r # rs))) tbl)"
  by pat_completeness auto
termination
proof (relation "measure (\<lambda>(handle, f, b, tbl). length (filter (\<lambda>r. sv_seq r < b) (tb_rows tbl)))", goal_cases)
  case (2 handle f b tbl r rs)
  let ?l = "last (r # rs)"
  have "?l \<in> set (list_filtered handle (f\<lparr>fl_cursor := Some (Before b)\<rparr>) tbl)"
    unfolding 2 by (rule last_in_set) simp
  then have l: "?l \<in> set (tb_rows tbl)" "sv_seq ?l < b"
    by (auto simp: list_filtered_def Let_def dest!: in_set_takeD)
  have "length (filter (\<lambda>r. sv_seq r < sv_seq ?l) xs) < length (filter (\<lambda>r. sv_seq r < b) xs)" if "?l \<in> set xs" for xs
    using that
  proof (induction xs)
    case (Cons x xs)
    have "length (filter (\<lambda>r. sv_seq r < sv_seq ?l) xs) \<le> length (filter (\<lambda>r. sv_seq r < b) xs)"
      using l(2) by (induction xs) auto
    then show ?case using Cons l(2) by (cases "?l = x") (auto simp del: last.simps)
  qed simp
  then show ?case using l(1) by simp
qed simp

declare walk_back.simps [simp del]

lemma list_before:
  assumes "table_ok tbl"
  shows "list_filtered handle (f\<lparr>fl_cursor := Some (Before b)\<rparr>) tbl =
    take (nat (fl_limit f)) (filter (\<lambda>r. sv_seq r < b) (newest_first handle f tbl))"
proof -
  have "row_matches handle (f\<lparr>fl_cursor := c\<rparr>) = row_matches handle f" for c
    by (simp add: row_matches_def fun_eq_iff)
  then show ?thesis by (simp add: list_filtered_ok [OF assms] newest_first_def rev_filter)
qed

lemma walk_back_eq:
  assumes "table_ok tbl" and "1 \<le> fl_limit f"
  shows "walk_back handle f b tbl = filter (\<lambda>r. sv_seq r < b) (newest_first handle f tbl)"
  using assms
proof (induction handle f b tbl rule: walk_back.induct)
  case (1 handle f b tbl)
  let ?m = "filter (\<lambda>r. sv_seq r < b) (newest_first handle f tbl)"
  obtain n where n: "nat (fl_limit f) = Suc n" using 1(3) by (cases "nat (fl_limit f)") auto
  have page: "list_filtered handle (f\<lparr>fl_cursor := Some (Before b)\<rparr>) tbl = take (Suc n) ?m"
    using list_before [OF 1(2)] n by simp
  show ?case
  proof (cases "take (Suc n) ?m")
    case Nil
    then show ?thesis by (simp add: walk_back.simps [of handle f b] page)
  next
    case (Cons r rs)
    let ?l = "sv_seq (last (r # rs))"
    have ne: "take (Suc n) ?m \<noteq> []" using Cons by simp
    have "last (take (Suc n) ?m) \<in> set ?m" by (rule in_set_takeD [OF last_in_set [OF ne]])
    then have lb: "?l < b" unfolding Cons by simp
    have "filter (\<lambda>r. sv_seq r < ?l) ?m = drop (Suc n) ?m"
      unfolding Cons [symmetric] using newest_first_desc [OF 1(2)] ne
      by (intro desc_below_last) (rule sorted_wrt_filter)
    moreover have "filter (\<lambda>r. sv_seq r < ?l) ?m = filter (\<lambda>r. sv_seq r < ?l) (newest_first handle f tbl)"
      using lb by (auto simp: filter_filter intro!: filter_cong simp del: last.simps)
    ultimately have "walk_back handle f ?l tbl = drop (Suc n) ?m"
      using 1(1) [OF page [unfolded Cons] 1(2,3)] by simp
    then have "walk_back handle f b tbl = (r # rs) @ drop (Suc n) ?m"
      by (simp add: walk_back.simps [of handle f b] page Cons)
    then show ?thesis unfolding Cons [symmetric] by simp
  qed
qed

section \<open>Lemmas on counting\<close>

lemma count_list_map_filter:
  "count_list (List.map_filter f xs) y = length (filter (\<lambda>x. f x = Some y) xs)"
  by (induction xs) (auto simp: List.map_filter_def)

lemma counts_by_day_lookup:
  "(case map_of (counts_by_day P rows) d of Some c \<Rightarrow> c | None \<Rightarrow> 0) =
     length (filter (\<lambda>r. P r \<and> map_option day_of (sv_timestamp r) = Some d) rows)"
proof -
  let ?ds = "List.map_filter (\<lambda>r. if P r then map_option day_of (sv_timestamp r) else None) rows"
  have "(case map_of (counts_by_day P rows) d of Some c \<Rightarrow> c | None \<Rightarrow> 0) = count_list ?ds d"
    by (simp add: counts_by_day_def Let_def map_of_map_restrict restrict_map_def count_list_0_iff)
  also have "\<dots> = length (filter (\<lambda>r. P r \<and> map_option day_of (sv_timestamp r) = Some d) rows)"
    unfolding count_list_map_filter by (rule arg_cong [where f = length], rule filter_cong) auto
  finally show ?thesis .
qed

lemma day_in_window:
  assumes "map_option day_of (sv_timestamp r) = Some d" and "day_of now - (int days - 1) \<le> d"
  shows "in_window now days r"
proof -
  obtain t where t: "sv_timestamp r = Some t" "day_of t = d" using assms(1) by auto
  have "now < (day_of now + 1) * 86400000000" by (simp add: day_of_def)
  also have "\<dots> \<le> (d + int days) * 86400000000" using assms(2) by simp
  finally have "now - int days * 86400000000 < d * 86400000000" by (simp add: algebra_simps)
  also have "\<dots> \<le> t" using t(2) by (auto simp: day_of_def)
  finally show ?thesis using t(1) by (simp add: in_window_def)
qed

lemma split_sessions_Nil_iff [simp]: "split_sessions ts = [] \<longleftrightarrow> ts = []"
  by (induction ts rule: split_sessions.induct) (auto split: list.splits)

lemma hd_split_sessions: "ts \<noteq> [] \<Longrightarrow> hd (split_sessions ts) \<noteq> [] \<and> hd (hd (split_sessions ts)) = hd ts"
  by (induction ts rule: split_sessions.induct) (auto split: list.splits)

lemma split_sessions_ok:
  "concat (split_sessions ts) = ts \<and>
   (\<forall>g \<in> set (split_sessions ts). g \<noteq> [] \<and> successively (\<lambda>a b. b - a \<le> SESSION_IDLE_GAP_MICROS) g) \<and>
   successively (\<lambda>g h. hd h - last g > SESSION_IDLE_GAP_MICROS) (split_sessions ts)"
proof (induction ts rule: split_sessions.induct)
  case (3 t u ts)
  obtain s ss where s: "split_sessions (u # ts) = s # ss" by (cases "split_sessions (u # ts)") auto
  have h: "s \<noteq> []" "hd s = u" using hd_split_sessions [of "u # ts"] s by auto
  show ?case
  proof (cases "u - t > SESSION_IDLE_GAP_MICROS")
    case True
    then show ?thesis using 3 s h by (auto simp: successively_Cons)
  next
    case False
    then show ?thesis
      using 3(2) s h by (cases ss) (auto simp: successively_Cons)
  qed
qed simp_all

text \<open>Flipping the one row with a given key lowers a count by one.\<close>

lemma count_flip:
  assumes "distinct (map k rs)" and "\<And>r. P (f r) \<longleftrightarrow> P r \<and> \<not> hit r" and "\<And>r. hit r \<Longrightarrow> P r \<and> k r = a"
  shows "length (filter P (map f rs)) + (if list_ex hit rs then 1 else 0) = length (filter P rs)"
  using assms(1)
proof (induction rs)
  case (Cons r rs)
  have "hit r \<Longrightarrow> \<not> list_ex hit rs" using Cons.prems assms(3) by (auto simp: list_ex_iff image_iff)
  then show ?case using Cons assms(2,3) [of r] by (cases "hit r") auto
qed simp

section \<open>Properties\<close>

text \<open>
  C38. Paging backwards sees everything once: taking the first page and then following \<open>before_seq\<close>
  from the last row of each page until a page is empty visits every event of the caller that passes
  the filters exactly once, newest first, whatever the page size.
\<close>

theorem paging_back_complete:
  assumes "table_ok tbl" and "1 \<le> fl_limit f" and "fl_cursor f = None"
    and "list_filtered handle f tbl = first_page" and "first_page \<noteq> []"
  shows "first_page @ walk_back handle f (sv_seq (last first_page)) tbl =
    rev (filter (row_matches handle f) (tb_rows tbl))"
proof -
  obtain n where n: "nat (fl_limit f) = Suc n" using assms(2) by (cases "nat (fl_limit f)") auto
  have page: "first_page = take (Suc n) (newest_first handle f tbl)"
    using assms(3,4) n by (simp add: list_filtered_ok [OF assms(1)] newest_first_def)
  have "walk_back handle f (sv_seq (last first_page)) tbl = drop (Suc n) (newest_first handle f tbl)"
    unfolding walk_back_eq [OF assms(1,2)] page
    by (rule desc_below_last [OF newest_first_desc [OF assms(1)]]) (use assms(5) page in simp)
  then show ?thesis by (simp add: page newest_first_def [symmetric])
qed

text \<open>
  The timeline is exact: for a valid number of days it has one bucket per day up to today, and
  each bucket counts all of the caller's events of that day, the oldest day included.
\<close>

theorem timeline_exact:
  assumes "timeline user days now tbl = Some buckets" and "resolve_timeline_days days = Some d"
  shows "length buckets = d \<and>
    buckets = map (\<lambda>day. (day, length (filter (\<lambda>r. sv_handle r = user \<and>
      map_option day_of (sv_timestamp r) = Some day) (tb_rows tbl)))) [day_of now - (int d - 1)..day_of now]"
proof -
  have b: "buckets = build_timeline_buckets (timeline_rows user d now tbl) d (day_of now)"
    using assms by (simp add: timeline_def)
  have "filter (\<lambda>r. (sv_handle r = user \<and> in_window now d r) \<and> map_option day_of (sv_timestamp r) = Some day) (tb_rows tbl) =
      filter (\<lambda>r. sv_handle r = user \<and> map_option day_of (sv_timestamp r) = Some day) (tb_rows tbl)"
    if "day_of now - (int d - 1) \<le> day" for day
    using day_in_window [OF _ that] by (intro filter_cong) auto
  then have "buckets = map (\<lambda>day. (day, length (filter (\<lambda>r. sv_handle r = user \<and>
      map_option day_of (sv_timestamp r) = Some day) (tb_rows tbl)))) [day_of now - (int d - 1)..day_of now]"
    unfolding b build_timeline_buckets_def timeline_rows_def counts_by_day_lookup by (intro map_cong) auto
  then show ?thesis using assms(2) by (simp add: resolve_timeline_days_def Let_def split: if_splits)
qed

text \<open>
  Sessions are the maximal runs without a half-hour pause: the sessions, oldest first, cut the
  caller's sorted event times into non-empty consecutive groups; inside a group neighbours are at
  most 30 minutes apart, between groups they are further apart, and each session reports its
  group's first and last time and size.
\<close>

theorem sessions_are_maximal_runs:
  assumes "length (tb_rows tbl) \<le> limit"
  shows "\<exists>groups. concat groups = sort (List.map_filter (\<lambda>r. if sv_handle r = user then sv_timestamp r else None) (tb_rows tbl)) \<and>
    (\<forall>g \<in> set groups. g \<noteq> [] \<and> successively (\<lambda>a b. b - a \<le> 30 * 60 * 1000000) g) \<and>
    successively (\<lambda>g h. hd h - last g > 30 * 60 * 1000000) groups \<and>
    rev (sessions_for_handle user limit 0 tbl) =
      map (\<lambda>g. \<lparr>is_start_at = hd g, is_end_at = last g, is_event_count = length g\<rparr>) groups"
proof -
  let ?ts = "sort (List.map_filter (\<lambda>r. if sv_handle r = user then sv_timestamp r else None) (tb_rows tbl))"
  have c: "concat (split_sessions ?ts) = ?ts"
    "\<forall>g \<in> set (split_sessions ?ts). g \<noteq> [] \<and> successively (\<lambda>a b. b - a \<le> SESSION_IDLE_GAP_MICROS) g"
    "successively (\<lambda>g h. hd h - last g > SESSION_IDLE_GAP_MICROS) (split_sessions ?ts)"
    using split_sessions_ok [of ?ts] by auto
  have len: "length gs \<le> length (concat gs)" if "\<forall>g \<in> set gs. g \<noteq> []" for gs :: "micros list list"
    using that
  proof (induction gs)
    case (Cons g gs)
    moreover have "1 \<le> length g" using Cons.prems by (cases g) auto
    ultimately show ?case by simp
  qed simp
  have "length (split_sessions ?ts) \<le> length (concat (split_sessions ?ts))" by (rule len) (use c(2) in blast)
  also have "\<dots> = length ?ts" by (simp only: c(1))
  also have "\<dots> \<le> length (tb_rows tbl)" by (simp add: List.map_filter_def)
  finally have "length (split_sessions ?ts) \<le> limit" using assms by simp
  then have "rev (sessions_for_handle user limit 0 tbl) =
      map (\<lambda>g. \<lparr>is_start_at = hd g, is_end_at = last g, is_event_count = length g\<rparr>) (split_sessions ?ts)"
    by (simp add: sessions_for_handle_def Let_def rev_map [symmetric])
  then show ?thesis using c unfolding SESSION_IDLE_GAP_MICROS_def by blast
qed

text \<open>
  Hiding an event is the owner's alone and is honoured: it changes exactly the caller's visible
  row with that number, touches nobody else's rows, lowers the shared count by one, leaves the
  owner's own count alone, and a second request is a no-op.
\<close>

theorem hide_event_effect:
  assumes "table_ok tbl" and "set_event_hidden user seq True now tbl = (changed, tbl')"
  shows "filter (\<lambda>r. sv_handle r \<noteq> user) (tb_rows tbl') = filter (\<lambda>r. sv_handle r \<noteq> user) (tb_rows tbl) \<and>
    fst (summary_for_handle_shared user tbl') + (if changed then 1 else 0) = fst (summary_for_handle_shared user tbl) \<and>
    fst (summary_for_handle user tbl') = fst (summary_for_handle user tbl) \<and>
    fst (set_event_hidden user seq True later tbl') = False"
proof -
  let ?hit = "\<lambda>r. sv_handle r = user \<and> sv_seq r = seq \<and> sv_hidden_at r = None"
  let ?f = "\<lambda>r. if ?hit r then r\<lparr>sv_hidden_at := Some now\<rparr> else r"
  have t: "tb_rows tbl' = map ?f (tb_rows tbl)" "changed \<longleftrightarrow> list_ex ?hit (tb_rows tbl)"
    using assms(2) by (auto simp: set_event_hidden_def Let_def)
  have d: "distinct (map sv_seq (tb_rows tbl))" using assms(1) by (simp add: table_ok_def strict_sorted_iff)
  have 1: "filter (\<lambda>r. sv_handle r \<noteq> user) (map ?f rs) = filter (\<lambda>r. sv_handle r \<noteq> user) rs"
    and 2: "length (filter (\<lambda>r. sv_handle r = user) (map ?f rs)) = length (filter (\<lambda>r. sv_handle r = user) rs)"
    and 3: "\<not> list_ex ?hit (map ?f rs)" for rs :: "stored_event list"
    by (induction rs) auto
  have 4: "length (filter (\<lambda>r. sv_handle r = user \<and> sv_hidden_at r = None) (map ?f (tb_rows tbl))) +
      (if list_ex ?hit (tb_rows tbl) then 1 else 0) =
      length (filter (\<lambda>r. sv_handle r = user \<and> sv_hidden_at r = None) (tb_rows tbl))"
    by (rule count_flip [OF d, of _ _ _ seq]) auto
  show ?thesis
    unfolding summary_for_handle_shared_def summary_for_handle_def Let_def fst_conv t using 1 2 4
      3 [of "tb_rows tbl"] by (simp add: set_event_hidden_def Let_def t del: length_filter_map map_map filter_map)
qed

text \<open>
  The legacy forward cursor skips history: asking with \<open>after = 0\<close> returns the newest page, and
  passing its \<open>next_after\<close> back returns nothing, so events older than that first page are never seen.
\<close>

theorem legacy_cursor_skips_history:
  assumes "table_ok tbl" and "lp_before_seq p = None" and "lp_after_seq p = None"
    and "list_events user (p\<lparr>lp_after := Some 0\<rparr>) tbl = Inr (page, Some m)"
  shows "list_events user (p\<lparr>lp_after := Some m\<rparr>) tbl = Inr ([], None)"
proof -
  let ?f = "\<lambda>c. \<lparr>fl_cursor = c, fl_event_type = lp_event_type p, fl_since = lp_since p, fl_until = lp_until p,
    fl_limit = int (max LIST_LIMIT_MIN (min LIST_LIMIT_MAX (lp_limit p)))\<rparr>"
  have ok: "\<not> (case lp_event_type p of Some t \<Rightarrow> \<not> is_valid_event_type t | None \<Rightarrow> False)"
    using assms(4) by (auto simp: list_events_def split: if_splits)
  have match: "row_matches user (?f c) = row_matches user (?f None)" for c
    by (simp add: row_matches_def fun_eq_iff)
  have page: "page = list_filtered user (?f None) tbl" "page \<noteq> []" "m = Max (sv_seq ` set page)"
    using assms(2-4) ok by (auto simp: list_events_def cursor_of_def Let_def split: if_splits)
  let ?m = "newest_first user (?f None) tbl"
  have pg: "page = take (nat (fl_limit (?f None))) ?m"
    by (simp add: page(1) list_filtered_ok [OF assms(1)] newest_first_def)
  obtain n where n: "nat (fl_limit (?f None)) = Suc n"
    by (cases "nat (fl_limit (?f None))") (auto simp: LIST_LIMIT_MIN_def)
  obtain x xs where x: "?m = x # xs" using page(2) pg by (cases ?m) auto
  have top: "sv_seq r \<le> sv_seq x" if "r \<in> set ?m" for r
    using newest_first_desc [OF assms(1), of user "?f None"] that x by auto
  have "m = sv_seq x"
    unfolding page(3)
  proof (rule Max_eqI)
    show "sv_seq x \<in> sv_seq ` set page" using pg n x by simp
    show "y \<le> sv_seq x" if "y \<in> sv_seq ` set page" for y
      using that top by (auto simp: pg dest: in_set_takeD)
  qed simp
  moreover have "1 \<le> sv_seq x"
  proof -
    have "x \<in> set ?m" using x by simp
    then have "x \<in> set (tb_rows tbl)" by (simp add: newest_first_def)
    then show ?thesis using assms(1) by (simp add: table_ok_def)
  qed
  ultimately have c: "cursor_of (p\<lparr>lp_after := Some m\<rparr>) = Some (After m)" and m: "m = sv_seq x"
    using assms(2,3) by (simp_all add: cursor_of_def)
  have "filter (\<lambda>r. sv_seq r > m) (filter (row_matches user (?f None)) (tb_rows tbl)) = []"
  proof -
    have "\<not> m < sv_seq r" if "r \<in> set (filter (row_matches user (?f None)) (tb_rows tbl))" for r
      using top [of r] that unfolding m newest_first_def set_rev by simp
    then show ?thesis unfolding filter_empty_conv by blast
  qed
  then have "list_filtered user (?f (Some (After m))) tbl = []"
    by (simp add: list_filtered_ok [OF assms(1)] match [of "Some (After m)"])
  then show ?thesis using ok assms(2,3) by (simp add: list_events_def c Let_def)
qed

section \<open>Concrete instances\<close>

definition sample_row :: "int \<Rightarrow> string \<Rightarrow> micros \<Rightarrow> stored_event" where
  "sample_row n key t = \<lparr>sv_seq = n, sv_id = key, sv_key = key, sv_handle = ''pilot'', sv_type = ''join_pu'',
     sv_timestamp = Some t, sv_log_source = ''live'', sv_source_offset = 0, sv_raw_line = ''raw'', sv_payload = JNull,
     sv_hidden_at = None\<rparr>"

definition sample_table :: event_table where
  "sample_table = \<lparr>tb_rows = [sample_row 1 ''a'' 0, sample_row 2 ''b'' 5, sample_row 3 ''c'' 4000000000], tb_next_seq = 4\<rparr>"

definition sample_filters :: event_filters where
  "sample_filters = \<lparr>fl_cursor = None, fl_event_type = None, fl_since = None, fl_until = None, fl_limit = 2\<rparr>"

definition sample_params :: list_params where
  "sample_params = \<lparr>lp_after = Some 0, lp_before_seq = None, lp_after_seq = None, lp_event_type = None, lp_since = None,
     lp_until = None, lp_limit = 2\<rparr>"

lemma sample_table_ok: "table_ok sample_table"
  by (simp add: table_ok_def sample_table_def sample_row_def)

lemma sample_page: "list_filtered ''pilot'' sample_filters sample_table = [sample_row 3 ''c'' 4000000000, sample_row 2 ''b'' 5]"
  unfolding list_filtered_ok [OF sample_table_ok]
  by (simp add: sample_filters_def sample_table_def sample_row_def row_matches_def)

theorem paging_back_complete_witness:
  "map sv_seq ([sample_row 3 ''c'' 4000000000, sample_row 2 ''b'' 5] @ walk_back ''pilot'' sample_filters 2 sample_table) =
     [3, 2, 1]"
  using paging_back_complete [OF sample_table_ok _ _ sample_page]
  by (simp add: sample_filters_def sample_table_def sample_row_def row_matches_def)

theorem timeline_exact_witness:
  "timeline ''pilot'' (Some 1) 4000000001 sample_table = Some [(0, 3)]"
proof -
  have r: "resolve_timeline_days (Some 1) = Some 1" by (simp add: resolve_timeline_days_def TIMELINE_DAYS_MAX_def)
  then obtain buckets where b: "timeline ''pilot'' (Some 1) 4000000001 sample_table = Some buckets"
    by (simp add: timeline_def)
  from timeline_exact [OF b r] b show ?thesis
    by (simp add: day_of_def sample_table_def sample_row_def)
qed

theorem sessions_are_maximal_runs_witness:
  "\<exists>groups. concat groups = [0, 5, 4000000000] \<and>
     rev (sessions_for_handle ''pilot'' 3 0 sample_table) =
       map (\<lambda>g. \<lparr>is_start_at = hd g, is_end_at = last g, is_event_count = length g\<rparr>) groups"
  using sessions_are_maximal_runs [of sample_table 3 "''pilot''"]
  by (auto simp: sample_table_def sample_row_def List.map_filter_def)

theorem hide_event_effect_witness:
  "fst (set_event_hidden ''pilot'' 2 True 9 (snd (set_event_hidden ''pilot'' 2 True 7 sample_table))) = False"
  using hide_event_effect [OF sample_table_ok surjective_pairing] by blast

theorem legacy_cursor_skips_history_witness:
  "list_events ''pilot'' (sample_params\<lparr>lp_after := Some 3\<rparr>) sample_table = Inr ([], None)"
proof -
  have f: "\<lparr>fl_cursor = None, fl_event_type = None, fl_since = None, fl_until = None, fl_limit = 2\<rparr> = sample_filters"
    by (simp add: sample_filters_def)
  have "list_events ''pilot'' (sample_params\<lparr>lp_after := Some 0\<rparr>) sample_table =
      Inr ([sample_row 3 ''c'' 4000000000, sample_row 2 ''b'' 5], Some 3)"
    by (simp add: list_events_def sample_params_def cursor_of_def LIST_LIMIT_MIN_def LIST_LIMIT_MAX_def f sample_page)
      (simp add: sample_row_def)
  from legacy_cursor_skips_history [OF sample_table_ok _ _ this] show ?thesis by (simp add: sample_params_def)
qed

end
