(* ===== verification/Devices.thy ===== *)
theory Devices
  imports Single_Use
begin

text \<open>
  Models \<^verbatim>\<open>crates/starstats-server/src/devices.rs\<close>: the pairing codes a signed-in user mints and the
  devices they turn into. A table is the list of its rows; an operation is one transaction on the
  two tables. The clock, the drawn codes and the new identifier are arguments. A unique violation
  is the one database failure the code distinguishes; other failures return the error and leave
  the tables alone, which is what \<open>Database\<close> stands for.
\<close>

section \<open>Model\<close>

definition PAIRING_TTL :: time where
  "PAIRING_TTL = 5 * 60"

definition DEFAULT_LABEL :: string where
  "DEFAULT_LABEL = ''Desktop client''"

record pairing =
  pr_code :: string
  pr_user_id :: uuid
  pr_label :: string
  pr_expires_at :: time

record redeemed_device =
  rd_device_id :: uuid
  rd_user_id :: uuid
  rd_label :: string

record device =
  dv_id :: uuid
  dv_user_id :: uuid
  dv_label :: string
  dv_created_at :: time
  dv_last_seen_at :: "time option"

datatype device_error = UnknownCode | AlreadyRedeemed | Expired | DeviceNotFound | Database string

record pairing_row =
  pw_user_id :: uuid
  pw_label :: string
  pw_expires_at :: time
  pw_redeemed_at :: "time option"

record device_row =
  dr_id :: uuid
  dr_user_id :: uuid
  dr_label :: string
  dr_created_at :: time
  dr_last_seen_at :: "time option"
  dr_revoked_at :: "time option"

record device_db =
  db_pairings :: "string \<rightharpoonup> pairing_row"
  db_devices :: "device_row list"

definition ALPHABET :: string where
  "ALPHABET = ''ABCDEFGHJKMNPQRSTUVWXYZ23456789''"

text \<open>A code is eight draws of an index into the alphabet.\<close>

definition fresh_code :: "nat list \<Rightarrow> string" where
  "fresh_code draws = map (\<lambda>i. ALPHABET ! (i mod length ALPHABET)) (take 8 draws)"

fun insert_pairing :: "nat \<Rightarrow> string list \<Rightarrow> pairing_row \<Rightarrow> device_db \<Rightarrow> (device_error + string) \<times> device_db" where
  "insert_pairing 0 codes row db = (Inl (Database ''exhausted pairing code retries''), db)"
| "insert_pairing (Suc n) [] row db = (Inl (Database ''exhausted pairing code retries''), db)"
| "insert_pairing (Suc n) (code # codes) row db =
     (if db_pairings db code = None
      then (Inr code, db\<lparr>db_pairings := (db_pairings db)(code \<mapsto> row)\<rparr>)
      else insert_pairing n codes row db)"

definition create_pairing ::
    "uuid \<Rightarrow> string \<Rightarrow> time \<Rightarrow> time \<Rightarrow> string list \<Rightarrow> device_db \<Rightarrow> (device_error + pairing) \<times> device_db" where
  "create_pairing user_id label ttl now codes db =
     (let label = (if trim label = [] then DEFAULT_LABEL else label);
          expires_at = now + ttl;
          (res, db') = insert_pairing 5 codes
            \<lparr>pw_user_id = user_id, pw_label = label, pw_expires_at = expires_at, pw_redeemed_at = None\<rparr> db
      in case res of
           Inl e \<Rightarrow> (Inl e, db')
         | Inr code \<Rightarrow> (Inr \<lparr>pr_code = code, pr_user_id = user_id, pr_label = label,
             pr_expires_at = expires_at\<rparr>, db'))"

definition redeem_pairing ::
    "string \<Rightarrow> time \<Rightarrow> uuid \<Rightarrow> device_db \<Rightarrow> (device_error + redeemed_device) \<times> device_db" where
  "redeem_pairing code now device_id db =
     (case db_pairings db code of
        None \<Rightarrow> (Inl UnknownCode, db)
      | Some row \<Rightarrow>
          if pw_redeemed_at row \<noteq> None then (Inl AlreadyRedeemed, db)
          else if now > pw_expires_at row then (Inl Expired, db)
          else if device_id \<in> dr_id ` set (db_devices db) then (Inl (Database ''unique violation''), db)
          else
            (Inr \<lparr>rd_device_id = device_id, rd_user_id = pw_user_id row, rd_label = pw_label row\<rparr>,
             db\<lparr>db_devices := db_devices db @
                  [\<lparr>dr_id = device_id, dr_user_id = pw_user_id row, dr_label = pw_label row,
                    dr_created_at = now, dr_last_seen_at = None, dr_revoked_at = None\<rparr>],
                db_pairings := (db_pairings db)(code \<mapsto> row\<lparr>pw_redeemed_at := Some now\<rparr>)\<rparr>))"

definition is_device_active :: "uuid \<Rightarrow> device_db \<Rightarrow> bool" where
  "is_device_active device_id db =
     (case find (\<lambda>r. dr_id r = device_id) (db_devices db) of
        None \<Rightarrow> False
      | Some r \<Rightarrow> dr_revoked_at r = None)"

definition list_for_user :: "uuid \<Rightarrow> device_db \<Rightarrow> device list" where
  "list_for_user user_id db =
     map (\<lambda>r. \<lparr>dv_id = dr_id r, dv_user_id = dr_user_id r, dv_label = dr_label r,
            dv_created_at = dr_created_at r, dv_last_seen_at = dr_last_seen_at r\<rparr>)
       (sort_key (\<lambda>r. - dr_created_at r)
         (filter (\<lambda>r. dr_user_id r = user_id \<and> dr_revoked_at r = None) (db_devices db)))"

definition stamp_revoked :: "time \<Rightarrow> device_row \<Rightarrow> device_row" where
  "stamp_revoked now r =
     r\<lparr>dr_revoked_at := (case dr_revoked_at r of Some t \<Rightarrow> Some t | None \<Rightarrow> Some now)\<rparr>"

definition revoke :: "uuid \<Rightarrow> uuid \<Rightarrow> time \<Rightarrow> device_db \<Rightarrow> (device_error + unit) \<times> device_db" where
  "revoke user_id device_id now db =
     (let hits = (\<lambda>r. dr_id r = device_id \<and> dr_user_id r = user_id);
          db' = db\<lparr>db_devices := map (\<lambda>r. if hits r then stamp_revoked now r else r) (db_devices db)\<rparr>
      in if filter hits (db_devices db) = [] then (Inl DeviceNotFound, db') else (Inr (), db'))"

definition revoke_all_for_user :: "uuid \<Rightarrow> time \<Rightarrow> device_db \<Rightarrow> nat \<times> device_db" where
  "revoke_all_for_user user_id now db =
     (let hits = (\<lambda>r. dr_user_id r = user_id \<and> dr_revoked_at r = None)
      in (length (filter hits (db_devices db)),
          db\<lparr>db_devices := map (\<lambda>r. if hits r then stamp_revoked now r else r) (db_devices db)\<rparr>))"

text \<open>The requests that reach the store, in any order, and the pairing code each one honours.\<close>

datatype device_op =
    CreatePairing uuid string time time "string list"
  | Redeem string time uuid
  | Revoke uuid uuid time
  | RevokeAll uuid time

fun device_step :: "device_op \<Rightarrow> device_db \<Rightarrow> string option \<times> device_db" where
  "device_step (CreatePairing u l ttl now codes) db = (None, snd (create_pairing u l ttl now codes db))"
| "device_step (Redeem code now i) db =
     (case redeem_pairing code now i db of
        (Inl e, db') \<Rightarrow> (None, db')
      | (Inr d, db') \<Rightarrow> (Some code, db'))"
| "device_step (Revoke u i now) db = (None, snd (revoke u i now db))"
| "device_step (RevokeAll u now) db = (None, snd (revoke_all_for_user u now db))"

section \<open>Lemmas\<close>

definition code_spent :: "device_db \<Rightarrow> string \<Rightarrow> bool" where
  "code_spent db code = (case db_pairings db code of None \<Rightarrow> False | Some r \<Rightarrow> pw_redeemed_at r \<noteq> None)"

definition db_ok :: "device_db \<Rightarrow> bool" where
  "db_ok db \<longleftrightarrow> distinct (map dr_id (db_devices db))"

lemma insert_pairing_cases:
  assumes "insert_pairing n codes row db = (res, db')"
  shows "(\<exists>e. res = Inl e \<and> db' = db) \<or>
    (\<exists>code \<in> set codes. res = Inr code \<and> db_pairings db code = None \<and>
       db' = db\<lparr>db_pairings := (db_pairings db)(code \<mapsto> row)\<rparr>)"
  using assms by (induction n codes row db rule: insert_pairing.induct) (auto split: if_splits)

lemma create_pairing_db:
  "\<exists>code row. snd (create_pairing u l ttl now codes db) = db \<or>
     db_pairings db code = None \<and> pw_redeemed_at row = None \<and>
     snd (create_pairing u l ttl now codes db) = db\<lparr>db_pairings := (db_pairings db)(code \<mapsto> row)\<rparr>"
proof -
  obtain res db' where r: "insert_pairing 5 codes \<lparr>pw_user_id = u,
      pw_label = (if trim l = [] then DEFAULT_LABEL else l), pw_expires_at = now + ttl,
      pw_redeemed_at = None\<rparr> db = (res, db')" by fastforce
  then have "snd (create_pairing u l ttl now codes db) = db'"
    by (auto simp: create_pairing_def Let_def split: sum.split prod.split)
  then show ?thesis
    using insert_pairing_cases [OF r]
    by (auto intro!: exI [of _ "\<lparr>pw_user_id = u, pw_label = (if trim l = [] then DEFAULT_LABEL else l),
        pw_expires_at = now + ttl, pw_redeemed_at = None\<rparr>"])
qed

lemma revoke_pairings [simp]:
  "db_pairings (snd (revoke u i now db)) = db_pairings db"
  "db_pairings (snd (revoke_all_for_user u now db)) = db_pairings db"
  by (simp_all add: revoke_def revoke_all_for_user_def Let_def)

lemma device_step_keeps:
  assumes "device_step op db = (r, db')" and "code_spent db k"
  shows "code_spent db' k"
proof (cases op)
  case (CreatePairing u l ttl now codes)
  then show ?thesis
    using assms create_pairing_db [of u l ttl now codes db]
    by (auto simp: code_spent_def split: option.splits if_splits)
next
  case (Redeem code now i)
  then show ?thesis
    using assms by (auto simp: redeem_pairing_def code_spent_def split: option.splits if_splits)
qed (use assms in \<open>auto simp: code_spent_def\<close>)

lemma device_step_honours:
  "device_step op db = (Some k, db') \<Longrightarrow> \<not> code_spent db k \<and> code_spent db' k"
  by (cases op) (auto simp: redeem_pairing_def code_spent_def split: option.splits if_splits)

interpretation pairing_codes: single_use device_step code_spent
  by unfold_locales (use device_step_honours device_step_keeps in blast)+

lemma revoke_ids [simp]:
  "map dr_id (db_devices (snd (revoke u i now db))) = map dr_id (db_devices db)"
  "map dr_id (db_devices (snd (revoke_all_for_user u now db))) = map dr_id (db_devices db)"
  by (simp_all add: revoke_def revoke_all_for_user_def Let_def stamp_revoked_def o_def if_distrib cong: map_cong)

lemma device_step_ok: "db_ok db \<Longrightarrow> device_step op db = (r, db') \<Longrightarrow> db_ok db'"
proof (cases op)
  case (CreatePairing u l ttl now codes)
  assume "db_ok db" "device_step op db = (r, db')"
  then show ?thesis
    using CreatePairing create_pairing_db [of u l ttl now codes db] by (auto simp: db_ok_def)
next
  case (Redeem code now i)
  assume "db_ok db" "device_step op db = (r, db')"
  then show ?thesis
    using Redeem by (auto simp: db_ok_def redeem_pairing_def split: option.splits if_splits)
qed (auto simp: db_ok_def)

lemma active_iff:
  assumes "db_ok db"
  shows "is_device_active i db \<longleftrightarrow> (\<exists>r \<in> set (db_devices db). dr_id r = i \<and> dr_revoked_at r = None)"
proof (cases "find (\<lambda>r. dr_id r = i) (db_devices db)")
  case None
  then have "\<forall>r \<in> set (db_devices db). dr_id r \<noteq> i" by (auto simp: find_None_iff)
  then show ?thesis using None by (simp add: is_device_active_def)
next
  case (Some r)
  then have r: "r \<in> set (db_devices db)" "dr_id r = i" by (auto simp: find_Some_iff)
  then have "\<forall>r' \<in> set (db_devices db). dr_id r' = i \<longrightarrow> r' = r"
    using assms by (auto simp: db_ok_def distinct_map inj_on_def)
  then have "(\<exists>r \<in> set (db_devices db). dr_id r = i \<and> dr_revoked_at r = None) \<longleftrightarrow> dr_revoked_at r = None"
    using r by blast
  then show ?thesis using Some by (simp add: is_device_active_def)
qed

section \<open>Properties\<close>

text \<open>
  C35. A pairing code pairs one device: along any sequence of pairing, redemption and revocation
  requests, no code is honoured twice, and a code already redeemed is never honoured again.
\<close>

theorem pairing_code_single_use:
  "distinct (honoured device_step ops db) \<and>
   (\<forall>code. code_spent db code \<longrightarrow> code \<notin> set (honoured device_step ops db))"
  using pairing_codes.honoured_distinct pairing_codes.spent_never_honoured by blast

theorem pairing_code_single_use_witness:
  "honoured device_step [CreatePairing ''u'' '' '' 300 0 [''AAAAAAAA''], Redeem ''AAAAAAAA'' 10 ''d1'',
      Redeem ''AAAAAAAA'' 20 ''d2''] \<lparr>db_pairings = Map.empty, db_devices = []\<rparr> = [''AAAAAAAA''] \<and>
   distinct (honoured device_step [Redeem ''AAAAAAAA'' 10 ''d1''] \<lparr>db_pairings = Map.empty, db_devices = []\<rparr>)"
  using pairing_code_single_use [of "[Redeem ''AAAAAAAA'' 10 ''d1'']" "\<lparr>db_pairings = Map.empty, db_devices = []\<rparr>"]
  by (simp add: create_pairing_def redeem_pairing_def Let_def numeral_eq_Suc)

text \<open>
  A fresh code works until it expires: after a successful pairing request, redeeming the code at
  any time up to its expiry, under an unused device id, creates exactly one active device that
  belongs to the user who minted the code, with the label it was given.
\<close>

theorem fresh_pairing_redeems:
  assumes "create_pairing user label ttl now codes db = (Inr p, db1)"
    and "now' \<le> now + ttl" and "i \<notin> dr_id ` set (db_devices db)"
  shows "\<exists>db2. redeem_pairing (pr_code p) now' i db1 =
      (Inr \<lparr>rd_device_id = i, rd_user_id = user, rd_label = pr_label p\<rparr>, db2) \<and>
    is_device_active i db2 \<and>
    map dr_id (db_devices db2) = map dr_id (db_devices db) @ [i] \<and>
    (\<exists>d \<in> set (list_for_user user db2). dv_id d = i \<and> dv_label d = pr_label p) \<and>
    pr_label p = (if trim label = [] then DEFAULT_LABEL else label)"
proof -
  let ?l = "if trim label = [] then DEFAULT_LABEL else label"
  let ?row = "\<lparr>pw_user_id = user, pw_label = ?l, pw_expires_at = now + ttl, pw_redeemed_at = None\<rparr>"
  obtain res db' where r: "insert_pairing 5 codes ?row db = (res, db')" by fastforce
  with assms(1) obtain code where code: "res = Inr code" "db1 = db'"
    and p: "p = \<lparr>pr_code = code, pr_user_id = user, pr_label = ?l, pr_expires_at = now + ttl\<rparr>"
    by (auto simp: create_pairing_def Let_def split: sum.splits)
  then have db1: "db1 = db\<lparr>db_pairings := (db_pairings db)(code \<mapsto> ?row)\<rparr>"
    using insert_pairing_cases [OF r] by auto
  have none: "find (\<lambda>r. dr_id r = i) (db_devices db) = None" using assms(3) by (auto simp: find_None_iff)
  have app: "find P (xs @ ys) = (case find P xs of None \<Rightarrow> find P ys | Some x \<Rightarrow> Some x)" for P and xs ys :: "device_row list"
    by (induction xs) auto
  let ?new = "\<lparr>dr_id = i, dr_user_id = user, dr_label = ?l, dr_created_at = now',
    dr_last_seen_at = None, dr_revoked_at = None\<rparr>"
  let ?db2 = "db1\<lparr>db_devices := db_devices db @ [?new],
    db_pairings := (db_pairings db1)(code \<mapsto> ?row\<lparr>pw_redeemed_at := Some now'\<rparr>)\<rparr>"
  have red: "redeem_pairing (pr_code p) now' i db1 =
      (Inr \<lparr>rd_device_id = i, rd_user_id = user, rd_label = pr_label p\<rparr>, ?db2)"
    using assms(2,3) by (simp add: redeem_pairing_def db1 p)
  have act: "is_device_active i ?db2" using none by (simp add: is_device_active_def app)
  have "\<exists>d \<in> set (list_for_user user ?db2). dv_id d = i \<and> dv_label d = pr_label p"
    by (rule bexI [of _ "\<lparr>dv_id = i, dv_user_id = user, dv_label = ?l, dv_created_at = now', dv_last_seen_at = None\<rparr>"])
      (force simp: p list_for_user_def)+
  with red act show ?thesis by (simp add: p)
qed

theorem fresh_pairing_redeems_witness:
  "\<exists>db2. redeem_pairing ''AAAAAAAA'' 300 ''d''
     (snd (create_pairing ''u'' '' '' 300 0 [''AAAAAAAA''] \<lparr>db_pairings = Map.empty, db_devices = []\<rparr>)) =
     (Inr \<lparr>rd_device_id = ''d'', rd_user_id = ''u'', rd_label = DEFAULT_LABEL\<rparr>, db2)"
proof -
  let ?db = "\<lparr>db_pairings = Map.empty, db_devices = []\<rparr>"
  let ?row = "\<lparr>pw_user_id = ''u'', pw_label = DEFAULT_LABEL, pw_expires_at = 300, pw_redeemed_at = None\<rparr>"
  have t: "trim '' '' = []" by code_simp
  have c: "create_pairing ''u'' '' '' 300 0 [''AAAAAAAA''] ?db =
      (Inr \<lparr>pr_code = ''AAAAAAAA'', pr_user_id = ''u'', pr_label = DEFAULT_LABEL, pr_expires_at = 300\<rparr>,
       ?db\<lparr>db_pairings := [''AAAAAAAA'' \<mapsto> ?row]\<rparr>)"
    by (simp add: create_pairing_def t numeral_eq_Suc)
  from fresh_pairing_redeems [OF c, of 300 "''d''"] show ?thesis by (auto simp: c)
qed

text \<open>A device that has a revoked row keeps it.\<close>

definition revoked :: "device_db \<Rightarrow> uuid \<Rightarrow> bool" where
  "revoked db i \<longleftrightarrow> (\<exists>r \<in> set (db_devices db). dr_id r = i \<and> dr_revoked_at r \<noteq> None)"

lemma stamp_revoked_fields [simp]:
  "dr_id (stamp_revoked now r) = dr_id r" "dr_user_id (stamp_revoked now r) = dr_user_id r"
  "dr_revoked_at (stamp_revoked now r) = Some (case dr_revoked_at r of Some t \<Rightarrow> t | None \<Rightarrow> now)"
  by (simp_all add: stamp_revoked_def split: option.split)

lemma revoked_map:
  assumes "\<And>r. dr_id (f r) = dr_id r \<and> (dr_revoked_at r \<noteq> None \<longrightarrow> dr_revoked_at (f r) \<noteq> None)"
    and "revoked db i"
  shows "revoked (db\<lparr>db_devices := map f (db_devices db)\<rparr>) i"
  using assms unfolding revoked_def by fastforce

lemma device_step_revoked: "device_step op db = (r, db') \<Longrightarrow> revoked db i \<Longrightarrow> revoked db' i"
proof (cases op)
  case (CreatePairing u l ttl now codes)
  assume "device_step op db = (r, db')" "revoked db i"
  then show ?thesis
    using CreatePairing create_pairing_db [of u l ttl now codes db] by (auto simp: revoked_def)
next
  case (Redeem code now j)
  assume "device_step op db = (r, db')" "revoked db i"
  then show ?thesis
    using Redeem by (auto simp: revoked_def redeem_pairing_def split: option.splits if_splits)
next
  case (Revoke u j now)
  assume "device_step op db = (r, db')" "revoked db i"
  then show ?thesis using Revoke by (auto simp: revoke_def Let_def intro!: revoked_map)
next
  case (RevokeAll u now)
  assume "device_step op db = (r, db')" "revoked db i"
  then show ?thesis using RevokeAll by (auto simp: revoke_all_for_user_def Let_def intro!: revoked_map)
qed

lemma run_all_invariant:
  assumes "db_ok db" and "revoked db i"
  shows "db_ok (run_all device_step ops db) \<and> revoked (run_all device_step ops db) i"
  using assms
proof (induction ops arbitrary: db)
  case (Cons op ops)
  obtain r db' where s: "device_step op db = (r, db')" by fastforce
  then show ?case
    using Cons device_step_ok [OF Cons.prems(1) s] device_step_revoked [OF s Cons.prems(2)]
    by (simp add: run_all_def)
qed (simp add: run_all_def)

lemma revoked_inactive: "db_ok db \<Longrightarrow> revoked db i \<Longrightarrow> \<not> is_device_active i db"
  by (auto simp: active_iff revoked_def db_ok_def distinct_map inj_on_def)

text \<open>
  Revocation is final and precise: revoking succeeds exactly for a device of the caller, a
  revoked device stays inactive whatever requests follow, and a refused revocation changes
  nothing.
\<close>

theorem revocation_is_final:
  assumes "db_ok db"
  shows "(fst (revoke user i now db) = Inr () \<longleftrightarrow>
      (\<exists>r \<in> set (db_devices db). dr_id r = i \<and> dr_user_id r = user)) \<and>
    (fst (revoke user i now db) = Inr () \<longrightarrow>
      \<not> is_device_active i (run_all device_step ops (snd (revoke user i now db)))) \<and>
    (fst (revoke user i now db) \<noteq> Inr () \<longrightarrow> snd (revoke user i now db) = db)"
proof (cases "\<exists>r \<in> set (db_devices db). dr_id r = i \<and> dr_user_id r = user")
  case True
  then obtain r where r: "r \<in> set (db_devices db)" "dr_id r = i" "dr_user_id r = user" by blast
  have res: "fst (revoke user i now db) = Inr ()"
    using r by (auto simp: revoke_def Let_def filter_empty_conv)
  have "revoked (snd (revoke user i now db)) i"
    using r unfolding revoked_def
    by (intro bexI [of _ "stamp_revoked now r"]) (auto simp: revoke_def Let_def image_iff)
  moreover have "db_ok (snd (revoke user i now db))" using assms by (simp add: db_ok_def)
  ultimately show ?thesis using res True run_all_invariant revoked_inactive by blast
next
  case False
  then have "filter (\<lambda>r. dr_id r = i \<and> dr_user_id r = user) (db_devices db) = []"
    by (auto simp: filter_empty_conv)
  moreover from False have "map (\<lambda>r. if dr_id r = i \<and> dr_user_id r = user then stamp_revoked now r else r)
      (db_devices db) = db_devices db"
    by (intro map_idI) auto
  ultimately show ?thesis using False by (simp add: revoke_def Let_def)
qed

theorem revocation_is_final_witness:
  "let r = \<lparr>dr_id = ''d'', dr_user_id = ''u'', dr_label = ''l'', dr_created_at = 0, dr_last_seen_at = None,
      dr_revoked_at = None\<rparr>; db = \<lparr>db_pairings = Map.empty, db_devices = [r]\<rparr>
   in db_ok db \<and> is_device_active ''d'' db \<and>
      \<not> is_device_active ''d'' (run_all device_step [RevokeAll ''u'' 7] (snd (revoke ''u'' ''d'' 5 db)))"
  using revocation_is_final [of "\<lparr>db_pairings = Map.empty, db_devices = [\<lparr>dr_id = ''d'', dr_user_id = ''u'',
      dr_label = ''l'', dr_created_at = 0, dr_last_seen_at = None, dr_revoked_at = None\<rparr>]\<rparr>"
      "''u''" "''d''" 5 "[RevokeAll ''u'' 7]"]
  by (simp add: db_ok_def is_device_active_def revoke_def Let_def)

end
