(* ===== verification/Auth.thy ===== *)
theory Auth
  imports Devices
begin

text \<open>
  Models \<^verbatim>\<open>crates/starstats-server/src/auth.rs\<close>: issuing tokens, verifying them, and the extractor that
  turns a request's bearer token into an authenticated user. The \<open>jsonwebtoken\<close> crate is the
  parameter \<open>lib\<close>; the key file on disk is not modelled.
\<close>

section \<open>Model\<close>

datatype auth_error =
    MissingToken
  | BadHeader string
  | UnsupportedAlgorithm
  | UnknownKey
  | InvalidToken string
  | Keypair string

datatype algorithm =
    HS256 | HS384 | HS512 | ES256 | ES384 | RS256 | RS384 | RS512 | PS256 | PS384 | PS512 | EdDSA

datatype token_type = User | Device | LoginInterim

datatype aud_claim = AudOne string | AudMany "string list"

text \<open>\<open>exp\<close> and \<open>iat\<close> are seconds since the epoch.\<close>

record claims =
  cl_sub :: string
  cl_iss :: string
  cl_aud :: aud_claim
  cl_exp :: nat
  cl_iat :: nat
  cl_preferred_username :: string
  cl_token_type :: token_type
  cl_device_id :: "uuid option"

record authenticated_user =
  au_sub :: string
  au_preferred_username :: string
  au_token_type :: token_type
  au_device_id :: "uuid option"

definition user_of_claims :: "claims \<Rightarrow> authenticated_user" where
  "user_of_claims c = \<lparr>au_sub = cl_sub c, au_preferred_username = cl_preferred_username c,
     au_token_type = cl_token_type c, au_device_id = cl_device_id c\<rparr>"

record jwt_header =
  jh_alg :: algorithm
  jh_kid :: "string option"

record validation =
  vl_alg :: algorithm
  vl_iss :: string
  vl_aud :: string
  vl_leeway :: nat

record server_key =
  sk_kid :: string
  sk_encoding :: string
  sk_decoding :: string

record jwt_lib =
  jw_encode :: "jwt_header \<Rightarrow> claims \<Rightarrow> string \<Rightarrow> string option"
  jw_decode_header :: "string \<Rightarrow> string + jwt_header"
  jw_decode :: "validation \<Rightarrow> nat \<Rightarrow> string \<Rightarrow> string \<Rightarrow> string + claims"

subsection \<open>Issuing\<close>

record token_issuer =
  ti_key :: server_key
  ti_issuer :: string
  ti_audience :: string
  ti_user_ttl_secs :: nat
  ti_device_ttl_secs :: nat

definition new_issuer :: "server_key \<Rightarrow> string \<Rightarrow> string \<Rightarrow> token_issuer" where
  "new_issuer key issuer audience =
     \<lparr>ti_key = key, ti_issuer = issuer, ti_audience = audience, ti_user_ttl_secs = 3600, ti_device_ttl_secs = 90 * 86400\<rparr>"

definition sign_claims ::
    "token_issuer \<Rightarrow> nat \<Rightarrow> string \<Rightarrow> string \<Rightarrow> token_type \<Rightarrow> uuid option \<Rightarrow> nat \<Rightarrow> claims" where
  "sign_claims ti now sub preferred_username tt device_id ttl_secs =
     \<lparr>cl_sub = sub, cl_iss = ti_issuer ti, cl_aud = AudOne (ti_audience ti), cl_exp = now + ttl_secs, cl_iat = now,
      cl_preferred_username = preferred_username, cl_token_type = tt, cl_device_id = device_id\<rparr>"

definition sign ::
    "jwt_lib \<Rightarrow> token_issuer \<Rightarrow> nat \<Rightarrow> string \<Rightarrow> string \<Rightarrow> token_type \<Rightarrow> uuid option \<Rightarrow> nat \<Rightarrow> auth_error + string" where
  "sign lib ti now sub preferred_username tt device_id ttl_secs =
     (case jw_encode lib \<lparr>jh_alg = RS256, jh_kid = Some (sk_kid (ti_key ti))\<rparr>
        (sign_claims ti now sub preferred_username tt device_id ttl_secs) (sk_encoding (ti_key ti)) of
        Some token \<Rightarrow> Inr token
      | None \<Rightarrow> Inl (InvalidToken ''encode''))"

definition sign_user :: "jwt_lib \<Rightarrow> token_issuer \<Rightarrow> nat \<Rightarrow> string \<Rightarrow> string \<Rightarrow> auth_error + string" where
  "sign_user lib ti now sub preferred_username =
     sign lib ti now sub preferred_username User None (ti_user_ttl_secs ti)"

definition sign_login_interim :: "jwt_lib \<Rightarrow> token_issuer \<Rightarrow> nat \<Rightarrow> string \<Rightarrow> string \<Rightarrow> auth_error + string" where
  "sign_login_interim lib ti now sub preferred_username = sign lib ti now sub preferred_username LoginInterim None 300"

definition sign_device :: "jwt_lib \<Rightarrow> token_issuer \<Rightarrow> nat \<Rightarrow> string \<Rightarrow> string \<Rightarrow> uuid \<Rightarrow> auth_error + string" where
  "sign_device lib ti now sub label device_id =
     sign lib ti now sub label Device (Some device_id) (ti_device_ttl_secs ti)"

subsection \<open>Verifying\<close>

record auth_verifier =
  av_key :: server_key
  av_expected_issuer :: string
  av_expected_audience :: string
  av_leeway_seconds :: nat

definition new_verifier :: "server_key \<Rightarrow> string \<Rightarrow> string \<Rightarrow> auth_verifier" where
  "new_verifier key issuer audience =
     \<lparr>av_key = key, av_expected_issuer = issuer, av_expected_audience = audience, av_leeway_seconds = 60\<rparr>"

definition verify :: "jwt_lib \<Rightarrow> auth_verifier \<Rightarrow> nat \<Rightarrow> string \<Rightarrow> auth_error + claims" where
  "verify lib av now token =
     (case jw_decode_header lib token of
        Inl e \<Rightarrow> Inl (BadHeader e)
      | Inr header \<Rightarrow>
          if jh_alg header \<notin> {RS256, RS384, RS512, ES256, ES384} then Inl UnsupportedAlgorithm
          else if jh_kid header \<noteq> Some (sk_kid (av_key av)) then Inl UnknownKey
          else (case jw_decode lib \<lparr>vl_alg = jh_alg header, vl_iss = av_expected_issuer av,
                    vl_aud = av_expected_audience av, vl_leeway = av_leeway_seconds av\<rparr> now (sk_decoding (av_key av)) token of
                  Inl e \<Rightarrow> Inl (InvalidToken e)
                | Inr c \<Rightarrow> Inr c))"

subsection \<open>The extractor\<close>

definition from_request_parts ::
    "jwt_lib \<Rightarrow> auth_verifier \<Rightarrow> nat \<Rightarrow> string option \<Rightarrow> device_db \<Rightarrow> auth_error + authenticated_user" where
  "from_request_parts lib av now bearer db =
     (case bearer of
        None \<Rightarrow> Inl MissingToken
      | Some token \<Rightarrow>
          sbind (verify lib av now token) (\<lambda>c.
            let user = user_of_claims c
            in if au_token_type user = Device then
                 (case au_device_id user of
                    None \<Rightarrow> Inl (InvalidToken ''device token without device_id claim'')
                  | Some device_id \<Rightarrow>
                      if is_device_active device_id db then Inr user else Inl (InvalidToken ''device revoked''))
               else Inr user))"

section \<open>Lemmas\<close>

text \<open>
  What \<open>jsonwebtoken\<close> documents of a token it encoded itself: the header is read back, and decoding
  under the algorithm of the header returns the claims exactly when issuer and audience are the
  expected ones and the expiry lies at most the leeway in the past.
\<close>

definition claims_valid :: "validation \<Rightarrow> nat \<Rightarrow> claims \<Rightarrow> bool" where
  "claims_valid v now c \<longleftrightarrow>
     cl_iss c = vl_iss v \<and> (case cl_aud c of AudOne a \<Rightarrow> a = vl_aud v | AudMany as \<Rightarrow> vl_aud v \<in> set as) \<and>
     now \<le> cl_exp c + vl_leeway v"

definition jwt_ok :: "jwt_lib \<Rightarrow> server_key \<Rightarrow> bool" where
  "jwt_ok lib key \<longleftrightarrow>
     (\<forall>h c t. jw_encode lib h c (sk_encoding key) = Some t \<longrightarrow>
        jw_decode_header lib t = Inr h \<and>
        (\<forall>v now. vl_alg v = jh_alg h \<longrightarrow>
           (claims_valid v now c \<longrightarrow> jw_decode lib v now (sk_decoding key) t = Inr c) \<and>
           (\<not> claims_valid v now c \<longrightarrow> (\<exists>e. jw_decode lib v now (sk_decoding key) t = Inl e))))"

lemma verify_signed:
  assumes "jwt_ok lib key" and "sign lib (new_issuer key iss aud) now sub name tt dev ttl = Inr t"
  shows "verify lib (new_verifier key iss aud) now' t = Inr c \<longleftrightarrow>
    now' \<le> now + ttl + 60 \<and> c = sign_claims (new_issuer key iss aud) now sub name tt dev ttl"
proof -
  let ?h = "\<lparr>jh_alg = RS256, jh_kid = Some (sk_kid key)\<rparr>"
  let ?c = "sign_claims (new_issuer key iss aud) now sub name tt dev ttl"
  let ?v = "\<lparr>vl_alg = RS256, vl_iss = iss, vl_aud = aud, vl_leeway = 60\<rparr>"
  have e: "jw_encode lib ?h ?c (sk_encoding key) = Some t"
    using assms(2) by (simp add: sign_def new_issuer_def split: option.splits)
  then have h: "jw_decode_header lib t = Inr ?h" and
    d: "vl_alg v = RS256 \<Longrightarrow> (claims_valid v now' ?c \<longrightarrow> jw_decode lib v now' (sk_decoding key) t = Inr ?c) \<and>
      (\<not> claims_valid v now' ?c \<longrightarrow> (\<exists>e. jw_decode lib v now' (sk_decoding key) t = Inl e))" for v
    using assms(1) unfolding jwt_ok_def by fastforce+
  have cv: "claims_valid ?v now' ?c \<longleftrightarrow> now' \<le> now + ttl + 60"
    by (simp add: claims_valid_def sign_claims_def new_issuer_def)
  have "verify lib (new_verifier key iss aud) now' t =
      (case jw_decode lib ?v now' (sk_decoding key) t of Inl e \<Rightarrow> Inl (InvalidToken e) | Inr c \<Rightarrow> Inr c)"
    by (simp add: verify_def new_verifier_def h)
  then show ?thesis using d [of ?v] cv by (cases "now' \<le> now + ttl + 60") auto
qed

text \<open>The user a signed token is read as.\<close>

lemma from_request_signed:
  assumes "jwt_ok lib key" and "sign lib (new_issuer key iss aud) now sub name tt dev ttl = Inr t"
  shows "from_request_parts lib (new_verifier key iss aud) now' (Some t) db = Inr u \<longleftrightarrow>
    now' \<le> now + ttl + 60 \<and>
    u = \<lparr>au_sub = sub, au_preferred_username = name, au_token_type = tt, au_device_id = dev\<rparr> \<and>
    (tt = Device \<longrightarrow> (\<exists>i. dev = Some i \<and> is_device_active i db))"
  by (auto simp: from_request_parts_def sbind_Inr_iff verify_signed [OF assms] user_of_claims_def sign_claims_def Let_def
      split: if_splits option.splits)

lemma from_request_device:
  assumes "from_request_parts lib av now (Some t) db = Inr u" and "au_token_type u = Device"
  shows "\<exists>i. au_device_id u = Some i \<and> is_device_active i db"
  using assms by (auto simp: from_request_parts_def sbind_Inr_iff Let_def split: if_splits option.splits)

section \<open>Properties\<close>

text \<open>
  C29. A device token works as long as the device does: a token signed for a device is accepted, and
  read as that device of that user, exactly while the device is active and its ninety days, plus a
  minute of leeway, are not over.
\<close>

theorem device_token_follows_device:
  assumes "jwt_ok lib key" and "sign_device lib (new_issuer key iss aud) now sub label i = Inr t"
  shows "from_request_parts lib (new_verifier key iss aud) now' (Some t) db = Inr u \<longleftrightarrow>
    is_device_active i db \<and> now' \<le> now + 90 * 86400 + 60 \<and>
    u = \<lparr>au_sub = sub, au_preferred_username = label, au_token_type = Device, au_device_id = Some i\<rparr>"
proof -
  have "sign lib (new_issuer key iss aud) now sub label Device (Some i) (90 * 86400) = Inr t"
    using assms(2) by (simp add: sign_device_def new_issuer_def)
  from from_request_signed [OF assms(1) this] show ?thesis by auto
qed

text \<open>
  Only tokens of the current key and of an asymmetric algorithm are accepted: a token whose header
  names a symmetric algorithm, another key or no key is refused, whatever the library says of its
  signature, and so is a device token whose device is not active.
\<close>

theorem extractor_refuses:
  assumes "from_request_parts lib av now (Some t) db = Inr u"
  shows "(\<exists>h. jw_decode_header lib t = Inr h \<and> jh_alg h \<notin> {HS256, HS384, HS512} \<and> jh_kid h = Some (sk_kid (av_key av))) \<and>
    (au_token_type u = Device \<longrightarrow> (\<exists>i. au_device_id u = Some i \<and> is_device_active i db))"
proof
  obtain c where "verify lib av now t = Inr c"
    using assms by (auto simp: from_request_parts_def sbind_Inr_iff)
  then show "\<exists>h. jw_decode_header lib t = Inr h \<and> jh_alg h \<notin> {HS256, HS384, HS512} \<and> jh_kid h = Some (sk_kid (av_key av))"
    by (auto simp: verify_def split: sum.splits if_splits)
  show "au_token_type u = Device \<longrightarrow> (\<exists>i. au_device_id u = Some i \<and> is_device_active i db)"
    using from_request_device [OF assms] by blast
qed

section \<open>A concrete library\<close>

definition sample_key :: server_key where
  "sample_key = \<lparr>sk_kid = ''k'', sk_encoding = ''e'', sk_decoding = ''d''\<rparr>"

text \<open>A library that knows a list of claims and their tokens.\<close>

definition table_lib :: "(string \<times> claims) list \<Rightarrow> jwt_lib" where
  "table_lib toks =
     \<lparr>jw_encode = (\<lambda>h c k. if h = \<lparr>jh_alg = RS256, jh_kid = Some ''k''\<rparr>
          then map_option fst (find (\<lambda>(t, c'). c' = c) toks) else None),
      jw_decode_header = (\<lambda>t. if t \<in> fst ` set toks then Inr \<lparr>jh_alg = RS256, jh_kid = Some ''k''\<rparr> else Inl ''header''),
      jw_decode = (\<lambda>v now k t. case map_of toks t of
          Some c \<Rightarrow> if claims_valid v now c then Inr c else Inl ''claims''
        | None \<Rightarrow> Inl ''signature'')\<rparr>"

lemma table_lib_ok:
  assumes "distinct (map fst toks)"
  shows "jwt_ok (table_lib toks) key"
proof -
  have "map_of toks t = Some c" if "find (\<lambda>(t, c'). c' = c) toks = Some (t, c')" for t c c'
    using that assms by (auto simp: find_Some_iff intro!: map_of_is_SomeI) (metis nth_mem)
  moreover have "t \<in> fst ` set toks" if "find (\<lambda>(t, c'). c' = c) toks = Some (t, c')" for t c c'
    using that by (auto simp: find_Some_iff) (metis fst_conv image_eqI nth_mem)
  ultimately show ?thesis
    by (auto simp: jwt_ok_def table_lib_def split: if_splits)
qed

definition sample_lib :: jwt_lib where
  "sample_lib = table_lib [(''t'', sign_claims (new_issuer sample_key ''i'' ''a'') 0 ''s'' ''n'' Device (Some ''d1'') (90 * 86400))]"

lemma sample_lib_ok: "jwt_ok sample_lib sample_key"
  unfolding sample_lib_def by (rule table_lib_ok) simp

definition sample_devices :: device_db where
  "sample_devices = \<lparr>db_pairings = Map.empty, db_devices = [\<lparr>dr_id = ''d1'', dr_user_id = ''s'', dr_label = ''n'',
     dr_created_at = 0, dr_last_seen_at = None, dr_revoked_at = None\<rparr>]\<rparr>"

lemma sample_signed: "sign_device sample_lib (new_issuer sample_key ''i'' ''a'') 0 ''s'' ''n'' ''d1'' = Inr ''t''"
  by (simp add: sign_device_def sign_def sample_lib_def table_lib_def sample_key_def new_issuer_def)

theorem device_token_follows_device_witness:
  "from_request_parts sample_lib (new_verifier sample_key ''i'' ''a'') 5 (Some ''t'') sample_devices =
     Inr \<lparr>au_sub = ''s'', au_preferred_username = ''n'', au_token_type = Device, au_device_id = Some ''d1''\<rparr>"
  using device_token_follows_device [OF sample_lib_ok sample_signed, of 5 sample_devices]
  by (simp add: sample_devices_def is_device_active_def)

theorem extractor_refuses_witness:
  "\<exists>h. jw_decode_header sample_lib ''t'' = Inr h \<and> jh_alg h \<notin> {HS256, HS384, HS512} \<and> jh_kid h = Some ''k''"
  using extractor_refuses [OF from_request_signed [OF sample_lib_ok sample_signed [unfolded sign_device_def], THEN iffD2],
      of 5 _ sample_devices]
  by (simp add: sample_devices_def is_device_active_def new_verifier_def sample_key_def)

end
