(* ===== verification/Ingest.thy ===== *)
theory Ingest
  imports Event_Repo Validators Auth
begin

text \<open>
  Models \<^verbatim>\<open>crates/starstats-server/src/ingest.rs\<close>: the handler of \<open>POST /v1/ingest\<close> over the event table
  and the audit log. Fresh identifiers, the clock, SHA-256, the JSON writers and the failure of each insert
  (which may depend on the statement's number and on the row it carries) are fields of the parameter \<open>sv\<close>;
  metrics and tracing are left out.
\<close>

section \<open>Model\<close>

record ingest_platform =
  ip_to_value :: "game_event \<Rightarrow> json option"
  ip_parse_rfc3339 :: "string \<Rightarrow> micros option"
  ip_new_id :: "nat \<Rightarrow> uuid"
  ip_sha256 :: "string \<Rightarrow> string"
  ip_to_vec :: "json \<Rightarrow> string"
  ip_now :: time
  ip_fault :: "nat \<Rightarrow> stored_event \<Rightarrow> db_fault option"

record ingest_state =
  is_events :: event_table
  is_audit :: audit_table

datatype ingest_reply =
    UnsupportedSchema u16
  | MissingHandle
  | HandleMismatch
  | Ingested string u32 u32 u32

fun ingest_status :: "ingest_reply \<Rightarrow> nat" where
  "ingest_status (UnsupportedSchema v) = 400"
| "ingest_status MissingHandle = 400"
| "ingest_status HandleMismatch = 403"
| "ingest_status (Ingested b a d r) = 200"

definition eq_ignore_ascii_case :: "string \<Rightarrow> string \<Rightarrow> bool" where
  "eq_ignore_ascii_case a b \<longleftrightarrow> to_ascii_lowercase a = to_ascii_lowercase b"

definition backfill_metadata :: "string \<Rightarrow> event_envelope \<Rightarrow> event_envelope" where
  "backfill_metadata handle env =
     (case (ee_metadata env, ee_event env) of
        (None, Some ev) \<Rightarrow> env\<lparr>ee_metadata := Some (stamp ev (Some handle))\<rparr>
      | _ \<Rightarrow> env)"

text \<open>The insert loop; \<open>k\<close> numbers the identifiers drawn and the statements.\<close>

definition row_of :: "ingest_platform \<Rightarrow> string \<Rightarrow> nat \<Rightarrow> event_envelope \<Rightarrow> stored_event" where
  "row_of sv handle k env = from_envelope (ip_to_value sv) (ip_parse_rfc3339 sv) (ip_new_id sv k) env handle"

fun store_events ::
    "ingest_platform \<Rightarrow> string \<Rightarrow> nat \<Rightarrow> event_envelope list \<Rightarrow> event_table \<Rightarrow> u32 \<times> u32 \<times> u32 \<Rightarrow> event_table \<times> u32 \<times> u32 \<times> u32" where
  "store_events sv handle k [] tbl counts = (tbl, counts)"
| "store_events sv handle k (env # envs) tbl counts =
     (case counts of (accepted, duplicate, rejected) \<Rightarrow>
        case insert_stored (ip_fault sv k (row_of sv handle k env)) (row_of sv handle k env) tbl of
          (Inr Inserted, tbl') \<Rightarrow> store_events sv handle (Suc k) envs tbl' (accepted + 1, duplicate, rejected)
        | (Inr Duplicate, tbl') \<Rightarrow> store_events sv handle (Suc k) envs tbl' (accepted, duplicate + 1, rejected)
        | (Inl e, tbl') \<Rightarrow> store_events sv handle (Suc k) envs tbl' (accepted, duplicate, rejected + 1))"

definition opt_json :: "string option \<Rightarrow> json" where
  "opt_json s = (case s of None \<Rightarrow> JNull | Some x \<Rightarrow> JString x)"

definition ingest_audit_entry :: "authenticated_user \<Rightarrow> ingest_batch \<Rightarrow> u32 \<Rightarrow> u32 \<Rightarrow> u32 \<Rightarrow> audit_entry" where
  "ingest_audit_entry user batch a d r =
     \<lparr>ae_actor_sub = Some (au_sub user), ae_actor_handle = Some (au_preferred_username user),
      ae_action = ''ingest.batch_processed'',
      ae_payload = JObject
        [(''batch_id'', JString (ib_batch_id batch)), (''claimed_handle'', JString (ib_claimed_handle batch)),
         (''game_build'', opt_json (ib_game_build batch)), (''device_id'', opt_json (au_device_id user)),
         (''total'', JNumber (i64_to_string (int (length (ib_events batch))))),
         (''accepted'', JNumber (i64_to_string (uint a))), (''duplicate'', JNumber (i64_to_string (uint d))),
         (''rejected'', JNumber (i64_to_string (uint r)))]\<rparr>"

definition ingest_handle ::
    "ingest_platform \<Rightarrow> authenticated_user \<Rightarrow> ingest_batch \<Rightarrow> ingest_state \<Rightarrow> ingest_reply \<times> ingest_state" where
  "ingest_handle sv user batch st =
     (if ib_schema_version batch < 1 \<or> ib_schema_version batch > CURRENT_SCHEMA_VERSION
      then (UnsupportedSchema (ib_schema_version batch), st)
      else if trim (ib_claimed_handle batch) = [] then (MissingHandle, st)
      else if \<not> eq_ignore_ascii_case (ib_claimed_handle batch) (au_preferred_username user) then (HandleMismatch, st)
      else
        (let envs = map (backfill_metadata (ib_claimed_handle batch)) (ib_events batch);
             (tbl, a, d, r) = store_events sv (ib_claimed_handle batch) 0 envs (is_events st) (0, 0, 0);
             audit = snd (append_entry (ip_sha256 sv) (ip_to_vec sv) (ip_now sv) (ingest_audit_entry user batch a d r) (is_audit st))
         in (Ingested (ib_batch_id batch) a d r, st\<lparr>is_events := tbl, is_audit := audit\<rparr>)))"

section \<open>Lemmas\<close>

text \<open>The events of one handle, as a store that ignores what it already has.\<close>

definition has_event :: "event_table \<Rightarrow> string \<Rightarrow> string \<Rightarrow> bool" where
  "has_event tbl handle key \<longleftrightarrow> (\<exists>r \<in> set (tb_rows tbl). sv_handle r = handle \<and> sv_key r = key)"

lemma from_envelope_fields [simp]:
  "sv_key (from_envelope tv p i env h) = ee_idempotency_key env" "sv_handle (from_envelope tv p i env h) = h"
  "sv_id (from_envelope tv p i env h) = i" "sv_hidden_at (from_envelope tv p i env h) = None"
  by (simp_all add: from_envelope_def Let_def split: prod.split)

lemma backfill_metadata_fields [simp]:
  "ee_idempotency_key (backfill_metadata h env) = ee_idempotency_key env"
  "ee_event (backfill_metadata h env) = ee_event env"
  by (simp_all add: backfill_metadata_def split: option.split)

lemma row_of_fields [simp]:
  "sv_key (row_of sv h k env) = ee_idempotency_key env" "sv_handle (row_of sv h k env) = h"
  "sv_id (row_of sv h k env) = ip_new_id sv k" "sv_hidden_at (row_of sv h k env) = None"
  by (simp_all add: row_of_def)

text \<open>The envelope's metadata is dropped.\<close>

lemma row_of_backfill [simp]: "row_of sv h k (backfill_metadata h' env) = row_of sv h k env"
  by (simp add: row_of_def from_envelope_def backfill_metadata_def split: option.split)

lemma insert_stored_eq:
  "insert_stored None ev tbl =
     (if has_event tbl (sv_handle ev) (sv_key ev) then (Inr Duplicate, tbl\<lparr>tb_next_seq := tb_next_seq tbl + 1\<rparr>)
      else if sv_id ev \<in> sv_id ` set (tb_rows tbl)
      then (Inl (RepoDatabase ''unique violation''), tbl\<lparr>tb_next_seq := tb_next_seq tbl + 1\<rparr>)
      else (Inr Inserted, tbl\<lparr>tb_next_seq := tb_next_seq tbl + 1,
        tb_rows := tb_rows tbl @ [ev\<lparr>sv_seq := tb_next_seq tbl\<rparr>]\<rparr>))"
  by (simp add: insert_stored_def has_event_def Let_def)

lemma insert_stored_fault:
  "insert_stored fault ev tbl =
     (case fault of
        None \<Rightarrow> insert_stored None ev tbl
      | Some (Unsent e) \<Rightarrow> (Inl (RepoDatabase e), tbl)
      | Some (Refused e) \<Rightarrow> (Inl (RepoDatabase e), tbl\<lparr>tb_next_seq := tb_next_seq tbl + 1\<rparr>)
      | Some (AnswerLost e) \<Rightarrow> (Inl (RepoDatabase e), snd (insert_stored None ev tbl)))"
  by (auto simp: insert_stored_def Let_def case_prod_unfold split: option.split db_fault.split)

fun answer_lost :: "db_fault option \<Rightarrow> bool" where
  "answer_lost (Some (AnswerLost e)) \<longleftrightarrow> True"
| "answer_lost _ \<longleftrightarrow> False"

text \<open>One insert: what it answers, and whether the row is there.\<close>

lemma insert_stored_cases:
  assumes "insert_stored fault ev tbl = (res, tbl')"
  obtains (duplicate) "has_event tbl (sv_handle ev) (sv_key ev)" "res = Inr Duplicate" "fault = None" "tb_rows tbl' = tb_rows tbl"
  | (inserted) "\<not> has_event tbl (sv_handle ev) (sv_key ev)" "res = Inr Inserted" "fault = None"
      "tb_rows tbl' = tb_rows tbl @ [ev\<lparr>sv_seq := tb_next_seq tbl\<rparr>]"
  | (failed) "isl res" "fault \<noteq> None \<or> sv_id ev \<in> sv_id ` set (tb_rows tbl)" "tb_rows tbl' = tb_rows tbl"
  | (lost) "isl res" "answer_lost fault" "\<not> has_event tbl (sv_handle ev) (sv_key ev)"
      "tb_rows tbl' = tb_rows tbl @ [ev\<lparr>sv_seq := tb_next_seq tbl\<rparr>]"
proof -
  obtain res0 tbl0 where s: "insert_stored None ev tbl = (res0, tbl0)" by fastforce
  then consider "has_event tbl (sv_handle ev) (sv_key ev)" "res0 = Inr Duplicate" "tb_rows tbl0 = tb_rows tbl"
    | "\<not> has_event tbl (sv_handle ev) (sv_key ev)" "res0 = Inr Inserted" "tb_rows tbl0 = tb_rows tbl @ [ev\<lparr>sv_seq := tb_next_seq tbl\<rparr>]"
    | "isl res0" "sv_id ev \<in> sv_id ` set (tb_rows tbl)" "tb_rows tbl0 = tb_rows tbl"
    unfolding insert_stored_eq by (cases "has_event tbl (sv_handle ev) (sv_key ev)"; cases "sv_id ev \<in> sv_id ` set (tb_rows tbl)") auto
  then show thesis
  proof cases
    case 1
    then show thesis using assms s duplicate failed
      by (cases fault; cases "the fault") (auto simp: insert_stored_fault [of "Some _"])
  next
    case 2
    then show thesis using assms s inserted failed lost
      by (cases fault; cases "the fault") (auto simp: insert_stored_fault [of "Some _"])
  next
    case 3
    then show thesis using assms s failed
      by (cases fault; cases "the fault") (auto simp: insert_stored_fault [of "Some _"])
  qed
qed

text \<open>Identifiers still to be drawn are new.\<close>

definition ids_fresh :: "ingest_platform \<Rightarrow> nat \<Rightarrow> event_table \<Rightarrow> bool" where
  "ids_fresh sv k tbl \<longleftrightarrow> inj (ip_new_id sv) \<and> (\<forall>n \<ge> k. ip_new_id sv n \<notin> sv_id ` set (tb_rows tbl))"

lemma ids_fresh_step:
  assumes "ids_fresh sv k tbl" and "sv_id ` set (tb_rows tbl') \<subseteq> insert (ip_new_id sv k) (sv_id ` set (tb_rows tbl))"
  shows "ids_fresh sv (Suc k) tbl'"
  unfolding ids_fresh_def
proof (intro conjI allI impI)
  show inj: "inj (ip_new_id sv)" using assms(1) by (simp add: ids_fresh_def)
  fix n assume n: "Suc k \<le> n"
  then have "ip_new_id sv n \<noteq> ip_new_id sv k" using inj by (auto simp: inj_eq)
  moreover have "ip_new_id sv n \<notin> sv_id ` set (tb_rows tbl)" using assms(1) n by (simp add: ids_fresh_def)
  ultimately show "ip_new_id sv n \<notin> sv_id ` set (tb_rows tbl')" using assms(2) by blast
qed

lemma has_event_append: "has_event tbl h k \<Longrightarrow> tb_rows tbl' = tb_rows tbl @ new \<Longrightarrow> has_event tbl' h k"
  by (auto simp: has_event_def)

text \<open>The results of the inserts one by one; the counters of the loop count them.\<close>

fun insert_results ::
    "ingest_platform \<Rightarrow> string \<Rightarrow> nat \<Rightarrow> event_envelope list \<Rightarrow> event_table \<Rightarrow> (repo_error + insert_outcome) list \<times> event_table" where
  "insert_results sv h k [] tbl = ([], tbl)"
| "insert_results sv h k (env # envs) tbl =
     (let (res, tbl1) = insert_stored (ip_fault sv k (row_of sv h k env)) (row_of sv h k env) tbl
      in apfst ((#) res) (insert_results sv h (Suc k) envs tbl1))"

definition counted_as :: "(repo_error + insert_outcome) list \<Rightarrow> u32 \<Rightarrow> u32 \<Rightarrow> u32 \<Rightarrow> bool" where
  "counted_as rs accepted duplicate rejected \<longleftrightarrow>
     accepted = of_nat (length (filter (\<lambda>x. x = Inr Inserted) rs)) \<and> duplicate = of_nat (length (filter (\<lambda>x. x = Inr Duplicate) rs)) \<and>
     rejected = of_nat (length (filter isl rs))"

lemma insert_results_length [simp]: "length (fst (insert_results sv h k envs tbl)) = length envs"
  by (induction envs arbitrary: k tbl) (simp_all add: case_prod_unfold Let_def)

lemma store_events_results:
  "store_events sv h k envs tbl (a, d, r) =
     (let (rs, tbl') = insert_results sv h k envs tbl
      in (tbl', a + of_nat (length (filter (\<lambda>x. x = Inr Inserted) rs)), d + of_nat (length (filter (\<lambda>x. x = Inr Duplicate) rs)),
          r + of_nat (length (filter isl rs))))"
proof (induction envs arbitrary: k tbl a d r)
  case (Cons env envs)
  obtain res tbl1 where i: "insert_stored (ip_fault sv k (row_of sv h k env)) (row_of sv h k env) tbl = (res, tbl1)" by fastforce
  show ?case
    by (cases res; cases "projr res") (auto simp: i Cons.IH case_prod_unfold Let_def algebra_simps)
qed simp

text \<open>How each insert of a batch fails, if it does.\<close>

fun insert_faults :: "ingest_platform \<Rightarrow> string \<Rightarrow> nat \<Rightarrow> event_envelope list \<Rightarrow> db_fault option list" where
  "insert_faults sv h k [] = []"
| "insert_faults sv h k (env # envs) = ip_fault sv k (row_of sv h k env) # insert_faults sv h (Suc k) envs"

lemma insert_faults_length [simp]: "length (insert_faults sv h k envs) = length envs"
  by (induction envs arbitrary: k) simp_all

lemma insert_faults_backfill [simp]: "insert_faults sv h k (map (backfill_metadata h') envs) = insert_faults sv h k envs"
  by (induction envs arbitrary: k) simp_all

text \<open>Whatever fails: rows are only appended, each for an event of the batch, and the keys stay unique.\<close>

lemma insert_results_rows:
  assumes "table_ok tbl"
  shows "\<exists>new. tb_rows (snd (insert_results sv h k envs tbl)) = tb_rows tbl @ new \<and>
    (\<forall>n \<in> set new. sv_handle n = h \<and> sv_hidden_at n = None) \<and> sv_key ` set new \<subseteq> ee_idempotency_key ` set envs \<and>
    length (filter (\<lambda>x. x = Inr Inserted) (fst (insert_results sv h k envs tbl))) \<le> length new \<and>
    length new \<le> length (filter (\<lambda>x. x = Inr Inserted) (fst (insert_results sv h k envs tbl))) +
      length (filter answer_lost (insert_faults sv h k envs)) \<and>
    table_ok (snd (insert_results sv h k envs tbl))"
  using assms
proof (induction envs arbitrary: k tbl)
  case (Cons env envs)
  let ?f = "ip_fault sv k (row_of sv h k env)" and ?row = "row_of sv h k env"
  obtain res t1 where i: "insert_stored ?f ?row tbl = (res, t1)" by fastforce
  have ok1: "table_ok t1" using insert_stored_ok [OF Cons.prems, of ?f ?row] i by simp
  obtain new where n: "tb_rows (snd (insert_results sv h (Suc k) envs t1)) = tb_rows t1 @ new"
    "\<forall>n \<in> set new. sv_handle n = h \<and> sv_hidden_at n = None" "sv_key ` set new \<subseteq> ee_idempotency_key ` set envs"
    "length (filter (\<lambda>x. x = Inr Inserted) (fst (insert_results sv h (Suc k) envs t1))) \<le> length new"
    "length new \<le> length (filter (\<lambda>x. x = Inr Inserted) (fst (insert_results sv h (Suc k) envs t1))) +
      length (filter answer_lost (insert_faults sv h (Suc k) envs))"
    "table_ok (snd (insert_results sv h (Suc k) envs t1))"
    using Cons.IH [OF ok1, of "Suc k"] by blast
  from i show ?case
  proof (cases rule: insert_stored_cases)
    case inserted
    then show ?thesis using n i by (intro exI [of _ "?row\<lparr>sv_seq := tb_next_seq tbl\<rparr> # new"]) auto
  next
    case lost
    then show ?thesis using n i by (intro exI [of _ "?row\<lparr>sv_seq := tb_next_seq tbl\<rparr> # new"]) auto
  qed (use n i in \<open>auto intro!: exI [of _ new]\<close>)
qed simp

lemma insert_results_keep: "has_event tbl h' key \<Longrightarrow> has_event (snd (insert_results sv h k envs tbl)) h' key"
proof (induction envs arbitrary: k tbl)
  case (Cons env envs)
  let ?f = "ip_fault sv k (row_of sv h k env)" and ?row = "row_of sv h k env"
  obtain res t1 where i: "insert_stored ?f ?row tbl = (res, t1)" by fastforce
  have "has_event t1 h' key" using i Cons.prems
    by (cases rule: insert_stored_cases) (auto simp: has_event_def)
  then show ?case using Cons.IH i by simp
qed simp

text \<open>With fresh identifiers an insert fails only by a fault, and an event whose insert did not fail is on file.\<close>

lemma insert_results_faults:
  assumes "ids_fresh sv k tbl"
  shows "list_all2 (\<lambda>f res. isl res \<longleftrightarrow> f \<noteq> None) (insert_faults sv h k envs) (fst (insert_results sv h k envs tbl)) \<and>
    list_all2 (\<lambda>f env. f = None \<longrightarrow> has_event (snd (insert_results sv h k envs tbl)) h (ee_idempotency_key env))
      (insert_faults sv h k envs) envs"
  using assms
proof (induction envs arbitrary: k tbl)
  case (Cons env envs)
  let ?f = "ip_fault sv k (row_of sv h k env)" and ?row = "row_of sv h k env"
  obtain res t1 where i: "insert_stored ?f ?row tbl = (res, t1)" by fastforce
  have fresh: "ip_new_id sv k \<notin> sv_id ` set (tb_rows tbl)" using Cons.prems by (simp add: ids_fresh_def)
  have "ids_fresh sv (Suc k) t1"
    by (rule ids_fresh_step [OF Cons.prems]) (use i in \<open>cases rule: insert_stored_cases; auto\<close>)
  note ih = Cons.IH [OF this]
  have "(isl res \<longleftrightarrow> ?f \<noteq> None) \<and> (?f = None \<longrightarrow> has_event t1 h (ee_idempotency_key env))"
    using i fresh by (cases rule: insert_stored_cases) (auto simp: has_event_def)
  then show ?case using ih i insert_results_keep [of t1 h "ee_idempotency_key env" sv h "Suc k" envs] by simp
qed simp

text \<open>Sending events again: those on file are duplicates, and only the others can give new rows.\<close>

lemma insert_results_again:
  assumes "list_all2 (\<lambda>f env. f = None \<longrightarrow> has_event tbl h (ee_idempotency_key env)) fs envs"
  shows "(\<forall>i < length envs. fs ! i = None \<longrightarrow> insert_faults sv h k envs ! i = None \<longrightarrow>
      fst (insert_results sv h k envs tbl) ! i = Inr Duplicate) \<and>
    (\<exists>new. tb_rows (snd (insert_results sv h k envs tbl)) = tb_rows tbl @ new \<and>
       sv_key ` set new \<subseteq> {ee_idempotency_key (envs ! i) |i. i < length envs \<and> fs ! i \<noteq> None})"
  using assms
proof (induction envs arbitrary: fs k tbl rule: list.induct)
  case (Cons env envs)
  let ?f = "ip_fault sv k (row_of sv h k env)" and ?row = "row_of sv h k env"
  obtain f fs' where fs: "fs = f # fs'" "f = None \<longrightarrow> has_event tbl h (ee_idempotency_key env)"
    "list_all2 (\<lambda>f env. f = None \<longrightarrow> has_event tbl h (ee_idempotency_key env)) fs' envs"
    using Cons.prems by (auto simp: list_all2_Cons2)
  obtain res t1 where i: "insert_stored ?f ?row tbl = (res, t1)" by fastforce
  have keep: "has_event t1 h key" if "has_event tbl h key" for key
    using i that by (cases rule: insert_stored_cases) (auto simp: has_event_def)
  have "list_all2 (\<lambda>f env. f = None \<longrightarrow> has_event t1 h (ee_idempotency_key env)) fs' envs"
    using fs(3) by (rule list_all2_mono) (use keep in blast)
  note ih = Cons.IH [OF this, of "Suc k"]
  have first: "res = Inr Duplicate" if "f = None" "?f = None"
    using i that fs(2) by (simp add: insert_stored_eq)
  then have dup: "\<forall>j < length (env # envs). fs ! j = None \<longrightarrow> insert_faults sv h k (env # envs) ! j = None \<longrightarrow>
      fst (insert_results sv h k (env # envs) tbl) ! j = Inr Duplicate"
    using ih i by (auto simp: fs(1) nth_Cons' split: if_splits)
  obtain new where n: "tb_rows (snd (insert_results sv h (Suc k) envs t1)) = tb_rows t1 @ new"
    "sv_key ` set new \<subseteq> {ee_idempotency_key (envs ! i) |i. i < length envs \<and> fs' ! i \<noteq> None}" using ih by blast
  have sub: "sv_key ` set new \<subseteq> {ee_idempotency_key ((env # envs) ! i) |i. i < length (env # envs) \<and> fs ! i \<noteq> None}"
  proof
    fix key assume "key \<in> sv_key ` set new"
    then obtain i where "i < length envs" "fs' ! i \<noteq> None" "key = ee_idempotency_key (envs ! i)" using n(2) by blast
    then show "key \<in> {ee_idempotency_key ((env # envs) ! i) |i. i < length (env # envs) \<and> fs ! i \<noteq> None}"
      by (auto simp: fs(1) intro!: exI [of _ "Suc i"])
  qed
  have "tb_rows t1 = tb_rows tbl \<or> f \<noteq> None \<and> tb_rows t1 = tb_rows tbl @ [?row\<lparr>sv_seq := tb_next_seq tbl\<rparr>]"
    using i fs(2) by (cases rule: insert_stored_cases) auto
  then show ?case
  proof
    assume "tb_rows t1 = tb_rows tbl"
    then show ?thesis using dup n(1) sub i by (intro conjI exI [of _ new]) simp_all
  next
    assume t1: "f \<noteq> None \<and> tb_rows t1 = tb_rows tbl @ [?row\<lparr>sv_seq := tb_next_seq tbl\<rparr>]"
    then have "ee_idempotency_key env \<in> {ee_idempotency_key ((env # envs) ! i) |i. i < length (env # envs) \<and> fs ! i \<noteq> None}"
      by (auto simp: fs(1) intro!: exI [of _ 0])
    then show ?thesis using dup n(1) sub i t1
      by (intro conjI exI [of _ "?row\<lparr>sv_seq := tb_next_seq tbl\<rparr> # new"]) simp_all
  qed
qed simp

lemma ingest_handle_Ingested:
  assumes "ingest_handle sv user batch st = (Ingested b a d r, st')"
  shows "ib_schema_version batch \<noteq> 0 \<and> ib_schema_version batch \<le> CURRENT_SCHEMA_VERSION \<and>
    trim (ib_claimed_handle batch) \<noteq> [] \<and>
    eq_ignore_ascii_case (ib_claimed_handle batch) (au_preferred_username user) \<and> b = ib_batch_id batch \<and>
    store_events sv (ib_claimed_handle batch) 0 (map (backfill_metadata (ib_claimed_handle batch)) (ib_events batch))
      (is_events st) (0, 0, 0) = (is_events st', a, d, r) \<and>
    is_audit st' = snd (append_entry (ip_sha256 sv) (ip_to_vec sv) (ip_now sv) (ingest_audit_entry user batch a d r) (is_audit st))"
  using assms by (auto simp: ingest_handle_def Let_def not_less split: if_splits prod.splits)

lemma ingest_handle_accepts:
  assumes "ib_schema_version batch \<noteq> 0" and "ib_schema_version batch \<le> CURRENT_SCHEMA_VERSION"
    and "trim (ib_claimed_handle batch) \<noteq> []" and "eq_ignore_ascii_case (ib_claimed_handle batch) (au_preferred_username user)"
  obtains a d r st' where "ingest_handle sv user batch st = (Ingested (ib_batch_id batch) a d r, st')"
proof -
  obtain tbl a d r where "store_events sv (ib_claimed_handle batch) 0
      (map (backfill_metadata (ib_claimed_handle batch)) (ib_events batch)) (is_events st) (0, 0, 0) = (tbl, a, d, r)"
    by (metis prod_cases4)
  then show ?thesis using assms that by (simp add: ingest_handle_def Let_def leD)
qed

lemma ingested_on_file:
  assumes "table_ok (is_events st)" and "ids_fresh sv 0 (is_events st)"
    and "ingest_handle sv user batch st = (Ingested b a d r, st')"
  shows "list_all2 (\<lambda>f env. f = None \<longrightarrow> has_event (is_events st') (ib_claimed_handle batch) (ee_idempotency_key env))
    (insert_faults sv (ib_claimed_handle batch) 0 (ib_events batch)) (ib_events batch)"
proof -
  let ?h = "ib_claimed_handle batch" and ?envs = "ib_events batch"
  have "store_events sv ?h 0 (map (backfill_metadata ?h) ?envs) (is_events st) (0, 0, 0) = (is_events st', a, d, r)"
    using ingest_handle_Ingested [OF assms(3)] by simp
  then have "is_events st' = snd (insert_results sv ?h 0 (map (backfill_metadata ?h) ?envs) (is_events st))"
    by (simp add: store_events_results Let_def case_prod_unfold)
  then show ?thesis using insert_results_faults [OF assms(2), of ?h "map (backfill_metadata ?h) ?envs"] by (simp add: list_all2_map2)
qed

text \<open>Whatever fails, an ingest only appends rows, under the claimed handle.\<close>

lemma ingested_rows:
  assumes "table_ok (is_events st)" and "ingest_handle sv user batch st = (Ingested b a d r, st')"
  shows "\<exists>new. tb_rows (is_events st') = tb_rows (is_events st) @ new \<and> (\<forall>n \<in> set new. sv_handle n = ib_claimed_handle batch)"
proof -
  let ?h = "ib_claimed_handle batch" and ?envs = "map (backfill_metadata (ib_claimed_handle batch)) (ib_events batch)"
  have "store_events sv ?h 0 ?envs (is_events st) (0, 0, 0) = (is_events st', a, d, r)"
    using ingest_handle_Ingested [OF assms(2)] by simp
  then have "is_events st' = snd (insert_results sv ?h 0 ?envs (is_events st))"
    by (simp add: store_events_results Let_def case_prod_unfold)
  then show ?thesis using insert_results_rows [OF assms(1), of sv ?h 0 ?envs] by auto
qed

section \<open>Properties\<close>

text \<open>
  C7. An ingested batch is stored as far as the database took it, and counted by what the database
  answered. Whatever fails, rows are only appended, under the claimed handle, and the table's keys stay
  unique. There is one result per event, an error exactly where the insert failed, and the three counts
  are the numbers of the results; every event whose insert did not fail is in the table; the new rows are
  the accepted events, and besides at most one for each insert whose answer was lost. So when no insert
  fails, every event is on file, nothing is rejected, and the duplicates are the events that gave no row.
\<close>

theorem ingest_stores_and_counts:
  assumes "table_ok (is_events st)" and "ids_fresh sv 0 (is_events st)"
    and "ingest_handle sv user batch st = (Ingested b a d r, st')"
  shows "\<exists>new rs. tb_rows (is_events st') = tb_rows (is_events st) @ new \<and>
    (\<forall>n \<in> set new. sv_handle n = ib_claimed_handle batch \<and> sv_key n \<in> ee_idempotency_key ` set (ib_events batch)) \<and>
    table_ok (is_events st') \<and> length rs = length (ib_events batch) \<and> counted_as rs a d r \<and>
    list_all2 (\<lambda>f res. isl res \<longleftrightarrow> f \<noteq> None) (insert_faults sv (ib_claimed_handle batch) 0 (ib_events batch)) rs \<and>
    list_all2 (\<lambda>f env. f = None \<longrightarrow> has_event (is_events st') (ib_claimed_handle batch) (ee_idempotency_key env))
      (insert_faults sv (ib_claimed_handle batch) 0 (ib_events batch)) (ib_events batch) \<and>
    length (filter (\<lambda>x. x = Inr Inserted) rs) \<le> length new \<and>
    length new \<le> length (filter (\<lambda>x. x = Inr Inserted) rs) +
      length (filter answer_lost (insert_faults sv (ib_claimed_handle batch) 0 (ib_events batch))) \<and>
    ((\<forall>f \<in> set (insert_faults sv (ib_claimed_handle batch) 0 (ib_events batch)). f = None) \<longrightarrow>
       a = of_nat (length new) \<and> d = of_nat (length (ib_events batch) - length new) \<and> r = 0 \<and>
       (\<forall>env \<in> set (ib_events batch). has_event (is_events st') (ib_claimed_handle batch) (ee_idempotency_key env)))"
proof -
  let ?h = "ib_claimed_handle batch" and ?envs = "ib_events batch" and ?fs = "insert_faults sv (ib_claimed_handle batch) 0 (ib_events batch)"
  let ?in = "insert_results sv ?h 0 (map (backfill_metadata ?h) ?envs) (is_events st)"
  define rs where "rs = fst ?in"
  have "store_events sv ?h 0 (map (backfill_metadata ?h) ?envs) (is_events st) (0, 0, 0) = (is_events st', a, d, r)"
    using ingest_handle_Ingested [OF assms(3)] by simp
  then have st': "is_events st' = snd ?in" and counts: "counted_as rs a d r"
    by (simp_all add: store_events_results counted_as_def rs_def Let_def case_prod_unfold)
  have len: "length rs = length ?envs" by (simp add: rs_def)
  have faults: "list_all2 (\<lambda>f res. isl res \<longleftrightarrow> f \<noteq> None) ?fs rs"
    "list_all2 (\<lambda>f env. f = None \<longrightarrow> has_event (is_events st') ?h (ee_idempotency_key env)) ?fs ?envs"
    using insert_results_faults [OF assms(2), of ?h "map (backfill_metadata ?h) ?envs"]
    by (simp_all add: st' rs_def list_all2_map2)
  obtain new where n: "tb_rows (is_events st') = tb_rows (is_events st) @ new"
    "\<forall>n \<in> set new. sv_handle n = ?h \<and> sv_hidden_at n = None" "sv_key ` set new \<subseteq> ee_idempotency_key ` set ?envs"
    "length (filter (\<lambda>x. x = Inr Inserted) rs) \<le> length new"
    "length new \<le> length (filter (\<lambda>x. x = Inr Inserted) rs) + length (filter answer_lost ?fs)" "table_ok (is_events st')"
    using insert_results_rows [OF assms(1), of sv ?h 0 "map (backfill_metadata ?h) ?envs"] by (auto simp: st' rs_def image_image)
  have healthy: "a = of_nat (length new) \<and> d = of_nat (length ?envs - length new) \<and> r = 0 \<and>
      (\<forall>env \<in> set ?envs. has_event (is_events st') ?h (ee_idempotency_key env))" if all: "\<forall>f \<in> set ?fs. f = None"
  proof -
    have "\<forall>res \<in> set rs. \<not> isl res" using faults(1) all by (fastforce simp: list_all2_conv_all_nth in_set_conv_nth)
    then have none: "filter isl rs = []" and some: "filter (\<lambda>x. x = Inr Duplicate) rs = filter (\<lambda>x. x \<noteq> Inr Inserted) rs"
      using insert_outcome.exhaust by (auto simp: filter_empty_conv isl_def intro!: filter_cong) (metis sum.collapse(2) isl_def)
    have "filter answer_lost ?fs = []" using all by (auto simp: filter_empty_conv)
    then have new: "length new = length (filter (\<lambda>x. x = Inr Inserted) rs)" using n(4,5) by simp
    have "length (filter (\<lambda>x. x \<noteq> Inr Inserted) rs) = length ?envs - length new"
      using sum_length_filter_compl [of "\<lambda>x. x = Inr Inserted" rs] len new by simp
    moreover have "\<forall>env \<in> set ?envs. has_event (is_events st') ?h (ee_idempotency_key env)"
      using faults(2) all by (fastforce simp: list_all2_conv_all_nth in_set_conv_nth)
    ultimately show ?thesis using counts none some new by (simp add: counted_as_def)
  qed
  show ?thesis using n len counts faults healthy by (intro exI [of _ new] exI [of _ rs]) blast
qed

text \<open>
  An event whose insert failed before the row was stored is gone: the request is answered with 200, the
  event is only counted as rejected, and it is not on file.
\<close>

theorem failed_insert_answers_ok:
  assumes "ib_events batch = [env]" and "ip_fault sv 0 (row_of sv (ib_claimed_handle batch) 0 env) = Some f" and "\<not> answer_lost (Some f)"
    and "ib_schema_version batch \<noteq> 0" and "ib_schema_version batch \<le> CURRENT_SCHEMA_VERSION"
    and "trim (ib_claimed_handle batch) \<noteq> []" and "eq_ignore_ascii_case (ib_claimed_handle batch) (au_preferred_username user)"
  shows "\<exists>st'. ingest_handle sv user batch st = (Ingested (ib_batch_id batch) 0 0 1, st') \<and> tb_rows (is_events st') = tb_rows (is_events st)"
proof -
  let ?row = "row_of sv (ib_claimed_handle batch) 0 env"
  obtain res t1 where i: "insert_stored (Some f) ?row (is_events st) = (res, t1)" by fastforce
  then have "isl res \<and> tb_rows t1 = tb_rows (is_events st)" using assms(3)
    by (cases rule: insert_stored_cases) simp_all
  then show ?thesis using assms i by (cases res) (simp_all add: ingest_handle_def Let_def not_less)
qed

text \<open>
  C8. Sending a batch again is harmless and repairs what failed: when the same events are ingested again
  (under the same handle, whatever the batch id), each event whose first insert had not failed is answered
  as a duplicate, unless its second insert fails; a new row is only for an event whose first insert had
  failed. So when no insert of either request fails, the second one accepts none, reports all events as
  duplicates, rejects none and adds no row.
\<close>

theorem ingest_replay_is_duplicate:
  assumes "table_ok (is_events st)" and "ids_fresh sv 0 (is_events st)"
    and "ingest_handle sv user batch st = (Ingested b a d r, st1)"
    and "ingest_handle sv' user batch1 st1 = (Ingested b1 a1 d1 r1, st2)"
    and "ib_events batch1 = ib_events batch" and "ib_claimed_handle batch1 = ib_claimed_handle batch"
    and "fs = insert_faults sv (ib_claimed_handle batch) 0 (ib_events batch)"
    and "fs' = insert_faults sv' (ib_claimed_handle batch) 0 (ib_events batch)"
  shows "(\<exists>rs new. length rs = length (ib_events batch) \<and> counted_as rs a1 d1 r1 \<and>
      (\<forall>i < length (ib_events batch). fs ! i = None \<longrightarrow> fs' ! i = None \<longrightarrow> rs ! i = Inr Duplicate) \<and>
      tb_rows (is_events st2) = tb_rows (is_events st1) @ new \<and>
      sv_key ` set new \<subseteq> {ee_idempotency_key (ib_events batch ! i) |i. i < length (ib_events batch) \<and> fs ! i \<noteq> None}) \<and>
    ((\<forall>f \<in> set fs \<union> set fs'. f = None) \<longrightarrow>
      a1 = 0 \<and> d1 = of_nat (length (ib_events batch)) \<and> r1 = 0 \<and> tb_rows (is_events st2) = tb_rows (is_events st1))"
proof -
  let ?h = "ib_claimed_handle batch" and ?envs = "ib_events batch"
  let ?in = "insert_results sv' ?h 0 (map (backfill_metadata ?h) ?envs) (is_events st1)"
  define rs where "rs = fst ?in"
  have "list_all2 (\<lambda>f env. f = None \<longrightarrow> has_event (is_events st1) ?h (ee_idempotency_key env)) fs ?envs"
    using ingested_on_file [OF assms(1-3)] by (simp add: assms(7))
  then have "list_all2 (\<lambda>f env. f = None \<longrightarrow> has_event (is_events st1) ?h (ee_idempotency_key env)) fs (map (backfill_metadata ?h) ?envs)"
    by (simp add: list_all2_map2)
  note again = insert_results_again [OF this, of sv' 0]
  have "store_events sv' ?h 0 (map (backfill_metadata ?h) ?envs) (is_events st1) (0, 0, 0) = (is_events st2, a1, d1, r1)"
    using ingest_handle_Ingested [OF assms(4)] assms(5,6) by simp
  then have st2: "is_events st2 = snd ?in" and counts: "counted_as rs a1 d1 r1"
    by (simp_all add: store_events_results counted_as_def rs_def Let_def case_prod_unfold)
  have len: "length rs = length ?envs" "length fs = length ?envs" "length fs' = length ?envs" by (simp_all add: rs_def assms(7,8))
  have dup: "\<forall>i < length ?envs. fs ! i = None \<longrightarrow> fs' ! i = None \<longrightarrow> rs ! i = Inr Duplicate"
    using again by (simp add: rs_def assms(8))
  have failed: "{ee_idempotency_key (map (backfill_metadata ?h) ?envs ! i) |i. i < length ?envs \<and> fs ! i \<noteq> None} =
      {ee_idempotency_key (?envs ! i) |i. i < length ?envs \<and> fs ! i \<noteq> None}"
    by (intro Collect_cong ex_cong1) auto
  obtain new where new: "tb_rows (is_events st2) = tb_rows (is_events st1) @ new"
    "sv_key ` set new \<subseteq> {ee_idempotency_key (?envs ! i) |i. i < length ?envs \<and> fs ! i \<noteq> None}"
    using again failed by (auto simp: st2)
  have healthy: "a1 = 0 \<and> d1 = of_nat (length ?envs) \<and> r1 = 0 \<and> tb_rows (is_events st2) = tb_rows (is_events st1)"
    if all: "\<forall>f \<in> set fs \<union> set fs'. f = None"
  proof -
    have "rs ! i = Inr Duplicate" if "i < length ?envs" for i using dup all len that by (auto simp: all_set_conv_all_nth)
    then have rs: "rs = replicate (length ?envs) (Inr Duplicate)" using len(1) by (intro nth_equalityI) simp_all
    have "fs ! i = None" if "i < length ?envs" for i using all len(2) that by (metis UnCI nth_mem)
    then have none: "{ee_idempotency_key (?envs ! i) |i. i < length ?envs \<and> fs ! i \<noteq> None} = {}"
      by (simp only: Collect_empty_eq) metis
    have "sv_key ` set new = {}" using new(2) unfolding none by (simp only: subset_empty)
    then have "new = []" by (simp only: image_is_empty set_empty)
    then show ?thesis using counts new(1) by (simp add: counted_as_def rs)
  qed
  show ?thesis using len(1) counts dup new healthy by blast
qed

text \<open>
  C9. Nobody writes under another name: a batch that is refused changes neither the events nor the
  audit log, and one that is ingested adds rows only under a handle that is the token's username up
  to ASCII case, leaving everyone else's rows as they were.
\<close>

theorem ingest_respects_identity:
  assumes "table_ok (is_events st)" and "ingest_handle sv user batch st = (reply, st')"
  shows "(ingest_status reply \<noteq> 200 \<longrightarrow> st' = st) \<and>
    (\<not> eq_ignore_ascii_case h (au_preferred_username user) \<longrightarrow>
      filter (\<lambda>row. sv_handle row = h) (tb_rows (is_events st')) = filter (\<lambda>row. sv_handle row = h) (tb_rows (is_events st)))"
proof (cases reply)
  case (Ingested b a d r)
  have i: "eq_ignore_ascii_case (ib_claimed_handle batch) (au_preferred_username user)"
    using ingest_handle_Ingested [OF assms(2) [unfolded Ingested]] by auto
  from ingested_rows [OF assms(1) assms(2) [unfolded Ingested]] obtain new where "tb_rows (is_events st') = tb_rows (is_events st) @ new"
    "\<forall>n \<in> set new. sv_handle n = ib_claimed_handle batch" by blast
  then show ?thesis using i Ingested by (auto simp: filter_empty_conv)
qed (use assms(2) in \<open>auto simp: ingest_handle_def Let_def split: if_splits prod.splits\<close>)

text \<open>
  The validators are not consulted: an event they refuse is ingested like any other; a batch with
  that single new event answers with one accepted event.
\<close>

theorem ingest_accepts_invalid_events:
  assumes "validate_event env = Inl err" and "ib_events batch = [env]"
    and "ib_schema_version batch \<noteq> 0" and "ib_schema_version batch \<le> CURRENT_SCHEMA_VERSION"
    and "trim (ib_claimed_handle batch) \<noteq> []" and "eq_ignore_ascii_case (ib_claimed_handle batch) (au_preferred_username user)"
    and "ids_fresh sv 0 (is_events st)" and "\<not> has_event (is_events st) (ib_claimed_handle batch) (ee_idempotency_key env)"
    and "ip_fault sv 0 (row_of sv (ib_claimed_handle batch) 0 env) = None"
  shows "fst (ingest_handle sv user batch st) = Ingested (ib_batch_id batch) 1 0 0"
proof -
  have "ip_new_id sv 0 \<notin> sv_id ` set (tb_rows (is_events st))" using assms(7) by (simp add: ids_fresh_def)
  then show ?thesis
    using assms(2-6,8,9) by (simp add: ingest_handle_def Let_def insert_stored_eq not_less)
qed

text \<open>
  Case variants of a handle are different rows: a batch whose claimed handle differs from the
  token's username only in case is ingested under the variant, and no row it adds is ever listed
  for the user.
\<close>

theorem ingest_case_variant_is_invisible:
  assumes "table_ok (is_events st)" and "ingest_handle sv user batch st = (Ingested b a d r, st')"
    and "ib_claimed_handle batch \<noteq> au_preferred_username user"
  shows "list_filtered (au_preferred_username user) f (is_events st') = list_filtered (au_preferred_username user) f (is_events st)"
proof -
  from ingested_rows [OF assms(1,2)] obtain new where "tb_rows (is_events st') = tb_rows (is_events st) @ new"
    "\<forall>n \<in> set new. sv_handle n = ib_claimed_handle batch" by blast
  moreover from this(2) have "filter (row_matches (au_preferred_username user) f) new = []"
    using assms(3) by (auto simp: filter_empty_conv row_matches_def)
  ultimately show ?thesis by (simp add: list_filtered_def)
qed

section \<open>Concrete instances\<close>

definition sample_sv :: ingest_platform where
  "sample_sv = \<lparr>ip_to_value = (\<lambda>e. Some JNull), ip_parse_rfc3339 = (\<lambda>_. None), ip_new_id = (\<lambda>n. replicate n (CHR ''i'')),
     ip_sha256 = (\<lambda>s. s), ip_to_vec = (\<lambda>_. []), ip_now = 0, ip_fault = (\<lambda>_ _. None)\<rparr>"

definition sample_user :: authenticated_user where
  "sample_user = \<lparr>au_sub = ''s'', au_preferred_username = ''pilot'', au_token_type = Device, au_device_id = Some ''d''\<rparr>"

definition sample_env :: event_envelope where
  "sample_env = \<lparr>ee_idempotency_key = ''k'', ee_raw_line = ''raw'',
     ee_event = Some (LegacyLogin \<lparr>ll_timestamp = [], ll_handle = ''h'', ll_server_time = None\<rparr>),
     ee_source = Live, ee_source_offset = 0, ee_metadata = None\<rparr>"

definition sample_batch :: "string \<Rightarrow> ingest_batch" where
  "sample_batch handle = \<lparr>ib_schema_version = 2, ib_batch_id = ''b'', ib_game_build = None, ib_claimed_handle = handle,
     ib_events = [sample_env]\<rparr>"

definition sample_st :: ingest_state where
  "sample_st = \<lparr>is_events = empty_events, is_audit = empty_audit\<rparr>"

lemma sample_st_ok: "table_ok (is_events sample_st)" "ids_fresh sample_sv 0 (is_events sample_st)"
proof -
  show "table_ok (is_events sample_st)" by (simp add: sample_st_def empty_events_ok)
  show "ids_fresh sample_sv 0 (is_events sample_st)"
    by (auto simp: sample_st_def ids_fresh_def sample_sv_def empty_events_def intro!: injI)
qed

lemma sample_handles: "trim ''pilot'' \<noteq> []" "trim ''PILOT'' \<noteq> []" "eq_ignore_ascii_case ''PILOT'' ''pilot''"
  by code_simp+

lemma sample_no_faults [simp]: "ip_fault sample_sv k row = None"
  by (simp add: sample_sv_def)

lemma sample_faults: "insert_faults sample_sv h k envs = replicate (length envs) None"
  by (induction envs arbitrary: k) (simp_all add: sample_sv_def)

lemma sample_ingest:
  "\<exists>st'. ingest_handle sample_sv sample_user (sample_batch ''pilot'') sample_st = (Ingested ''b'' 1 0 0, st')"
  "\<exists>st'. ingest_handle sample_sv sample_user (sample_batch ''PILOT'') sample_st = (Ingested ''b'' 1 0 0, st')"
  using sample_handles
  by (simp_all add: ingest_handle_def Let_def insert_stored_eq has_event_def sample_batch_def sample_user_def sample_st_def
      empty_events_def CURRENT_SCHEMA_VERSION_def eq_ignore_ascii_case_def)

theorem ingest_stores_and_counts_witness:
  "\<exists>st' new. ingest_handle sample_sv sample_user (sample_batch ''pilot'') sample_st = (Ingested ''b'' 1 0 0, st') \<and>
     tb_rows (is_events st') = new \<and> has_event (is_events st') ''pilot'' ''k''"
proof -
  obtain st' where i: "ingest_handle sample_sv sample_user (sample_batch ''pilot'') sample_st = (Ingested ''b'' 1 0 0, st')"
    using sample_ingest by blast
  from ingest_stores_and_counts [OF sample_st_ok i] i show ?thesis
    by (auto simp: sample_batch_def sample_env_def sample_faults sample_st_def empty_events_def)
qed

theorem failed_insert_answers_ok_witness:
  "fst (ingest_handle (sample_sv\<lparr>ip_fault := \<lambda>_ row. Some (Unsent ''invalid byte sequence'')\<rparr>) sample_user (sample_batch ''pilot'') sample_st) =
     Ingested ''b'' 0 0 1"
  using failed_insert_answers_ok [of "sample_batch ''pilot''" sample_env "sample_sv\<lparr>ip_fault := \<lambda>_ row. Some (Unsent ''invalid byte sequence'')\<rparr>"
      "Unsent ''invalid byte sequence''" sample_user sample_st] sample_handles
  by (auto simp: sample_batch_def sample_user_def CURRENT_SCHEMA_VERSION_def eq_ignore_ascii_case_def)

theorem ingest_replay_is_duplicate_witness:
  "\<exists>st1 st2. ingest_handle sample_sv sample_user (sample_batch ''pilot'') sample_st = (Ingested ''b'' 1 0 0, st1) \<and>
     ingest_handle sample_sv sample_user (sample_batch ''pilot'') st1 = (Ingested ''b'' 0 1 0, st2)"
proof -
  obtain st1 where i: "ingest_handle sample_sv sample_user (sample_batch ''pilot'') sample_st = (Ingested ''b'' 1 0 0, st1)"
    using sample_ingest by blast
  obtain a d r st2 where j: "ingest_handle sample_sv sample_user (sample_batch ''pilot'') st1 =
      (Ingested (ib_batch_id (sample_batch ''pilot'')) a d r, st2)"
    by (rule ingest_handle_accepts [of "sample_batch ''pilot''" sample_user sample_sv st1])
      (use sample_handles in \<open>simp_all add: sample_batch_def sample_user_def CURRENT_SCHEMA_VERSION_def eq_ignore_ascii_case_def\<close>)
  from ingest_replay_is_duplicate [OF sample_st_ok i j refl refl refl refl] i j show ?thesis
    by (auto simp: sample_batch_def sample_faults)
qed

theorem ingest_respects_identity_witness:
  "\<exists>st'. ingest_handle sample_sv sample_user (sample_batch ''other'') sample_st = (HandleMismatch, st') \<and> st' = sample_st"
proof -
  have "trim ''other'' \<noteq> []" "\<not> eq_ignore_ascii_case ''other'' ''pilot''" by code_simp+
  then have i: "ingest_handle sample_sv sample_user (sample_batch ''other'') sample_st = (HandleMismatch, sample_st)"
    by (simp add: ingest_handle_def sample_batch_def sample_user_def CURRENT_SCHEMA_VERSION_def)
  from ingest_respects_identity [OF sample_st_ok(1) i] i show ?thesis by auto
qed

theorem ingest_accepts_invalid_events_witness:
  "fst (ingest_handle sample_sv sample_user (sample_batch ''pilot'') sample_st) = Ingested ''b'' 1 0 0"
proof -
  have "validate_event sample_env = Inl EmptyTimestamp"
    by (simp add: validate_event_def validate_game_event_def sample_env_def check_timestamp_def)
  from ingest_accepts_invalid_events [OF this, of "sample_batch ''pilot''" sample_user sample_sv sample_st] sample_st_ok sample_handles
  show ?thesis
    by (simp add: sample_batch_def sample_user_def sample_st_def empty_events_def has_event_def CURRENT_SCHEMA_VERSION_def
        eq_ignore_ascii_case_def)
qed

theorem ingest_case_variant_is_invisible_witness:
  "\<exists>st'. ingest_handle sample_sv sample_user (sample_batch ''PILOT'') sample_st = (Ingested ''b'' 1 0 0, st') \<and>
     list_filtered ''pilot'' sample_filters (is_events st') = list_filtered ''pilot'' sample_filters empty_events"
proof -
  obtain st' where i: "ingest_handle sample_sv sample_user (sample_batch ''PILOT'') sample_st = (Ingested ''b'' 1 0 0, st')"
    using sample_ingest by blast
  have "ib_claimed_handle (sample_batch ''PILOT'') \<noteq> au_preferred_username sample_user"
    by (simp add: sample_batch_def sample_user_def)
  from ingest_case_variant_is_invisible [OF sample_st_ok(1) i this, of sample_filters] i
  show ?thesis by (auto simp: sample_user_def sample_st_def)
qed

end
