(* ===== verification/Locations.thy ===== *)
theory Locations
  imports Event_Repo
begin

text \<open>
  Models \<^verbatim>\<open>crates/starstats-server/src/locations.rs\<close>: how the payload of a location-bearing event is
  turned into a place. A text is its UTF-8 bytes; the encodings of the characters that
  \<open>char::is_numeric\<close> accepts (a table of the standard library) are the parameter \<open>numerics\<close>.
\<close>

section \<open>Model\<close>

record resolved_location =
  lo_planet :: "string option"
  lo_city :: "string option"
  lo_system :: "string option"
  lo_shard :: "string option"
  lo_last_seen_at :: micros
  lo_source_event_type :: string
  lo_raw_planet_key :: "string option"
  lo_raw_city_key :: "string option"

definition LOCATION_EVENT_TYPES :: "string list" where
  "LOCATION_EVENT_TYPES = [''location_inventory_requested'', ''planet_terrain_load'', ''join_pu'']"

definition is_ascii_uppercase :: "char \<Rightarrow> bool" where
  "is_ascii_uppercase c \<longleftrightarrow> CHR ''A'' \<le> c \<and> c \<le> CHR ''Z''"

text \<open>A space before every capital after the first character that does not follow a capital.\<close>

fun humanise_after :: "char \<Rightarrow> string \<Rightarrow> string" where
  "humanise_after prev [] = []"
| "humanise_after prev (c # cs) =
     (if is_ascii_uppercase c \<and> \<not> is_ascii_uppercase prev then CHR '' '' # c # humanise_after c cs else c # humanise_after c cs)"

fun humanise :: "string \<Rightarrow> string" where
  "humanise [] = []"
| "humanise (c # cs) = c # humanise_after c cs"

definition system_from_shard :: "string \<Rightarrow> string option" where
  "system_from_shard shard = None"

record city_parse =
  cp_planet_label :: "string option"
  cp_city_label :: "string option"
  cp_system :: "string option"
  cp_raw_planet_key :: "string option"

definition KNOWN_CITIES :: "(string \<times> string \<times> string \<times> string \<times> string) list" where
  "KNOWN_CITIES =
     [(''Stanton1_Lorville'', ''Stanton'', ''Hurston'', ''Lorville'', ''OOC_Stanton_1_Hurston''),
      (''Stanton2_Orison'', ''Stanton'', ''Crusader'', ''Orison'', ''OOC_Stanton_2_Crusader''),
      (''Stanton3_Area18'', ''Stanton'', ''ArcCorp'', ''Area18'', ''OOC_Stanton_3_ArcCorp''),
      (''Stanton4_NewBabbage'', ''Stanton'', ''microTech'', ''New Babbage'', ''OOC_Stanton_4_microTech''),
      (''Pyro1_Ruin'', ''Pyro'', ''Pyro I'', ''Ruin Station'', ''OOC_Pyro_1''),
      (''Pyro5_Checkmate'', ''Pyro'', ''Pyro V'', ''Checkmate'', ''OOC_Pyro_5'')]"

definition extract_system_prefix :: "string list \<Rightarrow> string \<Rightarrow> string option" where
  "extract_system_prefix numerics prefix =
     (let trimmed = rev (trim_by (map rev numerics) (rev prefix)) in if trimmed = [] then None else Some trimmed)"

text \<open>\<open>split_once\<close>: the text before the first separator and the text after it.\<close>

definition split_once :: "char \<Rightarrow> string \<Rightarrow> (string \<times> string) option" where
  "split_once c s = (if c \<in> set s then Some (takeWhile (\<lambda>x. x \<noteq> c) s, tl (dropWhile (\<lambda>x. x \<noteq> c) s)) else None)"

definition parse_city_key :: "string list \<Rightarrow> string \<Rightarrow> city_parse" where
  "parse_city_key numerics raw =
     (case map_of KNOWN_CITIES raw of
        Some (system, planet, city, planet_key) \<Rightarrow>
          \<lparr>cp_planet_label = Some planet, cp_city_label = Some city, cp_system = Some system, cp_raw_planet_key = Some planet_key\<rparr>
      | None \<Rightarrow>
     (case split_once (CHR ''_'') raw of
        Some (system_part, city_part) \<Rightarrow>
          \<lparr>cp_planet_label = None, cp_city_label = Some (humanise city_part),
           cp_system = extract_system_prefix numerics system_part, cp_raw_planet_key = None\<rparr>
      | None \<Rightarrow>
          \<lparr>cp_planet_label = None, cp_city_label = Some (humanise raw), cp_system = None, cp_raw_planet_key = None\<rparr>))"

text \<open>\<open>trim_start_matches\<close> removes the prefix as often as it is there.\<close>

definition parse_planet_key :: "string \<Rightarrow> string option \<times> string option" where
  "parse_planet_key raw =
     (let parts = split_on ''_'' (trim_by [''OOC_''] raw) in (Some (humanise (last parts)), Some (hd parts)))"

definition payload_str :: "json \<Rightarrow> string \<Rightarrow> string option" where
  "payload_str payload k = Option.bind (json_get payload k) as_str"

definition resolve_inventory_request :: "string list \<Rightarrow> json \<Rightarrow> micros \<Rightarrow> string option \<Rightarrow> resolved_location option" where
  "resolve_inventory_request numerics payload last_seen_at shard_hint =
     map_option (\<lambda>raw_city.
       if raw_city = ''INVALID_LOCATION_ID''
       then \<lparr>lo_planet = None, lo_city = None, lo_system = None, lo_shard = shard_hint, lo_last_seen_at = last_seen_at,
             lo_source_event_type = ''location_inventory_requested'', lo_raw_planet_key = None, lo_raw_city_key = Some raw_city\<rparr>
       else let parsed = parse_city_key numerics raw_city
         in \<lparr>lo_planet = cp_planet_label parsed, lo_city = cp_city_label parsed, lo_system = cp_system parsed, lo_shard = shard_hint,
             lo_last_seen_at = last_seen_at, lo_source_event_type = ''location_inventory_requested'',
             lo_raw_planet_key = cp_raw_planet_key parsed, lo_raw_city_key = Some raw_city\<rparr>) (payload_str payload ''location'')"

definition resolve_planet_terrain :: "json \<Rightarrow> micros \<Rightarrow> string option \<Rightarrow> resolved_location option" where
  "resolve_planet_terrain payload last_seen_at shard_hint =
     map_option (\<lambda>raw_planet. let (planet_label, system) = parse_planet_key raw_planet
       in \<lparr>lo_planet = planet_label, lo_city = None, lo_system = system, lo_shard = shard_hint, lo_last_seen_at = last_seen_at,
           lo_source_event_type = ''planet_terrain_load'', lo_raw_planet_key = Some raw_planet, lo_raw_city_key = None\<rparr>)
       (payload_str payload ''planet'')"

definition resolve_join_pu :: "json \<Rightarrow> micros \<Rightarrow> resolved_location option" where
  "resolve_join_pu payload last_seen_at =
     map_option (\<lambda>shard.
       \<lparr>lo_planet = None, lo_city = None, lo_system = system_from_shard shard, lo_shard = Some shard, lo_last_seen_at = last_seen_at,
        lo_source_event_type = ''join_pu'', lo_raw_planet_key = None, lo_raw_city_key = None\<rparr>) (payload_str payload ''shard'')"

definition resolve :: "string list \<Rightarrow> string \<Rightarrow> json \<Rightarrow> micros \<Rightarrow> string option \<Rightarrow> resolved_location option" where
  "resolve numerics event_type payload last_seen_at shard_hint =
     (if event_type = ''location_inventory_requested'' then resolve_inventory_request numerics payload last_seen_at shard_hint
      else if event_type = ''planet_terrain_load'' then resolve_planet_terrain payload last_seen_at shard_hint
      else if event_type = ''join_pu'' then resolve_join_pu payload last_seen_at
      else None)"

section \<open>Lemmas\<close>

lemma resolve_source: "resolve numerics t payload seen hint = Some l \<Longrightarrow> lo_source_event_type l = t \<and> lo_last_seen_at l = seen"
  by (auto simp: resolve_def resolve_inventory_request_def resolve_planet_terrain_def resolve_join_pu_def parse_planet_key_def Let_def
      split: if_splits prod.splits)

text \<open>Humanising only inserts spaces: without them the key is unchanged.\<close>

lemma humanise_after_erase: "filter (\<lambda>c. c \<noteq> CHR '' '') (humanise_after prev cs) = filter (\<lambda>c. c \<noteq> CHR '' '') cs"
  by (induction prev cs rule: humanise_after.induct) (auto simp: is_ascii_uppercase_def)

lemma humanise_erase: "filter (\<lambda>c. c \<noteq> CHR '' '') (humanise s) = filter (\<lambda>c. c \<noteq> CHR '' '') s"
  by (cases s) (simp_all add: humanise_after_erase)

end
