(* ===== verification/Metrics.thy ===== *)
theory Metrics
  imports Locations Transactions Ingest
begin

text \<open>
  Models the aggregate queries of \<^verbatim>\<open>crates/starstats-server/src/repo.rs\<close> (event types, ingest history,
  locations, payload fields) and the handlers of \<^verbatim>\<open>query.rs\<close> over them: metrics, locations, activity
  statistics and recent commerce. A text is ordered by its bytes; where the SQL leaves the order of
  rows with equal keys open, the row inserted later comes first.
\<close>

section \<open>Environment\<close>

text \<open>
  What a request meets: whether its n-th query succeeds, the clock with its RFC 3339 form, the text
  PostgreSQL gives for a JSON value and for a \<open>bigint\<close>, the parser of ids, the numeric characters and
  \<open>serde_json::from_value\<close> at the type of game events.
\<close>

record query_env =
  qe_ok :: "nat \<Rightarrow> bool"
  qe_now :: micros
  qe_now_rfc3339 :: string
  qe_json_text :: "json \<Rightarrow> string"
  qe_bigint :: "string \<Rightarrow> int option"
  qe_parse_uuid :: "string \<Rightarrow> uuid option"
  qe_numerics :: "string list"
  qe_game_event :: "json \<Rightarrow> game_event option"

definition QUERY_HOUR :: micros where
  "QUERY_HOUR = 3600 * 1000000"

definition bytes_of :: "string \<Rightarrow> nat list" where
  "bytes_of = map of_char"

text \<open>The operator \<open>->>\<close>: null and a missing key are NULL.\<close>

definition json_field :: "query_env \<Rightarrow> json \<Rightarrow> string \<Rightarrow> string option" where
  "json_field en payload k =
     (case json_get payload k of
        None \<Rightarrow> None
      | Some JNull \<Rightarrow> None
      | Some (JString s) \<Rightarrow> Some s
      | Some v \<Rightarrow> Some (qe_json_text en v))"

definition has_field :: "json \<Rightarrow> string \<Rightarrow> bool" where
  "has_field payload k \<longleftrightarrow> json_get payload k \<noteq> None"

definition not_before :: "micros option \<Rightarrow> stored_event \<Rightarrow> bool" where
  "not_before since r \<longleftrightarrow> (case since of None \<Rightarrow> True | Some s \<Rightarrow> (case sv_timestamp r of None \<Rightarrow> False | Some t \<Rightarrow> t \<ge> s))"

section \<open>Queries\<close>

record event_type_stats =
  es_event_type :: string
  es_count :: nat
  es_last_seen :: "micros option"

definition max_time :: "micros list \<Rightarrow> micros option" where
  "max_time ts = (if ts = [] then None else Some (Max (set ts)))"

definition event_type_breakdown :: "string \<Rightarrow> micros option \<Rightarrow> event_table \<Rightarrow> event_type_stats list" where
  "event_type_breakdown handle since tbl =
     (let rows = filter (\<lambda>r. sv_handle r = handle \<and> not_before since r) (tb_rows tbl)
      in sort_key (\<lambda>s. - int (es_count s)) (map (\<lambda>t. let g = filter (\<lambda>r. sv_type r = t) rows
             in \<lparr>es_event_type = t, es_count = length g, es_last_seen = max_time (List.map_filter sv_timestamp g)\<rparr>)
           (sort_key bytes_of (remdups (map sv_type rows)))))"

record ingest_batch_row =
  ir_seq :: int
  ir_occurred_at :: time
  ir_batch_id :: string
  ir_game_build :: "string option"
  ir_device_id :: "uuid option"
  ir_total :: int
  ir_accepted :: int
  ir_duplicate :: int
  ir_rejected :: int

text \<open>A count: an empty text is NULL, which becomes 0; a text that is no \<open>bigint\<close> fails the query.\<close>

definition bigint_field :: "query_env \<Rightarrow> json \<Rightarrow> string \<Rightarrow> int option" where
  "bigint_field en payload k =
     (case json_field en payload k of
        None \<Rightarrow> Some 0
      | Some s \<Rightarrow> if s = [] then Some 0 else qe_bigint en s)"

definition ingest_row :: "query_env \<Rightarrow> audit_row \<Rightarrow> ingest_batch_row option" where
  "ingest_row en r =
     (let p = aw_payload r
      in case (bigint_field en p ''total'', bigint_field en p ''accepted'', bigint_field en p ''duplicate'', bigint_field en p ''rejected'') of
           (Some t, Some a, Some d, Some x) \<Rightarrow>
             Some \<lparr>ir_seq = aw_seq r, ir_occurred_at = aw_occurred_at r,
               ir_batch_id = (case json_field en p ''batch_id'' of Some b \<Rightarrow> b | None \<Rightarrow> []),
               ir_game_build = json_field en p ''game_build'',
               ir_device_id = Option.bind (json_field en p ''device_id'') (qe_parse_uuid en),
               ir_total = t, ir_accepted = a, ir_duplicate = d, ir_rejected = x\<rparr>
         | _ \<Rightarrow> None)"

definition ingest_history_for_handle ::
    "query_env \<Rightarrow> string \<Rightarrow> uuid option \<Rightarrow> nat \<Rightarrow> nat \<Rightarrow> audit_table \<Rightarrow> ingest_batch_row list option" where
  "ingest_history_for_handle en actor_handle device_id limit offset tbl =
     (let hits = filter (\<lambda>r. aw_action r = ''ingest.batch_processed'' \<and> aw_actor_handle r = Some actor_handle \<and>
            (device_id = None \<or> json_field en (aw_payload r) ''device_id'' = device_id)) (at_rows tbl)
      in those (map (ingest_row en) (take limit (drop offset (sort_key (\<lambda>r. - aw_seq r) hits)))))"

record location_event =
  le_event_type :: string
  le_event_timestamp :: micros
  le_payload :: json

definition location_rows :: "string \<Rightarrow> string list \<Rightarrow> event_table \<Rightarrow> location_event list" where
  "location_rows handle event_types tbl =
     List.map_filter (\<lambda>r. if sv_handle r = handle \<and> sv_type r \<in> set event_types
       then map_option (\<lambda>t. \<lparr>le_event_type = sv_type r, le_event_timestamp = t, le_payload = sv_payload r\<rparr>) (sv_timestamp r) else None)
     (tb_rows tbl)"

definition latest_shard :: "query_env \<Rightarrow> string \<Rightarrow> event_table \<Rightarrow> string option" where
  "latest_shard en handle tbl =
     (let rows = rev (filter (\<lambda>r. sv_handle r = handle \<and> sv_type r = ''join_pu'' \<and> has_field (sv_payload r) ''shard'') (tb_rows tbl));
          timed = filter (\<lambda>r. sv_timestamp r \<noteq> None) rows; untimed = filter (\<lambda>r. sv_timestamp r = None) rows
      in case sort_key (\<lambda>r. - the (sv_timestamp r)) timed @ untimed of
           [] \<Rightarrow> None
         | r # _ \<Rightarrow> json_field en (sv_payload r) ''shard'')"

definition latest_location :: "query_env \<Rightarrow> string \<Rightarrow> string list \<Rightarrow> event_table \<Rightarrow> location_event option \<times> string option" where
  "latest_location en handle event_types tbl =
     (case sort_key (\<lambda>e. - le_event_timestamp e) (rev (location_rows handle event_types tbl)) of [] \<Rightarrow> None | e # _ \<Rightarrow> Some e,
      latest_shard en handle tbl)"

definition location_event_stream :: "string \<Rightarrow> string list \<Rightarrow> micros \<Rightarrow> event_table \<Rightarrow> location_event list" where
  "location_event_stream handle event_types since tbl =
     sort_key le_event_timestamp (filter (\<lambda>e. le_event_timestamp e \<ge> since) (location_rows handle event_types tbl))"

type_synonym payload_filter = "(string \<times> string) option"

definition filter_holds :: "query_env \<Rightarrow> payload_filter \<Rightarrow> json \<Rightarrow> bool" where
  "filter_holds en f payload \<longleftrightarrow> (case f of None \<Rightarrow> True | Some (field, equals) \<Rightarrow> json_field en payload field = Some equals)"

record stats_bucket =
  bk_value :: string
  bk_count :: int

text \<open>
  Grouped by the field's text, NULL being a group of its own that counts towards the limit and is
  dropped afterwards; NULL comes last among equal counts.
\<close>

definition payload_field_breakdown ::
    "query_env \<Rightarrow> string \<Rightarrow> string \<Rightarrow> string \<Rightarrow> payload_filter \<Rightarrow> micros option \<Rightarrow> nat \<Rightarrow> event_table \<Rightarrow> stats_bucket list" where
  "payload_field_breakdown en handle event_type field f since limit tbl =
     (let values = map (\<lambda>r. json_field en (sv_payload r) field) (filter (\<lambda>r. sv_handle r = handle \<and> sv_type r = event_type \<and>
            not_before since r \<and> has_field (sv_payload r) field \<and> filter_holds en f (sv_payload r)) (tb_rows tbl));
          keys = map Some (sort_key bytes_of (remdups (somes values))) @ (if None \<in> set values then [None] else []);
          groups = take limit (sort_key (\<lambda>(v, n). - n) (map (\<lambda>k. (k, int (count_list values k))) keys))
      in List.map_filter (\<lambda>(v, n). map_option (\<lambda>x. \<lparr>bk_value = x, bk_count = n\<rparr>) v) groups)"

definition count_event_type ::
    "query_env \<Rightarrow> string \<Rightarrow> string \<Rightarrow> payload_filter \<Rightarrow> micros option \<Rightarrow> event_table \<Rightarrow> nat" where
  "count_event_type en handle event_type f since tbl =
     length (filter (\<lambda>r. sv_handle r = handle \<and> sv_type r = event_type \<and> not_before since r \<and> filter_holds en f (sv_payload r)) (tb_rows tbl))"

section \<open>Handlers\<close>

datatype query_reply =
    QueryFailed nat string
  | NoContent
  | EventTypeBreakdownResponse string "event_type_stats list"
  | IngestHistoryResponse "ingest_batch_row list"
  | SessionsResponse "inferred_session list"
  | SummaryResponse string nat "(string \<times> nat) list"

definition RANGE_OPTIONS :: "(string \<times> int option) list" where
  "RANGE_OPTIONS = [(''7d'', Some 7), (''30d'', Some 30), (''90d'', Some 90), (''all'', None)]"

definition RANGE_DEFAULT :: string where
  "RANGE_DEFAULT = ''30d''"

definition SESSIONS_LIMIT_MAX :: nat where
  "SESSIONS_LIMIT_MAX = 500"

definition SESSIONS_LIMIT_MIN :: nat where
  "SESSIONS_LIMIT_MIN = 1"

definition INGEST_HISTORY_LIMIT_MAX :: nat where
  "INGEST_HISTORY_LIMIT_MAX = 500"

definition INGEST_HISTORY_LIMIT_MIN :: nat where
  "INGEST_HISTORY_LIMIT_MIN = 1"

definition clamp_nat :: "nat \<Rightarrow> nat \<Rightarrow> nat \<Rightarrow> nat" where
  "clamp_nat x lo hi = max lo (min hi x)"

definition summary :: "query_env \<Rightarrow> string \<Rightarrow> event_table \<Rightarrow> query_reply" where
  "summary en user tbl =
     (if qe_ok en 0 then (let (n, by_type) = summary_for_handle user tbl in SummaryResponse user n by_type)
      else QueryFailed 500 ''query failed'')"

definition metrics_event_types :: "query_env \<Rightarrow> string \<Rightarrow> string option \<Rightarrow> event_table \<Rightarrow> query_reply" where
  "metrics_event_types en user range_param tbl =
     (let range_key = (case range_param of Some r \<Rightarrow> r | None \<Rightarrow> RANGE_DEFAULT)
      in case map_of RANGE_OPTIONS range_key of
           None \<Rightarrow> QueryFailed 400 ''invalid_range''
         | Some days \<Rightarrow>
             if qe_ok en 0
             then EventTypeBreakdownResponse range_key
                    (event_type_breakdown user (map_option (\<lambda>d. qe_now en - d * 24 * QUERY_HOUR) days) tbl)
             else QueryFailed 500 ''query failed'')"

definition ingest_history ::
    "query_env \<Rightarrow> string \<Rightarrow> nat \<Rightarrow> nat \<Rightarrow> uuid option \<Rightarrow> audit_table \<Rightarrow> query_reply" where
  "ingest_history en user limit offset device_id tbl =
     (case (if qe_ok en 0
            then ingest_history_for_handle en user device_id (clamp_nat limit INGEST_HISTORY_LIMIT_MIN INGEST_HISTORY_LIMIT_MAX) offset tbl
            else None) of
        Some rows \<Rightarrow> IngestHistoryResponse rows
      | None \<Rightarrow> QueryFailed 500 ''query failed'')"

definition metrics_sessions :: "query_env \<Rightarrow> string \<Rightarrow> nat \<Rightarrow> nat \<Rightarrow> event_table \<Rightarrow> query_reply" where
  "metrics_sessions en user limit offset tbl =
     (if qe_ok en 0
      then SessionsResponse (sessions_for_handle user (clamp_nat limit SESSIONS_LIMIT_MIN SESSIONS_LIMIT_MAX) offset tbl)
      else QueryFailed 500 ''query failed'')"

subsection \<open>Locations\<close>

datatype location_reply =
    LocationFailed nat string
  | LocationNoContent
  | CurrentLocationResponse resolved_location

definition LOCATION_STALENESS_MINUTES :: int where
  "LOCATION_STALENESS_MINUTES = 90"

definition location_current :: "query_env \<Rightarrow> string \<Rightarrow> event_table \<Rightarrow> location_reply" where
  "location_current en user tbl =
     (if \<not> qe_ok en 0 then LocationFailed 500 ''query failed''
      else let (location_event, shard_hint) = latest_location en user LOCATION_EVENT_TYPES tbl
        in case location_event of
             None \<Rightarrow> LocationNoContent
           | Some e \<Rightarrow>
               if le_event_timestamp e < qe_now en - LOCATION_STALENESS_MINUTES * 60000000 then LocationNoContent
               else (case resolve (qe_numerics en) (le_event_type e) (le_payload e) (le_event_timestamp e) shard_hint of
                  None \<Rightarrow> LocationNoContent
                | Some resolved \<Rightarrow> CurrentLocationResponse resolved))"

record trace_entry =
  te_planet :: "string option"
  te_city :: "string option"
  te_system :: "string option"
  te_shard :: "string option"
  te_source_event_type :: string
  te_started_at :: micros
  te_ended_at :: micros
  te_event_count :: nat

text \<open>One round of the loop; the last entry is the one being extended.\<close>

definition trace_step :: "string list \<Rightarrow> location_event \<Rightarrow> trace_entry list \<Rightarrow> trace_entry list" where
  "trace_step numerics ev out =
     (case resolve numerics (le_event_type ev) (le_payload ev) (le_event_timestamp ev) None of
        None \<Rightarrow> out
      | Some resolved \<Rightarrow>
          if out \<noteq> [] \<and> te_planet (last out) = lo_planet resolved \<and> te_city (last out) = lo_city resolved \<and>
             te_system (last out) = lo_system resolved
          then butlast out @ [(last out)\<lparr>te_ended_at := le_event_timestamp ev, te_event_count := te_event_count (last out) + 1\<rparr>]
          else out @ [\<lparr>te_planet = lo_planet resolved, te_city = lo_city resolved, te_system = lo_system resolved,
                 te_shard = lo_shard resolved, te_source_event_type = lo_source_event_type resolved,
                 te_started_at = le_event_timestamp ev, te_ended_at = le_event_timestamp ev, te_event_count = 1\<rparr>])"

definition collapse_to_trace :: "string list \<Rightarrow> location_event list \<Rightarrow> trace_entry list" where
  "collapse_to_trace numerics stream = fold (trace_step numerics) stream []"

datatype trace_reply = TraceFailed nat string | TraceResponse int "trace_entry list"

definition TRACE_DEFAULT_HOURS :: int where
  "TRACE_DEFAULT_HOURS = 24"

definition TRACE_MAX_HOURS :: int where
  "TRACE_MAX_HOURS = 24 * 7"

definition TRACE_LIMIT_DEFAULT :: nat where
  "TRACE_LIMIT_DEFAULT = 200"

definition location_trace :: "query_env \<Rightarrow> string \<Rightarrow> int option \<Rightarrow> event_table \<Rightarrow> trace_reply" where
  "location_trace en user hours tbl =
     (let h = (case hours of Some h \<Rightarrow> h | None \<Rightarrow> TRACE_DEFAULT_HOURS)
      in if h \<le> 0 \<or> h > TRACE_MAX_HOURS then TraceFailed 400 ''invalid_hours''
         else if \<not> qe_ok en 0 then TraceFailed 500 ''query failed''
         else TraceResponse h (take TRACE_LIMIT_DEFAULT (rev (collapse_to_trace (qe_numerics en)
                (location_event_stream user LOCATION_EVENT_TYPES (qe_now en - h * QUERY_HOUR) tbl)))))"

type_synonym place = "string option \<times> string option \<times> string option"

definition place_of :: "resolved_location \<Rightarrow> place" where
  "place_of l = (lo_planet l, lo_city l, lo_system l)"

record breakdown_entry =
  be_planet :: "string option"
  be_city :: "string option"
  be_system :: "string option"
  be_dwell_seconds :: int
  be_visit_count :: nat

definition DWELL_CAP_MINUTES :: int where
  "DWELL_CAP_MINUTES = 30"

definition dwell_cap :: micros where
  "dwell_cap = DWELL_CAP_MINUTES * 60000000"

text \<open>The whole seconds of a duration, cut off towards zero.\<close>

definition num_seconds :: "micros \<Rightarrow> int" where
  "num_seconds d = quot_zero d 1000000"

definition add_dwell :: "place \<Rightarrow> int \<Rightarrow> (place \<Rightarrow> (int \<times> nat) option) \<Rightarrow> place \<Rightarrow> (int \<times> nat) option" where
  "add_dwell p secs buckets = (let (d, n) = (case buckets p of Some e \<Rightarrow> e | None \<Rightarrow> (0, 0)) in buckets(p \<mapsto> (d + secs, n + 1)))"

definition dwell_step ::
    "string list \<Rightarrow> location_event \<Rightarrow> (place \<Rightarrow> (int \<times> nat) option) \<times> (place \<times> micros) option \<Rightarrow>
     (place \<Rightarrow> (int \<times> nat) option) \<times> (place \<times> micros) option" where
  "dwell_step numerics ev st =
     (case resolve numerics (le_event_type ev) (le_payload ev) (le_event_timestamp ev) None of
        None \<Rightarrow> st
      | Some resolved \<Rightarrow>
          ((case snd st of
              None \<Rightarrow> fst st
            | Some (prev_place, prev_ts) \<Rightarrow>
                add_dwell prev_place (max (num_seconds (min (le_event_timestamp ev - prev_ts) dwell_cap)) 0) (fst st)),
           Some (place_of resolved, le_event_timestamp ev)))"

text \<open>The places in the order of the tree map's keys: none before some, then the bytes of the text.\<close>

definition place_rank :: "place \<Rightarrow> nat list list" where
  "place_rank p = (let part = (\<lambda>x. case x of None \<Rightarrow> [] | Some s \<Rightarrow> 0 # map Suc (bytes_of s))
     in [part (fst p), part (fst (snd p)), part (snd (snd p))])"

definition breakdown_of :: "place \<Rightarrow> int \<times> nat \<Rightarrow> breakdown_entry" where
  "breakdown_of p e = \<lparr>be_planet = fst p, be_city = fst (snd p), be_system = snd (snd p), be_dwell_seconds = fst e, be_visit_count = snd e\<rparr>"

definition visited_places :: "string list \<Rightarrow> location_event list \<Rightarrow> place list" where
  "visited_places numerics stream = remdups (List.map_filter
     (\<lambda>ev. map_option place_of (resolve numerics (le_event_type ev) (le_payload ev) (le_event_timestamp ev) None)) stream)"

definition aggregate_dwell :: "string list \<Rightarrow> location_event list \<Rightarrow> breakdown_entry list" where
  "aggregate_dwell numerics stream =
     (let (buckets, prev) = fold (dwell_step numerics) stream (Map.empty, None);
          buckets = (case prev of None \<Rightarrow> buckets | Some (p, _) \<Rightarrow> add_dwell p (num_seconds dwell_cap) buckets)
      in sort_key (\<lambda>e. - be_dwell_seconds e)
           (map (\<lambda>p. breakdown_of p (the (buckets p)))
             (filter (\<lambda>p. buckets p \<noteq> None) (sort_key place_rank (visited_places numerics stream)))))"

datatype breakdown_reply = BreakdownFailed nat string | BreakdownResponse int "breakdown_entry list"

definition BREAKDOWN_DEFAULT_HOURS :: int where
  "BREAKDOWN_DEFAULT_HOURS = 24 * 7"

definition BREAKDOWN_MAX_HOURS :: int where
  "BREAKDOWN_MAX_HOURS = 24 * 30"

definition location_breakdown :: "query_env \<Rightarrow> string \<Rightarrow> int option \<Rightarrow> event_table \<Rightarrow> breakdown_reply" where
  "location_breakdown en user hours tbl =
     (let h = (case hours of Some h \<Rightarrow> h | None \<Rightarrow> BREAKDOWN_DEFAULT_HOURS)
      in if h \<le> 0 \<or> h > BREAKDOWN_MAX_HOURS then BreakdownFailed 400 ''invalid_hours''
         else if \<not> qe_ok en 0 then BreakdownFailed 500 ''query failed''
         else BreakdownResponse h (aggregate_dwell (qe_numerics en)
                (location_event_stream user LOCATION_EVENT_TYPES (qe_now en - h * QUERY_HOUR) tbl)))"

subsection \<open>Activity statistics\<close>

definition STATS_DEFAULT_HOURS :: int where
  "STATS_DEFAULT_HOURS = 24 * 30"

definition STATS_MAX_HOURS :: int where
  "STATS_MAX_HOURS = 24 * 365"

definition STATS_BUCKET_LIMIT :: nat where
  "STATS_BUCKET_LIMIT = 100"

datatype stats_reply =
    StatsFailed nat string
  | CombatStatsResponse int nat nat "stats_bucket list" "stats_bucket list"
  | TravelStatsResponse int nat "stats_bucket list" "stats_bucket list"
  | LoadoutStatsResponse int nat "stats_bucket list"
  | StabilityStatsResponse int nat "stats_bucket list"

definition parse_stats_window :: "query_env \<Rightarrow> int option \<Rightarrow> stats_reply + int \<times> micros" where
  "parse_stats_window en hours =
     (let h = (case hours of Some h \<Rightarrow> h | None \<Rightarrow> STATS_DEFAULT_HOURS)
      in if h \<le> 0 \<or> h > STATS_MAX_HOURS then Inl (StatsFailed 400 ''invalid_hours'') else Inr (h, qe_now en - h * QUERY_HOUR))"

text \<open>A query that fails counts as none.\<close>

definition count_or_zero :: "query_env \<Rightarrow> nat \<Rightarrow> string \<Rightarrow> string \<Rightarrow> payload_filter \<Rightarrow> micros \<Rightarrow> event_table \<Rightarrow> nat" where
  "count_or_zero en i user event_type f since tbl = (if qe_ok en i then count_event_type en user event_type f (Some since) tbl else 0)"

definition buckets_or_none ::
    "query_env \<Rightarrow> nat \<Rightarrow> string \<Rightarrow> string \<Rightarrow> string \<Rightarrow> payload_filter \<Rightarrow> micros \<Rightarrow> event_table \<Rightarrow> stats_bucket list" where
  "buckets_or_none en i user event_type field f since tbl =
     (if qe_ok en i then payload_field_breakdown en user event_type field f (Some since) STATS_BUCKET_LIMIT tbl else [])"

text \<open>The sum per value; the order of equal counts is that of the value's bytes.\<close>

definition bucket_total :: "stats_bucket list \<Rightarrow> string \<Rightarrow> int" where
  "bucket_total bs v = sum_list (map bk_count (filter (\<lambda>b. bk_value b = v) bs))"

definition merge_buckets :: "stats_bucket list \<Rightarrow> stats_bucket list \<Rightarrow> nat \<Rightarrow> stats_bucket list" where
  "merge_buckets a b limit =
     take limit (sort_key (\<lambda>k. - bk_count k) (map (\<lambda>v. \<lparr>bk_value = v, bk_count = bucket_total (a @ b) v\<rparr>)
       (sort_key bytes_of (remdups (map bk_value (a @ b))))))"

text \<open>Additions of \<open>u64\<close> that stop at the largest value.\<close>

definition saturating_add_u64 :: "nat \<Rightarrow> nat \<Rightarrow> nat" where
  "saturating_add_u64 a b = min (a + b) (2 ^ 64 - 1)"

definition stats_combat :: "query_env \<Rightarrow> string \<Rightarrow> int option \<Rightarrow> event_table \<Rightarrow> stats_reply" where
  "stats_combat en user hours tbl =
     (case parse_stats_window en hours of
        Inl r \<Rightarrow> r
      | Inr (h, since) \<Rightarrow>
          (let killer = Some (''killer'', user); victim = Some (''victim'', user);
               kills = count_or_zero en 0 user ''actor_death'' killer since tbl;
               deaths_actor = count_or_zero en 1 user ''actor_death'' victim since tbl;
               deaths_player = count_or_zero en 2 user ''player_death'' None since tbl;
               top_weapons = buckets_or_none en 3 user ''actor_death'' ''weapon'' killer since tbl;
               zone_actor = buckets_or_none en 4 user ''actor_death'' ''zone'' victim since tbl;
               zone_player = buckets_or_none en 5 user ''player_death'' ''zone'' None since tbl
           in CombatStatsResponse h kills (saturating_add_u64 deaths_actor deaths_player) top_weapons
                (merge_buckets zone_actor zone_player STATS_BUCKET_LIMIT)))"

definition stats_travel :: "query_env \<Rightarrow> string \<Rightarrow> int option \<Rightarrow> event_table \<Rightarrow> stats_reply" where
  "stats_travel en user hours tbl =
     (case parse_stats_window en hours of
        Inl r \<Rightarrow> r
      | Inr (h, since) \<Rightarrow>
          TravelStatsResponse h (count_or_zero en 0 user ''quantum_target_selected'' None since tbl)
            (buckets_or_none en 1 user ''quantum_target_selected'' ''destination'' None since tbl)
            (buckets_or_none en 2 user ''planet_terrain_load'' ''planet'' None since tbl))"

definition stats_loadout :: "query_env \<Rightarrow> string \<Rightarrow> int option \<Rightarrow> event_table \<Rightarrow> stats_reply" where
  "stats_loadout en user hours tbl =
     (case parse_stats_window en hours of
        Inl r \<Rightarrow> r
      | Inr (h, since) \<Rightarrow>
          LoadoutStatsResponse h (count_or_zero en 0 user ''attachment_received'' None since tbl)
            (buckets_or_none en 1 user ''attachment_received'' ''item_class'' None since tbl))"

definition stats_stability :: "query_env \<Rightarrow> string \<Rightarrow> int option \<Rightarrow> event_table \<Rightarrow> stats_reply" where
  "stats_stability en user hours tbl =
     (case parse_stats_window en hours of
        Inl r \<Rightarrow> r
      | Inr (h, since) \<Rightarrow>
          StabilityStatsResponse h (count_or_zero en 0 user ''game_crash'' None since tbl)
            (buckets_or_none en 1 user ''game_crash'' ''channel'' None since tbl))"

subsection \<open>Commerce\<close>

record commerce_transaction =
  cd_kind :: string
  cd_status :: string
  cd_started_at :: string
  cd_confirmed_at :: "string option"
  cd_shop_id :: "string option"
  cd_item :: "string option"
  cd_quantity :: "f64 option"
  cd_raw_request :: string
  cd_raw_response :: "string option"

fun transaction_kind_name :: "transaction_kind \<Rightarrow> string" where
  "transaction_kind_name TxShop = ''shop''"
| "transaction_kind_name TxCommodityBuy = ''commodity_buy''"
| "transaction_kind_name TxCommoditySell = ''commodity_sell''"

fun transaction_status_name :: "transaction_status \<Rightarrow> string" where
  "transaction_status_name Transactions.Pending = ''pending''"
| "transaction_status_name Transactions.Confirmed = ''confirmed''"
| "transaction_status_name Transactions.Rejected = ''rejected''"
| "transaction_status_name Transactions.TimedOut = ''timed_out''"
| "transaction_status_name Transactions.Submitted = ''submitted''"

definition commerce_dto :: "transaction \<Rightarrow> commerce_transaction" where
  "commerce_dto t =
     \<lparr>cd_kind = transaction_kind_name (tx_kind t), cd_status = transaction_status_name (tx_status t), cd_started_at = tx_started_at t,
      cd_confirmed_at = tx_confirmed_at t, cd_shop_id = tx_shop_id t, cd_item = tx_item t, cd_quantity = tx_quantity t,
      cd_raw_request = tx_raw_request t, cd_raw_response = tx_raw_response t\<rparr>"

datatype commerce_reply = CommerceFailed nat string | CommerceRecentResponse "commerce_transaction list"

text \<open>The events come newest first, and in this order they are paired.\<close>

definition commerce_recent :: "query_env \<Rightarrow> string \<Rightarrow> nat \<Rightarrow> int \<Rightarrow> int option \<Rightarrow> event_table \<Rightarrow> commerce_reply" where
  "commerce_recent en user limit_param window_secs hours tbl =
     (let limit = clamp_nat limit_param 1 500
      in if (case hours of None \<Rightarrow> False | Some h \<Rightarrow> \<not> (h > 0 \<and> h \<le> STATS_MAX_HOURS)) then CommerceFailed 400 ''invalid_hours''
         else if \<not> qe_ok en 0 then CommerceFailed 500 ''query_failed''
         else let events = list_filtered user
                    \<lparr>fl_cursor = None, fl_event_type = None, fl_since = map_option (\<lambda>h. qe_now en - h * QUERY_HOUR) hours,
                     fl_until = None, fl_limit = int (clamp_nat (limit * 10) 200 1000)\<rparr> tbl;
                  game_events = List.map_filter (\<lambda>e. qe_game_event en (sv_payload e)) events;
                  txs = pair_transactions game_events (qe_now_rfc3339 en) window_secs
              in CommerceRecentResponse (map commerce_dto (take limit (rev txs))))"

subsection \<open>Hiding an event\<close>

datatype hide_reply = HideFailed nat string | HideToggleResponse bool

text \<open>The audit row is only written for a change and its failure ignored.\<close>

definition toggle_event ::
    "(string \<Rightarrow> string) \<Rightarrow> (json \<Rightarrow> string) \<Rightarrow> query_env \<Rightarrow> bool \<Rightarrow> authenticated_user \<Rightarrow> int \<Rightarrow> bool \<Rightarrow> string \<Rightarrow>
     event_table \<times> audit_table \<Rightarrow> hide_reply \<times> event_table \<times> audit_table" where
  "toggle_event sha256 to_vec en audit_ok user seq hide action st =
     (if \<not> qe_ok en 0 then (HideFailed 500 ''query failed'', st)
      else let (changed, tbl) = set_event_hidden (au_preferred_username user) seq hide (qe_now en) (fst st)
        in (HideToggleResponse changed, tbl,
            if changed \<and> audit_ok
            then snd (append_entry sha256 to_vec (qe_now en)
              \<lparr>ae_actor_sub = Some (au_sub user), ae_actor_handle = Some (au_preferred_username user), ae_action = action,
               ae_payload = JObject [(''seq'', JNumber (i64_to_string seq))]\<rparr> (snd st))
            else snd st))"

definition hide_event ::
    "(string \<Rightarrow> string) \<Rightarrow> (json \<Rightarrow> string) \<Rightarrow> query_env \<Rightarrow> bool \<Rightarrow> authenticated_user \<Rightarrow> int \<Rightarrow> event_table \<times> audit_table \<Rightarrow>
     hide_reply \<times> event_table \<times> audit_table" where
  "hide_event sha256 to_vec en audit_ok user seq = toggle_event sha256 to_vec en audit_ok user seq True ''event.hidden''"

definition unhide_event ::
    "(string \<Rightarrow> string) \<Rightarrow> (json \<Rightarrow> string) \<Rightarrow> query_env \<Rightarrow> bool \<Rightarrow> authenticated_user \<Rightarrow> int \<Rightarrow> event_table \<times> audit_table \<Rightarrow>
     hide_reply \<times> event_table \<times> audit_table" where
  "unhide_event sha256 to_vec en audit_ok user seq = toggle_event sha256 to_vec en audit_ok user seq False ''event.unhidden''"

end
