(* ===== verification/Metrics_Props.thy ===== *)
theory Metrics_Props
  imports Metrics
begin

text \<open>
  Properties of the aggregate queries and their handlers: the trace as the runs of one place, dwell
  times against a reference definition, merged buckets, the ingest history against what ingest writes,
  and the current location.
\<close>

section \<open>Readings\<close>

definition reading :: "string list \<Rightarrow> location_event \<Rightarrow> resolved_location option" where
  "reading numerics ev = resolve numerics (le_event_type ev) (le_payload ev) (le_event_timestamp ev) None"

definition readings :: "string list \<Rightarrow> location_event list \<Rightarrow> resolved_location list" where
  "readings numerics stream = List.map_filter (reading numerics) stream"

lemma readings_simps [simp]:
  "readings numerics [] = []"
  "readings numerics (xs @ [ev]) = readings numerics xs @ (case reading numerics ev of None \<Rightarrow> [] | Some r \<Rightarrow> [r])"
  by (simp_all add: readings_def List.map_filter_def split: option.split)

lemma reading_time: "reading numerics ev = Some r \<Longrightarrow> lo_last_seen_at r = le_event_timestamp ev"
  using resolve_source by (auto simp: reading_def)

section \<open>The trace\<close>

text \<open>The entry for a run of readings of one place.\<close>

definition run_entry :: "resolved_location list \<Rightarrow> trace_entry" where
  "run_entry run = \<lparr>te_planet = lo_planet (hd run), te_city = lo_city (hd run), te_system = lo_system (hd run),
     te_shard = lo_shard (hd run), te_source_event_type = lo_source_event_type (hd run),
     te_started_at = lo_last_seen_at (hd run), te_ended_at = lo_last_seen_at (last run), te_event_count = length run\<rparr>"

text \<open>The maximal runs: each of one place, neighbours of different places.\<close>

definition one_place :: "resolved_location list \<Rightarrow> bool" where
  "one_place run \<longleftrightarrow> run \<noteq> [] \<and> (\<forall>r \<in> set run. place_of r = place_of (hd run))"

definition runs_ok :: "resolved_location list list \<Rightarrow> bool" where
  "runs_ok runs \<longleftrightarrow> list_all one_place runs \<and> successively (\<lambda>a b. place_of (hd a) \<noteq> place_of (hd b)) runs"

lemma one_place_single: "one_place [r]"
  unfolding one_place_def by simp

lemma one_place_snoc:
  assumes "one_place run" and "place_of r = place_of (hd run)"
  shows "one_place (run @ [r])"
proof -
  have "run \<noteq> []" and same: "\<forall>x \<in> set run. place_of x = place_of (hd run)" using assms(1) unfolding one_place_def by blast+
  then have h: "hd (run @ [r]) = hd run" by simp
  have "place_of x = place_of (hd run)" if "x \<in> set (run @ [r])" for x
    using that same assms(2) unfolding set_append by (auto simp only: Un_iff list.set insert_iff empty_iff)
  then show ?thesis unfolding one_place_def h by simp
qed

lemma run_entry_place: "(te_planet (run_entry run), te_city (run_entry run), te_system (run_entry run)) = place_of (hd run)"
  by (simp add: run_entry_def place_of_def)

lemma successively_snoc: "successively P (xs @ [x]) \<longleftrightarrow> successively P xs \<and> (xs = [] \<or> P (last xs) x)"
  by (induction xs rule: induct_list012) auto

lemma trace_runs:
  "\<exists>runs. runs_ok runs \<and> concat runs = readings numerics stream \<and> collapse_to_trace numerics stream = map run_entry runs"
proof (induction stream rule: rev_induct)
  case Nil
  then show ?case by (intro exI [of _ "[]"]) (simp add: runs_ok_def collapse_to_trace_def)
next
  case (snoc ev stream)
  then obtain runs where runs: "runs_ok runs" "concat runs = readings numerics stream"
    "collapse_to_trace numerics stream = map run_entry runs" by blast
  have step: "collapse_to_trace numerics (stream @ [ev]) = trace_step numerics ev (map run_entry runs)"
    using runs(3) by (simp add: collapse_to_trace_def)
  show ?case
  proof (cases "reading numerics ev")
    case None
    then show ?thesis using runs step by (auto simp: trace_step_def reading_def)
  next
    case (Some r)
    note time = reading_time [OF Some]
    have each: "list_all one_place runs" and succ: "successively (\<lambda>a b. place_of (hd a) \<noteq> place_of (hd b)) runs"
      using runs(1) unfolding runs_ok_def by blast+
    show ?thesis
    proof (cases "runs \<noteq> [] \<and> place_of (hd (last runs)) = place_of r")
      case True
      then obtain front run where lr: "runs = front @ [run]" by (cases runs rule: rev_cases) auto
      have one: "one_place run" using each lr by simp
      then have ne: "run \<noteq> []" unfolding one_place_def by blast
      have "trace_step numerics ev (map run_entry runs) =
          map run_entry front @ [(run_entry run)\<lparr>te_ended_at := le_event_timestamp ev, te_event_count := length run + 1\<rparr>]"
        using Some True lr run_entry_place [of run] by (simp add: trace_step_def reading_def place_of_def run_entry_def)
      also have "(run_entry run)\<lparr>te_ended_at := le_event_timestamp ev, te_event_count := length run + 1\<rparr> = run_entry (run @ [r])"
        using ne time by (simp add: run_entry_def)
      finally have eq: "trace_step numerics ev (map run_entry runs) = map run_entry (front @ [run @ [r]])" by simp
      have r: "place_of r = place_of (hd run)" using True lr by simp
      have "successively (\<lambda>a b. place_of (hd a) \<noteq> place_of (hd b)) (front @ [run @ [r]])"
        using succ ne unfolding lr successively_snoc by simp
      then have "runs_ok (front @ [run @ [r]])" using each lr one_place_snoc [OF one r] by (simp add: runs_ok_def)
      moreover have "concat (front @ [run @ [r]]) = readings numerics (stream @ [ev])" using runs(2) lr Some by simp
      ultimately show ?thesis using eq step by metis
    next
      case False
      have "trace_step numerics ev (map run_entry runs) = map run_entry (runs @ [[r]])"
      proof (cases "runs = []")
        case True
        then show ?thesis using Some time by (simp add: trace_step_def reading_def run_entry_def)
      next
        case ne: False
        then have "\<not> (te_planet (last (map run_entry runs)) = lo_planet r \<and> te_city (last (map run_entry runs)) = lo_city r \<and>
            te_system (last (map run_entry runs)) = lo_system r)"
          using False by (simp add: last_map place_of_def run_entry_def)
        then have "trace_step numerics ev (map run_entry runs) = map run_entry runs @ [\<lparr>te_planet = lo_planet r, te_city = lo_city r,
            te_system = lo_system r, te_shard = lo_shard r, te_source_event_type = lo_source_event_type r,
            te_started_at = le_event_timestamp ev, te_ended_at = le_event_timestamp ev, te_event_count = 1\<rparr>]"
          using Some unfolding trace_step_def reading_def by auto
        then show ?thesis using time by (simp add: run_entry_def)
      qed
      moreover have "runs_ok (runs @ [[r]])"
        using each succ False one_place_single [of r] by (simp add: runs_ok_def successively_snoc)
      moreover have "concat (runs @ [[r]]) = readings numerics (stream @ [ev])" using runs(2) Some by simp
      ultimately show ?thesis using step by metis
    qed
  qed
qed

text \<open>
  The trace lists where the caller was, newest first: the readings of the window, in time order, are
  cut into maximal runs of one place, each run is one entry with its first and last time and its number
  of readings, and at most 200 of the latest entries are returned; the window is between an hour and a
  week.
\<close>

theorem location_trace_runs:
  assumes "location_trace en user hours tbl = TraceResponse h entries"
  shows "0 < h \<and> h \<le> TRACE_MAX_HOURS \<and>
    (\<exists>runs. runs_ok runs \<and>
      concat runs = readings (qe_numerics en) (location_event_stream user LOCATION_EVENT_TYPES (qe_now en - h * QUERY_HOUR) tbl) \<and>
      entries = take TRACE_LIMIT_DEFAULT (rev (map run_entry runs)))"
proof -
  have "0 < h \<and> h \<le> TRACE_MAX_HOURS" and e: "entries = take TRACE_LIMIT_DEFAULT (rev (collapse_to_trace (qe_numerics en)
      (location_event_stream user LOCATION_EVENT_TYPES (qe_now en - h * QUERY_HOUR) tbl)))"
    using assms by (auto simp: location_trace_def Let_def split: if_splits)
  then show ?thesis using trace_runs [of "qe_numerics en" "location_event_stream user LOCATION_EVENT_TYPES (qe_now en - h * QUERY_HOUR) tbl"]
    by auto
qed

section \<open>Dwell times\<close>

text \<open>What each reading contributes: the capped gap to the next one, and the cap for the last one.\<close>

definition gap_seconds :: "resolved_location \<Rightarrow> resolved_location \<Rightarrow> int" where
  "gap_seconds r r' = max (num_seconds (min (lo_last_seen_at r' - lo_last_seen_at r) dwell_cap)) 0"

fun contributions :: "resolved_location list \<Rightarrow> (place \<times> int) list" where
  "contributions [] = []"
| "contributions [r] = [(place_of r, num_seconds dwell_cap)]"
| "contributions (r # r' # rs) = (place_of r, gap_seconds r r') # contributions (r' # rs)"

lemma contributions_Nil_iff [simp]: "contributions rs = [] \<longleftrightarrow> rs = []"
  by (cases rs rule: contributions.cases) auto

lemma contributions_snoc:
  "rs \<noteq> [] \<Longrightarrow> contributions (rs @ [r]) = butlast (contributions rs) @ [(place_of (last rs), gap_seconds (last rs) r), (place_of r, num_seconds dwell_cap)]"
  by (induction rs rule: contributions.induct) auto

lemma contributions_last: "rs \<noteq> [] \<Longrightarrow> contributions rs = butlast (contributions rs) @ [(place_of (last rs), num_seconds dwell_cap)]"
  by (induction rs rule: contributions.induct) auto

lemma contributions_places: "map fst (contributions rs) = map place_of rs"
  by (induction rs rule: contributions.induct) auto

text \<open>The tally of contributions, as the loop keeps it.\<close>

definition tally :: "(place \<times> int) list \<Rightarrow> place \<Rightarrow> (int \<times> nat) option" where
  "tally cs = fold (\<lambda>(p, s). add_dwell p s) cs Map.empty"

lemma add_dwell_apply:
  "add_dwell p s b q = (if q = p then Some (case b p of None \<Rightarrow> (s, 1) | Some (d, n) \<Rightarrow> (d + s, n + 1)) else b q)"
  by (simp add: add_dwell_def Let_def split: option.split)

lemma tally_snoc: "tally (cs @ [(p, s)]) = add_dwell p s (tally cs)"
  by (simp add: tally_def)

lemma tally_eq:
  "tally cs p = (let l = filter (\<lambda>c. fst c = p) cs in if l = [] then None else Some (sum_list (map snd l), length l))"
proof (induction cs rule: rev_induct)
  case (snoc c cs)
  obtain q s where c: "c = (q, s)" by fastforce
  show ?case unfolding c tally_snoc add_dwell_apply using snoc by (auto simp: Let_def)
qed (simp add: tally_def)

lemma dwell_fold:
  "fold (dwell_step numerics) stream (Map.empty, None) =
     (tally (butlast (contributions (readings numerics stream))),
      if readings numerics stream = [] then None
      else Some (place_of (last (readings numerics stream)), lo_last_seen_at (last (readings numerics stream))))"
proof (induction stream rule: rev_induct)
  case (snoc ev stream)
  show ?case
  proof (cases "reading numerics ev")
    case None
    then show ?thesis using snoc by (simp add: dwell_step_def reading_def)
  next
    case (Some r)
    note time = reading_time [OF Some]
    have res: "resolve numerics (le_event_type ev) (le_payload ev) (le_event_timestamp ev) None = Some r" using Some by (simp add: reading_def)
    show ?thesis
    proof (cases "readings numerics stream = []")
      case True
      then show ?thesis using snoc Some res time by (simp add: dwell_step_def)
    next
      case False
      then show ?thesis using snoc Some res time contributions_snoc [OF False, of r]
        by (simp add: dwell_step_def butlast_append tally_snoc gap_seconds_def)
    qed
  qed
qed (simp add: tally_def)

definition entry_place :: "breakdown_entry \<Rightarrow> place" where
  "entry_place e = (be_planet e, be_city e, be_system e)"

lemma map_filter_option: "List.map_filter (\<lambda>x. map_option f (g x)) xs = map f (List.map_filter g xs)"
  by (induction xs) (auto simp: List.map_filter_simps split: option.split)

lemma visited_places_eq: "visited_places numerics stream = remdups (map place_of (readings numerics stream))"
  unfolding visited_places_def map_filter_option readings_def reading_def ..

lemma aggregate_dwell_tally:
  "aggregate_dwell numerics stream =
     (let cs = contributions (readings numerics stream)
      in sort_key (\<lambda>e. - be_dwell_seconds e) (map (\<lambda>p. breakdown_of p (the (tally cs p)))
           (sort_key place_rank (visited_places numerics stream))))"
proof -
  let ?rs = "readings numerics stream"
  have all: "tally (contributions ?rs) p \<noteq> None" if "p \<in> set (visited_places numerics stream)" for p
  proof -
    have "p \<in> set (map place_of ?rs)" using that by (simp add: visited_places_eq)
    then have "p \<in> fst ` set (contributions ?rs)" using contributions_places [of ?rs] by (metis list.set_map)
    then show ?thesis by (auto simp: tally_eq Let_def filter_empty_conv)
  qed
  show ?thesis
  proof (cases "?rs = []")
    case True
    then show ?thesis by (simp add: aggregate_dwell_def dwell_fold visited_places_eq)
  next
    case False
    have "tally (contributions ?rs) = add_dwell (place_of (last ?rs)) (num_seconds dwell_cap) (tally (butlast (contributions ?rs)))"
      using contributions_last [OF False] tally_snoc by metis
    then show ?thesis using False all by (simp add: aggregate_dwell_def dwell_fold Let_def filter_True)
  qed
qed

lemma num_seconds_range:
  assumes "d \<le> dwell_cap"
  shows "max (num_seconds d) 0 \<le> 1800"
proof (cases "d \<ge> 0")
  case True
  then have "num_seconds d = d div 1000000" by (simp add: num_seconds_def quot_zero_def)
  moreover have "d div 1000000 \<le> 1800000000 div 1000000" using assms by (intro zdiv_mono1) (simp_all add: dwell_cap_def DWELL_CAP_MINUTES_def)
  ultimately show ?thesis by simp
next
  case False
  then have "num_seconds d \<le> 0" by (simp add: num_seconds_def quot_zero_def sgn_if)
  then show ?thesis by simp
qed

lemma contribution_range: "c \<in> set (contributions rs) \<Longrightarrow> 0 \<le> snd c \<and> snd c \<le> 1800"
proof (induction rs rule: contributions.induct)
  case (2 r)
  then show ?case by (simp add: num_seconds_def quot_zero_def dwell_cap_def DWELL_CAP_MINUTES_def)
next
  case (3 r r' rs)
  then show ?case using num_seconds_range [of "min (lo_last_seen_at r' - lo_last_seen_at r) dwell_cap"] by (auto simp: gap_seconds_def)
qed simp

lemma sum_list_range: "(\<And>c. c \<in> set cs \<Longrightarrow> 0 \<le> snd c \<and> snd c \<le> (b :: int)) \<Longrightarrow> 0 \<le> sum_list (map snd cs) \<and> sum_list (map snd cs) \<le> b * int (length cs)"
  by (induction cs) (force simp: algebra_simps)+

text \<open>
  C13. Dwell times are accounted exactly: every reading contributes the whole seconds to the next one,
  at most half an hour, and the last one half an hour; the entries name each place that was read once,
  longest first, with the sum and the number of its contributions, so that an entry never has more than
  half an hour per visit.
\<close>

theorem dwell_accounts_each_reading:
  "sorted_wrt (\<lambda>a b. be_dwell_seconds a \<ge> be_dwell_seconds b) (aggregate_dwell numerics stream) \<and>
   distinct (map entry_place (aggregate_dwell numerics stream)) \<and>
   set (map entry_place (aggregate_dwell numerics stream)) = set (map place_of (readings numerics stream)) \<and>
   list_all (\<lambda>e. be_dwell_seconds e = sum_list (map snd (filter (\<lambda>c. fst c = entry_place e) (contributions (readings numerics stream)))) \<and>
      be_visit_count e = length (filter (\<lambda>r. place_of r = entry_place e) (readings numerics stream)) \<and>
      0 \<le> be_dwell_seconds e \<and> be_dwell_seconds e \<le> 1800 * int (be_visit_count e)) (aggregate_dwell numerics stream)"
proof -
  let ?rs = "readings numerics stream" and ?es = "aggregate_dwell numerics stream"
  let ?cs = "contributions ?rs"
  let ?f = "\<lambda>p. breakdown_of p (the (tally ?cs p))"
  have es: "?es = sort_key (\<lambda>e. - be_dwell_seconds e) (map ?f (sort_key place_rank (visited_places numerics stream)))"
    by (simp add: aggregate_dwell_tally Let_def)
  have set_es: "set ?es = ?f ` set (map place_of ?rs)" by (simp add: es visited_places_eq)
  have place: "entry_place (?f p) = p" for p by (simp add: entry_place_def breakdown_of_def)
  have sorted: "sorted_wrt (\<lambda>a b. be_dwell_seconds a \<ge> be_dwell_seconds b) ?es"
    using sorted_sort_key [of "\<lambda>e. - be_dwell_seconds e" "map ?f (sort_key place_rank (visited_places numerics stream))"]
    unfolding es by (simp add: sorted_wrt_map)
  have "mset (map entry_place ?es) = mset (visited_places numerics stream)"
    unfolding es by (simp add: place comp_def multiset.map_comp)
  then have "distinct (map entry_place ?es)" by (metis distinct_remdups mset_eq_imp_distinct_iff visited_places_eq)
  moreover have "set (map entry_place ?es) = set (map place_of ?rs)"
    unfolding set_map set_es by (simp add: place image_image)
  moreover have "be_dwell_seconds e = sum_list (map snd (filter (\<lambda>c. fst c = entry_place e) ?cs)) \<and>
      be_visit_count e = length (filter (\<lambda>r. place_of r = entry_place e) ?rs) \<and>
      0 \<le> be_dwell_seconds e \<and> be_dwell_seconds e \<le> 1800 * int (be_visit_count e)" if e: "e \<in> set ?es" for e
  proof -
    obtain p where p: "p \<in> set (map place_of ?rs)" "e = ?f p" using e unfolding set_es by blast
    let ?l = "filter (\<lambda>c. fst c = p) ?cs"
    have "p \<in> fst ` set ?cs" using p(1) contributions_places [of ?rs] by (metis list.set_map)
    then have t: "tally ?cs p = Some (sum_list (map snd ?l), length ?l)" by (auto simp: tally_eq Let_def filter_empty_conv)
    have "length ?l = length (filter (\<lambda>q. q = p) (map fst ?cs))" by (simp add: filter_map comp_def)
    also have "\<dots> = length (filter (\<lambda>r. place_of r = p) ?rs)" unfolding contributions_places by (simp add: filter_map comp_def)
    finally have n: "length ?l = length (filter (\<lambda>r. place_of r = p) ?rs)" .
    have "0 \<le> sum_list (map snd ?l) \<and> sum_list (map snd ?l) \<le> 1800 * int (length ?l)"
      by (rule sum_list_range) (use contribution_range in auto)
    then show ?thesis unfolding p(2) place using t n by (simp add: breakdown_of_def)
  qed
  ultimately show ?thesis using sorted unfolding list_all_iff by blast
qed

section \<open>Merged buckets\<close>

text \<open>
  Merging two bucket lists keeps the largest sums: each value occurs once with the sum of its counts
  in both lists, the buckets come largest first, as many as the limit allows, and no value left out has
  a larger sum than a bucket that is kept.
\<close>

theorem merge_buckets_keeps_largest:
  "distinct (map bk_value (merge_buckets a b limit)) \<and>
   sorted_wrt (\<lambda>x y. bk_count x \<ge> bk_count y) (merge_buckets a b limit) \<and>
   length (merge_buckets a b limit) = min limit (card (bk_value ` set (a @ b))) \<and>
   list_all (\<lambda>k. bk_value k \<in> bk_value ` set (a @ b) \<and> bk_count k = bucket_total (a @ b) (bk_value k) \<and>
     (\<forall>v \<in> bk_value ` set (a @ b) - bk_value ` set (merge_buckets a b limit). bucket_total (a @ b) v \<le> bk_count k)) (merge_buckets a b limit)"
proof -
  let ?f = "\<lambda>v. \<lparr>bk_value = v, bk_count = bucket_total (a @ b) v\<rparr>"
  define all where "all = sort_key (\<lambda>k. - bk_count k) (map ?f (sort_key bytes_of (remdups (map bk_value (a @ b)))))"
  have m: "merge_buckets a b limit = take limit all" by (simp only: merge_buckets_def all_def)
  have s: "sorted_wrt (\<lambda>x y. bk_count x \<ge> bk_count y) all"
    using sorted_sort_key [of "\<lambda>k. - bk_count k"] unfolding all_def by (simp add: sorted_wrt_map)
  have "mset (map bk_value all) = mset (remdups (map bk_value (a @ b)))" unfolding all_def by (simp add: comp_def multiset.map_comp)
  then have d: "distinct (map bk_value all)" by (metis distinct_remdups mset_eq_imp_distinct_iff)
  have sa: "set all = ?f ` bk_value ` set (a @ b)" by (simp add: all_def image_Un)
  have l: "length all = card (bk_value ` set (a @ b))" unfolding all_def by (simp add: length_remdups_card_conv image_Un)
  have "bucket_total (a @ b) v \<le> bk_count k"
    if k: "k \<in> set (take limit all)" and v: "v \<in> bk_value ` set (a @ b)" "v \<notin> bk_value ` set (take limit all)" for k v
  proof -
    have "?f v \<in> set all" using v(1) sa by blast
    then have fv: "?f v \<in> set (take limit all) \<union> set (drop limit all)" by (metis append_take_drop_id set_append)
    have "?f v \<notin> set (take limit all)"
    proof
      assume "?f v \<in> set (take limit all)"
      from imageI [OF this, of bk_value] show False using v(2) by simp
    qed
    then have "?f v \<in> set (drop limit all)" using fv by blast
    moreover have "sorted_wrt (\<lambda>x y. bk_count x \<ge> bk_count y) (take limit all @ drop limit all)" using s by simp
    ultimately show ?thesis using k unfolding sorted_wrt_append by fastforce
  qed
  moreover have "bk_value k \<in> bk_value ` set (a @ b) \<and> bk_count k = bucket_total (a @ b) (bk_value k)" if "k \<in> set (take limit all)" for k
    using in_set_takeD [OF that] unfolding sa by auto
  moreover have "sorted_wrt (\<lambda>x y. bk_count x \<ge> bk_count y) (take limit all)" using s by (rule sorted_wrt_take)
  moreover have "distinct (map bk_value (take limit all))" using d by (simp add: take_map [symmetric])
  moreover have "length (take limit all) = min limit (card (bk_value ` set (a @ b)))" using l by simp
  ultimately show ?thesis unfolding m list_all_iff by blast
qed

section \<open>The ingest history\<close>

lemma newest_first:
  assumes "\<And>r. r \<in> set rows \<Longrightarrow> f r < (f x :: int)"
  shows "take (Suc 0) (sort_key (\<lambda>r. - f r) (rows @ [x])) = [x]"
proof -
  let ?l = "sort_key (\<lambda>r. - f r) (rows @ [x])"
  have ne: "?l \<noteq> []" by (metis append_is_Nil_conv length_0_conv length_sort list.discI)
  have x: "x \<in> set ?l" and hd: "hd ?l \<in> set (rows @ [x])" using hd_in_set [OF ne] unfolding set_sort by simp_all
  have "sorted (map (\<lambda>r. - f r) ?l)" by (rule sorted_sort_key)
  then have "- f (hd ?l) \<le> - f x" using x ne by (cases ?l) auto
  then have "hd ?l = x" using hd assms by fastforce
  then show ?thesis using ne by (cases ?l) auto
qed

text \<open>What PostgreSQL does with the numbers of the payload: it prints them as they are stored and reads them back.\<close>

definition reads_counts :: "query_env \<Rightarrow> bool" where
  "reads_counts en \<longleftrightarrow> (\<forall>s. qe_json_text en (JNumber s) = s) \<and>
     (\<forall>i. 0 \<le> i \<and> i < 2 ^ 63 \<longrightarrow> qe_bigint en (i64_to_string i) = Some i)"

lemma i64_to_string_nonempty: "0 \<le> i \<Longrightarrow> i64_to_string i \<noteq> []"
  by (simp add: i64_to_string_def)

lemma bigint_field_count:
  assumes "reads_counts en" and "json_get p k = Some (JNumber (i64_to_string i))" and "0 \<le> i" and "i < 2 ^ 63"
  shows "bigint_field en p k = Some i"
  using assms i64_to_string_nonempty [OF assms(3)] by (simp add: bigint_field_def json_field_def reads_counts_def)

lemma u32_count: "0 \<le> uint (a :: u32)" "uint (a :: u32) < 2 ^ 63"
  using uint_range_size [of a] by (simp_all add: wsst_TYs)
text \<open>
  C31. The upload history shows what ingest did: once a batch was answered with counts and its audit row
  was written, the newest entry of the caller's history, with or without a filter on the uploading
  device, is that batch, with its id, its build, the device, the size of the batch and exactly the
  counts of the answer.
\<close>

theorem ingest_history_shows_batch:
  assumes "ingest_handle sv user batch st = (Ingested b a d r, st')"
    and "length (at_rows (is_audit st')) > length (at_rows (is_audit st))"
    and "list_all (\<lambda>w. aw_seq w < at_next_seq (is_audit st)) (at_rows (is_audit st))"
    and "reads_counts en" and "qe_ok en 0" and "length (ib_events batch) < 2 ^ 63"
    and "dev = None \<or> dev = au_device_id user"
  shows "ingest_history en (au_preferred_username user) 1 0 dev (is_audit st') =
    IngestHistoryResponse [\<lparr>ir_seq = at_next_seq (is_audit st), ir_occurred_at = ip_now sv, ir_batch_id = ib_batch_id batch,
      ir_game_build = ib_game_build batch, ir_device_id = Option.bind (au_device_id user) (qe_parse_uuid en),
      ir_total = int (length (ib_events batch)), ir_accepted = uint a, ir_duplicate = uint d, ir_rejected = uint r\<rparr>]"
proof -
  let ?e = "ingest_audit_entry user batch a d r" and ?rows = "at_rows (is_audit st)"
  obtain ok tbl' where ap: "append_entry (ip_sha256 sv) (ip_to_vec sv) (ip_now sv) ?e (is_audit st) = (ok, tbl')" by fastforce
  have tbl': "is_audit st' = tbl'" using ingest_handle_Ingested [OF assms(1)] ap by simp
  have ok using append_entry_cases [OF ap] assms(2) tbl' by (cases ok) auto
  then obtain row where row: "at_rows tbl' = ?rows @ [row]" "aw_seq row = at_next_seq (is_audit st)" "aw_payload row = ae_payload ?e"
    "aw_action row = ae_action ?e" "aw_actor_handle row = ae_actor_handle ?e" "aw_occurred_at row = ip_now sv"
    using append_entry_cases [OF ap] by auto
  let ?P = "\<lambda>w. aw_action w = ''ingest.batch_processed'' \<and> aw_actor_handle w = Some (au_preferred_username user) \<and>
     (dev = None \<or> json_field en (aw_payload w) ''device_id'' = dev)"
  have "json_field en (aw_payload row) ''device_id'' = au_device_id user"
    by (simp add: row json_field_def ingest_audit_entry_def opt_json_def split: option.split)
  then have P: "?P row" using assms(7) by (auto simp: row ingest_audit_entry_def)
  have "take (Suc 0) (sort_key (\<lambda>w. - aw_seq w) (filter ?P ?rows @ [row])) = [row]"
    by (rule newest_first) (use assms(3) row(2) in \<open>auto simp: list_all_iff\<close>)
  moreover have "ingest_row en row = Some \<lparr>ir_seq = at_next_seq (is_audit st), ir_occurred_at = ip_now sv, ir_batch_id = ib_batch_id batch,
      ir_game_build = ib_game_build batch, ir_device_id = Option.bind (au_device_id user) (qe_parse_uuid en),
      ir_total = int (length (ib_events batch)), ir_accepted = uint a, ir_duplicate = uint d, ir_rejected = uint r\<rparr>"
  proof -
    let ?p = "aw_payload row"
    have "bigint_field en ?p ''total'' = Some (int (length (ib_events batch)))"
      by (rule bigint_field_count) (use assms(4,6) in \<open>simp_all add: row ingest_audit_entry_def\<close>)
    moreover have "bigint_field en ?p ''accepted'' = Some (uint a)"
      by (rule bigint_field_count [OF assms(4)]) (use u32_count in \<open>simp_all add: row ingest_audit_entry_def\<close>)
    moreover have "bigint_field en ?p ''duplicate'' = Some (uint d)"
      by (rule bigint_field_count [OF assms(4)]) (use u32_count in \<open>simp_all add: row ingest_audit_entry_def\<close>)
    moreover have "bigint_field en ?p ''rejected'' = Some (uint r)"
      by (rule bigint_field_count [OF assms(4)]) (use u32_count in \<open>simp_all add: row ingest_audit_entry_def\<close>)
    ultimately show ?thesis
      by (simp add: ingest_row_def row json_field_def ingest_audit_entry_def opt_json_def split: option.split)
  qed
  ultimately show ?thesis
    using assms(5) P row(1) tbl'
    by (simp add: ingest_history_def ingest_history_for_handle_def clamp_nat_def INGEST_HISTORY_LIMIT_MIN_def INGEST_HISTORY_LIMIT_MAX_def)
qed

section \<open>Concrete instances\<close>

definition of_digits :: "string \<Rightarrow> int" where
  "of_digits s = foldl (\<lambda>n c. 10 * n + (of_char c - 48)) 0 s"

definition sample_query :: query_env where
  "sample_query = \<lparr>qe_ok = (\<lambda>_. True), qe_now = 7200000000, qe_now_rfc3339 = [],
     qe_json_text = (\<lambda>v. case v of JNumber s \<Rightarrow> s | _ \<Rightarrow> []), qe_bigint = (\<lambda>s. Some (of_digits s)), qe_parse_uuid = Some,
     qe_numerics = [], qe_game_event = (\<lambda>_. None)\<rparr>"

lemma of_digits_append [simp]: "of_digits (s @ [c]) = 10 * of_digits s + (of_char c - 48)"
  by (simp add: of_digits_def)

lemma int_div_mod: "10 * int (n div 10) + int (n mod 10) = int n"
  by presburger

lemma of_digits_rev: "n < fuel \<Longrightarrow> of_digits (rev (digits_rev fuel n)) = int n"
proof (induction fuel arbitrary: n)
  case (Suc fuel)
  have c: "of_char (char_of (48 + n mod 10 :: nat) :: char) = (48 + int (n mod 10))"
    by (subst of_nat_of_char [symmetric]) simp
  show ?case
  proof (cases "n < 10")
    case True
    then show ?thesis using c by (simp add: of_digits_def)
  next
    case False
    then have "of_digits (rev (digits_rev fuel (n div 10))) = int (n div 10)" using Suc by simp
    then show ?thesis using c False int_div_mod [of n] by simp
  qed
qed simp

lemma sample_reads_counts: "reads_counts sample_query"
proof -
  have "of_digits (i64_to_string i) = i" if "0 \<le> i" for i
    using that by (simp add: i64_to_string_def of_digits_rev del: digits_rev.simps)
  then show ?thesis by (simp add: reads_counts_def sample_query_def)
qed

theorem ingest_history_shows_batch_witness:
  "\<exists>st'. ingest_handle sample_sv sample_user (sample_batch ''pilot'') sample_st = (Ingested ''b'' 1 0 0, st') \<and>
     ingest_history sample_query ''pilot'' 1 0 (Some ''d'') (is_audit st') =
       IngestHistoryResponse [\<lparr>ir_seq = 1, ir_occurred_at = 0, ir_batch_id = ''b'', ir_game_build = None, ir_device_id = Some ''d'',
         ir_total = 1, ir_accepted = 1, ir_duplicate = 0, ir_rejected = 0\<rparr>]"
proof -
  obtain st' where i: "ingest_handle sample_sv sample_user (sample_batch ''pilot'') sample_st = (Ingested ''b'' 1 0 0, st')"
    using sample_ingest by blast
  have "length (at_rows (is_audit st')) > length (at_rows (is_audit sample_st))"
    using ingest_handle_Ingested [OF i]
    by (simp add: append_entry_def insert_audit_row_def sample_st_def empty_audit_def tail_hash_def)
  from ingest_history_shows_batch [OF i this _ sample_reads_counts, of "Some ''d''"] i show ?thesis
    by (simp add: sample_st_def empty_audit_def sample_query_def sample_user_def sample_batch_def sample_sv_def)
qed

text \<open>A pilot who opened two inventories in Area18 and then one at an unknown place.\<close>

definition sample_stop :: "string \<Rightarrow> micros \<Rightarrow> stored_event" where
  "sample_stop city t = \<lparr>sv_seq = 1, sv_id = [], sv_key = [], sv_handle = ''pilot'', sv_type = ''location_inventory_requested'',
     sv_timestamp = Some t, sv_log_source = [], sv_source_offset = 0, sv_raw_line = [],
     sv_payload = JObject [(''location'', JString city)], sv_hidden_at = None\<rparr>"

definition sample_stops :: event_table where
  "sample_stops = \<lparr>tb_rows = [sample_stop ''Stanton1_Lorville'' 60000000, sample_stop ''INVALID_LOCATION_ID'' 300000000,
     sample_stop ''Stanton1_Lorville'' 120000000], tb_next_seq = 4\<rparr>"

lemma sample_trace:
  "map (\<lambda>e. (te_city e, te_event_count e)) (rev (collapse_to_trace [] (location_event_stream ''pilot'' LOCATION_EVENT_TYPES 0 sample_stops))) =
     [(None, 1), (Some ''Lorville'', 2)]"
  by code_simp

theorem location_trace_runs_witness:
  "\<exists>runs entries. location_trace sample_query ''pilot'' (Some 2) sample_stops = TraceResponse 2 entries \<and>
     map te_city entries = [None, Some ''Lorville''] \<and> runs_ok runs \<and> map length runs = [2, 1]"
proof -
  obtain entries where e: "location_trace sample_query ''pilot'' (Some 2) sample_stops = TraceResponse 2 entries"
    by (simp add: location_trace_def TRACE_MAX_HOURS_def sample_query_def)
  have t: "entries = rev (collapse_to_trace [] (location_event_stream ''pilot'' LOCATION_EVENT_TYPES 0 sample_stops))"
  proof -
    have "length (collapse_to_trace [] (location_event_stream ''pilot'' LOCATION_EVENT_TYPES 0 sample_stops)) = 2"
      using arg_cong [OF sample_trace, of length] by simp
    then show ?thesis using e by (simp add: location_trace_def TRACE_MAX_HOURS_def sample_query_def TRACE_LIMIT_DEFAULT_def QUERY_HOUR_def)
  qed
  have l: "length entries = 2" and c: "map te_event_count entries = [1, 2]" "map te_city entries = [None, Some ''Lorville'']"
    using arg_cong [OF sample_trace, of length] arg_cong [OF sample_trace, of "map snd"] arg_cong [OF sample_trace, of "map fst"]
    by (simp_all add: t comp_def)
  obtain runs where r: "runs_ok runs" "entries = take TRACE_LIMIT_DEFAULT (rev (map run_entry runs))"
    using location_trace_runs [OF e] by blast
  have "length runs = 2" using r(2) l by (simp add: TRACE_LIMIT_DEFAULT_def min_def split: if_splits)
  then have "entries = rev (map run_entry runs)" using r(2) by (simp add: TRACE_LIMIT_DEFAULT_def)
  then have "rev (map length runs) = [1, 2]" using c(1) by (simp add: rev_map run_entry_def comp_def)
  then have "map length runs = [2, 1]" by (simp add: rev_eq_Cons_iff)
  then show ?thesis using e c(2) r(1) by (intro exI [of _ runs] exI [of _ entries] conjI)
qed

end
