(* ===== verification/Users.thy ===== *)
theory Users
  imports Event_Repo
begin

text \<open>
  Models the account table of \<^verbatim>\<open>crates/starstats-server/src/users.rs\<close> (the Postgres store) with the
  unique indexes of \<^verbatim>\<open>migrations/0004_users.sql\<close> and \<^verbatim>\<open>0006_email_verification.sql\<close>. The database's
  \<open>lower\<close> and \<open>ILIKE\<close>, Argon2 and the fresh identifiers are parameters. A finder returns the row; the
  code copies from it the columns a handler reads.
\<close>

section \<open>Model\<close>

record user =
  us_id :: uuid
  us_email :: string
  us_password_hash :: string
  us_claimed_handle :: string
  us_created_at :: time
  us_email_verified_at :: "time option"
  us_email_verification_token :: "string option"
  us_email_verification_expires_at :: "time option"
  us_password_changed_at :: time
  us_password_reset_token :: "string option"
  us_password_reset_expires_at :: "time option"
  us_pending_email :: "string option"
  us_pending_email_token :: "string option"
  us_pending_email_expires_at :: "time option"
  us_rsi_verified_at :: "time option"
  us_rsi_verify_code :: "string option"
  us_rsi_verify_expires_at :: "time option"
  us_totp_secret_ciphertext :: "string option"
  us_totp_secret_nonce :: "string option"
  us_totp_setup_at :: "time option"
  us_totp_enabled_at :: "time option"
  us_shares_paused_until :: "time option"
  us_updated_at :: time

type_synonym user_table = "user list"

datatype user_error = EmailTaken | HandleTaken | UserDatabase string | HashFailed string

definition is_handle_char :: "char \<Rightarrow> bool" where
  "is_handle_char c \<longleftrightarrow>
     (CHR ''a'' \<le> c \<and> c \<le> CHR ''z'') \<or> (CHR ''A'' \<le> c \<and> c \<le> CHR ''Z'') \<or> is_ascii_digit c \<or>
     c = CHR ''_'' \<or> c = CHR ''-''"

definition validate_handle :: "string \<Rightarrow> bool" where
  "validate_handle handle \<longleftrightarrow> handle \<noteq> [] \<and> length handle \<le> 64 \<and> list_all is_handle_char handle"

subsection \<open>Argon2\<close>

text \<open>\<open>parse_phc\<close> reads a stored hash, \<open>argon2\<close> compares a password with it.\<close>

record hasher =
  ha_hash :: "string \<Rightarrow> string option"
  ha_parse_phc :: "string \<Rightarrow> string option"
  ha_argon2 :: "string \<Rightarrow> string \<Rightarrow> bool"

definition hash_password :: "hasher \<Rightarrow> string \<Rightarrow> user_error + string" where
  "hash_password ha password = (case ha_hash ha password of Some h \<Rightarrow> Inr h | None \<Rightarrow> Inl (HashFailed ''argon2''))"

definition verify_password :: "hasher \<Rightarrow> string \<Rightarrow> string \<Rightarrow> bool" where
  "verify_password ha password phc =
     (case ha_parse_phc ha phc of None \<Rightarrow> False | Some parsed \<Rightarrow> ha_argon2 ha password parsed)"

subsection \<open>Creation and lookup\<close>

definition create_user ::
    "(string \<Rightarrow> string) \<Rightarrow> uuid \<Rightarrow> time \<Rightarrow> string \<Rightarrow> string \<Rightarrow> string \<Rightarrow> user_table \<Rightarrow> (user_error + user) \<times> user_table" where
  "create_user lower new_id now email password_hash claimed_handle tbl =
     (let u = \<lparr>us_id = new_id, us_email = lower email, us_password_hash = password_hash,
            us_claimed_handle = claimed_handle, us_created_at = now, us_email_verified_at = None,
            us_email_verification_token = None, us_email_verification_expires_at = None,
            us_password_changed_at = now, us_password_reset_token = None, us_password_reset_expires_at = None,
            us_pending_email = None, us_pending_email_token = None, us_pending_email_expires_at = None,
            us_rsi_verified_at = None, us_rsi_verify_code = None, us_rsi_verify_expires_at = None,
            us_totp_secret_ciphertext = None, us_totp_secret_nonce = None, us_totp_setup_at = None,
            us_totp_enabled_at = None, us_shares_paused_until = None, us_updated_at = now\<rparr>
      in if new_id \<in> us_id ` set tbl then (Inl (UserDatabase ''users_pkey''), tbl)
         else if lower (us_email u) \<in> (\<lambda>v. lower (us_email v)) ` set tbl then (Inl EmailTaken, tbl)
         else if lower (us_claimed_handle u) \<in> (\<lambda>v. lower (us_claimed_handle v)) ` set tbl then (Inl HandleTaken, tbl)
         else (Inr u, tbl @ [u]))"

definition find_by_email :: "(string \<Rightarrow> string) \<Rightarrow> string \<Rightarrow> user_table \<Rightarrow> user option" where
  "find_by_email lower email tbl = find (\<lambda>u. lower (us_email u) = lower email) tbl"

definition find_by_handle :: "(string \<Rightarrow> string) \<Rightarrow> string \<Rightarrow> user_table \<Rightarrow> user option" where
  "find_by_handle lower handle tbl = find (\<lambda>u. lower (us_claimed_handle u) = lower handle) tbl"

definition find_by_id :: "uuid \<Rightarrow> user_table \<Rightarrow> user option" where
  "find_by_id i tbl = find (\<lambda>u. us_id u = i) tbl"

definition find_by_verification_token :: "string \<Rightarrow> user_table \<Rightarrow> user option" where
  "find_by_verification_token token tbl = find (\<lambda>u. us_email_verification_token u = Some token) tbl"

definition find_by_password_reset_token :: "string \<Rightarrow> user_table \<Rightarrow> user option" where
  "find_by_password_reset_token token tbl = find (\<lambda>u. us_password_reset_token u = Some token) tbl"

definition find_by_pending_email_token :: "string \<Rightarrow> user_table \<Rightarrow> user option" where
  "find_by_pending_email_token token tbl = find (\<lambda>u. us_pending_email_token u = Some token) tbl"

record list_users_filters =
  lu_q :: "string option"
  lu_limit :: int
  lu_offset :: int

text \<open>A search of white space only is no search.\<close>

definition list_users :: "(string \<Rightarrow> string \<Rightarrow> bool) \<Rightarrow> list_users_filters \<Rightarrow> user_table \<Rightarrow> user list" where
  "list_users ilike f tbl =
     (let limit = clamp (lu_limit f) 1 200; offset = max (lu_offset f) 0;
          q = (case lu_q f of None \<Rightarrow> None | Some s \<Rightarrow> if trim s = [] then None else Some (trim s));
          hits = (case q of
              None \<Rightarrow> tbl
            | Some s \<Rightarrow> filter (\<lambda>u. ilike (us_claimed_handle u) (''%'' @ s @ ''%'') \<or> ilike (us_email u) (''%'' @ s @ ''%'')) tbl)
      in take (nat limit) (drop (nat offset) (sort_key (\<lambda>u. - us_created_at u) hits)))"

subsection \<open>Updates\<close>

definition update_user :: "uuid \<Rightarrow> (user \<Rightarrow> user) \<Rightarrow> user_table \<Rightarrow> user_table" where
  "update_user i f tbl = map (\<lambda>u. if us_id u = i then f u else u) tbl"

text \<open>The verification token carries a unique index; a clash aborts the update.\<close>

definition set_verification_token ::
    "uuid \<Rightarrow> string \<Rightarrow> time \<Rightarrow> time \<Rightarrow> user_table \<Rightarrow> (user_error + unit) \<times> user_table" where
  "set_verification_token i token expires_at now tbl =
     (if i \<in> us_id ` set tbl \<and> (\<exists>u \<in> set tbl. us_id u \<noteq> i \<and> us_email_verification_token u = Some token)
      then (Inl (UserDatabase ''users_verification_token_uq''), tbl)
      else (Inr (), update_user i (\<lambda>u. u\<lparr>us_email_verification_token := Some token,
              us_email_verification_expires_at := Some expires_at, us_updated_at := now\<rparr>) tbl))"

definition mark_email_verified :: "uuid \<Rightarrow> time \<Rightarrow> user_table \<Rightarrow> user_table" where
  "mark_email_verified i now =
     update_user i (\<lambda>u. u\<lparr>us_email_verified_at := Some now, us_email_verification_token := None,
       us_email_verification_expires_at := None, us_updated_at := now\<rparr>)"

definition update_password :: "uuid \<Rightarrow> string \<Rightarrow> time \<Rightarrow> user_table \<Rightarrow> user_table" where
  "update_password i phc now =
     update_user i (\<lambda>u. u\<lparr>us_password_hash := phc, us_password_changed_at := now, us_updated_at := now\<rparr>)"

definition set_password_reset_token :: "uuid \<Rightarrow> string \<Rightarrow> time \<Rightarrow> time \<Rightarrow> user_table \<Rightarrow> user_table" where
  "set_password_reset_token i token expires_at now =
     update_user i (\<lambda>u. u\<lparr>us_password_reset_token := Some token, us_password_reset_expires_at := Some expires_at,
       us_updated_at := now\<rparr>)"

definition complete_password_reset :: "uuid \<Rightarrow> string \<Rightarrow> time \<Rightarrow> user_table \<Rightarrow> user_table" where
  "complete_password_reset i phc now =
     update_user i (\<lambda>u. u\<lparr>us_password_hash := phc, us_password_changed_at := now, us_password_reset_token := None,
       us_password_reset_expires_at := None, us_updated_at := now\<rparr>)"

definition set_pending_email ::
    "(string \<Rightarrow> string) \<Rightarrow> uuid \<Rightarrow> string \<Rightarrow> string \<Rightarrow> time \<Rightarrow> time \<Rightarrow> user_table \<Rightarrow> user_table" where
  "set_pending_email lower i new_email token expires_at now =
     update_user i (\<lambda>u. u\<lparr>us_pending_email := Some (lower new_email), us_pending_email_token := Some token,
       us_pending_email_expires_at := Some expires_at, us_updated_at := now\<rparr>)"

text \<open>\<open>WHERE id = $1 AND pending_email IS NOT NULL\<close>; the unique index on the e-mail may refuse it.\<close>

definition commit_pending_email ::
    "(string \<Rightarrow> string) \<Rightarrow> uuid \<Rightarrow> time \<Rightarrow> user_table \<Rightarrow> (user_error + unit) \<times> user_table" where
  "commit_pending_email lower i now tbl =
     (if \<exists>u \<in> set tbl. us_id u = i \<and> (\<exists>v \<in> set tbl. us_id v \<noteq> i \<and>
           (case us_pending_email u of None \<Rightarrow> False | Some e \<Rightarrow> lower (us_email v) = lower e))
      then (Inl EmailTaken, tbl)
      else (Inr (), update_user i (\<lambda>u. case us_pending_email u of
              None \<Rightarrow> u
            | Some e \<Rightarrow> u\<lparr>us_email := e, us_email_verified_at := Some now, us_pending_email := None,
                us_pending_email_token := None, us_pending_email_expires_at := None, us_updated_at := now\<rparr>) tbl))"

definition set_rsi_verify_code :: "uuid \<Rightarrow> string \<Rightarrow> time \<Rightarrow> time \<Rightarrow> user_table \<Rightarrow> user_table" where
  "set_rsi_verify_code i code expires_at now =
     update_user i (\<lambda>u. u\<lparr>us_rsi_verify_code := Some code, us_rsi_verify_expires_at := Some expires_at,
       us_updated_at := now\<rparr>)"

definition mark_rsi_verified :: "uuid \<Rightarrow> time \<Rightarrow> user_table \<Rightarrow> user_table" where
  "mark_rsi_verified i now =
     update_user i (\<lambda>u. u\<lparr>us_rsi_verified_at := Some now, us_rsi_verify_code := None,
       us_rsi_verify_expires_at := None, us_updated_at := now\<rparr>)"

definition start_totp_setup :: "uuid \<Rightarrow> string \<Rightarrow> string \<Rightarrow> time \<Rightarrow> user_table \<Rightarrow> user_table" where
  "start_totp_setup i ciphertext nonce now =
     update_user i (\<lambda>u. u\<lparr>us_totp_secret_ciphertext := Some ciphertext, us_totp_secret_nonce := Some nonce,
       us_totp_setup_at := Some now, us_updated_at := now\<rparr>)"

definition get_totp_secret :: "uuid \<Rightarrow> user_table \<Rightarrow> (string \<times> string) option" where
  "get_totp_secret i tbl =
     (case find_by_id i tbl of
        None \<Rightarrow> None
      | Some u \<Rightarrow> (case (us_totp_secret_ciphertext u, us_totp_secret_nonce u) of
          (Some ct, Some n) \<Rightarrow> Some (ct, n)
        | _ \<Rightarrow> None))"

definition mark_totp_enabled :: "uuid \<Rightarrow> time \<Rightarrow> user_table \<Rightarrow> user_table" where
  "mark_totp_enabled i now = update_user i (\<lambda>u. u\<lparr>us_totp_enabled_at := Some now, us_updated_at := now\<rparr>)"

definition disable_totp :: "uuid \<Rightarrow> time \<Rightarrow> user_table \<Rightarrow> user_table" where
  "disable_totp i now =
     update_user i (\<lambda>u. u\<lparr>us_totp_secret_ciphertext := None, us_totp_secret_nonce := None, us_totp_setup_at := None,
       us_totp_enabled_at := None, us_updated_at := now\<rparr>)"

definition get_shares_paused_until_by_handle :: "(string \<Rightarrow> string) \<Rightarrow> string \<Rightarrow> user_table \<Rightarrow> time option" where
  "get_shares_paused_until_by_handle lower handle tbl =
     Option.bind (find_by_handle lower handle tbl) us_shares_paused_until"

definition set_shares_paused_until_by_handle ::
    "(string \<Rightarrow> string) \<Rightarrow> string \<Rightarrow> time option \<Rightarrow> time \<Rightarrow> user_table \<Rightarrow> user_table" where
  "set_shares_paused_until_by_handle lower handle until now tbl =
     map (\<lambda>u. if lower (us_claimed_handle u) = lower handle
              then u\<lparr>us_shares_paused_until := until, us_updated_at := now\<rparr> else u) tbl"

subsection \<open>Deletion\<close>

definition pseudonymise :: "string \<Rightarrow> stored_event \<Rightarrow> stored_event" where
  "pseudonymise pseudonym r = r\<lparr>sv_handle := pseudonym, sv_raw_line := [], sv_payload := JObject []\<rparr>"

definition tombstone :: "uuid \<Rightarrow> string" where
  "tombstone fresh = ''deleted-'' @ fresh"

definition pseudonymise_events ::
    "(string \<Rightarrow> string) \<Rightarrow> string \<Rightarrow> string \<Rightarrow> event_table \<Rightarrow> event_table option" where
  "pseudonymise_events lower pseudonym handle events =
     (let rows = map (\<lambda>r. if lower (sv_handle r) = lower handle then pseudonymise pseudonym r else r) (tb_rows events)
      in if distinct (map (\<lambda>r. (sv_handle r, sv_key r)) rows) then Some (events\<lparr>tb_rows := rows\<rparr>) else None)"

text \<open>
  One transaction: the unique index of the events refuses a renaming that would give two rows one
  (handle, key) pair, and the tables that refer to accounts can refuse to let the row go (\<open>refused\<close>: the check
  of \<^verbatim>\<open>staff_roles\<close> fails when a revoker is set to null); in both cases nothing is changed.
\<close>

definition delete_user ::
    "(string \<Rightarrow> string) \<Rightarrow> uuid \<Rightarrow> (uuid \<Rightarrow> bool) \<Rightarrow> uuid \<Rightarrow> user_table \<Rightarrow> event_table \<Rightarrow>
     (user_error + unit) \<times> user_table \<times> event_table" where
  "delete_user lower fresh refused i users events =
     (case (case find_by_id i users of
              None \<Rightarrow> Some events
            | Some u \<Rightarrow> pseudonymise_events lower (tombstone fresh) (us_claimed_handle u) events) of
        None \<Rightarrow> (Inl (UserDatabase ''events_handle_idem_uq''), users, events)
      | Some events' \<Rightarrow>
          if refused i then (Inl (UserDatabase ''staff_roles_check''), users, events)
          else (Inr (), filter (\<lambda>u. us_id u \<noteq> i) users, events'))"

section \<open>Invariant\<close>

text \<open>What the database guarantees of the table: one account per id, e-mail and handle.\<close>

definition users_ok :: "(string \<Rightarrow> string) \<Rightarrow> user_table \<Rightarrow> bool" where
  "users_ok lower tbl \<longleftrightarrow>
     distinct (map us_id tbl) \<and> distinct (map (\<lambda>u. lower (us_email u)) tbl) \<and>
     distinct (map (\<lambda>u. lower (us_claimed_handle u)) tbl)"

lemma users_ok_Nil: "users_ok lower []"
  by (simp add: users_ok_def)

lemma create_user_ok: "users_ok lower tbl \<Longrightarrow> create_user lower i now e p h tbl = (r, tbl') \<Longrightarrow> users_ok lower tbl'"
  by (auto simp: users_ok_def create_user_def Let_def split: if_splits)

text \<open>An update that keeps the indexed columns keeps the invariant.\<close>

lemma map_update_user:
  assumes "\<And>u. us_id u = i \<Longrightarrow> g (f u) = g u"
  shows "map g (update_user i f tbl) = map g tbl"
  using assms by (simp add: update_user_def)

lemma update_user_ok:
  assumes "users_ok lower tbl" and "\<And>u. us_id (f u) = us_id u" and "\<And>u. us_email (f u) = us_email u"
    and "\<And>u. us_claimed_handle (f u) = us_claimed_handle u"
  shows "users_ok lower (update_user i f tbl)"
  using assms by (simp add: users_ok_def map_update_user)

lemma find_by_id_Some:
  assumes "users_ok lower tbl"
  shows "find_by_id i tbl = Some u \<longleftrightarrow> u \<in> set tbl \<and> us_id u = i"
proof
  assume "find_by_id i tbl = Some u"
  then show "u \<in> set tbl \<and> us_id u = i" by (auto simp: find_by_id_def find_Some_iff)
next
  assume u: "u \<in> set tbl \<and> us_id u = i"
  then obtain v where v: "find_by_id i tbl = Some v" by (cases "find_by_id i tbl") (auto simp: find_by_id_def find_None_iff)
  then have "v \<in> set tbl" "us_id v = i" by (auto simp: find_by_id_def find_Some_iff)
  then show "find_by_id i tbl = Some u"
    using u v assms by (auto simp: users_ok_def distinct_map inj_on_def)
qed

lemma find_by_id_update:
  assumes "\<And>u. us_id (f u) = us_id u"
  shows "find_by_id j (update_user i f tbl) = map_option (\<lambda>u. if us_id u = i then f u else u) (find_by_id j tbl)"
  by (induction tbl) (auto simp: find_by_id_def update_user_def assms)

lemma commit_pending_email_ok:
  assumes "users_ok lower tbl" and "commit_pending_email lower i now tbl = (r, tbl')"
  shows "users_ok lower tbl'"
proof (cases r)
  case (Inl e)
  then show ?thesis using assms by (auto simp: commit_pending_email_def split: if_splits)
next
  case (Inr x)
  let ?f = "\<lambda>u. case us_pending_email u of None \<Rightarrow> u
     | Some e \<Rightarrow> u\<lparr>us_email := e, us_email_verified_at := Some now, us_pending_email := None,
         us_pending_email_token := None, us_pending_email_expires_at := None, us_updated_at := now\<rparr>"
  have tbl': "tbl' = update_user i ?f tbl"
    and free: "\<And>u v e. u \<in> set tbl \<Longrightarrow> us_id u = i \<Longrightarrow> v \<in> set tbl \<Longrightarrow> us_id v \<noteq> i \<Longrightarrow>
      us_pending_email u = Some e \<Longrightarrow> lower (us_email v) \<noteq> lower e"
    using assms(2) Inr by (auto simp: commit_pending_email_def split: if_splits option.splits)
  have "inj_on (\<lambda>u. lower (us_email (if us_id u = i then ?f u else u))) (set tbl)"
  proof (rule inj_onI)
    fix u v
    assume uv: "u \<in> set tbl" "v \<in> set tbl"
      "lower (us_email (if us_id u = i then ?f u else u)) = lower (us_email (if us_id v = i then ?f v else v))"
    have inj: "inj_on us_id (set tbl)" "inj_on (\<lambda>u. lower (us_email u)) (set tbl)"
      using assms(1) by (auto simp: users_ok_def distinct_map)
    consider "us_id u = us_id v" | "us_id u = i" "us_id v \<noteq> i" | "us_id u \<noteq> i" "us_id v = i"
      | "us_id u \<noteq> i" "us_id v \<noteq> i" by blast
    then show "u = v"
      by cases (use uv free [of u v] free [of v u] inj in \<open>auto simp: inj_on_def split: option.splits\<close>)
  qed
  moreover have "distinct tbl" using assms(1) by (auto simp: users_ok_def distinct_map)
  ultimately have "distinct (map (\<lambda>u. lower (us_email u)) tbl')"
    by (simp add: tbl' update_user_def distinct_map o_def)
  moreover have "map us_id tbl' = map us_id tbl"
    "map (\<lambda>u. lower (us_claimed_handle u)) tbl' = map (\<lambda>u. lower (us_claimed_handle u)) tbl"
    unfolding tbl' by (rule map_update_user, simp split: option.split)+
  ultimately show ?thesis using assms(1) by (simp add: users_ok_def)
qed

lemma users_ok_filter: "users_ok lower tbl \<Longrightarrow> users_ok lower (filter P tbl)"
  by (simp add: users_ok_def distinct_map_filter)

lemma set_verification_token_ok:
  "users_ok lower tbl \<Longrightarrow> set_verification_token i token e now tbl = (r, tbl') \<Longrightarrow> users_ok lower tbl'"
  by (auto simp: set_verification_token_def update_user_ok split: if_splits)

lemmas users_ok_updates = update_user_ok commit_pending_email_ok set_verification_token_ok create_user_ok users_ok_filter

section \<open>Deletion\<close>

lemma pseudonymise_events_rows:
  assumes "pseudonymise_events lower p h events = Some events'"
  shows "tb_rows events' = map (\<lambda>r. if lower (sv_handle r) = lower h then pseudonymise p r else r) (tb_rows events)"
    and "tb_next_seq events' = tb_next_seq events"
  using assms by (auto simp: pseudonymise_events_def Let_def split: if_splits)

lemma pseudonymise_events_ok:
  assumes "table_ok events" and "pseudonymise_events lower p h events = Some events'"
  shows "table_ok events'"
proof -
  have "map sv_seq (tb_rows events') = map sv_seq (tb_rows events)" "map sv_id (tb_rows events') = map sv_id (tb_rows events)"
    using pseudonymise_events_rows [OF assms(2)] by (simp_all add: pseudonymise_def)
  moreover have "distinct (map (\<lambda>r. (sv_handle r, sv_key r)) (tb_rows events'))"
    using assms(2) by (auto simp: pseudonymise_events_def Let_def split: if_splits)
  moreover from calculation(1) have "sv_seq ` set (tb_rows events') = sv_seq ` set (tb_rows events)"
    by (metis set_map)
  then have "\<forall>r \<in> set (tb_rows events'). 1 \<le> sv_seq r \<and> sv_seq r < tb_next_seq events'"
    using assms(1) pseudonymise_events_rows(2) [OF assms(2)] unfolding table_ok_def
    by (metis (no_types, lifting) imageE imageI)
  ultimately show ?thesis using assms(1) pseudonymise_events_rows(2) [OF assms(2)] by (simp add: table_ok_def)
qed

text \<open>
  C28. Deleting an account erases the person and keeps the counts: afterwards the account is gone, no
  event is stored under any spelling of its handle, every event it had is kept as a blank row with
  its type, time and sequence number, and the events of everyone else are unchanged.
\<close>

theorem delete_user_erases:
  assumes "users_ok lower users" and "table_ok events" and "u \<in> set users"
    and "lower (tombstone fresh) \<noteq> lower (us_claimed_handle u)"
    and "delete_user lower fresh refused (us_id u) users events = (Inr (), users', events')"
  shows "find_by_id (us_id u) users' = None \<and> set users' = set users - {u} \<and> table_ok events' \<and>
    (\<forall>r \<in> set (tb_rows events'). lower (sv_handle r) \<noteq> lower (us_claimed_handle u)) \<and>
    map (\<lambda>r. (sv_seq r, sv_type r, sv_timestamp r)) (tb_rows events') =
      map (\<lambda>r. (sv_seq r, sv_type r, sv_timestamp r)) (tb_rows events) \<and>
    (\<forall>r \<in> set (tb_rows events'). r \<in> set (tb_rows events) \<or> sv_raw_line r = [] \<and> sv_payload r = JObject []) \<and>
    (\<forall>r \<in> set (tb_rows events). lower (sv_handle r) \<noteq> lower (us_claimed_handle u) \<longrightarrow> r \<in> set (tb_rows events'))"
proof -
  have f: "find_by_id (us_id u) users = Some u" using assms(1,3) by (simp add: find_by_id_Some)
  then have users': "users' = filter (\<lambda>v. us_id v \<noteq> us_id u) users"
    and ev: "pseudonymise_events lower (tombstone fresh) (us_claimed_handle u) events = Some events'"
    using assms(5) by (auto simp: delete_user_def split: option.splits if_splits)
  note rows = pseudonymise_events_rows(1) [OF ev]
  have "set users' = set users - {u}"
    using assms(1,3) users' by (auto simp: users_ok_def distinct_map inj_on_def)
  moreover have "find_by_id (us_id u) users' = None"
    using users' by (auto simp: find_by_id_def find_None_iff)
  moreover note pseudonymise_events_ok [OF assms(2) ev]
  moreover have "\<forall>r \<in> set (tb_rows events'). lower (sv_handle r) \<noteq> lower (us_claimed_handle u)"
    using assms(4) by (auto simp: rows pseudonymise_def)
  moreover have "map (\<lambda>r. (sv_seq r, sv_type r, sv_timestamp r)) (tb_rows events') =
      map (\<lambda>r. (sv_seq r, sv_type r, sv_timestamp r)) (tb_rows events)"
    by (simp add: rows pseudonymise_def)
  moreover have "\<forall>r \<in> set (tb_rows events'). r \<in> set (tb_rows events) \<or> sv_raw_line r = [] \<and> sv_payload r = JObject []"
    by (auto simp: rows pseudonymise_def)
  moreover have "\<forall>r \<in> set (tb_rows events). lower (sv_handle r) \<noteq> lower (us_claimed_handle u) \<longrightarrow> r \<in> set (tb_rows events')"
    by (auto simp: rows)
  ultimately show ?thesis by blast
qed

text \<open>
  An account can be stuck: when the same line was ingested under two spellings of the handle, the
  renaming would give two rows one key, the unique index of the events refuses it, and deleting the
  account fails and changes nothing, at every attempt.
\<close>

theorem delete_user_blocked_by_spellings:
  assumes "users_ok lower users" and "u \<in> set users"
    and "r1 \<in> set (tb_rows events)" and "r2 \<in> set (tb_rows events)" and "r1 \<noteq> r2" and "sv_key r1 = sv_key r2"
    and "lower (sv_handle r1) = lower (us_claimed_handle u)" and "lower (sv_handle r2) = lower (us_claimed_handle u)"
  shows "delete_user lower fresh refused (us_id u) users events = (Inl (UserDatabase ''events_handle_idem_uq''), users, events)"
proof -
  let ?f = "\<lambda>r. if lower (sv_handle r) = lower (us_claimed_handle u) then pseudonymise (tombstone fresh) r else r"
  let ?k = "\<lambda>r. (sv_handle r, sv_key r)"
  have "?k (?f r1) = ?k (?f r2)" using assms(6-8) by (simp add: pseudonymise_def)
  with assms(3-5) have "\<not> inj_on (\<lambda>r. ?k (?f r)) (set (tb_rows events))" unfolding inj_on_def by blast
  then have "\<not> distinct (map (\<lambda>r. ?k (?f r)) (tb_rows events))" by (simp only: distinct_map not_False_eq_True simp_thms)
  then have "pseudonymise_events lower (tombstone fresh) (us_claimed_handle u) events = None"
    by (simp add: pseudonymise_events_def Let_def o_def)
  moreover have "find_by_id (us_id u) users = Some u" using assms(1,2) by (simp add: find_by_id_Some)
  ultimately show ?thesis by (simp add: delete_user_def)
qed

section \<open>Concrete instances\<close>

definition sample_user_row :: user where
  "sample_user_row = \<lparr>us_id = ''u'', us_email = ''a@b.c'', us_password_hash = ''p'', us_claimed_handle = ''Pilot'',
     us_created_at = 0, us_email_verified_at = None, us_email_verification_token = None,
     us_email_verification_expires_at = None, us_password_changed_at = 0, us_password_reset_token = None,
     us_password_reset_expires_at = None, us_pending_email = None, us_pending_email_token = None,
     us_pending_email_expires_at = None, us_rsi_verified_at = None, us_rsi_verify_code = None,
     us_rsi_verify_expires_at = None, us_totp_secret_ciphertext = None, us_totp_secret_nonce = None,
     us_totp_setup_at = None, us_totp_enabled_at = None, us_shares_paused_until = None, us_updated_at = 0\<rparr>"

definition sample_event :: "int \<Rightarrow> string \<Rightarrow> stored_event" where
  "sample_event seq handle = \<lparr>sv_seq = seq, sv_id = replicate (nat seq) (CHR ''i''), sv_key = ''k'', sv_handle = handle,
     sv_type = ''join_pu'', sv_timestamp = None, sv_log_source = ''live'', sv_source_offset = 0, sv_raw_line = ''raw'',
     sv_payload = JNull, sv_hidden_at = None\<rparr>"

lemma sample_users_ok: "users_ok to_ascii_lowercase [sample_user_row]"
  by (simp add: users_ok_def)

theorem delete_user_erases_witness:
  "\<exists>users' events'. delete_user to_ascii_lowercase ''f'' (\<lambda>i. False) ''u'' [sample_user_row] \<lparr>tb_rows = [sample_event 1 ''pilot''], tb_next_seq = 2\<rparr> =
     (Inr (), users', events') \<and> users' = [] \<and> length (tb_rows events') = 1 \<and>
     filter (\<lambda>r. to_ascii_lowercase (sv_handle r) = to_ascii_lowercase ''Pilot'') (tb_rows events') = []"
proof -
  let ?ev = "\<lparr>tb_rows = [sample_event 1 ''pilot''], tb_next_seq = 2\<rparr>"
  have l: "to_ascii_lowercase (tombstone ''f'') \<noteq> to_ascii_lowercase ''Pilot''" by code_simp
  have t: "table_ok ?ev" by (simp add: table_ok_def sample_event_def)
  have i: "us_id sample_user_row = ''u''" "us_claimed_handle sample_user_row = ''Pilot''" by (simp_all add: sample_user_row_def)
  obtain users' events' where d: "delete_user to_ascii_lowercase ''f'' (\<lambda>i. False) (us_id sample_user_row) [sample_user_row] ?ev = (Inr (), users', events')"
    by (simp add: delete_user_def find_by_id_def pseudonymise_events_def Let_def)
  from delete_user_erases [OF sample_users_ok t _ l [folded i(2)] d]
  have "set users' = {}" "map (\<lambda>r. (sv_seq r, sv_type r, sv_timestamp r)) (tb_rows events') =
      map (\<lambda>r. (sv_seq r, sv_type r, sv_timestamp r)) (tb_rows ?ev)"
    "\<forall>r \<in> set (tb_rows events'). to_ascii_lowercase (sv_handle r) \<noteq> to_ascii_lowercase ''Pilot''"
    by (simp_all add: i)
  moreover from this(2) have "length (tb_rows events') = length (tb_rows ?ev)" by (rule map_eq_imp_length_eq)
  ultimately show ?thesis using d i by (auto simp: filter_empty_conv)
qed

theorem delete_user_blocked_by_spellings_witness:
  "delete_user to_ascii_lowercase ''f'' (\<lambda>i. False) ''u'' [sample_user_row]
     \<lparr>tb_rows = [sample_event 1 ''pilot'', sample_event 2 ''PILOT''], tb_next_seq = 3\<rparr> =
   (Inl (UserDatabase ''events_handle_idem_uq''), [sample_user_row],
     \<lparr>tb_rows = [sample_event 1 ''pilot'', sample_event 2 ''PILOT''], tb_next_seq = 3\<rparr>)"
proof -
  have l: "to_ascii_lowercase ''pilot'' = to_ascii_lowercase ''Pilot''" "to_ascii_lowercase ''PILOT'' = to_ascii_lowercase ''Pilot''" by code_simp+
  from delete_user_blocked_by_spellings [OF sample_users_ok, of sample_user_row "sample_event 1 ''pilot''"
      "\<lparr>tb_rows = [sample_event 1 ''pilot'', sample_event 2 ''PILOT''], tb_next_seq = 3\<rparr>" "sample_event 2 ''PILOT''" "''f''" "\<lambda>i. False"] l
  show ?thesis by (simp add: sample_event_def sample_user_row_def)
qed

end
