(* ===== verification/Recovery_Codes.thy ===== *)
theory Recovery_Codes
  imports Single_Use
begin

text \<open>
  Models \<^verbatim>\<open>crates/starstats-server/src/recovery_codes.rs\<close>. Argon2 hashing and verification
  (\<open>hash_password\<close>, \<open>verify_password\<close>) and Unicode upper-casing are parameters; drawn codes and row
  identifiers are arguments. A redemption is not one transaction: it selects the unused rows,
  compares them outside the database, and then issues a guarded \<open>UPDATE\<close>. The second half of the
  theory runs redemptions concurrently, one database statement at a time.
\<close>

section \<open>Model\<close>

definition NUM_CODES :: nat where
  "NUM_CODES = 10"

record code_row =
  rc_id :: uuid
  rc_user_id :: uuid
  rc_hash :: string
  rc_used_at :: "time option"

type_synonym code_db = "code_row list"

text \<open>
  \<open>strip_ws\<close> drops every white-space character, in its UTF-8 encodings; \<open>skip\<close> counts the bytes of
  the character being dropped.
\<close>

fun strip_ws_from :: "nat \<Rightarrow> string \<Rightarrow> string" where
  "strip_ws_from skip [] = []"
| "strip_ws_from (Suc k) (c # cs) = strip_ws_from k cs"
| "strip_ws_from 0 (c # cs) =
     (case match_len ws_encodings (c # cs) of
        0 \<Rightarrow> c # strip_ws_from 0 cs
      | Suc k \<Rightarrow> strip_ws_from k cs)"

definition normalise :: "(string \<Rightarrow> string) \<Rightarrow> string \<Rightarrow> string" where
  "normalise to_uppercase candidate = to_uppercase (strip_ws_from 0 candidate)"

fun hash_all :: "(string \<Rightarrow> string option) \<Rightarrow> string list \<Rightarrow> string list option" where
  "hash_all hash_password [] = Some []"
| "hash_all hash_password (c # cs) =
     (case hash_password c of
        None \<Rightarrow> None
      | Some h \<Rightarrow> map_option ((#) h) (hash_all hash_password cs))"

definition clear_for_user :: "uuid \<Rightarrow> code_db \<Rightarrow> code_db" where
  "clear_for_user user_id db = filter (\<lambda>r. rc_user_id r \<noteq> user_id) db"

definition regenerate_for_user ::
    "(string \<Rightarrow> string option) \<Rightarrow> uuid \<Rightarrow> string list \<Rightarrow> uuid list \<Rightarrow> code_db \<Rightarrow> string list option \<times> code_db" where
  "regenerate_for_user hash_password user_id draws ids db =
     (let codes = take NUM_CODES draws
      in case hash_all hash_password codes of
           None \<Rightarrow> (None, db)
         | Some hashes \<Rightarrow>
             (Some codes, clear_for_user user_id db @
                map (\<lambda>(i, h). \<lparr>rc_id = i, rc_user_id = user_id, rc_hash = h, rc_used_at = None\<rparr>)
                  (zip ids hashes)))"

text \<open>The \<open>SELECT\<close> with the comparison loop: the identifier of the first matching unused row.\<close>

definition select_match :: "(string \<Rightarrow> string \<Rightarrow> bool) \<Rightarrow> uuid \<Rightarrow> string \<Rightarrow> code_db \<Rightarrow> uuid option" where
  "select_match verify_password user_id candidate db =
     map_option rc_id (find (\<lambda>r. verify_password candidate (rc_hash r))
       (filter (\<lambda>r. rc_user_id r = user_id \<and> rc_used_at r = None) db))"

text \<open>The guarded \<open>UPDATE\<close>: the number of rows it changed, and the table after it.\<close>

definition mark_row :: "uuid \<Rightarrow> time \<Rightarrow> code_row \<Rightarrow> code_row" where
  "mark_row i now r = (if rc_id r = i \<and> rc_used_at r = None then r\<lparr>rc_used_at := Some now\<rparr> else r)"

definition mark_used :: "uuid \<Rightarrow> time \<Rightarrow> code_db \<Rightarrow> nat \<times> code_db" where
  "mark_used i now db =
     (length (filter (\<lambda>r. rc_id r = i \<and> rc_used_at r = None) db), map (mark_row i now) db)"

definition redeem_code ::
    "(string \<Rightarrow> string) \<Rightarrow> (string \<Rightarrow> string \<Rightarrow> bool) \<Rightarrow> uuid \<Rightarrow> string \<Rightarrow> time \<Rightarrow> code_db \<Rightarrow> bool \<times> code_db" where
  "redeem_code to_uppercase verify_password user_id candidate now db =
     (case select_match verify_password user_id (normalise to_uppercase candidate) db of
        None \<Rightarrow> (False, db)
      | Some i \<Rightarrow> (let (n, db') = mark_used i now db in (n = 1, db')))"

section \<open>Concurrent redemptions\<close>

text \<open>
  A request is waiting to select, holds the identifier it selected, or is done with its answer. One
  step of the system is one statement of one request, or a new request arriving.
\<close>

datatype request_state = Selecting uuid string | Updating uuid | Done uuid bool | Missed

record redeem_system =
  rs_db :: code_db
  rs_requests :: "request_state list"

inductive redeem_steps ::
    "(string \<Rightarrow> string \<Rightarrow> bool) \<Rightarrow> redeem_system \<Rightarrow> redeem_system \<Rightarrow> bool" for verify_password where
  arrive: "redeem_steps verify_password s (s\<lparr>rs_requests := rs_requests s @ [Selecting u c]\<rparr>)"
| select: "k < length (rs_requests s) \<Longrightarrow> rs_requests s ! k = Selecting u c \<Longrightarrow>
     select_match verify_password u c (rs_db s) = Some i \<Longrightarrow>
     redeem_steps verify_password s (s\<lparr>rs_requests := (rs_requests s)[k := Updating i]\<rparr>)"
| miss: "k < length (rs_requests s) \<Longrightarrow> rs_requests s ! k = Selecting u c \<Longrightarrow>
     select_match verify_password u c (rs_db s) = None \<Longrightarrow>
     redeem_steps verify_password s (s\<lparr>rs_requests := (rs_requests s)[k := Missed]\<rparr>)"
| update: "k < length (rs_requests s) \<Longrightarrow> rs_requests s ! k = Updating i \<Longrightarrow>
     mark_used i now (rs_db s) = (n, db') \<Longrightarrow>
     redeem_steps verify_password s
       (s\<lparr>rs_db := db', rs_requests := (rs_requests s)[k := Done i (n = 1)]\<rparr>)"

inductive_cases redeem_stepsE: "redeem_steps verify_password s s'"

definition accepted :: "uuid \<Rightarrow> redeem_system \<Rightarrow> nat" where
  "accepted i s = length (filter (\<lambda>r. r = Done i True) (rs_requests s))"

definition ids_distinct :: "code_db \<Rightarrow> bool" where
  "ids_distinct db \<longleftrightarrow> distinct (map rc_id db)"

definition code_used :: "code_db \<Rightarrow> uuid \<Rightarrow> bool" where
  "code_used db i \<longleftrightarrow> (\<exists>r \<in> set db. rc_id r = i \<and> rc_used_at r \<noteq> None)"

section \<open>Lemmas\<close>

lemma mark_row_fields [simp]:
  "rc_id (mark_row i now r) = rc_id r"
  "rc_used_at (mark_row i now r) = None \<longleftrightarrow> rc_used_at r = None \<and> rc_id r \<noteq> i"
  by (auto simp: mark_row_def)

lemma mark_used_ids [simp]: "map rc_id (snd (mark_used i now db)) = map rc_id db"
  by (simp add: mark_used_def)

lemma count_by_key:
  "distinct (map f xs) \<Longrightarrow>
     length (filter (\<lambda>x. f x = a \<and> P x) xs) = (if \<exists>x \<in> set xs. f x = a \<and> P x then 1 else 0)"
proof (induction xs)
  case (Cons x xs)
  have "f x = a \<Longrightarrow> \<forall>y \<in> set xs. f y \<noteq> a" using Cons.prems by (auto simp: image_iff)
  then show ?case using Cons by auto
qed simp

lemma mark_used_count:
  assumes "ids_distinct db" and "mark_used i now db = (n, db')"
  shows "n = (if \<exists>r \<in> set db. rc_id r = i \<and> rc_used_at r = None then 1 else 0)"
  using assms count_by_key [of rc_id db i "\<lambda>r. rc_used_at r = None"]
  by (simp add: ids_distinct_def mark_used_def)

lemma mark_used_used:
  assumes "mark_used i now db = (n, db')"
  shows "code_used db j \<Longrightarrow> code_used db' j" and "n \<noteq> 0 \<Longrightarrow> code_used db' i"
proof -
  have db': "set db' = mark_row i now ` set db"
    and n: "n = length (filter (\<lambda>r. rc_id r = i \<and> rc_used_at r = None) db)"
    using assms by (auto simp: mark_used_def)
  have mk: "code_used db' (rc_id r)" if "r \<in> set db" "rc_used_at r \<noteq> None \<or> rc_id r = i" for r
  proof -
    have "mark_row i now r \<in> set db'" using that(1) db' by simp
    moreover have "rc_used_at (mark_row i now r) \<noteq> None"
      using that(2) mark_row_fields(2) [of i now r] by simp
    ultimately show ?thesis unfolding code_used_def using mark_row_fields(1) [of i now r] by (rule_tac bexI) simp_all
  qed
  show "code_used db j \<Longrightarrow> code_used db' j" using mk by (auto simp: code_used_def [of db])
  assume "n \<noteq> 0"
  then obtain r where "r \<in> set db" "rc_id r = i" unfolding n by (auto simp: filter_empty_conv)
  then show "code_used db' i" using mk by auto
qed

lemma not_used_and_free:
  "ids_distinct db \<Longrightarrow> code_used db i \<Longrightarrow> \<not> (\<exists>r \<in> set db. rc_id r = i \<and> rc_used_at r = None)"
  by (auto simp: ids_distinct_def code_used_def distinct_map inj_on_def)

text \<open>The invariant of the concurrent system.\<close>

definition redeem_inv :: "redeem_system \<Rightarrow> bool" where
  "redeem_inv s \<longleftrightarrow> ids_distinct (rs_db s) \<and>
     (\<forall>i. accepted i s \<le> 1 \<and> (accepted i s = 1 \<longrightarrow> code_used (rs_db s) i))"

lemma accepted_update:
  assumes "k < length xs" and "\<not> P (xs ! k)"
  shows "length (filter P (xs[k := y])) = length (filter P xs) + (if P y then 1 else 0)"
  using assms
proof (induction xs arbitrary: k)
  case (Cons x xs)
  then show ?case by (cases k) auto
qed simp

lemma redeem_inv_step:
  assumes "redeem_inv s" and "redeem_steps vp s s'"
  shows "redeem_inv s'"
  using assms(2)
proof (cases rule: redeem_steps.cases)
  case (update k i now n db')
  have d: "ids_distinct (rs_db s)" using assms(1) by (simp add: redeem_inv_def)
  have d': "ids_distinct db'"
    using d mark_used_ids [of i now "rs_db s"] update(4) by (simp add: ids_distinct_def)
  have acc: "accepted j s' = accepted j s + (if n = 1 \<and> j = i then 1 else 0)" for j
    using update(1) accepted_update [OF update(2), of "\<lambda>r. r = Done j True" "Done i (n = 1)"] update(3)
    by (auto simp: accepted_def)
  have "accepted j s' \<le> 1 \<and> (accepted j s' = 1 \<longrightarrow> code_used db' j)" for j
  proof (cases "n = 1 \<and> j = i")
    case True
    then have "\<exists>r \<in> set (rs_db s). rc_id r = i \<and> rc_used_at r = None"
      using mark_used_count [OF d update(4)] by (metis zero_neq_one)
    then have "\<not> code_used (rs_db s) i" using not_used_and_free [OF d, of i] by auto
    moreover have "accepted i s \<le> 1 \<and> (accepted i s = 1 \<longrightarrow> code_used (rs_db s) i)"
      using assms(1) by (simp add: redeem_inv_def)
    ultimately have "accepted i s = 0" by linarith
    then show ?thesis using acc True mark_used_used(2) [OF update(4)] by simp
  next
    case False
    then show ?thesis using acc assms(1) mark_used_used(1) [OF update(4)] by (auto simp: redeem_inv_def)
  qed
  then show ?thesis using d' update(1) by (simp add: redeem_inv_def)
qed (use assms(1) in \<open>auto simp: redeem_inv_def accepted_def accepted_update\<close>)

lemma redeem_inv_reachable:
  assumes "(redeem_steps vp)\<^sup>*\<^sup>* s s'" and "redeem_inv s"
  shows "redeem_inv s'"
  using assms by (induction rule: rtranclp_induct) (auto intro: redeem_inv_step)

section \<open>Sequential use\<close>

definition row_spent :: "code_db \<Rightarrow> uuid \<Rightarrow> bool" where
  "row_spent db i \<longleftrightarrow> \<not> (\<exists>r \<in> set db. rc_id r = i \<and> rc_used_at r = None)"

definition redeem_step ::
    "(string \<Rightarrow> string) \<Rightarrow> (string \<Rightarrow> string \<Rightarrow> bool) \<Rightarrow> uuid \<times> string \<times> time \<Rightarrow> code_db \<Rightarrow> uuid option \<times> code_db" where
  "redeem_step to_uppercase verify_password req db =
     (case req of (user_id, candidate, now) \<Rightarrow>
        (let (ok, db') = redeem_code to_uppercase verify_password user_id candidate now db
         in (if ok then select_match verify_password user_id (normalise to_uppercase candidate) db else None, db')))"

lemma mark_used_spent:
  assumes "mark_used i now db = (n, db')"
  shows "row_spent db j \<Longrightarrow> row_spent db' j" and "row_spent db' i" and "n \<noteq> 0 \<Longrightarrow> \<not> row_spent db i"
proof -
  have db': "set db' = mark_row i now ` set db"
    and n: "n = length (filter (\<lambda>r. rc_id r = i \<and> rc_used_at r = None) db)"
    using assms by (auto simp: mark_used_def)
  show "row_spent db j \<Longrightarrow> row_spent db' j" unfolding row_spent_def db' by auto
  show "row_spent db' i" unfolding row_spent_def db' by auto
  show "n \<noteq> 0 \<Longrightarrow> \<not> row_spent db i" unfolding row_spent_def n by (auto simp: filter_empty_conv)
qed

interpretation recovery: single_use "redeem_step to_uppercase verify_password" row_spent
  for to_uppercase verify_password
proof
  fix op db k db'
  assume "redeem_step to_uppercase verify_password op db = (Some k, db')"
  then obtain now n where "mark_used k now db = (n, db')" "n = 1"
    by (auto simp: redeem_step_def redeem_code_def split: prod.splits if_splits option.splits)
  then show "\<not> row_spent db k \<and> row_spent db' k" using mark_used_spent by fastforce
next
  fix op db r db' k
  assume "redeem_step to_uppercase verify_password op db = (r, db')" "row_spent db k"
  then show "row_spent db' k"
    by (auto simp: redeem_step_def redeem_code_def split: prod.splits if_splits option.splits
        dest: mark_used_spent(1))
qed

text \<open>A batch of freshly generated rows.\<close>

lemma hash_all_Some: "hash_all hp cs = Some hs \<Longrightarrow> length hs = length cs \<and> (\<forall>k < length cs. hp (cs ! k) = Some (hs ! k))"
proof (induction cs arbitrary: hs)
  case (Cons c cs)
  then obtain h hs' where "hp c = Some h" "hash_all hp cs = Some hs'" "hs = h # hs'"
    by (auto split: option.splits)
  then show ?case using Cons.IH [of hs'] by (auto simp: nth_Cons split: nat.split)
qed simp

lemma select_match_Some_iff:
  "(\<exists>i. select_match vp u c db = Some i) \<longleftrightarrow>
     (\<exists>r \<in> set db. rc_user_id r = u \<and> rc_used_at r = None \<and> vp c (rc_hash r))"
proof -
  have "select_match vp u c db = None \<longleftrightarrow>
      \<not> (\<exists>r \<in> set db. rc_user_id r = u \<and> rc_used_at r = None \<and> vp c (rc_hash r))"
    by (auto simp: select_match_def find_None_iff)
  then show ?thesis by auto
qed

lemma redeem_code_iff:
  assumes "ids_distinct db"
  shows "fst (redeem_code up vp u c now db) \<longleftrightarrow>
    (\<exists>r \<in> set db. rc_user_id r = u \<and> rc_used_at r = None \<and> vp (normalise up c) (rc_hash r))"
proof (cases "select_match vp u (normalise up c) db")
  case None
  then show ?thesis using select_match_Some_iff [of vp u "normalise up c" db] by (simp add: redeem_code_def)
next
  case (Some i)
  then have "\<exists>r \<in> set db. rc_id r = i \<and> rc_used_at r = None"
    by (auto simp: select_match_def dest!: find_Some_splitD) (metis (mono_tags, lifting) filter_eq_ConsD in_set_conv_decomp mem_Collect_eq set_filter)
  then have "fst (mark_used i now db) = 1"
    using mark_used_count [OF assms, of i now "fst (mark_used i now db)" "snd (mark_used i now db)"] by simp
  then show ?thesis
    using Some select_match_Some_iff [of vp u "normalise up c" db] by (auto simp: redeem_code_def split: prod.splits)
qed

section \<open>Properties\<close>

text \<open>
  A recovery code is burnt by one request even under a race: whatever the interleaving of the
  select and update statements of concurrent redemptions, at most one request per code row answers
  yes, and the row is then marked used.
\<close>

theorem recovery_code_race_free:
  assumes "(redeem_steps verify_password)\<^sup>*\<^sup>* \<lparr>rs_db = db, rs_requests = []\<rparr> s" and "ids_distinct db"
  shows "accepted i s \<le> 1 \<and> (accepted i s = 1 \<longrightarrow> code_used (rs_db s) i)"
proof -
  have "redeem_inv \<lparr>rs_db = db, rs_requests = []\<rparr>" using assms(2) by (simp add: redeem_inv_def accepted_def)
  then show ?thesis using redeem_inv_reachable [OF assms(1)] by (simp add: redeem_inv_def)
qed

theorem recovery_code_race_free_witness:
  "(redeem_steps (=))\<^sup>*\<^sup>* \<lparr>rs_db = [\<lparr>rc_id = ''i'', rc_user_id = ''u'', rc_hash = ''C'', rc_used_at = None\<rparr>],
       rs_requests = []\<rparr>
     \<lparr>rs_db = [\<lparr>rc_id = ''i'', rc_user_id = ''u'', rc_hash = ''C'', rc_used_at = Some 1\<rparr>],
       rs_requests = [Done ''i'' True]\<rparr> \<and>
   code_used [\<lparr>rc_id = ''i'', rc_user_id = ''u'', rc_hash = ''C'', rc_used_at = Some 1\<rparr>] ''i''"
proof -
  let ?row = "\<lambda>t. \<lparr>rc_id = ''i'', rc_user_id = ''u'', rc_hash = ''C'', rc_used_at = t\<rparr>"
  have 1: "redeem_steps (=) \<lparr>rs_db = [?row None], rs_requests = []\<rparr>
      \<lparr>rs_db = [?row None], rs_requests = [Selecting ''u'' ''C'']\<rparr>"
    using redeem_steps.arrive [of "(=)" "\<lparr>rs_db = [?row None], rs_requests = []\<rparr>" "''u''" "''C''"] by simp
  have 2: "redeem_steps (=) \<lparr>rs_db = [?row None], rs_requests = [Selecting ''u'' ''C'']\<rparr>
      \<lparr>rs_db = [?row None], rs_requests = [Updating ''i'']\<rparr>"
    using redeem_steps.select [of 0 "\<lparr>rs_db = [?row None], rs_requests = [Selecting ''u'' ''C'']\<rparr>"
        "''u''" "''C''" "(=)" "''i''"] by (simp add: select_match_def)
  have 3: "redeem_steps (=) \<lparr>rs_db = [?row None], rs_requests = [Updating ''i'']\<rparr>
      \<lparr>rs_db = [?row (Some 1)], rs_requests = [Done ''i'' True]\<rparr>"
    using redeem_steps.update [of 0 "\<lparr>rs_db = [?row None], rs_requests = [Updating ''i'']\<rparr>"
        "''i''" 1 1 "[?row (Some 1)]" "(=)"] by (simp add: mark_used_def mark_row_def)
  have all: "(redeem_steps (=))\<^sup>*\<^sup>* \<lparr>rs_db = [?row None], rs_requests = []\<rparr>
      \<lparr>rs_db = [?row (Some 1)], rs_requests = [Done ''i'' True]\<rparr>"
    using 1 2 3 by (meson converse_rtranclp_into_rtranclp rtranclp.rtrancl_refl)
  from recovery_code_race_free [OF all, of "''i''"] show ?thesis
    using all by (simp add: ids_distinct_def accepted_def)
qed

text \<open>
  A freshly generated batch works, each code once: with a hash that verifies exactly the code it
  was made from, every code of the batch is accepted, nothing else is (older codes of the user
  included), and no code row is honoured twice.
\<close>

theorem regenerated_codes_redeem:
  assumes "regenerate_for_user hash_password user draws ids db = (Some codes, db1)"
    and "\<And>c h c'. hash_password c = Some h \<Longrightarrow> verify_password c' h \<longleftrightarrow> c' = c"
    and "length ids = NUM_CODES" and "length draws = NUM_CODES" and "ids_distinct db1"
  shows "codes = draws \<and>
    (fst (redeem_code to_uppercase verify_password user candidate now db1) \<longleftrightarrow>
       normalise to_uppercase candidate \<in> set codes) \<and>
    distinct (honoured (redeem_step to_uppercase verify_password) reqs db1)"
proof -
  from assms(1) obtain hs where c: "codes = draws" and h: "hash_all hash_password draws = Some hs"
    and db1: "db1 = clear_for_user user db @
      map (\<lambda>(i, h). \<lparr>rc_id = i, rc_user_id = user, rc_hash = h, rc_used_at = None\<rparr>) (zip ids hs)"
    using assms(4) by (auto simp: regenerate_for_user_def Let_def split: option.splits)
  note hs = hash_all_Some [OF h]
  have rows: "(\<exists>r \<in> set db1. rc_user_id r = user \<and> rc_used_at r = None \<and> verify_password x (rc_hash r)) \<longleftrightarrow>
      (\<exists>h \<in> set hs. verify_password x h)" for x
  proof -
    have "length ids = length hs" using assms(3,4) hs by simp
    then have hs_zip: "set hs = snd ` set (zip ids hs)" by (metis map_snd_zip set_map)
    have "\<not> (\<exists>r \<in> set (clear_for_user user db). rc_user_id r = user \<and> rc_used_at r = None \<and>
        verify_password x (rc_hash r))"
      by (simp add: clear_for_user_def)
    then have "(\<exists>r \<in> set db1. rc_user_id r = user \<and> rc_used_at r = None \<and> verify_password x (rc_hash r)) \<longleftrightarrow>
        (\<exists>p \<in> set (zip ids hs). verify_password x (snd p))"
      unfolding db1 set_append bex_Un set_map bex_simps(7)
      by (simp only: case_prod_unfold simp_thms code_row.simps)
    also have "\<dots> \<longleftrightarrow> (\<exists>h \<in> set hs. verify_password x h)" unfolding hs_zip by (rule bex_simps(7) [symmetric])
    finally show ?thesis .
  qed
  have "(\<exists>h \<in> set hs. verify_password x h) \<longleftrightarrow> x \<in> set draws" for x
  proof -
    have "verify_password x (hs ! k) \<longleftrightarrow> x = draws ! k" if "k < length draws" for k
      using assms(2) hs that by blast
    then show ?thesis using hs by (auto simp: in_set_conv_nth Bex_def)
  qed
  then show ?thesis
    using c redeem_code_iff [OF assms(5)] rows recovery.honoured_distinct by simp
qed

theorem regenerated_codes_redeem_witness:
  "fst (redeem_code id (=) ''u'' ''A'' 5
     (snd (regenerate_for_user Some ''u'' (replicate 9 ''B'' @ [''A'']) (map (\<lambda>n. replicate n CHR ''i'') [0..<10]) [])))"
proof -
  let ?ids = "map (\<lambda>n. replicate n CHR ''i'') [0..<10]"
  let ?draws = "replicate 9 ''B'' @ [''A'']"
  have r: "regenerate_for_user Some ''u'' ?draws ?ids [] =
      (Some ?draws, snd (regenerate_for_user Some ''u'' ?draws ?ids []))"
    by (simp add: regenerate_for_user_def NUM_CODES_def numeral_eq_Suc)
  have d: "ids_distinct (snd (regenerate_for_user Some ''u'' ?draws ?ids []))"
    by (simp add: regenerate_for_user_def NUM_CODES_def numeral_eq_Suc ids_distinct_def clear_for_user_def)
  have n: "normalise id ''A'' = ''A''" by code_simp
  from regenerated_codes_redeem [OF r, of "(=)" id "''A''" 5 "[]"] d show ?thesis
    by (simp add: NUM_CODES_def n)
qed

end
