(* ===== verification/Totp.thy ===== *)
theory Totp
  imports Recovery_Codes
begin

text \<open>
  Models \<^verbatim>\<open>crates/starstats-server/src/totp.rs\<close>: the acceptance window of a one-time code and the
  provisioning URI. \<open>totp_custom\<close> (the \<open>totp_lite\<close> crate) and the Base32 encoder are parameters.
\<close>

section \<open>Model\<close>

unbundle bit_operations_syntax

definition STEP_SECS :: u64 where
  "STEP_SECS = 30"

definition DIGITS :: nat where
  "DIGITS = 6"

type_synonym totp_custom = "u64 \<Rightarrow> nat \<Rightarrow> string \<Rightarrow> u64 \<Rightarrow> string"

definition code_at :: "totp_custom \<Rightarrow> string \<Rightarrow> u64 \<Rightarrow> string" where
  "code_at totp secret unix_seconds = totp STEP_SECS DIGITS secret unix_seconds"

definition saturating_sub :: "u64 \<Rightarrow> u64 \<Rightarrow> u64" where
  "saturating_sub a b = (if a < b then 0 else a - b)"

definition saturating_add :: "u64 \<Rightarrow> u64 \<Rightarrow> u64" where
  "saturating_add a b = (if unat a + unat b < 2 ^ 64 then a + b else - 1)"

text \<open>The loop ORs the differences of all byte pairs together and looks at the result once.\<close>

definition byte :: "char \<Rightarrow> u8" where
  "byte c = of_nat (of_char c)"

definition constant_time_eq :: "string \<Rightarrow> string \<Rightarrow> bool" where
  "constant_time_eq a b =
     (if length a \<noteq> length b then False
      else foldl (\<lambda>diff (x, y). diff OR (byte x XOR byte y)) 0 (zip a b) = 0)"

fun slot_time :: "u64 \<Rightarrow> int \<Rightarrow> u64" where
  "slot_time unix_seconds offset =
     (if offset < 0 then saturating_sub unix_seconds STEP_SECS
      else if offset = 0 then unix_seconds
      else saturating_add unix_seconds STEP_SECS)"

definition verify_at :: "totp_custom \<Rightarrow> string \<Rightarrow> string \<Rightarrow> u64 \<Rightarrow> bool" where
  "verify_at totp secret candidate unix_seconds =
     (let candidate = strip_ws_from 0 candidate
      in if length candidate \<noteq> DIGITS \<or> \<not> list_all is_ascii_digit candidate then False
         else list_ex (\<lambda>offset. constant_time_eq (code_at totp secret (slot_time unix_seconds offset)) candidate) [-1, 0, 1])"

subsection \<open>Provisioning URI\<close>

definition is_unreserved :: "char \<Rightarrow> bool" where
  "is_unreserved c \<longleftrightarrow>
     (CHR ''a'' \<le> c \<and> c \<le> CHR ''z'') \<or> (CHR ''A'' \<le> c \<and> c \<le> CHR ''Z'') \<or> is_ascii_digit c \<or>
     c \<in> set ''-._~''"

definition hex_digit :: "nat \<Rightarrow> char" where
  "hex_digit n = ''0123456789ABCDEF'' ! n"

definition encode_byte :: "char \<Rightarrow> string" where
  "encode_byte c =
     (if is_unreserved c then [c]
      else [CHR ''%'', hex_digit (of_char c div 16), hex_digit (of_char c mod 16)])"

definition encode_uri_segment :: "string \<Rightarrow> string" where
  "encode_uri_segment seg = concat (map encode_byte seg)"

definition provisioning_uri :: "string \<Rightarrow> string \<Rightarrow> string \<Rightarrow> string" where
  "provisioning_uri secret_b32 issuer username =
     ''otpauth://totp/'' @ encode_uri_segment (issuer @ '':'' @ username) @ ''?secret='' @ secret_b32 @
     ''&issuer='' @ encode_uri_segment issuer @ ''&algorithm=SHA1&digits=6&period=30''"

section \<open>Lemmas\<close>

lemma foldl_OR_zero:
  "foldl (\<lambda>diff (x, y). diff OR (f x y)) (d :: u8) ps = 0 \<longleftrightarrow> d = 0 \<and> (\<forall>(x, y) \<in> set ps. f x y = 0)"
  by (induction ps arbitrary: d) (auto simp: or_eq_0_iff)

lemma byte_inj: "byte x = byte y \<longleftrightarrow> x = y"
proof
  assume "byte x = byte y"
  then have "(of_char x :: nat) mod 2 ^ 8 = of_char y mod 2 ^ 8"
    by (simp add: byte_def word_of_nat_eq_iff take_bit_eq_mod)
  then have "(of_char x :: nat) = of_char y" using nat_of_char_less_256 [of x] nat_of_char_less_256 [of y] by simp
  then show "x = y" by simp
qed simp

lemma xor_zero: "(a :: u8) XOR b = 0 \<longleftrightarrow> a = b"
  by (metis xor.assoc xor.right_neutral xor_self_eq)

text \<open>
  The comparison without an early exit decides equality.
\<close>

theorem constant_time_eq_iff: "constant_time_eq a b \<longleftrightarrow> a = b"
proof (cases "length a = length b")
  case True
  have "constant_time_eq a b \<longleftrightarrow> (\<forall>(x, y) \<in> set (zip a b). x = y)"
    using True by (simp add: constant_time_eq_def foldl_OR_zero xor_zero byte_inj)
  also have "\<dots> \<longleftrightarrow> a = b"
    using True by (induction a b rule: list_induct2) auto
  finally show ?thesis .
qed (auto simp: constant_time_eq_def)

text \<open>The window: a code of six digits, white space aside, that is the code of one of three instants.\<close>

lemma verify_at_iff:
  "verify_at totp secret candidate t \<longleftrightarrow>
     length (strip_ws_from 0 candidate) = 6 \<and> list_all is_ascii_digit (strip_ws_from 0 candidate) \<and>
     strip_ws_from 0 candidate \<in> {code_at totp secret (saturating_sub t 30), code_at totp secret t,
       code_at totp secret (saturating_add t 30)}"
  by (auto simp: verify_at_def Let_def constant_time_eq_iff DIGITS_def STEP_SECS_def)

lemma unat_saturating:
  "unat (saturating_sub t 30) = unat t - 30"
  "unat (saturating_add t 30) = min (unat t + 30) (2 ^ 64 - 1)"
proof -
  show "unat (saturating_sub t 30) = unat t - 30"
    by (cases "t < 30") (simp_all add: saturating_sub_def word_less_nat_alt unat_sub_if' not_less word_le_nat_alt)
  show "unat (saturating_add t 30) = min (unat t + 30) (2 ^ 64 - 1)"
    using unsigned_less [of t, where 'a = nat] by (auto simp: saturating_add_def unat_word_ariths unsigned_minus_1_eq_mask mask_eq_exp_minus_1 min_def)
qed

text \<open>
  C39. The skew window is exactly three slots: with a time-step code as RFC 6238 defines it (a function
  of the number of whole steps), a well-formed candidate is accepted exactly when it is the code of
  the current, the previous or the next slot; at the two ends of the clock the missing neighbour
  falls together with an existing slot, and nothing wraps.
\<close>

theorem verify_at_three_slots:
  assumes "\<And>d k t. totp STEP_SECS d k t = hotp d k (unat t div 30)"
  shows "verify_at totp secret candidate t \<longleftrightarrow>
    length (strip_ws_from 0 candidate) = 6 \<and> list_all is_ascii_digit (strip_ws_from 0 candidate) \<and>
    (\<exists>slot. int slot - int (unat t div 30) \<in> {-1, 0, 1} \<and> slot \<le> (2 ^ 64 - 1) div 30 \<and>
       strip_ws_from 0 candidate = hotp 6 secret slot)"
proof -
  have c: "code_at totp secret u = hotp 6 secret (unat u div 30)" for u
    using assms by (simp add: code_at_def DIGITS_def)
  define s where "s = unat t div 30"
  define m :: nat where "m = (2 ^ 64 - 1) div 30"
  have "unat t \<le> 2 ^ 64 - 1" using unsigned_less [of t, where 'a = nat] by simp
  then have sm: "s \<le> m" unfolding s_def m_def by (rule div_le_mono)
  have "(unat t - 30) div 30 = s - 1" by (cases "30 \<le> unat t") (simp_all add: s_def le_div_geq)
  moreover have "min (unat t + 30) (2 ^ 64 - 1) div 30 = min (s + 1) m"
    by (subst min_of_mono [of "\<lambda>x. x div 30", symmetric]) (simp_all add: s_def m_def mono_def div_le_mono)
  ultimately have "verify_at totp secret candidate t \<longleftrightarrow>
    length (strip_ws_from 0 candidate) = 6 \<and> list_all is_ascii_digit (strip_ws_from 0 candidate) \<and>
    (\<exists>slot \<in> {s - 1, s, min (s + 1) m}. strip_ws_from 0 candidate = hotp 6 secret slot)"
    by (simp only: verify_at_iff c unat_saturating s_def) auto
  moreover have "slot \<in> {s - 1, s, min (s + 1) m} \<longleftrightarrow> int slot - int s \<in> {-1, 0, 1} \<and> slot \<le> m" for slot
    using sm by auto
  ultimately show ?thesis unfolding s_def [symmetric] m_def [symmetric] by blast
qed

theorem verify_at_three_slots_witness:
  "verify_at (\<lambda>step d k t. if unat t div 30 = 2 then ''123456'' else ''000000'') ''secret'' '' 123 456'' 95"
proof -
  have "strip_ws_from 0 '' 123 456'' = ''123456''" "list_all is_ascii_digit ''123456''" by code_simp+
  then show ?thesis
    using verify_at_three_slots [of "\<lambda>step d k t. if unat t div 30 = 2 then ''123456'' else ''000000''"
      "\<lambda>d k slot. if slot = 2 then ''123456'' else ''000000''" "''secret''" "'' 123 456''" 95]
    by (auto intro!: exI [of _ 2])
qed

section \<open>Percent encoding\<close>

definition hex_val :: "char \<Rightarrow> nat" where
  "hex_val c = (if is_ascii_digit c then of_char c - 48 else of_char c - 55)"

text \<open>A reader of percent-encoded text.\<close>

fun percent_decode :: "string \<Rightarrow> string" where
  "percent_decode [] = []"
| "percent_decode (c # cs) =
     (case cs of
        h # l # rest \<Rightarrow>
          if c = CHR ''%'' then char_of (16 * hex_val h + hex_val l) # percent_decode rest else c # percent_decode cs
      | _ \<Rightarrow> c # percent_decode cs)"

lemma char_nibbles: "(of_char c :: nat) div 16 < 16" "(of_char c :: nat) mod 16 < 16"
  using nat_of_char_less_256 [of c] by (simp_all add: less_mult_imp_div_less)

lemma hex_digit_val: "n < 16 \<Longrightarrow> hex_val (hex_digit n) = n"
proof -
  assume "n < 16"
  then have "n \<in> set [0..<16]" by simp
  moreover have "list_all (\<lambda>n. hex_val (hex_digit n) = n) [0..<16]" by code_simp
  ultimately show ?thesis unfolding list_all_iff by blast
qed

lemma hex_digit_unreserved: "n < 16 \<Longrightarrow> is_unreserved (hex_digit n)"
proof -
  assume "n < 16"
  then have "n \<in> set [0..<16]" by simp
  moreover have "list_all (\<lambda>n. is_unreserved (hex_digit n)) [0..<16]" by code_simp
  ultimately show ?thesis unfolding list_all_iff by blast
qed

lemma percent_decode_plain: "c \<noteq> CHR ''%'' \<Longrightarrow> percent_decode (c # cs) = c # percent_decode cs"
  by (simp split: list.split)

lemma percent_not_unreserved: "\<not> is_unreserved CHR ''%''"
  by code_simp

lemma percent_decode_byte: "percent_decode (encode_byte c @ cs) = c # percent_decode cs"
proof (cases "is_unreserved c")
  case True
  then have "c \<noteq> CHR ''%''" using percent_not_unreserved by blast
  then show ?thesis using True by (simp add: encode_byte_def percent_decode_plain del: percent_decode.simps)
next
  case False
  then show ?thesis using char_nibbles [of c] by (simp add: encode_byte_def hex_digit_val)
qed

text \<open>
  Encoding a segment loses nothing and cannot break out of it: decoding gives the segment back, and
  the encoded text consists of unreserved characters and percent signs only, so no user name can
  introduce a separator of the URI.
\<close>

theorem encode_uri_segment_safe:
  "percent_decode (encode_uri_segment seg) = seg \<and>
   list_all (\<lambda>c. is_unreserved c \<or> c = CHR ''%'') (encode_uri_segment seg)"
proof (induction seg)
  case (Cons c seg)
  note nibbles = char_nibbles [of c]
  have "list_all (\<lambda>c. is_unreserved c \<or> c = CHR ''%'') (encode_byte c)"
    using nibbles by (simp add: encode_byte_def hex_digit_unreserved)
  then show ?case using Cons by (simp add: encode_uri_segment_def percent_decode_byte)
qed (simp add: encode_uri_segment_def)

end
