(* ===== verification/Magic_Link.thy ===== *)
theory Magic_Link
  imports Single_Use
begin

text \<open>
  Models \<^verbatim>\<open>crates/starstats-server/src/magic_link.rs\<close>: issuing and redeeming sign-in tokens. A redemption
  is one \<open>UPDATE ... RETURNING\<close>; the drawn token and the clock are arguments. Issuing under a token
  that is already in the table violates its primary key and leaves the table alone.
\<close>

section \<open>Model\<close>

definition MAGIC_LINK_TTL :: time where
  "MAGIC_LINK_TTL = 15 * 60"

datatype magic_link_error = MagicDatabase string

record magic_row =
  mr_user_id :: uuid
  mr_expires_at :: time
  mr_consumed_at :: "time option"

type_synonym magic_db = "string \<rightharpoonup> magic_row"

definition issue :: "uuid \<Rightarrow> time \<Rightarrow> string \<Rightarrow> magic_db \<Rightarrow> (magic_link_error + string) \<times> magic_db" where
  "issue user_id now token db =
     (if db token \<noteq> None then (Inl (MagicDatabase ''unique violation''), db)
      else (Inr token, db(token \<mapsto> \<lparr>mr_user_id = user_id, mr_expires_at = now + MAGIC_LINK_TTL,
              mr_consumed_at = None\<rparr>)))"

definition redeem_link :: "string \<Rightarrow> time \<Rightarrow> magic_db \<Rightarrow> uuid option \<times> magic_db" where
  "redeem_link token now db =
     (case db token of
        Some row \<Rightarrow>
          if mr_consumed_at row = None \<and> mr_expires_at row > now
          then (Some (mr_user_id row), db(token \<mapsto> row\<lparr>mr_consumed_at := Some now\<rparr>))
          else (None, db)
      | None \<Rightarrow> (None, db))"

datatype magic_op = Issue uuid time string | RedeemLink string time

fun magic_step :: "magic_op \<Rightarrow> magic_db \<Rightarrow> string option \<times> magic_db" where
  "magic_step (Issue u now token) db = (None, snd (issue u now token db))"
| "magic_step (RedeemLink token now) db =
     (case redeem_link token now db of
        (None, db') \<Rightarrow> (None, db')
      | (Some u, db') \<Rightarrow> (Some token, db'))"

section \<open>Lemmas\<close>

definition link_spent :: "magic_db \<Rightarrow> string \<Rightarrow> bool" where
  "link_spent db token = (case db token of None \<Rightarrow> False | Some r \<Rightarrow> mr_consumed_at r \<noteq> None)"

interpretation magic_links: single_use magic_step link_spent
proof
  fix op db k db'
  assume "magic_step op db = (Some k, db')"
  then show "\<not> link_spent db k \<and> link_spent db' k"
    by (cases op) (auto simp: redeem_link_def link_spent_def split: option.splits if_splits)
next
  fix op db r db' k
  assume "magic_step op db = (r, db')" "link_spent db k"
  then show "link_spent db' k"
    by (cases op) (auto simp: redeem_link_def issue_def link_spent_def split: option.splits if_splits)
qed

text \<open>A row keeps its owner and its expiry for ever.\<close>

lemma magic_step_row:
  "magic_step op db = (r, db') \<Longrightarrow> db token = Some row \<Longrightarrow>
     \<exists>row'. db' token = Some row' \<and> mr_user_id row' = mr_user_id row \<and> mr_expires_at row' = mr_expires_at row"
  by (cases op) (auto simp: redeem_link_def issue_def split: option.splits if_splits)

lemma run_all_row:
  assumes "db token = Some row"
  shows "\<exists>row'. run_all magic_step ops db token = Some row' \<and> mr_user_id row' = mr_user_id row \<and>
    mr_expires_at row' = mr_expires_at row"
  using assms
proof (induction ops arbitrary: db row)
  case (Cons op ops)
  obtain r db' where s: "magic_step op db = (r, db')" by fastforce
  from magic_step_row [OF s Cons.prems] obtain row' where "db' token = Some row'"
    "mr_user_id row' = mr_user_id row" "mr_expires_at row' = mr_expires_at row" by blast
  then show ?case using Cons.IH [of db' row'] s by (simp add: run_all_def)
qed (simp add: run_all_def)

section \<open>Properties\<close>

text \<open>
  A magic link signs in once, its owner, and in time: along any sequence of requests no token is
  honoured twice; after any requests a token issued at \<open>now\<close> can only be redeemed for the user it
  was issued to, before \<open>now\<close> plus fifteen minutes; and redeeming it right away succeeds.
\<close>

theorem magic_link_single_use:
  assumes "issue user now token db = (Inr token, db1)"
  shows "distinct (honoured magic_step ops db) \<and>
    (\<forall>u db2. redeem_link token t (run_all magic_step ops db1) = (Some u, db2) \<longrightarrow>
       u = user \<and> t < now + 15 * 60) \<and>
    fst (redeem_link token now db1) = Some user"
proof -
  have row: "db1 token = Some \<lparr>mr_user_id = user, mr_expires_at = now + 15 * 60, mr_consumed_at = None\<rparr>"
    using assms by (auto simp: issue_def MAGIC_LINK_TTL_def split: if_splits)
  obtain row' where "run_all magic_step ops db1 token = Some row'" "mr_user_id row' = user"
    "mr_expires_at row' = now + 15 * 60" using run_all_row [of db1 token, OF row] by auto
  then show ?thesis
    using row by (auto simp: redeem_link_def magic_links.honoured_distinct split: if_splits)
qed

theorem magic_link_single_use_witness:
  "fst (redeem_link ''t'' 5 (snd (issue ''u'' 5 ''t'' Map.empty))) = Some ''u''"
proof -
  have "issue ''u'' 5 ''t'' Map.empty = (Inr ''t'', snd (issue ''u'' 5 ''t'' Map.empty))"
    by (simp add: issue_def)
  from magic_link_single_use [OF this] show ?thesis by simp
qed

end
