(* ===== verification/Account_Routes.thy ===== *)
theory Account_Routes
  imports Users Totp Auth Magic_Link
begin

text \<open>
  Models the handlers of \<^verbatim>\<open>crates/starstats-server/src/auth_routes.rs\<close> over the tables they share. A
  handler takes the platform, the values the request draws (clock, identifiers, random tokens) and
  the state, and returns the reply and the new state; the extractor runs first for the handlers that
  take an \<open>AuthenticatedUser\<close>. Database failures other than the unique indexes, the SpiceDB write of
  sign-up and the timing sleeps are left out.
\<close>

section \<open>State\<close>

text \<open>Third-party code and the server's keys.\<close>

record platform =
  pf_lower :: "string \<Rightarrow> string"
  pf_to_lowercase :: "string \<Rightarrow> string"
  pf_to_uppercase :: "string \<Rightarrow> string"
  pf_parse_uuid :: "string \<Rightarrow> uuid option"
  pf_hasher :: hasher
  pf_totp :: totp_custom
  pf_base32 :: "string \<Rightarrow> string"
  pf_kek_encrypt :: "string \<Rightarrow> string \<Rightarrow> string option"
  pf_kek_decrypt :: "string \<Rightarrow> string \<Rightarrow> string option"
  pf_jwt :: jwt_lib
  pf_issuer :: token_issuer
  pf_verifier :: auth_verifier
  pf_sha256 :: "string \<Rightarrow> string"
  pf_to_vec :: "json \<Rightarrow> string"

text \<open>
  What one request draws and meets; \<open>dw_mail_ok\<close> says whether the mail relay takes the message, \<open>dw_refused\<close> which
  accounts the tables outside this state refuse to let go.
\<close>

record draws =
  dw_now :: time
  dw_id :: uuid
  dw_token :: string
  dw_secret :: string
  dw_nonce :: string
  dw_codes :: "string list"
  dw_ids :: "uuid list"
  dw_mail_ok :: bool
  dw_refused :: "uuid \<Rightarrow> bool"

datatype mail =
    VerificationMail string string string
  | PasswordResetMail string string string
  | EmailChangeMail string string string
  | MagicLinkMail string string string

record account_state =
  ac_users :: user_table
  ac_devices :: device_db
  ac_links :: magic_db
  ac_codes :: code_db
  ac_events :: event_table
  ac_audit :: audit_table
  ac_outbox :: "mail list"

datatype reply =
    Error nat string
  | AuthResponse string uuid string bool
  | VerifyEmailResponse string string
  | ChangePasswordResponse
  | ResendVerificationResponse
  | DeleteAccountResponse
  | MeResponse uuid string string bool "string option" bool bool
  | PasswordResetStartResponse
  | PasswordResetCompleteResponse
  | EmailChangeStartResponse string
  | EmailChangeVerifyResponse string
  | TotpSetupResponse string string string
  | TotpConfirmResponse "string list"
  | TotpDisableResponse
  | RegenerateRecoveryResponse "string list"
  | MagicLinkStartResponse
  | StartResponse string time string
  | RedeemResponse string uuid string
  | DeviceListResponse "device list"
  | NoContent
  | RsiStartResponse bool "string option" "time option" string
  | RsiVerifyResponse string

fun reply_status :: "reply \<Rightarrow> nat" where
  "reply_status (Error status code) = status"
| "reply_status NoContent = 204"
| "reply_status r = 200"

definition send_mail :: "draws \<Rightarrow> mail \<Rightarrow> account_state \<Rightarrow> account_state" where
  "send_mail d m st = (if dw_mail_ok d then st\<lparr>ac_outbox := ac_outbox st @ [m]\<rparr> else st)"

definition audit ::
    "platform \<Rightarrow> draws \<Rightarrow> user \<Rightarrow> string \<Rightarrow> json \<Rightarrow> account_state \<Rightarrow> bool \<times> account_state" where
  "audit pf d u action payload st =
     (let (ok, tbl) = append_entry (pf_sha256 pf) (pf_to_vec pf) (dw_now d)
            \<lparr>ae_actor_sub = Some (us_id u), ae_actor_handle = Some (us_claimed_handle u), ae_action = action,
             ae_payload = payload\<rparr> (ac_audit st)
      in (ok, st\<lparr>ac_audit := tbl\<rparr>))"

definition user_id_payload :: "user \<Rightarrow> json" where
  "user_id_payload u = JObject [(''user_id'', JString (us_id u))]"

text \<open>The extractor in front of a handler; every rejection is a 401.\<close>

definition with_auth ::
    "platform \<Rightarrow> draws \<Rightarrow> string option \<Rightarrow> account_state \<Rightarrow> (authenticated_user \<Rightarrow> reply \<times> account_state) \<Rightarrow>
     reply \<times> account_state" where
  "with_auth pf d bearer st h =
     (case from_request_parts (pf_jwt pf) (pf_verifier pf) (nat (dw_now d)) bearer (ac_devices st) of
        Inl e \<Rightarrow> (Error 401 ''unauthorized'', st)
      | Inr user \<Rightarrow> h user)"

definition issue_token :: "platform \<Rightarrow> draws \<Rightarrow> uuid \<Rightarrow> string \<Rightarrow> reply" where
  "issue_token pf d user_id claimed_handle =
     (case sign_user (pf_jwt pf) (pf_issuer pf) (nat (dw_now d)) user_id claimed_handle of
        Inr token \<Rightarrow> AuthResponse token user_id claimed_handle False
      | Inl e \<Rightarrow> Error 500 ''sign_failed'')"

definition issue_login_interim :: "platform \<Rightarrow> draws \<Rightarrow> uuid \<Rightarrow> string \<Rightarrow> reply" where
  "issue_login_interim pf d user_id claimed_handle =
     (case sign_login_interim (pf_jwt pf) (pf_issuer pf) (nat (dw_now d)) user_id claimed_handle of
        Inr token \<Rightarrow> AuthResponse token user_id claimed_handle True
      | Inl e \<Rightarrow> Error 500 ''sign_failed'')"

section \<open>Sign-up and login\<close>

definition VERIFICATION_TOKEN_TTL :: time where
  "VERIFICATION_TOKEN_TTL = 24 * 3600"

definition MIN_PASSWORD_LEN :: nat where
  "MIN_PASSWORD_LEN = 12"

definition looks_like_email :: "string \<Rightarrow> bool" where
  "looks_like_email s =
     (let trimmed = trim s; local_part = takeWhile (\<lambda>c. c \<noteq> CHR ''@'') trimmed;
          domain = drop (Suc (length local_part)) trimmed
      in CHR ''@'' \<in> set trimmed \<and> local_part \<noteq> [] \<and> CHR ''.'' \<in> set domain \<and> \<not> starts_with domain ''.'')"

definition validate_signup :: "string \<Rightarrow> string \<Rightarrow> string \<Rightarrow> reply option" where
  "validate_signup email password claimed_handle =
     (if \<not> looks_like_email email then Some (Error 400 ''invalid_email'')
      else if length password < MIN_PASSWORD_LEN then Some (Error 400 ''password_too_short'')
      else if trim claimed_handle = [] then Some (Error 400 ''missing_handle'')
      else if \<not> validate_handle (trim claimed_handle) then Some (Error 400 ''invalid_handle'')
      else None)"

definition signup :: "platform \<Rightarrow> draws \<Rightarrow> string \<Rightarrow> string \<Rightarrow> string \<Rightarrow> account_state \<Rightarrow> reply \<times> account_state" where
  "signup pf d email password claimed_handle st =
     (case validate_signup email password claimed_handle of
        Some r \<Rightarrow> (r, st)
      | None \<Rightarrow>
        (case hash_password (pf_hasher pf) password of
           Inl e \<Rightarrow> (Error 500 ''hash_failed'', st)
         | Inr phc \<Rightarrow>
           (case create_user (pf_lower pf) (dw_id d) (dw_now d) email phc claimed_handle (ac_users st) of
              (Inl EmailTaken, _) \<Rightarrow> (Error 409 ''email_taken'', st)
            | (Inl HandleTaken, _) \<Rightarrow> (Error 409 ''handle_taken'', st)
            | (Inl _, _) \<Rightarrow> (Error 500 ''internal'', st)
            | (Inr u, tbl) \<Rightarrow>
                (case set_verification_token (us_id u) (dw_token d) (dw_now d + VERIFICATION_TOKEN_TTL) (dw_now d) tbl of
                   (Inl e, tbl') \<Rightarrow> (issue_token pf d (us_id u) (us_claimed_handle u), st\<lparr>ac_users := tbl'\<rparr>)
                 | (Inr _, tbl') \<Rightarrow> (issue_token pf d (us_id u) (us_claimed_handle u),
                     send_mail d (VerificationMail (us_email u) (us_claimed_handle u) (dw_token d)) (st\<lparr>ac_users := tbl'\<rparr>))))))"

definition login :: "platform \<Rightarrow> draws \<Rightarrow> string \<Rightarrow> string \<Rightarrow> account_state \<Rightarrow> reply \<times> account_state" where
  "login pf d email password st =
     (case find_by_email (pf_lower pf) email (ac_users st) of
        None \<Rightarrow> (Error 401 ''invalid_credentials'', st)
      | Some u \<Rightarrow>
          if \<not> verify_password (pf_hasher pf) password (us_password_hash u) then (Error 401 ''invalid_credentials'', st)
          else if us_totp_enabled_at u \<noteq> None then (issue_login_interim pf d (us_id u) (us_claimed_handle u), st)
          else (issue_token pf d (us_id u) (us_claimed_handle u), st))"

section \<open>E-mail verification\<close>

text \<open>A token without an expiry counts as expired.\<close>

definition verify_email :: "platform \<Rightarrow> draws \<Rightarrow> string \<Rightarrow> account_state \<Rightarrow> reply \<times> account_state" where
  "verify_email pf d token st =
     (if trim token = [] then (Error 400 ''invalid_or_expired'', st)
      else case find_by_verification_token token (ac_users st) of
        None \<Rightarrow> (Error 400 ''invalid_or_expired'', st)
      | Some u \<Rightarrow>
          if (case us_email_verification_expires_at u of None \<Rightarrow> True | Some expiry \<Rightarrow> dw_now d \<ge> expiry)
          then (Error 400 ''invalid_or_expired'', st)
          else (VerifyEmailResponse (us_email u) (us_claimed_handle u),
                st\<lparr>ac_users := mark_email_verified (us_id u) (dw_now d) (ac_users st)\<rparr>))"

section \<open>Account management\<close>

definition resolve_user :: "platform \<Rightarrow> authenticated_user \<Rightarrow> account_state \<Rightarrow> reply + user" where
  "resolve_user pf auth st =
     (case pf_parse_uuid pf (au_sub auth) of
        None \<Rightarrow> Inl (Error 500 ''bad_subject'')
      | Some i \<Rightarrow> (case find_by_id i (ac_users st) of
          None \<Rightarrow> Inl (Error 401 ''user_not_found'')
        | Some u \<Rightarrow> Inr u))"

definition change_password ::
    "platform \<Rightarrow> draws \<Rightarrow> authenticated_user \<Rightarrow> string \<Rightarrow> string \<Rightarrow> account_state \<Rightarrow> reply \<times> account_state" where
  "change_password pf d auth current_password new_password st =
     (case resolve_user pf auth st of
        Inl r \<Rightarrow> (r, st)
      | Inr u \<Rightarrow>
          if \<not> verify_password (pf_hasher pf) current_password (us_password_hash u) then (Error 401 ''invalid_credentials'', st)
          else if length new_password < MIN_PASSWORD_LEN then (Error 400 ''password_too_short'', st)
          else (case hash_password (pf_hasher pf) new_password of
              Inl e \<Rightarrow> (Error 500 ''internal'', st)
            | Inr phc \<Rightarrow> (ChangePasswordResponse,
                snd (audit pf d u ''user.password_changed'' (user_id_payload u)
                  (st\<lparr>ac_users := update_password (us_id u) phc (dw_now d) (ac_users st)\<rparr>)))))"

definition resend_verification ::
    "platform \<Rightarrow> draws \<Rightarrow> authenticated_user \<Rightarrow> account_state \<Rightarrow> reply \<times> account_state" where
  "resend_verification pf d auth st =
     (case resolve_user pf auth st of
        Inl r \<Rightarrow> (r, st)
      | Inr u \<Rightarrow>
          if us_email_verified_at u \<noteq> None then (Error 409 ''already_verified'', st)
          else (case set_verification_token (us_id u) (dw_token d) (dw_now d + VERIFICATION_TOKEN_TTL) (dw_now d) (ac_users st) of
              (Inl e, _) \<Rightarrow> (Error 500 ''internal'', st)
            | (Inr _, tbl) \<Rightarrow> (ResendVerificationResponse,
                snd (audit pf d u ''user.email_verification_resent'' (user_id_payload u)
                  (send_mail d (VerificationMail (us_email u) (us_claimed_handle u) (dw_token d)) (st\<lparr>ac_users := tbl\<rparr>))))))"

text \<open>
  Deleting the row cascades to devices, pairings, magic links and recovery codes; the cascades to the tables
  of other components are with these (staff roles and submissions in \<open>Admin_Routes\<close>, organizations in
  \<open>Sharing_Steps\<close>, orders and supporters in \<open>Payments\<close>).
\<close>

definition cascade_user :: "uuid \<Rightarrow> account_state \<Rightarrow> account_state" where
  "cascade_user i st = st\<lparr>
     ac_devices := \<lparr>db_pairings = (\<lambda>c. case db_pairings (ac_devices st) c of
           Some r \<Rightarrow> if pw_user_id r = i then None else Some r | None \<Rightarrow> None),
         db_devices = filter (\<lambda>r. dr_user_id r \<noteq> i) (db_devices (ac_devices st))\<rparr>,
     ac_links := (\<lambda>t. case ac_links st t of Some r \<Rightarrow> if mr_user_id r = i then None else Some r | None \<Rightarrow> None),
     ac_codes := filter (\<lambda>r. rc_user_id r \<noteq> i) (ac_codes st)\<rparr>"

text \<open>The audit row comes first; without it nothing is deleted.\<close>

definition delete_account ::
    "platform \<Rightarrow> draws \<Rightarrow> authenticated_user \<Rightarrow> string \<Rightarrow> account_state \<Rightarrow> reply \<times> account_state" where
  "delete_account pf d auth confirm_handle st =
     (case resolve_user pf auth st of
        Inl r \<Rightarrow> (r, st)
      | Inr u \<Rightarrow>
          if to_ascii_lowercase confirm_handle \<noteq> to_ascii_lowercase (us_claimed_handle u) then (Error 400 ''confirm_mismatch'', st)
          else (case audit pf d u ''user.account_deleted''
                  (JObject [(''user_id'', JString (us_id u)), (''claimed_handle'', JString (us_claimed_handle u))]) st of
              (False, st1) \<Rightarrow> (Error 500 ''internal'', st1)
            | (True, st1) \<Rightarrow>
                (case delete_user (pf_lower pf) (dw_id d) (dw_refused d) (us_id u) (ac_users st1) (ac_events st1) of
                   (Inl e, _, _) \<Rightarrow> (Error 500 ''internal'', st1)
                 | (Inr _, users, events) \<Rightarrow> (DeleteAccountResponse,
                     cascade_user (us_id u) (st1\<lparr>ac_users := users, ac_events := events\<rparr>)))))"

text \<open>The staff roles of the reply are left out.\<close>

definition get_me :: "platform \<Rightarrow> authenticated_user \<Rightarrow> account_state \<Rightarrow> reply \<times> account_state" where
  "get_me pf auth st =
     (case resolve_user pf auth st of
        Inl r \<Rightarrow> (r, st)
      | Inr u \<Rightarrow> (MeResponse (us_id u) (us_email u) (us_claimed_handle u) (us_email_verified_at u \<noteq> None)
          (us_pending_email u) (us_rsi_verified_at u \<noteq> None) (us_totp_enabled_at u \<noteq> None), st))"

section \<open>Password reset\<close>

definition PASSWORD_RESET_TTL :: time where
  "PASSWORD_RESET_TTL = 30 * 60"

definition password_reset_start :: "platform \<Rightarrow> draws \<Rightarrow> string \<Rightarrow> account_state \<Rightarrow> reply \<times> account_state" where
  "password_reset_start pf d email0 st =
     (let email = trim email0
      in if email = [] \<or> CHR ''@'' \<notin> set email then (Error 400 ''invalid_email'', st)
         else (PasswordResetStartResponse,
           (case find_by_email (pf_lower pf) email (ac_users st) of
              None \<Rightarrow> st
            | Some u \<Rightarrow> send_mail d (PasswordResetMail (us_email u) (us_claimed_handle u) (dw_token d))
                (st\<lparr>ac_users := set_password_reset_token (us_id u) (dw_token d) (dw_now d + PASSWORD_RESET_TTL)
                     (dw_now d) (ac_users st)\<rparr>))))"

definition password_reset_complete :: "platform \<Rightarrow> draws \<Rightarrow> string \<Rightarrow> string \<Rightarrow> account_state \<Rightarrow> reply \<times> account_state" where
  "password_reset_complete pf d token new_password st =
     (if trim token = [] then (Error 400 ''invalid_or_expired'', st)
      else if length new_password < MIN_PASSWORD_LEN then (Error 400 ''password_too_short'', st)
      else case find_by_password_reset_token token (ac_users st) of
        None \<Rightarrow> (Error 400 ''invalid_or_expired'', st)
      | Some u \<Rightarrow>
          if (case us_password_reset_expires_at u of None \<Rightarrow> True | Some expiry \<Rightarrow> dw_now d > expiry)
          then (Error 400 ''invalid_or_expired'', st)
          else (case hash_password (pf_hasher pf) new_password of
              Inl e \<Rightarrow> (Error 500 ''hash_failed'', st)
            | Inr phc \<Rightarrow> (PasswordResetCompleteResponse,
                snd (audit pf d u ''user.password_reset_completed'' (JObject [])
                  (st\<lparr>ac_users := complete_password_reset (us_id u) phc (dw_now d) (ac_users st),
                      ac_devices := snd (revoke_all_for_user (us_id u) (dw_now d) (ac_devices st))\<rparr>)))))"

section \<open>E-mail change\<close>

definition EMAIL_CHANGE_TTL :: time where
  "EMAIL_CHANGE_TTL = 24 * 3600"

definition email_change_start ::
    "platform \<Rightarrow> draws \<Rightarrow> authenticated_user \<Rightarrow> string \<Rightarrow> account_state \<Rightarrow> reply \<times> account_state" where
  "email_change_start pf d auth new_email0 st =
     (let new_email = pf_to_lowercase pf (trim new_email0)
      in if new_email = [] \<or> CHR ''@'' \<notin> set new_email then (Error 400 ''invalid_email'', st)
         else case pf_parse_uuid pf (au_sub auth) of
           None \<Rightarrow> (Error 500 ''bad_subject'', st)
         | Some i \<Rightarrow>
             if (case find_by_email (pf_lower pf) new_email (ac_users st) of None \<Rightarrow> False | Some other \<Rightarrow> us_id other \<noteq> i)
             then (Error 409 ''email_taken'', st)
             else (EmailChangeStartResponse new_email,
               send_mail d (EmailChangeMail new_email (au_preferred_username auth) (dw_token d))
                 (st\<lparr>ac_users := set_pending_email (pf_lower pf) i new_email (dw_token d) (dw_now d + EMAIL_CHANGE_TTL)
                      (dw_now d) (ac_users st)\<rparr>)))"

definition email_change_verify :: "platform \<Rightarrow> draws \<Rightarrow> string \<Rightarrow> account_state \<Rightarrow> reply \<times> account_state" where
  "email_change_verify pf d token st =
     (if trim token = [] then (Error 400 ''invalid_or_expired'', st)
      else case find_by_pending_email_token token (ac_users st) of
        None \<Rightarrow> (Error 400 ''invalid_or_expired'', st)
      | Some u \<Rightarrow>
          if (case us_pending_email_expires_at u of None \<Rightarrow> True | Some expiry \<Rightarrow> dw_now d > expiry)
          then (Error 400 ''invalid_or_expired'', st)
          else (let new_email = (case us_pending_email u of None \<Rightarrow> [] | Some e \<Rightarrow> e)
            in case commit_pending_email (pf_lower pf) (us_id u) (dw_now d) (ac_users st) of
                 (Inl EmailTaken, _) \<Rightarrow> (Error 409 ''email_taken'', st)
               | (Inl _, _) \<Rightarrow> (Error 500 ''internal'', st)
               | (Inr _, tbl) \<Rightarrow> (EmailChangeVerifyResponse new_email,
                   snd (audit pf d u ''user.email_changed'' (JObject [(''new_email'', JString new_email)])
                     (st\<lparr>ac_users := tbl\<rparr>)))))"

end
