(* ===== verification/Staff_Roles.thy ===== *)
theory Staff_Roles
  imports Account_Routes
begin

text \<open>
  Models \<^verbatim>\<open>crates/starstats-server/src/staff_roles.rs\<close> (the Postgres store with the constraints of
  \<^verbatim>\<open>migrations/0019_staff_roles.sql\<close>) and the bootstrap of the first admins.
\<close>

section \<open>Model\<close>

datatype staff_role = Moderator | Admin

fun staff_role_as_str :: "staff_role \<Rightarrow> string" where
  "staff_role_as_str Moderator = ''moderator''"
| "staff_role_as_str Admin = ''admin''"

definition staff_role_from_str :: "string \<Rightarrow> string + staff_role" where
  "staff_role_from_str s =
     (if s = ''moderator'' then Inr Moderator
      else if s = ''admin'' then Inr Admin
      else Inl (''unknown staff role: '' @ s))"

type_synonym staff_role_set = "staff_role set"

fun has_role :: "staff_role_set \<Rightarrow> staff_role \<Rightarrow> bool" where
  "has_role roles Admin \<longleftrightarrow> Admin \<in> roles"
| "has_role roles Moderator \<longleftrightarrow> Moderator \<in> roles \<or> Admin \<in> roles"

definition as_strings :: "staff_role_set \<Rightarrow> string list" where
  "as_strings roles = sorted_list_of_set (staff_role_as_str ` roles)"

record staff_grant =
  sg_id :: uuid
  sg_user_id :: uuid
  sg_role :: string
  sg_granted_at :: time
  sg_granted_by :: "uuid option"
  sg_revoked_at :: "time option"
  sg_revoked_by :: "uuid option"
  sg_reason :: "string option"

type_synonym staff_table = "staff_grant list"

datatype staff_error = StaffDatabase string | StaffAudit

subsection \<open>The store\<close>

definition ok_of :: "'e + 'a \<Rightarrow> 'a option" where
  "ok_of r = (case r of Inl e \<Rightarrow> None | Inr a \<Rightarrow> Some a)"

definition list_active_for_user :: "uuid \<Rightarrow> staff_table \<Rightarrow> staff_role_set" where
  "list_active_for_user user_id tbl =
     set (List.map_filter (\<lambda>r. ok_of (staff_role_from_str (sg_role r)))
       (filter (\<lambda>r. sg_user_id r = user_id \<and> sg_revoked_at r = None) tbl))"

definition active_grant :: "uuid \<Rightarrow> staff_role \<Rightarrow> staff_grant \<Rightarrow> bool" where
  "active_grant user_id role r \<longleftrightarrow>
     sg_user_id r = user_id \<and> sg_role r = staff_role_as_str role \<and> sg_revoked_at r = None"

text \<open>
  \<open>ON CONFLICT ... DO NOTHING\<close> covers the partial index on active grants; a clash of the primary key
  or a missing user is an error of the database.
\<close>

definition grant_role ::
    "uuid set \<Rightarrow> uuid \<Rightarrow> time \<Rightarrow> uuid \<Rightarrow> staff_role \<Rightarrow> uuid option \<Rightarrow> string option \<Rightarrow> staff_table \<Rightarrow>
     (staff_error + bool) \<times> staff_table" where
  "grant_role users new_id now user_id role granted_by reason tbl =
     (if \<exists>r \<in> set tbl. active_grant user_id role r then (Inr False, tbl)
      else if new_id \<in> sg_id ` set tbl then (Inl (StaffDatabase ''staff_roles_pkey''), tbl)
      else if user_id \<notin> users \<or> \<not> set_option granted_by \<subseteq> users then (Inl (StaffDatabase ''foreign key''), tbl)
      else (Inr True, tbl @ [\<lparr>sg_id = new_id, sg_user_id = user_id, sg_role = staff_role_as_str role, sg_granted_at = now,
              sg_granted_by = granted_by, sg_revoked_at = None, sg_revoked_by = None, sg_reason = reason\<rparr>]))"

text \<open>The table's check wants a revoker on every revoked grant.\<close>

definition revoke_role ::
    "uuid set \<Rightarrow> time \<Rightarrow> uuid \<Rightarrow> staff_role \<Rightarrow> uuid option \<Rightarrow> staff_table \<Rightarrow> (staff_error + bool) \<times> staff_table" where
  "revoke_role users now user_id role revoked_by tbl =
     (if \<not> (\<exists>r \<in> set tbl. active_grant user_id role r) then (Inr False, tbl)
      else case revoked_by of
        None \<Rightarrow> (Inl (StaffDatabase ''check constraint''), tbl)
      | Some by \<Rightarrow>
          if by \<notin> users then (Inl (StaffDatabase ''foreign key''), tbl)
          else (Inr True, map (\<lambda>r. if active_grant user_id role r
                  then r\<lparr>sg_revoked_at := Some now, sg_revoked_by := Some by\<rparr> else r) tbl))"

subsection \<open>Bootstrap\<close>

definition bootstrap_reason :: string where
  "bootstrap_reason = ''bootstrap from STARSTATS_BOOTSTRAP_ADMIN_HANDLES''"

definition grant_one ::
    "(string \<Rightarrow> string) \<Rightarrow> (json \<Rightarrow> string) \<Rightarrow> uuid set \<Rightarrow> uuid \<Rightarrow> time \<Rightarrow> user \<Rightarrow> string \<Rightarrow> staff_table \<times> audit_table \<Rightarrow>
     (staff_error + unit) \<times> staff_table \<times> audit_table" where
  "grant_one sha256 to_vec users new_id now u handle st =
     (let (tbl, log) = st
      in case grant_role users new_id now (us_id u) Admin None (Some bootstrap_reason) tbl of
           (Inl e, tbl') \<Rightarrow> (Inl e, tbl', log)
         | (Inr False, tbl') \<Rightarrow> (Inr (), tbl', log)
         | (Inr True, tbl') \<Rightarrow>
             (let (ok, log') = append_entry sha256 to_vec now
                    \<lparr>ae_actor_sub = None, ae_actor_handle = None, ae_action = ''admin.bootstrap.grant'',
                     ae_payload = JObject [(''user_id'', JString (us_id u)), (''handle'', JString handle),
                       (''role'', JString (staff_role_as_str Admin))]\<rparr> log
              in (if ok then Inr () else Inl StaffAudit, tbl', log')))"

text \<open>Unknown handles are skipped; \<open>new_ids\<close> holds the identifier drawn for each handle.\<close>

fun bootstrap_handles ::
    "(string \<Rightarrow> string) \<Rightarrow> (string \<Rightarrow> string) \<Rightarrow> (json \<Rightarrow> string) \<Rightarrow> user_table \<Rightarrow> time \<Rightarrow> (string \<times> uuid) list \<Rightarrow>
     staff_table \<times> audit_table \<Rightarrow> (staff_error + unit) \<times> staff_table \<times> audit_table" where
  "bootstrap_handles lower sha256 to_vec tbl now [] st = (Inr (), st)"
| "bootstrap_handles lower sha256 to_vec tbl now ((handle, new_id) # hs) st =
     (case find_by_handle lower handle tbl of
        None \<Rightarrow> bootstrap_handles lower sha256 to_vec tbl now hs st
      | Some u \<Rightarrow>
          (case grant_one sha256 to_vec (us_id ` set tbl) new_id now u handle st of
             (Inl e, st') \<Rightarrow> (Inl e, st')
           | (Inr _, st') \<Rightarrow> bootstrap_handles lower sha256 to_vec tbl now hs st'))"

definition bootstrap_list :: "string \<Rightarrow> string list" where
  "bootstrap_list raw = filter (\<lambda>s. s \<noteq> []) (map trim (split_on '','' raw))"

definition bootstrap_admins_from_env ::
    "(string \<Rightarrow> string) \<Rightarrow> (string \<Rightarrow> string) \<Rightarrow> (json \<Rightarrow> string) \<Rightarrow> user_table \<Rightarrow> time \<Rightarrow> uuid list \<Rightarrow> string option \<Rightarrow>
     staff_table \<times> audit_table \<Rightarrow> (staff_error + unit) \<times> staff_table \<times> audit_table" where
  "bootstrap_admins_from_env lower sha256 to_vec tbl now new_ids var st =
     (case var of
        None \<Rightarrow> (Inr (), st)
      | Some raw \<Rightarrow> bootstrap_handles lower sha256 to_vec tbl now (zip (bootstrap_list raw) new_ids) st)"

section \<open>The contract of a role store\<close>

text \<open>
  What a client of the store may rely on: the store stands for a set of (user, role) pairs, an
  operation that succeeds puts its pair in or takes it out and says whether that changed anything,
  and one that fails leaves the store as it was.
\<close>

locale role_store =
  fixes run :: "'op \<Rightarrow> 'st \<Rightarrow> ('e + bool) \<times> 'st"
    and grants :: "'op \<Rightarrow> bool"
    and target :: "'op \<Rightarrow> 'pair"
    and active :: "'st \<Rightarrow> 'pair set"
  assumes success: "run op s = (Inr b, s') \<Longrightarrow>
      active s' = (if grants op then insert (target op) (active s) else active s - {target op}) \<and>
      (b \<longleftrightarrow> active s' \<noteq> active s)"
    and failure: "run op s = (Inl e, s') \<Longrightarrow> s' = s"
begin

definition run_ops :: "'op list \<Rightarrow> 'st \<Rightarrow> 'st" where
  "run_ops ops s = foldl (\<lambda>s op. snd (run op s)) s ops"

lemma run_ops_simps [simp]: "run_ops [] s = s" "run_ops (op # ops) s = run_ops ops (snd (run op s))"
  by (simp_all add: run_ops_def)

lemma step_active:
  "active (snd (run op s)) =
     (if isl (fst (run op s)) then active s
      else if grants op then insert (target op) (active s) else active s - {target op})"
proof (cases "run op s")
  case (Pair r s')
  then show ?thesis by (cases r) (auto dest: success failure)
qed

lemma others_untouched:
  assumes "\<forall>op \<in> set ops. target op \<noteq> p"
  shows "p \<in> active (run_ops ops s) \<longleftrightarrow> p \<in> active s"
  using assms by (induction ops arbitrary: s) (auto simp: step_active)

lemma last_decides:
  assumes "\<not> isl (fst (run op (run_ops pre s)))" and "\<forall>o' \<in> set post. target o' \<noteq> target op"
  shows "target op \<in> active (run_ops (pre @ op # post) s) \<longleftrightarrow> grants op"
proof -
  have "run_ops (pre @ op # post) s = run_ops post (snd (run op (run_ops pre s)))"
    by (simp add: run_ops_def)
  then show ?thesis using assms(1) by (simp add: others_untouched [OF assms(2)] step_active)
qed

end

section \<open>The store meets it\<close>

definition active_roles :: "staff_table \<Rightarrow> (uuid \<times> staff_role) set" where
  "active_roles tbl = {(u, role). \<exists>r \<in> set tbl. active_grant u role r}"

datatype staff_op =
    GrantOp uuid time uuid staff_role "uuid option" "string option"
  | RevokeOp time uuid staff_role "uuid option"

fun run_staff :: "uuid set \<Rightarrow> staff_op \<Rightarrow> staff_table \<Rightarrow> (staff_error + bool) \<times> staff_table" where
  "run_staff users (GrantOp new_id now u role by reason) tbl = grant_role users new_id now u role by reason tbl"
| "run_staff users (RevokeOp now u role by) tbl = revoke_role users now u role by tbl"

fun op_grants :: "staff_op \<Rightarrow> bool" where
  "op_grants (GrantOp new_id now u role by reason) = True"
| "op_grants (RevokeOp now u role by) = False"

fun op_target :: "staff_op \<Rightarrow> uuid \<times> staff_role" where
  "op_target (GrantOp new_id now u role by reason) = (u, role)"
| "op_target (RevokeOp now u role by) = (u, role)"

lemma staff_role_as_str_inj [simp]: "staff_role_as_str a = staff_role_as_str b \<longleftrightarrow> a = b"
  by (cases a; cases b) simp_all

lemma staff_role_from_str [simp]: "staff_role_from_str s = Inr role \<longleftrightarrow> s = staff_role_as_str role"
  by (cases role) (auto simp: staff_role_from_str_def)

lemma active_grant_other: "active_grant u role r \<Longrightarrow> active_grant v q r \<Longrightarrow> v = u \<and> q = role"
  by (simp add: active_grant_def)

lemma active_roles_simps [simp]:
  "active_roles [] = {}"
  "active_roles (r # tbl) = {(u, role). active_grant u role r} \<union> active_roles tbl"
  "active_roles (tbl @ tbl') = active_roles tbl \<union> active_roles tbl'"
  by (auto simp: active_roles_def)

lemma active_roles_iff: "(u, role) \<in> active_roles tbl \<longleftrightarrow> (\<exists>r \<in> set tbl. active_grant u role r)"
  by (simp add: active_roles_def)

lemma grant_role_active:
  assumes "grant_role users new_id now u role by reason tbl = (Inr b, tbl')"
  shows "active_roles tbl' = insert (u, role) (active_roles tbl) \<and> (b \<longleftrightarrow> (u, role) \<notin> active_roles tbl)"
proof (cases "(u, role) \<in> active_roles tbl")
  case True
  then show ?thesis using assms by (auto simp: grant_role_def active_roles_iff)
next
  case False
  then obtain r where "tbl' = tbl @ [r]" "b" "sg_user_id r = u" "sg_role r = staff_role_as_str role" "sg_revoked_at r = None"
    using assms by (auto simp: grant_role_def active_roles_iff split: if_splits)
  then show ?thesis using False by (auto simp: active_grant_def)
qed

lemma active_grant_stamp:
  "active_grant v q (if active_grant u role r then r\<lparr>sg_revoked_at := Some now, sg_revoked_by := i\<rparr> else r) \<longleftrightarrow>
     active_grant v q r \<and> (v, q) \<noteq> (u, role)"
  by (auto simp: active_grant_def)

lemma active_roles_stamp:
  "active_roles (map (\<lambda>r. if active_grant u role r then r\<lparr>sg_revoked_at := Some now, sg_revoked_by := i\<rparr> else r) tbl) =
     active_roles tbl - {(u, role)}"
proof (rule set_eqI)
  fix p :: "uuid \<times> staff_role"
  obtain v q where p: "p = (v, q)" by fastforce
  show "p \<in> active_roles (map (\<lambda>r. if active_grant u role r then r\<lparr>sg_revoked_at := Some now, sg_revoked_by := i\<rparr> else r) tbl) \<longleftrightarrow>
      p \<in> active_roles tbl - {(u, role)}"
    unfolding p active_roles_iff set_map bex_simps(7) active_grant_stamp by (auto simp: active_roles_iff)
qed

lemma revoke_role_active:
  assumes "revoke_role users now u role by tbl = (Inr b, tbl')"
  shows "active_roles tbl' = active_roles tbl - {(u, role)} \<and> (b \<longleftrightarrow> (u, role) \<in> active_roles tbl)"
proof (cases "(u, role) \<in> active_roles tbl")
  case False
  then have "tbl' = tbl" "\<not> b" using assms by (auto simp: revoke_role_def active_roles_iff)
  then show ?thesis using False by simp
next
  case True
  then obtain i where "b" and
    "tbl' = map (\<lambda>r. if active_grant u role r then r\<lparr>sg_revoked_at := Some now, sg_revoked_by := Some i\<rparr> else r) tbl"
    using assms unfolding active_roles_iff by (auto simp: revoke_role_def split: option.splits if_splits)
  then show ?thesis using True by (simp add: active_roles_stamp)
qed

lemma run_staff_failure: "run_staff users op tbl = (Inl e, tbl') \<Longrightarrow> tbl' = tbl"
  by (cases op) (auto simp: grant_role_def revoke_role_def split: if_splits option.splits)

interpretation staff: role_store "run_staff users" op_grants op_target active_roles
  for users
proof
  fix op s b s'
  assume "run_staff users op s = (Inr b, s')"
  then show "active_roles s' = (if op_grants op then insert (op_target op) (active_roles s) else active_roles s - {op_target op}) \<and>
      (b \<longleftrightarrow> active_roles s' \<noteq> active_roles s)"
    by (cases op) (auto dest: grant_role_active revoke_role_active)
qed (rule run_staff_failure)

lemma ok_of_from_str: "ok_of (staff_role_from_str s) = Some role \<longleftrightarrow> s = staff_role_as_str role"
  by (cases "staff_role_from_str s") (auto simp: ok_of_def simp flip: staff_role_from_str)

lemma in_map_filter: "y \<in> set (List.map_filter f xs) \<longleftrightarrow> (\<exists>x \<in> set xs. f x = Some y)"
  by (induction xs) (auto simp: List.map_filter_simps split: option.splits)

lemma list_active_iff: "role \<in> list_active_for_user u tbl \<longleftrightarrow> (u, role) \<in> active_roles tbl"
  by (auto simp: list_active_for_user_def in_map_filter ok_of_from_str active_roles_iff active_grant_def)

definition staff_after :: "uuid set \<Rightarrow> staff_op list \<Rightarrow> staff_table \<Rightarrow> staff_table" where
  "staff_after users ops tbl = foldl (\<lambda>tbl op. snd (run_staff users op tbl)) tbl ops"

lemma staff_after_eq: "staff_after users = staff.run_ops users"
  by (intro ext) (simp add: staff_after_def staff.run_ops_def)

text \<open>
  The table of grants, with its revoked rows, implements a set of (user, role) pairs: after any
  sequence of grants and revocations, a user holds a role exactly when the last operation on that
  pair that succeeded was a grant, and reading the roles of a user reads that set.
\<close>

theorem last_staff_change_decides:
  assumes "\<not> isl (fst (run_staff users op (staff_after users pre tbl)))"
    and "\<forall>o' \<in> set post. op_target o' \<noteq> op_target op"
  shows "snd (op_target op) \<in> list_active_for_user (fst (op_target op)) (staff_after users (pre @ op # post) tbl) \<longleftrightarrow>
    op_grants op"
  using staff.last_decides [OF assms [unfolded staff_after_eq]] by (simp add: list_active_iff staff_after_eq)

theorem last_staff_change_decides_witness:
  "Moderator \<in> list_active_for_user ''u''
     (staff_after {''u'', ''v''} ([] @ GrantOp ''g1'' 0 ''u'' Moderator None None # [RevokeOp 1 ''v'' Moderator (Some ''u'')]) [])"
  using last_staff_change_decides [of "{''u'', ''v''}" "GrantOp ''g1'' 0 ''u'' Moderator None None" "[]" "[]"
      "[RevokeOp 1 ''v'' Moderator (Some ''u'')]"]
  by (simp add: staff_after_def grant_role_def)

section \<open>Invariant\<close>

text \<open>What the constraints of the table guarantee.\<close>

definition staff_ok :: "uuid set \<Rightarrow> staff_table \<Rightarrow> bool" where
  "staff_ok users tbl \<longleftrightarrow>
     distinct (map sg_id tbl) \<and>
     distinct (map (\<lambda>r. (sg_user_id r, sg_role r)) (filter (\<lambda>r. sg_revoked_at r = None) tbl)) \<and>
     (\<forall>r \<in> set tbl. sg_user_id r \<in> users \<and> set_option (sg_granted_by r) \<subseteq> users \<and> set_option (sg_revoked_by r) \<subseteq> users \<and>
        (sg_revoked_at r = None \<longleftrightarrow> sg_revoked_by r = None) \<and> sg_role r \<in> range staff_role_as_str)"

lemma staff_ok_Nil [simp]: "staff_ok users []"
  by (simp add: staff_ok_def)

lemma staff_ok_mono: "staff_ok users tbl \<Longrightarrow> users \<subseteq> users' \<Longrightarrow> staff_ok users' tbl"
  unfolding staff_ok_def by blast

lemma grant_role_ok:
  assumes "staff_ok users tbl"
  shows "staff_ok users (snd (grant_role users new_id now u role by reason tbl))"
  using assms by (auto simp: grant_role_def staff_ok_def active_grant_def)

lemma revoke_role_ok:
  assumes "staff_ok users tbl"
  shows "staff_ok users (snd (revoke_role users now u role by tbl))"
proof (cases "fst (revoke_role users now u role by tbl) = Inr True")
  case False
  then have "snd (revoke_role users now u role by tbl) = tbl"
    by (auto simp: revoke_role_def split: option.splits if_splits)
  then show ?thesis using assms by simp
next
  case True
  then obtain i where i: "i \<in> users" and
    tbl': "snd (revoke_role users now u role by tbl) =
      map (\<lambda>r. if active_grant u role r then r\<lparr>sg_revoked_at := Some now, sg_revoked_by := Some i\<rparr> else r) tbl" (is "_ = ?tbl")
    by (auto simp: revoke_role_def split: if_splits option.splits)
  have "filter (\<lambda>r. sg_revoked_at r = None) ?tbl =
      filter (\<lambda>r. \<not> active_grant u role r) (filter (\<lambda>r. sg_revoked_at r = None) tbl)"
    by (induction tbl) (auto simp: active_grant_def)
  moreover have "distinct (map (\<lambda>r. (sg_user_id r, sg_role r))
      (filter (\<lambda>r. \<not> active_grant u role r) (filter (\<lambda>r. sg_revoked_at r = None) tbl)))"
    by (rule distinct_map_filter) (use assms in \<open>simp add: staff_ok_def\<close>)
  ultimately have "distinct (map (\<lambda>r. (sg_user_id r, sg_role r)) (filter (\<lambda>r. sg_revoked_at r = None) ?tbl))" by metis
  moreover have "map sg_id ?tbl = map sg_id tbl" by simp
  then have "distinct (map sg_id ?tbl)" using assms by (simp only: staff_ok_def)
  moreover have "\<forall>r \<in> set tbl. sg_user_id r \<in> users \<and> set_option (sg_granted_by r) \<subseteq> users \<and>
      set_option (sg_revoked_by r) \<subseteq> users \<and> (sg_revoked_at r = None \<longleftrightarrow> sg_revoked_by r = None) \<and>
      sg_role r \<in> range staff_role_as_str" (is "\<forall>r \<in> set tbl. ?P r")
    using assms unfolding staff_ok_def by (elim conjE)
  then have "\<forall>r \<in> set ?tbl. ?P r" unfolding set_map ball_simps(9) by (simp add: i)
  ultimately show ?thesis unfolding tbl' staff_ok_def by (intro conjI)
qed

section \<open>Bootstrap\<close>

lemma grant_one_cases:
  assumes "grant_one sha256 to_vec users new_id now u handle (tbl, lg) = (r, tbl', lg')"
  shows "tbl' = snd (grant_role users new_id now (us_id u) Admin None (Some bootstrap_reason) tbl) \<and>
    (r = Inr () \<longrightarrow> (us_id u, Admin) \<in> active_roles tbl') \<and>
    ((us_id u, Admin) \<in> active_roles tbl \<longrightarrow> r = Inr () \<and> tbl' = tbl \<and> lg' = lg)"
proof -
  let ?g = "grant_role users new_id now (us_id u) Admin None (Some bootstrap_reason) tbl"
  have "(us_id u, Admin) \<in> active_roles tbl \<Longrightarrow> ?g = (Inr False, tbl)"
    by (auto simp: grant_role_def active_roles_def)
  moreover have "fst ?g = Inr b \<Longrightarrow> (us_id u, Admin) \<in> active_roles (snd ?g)" for b
    using grant_role_active [of users new_id now "us_id u" Admin None "Some bootstrap_reason" tbl b "snd ?g"]
    by (simp add: prod_eq_iff)
  ultimately show ?thesis
    using assms by (auto simp: grant_one_def Let_def split: prod.splits sum.splits bool.splits if_splits)
qed

lemma bootstrap_handles_active:
  assumes "bootstrap_handles lower sha256 to_vec users now hs (tbl, lg) = (r, tbl', lg')"
  shows "active_roles tbl \<subseteq> active_roles tbl' \<and>
    (\<forall>p \<in> active_roles tbl'. p \<in> active_roles tbl \<or>
      (\<exists>h u. h \<in> fst ` set hs \<and> find_by_handle lower h users = Some u \<and> p = (us_id u, Admin))) \<and>
    (r = Inr () \<longrightarrow> (\<forall>h \<in> fst ` set hs. \<forall>u. find_by_handle lower h users = Some u \<longrightarrow> (us_id u, Admin) \<in> active_roles tbl'))"
  using assms
proof (induction hs arbitrary: tbl lg)
  case (Cons p hs)
  obtain h i where p: "p = (h, i)" by fastforce
  show ?case
  proof (cases "find_by_handle lower h users")
    case None
    then have "bootstrap_handles lower sha256 to_vec users now hs (tbl, lg) = (r, tbl', lg')" using Cons.prems p by simp
    from Cons.IH [OF this] None p show ?thesis by auto
  next
    case (Some u)
    obtain r1 tbl1 lg1 where g: "grant_one sha256 to_vec (us_id ` set users) i now u h (tbl, lg) = (r1, tbl1, lg1)"
      by (metis prod_cases3)
    note c = grant_one_cases [OF g]
    have sub: "active_roles tbl \<subseteq> active_roles tbl1" "active_roles tbl1 \<subseteq> insert (us_id u, Admin) (active_roles tbl)"
      using c staff.step_active [of "us_id ` set users" "GrantOp i now (us_id u) Admin None (Some bootstrap_reason)" tbl]
      by (auto split: if_splits)
    show ?thesis
    proof (cases r1)
      case (Inl e)
      then have "tbl' = tbl1" "r = Inl e" using Cons.prems p Some g by auto
      then show ?thesis using sub Some p by auto
    next
      case (Inr x)
      then have "bootstrap_handles lower sha256 to_vec users now hs (tbl1, lg1) = (r, tbl', lg')"
        using Cons.prems p Some g by simp
      note ih = Cons.IH [OF this]
      have hs: "fst ` set (p # hs) = insert h (fst ` set hs)" using p by simp
      have "active_roles tbl \<subseteq> active_roles tbl'" using ih sub(1) by blast
      moreover have "\<forall>q \<in> active_roles tbl'. q \<in> active_roles tbl \<or>
          (\<exists>h u. h \<in> fst ` set (p # hs) \<and> find_by_handle lower h users = Some u \<and> q = (us_id u, Admin))"
        unfolding hs using ih sub(2) Some by blast
      moreover have "(us_id u, Admin) \<in> active_roles tbl'" using c Inr ih by auto
      then have "r = Inr () \<longrightarrow> (\<forall>h \<in> fst ` set (p # hs). \<forall>u. find_by_handle lower h users = Some u \<longrightarrow> (us_id u, Admin) \<in> active_roles tbl')"
        unfolding hs using ih Some by simp
      ultimately show ?thesis by blast
    qed
  qed
qed simp

lemma bootstrap_handles_again:
  assumes "\<forall>h \<in> fst ` set hs. \<forall>u. find_by_handle lower h users = Some u \<longrightarrow> (us_id u, Admin) \<in> active_roles tbl"
  shows "bootstrap_handles lower sha256 to_vec users now hs (tbl, lg) = (Inr (), tbl, lg)"
  using assms
proof (induction hs)
  case (Cons p hs)
  obtain h i where p: "p = (h, i)" by fastforce
  show ?case
  proof (cases "find_by_handle lower h users")
    case (Some u)
    then have "(us_id u, Admin) \<in> active_roles tbl" using Cons.prems p by auto
    with grant_one_cases [of sha256 to_vec "us_id ` set users" i now u h tbl lg]
    have "grant_one sha256 to_vec (us_id ` set users) i now u h (tbl, lg) = (Inr (), tbl, lg)" by (metis prod_cases3)
    then show ?thesis using Cons p Some by simp
  qed (use Cons p in simp)
qed simp

text \<open>
  Starting the server makes the named accounts administrators and nobody else: when the bootstrap
  succeeds, every handle of the variable that names an account names an administrator, no other
  role changes, and the next start, whatever it draws, changes neither the roles nor the audit log.
\<close>

theorem bootstrap_grants_named_handles:
  assumes "bootstrap_admins_from_env lower sha256 to_vec users now ids (Some raw) (tbl, lg) = (Inr (), tbl', lg')"
    and "length ids = length (bootstrap_list raw)" and "length ids' = length (bootstrap_list raw)"
  shows "active_roles tbl' = active_roles tbl \<union>
      {(us_id u, Admin) | u h. h \<in> set (bootstrap_list raw) \<and> find_by_handle lower h users = Some u} \<and>
    bootstrap_admins_from_env lower sha256 to_vec users now' ids' (Some raw) (tbl', lg') = (Inr (), tbl', lg')"
proof -
  let ?hs = "zip (bootstrap_list raw) ids"
  have hs: "fst ` set ?hs = set (bootstrap_list raw)" "fst ` set (zip (bootstrap_list raw) ids') = set (bootstrap_list raw)"
    using assms(2,3) by (metis map_fst_zip set_map)+
  have "bootstrap_handles lower sha256 to_vec users now ?hs (tbl, lg) = (Inr (), tbl', lg')"
    using assms(1) by (simp add: bootstrap_admins_from_env_def)
  from bootstrap_handles_active [OF this]
  have a: "active_roles tbl \<subseteq> active_roles tbl'" "\<forall>h \<in> set (bootstrap_list raw). \<forall>u. find_by_handle lower h users = Some u \<longrightarrow> (us_id u, Admin) \<in> active_roles tbl'"
    "\<forall>p \<in> active_roles tbl'. p \<in> active_roles tbl \<or>
      (\<exists>h u. h \<in> set (bootstrap_list raw) \<and> find_by_handle lower h users = Some u \<and> p = (us_id u, Admin))"
    unfolding hs by simp_all
  then have "bootstrap_handles lower sha256 to_vec users now' (zip (bootstrap_list raw) ids') (tbl', lg') = (Inr (), tbl', lg')"
    by (intro bootstrap_handles_again) (simp add: hs)
  moreover have "active_roles tbl' = active_roles tbl \<union>
      {(us_id u, Admin) | u h. h \<in> set (bootstrap_list raw) \<and> find_by_handle lower h users = Some u}"
  proof (rule equalityI; rule subsetI)
    fix q assume "q \<in> active_roles tbl'"
    then show "q \<in> active_roles tbl \<union>
        {(us_id u, Admin) | u h. h \<in> set (bootstrap_list raw) \<and> find_by_handle lower h users = Some u}"
      using a(3) by blast
  qed (use a(1,2) in blast)
  ultimately show ?thesis by (simp add: bootstrap_admins_from_env_def)
qed

theorem bootstrap_grants_named_handles_witness:
  "(''u'', Admin) \<in> active_roles (fst (snd (bootstrap_admins_from_env (\<lambda>s. s) (\<lambda>s. s) (\<lambda>_. [])
     (snd (create_user (\<lambda>s. s) ''u'' 0 ''a@b.c'' ''h'' ''pilot'' [])) 1 [''g''] (Some ''pilot'') ([], \<lparr>at_rows = [], at_next_seq = 1\<rparr>))))"
proof -
  let ?users = "snd (create_user (\<lambda>s. s) ''u'' 0 ''a@b.c'' ''h'' ''pilot'' [])"
  let ?st = "([], \<lparr>at_rows = [], at_next_seq = 1\<rparr>)"
  have l: "bootstrap_list ''pilot'' = [''pilot'']" by code_simp
  obtain u where u: "find_by_handle (\<lambda>s. s) ''pilot'' ?users = Some u" "us_id u = ''u''" "us_id ` set ?users = {''u''}"
    by (simp add: create_user_def Let_def find_by_handle_def)
  obtain tbl lg where r: "bootstrap_admins_from_env (\<lambda>s. s) (\<lambda>s. s) (\<lambda>_. []) ?users 1 [''g''] (Some ''pilot'') ?st = (Inr (), tbl, lg)"
    by (simp add: bootstrap_admins_from_env_def l u grant_one_def grant_role_def append_entry_def insert_audit_row_def tail_hash_def Let_def)
  from bootstrap_grants_named_handles [OF r, of "[''g'']"] l u(1,2)
  have "(us_id u, Admin) \<in> active_roles tbl" by auto
  then show ?thesis using r u(2) by simp
qed

end
