(* ===== verification/Submissions.thy ===== *)
theory Submissions
  imports Staff_Roles
begin

text \<open>
  Models the community submissions of parser rules: the Postgres store of
  \<^verbatim>\<open>crates/starstats-server/src/submissions.rs\<close> with the keys and checks of
  \<^verbatim>\<open>migrations/0016_submissions.sql\<close>. A store operation runs as one transaction; a statement the
  database refuses is a \<open>SubmissionDatabase\<close> error.
\<close>

section \<open>Model\<close>

definition AUTO_FLAG_THRESHOLD :: nat where
  "AUTO_FLAG_THRESHOLD = 3"

definition PATTERN_MAX_LEN :: nat where
  "PATTERN_MAX_LEN = 512"

definition LABEL_MAX_LEN :: nat where
  "LABEL_MAX_LEN = 64"

definition DESCRIPTION_MAX_LEN :: nat where
  "DESCRIPTION_MAX_LEN = 2000"

definition SAMPLE_LINE_MAX_LEN :: nat where
  "SAMPLE_LINE_MAX_LEN = 2000"

definition FLAG_REASON_MAX_LEN :: nat where
  "FLAG_REASON_MAX_LEN = 1000"

datatype submission_status = Review | Accepted | Shipped | Rejected | Withdrawn | Flagged

fun status_as_str :: "submission_status \<Rightarrow> string" where
  "status_as_str Review = ''review''"
| "status_as_str Accepted = ''accepted''"
| "status_as_str Shipped = ''shipped''"
| "status_as_str Rejected = ''rejected''"
| "status_as_str Withdrawn = ''withdrawn''"
| "status_as_str Flagged = ''flagged''"

definition status_parse :: "string \<Rightarrow> submission_status option" where
  "status_parse s =
     (if s = ''review'' then Some Review
      else if s = ''accepted'' then Some Accepted
      else if s = ''shipped'' then Some Shipped
      else if s = ''rejected'' then Some Rejected
      else if s = ''withdrawn'' then Some Withdrawn
      else if s = ''flagged'' then Some Flagged
      else None)"

text \<open>A row of each of the three tables; the status column holds text.\<close>

record submission_row =
  sr_id :: uuid
  sr_submitter_id :: uuid
  sr_pattern :: string
  sr_proposed_label :: string
  sr_description :: string
  sr_sample_line :: string
  sr_log_source :: string
  sr_status :: string
  sr_rejection_reason :: "string option"
  sr_created_at :: time
  sr_updated_at :: time

record submission_db =
  sd_submissions :: "submission_row list"
  sd_votes :: "(uuid \<times> uuid) list"
  sd_flags :: "((uuid \<times> uuid) \<times> string option) list"

record submission =
  sb_id :: uuid
  sb_submitter_id :: uuid
  sb_submitter_handle :: string
  sb_pattern :: string
  sb_proposed_label :: string
  sb_description :: string
  sb_sample_line :: string
  sb_log_source :: string
  sb_status :: submission_status
  sb_rejection_reason :: "string option"
  sb_created_at :: time
  sb_updated_at :: time
  sb_vote_count :: nat
  sb_flag_count :: nat

record submission_with_viewer =
  sw_submission :: submission
  sw_viewer_voted :: bool
  sw_viewer_flagged :: bool

record new_submission =
  ns_submitter_id :: uuid
  ns_pattern :: string
  ns_proposed_label :: string
  ns_description :: string
  ns_sample_line :: string
  ns_log_source :: string

record submission_filter =
  sf_status :: "submission_status option"
  sf_mine_only :: bool

datatype admin_queue_filter = QueueReview | QueueFlagged | QueueAll

record submission_transition =
  st_id :: uuid
  st_previous_status :: string
  st_new_status :: string
  st_was_changed :: bool

datatype submission_error =
    SubmissionNotFound
  | SubmissionForbidden
  | BadState
  | IllegalTransition string string
  | SubmissionDatabase string

datatype write_outcome = Written | AlreadyExists

record flag_outcome =
  fo_write :: write_outcome
  fo_flag_count :: nat
  fo_escalated :: bool

subsection \<open>Reading\<close>

definition find_row :: "uuid \<Rightarrow> submission_db \<Rightarrow> submission_row option" where
  "find_row i db = find (\<lambda>r. sr_id r = i) (sd_submissions db)"

definition vote_count :: "uuid \<Rightarrow> submission_db \<Rightarrow> nat" where
  "vote_count i db = length (filter (\<lambda>v. fst v = i) (sd_votes db))"

definition flag_count :: "uuid \<Rightarrow> submission_db \<Rightarrow> nat" where
  "flag_count i db = length (filter (\<lambda>f. fst (fst f) = i) (sd_flags db))"

definition project_row :: "submission_db \<Rightarrow> user \<Rightarrow> submission_row \<Rightarrow> submission" where
  "project_row db u r =
     \<lparr>sb_id = sr_id r, sb_submitter_id = sr_submitter_id r, sb_submitter_handle = us_claimed_handle u,
      sb_pattern = sr_pattern r, sb_proposed_label = sr_proposed_label r, sb_description = sr_description r,
      sb_sample_line = sr_sample_line r, sb_log_source = sr_log_source r,
      sb_status = (case status_parse (sr_status r) of Some s \<Rightarrow> s | None \<Rightarrow> Review),
      sb_rejection_reason = sr_rejection_reason r, sb_created_at = sr_created_at r, sb_updated_at = sr_updated_at r,
      sb_vote_count = vote_count (sr_id r) db, sb_flag_count = flag_count (sr_id r) db\<rparr>"

text \<open>\<open>JOIN users u ON u.id = s.submitter_id\<close>, then \<open>ORDER BY updated_at DESC, id DESC\<close>.\<close>

definition join_users :: "user_table \<Rightarrow> submission_row list \<Rightarrow> (submission_row \<times> user) list" where
  "join_users users rows =
     List.map_filter (\<lambda>r. map_option (\<lambda>u. (r, u)) (find_by_id (sr_submitter_id r) users)) rows"

definition newest_first :: "(submission_row \<times> user) list \<Rightarrow> (submission_row \<times> user) list" where
  "newest_first rows = rev (sort_key (\<lambda>(r, u). sr_updated_at r) (sort_key (\<lambda>(r, u). sr_id r) rows))"

datatype find_spec = ById uuid | ByFilter submission_filter

definition spec_matches :: "find_spec \<Rightarrow> uuid option \<Rightarrow> submission_row \<Rightarrow> bool" where
  "spec_matches spec viewer_id r \<longleftrightarrow>
     (case spec of
        ById i \<Rightarrow> sr_id r = i
      | ByFilter f \<Rightarrow>
          (case sf_status f of None \<Rightarrow> True | Some s \<Rightarrow> sr_status r = status_as_str s) \<and>
          (sf_mine_only f \<longrightarrow> viewer_id = Some (sr_submitter_id r)))"

definition list_internal ::
    "user_table \<Rightarrow> find_spec \<Rightarrow> uuid option \<Rightarrow> nat \<Rightarrow> nat \<Rightarrow> submission_db \<Rightarrow> submission_with_viewer list" where
  "list_internal users spec viewer_id limit offset db =
     map (\<lambda>(r, u). \<lparr>sw_submission = project_row db u r,
            sw_viewer_voted = (\<exists>v \<in> set_option viewer_id. (sr_id r, v) \<in> set (sd_votes db)),
            sw_viewer_flagged = (\<exists>v \<in> set_option viewer_id. (sr_id r, v) \<in> fst ` set (sd_flags db))\<rparr>)
       (take limit (drop offset (newest_first (filter (\<lambda>(r, u). spec_matches spec viewer_id r)
          (join_users users (sd_submissions db))))))"

definition find_submission :: "user_table \<Rightarrow> uuid \<Rightarrow> uuid option \<Rightarrow> submission_db \<Rightarrow> submission_with_viewer option" where
  "find_submission users i viewer_id db =
     (case rev (list_internal users (ById i) viewer_id 1 0 db) of [] \<Rightarrow> None | s # ss \<Rightarrow> Some s)"

definition list_submissions ::
    "user_table \<Rightarrow> submission_filter \<Rightarrow> uuid option \<Rightarrow> nat \<Rightarrow> nat \<Rightarrow> submission_db \<Rightarrow> submission_with_viewer list" where
  "list_submissions users f viewer_id limit offset db = list_internal users (ByFilter f) viewer_id limit offset db"

fun queue_statuses :: "admin_queue_filter \<Rightarrow> string list" where
  "queue_statuses QueueReview = [''review'']"
| "queue_statuses QueueFlagged = [''flagged'']"
| "queue_statuses QueueAll = [''review'', ''flagged'']"

definition list_admin_queue ::
    "user_table \<Rightarrow> admin_queue_filter \<Rightarrow> nat \<Rightarrow> nat \<Rightarrow> submission_db \<Rightarrow> submission list" where
  "list_admin_queue users f limit offset db =
     map (\<lambda>(r, u). project_row db u r)
       (take limit (drop offset (newest_first (filter (\<lambda>(r, u). sr_status r \<in> set (queue_statuses f))
          (join_users users (sd_submissions db))))))"

subsection \<open>Writing\<close>

definition update_row :: "uuid \<Rightarrow> (submission_row \<Rightarrow> submission_row) \<Rightarrow> submission_db \<Rightarrow> submission_db" where
  "update_row i f db = db\<lparr>sd_submissions := map (\<lambda>r. if sr_id r = i then f r else r) (sd_submissions db)\<rparr>"

text \<open>
  The text columns that \<^verbatim>\<open>migrations/\<close> give the table \<open>users\<close>; a query that names another column is
  refused by the database.
\<close>

definition users_text_column :: "string \<Rightarrow> (user \<Rightarrow> string) option" where
  "users_text_column c =
     (if c = ''email'' then Some us_email
      else if c = ''password_hash'' then Some us_password_hash
      else if c = ''claimed_handle'' then Some us_claimed_handle
      else None)"

definition lookup_handle :: "user_table \<Rightarrow> uuid \<Rightarrow> submission_error + string" where
  "lookup_handle users user_id =
     (case users_text_column ''preferred_username'' of
        None \<Rightarrow> Inl (SubmissionDatabase ''column preferred_username does not exist'')
      | Some col \<Rightarrow>
          (case find_by_id user_id users of
             None \<Rightarrow> Inl (SubmissionDatabase ''row not found'')
           | Some u \<Rightarrow> Inr (col u)))"

text \<open>The insert is committed before the handle is looked up.\<close>

definition create_submission ::
    "user_table \<Rightarrow> uuid \<Rightarrow> time \<Rightarrow> new_submission \<Rightarrow> submission_db \<Rightarrow> (submission_error + submission) \<times> submission_db" where
  "create_submission users new_id now new db =
     (let r = \<lparr>sr_id = new_id, sr_submitter_id = ns_submitter_id new, sr_pattern = ns_pattern new,
            sr_proposed_label = ns_proposed_label new, sr_description = ns_description new,
            sr_sample_line = ns_sample_line new, sr_log_source = ns_log_source new, sr_status = ''review'',
            sr_rejection_reason = None, sr_created_at = now, sr_updated_at = now\<rparr>
      in if new_id \<in> sr_id ` set (sd_submissions db) then (Inl (SubmissionDatabase ''submissions_pkey''), db)
         else if ns_submitter_id new \<notin> us_id ` set users then (Inl (SubmissionDatabase ''foreign key''), db)
         else
           (let db' = db\<lparr>sd_submissions := sd_submissions db @ [r]\<rparr>
            in case lookup_handle users (ns_submitter_id new) of
                 Inl e \<Rightarrow> (Inl e, db')
               | Inr handle \<Rightarrow>
                   (Inr \<lparr>sb_id = new_id, sb_submitter_id = ns_submitter_id new, sb_submitter_handle = handle,
                      sb_pattern = ns_pattern new, sb_proposed_label = ns_proposed_label new,
                      sb_description = ns_description new, sb_sample_line = ns_sample_line new,
                      sb_log_source = ns_log_source new,
                      sb_status = (case status_parse (sr_status r) of Some s \<Rightarrow> s | None \<Rightarrow> Review),
                      sb_rejection_reason = None, sb_created_at = now, sb_updated_at = now, sb_vote_count = 0,
                      sb_flag_count = 0\<rparr>, db')))"

text \<open>A vote or a flag must name a submission and a user that exist.\<close>

definition refs_exist :: "user_table \<Rightarrow> uuid \<Rightarrow> uuid \<Rightarrow> submission_db \<Rightarrow> bool" where
  "refs_exist users submission_id user_id db \<longleftrightarrow>
     submission_id \<in> sr_id ` set (sd_submissions db) \<and> user_id \<in> us_id ` set users"

definition vote ::
    "user_table \<Rightarrow> time \<Rightarrow> uuid \<Rightarrow> uuid \<Rightarrow> submission_db \<Rightarrow> (submission_error + write_outcome) \<times> submission_db" where
  "vote users now submission_id user_id db =
     (if (submission_id, user_id) \<in> set (sd_votes db) then (Inr AlreadyExists, db)
      else if \<not> refs_exist users submission_id user_id db then (Inl (SubmissionDatabase ''foreign key''), db)
      else (Inr Written, update_row submission_id (\<lambda>r. r\<lparr>sr_updated_at := now\<rparr>)
              (db\<lparr>sd_votes := sd_votes db @ [(submission_id, user_id)]\<rparr>)))"

definition unvote :: "uuid \<Rightarrow> uuid \<Rightarrow> submission_db \<Rightarrow> write_outcome \<times> submission_db" where
  "unvote submission_id user_id db =
     (if (submission_id, user_id) \<in> set (sd_votes db)
      then (Written, db\<lparr>sd_votes := filter (\<lambda>v. v \<noteq> (submission_id, user_id)) (sd_votes db)\<rparr>)
      else (AlreadyExists, db))"

definition flag_submission ::
    "user_table \<Rightarrow> time \<Rightarrow> uuid \<Rightarrow> uuid \<Rightarrow> string option \<Rightarrow> submission_db \<Rightarrow>
     (submission_error + flag_outcome) \<times> submission_db" where
  "flag_submission users now submission_id user_id reason db =
     (case Option.bind (find_row submission_id db) (\<lambda>r. status_parse (sr_status r)) of
        None \<Rightarrow> (Inl SubmissionNotFound, db)
      | Some prior_status \<Rightarrow>
          (let present = (submission_id, user_id) \<in> fst ` set (sd_flags db);
               db1 = (if present then db else db\<lparr>sd_flags := sd_flags db @ [((submission_id, user_id), reason)]\<rparr>);
               count = flag_count submission_id db1;
               escalated = (\<not> present \<and> prior_status = Review \<and> count \<ge> AUTO_FLAG_THRESHOLD);
               db2 = (if escalated then update_row submission_id (\<lambda>r. r\<lparr>sr_status := ''flagged'', sr_updated_at := now\<rparr>) db1
                      else db1)
           in if \<not> present \<and> \<not> refs_exist users submission_id user_id db
              then (Inl (SubmissionDatabase ''foreign key''), db)
              else (Inr \<lparr>fo_write = (if present then AlreadyExists else Written), fo_flag_count = count,
                      fo_escalated = escalated\<rparr>, db2)))"

definition withdraw ::
    "user_table \<Rightarrow> time \<Rightarrow> uuid \<Rightarrow> uuid \<Rightarrow> submission_db \<Rightarrow> (submission_error + submission) \<times> submission_db" where
  "withdraw users now submission_id caller_id db =
     (case find_row submission_id db of
        None \<Rightarrow> (Inl SubmissionNotFound, db)
      | Some r \<Rightarrow>
          if sr_submitter_id r \<noteq> caller_id then (Inl SubmissionForbidden, db)
          else if status_parse (sr_status r) \<noteq> Some Review then (Inl BadState, db)
          else
            (let db' = update_row submission_id (\<lambda>r. r\<lparr>sr_status := ''withdrawn'', sr_updated_at := now\<rparr>) db
             in (case find_submission users submission_id None db' of
                   None \<Rightarrow> Inl SubmissionNotFound
                 | Some s \<Rightarrow> Inr (sw_submission s), db')))"

subsection \<open>Moderation\<close>

definition admin_transition ::
    "time \<Rightarrow> uuid \<Rightarrow> submission_status \<Rightarrow> string option \<Rightarrow> submission_status list \<Rightarrow> submission_db \<Rightarrow>
     (submission_error + submission_transition) \<times> submission_db" where
  "admin_transition now submission_id target reason legal_priors db =
     (case Option.bind (find_row submission_id db) (\<lambda>r. status_parse (sr_status r)) of
        None \<Rightarrow> (Inl SubmissionNotFound, db)
      | Some prior \<Rightarrow>
          if prior \<notin> set legal_priors then (Inl (IllegalTransition (status_as_str prior) (status_as_str target)), db)
          else if prior = target
          then (Inr \<lparr>st_id = submission_id, st_previous_status = status_as_str prior,
                  st_new_status = status_as_str target, st_was_changed = False\<rparr>, db)
          else
            (Inr \<lparr>st_id = submission_id, st_previous_status = status_as_str prior,
               st_new_status = status_as_str target, st_was_changed = True\<rparr>,
             if reason \<noteq> None
             then update_row submission_id
                    (\<lambda>r. r\<lparr>sr_status := status_as_str target, sr_rejection_reason := reason, sr_updated_at := now\<rparr>) db
             else update_row submission_id (\<lambda>r. r\<lparr>sr_status := status_as_str target, sr_updated_at := now\<rparr>) db))"

definition accept_submission ::
    "time \<Rightarrow> uuid \<Rightarrow> submission_db \<Rightarrow> (submission_error + submission_transition) \<times> submission_db" where
  "accept_submission now submission_id db =
     admin_transition now submission_id Accepted None [Review, Flagged, Accepted] db"

definition reject_submission ::
    "time \<Rightarrow> uuid \<Rightarrow> string \<Rightarrow> submission_db \<Rightarrow> (submission_error + submission_transition) \<times> submission_db" where
  "reject_submission now submission_id reason db =
     admin_transition now submission_id Rejected (Some reason) [Review, Flagged, Rejected] db"

definition dismiss_flag ::
    "time \<Rightarrow> uuid \<Rightarrow> submission_db \<Rightarrow> (submission_error + submission_transition) \<times> submission_db" where
  "dismiss_flag now submission_id db = admin_transition now submission_id Review None [Flagged, Review] db"

section \<open>Invariant\<close>

text \<open>What keys, checks and references of the three tables guarantee.\<close>

definition submissions_ok :: "uuid set \<Rightarrow> submission_db \<Rightarrow> bool" where
  "submissions_ok users db \<longleftrightarrow>
     distinct (map sr_id (sd_submissions db)) \<and> distinct (sd_votes db) \<and> distinct (map fst (sd_flags db)) \<and>
     (\<forall>r \<in> set (sd_submissions db). sr_submitter_id r \<in> users \<and> sr_status r \<in> range status_as_str) \<and>
     set (sd_votes db) \<union> fst ` set (sd_flags db) \<subseteq> sr_id ` set (sd_submissions db) \<times> users"

definition empty_submissions :: submission_db where
  "empty_submissions = \<lparr>sd_submissions = [], sd_votes = [], sd_flags = []\<rparr>"

lemma submissions_ok_empty [simp]: "submissions_ok users empty_submissions"
  by (simp add: submissions_ok_def empty_submissions_def)

lemma submissions_ok_mono: "submissions_ok users db \<Longrightarrow> users \<subseteq> users' \<Longrightarrow> submissions_ok users' db"
  by (auto simp: submissions_ok_def)

lemma status_as_str_inj [simp]: "status_as_str a = status_as_str b \<longleftrightarrow> a = b"
  by (cases a; cases b) simp_all

lemma status_parse_iff [simp]: "status_parse s = Some x \<longleftrightarrow> s = status_as_str x"
  unfolding status_parse_def by (cases x) (simp_all split: if_split)

lemma status_strings [simp]:
  "''review'' = status_as_str s \<longleftrightarrow> s = Review" "''flagged'' = status_as_str s \<longleftrightarrow> s = Flagged"
  "''withdrawn'' = status_as_str s \<longleftrightarrow> s = Withdrawn"
  by (cases s; simp)+

lemma status_in_range [simp]:
  "''review'' \<in> range status_as_str" "''flagged'' \<in> range status_as_str" "''withdrawn'' \<in> range status_as_str"
  by (auto simp: image_iff)

text \<open>The abstract state of a submission: where it is in its life.\<close>

definition status_of :: "uuid \<Rightarrow> submission_db \<Rightarrow> submission_status option" where
  "status_of i db = Option.bind (find_row i db) (\<lambda>r. status_parse (sr_status r))"

lemma status_of_Some: "status_of i db = Some s \<longleftrightarrow> (\<exists>r. find_row i db = Some r \<and> sr_status r = status_as_str s)"
  by (auto simp: status_of_def bind_eq_Some_conv)

lemma find_row_in: "find_row i db = Some r \<Longrightarrow> r \<in> set (sd_submissions db) \<and> sr_id r = i"
  by (auto simp: find_row_def find_Some_iff)

lemma find_row_None: "find_row i db = None \<longleftrightarrow> i \<notin> sr_id ` set (sd_submissions db)"
  by (auto simp: find_row_def find_None_iff)

text \<open>What no operation ever changes of a row.\<close>

definition content :: "submission_row \<Rightarrow> uuid \<times> uuid \<times> string \<times> string \<times> string \<times> string \<times> string \<times> time" where
  "content r = (sr_id r, sr_submitter_id r, sr_pattern r, sr_proposed_label r, sr_description r, sr_sample_line r,
     sr_log_source r, sr_created_at r)"

text \<open>An update of one row.\<close>

lemma find_row_update:
  assumes "\<And>r. sr_id (f r) = sr_id r"
  shows "find_row j (update_row i f db) = map_option (\<lambda>r. if sr_id r = i then f r else r) (find_row j db)"
proof -
  have "find (\<lambda>r. sr_id r = j) (map (\<lambda>r. if sr_id r = i then f r else r) rows) =
      map_option (\<lambda>r. if sr_id r = i then f r else r) (find (\<lambda>r. sr_id r = j) rows)" for rows
    by (induction rows) (auto simp: assms)
  then show ?thesis by (simp add: find_row_def update_row_def)
qed

lemma sd_update_row [simp]:
  "sd_votes (update_row i f db) = sd_votes db" "sd_flags (update_row i f db) = sd_flags db"
  "vote_count j (update_row i f db) = vote_count j db" "flag_count j (update_row i f db) = flag_count j db"
  by (simp_all add: update_row_def vote_count_def flag_count_def)

lemma update_row_ok:
  assumes "submissions_ok users db" and "\<And>r. sr_id (f r) = sr_id r" and "\<And>r. sr_submitter_id (f r) = sr_submitter_id r"
    and "\<And>r. sr_status r \<in> range status_as_str \<Longrightarrow> sr_status (f r) \<in> range status_as_str"
  shows "submissions_ok users (update_row i f db)"
proof -
  let ?g = "\<lambda>r. if sr_id r = i then f r else r"
  have ids: "map sr_id (sd_submissions (update_row i f db)) = map sr_id (sd_submissions db)"
    by (simp add: update_row_def assms(2))
  then have "sr_id ` set (sd_submissions (update_row i f db)) = sr_id ` set (sd_submissions db)"
    by (metis set_map)
  moreover have "\<forall>r \<in> set (sd_submissions db). sr_submitter_id (?g r) \<in> users \<and> sr_status (?g r) \<in> range status_as_str"
    using assms by (simp add: submissions_ok_def)
  then have "\<forall>r \<in> set (sd_submissions (update_row i f db)). sr_submitter_id r \<in> users \<and> sr_status r \<in> range status_as_str"
    by (auto simp: update_row_def)
  ultimately show ?thesis using assms(1) ids unfolding submissions_ok_def by simp
qed

subsection \<open>Operations keep it\<close>

lemma create_submission_ok:
  assumes "submissions_ok (us_id ` set users) db"
  shows "submissions_ok (us_id ` set users) (snd (create_submission users new_id now new db))"
  using assms by (auto simp: create_submission_def submissions_ok_def Let_def split: sum.splits)

lemma vote_ok:
  assumes "submissions_ok (us_id ` set users) db"
  shows "submissions_ok (us_id ` set users) (snd (vote users now i u db))"
proof (cases "snd (vote users now i u db) = db")
  case False
  then have n: "(i, u) \<notin> set (sd_votes db)" "refs_exist users i u db" and
    v: "snd (vote users now i u db) = update_row i (\<lambda>r. r\<lparr>sr_updated_at := now\<rparr>) (db\<lparr>sd_votes := sd_votes db @ [(i, u)]\<rparr>)"
    by (auto simp: vote_def split: if_splits)
  show ?thesis
    unfolding v using assms n by (intro update_row_ok) (auto simp: submissions_ok_def refs_exist_def)
qed (use assms in simp)

lemma unvote_ok:
  assumes "submissions_ok users db"
  shows "submissions_ok users (snd (unvote i u db))"
  using assms by (auto simp: unvote_def submissions_ok_def)

definition add_flag :: "uuid \<Rightarrow> uuid \<Rightarrow> string option \<Rightarrow> submission_db \<Rightarrow> submission_db" where
  "add_flag i u reason db = db\<lparr>sd_flags := sd_flags db @ [((i, u), reason)]\<rparr>"

lemma flag_submission_cases:
  assumes "snd (flag_submission users now i u reason db) \<noteq> db"
  obtains s where "status_of i db = Some s" and "(i, u) \<notin> fst ` set (sd_flags db)" and "refs_exist users i u db"
    and "snd (flag_submission users now i u reason db) =
      (if s = Review \<and> AUTO_FLAG_THRESHOLD \<le> flag_count i (add_flag i u reason db)
       then update_row i (\<lambda>r. r\<lparr>sr_status := ''flagged'', sr_updated_at := now\<rparr>) (add_flag i u reason db)
       else add_flag i u reason db)"
proof (cases "status_of i db")
  case None
  then show ?thesis using assms by (simp add: flag_submission_def status_of_def)
next
  case (Some s)
  show ?thesis
  proof (cases "(i, u) \<notin> fst ` set (sd_flags db) \<and> refs_exist users i u db")
    case True
    then show ?thesis using Some
      by (intro that [of s]) (simp_all add: flag_submission_def Let_def add_flag_def status_of_def)
  next
    case False
    have "snd (flag_submission users now i u reason db) = db"
    proof (cases "(i, u) \<in> fst ` set (sd_flags db)")
      case True
      then show ?thesis using Some by (simp add: flag_submission_def Let_def status_of_def)
    next
      case F: False
      then have "\<not> refs_exist users i u db" using False by simp
      then show ?thesis using Some F by (simp add: flag_submission_def Let_def status_of_def)
    qed
    then show ?thesis using assms by simp
  qed
qed

lemma add_flag_fields [simp]: "sd_submissions (add_flag i u reason db) = sd_submissions db"
  by (simp add: add_flag_def)

lemma flag_row_ok:
  assumes "submissions_ok (us_id ` set users) db"
  shows "submissions_ok (us_id ` set users) (snd (flag_submission users now i u reason db))"
proof (cases "snd (flag_submission users now i u reason db) = db")
  case False
  then obtain s where "(i, u) \<notin> fst ` set (sd_flags db)" "refs_exist users i u db" and
    f: "snd (flag_submission users now i u reason db) =
      (if s = Review \<and> AUTO_FLAG_THRESHOLD \<le> flag_count i (add_flag i u reason db)
       then update_row i (\<lambda>r. r\<lparr>sr_status := ''flagged'', sr_updated_at := now\<rparr>) (add_flag i u reason db)
       else add_flag i u reason db)"
    by (rule flag_submission_cases)
  then have "submissions_ok (us_id ` set users) (add_flag i u reason db)"
    using assms by (auto simp: submissions_ok_def refs_exist_def add_flag_def)
  then show ?thesis unfolding f by (simp add: update_row_ok)
qed (use assms in simp)

lemma withdraw_ok:
  assumes "submissions_ok users' db"
  shows "submissions_ok users' (snd (withdraw users now i u db))"
  using assms by (auto simp: withdraw_def Let_def split: option.split intro!: update_row_ok)

lemma admin_transition_ok:
  assumes "submissions_ok users db"
  shows "submissions_ok users (snd (admin_transition now i target reason priors db))"
  using assms by (auto simp: admin_transition_def split: option.split intro!: update_row_ok)

section \<open>Effect on a row\<close>

text \<open>
  How one operation may change a row that was there: what was submitted stays, and status and reason
  change only as \<open>P\<close> says.
\<close>

definition row_step :: "(uuid \<Rightarrow> submission_row \<Rightarrow> submission_row \<Rightarrow> bool) \<Rightarrow> submission_db \<Rightarrow> submission_db \<Rightarrow> bool" where
  "row_step P db db' \<longleftrightarrow> (\<forall>i r r'. find_row i db = Some r \<longrightarrow> find_row i db' = Some r' \<longrightarrow> content r' = content r \<and>
     (sr_status r' = sr_status r \<and> sr_rejection_reason r' = sr_rejection_reason r \<or> P i r r'))"

lemma row_step_same [simp]: "row_step P db db"
  by (simp add: row_step_def)

lemma find_row_cong: "sd_submissions db' = sd_submissions db \<Longrightarrow> find_row i db' = find_row i db"
  by (simp add: find_row_def)

lemma row_step_cong: "sd_submissions db' = sd_submissions db \<Longrightarrow> row_step P db db'"
  using find_row_cong [of db' db] by (simp add: row_step_def)

lemma row_step_update:
  assumes "sd_submissions db' = sd_submissions db" and "\<And>r. content (f r) = content r"
    and "\<And>r. find_row i db = Some r \<Longrightarrow>
      sr_status (f r) = sr_status r \<and> sr_rejection_reason (f r) = sr_rejection_reason r \<or> P i r (f r)"
  shows "row_step P db (update_row i f db')"
proof -
  have "sr_id (f r) = sr_id r" for r using assms(2) [of r] by (simp add: content_def)
  then have u: "find_row j (update_row i f db') = map_option (\<lambda>r. if sr_id r = i then f r else r) (find_row j db)" for j
    using find_row_update [of f j i db'] by (simp add: find_row_cong [OF assms(1)])
  have "content (if sr_id r = i then f r else r) = content r \<and>
      (sr_status (if sr_id r = i then f r else r) = sr_status r \<and>
       sr_rejection_reason (if sr_id r = i then f r else r) = sr_rejection_reason r \<or> P j r (if sr_id r = i then f r else r))"
    if "find_row j db = Some r" for j r
    using assms(2) [of r] assms(3) [of r] that find_row_in [OF that] by (cases "j = i") auto
  then show ?thesis unfolding row_step_def u by auto
qed

lemma find_append_left: "find Q xs = Some y \<Longrightarrow> find Q (xs @ ys) = Some y"
  by (induction xs) auto

lemma create_row_step: "row_step P db (snd (create_submission users new_id now new db))"
  by (auto simp: create_submission_def Let_def row_step_def find_row_def find_append_left split: sum.split)

lemma vote_row_step: "row_step P db (snd (vote users now j u db))"
  by (auto simp: vote_def intro!: row_step_update) (auto simp: content_def)

lemma unvote_row_step: "row_step P db (snd (unvote j u db))"
  by (simp add: unvote_def row_step_cong)

lemma flag_row_step:
  "row_step (\<lambda>i r r'. i = j \<and> sr_status r = ''review'' \<and> sr_status r' = ''flagged'' \<and>
       sr_rejection_reason r' = sr_rejection_reason r \<and> (j, u) \<notin> fst ` set (sd_flags db) \<and>
       AUTO_FLAG_THRESHOLD \<le> flag_count j (snd (flag_submission users now j u reason db)))
     db (snd (flag_submission users now j u reason db))"
proof (cases "snd (flag_submission users now j u reason db) = db")
  case False
  then obtain s where s: "status_of j db = Some s" "(j, u) \<notin> fst ` set (sd_flags db)" and
    f: "snd (flag_submission users now j u reason db) =
      (if s = Review \<and> AUTO_FLAG_THRESHOLD \<le> flag_count j (add_flag j u reason db)
       then update_row j (\<lambda>r. r\<lparr>sr_status := ''flagged'', sr_updated_at := now\<rparr>) (add_flag j u reason db)
       else add_flag j u reason db)"
    by (rule flag_submission_cases)
  show ?thesis
  proof (cases "s = Review \<and> AUTO_FLAG_THRESHOLD \<le> flag_count j (add_flag j u reason db)")
    case True
    then show ?thesis using s unfolding f if_P [OF True]
      by (intro row_step_update) (auto simp: content_def status_of_Some)
  next
    case False
    then show ?thesis unfolding f if_not_P [OF False] by (simp add: row_step_cong)
  qed
qed simp

lemma withdraw_row_step:
  "row_step (\<lambda>i r r'. i = j \<and> sr_status r = ''review'' \<and> sr_status r' = ''withdrawn'' \<and>
       sr_rejection_reason r' = sr_rejection_reason r \<and> sr_submitter_id r = u) db (snd (withdraw users now j u db))"
  by (auto simp: withdraw_def Let_def content_def split: option.split intro!: row_step_update)

lemma admin_transition_row_step:
  "row_step (\<lambda>i r r'. i = j \<and> sr_status r' = status_as_str target \<and>
       (\<exists>s \<in> set priors - {target}. sr_status r = status_as_str s) \<and>
       sr_rejection_reason r' = (if reason = None then sr_rejection_reason r else reason))
     db (snd (admin_transition now j target reason priors db))"
  by (auto simp: admin_transition_def content_def bind_eq_Some_conv split: option.split intro!: row_step_update)

end
