(* ===== verification/Login_Routes.thy ===== *)
theory Login_Routes
  imports Account_Routes
begin

text \<open>
  Models the handlers of \<^verbatim>\<open>totp_routes.rs\<close>, \<^verbatim>\<open>magic_link_routes.rs\<close>, \<^verbatim>\<open>device_routes.rs\<close> and
  \<^verbatim>\<open>rsi_verify_routes.rs\<close> of \<^verbatim>\<open>crates/starstats-server/src\<close> on the state of \<open>Account_Routes\<close>, and the
  requests of all of them as one step. The page of an RSI profile is the parameter \<open>check_bio\<close> of the
  verification request.
\<close>

section \<open>One-time codes\<close>

definition require_user_token :: "authenticated_user \<Rightarrow> reply option" where
  "require_user_token user =
     (if au_token_type user \<noteq> User then Some (Error 403 ''user_token_required'') else None)"

text \<open>The prologue the session routes share: a user token, a well-formed subject, an existing row.\<close>

definition session_user :: "platform \<Rightarrow> authenticated_user \<Rightarrow> account_state \<Rightarrow> reply + user" where
  "session_user pf auth st =
     (case require_user_token auth of
        Some r \<Rightarrow> Inl r
      | None \<Rightarrow> (case pf_parse_uuid pf (au_sub auth) of
          None \<Rightarrow> Inl (Error 500 ''bad_subject'')
        | Some i \<Rightarrow> (case find_by_id i (ac_users st) of
            None \<Rightarrow> Inl (Error 401 ''unauthorized'')
          | Some u \<Rightarrow> Inr u)))"

definition decrypt_user_secret :: "platform \<Rightarrow> uuid \<Rightarrow> account_state \<Rightarrow> reply + string option" where
  "decrypt_user_secret pf i st =
     (case get_totp_secret i (ac_users st) of
        None \<Rightarrow> Inr None
      | Some (ct, nonce) \<Rightarrow> (case pf_kek_decrypt pf ct nonce of
          Some s \<Rightarrow> Inr (Some s)
        | None \<Rightarrow> Inl (Error 500 ''decrypt_failed'')))"

definition verify_now :: "platform \<Rightarrow> draws \<Rightarrow> string \<Rightarrow> string \<Rightarrow> bool" where
  "verify_now pf d secret candidate = verify_at (pf_totp pf) secret candidate (of_int (dw_now d))"

definition totp_reply :: "platform \<Rightarrow> string \<Rightarrow> user \<Rightarrow> reply" where
  "totp_reply pf secret u =
     (let secret_b32 = pf_base32 pf secret
      in TotpSetupResponse secret_b32 (provisioning_uri secret_b32 ''StarStats'' (us_email u)) (''StarStats:'' @ us_email u))"

definition totp_setup :: "platform \<Rightarrow> draws \<Rightarrow> authenticated_user \<Rightarrow> account_state \<Rightarrow> reply \<times> account_state" where
  "totp_setup pf d auth st =
     (case session_user pf auth st of
        Inl r \<Rightarrow> (r, st)
      | Inr u \<Rightarrow>
          if us_totp_enabled_at u \<noteq> None then (Error 409 ''totp_already_enabled'', st)
          else (case decrypt_user_secret pf (us_id u) st of
              Inl r \<Rightarrow> (r, st)
            | Inr (Some secret) \<Rightarrow> (totp_reply pf secret u, st)
            | Inr None \<Rightarrow> (case pf_kek_encrypt pf (dw_secret d) (dw_nonce d) of
                None \<Rightarrow> (Error 500 ''encrypt_failed'', st)
              | Some ct \<Rightarrow> (totp_reply pf (dw_secret d) u,
                  st\<lparr>ac_users := start_totp_setup (us_id u) ct (dw_nonce d) (dw_now d) (ac_users st)\<rparr>))))"

definition recovery_hash :: "platform \<Rightarrow> string \<Rightarrow> string option" where
  "recovery_hash pf code = ha_hash (pf_hasher pf) code"

definition totp_confirm ::
    "platform \<Rightarrow> draws \<Rightarrow> authenticated_user \<Rightarrow> string \<Rightarrow> account_state \<Rightarrow> reply \<times> account_state" where
  "totp_confirm pf d auth code st =
     (case session_user pf auth st of
        Inl r \<Rightarrow> (r, st)
      | Inr u \<Rightarrow>
          if us_totp_enabled_at u \<noteq> None then (Error 409 ''totp_already_enabled'', st)
          else (case decrypt_user_secret pf (us_id u) st of
              Inl r \<Rightarrow> (r, st)
            | Inr None \<Rightarrow> (Error 409 ''no_setup_in_flight'', st)
            | Inr (Some secret) \<Rightarrow>
                if \<not> verify_now pf d secret code then (Error 422 ''code_mismatch'', st)
                else (let (codes, db) = regenerate_for_user (recovery_hash pf) (us_id u) (dw_codes d) (dw_ids d) (ac_codes st)
                  in (TotpConfirmResponse (case codes of None \<Rightarrow> [] | Some cs \<Rightarrow> cs),
                      st\<lparr>ac_users := mark_totp_enabled (us_id u) (dw_now d) (ac_users st), ac_codes := db\<rparr>))))"

definition totp_disable ::
    "platform \<Rightarrow> draws \<Rightarrow> authenticated_user \<Rightarrow> string \<Rightarrow> account_state \<Rightarrow> reply \<times> account_state" where
  "totp_disable pf d auth password st =
     (case session_user pf auth st of
        Inl r \<Rightarrow> (r, st)
      | Inr u \<Rightarrow>
          if \<not> verify_password (pf_hasher pf) password (us_password_hash u) then (Error 401 ''invalid_credentials'', st)
          else (TotpDisableResponse,
            st\<lparr>ac_codes := clear_for_user (us_id u) (ac_codes st),
               ac_users := disable_totp (us_id u) (dw_now d) (ac_users st)\<rparr>))"

definition regenerate_recovery ::
    "platform \<Rightarrow> draws \<Rightarrow> authenticated_user \<Rightarrow> string \<Rightarrow> account_state \<Rightarrow> reply \<times> account_state" where
  "regenerate_recovery pf d auth password st =
     (case session_user pf auth st of
        Inl r \<Rightarrow> (r, st)
      | Inr u \<Rightarrow>
          if \<not> verify_password (pf_hasher pf) password (us_password_hash u) then (Error 401 ''invalid_credentials'', st)
          else if us_totp_enabled_at u = None then (Error 409 ''totp_not_enabled'', st)
          else (case regenerate_for_user (recovery_hash pf) (us_id u) (dw_codes d) (dw_ids d) (ac_codes st) of
              (None, db) \<Rightarrow> (Error 500 ''internal'', st\<lparr>ac_codes := db\<rparr>)
            | (Some codes, db) \<Rightarrow> (RegenerateRecoveryResponse codes, st\<lparr>ac_codes := db\<rparr>)))"

definition looks_like_totp :: "string \<Rightarrow> bool" where
  "looks_like_totp s \<longleftrightarrow> length s = 6 \<and> list_all is_ascii_digit s"

text \<open>The second factor: a one-time code when it looks like one, a recovery code otherwise.\<close>

definition second_factor :: "platform \<Rightarrow> draws \<Rightarrow> user \<Rightarrow> string \<Rightarrow> account_state \<Rightarrow> (reply + bool) \<times> account_state" where
  "second_factor pf d u code st =
     (if looks_like_totp code then
        (case decrypt_user_secret pf (us_id u) st of
           Inl r \<Rightarrow> (Inl r, st)
         | Inr None \<Rightarrow> (Inl (Error 500 ''internal''), st)
         | Inr (Some secret) \<Rightarrow> (Inr (verify_now pf d secret code), st))
      else
        (let (ok, db) = redeem_code (pf_to_uppercase pf) (verify_password (pf_hasher pf)) (us_id u) code (dw_now d) (ac_codes st)
         in (Inr ok, st\<lparr>ac_codes := db\<rparr>)))"

definition verify_login ::
    "platform \<Rightarrow> draws \<Rightarrow> authenticated_user \<Rightarrow> string \<Rightarrow> account_state \<Rightarrow> reply \<times> account_state" where
  "verify_login pf d auth code st =
     (if au_token_type auth \<noteq> LoginInterim then (Error 403 ''interim_token_required'', st)
      else case pf_parse_uuid pf (au_sub auth) of
        None \<Rightarrow> (Error 500 ''bad_subject'', st)
      | Some i \<Rightarrow> (case find_by_id i (ac_users st) of
          None \<Rightarrow> (Error 401 ''unauthorized'', st)
        | Some u \<Rightarrow>
            if us_totp_enabled_at u = None then (Error 401 ''totp_no_longer_required'', st)
            else (case second_factor pf d u (trim code) st of
                (Inl r, st1) \<Rightarrow> (r, st1)
              | (Inr False, st1) \<Rightarrow> (Error 401 ''code_mismatch'', st1)
              | (Inr True, st1) \<Rightarrow> (issue_token pf d (us_id u) (us_claimed_handle u), st1))))"

section \<open>Magic links\<close>

text \<open>The answer is the same whatever happened.\<close>

definition magic_start :: "platform \<Rightarrow> draws \<Rightarrow> string \<Rightarrow> account_state \<Rightarrow> reply \<times> account_state" where
  "magic_start pf d email0 st =
     (MagicLinkStartResponse,
      (case find_by_email (pf_lower pf) (pf_to_lowercase pf (trim email0)) (ac_users st) of
         None \<Rightarrow> st
       | Some u \<Rightarrow> (case issue (us_id u) (dw_now d) (dw_token d) (ac_links st) of
           (Inl e, links) \<Rightarrow> st\<lparr>ac_links := links\<rparr>
         | (Inr token, links) \<Rightarrow>
             send_mail d (MagicLinkMail (us_email u) (us_claimed_handle u) token) (st\<lparr>ac_links := links\<rparr>))))"

definition magic_redeem :: "platform \<Rightarrow> draws \<Rightarrow> string \<Rightarrow> account_state \<Rightarrow> reply \<times> account_state" where
  "magic_redeem pf d token st =
     (case redeem_link token (dw_now d) (ac_links st) of
        (None, links) \<Rightarrow> (Error 401 ''invalid_or_expired'', st\<lparr>ac_links := links\<rparr>)
      | (Some i, links) \<Rightarrow>
          (let st1 = st\<lparr>ac_links := links\<rparr>
           in case find_by_id i (ac_users st1) of
                None \<Rightarrow> (Error 500 ''internal'', st1)
              | Some u \<Rightarrow>
                  if us_totp_enabled_at u \<noteq> None then (issue_login_interim pf d (us_id u) (us_claimed_handle u), st1)
                  else (issue_token pf d (us_id u) (us_claimed_handle u), st1)))"

section \<open>Devices\<close>

text \<open>
  The draws' codes are the pairing codes tried in turn; the foreign key of the pairings refuses one
  for an account that is gone.
\<close>

definition device_start ::
    "platform \<Rightarrow> draws \<Rightarrow> authenticated_user \<Rightarrow> string option \<Rightarrow> account_state \<Rightarrow> reply \<times> account_state" where
  "device_start pf d auth label st =
     (case require_user_token auth of
        Some r \<Rightarrow> (r, st)
      | None \<Rightarrow> (case pf_parse_uuid pf (au_sub auth) of
          None \<Rightarrow> (Error 500 ''bad_subject'', st)
        | Some i \<Rightarrow>
          if i \<notin> us_id ` set (ac_users st) then (Error 500 ''internal'', st)
          else (case create_pairing i (case label of None \<Rightarrow> [] | Some l \<Rightarrow> l) PAIRING_TTL (dw_now d) (dw_codes d) (ac_devices st) of
            (Inl e, db) \<Rightarrow> (Error 500 ''internal'', st\<lparr>ac_devices := db\<rparr>)
          | (Inr p, db) \<Rightarrow> (StartResponse (pr_code p) (pr_expires_at p) (pr_label p), st\<lparr>ac_devices := db\<rparr>))))"

definition device_redeem :: "platform \<Rightarrow> draws \<Rightarrow> string \<Rightarrow> account_state \<Rightarrow> reply \<times> account_state" where
  "device_redeem pf d code0 st =
     (let code = pf_to_uppercase pf (trim code0)
      in if length code \<noteq> 8 then (Error 400 ''invalid_code'', st)
         else case redeem_pairing code (dw_now d) (dw_id d) (ac_devices st) of
           (Inl UnknownCode, _) \<Rightarrow> (Error 404 ''unknown_code'', st)
         | (Inl AlreadyRedeemed, _) \<Rightarrow> (Error 409 ''already_redeemed'', st)
         | (Inl Expired, _) \<Rightarrow> (Error 410 ''expired'', st)
         | (Inl _, _) \<Rightarrow> (Error 500 ''internal'', st)
         | (Inr r, db) \<Rightarrow>
             (let st1 = st\<lparr>ac_devices := db\<rparr>
              in case find_by_id (rd_user_id r) (ac_users st1) of
                   None \<Rightarrow> (Error 500 ''internal'', st1)
                 | Some u \<Rightarrow> (case sign_device (pf_jwt pf) (pf_issuer pf) (nat (dw_now d)) (us_id u) (us_claimed_handle u) (rd_device_id r) of
                     Inl e \<Rightarrow> (Error 500 ''sign_failed'', st1)
                   | Inr token \<Rightarrow> (RedeemResponse token (rd_device_id r) (rd_label r), st1))))"

definition device_list :: "platform \<Rightarrow> authenticated_user \<Rightarrow> account_state \<Rightarrow> reply \<times> account_state" where
  "device_list pf auth st =
     (case require_user_token auth of
        Some r \<Rightarrow> (r, st)
      | None \<Rightarrow> (case pf_parse_uuid pf (au_sub auth) of
          None \<Rightarrow> (Error 500 ''bad_subject'', st)
        | Some i \<Rightarrow> (DeviceListResponse (list_for_user i (ac_devices st)), st)))"

definition device_revoke ::
    "platform \<Rightarrow> draws \<Rightarrow> authenticated_user \<Rightarrow> uuid \<Rightarrow> account_state \<Rightarrow> reply \<times> account_state" where
  "device_revoke pf d auth device_id st =
     (case require_user_token auth of
        Some r \<Rightarrow> (r, st)
      | None \<Rightarrow> (case pf_parse_uuid pf (au_sub auth) of
          None \<Rightarrow> (Error 500 ''bad_subject'', st)
        | Some i \<Rightarrow> (case revoke i device_id (dw_now d) (ac_devices st) of
            (Inr _, db) \<Rightarrow> (NoContent, st\<lparr>ac_devices := db\<rparr>)
          | (Inl DeviceNotFound, db) \<Rightarrow> (Error 404 ''device_not_found'', st\<lparr>ac_devices := db\<rparr>)
          | (Inl _, db) \<Rightarrow> (Error 500 ''internal'', st\<lparr>ac_devices := db\<rparr>))))"

section \<open>Handle verification\<close>

definition RSI_VERIFY_TTL :: time where
  "RSI_VERIFY_TTL = 30 * 60"

datatype rsi_check_outcome = BioContains | BioMissing | HandleNotFound | UpstreamUnavailable

text \<open>A code still running is reused.\<close>

definition rsi_start :: "platform \<Rightarrow> draws \<Rightarrow> authenticated_user \<Rightarrow> account_state \<Rightarrow> reply \<times> account_state" where
  "rsi_start pf d auth st =
     (case session_user pf auth st of
        Inl r \<Rightarrow> (r, st)
      | Inr u \<Rightarrow>
          if us_rsi_verified_at u \<noteq> None then (RsiStartResponse True None None (us_claimed_handle u), st)
          else (case (case (us_rsi_verify_code u, us_rsi_verify_expires_at u) of
                        (Some c, Some expiry) \<Rightarrow> if expiry > dw_now d then Some (c, expiry) else None
                      | _ \<Rightarrow> None) of
              Some (c, expiry) \<Rightarrow> (RsiStartResponse False (Some c) (Some expiry) (us_claimed_handle u), st)
            | None \<Rightarrow> (RsiStartResponse False (Some (dw_token d)) (Some (dw_now d + RSI_VERIFY_TTL)) (us_claimed_handle u),
                st\<lparr>ac_users := set_rsi_verify_code (us_id u) (dw_token d) (dw_now d + RSI_VERIFY_TTL) (dw_now d) (ac_users st)\<rparr>)))"

definition rsi_verify ::
    "(string \<Rightarrow> string \<Rightarrow> rsi_check_outcome) \<Rightarrow> platform \<Rightarrow> draws \<Rightarrow> authenticated_user \<Rightarrow> account_state \<Rightarrow> reply \<times> account_state" where
  "rsi_verify check_bio pf d auth st =
     (case session_user pf auth st of
        Inl r \<Rightarrow> (r, st)
      | Inr u \<Rightarrow>
          if us_rsi_verified_at u \<noteq> None then (RsiVerifyResponse ''already_verified'', st)
          else (case (us_rsi_verify_code u, us_rsi_verify_expires_at u) of
              (Some code, Some expiry) \<Rightarrow>
                if expiry \<le> dw_now d then (Error 410 ''code_expired'', st)
                else (case check_bio (us_claimed_handle u) code of
                    BioContains \<Rightarrow> (RsiVerifyResponse ''verified'',
                      st\<lparr>ac_users := mark_rsi_verified (us_id u) (dw_now d) (ac_users st)\<rparr>)
                  | BioMissing \<Rightarrow> (Error 422 ''code_not_in_bio'', st)
                  | HandleNotFound \<Rightarrow> (Error 404 ''rsi_handle_not_found'', st)
                  | UpstreamUnavailable \<Rightarrow> (Error 503 ''rsi_unavailable'', st))
            | _ \<Rightarrow> (Error 410 ''no_code_pending'', st)))"

section \<open>Requests\<close>

datatype request =
    Signup string string string
  | Login string string
  | VerifyEmail string
  | ChangePassword "string option" string string
  | ResendVerification "string option"
  | DeleteAccount "string option" string
  | GetMe "string option"
  | PasswordResetStart string
  | PasswordResetComplete string string
  | EmailChangeStart "string option" string
  | EmailChangeVerify string
  | TotpSetup "string option"
  | TotpConfirm "string option" string
  | TotpDisable "string option" string
  | RegenerateRecovery "string option" string
  | VerifyLogin "string option" string
  | MagicStart string
  | MagicRedeem string
  | DeviceStart "string option" "string option"
  | DeviceRedeem string
  | DeviceList "string option"
  | DeviceRevoke "string option" uuid
  | RsiStart "string option"
  | RsiVerify "string option" "string \<Rightarrow> string \<Rightarrow> rsi_check_outcome"

fun handle :: "platform \<Rightarrow> draws \<Rightarrow> request \<Rightarrow> account_state \<Rightarrow> reply \<times> account_state" where
  "handle pf d (Signup email password claimed_handle) st = signup pf d email password claimed_handle st"
| "handle pf d (Login email password) st = login pf d email password st"
| "handle pf d (VerifyEmail token) st = verify_email pf d token st"
| "handle pf d (ChangePassword b cur new) st = with_auth pf d b st (\<lambda>a. change_password pf d a cur new st)"
| "handle pf d (ResendVerification b) st = with_auth pf d b st (\<lambda>a. resend_verification pf d a st)"
| "handle pf d (DeleteAccount b confirm) st = with_auth pf d b st (\<lambda>a. delete_account pf d a confirm st)"
| "handle pf d (GetMe b) st = with_auth pf d b st (\<lambda>a. get_me pf a st)"
| "handle pf d (PasswordResetStart email) st = password_reset_start pf d email st"
| "handle pf d (PasswordResetComplete token new) st = password_reset_complete pf d token new st"
| "handle pf d (EmailChangeStart b email) st = with_auth pf d b st (\<lambda>a. email_change_start pf d a email st)"
| "handle pf d (EmailChangeVerify token) st = email_change_verify pf d token st"
| "handle pf d (TotpSetup b) st = with_auth pf d b st (\<lambda>a. totp_setup pf d a st)"
| "handle pf d (TotpConfirm b code) st = with_auth pf d b st (\<lambda>a. totp_confirm pf d a code st)"
| "handle pf d (TotpDisable b password) st = with_auth pf d b st (\<lambda>a. totp_disable pf d a password st)"
| "handle pf d (RegenerateRecovery b password) st = with_auth pf d b st (\<lambda>a. regenerate_recovery pf d a password st)"
| "handle pf d (VerifyLogin b code) st = with_auth pf d b st (\<lambda>a. verify_login pf d a code st)"
| "handle pf d (MagicStart email) st = magic_start pf d email st"
| "handle pf d (MagicRedeem token) st = magic_redeem pf d token st"
| "handle pf d (DeviceStart b label) st = with_auth pf d b st (\<lambda>a. device_start pf d a label st)"
| "handle pf d (DeviceRedeem code) st = device_redeem pf d code st"
| "handle pf d (DeviceList b) st = with_auth pf d b st (\<lambda>a. device_list pf a st)"
| "handle pf d (DeviceRevoke b i) st = with_auth pf d b st (\<lambda>a. device_revoke pf d a i st)"
| "handle pf d (RsiStart b) st = with_auth pf d b st (\<lambda>a. rsi_start pf d a st)"
| "handle pf d (RsiVerify b check_bio) st = with_auth pf d b st (\<lambda>a. rsi_verify check_bio pf d a st)"

end
