(* ===== verification/Admin_Routes.thy ===== *)
theory Admin_Routes
  imports Submissions Login_Routes
begin

text \<open>
  Models the role gates and the audit viewer of \<^verbatim>\<open>crates/starstats-server/src/admin_routes.rs\<close> and the
  handlers of \<^verbatim>\<open>admin_user_routes.rs\<close>, and what the deletion of an account does to the tables of staff
  roles and submissions.
\<close>

section \<open>State\<close>

record site_state =
  si_accounts :: account_state
  si_roles :: staff_table
  si_submissions :: submission_db

abbreviation si_users :: "site_state \<Rightarrow> user_table" where
  "si_users st \<equiv> ac_users (si_accounts st)"

datatype site_reply =
    SiteError nat string
  | AccountReply reply
  | AuditListResponse "audit_row list" bool
  | AdminUserListResponse "(user \<times> string list) list" bool
  | AdminUserResponse user "string list"
  | RoleTransitionResponse bool "string list"
  | SubmissionListResponse "submission_with_viewer list"
  | CreateSubmissionResponse submission_with_viewer
  | SubmissionDetailResponse submission_with_viewer
  | VoteResponse bool nat
  | FlagResponse nat string bool
  | WithdrawResponse submission_with_viewer
  | SubmissionTransitionResponse submission_transition
  | AdminQueueResponse "submission_with_viewer list" bool

fun site_status :: "site_reply \<Rightarrow> nat" where
  "site_status (SiteError status code) = status"
| "site_status (AccountReply r) = reply_status r"
| "site_status (CreateSubmissionResponse s) = 201"
| "site_status r = 200"

section \<open>The gate\<close>

datatype admin_rejection = AuthRejected auth_error | InvalidSub | StoreMissing | StoreError | Forbidden string

fun rejection_status :: "admin_rejection \<Rightarrow> nat" where
  "rejection_status (AuthRejected e) = 401"
| "rejection_status InvalidSub = 403"
| "rejection_status StoreMissing = 500"
| "rejection_status StoreError = 500"
| "rejection_status (Forbidden role) = 403"

text \<open>\<open>store\<close> is \<open>None\<close> when the router carries no role store.\<close>

definition extract_with_role ::
    "platform \<Rightarrow> time \<Rightarrow> string option \<Rightarrow> device_db \<Rightarrow> staff_table option \<Rightarrow> string \<Rightarrow> (staff_role_set \<Rightarrow> bool) \<Rightarrow>
     admin_rejection + authenticated_user" where
  "extract_with_role pf now bearer devices store role_label predicate =
     (case from_request_parts (pf_jwt pf) (pf_verifier pf) (nat now) bearer devices of
        Inl e \<Rightarrow> Inl (AuthRejected e)
      | Inr user \<Rightarrow>
          (case pf_parse_uuid pf (au_sub user) of
             None \<Rightarrow> Inl InvalidSub
           | Some user_id \<Rightarrow>
               (case store of
                  None \<Rightarrow> Inl StoreMissing
                | Some tbl \<Rightarrow>
                    if predicate (list_active_for_user user_id tbl) then Inr user else Inl (Forbidden role_label))))"

definition require_moderator ::
    "platform \<Rightarrow> time \<Rightarrow> string option \<Rightarrow> device_db \<Rightarrow> staff_table option \<Rightarrow> admin_rejection + authenticated_user" where
  "require_moderator pf now bearer devices store =
     extract_with_role pf now bearer devices store ''moderator'' (\<lambda>roles. has_role roles Moderator)"

definition require_admin ::
    "platform \<Rightarrow> time \<Rightarrow> string option \<Rightarrow> device_db \<Rightarrow> staff_table option \<Rightarrow> admin_rejection + authenticated_user" where
  "require_admin pf now bearer devices store =
     extract_with_role pf now bearer devices store ''admin'' (\<lambda>roles. has_role roles Admin)"

text \<open>A handler behind a gate.\<close>

definition with_moderator ::
    "platform \<Rightarrow> draws \<Rightarrow> string option \<Rightarrow> site_state \<Rightarrow> (authenticated_user \<Rightarrow> site_reply \<times> site_state) \<Rightarrow>
     site_reply \<times> site_state" where
  "with_moderator pf d bearer st h =
     (case require_moderator pf (dw_now d) bearer (ac_devices (si_accounts st)) (Some (si_roles st)) of
        Inl e \<Rightarrow> (SiteError (rejection_status e) ''rejected'', st)
      | Inr user \<Rightarrow> h user)"

definition with_admin ::
    "platform \<Rightarrow> draws \<Rightarrow> string option \<Rightarrow> site_state \<Rightarrow> (authenticated_user \<Rightarrow> site_reply \<times> site_state) \<Rightarrow>
     site_reply \<times> site_state" where
  "with_admin pf d bearer st h =
     (case require_admin pf (dw_now d) bearer (ac_devices (si_accounts st)) (Some (si_roles st)) of
        Inl e \<Rightarrow> (SiteError (rejection_status e) ''rejected'', st)
      | Inr user \<Rightarrow> h user)"

section \<open>The audit viewer\<close>

record audit_list_params =
  ap_actor :: "string option"
  ap_action :: "string option"
  ap_since :: "time option"
  ap_until :: "time option"
  ap_limit :: "int option"
  ap_offset :: "int option"

definition AUDIT_PAGE_DEFAULT :: int where
  "AUDIT_PAGE_DEFAULT = 50"

definition AUDIT_PAGE_MAX :: int where
  "AUDIT_PAGE_MAX = 200"

text \<open>Blank filters become no filter.\<close>

definition nonblank :: "string option \<Rightarrow> string option" where
  "nonblank s = (case s of None \<Rightarrow> None | Some x \<Rightarrow> if trim x = [] then None else Some (trim x))"

definition audit_filters_of :: "audit_list_params \<Rightarrow> audit_filters" where
  "audit_filters_of p =
     \<lparr>af_actor_handle = nonblank (ap_actor p), af_action = nonblank (ap_action p), af_since = ap_since p,
      af_until = ap_until p,
      af_limit = clamp (case ap_limit p of Some l \<Rightarrow> l | None \<Rightarrow> AUDIT_PAGE_DEFAULT) 1 AUDIT_PAGE_MAX,
      af_offset = max (case ap_offset p of Some k \<Rightarrow> k | None \<Rightarrow> 0) 0\<rparr>"

definition list_audit ::
    "platform \<Rightarrow> (string \<Rightarrow> string \<Rightarrow> bool) \<Rightarrow> draws \<Rightarrow> string option \<Rightarrow> audit_list_params \<Rightarrow> site_state \<Rightarrow>
     site_reply \<times> site_state" where
  "list_audit pf ilike d bearer p st =
     with_moderator pf d bearer st (\<lambda>user.
       let filters = audit_filters_of p; rows = list_entries ilike filters (ac_audit (si_accounts st))
       in (AuditListResponse rows (int (length rows) \<ge> af_limit filters), st))"

section \<open>Users and their roles\<close>

definition USERS_PAGE_DEFAULT :: int where
  "USERS_PAGE_DEFAULT = 50"

definition USERS_PAGE_MAX :: int where
  "USERS_PAGE_MAX = 200"

definition REASON_MAX_LEN :: nat where
  "REASON_MAX_LEN = 280"

text \<open>\<open>chars().count()\<close>: the bytes that do not continue a UTF-8 sequence.\<close>

definition chars_count :: "string \<Rightarrow> nat" where
  "chars_count s = length (filter (\<lambda>c. \<not> (CHR 0x80 \<le> c \<and> c \<le> CHR 0xBF)) s)"

text \<open>\<open>to_dto\<close> pairs the columns of a user with the names of the active roles.\<close>

definition to_dto :: "staff_table \<Rightarrow> user \<Rightarrow> user \<times> string list" where
  "to_dto tbl u = (u, as_strings (list_active_for_user (us_id u) tbl))"

definition list_users_admin ::
    "platform \<Rightarrow> (string \<Rightarrow> string \<Rightarrow> bool) \<Rightarrow> draws \<Rightarrow> string option \<Rightarrow> string option \<Rightarrow> int option \<Rightarrow> int option \<Rightarrow>
     site_state \<Rightarrow> site_reply \<times> site_state" where
  "list_users_admin pf ilike d bearer q limit offset st =
     with_moderator pf d bearer st (\<lambda>user.
       let lim = clamp (case limit of Some l \<Rightarrow> l | None \<Rightarrow> USERS_PAGE_DEFAULT) 1 USERS_PAGE_MAX;
           off = max (case offset of Some k \<Rightarrow> k | None \<Rightarrow> 0) 0;
           rows = list_users ilike \<lparr>lu_q = nonblank q, lu_limit = lim, lu_offset = off\<rparr> (si_users st)
       in (AdminUserListResponse (map (to_dto (si_roles st)) rows) (int (length rows) \<ge> lim), st))"

definition get_user_admin ::
    "platform \<Rightarrow> draws \<Rightarrow> string option \<Rightarrow> string \<Rightarrow> site_state \<Rightarrow> site_reply \<times> site_state" where
  "get_user_admin pf d bearer id_str st =
     with_moderator pf d bearer st (\<lambda>user.
       case Option.bind (pf_parse_uuid pf id_str) (\<lambda>i. find_by_id i (si_users st)) of
         None \<Rightarrow> (SiteError 404 ''user_not_found'', st)
       | Some u \<Rightarrow> (let (v, roles) = to_dto (si_roles st) u in (AdminUserResponse v roles, st)))"

text \<open>An audit row that cannot be written is logged and ignored.\<close>

definition site_audit ::
    "platform \<Rightarrow> draws \<Rightarrow> authenticated_user \<Rightarrow> string \<Rightarrow> json \<Rightarrow> site_state \<Rightarrow> site_state" where
  "site_audit pf d actor action payload st =
     (let ac = si_accounts st
      in st\<lparr>si_accounts := ac\<lparr>ac_audit := snd (append_entry (pf_sha256 pf) (pf_to_vec pf) (dw_now d)
           \<lparr>ae_actor_sub = Some (au_sub actor), ae_actor_handle = Some (au_preferred_username actor), ae_action = action,
            ae_payload = payload\<rparr> (ac_audit ac))\<rparr>\<rparr>)"

definition json_opt :: "string option \<Rightarrow> json" where
  "json_opt s = (case s of None \<Rightarrow> JNull | Some x \<Rightarrow> JString x)"

definition grant_role_route ::
    "platform \<Rightarrow> draws \<Rightarrow> string option \<Rightarrow> string \<Rightarrow> string \<Rightarrow> string option \<Rightarrow> site_state \<Rightarrow> site_reply \<times> site_state" where
  "grant_role_route pf d bearer id_str role_str reason st =
     with_admin pf d bearer st (\<lambda>actor.
       case pf_parse_uuid pf id_str of
         None \<Rightarrow> (SiteError 404 ''user_not_found'', st)
       | Some target_id \<Rightarrow>
       (case staff_role_from_str role_str of
          Inl e \<Rightarrow> (SiteError 400 ''invalid_role'', st)
        | Inr role \<Rightarrow>
          if (case reason of None \<Rightarrow> False | Some r \<Rightarrow> chars_count r > REASON_MAX_LEN) then (SiteError 400 ''reason_too_long'', st)
          else if find_by_id target_id (si_users st) = None then (SiteError 404 ''user_not_found'', st)
          else (case pf_parse_uuid pf (au_sub actor) of
            None \<Rightarrow> (SiteError 500 ''bad_subject'', st)
          | Some actor_id \<Rightarrow>
             (case grant_role (us_id ` set (si_users st)) (dw_id d) (dw_now d) target_id role (Some actor_id) (nonblank reason)
                 (si_roles st) of
                (Inl e, _) \<Rightarrow> (SiteError 500 ''staff_store_error'', st)
              | (Inr changed, tbl) \<Rightarrow>
                  (RoleTransitionResponse changed (as_strings (list_active_for_user target_id tbl)),
                   let st' = st\<lparr>si_roles := tbl\<rparr>
                   in if changed
                      then site_audit pf d actor ''staff.grant''
                        (JObject [(''target_user_id'', JString target_id), (''role'', JString (staff_role_as_str role)),
                           (''reason'', json_opt (nonblank reason))]) st'
                      else st')))))"

definition revoke_role_route ::
    "platform \<Rightarrow> draws \<Rightarrow> string option \<Rightarrow> string \<Rightarrow> string \<Rightarrow> site_state \<Rightarrow> site_reply \<times> site_state" where
  "revoke_role_route pf d bearer id_str role_str st =
     with_admin pf d bearer st (\<lambda>actor.
       case pf_parse_uuid pf id_str of
         None \<Rightarrow> (SiteError 404 ''user_not_found'', st)
       | Some target_id \<Rightarrow>
       (case staff_role_from_str role_str of
          Inl e \<Rightarrow> (SiteError 400 ''invalid_role'', st)
        | Inr role \<Rightarrow>
          if pf_parse_uuid pf (au_sub actor) = Some target_id \<and> role = Admin then (SiteError 400 ''cannot_revoke_own_admin'', st)
          else if find_by_id target_id (si_users st) = None then (SiteError 404 ''user_not_found'', st)
          else (case revoke_role (us_id ` set (si_users st)) (dw_now d) target_id role (pf_parse_uuid pf (au_sub actor))
                 (si_roles st) of
                (Inl e, _) \<Rightarrow> (SiteError 500 ''staff_store_error'', st)
              | (Inr changed, tbl) \<Rightarrow>
                  (RoleTransitionResponse changed (as_strings (list_active_for_user target_id tbl)),
                   let st' = st\<lparr>si_roles := tbl\<rparr>
                   in if changed
                      then site_audit pf d actor ''staff.revoke''
                        (JObject [(''target_user_id'', JString target_id), (''role'', JString (staff_role_as_str role))]) st'
                      else st'))))"

section \<open>Account requests\<close>

text \<open>
  What \<^verbatim>\<open>ON DELETE\<close> does when the accounts \<open>gone\<close> are deleted: grants, submissions, votes and flags of
  the account go, the granter and the revoker of other grants become null; the check on revoked
  grants may refuse the last, and with it the deletion.
\<close>

definition cascade_roles :: "uuid set \<Rightarrow> staff_table \<Rightarrow> staff_table option" where
  "cascade_roles gone tbl =
     (let tbl' = map (\<lambda>r. r\<lparr>sg_granted_by := Option.bind (sg_granted_by r) (\<lambda>i. if i \<in> gone then None else Some i),
               sg_revoked_by := Option.bind (sg_revoked_by r) (\<lambda>i. if i \<in> gone then None else Some i)\<rparr>)
            (filter (\<lambda>r. sg_user_id r \<notin> gone) tbl)
      in if list_all (\<lambda>r. (sg_revoked_at r = None) = (sg_revoked_by r = None)) tbl' then Some tbl' else None)"

definition cascade_submissions :: "uuid set \<Rightarrow> submission_db \<Rightarrow> submission_db" where
  "cascade_submissions gone db =
     (let rows = filter (\<lambda>r. sr_submitter_id r \<notin> gone) (sd_submissions db)
      in \<lparr>sd_submissions = rows,
          sd_votes = filter (\<lambda>(s, u). s \<in> sr_id ` set rows \<and> u \<notin> gone) (sd_votes db),
          sd_flags = filter (\<lambda>((s, u), reason). s \<in> sr_id ` set rows \<and> u \<notin> gone) (sd_flags db)\<rparr>)"

text \<open>
  A handler of the account routes on the whole state. The handler meets the check on revoked grants when it
  deletes an account: a refused deletion is answered 500, and its audit row was written before. The
  cascade then follows the deletion.
\<close>

definition account_request :: "platform \<Rightarrow> draws \<Rightarrow> request \<Rightarrow> site_state \<Rightarrow> site_reply \<times> site_state" where
  "account_request pf d req st =
     (let (r, ac) = handle pf (d\<lparr>dw_refused := \<lambda>i. cascade_roles {i} (si_roles st) = None\<rparr>) req (si_accounts st);
          gone = us_id ` set (si_users st) - us_id ` set (ac_users ac)
      in if gone = {} then (AccountReply r, st\<lparr>si_accounts := ac\<rparr>)
         else (case cascade_roles gone (si_roles st) of
             None \<Rightarrow> (AccountReply (Error 500 ''internal''),
                st\<lparr>si_accounts := (si_accounts st)\<lparr>ac_audit := ac_audit ac\<rparr>\<rparr>)
           | Some roles \<Rightarrow> (AccountReply r,
                \<lparr>si_accounts = ac, si_roles = roles, si_submissions = cascade_submissions gone (si_submissions st)\<rparr>)))"

end
