(* ===== verification/Submission_Routes.thy ===== *)
theory Submission_Routes
  imports Admin_Routes
begin

text \<open>
  Models the handlers of \<^verbatim>\<open>crates/starstats-server/src/submission_routes.rs\<close> and
  \<^verbatim>\<open>admin_submission_routes.rs\<close>, and the requests of the site as a whole.
\<close>

section \<open>User handlers\<close>

definition SUBMISSION_LIMIT_MAX :: nat where
  "SUBMISSION_LIMIT_MAX = 100"

definition SUBMISSION_LIMIT_MIN :: nat where
  "SUBMISSION_LIMIT_MIN = 1"

definition SUBMISSION_LIMIT_DEFAULT :: nat where
  "SUBMISSION_LIMIT_DEFAULT = 50"

definition ALLOWED_LOG_SOURCES :: "string list" where
  "ALLOWED_LOG_SOURCES = [''live'', ''ptu'', ''eptu'']"

text \<open>A handler behind the bearer extractor.\<close>

definition site_auth ::
    "platform \<Rightarrow> draws \<Rightarrow> string option \<Rightarrow> site_state \<Rightarrow> (authenticated_user \<Rightarrow> site_reply \<times> site_state) \<Rightarrow>
     site_reply \<times> site_state" where
  "site_auth pf d bearer st h =
     (case from_request_parts (pf_jwt pf) (pf_verifier pf) (nat (dw_now d)) bearer (ac_devices (si_accounts st)) of
        Inl e \<Rightarrow> (SiteError 401 ''unauthorized'', st)
      | Inr user \<Rightarrow> h user)"

text \<open>\<open>parse_user_id\<close> and \<open>parse_id\<close>; a failure ends the handler.\<close>

definition parse_user_id :: "platform \<Rightarrow> authenticated_user \<Rightarrow> site_reply + uuid" where
  "parse_user_id pf auth =
     (case pf_parse_uuid pf (au_sub auth) of None \<Rightarrow> Inl (SiteError 401 ''invalid_subject'') | Some i \<Rightarrow> Inr i)"

definition parse_id :: "platform \<Rightarrow> string \<Rightarrow> site_reply + uuid" where
  "parse_id pf raw = (case pf_parse_uuid pf raw of None \<Rightarrow> Inl (SiteError 400 ''invalid_id'') | Some i \<Rightarrow> Inr i)"

definition both_ids :: "platform \<Rightarrow> authenticated_user \<Rightarrow> string \<Rightarrow> site_reply + (uuid \<times> uuid)" where
  "both_ids pf auth raw = sbind (parse_id pf raw) (\<lambda>i. sbind (parse_user_id pf auth) (\<lambda>v. Inr (i, v)))"

definition submissions_list ::
    "platform \<Rightarrow> draws \<Rightarrow> string option \<Rightarrow> string option \<Rightarrow> bool option \<Rightarrow> nat option \<Rightarrow> nat option \<Rightarrow> site_state \<Rightarrow>
     site_reply \<times> site_state" where
  "submissions_list pf d bearer status mine limit offset st =
     site_auth pf d bearer st (\<lambda>auth.
       case parse_user_id pf auth of
         Inl r \<Rightarrow> (r, st)
       | Inr viewer_id \<Rightarrow>
           (case (case status of None \<Rightarrow> Some None | Some s \<Rightarrow> map_option Some (status_parse s)) of
              None \<Rightarrow> (SiteError 400 ''invalid_status'', st)
            | Some parsed \<Rightarrow>
                (SubmissionListResponse (list_submissions (si_users st)
                   \<lparr>sf_status = parsed, sf_mine_only = (case mine of Some m \<Rightarrow> m | None \<Rightarrow> False)\<rparr> (Some viewer_id)
                   (max SUBMISSION_LIMIT_MIN (min SUBMISSION_LIMIT_MAX
                      (case limit of Some l \<Rightarrow> l | None \<Rightarrow> SUBMISSION_LIMIT_DEFAULT)))
                   (case offset of Some k \<Rightarrow> k | None \<Rightarrow> 0) (si_submissions st)), st)))"

text \<open>The checks of a new submission, in the order of the handler.\<close>

definition check_new :: "string \<Rightarrow> string \<Rightarrow> string \<Rightarrow> string \<Rightarrow> string \<Rightarrow> string option" where
  "check_new pattern label description sample log_source =
     (if pattern = [] \<or> length pattern > PATTERN_MAX_LEN then Some ''invalid_pattern''
      else if label = [] \<or> length label > LABEL_MAX_LEN \<or> \<not> is_valid_event_type label then Some ''invalid_label''
      else if description = [] \<or> length description > DESCRIPTION_MAX_LEN then Some ''invalid_description''
      else if sample = [] \<or> length sample > SAMPLE_LINE_MAX_LEN then Some ''invalid_sample_line''
      else if log_source \<notin> set ALLOWED_LOG_SOURCES then Some ''invalid_log_source''
      else None)"

definition submissions_create ::
    "platform \<Rightarrow> draws \<Rightarrow> string option \<Rightarrow> string \<Rightarrow> string \<Rightarrow> string \<Rightarrow> string \<Rightarrow> string \<Rightarrow> site_state \<Rightarrow>
     site_reply \<times> site_state" where
  "submissions_create pf d bearer pattern proposed_label description sample_line log_source st =
     site_auth pf d bearer st (\<lambda>auth.
       case parse_user_id pf auth of
         Inl r \<Rightarrow> (r, st)
       | Inr viewer_id \<Rightarrow>
           (let src = pf_to_lowercase pf (trim log_source)
            in case check_new (trim pattern) (trim proposed_label) (trim description) (trim sample_line) src of
                 Some code \<Rightarrow> (SiteError 400 code, st)
               | None \<Rightarrow>
                   (case create_submission (si_users st) (dw_id d) (dw_now d)
                       \<lparr>ns_submitter_id = viewer_id, ns_pattern = trim pattern, ns_proposed_label = trim proposed_label,
                        ns_description = trim description, ns_sample_line = trim sample_line, ns_log_source = src\<rparr>
                       (si_submissions st) of
                      (Inl e, db) \<Rightarrow> (SiteError 500 ''create_failed'', st\<lparr>si_submissions := db\<rparr>)
                    | (Inr s, db) \<Rightarrow>
                        (CreateSubmissionResponse \<lparr>sw_submission = s, sw_viewer_voted = False, sw_viewer_flagged = False\<rparr>,
                         st\<lparr>si_submissions := db\<rparr>))))"

definition submissions_detail ::
    "platform \<Rightarrow> draws \<Rightarrow> string option \<Rightarrow> string \<Rightarrow> site_state \<Rightarrow> site_reply \<times> site_state" where
  "submissions_detail pf d bearer id_str st =
     site_auth pf d bearer st (\<lambda>auth.
       case both_ids pf auth id_str of
         Inl r \<Rightarrow> (r, st)
       | Inr (i, viewer_id) \<Rightarrow>
           (case find_submission (si_users st) i (Some viewer_id) (si_submissions st) of
              None \<Rightarrow> (SiteError 404 ''not_found'', st)
            | Some s \<Rightarrow> (SubmissionDetailResponse s, st)))"

definition submissions_vote ::
    "platform \<Rightarrow> draws \<Rightarrow> string option \<Rightarrow> string \<Rightarrow> bool \<Rightarrow> site_state \<Rightarrow> site_reply \<times> site_state" where
  "submissions_vote pf d bearer id_str v st =
     site_auth pf d bearer st (\<lambda>auth.
       case both_ids pf auth id_str of
         Inl r \<Rightarrow> (r, st)
       | Inr (i, viewer_id) \<Rightarrow>
           (case (if v then vote (si_users st) (dw_now d) i viewer_id (si_submissions st)
                  else (let (w, db) = unvote i viewer_id (si_submissions st) in (Inr w, db))) of
              (Inl e, _) \<Rightarrow> (SiteError 500 ''vote_failed'', st)
            | (Inr w, db) \<Rightarrow>
                (case find_submission (si_users st) i (Some viewer_id) db of
                   None \<Rightarrow> SiteError 404 ''not_found''
                 | Some s \<Rightarrow> VoteResponse (sw_viewer_voted s) (sb_vote_count (sw_submission s)),
                 st\<lparr>si_submissions := db\<rparr>)))"

definition submissions_flag ::
    "platform \<Rightarrow> draws \<Rightarrow> string option \<Rightarrow> string \<Rightarrow> string option \<Rightarrow> site_state \<Rightarrow> site_reply \<times> site_state" where
  "submissions_flag pf d bearer id_str reason st =
     site_auth pf d bearer st (\<lambda>auth.
       case both_ids pf auth id_str of
         Inl r \<Rightarrow> (r, st)
       | Inr (i, viewer_id) \<Rightarrow>
           if (case nonblank reason of None \<Rightarrow> False | Some r \<Rightarrow> length r > FLAG_REASON_MAX_LEN)
           then (SiteError 400 ''reason_too_long'', st)
           else (case flag_submission (si_users st) (dw_now d) i viewer_id (nonblank reason) (si_submissions st) of
                (Inl SubmissionNotFound, _) \<Rightarrow> (SiteError 404 ''not_found'', st)
              | (Inl e, _) \<Rightarrow> (SiteError 500 ''flag_failed'', st)
              | (Inr outcome, db) \<Rightarrow>
                  (case find_submission (si_users st) i (Some viewer_id) db of
                     None \<Rightarrow> SiteError 404 ''not_found''
                   | Some s \<Rightarrow> FlagResponse (fo_flag_count outcome) (status_as_str (sb_status (sw_submission s)))
                       (fo_escalated outcome),
                   st\<lparr>si_submissions := db\<rparr>)))"

definition submissions_withdraw ::
    "platform \<Rightarrow> draws \<Rightarrow> string option \<Rightarrow> string \<Rightarrow> site_state \<Rightarrow> site_reply \<times> site_state" where
  "submissions_withdraw pf d bearer id_str st =
     site_auth pf d bearer st (\<lambda>auth.
       case both_ids pf auth id_str of
         Inl r \<Rightarrow> (r, st)
       | Inr (i, viewer_id) \<Rightarrow>
           (case withdraw (si_users st) (dw_now d) i viewer_id (si_submissions st) of
              (Inr s, db) \<Rightarrow>
                (WithdrawResponse \<lparr>sw_submission = s, sw_viewer_voted = False, sw_viewer_flagged = False\<rparr>,
                 st\<lparr>si_submissions := db\<rparr>)
            | (Inl e, db) \<Rightarrow>
                (case e of
                   SubmissionNotFound \<Rightarrow> SiteError 404 ''not_found''
                 | SubmissionForbidden \<Rightarrow> SiteError 403 ''not_submitter''
                 | BadState \<Rightarrow> SiteError 400 ''bad_state''
                 | _ \<Rightarrow> SiteError 500 ''withdraw_failed'',
                 st\<lparr>si_submissions := db\<rparr>)))"

section \<open>Moderator handlers\<close>

definition REJECT_REASON_MAX_LEN :: nat where
  "REJECT_REASON_MAX_LEN = FLAG_REASON_MAX_LEN"

fun transition_error_response :: "submission_error \<Rightarrow> site_reply" where
  "transition_error_response SubmissionNotFound = SiteError 404 ''not_found''"
| "transition_error_response (IllegalTransition old new) = SiteError 409 ''illegal_transition''"
| "transition_error_response e = SiteError 500 ''transition_failed''"

definition moderator_ids :: "platform \<Rightarrow> authenticated_user \<Rightarrow> string \<Rightarrow> site_reply + uuid" where
  "moderator_ids pf moderator raw =
     sbind (parse_id pf raw) (\<lambda>i. sbind (parse_user_id pf moderator) (\<lambda>m. Inr i))"

text \<open>The tail the three handlers share: the audit row is written only when the status moved.\<close>

definition transition_reply ::
    "platform \<Rightarrow> draws \<Rightarrow> authenticated_user \<Rightarrow> string \<Rightarrow> string option \<Rightarrow>
     (submission_error + submission_transition) \<times> submission_db \<Rightarrow> site_state \<Rightarrow> site_reply \<times> site_state" where
  "transition_reply pf d moderator action reason res st =
     (case res of
        (Inl e, db) \<Rightarrow> (transition_error_response e, st\<lparr>si_submissions := db\<rparr>)
      | (Inr t, db) \<Rightarrow>
          (SubmissionTransitionResponse t,
           let st' = st\<lparr>si_submissions := db\<rparr>
           in if st_was_changed t
              then site_audit pf d moderator action
                (JObject ([(''submission_id'', JString (st_id t)), (''previous_status'', JString (st_previous_status t)),
                   (''new_status'', JString (st_new_status t))] @
                   (case reason of None \<Rightarrow> [] | Some r \<Rightarrow> [(''reason'', JString r)]))) st'
              else st'))"

definition admin_accept ::
    "platform \<Rightarrow> draws \<Rightarrow> string option \<Rightarrow> string \<Rightarrow> site_state \<Rightarrow> site_reply \<times> site_state" where
  "admin_accept pf d bearer id_str st =
     with_moderator pf d bearer st (\<lambda>moderator.
       case moderator_ids pf moderator id_str of
         Inl r \<Rightarrow> (r, st)
       | Inr i \<Rightarrow> transition_reply pf d moderator ''admin.submission.accept'' None
           (accept_submission (dw_now d) i (si_submissions st)) st)"

definition admin_reject ::
    "platform \<Rightarrow> draws \<Rightarrow> string option \<Rightarrow> string \<Rightarrow> string \<Rightarrow> site_state \<Rightarrow> site_reply \<times> site_state" where
  "admin_reject pf d bearer id_str reason st =
     with_moderator pf d bearer st (\<lambda>moderator.
       case moderator_ids pf moderator id_str of
         Inl r \<Rightarrow> (r, st)
       | Inr i \<Rightarrow>
           if trim reason = [] then (SiteError 400 ''missing_reason'', st)
           else if length (trim reason) > REJECT_REASON_MAX_LEN then (SiteError 400 ''reason_too_long'', st)
           else transition_reply pf d moderator ''admin.submission.reject'' (Some (trim reason))
             (reject_submission (dw_now d) i (trim reason) (si_submissions st)) st)"

definition admin_dismiss_flag ::
    "platform \<Rightarrow> draws \<Rightarrow> string option \<Rightarrow> string \<Rightarrow> site_state \<Rightarrow> site_reply \<times> site_state" where
  "admin_dismiss_flag pf d bearer id_str st =
     with_moderator pf d bearer st (\<lambda>moderator.
       case moderator_ids pf moderator id_str of
         Inl r \<Rightarrow> (r, st)
       | Inr i \<Rightarrow> transition_reply pf d moderator ''admin.submission.dismiss_flag'' None
           (dismiss_flag (dw_now d) i (si_submissions st)) st)"

definition parse_queue_filter :: "string option \<Rightarrow> admin_queue_filter option" where
  "parse_queue_filter raw =
     (case map_option to_ascii_lowercase raw of
        None \<Rightarrow> Some QueueReview
      | Some s \<Rightarrow>
          if s = ''review'' then Some QueueReview
          else if s = ''flagged'' then Some QueueFlagged
          else if s = ''all'' then Some QueueAll
          else None)"

definition QUEUE_LIMIT_DEFAULT :: nat where
  "QUEUE_LIMIT_DEFAULT = 50"

definition QUEUE_LIMIT_MAX :: nat where
  "QUEUE_LIMIT_MAX = 100"

definition QUEUE_LIMIT_MIN :: nat where
  "QUEUE_LIMIT_MIN = 1"

text \<open>One row more than the page holds is read to tell whether there are more.\<close>

definition queue_page ::
    "user_table \<Rightarrow> admin_queue_filter \<Rightarrow> nat option \<Rightarrow> nat option \<Rightarrow> submission_db \<Rightarrow> submission_with_viewer list \<times> bool" where
  "queue_page users f limit offset db =
     (let lim = max QUEUE_LIMIT_MIN (min QUEUE_LIMIT_MAX (case limit of Some l \<Rightarrow> l | None \<Rightarrow> QUEUE_LIMIT_DEFAULT));
          rows = list_admin_queue users f (lim + 1) (case offset of Some k \<Rightarrow> k | None \<Rightarrow> 0) db;
          has_more = length rows > lim
      in (map (\<lambda>s. \<lparr>sw_submission = s, sw_viewer_voted = False, sw_viewer_flagged = False\<rparr>)
            (if has_more then take lim rows else rows), has_more))"

definition admin_queue ::
    "platform \<Rightarrow> draws \<Rightarrow> string option \<Rightarrow> string option \<Rightarrow> nat option \<Rightarrow> nat option \<Rightarrow> site_state \<Rightarrow>
     site_reply \<times> site_state" where
  "admin_queue pf d bearer status limit offset st =
     with_moderator pf d bearer st (\<lambda>moderator.
       case parse_queue_filter status of
         None \<Rightarrow> (SiteError 400 ''invalid_status'', st)
       | Some f \<Rightarrow>
           (let (items, has_more) = queue_page (si_users st) f limit offset (si_submissions st)
            in (AdminQueueResponse items has_more, st)))"

section \<open>Requests\<close>

datatype site_request =
    AccountRequest request
  | AuditList "string option" "string \<Rightarrow> string \<Rightarrow> bool" audit_list_params
  | UserList "string option" "string \<Rightarrow> string \<Rightarrow> bool" "string option" "int option" "int option"
  | UserDetail "string option" string
  | GrantRole "string option" string string "string option"
  | RevokeRole "string option" string string
  | SubmissionList "string option" "string option" "bool option" "nat option" "nat option"
  | SubmissionCreate "string option" string string string string string
  | SubmissionDetail "string option" string
  | SubmissionVote "string option" string bool
  | SubmissionFlag "string option" string "string option"
  | SubmissionWithdraw "string option" string
  | AdminAccept "string option" string
  | AdminReject "string option" string string
  | AdminDismissFlag "string option" string
  | AdminQueue "string option" "string option" "nat option" "nat option"

fun site_handle :: "platform \<Rightarrow> draws \<Rightarrow> site_request \<Rightarrow> site_state \<Rightarrow> site_reply \<times> site_state" where
  "site_handle pf d (AccountRequest req) st = account_request pf d req st"
| "site_handle pf d (AuditList b ilike p) st = list_audit pf ilike d b p st"
| "site_handle pf d (UserList b ilike q limit offset) st = list_users_admin pf ilike d b q limit offset st"
| "site_handle pf d (UserDetail b i) st = get_user_admin pf d b i st"
| "site_handle pf d (GrantRole b i role reason) st = grant_role_route pf d b i role reason st"
| "site_handle pf d (RevokeRole b i role) st = revoke_role_route pf d b i role st"
| "site_handle pf d (SubmissionList b status mine limit offset) st = submissions_list pf d b status mine limit offset st"
| "site_handle pf d (SubmissionCreate b p l desc s src) st = submissions_create pf d b p l desc s src st"
| "site_handle pf d (SubmissionDetail b i) st = submissions_detail pf d b i st"
| "site_handle pf d (SubmissionVote b i v) st = submissions_vote pf d b i v st"
| "site_handle pf d (SubmissionFlag b i reason) st = submissions_flag pf d b i reason st"
| "site_handle pf d (SubmissionWithdraw b i) st = submissions_withdraw pf d b i st"
| "site_handle pf d (AdminAccept b i) st = admin_accept pf d b i st"
| "site_handle pf d (AdminReject b i reason) st = admin_reject pf d b i reason st"
| "site_handle pf d (AdminDismissFlag b i) st = admin_dismiss_flag pf d b i st"
| "site_handle pf d (AdminQueue b status limit offset) st = admin_queue pf d b status limit offset st"

end
