(* ===== verification/Accounts.thy ===== *)
theory Accounts
  imports Login_Routes
begin

text \<open>
  The account server as a whole: the invariant every request keeps, what a session token requires,
  and what the one-shot e-mail flows achieve.
\<close>

section \<open>Invariant\<close>

text \<open>
  Accounts are unique by id, e-mail and handle; a second factor that is on has a secret; devices,
  pairings, magic links and recovery codes belong to an existing account.
\<close>

definition totp_ok :: "user_table \<Rightarrow> bool" where
  "totp_ok tbl \<longleftrightarrow> (\<forall>u \<in> set tbl. us_totp_enabled_at u \<noteq> None \<longrightarrow>
     us_totp_secret_ciphertext u \<noteq> None \<and> us_totp_secret_nonce u \<noteq> None)"

definition owned :: "uuid set \<Rightarrow> account_state \<Rightarrow> bool" where
  "owned ids st \<longleftrightarrow>
     (\<forall>c r. db_pairings (ac_devices st) c = Some r \<longrightarrow> pw_user_id r \<in> ids) \<and>
     (\<forall>r \<in> set (db_devices (ac_devices st)). dr_user_id r \<in> ids) \<and>
     (\<forall>t r. ac_links st t = Some r \<longrightarrow> mr_user_id r \<in> ids) \<and>
     (\<forall>r \<in> set (ac_codes st). rc_user_id r \<in> ids)"

definition accounts_ok :: "platform \<Rightarrow> account_state \<Rightarrow> bool" where
  "accounts_ok pf st \<longleftrightarrow>
     users_ok (pf_lower pf) (ac_users st) \<and> totp_ok (ac_users st) \<and> table_ok (ac_events st) \<and> db_ok (ac_devices st) \<and>
     owned (us_id ` set (ac_users st)) st"

definition empty_accounts :: account_state where
  "empty_accounts = \<lparr>ac_users = [], ac_devices = \<lparr>db_pairings = Map.empty, db_devices = []\<rparr>, ac_links = Map.empty,
     ac_codes = [], ac_events = empty_events, ac_audit = \<lparr>at_rows = [], at_next_seq = 1\<rparr>, ac_outbox = []\<rparr>"

lemma accounts_ok_empty: "accounts_ok pf empty_accounts"
  by (simp add: accounts_ok_def empty_accounts_def users_ok_Nil totp_ok_def empty_events_ok db_ok_def owned_def)

text \<open>Mail and audit rows are outside the invariant.\<close>

lemma send_mail_fields [simp]:
  "ac_users (send_mail d m st) = ac_users st" "ac_devices (send_mail d m st) = ac_devices st"
  "ac_links (send_mail d m st) = ac_links st" "ac_codes (send_mail d m st) = ac_codes st"
  "ac_events (send_mail d m st) = ac_events st" "ac_audit (send_mail d m st) = ac_audit st"
  by (simp_all add: send_mail_def)

lemma audit_fields [simp]:
  "ac_users (snd (audit pf d u a p st)) = ac_users st" "ac_devices (snd (audit pf d u a p st)) = ac_devices st"
  "ac_links (snd (audit pf d u a p st)) = ac_links st" "ac_codes (snd (audit pf d u a p st)) = ac_codes st"
  "ac_events (snd (audit pf d u a p st)) = ac_events st" "ac_outbox (snd (audit pf d u a p st)) = ac_outbox st"
  by (simp_all add: audit_def Let_def split: prod.split)

lemma accounts_ok_cong:
  assumes "ac_users st' = ac_users st" and "ac_devices st' = ac_devices st" and "ac_links st' = ac_links st"
    and "ac_codes st' = ac_codes st" and "ac_events st' = ac_events st"
  shows "accounts_ok pf st' \<longleftrightarrow> accounts_ok pf st"
  using assms by (simp add: accounts_ok_def owned_def)

lemma accounts_ok_mail [simp]: "accounts_ok pf (send_mail d m st) \<longleftrightarrow> accounts_ok pf st"
  by (rule accounts_ok_cong) simp_all

lemma accounts_ok_audit [simp]: "accounts_ok pf (snd (audit pf' d u a p st)) \<longleftrightarrow> accounts_ok pf st"
  by (rule accounts_ok_cong) simp_all

lemma owned_users [simp]: "owned ids (st\<lparr>ac_users := tbl\<rparr>) \<longleftrightarrow> owned ids st"
  by (simp add: owned_def)

lemma ids_update_user [simp]:
  "(\<And>u. us_id (f u) = us_id u) \<Longrightarrow> us_id ` set (update_user i f tbl) = us_id ` set tbl"
  unfolding update_user_def set_map image_image by (rule image_cong) simp_all

text \<open>An update that leaves the indexed columns alone and keeps the secret of an enabled factor.\<close>

lemma accounts_ok_update:
  assumes "accounts_ok pf st" and "\<And>u. us_id (f u) = us_id u" and "\<And>u. us_email (f u) = us_email u"
    and "\<And>u. us_claimed_handle (f u) = us_claimed_handle u"
    and "\<And>u. u \<in> set (ac_users st) \<Longrightarrow> us_id u = i \<Longrightarrow> us_totp_enabled_at (f u) \<noteq> None \<Longrightarrow>
      us_totp_secret_ciphertext (f u) \<noteq> None \<and> us_totp_secret_nonce (f u) \<noteq> None"
  shows "accounts_ok pf (st\<lparr>ac_users := update_user i f (ac_users st)\<rparr>)"
proof -
  have "totp_ok (update_user i f (ac_users st))"
    using assms(1,5) by (auto simp: totp_ok_def accounts_ok_def update_user_def)
  then show ?thesis using assms by (simp add: accounts_ok_def update_user_ok)
qed

lemma accounts_ok_plain_update:
  assumes "accounts_ok pf st" and "\<And>u. us_id (f u) = us_id u" and "\<And>u. us_email (f u) = us_email u"
    and "\<And>u. us_claimed_handle (f u) = us_claimed_handle u"
    and "\<And>u. us_totp_enabled_at (f u) = us_totp_enabled_at u"
    and "\<And>u. us_totp_secret_ciphertext (f u) = us_totp_secret_ciphertext u"
    and "\<And>u. us_totp_secret_nonce (f u) = us_totp_secret_nonce u"
  shows "accounts_ok pf (st\<lparr>ac_users := update_user i f (ac_users st)\<rparr>)"
  using assms by (intro accounts_ok_update) (auto simp: accounts_ok_def totp_ok_def)

lemma same_id: "accounts_ok pf st \<Longrightarrow> u \<in> set (ac_users st) \<Longrightarrow> v \<in> set (ac_users st) \<Longrightarrow> us_id v = us_id u \<Longrightarrow> v = u"
  by (auto simp: accounts_ok_def users_ok_def distinct_map inj_on_def)

lemma find_by_id_in: "find_by_id i tbl = Some v \<Longrightarrow> v \<in> set tbl \<and> us_id v = i"
  by (auto simp: find_by_id_def find_Some_iff)

lemma resolve_user_Inr: "resolve_user pf auth st = Inr u \<Longrightarrow> u \<in> set (ac_users st)"
  by (auto simp: resolve_user_def find_by_id_def find_Some_iff split: option.splits)

lemma session_user_Inr: "session_user pf auth st = Inr u \<Longrightarrow> u \<in> set (ac_users st) \<and> au_token_type auth = User"
  by (auto simp: session_user_def require_user_token_def find_by_id_def find_Some_iff split: option.splits if_splits)

subsection \<open>The account routes keep it\<close>

lemmas account_updates = mark_email_verified_def update_password_def set_password_reset_token_def
  set_pending_email_def set_rsi_verify_code_def mark_rsi_verified_def

lemma set_verification_token_accounts:
  "accounts_ok pf st \<Longrightarrow> set_verification_token i t e now (ac_users st) = (r, tbl) \<Longrightarrow> accounts_ok pf (st\<lparr>ac_users := tbl\<rparr>)"
  by (auto simp: set_verification_token_def split: if_splits intro!: accounts_ok_plain_update)

lemma owned_mono: "owned ids st \<Longrightarrow> ids \<subseteq> ids' \<Longrightarrow> owned ids' st"
  unfolding owned_def by blast

lemma create_user_accounts:
  assumes "accounts_ok pf st" and "create_user (pf_lower pf) i now e p h (ac_users st) = (Inr u, tbl)"
  shows "accounts_ok pf (st\<lparr>ac_users := tbl\<rparr>)"
proof -
  have tbl: "tbl = ac_users st @ [u]" "us_totp_enabled_at u = None"
    using assms(2) by (auto simp: create_user_def Let_def split: if_splits)
  have "users_ok (pf_lower pf) tbl" using assms create_user_ok by (auto simp: accounts_ok_def)
  moreover have "owned (us_id ` set tbl) st"
    using assms(1) tbl(1) by (auto simp: accounts_ok_def elim: owned_mono)
  ultimately show ?thesis using assms(1) tbl by (auto simp: accounts_ok_def totp_ok_def)
qed

lemma signup_ok:
  assumes "accounts_ok pf st"
  shows "accounts_ok pf (snd (signup pf d e p h st))"
proof -
  have "accounts_ok pf (st\<lparr>ac_users := tbl'\<rparr>)"
    if c: "create_user (pf_lower pf) i now e phc h (ac_users st) = (Inr u, tbl)"
      and v: "set_verification_token j t ex now tbl = (r, tbl')" for i now phc u tbl j t ex r tbl'
    using set_verification_token_accounts [OF create_user_accounts [OF assms c], of j t ex now r tbl'] v by simp
  then show ?thesis
    using assms by (auto simp: signup_def split: option.split sum.split prod.split user_error.split)
qed

lemma verify_email_ok: "accounts_ok pf st \<Longrightarrow> accounts_ok pf (snd (verify_email pf d t st))"
  by (auto simp: verify_email_def account_updates split: option.split intro!: accounts_ok_plain_update)

lemma change_password_ok: "accounts_ok pf st \<Longrightarrow> accounts_ok pf (snd (change_password pf d a c n st))"
  by (auto simp: change_password_def account_updates split: sum.split intro!: accounts_ok_plain_update)

lemma resend_verification_ok: "accounts_ok pf st \<Longrightarrow> accounts_ok pf (snd (resend_verification pf d a st))"
  by (auto simp: resend_verification_def split: sum.split prod.split intro: set_verification_token_accounts)

lemma password_reset_start_ok: "accounts_ok pf st \<Longrightarrow> accounts_ok pf (snd (password_reset_start pf d e st))"
  by (auto simp: password_reset_start_def account_updates Let_def split: option.split intro!: accounts_ok_plain_update)

lemma email_change_start_ok: "accounts_ok pf st \<Longrightarrow> accounts_ok pf (snd (email_change_start pf d a e st))"
  by (auto simp: email_change_start_def account_updates Let_def split: option.split intro!: accounts_ok_plain_update)

lemma accounts_ok_devices:
  assumes "accounts_ok pf st" and "db_ok db" and "\<And>c r. db_pairings db c = Some r \<Longrightarrow> pw_user_id r \<in> us_id ` set (ac_users st)"
    and "\<And>r. r \<in> set (db_devices db) \<Longrightarrow> dr_user_id r \<in> us_id ` set (ac_users st)"
  shows "accounts_ok pf (st\<lparr>ac_devices := db\<rparr>)"
  using assms by (auto simp: accounts_ok_def owned_def)

lemma stamp_revoked_user [simp]: "dr_user_id (stamp_revoked now r) = dr_user_id r"
  by (simp add: stamp_revoked_def)

lemma revoke_all_accounts:
  assumes "accounts_ok pf st"
  shows "accounts_ok pf (st\<lparr>ac_devices := snd (revoke_all_for_user i now (ac_devices st))\<rparr>)"
proof (rule accounts_ok_devices [OF assms])
  show "db_ok (snd (revoke_all_for_user i now (ac_devices st)))"
    using assms by (simp add: accounts_ok_def db_ok_def)
qed (use assms in \<open>auto simp: accounts_ok_def owned_def revoke_all_for_user_def Let_def split: if_splits\<close>)

lemma password_reset_complete_ok:
  assumes "accounts_ok pf st"
  shows "accounts_ok pf (snd (password_reset_complete pf d t n st))"
proof -
  have "accounts_ok pf (st\<lparr>ac_users := complete_password_reset i phc now (ac_users st),
      ac_devices := snd (revoke_all_for_user i now (ac_devices st))\<rparr>)" for i phc now
  proof -
    have "accounts_ok pf (st\<lparr>ac_users := complete_password_reset i phc now (ac_users st)\<rparr>)"
      unfolding complete_password_reset_def by (rule accounts_ok_plain_update [OF assms]) simp_all
    from revoke_all_accounts [OF this, of i now] show ?thesis by simp
  qed
  then show ?thesis
    using assms by (auto simp: password_reset_complete_def split: option.split sum.split)
qed

lemma email_change_verify_ok:
  assumes "accounts_ok pf st"
  shows "accounts_ok pf (snd (email_change_verify pf d t st))"
proof -
  have "accounts_ok pf (st\<lparr>ac_users := tbl\<rparr>)"
    if c: "commit_pending_email (pf_lower pf) i now (ac_users st) = (Inr x, tbl)" for i now x tbl
  proof -
    have "users_ok (pf_lower pf) tbl" using assms c commit_pending_email_ok by (auto simp: accounts_ok_def)
    moreover have "us_id ` set tbl = us_id ` set (ac_users st)"
    proof -
      have "tbl = update_user i (\<lambda>u. case us_pending_email u of None \<Rightarrow> u
         | Some e \<Rightarrow> u\<lparr>us_email := e, us_email_verified_at := Some now, us_pending_email := None,
             us_pending_email_token := None, us_pending_email_expires_at := None, us_updated_at := now\<rparr>) (ac_users st)"
        using c by (simp add: commit_pending_email_def split: if_splits)
      then show ?thesis by (simp only:) (rule ids_update_user, simp split: option.split)
    qed
    moreover have "totp_ok tbl"
      using assms c
      by (auto simp: commit_pending_email_def accounts_ok_def totp_ok_def update_user_def split: if_splits option.split)
    ultimately show ?thesis using assms by (simp add: accounts_ok_def)
  qed
  then show ?thesis
    using assms by (auto simp: email_change_verify_def Let_def split: option.split sum.split prod.split user_error.split)
qed

lemma ids_filter: "us_id ` set (filter (\<lambda>u. us_id u \<noteq> i) tbl) = us_id ` set tbl - {i}"
  by auto

lemma cascade_owned: "owned ids st \<Longrightarrow> owned (ids - {i}) (cascade_user i st)"
  by (auto simp: owned_def cascade_user_def split: option.splits if_splits)

lemma cascade_ok:
  assumes "accounts_ok pf st" and "users = filter (\<lambda>u. us_id u \<noteq> i) (ac_users st)" and "table_ok events"
  shows "accounts_ok pf (cascade_user i (st\<lparr>ac_users := users, ac_events := events\<rparr>))"
proof -
  have "owned (us_id ` set (ac_users st)) (st\<lparr>ac_users := users, ac_events := events\<rparr>)"
    using assms(1) by (simp add: accounts_ok_def owned_def)
  from cascade_owned [OF this, of i] have "owned (us_id ` set users) (cascade_user i (st\<lparr>ac_users := users, ac_events := events\<rparr>))"
    unfolding assms(2) ids_filter .
  moreover have "db_ok (ac_devices (cascade_user i (st\<lparr>ac_users := users, ac_events := events\<rparr>)))"
    using assms(1) by (simp add: accounts_ok_def db_ok_def cascade_user_def distinct_map_filter)
  moreover have "totp_ok users" using assms(1,2) by (auto simp: accounts_ok_def totp_ok_def)
  moreover have "users_ok (pf_lower pf) users" using assms(1,2) by (simp add: accounts_ok_def users_ok_filter)
  moreover have "ac_users (cascade_user i (st\<lparr>ac_users := users, ac_events := events\<rparr>)) = users"
    "ac_events (cascade_user i (st\<lparr>ac_users := users, ac_events := events\<rparr>)) = events" by (simp_all add: cascade_user_def)
  ultimately show ?thesis using assms(3) unfolding accounts_ok_def by simp
qed

lemma delete_account_ok:
  assumes "accounts_ok pf st"
  shows "accounts_ok pf (snd (delete_account pf d a c st))"
proof (cases "resolve_user pf a st")
  case (Inr u)
  obtain ok st1 where au: "audit pf d u ''user.account_deleted''
      (JObject [(''user_id'', JString (us_id u)), (''claimed_handle'', JString (us_claimed_handle u))]) st = (ok, st1)"
    by fastforce
  then have ok1: "accounts_ok pf st1" using assms accounts_ok_audit by (metis snd_conv)
  obtain r users events where du: "delete_user (pf_lower pf) (dw_id d) (dw_refused d) (us_id u) (ac_users st1) (ac_events st1) = (r, users, events)"
    by (metis prod_cases3)
  have "accounts_ok pf (cascade_user (us_id u) (st1\<lparr>ac_users := users, ac_events := events\<rparr>))" if "r = Inr ()"
  proof (rule cascade_ok [OF ok1])
    show "users = filter (\<lambda>v. us_id v \<noteq> us_id u) (ac_users st1)" "table_ok events"
      using du that ok1 by (auto simp: delete_user_def accounts_ok_def intro: pseudonymise_events_ok split: option.splits if_splits)
  qed
  then show ?thesis
    using assms ok1 by (cases ok; cases r) (simp_all add: delete_account_def Inr au du)
qed (use assms in \<open>simp add: delete_account_def\<close>)

subsection \<open>The login routes keep it\<close>

lemma accounts_ok_codes:
  assumes "accounts_ok pf st" and "\<And>r. r \<in> set db \<Longrightarrow> rc_user_id r \<in> us_id ` set (ac_users st)"
  shows "accounts_ok pf (st\<lparr>ac_codes := db\<rparr>)"
  using assms by (auto simp: accounts_ok_def owned_def)

lemma regenerate_owner:
  assumes "regenerate_for_user hp i draws ids db = (r, db')" and "x \<in> set db'"
  shows "rc_user_id x = i \<or> x \<in> set db"
  using assms by (auto simp: regenerate_for_user_def clear_for_user_def Let_def split: option.splits)

lemma regenerate_accounts:
  assumes "accounts_ok pf st" and "u \<in> set (ac_users st)"
    and "regenerate_for_user hp (us_id u) draws ids (ac_codes st) = (r, db)"
  shows "accounts_ok pf (st\<lparr>ac_codes := db\<rparr>)"
proof (rule accounts_ok_codes [OF assms(1)])
  fix x
  assume "x \<in> set db"
  then have "rc_user_id x = us_id u \<or> x \<in> set (ac_codes st)" by (rule regenerate_owner [OF assms(3)])
  then show "rc_user_id x \<in> us_id ` set (ac_users st)" using assms(1,2) by (auto simp: accounts_ok_def owned_def)
qed

lemma redeem_code_owner:
  "x \<in> set (snd (redeem_code up vp i c now db)) \<Longrightarrow> \<exists>y \<in> set db. rc_user_id x = rc_user_id y"
  by (fastforce simp: redeem_code_def mark_used_def mark_row_def Let_def split: option.splits if_splits)

lemma second_factor_ok:
  assumes "accounts_ok pf st" and "second_factor pf d u c st = (r, st')"
  shows "accounts_ok pf st' \<and> ac_users st' = ac_users st"
proof (cases "looks_like_totp c")
  case True
  then show ?thesis using assms by (auto simp: second_factor_def split: sum.splits option.splits)
next
  case False
  let ?db = "snd (redeem_code (pf_to_uppercase pf) (verify_password (pf_hasher pf)) (us_id u) c (dw_now d) (ac_codes st))"
  have "accounts_ok pf (st\<lparr>ac_codes := ?db\<rparr>)"
    by (rule accounts_ok_codes [OF assms(1)])
      (use assms(1) redeem_code_owner in \<open>fastforce simp: accounts_ok_def owned_def\<close>)
  moreover have "st' = st\<lparr>ac_codes := ?db\<rparr>"
    using assms(2) False by (auto simp: second_factor_def Let_def split: prod.splits)
  ultimately show ?thesis by simp
qed

lemma totp_setup_ok: "accounts_ok pf st \<Longrightarrow> accounts_ok pf (snd (totp_setup pf d a st))"
  by (auto simp: totp_setup_def start_totp_setup_def split: sum.split option.split intro!: accounts_ok_update)

lemma decrypt_user_secret_Some:
  assumes "decrypt_user_secret pf i st = Inr (Some s)" and "u \<in> set (ac_users st)" and "us_id u = i" and "accounts_ok pf st"
  shows "us_totp_secret_ciphertext u \<noteq> None \<and> us_totp_secret_nonce u \<noteq> None"
proof -
  have "find_by_id i (ac_users st) = Some u"
    using assms(2-4) find_by_id_Some [of "pf_lower pf" "ac_users st" i u] by (simp add: accounts_ok_def)
  then show ?thesis using assms(1) by (auto simp: decrypt_user_secret_def get_totp_secret_def split: option.splits)
qed

lemma totp_confirm_ok:
  assumes "accounts_ok pf st"
  shows "accounts_ok pf (snd (totp_confirm pf d a c st))"
proof -
  have "accounts_ok pf (st\<lparr>ac_users := mark_totp_enabled (us_id u) now (ac_users st), ac_codes := db\<rparr>)"
    if u: "u \<in> set (ac_users st)" and s: "decrypt_user_secret pf (us_id u) st = Inr (Some s)"
      and r: "regenerate_for_user hp (us_id u) draws ids (ac_codes st) = (r, db)" for u s now hp draws ids r db
  proof -
    have "accounts_ok pf ((st\<lparr>ac_codes := db\<rparr>)\<lparr>ac_users := update_user (us_id u)
        (\<lambda>u. u\<lparr>us_totp_enabled_at := Some now, us_updated_at := now\<rparr>) (ac_users (st\<lparr>ac_codes := db\<rparr>))\<rparr>)"
      by (rule accounts_ok_update [OF regenerate_accounts [OF assms u r]])
        (use decrypt_user_secret_Some [OF s _ _ assms] in auto)
    moreover have "(st\<lparr>ac_codes := db\<rparr>)\<lparr>ac_users := tbl\<rparr> = st\<lparr>ac_users := tbl, ac_codes := db\<rparr>" for tbl by simp
    ultimately show ?thesis by (simp only: mark_totp_enabled_def) simp
  qed
  then show ?thesis
    using assms session_user_Inr [of pf a st]
    by (auto simp: totp_confirm_def Let_def split: sum.split option.split prod.split)
qed

lemma totp_disable_ok:
  assumes "accounts_ok pf st"
  shows "accounts_ok pf (snd (totp_disable pf d a p st))"
proof -
  have "accounts_ok pf (st\<lparr>ac_codes := clear_for_user i (ac_codes st), ac_users := disable_totp i now (ac_users st)\<rparr>)" for i now
  proof -
    have "accounts_ok pf (st\<lparr>ac_codes := clear_for_user i (ac_codes st)\<rparr>)"
      by (rule accounts_ok_codes [OF assms]) (use assms in \<open>auto simp: clear_for_user_def accounts_ok_def owned_def\<close>)
    from accounts_ok_update [OF this, of "\<lambda>u. u\<lparr>us_totp_secret_ciphertext := None, us_totp_secret_nonce := None,
        us_totp_setup_at := None, us_totp_enabled_at := None, us_updated_at := now\<rparr>" i]
    show ?thesis by (simp add: disable_totp_def)
  qed
  then show ?thesis using assms by (auto simp: totp_disable_def split: sum.split)
qed

lemma regenerate_recovery_ok: "accounts_ok pf st \<Longrightarrow> accounts_ok pf (snd (regenerate_recovery pf d a p st))"
  using session_user_Inr [of pf a st]
  by (auto simp: regenerate_recovery_def split: sum.split option.split prod.split intro: regenerate_accounts)

lemma verify_login_ok: "accounts_ok pf st \<Longrightarrow> accounts_ok pf (snd (verify_login pf d a c st))"
  using second_factor_ok [of pf st d _ "trim c"]
  by (auto simp: verify_login_def split: sum.split option.split prod.split bool.split)

lemma accounts_ok_links:
  assumes "accounts_ok pf st" and "\<And>t r. db t = Some r \<Longrightarrow> mr_user_id r \<in> us_id ` set (ac_users st)"
  shows "accounts_ok pf (st\<lparr>ac_links := db\<rparr>)"
  using assms by (auto simp: accounts_ok_def owned_def)

lemma magic_start_ok:
  assumes "accounts_ok pf st"
  shows "accounts_ok pf (snd (magic_start pf d e st))"
proof -
  have "accounts_ok pf (st\<lparr>ac_links := links\<rparr>)"
    if "find_by_email (pf_lower pf) em (ac_users st) = Some u" "issue (us_id u) now t (ac_links st) = (r, links)"
    for em u now t r links
    by (rule accounts_ok_links [OF assms])
      (use that assms in \<open>auto simp: find_by_email_def find_Some_iff issue_def accounts_ok_def owned_def split: if_splits\<close>)
  then show ?thesis using assms by (auto simp: magic_start_def split: option.split prod.split sum.split)
qed

lemma magic_redeem_ok:
  assumes "accounts_ok pf st"
  shows "accounts_ok pf (snd (magic_redeem pf d t st))"
proof -
  have "accounts_ok pf (st\<lparr>ac_links := links\<rparr>)" if "redeem_link t now (ac_links st) = (r, links)" for now r links
    by (rule accounts_ok_links [OF assms])
      (use that assms in \<open>auto simp: redeem_link_def accounts_ok_def owned_def split: option.splits if_splits\<close>)
  then show ?thesis using assms by (auto simp: magic_redeem_def Let_def split: option.split prod.split)
qed

lemma create_pairing_user:
  "create_pairing i l ttl now codes db = (r, db') \<Longrightarrow> db_devices db' = db_devices db \<and>
     (\<forall>c row. db_pairings db' c = Some row \<longrightarrow> pw_user_id row = i \<or> db_pairings db c = Some row)"
  using insert_pairing_cases [of 5 codes "\<lparr>pw_user_id = i, pw_label = (if trim l = [] then DEFAULT_LABEL else l),
      pw_expires_at = now + ttl, pw_redeemed_at = None\<rparr>" db]
  by (auto simp: create_pairing_def Let_def split: prod.splits sum.splits if_splits)

lemma device_start_ok:
  assumes "accounts_ok pf st"
  shows "accounts_ok pf (snd (device_start pf d a l st))"
proof -
  have "accounts_ok pf (st\<lparr>ac_devices := db\<rparr>)"
    if "i \<in> us_id ` set (ac_users st)" and c: "create_pairing i lb ttl now codes (ac_devices st) = (r, db)" for i lb ttl now codes r db
  proof (rule accounts_ok_devices [OF assms])
    fix k row
    assume "db_pairings db k = Some row"
    then have "pw_user_id row = i \<or> db_pairings (ac_devices st) k = Some row" using create_pairing_user [OF c] by blast
    then show "pw_user_id row \<in> us_id ` set (ac_users st)"
      using that(1) assms by (auto simp: accounts_ok_def owned_def)
  qed (use assms create_pairing_user [OF c] in \<open>simp_all add: accounts_ok_def owned_def db_ok_def\<close>)
  then show ?thesis using assms by (auto simp: device_start_def split: option.split prod.split sum.split)
qed

lemma redeem_pairing_accounts:
  assumes "accounts_ok pf st" and "redeem_pairing c now i (ac_devices st) = (r, db)"
  shows "accounts_ok pf (st\<lparr>ac_devices := db\<rparr>)"
proof (rule accounts_ok_devices [OF assms(1)])
  show "db_ok db"
    using assms by (auto simp: redeem_pairing_def accounts_ok_def db_ok_def split: option.splits if_splits)
qed (use assms in \<open>auto simp: redeem_pairing_def accounts_ok_def owned_def split: option.splits if_splits\<close>)

lemma device_redeem_ok: "accounts_ok pf st \<Longrightarrow> accounts_ok pf (snd (device_redeem pf d c st))"
  by (auto simp: device_redeem_def Let_def split: option.split prod.split sum.split device_error.split
      intro: redeem_pairing_accounts)

lemma device_revoke_ok:
  assumes "accounts_ok pf st"
  shows "accounts_ok pf (snd (device_revoke pf d a i st))"
proof -
  have "accounts_ok pf (st\<lparr>ac_devices := snd (revoke u i now (ac_devices st))\<rparr>)" for u now
  proof (rule accounts_ok_devices [OF assms])
    show "db_ok (snd (revoke u i now (ac_devices st)))" using assms by (simp add: accounts_ok_def db_ok_def)
  qed (use assms in \<open>auto simp: accounts_ok_def owned_def revoke_def Let_def split: if_splits\<close>)
  then show ?thesis
    using assms by (auto simp: device_revoke_def split: option.split prod.split sum.split device_error.split) (metis snd_conv)+
qed

lemma rsi_start_ok: "accounts_ok pf st \<Longrightarrow> accounts_ok pf (snd (rsi_start pf d a st))"
  by (auto simp: rsi_start_def account_updates split: option.split sum.split intro!: accounts_ok_plain_update)

lemma rsi_verify_ok: "accounts_ok pf st \<Longrightarrow> accounts_ok pf (snd (rsi_verify cb pf d a st))"
  by (auto simp: rsi_verify_def account_updates split: option.split sum.split rsi_check_outcome.split
      intro!: accounts_ok_plain_update)

lemma with_auth_ok: "accounts_ok pf st \<Longrightarrow> (\<And>a. accounts_ok pf (snd (h a))) \<Longrightarrow> accounts_ok pf (snd (with_auth pf d b st h))"
  by (simp add: with_auth_def split: sum.split)

lemmas routes_ok = signup_ok verify_email_ok change_password_ok resend_verification_ok password_reset_start_ok
  email_change_start_ok password_reset_complete_ok email_change_verify_ok delete_account_ok totp_setup_ok totp_confirm_ok
  totp_disable_ok regenerate_recovery_ok verify_login_ok magic_start_ok magic_redeem_ok device_start_ok device_redeem_ok
  device_revoke_ok rsi_start_ok rsi_verify_ok

lemma readers_ok:
  "accounts_ok pf st \<Longrightarrow> accounts_ok pf (snd (login pf d e p st))"
  "accounts_ok pf st \<Longrightarrow> accounts_ok pf (snd (get_me pf a st))"
  "accounts_ok pf st \<Longrightarrow> accounts_ok pf (snd (device_list pf a st))"
  by (simp_all add: login_def get_me_def device_list_def split: option.split sum.split)

lemma handle_ok: "accounts_ok pf st \<Longrightarrow> accounts_ok pf (snd (handle pf d req st))"
  by (cases req) (simp_all add: routes_ok readers_ok with_auth_ok)

section \<open>Properties\<close>

inductive served :: "platform \<Rightarrow> account_state \<Rightarrow> bool" for pf where
  start: "served pf empty_accounts"
| request: "served pf st \<Longrightarrow> served pf (snd (handle pf d req st))"

text \<open>
  Whatever requests the account server handles, from an empty database on: no two accounts share an
  id, an e-mail or a handle (up to case), an account with the second factor on has its secret stored,
  event keys stay unique, device ids stay unique, and every device, pairing code, magic link and
  recovery code belongs to an existing account.
\<close>

theorem served_accounts_ok: "served pf st \<Longrightarrow> accounts_ok pf st"
  by (induction rule: served.induct) (simp_all add: accounts_ok_empty handle_ok)

text \<open>Replies that carry a session token, traced to the routes that can give one.\<close>

lemma issue_token_reply:
  "issue_token pf d i h = AuthResponse t j g b \<longleftrightarrow>
     sign_user (pf_jwt pf) (pf_issuer pf) (nat (dw_now d)) i h = Inr t \<and> j = i \<and> g = h \<and> \<not> b"
  by (auto simp: issue_token_def split: sum.split)

lemma issue_login_interim_reply:
  "issue_login_interim pf d i h = AuthResponse t j g b \<longleftrightarrow>
     sign_login_interim (pf_jwt pf) (pf_issuer pf) (nat (dw_now d)) i h = Inr t \<and> j = i \<and> g = h \<and> b"
  by (auto simp: issue_login_interim_def split: sum.split)

lemma signup_session:
  assumes "signup pf d e p h st = (AuthResponse t i g b, st')"
  shows "i \<notin> us_id ` set (ac_users st)"
  using assms
  by (auto simp: signup_def validate_signup_def issue_token_reply create_user_def Let_def
      split: option.splits sum.splits prod.splits if_splits user_error.splits)

lemma second_factor_True:
  assumes "second_factor pf d u c st = (Inr True, st')"
  shows "(looks_like_totp c \<and> (\<exists>s. decrypt_user_secret pf (us_id u) st = Inr (Some s) \<and> verify_now pf d s c)) \<or>
    fst (redeem_code (pf_to_uppercase pf) (verify_password (pf_hasher pf)) (us_id u) c (dw_now d) (ac_codes st))"
  using assms by (auto simp: second_factor_def Let_def split: if_splits sum.splits option.splits prod.splits)

lemma error_replies:
  "decrypt_user_secret pf i st = Inl r \<Longrightarrow> \<exists>s c. r = Error s c"
  "resolve_user pf a st = Inl r \<Longrightarrow> \<exists>s c. r = Error s c"
  "session_user pf a st = Inl r \<Longrightarrow> \<exists>s c. r = Error s c"
  "require_user_token a = Some r \<Longrightarrow> \<exists>s c. r = Error s c"
  "second_factor pf d u c st = (Inl r, st') \<Longrightarrow> \<exists>s c. r = Error s c"
  by (auto simp: decrypt_user_secret_def resolve_user_def session_user_def require_user_token_def second_factor_def Let_def
      split: option.splits if_splits sum.splits prod.splits)

lemma verify_login_session:
  assumes "verify_login pf d a c st = (AuthResponse t i g b, st')"
  shows "\<exists>u. find_by_id i (ac_users st) = Some u \<and> au_token_type a = LoginInterim \<and> second_factor pf d u (trim c) st = (Inr True, st')"
proof -
  obtain j where j: "pf_parse_uuid pf (au_sub a) = Some j" and l: "au_token_type a = LoginInterim"
    using assms by (auto simp: verify_login_def split: if_splits option.splits)
  then obtain u where u: "find_by_id j (ac_users st) = Some u"
    using assms by (auto simp: verify_login_def split: if_splits option.splits)
  then have "us_id u = j" by (auto simp: find_by_id_def find_Some_iff)
  then show ?thesis
    using assms j u l by (auto simp: verify_login_def issue_token_reply dest: error_replies(5)
        split: if_splits sum.splits prod.splits bool.splits)
qed

lemma with_auth_session:
  assumes "with_auth pf d b st h = (AuthResponse t i g q, st')"
  obtains a where "from_request_parts (pf_jwt pf) (pf_verifier pf) (nat (dw_now d)) b (ac_devices st) = Inr a"
    and "h a = (AuthResponse t i g q, st')"
  using assms by (auto simp: with_auth_def split: sum.splits)

text \<open>The routes behind the extractor other than the second leg of the login give no session.\<close>

lemma no_session:
  "change_password pf d a c n st \<noteq> (AuthResponse t i g q, st')" "resend_verification pf d a st \<noteq> (AuthResponse t i g q, st')"
  "delete_account pf d a c st \<noteq> (AuthResponse t i g q, st')" "get_me pf a st \<noteq> (AuthResponse t i g q, st')"
  "email_change_start pf d a c st \<noteq> (AuthResponse t i g q, st')" "totp_setup pf d a st \<noteq> (AuthResponse t i g q, st')"
  "totp_confirm pf d a c st \<noteq> (AuthResponse t i g q, st')" "totp_disable pf d a c st \<noteq> (AuthResponse t i g q, st')"
  "regenerate_recovery pf d a c st \<noteq> (AuthResponse t i g q, st')" "device_start pf d a l st \<noteq> (AuthResponse t i g q, st')"
  "device_list pf a st \<noteq> (AuthResponse t i g q, st')" "device_revoke pf d a c st \<noteq> (AuthResponse t i g q, st')"
  "rsi_start pf d a st \<noteq> (AuthResponse t i g q, st')" "rsi_verify cb pf d a st \<noteq> (AuthResponse t i g q, st')"
  "verify_email pf d c st \<noteq> (AuthResponse t i g q, st')" "password_reset_start pf d c st \<noteq> (AuthResponse t i g q, st')"
  "password_reset_complete pf d c n st \<noteq> (AuthResponse t i g q, st')"
  "email_change_verify pf d c st \<noteq> (AuthResponse t i g q, st')" "magic_start pf d c st \<noteq> (AuthResponse t i g q, st')"
  "device_redeem pf d c st \<noteq> (AuthResponse t i g q, st')"
  by (auto simp: change_password_def resend_verification_def delete_account_def get_me_def email_change_start_def
      totp_setup_def totp_reply_def totp_confirm_def totp_disable_def regenerate_recovery_def device_start_def device_list_def
      device_revoke_def rsi_start_def rsi_verify_def verify_email_def password_reset_start_def password_reset_complete_def
      email_change_verify_def magic_start_def device_redeem_def Let_def
      dest: error_replies
      split: option.splits sum.splits prod.splits if_splits bool.splits user_error.splits device_error.splits rsi_check_outcome.splits)

text \<open>
  C10. A session for an account with the second factor on takes the second factor: any request that
  answers with a session token (not an interim one) for such an account is the second leg of a
  login, made with an interim token, and it presented the account's one-time code of the moment
  (for a code of six digits) or one of its unused recovery codes.
\<close>

theorem session_needs_second_factor:
  assumes "accounts_ok pf st" and "u \<in> set (ac_users st)" and "us_totp_enabled_at u \<noteq> None"
    and "handle pf d req st = (AuthResponse t (us_id u) g False, st')"
  shows "\<exists>b code a. req = VerifyLogin b code \<and>
    from_request_parts (pf_jwt pf) (pf_verifier pf) (nat (dw_now d)) b (ac_devices st) = Inr a \<and> au_token_type a = LoginInterim \<and>
    ((looks_like_totp (trim code) \<and>
        (\<exists>s. decrypt_user_secret pf (us_id u) st = Inr (Some s) \<and> verify_now pf d s (trim code))) \<or>
     fst (redeem_code (pf_to_uppercase pf) (verify_password (pf_hasher pf)) (us_id u) (trim code) (dw_now d) (ac_codes st)))"
proof -
  note same = same_id [OF assms(1) assms(2)]
  show ?thesis
  proof (cases req)
    case (VerifyLogin b code)
    then obtain a where a: "from_request_parts (pf_jwt pf) (pf_verifier pf) (nat (dw_now d)) b (ac_devices st) = Inr a"
      "verify_login pf d a code st = (AuthResponse t (us_id u) g False, st')"
      using assms(4) by (auto elim: with_auth_session)
    from verify_login_session [OF a(2)] same find_by_id_in have "au_token_type a = LoginInterim" "second_factor pf d u (trim code) st = (Inr True, st')"
      by blast+
    with second_factor_True [OF this(2)] a(1) VerifyLogin show ?thesis by blast
  next
    case (Signup e p h)
    then show ?thesis using assms(2,4) signup_session [of pf d e p h st t "us_id u" g False st'] by simp
  next
    case (Login e p)
    then obtain v where v: "find_by_email (pf_lower pf) e (ac_users st) = Some v" "us_totp_enabled_at v = None" "us_id v = us_id u"
      using assms(4) by (auto simp: login_def issue_token_reply issue_login_interim_reply split: option.splits if_splits)
    then have "v = u" by (intro same) (auto simp: find_by_email_def find_Some_iff)
    with v(2) assms(3) show ?thesis by simp
  next
    case (MagicRedeem tk)
    then obtain i v where v: "find_by_id i (ac_users st) = Some v" "us_totp_enabled_at v = None" "us_id v = us_id u"
      using assms(4)
      by (auto simp: magic_redeem_def Let_def issue_token_reply issue_login_interim_reply split: option.splits prod.splits if_splits)
    then have "v = u" by (intro same) (auto dest: find_by_id_in)
    with v(2) assms(3) show ?thesis by simp
  qed (use assms(4) in \<open>auto simp: no_session elim: with_auth_session\<close>)
qed

lemma find_update_same:
  "find_by_id i tbl = Some u \<Longrightarrow> (\<And>u. us_id (f u) = us_id u) \<Longrightarrow> find_by_id i (update_user i f tbl) = Some (f u)"
  using find_by_id_update [of f i i tbl] find_by_id_in [of i tbl u] by simp

lemma update_others: "v \<in> set tbl \<Longrightarrow> us_id v \<noteq> i \<Longrightarrow> v \<in> set (update_user i f tbl)"
  unfolding update_user_def set_map by (rule image_eqI [of _ _ v]) simp_all

lemma find_same: "accounts_ok pf st \<Longrightarrow> u \<in> set (ac_users st) \<Longrightarrow> find_by_id (us_id u) (ac_users st) = Some u"
  using find_by_id_Some [of "pf_lower pf" "ac_users st" "us_id u" u] by (simp add: accounts_ok_def)

lemma revoke_all_inactive:
  assumes "db_ok db" and "r \<in> set (db_devices (snd (revoke_all_for_user i now db)))" and "dr_user_id r = i"
  shows "\<not> is_device_active (dr_id r) (snd (revoke_all_for_user i now db))"
proof -
  have "db_ok (snd (revoke_all_for_user i now db))" using assms(1) by (simp add: db_ok_def)
  moreover have "r \<in> (\<lambda>r0. if dr_user_id r0 = i \<and> dr_revoked_at r0 = None then stamp_revoked now r0 else r0) ` set (db_devices db)"
    using assms(2) by (simp add: revoke_all_for_user_def Let_def)
  then obtain r0 where "r = (if dr_user_id r0 = i \<and> dr_revoked_at r0 = None then stamp_revoked now r0 else r0)" by (rule imageE)
  then have "dr_revoked_at r \<noteq> None" using assms(3) by (cases "dr_revoked_at r0") (auto simp: stamp_revoked_def split: if_splits)
  then have "revoked (snd (revoke_all_for_user i now db)) (dr_id r)" using assms(2) by (auto simp: revoked_def)
  ultimately show ?thesis by (rule revoked_inactive)
qed

text \<open>
  A completed password reset is complete: the account whose link was used has the hash of the new
  password, its reset link is spent (using it again is refused, if no other account holds the same
  token), none of its devices is active any more, so every device token of it is refused from then
  on, and no other account is touched.
\<close>

theorem password_reset_takes_effect:
  assumes "accounts_ok pf st" and "u \<in> set (ac_users st)" and "us_password_reset_token u = Some token"
    and "\<And>v. v \<in> set (ac_users st) \<Longrightarrow> us_password_reset_token v = Some token \<Longrightarrow> v = u"
    and "password_reset_complete pf d token new_password st = (PasswordResetCompleteResponse, st')"
  shows "\<exists>u'. find_by_id (us_id u) (ac_users st') = Some u' \<and>
    ha_hash (pf_hasher pf) new_password = Some (us_password_hash u') \<and>
    (\<forall>d2 n2. reply_status (fst (password_reset_complete pf d2 token n2 st')) = 400) \<and>
    (\<forall>r \<in> set (db_devices (ac_devices st')). dr_user_id r = us_id u \<longrightarrow> \<not> is_device_active (dr_id r) (ac_devices st')) \<and>
    set (ac_users st) - {u} \<subseteq> set (ac_users st')"
proof -
  let ?f = "\<lambda>phc v. v\<lparr>us_password_hash := phc, us_password_changed_at := dw_now d, us_password_reset_token := None,
       us_password_reset_expires_at := None, us_updated_at := dw_now d\<rparr>"
  have "find_by_password_reset_token token (ac_users st) \<noteq> None"
    using assms(2,3) by (auto simp: find_by_password_reset_token_def find_None_iff)
  then obtain v where "find_by_password_reset_token token (ac_users st) = Some v" by blast
  moreover from this have "v = u"
    by (intro assms(4)) (auto simp: find_by_password_reset_token_def find_Some_iff)
  ultimately have f: "find_by_password_reset_token token (ac_users st) = Some u" by simp
  obtain phc where h: "hash_password (pf_hasher pf) new_password = Inr phc"
    using assms(5) f by (auto simp: password_reset_complete_def split: if_splits sum.splits option.splits)
  have st': "ac_users st' = update_user (us_id u) (?f phc) (ac_users st)"
    "ac_devices st' = snd (revoke_all_for_user (us_id u) (dw_now d) (ac_devices st))"
    using assms(5) f h
    by (auto simp: password_reset_complete_def complete_password_reset_def split: if_splits option.splits)
  have "find_by_id (us_id u) (ac_users st') = Some (?f phc u)"
    unfolding st' by (rule find_update_same [OF find_same [OF assms(1,2)]]) simp
  moreover have "ha_hash (pf_hasher pf) new_password = Some phc" using h by (simp add: hash_password_def split: option.splits)
  moreover have "find_by_password_reset_token token (ac_users st') = None"
    unfolding find_by_password_reset_token_def find_None_iff st'(1)
    using assms(4) by (auto simp: update_user_def split: if_splits)
  then have "\<forall>d2 n2. reply_status (fst (password_reset_complete pf d2 token n2 st')) = 400"
    by (simp add: password_reset_complete_def)
  moreover have "\<forall>r \<in> set (db_devices (ac_devices st')). dr_user_id r = us_id u \<longrightarrow> \<not> is_device_active (dr_id r) (ac_devices st')"
    using revoke_all_inactive [of "ac_devices st" _ "us_id u" "dw_now d"] assms(1) unfolding st'(2) accounts_ok_def by blast
  moreover have "set (ac_users st) - {u} \<subseteq> set (ac_users st')"
    using same_id [OF assms(1,2)] unfolding st'(1) by (auto intro!: update_others)
  ultimately show ?thesis by (intro exI [of _ "?f phc u"]) simp
qed

lemma validate_signup_status: "validate_signup email password claimed_handle = Some r \<Longrightarrow> reply_status r = 400"
  by (auto simp: validate_signup_def split: if_splits)

lemma issue_token_status: "reply_status (issue_token pf d i h) \<in> {200, 500}"
  by (auto simp: issue_token_def split: sum.split)

lemma signup_email_taken:
  "fst (signup pf d email password claimed_handle st) = Error 409 ''email_taken'' \<longleftrightarrow>
     validate_signup email password claimed_handle = None \<and> ha_hash (pf_hasher pf) password \<noteq> None \<and>
     dw_id d \<notin> us_id ` set (ac_users st) \<and> find_by_email (pf_lower pf) (pf_lower pf email) (ac_users st) \<noteq> None"
proof (cases "validate_signup email password claimed_handle")
  case None
  have taken: "find_by_email (pf_lower pf) (pf_lower pf email) (ac_users st) \<noteq> None \<longleftrightarrow>
      pf_lower pf (pf_lower pf email) \<in> (\<lambda>v. pf_lower pf (us_email v)) ` set (ac_users st)"
    by (auto simp: find_by_email_def find_None_iff image_iff) metis
  have token: "issue_token pf d i h \<noteq> Error 409 ''email_taken''" for i h
    using issue_token_status [of pf d i h] by auto
  show ?thesis unfolding taken using token None
    by (auto simp: signup_def hash_password_def create_user_def Let_def
        split: option.splits prod.splits sum.splits)
next
  case (Some r)
  then show ?thesis using validate_signup_status [OF Some] by (auto simp: signup_def)
qed

text \<open>
  C27. Three flows do not tell a stranger which e-mails have accounts: the answers of a password reset
  request and of a magic link request do not depend on the accounts at all, and a login with an unknown
  e-mail is answered like one with a wrong password. Sign-up is the exception: an acceptable request is
  answered with \<open>email_taken\<close> exactly when the e-mail has an account (under a fresh identifier).
\<close>

theorem login_flows_do_not_enumerate:
  "fst (password_reset_start pf d email st) = fst (password_reset_start pf d email st') \<and>
   fst (magic_start pf d email st) = fst (magic_start pf d email st') \<and>
   (find_by_email (pf_lower pf) email (ac_users st) = None \<or>
    (\<exists>u. find_by_email (pf_lower pf) email (ac_users st) = Some u \<and> \<not> verify_password (pf_hasher pf) password (us_password_hash u))
    \<longleftrightarrow> login pf d email password st = (Error 401 ''invalid_credentials'', st)) \<and>
   (fst (signup pf d email password claimed_handle st) = Error 409 ''email_taken'' \<longleftrightarrow>
      validate_signup email password claimed_handle = None \<and> ha_hash (pf_hasher pf) password \<noteq> None \<and>
      dw_id d \<notin> us_id ` set (ac_users st) \<and> find_by_email (pf_lower pf) (pf_lower pf email) (ac_users st) \<noteq> None)"
proof -
  have "fst (signup pf d email password claimed_handle st) = Error 409 ''email_taken'' \<longleftrightarrow>
      validate_signup email password claimed_handle = None \<and> ha_hash (pf_hasher pf) password \<noteq> None \<and>
      dw_id d \<notin> us_id ` set (ac_users st) \<and> find_by_email (pf_lower pf) (pf_lower pf email) (ac_users st) \<noteq> None"
    by (rule signup_email_taken)
  moreover have "fst (password_reset_start pf d email st) = fst (password_reset_start pf d email st')"
      "fst (magic_start pf d email st) = fst (magic_start pf d email st')"
    by (simp_all add: password_reset_start_def magic_start_def Let_def)
  moreover have "find_by_email (pf_lower pf) email (ac_users st) = None \<or>
      (\<exists>u. find_by_email (pf_lower pf) email (ac_users st) = Some u \<and> \<not> verify_password (pf_hasher pf) password (us_password_hash u))
      \<longleftrightarrow> login pf d email password st = (Error 401 ''invalid_credentials'', st)"
    by (auto simp: login_def issue_token_def issue_login_interim_def split: option.splits if_splits sum.splits)
  ultimately show ?thesis by blast
qed

text \<open>
  An e-mail change takes effect only through its link and moves exactly the staged address: after a
  successful confirmation the account answers to the staged address and to no link of the change,
  it is verified, and every other account keeps its row.
\<close>

theorem email_change_takes_effect:
  assumes "accounts_ok pf st" and "email_change_verify pf d token st = (EmailChangeVerifyResponse e, st')"
    and "u \<in> set (ac_users st)" and "find_by_pending_email_token token (ac_users st) = Some u"
    and "us_pending_email u = Some e0"
  shows "e = e0 \<and> find_by_email (pf_lower pf) e (ac_users st') =
      Some (u\<lparr>us_email := e, us_email_verified_at := Some (dw_now d), us_pending_email := None,
        us_pending_email_token := None, us_pending_email_expires_at := None, us_updated_at := dw_now d\<rparr>) \<and>
    set (ac_users st) - {u} \<subseteq> set (ac_users st')"
proof -
  let ?f = "\<lambda>u. case us_pending_email u of None \<Rightarrow> u
     | Some e \<Rightarrow> u\<lparr>us_email := e, us_email_verified_at := Some (dw_now d), us_pending_email := None,
         us_pending_email_token := None, us_pending_email_expires_at := None, us_updated_at := dw_now d\<rparr>"
  obtain tbl where c: "commit_pending_email (pf_lower pf) (us_id u) (dw_now d) (ac_users st) = (Inr (), tbl)"
    using assms(2,4) by (auto simp: email_change_verify_def Let_def split: if_splits prod.splits sum.splits user_error.splits option.splits)
  have e: "e = e0" and tbl: "ac_users st' = tbl"
    using assms(2,4,5) c by (auto simp: email_change_verify_def Let_def split: if_splits option.splits)
  have t: "tbl = update_user (us_id u) ?f (ac_users st)"
    using c by (auto simp: commit_pending_email_def split: if_splits)
  have "accounts_ok pf st'" using email_change_verify_ok [OF assms(1), of d token] assms(2) by simp
  then have inj: "inj_on (\<lambda>v. pf_lower pf (us_email v)) (set tbl)"
    by (auto simp: accounts_ok_def users_ok_def distinct_map tbl)
  have u': "?f u \<in> set tbl" unfolding t using assms(3) by (force simp: update_user_def)
  have eu: "us_email (?f u) = e0" using assms(5) by simp
  obtain v where v: "find_by_email (pf_lower pf) e0 tbl = Some v"
    using u' eu by (cases "find_by_email (pf_lower pf) e0 tbl") (auto simp: find_by_email_def find_None_iff)
  then have "v \<in> set tbl" "pf_lower pf (us_email v) = pf_lower pf (us_email (?f u))"
    using eu by (auto simp: find_by_email_def find_Some_iff)
  then have "v = ?f u" using u' inj by (auto simp: inj_on_def)
  moreover have "set (ac_users st) - {u} \<subseteq> set tbl"
    using same_id [OF assms(1,3)] unfolding t by (auto intro!: update_others)
  ultimately show ?thesis using v e tbl assms(5) by simp
qed

text \<open>
  C40. The interim token is not confined to the second leg: on an account with the second factor on, the
  password alone gives an interim token, and within its five minutes that token deletes the account
  (if the log takes the audit row, the events can be renamed and no other table refuses to let the account
  go), although no second factor was shown.
\<close>

theorem interim_token_deletes_account:
  assumes "accounts_ok pf st" and "jwt_ok (pf_jwt pf) key" and "pf_issuer pf = new_issuer key iss aud"
    and "pf_verifier pf = new_verifier key iss aud"
    and "login pf d email password st = (AuthResponse t i g True, st1)" and "pf_parse_uuid pf i = Some i"
    and "dw_now d2 \<le> dw_now d + 300" and "0 \<le> dw_now d"
    and "\<And>u p. fst (audit pf d2 u ''user.account_deleted'' p st)"
    and "\<And>p h. pseudonymise_events (pf_lower pf) p h (ac_events st) \<noteq> None" and "\<not> dw_refused d2 i"
  shows "\<exists>st2. handle pf d2 (DeleteAccount (Some t) g) st = (DeleteAccountResponse, st2) \<and> find_by_id i (ac_users st2) = None"
proof -
  obtain u where "find_by_email (pf_lower pf) email (ac_users st) = Some u" "us_id u = i" "us_claimed_handle u = g"
    and "sign_login_interim (pf_jwt pf) (pf_issuer pf) (nat (dw_now d)) i g = Inr t"
    using assms(5) by (auto simp: login_def issue_token_reply issue_login_interim_reply split: option.splits if_splits)
  moreover from this(1) have "u \<in> set (ac_users st)" by (auto simp: find_by_email_def find_Some_iff)
  ultimately have u: "u \<in> set (ac_users st)" "us_id u = i" "us_claimed_handle u = g"
    and "sign_login_interim (pf_jwt pf) (pf_issuer pf) (nat (dw_now d)) i g = Inr t" by simp_all
  then have "sign (pf_jwt pf) (new_issuer key iss aud) (nat (dw_now d)) i g LoginInterim None 300 = Inr t"
    using assms(3) by (simp add: sign_login_interim_def)
  from from_request_signed [OF assms(2) this] assms(4,7,8)
  have a: "from_request_parts (pf_jwt pf) (pf_verifier pf) (nat (dw_now d2)) (Some t) (ac_devices st) =
      Inr \<lparr>au_sub = i, au_preferred_username = g, au_token_type = LoginInterim, au_device_id = None\<rparr>"
    by (simp add: nat_le_eq_zle)
  have f: "find_by_id i (ac_users st) = Some u" using find_same [OF assms(1) u(1)] u(2) by simp
  let ?p = "JObject [(''user_id'', JString (us_id u)), (''claimed_handle'', JString (us_claimed_handle u))]"
  obtain st1 where st1: "audit pf d2 u ''user.account_deleted'' ?p st = (True, st1)"
    using assms(9) [of u ?p] by (cases "audit pf d2 u ''user.account_deleted'' ?p st") simp
  then have same: "ac_users st1 = ac_users st" "ac_events st1 = ac_events st"
    using audit_fields [of pf d2 u "''user.account_deleted''" ?p st] by simp_all
  obtain ev where "pseudonymise_events (pf_lower pf) (tombstone (dw_id d2)) g (ac_events st) = Some ev" using assms(10) by blast
  then have "delete_user (pf_lower pf) (dw_id d2) (dw_refused d2) i (ac_users st1) (ac_events st1) =
      (Inr (), filter (\<lambda>v. us_id v \<noteq> i) (ac_users st), ev)"
    by (simp add: delete_user_def same f u(3) assms(11))
  then have "handle pf d2 (DeleteAccount (Some t) g) st =
      (DeleteAccountResponse, cascade_user i (st1\<lparr>ac_users := filter (\<lambda>v. us_id v \<noteq> i) (ac_users st), ac_events := ev\<rparr>))"
    using st1 u by (simp add: with_auth_def a delete_account_def resolve_user_def assms(6) f)
  then show ?thesis by (simp add: cascade_user_def find_by_id_def find_None_iff)
qed

text \<open>
  Sign-up validates the trimmed handle but stores the handle as it was sent: whenever it answers with
  a session, the account carries the text of the request, also when that text is no valid handle.
\<close>

theorem signup_stores_untrimmed_handle:
  assumes "\<not> validate_handle claimed_handle"
    and "signup pf d email password claimed_handle st = (AuthResponse t i g b, st')"
  shows "\<exists>u \<in> set (ac_users st'). us_id u = i \<and> \<not> validate_handle (us_claimed_handle u) \<and> validate_handle (trim claimed_handle)"
proof -
  obtain phc u tbl r tbl' where s: "validate_signup email password claimed_handle = None"
    "create_user (pf_lower pf) (dw_id d) (dw_now d) email phc claimed_handle (ac_users st) = (Inr u, tbl)"
    "set_verification_token (us_id u) (dw_token d) (dw_now d + VERIFICATION_TOKEN_TTL) (dw_now d) tbl = (r, tbl')"
    "ac_users st' = tbl'" "i = us_id u"
    using assms(2)
    by (auto simp: signup_def issue_token_reply validate_signup_def
        split: option.splits sum.splits prod.splits user_error.splits if_splits)
  have u: "u \<in> set tbl" "us_claimed_handle u = claimed_handle"
    using s(2) by (auto simp: create_user_def Let_def split: if_splits)
  have "map (\<lambda>v. (us_id v, us_claimed_handle v)) tbl' = map (\<lambda>v. (us_id v, us_claimed_handle v)) tbl"
    using s(3) by (auto simp: set_verification_token_def map_update_user split: if_splits)
  then have "(\<lambda>v. (us_id v, us_claimed_handle v)) ` set tbl' = (\<lambda>v. (us_id v, us_claimed_handle v)) ` set tbl"
    by (metis set_map)
  then have "(us_id u, claimed_handle) \<in> (\<lambda>v. (us_id v, us_claimed_handle v)) ` set tbl'" using u by auto
  then have "\<exists>v \<in> set tbl'. us_id v = us_id u \<and> us_claimed_handle v = claimed_handle" by auto
  moreover have "validate_handle (trim claimed_handle)" using s(1) by (auto simp: validate_signup_def split: if_splits)
  ultimately show ?thesis using assms(1) s(4,5) by auto
qed

section \<open>Concrete instances\<close>

definition sample_interim :: claims where
  "sample_interim = sign_claims (new_issuer sample_key ''i'' ''a'') 100 ''u'' ''pilot'' LoginInterim None 300"

definition sample_session :: claims where
  "sample_session = sign_claims (new_issuer sample_key ''i'' ''a'') 100 ''u'' ''pilot'' User None 3600"

definition sample_padded :: claims where
  "sample_padded = sign_claims (new_issuer sample_key ''i'' ''a'') 100 ''n'' '' pilot'' User None 3600"

definition sample_pf :: platform where
  "sample_pf = \<lparr>pf_lower = (\<lambda>s. s), pf_to_lowercase = (\<lambda>s. s), pf_to_uppercase = (\<lambda>s. s), pf_parse_uuid = Some,
     pf_hasher = \<lparr>ha_hash = Some, ha_parse_phc = Some, ha_argon2 = (\<lambda>p q. p = q)\<rparr>,
     pf_totp = (\<lambda>step digits secret t. ''123456''), pf_base32 = (\<lambda>s. s), pf_kek_encrypt = (\<lambda>s n. Some s),
     pf_kek_decrypt = (\<lambda>c n. Some c),
     pf_jwt = table_lib [(''ti'', sample_interim), (''ts'', sample_session), (''tp'', sample_padded)],
     pf_issuer = new_issuer sample_key ''i'' ''a'', pf_verifier = new_verifier sample_key ''i'' ''a'',
     pf_sha256 = (\<lambda>s. s), pf_to_vec = (\<lambda>_. [])\<rparr>"

definition sample_draws :: draws where
  "sample_draws = \<lparr>dw_now = 100, dw_id = ''n'', dw_token = ''tok'', dw_secret = ''s'', dw_nonce = ''o'', dw_codes = [''AAAAAAAA''],
     dw_ids = [''r''], dw_mail_ok = True, dw_refused = (\<lambda>i. False)\<rparr>"

definition sample_account :: user where
  "sample_account = \<lparr>us_id = ''u'', us_email = ''a@b.c'', us_password_hash = ''correct horse'', us_claimed_handle = ''pilot'',
     us_created_at = 0, us_email_verified_at = None, us_email_verification_token = None,
     us_email_verification_expires_at = None, us_password_changed_at = 0, us_password_reset_token = Some ''reset'',
     us_password_reset_expires_at = Some 200, us_pending_email = Some ''d@e.f'', us_pending_email_token = Some ''change'',
     us_pending_email_expires_at = Some 200, us_rsi_verified_at = None, us_rsi_verify_code = None,
     us_rsi_verify_expires_at = None, us_totp_secret_ciphertext = Some ''ct'', us_totp_secret_nonce = Some ''o'',
     us_totp_setup_at = Some 1, us_totp_enabled_at = Some 2, us_shares_paused_until = None, us_updated_at = 2\<rparr>"

definition sample_accounts :: account_state where
  "sample_accounts = empty_accounts\<lparr>ac_users := [sample_account]\<rparr>"

lemma sample_accounts_ok: "accounts_ok sample_pf sample_accounts"
  using accounts_ok_empty [of sample_pf]
  by (simp add: sample_accounts_def accounts_ok_def users_ok_def totp_ok_def owned_def sample_account_def empty_accounts_def)

lemma sample_account_in: "sample_account \<in> set (ac_users sample_accounts)" "us_id sample_account = ''u''"
  "ac_users sample_accounts = [sample_account]"
  by (simp_all add: sample_accounts_def sample_account_def)

lemmas sample_defs = sample_pf_def sample_draws_def sample_account_def sample_accounts_def sample_interim_def sample_session_def
  sample_padded_def sample_key_def new_issuer_def new_verifier_def sign_claims_def table_lib_def empty_accounts_def

lemma sample_strings:
  "trim ''123456'' = ''123456''" "strip_ws_from 0 ''123456'' = ''123456''" "list_all is_ascii_digit ''123456''" "looks_like_totp ''123456''"
  "trim ''reset'' = ''reset''" "trim ''change'' = ''change''" "looks_like_email ''x@y.z''" "trim '' pilot'' = ''pilot''"
  "validate_handle ''pilot''" "\<not> validate_handle '' pilot''"
  by code_simp+

lemma sample_interim_user:
  "from_request_parts (pf_jwt sample_pf) (pf_verifier sample_pf) (nat (dw_now sample_draws)) (Some ''ti'') (ac_devices sample_accounts) =
     Inr \<lparr>au_sub = ''u'', au_preferred_username = ''pilot'', au_token_type = LoginInterim, au_device_id = None\<rparr>"
  by (simp add: from_request_parts_def verify_def user_of_claims_def claims_valid_def sample_defs)

lemma sample_code: "verify_now sample_pf sample_draws s ''123456''"
  unfolding verify_now_def verify_at_iff sample_strings(2) using sample_strings(3) by (simp only: code_at_def) (simp add: sample_pf_def)

lemma sample_replies:
  "fst (handle sample_pf sample_draws (VerifyLogin (Some ''ti'') ''123456'') sample_accounts) = AuthResponse ''ts'' ''u'' ''pilot'' False"
  "fst (password_reset_complete sample_pf sample_draws ''reset'' ''battery staple'' sample_accounts) = PasswordResetCompleteResponse"
  "fst (email_change_verify sample_pf sample_draws ''change'' sample_accounts) = EmailChangeVerifyResponse ''d@e.f''"
  "login sample_pf sample_draws ''a@b.c'' ''correct horse'' sample_accounts = (AuthResponse ''ti'' ''u'' ''pilot'' True, sample_accounts)"
  "fst (signup sample_pf sample_draws ''x@y.z'' ''correct horse'' '' pilot'' sample_accounts) = AuthResponse ''tp'' ''n'' '' pilot'' False"
proof -
  show "fst (handle sample_pf sample_draws (VerifyLogin (Some ''ti'') ''123456'') sample_accounts) = AuthResponse ''ts'' ''u'' ''pilot'' False"
  proof -
    have k: "pf_kek_decrypt sample_pf c n = Some c" for c n by (simp add: sample_pf_def)
    have a: "pf_parse_uuid sample_pf = Some" "us_totp_enabled_at sample_account = Some 2" "us_claimed_handle sample_account = ''pilot''"
      "us_id sample_account = ''u''" by (simp_all add: sample_pf_def sample_account_def)
    have "find_by_id ''u'' (ac_users sample_accounts) = Some sample_account" by (simp add: find_by_id_def sample_account_in)
    moreover have "get_totp_secret ''u'' (ac_users sample_accounts) = Some (''ct'', ''o'')"
      using calculation by (simp add: get_totp_secret_def sample_account_def)
    then have "second_factor sample_pf sample_draws sample_account ''123456'' sample_accounts = (Inr True, sample_accounts)"
      by (simp add: second_factor_def sample_strings decrypt_user_secret_def k sample_code sample_account_in)
    ultimately have "verify_login sample_pf sample_draws
        \<lparr>au_sub = ''u'', au_preferred_username = ''pilot'', au_token_type = LoginInterim, au_device_id = None\<rparr> ''123456'' sample_accounts =
        (issue_token sample_pf sample_draws ''u'' ''pilot'', sample_accounts)"
      by (simp add: verify_login_def sample_strings a)
    moreover have "issue_token sample_pf sample_draws ''u'' ''pilot'' = AuthResponse ''ts'' ''u'' ''pilot'' False"
      by (simp add: issue_token_def sign_user_def sign_def sample_defs)
    ultimately show ?thesis by (simp add: with_auth_def sample_interim_user)
  qed
  show "fst (password_reset_complete sample_pf sample_draws ''reset'' ''battery staple'' sample_accounts) = PasswordResetCompleteResponse"
    by (simp add: password_reset_complete_def sample_strings MIN_PASSWORD_LEN_def find_by_password_reset_token_def hash_password_def sample_defs)
  show "fst (email_change_verify sample_pf sample_draws ''change'' sample_accounts) = EmailChangeVerifyResponse ''d@e.f''"
    by (simp add: email_change_verify_def Let_def sample_strings find_by_pending_email_token_def commit_pending_email_def sample_defs)
  show "login sample_pf sample_draws ''a@b.c'' ''correct horse'' sample_accounts = (AuthResponse ''ti'' ''u'' ''pilot'' True, sample_accounts)"
    by (simp add: login_def find_by_email_def verify_password_def issue_login_interim_def sign_login_interim_def sign_def sample_defs)
  show "fst (signup sample_pf sample_draws ''x@y.z'' ''correct horse'' '' pilot'' sample_accounts) = AuthResponse ''tp'' ''n'' '' pilot'' False"
    by (simp add: signup_def validate_signup_def sample_strings MIN_PASSWORD_LEN_def hash_password_def create_user_def Let_def
        set_verification_token_def issue_token_def sign_user_def sign_def sample_defs)
qed

theorem served_accounts_ok_witness:
  "accounts_ok sample_pf (snd (handle sample_pf sample_draws (Signup ''x@y.z'' ''correct horse'' ''ace'') empty_accounts))"
  by (rule served_accounts_ok [OF served.request [OF served.start]])

theorem session_needs_second_factor_witness:
  "fst (handle sample_pf sample_draws (VerifyLogin (Some ''ti'') ''123456'') sample_accounts) = AuthResponse ''ts'' ''u'' ''pilot'' False \<and>
   looks_like_totp ''123456''"
proof -
  have r: "fst (handle sample_pf sample_draws (VerifyLogin (Some ''ti'') ''123456'') sample_accounts) =
      AuthResponse ''ts'' (us_id sample_account) ''pilot'' False" by (simp only: sample_replies sample_account_in)
  have n: "\<not> fst (redeem_code (pf_to_uppercase sample_pf) (verify_password (pf_hasher sample_pf)) (us_id sample_account)
      (trim ''123456'') (dw_now sample_draws) (ac_codes sample_accounts))"
    by (simp add: redeem_code_def select_match_def sample_accounts_def empty_accounts_def)
  obtain st' where "handle sample_pf sample_draws (VerifyLogin (Some ''ti'') ''123456'') sample_accounts =
      (AuthResponse ''ts'' (us_id sample_account) ''pilot'' False, st')" using r by (metis prod.collapse)
  from session_needs_second_factor [OF sample_accounts_ok sample_account_in(1) _ this] n r sample_account_in(2) sample_strings
  show ?thesis by (auto simp: sample_account_def)
qed

theorem password_reset_takes_effect_witness:
  "\<exists>u'. find_by_id ''u'' (ac_users (snd (password_reset_complete sample_pf sample_draws ''reset'' ''battery staple'' sample_accounts))) = Some u' \<and>
     us_password_hash u' = ''battery staple''"
proof -
  have r: "fst (password_reset_complete sample_pf sample_draws ''reset'' ''battery staple'' sample_accounts) = PasswordResetCompleteResponse"
    by (rule sample_replies)
  have "us_password_reset_token sample_account = Some ''reset''" by (simp add: sample_account_def)
  from password_reset_takes_effect [OF sample_accounts_ok sample_account_in(1) this _ prod.collapse [symmetric, of "password_reset_complete
      sample_pf sample_draws ''reset'' ''battery staple'' sample_accounts", unfolded r]] sample_account_in
  show ?thesis by (auto simp: sample_pf_def)
qed

theorem email_change_takes_effect_witness:
  "map_option us_id (find_by_email (pf_lower sample_pf) ''d@e.f''
     (ac_users (snd (email_change_verify sample_pf sample_draws ''change'' sample_accounts)))) = Some ''u''"
proof -
  have r: "fst (email_change_verify sample_pf sample_draws ''change'' sample_accounts) = EmailChangeVerifyResponse ''d@e.f''"
    by (rule sample_replies)
  have "us_pending_email sample_account = Some ''d@e.f''" "find_by_pending_email_token ''change'' (ac_users sample_accounts) = Some sample_account"
    by (simp_all add: sample_account_in find_by_pending_email_token_def) (simp_all add: sample_account_def)
  from email_change_takes_effect [OF sample_accounts_ok prod.collapse [symmetric, of "email_change_verify sample_pf sample_draws
      ''change'' sample_accounts", unfolded r] sample_account_in(1) this(2,1)] sample_account_in(2)
  show ?thesis by simp
qed

theorem interim_token_deletes_account_witness:
  "fst (handle sample_pf sample_draws (DeleteAccount (Some ''ti'') ''pilot'') sample_accounts) = DeleteAccountResponse"
proof -
  have "jwt_ok (pf_jwt sample_pf) sample_key" by (simp add: sample_pf_def table_lib_ok)
  moreover have "pf_issuer sample_pf = new_issuer sample_key ''i'' ''a''" "pf_verifier sample_pf = new_verifier sample_key ''i'' ''a''"
    by (simp_all add: sample_pf_def)
  moreover have "login sample_pf sample_draws ''a@b.c'' ''correct horse'' sample_accounts = (AuthResponse ''ti'' ''u'' ''pilot'' True, sample_accounts)"
    by (rule sample_replies)
  moreover have "fst (audit sample_pf sample_draws u ''user.account_deleted'' p sample_accounts)" for u p
    by (simp add: audit_def append_entry_def insert_audit_row_def Let_def sample_accounts_def empty_accounts_def tail_hash_def)
  moreover have "pseudonymise_events (pf_lower sample_pf) p h (ac_events sample_accounts) \<noteq> None" for p h
    by (simp add: pseudonymise_events_def Let_def sample_accounts_def empty_accounts_def empty_events_def)
  ultimately show ?thesis
    using interim_token_deletes_account [OF sample_accounts_ok, of sample_key "''i''" "''a''" sample_draws "''a@b.c''" "''correct horse''"
        "''ti''" "''u''" "''pilot''" sample_accounts sample_draws]
    by (auto simp: sample_pf_def sample_draws_def)
qed

theorem signup_stores_untrimmed_handle_witness:
  "\<exists>u \<in> set (ac_users (snd (signup sample_pf sample_draws ''x@y.z'' ''correct horse'' '' pilot'' sample_accounts))).
     \<not> validate_handle (us_claimed_handle u)"
proof -
  have r: "fst (signup sample_pf sample_draws ''x@y.z'' ''correct horse'' '' pilot'' sample_accounts) = AuthResponse ''tp'' ''n'' '' pilot'' False"
    by (rule sample_replies)
  have "\<not> validate_handle '' pilot''" by (rule sample_strings)
  from signup_stores_untrimmed_handle [OF this prod.collapse [symmetric, of "signup sample_pf sample_draws ''x@y.z'' ''correct horse''
      '' pilot'' sample_accounts", unfolded r]]
  show ?thesis by blast
qed

end
