(* ===== verification/Moderation.thy ===== *)
theory Moderation
  imports Submission_Routes Accounts
begin

text \<open>
  What the site promises over its whole state: accounts, staff roles and submissions together. The
  invariant of the three, the life of a submission as an abstract automaton that the handlers
  implement, who may moderate, votes, and the moderator queue.
\<close>

section \<open>Invariant\<close>

definition site_ok :: "platform \<Rightarrow> site_state \<Rightarrow> bool" where
  "site_ok pf st \<longleftrightarrow> accounts_ok pf (si_accounts st) \<and> staff_ok (us_id ` set (si_users st)) (si_roles st) \<and>
     submissions_ok (us_id ` set (si_users st)) (si_submissions st)"

definition empty_site :: site_state where
  "empty_site = \<lparr>si_accounts = empty_accounts, si_roles = [], si_submissions = empty_submissions\<rparr>"

lemma site_ok_empty: "site_ok pf empty_site"
  by (simp add: site_ok_def empty_site_def accounts_ok_empty)

lemma site_audit_fields [simp]:
  "si_roles (site_audit pf d a act p st) = si_roles st" "si_submissions (site_audit pf d a act p st) = si_submissions st"
  "si_users (site_audit pf d a act p st) = si_users st"
  "ac_devices (si_accounts (site_audit pf d a act p st)) = ac_devices (si_accounts st)"
  by (simp_all add: site_audit_def Let_def)

lemma accounts_ok_log [simp]: "accounts_ok pf (ac\<lparr>ac_audit := lg\<rparr>) \<longleftrightarrow> accounts_ok pf ac"
  by (rule accounts_ok_cong) simp_all

lemma site_ok_audit [simp]: "site_ok pf (site_audit pf' d a act p st) \<longleftrightarrow> site_ok pf st"
  by (simp add: site_ok_def) (simp add: site_audit_def Let_def)

lemma site_ok_roles:
  "site_ok pf st \<Longrightarrow> staff_ok (us_id ` set (si_users st)) tbl \<Longrightarrow> site_ok pf (st\<lparr>si_roles := tbl\<rparr>)"
  by (simp add: site_ok_def)

lemma site_ok_submissions:
  "site_ok pf st \<Longrightarrow> submissions_ok (us_id ` set (si_users st)) db \<Longrightarrow> site_ok pf (st\<lparr>si_submissions := db\<rparr>)"
  by (simp add: site_ok_def)

subsection \<open>Gates\<close>

text \<open>What holds of the state and of every outcome of the body holds behind a gate.\<close>

lemma with_moderator_cases:
  assumes "P (SiteError 401 ''rejected'', st)" and "P (SiteError 403 ''rejected'', st)"
    and "\<And>u. require_moderator pf (dw_now d) b (ac_devices (si_accounts st)) (Some (si_roles st)) = Inr u \<Longrightarrow> P (h u)"
  shows "P (with_moderator pf d b st h)"
  using assms
  by (auto simp: with_moderator_def require_moderator_def extract_with_role_def
      split: sum.splits option.splits if_splits)

lemma with_admin_cases:
  assumes "P (SiteError 401 ''rejected'', st)" and "P (SiteError 403 ''rejected'', st)"
    and "\<And>u. require_admin pf (dw_now d) b (ac_devices (si_accounts st)) (Some (si_roles st)) = Inr u \<Longrightarrow> P (h u)"
  shows "P (with_admin pf d b st h)"
  using assms
  by (auto simp: with_admin_def require_admin_def extract_with_role_def
      split: sum.splits option.splits if_splits)

lemma site_auth_cases:
  assumes "P (SiteError 401 ''unauthorized'', st)"
    and "\<And>u. from_request_parts (pf_jwt pf) (pf_verifier pf) (nat (dw_now d)) b (ac_devices (si_accounts st)) = Inr u \<Longrightarrow> P (h u)"
  shows "P (site_auth pf d b st h)"
  using assms by (simp add: site_auth_def split: sum.split)

section \<open>The requests as actions on the tables\<close>

fun request_bearer :: "site_request \<Rightarrow> string option" where
  "request_bearer (AccountRequest req) = None"
| "request_bearer (AuditList b ilike p) = b"
| "request_bearer (UserList b ilike q page off) = b"
| "request_bearer (UserDetail b i) = b"
| "request_bearer (GrantRole b i role reason) = b"
| "request_bearer (RevokeRole b i role) = b"
| "request_bearer (SubmissionList b status mine page off) = b"
| "request_bearer (SubmissionCreate b p l desc s src) = b"
| "request_bearer (SubmissionDetail b i) = b"
| "request_bearer (SubmissionVote b i v) = b"
| "request_bearer (SubmissionFlag b i reason) = b"
| "request_bearer (SubmissionWithdraw b i) = b"
| "request_bearer (AdminAccept b i) = b"
| "request_bearer (AdminReject b i reason) = b"
| "request_bearer (AdminDismissFlag b i) = b"
| "request_bearer (AdminQueue b status page off) = b"

text \<open>The account a bearer token speaks for.\<close>

definition caller :: "platform \<Rightarrow> draws \<Rightarrow> string option \<Rightarrow> site_state \<Rightarrow> uuid option" where
  "caller pf d b st =
     (case from_request_parts (pf_jwt pf) (pf_verifier pf) (nat (dw_now d)) b (ac_devices (si_accounts st)) of
        Inl e \<Rightarrow> None
      | Inr user \<Rightarrow> pf_parse_uuid pf (au_sub user))"

definition is_moderator :: "uuid option \<Rightarrow> site_state \<Rightarrow> bool" where
  "is_moderator c st \<longleftrightarrow> (\<exists>u \<in> set_option c. (u, Moderator) \<in> active_roles (si_roles st) \<or> (u, Admin) \<in> active_roles (si_roles st))"

definition is_admin :: "uuid option \<Rightarrow> site_state \<Rightarrow> bool" where
  "is_admin c st \<longleftrightarrow> (\<exists>u \<in> set_option c. (u, Admin) \<in> active_roles (si_roles st))"

text \<open>The actions on the submissions that a caller \<open>c\<close> has.\<close>

inductive acts :: "user_table \<Rightarrow> draws \<Rightarrow> uuid option \<Rightarrow> bool \<Rightarrow> submission_db \<Rightarrow> submission_db \<Rightarrow> bool"
  for users d c moderator db where
  nothing: "acts users d c moderator db db"
| creates: "c = Some (ns_submitter_id new) \<Longrightarrow>
    acts users d c moderator db (snd (create_submission users (dw_id d) (dw_now d) new db))"
| votes: "c = Some u \<Longrightarrow> acts users d c moderator db (snd (vote users (dw_now d) i u db))"
| unvotes: "c = Some u \<Longrightarrow> acts users d c moderator db (snd (unvote i u db))"
| flags: "c = Some u \<Longrightarrow> acts users d c moderator db (snd (flag_submission users (dw_now d) i u reason db))"
| withdraws: "c = Some u \<Longrightarrow> acts users d c moderator db (snd (withdraw users (dw_now d) i u db))"
| accepts: "moderator \<Longrightarrow> acts users d c moderator db (snd (accept_submission (dw_now d) i db))"
| rejects: "moderator \<Longrightarrow> acts users d c moderator db (snd (reject_submission (dw_now d) i reason db))"
| dismisses: "moderator \<Longrightarrow> acts users d c moderator db (snd (dismiss_flag (dw_now d) i db))"

text \<open>The actions on the roles: an administrator \<open>a\<close> grants, or revokes anything but their own rank.\<close>

inductive staff_acts :: "uuid set \<Rightarrow> draws \<Rightarrow> uuid option \<Rightarrow> staff_table \<Rightarrow> staff_table \<Rightarrow> bool" for users d c tbl where
  keeps: "staff_acts users d c tbl tbl"
| appoints: "c = Some a \<Longrightarrow> (a, Admin) \<in> active_roles tbl \<Longrightarrow>
    staff_acts users d c tbl (snd (grant_role users (dw_id d) (dw_now d) u role (Some a) reason tbl))"
| dismisses: "c = Some a \<Longrightarrow> (a, Admin) \<in> active_roles tbl \<Longrightarrow> (u, role) \<noteq> (a, Admin) \<Longrightarrow>
    staff_acts users d c tbl (snd (revoke_role users (dw_now d) u role (Some a) tbl))"

lemma require_moderator_Inr:
  assumes "require_moderator pf (dw_now d) b (ac_devices (si_accounts st)) (Some (si_roles st)) = Inr user"
  shows "\<exists>u. pf_parse_uuid pf (au_sub user) = Some u \<and> caller pf d b st = Some u \<and> is_moderator (Some u) st"
  using assms
  by (auto simp: require_moderator_def extract_with_role_def caller_def is_moderator_def list_active_iff
      split: sum.splits option.splits if_splits)

lemma require_admin_Inr:
  assumes "require_admin pf (dw_now d) b (ac_devices (si_accounts st)) (Some (si_roles st)) = Inr user"
  shows "\<exists>u. pf_parse_uuid pf (au_sub user) = Some u \<and> caller pf d b st = Some u \<and> (u, Admin) \<in> active_roles (si_roles st)"
  using assms
  by (auto simp: require_admin_def extract_with_role_def caller_def list_active_iff
      split: sum.splits option.splits if_splits)

lemma site_auth_Inr:
  assumes "from_request_parts (pf_jwt pf) (pf_verifier pf) (nat (dw_now d)) b (ac_devices (si_accounts st)) = Inr user"
  shows "pf_parse_uuid pf (au_sub user) = caller pf d b st"
  using assms by (simp add: caller_def)

text \<open>One step of the site: roles and submissions act, the accounts keep all but the audit log.\<close>

definition site_step :: "platform \<Rightarrow> draws \<Rightarrow> string option \<Rightarrow> site_state \<Rightarrow> site_state \<Rightarrow> bool" where
  "site_step pf d b st st' \<longleftrightarrow>
     (\<exists>lg. si_accounts st' = (si_accounts st)\<lparr>ac_audit := lg\<rparr>) \<and>
     staff_acts (us_id ` set (si_users st)) d (caller pf d b st) (si_roles st) (si_roles st') \<and>
     acts (si_users st) d (caller pf d b st) (is_moderator (caller pf d b st) st) (si_submissions st) (si_submissions st')"

lemma same_accounts [simp]: "\<exists>lg. ac = ac\<lparr>ac_audit := lg\<rparr>"
  by (rule exI [of _ "ac_audit ac"]) simp

lemma site_step_same [simp]: "site_step pf d b st st"
  by (simp add: site_step_def staff_acts.keeps acts.nothing)

lemma site_step_submissions:
  assumes "acts (si_users st) d (caller pf d b st) (is_moderator (caller pf d b st) st) (si_submissions st) db"
  shows "site_step pf d b st (st\<lparr>si_submissions := db\<rparr>)"
    "site_step pf d b st (site_audit pf d a act p (st\<lparr>si_submissions := db\<rparr>))"
  using assms by (auto simp: site_step_def staff_acts.keeps) (auto simp: site_audit_def Let_def)

lemma site_step_roles:
  assumes "staff_acts (us_id ` set (si_users st)) d (caller pf d b st) (si_roles st) tbl"
  shows "site_step pf d b st (st\<lparr>si_roles := tbl\<rparr>)"
    "site_step pf d b st (site_audit pf d a act p (st\<lparr>si_roles := tbl\<rparr>))"
  using assms by (auto simp: site_step_def acts.nothing) (auto simp: site_audit_def Let_def)

subsection \<open>Every handler is such a step\<close>

lemmas gate_same = with_moderator_cases [where P = "\<lambda>x. snd x = st" and st = st for st]
  site_auth_cases [where P = "\<lambda>x. snd x = st" and st = st for st]

lemma readers_same:
  "snd (list_audit pf ilike d b p st) = st" "snd (list_users_admin pf ilike d b q page off st) = st"
  "snd (get_user_admin pf d b i st) = st" "snd (submissions_list pf d b status mine sz offset st) = st"
  "snd (submissions_detail pf d b i st) = st" "snd (admin_queue pf d b status sz offset st) = st"
  unfolding list_audit_def list_users_admin_def get_user_admin_def submissions_list_def submissions_detail_def admin_queue_def
  by (rule gate_same; simp add: Let_def split: option.split sum.split prod.split)+

lemmas gate_step = with_moderator_cases [where P = "\<lambda>x. site_step pf d b st (snd x)" and st = st and pf = pf and d = d and b = b for pf d b st]
  with_admin_cases [where P = "\<lambda>x. site_step pf d b st (snd x)" and st = st and pf = pf and d = d and b = b for pf d b st]
  site_auth_cases [where P = "\<lambda>x. site_step pf d b st (snd x)" and st = st and pf = pf and d = d and b = b for pf d b st]

lemma grant_route_step: "site_step pf d b st (snd (grant_role_route pf d b i s reason st))"
  unfolding grant_role_route_def
proof (rule gate_step, goal_cases)
  case (3 user)
  then obtain a where a: "pf_parse_uuid pf (au_sub user) = Some a" "caller pf d b st = Some a" "(a, Admin) \<in> active_roles (si_roles st)"
    using require_admin_Inr by blast
  have "staff_acts (us_id ` set (si_users st)) d (caller pf d b st) (si_roles st) tbl"
    if "grant_role (us_id ` set (si_users st)) (dw_id d) (dw_now d) u role (Some a) reason' (si_roles st) = (r, tbl)"
    for u role reason' r tbl
    using staff_acts.appoints [OF a(2,3), of "us_id ` set (si_users st)" d u role reason'] that by simp
  then show ?case
    by (simp add: a(1) Let_def site_step_roles split: option.split sum.split prod.split)
qed simp_all

lemma revoke_route_step: "site_step pf d b st (snd (revoke_role_route pf d b i s st))"
  unfolding revoke_role_route_def
proof (rule gate_step, goal_cases)
  case (3 user)
  then obtain a where a: "pf_parse_uuid pf (au_sub user) = Some a" "caller pf d b st = Some a" "(a, Admin) \<in> active_roles (si_roles st)"
    using require_admin_Inr by blast
  have "staff_acts (us_id ` set (si_users st)) d (caller pf d b st) (si_roles st) tbl"
    if "revoke_role (us_id ` set (si_users st)) (dw_now d) u role (Some a) (si_roles st) = (r, tbl)" "(u, role) \<noteq> (a, Admin)"
    for u role r tbl
    using staff_acts.dismisses [OF a(2,3) that(2), of "us_id ` set (si_users st)" d] that by simp
  then show ?case
    by (auto simp: a(1) Let_def site_step_roles split: option.split sum.split prod.split)
qed simp_all

lemma both_ids_Inr: "both_ids pf auth raw = Inr (i, v) \<Longrightarrow> pf_parse_uuid pf (au_sub auth) = Some v"
  by (auto simp: both_ids_def parse_id_def parse_user_id_def sbind_Inr_iff split: option.splits)

lemma parse_user_id_Inr: "parse_user_id pf auth = Inr v \<longleftrightarrow> pf_parse_uuid pf (au_sub auth) = Some v"
  by (simp add: parse_user_id_def split: option.split)

lemma transition_reply_step:
  assumes "acts (si_users st) d (caller pf d b st) (is_moderator (caller pf d b st) st) (si_submissions st) (snd res)"
  shows "site_step pf d b st (snd (transition_reply pf d m act reason res st))"
  using assms by (cases res) (auto simp: transition_reply_def Let_def site_step_submissions split: sum.split option.split)

lemma create_step: "site_step pf d b st (snd (submissions_create pf d b p l desc s src st))"
  unfolding submissions_create_def
proof (rule gate_step, goal_cases)
  case (2 user)
  note c = site_auth_Inr [OF 2]
  have "acts (si_users st) d (caller pf d b st) (is_moderator (caller pf d b st) st) (si_submissions st) db"
    if "create_submission (si_users st) (dw_id d) (dw_now d) new (si_submissions st) = (r, db)"
      "pf_parse_uuid pf (au_sub user) = Some (ns_submitter_id new)" for new r db
    using acts.creates [of "caller pf d b st" new "si_users st" d "is_moderator (caller pf d b st) st" "si_submissions st"] that c
    by simp
  then show ?case
    by (auto simp: Let_def parse_user_id_Inr intro!: site_step_submissions split: option.split sum.split prod.split)
qed simp

lemma vote_step: "site_step pf d b st (snd (submissions_vote pf d b raw v st))"
  unfolding submissions_vote_def
proof (rule gate_step, goal_cases)
  case (2 user)
  note c = site_auth_Inr [OF 2]
  have v: "acts (si_users st) d (caller pf d b st) (is_moderator (caller pf d b st) st) (si_submissions st) db"
    if "vote (si_users st) (dw_now d) i u (si_submissions st) = (r, db)" "both_ids pf user raw = Inr (i, u)" for i u r db
    using acts.votes [of "caller pf d b st" u "si_users st" d "is_moderator (caller pf d b st) st" "si_submissions st" i]
      that c both_ids_Inr [OF that(2)] by simp
  have u: "acts (si_users st) d (caller pf d b st) (is_moderator (caller pf d b st) st) (si_submissions st) db"
    if "unvote i u (si_submissions st) = (r, db)" "both_ids pf user raw = Inr (i, u)" for i u r db
    using acts.unvotes [of "caller pf d b st" u "si_users st" d "is_moderator (caller pf d b st) st" "si_submissions st" i]
      that c both_ids_Inr [OF that(2)] by simp
  show ?case
    by (auto intro!: site_step_submissions intro: v u split: option.split sum.split prod.split)
qed simp

lemma flag_step: "site_step pf d b st (snd (submissions_flag pf d b raw reason st))"
  unfolding submissions_flag_def
proof (rule gate_step, goal_cases)
  case (2 user)
  note c = site_auth_Inr [OF 2]
  have "acts (si_users st) d (caller pf d b st) (is_moderator (caller pf d b st) st) (si_submissions st) db"
    if "flag_submission (si_users st) (dw_now d) i u why (si_submissions st) = (r, db)" "both_ids pf user raw = Inr (i, u)"
    for i u why r db
    using acts.flags [of "caller pf d b st" u "si_users st" d "is_moderator (caller pf d b st) st" "si_submissions st" i why]
      that c both_ids_Inr [OF that(2)] by simp
  then show ?case
    by (auto intro!: site_step_submissions split: option.split sum.split prod.split submission_error.split)
qed simp

lemma withdraw_step: "site_step pf d b st (snd (submissions_withdraw pf d b raw st))"
  unfolding submissions_withdraw_def
proof (rule gate_step, goal_cases)
  case (2 user)
  note c = site_auth_Inr [OF 2]
  have "acts (si_users st) d (caller pf d b st) (is_moderator (caller pf d b st) st) (si_submissions st) db"
    if "withdraw (si_users st) (dw_now d) i u (si_submissions st) = (r, db)" "both_ids pf user raw = Inr (i, u)" for i u r db
    using acts.withdraws [of "caller pf d b st" u "si_users st" d "is_moderator (caller pf d b st) st" "si_submissions st" i]
      that c both_ids_Inr [OF that(2)] by simp
  then show ?case
    by (auto intro!: site_step_submissions split: option.split sum.split prod.split)
qed simp

lemma moderation_steps:
  "site_step pf d b st (snd (admin_accept pf d b raw st))"
  "site_step pf d b st (snd (admin_reject pf d b raw reason st))"
  "site_step pf d b st (snd (admin_dismiss_flag pf d b raw st))"
  unfolding admin_accept_def admin_reject_def admin_dismiss_flag_def
  by (rule gate_step, simp, simp, drule require_moderator_Inr,
      auto split: sum.split intro!: transition_reply_step acts.accepts acts.rejects acts.dismisses)+

lemma site_handle_step:
  assumes "\<forall>q. req \<noteq> AccountRequest q"
  shows "site_step pf d (request_bearer req) st (snd (site_handle pf d req st))"
  using assms
  by (cases req) (simp_all add: readers_same grant_route_step revoke_route_step create_step vote_step flag_step withdraw_step
      moderation_steps)

lemma site_handle_acts:
  assumes "\<forall>q. req \<noteq> AccountRequest q"
  shows "acts (si_users st) d (caller pf d (request_bearer req) st) (is_moderator (caller pf d (request_bearer req) st) st)
    (si_submissions st) (si_submissions (snd (site_handle pf d req st)))"
  using site_handle_step [OF assms, of pf d st] by (simp add: site_step_def)

section \<open>The invariant is kept\<close>

lemma staff_acts_ok: "staff_acts users d c tbl tbl' \<Longrightarrow> staff_ok users tbl \<Longrightarrow> staff_ok users tbl'"
  by (induction rule: staff_acts.induct) (simp_all add: grant_role_ok revoke_role_ok)

lemmas submission_ops_ok = create_submission_ok vote_ok unvote_ok flag_row_ok withdraw_ok admin_transition_ok

lemma acts_ok:
  "acts users d c m db db' \<Longrightarrow> submissions_ok (us_id ` set users) db \<Longrightarrow> submissions_ok (us_id ` set users) db'"
  by (induction rule: acts.induct)
    (simp_all add: submission_ops_ok accept_submission_def reject_submission_def dismiss_flag_def)

lemma site_step_ok:
  assumes "site_step pf d b st st'" and "site_ok pf st"
  shows "site_ok pf st'"
  using assms by (auto simp: site_step_def site_ok_def intro: staff_acts_ok acts_ok)

lemma cascade_roles_ok:
  assumes "cascade_roles gone tbl = Some tbl'" and "staff_ok users tbl"
  shows "staff_ok (users - gone) tbl'"
proof -
  let ?f = "\<lambda>r. r\<lparr>sg_granted_by := Option.bind (sg_granted_by r) (\<lambda>i. if i \<in> gone then None else Some i),
      sg_revoked_by := Option.bind (sg_revoked_by r) (\<lambda>i. if i \<in> gone then None else Some i)\<rparr>"
  have tbl': "tbl' = map ?f (filter (\<lambda>r. sg_user_id r \<notin> gone) tbl)" and
    chk: "\<forall>r \<in> set tbl'. (sg_revoked_at r = None) = (sg_revoked_by r = None)"
    using assms(1) by (auto simp: cascade_roles_def Let_def list_all_iff split: if_splits)
  have "map sg_id tbl' = map sg_id (filter (\<lambda>r. sg_user_id r \<notin> gone) tbl)" by (simp add: tbl')
  then have "distinct (map sg_id tbl')" using assms(2) by (simp add: staff_ok_def distinct_map_filter)
  moreover have "map (\<lambda>r. (sg_user_id r, sg_role r)) (filter (\<lambda>r. sg_revoked_at r = None) tbl') =
      map (\<lambda>r. (sg_user_id r, sg_role r)) (filter (\<lambda>r. sg_user_id r \<notin> gone) (filter (\<lambda>r. sg_revoked_at r = None) tbl))"
    unfolding tbl' filter_map by (simp add: o_def conj_commute)
  then have "distinct (map (\<lambda>r. (sg_user_id r, sg_role r)) (filter (\<lambda>r. sg_revoked_at r = None) tbl'))"
    using assms(2) by (simp only: staff_ok_def distinct_map_filter)
  moreover have "\<forall>r \<in> set tbl'. sg_user_id r \<in> users - gone \<and> set_option (sg_granted_by r) \<subseteq> users - gone \<and>
      set_option (sg_revoked_by r) \<subseteq> users - gone \<and> sg_role r \<in> range staff_role_as_str"
    using assms(2) unfolding tbl' staff_ok_def
    by (force split: if_splits option.splits simp: Option.bind_eq_Some_conv elem_set)
  ultimately show ?thesis using chk by (simp add: staff_ok_def)
qed

lemma cascade_submissions_ok: "submissions_ok users db \<Longrightarrow> submissions_ok (users - gone) (cascade_submissions gone db)"
  by (auto simp: submissions_ok_def cascade_submissions_def Let_def distinct_map_filter)

lemma account_request_ok:
  assumes "site_ok pf st"
  shows "site_ok pf (snd (account_request pf d req st))"
proof -
  obtain r ac where h: "handle pf (d\<lparr>dw_refused := \<lambda>i. cascade_roles {i} (si_roles st) = None\<rparr>) req (si_accounts st) = (r, ac)" by fastforce
  define gone where "gone = us_id ` set (si_users st) - us_id ` set (ac_users ac)"
  have ok: "accounts_ok pf ac" using handle_ok [of pf "si_accounts st" "d\<lparr>dw_refused := \<lambda>i. cascade_roles {i} (si_roles st) = None\<rparr>" req] assms h by (simp add: site_ok_def)
  show ?thesis
  proof (cases "gone = {}")
    case True
    then show ?thesis using assms h ok unfolding gone_def
      by (auto simp: account_request_def site_ok_def intro: staff_ok_mono submissions_ok_mono)
  next
    case False
    show ?thesis
    proof (cases "cascade_roles gone (si_roles st)")
      case None
      then have "snd (account_request pf d req st) = st\<lparr>si_accounts := (si_accounts st)\<lparr>ac_audit := ac_audit ac\<rparr>\<rparr>"
        using h False by (simp add: account_request_def gone_def Let_def)
      then show ?thesis using assms by (simp add: site_ok_def)
    next
      case (Some roles)
      have sub: "us_id ` set (si_users st) - gone \<subseteq> us_id ` set (ac_users ac)" by (auto simp: gone_def)
      have "snd (account_request pf d req st) =
          \<lparr>si_accounts = ac, si_roles = roles, si_submissions = cascade_submissions gone (si_submissions st)\<rparr>"
        using h False Some by (simp add: account_request_def gone_def Let_def)
      then show ?thesis
        using assms ok staff_ok_mono [OF cascade_roles_ok [OF Some] sub] submissions_ok_mono [OF cascade_submissions_ok sub]
        by (simp add: site_ok_def)
    qed
  qed
qed

lemma site_handle_ok:
  assumes "site_ok pf st"
  shows "site_ok pf (snd (site_handle pf d req st))"
proof (cases "\<exists>q. req = AccountRequest q")
  case True
  then show ?thesis using account_request_ok [OF assms] by auto
next
  case False
  then show ?thesis using site_handle_step [of req] site_step_ok [OF _ assms] by blast
qed

lemma bootstrap_handles_ok:
  assumes "staff_ok (us_id ` set users) (fst st)"
  shows "staff_ok (us_id ` set users) (fst (snd (bootstrap_handles lower sha256 to_vec users now hs st)))"
  using assms
proof (induction lower sha256 to_vec users now hs st rule: bootstrap_handles.induct)
  case (2 lower sha256 to_vec users now h i hs st)
  show ?case
  proof (cases "find_by_handle lower h users")
    case (Some u)
    obtain r tbl lg where g: "grant_one sha256 to_vec (us_id ` set users) i now u h st = (r, tbl, lg)" by (metis prod_cases3)
    have "staff_ok (us_id ` set users) tbl"
      using grant_one_cases [of sha256 to_vec _ i now u h "fst st" "snd st" r tbl lg] g grant_role_ok [OF 2(3)]
      by (metis prod.collapse)
    then show ?thesis using 2 Some g by (cases r) auto
  qed (use 2 in simp)
qed simp

inductive site_served :: "platform \<Rightarrow> site_state \<Rightarrow> bool" for pf where
  start: "site_served pf empty_site"
| request: "site_served pf st \<Longrightarrow> site_served pf (snd (site_handle pf d req st))"
| boot: "site_served pf st \<Longrightarrow>
    bootstrap_admins_from_env (pf_lower pf) (pf_sha256 pf) (pf_to_vec pf) (si_users st) now ids var
      (si_roles st, ac_audit (si_accounts st)) = (r, tbl, lg) \<Longrightarrow>
    site_served pf (st\<lparr>si_roles := tbl, si_accounts := (si_accounts st)\<lparr>ac_audit := lg\<rparr>\<rparr>)"

section \<open>Properties\<close>

text \<open>
  C11. Whatever requests the site handles and however often it restarts: the accounts are consistent,
  every grant, submission, vote and flag belongs to an existing account, a user holds a role at most
  once, a grant is revoked exactly if it names its revoker, and no user has two votes or two flags
  on one submission.
\<close>

theorem site_served_ok: "site_served pf st \<Longrightarrow> site_ok pf st"
proof (induction rule: site_served.induct)
  case (boot st now ids var r tbl lg)
  then have "staff_ok (us_id ` set (si_users st)) tbl"
    using bootstrap_handles_ok [of "si_users st" "(si_roles st, ac_audit (si_accounts st))" "pf_lower pf" "pf_sha256 pf" "pf_to_vec pf" now]
    by (auto simp: bootstrap_admins_from_env_def site_ok_def split: option.splits) (metis fst_conv snd_conv)
  then show ?case using boot.IH by (simp add: site_ok_def)
qed (simp_all add: site_ok_empty site_handle_ok)

section \<open>The life of a submission\<close>

text \<open>
  The abstract automaton: which moves there are, and what each needs (a moderator, the submitter, or
  enough users who flagged).
\<close>

inductive lifecycle :: "bool \<Rightarrow> bool \<Rightarrow> nat \<Rightarrow> submission_status \<Rightarrow> submission_status \<Rightarrow> bool"
  for moderator own flaggers where
  escalate: "AUTO_FLAG_THRESHOLD \<le> flaggers \<Longrightarrow> lifecycle moderator own flaggers Review Flagged"
| withdraw: "own \<Longrightarrow> lifecycle moderator own flaggers Review Withdrawn"
| accept: "moderator \<Longrightarrow> s \<in> {Review, Flagged} \<Longrightarrow> lifecycle moderator own flaggers s Accepted"
| reject: "moderator \<Longrightarrow> s \<in> {Review, Flagged} \<Longrightarrow> lifecycle moderator own flaggers s Rejected"
| dismiss: "moderator \<Longrightarrow> lifecycle moderator own flaggers Flagged Review"

inductive_cases lifecycle_settled [elim!]:
  "lifecycle m w n Accepted s" "lifecycle m w n Rejected s" "lifecycle m w n Withdrawn s" "lifecycle m w n Shipped s"

definition flaggers :: "uuid \<Rightarrow> submission_db \<Rightarrow> uuid set" where
  "flaggers i db = {u. (i, u) \<in> fst ` set (sd_flags db)}"

definition voters :: "uuid \<Rightarrow> submission_db \<Rightarrow> uuid set" where
  "voters i db = {u. (i, u) \<in> set (sd_votes db)}"

lemma card_pairs:
  assumes "distinct ps"
  shows "length (filter (\<lambda>p. fst p = i) ps) = card {u. (i, u) \<in> set ps}"
proof -
  have "{u. (i, u) \<in> set ps} = snd ` set (filter (\<lambda>p. fst p = i) ps)" by force
  moreover have "inj_on snd (set (filter (\<lambda>p. fst p = i) ps))" by (auto simp: inj_on_def)
  ultimately show ?thesis using distinct_card [OF distinct_filter [OF assms]] by (metis card_image)
qed

lemma flag_count_card: "submissions_ok users db \<Longrightarrow> flag_count i db = card (flaggers i db)"
  using card_pairs [of "map fst (sd_flags db)" i]
  by (simp add: flag_count_def flaggers_def submissions_ok_def filter_map o_def)

lemma vote_count_card: "submissions_ok users db \<Longrightarrow> vote_count i db = card (voters i db)"
  using card_pairs [of "sd_votes db" i] by (simp add: vote_count_def voters_def submissions_ok_def)

lemma row_step_mono: "row_step P db db' \<Longrightarrow> (\<And>i r r'. P i r r' \<Longrightarrow> Q i r r') \<Longrightarrow> row_step Q db db'"
  unfolding row_step_def by meson

text \<open>A move of the automaton, read off two versions of a row.\<close>

definition moves :: "bool \<Rightarrow> uuid option \<Rightarrow> submission_db \<Rightarrow> uuid \<Rightarrow> submission_row \<Rightarrow> submission_row \<Rightarrow> bool" where
  "moves m c db' i r r' \<longleftrightarrow> (\<exists>s s'. sr_status r = status_as_str s \<and> sr_status r' = status_as_str s' \<and>
     lifecycle m (c = Some (sr_submitter_id r)) (flag_count i db') s s')"

lemma movesI:
  "sr_status r = status_as_str s \<Longrightarrow> sr_status r' = status_as_str s' \<Longrightarrow>
     lifecycle m (c = Some (sr_submitter_id r)) (flag_count i db') s s' \<Longrightarrow> moves m c db' i r r'"
  by (auto simp: moves_def)

lemma acts_row_step: "acts users d c m db db' \<Longrightarrow> row_step (moves m c db') db db'"
proof (induction rule: acts.induct)
  case (flags u i reason)
  show ?case
    by (rule row_step_mono [OF flag_row_step])
      (auto intro!: movesI [where s = Review and s' = Flagged] lifecycle.escalate)
next
  case (withdraws u i)
  then show ?case
    by (intro row_step_mono [OF withdraw_row_step])
      (auto intro!: movesI [where s = Review and s' = Withdrawn] lifecycle.withdraw)
next
  case (accepts i)
  then show ?case unfolding accept_submission_def
    by (intro row_step_mono [OF admin_transition_row_step])
      (auto intro!: movesI [where s' = Accepted] lifecycle.accept)
next
  case (rejects i reason)
  then show ?case unfolding reject_submission_def
    by (intro row_step_mono [OF admin_transition_row_step])
      (auto intro!: movesI [where s' = Rejected] lifecycle.reject)
next
  case (dismisses i)
  then show ?case unfolding dismiss_flag_def
    by (intro row_step_mono [OF admin_transition_row_step])
      (auto intro!: movesI [where s = Flagged and s' = Review] lifecycle.dismiss)
qed (simp_all add: create_row_step vote_row_step unvote_row_step)

lemma find_row_iff:
  assumes "distinct (map sr_id (sd_submissions db))"
  shows "find_row i db = Some r \<longleftrightarrow> r \<in> set (sd_submissions db) \<and> sr_id r = i"
proof
  assume r: "r \<in> set (sd_submissions db) \<and> sr_id r = i"
  then obtain r' where "find_row i db = Some r'" by (cases "find_row i db") (auto simp: find_row_None)
  then show "find_row i db = Some r"
    using find_row_in [of i db r'] r assms by (auto simp: distinct_map inj_on_def)
qed (rule find_row_in)

lemma cascade_find_row:
  assumes "submissions_ok users db" and "find_row i (cascade_submissions gone db) = Some r"
  shows "find_row i db = Some r"
  using assms find_row_in [OF assms(2)]
  by (subst find_row_iff) (auto simp: submissions_ok_def cascade_submissions_def Let_def)

lemma account_request_rows:
  assumes "site_ok pf st" and "find_row i (si_submissions (snd (account_request pf d req st))) = Some r"
  shows "find_row i (si_submissions st) = Some r"
  using assms cascade_find_row [of "us_id ` set (si_users st)" "si_submissions st" i _ r]
  by (auto simp: account_request_def Let_def site_ok_def split: prod.splits if_splits option.splits)

lemma site_handle_rows:
  assumes "site_ok pf st"
  shows "row_step (moves (is_moderator (caller pf d (request_bearer req) st) st) (caller pf d (request_bearer req) st)
      (si_submissions (snd (site_handle pf d req st)))) (si_submissions st) (si_submissions (snd (site_handle pf d req st)))"
proof (cases "\<exists>q. req = AccountRequest q")
  case True
  then show ?thesis using account_request_rows [OF assms] by (fastforce simp: row_step_def)
next
  case False
  then show ?thesis using acts_row_step [OF site_handle_acts [of req st d pf]] by simp
qed

text \<open>
  C12. The handlers implement the life of a submission. One request leaves the text, the author and
  the source of a submission alone, and moves its status, if at all, along the automaton: into
  \<open>flagged\<close> only when at least three different users have flagged it, into \<open>withdrawn\<close> only for its
  author, and into \<open>accepted\<close>, \<open>rejected\<close> or back to \<open>review\<close> only for a moderator.
\<close>

theorem submission_lifecycle:
  assumes "site_ok pf st" and "site_handle pf d req st = (reply, st')"
    and "find_row i (si_submissions st) = Some r" and "find_row i (si_submissions st') = Some r'"
    and "c = caller pf d (request_bearer req) st"
  shows "content r' = content r \<and>
    (status_of i (si_submissions st') = status_of i (si_submissions st) \<or>
     (\<exists>s s'. status_of i (si_submissions st) = Some s \<and> status_of i (si_submissions st') = Some s' \<and>
        lifecycle (is_moderator c st) (c = Some (sr_submitter_id r)) (card (flaggers i (si_submissions st'))) s s'))"
proof -
  have ok: "site_ok pf st" by (rule assms(1))
  have "submissions_ok (us_id ` set (si_users st')) (si_submissions st')"
    using site_handle_ok [OF ok, of d req] assms(2) by (simp add: site_ok_def)
  note fc = flag_count_card [OF this]
  have "content r' = content r \<and> (sr_status r' = sr_status r \<or> moves (is_moderator c st) c (si_submissions st') i r r')"
    using site_handle_rows [OF ok, of d req] assms(2-5) unfolding row_step_def by fastforce
  then show ?thesis
    using assms(3,4) by (auto simp: moves_def status_of_def fc)
qed

subsection \<open>Settled submissions\<close>

definition settled :: "submission_status \<Rightarrow> bool" where
  "settled s \<longleftrightarrow> s \<in> {Accepted, Rejected, Withdrawn, Shipped}"

fun run_site :: "platform \<Rightarrow> (draws \<times> site_request) list \<Rightarrow> site_state \<Rightarrow> site_state" where
  "run_site pf [] st = st"
| "run_site pf ((d, req) # reqs) st = run_site pf reqs (snd (site_handle pf d req st))"

abbreviation row_ids :: "submission_db \<Rightarrow> uuid set" where
  "row_ids db \<equiv> sr_id ` set (sd_submissions db)"

lemma ids_update_row:
  assumes "\<And>r. sr_id (f r) = sr_id r"
  shows "row_ids (update_row i f db) = row_ids db"
proof -
  have "map sr_id (sd_submissions (update_row i f db)) = map sr_id (sd_submissions db)"
    by (simp add: update_row_def assms)
  then show ?thesis by (metis set_map)
qed

lemma ids_flag: "row_ids (snd (flag_submission users now j u reason db)) = row_ids db"
proof (cases "snd (flag_submission users now j u reason db) = db")
  case False
  then show ?thesis by (rule flag_submission_cases) (simp add: ids_update_row)
qed simp

lemma ids_admin: "row_ids (snd (admin_transition now j t reason priors db)) = row_ids db"
  by (simp add: admin_transition_def ids_update_row split: option.split)

lemma acts_ids: "acts users d c m db db' \<Longrightarrow> row_ids db' \<subseteq> insert (dw_id d) (row_ids db)"
proof (induction rule: acts.induct)
  case (creates new)
  show ?case by (auto simp: create_submission_def Let_def split: sum.split)
qed (auto simp: vote_def unvote_def withdraw_def accept_submission_def reject_submission_def dismiss_flag_def Let_def
      ids_admin ids_flag ids_update_row split: option.splits if_splits)

lemma site_handle_new_rows:
  assumes "site_ok pf st" and "find_row i (si_submissions st) = None" and "dw_id d \<noteq> i"
  shows "find_row i (si_submissions (snd (site_handle pf d req st))) = None"
proof (cases "\<exists>q. req = AccountRequest q")
  case True
  then show ?thesis using account_request_rows [OF assms(1)] assms(2) by (metis not_None_eq site_handle.simps(1))
next
  case False
  then show ?thesis using acts_ids [OF site_handle_acts [of req st d pf]] assms(2,3) by (auto simp: find_row_None)
qed

lemma run_site_absent:
  assumes "site_ok pf st" and "find_row i (si_submissions st) = None" and "\<forall>(d, req) \<in> set reqs. dw_id d \<noteq> i"
  shows "find_row i (si_submissions (run_site pf reqs st)) = None"
  using assms
  by (induction pf reqs st rule: run_site.induct) (auto simp: site_handle_ok site_handle_new_rows)

text \<open>
  A decision is final: once a submission is accepted, rejected, withdrawn or shipped, no sequence
  of requests changes its status, its text or the reason of its rejection; all that can still happen
  is that it goes together with the account of its author. (Identifiers drawn later do not repeat
  that of the submission.)
\<close>

theorem settled_is_final:
  assumes "site_ok pf st" and "status_of i (si_submissions st) = Some s" and "settled s"
    and "find_row i (si_submissions st) = Some r" and "\<forall>(d, req) \<in> set reqs. dw_id d \<noteq> i"
  shows "case find_row i (si_submissions (run_site pf reqs st)) of
      None \<Rightarrow> True
    | Some r' \<Rightarrow> content r' = content r \<and> sr_status r' = status_as_str s \<and> sr_rejection_reason r' = sr_rejection_reason r"
proof -
  have "sr_status r = status_as_str s" using assms(2,4) by (auto simp: status_of_Some)
  with assms(1,4,5) show ?thesis
  proof (induction pf reqs st arbitrary: r rule: run_site.induct)
    case (2 pf d req reqs st)
    let ?st' = "snd (site_handle pf d req st)"
    have ok: "site_ok pf ?st'" by (rule site_handle_ok [OF 2(2)])
    show ?case
    proof (cases "find_row i (si_submissions ?st')")
      case None
      then show ?thesis using run_site_absent [OF ok None, of reqs] 2(4) by simp
    next
      case (Some r1)
      have "\<not> moves m c db i r r1" for m c db
        using 2(5) assms(3) by (auto simp: moves_def settled_def)
      then have "content r1 = content r \<and> sr_status r1 = sr_status r \<and> sr_rejection_reason r1 = sr_rejection_reason r"
        using site_handle_rows [OF 2(2), of d req] 2(3) Some unfolding row_step_def by blast
      then show ?thesis using "2.IH" [OF ok Some] 2(4,5) by (auto split: option.splits)
    qed
  qed simp
qed

section \<open>Who may do what\<close>

fun is_staff_request :: "site_request \<Rightarrow> bool" where
  "is_staff_request (AuditList b ilike p) = True"
| "is_staff_request (UserList b ilike q page off) = True"
| "is_staff_request (UserDetail b i) = True"
| "is_staff_request (GrantRole b i role reason) = True"
| "is_staff_request (RevokeRole b i role) = True"
| "is_staff_request (AdminAccept b i) = True"
| "is_staff_request (AdminReject b i reason) = True"
| "is_staff_request (AdminDismissFlag b i) = True"
| "is_staff_request (AdminQueue b status page off) = True"
| "is_staff_request _ = False"

fun changes_roles :: "site_request \<Rightarrow> bool" where
  "changes_roles (GrantRole b i role reason) = True"
| "changes_roles (RevokeRole b i role) = True"
| "changes_roles _ = False"

lemma gate_closed:
  assumes "\<not> is_moderator (caller pf d b st) st"
  shows "\<exists>n \<in> {401, 403}. with_moderator pf d b st h = (SiteError n ''rejected'', st)"
proof (rule with_moderator_cases)
  fix user
  assume "require_moderator pf (dw_now d) b (ac_devices (si_accounts st)) (Some (si_roles st)) = Inr user"
  then show "\<exists>n \<in> {401, 403}. h user = (SiteError n ''rejected'', st)" using require_moderator_Inr assms by fastforce
qed simp_all

lemma admin_gate_closed:
  assumes "\<not> is_admin (caller pf d b st) st"
  shows "\<exists>n \<in> {401, 403}. with_admin pf d b st h = (SiteError n ''rejected'', st)"
proof (rule with_admin_cases)
  fix user
  assume "require_admin pf (dw_now d) b (ac_devices (si_accounts st)) (Some (si_roles st)) = Inr user"
  then show "\<exists>n \<in> {401, 403}. h user = (SiteError n ''rejected'', st)"
    using require_admin_Inr assms by (fastforce simp: is_admin_def)
qed simp_all

text \<open>
  The staff routes are closed to everyone else: a request to one of them from a caller who is
  neither moderator nor administrator, and a request to grant or revoke a role from anyone who is not
  an administrator, is answered 401 or 403 and changes nothing.
\<close>

theorem staff_routes_gated:
  assumes "is_staff_request req"
    and "\<not> is_moderator (caller pf d (request_bearer req) st) st \<or>
      changes_roles req \<and> \<not> is_admin (caller pf d (request_bearer req) st) st"
  shows "site_status (fst (site_handle pf d req st)) \<in> {401, 403} \<and> snd (site_handle pf d req st) = st"
proof -
  have "is_admin c st \<Longrightarrow> is_moderator c st" for c by (auto simp: is_admin_def is_moderator_def)
  then have r: "changes_roles req \<Longrightarrow> \<not> is_admin (caller pf d (request_bearer req) st) st" using assms(2) by blast
  have m: "\<not> changes_roles req \<Longrightarrow> \<not> is_moderator (caller pf d (request_bearer req) st) st" using assms(2) by blast
  show ?thesis
  proof (cases "changes_roles req")
    case True
    from admin_gate_closed [OF r [OF True]] have
      "\<exists>n \<in> {401, 403}. site_handle pf d req st = (SiteError n ''rejected'', st)"
      using True by (cases req) (simp_all add: grant_role_route_def revoke_role_route_def)
    then show ?thesis by auto
  next
    case False
    from gate_closed [OF m [OF False]] have
      "\<exists>n \<in> {401, 403}. site_handle pf d req st = (SiteError n ''rejected'', st)"
      using False assms(1)
      by (cases req) (simp_all add: list_audit_def list_users_admin_def get_user_admin_def admin_accept_def admin_reject_def
          admin_dismiss_flag_def admin_queue_def)
    then show ?thesis by auto
  qed
qed

text \<open>
  The site never runs out of administrators by revocation: a request that deletes no account
  leaves an administrator if there was one.
\<close>

theorem an_administrator_remains:
  assumes "site_handle pf d req st = (reply, st')" and "us_id ` set (si_users st) \<subseteq> us_id ` set (si_users st')"
    and "(u, Admin) \<in> active_roles (si_roles st)"
  shows "\<exists>v. (v, Admin) \<in> active_roles (si_roles st')"
proof (cases "\<exists>q. req = AccountRequest q")
  case True
  then obtain q where q: "req = AccountRequest q" by blast
  obtain r ac where h: "handle pf (d\<lparr>dw_refused := \<lambda>i. cascade_roles {i} (si_roles st) = None\<rparr>) q (si_accounts st) = (r, ac)" by fastforce
  define gone where "gone = us_id ` set (si_users st) - us_id ` set (ac_users ac)"
  have "si_roles st' = si_roles st"
  proof (cases "gone \<noteq> {} \<and> cascade_roles gone (si_roles st) \<noteq> None")
    case True
    then have "si_users st' = ac_users ac" using assms(1) q h by (auto simp: account_request_def gone_def Let_def)
    then have "gone = {}" using assms(2) by (auto simp only: gone_def)
    then show ?thesis using True by simp
  next
    case False
    then show ?thesis using assms(1) q h by (auto simp: account_request_def gone_def Let_def split: if_splits)
  qed
  then show ?thesis using assms(3) by auto
next
  case False
  then have "staff_acts (us_id ` set (si_users st)) d (caller pf d (request_bearer req) st) (si_roles st) (si_roles st')"
    using site_handle_step [of req pf d st] assms(1) by (simp add: site_step_def)
  then show ?thesis
  proof (cases rule: staff_acts.cases)
    case keeps
    then show ?thesis using assms(3) by auto
  next
    case (appoints a v role reason)
    then show ?thesis
      using staff.step_active [of "us_id ` set (si_users st)" "GrantOp (dw_id d) (dw_now d) v role (Some a) reason" "si_roles st"]
      by (auto split: if_splits)
  next
    case (dismisses a v role)
    then show ?thesis
      using staff.step_active [of "us_id ` set (si_users st)" "RevokeOp (dw_now d) v role (Some a)" "si_roles st"]
      by (auto split: if_splits)
  qed
qed

section \<open>Votes\<close>

lemma find_submission_Some:
  "find_submission users i viewer db = Some s \<Longrightarrow> \<exists>r u. r \<in> set (sd_submissions db) \<and> sr_id r = i \<and>
     s = \<lparr>sw_submission = project_row db u r,
            sw_viewer_voted = (\<exists>v \<in> set_option viewer. (i, v) \<in> set (sd_votes db)),
            sw_viewer_flagged = (\<exists>v \<in> set_option viewer. (i, v) \<in> fst ` set (sd_flags db))\<rparr>"
proof -
  assume "find_submission users i viewer db = Some s"
  then have "s \<in> set (list_internal users (ById i) viewer 1 0 db)"
    by (auto simp: find_submission_def split: list.splits) (metis list.set_intros(1) set_rev)?
  then obtain r u where "(r, u) \<in> set (join_users users (sd_submissions db))" "sr_id r = i" and
    "s = \<lparr>sw_submission = project_row db u r,
            sw_viewer_voted = (\<exists>v \<in> set_option viewer. (i, v) \<in> set (sd_votes db)),
            sw_viewer_flagged = (\<exists>v \<in> set_option viewer. (i, v) \<in> fst ` set (sd_flags db))\<rparr>"
    by (auto simp: list_internal_def newest_first_def spec_matches_def dest!: in_set_takeD)
  then show ?thesis by (auto simp: join_users_def in_map_filter)
qed

lemma vote_votes:
  "vote users now i u db = (Inr w, db') \<Longrightarrow> set (sd_votes db') = insert (i, u) (set (sd_votes db))"
  by (auto simp: vote_def split: if_splits)

lemma unvote_votes: "unvote i u db = (w, db') \<Longrightarrow> set (sd_votes db') = set (sd_votes db) - {(i, u)}"
  by (auto simp: unvote_def split: if_splits)

text \<open>
  A vote counts once. After a vote request that succeeds, the caller's vote is there or gone as
  asked and no other vote has changed; the reply says so and gives the number of different users who
  vote for the submission, however often the request is repeated.
\<close>

theorem vote_sets_one_vote:
  assumes "site_ok pf st" and "site_handle pf d (SubmissionVote b raw v) st = (VoteResponse voted n, st')"
  shows "\<exists>i u. pf_parse_uuid pf raw = Some i \<and> caller pf d b st = Some u \<and>
    set (sd_votes (si_submissions st')) =
      (if v then insert (i, u) (set (sd_votes (si_submissions st))) else set (sd_votes (si_submissions st)) - {(i, u)}) \<and>
    voted = v \<and> n = card (voters i (si_submissions st'))"
proof -
  obtain user where user: "from_request_parts (pf_jwt pf) (pf_verifier pf) (nat (dw_now d)) b (ac_devices (si_accounts st)) = Inr user"
    using assms(2) by (auto simp: submissions_vote_def site_auth_def split: sum.splits)
  obtain i u where iu: "both_ids pf user raw = Inr (i, u)"
    using assms(2) user by (auto simp: submissions_vote_def site_auth_def split: sum.splits)
      (auto simp: both_ids_def parse_id_def parse_user_id_def split: option.splits)
  then have ids: "pf_parse_uuid pf raw = Some i" "caller pf d b st = Some u"
    using site_auth_Inr [OF user] by (auto simp: both_ids_def parse_id_def parse_user_id_def split: option.splits)
  obtain w db s where db: "(if v then vote (si_users st) (dw_now d) i u (si_submissions st)
      else (let (w, db) = unvote i u (si_submissions st) in (Inr w, db))) = (Inr w, db)"
    and s: "find_submission (si_users st) i (Some u) db = Some s"
    and r: "voted = sw_viewer_voted s" "n = sb_vote_count (sw_submission s)" "st' = st\<lparr>si_submissions := db\<rparr>"
    using assms(2) user iu
    by (auto simp: submissions_vote_def site_auth_def split: sum.splits prod.splits option.splits if_splits)
  have votes: "set (sd_votes db) = (if v then insert (i, u) (set (sd_votes (si_submissions st)))
      else set (sd_votes (si_submissions st)) - {(i, u)})"
    using db by (auto simp: vote_votes unvote_votes split: if_splits prod.splits)
  have "submissions_ok (us_id ` set (si_users st')) db"
    using site_handle_ok [OF assms(1), of d "SubmissionVote b raw v"] assms(2) r(3) by (simp add: site_ok_def)
  then have "n = card (voters i db)"
    using r(2) find_submission_Some [OF s] vote_count_card by (auto simp: project_row_def)
  moreover have "voted = v"
  proof -
    have "voted \<longleftrightarrow> (i, u) \<in> set (sd_votes db)" using r(1) find_submission_Some [OF s] by auto
    then show ?thesis unfolding votes by (cases v) simp_all
  qed
  ultimately show ?thesis using ids votes r(3) by simp
qed

section \<open>The moderator queue\<close>

definition queued :: "user_table \<Rightarrow> admin_queue_filter \<Rightarrow> submission_db \<Rightarrow> submission list" where
  "queued users f db = map (\<lambda>(r, u). project_row db u r)
     (newest_first (filter (\<lambda>(r, u). sr_status r \<in> set (queue_statuses f)) (join_users users (sd_submissions db))))"

definition as_item :: "submission \<Rightarrow> submission_with_viewer" where
  "as_item s = \<lparr>sw_submission = s, sw_viewer_voted = False, sw_viewer_flagged = False\<rparr>"

lemma list_admin_queue_eq: "list_admin_queue users f n k db = take n (drop k (queued users f db))"
  by (simp add: list_admin_queue_def queued_def take_map drop_map)

lemma queue_page_eq:
  assumes "1 \<le> n" and "n \<le> 100"
  shows "queue_page users f (Some n) (Some k) db =
    (map as_item (take n (drop k (queued users f db))), k + n < length (queued users f db))"
proof -
  have m: "max QUEUE_LIMIT_MIN (min QUEUE_LIMIT_MAX n) = n"
    using assms by (simp add: QUEUE_LIMIT_MIN_def QUEUE_LIMIT_MAX_def)
  show ?thesis unfolding queue_page_def Let_def option.case m list_admin_queue_eq as_item_def [abs_def]
    by (simp add: min_def) linarith
qed

lemma take_pages: "concat (map (\<lambda>k. take n (drop (k * n) xs)) [0..<p]) = take (p * n) xs"
proof (induction p)
  case (Suc p)
  have "take (Suc p * n) xs = take (p * n) xs @ take n (drop (p * n) xs)"
    by (simp add: take_add add.commute [of n])
  then show ?case using Suc by simp
qed simp

lemma sorted_by_newest:
  "sorted (rev (map (\<lambda>(r, u). sr_updated_at r) (newest_first rows)))"
  by (simp add: newest_first_def flip: rev_map)

lemma join_users_all:
  assumes "submissions_ok (us_id ` set users) db"
  shows "map fst (join_users users (sd_submissions db)) = sd_submissions db"
proof -
  have "map fst (join_users users rows) = rows" if "\<forall>r \<in> set rows. sr_submitter_id r \<in> us_id ` set users" for rows
    using that
  proof (induction rows)
    case (Cons r rows)
    then obtain u where "find_by_id (sr_submitter_id r) users = Some u"
      by (cases "find_by_id (sr_submitter_id r) users") (auto simp: find_by_id_def find_None_iff)
    then show ?case using Cons by (simp add: join_users_def List.map_filter_simps)
  qed (simp add: join_users_def List.map_filter_simps)
  then show ?thesis using assms by (simp add: submissions_ok_def)
qed

lemma queued_ids:
  assumes "submissions_ok (us_id ` set users) db"
  shows "mset (map sb_id (queued users f db)) =
    mset (map sr_id (filter (\<lambda>r. sr_status r \<in> set (queue_statuses f)) (sd_submissions db)))"
proof -
  let ?j = "join_users users (sd_submissions db)"
  have "mset (map sb_id (queued users f db)) =
      mset (map (sr_id \<circ> fst) (filter (\<lambda>p. sr_status (fst p) \<in> set (queue_statuses f)) ?j))"
    by (simp add: queued_def newest_first_def project_row_def case_prod_beta' o_def)
  also have "map (sr_id \<circ> fst) (filter (\<lambda>p. sr_status (fst p) \<in> set (queue_statuses f)) ?j) =
      map sr_id (filter (\<lambda>r. sr_status r \<in> set (queue_statuses f)) (map fst ?j))"
    by (simp add: filter_map o_def)
  finally show ?thesis by (simp only: join_users_all [OF assms])
qed

text \<open>
  A moderator who pages through the queue sees everything once. With any page size from 1 to 100,
  the pages up to the first that reports no more contain each submission whose status is asked for
  exactly once, most recently touched first.
\<close>

theorem queue_pages_complete:
  assumes "submissions_ok (us_id ` set users) db" and "1 \<le> n" and "n \<le> 100"
    and "\<not> snd (queue_page users f (Some n) (Some (p * n)) db)"
    and "pages = concat (map (\<lambda>k. fst (queue_page users f (Some n) (Some (k * n)) db)) [0..<Suc p])"
  shows "mset (map (\<lambda>s. sb_id (sw_submission s)) pages) =
      mset (map sr_id (filter (\<lambda>r. sr_status r \<in> set (queue_statuses f)) (sd_submissions db))) \<and>
    sorted (rev (map (\<lambda>s. sb_updated_at (sw_submission s)) pages))"
proof -
  note q = queue_page_eq [OF assms(2,3), of users f _ db]
  have "pages = concat (map (map as_item) (map (\<lambda>k. take n (drop (k * n) (queued users f db))) [0..<Suc p]))"
    by (simp add: assms(5) q o_def)
  also have "\<dots> = map as_item (take (Suc p * n) (queued users f db))"
    unfolding map_concat [symmetric] take_pages ..
  also have "take (Suc p * n) (queued users f db) = queued users f db"
    using assms(4) by (simp add: q add.commute)
  finally have pages: "pages = map as_item (queued users f db)" .
  have "map (\<lambda>s. sb_updated_at s) (queued users f db) =
      map (\<lambda>(r, u). sr_updated_at r) (newest_first (filter (\<lambda>(r, u). sr_status r \<in> set (queue_statuses f))
        (join_users users (sd_submissions db))))"
    by (simp add: queued_def project_row_def case_prod_beta' o_def)
  then have "sorted (rev (map (\<lambda>s. sb_updated_at s) (queued users f db)))" using sorted_by_newest by simp
  then show ?thesis unfolding pages using queued_ids [OF assms(1)] by (simp add: as_item_def o_def)
qed

section \<open>What the code does against its documents\<close>

lemma find_snoc: "find P xs = None \<Longrightarrow> find P (xs @ [x]) = (if P x then Some x else None)"
  by (induction xs) (auto split: if_splits)

text \<open>
  No submission is ever created with success: the handle of the author is looked up in a column
  that the table of users does not have, so a correct request stores its row and is answered 500,
  and no request at all is answered 201.
\<close>

theorem create_stores_and_fails:
  assumes "caller pf d b st = Some u" and "u \<in> us_id ` set (si_users st)" and "dw_id d \<notin> row_ids (si_submissions st)"
    and "check_new (trim p) (trim l) (trim desc) (trim s) (pf_to_lowercase pf (trim src)) = None"
    and "site_handle pf d (SubmissionCreate b p l desc s src) st = (reply, st')"
  shows "reply = SiteError 500 ''create_failed'' \<and>
    status_of (dw_id d) (si_submissions st') = Some Review \<and>
    (\<forall>pf d b p l desc s src st. site_status (fst (site_handle pf d (SubmissionCreate b p l desc s src) st)) \<noteq> 201)"
proof -
  have e: "lookup_handle users i = Inl (SubmissionDatabase ''column preferred_username does not exist'')" for users i
    by (simp add: lookup_handle_def users_text_column_def)
  have c: "\<exists>e. fst (create_submission users i now new db) = Inl e" for users i now new db
    by (simp add: create_submission_def e Let_def)
  have never: "site_status (fst (site_handle pf d (SubmissionCreate b p l desc s src) st)) \<noteq> 201" for pf d b p l desc s src st
  proof -
    have "fst (create_submission users i now new db) \<noteq> Inr x" for users i now new db x
      using c [of users i now new db] by auto
    then show ?thesis
      by (auto simp: submissions_create_def site_auth_def Let_def parse_user_id_def
          split: sum.split option.split prod.split) (metis fst_conv)+
  qed
  obtain user where user: "from_request_parts (pf_jwt pf) (pf_verifier pf) (nat (dw_now d)) b (ac_devices (si_accounts st)) = Inr user"
    "pf_parse_uuid pf (au_sub user) = Some u"
    using assms(1) by (auto simp: caller_def split: sum.splits)
  define r where "r = \<lparr>sr_id = dw_id d, sr_submitter_id = u, sr_pattern = trim p, sr_proposed_label = trim l,
     sr_description = trim desc, sr_sample_line = trim s, sr_log_source = pf_to_lowercase pf (trim src), sr_status = ''review'',
     sr_rejection_reason = None, sr_created_at = dw_now d, sr_updated_at = dw_now d\<rparr>"
  have "reply = SiteError 500 ''create_failed'' \<and>
      st' = st\<lparr>si_submissions := (si_submissions st)\<lparr>sd_submissions := sd_submissions (si_submissions st) @ [r]\<rparr>\<rparr>"
    using assms(2-5) user
    by (simp add: submissions_create_def site_auth_def Let_def parse_user_id_def create_submission_def e r_def)
  moreover have "find_row (dw_id d) ((si_submissions st)\<lparr>sd_submissions := sd_submissions (si_submissions st) @ [r]\<rparr>) = Some r"
  proof -
    have "find (\<lambda>r. sr_id r = dw_id d) (sd_submissions (si_submissions st)) = None"
      using assms(3) by (force simp: find_None_iff)
    from find_snoc [OF this] show ?thesis by (simp add: find_row_def r_def)
  qed
  ultimately show ?thesis using never by (auto simp: status_of_Some r_def)
qed

text \<open>
  A dismissed flag is not forgotten: dismissing keeps the flags on record, so the next user who
  flags the submission sends it back to \<open>flagged\<close> alone, where the documents ask for three
  independent users.
\<close>

theorem one_flag_undoes_dismissal:
  assumes "submissions_ok (us_id ` set users) db" and "status_of i db = Some Flagged"
    and "AUTO_FLAG_THRESHOLD \<le> Suc (card (flaggers i db))" and "u \<in> us_id ` set users" and "u \<notin> flaggers i db"
  shows "status_of i (snd (dismiss_flag now i db)) = Some Review \<and>
    status_of i (snd (flag_submission users now' i u reason (snd (dismiss_flag now i db)))) = Some Flagged"
proof -
  let ?db = "snd (dismiss_flag now i db)"
  obtain r where r: "find_row i db = Some r" "sr_status r = ''flagged''" using assms(2) by (auto simp: status_of_Some)
  have db: "?db = update_row i (\<lambda>r. r\<lparr>sr_status := ''review'', sr_updated_at := now\<rparr>) db"
    using assms(2) by (simp add: dismiss_flag_def admin_transition_def status_of_def)
  have s: "status_of i ?db = Some Review"
    using r find_row_in [OF r(1)] by (auto simp: db status_of_Some find_row_update)
  have new: "(i, u) \<notin> fst ` set (sd_flags ?db)" using assms(5) by (simp add: db flaggers_def)
  have ref: "refs_exist users i u ?db"
    using assms(4) find_row_in [OF r(1)] by (auto simp: refs_exist_def db ids_update_row)
  have "flag_count i (add_flag i u reason ?db) = Suc (flag_count i db)" by (simp add: add_flag_def flag_count_def db update_row_def)
  then have t: "AUTO_FLAG_THRESHOLD \<le> flag_count i (add_flag i u reason ?db)"
    using assms(3) flag_count_card [OF assms(1)] by simp
  have "snd (flag_submission users now' i u reason ?db) =
      update_row i (\<lambda>r. r\<lparr>sr_status := ''flagged'', sr_updated_at := now'\<rparr>) (add_flag i u reason ?db)"
    using s new ref t by (simp add: flag_submission_def status_of_def Let_def add_flag_def)
  moreover obtain r' where "find_row i ?db = Some r'" using s by (auto simp: status_of_Some)
  ultimately show ?thesis
    using s find_row_in [of i ?db r'] find_row_cong [of "add_flag i u reason ?db" ?db i]
    by (auto simp: status_of_Some find_row_update)
qed

lemma delete_account_users:
  assumes "handle pf d (DeleteAccount b h) st = (r, ac)"
  shows "ac_users ac = ac_users st \<or> (\<exists>i. ac_users ac = filter (\<lambda>u. us_id u \<noteq> i) (ac_users st))"
proof -
  have "ac_users (snd (delete_account pf d a h st)) \<in> {ac_users st} \<union> range (\<lambda>i. filter (\<lambda>u. us_id u \<noteq> i) (ac_users st))" for a
    by (auto simp: delete_account_def delete_user_def cascade_user_def audit_def Let_def
        split: sum.split if_split prod.split bool.split option.split)
  then show ?thesis using assms by (cases "from_request_parts (pf_jwt pf) (pf_verifier pf) (nat (dw_now d)) b (ac_devices st)")
    (auto simp: with_auth_def, metis (no_types, lifting) UnE rangeE singletonD snd_conv)
qed

text \<open>
  An administrator who has revoked a role of somebody else can no longer delete their account:
  the grant names its revoker, the reference is set to null when the account goes, and the check on
  revoked grants refuses that.
\<close>

theorem revoker_cannot_delete_account:
  assumes "site_ok pf st" and "g \<in> set (si_roles st)" and "sg_revoked_by g = Some i" and "sg_user_id g \<noteq> i"
  shows "i \<in> us_id ` set (si_users (snd (site_handle pf d (AccountRequest (DeleteAccount b h)) st)))"
proof -
  have i: "i \<in> us_id ` set (si_users st)" "sg_revoked_at g \<noteq> None"
    using assms by (fastforce simp: site_ok_def staff_ok_def)+
  obtain r ac where h: "handle pf (d\<lparr>dw_refused := \<lambda>i. cascade_roles {i} (si_roles st) = None\<rparr>) (DeleteAccount b h) (si_accounts st) = (r, ac)" by fastforce
  define gone where "gone = us_id ` set (si_users st) - us_id ` set (ac_users ac)"
  show ?thesis
  proof (cases "i \<in> gone")
    case True
    then obtain j where "ac_users ac = filter (\<lambda>u. us_id u \<noteq> j) (si_users st)"
      using delete_account_users [OF h] by (auto simp only: gone_def)
    then have "gone = us_id ` set (si_users st) - (us_id ` set (si_users st) - {j})"
      unfolding gone_def by (simp only: ids_filter)
    then have "sg_user_id g \<notin> gone" using True assms(4) by auto
    then have "cascade_roles gone (si_roles st) = None"
      using True assms(2,3) i(2) by (auto simp: cascade_roles_def Let_def list_all_iff)
    then show ?thesis using h True i(1) by (auto simp: account_request_def gone_def Let_def)
  next
    case False
    then have "i \<in> us_id ` set (ac_users ac)" using i(1) by (simp add: gone_def)
    then show ?thesis using h i(1) by (auto simp: account_request_def Let_def split: option.splits)
  qed
qed

lemma transition_reply_submissions:
  "si_submissions (snd (transition_reply pf d m act reason res st)) = snd res"
  by (cases res) (simp add: transition_reply_def Let_def split: sum.split option.split)

section \<open>A concrete site\<close>

definition sample_crew :: "user list" where
  "sample_crew = map (\<lambda>i. sample_account\<lparr>us_id := i, us_email := i, us_claimed_handle := i\<rparr>) [''v'', ''w'', ''x'']"

definition sample_row :: "uuid \<Rightarrow> submission_status \<Rightarrow> submission_row" where
  "sample_row i s = \<lparr>sr_id = i, sr_submitter_id = ''v'', sr_pattern = ''p'', sr_proposed_label = ''l'', sr_description = ''d'',
     sr_sample_line = ''s'', sr_log_source = ''live'', sr_status = status_as_str s, sr_rejection_reason = None,
     sr_created_at = 1, sr_updated_at = 2\<rparr>"

definition sample_submissions :: submission_db where
  "sample_submissions = \<lparr>sd_submissions = [sample_row ''p1'' Review, sample_row ''p2'' Flagged, sample_row ''p3'' Accepted],
     sd_votes = [(''p1'', ''w'')], sd_flags = [((''p2'', ''u''), None), ((''p2'', ''v''), None), ((''p2'', ''w''), None)]\<rparr>"

definition sample_roles :: staff_table where
  "sample_roles = [\<lparr>sg_id = ''g1'', sg_user_id = ''u'', sg_role = ''admin'', sg_granted_at = 0, sg_granted_by = None,
       sg_revoked_at = None, sg_revoked_by = None, sg_reason = None\<rparr>,
     \<lparr>sg_id = ''g2'', sg_user_id = ''v'', sg_role = ''moderator'', sg_granted_at = 0, sg_granted_by = Some ''u'',
       sg_revoked_at = Some 1, sg_revoked_by = Some ''u'', sg_reason = None\<rparr>]"

definition sample_site :: site_state where
  "sample_site = \<lparr>si_accounts = sample_accounts\<lparr>ac_users := sample_account # sample_crew\<rparr>, si_roles = sample_roles,
     si_submissions = sample_submissions\<rparr>"

lemma sample_ids: "us_id ` set (si_users sample_site) = {''u'', ''v'', ''w'', ''x''}"
  by (simp add: sample_site_def sample_crew_def sample_account_def)

lemma sample_submissions_ok: "submissions_ok (us_id ` set (si_users sample_site)) sample_submissions"
proof -
  have "''accepted'' \<in> range status_as_str" by (metis rangeI status_as_str.simps(2))
  then show ?thesis unfolding sample_ids by (simp add: submissions_ok_def sample_submissions_def sample_row_def)
qed

lemma sample_roles_ok: "staff_ok (us_id ` set (si_users sample_site)) sample_roles"
proof -
  have "''admin'' = staff_role_as_str Admin" "''moderator'' = staff_role_as_str Moderator" by simp_all
  then have "''admin'' \<in> range staff_role_as_str" "''moderator'' \<in> range staff_role_as_str" by blast+
  then show ?thesis unfolding sample_ids by (simp add: staff_ok_def sample_roles_def)
qed

lemma sample_site_ok: "site_ok sample_pf sample_site"
proof -
  have "accounts_ok sample_pf (si_accounts sample_site)"
    using accounts_ok_empty [of sample_pf]
    by (simp add: sample_site_def sample_crew_def sample_accounts_def accounts_ok_def users_ok_def totp_ok_def owned_def
        sample_account_def empty_accounts_def sample_pf_def)
  then show ?thesis using sample_submissions_ok sample_roles_ok by (simp add: site_ok_def) (simp add: sample_site_def)
qed

lemma sample_token:
  "from_request_parts (pf_jwt sample_pf) (pf_verifier sample_pf) (nat (dw_now sample_draws)) (Some ''ts'')
     (ac_devices (si_accounts sample_site)) =
   Inr \<lparr>au_sub = ''u'', au_preferred_username = ''pilot'', au_token_type = User, au_device_id = None\<rparr>"
  by (simp add: from_request_parts_def verify_def user_of_claims_def claims_valid_def sample_defs)

lemma sample_caller: "caller sample_pf sample_draws (Some ''ts'') sample_site = Some ''u''"
  by (simp add: caller_def sample_token) (simp add: sample_pf_def)

lemma sample_admin: "(''u'', Admin) \<in> active_roles (si_roles sample_site)"
  by (simp add: active_roles_iff active_grant_def sample_site_def sample_roles_def)

lemma sample_gate:
  "with_moderator sample_pf sample_draws (Some ''ts'') sample_site h =
     h \<lparr>au_sub = ''u'', au_preferred_username = ''pilot'', au_token_type = User, au_device_id = None\<rparr>"
proof -
  have "pf_parse_uuid sample_pf ''u'' = Some ''u''" by (simp add: sample_pf_def)
  moreover have "has_role (list_active_for_user ''u'' (si_roles sample_site)) Moderator"
    using sample_admin by (simp add: list_active_iff)
  ultimately show ?thesis
    by (simp add: with_moderator_def require_moderator_def extract_with_role_def sample_token)
qed

lemma sample_rows:
  "find_row ''p1'' (si_submissions sample_site) = Some (sample_row ''p1'' Review)"
  "find_row ''p2'' (si_submissions sample_site) = Some (sample_row ''p2'' Flagged)"
  "find_row ''p3'' (si_submissions sample_site) = Some (sample_row ''p3'' Accepted)"
  by (simp_all add: find_row_def sample_site_def sample_submissions_def sample_row_def)

lemma sample_accept:
  "si_submissions (snd (site_handle sample_pf sample_draws (AdminAccept (Some ''ts'') ''p1'') sample_site)) =
   update_row ''p1'' (\<lambda>r. r\<lparr>sr_status := ''accepted'', sr_updated_at := 100\<rparr>) sample_submissions"
proof -
  have p: "pf_parse_uuid sample_pf = Some" and n: "dw_now sample_draws = 100" by (simp_all add: sample_pf_def sample_draws_def)
  have "Option.bind (find_row ''p1'' (si_submissions sample_site)) (\<lambda>r. status_parse (sr_status r)) = Some Review"
    by (simp add: sample_rows(1) sample_row_def)
  then have "snd (accept_submission 100 ''p1'' (si_submissions sample_site)) =
      update_row ''p1'' (\<lambda>r. r\<lparr>sr_status := ''accepted'', sr_updated_at := 100\<rparr>) (si_submissions sample_site)"
    by (simp add: accept_submission_def admin_transition_def)
  then show ?thesis
    by (simp add: admin_accept_def sample_gate moderator_ids_def parse_id_def parse_user_id_def transition_reply_submissions p n)
      (simp add: sample_site_def)
qed

lemma site_users_kept:
  assumes "\<forall>q. req \<noteq> AccountRequest q"
  shows "si_users (snd (site_handle pf d req st)) = si_users st"
  using site_handle_step [OF assms, of pf d st] by (auto simp: site_step_def)

theorem site_served_ok_witness:
  "site_ok sample_pf (snd (site_handle sample_pf sample_draws (AccountRequest (Signup ''x@y.z'' ''correct horse'' ''ace'')) empty_site))"
  by (rule site_served_ok [OF site_served.request [OF site_served.start]])

theorem submission_lifecycle_witness:
  "\<exists>r'. find_row ''p1'' (si_submissions (snd (site_handle sample_pf sample_draws (AdminAccept (Some ''ts'') ''p1'') sample_site))) = Some r' \<and>
     content r' = content (sample_row ''p1'' Review) \<and> sr_status r' = ''accepted''"
proof -
  let ?r = "(sample_row ''p1'' Review)\<lparr>sr_status := ''accepted'', sr_updated_at := 100\<rparr>"
  have r: "find_row ''p1'' (si_submissions (snd (site_handle sample_pf sample_draws (AdminAccept (Some ''ts'') ''p1'') sample_site))) = Some ?r"
    unfolding sample_accept by (subst find_row_update) (simp_all add: sample_submissions_def find_row_def, simp add: sample_row_def)
  from submission_lifecycle [OF sample_site_ok prod.collapse [symmetric] sample_rows(1) r refl] r show ?thesis by simp
qed

theorem settled_is_final_witness:
  "case find_row ''p3'' (si_submissions (run_site sample_pf [(sample_draws, SubmissionWithdraw (Some ''ts'') ''p3'')] sample_site)) of
     None \<Rightarrow> True | Some r' \<Rightarrow> sr_status r' = ''accepted''"
proof -
  have "status_of ''p3'' (si_submissions sample_site) = Some Accepted" using sample_rows(3) by (simp add: status_of_def sample_row_def)
  from settled_is_final [OF sample_site_ok this _ sample_rows(3), of "[(sample_draws, SubmissionWithdraw (Some ''ts'') ''p3'')]"]
  show ?thesis by (simp add: settled_def sample_draws_def split: option.splits)
qed

theorem staff_routes_gated_witness:
  "snd (site_handle sample_pf sample_draws (RevokeRole (Some ''none'') ''v'' ''moderator'') sample_site) = sample_site"
proof -
  have "caller sample_pf sample_draws (Some ''none'') sample_site = None"
    by (simp add: caller_def from_request_parts_def verify_def sample_defs)
  then show ?thesis
    using staff_routes_gated [of "RevokeRole (Some ''none'') ''v'' ''moderator''" sample_pf sample_draws sample_site]
    by (simp add: is_moderator_def)
qed

theorem an_administrator_remains_witness:
  "\<exists>v. (v, Admin) \<in> active_roles (si_roles (snd (site_handle sample_pf sample_draws (RevokeRole (Some ''ts'') ''v'' ''admin'') sample_site)))"
proof -
  have "si_users (snd (site_handle sample_pf sample_draws (RevokeRole (Some ''ts'') ''v'' ''admin'') sample_site)) = si_users sample_site"
    by (rule site_users_kept) simp
  from an_administrator_remains [OF prod.collapse [symmetric] _ sample_admin] this show ?thesis by (metis subset_refl)
qed

theorem vote_sets_one_vote_witness:
  "\<exists>st'. site_handle sample_pf sample_draws (SubmissionVote (Some ''ts'') ''p1'' True) sample_site = (VoteResponse True 2, st') \<and>
     card (voters ''p1'' (si_submissions st')) = 2"
proof -
  have p: "pf_parse_uuid sample_pf = Some" and n: "dw_now sample_draws = 100" by (simp_all add: sample_pf_def sample_draws_def)
  define db where "db = update_row ''p1'' (\<lambda>r. r\<lparr>sr_updated_at := 100\<rparr>) (sample_submissions\<lparr>sd_votes := [(''p1'', ''w''), (''p1'', ''u'')]\<rparr>)"
  have v: "vote (si_users sample_site) 100 ''p1'' ''u'' (si_submissions sample_site) = (Inr Written, db)"
    by (simp add: vote_def refs_exist_def sample_ids db_def) (simp add: sample_site_def sample_submissions_def sample_row_def)
  have j: "join_users (si_users sample_site) (sd_submissions db) = map (\<lambda>r. (r, sample_crew ! 0)) (sd_submissions db)"
    by (simp add: join_users_def db_def update_row_def sample_submissions_def sample_row_def List.map_filter_simps find_by_id_def
        sample_site_def sample_crew_def sample_account_def)
  have "filter (\<lambda>(r, u). sr_id r = ''p1'') (join_users (si_users sample_site) (sd_submissions db)) =
      [((sample_row ''p1'' Review)\<lparr>sr_updated_at := 100\<rparr>, sample_crew ! 0)]"
    unfolding j by (simp add: db_def update_row_def sample_submissions_def sample_row_def)
  then have f: "find_submission (si_users sample_site) ''p1'' (Some ''u'') db = Some
      \<lparr>sw_submission = project_row db (sample_crew ! 0) ((sample_row ''p1'' Review)\<lparr>sr_updated_at := 100\<rparr>),
       sw_viewer_voted = True, sw_viewer_flagged = False\<rparr>"
    by (simp add: find_submission_def list_internal_def spec_matches_def newest_first_def)
      (simp add: db_def sample_row_def sample_submissions_def update_row_def)
  have "vote_count ''p1'' db = 2" by (simp add: db_def) (simp add: vote_count_def)
  then have "sb_vote_count (project_row db (sample_crew ! 0) ((sample_row ''p1'' Review)\<lparr>sr_updated_at := 100\<rparr>)) = 2"
    by (simp add: project_row_def sample_row_def)
  then have r: "site_handle sample_pf sample_draws (SubmissionVote (Some ''ts'') ''p1'' True) sample_site =
      (VoteResponse True 2, sample_site\<lparr>si_submissions := db\<rparr>)"
    using sample_token by (simp add: submissions_vote_def site_auth_def both_ids_def parse_id_def parse_user_id_def p n v f)
  from vote_sets_one_vote [OF sample_site_ok r] r show ?thesis by (auto simp: p)
qed

theorem queue_pages_complete_witness:
  "mset (map (\<lambda>s. sb_id (sw_submission s))
     (concat (map (\<lambda>k. fst (queue_page (si_users sample_site) QueueAll (Some 1) (Some (k * 1)) sample_submissions)) [0..<Suc 1]))) =
   {# ''p1'', ''p2'' #}"
proof -
  have "mset (map sr_id (filter (\<lambda>r. sr_status r \<in> set (queue_statuses QueueAll)) (sd_submissions sample_submissions))) = {# ''p1'', ''p2'' #}"
    by (simp add: sample_submissions_def sample_row_def)
  moreover from this have "length (queued (si_users sample_site) QueueAll sample_submissions) = 2"
    using queued_ids [OF sample_submissions_ok, of QueueAll] by (metis (no_types) add_mset_eq_single length_map numeral_2_eq_2 size_add_mset size_empty size_mset)
  ultimately show ?thesis
    using queue_pages_complete [OF sample_submissions_ok, of 1 QueueAll 1] by (simp add: queue_page_eq)
qed

theorem create_stores_and_fails_witness:
  "fst (site_handle sample_pf sample_draws (SubmissionCreate (Some ''ts'') ''p'' ''l'' ''d'' ''s'' ''live'') sample_site) =
     SiteError 500 ''create_failed''"
proof -
  have c: "check_new (trim ''p'') (trim ''l'') (trim ''d'') (trim ''s'') (trim ''live'') = None" by code_simp
  have "dw_id sample_draws \<notin> row_ids (si_submissions sample_site)" and l: "pf_to_lowercase sample_pf = (\<lambda>s. s)"
    by (simp_all add: sample_draws_def sample_site_def sample_submissions_def sample_row_def sample_pf_def)
  with create_stores_and_fails [OF sample_caller _ _ _ prod.collapse [symmetric], of "''p''" "''l''" "''d''" "''s''" "''live''"] c
  show ?thesis by (simp add: sample_ids)
qed

theorem one_flag_undoes_dismissal_witness:
  "status_of ''p2'' (snd (flag_submission (si_users sample_site) 6 ''p2'' ''x'' None (snd (dismiss_flag 5 ''p2'' sample_submissions)))) =
     Some Flagged"
proof -
  have "status_of ''p2'' sample_submissions = Some Flagged"
    using sample_rows(2) by (simp add: status_of_def sample_row_def sample_site_def)
  moreover have "flaggers ''p2'' sample_submissions = {''u'', ''v'', ''w''}" by (auto simp: flaggers_def sample_submissions_def)
  ultimately show ?thesis
    using one_flag_undoes_dismissal [OF sample_submissions_ok, of "''p2''" "''x''" 5 6 None]
    by (simp add: sample_ids AUTO_FLAG_THRESHOLD_def)
qed

theorem revoker_cannot_delete_account_witness:
  "''u'' \<in> us_id ` set (si_users (snd (site_handle sample_pf sample_draws (AccountRequest (DeleteAccount (Some ''ts'') ''pilot'')) sample_site)))"
  by (rule revoker_cannot_delete_account [OF sample_site_ok, of "sample_roles ! 1"])
    (simp_all add: sample_site_def sample_roles_def)

end
