(* ===== verification/Payments.thy ===== *)
theory Payments
  imports Admin_Routes
begin

text \<open>
  Models the donation flow: the order store of \<^verbatim>\<open>crates/starstats-server/src/orders.rs\<close>, the webhook
  signature of \<^verbatim>\<open>revolut.rs\<close>, the supporter store of \<^verbatim>\<open>supporters.rs\<close> and the handlers of
  \<^verbatim>\<open>revolut_routes.rs\<close> and \<^verbatim>\<open>supporter_routes.rs\<close>, with the keys of
  \<^verbatim>\<open>migrations/0017_supporter_status.sql\<close> and \<^verbatim>\<open>0018_revolut_orders.sql\<close>. HMAC-SHA256, hex decoding,
  JSON parsing and the merchant API are parameters. A time is a number of microseconds.
\<close>

section \<open>Orders\<close>

datatype order_state = Pending | Completed | Cancelled | Failed | Refunded

fun order_state_as_str :: "order_state \<Rightarrow> string" where
  "order_state_as_str Pending = ''pending''"
| "order_state_as_str Completed = ''completed''"
| "order_state_as_str Cancelled = ''cancelled''"
| "order_state_as_str Failed = ''failed''"
| "order_state_as_str Refunded = ''refunded''"

definition order_state_parse :: "string \<Rightarrow> order_state option" where
  "order_state_parse s =
     (if s = ''pending'' then Some Pending
      else if s = ''completed'' then Some Completed
      else if s = ''cancelled'' then Some Cancelled
      else if s = ''failed'' then Some Failed
      else if s = ''refunded'' then Some Refunded
      else None)"

record order_row =
  od_id :: uuid
  od_user_id :: uuid
  od_revolut_order_id :: "string option"
  od_tier_key :: string
  od_amount_minor :: int
  od_currency :: string
  od_name_plate :: "string option"
  od_state :: string
  od_checkout_url :: "string option"
  od_created_at :: micros
  od_completed_at :: "micros option"

record new_order =
  no_user_id :: uuid
  no_tier_key :: string
  no_amount_minor :: int
  no_currency :: string
  no_name_plate :: "string option"

datatype order_error = OrderNotFound | OrderDatabase string

text \<open>One row per delivery that was recorded, keyed by order and event.\<close>

record order_db =
  db_orders :: "order_row list"
  db_webhook_events :: "((string \<times> string) \<times> json) list"

definition create_pending ::
    "uuid set \<Rightarrow> uuid \<Rightarrow> micros \<Rightarrow> new_order \<Rightarrow> order_db \<Rightarrow> (order_error + uuid) \<times> order_db" where
  "create_pending users new_id now new db =
     (if new_id \<in> od_id ` set (db_orders db) then (Inl (OrderDatabase ''revolut_orders_pkey''), db)
      else if no_user_id new \<notin> users then (Inl (OrderDatabase ''foreign key''), db)
      else (Inr new_id, db\<lparr>db_orders := db_orders db @
        [\<lparr>od_id = new_id, od_user_id = no_user_id new, od_revolut_order_id = None, od_tier_key = no_tier_key new,
          od_amount_minor = no_amount_minor new, od_currency = no_currency new, od_name_plate = no_name_plate new,
          od_state = ''pending'', od_checkout_url = None, od_created_at = now, od_completed_at = None\<rparr>]\<rparr>))"

text \<open>The Revolut id is unique among the orders.\<close>

definition attach_revolut_details ::
    "uuid \<Rightarrow> string \<Rightarrow> string \<Rightarrow> order_db \<Rightarrow> (order_error + unit) \<times> order_db" where
  "attach_revolut_details local_id revolut_order_id checkout_url db =
     (if local_id \<notin> od_id ` set (db_orders db) then (Inl OrderNotFound, db)
      else if \<exists>r \<in> set (db_orders db). od_id r \<noteq> local_id \<and> od_revolut_order_id r = Some revolut_order_id
      then (Inl (OrderDatabase ''revolut_orders_revolut_order_id_key''), db)
      else (Inr (), db\<lparr>db_orders := map (\<lambda>r. if od_id r = local_id
              then r\<lparr>od_revolut_order_id := Some revolut_order_id, od_checkout_url := Some checkout_url\<rparr> else r) (db_orders db)\<rparr>))"

definition find_by_revolut_id :: "string \<Rightarrow> order_db \<Rightarrow> order_row option" where
  "find_by_revolut_id revolut_order_id db = find (\<lambda>r. od_revolut_order_id r = Some revolut_order_id) (db_orders db)"

definition mark_state :: "micros \<Rightarrow> string \<Rightarrow> order_state \<Rightarrow> order_db \<Rightarrow> (order_error + unit) \<times> order_db" where
  "mark_state now revolut_order_id state db =
     (if Some revolut_order_id \<notin> od_revolut_order_id ` set (db_orders db) then (Inl OrderNotFound, db)
      else (Inr (), db\<lparr>db_orders := map (\<lambda>r. if od_revolut_order_id r = Some revolut_order_id
              then r\<lparr>od_state := order_state_as_str state,
                     od_completed_at := (if order_state_as_str state = ''completed'' then Some now else None)\<rparr>
              else r) (db_orders db)\<rparr>))"

definition record_webhook_event :: "string \<Rightarrow> string \<Rightarrow> json \<Rightarrow> order_db \<Rightarrow> bool \<times> order_db" where
  "record_webhook_event revolut_order_id event_type payload db =
     (if (revolut_order_id, event_type) \<in> fst ` set (db_webhook_events db) then (False, db)
      else (True, db\<lparr>db_webhook_events := db_webhook_events db @ [((revolut_order_id, event_type), payload)]\<rparr>))"

section \<open>Supporters\<close>

datatype supporter_state = NoSupporter | ActiveSupporter | Lapsed

fun supporter_state_as_str :: "supporter_state \<Rightarrow> string" where
  "supporter_state_as_str NoSupporter = ''none''"
| "supporter_state_as_str ActiveSupporter = ''active''"
| "supporter_state_as_str Lapsed = ''lapsed''"

definition supporter_state_parse :: "string \<Rightarrow> supporter_state option" where
  "supporter_state_parse s =
     (if s = ''none'' then Some NoSupporter
      else if s = ''active'' then Some ActiveSupporter
      else if s = ''lapsed'' then Some Lapsed
      else None)"

record supporter_row =
  su_state :: string
  su_name_plate :: "string option"
  su_became_supporter_at :: "micros option"
  su_last_payment_at :: "micros option"
  su_grace_until :: "micros option"
  su_cancelled_at :: "micros option"
  su_updated_at :: micros

type_synonym supporter_db = "uuid \<Rightarrow> supporter_row option"

record supporter_status =
  ss_user_id :: uuid
  ss_state :: supporter_state
  ss_name_plate :: "string option"
  ss_became_supporter_at :: "micros option"
  ss_last_payment_at :: "micros option"
  ss_grace_until :: "micros option"
  ss_cancelled_at :: "micros option"
  ss_updated_at :: micros

definition empty_status :: "micros \<Rightarrow> uuid \<Rightarrow> supporter_status" where
  "empty_status now user_id =
     \<lparr>ss_user_id = user_id, ss_state = NoSupporter, ss_name_plate = None, ss_became_supporter_at = None,
      ss_last_payment_at = None, ss_grace_until = None, ss_cancelled_at = None, ss_updated_at = now\<rparr>"

definition get_supporter :: "micros \<Rightarrow> uuid \<Rightarrow> supporter_db \<Rightarrow> supporter_status" where
  "get_supporter now user_id db =
     (case db user_id of
        None \<Rightarrow> empty_status now user_id
      | Some r \<Rightarrow>
          \<lparr>ss_user_id = user_id,
           ss_state = (case supporter_state_parse (su_state r) of Some s \<Rightarrow> s | None \<Rightarrow> NoSupporter),
           ss_name_plate = su_name_plate r, ss_became_supporter_at = su_became_supporter_at r,
           ss_last_payment_at = su_last_payment_at r, ss_grace_until = su_grace_until r,
           ss_cancelled_at = su_cancelled_at r, ss_updated_at = su_updated_at r\<rparr>)"

text \<open>\<open>COALESCE\<close> of two nullable values.\<close>

fun coalesce :: "'a option \<Rightarrow> 'a option \<Rightarrow> 'a option" where
  "coalesce (Some x) y = Some x"
| "coalesce None y = y"

definition mark_payment_received :: "micros \<Rightarrow> uuid \<Rightarrow> string option \<Rightarrow> micros \<Rightarrow> supporter_db \<Rightarrow> supporter_db" where
  "mark_payment_received now user_id name_plate coverage_until db =
     db(user_id \<mapsto>
       (case db user_id of
          None \<Rightarrow> \<lparr>su_state = ''active'', su_name_plate = name_plate, su_became_supporter_at = Some now,
            su_last_payment_at = Some now, su_grace_until = Some coverage_until, su_cancelled_at = None, su_updated_at = now\<rparr>
        | Some r \<Rightarrow> \<lparr>su_state = ''active'', su_name_plate = coalesce name_plate (su_name_plate r),
            su_became_supporter_at = coalesce (su_became_supporter_at r) (Some now),
            su_last_payment_at = Some now, su_grace_until = Some coverage_until, su_cancelled_at = None, su_updated_at = now\<rparr>))"

section \<open>Webhook signature\<close>

definition TIMESTAMP_DRIFT_TOLERANCE :: micros where
  "TIMESTAMP_DRIFT_TOLERANCE = 5 * 60 * 1000000"

datatype signature_error = HeaderMissing | TimestampMissing | NoSupportedScheme | TimestampOutOfRange | Mismatch

text \<open>Third-party code: the MAC, hex decoding, and chrono's range of representable instants.\<close>

record signing_lib =
  sl_hmac :: "string \<Rightarrow> string \<Rightarrow> string"
  sl_hex_decode :: "string \<Rightarrow> string option"
  sl_in_range :: "int \<Rightarrow> bool"

definition signed_payload :: "string \<Rightarrow> string \<Rightarrow> string" where
  "signed_payload timestamp_header raw_body = ''v1.'' @ trim timestamp_header @ ''.'' @ raw_body"

definition strip_prefix :: "string \<Rightarrow> string \<Rightarrow> string option" where
  "strip_prefix p s = (if starts_with s p then Some (drop (length p) s) else None)"

text \<open>The loop over the entries of the header; \<open>saw_v1\<close> is its mutable flag.\<close>

fun check_entries :: "signing_lib \<Rightarrow> string \<Rightarrow> bool \<Rightarrow> string list \<Rightarrow> signature_error + unit" where
  "check_entries lib expected saw_v1 [] = (if \<not> saw_v1 then Inl NoSupportedScheme else Inl Mismatch)"
| "check_entries lib expected saw_v1 (entry # entries) =
     (case strip_prefix ''v1='' (trim entry) of
        None \<Rightarrow> check_entries lib expected saw_v1 entries
      | Some hex_part \<Rightarrow>
          (case sl_hex_decode lib hex_part of
             None \<Rightarrow> check_entries lib expected True entries
           | Some decoded \<Rightarrow>
               if length decoded \<noteq> length expected then check_entries lib expected True entries
               else if decoded = expected then Inr ()
               else check_entries lib expected True entries))"

definition verify_webhook_signature ::
    "signing_lib \<Rightarrow> string \<Rightarrow> string \<Rightarrow> string \<Rightarrow> string \<Rightarrow> micros \<Rightarrow> signature_error + unit" where
  "verify_webhook_signature lib secret timestamp_header signature_header raw_body now =
     (if trim signature_header = [] then Inl HeaderMissing
      else case parse_i64 (trim timestamp_header) of
        None \<Rightarrow> Inl TimestampMissing
      | Some timestamp_ms \<Rightarrow>
          if \<not> sl_in_range lib timestamp_ms then Inl TimestampMissing
          else if \<bar>now - timestamp_ms * 1000\<bar> > TIMESTAMP_DRIFT_TOLERANCE then Inl TimestampOutOfRange
          else check_entries lib (sl_hmac lib secret (signed_payload timestamp_header raw_body)) False
                 (split_on '','' signature_header))"

section \<open>Handlers\<close>

record tier =
  ti_key :: string
  ti_amount_minor :: int
  ti_currency :: string
  ti_label :: string
  ti_description :: string

definition TIERS :: "tier list" where
  "TIERS =
     [\<lparr>ti_key = ''coffee'', ti_amount_minor = 300, ti_currency = ''GBP'', ti_label = ''Coffee'',
       ti_description = ''A one-off thank-you, the cost of a flat white.''\<rparr>,
      \<lparr>ti_key = ''standard'', ti_amount_minor = 500, ti_currency = ''GBP'', ti_label = ''Standard supporter'',
       ti_description = ''Keeps the lights on for one month of hosting + a name plate.''\<rparr>,
      \<lparr>ti_key = ''generous'', ti_amount_minor = 1500, ti_currency = ''GBP'', ti_label = ''Generous supporter'',
       ti_description = ''Three months of hosting plus a louder thank-you on the supporters list.''\<rparr>]"

definition COVERAGE_DAYS :: int where
  "COVERAGE_DAYS = 30"

definition NAME_PLATE_MAX_CHARS :: nat where
  "NAME_PLATE_MAX_CHARS = 28"

record create_order_request =
  cr_amount :: int
  cr_currency :: string
  cr_redirect_url :: "string option"
  cr_merchant_order_ext_ref :: "string option"
  cr_description :: "string option"

record create_order_response =
  cp_id :: string
  cp_checkout_url :: string

datatype revolut_error = RevolutHttp | RevolutStatus nat string | RevolutMalformed

record donate_state =
  dn_orders :: order_db
  dn_supporters :: supporter_db

text \<open>\<open>dc_revolut\<close> is the merchant API; without configuration there is none, and no secret.\<close>

record donate_config =
  dc_revolut :: "(create_order_request \<Rightarrow> revolut_error + create_order_response) option"
  dc_webhook_secret :: "string option"
  dc_return_url :: "string option"
  dc_parse_uuid :: "string \<Rightarrow> uuid option"
  dc_from_slice :: "string \<Rightarrow> json option"
  dc_signing :: signing_lib

datatype donate_reply =
    DonateError nat string
  | TierListResponse "tier list"
  | CheckoutResponse uuid string
  | WebhookAck string
  | SupporterStatusResponse supporter_status

fun donate_status :: "donate_reply \<Rightarrow> nat" where
  "donate_status (DonateError status code) = status"
| "donate_status r = 200"

definition list_tiers :: donate_reply where
  "list_tiers = TierListResponse TIERS"

definition checkout ::
    "donate_config \<Rightarrow> uuid set \<Rightarrow> uuid \<Rightarrow> micros \<Rightarrow> authenticated_user \<Rightarrow> string \<Rightarrow> string option \<Rightarrow> donate_state \<Rightarrow>
     donate_reply \<times> donate_state" where
  "checkout cfg users new_id now auth tier_key name_plate st =
     (case dc_parse_uuid cfg (au_sub auth) of
        None \<Rightarrow> (DonateError 401 ''invalid_subject'', st)
      | Some user_id \<Rightarrow>
     (case dc_revolut cfg of
        None \<Rightarrow> (DonateError 503 ''not_configured'', st)
      | Some create_order \<Rightarrow>
     (case find (\<lambda>t. ti_key t = tier_key) TIERS of
        None \<Rightarrow> (DonateError 400 ''unknown_tier'', st)
      | Some t \<Rightarrow>
          if (case nonblank name_plate of None \<Rightarrow> False | Some plate \<Rightarrow> chars_count plate > NAME_PLATE_MAX_CHARS)
          then (DonateError 400 ''name_plate_too_long'', st)
          else (case create_pending users new_id now
              \<lparr>no_user_id = user_id, no_tier_key = ti_key t, no_amount_minor = ti_amount_minor t,
               no_currency = ti_currency t, no_name_plate = nonblank name_plate\<rparr> (dn_orders st) of
             (Inl e, _) \<Rightarrow> (DonateError 500 ''order_create_failed'', st)
           | (Inr local_id, db) \<Rightarrow>
               (case create_order
                   \<lparr>cr_amount = ti_amount_minor t, cr_currency = ti_currency t, cr_redirect_url = dc_return_url cfg,
                    cr_merchant_order_ext_ref = Some local_id, cr_description = Some (ti_label t)\<rparr> of
                  Inl e \<Rightarrow> (DonateError 502 ''upstream_error'', st\<lparr>dn_orders := db\<rparr>)
                | Inr resp \<Rightarrow>
                    (case attach_revolut_details local_id (cp_id resp) (cp_checkout_url resp) db of
                       (Inl e, _) \<Rightarrow> (DonateError 500 ''order_persist_failed'', st\<lparr>dn_orders := db\<rparr>)
                     | (Inr _, db') \<Rightarrow> (CheckoutResponse local_id (cp_checkout_url resp), st\<lparr>dn_orders := db'\<rparr>)))))))"

record webhook_event =
  we_event :: string
  we_order_id :: string

text \<open>The derived deserialiser takes an object, or the fields in order as an array.\<close>

definition opt_string :: "json option \<Rightarrow> bool" where
  "opt_string v \<longleftrightarrow> v = None \<or> v = Some JNull \<or> (\<exists>s \<in> set_option v. as_str s \<noteq> None)"

definition event_from_value :: "json \<Rightarrow> webhook_event option" where
  "event_from_value v =
     (case v of
        JObject entries \<Rightarrow>
          (case (map_of entries ''event'', map_of entries ''order_id'') of
             (Some (JString e), Some (JString oid)) \<Rightarrow>
               if opt_string (map_of entries ''merchant_order_ext_ref'') then Some \<lparr>we_event = e, we_order_id = oid\<rparr> else None
           | _ \<Rightarrow> None)
      | JArray (JString e # JString oid # rest) \<Rightarrow>
          if length rest \<le> 1 \<and> list_all (\<lambda>x. opt_string (Some x)) rest then Some \<lparr>we_event = e, we_order_id = oid\<rparr> else None
      | _ \<Rightarrow> None)"

text \<open>Which of the calls to the database succeed in one delivery.\<close>

record db_health =
  dh_record :: bool
  dh_lookup :: bool
  dh_mark :: bool
  dh_pay :: bool

record delivery =
  dl_timestamp :: "string option"
  dl_signature :: "string option"
  dl_body :: string
  dl_now :: micros
  dl_health :: db_health

definition header :: "string option \<Rightarrow> string" where
  "header h = (case h of Some v \<Rightarrow> v | None \<Rightarrow> [])"

fun signature_reply :: "signature_error \<Rightarrow> donate_reply" where
  "signature_reply HeaderMissing = DonateError 400 ''missing_signature_header''"
| "signature_reply TimestampMissing = DonateError 400 ''missing_signature_header''"
| "signature_reply TimestampOutOfRange = DonateError 401 ''timestamp_out_of_range''"
| "signature_reply NoSupportedScheme = DonateError 401 ''signature_invalid''"
| "signature_reply Mismatch = DonateError 401 ''signature_invalid''"

text \<open>\<open>mark_state\<close> and the reply the three terminal events share.\<close>

definition settle ::
    "delivery \<Rightarrow> string \<Rightarrow> order_state \<Rightarrow> string \<Rightarrow> donate_state \<Rightarrow> donate_reply \<times> donate_state" where
  "settle dl order_id state ack st =
     (case (if dh_mark (dl_health dl) then mark_state (dl_now dl) order_id state (dn_orders st)
            else (Inl (OrderDatabase ''unavailable''), dn_orders st)) of
        (Inl e, _) \<Rightarrow> (DonateError 500 ''webhook_state_failed'', st)
      | (Inr _, db) \<Rightarrow> (WebhookAck ack, st\<lparr>dn_orders := db\<rparr>))"

definition apply_event ::
    "delivery \<Rightarrow> webhook_event \<Rightarrow> order_row \<Rightarrow> donate_state \<Rightarrow> donate_reply \<times> donate_state" where
  "apply_event dl event row st =
     (if we_event event = ''ORDER_COMPLETED'' then
        (case settle dl (we_order_id event) Completed ''completed'' st of
           (WebhookAck ack, st') \<Rightarrow>
             if dh_pay (dl_health dl)
             then (WebhookAck ack, st'\<lparr>dn_supporters := mark_payment_received (dl_now dl) (od_user_id row) (od_name_plate row)
                     (dl_now dl + COVERAGE_DAYS * 86400000000) (dn_supporters st')\<rparr>)
             else (DonateError 500 ''webhook_supporter_failed'', st')
         | r \<Rightarrow> r)
      else if we_event event = ''ORDER_FAILED'' then settle dl (we_order_id event) Failed ''failed'' st
      else if we_event event = ''ORDER_CANCELLED'' then settle dl (we_order_id event) Cancelled ''cancelled'' st
      else (WebhookAck ''ignored'', st))"

definition webhook :: "donate_config \<Rightarrow> delivery \<Rightarrow> donate_state \<Rightarrow> donate_reply \<times> donate_state" where
  "webhook cfg dl st =
     (case dc_webhook_secret cfg of
        None \<Rightarrow> (DonateError 503 ''not_configured'', st)
      | Some secret \<Rightarrow>
     (case verify_webhook_signature (dc_signing cfg) secret (header (dl_timestamp dl)) (header (dl_signature dl)) (dl_body dl)
         (dl_now dl) of
        Inl e \<Rightarrow> (signature_reply e, st)
      | Inr _ \<Rightarrow>
     (case dc_from_slice cfg (dl_body dl) of
        None \<Rightarrow> (DonateError 400 ''invalid_body'', st)
      | Some payload \<Rightarrow>
     (case event_from_value payload of
        None \<Rightarrow> (DonateError 400 ''invalid_event'', st)
      | Some event \<Rightarrow>
          if \<not> dh_record (dl_health dl) then (DonateError 500 ''webhook_persist_failed'', st)
          else (case record_webhook_event (we_order_id event) (we_event event) payload (dn_orders st) of
             (False, _) \<Rightarrow> (WebhookAck ''duplicate'', st)
           | (True, db) \<Rightarrow>
               (let st1 = st\<lparr>dn_orders := db\<rparr>
                in if \<not> dh_lookup (dl_health dl) then (DonateError 500 ''webhook_lookup_failed'', st1)
                   else (case find_by_revolut_id (we_order_id event) db of
                      None \<Rightarrow> (WebhookAck ''ignored'', st1)
                    | Some row \<Rightarrow> apply_event dl event row st1)))))))"

definition get_my_supporter ::
    "donate_config \<Rightarrow> micros \<Rightarrow> authenticated_user \<Rightarrow> donate_state \<Rightarrow> donate_reply" where
  "get_my_supporter cfg now auth st =
     (case dc_parse_uuid cfg (au_sub auth) of
        None \<Rightarrow> DonateError 401 ''invalid_subject''
      | Some user_id \<Rightarrow> SupporterStatusResponse (get_supporter now user_id (dn_supporters st)))"

section \<open>Sequences of operations\<close>

text \<open>
  One step of the donation tables: a checkout by a caller while the accounts \<open>users\<close> exist, a
  delivery, or the deletion of an account, which the foreign keys cascade to its orders and status.
\<close>

datatype donate_op =
    Checkout "uuid set" uuid micros authenticated_user string "string option"
  | Webhook delivery
  | AccountErased uuid

definition erase_donor :: "uuid \<Rightarrow> donate_state \<Rightarrow> donate_state" where
  "erase_donor user_id st =
     st\<lparr>dn_orders := (dn_orders st)\<lparr>db_orders := filter (\<lambda>r. od_user_id r \<noteq> user_id) (db_orders (dn_orders st))\<rparr>,
        dn_supporters := (dn_supporters st)(user_id := None)\<rparr>"

fun donate_step :: "donate_config \<Rightarrow> donate_op \<Rightarrow> donate_state \<Rightarrow> donate_reply option \<times> donate_state" where
  "donate_step cfg (Checkout users new_id now auth tier_key plate) st =
     apfst Some (checkout cfg users new_id now auth tier_key plate st)"
| "donate_step cfg (Webhook dl) st = apfst Some (webhook cfg dl st)"
| "donate_step cfg (AccountErased user_id) st = (None, erase_donor user_id st)"

definition no_donations :: donate_state where
  "no_donations = \<lparr>dn_orders = \<lparr>db_orders = [], db_webhook_events = []\<rparr>, dn_supporters = (\<lambda>u. None)\<rparr>"

inductive donate_trace :: "donate_config \<Rightarrow> (donate_op \<times> donate_reply option) list \<Rightarrow> donate_state \<Rightarrow> bool" for cfg where
  start: "donate_trace cfg [] no_donations"
| step: "donate_trace cfg tr st \<Longrightarrow> donate_step cfg op st = (reply, st') \<Longrightarrow> donate_trace cfg (tr @ [(op, reply)]) st'"

text \<open>What a delivery says, once its signature, its JSON and its fields have been accepted.\<close>

definition verified_event :: "donate_config \<Rightarrow> delivery \<Rightarrow> (webhook_event \<times> json) option" where
  "verified_event cfg dl =
     (case dc_webhook_secret cfg of
        None \<Rightarrow> None
      | Some secret \<Rightarrow>
          if verify_webhook_signature (dc_signing cfg) secret (header (dl_timestamp dl)) (header (dl_signature dl)) (dl_body dl)
               (dl_now dl) \<noteq> Inr () then None
          else Option.bind (dc_from_slice cfg (dl_body dl)) (\<lambda>v. map_option (\<lambda>e. (e, v)) (event_from_value v)))"

definition recorded :: "donate_state \<Rightarrow> string \<Rightarrow> string \<Rightarrow> bool" where
  "recorded st order_id event \<longleftrightarrow> (order_id, event) \<in> fst ` set (db_webhook_events (dn_orders st))"

text \<open>
  The order a step credits: the order of a delivery that changes anything in the table of supporters,
  or that is answered as completed.
\<close>

definition credit :: "donate_config \<Rightarrow> donate_op \<Rightarrow> donate_state \<Rightarrow> string option \<times> donate_state" where
  "credit cfg op st =
     (let (reply, st') = donate_step cfg op st
      in (case op of
            Webhook dl \<Rightarrow>
              if dn_supporters st' \<noteq> dn_supporters st \<or> reply = Some (WebhookAck ''completed'')
              then map_option (\<lambda>(e, v). we_order_id e) (verified_event cfg dl) else None
          | _ \<Rightarrow> None, st'))"

section \<open>Lemmas: one delivery\<close>

lemma webhook_rejects:
  assumes "verified_event cfg dl = None"
  shows "\<exists>status code. webhook cfg dl st = (DonateError status code, st) \<and> status \<in> {400, 401, 503}"
proof (cases "dc_webhook_secret cfg")
  case (Some secret)
  let ?v = "verify_webhook_signature (dc_signing cfg) secret (header (dl_timestamp dl)) (header (dl_signature dl)) (dl_body dl) (dl_now dl)"
  show ?thesis
  proof (cases ?v)
    case (Inl e)
    then show ?thesis using Some by (cases e) (auto simp: webhook_def)
  next
    case (Inr u)
    then show ?thesis using Some assms
      by (auto simp: webhook_def verified_event_def bind_eq_None_conv split: option.splits)
  qed
qed (simp add: webhook_def)

lemma verified_eventD:
  assumes "verified_event cfg dl = Some (event, payload)"
  obtains secret where "dc_webhook_secret cfg = Some secret"
    and "verify_webhook_signature (dc_signing cfg) secret (header (dl_timestamp dl)) (header (dl_signature dl)) (dl_body dl)
           (dl_now dl) = Inr ()"
    and "dc_from_slice cfg (dl_body dl) = Some payload" and "event_from_value payload = Some event"
  using assms by (auto simp: verified_event_def bind_eq_Some_conv split: option.splits if_splits)

lemma webhook_accepts:
  assumes "verified_event cfg dl = Some (event, payload)"
  shows "webhook cfg dl st =
     (if \<not> dh_record (dl_health dl) then (DonateError 500 ''webhook_persist_failed'', st)
      else if recorded st (we_order_id event) (we_event event) then (WebhookAck ''duplicate'', st)
      else let st1 = st\<lparr>dn_orders := (dn_orders st)\<lparr>db_webhook_events :=
                  db_webhook_events (dn_orders st) @ [((we_order_id event, we_event event), payload)]\<rparr>\<rparr>
           in if \<not> dh_lookup (dl_health dl) then (DonateError 500 ''webhook_lookup_failed'', st1)
              else case find_by_revolut_id (we_order_id event) (dn_orders st) of
                None \<Rightarrow> (WebhookAck ''ignored'', st1)
              | Some row \<Rightarrow> apply_event dl event row st1)"
proof -
  obtain secret where s: "dc_webhook_secret cfg = Some secret"
    and v: "verify_webhook_signature (dc_signing cfg) secret (header (dl_timestamp dl)) (header (dl_signature dl)) (dl_body dl)
           (dl_now dl) = Inr ()"
    and j: "dc_from_slice cfg (dl_body dl) = Some payload" and e: "event_from_value payload = Some event"
    using verified_eventD [OF assms] .
  have f: "find_by_revolut_id oid (db\<lparr>db_webhook_events := evs\<rparr>) = find_by_revolut_id oid db" for oid db evs
    by (simp add: find_by_revolut_id_def)
  show ?thesis
    by (simp only: webhook_def s v j e option.case sum.case record_webhook_event_def recorded_def if_False if_True prod.case f
        bool.case Let_def split: if_splits) (simp add: f)
qed

lemma find_by_revolut_id_Some:
  "find_by_revolut_id oid db = Some row \<Longrightarrow> row \<in> set (db_orders db) \<and> od_revolut_order_id row = Some oid"
  by (auto simp: find_by_revolut_id_def find_Some_iff)

lemma find_by_revolut_id_events [simp]:
  "find_by_revolut_id oid (db\<lparr>db_webhook_events := evs\<rparr>) = find_by_revolut_id oid db"
  by (simp add: find_by_revolut_id_def)

definition set_state :: "micros \<Rightarrow> string \<Rightarrow> order_state \<Rightarrow> order_row \<Rightarrow> order_row" where
  "set_state now oid state r =
     (if od_revolut_order_id r = Some oid
      then r\<lparr>od_state := order_state_as_str state,
             od_completed_at := (if order_state_as_str state = ''completed'' then Some now else None)\<rparr>
      else r)"

lemma set_state_simps [simp]:
  "od_id (set_state now oid state r) = od_id r" "od_user_id (set_state now oid state r) = od_user_id r"
  "od_revolut_order_id (set_state now oid state r) = od_revolut_order_id r"
  "od_tier_key (set_state now oid state r) = od_tier_key r" "od_amount_minor (set_state now oid state r) = od_amount_minor r"
  "od_currency (set_state now oid state r) = od_currency r" "od_name_plate (set_state now oid state r) = od_name_plate r"
  by (simp_all add: set_state_def)

lemma mark_state_eq:
  "mark_state now oid state db =
     (if Some oid \<in> od_revolut_order_id ` set (db_orders db)
      then (Inr (), db\<lparr>db_orders := map (set_state now oid state) (db_orders db)\<rparr>) else (Inl OrderNotFound, db))"
  by (simp add: mark_state_def set_state_def [abs_def])

lemma settle_eq:
  "Some oid \<in> od_revolut_order_id ` set (db_orders (dn_orders st)) \<Longrightarrow> settle dl oid state ack st =
     (if dh_mark (dl_health dl)
      then (WebhookAck ack, st\<lparr>dn_orders := (dn_orders st)\<lparr>db_orders :=
              map (set_state (dl_now dl) oid state) (db_orders (dn_orders st))\<rparr>\<rparr>)
      else (DonateError 500 ''webhook_state_failed'', st))"
  by (simp add: settle_def mark_state_eq)

lemma find_by_revolut_id_image:
  "find_by_revolut_id oid db = Some row \<Longrightarrow> Some oid \<in> od_revolut_order_id ` set (db_orders db)"
  using find_by_revolut_id_Some by force

text \<open>The state a credited delivery leaves.\<close>

definition after_payment :: "delivery \<Rightarrow> webhook_event \<Rightarrow> json \<Rightarrow> order_row \<Rightarrow> donate_state \<Rightarrow> donate_state" where
  "after_payment dl event payload row st =
     st\<lparr>dn_orders := (dn_orders st)\<lparr>db_webhook_events :=
            db_webhook_events (dn_orders st) @ [((we_order_id event, we_event event), payload)],
          db_orders := map (set_state (dl_now dl) (we_order_id event) Completed) (db_orders (dn_orders st))\<rparr>,
        dn_supporters := mark_payment_received (dl_now dl) (od_user_id row) (od_name_plate row)
          (dl_now dl + COVERAGE_DAYS * 86400000000) (dn_supporters st)\<rparr>"

lemma webhook_pays:
  assumes "verified_event cfg dl = Some (event, payload)" and "we_event event = ''ORDER_COMPLETED''"
    and "\<not> recorded st (we_order_id event) ''ORDER_COMPLETED''"
    and "find_by_revolut_id (we_order_id event) (dn_orders st) = Some row"
    and "dl_health dl = \<lparr>dh_record = True, dh_lookup = True, dh_mark = True, dh_pay = True\<rparr>"
  shows "webhook cfg dl st = (WebhookAck ''completed'', after_payment dl event payload row st)"
  using assms find_by_revolut_id_image [OF assms(4)]
  by (simp add: webhook_accepts [OF assms(1)] Let_def apply_event_def settle_eq after_payment_def)

text \<open>How any other delivery leaves the tables.\<close>

lemma settle_cases:
  obtains "settle dl oid state ack st = (DonateError 500 ''webhook_state_failed'', st)"
  | "settle dl oid state ack st = (WebhookAck ack, st\<lparr>dn_orders := (dn_orders st)\<lparr>db_orders :=
       map (set_state (dl_now dl) oid state) (db_orders (dn_orders st))\<rparr>\<rparr>)"
  by (cases "dh_mark (dl_health dl) \<and> Some oid \<in> od_revolut_order_id ` set (db_orders (dn_orders st))")
    (auto simp: settle_def mark_state_eq)

lemma apply_event_cases:
  obtains (completed) "we_event event = ''ORDER_COMPLETED''"
      "apply_event dl event row st = (WebhookAck ''completed'',
         st\<lparr>dn_orders := (dn_orders st)\<lparr>db_orders := map (set_state (dl_now dl) (we_order_id event) Completed) (db_orders (dn_orders st))\<rparr>,
            dn_supporters := mark_payment_received (dl_now dl) (od_user_id row) (od_name_plate row)
              (dl_now dl + COVERAGE_DAYS * 86400000000) (dn_supporters st)\<rparr>)"
  | (other) reply st' where "apply_event dl event row st = (reply, st')" "reply \<noteq> WebhookAck ''completed''"
      "dn_supporters st' = dn_supporters st" "db_webhook_events (dn_orders st') = db_webhook_events (dn_orders st)"
      "db_orders (dn_orders st') = db_orders (dn_orders st) \<or>
       (\<exists>state. (state = Completed \<longrightarrow> we_event event = ''ORDER_COMPLETED'') \<and>
          db_orders (dn_orders st') = map (set_state (dl_now dl) (we_order_id event) state) (db_orders (dn_orders st)))"
proof (cases "we_event event = ''ORDER_COMPLETED''")
  case True
  then show thesis
  proof (cases rule: settle_cases [of dl "we_order_id event" Completed "''completed''" st])
    case 1 then show thesis using True that(2) by (simp add: apply_event_def)
  next
    case 2
    show thesis
    proof (cases "dh_pay (dl_health dl)")
      case True' : True
      show thesis by (rule that(1)) (use 2 True True' in \<open>simp_all add: apply_event_def\<close>)
    next
      case False
      show thesis
        by (rule that(2) [of "DonateError 500 ''webhook_supporter_failed''" "snd (settle dl (we_order_id event) Completed ''completed'' st)"])
          (use 2 True False in \<open>auto simp: apply_event_def\<close>)
    qed
  qed
next
  case False
  consider (f) "we_event event = ''ORDER_FAILED''" | (c) "we_event event = ''ORDER_CANCELLED''"
    | (i) "we_event event \<noteq> ''ORDER_FAILED''" "we_event event \<noteq> ''ORDER_CANCELLED''" by blast
  then show thesis
  proof cases
    case f
    then have e: "apply_event dl event row st = settle dl (we_order_id event) Failed ''failed'' st" by (simp add: apply_event_def)
    let ?r = "settle dl (we_order_id event) Failed ''failed'' st"
    show thesis
      by (cases rule: settle_cases [of dl "we_order_id event" Failed "''failed''" st]; rule that(2) [of "fst ?r" "snd ?r"])
        (use e in auto)
  next
    case c
    then have e: "apply_event dl event row st = settle dl (we_order_id event) Cancelled ''cancelled'' st" by (simp add: apply_event_def)
    let ?r = "settle dl (we_order_id event) Cancelled ''cancelled'' st"
    show thesis
      by (cases rule: settle_cases [of dl "we_order_id event" Cancelled "''cancelled''" st]; rule that(2) [of "fst ?r" "snd ?r"])
        (use e in auto)
  next
    case i
    then have "apply_event dl event row st = (WebhookAck ''ignored'', st)" using False by (simp add: apply_event_def)
    then show thesis by (rule that(2)) auto
  qed
qed

lemma webhook_cases:
  obtains (unchanged) reply where "webhook cfg dl st = (reply, st)" "reply \<noteq> WebhookAck ''completed''"
      "verified_event cfg dl = None \<or> \<not> dh_record (dl_health dl) \<or> reply = WebhookAck ''duplicate''"
  | (paid) event payload row where "verified_event cfg dl = Some (event, payload)" "we_event event = ''ORDER_COMPLETED''"
      "\<not> recorded st (we_order_id event) ''ORDER_COMPLETED''"
      "find_by_revolut_id (we_order_id event) (dn_orders st) = Some row"
      "webhook cfg dl st = (WebhookAck ''completed'', after_payment dl event payload row st)"
  | (noted) event payload reply st' where "verified_event cfg dl = Some (event, payload)"
      "\<not> recorded st (we_order_id event) (we_event event)"
      "webhook cfg dl st = (reply, st')" "reply \<noteq> WebhookAck ''completed''" "dn_supporters st' = dn_supporters st"
      "db_webhook_events (dn_orders st') = db_webhook_events (dn_orders st) @ [((we_order_id event, we_event event), payload)]"
      "db_orders (dn_orders st') = db_orders (dn_orders st) \<or>
       (\<exists>state. (state = Completed \<longrightarrow> we_event event = ''ORDER_COMPLETED'') \<and>
          db_orders (dn_orders st') = map (set_state (dl_now dl) (we_order_id event) state) (db_orders (dn_orders st)))"
proof (cases "verified_event cfg dl")
  case None
  then show thesis using webhook_rejects [OF None, of st] that(1) by auto
next
  case (Some a)
  then obtain event payload where v: "verified_event cfg dl = Some (event, payload)" by (cases a) auto
  note w = webhook_accepts [OF v, of st]
  let ?st1 = "st\<lparr>dn_orders := (dn_orders st)\<lparr>db_webhook_events :=
                  db_webhook_events (dn_orders st) @ [((we_order_id event, we_event event), payload)]\<rparr>\<rparr>"
  consider (a) "\<not> dh_record (dl_health dl) \<or> recorded st (we_order_id event) (we_event event)"
    | (b) "dh_record (dl_health dl)" "\<not> recorded st (we_order_id event) (we_event event)"
        "\<not> dh_lookup (dl_health dl) \<or> find_by_revolut_id (we_order_id event) (dn_orders st) = None"
    | (c) row where "dh_record (dl_health dl)" "\<not> recorded st (we_order_id event) (we_event event)"
        "dh_lookup (dl_health dl)" "find_by_revolut_id (we_order_id event) (dn_orders st) = Some row"
    by (cases "find_by_revolut_id (we_order_id event) (dn_orders st)") blast+
  then show thesis
  proof cases
    case a
    then obtain reply where "webhook cfg dl st = (reply, st)" "reply \<noteq> WebhookAck ''completed''"
        "\<not> dh_record (dl_health dl) \<or> reply = WebhookAck ''duplicate''"
      using w by (cases "dh_record (dl_health dl)") auto
    then show thesis using that(1) by simp
  next
    case b
    obtain reply where "webhook cfg dl st = (reply, ?st1)" "reply \<noteq> WebhookAck ''completed''"
      using b w by (cases "dh_lookup (dl_health dl)") (auto simp: Let_def)
    then show thesis using that(3) [OF v b(2)] by simp
  next
    case c
    then have w': "webhook cfg dl st = apply_event dl event row ?st1" using w by (simp add: Let_def)
    show thesis
    proof (cases rule: apply_event_cases [of event dl row ?st1])
      case completed
      show thesis by (rule that(2) [OF v]) (use c completed w' in \<open>simp_all add: after_payment_def\<close>)
    next
      case (other reply st')
      then show thesis using that(3) [OF v c(2), of reply st'] w' by simp
    qed
  qed
qed

section \<open>Lemmas: the tables along a sequence\<close>

definition opened_row ::
    "uuid \<Rightarrow> uuid \<Rightarrow> tier \<Rightarrow> string option \<Rightarrow> micros \<Rightarrow> (string \<times> string) option \<Rightarrow> order_row" where
  "opened_row new_id user_id t plate now details =
     \<lparr>od_id = new_id, od_user_id = user_id, od_revolut_order_id = map_option fst details, od_tier_key = ti_key t,
      od_amount_minor = ti_amount_minor t, od_currency = ti_currency t, od_name_plate = plate,
      od_state = ''pending'', od_checkout_url = map_option snd details, od_created_at = now, od_completed_at = None\<rparr>"

lemma opened_row_simps [simp]:
  "od_id (opened_row i u t p now d) = i" "od_user_id (opened_row i u t p now d) = u"
  "od_revolut_order_id (opened_row i u t p now d) = map_option fst d" "od_tier_key (opened_row i u t p now d) = ti_key t"
  "od_amount_minor (opened_row i u t p now d) = ti_amount_minor t" "od_currency (opened_row i u t p now d) = ti_currency t"
  "od_name_plate (opened_row i u t p now d) = p" "od_state (opened_row i u t p now d) = ''pending''"
  "od_completed_at (opened_row i u t p now d) = None"
  by (simp_all add: opened_row_def)

lemma attach_opened:
  assumes "new_id \<notin> od_id ` set (db_orders db)"
  shows "attach_revolut_details new_id oid url (db\<lparr>db_orders := db_orders db @ [opened_row new_id u t p now None]\<rparr>) =
     (if Some oid \<in> od_revolut_order_id ` set (db_orders db)
      then (Inl (OrderDatabase ''revolut_orders_revolut_order_id_key''), db\<lparr>db_orders := db_orders db @ [opened_row new_id u t p now None]\<rparr>)
      else (Inr (), db\<lparr>db_orders := db_orders db @ [opened_row new_id u t p now (Some (oid, url))]\<rparr>))"
proof -
  have taken: "(\<exists>r \<in> set (db_orders db). od_id r \<noteq> new_id \<and> od_revolut_order_id r = Some oid) \<longleftrightarrow>
      Some oid \<in> od_revolut_order_id ` set (db_orders db)"
    using assms by (force simp: image_iff)
  have "map (\<lambda>r. if od_id r = new_id then r\<lparr>od_revolut_order_id := Some oid, od_checkout_url := Some url\<rparr> else r) (db_orders db) =
      db_orders db"
    using assms by (auto intro!: map_idI)
  then show ?thesis by (simp add: attach_revolut_details_def taken) (simp add: opened_row_def)
qed

text \<open>The merchant gave the order \<open>oid\<close> for exactly the tier's price, with the local id as reference.\<close>

definition charged :: "donate_config \<Rightarrow> uuid \<Rightarrow> tier \<Rightarrow> string \<Rightarrow> bool" where
  "charged cfg local_id t oid \<longleftrightarrow>
     (\<exists>create_order resp. dc_revolut cfg = Some create_order \<and> cp_id resp = oid \<and>
        create_order \<lparr>cr_amount = ti_amount_minor t, cr_currency = ti_currency t, cr_redirect_url = dc_return_url cfg,
          cr_merchant_order_ext_ref = Some local_id, cr_description = Some (ti_label t)\<rparr> = Inr resp)"

lemma checkout_cases:
  obtains (unchanged) status code where "checkout cfg users new_id now auth tier_key plate st = (DonateError status code, st)"
  | (opened) user_id t details reply where
      "dc_parse_uuid cfg (au_sub auth) = Some user_id" "t \<in> set TIERS" "ti_key t = tier_key"
      "new_id \<notin> od_id ` set (db_orders (dn_orders st))" "user_id \<in> users"
      "\<And>p. nonblank plate = Some p \<Longrightarrow> chars_count p \<le> NAME_PLATE_MAX_CHARS"
      "checkout cfg users new_id now auth tier_key plate st =
         (reply, st\<lparr>dn_orders := (dn_orders st)\<lparr>db_orders := db_orders (dn_orders st) @
            [opened_row new_id user_id t (nonblank plate) now details]\<rparr>\<rparr>)"
      "case details of None \<Rightarrow> \<exists>status code. reply = DonateError status code
        | Some (oid, url) \<Rightarrow> Some oid \<notin> od_revolut_order_id ` set (db_orders (dn_orders st)) \<and>
            reply = CheckoutResponse new_id url \<and> charged cfg new_id t oid"
proof -
  let ?long = "case nonblank plate of None \<Rightarrow> False | Some p \<Rightarrow> chars_count p > NAME_PLATE_MAX_CHARS"
  consider (bad) status code where "checkout cfg users new_id now auth tier_key plate st = (DonateError status code, st)"
    | (good) user_id create_order t where "dc_parse_uuid cfg (au_sub auth) = Some user_id" "dc_revolut cfg = Some create_order"
        "find (\<lambda>t. ti_key t = tier_key) TIERS = Some t" "\<not> ?long"
        "new_id \<notin> od_id ` set (db_orders (dn_orders st))" "user_id \<in> users"
    by (cases "dc_parse_uuid cfg (au_sub auth)"; cases "dc_revolut cfg"; cases "find (\<lambda>t. ti_key t = tier_key) TIERS"; cases ?long;
        cases "new_id \<in> od_id ` set (db_orders (dn_orders st))"; cases "the (dc_parse_uuid cfg (au_sub auth)) \<in> users")
      (auto simp: checkout_def create_pending_def)
  then show thesis
  proof cases
    case good
    let ?base = "\<lambda>d. (dn_orders st)\<lparr>db_orders := db_orders (dn_orders st) @ [opened_row new_id user_id t (nonblank plate) now d]\<rparr>"
    have t: "t \<in> set TIERS" "ti_key t = tier_key" using good(3) by (auto simp: find_Some_iff)
    have plate: "chars_count p \<le> NAME_PLATE_MAX_CHARS" if "nonblank plate = Some p" for p using good(4) that by simp
    have create: "create_pending users new_id now
        \<lparr>no_user_id = user_id, no_tier_key = ti_key t, no_amount_minor = ti_amount_minor t,
         no_currency = ti_currency t, no_name_plate = nonblank plate\<rparr> (dn_orders st) = (Inr new_id, ?base None)"
      using good(5,6) by (simp add: create_pending_def opened_row_def)
    note eq = checkout_def [of cfg users new_id now auth tier_key plate st, unfolded good(1,2,3) option.case create prod.case sum.case]
    note finish = that(2) [OF good(1) t good(5,6) plate]
    let ?resp = "create_order \<lparr>cr_amount = ti_amount_minor t, cr_currency = ti_currency t, cr_redirect_url = dc_return_url cfg,
                    cr_merchant_order_ext_ref = Some new_id, cr_description = Some (ti_label t)\<rparr>"
    show thesis
    proof (cases ?resp)
      case (Inl e)
      then show thesis using eq good(4) by (intro finish [of "DonateError 502 ''upstream_error''" None]) simp_all
    next
      case (Inr resp)
      show thesis
      proof (cases "Some (cp_id resp) \<in> od_revolut_order_id ` set (db_orders (dn_orders st))")
        case True
        then show thesis using eq good(4) Inr
          by (intro finish [of "DonateError 500 ''order_persist_failed''" None]) (simp_all add: attach_opened [OF good(5)])
      next
        case False
        then show thesis using eq good(4) Inr
          by (intro finish [of "CheckoutResponse new_id (cp_checkout_url resp)" "Some (cp_id resp, cp_checkout_url resp)"]) (auto simp add: attach_opened [OF good(5)] charged_def good(2))
      qed
    qed
  qed (rule that(1))
qed

definition order_ok :: "((string \<times> string) \<times> json) list \<Rightarrow> order_row \<Rightarrow> bool" where
  "order_ok events r \<longleftrightarrow>
     (\<exists>t \<in> set TIERS. od_tier_key r = ti_key t \<and> od_amount_minor r = ti_amount_minor t \<and> od_currency r = ti_currency t) \<and>
     (\<forall>p \<in> set_option (od_name_plate r). chars_count p \<le> NAME_PLATE_MAX_CHARS) \<and>
     (\<exists>s. od_state r = order_state_as_str s) \<and>
     (od_completed_at r \<noteq> None \<longleftrightarrow> od_state r = ''completed'') \<and>
     (od_state r = ''completed'' \<longrightarrow>
        (\<exists>oid. od_revolut_order_id r = Some oid \<and> (oid, ''ORDER_COMPLETED'') \<in> fst ` set events))"

definition donations_ok :: "donate_state \<Rightarrow> bool" where
  "donations_ok st \<longleftrightarrow>
     distinct (map od_id (db_orders (dn_orders st))) \<and>
     distinct (somes (map od_revolut_order_id (db_orders (dn_orders st)))) \<and>
     distinct (map fst (db_webhook_events (dn_orders st))) \<and>
     (\<forall>r \<in> set (db_orders (dn_orders st)). order_ok (db_webhook_events (dn_orders st)) r)"

lemma order_state_as_str_completed [simp]: "order_state_as_str s = ''completed'' \<longleftrightarrow> s = Completed"
  by (cases s) auto

lemma order_ok_more: "order_ok events r \<Longrightarrow> order_ok (events @ later) r"
  by (auto simp: order_ok_def)

lemma order_ok_set_state:
  assumes "order_ok events r" and "state = Completed \<Longrightarrow> (oid, ''ORDER_COMPLETED'') \<in> fst ` set events"
  shows "order_ok events (set_state now oid state r)"
proof (cases "od_revolut_order_id r = Some oid")
  case True
  have "od_state (set_state now oid state r) = order_state_as_str state"
    "od_completed_at (set_state now oid state r) = (if state = Completed then Some now else None)"
    using True by (simp_all add: set_state_def)
  then show ?thesis using assms True by (auto simp: order_ok_def intro: exI [of _ Completed])
qed (use assms(1) in \<open>simp add: set_state_def\<close>)

lemma order_ok_settled:
  "order_ok events r \<Longrightarrow> (state = Completed \<Longrightarrow> (oid, ''ORDER_COMPLETED'') \<in> fst ` set (events @ later)) \<Longrightarrow>
     order_ok (events @ later) (set_state now oid state r)"
  by (intro order_ok_set_state order_ok_more)

lemma somes_Cons: "somes (x # xs) = (case x of None \<Rightarrow> somes xs | Some y \<Rightarrow> y # somes xs)"
  by (cases x) simp_all

lemma somes_map_filter_distinct: "distinct (somes (map f xs)) \<Longrightarrow> distinct (somes (map f (filter P xs)))"
  by (induction xs) (auto simp: somes_Cons set_somes split: option.splits)

lemma somes_app: "somes (xs @ ys) = somes xs @ somes ys"
  by (induction xs) (auto simp: somes_Cons split: option.splits)

lemma somes_map_inj:
  "distinct (somes (map f xs)) \<Longrightarrow> x \<in> set xs \<Longrightarrow> y \<in> set xs \<Longrightarrow> f x = Some v \<Longrightarrow> f y = Some v \<Longrightarrow> x = y"
proof (induction xs)
  case (Cons a xs)
  have other: "f z \<noteq> f a" if "z \<in> set xs" "f z = Some v" for z
    using that Cons.prems(1) by (force simp: somes_Cons set_somes)
  show ?case
  proof (cases "x \<in> set xs \<and> y \<in> set xs")
    case True
    then show ?thesis using Cons by (auto simp: somes_Cons split: option.splits)
  next
    case False
    then show ?thesis using Cons.prems(2-) other [of x] other [of y] by auto
  qed
qed simp

lemma donations_ok_unique:
  assumes "donations_ok st" and "r \<in> set (db_orders (dn_orders st))" and "r' \<in> set (db_orders (dn_orders st))"
  shows "od_id r = od_id r' \<longleftrightarrow> r = r'" and "od_revolut_order_id r' = Some oid \<Longrightarrow> od_revolut_order_id r = Some oid \<longleftrightarrow> r = r'"
  using assms somes_map_inj [of od_revolut_order_id "db_orders (dn_orders st)" r r' oid]
  by (auto simp: donations_ok_def distinct_map inj_on_def)

lemma donations_ok_start: "donations_ok no_donations"
  by (simp add: donations_ok_def no_donations_def)

lemma donations_ok_erase: "donations_ok st \<Longrightarrow> donations_ok (erase_donor u st)"
  by (auto simp: donations_ok_def erase_donor_def distinct_map_filter somes_map_filter_distinct)

lemma donations_ok_checkout:
  assumes "donations_ok st" and "checkout cfg users new_id now auth tier_key plate st = (reply, st')"
  shows "donations_ok st'"
proof (cases rule: checkout_cases [of cfg users new_id now auth tier_key plate st])
  case (opened user_id t details reply')
  have "order_ok events (opened_row new_id user_id t (nonblank plate) now details)" for events
    using opened(2,6) by (auto simp: order_ok_def intro: exI [of _ Pending])
  moreover have "distinct (somes (map od_revolut_order_id (db_orders (dn_orders st)) @ [map_option fst details]))"
    using assms(1) opened(8) by (auto simp: donations_ok_def somes_app set_somes image_iff split: option.splits)
  ultimately show ?thesis using assms opened(4,7) by (auto simp: donations_ok_def)
qed (use assms in simp)

lemma donations_ok_webhook:
  assumes "donations_ok st" and "webhook cfg dl st = (reply, st')"
  shows "donations_ok st'"
proof (cases rule: webhook_cases [of cfg dl st])
  case (unchanged reply')
  then show ?thesis using assms by simp
next
  case (paid event payload row)
  then show ?thesis using assms
    by (auto simp: donations_ok_def after_payment_def recorded_def o_def intro!: order_ok_settled)
next
  case (noted event payload reply' st'')
  have ev: "distinct (map fst (db_webhook_events (dn_orders st'')))"
    using assms(1) noted(2,6) by (auto simp: donations_ok_def recorded_def)
  from noted(7) show ?thesis
  proof
    assume "db_orders (dn_orders st'') = db_orders (dn_orders st)"
    then show ?thesis using assms noted(3,6) ev by (auto simp: donations_ok_def intro: order_ok_more)
  next
    assume "\<exists>state. (state = Completed \<longrightarrow> we_event event = ''ORDER_COMPLETED'') \<and>
          db_orders (dn_orders st'') = map (set_state (dl_now dl) (we_order_id event) state) (db_orders (dn_orders st))"
    then show ?thesis using assms noted(3,6) ev
      by (auto simp: donations_ok_def o_def intro!: order_ok_settled)
  qed
qed

lemma donations_ok_step: "donations_ok st \<Longrightarrow> donate_step cfg op st = (reply, st') \<Longrightarrow> donations_ok st'"
  by (cases op) (auto simp: apfst_def map_prod_def donations_ok_erase intro: donations_ok_checkout donations_ok_webhook
    split: prod.splits)

lemma step_keeps_recorded:
  "donate_step cfg op st = (reply, st') \<Longrightarrow> recorded st oid event \<Longrightarrow> recorded st' oid event"
proof (cases op)
  case (Checkout users new_id now auth tier_key plate)
  assume "donate_step cfg op st = (reply, st')" "recorded st oid event"
  with Checkout show ?thesis
    by (cases rule: checkout_cases [of cfg users new_id now auth tier_key plate st]) (auto simp: recorded_def)
next
  case (Webhook dl)
  assume "donate_step cfg op st = (reply, st')" "recorded st oid event"
  with Webhook show ?thesis
    by (cases rule: webhook_cases [of cfg dl st]) (auto simp: recorded_def after_payment_def)
qed (auto simp: recorded_def erase_donor_def)

text \<open>What a step does to the supporters is one payment of the order it credits.\<close>

lemma credit_cases:
  obtains (kept) "fst (credit cfg op st) = None" "dn_supporters (snd (donate_step cfg op st)) = dn_supporters st"
  | (erased) u where "op = AccountErased u" "fst (credit cfg op st) = None"
  | (credited) dl event payload row where "op = Webhook dl" "verified_event cfg dl = Some (event, payload)"
      "fst (credit cfg op st) = Some (we_order_id event)" "we_event event = ''ORDER_COMPLETED''"
      "\<not> recorded st (we_order_id event) ''ORDER_COMPLETED''"
      "find_by_revolut_id (we_order_id event) (dn_orders st) = Some row"
      "donate_step cfg op st = (Some (WebhookAck ''completed''), after_payment dl event payload row st)"
proof (cases op)
  case (Checkout users new_id now auth tier_key plate)
  show thesis
    by (rule kept; cases rule: checkout_cases [of cfg users new_id now auth tier_key plate st])
      (simp_all add: Checkout credit_def)
next
  case (Webhook dl)
  show thesis
  proof (cases rule: webhook_cases [of cfg dl st])
    case (paid event payload row)
    then show thesis using credited [OF Webhook paid(1)] by (simp add: Webhook credit_def)
  qed (rule kept; use Webhook in \<open>auto simp: credit_def\<close>)+
next
  case (AccountErased u)
  then show thesis by (intro erased) (simp_all add: credit_def)
qed

lemma credit_state: "snd (credit cfg op st) = snd (donate_step cfg op st)"
  by (simp add: credit_def Let_def case_prod_unfold)

lemma credit_Some:
  assumes "credit cfg op st = (Some oid, st')"
  obtains dl event payload row where "op = Webhook dl" "verified_event cfg dl = Some (event, payload)" "we_order_id event = oid"
    "we_event event = ''ORDER_COMPLETED''" "\<not> recorded st oid ''ORDER_COMPLETED''"
    "find_by_revolut_id oid (dn_orders st) = Some row" "st' = after_payment dl event payload row st"
proof (cases rule: credit_cases [of cfg op st])
  case (credited dl event payload row)
  then show thesis using that [of dl event payload row] assms credit_state [of cfg op st] by simp
qed (use assms in simp_all)

interpretation payment: single_use "credit cfg" "\<lambda>st oid. recorded st oid ''ORDER_COMPLETED''" for cfg
proof
  fix op st k st' assume "credit cfg op st = (Some k, st')"
  then show "\<not> recorded st k ''ORDER_COMPLETED'' \<and> recorded st' k ''ORDER_COMPLETED''"
    by (rule credit_Some) (auto simp: recorded_def after_payment_def)
next
  fix op st r st' k assume c: "credit cfg op st = (r, st')" and "recorded st k ''ORDER_COMPLETED''"
  obtain reply s where s: "donate_step cfg op st = (reply, s)" by fastforce
  have "st' = s" using credit_state [of cfg op st] c s by simp
  then show "recorded st' k ''ORDER_COMPLETED''" using step_keeps_recorded [OF s] \<open>recorded st k _\<close> by simp
qed

text \<open>Where in a trace an order was opened, and a supporter's payment was made.\<close>

definition opened_in :: "donate_config \<Rightarrow> (donate_op \<times> donate_reply option) list \<Rightarrow> uuid \<Rightarrow> string \<Rightarrow> bool" where
  "opened_in cfg tr user_id oid \<longleftrightarrow>
     (\<exists>users i now auth t plate url.
        (Checkout users i now auth (ti_key t) plate, Some (CheckoutResponse i url)) \<in> set tr \<and>
        dc_parse_uuid cfg (au_sub auth) = Some user_id \<and> t \<in> set TIERS \<and> charged cfg i t oid)"

definition paid_in :: "donate_config \<Rightarrow> (donate_op \<times> donate_reply option) list \<Rightarrow> uuid \<Rightarrow> supporter_row \<Rightarrow> bool" where
  "paid_in cfg tr user_id s \<longleftrightarrow>
     (\<exists>earlier dl later event payload.
        tr = earlier @ (Webhook dl, Some (WebhookAck ''completed'')) # later \<and>
        verified_event cfg dl = Some (event, payload) \<and> we_event event = ''ORDER_COMPLETED'' \<and>
        opened_in cfg earlier user_id (we_order_id event) \<and>
        su_state s = ''active'' \<and> su_last_payment_at s = Some (dl_now dl) \<and>
        su_grace_until s = Some (dl_now dl + COVERAGE_DAYS * 86400000000))"

definition traced :: "donate_config \<Rightarrow> (donate_op \<times> donate_reply option) list \<Rightarrow> donate_state \<Rightarrow> bool" where
  "traced cfg tr st \<longleftrightarrow>
     (\<forall>r \<in> set (db_orders (dn_orders st)). \<forall>oid. od_revolut_order_id r = Some oid \<longrightarrow> opened_in cfg tr (od_user_id r) oid) \<and>
     (\<forall>u s. dn_supporters st u = Some s \<longrightarrow> paid_in cfg tr u s)"

lemma opened_in_more: "opened_in cfg tr u oid \<Longrightarrow> opened_in cfg (tr @ later) u oid"
  by (fastforce simp: opened_in_def)

lemma paid_in_more: "paid_in cfg tr u s \<Longrightarrow> paid_in cfg (tr @ later) u s"
  unfolding paid_in_def by (metis append.assoc append_Cons)

lemma tracedD:
  "traced cfg tr st \<Longrightarrow> r \<in> set (db_orders (dn_orders st)) \<Longrightarrow> od_revolut_order_id r = Some oid \<Longrightarrow>
     opened_in cfg (tr @ later) (od_user_id r) oid"
  "traced cfg tr st \<Longrightarrow> dn_supporters st u = Some s \<Longrightarrow> paid_in cfg (tr @ later) u s"
  by (auto simp: traced_def intro: opened_in_more paid_in_more)

lemma traced_more:
  assumes "traced cfg tr st" and s: "dn_supporters st' = dn_supporters st"
    and o: "(\<lambda>r. (od_revolut_order_id r, od_user_id r)) ` set (db_orders (dn_orders st')) \<subseteq>
      (\<lambda>r. (od_revolut_order_id r, od_user_id r)) ` set (db_orders (dn_orders st))"
  shows "traced cfg (tr @ later) st'"
  unfolding traced_def
proof (intro conjI ballI allI impI)
  fix r' oid assume r': "r' \<in> set (db_orders (dn_orders st'))" "od_revolut_order_id r' = Some oid"
  then obtain r where "r \<in> set (db_orders (dn_orders st))" "od_revolut_order_id r = Some oid" "od_user_id r = od_user_id r'"
    using o by (fastforce simp: image_subset_iff image_iff)
  then show "opened_in cfg (tr @ later) (od_user_id r') oid" using tracedD(1) [OF assms(1)] by metis
qed (use s tracedD(2) [OF assms(1)] in simp)

lemma traced_checkout:
  assumes "traced cfg tr st" and "checkout cfg users i now auth key plate st = (reply, st')"
  shows "traced cfg (tr @ [(Checkout users i now auth key plate, Some reply)]) st'"
proof (cases rule: checkout_cases [of cfg users i now auth key plate st])
  case (unchanged status code)
  then have "st' = st" using assms by simp
  then show ?thesis using traced_more [OF assms(1) refl] by simp
next
  case (opened user_id t details reply')
  let ?tr = "tr @ [(Checkout users i now auth key plate, Some reply)]"
  have "opened_in cfg ?tr user_id oid" if d: "map_option fst details = Some oid" for oid
  proof -
    obtain url where "details = Some (oid, url)" using d by auto
    then have "reply = CheckoutResponse i url" "charged cfg i t oid" using opened(7,8) assms(2) by auto
    then show ?thesis using opened(1,2,3) unfolding opened_in_def
      by (intro exI [of _ users] exI [of _ i] exI [of _ now] exI [of _ auth] exI [of _ t] exI [of _ plate] exI [of _ url]) simp
  qed
  moreover have "st' = st\<lparr>dn_orders := (dn_orders st)\<lparr>db_orders := db_orders (dn_orders st) @
      [opened_row i user_id t (nonblank plate) now details]\<rparr>\<rparr>"
    using opened(7) assms(2) by simp
  ultimately show ?thesis using tracedD [OF assms(1), of _ _ "[(Checkout users i now auth key plate, Some reply)]"]
    unfolding traced_def by auto
qed

lemma traced_webhook:
  assumes "traced cfg tr st" and "webhook cfg dl st = (reply, st')"
  shows "traced cfg (tr @ [(Webhook dl, Some reply)]) st'"
proof (cases rule: webhook_cases [of cfg dl st])
  case (unchanged reply')
  then have "st' = st" using assms by simp
  then show ?thesis using traced_more [OF assms(1) refl] by simp
next
  case (noted event payload reply' st'')
  then have "st'' = st'" using assms(2) by simp
  with noted(5,7) show ?thesis by (intro traced_more [OF assms(1)]) (auto simp: image_image)
next
  case (paid event payload row)
  let ?tr = "tr @ [(Webhook dl, Some reply)]"
  note row = find_by_revolut_id_Some [OF paid(4)]
  have st': "st' = after_payment dl event payload row st" and reply: "reply = WebhookAck ''completed''"
    using paid(5) assms(2) by simp_all
  have "opened_in cfg tr (od_user_id row) (we_order_id event)" using assms(1) row by (simp add: traced_def)
  then have new: "paid_in cfg ?tr (od_user_id row) s" if "dn_supporters st' (od_user_id row) = Some s" for s
    unfolding paid_in_def using that paid(1,2)
    by (intro exI [of _ tr] exI [of _ dl] exI [of _ "[]"] exI [of _ event] exI [of _ payload])
      (auto simp: st' reply after_payment_def mark_payment_received_def split: option.splits)
  have "paid_in cfg ?tr u s" if "dn_supporters st' u = Some s" "u \<noteq> od_user_id row" for u s
    using that assms(1) by (auto simp: st' after_payment_def mark_payment_received_def traced_def intro: paid_in_more)
  moreover have "opened_in cfg ?tr (od_user_id r) oid"
    if "r \<in> set (db_orders (dn_orders st'))" "od_revolut_order_id r = Some oid" for r oid
    using that assms(1) by (auto simp: st' after_payment_def traced_def intro: opened_in_more)
  ultimately show ?thesis using new unfolding traced_def by metis
qed

lemma traced_erase:
  assumes "traced cfg tr st"
  shows "traced cfg (tr @ later) (erase_donor u st)"
  using assms by (auto simp: traced_def erase_donor_def intro: opened_in_more paid_in_more)

lemma traced_step:
  assumes "traced cfg tr st" and "donate_step cfg op st = (reply, st')"
  shows "traced cfg (tr @ [(op, reply)]) st'"
proof (cases op)
  case (Checkout users i now auth key plate)
  then obtain r where "checkout cfg users i now auth key plate st = (r, st')" "reply = Some r"
    using assms(2) by (cases "checkout cfg users i now auth key plate st") auto
  then show ?thesis using traced_checkout [OF assms(1)] Checkout by simp
next
  case (Webhook dl)
  then obtain r where "webhook cfg dl st = (r, st')" "reply = Some r"
    using assms(2) by (cases "webhook cfg dl st") auto
  then show ?thesis using traced_webhook [OF assms(1)] Webhook by simp
next
  case (AccountErased u)
  then show ?thesis using traced_erase [OF assms(1)] assms(2) by auto
qed

lemma traced_trace: "donate_trace cfg tr st \<Longrightarrow> traced cfg tr st"
  by (induction rule: donate_trace.induct) (simp add: traced_def no_donations_def, rule traced_step)

lemma donations_ok_trace: "donate_trace cfg tr st \<Longrightarrow> donations_ok st"
  by (induction rule: donate_trace.induct) (simp add: donations_ok_start, rule donations_ok_step)

lemma strip_prefix_Some: "strip_prefix p s = Some t \<longleftrightarrow> s = p @ t"
  by (auto simp: strip_prefix_def starts_with_iff)

lemma check_entries_Inr:
  "check_entries lib expected saw entries = Inr () \<longleftrightarrow>
     (\<exists>entry \<in> set entries. \<exists>hex. trim entry = ''v1='' @ hex \<and> sl_hex_decode lib hex = Some expected)"
proof (induction entries arbitrary: saw)
  case (Cons entry entries)
  show ?case
  proof (cases "strip_prefix ''v1='' (trim entry)")
    case None
    then have "trim entry \<noteq> ''v1='' @ hex" for hex by (metis option.distinct(1) strip_prefix_Some)
    then show ?thesis using None Cons by simp
  next
    case (Some hex)
    have entry: "(\<exists>h. trim entry = ''v1='' @ h \<and> sl_hex_decode lib h = Some expected) \<longleftrightarrow> sl_hex_decode lib hex = Some expected"
      using Some by (simp add: strip_prefix_Some)
    have "check_entries lib expected saw (entry # entries) = Inr () \<longleftrightarrow>
        sl_hex_decode lib hex = Some expected \<or> check_entries lib expected True entries = Inr ()"
      using Some by (auto split: option.splits)
    then show ?thesis unfolding Cons list.set bex_simps(5) entry .
  qed
qed simp

lemma get_mark_payment:
  "ss_state (get_supporter now u (mark_payment_received paid_at u plate until db)) = ActiveSupporter"
  "ss_grace_until (get_supporter now u (mark_payment_received paid_at u plate until db)) = Some until"
  "ss_name_plate (get_supporter now u (mark_payment_received paid_at u plate until db)) =
     coalesce plate (ss_name_plate (get_supporter now u db))"
proof -
  have "supporter_state_parse ''active'' = Some ActiveSupporter" by code_simp
  then show "ss_state (get_supporter now u (mark_payment_received paid_at u plate until db)) = ActiveSupporter"
    by (cases "db u") (simp_all add: get_supporter_def mark_payment_received_def)
  show "ss_grace_until (get_supporter now u (mark_payment_received paid_at u plate until db)) = Some until"
    by (cases "db u") (simp_all add: get_supporter_def mark_payment_received_def)
  show "ss_name_plate (get_supporter now u (mark_payment_received paid_at u plate until db)) =
     coalesce plate (ss_name_plate (get_supporter now u db))"
    by (cases "db u"; cases plate) (simp_all add: get_supporter_def mark_payment_received_def empty_status_def)
qed

section \<open>A sample configuration\<close>

definition sample_signing :: signing_lib where
  "sample_signing = \<lparr>sl_hmac = (\<lambda>secret msg. secret @ msg), sl_hex_decode = Some, sl_in_range = (\<lambda>ms. True)\<rparr>"

definition sample_donate :: donate_config where
  "sample_donate =
     \<lparr>dc_revolut = Some (\<lambda>req. Inr \<lparr>cp_id = ''R'', cp_checkout_url = ''pay''\<rparr>), dc_webhook_secret = Some ''k'',
      dc_return_url = None, dc_parse_uuid = Some,
      dc_from_slice = (\<lambda>body. Some (JObject [(''event'', JString (if body = ''c'' then ''ORDER_COMPLETED'' else ''ORDER_FAILED'')),
        (''order_id'', JString ''R'')])),
      dc_signing = sample_signing\<rparr>"

definition sample_delivery :: "string \<Rightarrow> bool \<Rightarrow> delivery" where
  "sample_delivery body lookup =
     \<lparr>dl_timestamp = Some ''7'', dl_signature = Some (''v1=kv1.7.'' @ body), dl_body = body, dl_now = 9000,
      dl_health = \<lparr>dh_record = True, dh_lookup = lookup, dh_mark = True, dh_pay = True\<rparr>\<rparr>"

definition sample_donor :: authenticated_user where
  "sample_donor = \<lparr>au_sub = ''u'', au_preferred_username = ''Han'', au_token_type = User, au_device_id = None\<rparr>"

lemma sample_signature:
  "body = ''c'' \<or> body = ''f'' \<Longrightarrow> verify_webhook_signature sample_signing ''k'' ''7'' (''v1=kv1.7.'' @ body) body 9000 = Inr ()"
proof -
  have t7: "trim ''7'' = ''7''" by code_simp
  have tc: "trim ''v1=kv1.7.c'' = ''v1=kv1.7.c''" by code_simp
  have tf: "trim ''v1=kv1.7.f'' = ''v1=kv1.7.f''" by code_simp
  have c: "strip_prefix ''v1='' ''v1=kv1.7.c'' = Some ''kv1.7.c''" "split_on '','' ''v1=kv1.7.c'' = [''v1=kv1.7.c'']" by code_simp+
  have f: "strip_prefix ''v1='' ''v1=kv1.7.f'' = Some ''kv1.7.f''" "split_on '','' ''v1=kv1.7.f'' = [''v1=kv1.7.f'']" by code_simp+
  have d: "list_all is_ascii_digit ''7''" by code_simp
  have p: "parse_i64 ''7'' = Some 7" using d by (simp add: parse_i64_def parse_digits_def digits_val_def digit_val_def)
  show "body = ''c'' \<or> body = ''f'' \<Longrightarrow> ?thesis"
    by (elim disjE) (simp_all only: verify_webhook_signature_def append.simps t7 tc tf p c f option.case, simp_all add:
        sample_signing_def signed_payload_def TIMESTAMP_DRIFT_TOLERANCE_def t7 tc tf c f)
qed

lemma sample_verified:
  "verified_event sample_donate (sample_delivery ''c'' lookup) =
     Some (\<lparr>we_event = ''ORDER_COMPLETED'', we_order_id = ''R''\<rparr>,
       JObject [(''event'', JString ''ORDER_COMPLETED''), (''order_id'', JString ''R'')])"
  "verified_event sample_donate (sample_delivery ''f'' lookup) =
     Some (\<lparr>we_event = ''ORDER_FAILED'', we_order_id = ''R''\<rparr>,
       JObject [(''event'', JString ''ORDER_FAILED''), (''order_id'', JString ''R'')])"
  using sample_signature [of "''c''"] sample_signature [of "''f''"]
  by (simp_all add: verified_event_def sample_donate_def sample_delivery_def header_def event_from_value_def opt_string_def)

definition sample_checkout :: donate_op where
  "sample_checkout = Checkout {''u''} ''1'' 5 sample_donor ''coffee'' (Some '' Han '')"

definition sample_row :: order_row where
  "sample_row =
     \<lparr>od_id = ''1'', od_user_id = ''u'', od_revolut_order_id = Some ''R'', od_tier_key = ''coffee'', od_amount_minor = 300,
      od_currency = ''GBP'', od_name_plate = Some ''Han'', od_state = ''pending'', od_checkout_url = Some ''pay'',
      od_created_at = 5, od_completed_at = None\<rparr>"

definition sample_donations :: donate_state where
  "sample_donations =
     \<lparr>dn_orders = \<lparr>db_orders = [sample_row], db_webhook_events = []\<rparr>, dn_supporters = (\<lambda>u. None)\<rparr>"

lemma sample_checkout_step:
  "donate_step sample_donate sample_checkout no_donations = (Some (CheckoutResponse ''1'' ''pay''), sample_donations)"
proof -
  have plate: "nonblank (Some '' Han '') = Some ''Han''" by code_simp
  have count: "chars_count ''Han'' \<le> NAME_PLATE_MAX_CHARS" by code_simp
  have tier: "find (\<lambda>t. ti_key t = ''coffee'') TIERS = Some (hd TIERS)" by (simp add: TIERS_def)
  show ?thesis using count
    by (simp add: sample_checkout_def checkout_def sample_donate_def sample_donor_def plate tier no_donations_def
        create_pending_def attach_revolut_details_def sample_donations_def sample_row_def)
      (simp add: TIERS_def)
qed

section \<open>Properties\<close>

text \<open>
  A delivery's signature is accepted iff the header is not blank, the timestamp is a representable
  number of milliseconds at most five minutes from now, and one of the comma-separated entries is
  \<open>v1=\<close> and the hex of the MAC of \<open>v1.timestamp.body\<close> under the secret.
\<close>

theorem webhook_signature_accepted_iff:
  "verify_webhook_signature lib secret timestamp sig body now = Inr () \<longleftrightarrow>
     trim sig \<noteq> [] \<and>
     (\<exists>ms. parse_i64 (trim timestamp) = Some ms \<and> sl_in_range lib ms \<and> \<bar>now - ms * 1000\<bar> \<le> 5 * 60 * 1000000) \<and>
     (\<exists>entry \<in> set (split_on '','' sig). \<exists>hex.
        trim entry = ''v1='' @ hex \<and> sl_hex_decode lib hex = Some (sl_hmac lib secret (''v1.'' @ trim timestamp @ ''.'' @ body)))"
  by (auto simp: verify_webhook_signature_def signed_payload_def TIMESTAMP_DRIFT_TOLERANCE_def check_entries_Inr
      split: option.splits if_splits)

text \<open>
  C22. Along any sequence of checkouts, deliveries and account deletions, from any state, no order is
  credited twice; and crediting an order is the only way to a supporter's status: whatever a step
  changes in the table of supporters is the deletion of an account or exactly one payment to the owner
  of the order that the step credits.
\<close>

theorem payment_credited_once:
  "distinct (honoured (credit cfg) ops st) \<and>
   (dn_supporters (snd (donate_step cfg op s)) = dn_supporters s \<or> (\<exists>u. op = AccountErased u) \<or>
    (\<exists>dl event payload row. op = Webhook dl \<and> verified_event cfg dl = Some (event, payload) \<and>
       fst (credit cfg op s) = Some (we_order_id event) \<and> find_by_revolut_id (we_order_id event) (dn_orders s) = Some row \<and>
       dn_supporters (snd (donate_step cfg op s)) =
         mark_payment_received (dl_now dl) (od_user_id row) (od_name_plate row) (dl_now dl + 30 * 86400000000) (dn_supporters s)))"
proof (rule conjI [OF payment.honoured_distinct])
  show "dn_supporters (snd (donate_step cfg op s)) = dn_supporters s \<or> (\<exists>u. op = AccountErased u) \<or>
    (\<exists>dl event payload row. op = Webhook dl \<and> verified_event cfg dl = Some (event, payload) \<and>
       fst (credit cfg op s) = Some (we_order_id event) \<and> find_by_revolut_id (we_order_id event) (dn_orders s) = Some row \<and>
       dn_supporters (snd (donate_step cfg op s)) =
         mark_payment_received (dl_now dl) (od_user_id row) (od_name_plate row) (dl_now dl + 30 * 86400000000) (dn_supporters s))"
  proof (cases rule: credit_cases [of cfg op s])
    case (credited dl event payload row)
    then have "dn_supporters (snd (donate_step cfg op s)) =
        mark_payment_received (dl_now dl) (od_user_id row) (od_name_plate row) (dl_now dl + 30 * 86400000000) (dn_supporters s)"
      by (simp add: after_payment_def COVERAGE_DAYS_def)
    then show ?thesis using credited by blast
  qed simp_all
qed

text \<open>
  The first verified \<open>ORDER_COMPLETED\<close> of a known order, on a healthy database, completes that order
  and no other, and makes its owner an active supporter for thirty days, with the plate chosen at
  checkout or else the earlier one; nobody else's status changes.
\<close>

theorem completed_payment_takes_effect:
  assumes "donations_ok st" and "verified_event cfg dl = Some (event, payload)" and "we_event event = ''ORDER_COMPLETED''"
    and "\<not> recorded st (we_order_id event) ''ORDER_COMPLETED''"
    and "find_by_revolut_id (we_order_id event) (dn_orders st) = Some row"
    and "dl_health dl = \<lparr>dh_record = True, dh_lookup = True, dh_mark = True, dh_pay = True\<rparr>"
  shows "\<exists>st'. webhook cfg dl st = (WebhookAck ''completed'', st') \<and>
     db_orders (dn_orders st') = map (\<lambda>r. if od_id r = od_id row
       then r\<lparr>od_state := ''completed'', od_completed_at := Some (dl_now dl)\<rparr> else r) (db_orders (dn_orders st)) \<and>
     ss_state (get_supporter now (od_user_id row) (dn_supporters st')) = ActiveSupporter \<and>
     ss_grace_until (get_supporter now (od_user_id row) (dn_supporters st')) = Some (dl_now dl + 30 * 86400000000) \<and>
     ss_name_plate (get_supporter now (od_user_id row) (dn_supporters st')) =
       coalesce (od_name_plate row) (ss_name_plate (get_supporter now (od_user_id row) (dn_supporters st))) \<and>
     (\<forall>u. u \<noteq> od_user_id row \<longrightarrow> dn_supporters st' u = dn_supporters st u)"
proof -
  let ?st' = "after_payment dl event payload row st"
  have row: "row \<in> set (db_orders (dn_orders st))" "od_revolut_order_id row = Some (we_order_id event)"
    using find_by_revolut_id_Some [OF assms(5)] by simp_all
  have only: "od_revolut_order_id r = Some (we_order_id event) \<longleftrightarrow> od_id r = od_id row"
    if "r \<in> set (db_orders (dn_orders st))" for r
    using donations_ok_unique [OF assms(1) that row(1)] row(2) by auto
  have "db_orders (dn_orders ?st') = map (\<lambda>r. if od_id r = od_id row
       then r\<lparr>od_state := ''completed'', od_completed_at := Some (dl_now dl)\<rparr> else r) (db_orders (dn_orders st))"
    using only by (simp add: after_payment_def set_state_def)
  moreover have "ss_state (get_supporter now (od_user_id row) (dn_supporters ?st')) = ActiveSupporter"
      "ss_grace_until (get_supporter now (od_user_id row) (dn_supporters ?st')) = Some (dl_now dl + 30 * 86400000000)"
      "ss_name_plate (get_supporter now (od_user_id row) (dn_supporters ?st')) =
         coalesce (od_name_plate row) (ss_name_plate (get_supporter now (od_user_id row) (dn_supporters st)))"
    by (simp_all add: after_payment_def get_mark_payment COVERAGE_DAYS_def)
  moreover have "\<forall>u. u \<noteq> od_user_id row \<longrightarrow> dn_supporters ?st' u = dn_supporters st u"
    by (simp add: after_payment_def mark_payment_received_def)
  ultimately show ?thesis using webhook_pays [OF assms(2-6)] by blast
qed

theorem completed_payment_takes_effect_witness:
  "\<exists>st'. webhook sample_donate (sample_delivery ''c'' True) sample_donations = (WebhookAck ''completed'', st') \<and>
     ss_state (get_supporter 0 ''u'' (dn_supporters st')) = ActiveSupporter"
proof -
  have h: "dl_health (sample_delivery ''c'' True) = \<lparr>dh_record = True, dh_lookup = True, dh_mark = True, dh_pay = True\<rparr>"
    by (simp add: sample_delivery_def)
  have ok: "donations_ok sample_donations"
    using donations_ok_step [OF donations_ok_start sample_checkout_step] .
  have "find_by_revolut_id ''R'' (dn_orders sample_donations) = Some sample_row"
    by (simp add: sample_donations_def sample_row_def find_by_revolut_id_def)
  moreover have "od_user_id sample_row = ''u''" by (simp add: sample_row_def)
  moreover have "\<not> recorded sample_donations ''R'' ''ORDER_COMPLETED''" by (simp add: recorded_def sample_donations_def)
  ultimately show ?thesis
    using completed_payment_takes_effect [OF ok sample_verified(1) _ _ _ h, where row = sample_row and now = 0] by auto
qed

text \<open>
  Starting from empty tables, every supporter's status traces back to a delivery answered
  \<open>completed\<close>, whose signature had been verified, for an order that the same user had opened by an
  earlier checkout of a listed tier, charged at the merchant for exactly the tier's price; the status is
  active until thirty days after that delivery.
\<close>

theorem supporter_traces_to_payment:
  assumes "donate_trace cfg tr st" and "dn_supporters st user_id = Some s"
  shows "\<exists>earlier dl later event payload users i now auth t plate url.
     tr = earlier @ (Webhook dl, Some (WebhookAck ''completed'')) # later \<and>
     verified_event cfg dl = Some (event, payload) \<and> we_event event = ''ORDER_COMPLETED'' \<and>
     (Checkout users i now auth (ti_key t) plate, Some (CheckoutResponse i url)) \<in> set earlier \<and>
     dc_parse_uuid cfg (au_sub auth) = Some user_id \<and> t \<in> set TIERS \<and> charged cfg i t (we_order_id event) \<and>
     su_state s = ''active'' \<and> su_grace_until s = Some (dl_now dl + 30 * 86400000000)"
proof -
  have "paid_in cfg tr user_id s" using traced_trace [OF assms(1)] assms(2) by (simp add: traced_def)
  then show ?thesis unfolding paid_in_def opened_in_def COVERAGE_DAYS_def by metis
qed

lemma sample_paid:
  "donate_step sample_donate (Webhook (sample_delivery ''c'' True)) sample_donations =
     (Some (WebhookAck ''completed''), after_payment (sample_delivery ''c'' True) \<lparr>we_event = ''ORDER_COMPLETED'', we_order_id = ''R''\<rparr>
        (JObject [(''event'', JString ''ORDER_COMPLETED''), (''order_id'', JString ''R'')]) sample_row sample_donations)"
proof -
  have f: "find_by_revolut_id ''R'' (dn_orders sample_donations) = Some sample_row"
    by (simp add: sample_donations_def sample_row_def find_by_revolut_id_def)
  show ?thesis
    using webhook_pays [OF sample_verified(1), of sample_donations sample_row True] f
    by (simp add: recorded_def sample_donations_def sample_delivery_def)
qed

definition sample_settled :: donate_state where
  "sample_settled = snd (donate_step sample_donate (Webhook (sample_delivery ''c'' True)) sample_donations)"

lemma sample_settled_eq:
  "sample_settled = after_payment (sample_delivery ''c'' True) \<lparr>we_event = ''ORDER_COMPLETED'', we_order_id = ''R''\<rparr>
        (JObject [(''event'', JString ''ORDER_COMPLETED''), (''order_id'', JString ''R'')]) sample_row sample_donations"
  by (simp add: sample_settled_def sample_paid del: donate_step.simps)

lemma sample_settled_trace:
  "donate_trace sample_donate
     [(sample_checkout, Some (CheckoutResponse ''1'' ''pay'')), (Webhook (sample_delivery ''c'' True), Some (WebhookAck ''completed''))]
     sample_settled"
  using donate_trace.step [OF donate_trace.step [OF donate_trace.start sample_checkout_step] sample_paid]
  by (simp add: sample_settled_def sample_paid del: donate_step.simps)

lemma sample_settled_supporter: "dn_supporters sample_settled ''u'' \<noteq> None"
  by (simp add: sample_settled_def sample_paid after_payment_def mark_payment_received_def sample_row_def del: donate_step.simps)

theorem supporter_traces_to_payment_witness:
  "\<exists>s dl event payload. dn_supporters sample_settled ''u'' = Some s \<and> verified_event sample_donate dl = Some (event, payload) \<and>
     su_grace_until s = Some (dl_now dl + 30 * 86400000000)"
proof -
  obtain s where s: "dn_supporters sample_settled ''u'' = Some s" using sample_settled_supporter by auto
  show ?thesis using supporter_traces_to_payment [OF sample_settled_trace s] s by blast
qed

text \<open>
  C24. In every reachable state of the donation tables the ids are unique, the merchant's ids are
  unique, a delivery kind is recorded once per order, and every order has a listed tier with its price,
  a plate within the limit, a state the table allows, and a completion time iff it is completed, which
  only a recorded \<open>ORDER_COMPLETED\<close> for its own merchant id brings about.
\<close>

theorem donations_stay_consistent:
  assumes "donate_trace cfg tr st"
  shows "distinct (map od_id (db_orders (dn_orders st))) \<and>
     distinct (somes (map od_revolut_order_id (db_orders (dn_orders st)))) \<and>
     distinct (map fst (db_webhook_events (dn_orders st))) \<and>
     (\<forall>r \<in> set (db_orders (dn_orders st)). order_ok (db_webhook_events (dn_orders st)) r)"
  using donations_ok_trace [OF assms] unfolding donations_ok_def .

theorem donations_stay_consistent_witness:
  "\<exists>r. set (db_orders (dn_orders sample_settled)) = {r} \<and> od_completed_at r = Some 9000 \<and>
     order_ok (db_webhook_events (dn_orders sample_settled)) r"
proof -
  have one: "db_orders (dn_orders sample_settled) = [set_state 9000 ''R'' Completed sample_row]"
    by (simp add: sample_settled_eq after_payment_def sample_delivery_def sample_donations_def)
  then show ?thesis using donations_stay_consistent [OF sample_settled_trace]
    by (simp add: set_state_def sample_row_def)
qed

text \<open>
  C26. A delivery of \<open>ORDER_COMPLETED\<close> that was recorded but answered with an error, because a later call
  to the database failed, is lost: it leaves the supporters as they were, and whatever is delivered
  afterwards, no step credits the order: none is answered as completed for it, and none that is
  delivered for it changes the table of supporters.
\<close>

theorem failed_credit_is_final:
  assumes "verified_event cfg dl = Some (event, payload)" and "we_event event = ''ORDER_COMPLETED''"
    and "webhook cfg dl st = (DonateError 500 code, st')" and "dh_record (dl_health dl)"
  shows "dn_supporters st' = dn_supporters st \<and> we_order_id event \<notin> set (honoured (credit cfg) ops st') \<and>
    (\<forall>dl' event' payload'. verified_event cfg dl' = Some (event', payload') \<and> we_order_id event' = we_order_id event \<longrightarrow>
       dn_supporters (snd (webhook cfg dl' (run_all (credit cfg) ops st'))) = dn_supporters (run_all (credit cfg) ops st') \<and>
       fst (webhook cfg dl' (run_all (credit cfg) ops st')) \<noteq> WebhookAck ''completed'')"
proof -
  have spent: "recorded st' (we_order_id event) ''ORDER_COMPLETED'' \<and> dn_supporters st' = dn_supporters st"
  proof (cases rule: webhook_cases [of cfg dl st])
    case (unchanged reply)
    then show ?thesis using assms by simp
  qed (use assms in \<open>auto simp: recorded_def\<close>)
  have later: "dn_supporters (snd (webhook cfg dl' s)) = dn_supporters s \<and> fst (webhook cfg dl' s) \<noteq> WebhookAck ''completed''"
    if "verified_event cfg dl' = Some (event', payload')" "we_order_id event' = we_order_id event"
      "recorded s (we_order_id event) ''ORDER_COMPLETED''" for dl' event' payload' s
    using that by (cases rule: credit_cases [of cfg "Webhook dl'" s])
      (auto simp: credit_def case_prod_unfold apfst_def map_prod_def split: if_splits)
  show ?thesis
    using spent payment.spent_never_honoured payment.spent_run_all later by blast
qed

theorem failed_credit_is_final_witness:
  "''R'' \<notin> set (honoured (credit sample_donate) [Webhook (sample_delivery ''c'' True)]
      (snd (webhook sample_donate (sample_delivery ''c'' False) sample_donations)))"
proof -
  have w: "webhook sample_donate (sample_delivery ''c'' False) sample_donations = (DonateError 500 ''webhook_lookup_failed'',
      snd (webhook sample_donate (sample_delivery ''c'' False) sample_donations))"
    unfolding webhook_accepts [OF sample_verified(1)] by (simp add: recorded_def sample_donations_def sample_delivery_def Let_def)
  have "dh_record (dl_health (sample_delivery ''c'' False))" by (simp add: sample_delivery_def)
  from failed_credit_is_final [OF sample_verified(1) _ w this, of "[Webhook (sample_delivery ''c'' True)]"]
  show ?thesis by simp
qed

text \<open>
  A late \<open>ORDER_FAILED\<close> takes a completed order back to \<open>failed\<close> and erases its completion time,
  while the supporter keeps the status the payment gave.
\<close>

theorem late_failure_unsettles_order:
  assumes "donations_ok st" and "verified_event cfg dl = Some (event, payload)" and "we_event event = ''ORDER_FAILED''"
    and "\<not> recorded st (we_order_id event) ''ORDER_FAILED''"
    and "find_by_revolut_id (we_order_id event) (dn_orders st) = Some row" and "od_state row = ''completed''"
    and "dl_health dl = \<lparr>dh_record = True, dh_lookup = True, dh_mark = True, dh_pay = True\<rparr>"
  shows "\<exists>st' row'. webhook cfg dl st = (WebhookAck ''failed'', st') \<and> row' \<in> set (db_orders (dn_orders st')) \<and>
     od_id row' = od_id row \<and> od_state row' = ''failed'' \<and> od_completed_at row' = None \<and> dn_supporters st' = dn_supporters st"
proof -
  let ?f = "set_state (dl_now dl) (we_order_id event) Failed"
  note row = find_by_revolut_id_Some [OF assms(5)] and image = find_by_revolut_id_image [OF assms(5)]
  let ?st' = "st\<lparr>dn_orders := (dn_orders st)\<lparr>db_webhook_events :=
      db_webhook_events (dn_orders st) @ [((we_order_id event, ''ORDER_FAILED''), payload)],
      db_orders := map ?f (db_orders (dn_orders st))\<rparr>\<rparr>"
  have w: "webhook cfg dl st = (WebhookAck ''failed'', ?st')"
    using assms(3-7) image by (simp add: webhook_accepts [OF assms(2)] Let_def apply_event_def settle_eq)
  have "od_state (?f row) = ''failed''" "od_completed_at (?f row) = None" using row by (simp_all add: set_state_def)
  then show ?thesis using w row by (intro exI [of _ ?st'] exI [of _ "?f row"]) simp
qed

theorem late_failure_unsettles_order_witness:
  "\<exists>st' row'. webhook sample_donate (sample_delivery ''f'' True) sample_settled = (WebhookAck ''failed'', st') \<and>
     row' \<in> set (db_orders (dn_orders st')) \<and> od_state row' = ''failed'' \<and> dn_supporters st' ''u'' \<noteq> None"
proof -
  let ?row = "set_state 9000 ''R'' Completed sample_row"
  have f: "find_by_revolut_id ''R'' (dn_orders sample_settled) = Some ?row" "od_state ?row = ''completed''"
      "\<not> recorded sample_settled ''R'' ''ORDER_FAILED''"
    by (simp_all add: sample_settled_eq after_payment_def sample_delivery_def sample_donations_def find_by_revolut_id_def
        set_state_def sample_row_def recorded_def)
  have h: "dl_health (sample_delivery ''f'' True) = \<lparr>dh_record = True, dh_lookup = True, dh_mark = True, dh_pay = True\<rparr>"
    by (simp add: sample_delivery_def)
  show ?thesis
    using late_failure_unsettles_order [OF donations_ok_trace [OF sample_settled_trace] sample_verified(2) _ _ _ f(2) h] f(1,3)
      sample_settled_supporter by auto
qed

text \<open>
  A checkout answers with a payment link only after it stored one pending order with the tier's
  price and the merchant's id, and the merchant was asked for exactly that price; every other answer
  is an error and leaves the tables as they were, or with one pending order without a merchant id.
\<close>

theorem checkout_charges_the_tier:
  assumes "checkout cfg users new_id now auth tier_key plate st = (reply, st')"
  shows "(\<exists>user_id t oid url. reply = CheckoutResponse new_id url \<and> dc_parse_uuid cfg (au_sub auth) = Some user_id \<and>
            t \<in> set TIERS \<and> ti_key t = tier_key \<and> charged cfg new_id t oid \<and>
            st' = st\<lparr>dn_orders := (dn_orders st)\<lparr>db_orders := db_orders (dn_orders st) @
                    [opened_row new_id user_id t (nonblank plate) now (Some (oid, url))]\<rparr>\<rparr>) \<or>
         (\<exists>status code. reply = DonateError status code \<and>
            (st' = st \<or> (\<exists>user_id t. t \<in> set TIERS \<and> st' = st\<lparr>dn_orders := (dn_orders st)\<lparr>db_orders := db_orders (dn_orders st) @
                    [opened_row new_id user_id t (nonblank plate) now None]\<rparr>\<rparr>)))"
proof (cases rule: checkout_cases [of cfg users new_id now auth tier_key plate st])
  case (opened user_id t details reply')
  show ?thesis
  proof (cases details)
    case None
    then show ?thesis using opened(2,7,8) assms by auto
  next
    case (Some d)
    then obtain oid url where "details = Some (oid, url)" by (cases d) auto
    then have "reply = CheckoutResponse new_id url" "charged cfg new_id t oid"
      "st' = st\<lparr>dn_orders := (dn_orders st)\<lparr>db_orders := db_orders (dn_orders st) @
                    [opened_row new_id user_id t (nonblank plate) now (Some (oid, url))]\<rparr>\<rparr>"
      using opened(7,8) assms by simp_all
    then show ?thesis using opened(1-3) by blast
  qed
qed (use assms in simp)

theorem checkout_charges_the_tier_witness:
  "\<exists>t. t \<in> set TIERS \<and> charged sample_donate ''1'' t ''R''"
proof -
  have step: "checkout sample_donate {''u''} ''1'' 5 sample_donor ''coffee'' (Some '' Han '') no_donations =
      (CheckoutResponse ''1'' ''pay'', sample_donations)"
    using sample_checkout_step by (cases "checkout sample_donate {''u''} ''1'' 5 sample_donor ''coffee'' (Some '' Han '') no_donations")
      (simp add: sample_checkout_def)
  have "oid = ''R''" if "charged sample_donate ''1'' t oid" for t oid
    using that by (auto simp: charged_def sample_donate_def)
  then show ?thesis using checkout_charges_the_tier [OF step] by (metis donate_reply.distinct(3))
qed

end
