(* ===== verification/Spicedb.thy ===== *)
theory Spicedb
  imports Prelude
begin

text \<open>
  Models the relationships the server keeps in SpiceDB: the client of
  \<^verbatim>\<open>crates/starstats-server/src/spicedb.rs\<close> and the permissions of \<^verbatim>\<open>infra/spicedb/schema.zed\<close>. The
  service itself is third-party code: whether a call succeeds, which snapshot of the relationships a
  check or a read sees, and whether it answers a check for the wildcard subject are parameters.
\<close>

section \<open>Relationships\<close>

datatype relationship =
  Rel (rl_resource_type: string) (rl_resource_id: string) (rl_relation: string) (rl_subject_type: string) (rl_subject_id: string)

type_synonym relationships = "relationship list"

record object_ref =
  ob_type :: string
  ob_id :: string

text \<open>
  \<open>sp_writes\<close> counts the write calls of a request that succeed before one fails; \<open>sp_read\<close> is the
  snapshot a check or a read sees, \<open>None\<close> when the call fails.
\<close>

record spice_service =
  sp_writes :: nat
  sp_read :: "relationships \<Rightarrow> relationships option"
  sp_wildcard_checks :: bool

text \<open>\<open>TOUCH\<close>, \<open>DELETE\<close> and a filtered delete; a filter without a subject matches every subject.\<close>

definition touch :: "relationship \<Rightarrow> relationships \<Rightarrow> relationships" where
  "touch r rels = (if r \<in> set rels then rels else rels @ [r])"

definition untouch :: "relationship \<Rightarrow> relationships \<Rightarrow> relationships" where
  "untouch r rels = filter (\<lambda>x. x \<noteq> r) rels"

record relationship_filter =
  rf_resource_type :: string
  rf_resource_id :: "string option"
  rf_relation :: string
  rf_subject_type :: "string option"
  rf_subject_id :: "string option"

definition filter_matches :: "relationship_filter \<Rightarrow> relationship \<Rightarrow> bool" where
  "filter_matches f r \<longleftrightarrow>
     rl_resource_type r = rf_resource_type f \<and>
     (rf_resource_id f = None \<or> rf_resource_id f = Some (rl_resource_id r)) \<and>
     rl_relation r = rf_relation f \<and>
     (rf_subject_type f = None \<or> rf_subject_type f = Some (rl_subject_type r)) \<and>
     (rf_subject_id f = None \<or> rf_subject_id f = Some (rl_subject_id r))"

text \<open>The writes of a request in order: those before the first failure take effect.\<close>

definition run_writes ::
    "spice_service \<Rightarrow> (relationships \<Rightarrow> relationships) list \<Rightarrow> relationships \<Rightarrow> bool \<times> relationships" where
  "run_writes sp ws rels = (length ws \<le> sp_writes sp, fold (\<lambda>w. w) (take (sp_writes sp) ws) rels)"

section \<open>Permissions of the schema\<close>

definition related :: "relationships \<Rightarrow> string \<Rightarrow> string \<Rightarrow> string \<Rightarrow> string \<Rightarrow> bool" where
  "related rels resource_type resource_id relation user \<longleftrightarrow> Rel resource_type resource_id relation ''user'' user \<in> set rels"

definition org_permission :: "relationships \<Rightarrow> string \<Rightarrow> string \<Rightarrow> string \<Rightarrow> bool" where
  "org_permission rels slug permission user \<longleftrightarrow>
     (if permission = ''view''
      then related rels ''organization'' slug ''member'' user \<or> related rels ''organization'' slug ''admin'' user \<or>
           related rels ''organization'' slug ''owner'' user
      else if permission = ''manage_members'' \<or> permission = ''view_all_member_stats''
      then related rels ''organization'' slug ''admin'' user \<or> related rels ''organization'' slug ''owner'' user
      else permission = ''manage_org'' \<and> related rels ''organization'' slug ''owner'' user)"

definition stats_view :: "relationships \<Rightarrow> string \<Rightarrow> string \<Rightarrow> bool" where
  "stats_view rels owner user \<longleftrightarrow>
     related rels ''stats_record'' owner ''owner'' user \<or>
     related rels ''stats_record'' owner ''share_with_user'' user \<or>
     (\<exists>r \<in> set rels. rl_resource_type r = ''stats_record'' \<and> rl_resource_id r = owner \<and> rl_relation r = ''share_with_org'' \<and>
        rl_subject_type r = ''organization'' \<and>
        (org_permission rels (rl_subject_id r) ''view'' user \<or>
         org_permission rels (rl_subject_id r) ''view_all_member_stats'' user)) \<or>
     related rels ''stats_record'' owner ''public_view'' ''*''"

definition has_permission :: "relationships \<Rightarrow> object_ref \<Rightarrow> string \<Rightarrow> object_ref \<Rightarrow> bool" where
  "has_permission rels resource permission subject \<longleftrightarrow>
     ob_type subject = ''user'' \<and>
     (if ob_type resource = ''organization'' then org_permission rels (ob_id resource) permission (ob_id subject)
      else if ob_type resource = ''stats_record''
      then (if permission = ''view'' then stats_view rels (ob_id resource) (ob_id subject)
            else permission = ''edit'' \<and> related rels ''stats_record'' (ob_id resource) ''owner'' (ob_id subject))
      else False)"

section \<open>The client\<close>

text \<open>\<open>None\<close> is a failed call.\<close>

definition check_permission ::
    "spice_service \<Rightarrow> object_ref \<Rightarrow> string \<Rightarrow> object_ref \<Rightarrow> relationships \<Rightarrow> bool option" where
  "check_permission sp resource permission subject rels =
     (if ob_id subject = ''*'' \<and> \<not> sp_wildcard_checks sp then None
      else map_option (\<lambda>seen. has_permission seen resource permission subject) (sp_read sp rels))"

definition write_owner :: "spice_service \<Rightarrow> string \<Rightarrow> relationships \<Rightarrow> bool \<times> relationships" where
  "write_owner sp handle = run_writes sp [touch (Rel ''stats_record'' handle ''owner'' ''user'' handle)]"

definition write_public_view :: "spice_service \<Rightarrow> string \<Rightarrow> relationships \<Rightarrow> bool \<times> relationships" where
  "write_public_view sp handle = run_writes sp [touch (Rel ''stats_record'' handle ''public_view'' ''user'' ''*'')]"

definition delete_public_view :: "spice_service \<Rightarrow> string \<Rightarrow> relationships \<Rightarrow> bool \<times> relationships" where
  "delete_public_view sp handle = run_writes sp [untouch (Rel ''stats_record'' handle ''public_view'' ''user'' ''*'')]"

definition write_share_with_user :: "spice_service \<Rightarrow> string \<Rightarrow> string \<Rightarrow> relationships \<Rightarrow> bool \<times> relationships" where
  "write_share_with_user sp owner_handle recipient_handle =
     run_writes sp [touch (Rel ''stats_record'' owner_handle ''share_with_user'' ''user'' recipient_handle)]"

definition delete_share_with_user :: "spice_service \<Rightarrow> string \<Rightarrow> string \<Rightarrow> relationships \<Rightarrow> bool \<times> relationships" where
  "delete_share_with_user sp owner_handle recipient_handle =
     run_writes sp [untouch (Rel ''stats_record'' owner_handle ''share_with_user'' ''user'' recipient_handle)]"

text \<open>Reads leave the wildcard out; the order is the service's.\<close>

definition list_share_with_user :: "spice_service \<Rightarrow> string \<Rightarrow> relationships \<Rightarrow> string list option" where
  "list_share_with_user sp owner_handle rels =
     map_option (\<lambda>seen. filter (\<lambda>h. h \<noteq> ''*'') (map rl_subject_id (filter (filter_matches
        \<lparr>rf_resource_type = ''stats_record'', rf_resource_id = Some owner_handle, rf_relation = ''share_with_user'',
         rf_subject_type = Some ''user'', rf_subject_id = None\<rparr>) seen))) (sp_read sp rels)"

definition list_shared_with_me :: "spice_service \<Rightarrow> string \<Rightarrow> relationships \<Rightarrow> string list option" where
  "list_shared_with_me sp recipient_handle rels =
     map_option (\<lambda>seen. filter (\<lambda>h. h \<noteq> []) (map rl_resource_id (filter (filter_matches
        \<lparr>rf_resource_type = ''stats_record'', rf_resource_id = None, rf_relation = ''share_with_user'',
         rf_subject_type = Some ''user'', rf_subject_id = Some recipient_handle\<rparr>) seen))) (sp_read sp rels)"

definition write_org_role :: "spice_service \<Rightarrow> string \<Rightarrow> string \<Rightarrow> string \<Rightarrow> relationships \<Rightarrow> bool \<times> relationships" where
  "write_org_role sp slug handle role = run_writes sp [touch (Rel ''organization'' slug role ''user'' handle)]"

definition delete_org_role :: "spice_service \<Rightarrow> string \<Rightarrow> string \<Rightarrow> string \<Rightarrow> relationships \<Rightarrow> bool \<times> relationships" where
  "delete_org_role sp slug handle role = run_writes sp [untouch (Rel ''organization'' slug role ''user'' handle)]"

definition delete_matching :: "relationship_filter \<Rightarrow> relationships \<Rightarrow> relationships" where
  "delete_matching f rels = filter (\<lambda>r. \<not> filter_matches f r) rels"

definition org_roles :: "string list" where
  "org_roles = [''owner'', ''admin'', ''member'']"

definition delete_org_member_all_roles :: "spice_service \<Rightarrow> string \<Rightarrow> string \<Rightarrow> relationships \<Rightarrow> bool \<times> relationships" where
  "delete_org_member_all_roles sp slug handle =
     run_writes sp (map (\<lambda>role. delete_matching
       \<lparr>rf_resource_type = ''organization'', rf_resource_id = Some slug, rf_relation = role,
        rf_subject_type = Some ''user'', rf_subject_id = Some handle\<rparr>) org_roles)"

definition delete_all_org_relationships :: "spice_service \<Rightarrow> string \<Rightarrow> relationships \<Rightarrow> bool \<times> relationships" where
  "delete_all_org_relationships sp slug =
     run_writes sp (map (\<lambda>role. delete_matching
       \<lparr>rf_resource_type = ''organization'', rf_resource_id = Some slug, rf_relation = role,
        rf_subject_type = None, rf_subject_id = None\<rparr>) org_roles @
       [delete_matching \<lparr>rf_resource_type = ''stats_record'', rf_resource_id = None, rf_relation = ''share_with_org'',
          rf_subject_type = Some ''organization'', rf_subject_id = Some slug\<rparr>])"

definition list_org_members :: "spice_service \<Rightarrow> string \<Rightarrow> relationships \<Rightarrow> (string \<times> string) list option" where
  "list_org_members sp slug rels =
     map_option (\<lambda>seen. concat (map (\<lambda>role. map (\<lambda>r. (rl_subject_id r, role)) (filter (\<lambda>r. rl_subject_id r \<noteq> ''*'' \<and> filter_matches
        \<lparr>rf_resource_type = ''organization'', rf_resource_id = Some slug, rf_relation = role,
         rf_subject_type = Some ''user'', rf_subject_id = None\<rparr> r) seen)) org_roles)) (sp_read sp rels)"

definition write_share_with_org :: "spice_service \<Rightarrow> string \<Rightarrow> string \<Rightarrow> relationships \<Rightarrow> bool \<times> relationships" where
  "write_share_with_org sp owner_handle org_slug =
     run_writes sp [touch (Rel ''stats_record'' owner_handle ''share_with_org'' ''organization'' org_slug)]"

definition delete_share_with_org :: "spice_service \<Rightarrow> string \<Rightarrow> string \<Rightarrow> relationships \<Rightarrow> bool \<times> relationships" where
  "delete_share_with_org sp owner_handle org_slug =
     run_writes sp [untouch (Rel ''stats_record'' owner_handle ''share_with_org'' ''organization'' org_slug)]"

definition list_share_with_org :: "spice_service \<Rightarrow> string \<Rightarrow> relationships \<Rightarrow> string list option" where
  "list_share_with_org sp owner_handle rels =
     map_option (\<lambda>seen. filter (\<lambda>h. h \<noteq> ''*'') (map rl_subject_id (filter (filter_matches
        \<lparr>rf_resource_type = ''stats_record'', rf_resource_id = Some owner_handle, rf_relation = ''share_with_org'',
         rf_subject_type = Some ''organization'', rf_subject_id = None\<rparr>) seen))) (sp_read sp rels)"

section \<open>Lemmas\<close>

lemma set_touch [simp]: "set (touch r rels) = insert r (set rels)"
  by (auto simp: touch_def)

lemma set_untouch [simp]: "set (untouch r rels) = set rels - {r}"
  by (auto simp: untouch_def)

lemma distinct_touch: "distinct rels \<Longrightarrow> distinct (touch r rels)"
  by (simp add: touch_def)

lemma distinct_untouch: "distinct rels \<Longrightarrow> distinct (untouch r rels)"
  by (simp add: untouch_def)

lemma set_delete_matching [simp]: "set (delete_matching f rels) = {r \<in> set rels. \<not> filter_matches f r}"
  by (auto simp: delete_matching_def)

lemma run_writes_single:
  "run_writes sp [w] rels = (if 0 < sp_writes sp then (True, w rels) else (False, rels))"
  by (cases "sp_writes sp") (auto simp: run_writes_def)

lemma run_writes_all: "length ws \<le> sp_writes sp \<Longrightarrow> run_writes sp ws rels = (True, fold (\<lambda>w. w) ws rels)"
  by (simp add: run_writes_def)

lemma fold_delete_matching:
  "set (fold (\<lambda>w. w) (map delete_matching fs) rels) = {r \<in> set rels. \<forall>f \<in> set fs. \<not> filter_matches f r}"
  by (induction fs arbitrary: rels) auto

text \<open>A permission only depends on which relationships there are.\<close>

lemma related_set: "set a = set b \<Longrightarrow> related a = related b"
  by (simp add: related_def fun_eq_iff)

lemma stats_view_iff:
  "stats_view rels owner user \<longleftrightarrow>
     related rels ''stats_record'' owner ''owner'' user \<or>
     related rels ''stats_record'' owner ''share_with_user'' user \<or>
     (\<exists>slug. Rel ''stats_record'' owner ''share_with_org'' ''organization'' slug \<in> set rels \<and>
        org_permission rels slug ''view'' user) \<or>
     related rels ''stats_record'' owner ''public_view'' ''*''"
proof -
  have view: "(org_permission rels slug ''view'' user \<or> org_permission rels slug ''view_all_member_stats'' user) \<longleftrightarrow>
      org_permission rels slug ''view'' user" for slug
    by (auto simp: org_permission_def)
  have arrow: "(\<exists>r \<in> set rels. rl_resource_type r = ''stats_record'' \<and> rl_resource_id r = owner \<and>
      rl_relation r = ''share_with_org'' \<and> rl_subject_type r = ''organization'' \<and> P (rl_subject_id r)) \<longleftrightarrow>
      (\<exists>slug. Rel ''stats_record'' owner ''share_with_org'' ''organization'' slug \<in> set rels \<and> P slug)" for P
  proof
    assume "\<exists>r \<in> set rels. rl_resource_type r = ''stats_record'' \<and> rl_resource_id r = owner \<and>
      rl_relation r = ''share_with_org'' \<and> rl_subject_type r = ''organization'' \<and> P (rl_subject_id r)"
    then obtain r where "r \<in> set rels" "rl_resource_type r = ''stats_record''" "rl_resource_id r = owner"
      "rl_relation r = ''share_with_org''" "rl_subject_type r = ''organization''" "P (rl_subject_id r)" by blast
    then show "\<exists>slug. Rel ''stats_record'' owner ''share_with_org'' ''organization'' slug \<in> set rels \<and> P slug"
      by (cases r rule: relationship.exhaust) auto
  qed force
  show ?thesis using arrow [of "\<lambda>slug. org_permission rels slug ''view'' user"] by (simp only: stats_view_def view)
qed

end
