(* ===== verification/Orgs.thy ===== *)
theory Orgs
  imports Audit_Chain
begin

text \<open>
  Models the slugs and the store of \<^verbatim>\<open>crates/starstats-server/src/orgs.rs\<close> with the keys of
  \<^verbatim>\<open>migrations/*_organizations.sql\<close>. A text is its UTF-8 bytes: the bytes of a character outside ASCII
  separate as the character does.
\<close>

section \<open>Slugs\<close>

definition SLUG_MAX_LEN :: nat where
  "SLUG_MAX_LEN = 64"

definition is_lower_alnum :: "char \<Rightarrow> bool" where
  "is_lower_alnum c \<longleftrightarrow> (CHR ''a'' \<le> c \<and> c \<le> CHR ''z'') \<or> is_ascii_digit c"

definition is_alnum :: "char \<Rightarrow> bool" where
  "is_alnum c \<longleftrightarrow> is_lower_alnum c \<or> (CHR ''A'' \<le> c \<and> c \<le> CHR ''Z'')"

text \<open>One round of the loop over the characters; the state is the output and \<open>prev_dash\<close>.\<close>

definition slug_step :: "char \<Rightarrow> string \<times> bool \<Rightarrow> string \<times> bool" where
  "slug_step c = (\<lambda>(out, prev_dash).
     if is_alnum c then (out @ [to_lower_char c], False)
     else if \<not> prev_dash \<and> out \<noteq> [] then (out @ ''-'', True)
     else (out, prev_dash))"

definition pop_dashes :: "string \<Rightarrow> string" where
  "pop_dashes s = rev (dropWhile (\<lambda>c. c = CHR ''-'') (rev s))"

definition slugify :: "string \<Rightarrow> string" where
  "slugify input =
     (let out = pop_dashes (fst (fold slug_step input ([], False)))
      in if length out > SLUG_MAX_LEN then pop_dashes (take SLUG_MAX_LEN out) else out)"

definition slug_with_suffix :: "string \<Rightarrow> nat \<Rightarrow> string" where
  "slug_with_suffix base n =
     (let suffix = CHR ''-'' # i64_to_string (int n); max_base = SLUG_MAX_LEN - length suffix
      in pop_dashes (if length base > max_base then take max_base base else base) @ suffix)"

definition validate_slug :: "string \<Rightarrow> bool" where
  "validate_slug slug \<longleftrightarrow>
     slug \<noteq> [] \<and> length slug \<le> SLUG_MAX_LEN \<and> list_all (\<lambda>c. is_lower_alnum c \<or> c = CHR ''-'') slug"

section \<open>The store\<close>

record org =
  og_id :: uuid
  og_name :: string
  og_slug :: string
  og_owner_user_id :: uuid
  og_created_at :: time
  og_updated_at :: time

type_synonym org_table = "org list"

datatype org_error = SlugTaken | OrgNotFound | OrgForbidden | OrgDatabase string

text \<open>Any unique violation is reported as a taken slug; an unknown owner breaks the foreign key.\<close>

definition create_org_row ::
    "uuid set \<Rightarrow> uuid \<Rightarrow> time \<Rightarrow> string \<Rightarrow> string \<Rightarrow> uuid \<Rightarrow> org_table \<Rightarrow> (org_error + org) \<times> org_table" where
  "create_org_row users new_id now name slug owner_user_id tbl =
     (let o' = \<lparr>og_id = new_id, og_name = name, og_slug = slug, og_owner_user_id = owner_user_id, og_created_at = now, og_updated_at = now\<rparr>
      in if new_id \<in> og_id ` set tbl \<or> slug \<in> og_slug ` set tbl then (Inl SlugTaken, tbl)
         else if owner_user_id \<notin> users then (Inl (OrgDatabase ''foreign key''), tbl)
         else (Inr o', tbl @ [o']))"

definition find_org_by_slug :: "string \<Rightarrow> org_table \<Rightarrow> org option" where
  "find_org_by_slug slug tbl = find (\<lambda>r. og_slug r = slug) tbl"

definition find_org_by_id :: "uuid \<Rightarrow> org_table \<Rightarrow> org option" where
  "find_org_by_id i tbl = find (\<lambda>r. og_id r = i) tbl"

text \<open>\<open>ORDER BY created_at DESC\<close>; rows of the same instant come newest inserted first.\<close>

definition newest_orgs :: "org_table \<Rightarrow> org_table" where
  "newest_orgs tbl = sort_key (\<lambda>r. - og_created_at r) (rev tbl)"

definition list_orgs_for_owner :: "uuid \<Rightarrow> org_table \<Rightarrow> org list" where
  "list_orgs_for_owner user_id tbl = newest_orgs (filter (\<lambda>r. og_owner_user_id r = user_id) tbl)"

definition list_all_orgs :: "(string \<Rightarrow> string \<Rightarrow> bool) \<Rightarrow> string option \<Rightarrow> int \<Rightarrow> int \<Rightarrow> org_table \<Rightarrow> org list" where
  "list_all_orgs ilike q limit offset tbl =
     (let q_norm = (case q of None \<Rightarrow> None | Some s \<Rightarrow> if trim s = [] then None else Some (trim s));
          hits = (case q_norm of
             None \<Rightarrow> tbl
           | Some s \<Rightarrow> filter (\<lambda>r. ilike (og_name r) (''%'' @ s @ ''%'') \<or> ilike (og_slug r) (''%'' @ s @ ''%'')) tbl)
      in take (nat (clamp limit 1 200)) (drop (nat (max offset 0)) (newest_orgs hits)))"

definition delete_org_by_id :: "uuid \<Rightarrow> org_table \<Rightarrow> org_table" where
  "delete_org_by_id i tbl = filter (\<lambda>r. og_id r \<noteq> i) tbl"

definition update_org_name :: "uuid \<Rightarrow> string \<Rightarrow> time \<Rightarrow> org_table \<Rightarrow> org_table" where
  "update_org_name i name now tbl = map (\<lambda>r. if og_id r = i then r\<lparr>og_name := name, og_updated_at := now\<rparr> else r) tbl"

text \<open>Ids and slugs are unique, and slugs have the shape the routes accept.\<close>

definition orgs_ok :: "org_table \<Rightarrow> bool" where
  "orgs_ok tbl \<longleftrightarrow> distinct (map og_id tbl) \<and> distinct (map og_slug tbl) \<and> list_all (\<lambda>r. validate_slug (og_slug r)) tbl"

section \<open>Lemmas: slugs\<close>

text \<open>
  A slug in normal form: dashes neither at the start nor next to each other. The flag says that a
  dash may not come next.
\<close>

fun canon :: "bool \<Rightarrow> string \<Rightarrow> bool" where
  "canon no_dash [] \<longleftrightarrow> True"
| "canon no_dash (c # cs) \<longleftrightarrow> (if c = CHR ''-'' then \<not> no_dash \<and> canon True cs else is_lower_alnum c \<and> canon False cs)"

definition ends_dash :: "bool \<Rightarrow> string \<Rightarrow> bool" where
  "ends_dash no_dash s \<longleftrightarrow> (if s = [] then no_dash else last s = CHR ''-'')"

lemma canon_append: "canon b (xs @ ys) \<longleftrightarrow> canon b xs \<and> canon (ends_dash b xs) ys"
  by (induction xs arbitrary: b) (auto simp: ends_dash_def)

lemma canon_take: "canon b xs \<Longrightarrow> canon b (take n xs)"
  by (metis append_take_drop_id canon_append)

lemma pop_dashes_prefix: "\<exists>n. s = pop_dashes s @ replicate n (CHR ''-'')"
proof -
  define t where "t = takeWhile (\<lambda>c. c = CHR ''-'') (rev s)"
  have "\<forall>y \<in> set t. y = CHR ''-''" by (auto simp: t_def dest: set_takeWhileD)
  then have "rev t = replicate (length t) (CHR ''-'')" by (intro replicate_eqI) auto
  moreover have "rev s = t @ dropWhile (\<lambda>c. c = CHR ''-'') (rev s)" by (simp add: t_def)
  then have "s = pop_dashes s @ rev t" unfolding pop_dashes_def by (metis rev_append rev_rev_ident)
  ultimately show ?thesis by metis
qed

lemma canon_pop: "canon b s \<Longrightarrow> canon b (pop_dashes s)"
  by (metis canon_append pop_dashes_prefix)

lemma last_pop: "pop_dashes s \<noteq> [] \<Longrightarrow> last (pop_dashes s) \<noteq> CHR ''-''"
  using hd_dropWhile [of "\<lambda>c. c = CHR ''-''" "rev s"] by (simp add: pop_dashes_def last_rev del: dropWhile_eq_Nil_conv)

lemma pop_dashes_id: "s = [] \<or> last s \<noteq> CHR ''-'' \<Longrightarrow> pop_dashes s = s"
  by (cases s rule: rev_cases) (auto simp: pop_dashes_def)

lemma length_pop: "length (pop_dashes s) \<le> length s"
  unfolding pop_dashes_def by (metis length_dropWhile_le length_rev)

lemma dash_not_alnum [simp]: "\<not> is_alnum (CHR ''-'')" "\<not> is_lower_alnum (CHR ''-'')"
  by (simp_all add: is_alnum_def is_lower_alnum_def is_ascii_digit_def less_eq_char_def)

lemma lower_alnum_fixed: "is_lower_alnum c \<Longrightarrow> to_lower_char c = c"
  by (auto simp: is_lower_alnum_def to_lower_char_def is_ascii_digit_def less_eq_char_def)

lemma upper_lowered:
  assumes "CHR ''A'' \<le> c" and "c \<le> CHR ''Z''"
  shows "is_lower_alnum (to_lower_char c)"
proof -
  have "\<forall>n \<in> set [65..<91]. is_lower_alnum (to_lower_char (char_of (n :: nat)))" by code_simp
  moreover have "(of_char c :: nat) \<in> set [65..<91]" using assms unfolding less_eq_char_def set_upt by auto
  ultimately have "is_lower_alnum (to_lower_char (char_of (of_char c :: nat)))" by blast
  then show ?thesis by simp
qed

lemma alnum_lowered: "is_alnum c \<Longrightarrow> is_lower_alnum (to_lower_char c)"
  using upper_lowered lower_alnum_fixed by (auto simp: is_alnum_def)

lemma lower_alnum_not_dash: "is_lower_alnum c \<Longrightarrow> c \<noteq> CHR ''-''"
  by auto

lemma slug_fold_canon:
  assumes "canon True out" and "prev \<longleftrightarrow> out \<noteq> [] \<and> last out = CHR ''-''"
  shows "canon True (fst (fold slug_step s (out, prev)))"
  using assms
proof (induction s arbitrary: out prev)
  case (Cons c s)
  obtain out' prev' where st: "slug_step c (out, prev) = (out', prev')" by fastforce
  then have "canon True out'" "prev' \<longleftrightarrow> out' \<noteq> [] \<and> last out' = CHR ''-''"
    using Cons.prems alnum_lowered lower_alnum_not_dash
    by (auto simp: slug_step_def canon_append ends_dash_def split: if_splits)
  then show ?case using Cons.IH st by simp
qed simp

lemma slug_fold_id:
  assumes "canon (prev \<or> out = []) s" and "prev \<longleftrightarrow> out \<noteq> [] \<and> last out = CHR ''-''"
  shows "fst (fold slug_step s (out, prev)) = out @ s"
  using assms
proof (induction s arbitrary: out prev)
  case (Cons c s)
  show ?case
  proof (cases "c = CHR ''-''")
    case True
    then have np: "\<not> prev" "out \<noteq> []" "canon True s" using Cons.prems(1) by auto
    then have "slug_step c (out, prev) = (out @ ''-'', True)" using True by (simp add: slug_step_def)
    then show ?thesis using Cons.IH [of True "out @ ''-''"] np True by simp
  next
    case False
    then have l: "is_lower_alnum c" "canon False s" using Cons.prems by auto
    then have "slug_step c (out, prev) = (out @ [c], False)" by (simp add: slug_step_def is_alnum_def lower_alnum_fixed)
    then show ?thesis using Cons.IH [of False "out @ [c]"] l False by simp
  qed
qed simp

lemma canon_slug_chars: "canon b s \<Longrightarrow> list_all (\<lambda>c. is_lower_alnum c \<or> c = CHR ''-'') s"
  by (induction s arbitrary: b) (auto split: if_splits)

text \<open>What \<open>slugify\<close> returns, and that it leaves alone what it returns.\<close>

definition slug_normal :: "string \<Rightarrow> bool" where
  "slug_normal s \<longleftrightarrow> length s \<le> SLUG_MAX_LEN \<and> canon True s \<and> (s = [] \<or> last s \<noteq> CHR ''-'')"

lemma slugify_normal: "slug_normal (slugify input)"
proof -
  define out where "out = pop_dashes (fst (fold slug_step input ([], False)))"
  have c: "canon True out" unfolding out_def using slug_fold_canon [of "[]" False input] by (simp add: canon_pop)
  have l: "out = [] \<or> last out \<noteq> CHR ''-''" unfolding out_def using last_pop by blast
  have "length (pop_dashes (take SLUG_MAX_LEN out)) \<le> SLUG_MAX_LEN"
    using length_pop [of "take SLUG_MAX_LEN out"] by simp
  then show ?thesis using c l canon_pop [OF canon_take [OF c, of SLUG_MAX_LEN]] last_pop [of "take SLUG_MAX_LEN out"]
    by (auto simp: slug_normal_def slugify_def Let_def out_def [symmetric])
qed

lemma slugify_id: "slug_normal s \<Longrightarrow> slugify s = s"
  using slug_fold_id [of False "[]" s] by (simp add: slugify_def slug_normal_def pop_dashes_id)

lemma slug_normal_valid: "slug_normal s \<Longrightarrow> s \<noteq> [] \<Longrightarrow> validate_slug s"
  using canon_slug_chars by (auto simp: slug_normal_def validate_slug_def)

lemma digits_rev_digits: "list_all is_ascii_digit (digits_rev fuel n)"
proof (induction fuel n rule: digits_rev.induct)
  case (2 fuel n)
  have "n mod 10 < 10" by simp
  then have "is_ascii_digit (char_of (48 + n mod 10))" by (simp add: is_ascii_digit_def less_eq_char_def)
  then show ?case using 2 by simp
qed simp

lemma i64_digits: "list_all is_ascii_digit (i64_to_string (int n))"
  using digits_rev_digits [of "Suc n" n] by (auto simp: i64_to_string_def list_all_iff)

lemma digits_rev_length: "n < 100 \<Longrightarrow> length (digits_rev fuel n) \<le> 2"
proof -
  assume n: "n < 100"
  have one: "length (digits_rev f m) \<le> 1" if "m < 10" for f m using that by (cases f) auto
  show ?thesis
  proof (cases fuel)
    case (Suc f)
    have "length (digits_rev f (n div 10)) \<le> 1" using n by (intro one) simp
    then show ?thesis using Suc by simp
  qed simp
qed

lemma i64_length: "n < 100 \<Longrightarrow> length (i64_to_string (int n)) \<le> 2"
  using digits_rev_length [of n "Suc n"] by (simp add: i64_to_string_def)

lemma slug_with_suffix_valid:
  assumes "slug_normal base" and "base \<noteq> []" and "n < 100"
  shows "validate_slug (slug_with_suffix base n)"
proof -
  define suffix where "suffix = CHR ''-'' # i64_to_string (int n)"
  define kept where "kept = (if length base > SLUG_MAX_LEN - length suffix then take (SLUG_MAX_LEN - length suffix) base else base)"
  have eq: "slug_with_suffix base n = pop_dashes kept @ suffix"
    by (simp only: slug_with_suffix_def Let_def kept_def suffix_def)
  have s: "length suffix \<le> 3" "suffix \<noteq> []" using i64_length [OF assms(3)] by (simp_all add: suffix_def)
  have "length kept \<le> SLUG_MAX_LEN - length suffix" by (simp add: kept_def)
  then have b: "length (pop_dashes kept) \<le> SLUG_MAX_LEN - length suffix" using length_pop [of kept] by simp
  have "canon True kept" using assms(1) canon_take by (simp add: kept_def slug_normal_def)
  then have "list_all (\<lambda>c. is_lower_alnum c \<or> c = CHR ''-'') (pop_dashes kept)" using canon_pop canon_slug_chars by blast
  moreover have "list_all (\<lambda>c. is_lower_alnum c \<or> c = CHR ''-'') suffix"
    using i64_digits [of n] by (auto simp: suffix_def list_all_iff is_lower_alnum_def)
  ultimately show ?thesis using s b by (simp add: eq validate_slug_def SLUG_MAX_LEN_def)
qed

lemma digits_no_dash: "CHR ''-'' \<notin> set (i64_to_string (int n))"
  using i64_digits [of n] by (auto simp: list_all_iff is_ascii_digit_def less_eq_char_def)

lemma after_last_dash:
  assumes "x @ CHR ''-'' # d = y @ CHR ''-'' # e" and "CHR ''-'' \<notin> set d" and "CHR ''-'' \<notin> set e"
  shows "d = e"
proof -
  have "rev d @ CHR ''-'' # rev x = rev e @ CHR ''-'' # rev y" using arg_cong [OF assms(1), of rev] by simp
  then have "takeWhile (\<lambda>c. c \<noteq> CHR ''-'') (rev d @ CHR ''-'' # rev x) = takeWhile (\<lambda>c. c \<noteq> CHR ''-'') (rev e @ CHR ''-'' # rev y)"
    by simp
  moreover have "takeWhile (\<lambda>c. c \<noteq> CHR ''-'') (rev w @ CHR ''-'' # v) = rev w" if "CHR ''-'' \<notin> set w" for w v
    using that by (subst takeWhile_append2) auto
  ultimately show ?thesis using assms(2,3) by simp
qed

lemma slug_with_suffix_inj: "slug_with_suffix base m = slug_with_suffix base n \<Longrightarrow> m = n"
proof -
  assume "slug_with_suffix base m = slug_with_suffix base n"
  then have "i64_to_string (int m) = i64_to_string (int n)"
    unfolding slug_with_suffix_def Let_def using after_last_dash digits_no_dash by blast
  then show ?thesis using i64_to_string_inj [of "int m" "int n"] by simp
qed

section \<open>Lemmas: the store\<close>

lemma orgs_ok_create:
  assumes "orgs_ok tbl" and "validate_slug slug" and "create_org_row users i now name slug owner tbl = (r, tbl')"
  shows "orgs_ok tbl'"
  using assms by (auto simp: orgs_ok_def create_org_row_def Let_def split: if_splits)

lemma orgs_ok_filter: "orgs_ok tbl \<Longrightarrow> orgs_ok (filter P tbl)"
  by (auto simp: orgs_ok_def distinct_map_filter list_all_iff)

lemma orgs_ok_rename: "orgs_ok tbl \<Longrightarrow> orgs_ok (update_org_name i name now tbl)"
proof -
  assume "orgs_ok tbl"
  moreover have "map og_id (update_org_name i name now tbl) = map og_id tbl"
    "map og_slug (update_org_name i name now tbl) = map og_slug tbl" by (auto simp: update_org_name_def)
  moreover have "list_all (\<lambda>r. validate_slug (og_slug r)) (update_org_name i name now tbl)"
    using \<open>orgs_ok tbl\<close> by (auto simp: orgs_ok_def update_org_name_def list_all_iff)
  ultimately show ?thesis by (simp add: orgs_ok_def)
qed

lemma find_org_by_slug_Some: "find_org_by_slug slug tbl = Some r \<Longrightarrow> r \<in> set tbl \<and> og_slug r = slug"
  by (auto simp: find_org_by_slug_def find_Some_iff)

end
