(* ===== verification/Share_Stores.thy ===== *)
theory Share_Stores
  imports Admin_Routes Spicedb Orgs
begin

text \<open>
  Models the side tables of sharing: \<^verbatim>\<open>crates/starstats-server/src/share_metadata.rs\<close>,
  \<^verbatim>\<open>share_reports.rs\<close> and the view statistics of \<^verbatim>\<open>audit.rs\<close>, and the scope of a share with its JSON
  form from \<^verbatim>\<open>sharing_routes.rs\<close>. \<open>lower\<close> is PostgreSQL's; times are microseconds.
\<close>

section \<open>Scopes\<close>

record share_scope =
  sc_kind :: string
  sc_tabs :: "string list option"
  sc_window_days :: "nat option"
  sc_allow_event_types :: "string list option"
  sc_deny_event_types :: "string list option"

text \<open>The derived serialiser leaves out the fields that are \<open>None\<close>.\<close>

definition strings_to_value :: "string list \<Rightarrow> json" where
  "strings_to_value ss = JArray (map JString ss)"

definition scope_to_value :: "share_scope \<Rightarrow> json" where
  "scope_to_value s = JObject ([(''kind'', JString (sc_kind s))] @
     (case sc_tabs s of None \<Rightarrow> [] | Some ts \<Rightarrow> [(''tabs'', strings_to_value ts)]) @
     (case sc_window_days s of None \<Rightarrow> [] | Some n \<Rightarrow> [(''window_days'', JNumber (i64_to_string (int n)))]) @
     (case sc_allow_event_types s of None \<Rightarrow> [] | Some ts \<Rightarrow> [(''allow_event_types'', strings_to_value ts)]) @
     (case sc_deny_event_types s of None \<Rightarrow> [] | Some ts \<Rightarrow> [(''deny_event_types'', strings_to_value ts)]))"

fun value_to_strings :: "json \<Rightarrow> string list option" where
  "value_to_strings (JArray vs) = those (map as_str vs)"
| "value_to_strings _ = None"

fun value_to_u32 :: "json \<Rightarrow> nat option" where
  "value_to_u32 (JNumber n) = (if list_all is_ascii_digit n then parse_unsigned 32 n else None)"
| "value_to_u32 _ = None"

text \<open>An optional field that is missing or null is \<open>None\<close>.\<close>

definition opt_field :: "(json \<Rightarrow> 'a option) \<Rightarrow> json option \<Rightarrow> 'a option option" where
  "opt_field parse v = (case v of None \<Rightarrow> Some None | Some JNull \<Rightarrow> Some None | Some x \<Rightarrow> map_option Some (parse x))"

definition scope_of_fields ::
    "json option \<Rightarrow> json option \<Rightarrow> json option \<Rightarrow> json option \<Rightarrow> json option \<Rightarrow> share_scope option" where
  "scope_of_fields kind tabs window allow deny =
     (case (Option.bind kind as_str, opt_field value_to_strings tabs, opt_field value_to_u32 window,
            opt_field value_to_strings allow, opt_field value_to_strings deny) of
        (Some k, Some t, Some w, Some a, Some d) \<Rightarrow>
          Some \<lparr>sc_kind = k, sc_tabs = t, sc_window_days = w, sc_allow_event_types = a, sc_deny_event_types = d\<rparr>
      | _ \<Rightarrow> None)"

definition nth_opt :: "'a list \<Rightarrow> nat \<Rightarrow> 'a option" where
  "nth_opt xs i = (if i < length xs then Some (xs ! i) else None)"

text \<open>The derived deserialiser takes an object, or an array of the fields in order.\<close>

fun scope_from_value :: "json \<Rightarrow> share_scope option" where
  "scope_from_value (JObject es) =
     scope_of_fields (map_of es ''kind'') (map_of es ''tabs'') (map_of es ''window_days'') (map_of es ''allow_event_types'')
       (map_of es ''deny_event_types'')"
| "scope_from_value (JArray vs) =
     (if length vs \<le> 5 then scope_of_fields (nth_opt vs 0) (nth_opt vs 1) (nth_opt vs 2) (nth_opt vs 3) (nth_opt vs 4) else None)"
| "scope_from_value _ = None"

section \<open>Share metadata\<close>

record share_meta =
  sm_owner_handle :: string
  sm_recipient_handle :: string
  sm_expires_at :: "micros option"
  sm_note :: "string option"
  sm_scope :: "json option"
  sm_created_at :: micros

type_synonym share_meta_table = "share_meta list"

definition NOTE_MAX_LEN :: nat where
  "NOTE_MAX_LEN = 280"

definition meta_key :: "(string \<Rightarrow> string) \<Rightarrow> share_meta \<Rightarrow> string \<times> string" where
  "meta_key lower m = (lower (sm_owner_handle m), lower (sm_recipient_handle m))"

definition upsert_meta ::
    "(string \<Rightarrow> string) \<Rightarrow> micros \<Rightarrow> string \<Rightarrow> string \<Rightarrow> micros option \<Rightarrow> string option \<Rightarrow> json option \<Rightarrow>
     share_meta_table \<Rightarrow> share_meta_table" where
  "upsert_meta lower now owner_handle recipient_handle expires_at note scope tbl =
     (if (lower owner_handle, lower recipient_handle) \<in> meta_key lower ` set tbl
      then map (\<lambda>m. if meta_key lower m = (lower owner_handle, lower recipient_handle)
              then m\<lparr>sm_expires_at := expires_at, sm_note := note, sm_scope := scope\<rparr> else m) tbl
      else tbl @ [\<lparr>sm_owner_handle = owner_handle, sm_recipient_handle = recipient_handle, sm_expires_at = expires_at,
              sm_note = note, sm_scope = scope, sm_created_at = now\<rparr>])"

definition find_meta :: "(string \<Rightarrow> string) \<Rightarrow> string \<Rightarrow> string \<Rightarrow> share_meta_table \<Rightarrow> share_meta option" where
  "find_meta lower owner_handle recipient_handle tbl =
     find (\<lambda>m. meta_key lower m = (lower owner_handle, lower recipient_handle)) tbl"

definition list_meta_by_owner :: "(string \<Rightarrow> string) \<Rightarrow> string \<Rightarrow> share_meta_table \<Rightarrow> share_meta list" where
  "list_meta_by_owner lower owner_handle tbl = filter (\<lambda>m. lower (sm_owner_handle m) = lower owner_handle) tbl"

definition list_meta_by_recipient :: "(string \<Rightarrow> string) \<Rightarrow> string \<Rightarrow> share_meta_table \<Rightarrow> share_meta list" where
  "list_meta_by_recipient lower recipient_handle tbl =
     filter (\<lambda>m. lower (sm_recipient_handle m) = lower recipient_handle) tbl"

definition delete_meta :: "(string \<Rightarrow> string) \<Rightarrow> string \<Rightarrow> string \<Rightarrow> share_meta_table \<Rightarrow> share_meta_table" where
  "delete_meta lower owner_handle recipient_handle tbl =
     filter (\<lambda>m. meta_key lower m \<noteq> (lower owner_handle, lower recipient_handle)) tbl"

definition meta_active :: "micros \<Rightarrow> share_meta \<Rightarrow> bool" where
  "meta_active now m \<longleftrightarrow> (case sm_expires_at m of None \<Rightarrow> True | Some t \<Rightarrow> t > now)"

record active_share_counts =
  sa_total :: int
  sa_with_expiry :: int

definition active_share_counts_of :: "micros \<Rightarrow> share_meta_table \<Rightarrow> active_share_counts" where
  "active_share_counts_of now tbl =
     \<lparr>sa_total = int (length (filter (meta_active now) tbl)),
      sa_with_expiry = int (length (filter (\<lambda>m. sm_expires_at m \<noteq> None \<and> meta_active now m) tbl))\<rparr>"

text \<open>
  The most active owners, case-insensitively; \<open>MIN\<close> is the collation's, here the first spelling in
  byte order, and owners of equal count are in that order.
\<close>

definition top_active_granters :: "(string \<Rightarrow> string) \<Rightarrow> micros \<Rightarrow> int \<Rightarrow> share_meta_table \<Rightarrow> (string \<times> int) list" where
  "top_active_granters lower now limit tbl =
     (let live = filter (meta_active now) tbl;
          groups = map (\<lambda>k. filter (\<lambda>m. lower (sm_owner_handle m) = k) live) (remdups (map (\<lambda>m. lower (sm_owner_handle m)) live));
          counts = map (\<lambda>g. (hd (sort_key (map (\<lambda>c. (of_char c :: nat))) (map sm_owner_handle g)), int (length g))) groups
      in take (nat (clamp limit 1 200)) (sort_key (\<lambda>(h, n). - n) (sort_key (\<lambda>(h, n). map (\<lambda>c. (of_char c :: nat)) h) counts)))"

record scope_histogram =
  sh_full :: int
  sh_timeline :: int
  sh_aggregates :: int
  sh_tabs :: int
  sh_tab_usage :: "(string \<times> int) list"

text \<open>\<open>->>\<close> on a text member; the kind of a stored scope is always a text.\<close>

definition scope_kind :: "json option \<Rightarrow> string option" where
  "scope_kind v = Option.bind (Option.bind v (\<lambda>j. json_get j ''kind'')) as_str"

definition histogram_kind :: "share_meta \<Rightarrow> string" where
  "histogram_kind m = (case scope_kind (sm_scope m) of Some k \<Rightarrow> k | None \<Rightarrow> ''full'')"

definition scope_tabs :: "share_meta \<Rightarrow> string list" where
  "scope_tabs m = (case Option.bind (sm_scope m) (\<lambda>j. json_get j ''tabs'') of
     Some (JArray vs) \<Rightarrow> List.map_filter as_str vs | _ \<Rightarrow> [])"

definition scope_histogram_active :: "micros \<Rightarrow> share_meta_table \<Rightarrow> scope_histogram" where
  "scope_histogram_active now tbl =
     (let live = filter (meta_active now) tbl; count = (\<lambda>k. int (length (filter (\<lambda>m. histogram_kind m = k) live)));
          tabs = concat (map scope_tabs (filter (\<lambda>m. scope_kind (sm_scope m) = Some ''tabs'') live))
      in \<lparr>sh_full = count ''full'', sh_timeline = count ''timeline'', sh_aggregates = count ''aggregates'', sh_tabs = count ''tabs'',
          sh_tab_usage = map (\<lambda>t. (t, int (count_list tabs t))) (sort_key (map (\<lambda>c. (of_char c :: nat))) (remdups tabs))\<rparr>)"

section \<open>Share reports\<close>

datatype share_report_status = Open | Dismissed | ShareRevoked | UserSuspended

fun report_status_as_str :: "share_report_status \<Rightarrow> string" where
  "report_status_as_str Open = ''open''"
| "report_status_as_str Dismissed = ''dismissed''"
| "report_status_as_str ShareRevoked = ''share_revoked''"
| "report_status_as_str UserSuspended = ''user_suspended''"

definition report_status_parse :: "string \<Rightarrow> share_report_status option" where
  "report_status_parse s =
     (if s = ''open'' then Some Open else if s = ''dismissed'' then Some Dismissed
      else if s = ''share_revoked'' then Some ShareRevoked else if s = ''user_suspended'' then Some UserSuspended else None)"

fun is_resolution :: "share_report_status \<Rightarrow> bool" where
  "is_resolution Open \<longleftrightarrow> False"
| "is_resolution Dismissed \<longleftrightarrow> True"
| "is_resolution ShareRevoked \<longleftrightarrow> True"
| "is_resolution UserSuspended \<longleftrightarrow> True"

datatype share_report_reason = Abuse | Spam | DataMisuse | OtherReason

fun report_reason_as_str :: "share_report_reason \<Rightarrow> string" where
  "report_reason_as_str Abuse = ''abuse''"
| "report_reason_as_str Spam = ''spam''"
| "report_reason_as_str DataMisuse = ''data_misuse''"
| "report_reason_as_str OtherReason = ''other''"

definition report_reason_parse :: "string \<Rightarrow> share_report_reason option" where
  "report_reason_parse s =
     (if s = ''abuse'' then Some Abuse else if s = ''spam'' then Some Spam
      else if s = ''data_misuse'' then Some DataMisuse else if s = ''other'' then Some OtherReason else None)"

text \<open>The table stores reason and status as text; every row is written through \<open>as_str\<close>.\<close>

record share_report =
  sp_id :: uuid
  sp_reporter_handle :: string
  sp_owner_handle :: string
  sp_recipient_handle :: string
  sp_reason :: share_report_reason
  sp_details :: "string option"
  sp_status :: share_report_status
  sp_created_at :: micros
  sp_resolved_at :: "micros option"
  sp_resolved_by :: "string option"
  sp_resolution_note :: "string option"

datatype share_report_error = ReportDatabase | ReportNotFound | AlreadyResolved

definition DETAILS_MAX_LEN :: nat where
  "DETAILS_MAX_LEN = 500"

definition RESOLUTION_NOTE_MAX_LEN :: nat where
  "RESOLUTION_NOTE_MAX_LEN = 500"

definition RATE_LIMIT_PER_WINDOW :: nat where
  "RATE_LIMIT_PER_WINDOW = 5"

definition rate_limit_window :: micros where
  "rate_limit_window = 24 * 3600 * 1000000"

definition create_report ::
    "uuid \<Rightarrow> micros \<Rightarrow> string \<Rightarrow> string \<Rightarrow> string \<Rightarrow> share_report_reason \<Rightarrow> string option \<Rightarrow> share_report list \<Rightarrow>
     (share_report_error + share_report) \<times> share_report list" where
  "create_report new_id now reporter owner recipient reason details tbl =
     (let r = \<lparr>sp_id = new_id, sp_reporter_handle = reporter, sp_owner_handle = owner, sp_recipient_handle = recipient,
            sp_reason = reason, sp_details = details, sp_status = Open, sp_created_at = now, sp_resolved_at = None,
            sp_resolved_by = None, sp_resolution_note = None\<rparr>
      in if new_id \<in> sp_id ` set tbl then (Inl ReportDatabase, tbl) else (Inr r, tbl @ [r]))"

text \<open>\<open>ORDER BY created_at DESC\<close>; the limit is clamped to 200.\<close>

definition list_reports :: "share_report_status option \<Rightarrow> int \<Rightarrow> int \<Rightarrow> share_report list \<Rightarrow> share_report list" where
  "list_reports status limit offset tbl =
     take (nat (clamp limit 1 200)) (drop (nat (max offset 0))
       (sort_key (\<lambda>r. - sp_created_at r) (rev (filter (\<lambda>r. status = None \<or> status = Some (sp_status r)) tbl))))"

definition get_report :: "uuid \<Rightarrow> share_report list \<Rightarrow> share_report option" where
  "get_report i tbl = find (\<lambda>r. sp_id r = i) tbl"

definition resolve_report_row ::
    "uuid \<Rightarrow> micros \<Rightarrow> string \<Rightarrow> share_report_status \<Rightarrow> string option \<Rightarrow> share_report list \<Rightarrow>
     (share_report_error + share_report) \<times> share_report list" where
  "resolve_report_row i now moderator outcome note tbl =
     (let upd = (\<lambda>r. r\<lparr>sp_status := outcome, sp_resolved_at := Some now, sp_resolved_by := Some moderator,
            sp_resolution_note := note\<rparr>)
      in case find (\<lambda>r. sp_id r = i \<and> sp_status r = Open) tbl of
           Some r \<Rightarrow> (Inr (upd r), map (\<lambda>r. if sp_id r = i \<and> sp_status r = Open then upd r else r) tbl)
         | None \<Rightarrow> (Inl (if i \<in> sp_id ` set tbl then AlreadyResolved else ReportNotFound), tbl))"

definition count_recent_by_reporter :: "(string \<Rightarrow> string) \<Rightarrow> string \<Rightarrow> micros \<Rightarrow> share_report list \<Rightarrow> nat" where
  "count_recent_by_reporter lower reporter since tbl =
     length (filter (\<lambda>r. lower (sp_reporter_handle r) = lower reporter \<and> sp_created_at r \<ge> since) tbl)"

section \<open>View statistics\<close>

record share_view_stat =
  sv_recipient_handle :: string
  sv_view_count :: int
  sv_last_viewed_at :: "time option"

definition viewed_recipient :: "(string \<Rightarrow> string) \<Rightarrow> string \<Rightarrow> audit_row \<Rightarrow> string option" where
  "viewed_recipient lower owner_handle r =
     (if aw_action r = ''share.viewed'' \<and>
         (\<exists>h \<in> set_option (Option.bind (json_get (aw_payload r) ''owner_handle'') as_str). lower h = lower owner_handle)
      then Option.bind (json_get (aw_payload r) ''recipient_handle'') as_str else None)"

text \<open>\<open>GROUP BY\<close> without an order: the groups come in the order of their first row.\<close>

definition share_views_for_owner :: "(string \<Rightarrow> string) \<Rightarrow> string \<Rightarrow> audit_table \<Rightarrow> share_view_stat list" where
  "share_views_for_owner lower owner_handle tbl =
     (let hits = filter (\<lambda>r. viewed_recipient lower owner_handle r \<noteq> None) (at_rows tbl)
      in map (\<lambda>h. let g = filter (\<lambda>r. viewed_recipient lower owner_handle r = Some h) hits
           in \<lparr>sv_recipient_handle = h, sv_view_count = int (length g), sv_last_viewed_at = Some (Max (set (map aw_occurred_at g)))\<rparr>)
         (remdups (List.map_filter (viewed_recipient lower owner_handle) hits)))"

section \<open>Lemmas: scopes\<close>

lemma digits_val_rev: "digits_val (rev ds) = from_rev ds"
  by (simp add: digits_val_def foldl_conv_foldr, induction ds) (simp_all add: digit_val_def)

lemma i64_to_string_nat: "i64_to_string (int n) = rev (digits_rev (Suc n) n)"
  by (simp add: i64_to_string_def)

lemma parse_unsigned_i64:
  assumes "n < 2 ^ bits"
  shows "parse_unsigned bits (i64_to_string (int n)) = Some n"
proof -
  let ?s = "i64_to_string (int n)"
  have d: "list_all is_ascii_digit ?s" by (rule i64_digits)
  have ne: "?s \<noteq> []" by (simp add: i64_to_string_nat)
  have "\<not> is_ascii_digit (CHR ''+'')" by (simp add: is_ascii_digit_def less_eq_char_def)
  then have plus: "(case ?s of c # cs \<Rightarrow> if c = CHR ''+'' then cs else ?s | [] \<Rightarrow> ?s) = ?s"
    using d by (cases ?s) auto
  have "digits_val ?s = n" unfolding i64_to_string_nat digits_val_rev by (rule from_rev_digits) simp
  then have "parse_digits ?s = Some n" using d ne by (simp add: parse_digits_def)
  then show ?thesis using assms plus by simp
qed

lemma value_to_strings_inv: "value_to_strings (strings_to_value ss) = Some ss"
  by (induction ss) (simp_all add: strings_to_value_def)

lemma value_to_u32_inv: "n < 2 ^ 32 \<Longrightarrow> value_to_u32 (JNumber (i64_to_string (int n))) = Some n"
  using i64_digits parse_unsigned_i64 by (simp del: parse_unsigned.simps)

lemma opt_field_Some: "x \<noteq> JNull \<Longrightarrow> opt_field parse (Some x) = map_option Some (parse x)"
  by (cases x) (simp_all add: opt_field_def)

lemma opt_field_None [simp]: "opt_field parse None = Some None"
  by (simp add: opt_field_def)

lemma opt_field_strings [simp]: "opt_field value_to_strings (Some (strings_to_value ss)) = Some (Some ss)"
  using value_to_strings_inv [of ss] by (simp add: opt_field_Some strings_to_value_def del: value_to_strings.simps)

lemma opt_field_u32 [simp]: "n < 2 ^ 32 \<Longrightarrow> opt_field value_to_u32 (Some (JNumber (i64_to_string (int n)))) = Some (Some n)"
  using value_to_u32_inv [of n] by (simp add: opt_field_Some del: value_to_u32.simps)

lemma scope_value_inv:
  assumes "\<And>n. sc_window_days s = Some n \<Longrightarrow> n < 2 ^ 32"
  shows "scope_from_value (scope_to_value s) = Some s"
  using assms
  by (cases "sc_tabs s"; cases "sc_window_days s"; cases "sc_allow_event_types s"; cases "sc_deny_event_types s")
    (simp_all add: scope_to_value_def scope_of_fields_def del: value_to_strings.simps value_to_u32.simps)

section \<open>Lemmas: metadata\<close>

text \<open>One row per pair of handles, whatever their spelling.\<close>

definition meta_ok :: "(string \<Rightarrow> string) \<Rightarrow> share_meta_table \<Rightarrow> bool" where
  "meta_ok lower tbl \<longleftrightarrow> distinct (map (meta_key lower) tbl)"

lemma keys_upsert:
  "map (meta_key lower) (upsert_meta lower now o' r e n sc tbl) =
     (if (lower o', lower r) \<in> meta_key lower ` set tbl then map (meta_key lower) tbl
      else map (meta_key lower) tbl @ [(lower o', lower r)])"
proof -
  have eq: "map (meta_key lower) (map (\<lambda>m. if meta_key lower m = k then m\<lparr>sm_expires_at := e, sm_note := n, sm_scope := sc\<rparr> else m) tbl) =
      map (meta_key lower) tbl" for k
    by (simp add: meta_key_def)
  show ?thesis
  proof (cases "(lower o', lower r) \<in> meta_key lower ` set tbl")
    case True
    then show ?thesis by (simp only: upsert_meta_def if_True eq)
  next
    case False
    then show ?thesis by (simp only: upsert_meta_def if_False map_append list.map) (simp add: meta_key_def)
  qed
qed

lemma meta_ok_upsert: "meta_ok lower tbl \<Longrightarrow> meta_ok lower (upsert_meta lower now o' r e n sc tbl)"
  by (auto simp: meta_ok_def keys_upsert)

lemma meta_ok_delete: "meta_ok lower tbl \<Longrightarrow> meta_ok lower (delete_meta lower o' r tbl)"
  by (simp add: meta_ok_def delete_meta_def distinct_map_filter)

lemma find_meta_None_iff:
  "find_meta lower o' r tbl = None \<longleftrightarrow> (lower o', lower r) \<notin> meta_key lower ` set tbl"
  unfolding find_meta_def find_None_iff by (metis image_iff)

lemma find_meta_delete [simp]:
  "find_meta lower o' r (delete_meta lower o'' r'' tbl) =
     (if (lower o', lower r) = (lower o'', lower r'') then None else find_meta lower o' r tbl)"
proof (cases "(lower o', lower r) = (lower o'', lower r'')")
  case True
  then show ?thesis by (auto simp: find_meta_None_iff delete_meta_def)
next
  case False
  have f: "find P (filter Q xs) = find P xs" if "\<And>x. P x \<Longrightarrow> Q x" for P Q :: "share_meta \<Rightarrow> bool" and xs
    using that by (induction xs) auto
  show ?thesis unfolding find_meta_def delete_meta_def if_not_P [OF False] by (rule f) (use False in auto)
qed

lemma find_meta_append: "find P (xs @ ys) = (case find P xs of Some x \<Rightarrow> Some x | None \<Rightarrow> find P ys)"
  by (induction xs) auto

lemma find_map_if_key:
  assumes "\<And>m. P (f m) \<longleftrightarrow> P m"
  shows "find P (map f xs) = map_option f (find P xs)"
  using assms by (induction xs) auto

lemma find_meta_upsert:
  "\<exists>m. find_meta lower o' r (upsert_meta lower now o' r e n sc tbl) = Some m \<and>
     sm_expires_at m = e \<and> sm_note m = n \<and> sm_scope m = sc"
proof (cases "(lower o', lower r) \<in> meta_key lower ` set tbl")
  case True
  let ?f = "\<lambda>m. if meta_key lower m = (lower o', lower r) then m\<lparr>sm_expires_at := e, sm_note := n, sm_scope := sc\<rparr> else m"
  have "find_meta lower o' r (map ?f tbl) = map_option ?f (find_meta lower o' r tbl)"
    unfolding find_meta_def by (rule find_map_if_key) (simp add: meta_key_def)
  moreover obtain m where m: "find_meta lower o' r tbl = Some m" using True find_meta_None_iff by fastforce
  moreover have "meta_key lower m = (lower o', lower r)" using m by (auto simp: find_meta_def find_Some_iff)
  ultimately show ?thesis using True by (simp add: upsert_meta_def)
next
  case False
  then have "find_meta lower o' r tbl = None" by (simp add: find_meta_None_iff)
  then show ?thesis using False by (simp add: upsert_meta_def find_meta_def find_meta_append meta_key_def)
qed

lemma find_meta_upsert_other:
  assumes "(lower o', lower r) \<noteq> (lower o'', lower r'')"
  shows "find_meta lower o' r (upsert_meta lower now o'' r'' e n sc tbl) = find_meta lower o' r tbl"
proof (cases "(lower o'', lower r'') \<in> meta_key lower ` set tbl")
  case True
  let ?f = "\<lambda>m. if meta_key lower m = (lower o'', lower r'') then m\<lparr>sm_expires_at := e, sm_note := n, sm_scope := sc\<rparr> else m"
  have eq: "find_meta lower o' r (map ?f tbl) = map_option ?f (find_meta lower o' r tbl)"
    unfolding find_meta_def by (rule find_map_if_key) (simp add: meta_key_def)
  have "map_option ?f (find_meta lower o' r tbl) = find_meta lower o' r tbl"
  proof (cases "find_meta lower o' r tbl")
    case (Some m)
    then have "meta_key lower m = (lower o', lower r)" by (auto simp: find_meta_def find_Some_iff)
    then show ?thesis using assms Some by auto
  qed simp
  then show ?thesis using True eq by (simp add: upsert_meta_def)
next
  case False
  then show ?thesis using assms
    by (auto simp: upsert_meta_def find_meta_def find_meta_append meta_key_def split: option.splits)
qed

end
