(* ===== verification/Sharing.thy ===== *)
theory Sharing
  imports Share_Stores Ingest
begin

text \<open>
  Models the handlers of \<^verbatim>\<open>crates/starstats-server/src/sharing_routes.rs\<close>: visibility, shares with users
  and organizations, the reads of a shared record with expiry and scope, reports and the abuse signals,
  and the owner's preview. The caller comes from the extractor of theory \<^verbatim>\<open>Auth\<close>.
\<close>

section \<open>State and environment\<close>

record share_state =
  sx_users :: user_table
  sx_orgs :: org_table
  sx_rels :: relationships
  sx_meta :: share_meta_table
  sx_reports :: "share_report list"
  sx_audit :: audit_table
  sx_events :: event_table

text \<open>
  What one request meets: the relationship service (\<open>None\<close> when it is not configured), which of the
  tables answer, the clock, a fresh id, the printing of instants, \<open>ILIKE\<close> and \<open>serde_json::from_str\<close>
  at the type of scopes.
\<close>

record share_env =
  sn_spice :: "spice_service option"
  sn_users_ok :: bool
  sn_meta_ok :: bool
  sn_reports_ok :: bool
  sn_audit_append_ok :: bool
  sn_audit_query_ok :: bool
  sn_query_ok :: bool
  sn_now :: micros
  sn_id :: uuid
  sn_rfc3339 :: "micros \<Rightarrow> string"
  sn_ilike :: "string \<Rightarrow> string \<Rightarrow> bool"
  sn_scope_from_str :: "string \<Rightarrow> share_scope option"

record share_entry =
  se_recipient_handle :: string
  se_expires_at :: "micros option"
  se_note :: "string option"
  se_scope :: "share_scope option"
  se_view_count :: int
  se_last_viewed_at :: "micros option"

record shared_with_me_entry =
  sw_owner_handle :: string
  sw_expires_at :: "micros option"
  sw_note :: "string option"
  sw_scope :: "share_scope option"

datatype share_reply =
    ShareError nat string
  | NotFound
  | VisibilityResponse bool
  | ShareResponse string
  | RevokeShareResponse
  | ListSharesResponse "share_entry list" "string list"
  | ListSharedWithMeResponse "shared_with_me_entry list"
  | ShareOrgResponse string
  | RevokeOrgShareResponse
  | PublicSummaryResponse string nat "(string \<times> nat) list"
  | PublicTimelineResponse nat "(int \<times> nat) list"
  | ReportShareResponse uuid string micros

fun share_status :: "share_reply \<Rightarrow> nat" where
  "share_status (ShareError status code) = status"
| "share_status NotFound = 404"
| "share_status r = 200"

text \<open>An audit row that cannot be written is logged and ignored.\<close>

definition share_audit ::
    "platform \<Rightarrow> share_env \<Rightarrow> string option \<Rightarrow> string option \<Rightarrow> string \<Rightarrow> json \<Rightarrow> share_state \<Rightarrow> share_state" where
  "share_audit pf en actor_sub actor_handle action payload st =
     (if sn_audit_append_ok en
      then st\<lparr>sx_audit := snd (append_entry (pf_sha256 pf) (pf_to_vec pf) (sn_now en)
             \<lparr>ae_actor_sub = actor_sub, ae_actor_handle = actor_handle, ae_action = action, ae_payload = payload\<rparr> (sx_audit st))\<rparr>
      else st)"

definition audit_as :: "platform \<Rightarrow> share_env \<Rightarrow> authenticated_user \<Rightarrow> string \<Rightarrow> json \<Rightarrow> share_state \<Rightarrow> share_state" where
  "audit_as pf en auth = share_audit pf en (Some (au_sub auth)) (Some (au_preferred_username auth))"

definition json_instant :: "share_env \<Rightarrow> micros option \<Rightarrow> json" where
  "json_instant en t = (case t of None \<Rightarrow> JNull | Some x \<Rightarrow> JString (sn_rfc3339 en x))"

definition json_nat :: "nat \<Rightarrow> json" where
  "json_nat n = JNumber (i64_to_string (int n))"

section \<open>Scopes of shares\<close>

definition ALLOWED_SCOPE_TABS :: "string list" where
  "ALLOWED_SCOPE_TABS = [''location'', ''travel'', ''combat'', ''loadout'', ''stability'', ''commerce'']"

definition SCOPE_MAX_WINDOW_DAYS :: nat where
  "SCOPE_MAX_WINDOW_DAYS = 90"

definition SCOPE_MAX_TYPES :: nat where
  "SCOPE_MAX_TYPES = 32"

definition valid_scope_type :: "string \<Rightarrow> bool" where
  "valid_scope_type t \<longleftrightarrow>
     t \<noteq> [] \<and> length t \<le> 64 \<and>
     list_all (\<lambda>c. (CHR ''a'' \<le> c \<and> c \<le> CHR ''z'') \<or> is_ascii_digit c \<or> c = CHR ''_'') t"

definition valid_scope_types :: "string list option \<Rightarrow> bool" where
  "valid_scope_types types \<longleftrightarrow>
     (case types of None \<Rightarrow> True | Some ts \<Rightarrow> length ts \<le> SCOPE_MAX_TYPES \<and> list_all valid_scope_type ts)"

definition validate_scope :: "share_scope \<Rightarrow> string + unit" where
  "validate_scope s =
     (if sc_kind s \<notin> set [''full'', ''timeline'', ''aggregates'', ''tabs''] then Inl ''invalid_scope_kind''
      else if (case sc_window_days s of None \<Rightarrow> False | Some days \<Rightarrow> days = 0 \<or> days > SCOPE_MAX_WINDOW_DAYS)
      then Inl ''invalid_scope_window''
      else if (case sc_tabs s of None \<Rightarrow> False
           | Some tabs \<Rightarrow> length tabs > SCOPE_MAX_TYPES \<or> \<not> list_all (\<lambda>t. t \<in> set ALLOWED_SCOPE_TABS) tabs)
      then Inl ''invalid_scope_tabs''
      else if \<not> valid_scope_types (sc_allow_event_types s) \<or> \<not> valid_scope_types (sc_deny_event_types s)
      then Inl ''invalid_scope_types''
      else Inr ())"

definition scope_allows_timeline :: "share_scope \<Rightarrow> bool" where
  "scope_allows_timeline s \<longleftrightarrow> sc_kind s \<in> set [''full'', ''timeline'', ''tabs'']"

definition scope_allows_aggregates :: "share_scope \<Rightarrow> bool" where
  "scope_allows_aggregates s \<longleftrightarrow> sc_kind s \<in> set [''full'', ''aggregates'', ''tabs'']"

definition clamp_days :: "nat \<Rightarrow> share_scope option \<Rightarrow> nat" where
  "clamp_days days scope = (case Option.bind scope sc_window_days of Some w \<Rightarrow> min days w | None \<Rightarrow> days)"

definition type_allowed :: "share_scope option \<Rightarrow> string \<Rightarrow> bool" where
  "type_allowed scope t \<longleftrightarrow>
     (case Option.bind scope sc_allow_event_types of None \<Rightarrow> True | Some a \<Rightarrow> t \<in> set a) \<and>
     (case Option.bind scope sc_deny_event_types of None \<Rightarrow> True | Some d \<Rightarrow> t \<notin> set d)"

definition apply_event_type_filter ::
    "(string \<times> nat) list \<Rightarrow> share_scope option \<Rightarrow> nat \<times> (string \<times> nat) list" where
  "apply_event_type_filter rows scope =
     (let filtered = filter (\<lambda>(t, n). type_allowed scope t) rows in (sum_list (map snd filtered), filtered))"

definition emit_share_viewed :: "platform \<Rightarrow> share_env \<Rightarrow> authenticated_user \<Rightarrow> string \<Rightarrow> share_state \<Rightarrow> share_state" where
  "emit_share_viewed pf en viewer owner =
     audit_as pf en viewer ''share.viewed''
       (JObject [(''owner_handle'', JString owner), (''recipient_handle'', JString (au_preferred_username viewer))])"

definition require_rsi_verified :: "platform \<Rightarrow> share_env \<Rightarrow> authenticated_user \<Rightarrow> share_state \<Rightarrow> share_reply option" where
  "require_rsi_verified pf en auth st =
     (case pf_parse_uuid pf (au_sub auth) of
        None \<Rightarrow> Some (ShareError 500 ''bad_subject'')
      | Some sub \<Rightarrow>
          if \<not> sn_users_ok en then Some (ShareError 500 ''internal'')
          else (case find_by_id sub (sx_users st) of
             None \<Rightarrow> Some (ShareError 401 ''unauthorized'')
           | Some u \<Rightarrow> if us_rsi_verified_at u \<noteq> None then None else Some (ShareError 403 ''rsi_handle_not_verified'')))"

section \<open>Visibility\<close>

definition set_visibility ::
    "platform \<Rightarrow> share_env \<Rightarrow> authenticated_user \<Rightarrow> bool \<Rightarrow> share_state \<Rightarrow> share_reply \<times> share_state" where
  "set_visibility pf en auth public st =
     (case require_rsi_verified pf en auth st of
        Some r \<Rightarrow> (r, st)
      | None \<Rightarrow>
     (case sn_spice en of
        None \<Rightarrow> (ShareError 503 ''spicedb_unavailable'', st)
      | Some client \<Rightarrow>
          (case (if public then write_public_view client (au_preferred_username auth) (sx_rels st)
                 else delete_public_view client (au_preferred_username auth) (sx_rels st)) of
             (False, rels) \<Rightarrow> (ShareError 500 ''spicedb_error'', st\<lparr>sx_rels := rels\<rparr>)
           | (True, rels) \<Rightarrow>
               (VisibilityResponse public,
                audit_as pf en auth ''share.visibility_changed'' (JObject [(''public'', JBool public)]) (st\<lparr>sx_rels := rels\<rparr>)))))"

definition get_visibility :: "share_env \<Rightarrow> authenticated_user \<Rightarrow> share_state \<Rightarrow> share_reply" where
  "get_visibility en auth st =
     (case sn_spice en of
        None \<Rightarrow> ShareError 503 ''spicedb_unavailable''
      | Some client \<Rightarrow>
          (case check_permission client \<lparr>ob_type = ''stats_record'', ob_id = au_preferred_username auth\<rparr> ''view''
               \<lparr>ob_type = ''user'', ob_id = ''*''\<rparr> (sx_rels st) of
             None \<Rightarrow> ShareError 500 ''spicedb_error''
           | Some public \<Rightarrow> VisibilityResponse public))"

section \<open>Shares with users\<close>

definition RAPID_GRANT_THRESHOLD :: nat where
  "RAPID_GRANT_THRESHOLD = 15"

definition HOUR :: micros where
  "HOUR = 3600 * 1000000"

definition RAPID_GRANT_WINDOW_HOURS :: nat where
  "RAPID_GRANT_WINDOW_HOURS = 24"

definition check_rapid_grant ::
    "platform \<Rightarrow> share_env \<Rightarrow> authenticated_user \<Rightarrow> share_state \<Rightarrow> share_reply option \<times> share_state" where
  "check_rapid_grant pf en auth st =
     (if \<not> sn_audit_query_ok en then (None, st)
      else let rows = list_entries (sn_ilike en)
             \<lparr>af_actor_handle = Some (au_preferred_username auth), af_action = Some ''share.created'',
              af_since = Some (sn_now en - int RAPID_GRANT_WINDOW_HOURS * HOUR), af_until = None,
              af_limit = int RAPID_GRANT_THRESHOLD + 1, af_offset = 0\<rparr> (sx_audit st)
           in if length rows < RAPID_GRANT_THRESHOLD then (None, st)
              else (Some (ShareError 429 ''rate_limited_rapid_grant''),
                    audit_as pf en auth ''share.signal_rapid_grant''
                      (JObject [(''window_hours'', json_nat RAPID_GRANT_WINDOW_HOURS), (''threshold'', json_nat RAPID_GRANT_THRESHOLD),
                         (''observed_count'', json_nat (length rows))]) st))"

record share_request =
  rq_recipient_handle :: string
  rq_expires_at :: "micros option"
  rq_note :: "string option"
  rq_scope :: "share_scope option"

text \<open>The optional scope as it is stored: \<open>full\<close> is no scope.\<close>

definition stored_scope :: "share_scope option \<Rightarrow> string + share_scope option" where
  "stored_scope scope =
     (case scope of
        None \<Rightarrow> Inr None
      | Some s \<Rightarrow> (case validate_scope s of Inl code \<Rightarrow> Inl code | Inr _ \<Rightarrow> Inr (if sc_kind s = ''full'' then None else Some s)))"

text \<open>The part of \<open>add_share\<close> after its checks: the grant, its metadata and its audit row.\<close>

definition grant_share ::
    "platform \<Rightarrow> share_env \<Rightarrow> authenticated_user \<Rightarrow> string \<Rightarrow> micros option \<Rightarrow> string option \<Rightarrow> share_scope option \<Rightarrow>
     share_state \<Rightarrow> share_reply \<times> share_state" where
  "grant_share pf en auth recipient expires_at note scope st =
     (case sn_spice en of
        None \<Rightarrow> (ShareError 503 ''spicedb_unavailable'', st)
      | Some client \<Rightarrow>
          (case write_share_with_user client (au_preferred_username auth) recipient (sx_rels st) of
             (False, rels) \<Rightarrow> (ShareError 500 ''spicedb_error'', st\<lparr>sx_rels := rels\<rparr>)
           | (True, rels) \<Rightarrow>
               (ShareResponse recipient,
                audit_as pf en auth ''share.granted''
                  (JObject [(''recipient_handle'', JString recipient), (''expires_at'', json_instant en expires_at),
                     (''has_note'', JBool (note \<noteq> None)), (''scope_kind'', json_opt (map_option sc_kind scope))])
                  (st\<lparr>sx_rels := rels,
                      sx_meta := (if sn_meta_ok en
                        then upsert_meta (pf_lower pf) (sn_now en) (au_preferred_username auth) recipient expires_at note
                               (map_option scope_to_value scope) (sx_meta st)
                        else sx_meta st)\<rparr>))))"

definition add_share ::
    "platform \<Rightarrow> share_env \<Rightarrow> authenticated_user \<Rightarrow> share_request \<Rightarrow> share_state \<Rightarrow> share_reply \<times> share_state" where
  "add_share pf en auth req st =
     (case require_rsi_verified pf en auth st of
        Some r \<Rightarrow> (r, st)
      | None \<Rightarrow>
     if (case (if sn_users_ok en then get_shares_paused_until_by_handle (pf_lower pf) (au_preferred_username auth) (sx_users st)
               else None) of None \<Rightarrow> False | Some until \<Rightarrow> until > sn_now en)
     then (ShareError 403 ''shares_paused'', st)
     else let recipient = trim (rq_recipient_handle req)
     in if \<not> validate_handle recipient then (ShareError 400 ''invalid_recipient_handle'', st)
     else if eq_ignore_ascii_case recipient (au_preferred_username auth) then (ShareError 400 ''cannot_share_with_self'', st)
     else (case check_rapid_grant pf en auth st of
        (Some r, st1) \<Rightarrow> (r, st1)
      | (None, st1) \<Rightarrow>
     if (case rq_expires_at req of None \<Rightarrow> False | Some t \<Rightarrow> t \<le> sn_now en) then (ShareError 400 ''expires_at_in_past'', st1)
     else if (case nonblank (rq_note req) of None \<Rightarrow> False | Some n \<Rightarrow> chars_count n > NOTE_MAX_LEN)
     then (ShareError 400 ''note_too_long'', st1)
     else (case stored_scope (rq_scope req) of
        Inl code \<Rightarrow> (ShareError 400 code, st1)
      | Inr scope \<Rightarrow>
     if \<not> sn_users_ok en then (ShareError 500 ''internal'', st1)
     else (case find_by_handle (pf_lower pf) recipient (sx_users st1) of
        None \<Rightarrow> (ShareError 404 ''recipient_not_found'', st1)
      | Some u \<Rightarrow> grant_share pf en auth (us_claimed_handle u) (rq_expires_at req) (nonblank (rq_note req)) scope st1))))"

definition delete_share ::
    "platform \<Rightarrow> share_env \<Rightarrow> authenticated_user \<Rightarrow> string \<Rightarrow> share_state \<Rightarrow> share_reply \<times> share_state" where
  "delete_share pf en auth recipient_handle st =
     (let recipient = trim recipient_handle
      in if \<not> validate_handle recipient then (ShareError 400 ''invalid_recipient_handle'', st)
      else case sn_spice en of
        None \<Rightarrow> (ShareError 503 ''spicedb_unavailable'', st)
      | Some client \<Rightarrow>
          (case delete_share_with_user client (au_preferred_username auth) recipient (sx_rels st) of
             (False, rels) \<Rightarrow> (ShareError 500 ''spicedb_error'', st\<lparr>sx_rels := rels\<rparr>)
           | (True, rels) \<Rightarrow>
               (RevokeShareResponse,
                audit_as pf en auth ''share.revoked'' (JObject [(''recipient_handle'', JString recipient)])
                  (st\<lparr>sx_rels := rels,
                      sx_meta := (if sn_meta_ok en then delete_meta (pf_lower pf) (au_preferred_username auth) recipient (sx_meta st)
                        else sx_meta st)\<rparr>))))"

text \<open>Collecting pairs into a map: the last row of a key wins.\<close>

definition index_by :: "('a \<Rightarrow> string) \<Rightarrow> 'a list \<Rightarrow> string \<Rightarrow> 'a option" where
  "index_by f xs = map_of (rev (map (\<lambda>x. (to_ascii_lowercase (f x), x)) xs))"

definition list_shares :: "platform \<Rightarrow> share_env \<Rightarrow> authenticated_user \<Rightarrow> share_state \<Rightarrow> share_reply" where
  "list_shares pf en auth st =
     (case sn_spice en of
        None \<Rightarrow> ShareError 503 ''spicedb_unavailable''
      | Some client \<Rightarrow>
     (case list_share_with_user client (au_preferred_username auth) (sx_rels st) of
        None \<Rightarrow> ShareError 500 ''spicedb_error''
      | Some handles \<Rightarrow>
          (let meta_index = index_by sm_recipient_handle
                 (if sn_meta_ok en then list_meta_by_owner (pf_lower pf) (au_preferred_username auth) (sx_meta st) else []);
               view_index = index_by sv_recipient_handle
                 (if sn_audit_query_ok en then share_views_for_owner (pf_lower pf) (au_preferred_username auth) (sx_audit st) else [])
           in ListSharesResponse
                (map (\<lambda>h. let key = to_ascii_lowercase h; m = meta_index key; v = view_index key
                   in \<lparr>se_recipient_handle = h, se_expires_at = Option.bind m sm_expires_at, se_note = Option.bind m sm_note,
                       se_scope = Option.bind (Option.bind m sm_scope) scope_from_value,
                       se_view_count = (case v of Some s \<Rightarrow> sv_view_count s | None \<Rightarrow> 0),
                       se_last_viewed_at = Option.bind v sv_last_viewed_at\<rparr>) handles)
                (case list_share_with_org client (au_preferred_username auth) (sx_rels st) of Some slugs \<Rightarrow> slugs | None \<Rightarrow> []))))"

definition list_shared_with_me_route :: "platform \<Rightarrow> share_env \<Rightarrow> authenticated_user \<Rightarrow> share_state \<Rightarrow> share_reply" where
  "list_shared_with_me_route pf en auth st =
     (case sn_spice en of
        None \<Rightarrow> ShareError 503 ''spicedb_unavailable''
      | Some client \<Rightarrow>
     (case list_shared_with_me client (au_preferred_username auth) (sx_rels st) of
        None \<Rightarrow> ShareError 500 ''spicedb_error''
      | Some handles \<Rightarrow>
          (let meta_index = index_by sm_owner_handle
                 (if sn_meta_ok en then list_meta_by_recipient (pf_lower pf) (au_preferred_username auth) (sx_meta st) else [])
           in ListSharedWithMeResponse
                (map (\<lambda>h. let m = meta_index (to_ascii_lowercase h)
                   in \<lparr>sw_owner_handle = h, sw_expires_at = Option.bind m sm_expires_at, sw_note = Option.bind m sm_note,
                       sw_scope = Option.bind (Option.bind m sm_scope) scope_from_value\<rparr>) handles))))"

section \<open>Shares with organizations\<close>

definition share_with_org ::
    "platform \<Rightarrow> share_env \<Rightarrow> authenticated_user \<Rightarrow> string \<Rightarrow> share_state \<Rightarrow> share_reply \<times> share_state" where
  "share_with_org pf en auth org_slug st =
     (case require_rsi_verified pf en auth st of
        Some r \<Rightarrow> (r, st)
      | None \<Rightarrow>
     if \<not> validate_slug (trim org_slug) then (ShareError 400 ''invalid_org_slug'', st)
     else if \<not> sn_users_ok en then (ShareError 500 ''internal'', st)
     else (case find_org_by_slug (trim org_slug) (sx_orgs st) of
        None \<Rightarrow> (ShareError 404 ''org_not_found'', st)
      | Some org \<Rightarrow>
     (case sn_spice en of
        None \<Rightarrow> (ShareError 503 ''spicedb_unavailable'', st)
      | Some client \<Rightarrow>
          (case write_share_with_org client (au_preferred_username auth) (og_slug org) (sx_rels st) of
             (False, rels) \<Rightarrow> (ShareError 500 ''spicedb_error'', st\<lparr>sx_rels := rels\<rparr>)
           | (True, rels) \<Rightarrow>
               (ShareOrgResponse (og_slug org),
                audit_as pf en auth ''share.org_granted'' (JObject [(''org_slug'', JString (og_slug org))]) (st\<lparr>sx_rels := rels\<rparr>))))))"

definition unshare_with_org ::
    "platform \<Rightarrow> share_env \<Rightarrow> authenticated_user \<Rightarrow> string \<Rightarrow> share_state \<Rightarrow> share_reply \<times> share_state" where
  "unshare_with_org pf en auth slug st =
     (if \<not> validate_slug (trim slug) then (ShareError 400 ''invalid_org_slug'', st)
      else case sn_spice en of
        None \<Rightarrow> (ShareError 503 ''spicedb_unavailable'', st)
      | Some client \<Rightarrow>
          (case delete_share_with_org client (au_preferred_username auth) (trim slug) (sx_rels st) of
             (False, rels) \<Rightarrow> (ShareError 500 ''spicedb_error'', st\<lparr>sx_rels := rels\<rparr>)
           | (True, rels) \<Rightarrow>
               (RevokeOrgShareResponse,
                audit_as pf en auth ''share.org_revoked'' (JObject [(''org_slug'', JString (trim slug))]) (st\<lparr>sx_rels := rels\<rparr>))))"

section \<open>Reading a shared record\<close>

definition check_public :: "spice_service \<Rightarrow> string \<Rightarrow> share_state \<Rightarrow> bool option" where
  "check_public client owner st =
     check_permission client \<lparr>ob_type = ''stats_record'', ob_id = owner\<rparr> ''view'' \<lparr>ob_type = ''user'', ob_id = ''*''\<rparr> (sx_rels st)"

definition check_view :: "spice_service \<Rightarrow> string \<Rightarrow> string \<Rightarrow> share_state \<Rightarrow> bool option" where
  "check_view client owner viewer st =
     check_permission client \<lparr>ob_type = ''stats_record'', ob_id = owner\<rparr> ''view'' \<lparr>ob_type = ''user'', ob_id = viewer\<rparr> (sx_rels st)"

text \<open>An expired share is revoked by the read that finds it expired.\<close>

definition lazy_revoke ::
    "platform \<Rightarrow> share_env \<Rightarrow> spice_service \<Rightarrow> string \<Rightarrow> string \<Rightarrow> micros \<Rightarrow> share_state \<Rightarrow> share_state" where
  "lazy_revoke pf en client owner viewer expires_at st =
     share_audit pf en None (Some owner) ''share.expired_revoked''
       (JObject [(''recipient_handle'', JString viewer), (''expired_at'', json_instant en (Some expires_at))])
       (st\<lparr>sx_rels := snd (delete_share_with_user client owner viewer (sx_rels st)),
           sx_meta := (if sn_meta_ok en then delete_meta (pf_lower pf) owner viewer (sx_meta st) else sx_meta st)\<rparr>)"

definition check_view_with_expiry ::
    "platform \<Rightarrow> share_env \<Rightarrow> spice_service \<Rightarrow> string \<Rightarrow> string \<Rightarrow> share_state \<Rightarrow> bool option \<times> share_state" where
  "check_view_with_expiry pf en client owner viewer st =
     (case check_view client owner viewer st of
        None \<Rightarrow> (None, st)
      | Some False \<Rightarrow> (Some False, st)
      | Some True \<Rightarrow>
          if \<not> sn_meta_ok en then (Some True, st)
          else (case Option.bind (find_meta (pf_lower pf) owner viewer (sx_meta st)) sm_expires_at of
             None \<Rightarrow> (Some True, st)
           | Some expires_at \<Rightarrow>
               if expires_at > sn_now en then (Some True, st)
               else (Some False, lazy_revoke pf en client owner viewer expires_at st)))"

definition render_or_404 :: "bool option \<Rightarrow> share_reply \<times> share_state \<Rightarrow> share_state \<Rightarrow> share_reply \<times> share_state" where
  "render_or_404 check rendered st =
     (case check of
        Some True \<Rightarrow> rendered
      | Some False \<Rightarrow> (NotFound, st)
      | None \<Rightarrow> (ShareError 503 ''spicedb_unavailable'', st))"

definition render_summary_scoped :: "share_env \<Rightarrow> string \<Rightarrow> share_scope option \<Rightarrow> share_state \<Rightarrow> share_reply" where
  "render_summary_scoped en owner scope st =
     (if \<not> sn_query_ok en then ShareError 500 ''query_failed''
      else let (total, by_type) = summary_for_handle_shared owner (sx_events st);
               (total, by_type) = (if scope \<noteq> None then apply_event_type_filter by_type scope else (total, by_type))
           in PublicSummaryResponse owner total by_type)"

definition render_timeline_scoped :: "share_env \<Rightarrow> string \<Rightarrow> nat \<Rightarrow> share_scope option \<Rightarrow> share_state \<Rightarrow> share_reply" where
  "render_timeline_scoped en owner days scope st =
     (if \<not> sn_query_ok en then ShareError 500 ''query_failed''
      else let allow = Option.bind scope sc_allow_event_types; deny = Option.bind scope sc_deny_event_types;
               rows = (if allow = None \<and> deny = None then timeline_shared owner days (sn_now en) (sx_events st)
                       else timeline_shared_filtered owner days allow deny (sn_now en) (sx_events st))
           in PublicTimelineResponse days (build_timeline_buckets rows days (day_of (sn_now en))))"

definition public_summary :: "share_env \<Rightarrow> string \<Rightarrow> share_state \<Rightarrow> share_reply \<times> share_state" where
  "public_summary en owner st =
     (if \<not> validate_handle owner then (NotFound, st)
      else case sn_spice en of
        None \<Rightarrow> (ShareError 503 ''spicedb_unavailable'', st)
      | Some client \<Rightarrow> render_or_404 (check_public client owner st) (render_summary_scoped en owner None st, st) st)"

definition public_timeline :: "share_env \<Rightarrow> string \<Rightarrow> nat option \<Rightarrow> share_state \<Rightarrow> share_reply \<times> share_state" where
  "public_timeline en owner days st =
     (if \<not> validate_handle owner then (NotFound, st)
      else case resolve_timeline_days days of
        None \<Rightarrow> (ShareError 400 ''invalid_days'', st)
      | Some days \<Rightarrow>
     (case sn_spice en of
        None \<Rightarrow> (ShareError 503 ''spicedb_unavailable'', st)
      | Some client \<Rightarrow> render_or_404 (check_public client owner st) (render_timeline_scoped en owner days None st, st) st))"

text \<open>The scope is read after the check, so an expired share no longer has one.\<close>

definition scope_of_share :: "platform \<Rightarrow> share_env \<Rightarrow> string \<Rightarrow> string \<Rightarrow> share_state \<Rightarrow> share_scope option" where
  "scope_of_share pf en owner viewer st =
     (if sn_meta_ok en
      then Option.bind (Option.bind (find_meta (pf_lower pf) owner viewer (sx_meta st)) sm_scope) scope_from_value else None)"

definition friend_summary ::
    "platform \<Rightarrow> share_env \<Rightarrow> authenticated_user \<Rightarrow> string \<Rightarrow> share_state \<Rightarrow> share_reply \<times> share_state" where
  "friend_summary pf en auth owner st =
     (if \<not> validate_handle owner then (NotFound, st)
      else case sn_spice en of
        None \<Rightarrow> (ShareError 503 ''spicedb_unavailable'', st)
      | Some client \<Rightarrow>
          (let (check, st1) = check_view_with_expiry pf en client owner (au_preferred_username auth) st;
               scope = scope_of_share pf en owner (au_preferred_username auth) st1
           in if (case scope of None \<Rightarrow> False | Some s \<Rightarrow> \<not> scope_allows_aggregates s) then (NotFound, st1)
              else render_or_404 check
                (render_summary_scoped en owner scope st1, emit_share_viewed pf en auth owner st1) st1))"

definition friend_timeline ::
    "platform \<Rightarrow> share_env \<Rightarrow> authenticated_user \<Rightarrow> string \<Rightarrow> nat option \<Rightarrow> share_state \<Rightarrow> share_reply \<times> share_state" where
  "friend_timeline pf en auth owner days st =
     (if \<not> validate_handle owner then (NotFound, st)
      else case resolve_timeline_days days of
        None \<Rightarrow> (ShareError 400 ''invalid_days'', st)
      | Some days \<Rightarrow>
     (case sn_spice en of
        None \<Rightarrow> (ShareError 503 ''spicedb_unavailable'', st)
      | Some client \<Rightarrow>
          (let (check, st1) = check_view_with_expiry pf en client owner (au_preferred_username auth) st;
               scope = scope_of_share pf en owner (au_preferred_username auth) st1
           in if (case scope of None \<Rightarrow> False | Some s \<Rightarrow> \<not> scope_allows_timeline s) then (NotFound, st1)
              else render_or_404 check
                (render_timeline_scoped en owner (clamp_days days scope) scope st1, emit_share_viewed pf en auth owner st1) st1)))"

section \<open>The owner's preview\<close>

definition parse_scope_param :: "share_env \<Rightarrow> string option \<Rightarrow> share_reply + share_scope option" where
  "parse_scope_param en raw =
     (case raw of
        None \<Rightarrow> Inr None
      | Some s \<Rightarrow> if trim s = [] then Inr None
          else (case sn_scope_from_str en (trim s) of Some scope \<Rightarrow> Inr (Some scope) | None \<Rightarrow> Inl (ShareError 400 ''invalid_scope'')))"

definition preview_summary :: "share_env \<Rightarrow> authenticated_user \<Rightarrow> string option \<Rightarrow> share_state \<Rightarrow> share_reply" where
  "preview_summary en auth scope_param st =
     (case parse_scope_param en scope_param of
        Inl r \<Rightarrow> r
      | Inr scope \<Rightarrow>
          if (case scope of None \<Rightarrow> False | Some s \<Rightarrow> \<not> scope_allows_aggregates s)
          then PublicSummaryResponse (au_preferred_username auth) 0 []
          else render_summary_scoped en (au_preferred_username auth) scope st)"

definition preview_timeline :: "share_env \<Rightarrow> authenticated_user \<Rightarrow> nat option \<Rightarrow> string option \<Rightarrow> share_state \<Rightarrow> share_reply" where
  "preview_timeline en auth days scope_param st =
     (case parse_scope_param en scope_param of
        Inl r \<Rightarrow> r
      | Inr scope \<Rightarrow>
     (case resolve_timeline_days days of
        None \<Rightarrow> ShareError 400 ''invalid_days''
      | Some days \<Rightarrow>
          if (case scope of None \<Rightarrow> False | Some s \<Rightarrow> \<not> scope_allows_timeline s)
          then PublicTimelineResponse (clamp_days days scope) []
          else render_timeline_scoped en (au_preferred_username auth) (clamp_days days scope) scope st))"

section \<open>Reports\<close>

definition CLUSTER_REPORT_THRESHOLD :: nat where
  "CLUSTER_REPORT_THRESHOLD = 3"

definition CLUSTER_WINDOW_HOURS :: nat where
  "CLUSTER_WINDOW_HOURS = 72"

definition PAUSE_DURATION_HOURS :: nat where
  "PAUSE_DURATION_HOURS = 24"

definition check_cross_report_cluster :: "platform \<Rightarrow> share_env \<Rightarrow> string \<Rightarrow> share_state \<Rightarrow> share_state" where
  "check_cross_report_cluster pf en owner_handle st =
     (if \<not> sn_reports_ok en then st
      else let n = length (filter (\<lambda>r. to_ascii_lowercase (sp_owner_handle r) = to_ascii_lowercase owner_handle \<and>
                 sp_created_at r \<ge> sn_now en - int CLUSTER_WINDOW_HOURS * HOUR) (list_reports None 500 0 (sx_reports st)))
           in if n < CLUSTER_REPORT_THRESHOLD then st
              else let paused_until = sn_now en + int PAUSE_DURATION_HOURS * HOUR
                in share_audit pf en None (Some owner_handle) ''share.signal_cluster_pause''
                  (JObject [(''window_hours'', json_nat CLUSTER_WINDOW_HOURS), (''threshold'', json_nat CLUSTER_REPORT_THRESHOLD),
                     (''observed_count'', json_nat n), (''auto_pause_applied'', JBool (sn_users_ok en)),
                     (''paused_until'', json_instant en (if sn_users_ok en then Some paused_until else None)),
                     (''pause_duration_hours'', json_nat PAUSE_DURATION_HOURS)])
                  (if sn_users_ok en
                   then st\<lparr>sx_users := set_shares_paused_until_by_handle (pf_lower pf) owner_handle (Some paused_until) (sn_now en) (sx_users st)\<rparr>
                   else st))"

definition report_share ::
    "platform \<Rightarrow> share_env \<Rightarrow> authenticated_user \<Rightarrow> string \<Rightarrow> string \<Rightarrow> string \<Rightarrow> string option \<Rightarrow> share_state \<Rightarrow>
     share_reply \<times> share_state" where
  "report_share pf en auth owner_handle recipient_handle reason details st =
     (if \<not> validate_handle owner_handle \<or> \<not> validate_handle recipient_handle then (ShareError 400 ''invalid_handle'', st)
      else case report_reason_parse reason of
        None \<Rightarrow> (ShareError 400 ''invalid_reason'', st)
      | Some reason \<Rightarrow>
     if (case nonblank details of None \<Rightarrow> False | Some s \<Rightarrow> chars_count s > DETAILS_MAX_LEN)
     then (ShareError 400 ''details_too_long'', st)
     else let reporter = au_preferred_username auth
     in if \<not> eq_ignore_ascii_case reporter owner_handle \<and> \<not> eq_ignore_ascii_case reporter recipient_handle
     then (ShareError 403 ''not_a_party_to_the_share'', st)
     else if sn_reports_ok en \<and>
        count_recent_by_reporter (pf_lower pf) reporter (sn_now en - rate_limit_window) (sx_reports st) \<ge> RATE_LIMIT_PER_WINDOW
     then (ShareError 429 ''rate_limited'', st)
     else if \<not> sn_reports_ok en then (ShareError 500 ''database_error'', st)
     else (case create_report (sn_id en) (sn_now en) reporter owner_handle recipient_handle reason (nonblank details) (sx_reports st) of
        (Inl e, _) \<Rightarrow> (ShareError 500 ''database_error'', st)
      | (Inr row, reports) \<Rightarrow>
          (ReportShareResponse (sp_id row) (report_status_as_str (sp_status row)) (sp_created_at row),
           check_cross_report_cluster pf en (sp_owner_handle row)
             (audit_as pf en auth ''share.reported''
                (JObject [(''report_id'', JString (sp_id row)), (''owner_handle'', JString (sp_owner_handle row)),
                   (''recipient_handle'', JString (sp_recipient_handle row)),
                   (''reason'', JString (report_reason_as_str (sp_reason row)))])
                (st\<lparr>sx_reports := reports\<rparr>)))))"

end
