(* ===== verification/Org_Routes.thy ===== *)
theory Org_Routes
  imports Sharing
begin

text \<open>
  Models the handlers of \<^verbatim>\<open>crates/starstats-server/src/org_routes.rs\<close>, \<^verbatim>\<open>admin_org_routes.rs\<close> and
  \<^verbatim>\<open>admin_sharing_routes.rs\<close>. A gated handler takes the verdict of the gate of theory
  \<^verbatim>\<open>Admin_Routes\<close>.
\<close>

section \<open>Organizations\<close>

definition SLUG_COLLISION_MAX :: nat where
  "SLUG_COLLISION_MAX = 9"

record org_member =
  om_handle :: string
  om_role :: string

datatype org_reply =
    OrgFailure nat string
  | CreateOrgResponse org
  | ListOrgsResponse "org list"
  | GetOrgResponse org "org_member list" "string option"
  | DeleteOrgResponse
  | AddMemberResponse
  | RemoveMemberResponse
  | AdminOrgListResponse "(org \<times> nat) list" bool
  | AdminOrgResponse org nat

fun org_status :: "org_reply \<Rightarrow> nat" where
  "org_status (OrgFailure status code) = status"
| "org_status r = 200"

text \<open>
  The loop over the candidate slugs: the base, then the suffixed ones from 2 on, at most
  \<open>attempts_left\<close> more.
\<close>

fun try_slugs ::
    "uuid set \<Rightarrow> uuid \<Rightarrow> time \<Rightarrow> string \<Rightarrow> string \<Rightarrow> uuid \<Rightarrow> nat \<Rightarrow> nat \<Rightarrow> org_table \<Rightarrow> (org_error + org) \<times> org_table" where
  "try_slugs users new_id now name base_slug user_id attempts 0 tbl = (Inl SlugTaken, tbl)"
| "try_slugs users new_id now name base_slug user_id attempts (Suc left) tbl =
     (case create_org_row users new_id now name
         (if attempts = 0 then base_slug else slug_with_suffix base_slug (attempts + 1)) user_id tbl of
        (Inr org, tbl') \<Rightarrow> (Inr org, tbl')
      | (Inl SlugTaken, _) \<Rightarrow> try_slugs users new_id now name base_slug user_id (Suc attempts) left tbl
      | (Inl e, _) \<Rightarrow> (Inl e, tbl))"

definition create_org ::
    "platform \<Rightarrow> share_env \<Rightarrow> authenticated_user \<Rightarrow> string \<Rightarrow> share_state \<Rightarrow> org_reply \<times> share_state" where
  "create_org pf en auth req_name st =
     (let name = trim req_name; base_slug = slugify name
      in if name = [] then (OrgFailure 400 ''invalid_name'', st)
      else if base_slug = [] then (OrgFailure 400 ''invalid_name'', st)
      else case pf_parse_uuid pf (au_sub auth) of
        None \<Rightarrow> (OrgFailure 401 ''invalid_subject'', st)
      | Some user_id \<Rightarrow>
     (case (if sn_users_ok en
            then try_slugs (us_id ` set (sx_users st)) (sn_id en) (sn_now en) name base_slug user_id 0 (SLUG_COLLISION_MAX + 1) (sx_orgs st)
            else (Inl (OrgDatabase ''unavailable''), sx_orgs st)) of
        (Inl SlugTaken, _) \<Rightarrow> (OrgFailure 409 ''slug_collision'', st)
      | (Inl e, _) \<Rightarrow> (OrgFailure 500 ''internal'', st)
      | (Inr org, orgs) \<Rightarrow>
     (case sn_spice en of
        None \<Rightarrow> (OrgFailure 503 ''spicedb_unavailable'', st\<lparr>sx_orgs := delete_org_by_id (og_id org) orgs\<rparr>)
      | Some client \<Rightarrow>
          (case write_org_role client (og_slug org) (au_preferred_username auth) ''owner'' (sx_rels st) of
             (False, rels) \<Rightarrow>
               (OrgFailure 500 ''spicedb_error'', st\<lparr>sx_orgs := delete_org_by_id (og_id org) orgs, sx_rels := rels\<rparr>)
           | (True, rels) \<Rightarrow>
               (CreateOrgResponse org,
                audit_as pf en auth ''org.created''
                  (JObject [(''org_id'', JString (og_id org)), (''slug'', JString (og_slug org)), (''name'', JString (og_name org))])
                  (st\<lparr>sx_orgs := orgs, sx_rels := rels\<rparr>))))))"

definition list_orgs :: "platform \<Rightarrow> share_env \<Rightarrow> authenticated_user \<Rightarrow> share_state \<Rightarrow> org_reply" where
  "list_orgs pf en auth st =
     (case pf_parse_uuid pf (au_sub auth) of
        None \<Rightarrow> OrgFailure 401 ''invalid_subject''
      | Some user_id \<Rightarrow> if sn_users_ok en then ListOrgsResponse (list_orgs_for_owner user_id (sx_orgs st)) else OrgFailure 500 ''internal'')"

text \<open>The caller's highest role among the rows, case-insensitively.\<close>

fun your_role :: "string \<Rightarrow> (string \<times> string) list \<Rightarrow> string option \<Rightarrow> string option" where
  "your_role me [] acc = acc"
| "your_role me ((member, role) # rows) acc =
     your_role me rows
       (if eq_ignore_ascii_case member me
        then Some (if acc = Some ''owner'' \<or> role = ''owner'' then ''owner''
                   else if acc = Some ''admin'' \<or> role = ''admin'' then ''admin'' else role)
        else acc)"

definition org_check :: "spice_service \<Rightarrow> string \<Rightarrow> string \<Rightarrow> authenticated_user \<Rightarrow> share_state \<Rightarrow> bool option" where
  "org_check client slug permission auth st =
     check_permission client \<lparr>ob_type = ''organization'', ob_id = slug\<rparr> permission
       \<lparr>ob_type = ''user'', ob_id = au_preferred_username auth\<rparr> (sx_rels st)"

definition get_org :: "share_env \<Rightarrow> authenticated_user \<Rightarrow> string \<Rightarrow> share_state \<Rightarrow> org_reply" where
  "get_org en auth slug st =
     (if \<not> validate_slug slug then OrgFailure 404 []
      else case sn_spice en of
        None \<Rightarrow> OrgFailure 503 ''spicedb_unavailable''
      | Some client \<Rightarrow>
          if \<not> sn_users_ok en then OrgFailure 500 ''internal''
          else (case find_org_by_slug slug (sx_orgs st) of
             None \<Rightarrow> OrgFailure 404 []
           | Some org \<Rightarrow>
          (case org_check client (og_slug org) ''view'' auth st of
             None \<Rightarrow> OrgFailure 500 ''spicedb_error''
           | Some False \<Rightarrow> OrgFailure 404 []
           | Some True \<Rightarrow>
               (case list_org_members client (og_slug org) (sx_rels st) of
                  None \<Rightarrow> OrgFailure 500 ''spicedb_error''
                | Some rows \<Rightarrow> GetOrgResponse org (map (\<lambda>(h, r). \<lparr>om_handle = h, om_role = r\<rparr>) rows)
                    (your_role (au_preferred_username auth) rows None)))))"

text \<open>Cleaning the relationships up is best effort: the row goes either way.\<close>

definition delete_org ::
    "platform \<Rightarrow> share_env \<Rightarrow> authenticated_user \<Rightarrow> string \<Rightarrow> share_state \<Rightarrow> org_reply \<times> share_state" where
  "delete_org pf en auth slug st =
     (if \<not> validate_slug slug then (OrgFailure 404 [], st)
      else case sn_spice en of
        None \<Rightarrow> (OrgFailure 503 ''spicedb_unavailable'', st)
      | Some client \<Rightarrow>
          if \<not> sn_users_ok en then (OrgFailure 500 ''internal'', st)
          else (case find_org_by_slug slug (sx_orgs st) of
             None \<Rightarrow> (OrgFailure 404 [], st)
           | Some org \<Rightarrow>
          (case org_check client (og_slug org) ''manage_org'' auth st of
             None \<Rightarrow> (OrgFailure 500 ''spicedb_error'', st)
           | Some False \<Rightarrow> (OrgFailure 403 ''forbidden'', st)
           | Some True \<Rightarrow>
               (DeleteOrgResponse,
                audit_as pf en auth ''org.deleted''
                  (JObject [(''org_id'', JString (og_id org)), (''slug'', JString (og_slug org))])
                  (st\<lparr>sx_rels := snd (delete_all_org_relationships client (og_slug org) (sx_rels st)),
                      sx_orgs := delete_org_by_id (og_id org) (sx_orgs st)\<rparr>)))))"

definition add_member ::
    "platform \<Rightarrow> share_env \<Rightarrow> authenticated_user \<Rightarrow> string \<Rightarrow> string \<Rightarrow> string \<Rightarrow> share_state \<Rightarrow> org_reply \<times> share_state" where
  "add_member pf en auth slug req_handle req_role st =
     (let role = to_ascii_lowercase (trim req_role)
      in if \<not> validate_slug slug then (OrgFailure 404 ''not_found'', st)
      else if \<not> validate_handle (trim req_handle) then (OrgFailure 400 ''invalid_handle'', st)
      else if role \<noteq> ''admin'' \<and> role \<noteq> ''member'' then (OrgFailure 400 ''invalid_role'', st)
      else if \<not> sn_users_ok en then (OrgFailure 500 ''internal'', st)
      else case find_by_handle (pf_lower pf) (trim req_handle) (sx_users st) of
        None \<Rightarrow> (OrgFailure 404 ''recipient_not_found'', st)
      | Some recipient \<Rightarrow>
     (case sn_spice en of
        None \<Rightarrow> (OrgFailure 503 ''spicedb_unavailable'', st)
      | Some client \<Rightarrow>
     (case find_org_by_slug slug (sx_orgs st) of
        None \<Rightarrow> (OrgFailure 404 ''org_not_found'', st)
      | Some org \<Rightarrow>
     (case org_check client (og_slug org) ''manage_members'' auth st of
        None \<Rightarrow> (OrgFailure 500 ''spicedb_error'', st)
      | Some False \<Rightarrow> (OrgFailure 403 ''forbidden'', st)
      | Some True \<Rightarrow>
          (case write_org_role client (og_slug org) (us_claimed_handle recipient) role (sx_rels st) of
             (False, rels) \<Rightarrow> (OrgFailure 500 ''spicedb_error'', st\<lparr>sx_rels := rels\<rparr>)
           | (True, rels) \<Rightarrow>
               (AddMemberResponse,
                audit_as pf en auth ''org.member_added''
                  (JObject [(''org_slug'', JString (og_slug org)), (''recipient_handle'', JString (us_claimed_handle recipient)),
                     (''role'', JString role)]) (st\<lparr>sx_rels := rels\<rparr>)))))))"

definition remove_member ::
    "platform \<Rightarrow> share_env \<Rightarrow> authenticated_user \<Rightarrow> string \<Rightarrow> string \<Rightarrow> share_state \<Rightarrow> org_reply \<times> share_state" where
  "remove_member pf en auth slug member st =
     (if \<not> validate_slug slug then (OrgFailure 404 ''not_found'', st)
      else if \<not> validate_handle member then (OrgFailure 400 ''invalid_handle'', st)
      else case sn_spice en of
        None \<Rightarrow> (OrgFailure 503 ''spicedb_unavailable'', st)
      | Some client \<Rightarrow>
          if \<not> sn_users_ok en then (OrgFailure 500 ''internal'', st)
          else (case find_org_by_slug slug (sx_orgs st) of
             None \<Rightarrow> (OrgFailure 404 ''org_not_found'', st)
           | Some org \<Rightarrow>
          (case org_check client (og_slug org) ''manage_members'' auth st of
             None \<Rightarrow> (OrgFailure 500 ''spicedb_error'', st)
           | Some False \<Rightarrow> (OrgFailure 403 ''forbidden'', st)
           | Some True \<Rightarrow>
               (case delete_org_member_all_roles client (og_slug org) member (sx_rels st) of
                  (False, rels) \<Rightarrow> (OrgFailure 500 ''spicedb_error'', st\<lparr>sx_rels := rels\<rparr>)
                | (True, rels) \<Rightarrow>
                    (RemoveMemberResponse,
                     audit_as pf en auth ''org.member_removed''
                       (JObject [(''org_slug'', JString (og_slug org)), (''recipient_handle'', JString member)])
                       (st\<lparr>sx_rels := rels\<rparr>))))))"

section \<open>Organizations, for staff\<close>

type_synonym gate = "admin_rejection + authenticated_user"

definition ORGS_PAGE_DEFAULT :: int where
  "ORGS_PAGE_DEFAULT = 50"

definition ORGS_PAGE_MAX :: int where
  "ORGS_PAGE_MAX = 200"

definition member_count_for :: "share_env \<Rightarrow> string \<Rightarrow> share_state \<Rightarrow> nat" where
  "member_count_for en slug st =
     (case Option.bind (sn_spice en) (\<lambda>client. list_org_members client slug (sx_rels st)) of
        None \<Rightarrow> 0
      | Some rows \<Rightarrow> length (remdups (map fst rows)))"

definition list_orgs_admin :: "share_env \<Rightarrow> gate \<Rightarrow> string option \<Rightarrow> int option \<Rightarrow> int option \<Rightarrow> share_state \<Rightarrow> org_reply" where
  "list_orgs_admin en gate q limit offset st =
     (case gate of
        Inl e \<Rightarrow> OrgFailure (rejection_status e) ''rejected''
      | Inr _ \<Rightarrow>
          if \<not> sn_users_ok en then OrgFailure 500 ''internal''
          else let lim = clamp (case limit of Some l \<Rightarrow> l | None \<Rightarrow> ORGS_PAGE_DEFAULT) 1 ORGS_PAGE_MAX;
                   rows = list_all_orgs (sn_ilike en) q lim (max (case offset of Some k \<Rightarrow> k | None \<Rightarrow> 0) 0) (sx_orgs st)
               in AdminOrgListResponse (map (\<lambda>r. (r, member_count_for en (og_slug r) st)) rows) (int (length rows) \<ge> lim))"

definition get_org_admin :: "share_env \<Rightarrow> gate \<Rightarrow> string \<Rightarrow> share_state \<Rightarrow> org_reply" where
  "get_org_admin en gate slug st =
     (case gate of
        Inl e \<Rightarrow> OrgFailure (rejection_status e) ''rejected''
      | Inr _ \<Rightarrow>
          if \<not> sn_users_ok en then OrgFailure 500 ''internal''
          else (case find_org_by_slug slug (sx_orgs st) of
             None \<Rightarrow> OrgFailure 404 ''org_not_found''
           | Some org \<Rightarrow> AdminOrgResponse org (member_count_for en (og_slug org) st)))"

definition delete_org_admin :: "platform \<Rightarrow> share_env \<Rightarrow> gate \<Rightarrow> string \<Rightarrow> share_state \<Rightarrow> org_reply \<times> share_state" where
  "delete_org_admin pf en gate slug st =
     (case gate of
        Inl e \<Rightarrow> (OrgFailure (rejection_status e) ''rejected'', st)
      | Inr actor \<Rightarrow>
          if \<not> sn_users_ok en then (OrgFailure 500 ''internal'', st)
          else (case find_org_by_slug slug (sx_orgs st) of
             None \<Rightarrow> (OrgFailure 404 ''org_not_found'', st)
           | Some org \<Rightarrow>
               (DeleteOrgResponse,
                audit_as pf en actor ''admin.org.deleted''
                  (JObject [(''org_id'', JString (og_id org)), (''slug'', JString slug), (''name'', JString (og_name org))])
                  (st\<lparr>sx_rels := (case sn_spice en of None \<Rightarrow> sx_rels st
                        | Some client \<Rightarrow> snd (delete_all_org_relationships client (og_slug org) (sx_rels st))),
                      sx_orgs := delete_org_by_id (og_id org) (sx_orgs st)\<rparr>))))"

section \<open>Sharing, for staff\<close>

record user_share_edge =
  ue_counterparty_handle :: string
  ue_expires_at :: "micros option"
  ue_note :: "string option"
  ue_scope_kind :: "string option"
  ue_created_at :: micros

record sharing_overview =
  ov_active_shares_total :: nat
  ov_active_shares_outbound :: nat
  ov_active_shares_with_expiry :: nat
  ov_top_granters :: "(string \<times> nat) list"
  ov_total_grants_30d :: nat
  ov_total_revocations_30d :: nat
  ov_total_views_30d :: nat

datatype sharing_admin_reply =
    SharingAdminError nat string
  | AdminSharingOverview sharing_overview
  | ScopeHistogram scope_histogram
  | ShareReportListResponse "share_report list"
  | ShareReportRow share_report
  | UserSharingContext string "user_share_edge list" "user_share_edge list" "share_report list" "share_report list"

definition TOP_GRANTERS_LIMIT :: int where
  "TOP_GRANTERS_LIMIT = 20"

definition PER_USER_REPORT_CAP :: nat where
  "PER_USER_REPORT_CAP = 50"

definition count_audit_action :: "share_env \<Rightarrow> string \<Rightarrow> micros \<Rightarrow> share_state \<Rightarrow> nat" where
  "count_audit_action en action since st =
     length (list_entries (sn_ilike en)
       \<lparr>af_actor_handle = None, af_action = Some action, af_since = Some since, af_until = None, af_limit = 500, af_offset = 0\<rparr>
       (sx_audit st))"

definition get_overview :: "platform \<Rightarrow> share_env \<Rightarrow> gate \<Rightarrow> share_state \<Rightarrow> sharing_admin_reply" where
  "get_overview pf en gate st =
     (case gate of
        Inl e \<Rightarrow> SharingAdminError (rejection_status e) ''rejected''
      | Inr _ \<Rightarrow>
          if \<not> sn_meta_ok en \<or> \<not> sn_audit_query_ok en then SharingAdminError 500 ''sharing_overview_failed''
          else let counts = active_share_counts_of (sn_now en) (sx_meta st);
                   top = top_active_granters (pf_lower pf) (sn_now en) TOP_GRANTERS_LIMIT (sx_meta st);
                   since = sn_now en - 30 * 24 * HOUR
               in AdminSharingOverview
                    \<lparr>ov_active_shares_total = nat (max (sa_total counts) 0), ov_active_shares_outbound = nat (max (sa_total counts) 0),
                     ov_active_shares_with_expiry = nat (max (sa_with_expiry counts) 0),
                     ov_top_granters = map (\<lambda>(h, n). (h, nat (max n 0))) top,
                     ov_total_grants_30d = count_audit_action en ''share.created'' since st,
                     ov_total_revocations_30d = count_audit_action en ''share.revoked'' since st,
                     ov_total_views_30d = count_audit_action en ''share.viewed'' since st\<rparr>)"

definition get_scope_histogram :: "share_env \<Rightarrow> gate \<Rightarrow> share_state \<Rightarrow> sharing_admin_reply" where
  "get_scope_histogram en gate st =
     (case gate of
        Inl e \<Rightarrow> SharingAdminError (rejection_status e) ''rejected''
      | Inr _ \<Rightarrow> if sn_meta_ok en then ScopeHistogram (scope_histogram_active (sn_now en) (sx_meta st))
          else SharingAdminError 500 ''sharing_overview_failed'')"

definition report_status_filter :: "string option \<Rightarrow> string + share_report_status option" where
  "report_status_filter status =
     (case status of
        None \<Rightarrow> Inr (Some Open)
      | Some s \<Rightarrow>
          if s = [] \<or> s = ''open'' then Inr (Some Open)
          else if s = ''dismissed'' then Inr (Some Dismissed)
          else if s = ''share_revoked'' then Inr (Some ShareRevoked)
          else if s = ''user_suspended'' then Inr (Some UserSuspended)
          else if s = ''all'' then Inr None
          else Inl ''invalid_status'')"

definition get_reports ::
    "share_env \<Rightarrow> gate \<Rightarrow> string option \<Rightarrow> int option \<Rightarrow> int option \<Rightarrow> share_state \<Rightarrow> sharing_admin_reply" where
  "get_reports en gate status limit offset st =
     (case gate of
        Inl e \<Rightarrow> SharingAdminError (rejection_status e) ''rejected''
      | Inr _ \<Rightarrow>
     (case report_status_filter status of
        Inl code \<Rightarrow> SharingAdminError 400 code
      | Inr filter_status \<Rightarrow>
          if \<not> sn_reports_ok en then SharingAdminError 500 ''sharing_overview_failed''
          else ShareReportListResponse (list_reports filter_status
                 (clamp (case limit of Some l \<Rightarrow> l | None \<Rightarrow> 50) 1 200) (max (case offset of Some k \<Rightarrow> k | None \<Rightarrow> 0) 0) (sx_reports st))))"

definition resolve_report ::
    "platform \<Rightarrow> share_env \<Rightarrow> gate \<Rightarrow> uuid \<Rightarrow> string \<Rightarrow> string option \<Rightarrow> share_state \<Rightarrow> sharing_admin_reply \<times> share_state" where
  "resolve_report pf en gate i outcome note st =
     (case gate of
        Inl e \<Rightarrow> (SharingAdminError (rejection_status e) ''rejected'', st)
      | Inr user \<Rightarrow>
     (case report_status_parse outcome of
        None \<Rightarrow> (SharingAdminError 400 ''invalid_outcome'', st)
      | Some s \<Rightarrow>
          if \<not> is_resolution s then (SharingAdminError 400 ''invalid_outcome'', st)
          else if (case nonblank note of None \<Rightarrow> False | Some n \<Rightarrow> chars_count n > RESOLUTION_NOTE_MAX_LEN)
          then (SharingAdminError 400 ''note_too_long'', st)
          else if \<not> sn_reports_ok en then (SharingAdminError 500 ''sharing_overview_failed'', st)
          else (case resolve_report_row i (sn_now en) (au_preferred_username user) s (nonblank note) (sx_reports st) of
             (Inl ReportNotFound, _) \<Rightarrow> (SharingAdminError 404 ''not_found'', st)
           | (Inl AlreadyResolved, _) \<Rightarrow> (SharingAdminError 409 ''already_resolved'', st)
           | (Inl ReportDatabase, _) \<Rightarrow> (SharingAdminError 500 ''sharing_overview_failed'', st)
           | (Inr row, reports) \<Rightarrow>
               (ShareReportRow row,
                audit_as pf en user ''share.report_resolved''
                  (JObject [(''report_id'', JString (sp_id row)), (''outcome'', JString (report_status_as_str (sp_status row))),
                     (''owner_handle'', JString (sp_owner_handle row)), (''recipient_handle'', JString (sp_recipient_handle row))])
                  (st\<lparr>sx_reports := reports\<rparr>)))))"

definition share_edge :: "string \<Rightarrow> share_meta \<Rightarrow> user_share_edge" where
  "share_edge counterparty m =
     \<lparr>ue_counterparty_handle = counterparty, ue_expires_at = sm_expires_at m, ue_note = sm_note m,
      ue_scope_kind = scope_kind (sm_scope m), ue_created_at = sm_created_at m\<rparr>"

definition get_user_sharing_context :: "platform \<Rightarrow> share_env \<Rightarrow> gate \<Rightarrow> string \<Rightarrow> share_state \<Rightarrow> sharing_admin_reply" where
  "get_user_sharing_context pf en gate user st =
     (case gate of
        Inl e \<Rightarrow> SharingAdminError (rejection_status e) ''rejected''
      | Inr _ \<Rightarrow>
          (let needle = trim user; needle_lc = to_ascii_lowercase needle
           in if needle = [] then SharingAdminError 400 ''invalid_handle''
              else if \<not> sn_meta_ok en \<or> \<not> sn_reports_ok en then SharingAdminError 500 ''sharing_overview_failed''
              else let all_reports = list_reports None 500 0 (sx_reports st)
                in UserSharingContext user
                     (map (\<lambda>m. share_edge (sm_recipient_handle m) m) (list_meta_by_owner (pf_lower pf) needle (sx_meta st)))
                     (map (\<lambda>m. share_edge (sm_owner_handle m) m) (list_meta_by_recipient (pf_lower pf) needle (sx_meta st)))
                     (take PER_USER_REPORT_CAP (filter (\<lambda>r. to_ascii_lowercase (sp_reporter_handle r) = needle_lc) all_reports))
                     (take PER_USER_REPORT_CAP (filter (\<lambda>r. to_ascii_lowercase (sp_owner_handle r) = needle_lc) all_reports))))"

end
