(* ===== verification/Sharing_Steps.thy ===== *)
theory Sharing_Steps
  imports Org_Routes
begin

text \<open>
  The requests of the sharing surface as steps over one state, and what each handler can change: the
  relationships it may add, and the tables it leaves alone. Two requests of the account surface act on
  this state as well and are steps too: a sign-up, which makes the new account the owner of its record,
  and the deletion of an account, which takes the organizations of its founder with it.
\<close>

section \<open>Accounts that come and go\<close>

text \<open>
  \<open>signup\<close> and \<open>delete_account\<close> work on the users, the events and the audit log of the sharing state;
  devices, links, codes and mail have no part in it.
\<close>

definition accounts_of :: "share_state \<Rightarrow> account_state" where
  "accounts_of st = \<lparr>ac_users = sx_users st, ac_devices = \<lparr>db_pairings = Map.empty, db_devices = []\<rparr>, ac_links = Map.empty,
     ac_codes = [], ac_events = sx_events st, ac_audit = sx_audit st, ac_outbox = []\<rparr>"

definition with_accounts :: "account_state \<Rightarrow> share_state \<Rightarrow> share_state" where
  "with_accounts ac st = st\<lparr>sx_users := ac_users ac, sx_events := ac_events ac, sx_audit := ac_audit ac\<rparr>"

text \<open>
  \<open>signup\<close> with its write to the relationship service: once the account is there, \<open>write_owner\<close> is tried
  for its handle, and a failure is ignored.
\<close>

definition signup_owner :: "platform \<Rightarrow> share_env \<Rightarrow> draws \<Rightarrow> string \<Rightarrow> string \<Rightarrow> string \<Rightarrow> share_state \<Rightarrow> reply \<times> share_state" where
  "signup_owner pf en d email password claimed_handle st =
     (let (r, ac) = signup pf d email password claimed_handle (accounts_of st);
          st1 = with_accounts ac st;
          created = (if find_by_id (dw_id d) (sx_users st) = None then find_by_id (dw_id d) (ac_users ac) else None)
      in (r, case (created, sn_spice en) of
             (Some u, Some client) \<Rightarrow> st1\<lparr>sx_rels := snd (write_owner client (us_claimed_handle u) (sx_rels st))\<rparr>
           | _ \<Rightarrow> st1))"

text \<open>
  \<open>delete_account\<close> with the cascade of the reference \<open>organizations.owner_user_id\<close>; the handler does not
  talk to the relationship service.
\<close>

definition delete_account_orgs :: "platform \<Rightarrow> draws \<Rightarrow> authenticated_user \<Rightarrow> string \<Rightarrow> share_state \<Rightarrow> reply \<times> share_state" where
  "delete_account_orgs pf d auth confirm_handle st =
     (let (r, ac) = delete_account pf d auth confirm_handle (accounts_of st);
          gone = us_id ` set (sx_users st) - us_id ` set (ac_users ac)
      in (r, (with_accounts ac st)\<lparr>sx_orgs := filter (\<lambda>o'. og_owner_user_id o' \<notin> gone) (sx_orgs st)\<rparr>))"

section \<open>Requests as steps\<close>

datatype share_op =
    SetVisibility bool
  | AddShare share_request
  | DeleteShare string
  | ShareWithOrg string
  | UnshareWithOrg string
  | FriendSummary string
  | FriendTimeline string "nat option"
  | ReportShare string string string "string option"
  | CreateOrg string
  | DeleteOrg string
  | AddMember string string string
  | RemoveMember string string
  | DeleteOrgAdmin gate string
  | ResolveReport gate uuid string "string option"
  | SignUp draws string string string
  | CloseAccount draws string

fun share_step :: "platform \<Rightarrow> share_env \<Rightarrow> authenticated_user \<Rightarrow> share_op \<Rightarrow> share_state \<Rightarrow> share_state" where
  "share_step pf en auth (SetVisibility public) st = snd (set_visibility pf en auth public st)"
| "share_step pf en auth (AddShare req) st = snd (add_share pf en auth req st)"
| "share_step pf en auth (DeleteShare recipient) st = snd (delete_share pf en auth recipient st)"
| "share_step pf en auth (ShareWithOrg slug) st = snd (share_with_org pf en auth slug st)"
| "share_step pf en auth (UnshareWithOrg slug) st = snd (unshare_with_org pf en auth slug st)"
| "share_step pf en auth (FriendSummary owner) st = snd (friend_summary pf en auth owner st)"
| "share_step pf en auth (FriendTimeline owner days) st = snd (friend_timeline pf en auth owner days st)"
| "share_step pf en auth (ReportShare owner recipient reason details) st = snd (report_share pf en auth owner recipient reason details st)"
| "share_step pf en auth (CreateOrg name) st = snd (create_org pf en auth name st)"
| "share_step pf en auth (DeleteOrg slug) st = snd (delete_org pf en auth slug st)"
| "share_step pf en auth (AddMember slug member role) st = snd (add_member pf en auth slug member role st)"
| "share_step pf en auth (RemoveMember slug member) st = snd (remove_member pf en auth slug member st)"
| "share_step pf en auth (DeleteOrgAdmin gate slug) st = snd (delete_org_admin pf en gate slug st)"
| "share_step pf en auth (ResolveReport gate i outcome note) st = snd (resolve_report pf en gate i outcome note st)"
| "share_step pf en auth (SignUp d email password h) st = snd (signup_owner pf en d email password h st)"
| "share_step pf en auth (CloseAccount d confirm_handle) st = snd (delete_account_orgs pf d auth confirm_handle st)"

inductive share_reaches :: "platform \<Rightarrow> share_state \<Rightarrow> share_state \<Rightarrow> bool" for pf st0 where
  start: "share_reaches pf st0 st0"
| step: "share_reaches pf st0 st \<Longrightarrow> share_reaches pf st0 (share_step pf en auth op st)"

section \<open>What an audit row leaves alone\<close>

lemma share_audit_fields [simp]:
  "sx_users (share_audit pf en a h act p st) = sx_users st" "sx_orgs (share_audit pf en a h act p st) = sx_orgs st"
  "sx_rels (share_audit pf en a h act p st) = sx_rels st" "sx_meta (share_audit pf en a h act p st) = sx_meta st"
  "sx_reports (share_audit pf en a h act p st) = sx_reports st" "sx_events (share_audit pf en a h act p st) = sx_events st"
  by (simp_all add: share_audit_def)

lemma audit_as_fields [simp]:
  "sx_users (audit_as pf en auth act p st) = sx_users st" "sx_orgs (audit_as pf en auth act p st) = sx_orgs st"
  "sx_rels (audit_as pf en auth act p st) = sx_rels st" "sx_meta (audit_as pf en auth act p st) = sx_meta st"
  "sx_reports (audit_as pf en auth act p st) = sx_reports st" "sx_events (audit_as pf en auth act p st) = sx_events st"
  by (simp_all add: audit_as_def)

lemma rapid_grant_fields [simp]:
  "sx_users (snd (check_rapid_grant pf en auth st)) = sx_users st" "sx_orgs (snd (check_rapid_grant pf en auth st)) = sx_orgs st"
  "sx_rels (snd (check_rapid_grant pf en auth st)) = sx_rels st" "sx_meta (snd (check_rapid_grant pf en auth st)) = sx_meta st"
  "sx_reports (snd (check_rapid_grant pf en auth st)) = sx_reports st" "sx_events (snd (check_rapid_grant pf en auth st)) = sx_events st"
  by (simp_all add: check_rapid_grant_def Let_def)

section \<open>How each operation changes the relationships\<close>

text \<open>The relationship a step can add, with the permission it needed; \<open>None\<close> when it can add none.\<close>

inductive adds :: "platform \<Rightarrow> share_env \<Rightarrow> authenticated_user \<Rightarrow> share_op \<Rightarrow> share_state \<Rightarrow> relationship \<Rightarrow> bool" where
  publish: "adds pf en auth (SetVisibility True) st (Rel ''stats_record'' (au_preferred_username auth) ''public_view'' ''user'' ''*'')"
| share: "find_by_handle (pf_lower pf) (trim (rq_recipient_handle req)) (sx_users st) = Some u \<Longrightarrow>
    adds pf en auth (AddShare req) st
      (Rel ''stats_record'' (au_preferred_username auth) ''share_with_user'' ''user'' (us_claimed_handle u))"
| share_org: "find_org_by_slug (trim slug) (sx_orgs st) = Some org \<Longrightarrow>
    adds pf en auth (ShareWithOrg slug) st
      (Rel ''stats_record'' (au_preferred_username auth) ''share_with_org'' ''organization'' (og_slug org))"
| found: "slug \<notin> og_slug ` set (sx_orgs st) \<Longrightarrow>
    adds pf en auth (CreateOrg name) st (Rel ''organization'' slug ''owner'' ''user'' (au_preferred_username auth))"
| enrol: "sn_spice en = Some client \<Longrightarrow> org_check client slug ''manage_members'' auth st = Some True \<Longrightarrow>
    role \<in> {''admin'', ''member''} \<Longrightarrow> find_by_handle (pf_lower pf) (trim member) (sx_users st) = Some u \<Longrightarrow>
    adds pf en auth (AddMember slug member req_role) st (Rel ''organization'' slug role ''user'' (us_claimed_handle u))"
| own: "find_by_handle (pf_lower pf) h (sx_users st) = None \<Longrightarrow>
    adds pf en auth (SignUp d email password h) st (Rel ''stats_record'' h ''owner'' ''user'' h)"

lemma run_writes_subset:
  assumes "run_writes sp ws rels = (ok, rels')" and "\<And>w x. w \<in> set ws \<Longrightarrow> set (w x) \<subseteq> insert r (set x)"
  shows "set rels' \<subseteq> insert r (set rels)"
proof -
  have "set (fold (\<lambda>w. w) ws' x) \<subseteq> insert r (set x)" if "set ws' \<subseteq> set ws" for ws' x
    using that
  proof (induction ws' arbitrary: x)
    case (Cons w ws')
    then have "set (fold (\<lambda>w. w) ws' (w x)) \<subseteq> insert r (set (w x))" "set (w x) \<subseteq> insert r (set x)" using assms(2) by auto
    then show ?case by auto
  qed auto
  then show ?thesis using assms(1) set_take_subset [of "sp_writes sp" ws] by (auto simp: run_writes_def)
qed

lemma run_writes_shrinks:
  assumes "run_writes sp ws rels = (ok, rels')" and "\<And>w x. w \<in> set ws \<Longrightarrow> set (w x) \<subseteq> set x"
  shows "set rels' \<subseteq> set rels"
proof -
  have "set (fold (\<lambda>w. w) ws' x) \<subseteq> set x" if "set ws' \<subseteq> set ws" for ws' x
    using that assms(2) by (induction ws' arbitrary: x) fastforce+
  then show ?thesis using assms(1) set_take_subset [of "sp_writes sp" ws] by (auto simp: run_writes_def)
qed

text \<open>The writes of the client: what each may add, and which only take away.\<close>

lemma client_adds:
  "write_public_view sp h rels = (ok, rels') \<Longrightarrow> set rels' \<subseteq> insert (Rel ''stats_record'' h ''public_view'' ''user'' ''*'') (set rels)"
  "write_share_with_user sp h k rels = (ok, rels') \<Longrightarrow> set rels' \<subseteq> insert (Rel ''stats_record'' h ''share_with_user'' ''user'' k) (set rels)"
  "write_share_with_org sp h s rels = (ok, rels') \<Longrightarrow>
     set rels' \<subseteq> insert (Rel ''stats_record'' h ''share_with_org'' ''organization'' s) (set rels)"
  "write_org_role sp s h role rels = (ok, rels') \<Longrightarrow> set rels' \<subseteq> insert (Rel ''organization'' s role ''user'' h) (set rels)"
  "write_owner sp h rels = (ok, rels') \<Longrightarrow> set rels' \<subseteq> insert (Rel ''stats_record'' h ''owner'' ''user'' h) (set rels)"
  by (auto simp: write_owner_def write_public_view_def write_share_with_user_def write_share_with_org_def write_org_role_def run_writes_single
      split: if_splits)

lemma client_shrinks:
  "delete_public_view sp h rels = (ok, rels') \<Longrightarrow> set rels' \<subseteq> set rels"
  "delete_share_with_user sp h k rels = (ok, rels') \<Longrightarrow> set rels' \<subseteq> set rels"
  "delete_share_with_org sp h s rels = (ok, rels') \<Longrightarrow> set rels' \<subseteq> set rels"
  "delete_org_member_all_roles sp s h rels = (ok, rels') \<Longrightarrow> set rels' \<subseteq> set rels"
  "delete_all_org_relationships sp s rels = (ok, rels') \<Longrightarrow> set rels' \<subseteq> set rels"
  unfolding delete_public_view_def delete_share_with_user_def delete_share_with_org_def delete_org_member_all_roles_def
    delete_all_org_relationships_def
  by (erule run_writes_shrinks, fastforce)+

lemma try_slugs_Inr:
  "try_slugs users i now name base uid attempts left tbl = (Inr org, tbl') \<Longrightarrow>
     tbl' = tbl @ [org] \<and> og_slug org \<notin> og_slug ` set tbl \<and> og_id org = i \<and> i \<notin> og_id ` set tbl \<and>
     og_owner_user_id org = uid \<and> og_name org = name \<and>
     (\<exists>k < left. og_slug org = (if attempts + k = 0 then base else slug_with_suffix base (attempts + k + 1)))"
proof (induction left arbitrary: attempts)
  case (Suc left)
  let ?slug = "if attempts = 0 then base else slug_with_suffix base (attempts + 1)"
  show ?case
  proof (cases "i \<in> og_id ` set tbl \<or> ?slug \<in> og_slug ` set tbl")
    case True
    then have "try_slugs users i now name base uid (Suc attempts) left tbl = (Inr org, tbl')"
      using Suc.prems by (simp add: create_org_row_def Let_def)
    from Suc.IH [OF this] obtain k where "k < left"
      "og_slug org = (if Suc attempts + k = 0 then base else slug_with_suffix base (Suc attempts + k + 1))" by blast
    then have "\<exists>k < Suc left. og_slug org = (if attempts + k = 0 then base else slug_with_suffix base (attempts + k + 1))"
      by (intro exI [of _ "Suc k"]) simp
    with Suc.IH [OF \<open>try_slugs _ _ _ _ _ _ (Suc attempts) left tbl = _\<close>] show ?thesis by blast
  next
    case False
    then show ?thesis using Suc.prems by (auto simp: create_org_row_def Let_def split: if_splits)
  qed
qed simp

text \<open>\<open>add_share\<close>: refused without any change but an audit row, or on to the grant.\<close>

lemma check_rapid_grant_None: "check_rapid_grant pf en auth st = (None, st1) \<Longrightarrow> st1 = st"
  by (auto simp: check_rapid_grant_def Let_def split: if_splits)

lemma stored_scope_Inr:
  "stored_scope sc = Inr scope \<Longrightarrow> (scope = None \<and> (\<forall>s \<in> set_option sc. sc_kind s = ''full'')) \<or>
     (\<exists>s. sc = Some s \<and> scope = Some s \<and> validate_scope s = Inr () \<and> sc_kind s \<noteq> ''full'')"
  by (auto simp: stored_scope_def split: option.splits sum.splits if_splits)

lemma guards5:
  "c1 \<or> c2 \<or> c3 \<or> c4 \<or> c5 \<Longrightarrow> \<exists>s c. (if c1 then (ShareError a1 b1, st) else if c2 then (ShareError a2 b2, st)
     else if c3 then (ShareError a3 b3, st) else if c4 then (ShareError a4 b4, st) else if c5 then (ShareError a5 b5, st) else x) =
     (ShareError s c, st)"
  by auto

lemma guards3:
  "c1 \<or> c2 \<or> c3 \<Longrightarrow> \<exists>s c. (if c1 then (ShareError a1 b1, st) else if c2 then (ShareError a2 b2, st)
     else if c3 then (ShareError a3 b3, st) else x) = (ShareError s c, st)"
  by auto

lemma add_share_cases:
  obtains (refused) status code where "fst (add_share pf en auth req st) = ShareError status code"
      "snd (add_share pf en auth req st) = st \<or> snd (add_share pf en auth req st) = snd (check_rapid_grant pf en auth st)"
  | (granted) u scope where "require_rsi_verified pf en auth st = None" "fst (check_rapid_grant pf en auth st) = None"
      "find_by_handle (pf_lower pf) (trim (rq_recipient_handle req)) (sx_users st) = Some u"
      "\<not> eq_ignore_ascii_case (trim (rq_recipient_handle req)) (au_preferred_username auth)"
      "stored_scope (rq_scope req) = Inr scope"
      "add_share pf en auth req st = grant_share pf en auth (us_claimed_handle u) (rq_expires_at req) (nonblank (rq_note req)) scope st"
proof -
  let ?go = "\<lambda>st1. (case stored_scope (rq_scope req) of
        Inl code \<Rightarrow> (ShareError 400 code, st1)
      | Inr scope \<Rightarrow>
     if \<not> sn_users_ok en then (ShareError 500 ''internal'', st1)
     else (case find_by_handle (pf_lower pf) (trim (rq_recipient_handle req)) (sx_users st1) of
        None \<Rightarrow> (ShareError 404 ''recipient_not_found'', st1)
      | Some u \<Rightarrow> grant_share pf en auth (us_claimed_handle u) (rq_expires_at req) (nonblank (rq_note req)) scope st1))"
  consider (err) status code where "add_share pf en auth req st = (ShareError status code, st)"
    | (rapid) r st1 where "check_rapid_grant pf en auth st = (Some r, st1)" "add_share pf en auth req st = (r, st1)"
    | (go) "require_rsi_verified pf en auth st = None" "fst (check_rapid_grant pf en auth st) = None"
        "\<not> eq_ignore_ascii_case (trim (rq_recipient_handle req)) (au_preferred_username auth)"
        "add_share pf en auth req st = ?go st"
  proof (cases "require_rsi_verified pf en auth st")
    case (Some r)
    then have "\<exists>status code. r = ShareError status code"
      by (auto simp: require_rsi_verified_def split: option.splits if_splits)
    then show thesis using Some err by (auto simp: add_share_def)
  next
    case None
    let ?c1 = "case (if sn_users_ok en then get_shares_paused_until_by_handle (pf_lower pf) (au_preferred_username auth) (sx_users st)
               else None) of None \<Rightarrow> False | Some until \<Rightarrow> until > sn_now en"
    let ?c2 = "\<not> validate_handle (trim (rq_recipient_handle req))"
    let ?c3 = "eq_ignore_ascii_case (trim (rq_recipient_handle req)) (au_preferred_username auth)"
    let ?c4 = "case rq_expires_at req of None \<Rightarrow> False | Some t \<Rightarrow> t \<le> sn_now en"
    let ?c5 = "case nonblank (rq_note req) of None \<Rightarrow> False | Some n \<Rightarrow> chars_count n > NOTE_MAX_LEN"
    obtain rg st1 where rg: "check_rapid_grant pf en auth st = (rg, st1)" by fastforce
    note eq = add_share_def [of pf en auth req st, unfolded Let_def None option.case rg prod.case]
    show thesis
    proof (cases rg)
      case None': None
      have st1: "st1 = st" using check_rapid_grant_None rg None' by simp
      show thesis
      proof (cases "?c1 \<or> ?c2 \<or> ?c3 \<or> ?c4 \<or> ?c5")
        case True
        have "\<exists>status code. add_share pf en auth req st = (ShareError status code, st)"
          unfolding eq None' st1 option.case using True by (rule guards5)
        then show thesis using err by blast
      next
        case False
        then have "add_share pf en auth req st = ?go st" unfolding eq None' st1 option.case by simp
        then show thesis using go None rg None' False by simp
      qed
    next
      case (Some r)
      show thesis
      proof (cases "?c1 \<or> ?c2 \<or> ?c3")
        case True
        have "\<exists>status code. add_share pf en auth req st = (ShareError status code, st)"
          unfolding eq Some option.case using True by (rule guards3)
        then show thesis using err by blast
      next
        case False
        then have "add_share pf en auth req st = (r, st1)" unfolding eq Some option.case by simp
        then show thesis using rapid rg Some by simp
      qed
    qed
  qed
  then show thesis
  proof cases
    case err
    then show thesis using refused by simp
  next
    case rapid
    then have "\<exists>status code. r = ShareError status code" by (auto simp: check_rapid_grant_def Let_def split: if_splits)
    then show thesis using rapid refused by auto
  next
    case go
    show thesis
    proof (cases "stored_scope (rq_scope req)")
      case (Inl code)
      then show thesis using go refused by simp
    next
      case (Inr scope)
      show thesis
      proof (cases "find_by_handle (pf_lower pf) (trim (rq_recipient_handle req)) (sx_users st)")
        case None
        then show thesis using go Inr refused by (cases "sn_users_ok en") simp_all
      next
        case (Some u)
        show thesis
        proof (cases "sn_users_ok en")
          case True
          then show thesis using go Inr Some by (intro granted) simp_all
        qed (use go Inr refused in simp)
      qed
    qed
  qed
qed

text \<open>The relationships after each handler.\<close>

lemma grant_share_rels:
  "set (sx_rels (snd (grant_share pf en auth recipient e n sc st))) \<subseteq>
     insert (Rel ''stats_record'' (au_preferred_username auth) ''share_with_user'' ''user'' recipient) (set (sx_rels st))"
  using client_adds(2)
  by (cases "sn_spice en"; cases "write_share_with_user (the (sn_spice en)) (au_preferred_username auth) recipient (sx_rels st)";
      cases "fst (write_share_with_user (the (sn_spice en)) (au_preferred_username auth) recipient (sx_rels st))")
    (auto simp: grant_share_def)

lemma set_visibility_rels:
  "set (sx_rels (snd (set_visibility pf en auth public st))) \<subseteq>
     (if public then insert (Rel ''stats_record'' (au_preferred_username auth) ''public_view'' ''user'' ''*'') (set (sx_rels st))
      else set (sx_rels st))"
proof (cases "require_rsi_verified pf en auth st")
  case None
  show ?thesis
  proof (cases "sn_spice en")
    case (Some client)
    obtain ok rels where r: "(if public then write_public_view client (au_preferred_username auth) (sx_rels st)
        else delete_public_view client (au_preferred_username auth) (sx_rels st)) = (ok, rels)" by fastforce
    then have "set rels \<subseteq> (if public then insert (Rel ''stats_record'' (au_preferred_username auth) ''public_view'' ''user'' ''*'') (set (sx_rels st))
      else set (sx_rels st))"
      using client_adds(1) client_shrinks(1) by (cases public) auto
    then show ?thesis using None Some r by (cases ok) (simp_all add: set_visibility_def)
  qed (use None in \<open>auto simp: set_visibility_def\<close>)
qed (auto simp: set_visibility_def)

lemma delete_share_rels: "set (sx_rels (snd (delete_share pf en auth recipient st))) \<subseteq> set (sx_rels st)"
proof (cases "sn_spice en")
  case (Some client)
  obtain ok rels where r: "delete_share_with_user client (au_preferred_username auth) (trim recipient) (sx_rels st) = (ok, rels)" by fastforce
  then show ?thesis using Some client_shrinks(2) [OF r] by (cases ok) (simp_all add: delete_share_def Let_def)
qed (simp add: delete_share_def Let_def)

lemma share_with_org_rels:
  assumes "r \<in> set (sx_rels (snd (share_with_org pf en auth slug st)))" and "r \<notin> set (sx_rels st)"
  shows "\<exists>org. find_org_by_slug (trim slug) (sx_orgs st) = Some org \<and>
    r = Rel ''stats_record'' (au_preferred_username auth) ''share_with_org'' ''organization'' (og_slug org)"
proof (cases "require_rsi_verified pf en auth st = None \<and> validate_slug (trim slug) \<and> sn_users_ok en \<and>
    find_org_by_slug (trim slug) (sx_orgs st) \<noteq> None \<and> sn_spice en \<noteq> None")
  case True
  then obtain org client where c: "find_org_by_slug (trim slug) (sx_orgs st) = Some org" "sn_spice en = Some client" by auto
  obtain ok rels where w: "write_share_with_org client (au_preferred_username auth) (og_slug org) (sx_rels st) = (ok, rels)" by fastforce
  have "sx_rels (snd (share_with_org pf en auth slug st)) = rels"
    using True c w by (cases ok) (simp_all add: share_with_org_def)
  then show ?thesis using client_adds(3) [OF w] assms c by auto
next
  case False
  then have "snd (share_with_org pf en auth slug st) = st"
    by (auto simp: share_with_org_def split: option.splits)
  then show ?thesis using assms by simp
qed

lemma unshare_with_org_rels: "set (sx_rels (snd (unshare_with_org pf en auth slug st))) \<subseteq> set (sx_rels st)"
proof (cases "sn_spice en")
  case (Some client)
  obtain ok rels where r: "delete_share_with_org client (au_preferred_username auth) (trim slug) (sx_rels st) = (ok, rels)" by fastforce
  then show ?thesis using Some client_shrinks(3) [OF r] by (cases ok) (simp_all add: unshare_with_org_def)
qed (simp add: unshare_with_org_def)

lemma check_view_with_expiry_cases:
  obtains (plain) "snd (check_view_with_expiry pf en client owner viewer st) = st"
      "fst (check_view_with_expiry pf en client owner viewer st) = check_view client owner viewer st"
      "check_view client owner viewer st = Some True \<Longrightarrow> sn_meta_ok en \<Longrightarrow>
         (\<forall>t \<in> set_option (Option.bind (find_meta (pf_lower pf) owner viewer (sx_meta st)) sm_expires_at). t > sn_now en)"
  | (expired) t where "check_view client owner viewer st = Some True" "sn_meta_ok en"
      "Option.bind (find_meta (pf_lower pf) owner viewer (sx_meta st)) sm_expires_at = Some t" "t \<le> sn_now en"
      "check_view_with_expiry pf en client owner viewer st = (Some False, lazy_revoke pf en client owner viewer t st)"
proof (cases "check_view client owner viewer st")
  case None
  then show thesis using that(1) by (simp add: check_view_with_expiry_def)
next
  case (Some allowed)
  let ?e = "Option.bind (find_meta (pf_lower pf) owner viewer (sx_meta st)) sm_expires_at"
  show thesis
  proof (cases "allowed \<and> sn_meta_ok en")
    case True
    show thesis
    proof (cases ?e)
      case None
      then show thesis using that(1) Some True by (simp add: check_view_with_expiry_def)
    next
      case (Some t)
      show thesis
      proof (cases "t > sn_now en")
        case True
        then show thesis using that(1) Some \<open>allowed \<and> sn_meta_ok en\<close> \<open>check_view client owner viewer st = Some allowed\<close>
          by (simp add: check_view_with_expiry_def)
      next
        case False
        then show thesis using that(2) Some \<open>allowed \<and> sn_meta_ok en\<close> \<open>check_view client owner viewer st = Some allowed\<close>
          by (simp add: check_view_with_expiry_def)
      qed
    qed
  next
    case False
    then show thesis using that(1) Some by (cases allowed) (simp_all add: check_view_with_expiry_def)
  qed
qed

lemma lazy_revoke_rels: "set (sx_rels (lazy_revoke pf en client owner viewer t st)) \<subseteq> set (sx_rels st)"
  using client_shrinks(2) [of client owner viewer "sx_rels st"] by (simp add: lazy_revoke_def) (metis prod.collapse)

lemma expiry_rels: "set (sx_rels (snd (check_view_with_expiry pf en client owner viewer st))) \<subseteq> set (sx_rels st)"
  by (cases rule: check_view_with_expiry_cases [of pf en client owner viewer st]) (use lazy_revoke_rels in auto)

lemma emit_share_viewed_fields [simp]:
  "sx_rels (emit_share_viewed pf en auth owner st) = sx_rels st" "sx_meta (emit_share_viewed pf en auth owner st) = sx_meta st"
  "sx_orgs (emit_share_viewed pf en auth owner st) = sx_orgs st" "sx_users (emit_share_viewed pf en auth owner st) = sx_users st"
  "sx_reports (emit_share_viewed pf en auth owner st) = sx_reports st" "sx_events (emit_share_viewed pf en auth owner st) = sx_events st"
  by (simp_all add: emit_share_viewed_def)

text \<open>A friend read ends in the state after its check, up to an audit row.\<close>

lemma friend_summary_state:
  "snd (friend_summary pf en auth owner st) = st \<or>
   (\<exists>client st1. sn_spice en = Some client \<and> st1 = snd (check_view_with_expiry pf en client owner (au_preferred_username auth) st) \<and>
      (snd (friend_summary pf en auth owner st) = st1 \<or> snd (friend_summary pf en auth owner st) = emit_share_viewed pf en auth owner st1))"
proof (cases "validate_handle owner \<and> sn_spice en \<noteq> None")
  case True
  then obtain client where c: "sn_spice en = Some client" by auto
  obtain check st1 where k: "check_view_with_expiry pf en client owner (au_preferred_username auth) st = (check, st1)" by fastforce
  have "snd (friend_summary pf en auth owner st) = st1 \<or> snd (friend_summary pf en auth owner st) = emit_share_viewed pf en auth owner st1"
    using True c k by (simp add: friend_summary_def render_or_404_def Let_def split: option.splits bool.splits)
  then show ?thesis using c k by auto
qed (auto simp: friend_summary_def)

lemma friend_timeline_state:
  "snd (friend_timeline pf en auth owner days st) = st \<or>
   (\<exists>client st1. sn_spice en = Some client \<and> st1 = snd (check_view_with_expiry pf en client owner (au_preferred_username auth) st) \<and>
      (snd (friend_timeline pf en auth owner days st) = st1 \<or>
       snd (friend_timeline pf en auth owner days st) = emit_share_viewed pf en auth owner st1))"
proof (cases "validate_handle owner \<and> resolve_timeline_days days \<noteq> None \<and> sn_spice en \<noteq> None")
  case True
  then obtain client d where c: "sn_spice en = Some client" "resolve_timeline_days days = Some d" by auto
  obtain check st1 where k: "check_view_with_expiry pf en client owner (au_preferred_username auth) st = (check, st1)" by fastforce
  have "snd (friend_timeline pf en auth owner days st) = st1 \<or> snd (friend_timeline pf en auth owner days st) = emit_share_viewed pf en auth owner st1"
    using True c k by (simp add: friend_timeline_def render_or_404_def Let_def split: option.splits bool.splits)
  then show ?thesis using c k by auto
qed (auto simp: friend_timeline_def split: option.splits)

lemma create_org_rels:
  assumes "r \<in> set (sx_rels (snd (create_org pf en auth name st)))" and "r \<notin> set (sx_rels st)"
  shows "\<exists>slug. slug \<notin> og_slug ` set (sx_orgs st) \<and> r = Rel ''organization'' slug ''owner'' ''user'' (au_preferred_username auth)"
proof (cases "trim name \<noteq> [] \<and> slugify (trim name) \<noteq> [] \<and> pf_parse_uuid pf (au_sub auth) \<noteq> None \<and> sn_users_ok en")
  case True
  then obtain uid where u: "pf_parse_uuid pf (au_sub auth) = Some uid" by auto
  obtain res orgs where t: "try_slugs (us_id ` set (sx_users st)) (sn_id en) (sn_now en) (trim name) (slugify (trim name)) uid 0
      (SLUG_COLLISION_MAX + 1) (sx_orgs st) = (res, orgs)" by fastforce
  show ?thesis
  proof (cases res)
    case (Inl e)
    then have "snd (create_org pf en auth name st) = st" using True u t by (cases e) (simp_all add: create_org_def Let_def)
    then show ?thesis using assms by simp
  next
    case (Inr org)
    show ?thesis
    proof (cases "sn_spice en")
      case None
      then have "sx_rels (snd (create_org pf en auth name st)) = sx_rels st"
        using True u t Inr by (simp add: create_org_def Let_def)
      then show ?thesis using assms by simp
    next
      case (Some client)
      obtain ok rels where w: "write_org_role client (og_slug org) (au_preferred_username auth) ''owner'' (sx_rels st) = (ok, rels)" by fastforce
      have "sx_rels (snd (create_org pf en auth name st)) = rels"
        using True u t Inr Some w by (cases ok) (simp_all add: create_org_def Let_def)
      then show ?thesis using client_adds(4) [OF w] assms try_slugs_Inr [OF t [unfolded Inr]] by auto
    qed
  qed
next
  case False
  then have "snd (create_org pf en auth name st) = st"
    by (auto simp: create_org_def Let_def split: option.splits)
  then show ?thesis using assms by simp
qed

lemma delete_org_rels: "set (sx_rels (snd (delete_org pf en auth slug st))) \<subseteq> set (sx_rels st)"
proof -
  have "snd (delete_all_org_relationships client s (sx_rels st)) = rels \<Longrightarrow> set rels \<subseteq> set (sx_rels st)" for client s rels
    using client_shrinks(5) by (metis prod.collapse)
  then show ?thesis by (auto simp: delete_org_def split: option.splits bool.splits)
qed

lemma delete_org_admin_rels: "set (sx_rels (snd (delete_org_admin pf en gate slug st))) \<subseteq> set (sx_rels st)"
proof -
  have "snd (delete_all_org_relationships client s (sx_rels st)) = rels \<Longrightarrow> set rels \<subseteq> set (sx_rels st)" for client s rels
    using client_shrinks(5) by (metis prod.collapse)
  then show ?thesis by (auto simp: delete_org_admin_def split: option.splits sum.splits)
qed

lemma add_member_rels:
  assumes "r \<in> set (sx_rels (snd (add_member pf en auth slug member role st)))" and "r \<notin> set (sx_rels st)"
  shows "\<exists>client new_role u. sn_spice en = Some client \<and> org_check client slug ''manage_members'' auth st = Some True \<and>
    new_role \<in> {''admin'', ''member''} \<and> find_by_handle (pf_lower pf) (trim member) (sx_users st) = Some u \<and>
    r = Rel ''organization'' slug new_role ''user'' (us_claimed_handle u)"
proof (cases "validate_slug slug \<and> validate_handle (trim member) \<and> to_ascii_lowercase (trim role) \<in> {''admin'', ''member''} \<and>
    sn_users_ok en \<and> find_by_handle (pf_lower pf) (trim member) (sx_users st) \<noteq> None \<and> sn_spice en \<noteq> None \<and>
    find_org_by_slug slug (sx_orgs st) \<noteq> None \<and> org_check (the (sn_spice en)) slug ''manage_members'' auth st = Some True")
  case True
  then obtain u org client where c: "find_by_handle (pf_lower pf) (trim member) (sx_users st) = Some u"
    "find_org_by_slug slug (sx_orgs st) = Some org" "sn_spice en = Some client" by auto
  then have slug: "og_slug org = slug" using find_org_by_slug_Some by blast
  obtain ok rels where w: "write_org_role client slug (us_claimed_handle u) (to_ascii_lowercase (trim role)) (sx_rels st) = (ok, rels)"
    by fastforce
  have "sx_rels (snd (add_member pf en auth slug member role st)) = rels"
    using True c slug w by (cases ok) (auto simp: add_member_def Let_def)
  then show ?thesis using client_adds(4) [OF w] assms c True by auto
next
  case False
  have "snd (add_member pf en auth slug member role st) = st"
  proof (cases "find_org_by_slug slug (sx_orgs st)")
    case None
    then show ?thesis by (simp add: add_member_def Let_def split: option.splits)
  next
    case (Some org)
    then have "og_slug org = slug" using find_org_by_slug_Some by blast
    then show ?thesis using Some False by (auto simp: add_member_def Let_def split: option.splits bool.splits)
  qed
  then show ?thesis using assms by simp
qed

lemma remove_member_rels: "set (sx_rels (snd (remove_member pf en auth slug member st))) \<subseteq> set (sx_rels st)"
proof (cases "validate_slug slug \<and> validate_handle member \<and> sn_users_ok en \<and> sn_spice en \<noteq> None \<and>
    find_org_by_slug slug (sx_orgs st) \<noteq> None \<and>
    org_check (the (sn_spice en)) (og_slug (the (find_org_by_slug slug (sx_orgs st)))) ''manage_members'' auth st = Some True")
  case True
  then obtain org client where c: "find_org_by_slug slug (sx_orgs st) = Some org" "sn_spice en = Some client" by auto
  obtain ok rels where w: "delete_org_member_all_roles client (og_slug org) member (sx_rels st) = (ok, rels)" by fastforce
  have "sx_rels (snd (remove_member pf en auth slug member st)) = rels"
    using True c w by (cases ok) (simp_all add: remove_member_def)
  then show ?thesis using client_shrinks(4) [OF w] by simp
next
  case False
  then have "snd (remove_member pf en auth slug member st) = st"
    by (auto simp: remove_member_def split: option.splits bool.splits)
  then show ?thesis by simp
qed

lemma cluster_fields [simp]:
  "sx_rels (check_cross_report_cluster pf en h st) = sx_rels st" "sx_meta (check_cross_report_cluster pf en h st) = sx_meta st"
  "sx_orgs (check_cross_report_cluster pf en h st) = sx_orgs st" "sx_reports (check_cross_report_cluster pf en h st) = sx_reports st"
  "sx_events (check_cross_report_cluster pf en h st) = sx_events st"
  by (simp_all add: check_cross_report_cluster_def Let_def)

text \<open>The row a report adds, and the state it leaves.\<close>

definition reported_row ::
    "share_env \<Rightarrow> authenticated_user \<Rightarrow> string \<Rightarrow> string \<Rightarrow> share_report_reason \<Rightarrow> string option \<Rightarrow> share_report" where
  "reported_row en auth owner recipient reason details =
     \<lparr>sp_id = sn_id en, sp_reporter_handle = au_preferred_username auth, sp_owner_handle = owner, sp_recipient_handle = recipient,
      sp_reason = reason, sp_details = nonblank details, sp_status = Open, sp_created_at = sn_now en, sp_resolved_at = None,
      sp_resolved_by = None, sp_resolution_note = None\<rparr>"

definition after_report ::
    "platform \<Rightarrow> share_env \<Rightarrow> authenticated_user \<Rightarrow> share_report \<Rightarrow> share_state \<Rightarrow> share_state" where
  "after_report pf en auth row st = check_cross_report_cluster pf en (sp_owner_handle row)
     (audit_as pf en auth ''share.reported''
        (JObject [(''report_id'', JString (sp_id row)), (''owner_handle'', JString (sp_owner_handle row)),
           (''recipient_handle'', JString (sp_recipient_handle row)), (''reason'', JString (report_reason_as_str (sp_reason row)))])
        (st\<lparr>sx_reports := sx_reports st @ [row]\<rparr>))"

lemma after_report_fields [simp]:
  "sx_rels (after_report pf en auth row st) = sx_rels st" "sx_meta (after_report pf en auth row st) = sx_meta st"
  "sx_orgs (after_report pf en auth row st) = sx_orgs st" "sx_events (after_report pf en auth row st) = sx_events st"
  "sx_reports (after_report pf en auth row st) = sx_reports st @ [row]"
  by (simp_all add: after_report_def)

lemma report_share_state:
  "snd (report_share pf en auth owner recipient reason details st) = st \<or>
   (\<exists>rs. sn_id en \<notin> sp_id ` set (sx_reports st) \<and>
     snd (report_share pf en auth owner recipient reason details st) =
       after_report pf en auth (reported_row en auth owner recipient rs details) st)"
proof (cases "report_reason_parse reason")
  case (Some rs)
  show ?thesis
  proof (cases "sn_id en \<in> sp_id ` set (sx_reports st)")
    case True
    then show ?thesis using Some by (simp add: report_share_def Let_def create_report_def)
  next
    case False
    then have c: "create_report (sn_id en) (sn_now en) (au_preferred_username auth) owner recipient rs (nonblank details) (sx_reports st) =
        (Inr (reported_row en auth owner recipient rs details), sx_reports st @ [reported_row en auth owner recipient rs details])"
      by (simp add: create_report_def reported_row_def Let_def)
    have "snd (report_share pf en auth owner recipient reason details st) = st \<or>
        snd (report_share pf en auth owner recipient reason details st) =
          after_report pf en auth (reported_row en auth owner recipient rs details) st"
      by (simp add: report_share_def Some c Let_def after_report_def)
    then show ?thesis using False by blast
  qed
qed (simp add: report_share_def)

lemma resolve_report_fields [simp]:
  "sx_rels (snd (resolve_report pf en gate i outcome note st)) = sx_rels st"
  "sx_meta (snd (resolve_report pf en gate i outcome note st)) = sx_meta st"
  "sx_orgs (snd (resolve_report pf en gate i outcome note st)) = sx_orgs st"
  "sx_users (snd (resolve_report pf en gate i outcome note st)) = sx_users st"
  "sx_events (snd (resolve_report pf en gate i outcome note st)) = sx_events st"
  by (auto simp: resolve_report_def split: option.splits sum.splits share_report_error.splits prod.splits)

lemma friend_read_rels:
  "set (sx_rels (snd (friend_summary pf en auth owner st))) \<subseteq> set (sx_rels st)"
  "set (sx_rels (snd (friend_timeline pf en auth owner days st))) \<subseteq> set (sx_rels st)"
  using friend_summary_state [of pf en auth owner st] friend_timeline_state [of pf en auth owner days st] expiry_rels by fastforce+

lemma add_share_rels:
  assumes "r \<in> set (sx_rels (snd (add_share pf en auth req st)))" and "r \<notin> set (sx_rels st)"
  shows "\<exists>u. find_by_handle (pf_lower pf) (trim (rq_recipient_handle req)) (sx_users st) = Some u \<and>
    r = Rel ''stats_record'' (au_preferred_username auth) ''share_with_user'' ''user'' (us_claimed_handle u)"
proof (cases rule: add_share_cases [of pf en auth req st])
  case refused
  then show ?thesis using assms by auto
next
  case (granted u scope)
  then show ?thesis using assms grant_share_rels [of pf en auth "us_claimed_handle u" _ _ scope st] by auto
qed

text \<open>A sign-up changes nothing or adds one account, under a handle nobody had.\<close>

lemma create_user_Inr:
  "create_user lower i now email phc h tbl = (Inr u, tbl') \<Longrightarrow>
     find_by_handle lower h tbl = None \<and> find_by_id i tbl = None \<and> tbl' = tbl @ [u] \<and> us_id u = i \<and> us_claimed_handle u = h"
  by (auto simp: create_user_def Let_def find_by_handle_def find_by_id_def find_None_iff split: if_splits) force+

lemma create_user_Inl: "create_user lower i now email phc h tbl = (Inl e, tbl') \<Longrightarrow> tbl' = tbl"
  by (auto simp: create_user_def Let_def split: if_splits)

lemma signup_cases:
  obtains (refused) "snd (signup pf d email password h ac) = ac"
  | (created) u where "find_by_handle (pf_lower pf) h (ac_users ac) = None" "find_by_id (dw_id d) (ac_users ac) = None"
      "us_id u = dw_id d" "us_claimed_handle u = h" "ac_users (snd (signup pf d email password h ac)) = ac_users ac @ [u]"
      "ac_events (snd (signup pf d email password h ac)) = ac_events ac" "ac_audit (snd (signup pf d email password h ac)) = ac_audit ac"
proof (cases "validate_signup email password h = None \<and> (\<exists>phc. hash_password (pf_hasher pf) password = Inr phc)")
  case True
  then obtain phc where phc: "hash_password (pf_hasher pf) password = Inr phc" by blast
  obtain res tbl where c: "create_user (pf_lower pf) (dw_id d) (dw_now d) email phc h (ac_users ac) = (res, tbl)" by fastforce
  show thesis
  proof (cases res)
    case (Inl e)
    then show thesis using refused True phc c create_user_Inl [of "pf_lower pf"] by (cases e) (simp_all add: signup_def)
  next
    case (Inr u)
    note new = create_user_Inr [OF c [unfolded Inr]]
    obtain set_ok tbl' where t: "set_verification_token (us_id u) (dw_token d) (dw_now d + VERIFICATION_TOKEN_TTL) (dw_now d) tbl = (set_ok, tbl')"
      by fastforce
    define v where "v = last tbl'"
    have tbl': "tbl' = ac_users ac @ [v] \<and> us_id v = dw_id d \<and> us_claimed_handle v = h"
      using t new by (auto simp: v_def set_verification_token_def update_user_def find_by_id_def find_None_iff map_idI split: if_splits)
    show thesis
      by (rule created [of v]) (use True phc c Inr t new tbl' in \<open>auto simp: signup_def send_mail_def split: sum.split\<close>)
  qed
qed (use refused in \<open>auto simp: signup_def split: option.splits sum.splits\<close>)

lemma accounts_of_simps [simp]:
  "ac_users (accounts_of st) = sx_users st" "ac_events (accounts_of st) = sx_events st" "ac_audit (accounts_of st) = sx_audit st"
  by (simp_all add: accounts_of_def)

lemma with_accounts_fields [simp]:
  "sx_users (with_accounts ac st) = ac_users ac" "sx_events (with_accounts ac st) = ac_events ac" "sx_audit (with_accounts ac st) = ac_audit ac"
  "sx_orgs (with_accounts ac st) = sx_orgs st" "sx_rels (with_accounts ac st) = sx_rels st" "sx_meta (with_accounts ac st) = sx_meta st"
  "sx_reports (with_accounts ac st) = sx_reports st"
  by (simp_all add: with_accounts_def)

lemma signup_owner_fields [simp]:
  "sx_orgs (snd (signup_owner pf en d email password h st)) = sx_orgs st" "sx_meta (snd (signup_owner pf en d email password h st)) = sx_meta st"
  "sx_reports (snd (signup_owner pf en d email password h st)) = sx_reports st"
  "sx_audit (snd (signup_owner pf en d email password h st)) = sx_audit st"
  by (cases rule: signup_cases [of pf d email password h "accounts_of st"];
      simp add: signup_owner_def case_prod_beta Let_def split: option.split)+

lemma find_by_id_new: "find_by_id i users = None \<Longrightarrow> us_id u = i \<Longrightarrow> find_by_id i (users @ [u]) = Some u"
  by (induction users) (auto simp: find_by_id_def split: if_splits)

lemma signup_owner_rels:
  assumes "r \<in> set (sx_rels (snd (signup_owner pf en d email password h st)))" and "r \<notin> set (sx_rels st)"
  shows "find_by_handle (pf_lower pf) h (sx_users st) = None \<and> r = Rel ''stats_record'' h ''owner'' ''user'' h"
proof (cases rule: signup_cases [of pf d email password h "accounts_of st"])
  case refused
  then show ?thesis using assms by (auto simp: signup_owner_def case_prod_beta Let_def split: option.splits if_splits)
next
  case (created u)
  then have f: "find_by_id (dw_id d) (sx_users st @ [u]) = Some u" by (simp add: find_by_id_new)
  show ?thesis
  proof (cases "sn_spice en")
    case (Some client)
    obtain ok rels where w: "write_owner client h (sx_rels st) = (ok, rels)" by fastforce
    then show ?thesis using assms created f Some client_adds(5) [OF w]
      by (auto simp: signup_owner_def case_prod_beta Let_def)
  qed (use assms created f in \<open>auto simp: signup_owner_def case_prod_beta Let_def\<close>)
qed

lemma delete_account_orgs_fields [simp]:
  "sx_rels (snd (delete_account_orgs pf d auth confirm st)) = sx_rels st" "sx_meta (snd (delete_account_orgs pf d auth confirm st)) = sx_meta st"
  "sx_reports (snd (delete_account_orgs pf d auth confirm st)) = sx_reports st"
  by (simp_all add: delete_account_orgs_def case_prod_beta Let_def)

text \<open>A step adds no relationship but those of \<open>adds\<close>.\<close>

lemma step_adds:
  assumes "r \<in> set (sx_rels (share_step pf en auth op st))" and "r \<notin> set (sx_rels st)"
  shows "adds pf en auth op st r"
proof (cases op)
  case (SetVisibility public)
  then show ?thesis using assms set_visibility_rels [of pf en auth public st] by (cases public) (auto intro: adds.publish)
next
  case (AddShare req)
  then show ?thesis using assms add_share_rels [of r pf en auth req st] by (auto intro: adds.share)
next
  case (DeleteShare recipient)
  then show ?thesis using assms delete_share_rels [of pf en auth recipient st] by auto
next
  case (ShareWithOrg slug)
  then show ?thesis using assms share_with_org_rels [of r pf en auth slug st] by (auto intro: adds.share_org)
next
  case (UnshareWithOrg slug)
  then show ?thesis using assms unshare_with_org_rels [of pf en auth slug st] by auto
next
  case (FriendSummary owner)
  then show ?thesis using assms friend_read_rels(1) [of pf en auth owner st] by auto
next
  case (FriendTimeline owner days)
  then show ?thesis using assms friend_read_rels(2) [of pf en auth owner days st] by auto
next
  case (ReportShare owner recipient reason details)
  then show ?thesis using assms report_share_state [of pf en auth owner recipient reason details st] by auto
next
  case (CreateOrg name)
  then show ?thesis using assms create_org_rels [of r pf en auth name st] by (auto intro: adds.found)
next
  case (DeleteOrg slug)
  then show ?thesis using assms delete_org_rels [of pf en auth slug st] by auto
next
  case (AddMember slug member role)
  then show ?thesis using assms add_member_rels [of r pf en auth slug member role st] by (auto intro: adds.enrol)
next
  case (RemoveMember slug member)
  then show ?thesis using assms remove_member_rels [of pf en auth slug member st] by auto
next
  case (DeleteOrgAdmin gate slug)
  then show ?thesis using assms delete_org_admin_rels [of pf en gate slug st] by auto
next
  case (ResolveReport gate i outcome nt)
  then show ?thesis using assms by auto
next
  case (SignUp d email password h)
  then show ?thesis using assms signup_owner_rels [of r pf en d email password h st] by (auto intro: adds.own)
next
  case (CloseAccount d confirm)
  then show ?thesis using assms by auto
qed

end
