(* ===== verification/Sharing_Props.thy ===== *)
theory Sharing_Props
  imports Sharing_Steps Accounts
begin

text \<open>
  Properties of the sharing surface: the invariant of its tables, who can come to see a record, what a
  read of a shared record shows, and what the abuse signals and the roles of organizations really do.
\<close>

section \<open>Who can come to see a record\<close>

inductive_cases adds_stats: "adds pf en auth op st (Rel ''stats_record'' i rel t s)"
inductive_cases adds_org: "adds pf en auth op st (Rel ''organization'' i rel t s)"

lemma adds_stats_cases:
  assumes "adds pf en auth op st (Rel ''stats_record'' owner rel t s)"
  shows "(\<exists>d email password. op = SignUp d email password owner) \<and> find_by_handle (pf_lower pf) owner (sx_users st) = None \<and>
      rel = ''owner'' \<and> t = ''user'' \<and> s = owner \<or>
    owner = au_preferred_username auth \<and>
    (op = SetVisibility True \<and> rel = ''public_view'' \<and> t = ''user'' \<and> s = ''*'' \<or>
     (\<exists>req u. op = AddShare req \<and> find_by_handle (pf_lower pf) (trim (rq_recipient_handle req)) (sx_users st) = Some u \<and>
        rel = ''share_with_user'' \<and> t = ''user'' \<and> s = us_claimed_handle u) \<or>
     (\<exists>slug org. op = ShareWithOrg slug \<and> find_org_by_slug (trim slug) (sx_orgs st) = Some org \<and>
        rel = ''share_with_org'' \<and> t = ''organization'' \<and> s = og_slug org))"
  using assms by (rule adds_stats) auto

lemma adds_org_cases:
  assumes "adds pf en auth op st (Rel ''organization'' slug rel t s)"
  shows "t = ''user'' \<and>
    ((\<exists>name. op = CreateOrg name \<and> slug \<notin> og_slug ` set (sx_orgs st) \<and> rel = ''owner'' \<and> s = au_preferred_username auth) \<or>
     (\<exists>member role client u. op = AddMember slug member role \<and> sn_spice en = Some client \<and>
        org_check client slug ''manage_members'' auth st = Some True \<and> rel \<in> {''admin'', ''member''} \<and>
        find_by_handle (pf_lower pf) (trim member) (sx_users st) = Some u \<and> s = us_claimed_handle u))"
  using assms by (rule adds_org) auto

lemma org_view_related:
  "org_permission rels slug ''view'' user \<longleftrightarrow> (\<exists>role \<in> {''member'', ''admin'', ''owner''}. Rel ''organization'' slug role ''user'' user \<in> set rels)"
  by (auto simp: org_permission_def related_def)

text \<open>
  C14. Nobody comes to see a record but by the owner's doing or through an organization it is shared
  with: when a request makes a viewer able to see a record he could not see, then the owner sent it and
  it published the record, shared it with exactly that viewer, or shared it with an organization the
  viewer belongs to; or a manager of an organization the record is already shared with enrolled the
  viewer; or the viewer founded an organization under a slug to which, with no such organization in the
  table, the record was still shared; or it is the record of the viewer's own handle, which nobody had
  and which a sign-up took.
\<close>

theorem view_gained_only_by:
  assumes "stats_view (sx_rels (share_step pf en auth op st)) owner viewer" and "\<not> stats_view (sx_rels st) owner viewer"
  shows "owner = au_preferred_username auth \<and>
     (op = SetVisibility True \<or>
      (\<exists>req u. op = AddShare req \<and> find_by_handle (pf_lower pf) (trim (rq_recipient_handle req)) (sx_users st) = Some u \<and>
         us_claimed_handle u = viewer) \<or>
      (\<exists>slug org. op = ShareWithOrg slug \<and> find_org_by_slug (trim slug) (sx_orgs st) = Some org \<and>
         org_permission (sx_rels st) (og_slug org) ''view'' viewer)) \<or>
    (\<exists>slug member role client u. op = AddMember slug member role \<and> sn_spice en = Some client \<and>
       org_check client slug ''manage_members'' auth st = Some True \<and>
       Rel ''stats_record'' owner ''share_with_org'' ''organization'' slug \<in> set (sx_rels st) \<and>
       find_by_handle (pf_lower pf) (trim member) (sx_users st) = Some u \<and> us_claimed_handle u = viewer) \<or>
    (\<exists>name slug. op = CreateOrg name \<and> viewer = au_preferred_username auth \<and> slug \<notin> og_slug ` set (sx_orgs st) \<and>
       Rel ''stats_record'' owner ''share_with_org'' ''organization'' slug \<in> set (sx_rels st)) \<or>
    (\<exists>d email password. op = SignUp d email password owner \<and> viewer = owner \<and>
       find_by_handle (pf_lower pf) owner (sx_users st) = None)"
proof -
  let ?old = "sx_rels st" and ?new = "sx_rels (share_step pf en auth op st)"
  note new = step_adds [of _ pf en auth op st]
  have no: "\<not> related ?old ''stats_record'' owner ''owner'' viewer" "\<not> related ?old ''stats_record'' owner ''share_with_user'' viewer"
    "\<not> related ?old ''stats_record'' owner ''public_view'' ''*''"
    "\<And>slug. Rel ''stats_record'' owner ''share_with_org'' ''organization'' slug \<in> set ?old \<Longrightarrow> \<not> org_permission ?old slug ''view'' viewer"
    using assms(2) by (auto simp: stats_view_iff)
  consider (owner) "related ?new ''stats_record'' owner ''owner'' viewer" | (user) "related ?new ''stats_record'' owner ''share_with_user'' viewer"
    | (org) slug role where "Rel ''stats_record'' owner ''share_with_org'' ''organization'' slug \<in> set ?new"
        "Rel ''organization'' slug role ''user'' viewer \<in> set ?new" "role \<in> {''member'', ''admin'', ''owner''}"
    | (public) "related ?new ''stats_record'' owner ''public_view'' ''*''"
    using assms(1) unfolding stats_view_iff org_view_related by blast
  then show ?thesis
  proof cases
    case owner
    then show ?thesis using no adds_stats_cases [OF new [OF owner [unfolded related_def]]] by (auto simp: related_def)
  next
    case user
    then show ?thesis using no adds_stats_cases [OF new [OF user [unfolded related_def]]] by (auto simp: related_def)
  next
    case public
    then show ?thesis using no adds_stats_cases [OF new [OF public [unfolded related_def]]] by (auto simp: related_def)
  next
    case org
    show ?thesis
    proof (cases "Rel ''stats_record'' owner ''share_with_org'' ''organization'' slug \<in> set ?old")
      case True
      then have "Rel ''organization'' slug role ''user'' viewer \<notin> set ?old" using no(4) org(3) org_view_related by blast
      from adds_org_cases [OF new [OF org(2) this]] show ?thesis using True by auto
    next
      case False
      note a = adds_stats_cases [OF new [OF org(1) False]]
      then have "Rel ''organization'' slug role ''user'' viewer \<in> set ?old"
        using adds_org_cases [OF new [OF org(2)]] by auto
      then have "org_permission ?old slug ''view'' viewer" using org(3) org_view_related by blast
      then show ?thesis using a by auto
    qed
  qed
qed

section \<open>A small world\<close>

definition sample_service :: spice_service where
  "sample_service = \<lparr>sp_writes = 9, sp_read = Some, sp_wildcard_checks = True\<rparr>"

definition sharing_env :: "uuid \<Rightarrow> micros \<Rightarrow> share_env" where
  "sharing_env i now = \<lparr>sn_spice = Some sample_service, sn_users_ok = True, sn_meta_ok = True, sn_reports_ok = True,
     sn_audit_append_ok = True, sn_audit_query_ok = True, sn_query_ok = True, sn_now = now, sn_id = i,
     sn_rfc3339 = (\<lambda>_. []), sn_ilike = (\<lambda>a b. a = b), sn_scope_from_str = (\<lambda>_. None)\<rparr>"

definition sharing_pf :: platform where
  "sharing_pf = sample_pf\<lparr>pf_lower := to_ascii_lowercase\<rparr>"

definition sample_pilot :: "string \<Rightarrow> user" where
  "sample_pilot h = sample_account\<lparr>us_id := h, us_claimed_handle := h, us_rsi_verified_at := Some 0, us_shares_paused_until := None\<rparr>"

definition signed_in :: "string \<Rightarrow> authenticated_user" where
  "signed_in h = \<lparr>au_sub = h, au_preferred_username = h, au_token_type = User, au_device_id = None\<rparr>"

definition sample_sharing :: "relationships \<Rightarrow> share_state" where
  "sample_sharing rels = \<lparr>sx_users = [sample_pilot ''alice'', sample_pilot ''bob'', sample_pilot ''carol''], sx_orgs = [], sx_rels = rels,
     sx_meta = [], sx_reports = [], sx_audit = \<lparr>at_rows = [], at_next_seq = 1\<rparr>, sx_events = sample_table\<rparr>"

definition request_for :: "string \<Rightarrow> share_request" where
  "request_for h = \<lparr>rq_recipient_handle = h, rq_expires_at = None, rq_note = None, rq_scope = None\<rparr>"

lemma sharing_pf_simps [simp]:
  "pf_lower sharing_pf = to_ascii_lowercase" "pf_parse_uuid sharing_pf = Some" "pf_sha256 sharing_pf = (\<lambda>s. s)"
  "pf_to_vec sharing_pf = (\<lambda>_. [])"
  by (simp_all add: sharing_pf_def sample_pf_def)

lemma signed_in_simps [simp]: "au_sub (signed_in h) = h" "au_preferred_username (signed_in h) = h"
  by (simp_all add: signed_in_def)

lemma sample_pilot_simps [simp]:
  "us_id (sample_pilot h) = h" "us_claimed_handle (sample_pilot h) = h" "us_rsi_verified_at (sample_pilot h) = Some 0"
  "us_shares_paused_until (sample_pilot h) = None"
  by (simp_all add: sample_pilot_def)

lemma sharing_env_simps [simp]:
  "sn_spice (sharing_env i now) = Some sample_service" "sn_users_ok (sharing_env i now)" "sn_meta_ok (sharing_env i now)"
  "sn_reports_ok (sharing_env i now)" "sn_audit_append_ok (sharing_env i now)" "sn_audit_query_ok (sharing_env i now)"
  "sn_query_ok (sharing_env i now)" "sn_now (sharing_env i now) = now" "sn_id (sharing_env i now) = i"
  by (simp_all add: sharing_env_def)

lemma sample_service_simps [simp]:
  "sp_writes sample_service = 9" "sp_read sample_service = Some" "sp_wildcard_checks sample_service"
  by (simp_all add: sample_service_def)

lemma sample_valid_handles: "validate_handle ''alice''" "validate_handle ''bob''" "validate_handle ''carol''" "trim ''bob'' = ''bob''"
  "trim ''carol'' = ''carol''" "trim ''Bob'' = ''Bob''" "validate_handle ''Bob''"
  by code_simp+

lemma sample_rsi: "h \<in> {''alice'', ''bob'', ''carol''} \<Longrightarrow> require_rsi_verified sharing_pf (sharing_env i now) (signed_in h) (sample_sharing rels) = None"
  by (auto simp: require_rsi_verified_def sample_sharing_def find_by_id_def)

lemma sample_lowers: "to_ascii_lowercase ''alice'' = ''alice''" "to_ascii_lowercase ''bob'' = ''bob''" "to_ascii_lowercase ''carol'' = ''carol''"
  "to_ascii_lowercase ''Bob'' = ''bob''"
  by code_simp+

lemma sample_found:
  "find_by_handle to_ascii_lowercase ''alice'' (sx_users (sample_sharing rels)) = Some (sample_pilot ''alice'')"
  "find_by_handle to_ascii_lowercase ''bob'' (sx_users (sample_sharing rels)) = Some (sample_pilot ''bob'')"
  by (simp_all add: sample_sharing_def find_by_handle_def sample_lowers)

lemma sample_rapid: "check_rapid_grant sharing_pf (sharing_env i now) auth (sample_sharing rels) = (None, sample_sharing rels)"
  by (simp add: check_rapid_grant_def sample_sharing_def list_entries_def RAPID_GRANT_THRESHOLD_def)

theorem view_gained_only_by_witness:
  "\<exists>req u. AddShare (request_for ''bob'') = AddShare req \<and>
     find_by_handle to_ascii_lowercase (trim (rq_recipient_handle req)) (sx_users (sample_sharing [])) = Some u \<and> us_claimed_handle u = ''bob''"
proof -
  have "share_step sharing_pf (sharing_env ''r1'' 5) (signed_in ''alice'') (AddShare (request_for ''bob'')) (sample_sharing []) =
      snd (grant_share sharing_pf (sharing_env ''r1'' 5) (signed_in ''alice'') ''bob'' None None None (sample_sharing []))"
    by (simp add: add_share_def sample_rsi sample_found sample_valid_handles sample_rapid request_for_def get_shares_paused_until_by_handle_def
        eq_ignore_ascii_case_def sample_lowers stored_scope_def nonblank_def)
  then have "stats_view (sx_rels (share_step sharing_pf (sharing_env ''r1'' 5) (signed_in ''alice'') (AddShare (request_for ''bob''))
      (sample_sharing []))) ''alice'' ''bob''"
    by (simp add: grant_share_def write_share_with_user_def run_writes_single stats_view_iff related_def)
  moreover have "\<not> stats_view (sx_rels (sample_sharing [])) ''alice'' ''bob''" by code_simp
  ultimately show ?thesis
    using view_gained_only_by [of sharing_pf "sharing_env ''r1'' 5" "signed_in ''alice''" "AddShare (request_for ''bob'')" "sample_sharing []" "''alice''" "''bob''"]
    by (simp add: sharing_pf_def)
qed

section \<open>Which tables a request leaves alone\<close>

lemma visibility_fields [simp]:
  "sx_orgs (snd (set_visibility pf en auth public st)) = sx_orgs st" "sx_meta (snd (set_visibility pf en auth public st)) = sx_meta st"
  "sx_reports (snd (set_visibility pf en auth public st)) = sx_reports st"
  by (simp_all add: set_visibility_def split: option.split prod.split bool.split)

lemma grant_fields [simp]:
  "sx_orgs (snd (grant_share pf en auth recipient e n sc st)) = sx_orgs st"
  "sx_reports (snd (grant_share pf en auth recipient e n sc st)) = sx_reports st"
  by (simp_all add: grant_share_def split: option.split prod.split bool.split)

lemma add_share_fields [simp]:
  "sx_orgs (snd (add_share pf en auth req st)) = sx_orgs st" "sx_reports (snd (add_share pf en auth req st)) = sx_reports st"
  by (cases rule: add_share_cases [of pf en auth req st]; auto)+

lemma delete_share_fields [simp]:
  "sx_orgs (snd (delete_share pf en auth recipient st)) = sx_orgs st"
  "sx_reports (snd (delete_share pf en auth recipient st)) = sx_reports st"
  by (simp_all add: delete_share_def Let_def split: option.split prod.split bool.split)

lemma org_share_fields [simp]:
  "sx_orgs (snd (share_with_org pf en auth slug st)) = sx_orgs st" "sx_meta (snd (share_with_org pf en auth slug st)) = sx_meta st"
  "sx_reports (snd (share_with_org pf en auth slug st)) = sx_reports st"
  "sx_orgs (snd (unshare_with_org pf en auth slug st)) = sx_orgs st" "sx_meta (snd (unshare_with_org pf en auth slug st)) = sx_meta st"
  "sx_reports (snd (unshare_with_org pf en auth slug st)) = sx_reports st"
  by (simp_all add: share_with_org_def unshare_with_org_def split: option.split prod.split bool.split)

lemma expiry_fields [simp]:
  "sx_orgs (snd (check_view_with_expiry pf en client owner viewer st)) = sx_orgs st"
  "sx_reports (snd (check_view_with_expiry pf en client owner viewer st)) = sx_reports st"
  by (cases rule: check_view_with_expiry_cases [of pf en client owner viewer st]; simp add: lazy_revoke_def)+

lemma friend_fields [simp]:
  "sx_orgs (snd (friend_summary pf en auth owner st)) = sx_orgs st" "sx_reports (snd (friend_summary pf en auth owner st)) = sx_reports st"
  "sx_orgs (snd (friend_timeline pf en auth owner days st)) = sx_orgs st"
  "sx_reports (snd (friend_timeline pf en auth owner days st)) = sx_reports st"
  using friend_summary_state [of pf en auth owner st] friend_timeline_state [of pf en auth owner days st] by auto

lemma report_fields [simp]:
  "sx_orgs (snd (report_share pf en auth owner recipient reason details st)) = sx_orgs st"
  "sx_meta (snd (report_share pf en auth owner recipient reason details st)) = sx_meta st"
  using report_share_state [of pf en auth owner recipient reason details st] by auto

lemma member_fields [simp]:
  "sx_orgs (snd (add_member pf en auth slug member role st)) = sx_orgs st" "sx_meta (snd (add_member pf en auth slug member role st)) = sx_meta st"
  "sx_reports (snd (add_member pf en auth slug member role st)) = sx_reports st"
  "sx_orgs (snd (remove_member pf en auth slug member st)) = sx_orgs st" "sx_meta (snd (remove_member pf en auth slug member st)) = sx_meta st"
  "sx_reports (snd (remove_member pf en auth slug member st)) = sx_reports st"
  by (simp_all add: add_member_def remove_member_def Let_def split: option.split prod.split bool.split)

lemma org_fields [simp]:
  "sx_meta (snd (create_org pf en auth name st)) = sx_meta st" "sx_reports (snd (create_org pf en auth name st)) = sx_reports st"
  "sx_meta (snd (delete_org pf en auth slug st)) = sx_meta st" "sx_reports (snd (delete_org pf en auth slug st)) = sx_reports st"
  "sx_meta (snd (delete_org_admin pf en gate slug st)) = sx_meta st"
  "sx_reports (snd (delete_org_admin pf en gate slug st)) = sx_reports st"
  by (simp_all add: create_org_def delete_org_def delete_org_admin_def Let_def
      split: option.split prod.split bool.split sum.split org_error.split)

section \<open>The invariant of the tables\<close>

definition tables_ok :: "platform \<Rightarrow> share_state \<Rightarrow> bool" where
  "tables_ok pf st \<longleftrightarrow> orgs_ok (sx_orgs st) \<and> meta_ok (pf_lower pf) (sx_meta st) \<and> distinct (map sp_id (sx_reports st)) \<and>
     list_all (\<lambda>r. (sp_status r = Open) = (sp_resolved_at r = None) \<and> (sp_resolved_at r = None) = (sp_resolved_by r = None)) (sx_reports st)"

text \<open>Founding an organization: nothing changed in the table, or one row with a valid free slug added.\<close>

lemma create_org_orgs:
  "sx_orgs (snd (create_org pf en auth name st)) = sx_orgs st \<or>
   (\<exists>org k. sx_orgs (snd (create_org pf en auth name st)) = sx_orgs st @ [org] \<and> og_slug org \<notin> og_slug ` set (sx_orgs st) \<and>
      og_id org \<notin> og_id ` set (sx_orgs st) \<and> k \<le> SLUG_COLLISION_MAX \<and>
      og_slug org = (if k = 0 then slugify (trim name) else slug_with_suffix (slugify (trim name)) (k + 1)) \<and> slugify (trim name) \<noteq> [] \<and>
      fst (create_org pf en auth name st) = CreateOrgResponse org)"
proof (cases "trim name \<noteq> [] \<and> slugify (trim name) \<noteq> [] \<and> pf_parse_uuid pf (au_sub auth) \<noteq> None \<and> sn_users_ok en")
  case True
  then obtain uid where u: "pf_parse_uuid pf (au_sub auth) = Some uid" by auto
  obtain res orgs where t: "try_slugs (us_id ` set (sx_users st)) (sn_id en) (sn_now en) (trim name) (slugify (trim name)) uid 0
      (SLUG_COLLISION_MAX + 1) (sx_orgs st) = (res, orgs)" by fastforce
  show ?thesis
  proof (cases res)
    case (Inl e)
    then show ?thesis using True u t by (cases e) (simp_all add: create_org_def Let_def)
  next
    case (Inr org)
    note new = try_slugs_Inr [OF t [unfolded Inr]]
    then have gone: "delete_org_by_id (og_id org) orgs = sx_orgs st" by (force simp: delete_org_by_id_def filter_id_conv)
    show ?thesis
    proof (cases "sn_spice en")
      case None
      then show ?thesis using True u t Inr gone by (simp add: create_org_def Let_def)
    next
      case (Some client)
      obtain ok rels where w: "write_org_role client (og_slug org) (au_preferred_username auth) ''owner'' (sx_rels st) = (ok, rels)" by fastforce
      show ?thesis
      proof (cases ok)
        case True
        have "sx_orgs (snd (create_org pf en auth name st)) = orgs" "fst (create_org pf en auth name st) = CreateOrgResponse org"
          using \<open>trim name \<noteq> [] \<and> _\<close> u t Inr Some w True by (simp_all add: create_org_def Let_def)
        then show ?thesis using new \<open>trim name \<noteq> [] \<and> _\<close> by (metis add_0 less_Suc_eq_le Suc_eq_plus1)
      next
        case False
        then show ?thesis using \<open>trim name \<noteq> [] \<and> _\<close> u t Inr Some w gone by (simp add: create_org_def Let_def)
      qed
    qed
  qed
next
  case False
  then have "snd (create_org pf en auth name st) = st"
    by (auto simp: create_org_def Let_def split: option.splits)
  then show ?thesis by simp
qed

lemma candidate_valid:
  assumes "slugify name \<noteq> []" and "k \<le> SLUG_COLLISION_MAX"
  shows "validate_slug (if k = 0 then slugify name else slug_with_suffix (slugify name) (k + 1))"
proof -
  have "slug_normal (slugify name)" by (rule slugify_normal)
  then show ?thesis using slug_with_suffix_valid [of "slugify name" "k + 1"] slug_normal_valid assms by (simp add: SLUG_COLLISION_MAX_def)
qed

lemma create_org_ok:
  assumes "orgs_ok (sx_orgs st)"
  shows "orgs_ok (sx_orgs (snd (create_org pf en auth name st)))"
  using create_org_orgs [of pf en auth name st]
proof (elim disjE exE conjE)
  fix org k
  assume o: "sx_orgs (snd (create_org pf en auth name st)) = sx_orgs st @ [org]" "og_slug org \<notin> og_slug ` set (sx_orgs st)"
    "og_id org \<notin> og_id ` set (sx_orgs st)" "k \<le> SLUG_COLLISION_MAX" "slugify (trim name) \<noteq> []"
    "og_slug org = (if k = 0 then slugify (trim name) else slug_with_suffix (slugify (trim name)) (k + 1))"
  have "validate_slug (og_slug org)" unfolding o(6) by (rule candidate_valid [OF o(5,4)])
  then show ?thesis using assms o(1-3) by (simp add: orgs_ok_def)
qed (simp add: assms)

lemma delete_org_orgs:
  "\<exists>P. sx_orgs (snd (delete_org pf en auth slug st)) = filter P (sx_orgs st)"
  "\<exists>P. sx_orgs (snd (delete_org_admin pf en gate slug st)) = filter P (sx_orgs st)"
proof -
  have "\<exists>P. sx_orgs st = filter P (sx_orgs st)" by (rule exI [of _ "\<lambda>_. True"]) simp
  then show "\<exists>P. sx_orgs (snd (delete_org pf en auth slug st)) = filter P (sx_orgs st)"
    "\<exists>P. sx_orgs (snd (delete_org_admin pf en gate slug st)) = filter P (sx_orgs st)"
    by (auto simp: delete_org_def delete_org_admin_def delete_org_by_id_def split: option.split prod.split bool.split sum.split)
qed

lemma add_share_meta_ok: "meta_ok (pf_lower pf) (sx_meta st) \<Longrightarrow> meta_ok (pf_lower pf) (sx_meta (snd (add_share pf en auth req st)))"
  by (cases rule: add_share_cases [of pf en auth req st])
    (auto simp: grant_share_def meta_ok_upsert split: option.split prod.split bool.split)

lemma read_meta_ok:
  assumes "meta_ok (pf_lower pf) (sx_meta st)"
  shows "meta_ok (pf_lower pf) (sx_meta (snd (friend_summary pf en auth owner st)))"
    "meta_ok (pf_lower pf) (sx_meta (snd (friend_timeline pf en auth owner days st)))"
proof -
  have "meta_ok (pf_lower pf) (sx_meta (snd (check_view_with_expiry pf en client owner viewer st)))" for client viewer
    by (cases rule: check_view_with_expiry_cases [of pf en client owner viewer st])
      (use assms in \<open>auto simp: lazy_revoke_def meta_ok_delete\<close>)
  then show "meta_ok (pf_lower pf) (sx_meta (snd (friend_summary pf en auth owner st)))"
    "meta_ok (pf_lower pf) (sx_meta (snd (friend_timeline pf en auth owner days st)))"
    using friend_summary_state [of pf en auth owner st] friend_timeline_state [of pf en auth owner days st] assms by auto
qed

lemma resolve_report_reports:
  "sx_reports (snd (resolve_report pf en gate i outcome note st)) = sx_reports st \<or>
   (\<exists>f. sx_reports (snd (resolve_report pf en gate i outcome note st)) = map f (sx_reports st) \<and>
     (\<forall>r. sp_id (f r) = sp_id r) \<and>
     (\<forall>r. f r = r \<or> sp_id r = i \<and> sp_status r = Open \<and> sp_status (f r) \<noteq> Open \<and> sp_resolved_at (f r) \<noteq> None \<and> sp_resolved_by (f r) \<noteq> None))"
proof (cases "\<exists>user s. gate = Inr user \<and> report_status_parse outcome = Some s \<and> is_resolution s")
  case True
  then obtain user s where g: "gate = Inr user" "report_status_parse outcome = Some s" "is_resolution s" by blast
  then have s: "s \<noteq> Open" by auto
  show ?thesis
  proof (cases "find (\<lambda>r. sp_id r = i \<and> sp_status r = Open) (sx_reports st)")
    case None
    then show ?thesis using g by (simp add: resolve_report_def resolve_report_row_def split: option.split)
  next
    case (Some r)
    let ?f = "\<lambda>r. if sp_id r = i \<and> sp_status r = Open then r\<lparr>sp_status := s, sp_resolved_at := Some (sn_now en),
        sp_resolved_by := Some (au_preferred_username user), sp_resolution_note := nonblank note\<rparr> else r"
    have "sx_reports (snd (resolve_report pf en gate i outcome note st)) \<in> {sx_reports st, map ?f (sx_reports st)}"
      using g Some by (simp add: resolve_report_def resolve_report_row_def Let_def)
    moreover have "(\<forall>r. sp_id (?f r) = sp_id r) \<and> (\<forall>r. ?f r = r \<or> sp_id r = i \<and> sp_status r = Open \<and> sp_status (?f r) \<noteq> Open \<and>
        sp_resolved_at (?f r) \<noteq> None \<and> sp_resolved_by (?f r) \<noteq> None)" using s by simp
    ultimately show ?thesis by blast
  qed
next
  case False
  then have "snd (resolve_report pf en gate i outcome note st) = st"
    by (auto simp: resolve_report_def split: sum.split option.split)
  then show ?thesis by simp
qed

lemma report_rows_ok:
  assumes "tables_ok pf st"
  shows "tables_ok pf (snd (report_share pf' en auth owner recipient reason details st))"
  using report_share_state [of pf' en auth owner recipient reason details st] assms by (auto simp: tables_ok_def reported_row_def)

lemma resolved_rows_ok:
  assumes "tables_ok pf st"
  shows "tables_ok pf (snd (resolve_report pf' en gate i outcome note st))"
  using resolve_report_reports [of pf' en gate i outcome "note" st]
proof (elim disjE exE conjE)
  fix f
  assume eq: "sx_reports (snd (resolve_report pf' en gate i outcome note st)) = map f (sx_reports st)"
    and ids: "\<forall>r. sp_id (f r) = sp_id r"
    and f: "\<forall>r. f r = r \<or> sp_id r = i \<and> sp_status r = Open \<and> sp_status (f r) \<noteq> Open \<and> sp_resolved_at (f r) \<noteq> None \<and> sp_resolved_by (f r) \<noteq> None"
  have c: "sp_id \<circ> f = sp_id" using ids by auto
  have "(sp_status (f r) = Open) = (sp_resolved_at (f r) = None) \<and> (sp_resolved_at (f r) = None) = (sp_resolved_by (f r) = None)"
    if "r \<in> set (sx_reports st)" for r
    using f [rule_format, of r] assms that by (auto simp: tables_ok_def list_all_iff)
  then show ?thesis using assms unfolding tables_ok_def resolve_report_fields eq by (simp add: list_all_iff c)
qed (use assms in \<open>simp add: tables_ok_def\<close>)

lemma step_tables_ok:
  assumes ok: "tables_ok pf st"
  shows "tables_ok pf (share_step pf en auth op st)"
proof (cases op)
  case (DeleteShare recipient)
  then show ?thesis using ok
    by (simp add: tables_ok_def delete_share_def Let_def meta_ok_delete split: option.split prod.split bool.split)
next
  case (CreateOrg name)
  then show ?thesis using ok create_org_ok [of st pf en auth name] by (simp add: tables_ok_def)
next
  case (DeleteOrg slug)
  then show ?thesis using ok delete_org_orgs(1) [of pf en auth slug st] by (auto simp: tables_ok_def orgs_ok_filter)
next
  case (DeleteOrgAdmin gate slug)
  then show ?thesis using ok delete_org_orgs(2) [of pf en gate slug st] by (auto simp: tables_ok_def orgs_ok_filter)
next
  case (ReportShare owner recipient reason details)
  then show ?thesis using report_rows_ok [OF ok] by simp
next
  case (ResolveReport gate i outcome nt)
  then show ?thesis using resolved_rows_ok [OF ok] by simp
next
  case (CloseAccount d confirm)
  then show ?thesis using ok by (simp add: tables_ok_def delete_account_orgs_def case_prod_beta Let_def orgs_ok_filter)
qed (use ok in \<open>simp_all add: tables_ok_def add_share_meta_ok read_meta_ok\<close>)

text \<open>The founders of the organizations have accounts: only the closing of an account takes one away, and its organizations go with it.\<close>

definition founders_ok :: "share_state \<Rightarrow> bool" where
  "founders_ok st \<longleftrightarrow> list_all (\<lambda>o'. og_owner_user_id o' \<in> us_id ` set (sx_users st)) (sx_orgs st)"

lemma cluster_user_ids: "us_id ` set (sx_users (check_cross_report_cluster pf en h st)) = us_id ` set (sx_users st)"
proof -
  have "map us_id (set_shares_paused_until_by_handle lower h until now users) = map us_id users" for lower until now users
    by (simp add: set_shares_paused_until_by_handle_def)
  then have "us_id ` set (set_shares_paused_until_by_handle lower h until now users) = us_id ` set users" for lower until now users
    by (metis set_map)
  then show ?thesis by (simp add: check_cross_report_cluster_def Let_def)
qed

lemma handler_users [simp]:
  "sx_users (snd (set_visibility pf en auth public st)) = sx_users st" "sx_users (snd (add_share pf en auth req st)) = sx_users st"
  "sx_users (snd (delete_share pf en auth recipient st)) = sx_users st" "sx_users (snd (share_with_org pf en auth slug st)) = sx_users st"
  "sx_users (snd (unshare_with_org pf en auth slug st)) = sx_users st" "sx_users (snd (create_org pf en auth name st)) = sx_users st"
  "sx_users (snd (delete_org pf en auth slug st)) = sx_users st" "sx_users (snd (delete_org_admin pf en gate slug st)) = sx_users st"
  "sx_users (snd (add_member pf en auth slug member role st)) = sx_users st"
  "sx_users (snd (remove_member pf en auth slug member st)) = sx_users st"
proof -
  have "sx_users (snd (grant_share pf en auth recipient e n sc st)) = sx_users st" for recipient e n sc
    by (simp add: grant_share_def split: option.split prod.split bool.split)
  then show "sx_users (snd (add_share pf en auth req st)) = sx_users st"
    by (cases rule: add_share_cases [of pf en auth req st]) auto
qed (simp_all add: set_visibility_def delete_share_def share_with_org_def unshare_with_org_def create_org_def delete_org_def
    delete_org_admin_def add_member_def remove_member_def Let_def
    split: option.split prod.split bool.split sum.split org_error.split)

lemma read_users [simp]:
  "sx_users (snd (friend_summary pf en auth owner st)) = sx_users st" "sx_users (snd (friend_timeline pf en auth owner days st)) = sx_users st"
proof -
  have "sx_users (snd (check_view_with_expiry pf en client owner viewer st)) = sx_users st" for client viewer
    by (cases rule: check_view_with_expiry_cases [of pf en client owner viewer st]) (simp_all add: lazy_revoke_def)
  then show "sx_users (snd (friend_summary pf en auth owner st)) = sx_users st"
    "sx_users (snd (friend_timeline pf en auth owner days st)) = sx_users st"
    using friend_summary_state [of pf en auth owner st] friend_timeline_state [of pf en auth owner days st] by auto
qed

lemma step_user_ids:
  assumes "\<And>d confirm. op \<noteq> CloseAccount d confirm"
  shows "us_id ` set (sx_users st) \<subseteq> us_id ` set (sx_users (share_step pf en auth op st))"
proof (cases op)
  case (ReportShare owner recipient reason details)
  then show ?thesis using report_share_state [of pf en auth owner recipient reason details st]
    by (auto simp: after_report_def cluster_user_ids)
next
  case (SignUp d email password h)
  then show ?thesis
    by (cases rule: signup_cases [of pf d email password h "accounts_of st"])
      (auto simp: signup_owner_def case_prod_beta Let_def split: option.split)
qed (use assms in simp_all)

lemma try_slugs_owner: "try_slugs users i now name base uid attempts left tbl = (Inr org, tbl') \<Longrightarrow> uid \<in> users"
  by (induction left arbitrary: attempts) (auto simp: create_org_row_def Let_def split: if_splits)

lemma create_org_founder:
  assumes "o' \<in> set (sx_orgs (snd (create_org pf en auth name st)))"
  shows "o' \<in> set (sx_orgs st) \<or> og_owner_user_id o' \<in> us_id ` set (sx_users st)"
proof (cases "\<exists>uid org orgs. pf_parse_uuid pf (au_sub auth) = Some uid \<and> try_slugs (us_id ` set (sx_users st)) (sn_id en) (sn_now en) (trim name)
    (slugify (trim name)) uid 0 (SLUG_COLLISION_MAX + 1) (sx_orgs st) = (Inr org, orgs)")
  case True
  then obtain uid org orgs where t: "pf_parse_uuid pf (au_sub auth) = Some uid" "try_slugs (us_id ` set (sx_users st)) (sn_id en) (sn_now en)
    (trim name) (slugify (trim name)) uid 0 (SLUG_COLLISION_MAX + 1) (sx_orgs st) = (Inr org, orgs)" by blast
  note new = try_slugs_Inr [OF t(2)] try_slugs_owner [OF t(2)]
  have "set (sx_orgs (snd (create_org pf en auth name st))) \<subseteq> set (sx_orgs st @ [org])"
    using t new by (auto simp: create_org_def Let_def delete_org_by_id_def split: option.split prod.split bool.split)
  then show ?thesis using assms new by auto
next
  case False
  then have "sx_orgs (snd (create_org pf en auth name st)) = sx_orgs st"
    by (auto simp: create_org_def Let_def split: option.split prod.split sum.split org_error.split)
  then show ?thesis using assms by simp
qed

lemma step_founders_ok:
  assumes "founders_ok st"
  shows "founders_ok (share_step pf en auth op st)"
proof (cases "\<exists>d confirm. op = CloseAccount d confirm")
  case True
  then show ?thesis using assms by (auto simp: founders_ok_def list_all_iff delete_account_orgs_def case_prod_beta Let_def)
next
  case False
  then have users: "us_id ` set (sx_users st) \<subseteq> us_id ` set (sx_users (share_step pf en auth op st))" by (intro step_user_ids) auto
  have "o' \<in> set (sx_orgs st) \<or> og_owner_user_id o' \<in> us_id ` set (sx_users st)"
    if o: "o' \<in> set (sx_orgs (share_step pf en auth op st))" for o'
  proof (cases op)
    case (CreateOrg name)
    then show ?thesis using o create_org_founder by auto
  next
    case (DeleteOrg slug)
    then show ?thesis using o delete_org_orgs(1) [of pf en auth slug st] by auto
  next
    case (DeleteOrgAdmin gate slug)
    then show ?thesis using o delete_org_orgs(2) [of pf en gate slug st] by auto
  qed (use o False in simp_all)
  then show ?thesis using assms users by (fastforce simp: founders_ok_def list_all_iff)
qed

definition share_ok :: "platform \<Rightarrow> share_state \<Rightarrow> bool" where
  "share_ok pf st \<longleftrightarrow> tables_ok pf st \<and> founders_ok st"

text \<open>
  C18. Every sequence of requests, sign-ups and closed accounts among them, keeps the tables well formed,
  whatever fails on the way: the ids and slugs of organizations are unique, every slug is one the routes
  accept and every founder has an account, a pair of handles has one metadata row whatever its spelling,
  ids of reports are unique, and a report has a resolver and a time exactly when it is no longer open.
\<close>

theorem share_tables_stay_ok:
  assumes "share_reaches pf st0 st" and "share_ok pf st0"
  shows "share_ok pf st"
  using assms by (induction rule: share_reaches.induct) (auto simp: share_ok_def step_tables_ok step_founders_ok)

theorem share_tables_stay_ok_witness:
  "share_ok sharing_pf (share_step sharing_pf (sharing_env ''r1'' 5) (signed_in ''alice'') (AddShare (request_for ''bob'')) (sample_sharing []))"
proof -
  have "share_reaches sharing_pf (sample_sharing []) (share_step sharing_pf (sharing_env ''r1'' 5) (signed_in ''alice'')
      (AddShare (request_for ''bob'')) (sample_sharing []))"
    by (rule share_reaches.step [OF share_reaches.start])
  moreover have "share_ok sharing_pf (sample_sharing [])"
    by (simp add: share_ok_def tables_ok_def founders_ok_def sample_sharing_def orgs_ok_def meta_ok_def)
  ultimately show ?thesis by (rule share_tables_stay_ok)
qed

section \<open>Organizations without an owner\<close>

definition orphaned :: "string \<Rightarrow> share_state \<Rightarrow> bool" where
  "orphaned slug st \<longleftrightarrow> slug \<in> og_slug ` set (sx_orgs st) \<and> (\<forall>t s. Rel ''organization'' slug ''owner'' t s \<notin> set (sx_rels st))"

text \<open>The service answers from no relationship that is not there.\<close>

definition sound_reads :: "share_env \<Rightarrow> bool" where
  "sound_reads en \<longleftrightarrow> (\<forall>client rels seen. sn_spice en = Some client \<longrightarrow> sp_read client rels = Some seen \<longrightarrow> set seen \<subseteq> set rels)"

lemma orphan_not_managed:
  assumes "orphaned slug st" and "sound_reads en" and "sn_spice en = Some client"
  shows "org_check client slug ''manage_org'' auth st \<noteq> Some True"
  using assms by (fastforce simp: orphaned_def sound_reads_def org_check_def check_permission_def has_permission_def org_permission_def
      related_def split: if_splits)

lemma orphan_not_deleted:
  assumes "orphaned slug st" and "sound_reads en"
  shows "fst (delete_org pf en auth slug st) \<noteq> DeleteOrgResponse"
proof -
  have "org_check client (og_slug org) ''manage_org'' auth st \<noteq> Some True"
    if "sn_spice en = Some client" "find_org_by_slug slug (sx_orgs st) = Some org" for client org
    using orphan_not_managed [OF assms that(1)] find_org_by_slug_Some [OF that(2)] by simp
  then show ?thesis by (auto simp: delete_org_def split: option.split bool.split)
qed

lemma filter_other_id:
  assumes "orgs_ok tbl" and "r \<in> set tbl" and "o' \<in> set tbl" and "og_slug r \<noteq> og_slug o'"
  shows "r \<in> set (delete_org_by_id (og_id o') tbl)"
proof -
  have "og_id r \<noteq> og_id o'" using assms by (auto simp: orgs_ok_def distinct_map dest: inj_onD)
  then show ?thesis using assms(2) by (simp add: delete_org_by_id_def)
qed

lemma delete_account_gone:
  assumes "i \<in> us_id ` set (ac_users ac)" and "i \<notin> us_id ` set (ac_users (snd (delete_account pf d auth confirm ac)))"
  shows "pf_parse_uuid pf (au_sub auth) = Some i"
proof (cases "resolve_user pf auth ac")
  case (Inr u)
  then have u: "pf_parse_uuid pf (au_sub auth) = Some (us_id u)"
    by (auto simp: resolve_user_def find_by_id_def find_Some_iff split: option.splits)
  have "ac_users (snd (delete_account pf d auth confirm ac)) \<in> {ac_users ac, filter (\<lambda>v. us_id v \<noteq> us_id u) (ac_users ac)}"
    using Inr by (auto simp: delete_account_def delete_user_def cascade_user_def audit_def Let_def
        split: sum.split if_split prod.split bool.split option.split)
  then show ?thesis using assms u by force
qed (use assms in \<open>simp add: delete_account_def\<close>)

text \<open>
  C20. An organization that lost its owner stays without one: after any request its row is still there
  and no relationship makes anybody its owner, or the row is gone, and then staff removed it under that
  very slug or its founder closed the account (the slug is free after that, and founding it again makes
  an owner). No member can delete it. (The service may answer from an old snapshot, but not from
  relationships that are not there.)
\<close>

theorem orphaned_org_stays:
  assumes "orphaned slug st" and "orgs_ok (sx_orgs st)" and "sound_reads en" and "find_org_by_slug slug (sx_orgs st) = Some org"
  shows "(org \<in> set (sx_orgs (share_step pf en auth op st)) \<and> orphaned slug (share_step pf en auth op st) \<or>
      slug \<notin> og_slug ` set (sx_orgs (share_step pf en auth op st)) \<and>
      ((\<exists>gate. op = DeleteOrgAdmin gate slug) \<or>
       (\<exists>d confirm. op = CloseAccount d confirm \<and> pf_parse_uuid pf (au_sub auth) = Some (og_owner_user_id org) \<and>
          og_owner_user_id org \<in> us_id ` set (sx_users st) \<and>
          og_owner_user_id org \<notin> us_id ` set (sx_users (share_step pf en auth op st))))) \<and>
    (\<forall>auth'. fst (delete_org pf en auth' slug st) \<noteq> DeleteOrgResponse)"
proof -
  let ?st' = "share_step pf en auth op st"
  have org: "org \<in> set (sx_orgs st)" "og_slug org = slug" using find_org_by_slug_Some [OF assms(4)] by simp_all
  have only: "o' = org" if "o' \<in> set (sx_orgs st)" "og_slug o' = slug" for o'
    using assms(2) org that by (auto simp: orgs_ok_def distinct_map dest: inj_onD)
  have gone: "org \<in> set (delete_org_by_id (og_id o') (sx_orgs st))" if "find_org_by_slug s (sx_orgs st) = Some o'" "s \<noteq> slug" for s o'
    using filter_other_id [OF assms(2) org(1), of o'] find_org_by_slug_Some [OF that(1)] that(2) org(2) by simp
  have row: "org \<in> set (sx_orgs ?st') \<or> slug \<notin> og_slug ` set (sx_orgs ?st') \<and>
      ((\<exists>gate. op = DeleteOrgAdmin gate slug) \<or>
       (\<exists>d confirm. op = CloseAccount d confirm \<and> pf_parse_uuid pf (au_sub auth) = Some (og_owner_user_id org) \<and>
          og_owner_user_id org \<in> us_id ` set (sx_users st) \<and> og_owner_user_id org \<notin> us_id ` set (sx_users ?st')))"
  proof (cases op)
    case (CreateOrg name)
    then show ?thesis using create_org_orgs [of pf en auth name st] org(1) by auto
  next
    case (DeleteOrg s)
    show ?thesis
    proof (cases "s = slug")
      case True
      have "fst (delete_org pf en auth slug st) \<noteq> DeleteOrgResponse" using orphan_not_deleted [OF assms(1,3)] .
      then have "sx_orgs (snd (delete_org pf en auth slug st)) = sx_orgs st"
        by (auto simp: delete_org_def split: option.splits bool.splits if_splits)
      then show ?thesis using DeleteOrg True org(1) by simp
    next
      case False
      then show ?thesis using DeleteOrg gone org(1) by (auto simp: delete_org_def split: option.splits bool.splits)
    qed
  next
    case (DeleteOrgAdmin gate s)
    show ?thesis
    proof (cases "s = slug")
      case True
      have "sx_orgs (snd (delete_org_admin pf en gate slug st)) \<in> {sx_orgs st, delete_org_by_id (og_id org) (sx_orgs st)}"
        using assms(4) by (auto simp: delete_org_admin_def split: option.split sum.split prod.split bool.split)
      moreover have "slug \<notin> og_slug ` set (delete_org_by_id (og_id org) (sx_orgs st))"
        using only by (auto simp: delete_org_by_id_def)
      ultimately show ?thesis using DeleteOrgAdmin True org(1) by auto
    next
      case False
      then show ?thesis using DeleteOrgAdmin gone org(1) by (auto simp: delete_org_admin_def split: option.splits sum.splits)
    qed
  next
    case (CloseAccount d confirm)
    let ?ac = "snd (delete_account pf d auth confirm (accounts_of st))"
    have st': "sx_users ?st' = ac_users ?ac"
        "sx_orgs ?st' = filter (\<lambda>o'. og_owner_user_id o' \<notin> us_id ` set (sx_users st) - us_id ` set (ac_users ?ac)) (sx_orgs st)"
      using CloseAccount by (simp_all add: delete_account_orgs_def case_prod_beta Let_def)
    show ?thesis
    proof (cases "og_owner_user_id org \<in> us_id ` set (sx_users st) - us_id ` set (ac_users ?ac)")
      case True
      then have "slug \<notin> og_slug ` set (sx_orgs ?st')" unfolding st'(2) using only by auto
      moreover have "pf_parse_uuid pf (au_sub auth) = Some (og_owner_user_id org)"
        using True by (intro delete_account_gone [of _ "accounts_of st" _ d _ confirm]) simp_all
      ultimately show ?thesis using True CloseAccount unfolding st'(1) by blast
    next
      case False
      then show ?thesis unfolding st'(2) using org(1) by auto
    qed
  qed (use org(1) in simp_all)
  have "Rel ''organization'' slug ''owner'' t s \<notin> set (sx_rels ?st')" if "org \<in> set (sx_orgs ?st')" for t s
    using step_adds [of "Rel ''organization'' slug ''owner'' t s" pf en auth op st] adds_org_cases [of pf en auth op st slug "''owner''" t s] assms(1)
    by (auto simp: orphaned_def)
  then have "org \<in> set (sx_orgs ?st') \<Longrightarrow> orphaned slug ?st'" using org(2) by (force simp: orphaned_def)
  then show ?thesis using row orphan_not_deleted [OF assms(1,3)] by blast
qed

definition sample_org :: org where
  "sample_org = \<lparr>og_id = ''o1'', og_name = ''Crew'', og_slug = ''crew'', og_owner_user_id = ''alice'', og_created_at = 1, og_updated_at = 1\<rparr>"

definition sample_crewed :: "relationships \<Rightarrow> share_state" where
  "sample_crewed rels = (sample_sharing rels)\<lparr>sx_orgs := [sample_org]\<rparr>"

lemma sample_crewed_simps [simp]:
  "sx_orgs (sample_crewed rels) = [sample_org]" "sx_rels (sample_crewed rels) = rels" "sx_users (sample_crewed rels) = sx_users (sample_sharing [])"
  "sx_meta (sample_crewed rels) = []" "sx_rels (sample_sharing rels) = rels" "sx_orgs (sample_sharing rels) = []"
  by (simp_all add: sample_crewed_def sample_sharing_def)

lemma sample_slug: "validate_slug ''crew''" "og_slug sample_org = ''crew''" "og_id sample_org = ''o1''" "slugify ''Crew'' = ''crew''"
    "trim ''Crew'' = ''Crew''"
  by code_simp+

lemma sound_sharing_env: "sound_reads (sharing_env i now)"
  by (simp add: sound_reads_def)

theorem orphaned_org_stays_witness:
  "orphaned ''crew'' (share_step sharing_pf (sharing_env ''o2'' 9) (signed_in ''bob'') (AddMember ''crew'' ''carol'' ''member'')
     (sample_crewed [Rel ''organization'' ''crew'' ''admin'' ''user'' ''bob'']))"
  using orphaned_org_stays [of "''crew''" "sample_crewed [Rel ''organization'' ''crew'' ''admin'' ''user'' ''bob'']"
      "sharing_env ''o2'' 9" sample_org sharing_pf "signed_in ''bob''" "AddMember ''crew'' ''carol'' ''member''"]
  by (simp add: orphaned_def sample_slug orgs_ok_def sound_sharing_env find_org_by_slug_def)

lemma fold_role_filters:
  "set (fold (\<lambda>w. w) (map (\<lambda>role. delete_matching
       \<lparr>rf_resource_type = ''organization'', rf_resource_id = Some slug, rf_relation = role,
        rf_subject_type = Some ''user'', rf_subject_id = Some member\<rparr>) org_roles) rels) =
   {r \<in> set rels. \<not> (rl_resource_type r = ''organization'' \<and> rl_resource_id r = slug \<and> rl_relation r \<in> set org_roles \<and>
      rl_subject_type r = ''user'' \<and> rl_subject_id r = member)}"
  by (auto simp: org_roles_def filter_matches_def)

text \<open>
  Any admin can remove the owner: the removal is accepted, takes away every role of the owner, and
  leaves the organization without one.
\<close>

theorem admin_can_orphan_org:
  assumes "sn_spice en = Some client" and "sn_users_ok en" and "3 \<le> sp_writes client" and "sp_read client (sx_rels st) = Some (sx_rels st)"
    and "find_org_by_slug slug (sx_orgs st) = Some org" and "validate_slug slug" and "validate_handle owner"
    and "related (sx_rels st) ''organization'' slug ''admin'' (au_preferred_username auth)"
    and "au_preferred_username auth \<noteq> ''*''"
    and "\<And>t s. Rel ''organization'' slug ''owner'' t s \<in> set (sx_rels st) \<Longrightarrow> t = ''user'' \<and> s = owner"
  shows "fst (remove_member pf en auth slug owner st) = RemoveMemberResponse \<and> orphaned slug (snd (remove_member pf en auth slug owner st))"
proof -
  have slug: "org \<in> set (sx_orgs st)" "og_slug org = slug" using find_org_by_slug_Some [OF assms(5)] by simp_all
  have check: "org_check client slug ''manage_members'' auth st = Some True"
    using assms(4,8,9) by (simp add: org_check_def check_permission_def has_permission_def org_permission_def)
  obtain rels where w: "delete_org_member_all_roles client slug owner (sx_rels st) = (True, rels)"
      "set rels = {r \<in> set (sx_rels st). \<not> (rl_resource_type r = ''organization'' \<and> rl_resource_id r = slug \<and> rl_relation r \<in> set org_roles \<and>
          rl_subject_type r = ''user'' \<and> rl_subject_id r = owner)}"
    using assms(3) run_writes_all [of _ client "sx_rels st"] fold_role_filters [of slug owner "sx_rels st"]
    by (simp add: delete_org_member_all_roles_def org_roles_def)
  have "remove_member pf en auth slug owner st = (RemoveMemberResponse, audit_as pf en auth ''org.member_removed''
      (JObject [(''org_slug'', JString slug), (''recipient_handle'', JString owner)]) (st\<lparr>sx_rels := rels\<rparr>))"
    using assms(1,2,5-7) slug check w(1) by (simp add: remove_member_def)
  then show ?thesis using slug w(2) assms(10) by (force simp: orphaned_def org_roles_def)
qed

theorem admin_can_orphan_org_witness:
  "orphaned ''crew'' (snd (remove_member sharing_pf (sharing_env ''o2'' 9) (signed_in ''bob'') ''crew'' ''alice''
     (sample_crewed [Rel ''organization'' ''crew'' ''owner'' ''user'' ''alice'', Rel ''organization'' ''crew'' ''admin'' ''user'' ''bob''])))"
  by (rule admin_can_orphan_org [of _ sample_service _ _ sample_org, THEN conjunct2])
    (simp_all add: find_org_by_slug_def sample_slug sample_valid_handles related_def)

section \<open>What outlives an account\<close>

text \<open>
  Closing an account leaves every relationship of its handle: who signs up under the handle next can
  see each record that was shared with the account before, and has its roles in every organization.
\<close>

lemma signup_owner_keeps_rels: "set (sx_rels st) \<subseteq> set (sx_rels (snd (signup_owner pf en d email password h st)))"
proof -
  have "set rels \<subseteq> set (snd (write_owner client u rels))" for client u rels
    by (auto simp: write_owner_def run_writes_single touch_def)
  then show ?thesis by (simp add: signup_owner_def case_prod_beta Let_def split: option.split)
qed

theorem reclaimed_handle_inherits:
  assumes "st' = share_step pf en' auth' (SignUp d' email password h) (share_step pf en auth (CloseAccount d confirm) st)"
  shows "(related (sx_rels st) ''stats_record'' owner ''share_with_user'' h \<longrightarrow> stats_view (sx_rels st') owner h) \<and>
    (related (sx_rels st) ''organization'' slug role h \<longrightarrow> related (sx_rels st') ''organization'' slug role h)"
proof -
  have "set (sx_rels st) \<subseteq> set (sx_rels st')"
    using signup_owner_keeps_rels [of "snd (delete_account_orgs pf d auth confirm st)"] by (simp add: assms)
  then show ?thesis by (auto simp: stats_view_iff related_def)
qed

section \<open>Deleting an organization\<close>

lemma fold_all_org_filters:
  "set (fold (\<lambda>w. w) (map (\<lambda>role. delete_matching
       \<lparr>rf_resource_type = ''organization'', rf_resource_id = Some slug, rf_relation = role,
        rf_subject_type = None, rf_subject_id = None\<rparr>) org_roles @
       [delete_matching \<lparr>rf_resource_type = ''stats_record'', rf_resource_id = None, rf_relation = ''share_with_org'',
          rf_subject_type = Some ''organization'', rf_subject_id = Some slug\<rparr>]) rels) =
   {r \<in> set rels. \<not> (rl_resource_type r = ''organization'' \<and> rl_resource_id r = slug \<and> rl_relation r \<in> set org_roles) \<and>
      \<not> (rl_resource_type r = ''stats_record'' \<and> rl_relation r = ''share_with_org'' \<and> rl_subject_type r = ''organization'' \<and> rl_subject_id r = slug)}"
  by (auto simp: org_roles_def filter_matches_def)

lemma find_other_slug:
  "find (\<lambda>r. og_slug r = s) (filter (\<lambda>r. og_slug r \<noteq> slug) tbl) = (if s = slug then None else find (\<lambda>r. og_slug r = s) tbl)"
  by (induction tbl) (auto simp: find_None_iff)

text \<open>
  C19. Deleting an organization while the relationship service answers leaves nothing of it: its slug
  is free again, every role and every share with it is gone, so that nobody has a permission on it or
  sees a record through it, and no other relationship and no other organization is touched.
\<close>

theorem delete_org_leaves_nothing:
  assumes "fst (delete_org pf en auth slug st) = DeleteOrgResponse" and "orgs_ok (sx_orgs st)"
    and "\<And>client. sn_spice en = Some client \<Longrightarrow> 4 \<le> sp_writes client"
  shows "find_org_by_slug slug (sx_orgs (snd (delete_org pf en auth slug st))) = None \<and>
    (\<forall>user permission. \<not> org_permission (sx_rels (snd (delete_org pf en auth slug st))) slug permission user) \<and>
    set (sx_rels (snd (delete_org pf en auth slug st))) = {r \<in> set (sx_rels st).
       \<not> (rl_resource_type r = ''organization'' \<and> rl_resource_id r = slug \<and> rl_relation r \<in> set org_roles) \<and>
       \<not> (rl_resource_type r = ''stats_record'' \<and> rl_relation r = ''share_with_org'' \<and> rl_subject_type r = ''organization'' \<and> rl_subject_id r = slug)} \<and>
    (\<forall>s. s \<noteq> slug \<longrightarrow> find_org_by_slug s (sx_orgs (snd (delete_org pf en auth slug st))) = find_org_by_slug s (sx_orgs st))"
proof -
  obtain client org where c: "sn_spice en = Some client" "find_org_by_slug slug (sx_orgs st) = Some org" "validate_slug slug" "sn_users_ok en"
      "org_check client (og_slug org) ''manage_org'' auth st = Some True"
    using assms(1) by (auto simp: delete_org_def split: option.splits bool.splits if_splits)
  have slug: "org \<in> set (sx_orgs st)" "og_slug org = slug" using find_org_by_slug_Some [OF c(2)] by simp_all
  define rels where "rels = snd (delete_all_org_relationships client slug (sx_rels st))"
  have st': "sx_rels (snd (delete_org pf en auth slug st)) = rels"
      "sx_orgs (snd (delete_org pf en auth slug st)) = delete_org_by_id (og_id org) (sx_orgs st)"
    using c slug by (simp_all add: delete_org_def rels_def)
  have rels: "set rels = {r \<in> set (sx_rels st). \<not> (rl_resource_type r = ''organization'' \<and> rl_resource_id r = slug \<and> rl_relation r \<in> set org_roles) \<and>
      \<not> (rl_resource_type r = ''stats_record'' \<and> rl_relation r = ''share_with_org'' \<and> rl_subject_type r = ''organization'' \<and> rl_subject_id r = slug)}"
    unfolding rels_def delete_all_org_relationships_def
    using assms(3) [OF c(1)] by (subst run_writes_all) (simp add: org_roles_def, simp only: snd_conv fold_all_org_filters)
  have same: "og_id r = og_id org \<longleftrightarrow> og_slug r = slug" if "r \<in> set (sx_orgs st)" for r
    using assms(2) that slug by (auto simp: orgs_ok_def distinct_map dest: inj_onD)
  have "delete_org_by_id (og_id org) (sx_orgs st) = filter (\<lambda>r. og_slug r \<noteq> slug) (sx_orgs st)"
    unfolding delete_org_by_id_def using same by (intro filter_cong) auto
  then have orgs: "find_org_by_slug s (sx_orgs (snd (delete_org pf en auth slug st))) =
      (if s = slug then None else find_org_by_slug s (sx_orgs st))" for s
    by (simp only: st' find_org_by_slug_def find_other_slug)
  have "\<not> org_permission rels slug permission user" for permission user
    using rels by (auto simp: org_permission_def related_def org_roles_def)
  then show ?thesis using orgs rels by (simp add: st')
qed

theorem delete_org_leaves_nothing_witness:
  "find_org_by_slug ''crew'' (sx_orgs (snd (delete_org sharing_pf (sharing_env ''o2'' 9) (signed_in ''alice'') ''crew''
     (sample_crewed [Rel ''organization'' ''crew'' ''owner'' ''user'' ''alice''])))) = None"
  by (rule delete_org_leaves_nothing [THEN conjunct1])
    (simp_all add: delete_org_def find_org_by_slug_def sample_slug org_check_def check_permission_def has_permission_def
      org_permission_def related_def orgs_ok_def)

section \<open>What a reader of a shared record sees\<close>

definition visible_under :: "string \<Rightarrow> share_scope option \<Rightarrow> stored_event \<Rightarrow> bool" where
  "visible_under owner scope r \<longleftrightarrow> sv_handle r = owner \<and> sv_hidden_at r = None \<and> type_allowed scope (sv_type r)"

lemma type_counts:
  "set (counts_by_type rows) = {(t, n). n = length (filter (\<lambda>r. sv_type r = t) rows) \<and> 0 < n}" "distinct (map fst (counts_by_type rows))"
proof -
  have count: "count_list (map sv_type rows) t = length (filter (\<lambda>r. sv_type r = t) rows)" for t
    by (induction rows) auto
  have pos: "t \<in> sv_type ` set rows \<longleftrightarrow> 0 < length (filter (\<lambda>r. sv_type r = t) rows)" for t
    by (induction rows) auto
  show "set (counts_by_type rows) = {(t, n). n = length (filter (\<lambda>r. sv_type r = t) rows) \<and> 0 < n}"
    unfolding counts_by_type_def Let_def set_sort set_map set_remdups count using pos by fast
  have "distinct (sort_key (\<lambda>(t, n). - int n) (map (\<lambda>t. (t, count_list (map sv_type rows) t)) (remdups (map sv_type rows))))"
    by (simp add: distinct_map inj_on_def)
  moreover have "inj_on fst (set (counts_by_type rows))"
    unfolding counts_by_type_def Let_def by (auto simp: inj_on_def)
  ultimately show "distinct (map fst (counts_by_type rows))" by (simp add: distinct_map counts_by_type_def Let_def)
qed

lemma sum_type_counts:
  "sum_list (map snd (filter (\<lambda>(t, n). P t) (counts_by_type rows))) = length (filter (\<lambda>r. P (sv_type r)) rows)"
proof -
  let ?ts = "map sv_type rows"
  have count: "count_list (filter P ?ts) t = (if P t then count_list ?ts t else 0)" for t by (induction rows) auto
  have "sum_list (map snd (filter (\<lambda>(t, n). P t) (counts_by_type rows))) = sum snd (set (filter (\<lambda>(t, n). P t) (counts_by_type rows)))"
    using type_counts(2) [of rows] by (subst sum_list_distinct_conv_sum_set) (auto simp: distinct_map)
  also have "set (filter (\<lambda>(t, n). P t) (counts_by_type rows)) = (\<lambda>t. (t, count_list ?ts t)) ` {t \<in> set ?ts. P t}"
    unfolding counts_by_type_def Let_def set_filter set_sort set_map set_remdups by auto
  also have "sum snd \<dots> = sum (count_list ?ts) {t \<in> set ?ts. P t}" by (subst sum.reindex) (auto simp: inj_on_def)
  also have "\<dots> = sum (count_list (filter P ?ts)) {t \<in> set ?ts. P t}" by (rule sum.cong) (auto simp: count)
  also have "\<dots> = length (filter P ?ts)" by (rule sum_count_set) auto
  also have "\<dots> = length (filter (\<lambda>r. P (sv_type r)) rows)" by (simp add: filter_map comp_def)
  finally show ?thesis .
qed

lemma filtered_timeline:
  "build_timeline_buckets (timeline_shared_filtered owner d (Option.bind scope sc_allow_event_types)
     (Option.bind scope sc_deny_event_types) now tbl) d (day_of now) =
   map (\<lambda>day. (day, length (filter (\<lambda>r. visible_under owner scope r \<and> map_option day_of (sv_timestamp r) = Some day) (tb_rows tbl))))
     [day_of now - (int d - 1)..day_of now]"
proof -
  have rows: "timeline_shared_filtered owner d (Option.bind scope sc_allow_event_types) (Option.bind scope sc_deny_event_types) now tbl =
      counts_by_day (\<lambda>r. in_window now d r \<and> visible_under owner scope r) (tb_rows tbl)"
    unfolding timeline_shared_filtered_def timeline_shared_def visible_under_def type_allowed_def
    by (auto intro!: arg_cong2 [of _ _ _ _ counts_by_day])
  have "filter (\<lambda>r. (in_window now d r \<and> visible_under owner scope r) \<and> map_option day_of (sv_timestamp r) = Some day) (tb_rows tbl) =
      filter (\<lambda>r. visible_under owner scope r \<and> map_option day_of (sv_timestamp r) = Some day) (tb_rows tbl)"
    if "day_of now - (int d - 1) \<le> day" for day
    using day_in_window [OF _ that] by (intro filter_cong) auto
  then show ?thesis unfolding build_timeline_buckets_def rows counts_by_day_lookup by (intro map_cong) auto
qed

lemma allowed_read:
  assumes "fst (check_view_with_expiry pf en client owner viewer st) = Some True"
  shows "snd (check_view_with_expiry pf en client owner viewer st) = st \<and> check_view client owner viewer st = Some True \<and>
    (sn_meta_ok en \<longrightarrow> (\<forall>t \<in> set_option (Option.bind (find_meta (pf_lower pf) owner viewer (sx_meta st)) sm_expires_at). t > sn_now en))"
  by (cases rule: check_view_with_expiry_cases [of pf en client owner viewer st]) (use assms in auto)

text \<open>
  C15. A friend's timeline shows what the share allows and nothing else: it is only served when the
  service granted the view and the share, when its metadata can be read, has not expired and has a
  scope that covers timelines; it has one bucket per day of the requested window cut down to the
  scope's, and each bucket counts exactly the owner's events of that day that are not hidden and whose
  type the scope allows.
\<close>

theorem friend_timeline_exact:
  assumes "fst (friend_timeline pf en auth owner days st) = PublicTimelineResponse d buckets"
  shows "\<exists>client d0 scope. sn_spice en = Some client \<and> check_view client owner (au_preferred_username auth) st = Some True \<and>
    (sn_meta_ok en \<longrightarrow>
       (\<forall>t \<in> set_option (Option.bind (find_meta (pf_lower pf) owner (au_preferred_username auth) (sx_meta st)) sm_expires_at). t > sn_now en)) \<and>
    scope = scope_of_share pf en owner (au_preferred_username auth) st \<and> (\<forall>s \<in> set_option scope. scope_allows_timeline s) \<and>
    resolve_timeline_days days = Some d0 \<and> d = clamp_days d0 scope \<and> d \<le> TIMELINE_DAYS_MAX \<and>
    buckets = map (\<lambda>day. (day, length (filter (\<lambda>r. visible_under owner scope r \<and> map_option day_of (sv_timestamp r) = Some day)
        (tb_rows (sx_events st))))) [day_of (sn_now en) - (int d - 1)..day_of (sn_now en)]"
proof -
  obtain client d0 where c: "sn_spice en = Some client" "resolve_timeline_days days = Some d0"
    using assms by (auto simp: friend_timeline_def split: option.splits if_splits)
  obtain check st1 where k: "check_view_with_expiry pf en client owner (au_preferred_username auth) st = (check, st1)" by fastforce
  let ?sc = "scope_of_share pf en owner (au_preferred_username auth) st1"
  have r: "check = Some True" "\<forall>s \<in> set_option ?sc. scope_allows_timeline s" "sn_query_ok en"
      "PublicTimelineResponse d buckets = render_timeline_scoped en owner (clamp_days d0 ?sc) ?sc st1"
    using assms c k
    by (auto simp: friend_timeline_def render_or_404_def render_timeline_scoped_def Let_def split: option.splits bool.splits if_splits)
  note a = allowed_read [of pf en client owner "au_preferred_username auth" st, unfolded k fst_conv snd_conv, OF r(1)]
  have same: "render_timeline_scoped en owner n sc st = PublicTimelineResponse n (build_timeline_buckets (timeline_shared_filtered owner n
      (Option.bind sc sc_allow_event_types) (Option.bind sc sc_deny_event_types) (sn_now en) (sx_events st)) n (day_of (sn_now en)))" for n sc
    using r(3) by (auto simp: render_timeline_scoped_def timeline_shared_filtered_def Let_def)
  have "d0 \<le> TIMELINE_DAYS_MAX" using c(2) by (auto simp: resolve_timeline_days_def Let_def split: if_splits)
  then have "clamp_days d0 ?sc \<le> TIMELINE_DAYS_MAX" by (auto simp: clamp_days_def split: option.split)
  have st1: "st1 = st" using a by simp
  have "d = clamp_days d0 ?sc" "buckets = build_timeline_buckets (timeline_shared_filtered owner d (Option.bind ?sc sc_allow_event_types)
      (Option.bind ?sc sc_deny_event_types) (sn_now en) (sx_events st)) d (day_of (sn_now en))"
    using r(4) unfolding st1 same by simp_all
  then show ?thesis using c a r(2) \<open>clamp_days d0 ?sc \<le> TIMELINE_DAYS_MAX\<close> unfolding filtered_timeline st1
    by (intro exI [of _ client] exI [of _ d0] exI [of _ "scope_of_share pf en owner (au_preferred_username auth) st"] conjI) auto
qed

text \<open>
  A friend's summary counts exactly what the share allows: under the same conditions, with a scope
  that covers aggregates, the total is the number of the owner's events that are not hidden and whose
  type the scope allows, and the breakdown lists each type that occurs among them once, with its count.
\<close>

theorem friend_summary_exact:
  assumes "fst (friend_summary pf en auth owner st) = PublicSummaryResponse who n_total by_type"
  shows "\<exists>client scope. sn_spice en = Some client \<and> check_view client owner (au_preferred_username auth) st = Some True \<and>
    (sn_meta_ok en \<longrightarrow>
       (\<forall>t \<in> set_option (Option.bind (find_meta (pf_lower pf) owner (au_preferred_username auth) (sx_meta st)) sm_expires_at). t > sn_now en)) \<and>
    scope = scope_of_share pf en owner (au_preferred_username auth) st \<and> (\<forall>s \<in> set_option scope. scope_allows_aggregates s) \<and>
    who = owner \<and> n_total = length (filter (visible_under owner scope) (tb_rows (sx_events st))) \<and> distinct (map fst by_type) \<and>
    set by_type = {(t, n). n = length (filter (\<lambda>r. visible_under owner scope r \<and> sv_type r = t) (tb_rows (sx_events st))) \<and> 0 < n}"
proof -
  obtain client where c: "sn_spice en = Some client"
    using assms by (auto simp: friend_summary_def split: option.splits if_splits)
  obtain check st1 where k: "check_view_with_expiry pf en client owner (au_preferred_username auth) st = (check, st1)" by fastforce
  let ?sc = "scope_of_share pf en owner (au_preferred_username auth) st1"
  have r: "check = Some True" "\<forall>s \<in> set_option ?sc. scope_allows_aggregates s" "sn_query_ok en"
      "PublicSummaryResponse who n_total by_type = render_summary_scoped en owner ?sc st1"
    using assms c k
    by (auto simp: friend_summary_def render_or_404_def render_summary_scoped_def Let_def split: option.splits bool.splits if_splits prod.splits)
  note a = allowed_read [of pf en client owner "au_preferred_username auth" st, unfolded k fst_conv snd_conv, OF r(1)]
  define rows where "rows = filter (\<lambda>r. sv_handle r = owner \<and> sv_hidden_at r = None) (tb_rows (sx_events st))"
  define P where "P = type_allowed ?sc"
  have vis: "filter (visible_under owner ?sc) (tb_rows (sx_events st)) = filter (\<lambda>r. P (sv_type r)) rows"
      "filter (\<lambda>r. visible_under owner ?sc r \<and> sv_type r = t) (tb_rows (sx_events st)) =
        filter (\<lambda>r. P (sv_type r)) (filter (\<lambda>r. sv_type r = t) rows)" for t
    by (auto simp: rows_def P_def visible_under_def intro!: filter_cong)
  have res: "n_total = length (filter (\<lambda>r. P (sv_type r)) rows) \<and> by_type = filter (\<lambda>(t, n). P t) (counts_by_type rows) \<and> who = owner"
  proof (cases ?sc)
    case None
    then have "P = (\<lambda>_. True)" by (simp add: P_def type_allowed_def fun_eq_iff)
    then show ?thesis using r(3,4) None a
      by (simp add: render_summary_scoped_def summary_for_handle_shared_def rows_def Let_def)
  next
    case (Some s)
    then show ?thesis using r(3,4) a sum_type_counts [of P rows]
      by (simp add: render_summary_scoped_def summary_for_handle_shared_def apply_event_type_filter_def rows_def P_def Let_def)
  qed
  have only: "filter (\<lambda>r. P (sv_type r)) (filter (\<lambda>r. sv_type r = t) rows) = (if P t then filter (\<lambda>r. sv_type r = t) rows else [])" for t
    by (auto simp: filter_empty_conv intro!: filter_cong)
  have "distinct (map fst by_type)" using res type_counts(2) [of rows] by (simp add: distinct_map_filter)
  moreover have "set by_type = {(t, n). n = length (filter (\<lambda>r. visible_under owner ?sc r \<and> sv_type r = t) (tb_rows (sx_events st))) \<and> 0 < n}"
    unfolding vis only using res type_counts(1) [of rows] by (auto split: if_splits)
  ultimately show ?thesis using c a r(2) res vis(1) by auto
qed

definition shared_pilot :: share_state where
  "shared_pilot = sample_sharing [Rel ''stats_record'' ''pilot'' ''share_with_user'' ''user'' ''bob'']"

lemma shared_pilot_checked:
  "check_view_with_expiry sharing_pf (sharing_env i now) sample_service ''pilot'' ''bob'' shared_pilot = (Some True, shared_pilot)"
  "scope_of_share sharing_pf (sharing_env i now) ''pilot'' ''bob'' shared_pilot = None" "validate_handle ''pilot''"
proof -
  have "check_view sample_service ''pilot'' ''bob'' shared_pilot = Some True"
    by (simp add: check_view_def check_permission_def has_permission_def stats_view_iff related_def shared_pilot_def)
  moreover have "find_meta to_ascii_lowercase ''pilot'' ''bob'' (sx_meta shared_pilot) = None"
    by (simp add: shared_pilot_def sample_sharing_def find_meta_def)
  ultimately show "check_view_with_expiry sharing_pf (sharing_env i now) sample_service ''pilot'' ''bob'' shared_pilot = (Some True, shared_pilot)"
    "scope_of_share sharing_pf (sharing_env i now) ''pilot'' ''bob'' shared_pilot = None"
    by (simp_all add: check_view_with_expiry_def scope_of_share_def)
  show "validate_handle ''pilot''" by code_simp
qed

theorem friend_timeline_exact_witness:
  "\<exists>buckets. fst (friend_timeline sharing_pf (sharing_env ''x'' 5) (signed_in ''bob'') ''pilot'' (Some 1) shared_pilot) =
     PublicTimelineResponse 1 buckets \<and> map fst buckets = [0]"
proof -
  have days: "resolve_timeline_days (Some 1) = Some 1" by (simp add: resolve_timeline_days_def TIMELINE_DAYS_MAX_def)
  obtain buckets where b: "fst (friend_timeline sharing_pf (sharing_env ''x'' 5) (signed_in ''bob'') ''pilot'' (Some 1) shared_pilot) =
      PublicTimelineResponse 1 buckets"
    by (simp add: friend_timeline_def shared_pilot_checked days render_or_404_def render_timeline_scoped_def clamp_days_def del: One_nat_def)
  from friend_timeline_exact [OF b] have "map fst buckets = [day_of 5 - (int 1 - 1)..day_of 5]" by (auto simp: comp_def)
  then show ?thesis using b by (simp add: day_of_def)
qed

theorem friend_summary_exact_witness:
  "\<exists>by_type. fst (friend_summary sharing_pf (sharing_env ''x'' 5) (signed_in ''bob'') ''pilot'' shared_pilot) =
     PublicSummaryResponse ''pilot'' 3 by_type \<and> distinct (map fst by_type)"
proof -
  have n: "fst (summary_for_handle_shared ''pilot'' (sx_events shared_pilot)) = 3"
    by (simp add: summary_for_handle_shared_def shared_pilot_def sample_sharing_def sample_table_def sample_row_def)
  obtain by_type where b: "fst (friend_summary sharing_pf (sharing_env ''x'' 5) (signed_in ''bob'') ''pilot'' shared_pilot) =
      PublicSummaryResponse ''pilot'' 3 by_type"
    using n by (cases "summary_for_handle_shared ''pilot'' (sx_events shared_pilot)")
      (simp add: friend_summary_def shared_pilot_checked render_or_404_def render_summary_scoped_def)
  from friend_summary_exact [OF b] b show ?thesis by auto
qed

section \<open>Expiry\<close>

lemma expired_read:
  assumes "check_view client owner viewer st = Some True" and "sn_meta_ok en"
    and "find_meta (pf_lower pf) owner viewer (sx_meta st) = Some m" and "sm_expires_at m = Some t" and "t \<le> sn_now en"
  shows "check_view_with_expiry pf en client owner viewer st = (Some False, lazy_revoke pf en client owner viewer t st)"
  using assms by (simp add: check_view_with_expiry_def)

text \<open>
  C16. A read of an expired share is refused and revokes it, on both endpoints: the answer is the one for
  an unknown record and the metadata row is gone, whatever the relationship service does; if the service
  takes the write, exactly the grant goes from the relationships, and a viewer who could see the record
  only by that grant is then denied by a service that answers from them; if it fails, they stay.
\<close>

theorem expired_share_is_denied:
  assumes "sn_spice en = Some client" and "sn_meta_ok en" and "validate_handle owner" and "resolve_timeline_days days = Some d"
    and "check_view client owner (au_preferred_username auth) st = Some True"
    and "find_meta (pf_lower pf) owner (au_preferred_username auth) (sx_meta st) = Some m" and "sm_expires_at m = Some t" and "t \<le> sn_now en"
  shows "\<forall>(reply, st') \<in> {friend_summary pf en auth owner st, friend_timeline pf en auth owner days st}.
    reply = NotFound \<and> find_meta (pf_lower pf) owner (au_preferred_username auth) (sx_meta st') = None \<and>
    (sp_writes client = 0 \<longrightarrow> sx_rels st' = sx_rels st) \<and>
    (0 < sp_writes client \<longrightarrow>
       set (sx_rels st') = set (sx_rels st) - {Rel ''stats_record'' owner ''share_with_user'' ''user'' (au_preferred_username auth)} \<and>
       (\<not> stats_view (untouch (Rel ''stats_record'' owner ''share_with_user'' ''user'' (au_preferred_username auth)) (sx_rels st))
            owner (au_preferred_username auth) \<and> sp_read client (sx_rels st') = Some (sx_rels st') \<longrightarrow>
          check_view client owner (au_preferred_username auth) st' = Some False))"
proof -
  let ?viewer = "au_preferred_username auth"
  let ?st' = "lazy_revoke pf en client owner ?viewer t st"
  let ?grant = "Rel ''stats_record'' owner ''share_with_user'' ''user'' ?viewer"
  note k = expired_read [of client owner ?viewer st en pf, OF assms(5,2,6,7,8)]
  have meta: "sx_meta ?st' = delete_meta (pf_lower pf) owner ?viewer (sx_meta st)" using assms(2) by (simp add: lazy_revoke_def)
  then have scope: "scope_of_share pf en owner ?viewer ?st' = None" by (simp add: scope_of_share_def)
  have both: "friend_summary pf en auth owner st = (NotFound, ?st')" "friend_timeline pf en auth owner days st = (NotFound, ?st')"
    using assms(1,3,4) k scope by (simp_all add: friend_summary_def friend_timeline_def render_or_404_def)
  have rels: "sx_rels ?st' = (if 0 < sp_writes client then untouch ?grant (sx_rels st) else sx_rels st)"
    by (simp add: lazy_revoke_def delete_share_with_user_def run_writes_single)
  have denied: "check_view client owner ?viewer ?st' = Some False"
    if "\<not> stats_view (untouch ?grant (sx_rels st)) owner ?viewer" "sp_read client (sx_rels ?st') = Some (sx_rels ?st')" "0 < sp_writes client"
    using that assms(5) by (auto simp: rels check_view_def check_permission_def has_permission_def split: if_splits)
  show ?thesis using both meta rels denied by simp
qed

definition expired_meta :: share_meta where
  "expired_meta = \<lparr>sm_owner_handle = ''pilot'', sm_recipient_handle = ''bob'', sm_expires_at = Some 3, sm_note = None, sm_scope = None, sm_created_at = 1\<rparr>"

theorem expired_share_is_denied_witness:
  "let (reply, st') = friend_timeline sharing_pf (sharing_env ''x'' 5) (signed_in ''bob'') ''pilot'' (Some 1) (shared_pilot\<lparr>sx_meta := [expired_meta]\<rparr>)
   in reply = NotFound \<and> sx_rels st' = [] \<and> check_view sample_service ''pilot'' ''bob'' st' = Some False"
proof -
  let ?st = "shared_pilot\<lparr>sx_meta := [expired_meta]\<rparr>"
  have rels: "sx_rels ?st = [Rel ''stats_record'' ''pilot'' ''share_with_user'' ''user'' ''bob'']" by (simp add: shared_pilot_def)
  have days: "resolve_timeline_days (Some 1) = Some 1" by (simp add: resolve_timeline_days_def TIMELINE_DAYS_MAX_def)
  have "check_view sample_service ''pilot'' (au_preferred_username (signed_in ''bob'')) ?st = Some True"
    by (simp add: check_view_def check_permission_def has_permission_def stats_view_iff related_def rels)
  moreover have "find_meta (pf_lower sharing_pf) ''pilot'' (au_preferred_username (signed_in ''bob'')) (sx_meta ?st) = Some expired_meta"
    by (simp add: find_meta_def meta_key_def expired_meta_def sample_lowers)
  moreover have "sm_expires_at expired_meta = Some 3" by (simp add: expired_meta_def)
  ultimately show ?thesis
    using expired_share_is_denied [of "sharing_env ''x'' 5" sample_service "''pilot''" "Some 1" 1 "signed_in ''bob''" ?st sharing_pf expired_meta 3]
    by (auto simp: rels days shared_pilot_checked(3) untouch_def stats_view_iff related_def simp del: One_nat_def)
qed

end
