(* ===== verification/Sharing_Abuse.thy ===== *)
theory Sharing_Abuse
  imports Sharing_Props
begin

text \<open>
  The abuse signals of the sharing surface and the places where a request does less, or more, than its
  name says: the rapid-grant limit, reports and the pause they trigger, the resolution of a report,
  and the revocation of a share under another spelling of the recipient.
\<close>

section \<open>The rapid-grant limit\<close>

definition no_created :: "share_state \<Rightarrow> bool" where
  "no_created st \<longleftrightarrow> (\<forall>r \<in> set (at_rows (sx_audit st)). aw_action r \<noteq> ''share.created'')"

lemma no_created_updates [simp]:
  "no_created (st\<lparr>sx_rels := rels\<rparr>) = no_created st" "no_created (st\<lparr>sx_orgs := orgs\<rparr>) = no_created st"
  "no_created (st\<lparr>sx_meta := meta\<rparr>) = no_created st" "no_created (st\<lparr>sx_reports := reports\<rparr>) = no_created st"
  "no_created (st\<lparr>sx_users := users\<rparr>) = no_created st"
  by (simp_all add: no_created_def)

lemma no_created_audit:
  assumes "no_created st" and "act \<noteq> ''share.created''"
  shows "no_created (share_audit pf en sub h act p st)"
proof -
  let ?e = "\<lparr>ae_actor_sub = sub, ae_actor_handle = h, ae_action = act, ae_payload = p\<rparr>"
  obtain ok tbl where a: "append_entry (pf_sha256 pf) (pf_to_vec pf) (sn_now en) ?e (sx_audit st) = (ok, tbl)" by fastforce
  have "\<forall>r \<in> set (at_rows tbl). aw_action r = act \<or> r \<in> set (at_rows (sx_audit st))"
    using a by (auto simp: append_entry_def insert_audit_row_def Let_def split: if_splits prod.splits)
  then show ?thesis using assms a by (auto simp: no_created_def share_audit_def)
qed

lemma no_created_audit_as: "no_created st \<Longrightarrow> act \<noteq> ''share.created'' \<Longrightarrow> no_created (audit_as pf en auth act p st)"
  by (simp add: audit_as_def no_created_audit)

lemma rapid_silent: "no_created st \<Longrightarrow> check_rapid_grant pf en auth st = (None, st)"
proof -
  assume n: "no_created st"
  have "filter (matches_filters (sn_ilike en) \<lparr>af_actor_handle = h, af_action = Some ''share.created'', af_since = s, af_until = None,
      af_limit = l, af_offset = 0\<rparr>) (at_rows (sx_audit st)) = []" for h s l
    using n by (auto simp: filter_empty_conv no_created_def matches_filters_def)
  then show ?thesis by (simp add: check_rapid_grant_def list_entries_def RAPID_GRANT_THRESHOLD_def)
qed

lemma cluster_silent: "no_created st \<Longrightarrow> no_created (check_cross_report_cluster pf en h st)"
  by (simp add: check_cross_report_cluster_def Let_def no_created_audit)

lemma view_silent: "no_created st \<Longrightarrow> no_created (snd (check_view_with_expiry pf en client owner viewer st))"
  by (cases rule: check_view_with_expiry_cases [of pf en client owner viewer st]) (auto simp: lazy_revoke_def no_created_audit)

lemma grant_silent: "no_created st \<Longrightarrow> no_created (snd (grant_share pf en auth recipient e n sc st))"
  by (simp add: grant_share_def no_created_audit_as split: option.split prod.split bool.split)

lemma close_silent:
  assumes "no_created st"
  shows "no_created (snd (delete_account_orgs pf d auth confirm st))"
proof -
  have appended: "set (at_rows (snd (append_entry sha vec now e tbl))) \<subseteq> set (at_rows tbl) \<union> {r. aw_action r = ae_action e}" for sha vec now e tbl
    by (auto simp: append_entry_def insert_audit_row_def Let_def split: if_splits prod.splits)
  have "set (at_rows (ac_audit (snd (delete_account pf d auth confirm ac)))) \<subseteq>
      set (at_rows (ac_audit ac)) \<union> {r. aw_action r = ''user.account_deleted''}" for ac
  proof (cases "resolve_user pf auth ac")
    case (Inr u)
    obtain ok tbl where a: "append_entry (pf_sha256 pf) (pf_to_vec pf) (dw_now d) \<lparr>ae_actor_sub = Some (us_id u),
        ae_actor_handle = Some (us_claimed_handle u), ae_action = ''user.account_deleted'',
        ae_payload = JObject [(''user_id'', JString (us_id u)), (''claimed_handle'', JString (us_claimed_handle u))]\<rparr> (ac_audit ac) = (ok, tbl)"
      by fastforce
    have "ac_audit (snd (delete_account pf d auth confirm ac)) \<in> {ac_audit ac, tbl}"
      using Inr a by (simp add: delete_account_def audit_def cascade_user_def split: bool.split prod.split sum.split)
    moreover have "set (at_rows tbl) \<subseteq> set (at_rows (ac_audit ac)) \<union> {r. aw_action r = ''user.account_deleted''}"
      using appended [of "pf_sha256 pf" "pf_to_vec pf" "dw_now d" "\<lparr>ae_actor_sub = Some (us_id u), ae_actor_handle = Some (us_claimed_handle u),
        ae_action = ''user.account_deleted'', ae_payload = JObject [(''user_id'', JString (us_id u)),
        (''claimed_handle'', JString (us_claimed_handle u))]\<rparr>" "ac_audit ac"] unfolding a by simp
    ultimately show ?thesis by auto
  qed (simp add: delete_account_def)
  from this [of "accounts_of st"] show ?thesis
    using assms by (auto simp: no_created_def delete_account_orgs_def case_prod_beta Let_def)
qed

lemma step_silent:
  assumes "no_created st"
  shows "no_created (share_step pf en auth op st)"
proof (cases op)
  case (AddShare req)
  then show ?thesis using assms rapid_silent [OF assms, of pf en auth] grant_silent [OF assms]
    by (cases rule: add_share_cases [of pf en auth req st]) auto
next
  case (FriendSummary owner)
  then show ?thesis using assms friend_summary_state [of pf en auth owner st] view_silent no_created_audit_as
    by (auto simp: emit_share_viewed_def)
next
  case (FriendTimeline owner days)
  then show ?thesis using assms friend_timeline_state [of pf en auth owner days st] view_silent no_created_audit_as
    by (auto simp: emit_share_viewed_def)
next
  case (ReportShare owner recipient reason details)
  then show ?thesis using assms report_share_state [of pf en auth owner recipient reason details st]
    by (auto simp: after_report_def cluster_silent no_created_audit_as)
next
  case (SetVisibility public)
  then show ?thesis using assms by (simp add: set_visibility_def no_created_audit_as split: option.split prod.split bool.split)
next
  case (DeleteShare recipient)
  then show ?thesis using assms by (simp add: delete_share_def Let_def no_created_audit_as split: option.split prod.split bool.split)
next
  case (ShareWithOrg slug)
  then show ?thesis using assms by (simp add: share_with_org_def no_created_audit_as split: option.split prod.split bool.split)
next
  case (UnshareWithOrg slug)
  then show ?thesis using assms by (simp add: unshare_with_org_def no_created_audit_as split: option.split prod.split bool.split)
next
  case (CreateOrg name)
  then show ?thesis using assms
    by (simp add: create_org_def Let_def no_created_audit_as split: option.split prod.split bool.split sum.split org_error.split)
next
  case (DeleteOrg slug)
  then show ?thesis using assms by (simp add: delete_org_def no_created_audit_as split: option.split prod.split bool.split)
next
  case (AddMember slug member role)
  then show ?thesis using assms by (simp add: add_member_def Let_def no_created_audit_as split: option.split prod.split bool.split)
next
  case (RemoveMember slug member)
  then show ?thesis using assms by (simp add: remove_member_def no_created_audit_as split: option.split prod.split bool.split)
next
  case (DeleteOrgAdmin gate slug)
  then show ?thesis using assms by (simp add: delete_org_admin_def no_created_audit_as split: option.split prod.split bool.split sum.split)
next
  case (ResolveReport gate i outcome nt)
  then show ?thesis using assms
    by (simp add: resolve_report_def no_created_audit_as split: option.split prod.split bool.split sum.split share_report_error.split)
next
  case (SignUp d email password h)
  then show ?thesis using assms by (simp add: no_created_def)
next
  case (CloseAccount d confirm)
  then show ?thesis using close_silent [OF assms] by simp
qed

text \<open>
  The rapid-grant limit never fires: it counts the owner's audit rows \<open>share.created\<close>, but no
  request writes one (a grant is logged as \<open>share.granted\<close>), so from a log without such a row every
  request sequence leaves the check passing for everybody, however many shares were granted; the count
  of grants in the staff overview stays zero for the same reason.
\<close>

theorem rapid_grant_never_fires:
  assumes "share_reaches pf st0 st" and "no_created st0"
  shows "check_rapid_grant pf en auth st = (None, st) \<and> count_audit_action en ''share.created'' since st = 0"
proof -
  have n: "no_created st" using assms by (induction rule: share_reaches.induct) (simp_all add: step_silent)
  then have "filter (matches_filters (sn_ilike en) \<lparr>af_actor_handle = None, af_action = Some ''share.created'', af_since = Some since,
      af_until = None, af_limit = 500, af_offset = 0\<rparr>) (at_rows (sx_audit st)) = []"
    by (auto simp: filter_empty_conv no_created_def matches_filters_def)
  then show ?thesis using rapid_silent [OF n] by (simp add: count_audit_action_def list_entries_def)
qed

theorem rapid_grant_never_fires_witness:
  "check_rapid_grant sharing_pf (sharing_env ''x'' 6) (signed_in ''alice'') (share_step sharing_pf (sharing_env ''r1'' 5) (signed_in ''alice'')
     (AddShare (request_for ''bob'')) (sample_sharing [])) = (None, share_step sharing_pf (sharing_env ''r1'' 5) (signed_in ''alice'')
     (AddShare (request_for ''bob'')) (sample_sharing []))"
  by (rule rapid_grant_never_fires [OF share_reaches.step [OF share_reaches.start], THEN conjunct1])
    (simp add: no_created_def sample_sharing_def)

section \<open>Reports\<close>





definition sample_report :: "uuid \<Rightarrow> share_report" where
  "sample_report i = \<lparr>sp_id = i, sp_reporter_handle = ''bob'', sp_owner_handle = ''alice'', sp_recipient_handle = ''bob'',
     sp_reason = Spam, sp_details = None, sp_status = Open, sp_created_at = 1, sp_resolved_at = None, sp_resolved_by = None,
     sp_resolution_note = None\<rparr>"


text \<open>
  A report is resolved at most once, and resolving changes nothing but the report: the accepted
  resolution found it open and leaves it closed under the given outcome, a second one is refused with
  409 and changes nothing; shares, relationships and accounts stay as they are whatever the outcome,
  \<open>share_revoked\<close> and \<open>user_suspended\<close> included.
\<close>

theorem report_resolved_once:
  assumes "fst (resolve_report pf en gate i outcome note st) = ShareReportRow row" and "distinct (map sp_id (sx_reports st))"
  shows "(\<exists>r \<in> set (sx_reports st). sp_id r = i \<and> sp_status r = Open) \<and>
    (let st' = snd (resolve_report pf en gate i outcome note st) in
      row \<in> set (sx_reports st') \<and> sp_id row = i \<and> Some (sp_status row) = report_status_parse outcome \<and> sp_status row \<noteq> Open \<and>
      sx_rels st' = sx_rels st \<and> sx_meta st' = sx_meta st \<and> sx_users st' = sx_users st \<and>
      (\<forall>user outcome' s. report_status_parse outcome' = Some s \<and> is_resolution s \<and> sn_reports_ok en \<longrightarrow>
         resolve_report pf en (Inr user) i outcome' None st' = (SharingAdminError 409 ''already_resolved'', st')))"
proof -
  obtain user s r where g: "gate = Inr user" "report_status_parse outcome = Some s" "is_resolution s" "sn_reports_ok en"
      "find (\<lambda>r. sp_id r = i \<and> sp_status r = Open) (sx_reports st) = Some r"
      "\<not> (case nonblank note of None \<Rightarrow> False | Some n \<Rightarrow> chars_count n > RESOLUTION_NOTE_MAX_LEN)"
    using assms(1) by (auto simp: resolve_report_def resolve_report_row_def Let_def
        split: sum.splits option.splits if_splits share_report_error.splits)
  define f where "f = (\<lambda>r :: share_report. r\<lparr>sp_status := s, sp_resolved_at := Some (sn_now en),
        sp_resolved_by := Some (au_preferred_username user), sp_resolution_note := nonblank note\<rparr>)"
  define st' where "st' = snd (resolve_report pf en gate i outcome note st)"
  have r: "r \<in> set (sx_reports st)" "sp_id r = i" "sp_status r = Open" using g(5) by (auto simp: find_Some_iff)
  have res: "resolve_report_row i (sn_now en) (au_preferred_username user) s (nonblank note) (sx_reports st) =
      (Inr (f r), map (\<lambda>r. if sp_id r = i \<and> sp_status r = Open then f r else r) (sx_reports st))"
    by (simp add: resolve_report_row_def Let_def g(5) f_def)
  have row: "row = f r" using assms(1) g res by (simp add: resolve_report_def)
  have reports: "sx_reports st' = map (\<lambda>r. if sp_id r = i \<and> sp_status r = Open then f r else r) (sx_reports st)"
    using g res by (simp add: st'_def resolve_report_def)
  have s: "s \<noteq> Open" using g(3) by auto
  have closed: "sp_status x \<noteq> Open" if x: "x \<in> set (sx_reports st')" "sp_id x = i" for x
  proof -
    obtain y where "x = (if sp_id y = i \<and> sp_status y = Open then f y else y)" using x(1) unfolding reports set_map by blast
    then show ?thesis using x(2) s by (cases "sp_id y = i \<and> sp_status y = Open") (auto simp: f_def)
  qed
  have none: "find (\<lambda>r. sp_id r = i \<and> sp_status r = Open) (sx_reports st') = None" unfolding find_None_iff using closed by blast
  have id: "sp_id row = i" by (simp add: row r(2) f_def)
  have "row \<in> set (sx_reports st')" unfolding reports row using r by force
  moreover have "i \<in> sp_id ` set (sx_reports st')" using imageI [OF calculation, of sp_id] id by simp
  then have "resolve_report pf en (Inr u) i outcome' None st' = (SharingAdminError 409 ''already_resolved'', st')"
    if "report_status_parse outcome' = Some s'" "is_resolution s'" for u outcome' s'
    using that g(4) none by (simp add: resolve_report_def resolve_report_row_def nonblank_def)
  moreover have "sx_rels st' = sx_rels st" "sx_meta st' = sx_meta st" "sx_users st' = sx_users st" by (simp_all add: st'_def)
  ultimately show ?thesis unfolding Let_def st'_def [symmetric] using r row s g(2) by (auto simp: f_def)
qed

theorem report_resolved_once_witness:
  "sp_status (sample_report ''r1''\<lparr>sp_status := Dismissed, sp_resolved_at := Some 5, sp_resolved_by := Some ''carol'',
     sp_resolution_note := None\<rparr>) \<noteq> Open"
  using report_resolved_once [of sharing_pf "sharing_env ''x'' 5" "Inr (signed_in ''carol'')" "''r1''" "''dismissed''" None
      "(sample_sharing [])\<lparr>sx_reports := [sample_report ''r1'']\<rparr>"
      "sample_report ''r1''\<lparr>sp_status := Dismissed, sp_resolved_at := Some 5, sp_resolved_by := Some ''carol'', sp_resolution_note := None\<rparr>"]
  by (simp add: resolve_report_def report_status_parse_def nonblank_def resolve_report_row_def sample_report_def Let_def)

section \<open>Granting and revoking\<close>

lemma stored_scope_small: "stored_scope sc = Inr (Some s) \<Longrightarrow> sc_window_days s = Some n \<Longrightarrow> n < 2 ^ 32"
  by (auto simp: stored_scope_def validate_scope_def SCOPE_MAX_WINDOW_DAYS_def split: option.splits if_splits sum.splits)

text \<open>
  C17. What a grant stores is what the reads of the record use: after an accepted \<open>add_share\<close> the named
  recipient can see the record, and reading the share's metadata back, through its JSON column, gives
  the requested expiry and the requested scope, \<open>full\<close> being no scope at all.
\<close>

theorem granted_share_reads_back:
  assumes "fst (add_share pf en auth req st) = ShareResponse recipient" and "sn_meta_ok en" and "sn_meta_ok en'"
  shows "stats_view (sx_rels (snd (add_share pf en auth req st))) (au_preferred_username auth) recipient \<and>
    stored_scope (rq_scope req) = Inr (scope_of_share pf en' (au_preferred_username auth) recipient (snd (add_share pf en auth req st))) \<and>
    Option.bind (find_meta (pf_lower pf) (au_preferred_username auth) recipient (sx_meta (snd (add_share pf en auth req st)))) sm_expires_at =
      rq_expires_at req"
proof (cases rule: add_share_cases [of pf en auth req st])
  case refused
  then show ?thesis using assms(1) by simp
next
  case (granted u scope)
  let ?me = "au_preferred_username auth"
  have g: "fst (grant_share pf en auth (us_claimed_handle u) (rq_expires_at req) (nonblank (rq_note req)) scope st) = ShareResponse recipient"
    using assms(1) granted(6) by simp
  obtain client where client: "sn_spice en = Some client" using g by (cases "sn_spice en") (simp_all add: grant_share_def)
  obtain ok rels where w: "write_share_with_user client ?me (us_claimed_handle u) (sx_rels st) = (ok, rels)" by fastforce
  have "ok" and "recipient = us_claimed_handle u" using g client w by (cases ok; simp add: grant_share_def)+
  then have c: "sn_spice en = Some client" "write_share_with_user client ?me (us_claimed_handle u) (sx_rels st) = (True, rels)"
      "recipient = us_claimed_handle u" using client w by simp_all
  have st': "sx_rels (snd (add_share pf en auth req st)) = rels"
      "sx_meta (snd (add_share pf en auth req st)) = upsert_meta (pf_lower pf) (sn_now en) ?me recipient (rq_expires_at req)
         (nonblank (rq_note req)) (map_option scope_to_value scope) (sx_meta st)"
    unfolding granted(6) using c assms(2) by (simp_all add: grant_share_def)
  have "Rel ''stats_record'' ?me ''share_with_user'' ''user'' recipient \<in> set rels"
    using c(2,3) by (auto simp: write_share_with_user_def run_writes_single split: if_splits)
  moreover obtain m where m: "find_meta (pf_lower pf) ?me recipient (sx_meta (snd (add_share pf en auth req st))) = Some m"
      "sm_expires_at m = rq_expires_at req" "sm_scope m = map_option scope_to_value scope"
    unfolding st' using find_meta_upsert [of "pf_lower pf" ?me recipient] by blast
  moreover have "Option.bind (map_option scope_to_value scope) scope_from_value = scope"
  proof (cases scope)
    case (Some s)
    then show ?thesis using scope_value_inv [of s] stored_scope_small granted(5) by (simp add: Some)
  qed simp
  ultimately show ?thesis using granted(5) assms(3) by (simp add: st'(1) stats_view_iff related_def scope_of_share_def)
qed

definition scoped_request :: share_request where
  "scoped_request = (request_for ''bob'')\<lparr>rq_scope := Some \<lparr>sc_kind = ''timeline'', sc_tabs = None, sc_window_days = Some 7,
     sc_allow_event_types = None, sc_deny_event_types = Some [''death'']\<rparr>\<rparr>"

lemma scoped_stored: "stored_scope (rq_scope scoped_request) = Inr (rq_scope scoped_request)"
  by code_simp

theorem granted_share_reads_back_witness:
  "scope_of_share sharing_pf (sharing_env ''x'' 6) ''alice'' ''bob''
     (snd (add_share sharing_pf (sharing_env ''r1'' 5) (signed_in ''alice'') scoped_request (sample_sharing []))) = rq_scope scoped_request"
proof -
  have "add_share sharing_pf (sharing_env ''r1'' 5) (signed_in ''alice'') scoped_request (sample_sharing []) =
      grant_share sharing_pf (sharing_env ''r1'' 5) (signed_in ''alice'') ''bob'' None None (rq_scope scoped_request) (sample_sharing [])"
    using scoped_stored
    by (simp add: add_share_def sample_rsi sample_found sample_valid_handles sample_rapid scoped_request_def request_for_def
        get_shares_paused_until_by_handle_def eq_ignore_ascii_case_def sample_lowers nonblank_def)
  then have "fst (add_share sharing_pf (sharing_env ''r1'' 5) (signed_in ''alice'') scoped_request (sample_sharing [])) = ShareResponse ''bob''"
    by (simp add: grant_share_def write_share_with_user_def run_writes_single)
  from granted_share_reads_back [OF this, of "sharing_env ''x'' 6"] show ?thesis using scoped_stored by simp
qed

text \<open>
  Revoking a share under another spelling of the recipient is answered as done but keeps the
  grant: the relationship is deleted under the spelling of the path, which is not the stored one, while
  the metadata is deleted whatever the spelling; so the recipient still sees the record, now without
  the expiry and the scope of the share.
\<close>

theorem revoke_other_spelling_keeps_grant:
  assumes "sn_spice en = Some client" and "0 < sp_writes client" and "sn_meta_ok en" and "validate_handle (trim h)"
    and "Rel ''stats_record'' (au_preferred_username auth) ''share_with_user'' ''user'' recipient \<in> set (sx_rels st)"
    and "trim h \<noteq> recipient" and "pf_lower pf (trim h) = pf_lower pf recipient"
  shows "fst (delete_share pf en auth h st) = RevokeShareResponse \<and>
    stats_view (sx_rels (snd (delete_share pf en auth h st))) (au_preferred_username auth) recipient \<and>
    find_meta (pf_lower pf) (au_preferred_username auth) recipient (sx_meta (snd (delete_share pf en auth h st))) = None \<and>
    scope_of_share pf en' (au_preferred_username auth) recipient (snd (delete_share pf en auth h st)) = None"
proof -
  have w: "delete_share_with_user client (au_preferred_username auth) (trim h) (sx_rels st) =
      (True, untouch (Rel ''stats_record'' (au_preferred_username auth) ''share_with_user'' ''user'' (trim h)) (sx_rels st))"
    using assms(2) by (simp add: delete_share_with_user_def run_writes_single)
  have r: "fst (delete_share pf en auth h st) = RevokeShareResponse"
    "sx_rels (snd (delete_share pf en auth h st)) =
       untouch (Rel ''stats_record'' (au_preferred_username auth) ''share_with_user'' ''user'' (trim h)) (sx_rels st)"
    "sx_meta (snd (delete_share pf en auth h st)) = delete_meta (pf_lower pf) (au_preferred_username auth) (trim h) (sx_meta st)"
    using assms(1,3,4) w by (simp_all add: delete_share_def Let_def)
  then show ?thesis using assms(5-7) by (simp add: stats_view_iff related_def scope_of_share_def)
qed

theorem revoke_other_spelling_keeps_grant_witness:
  "stats_view (sx_rels (snd (delete_share sharing_pf (sharing_env ''x'' 5) (signed_in ''alice'') ''Bob''
     (sample_sharing [Rel ''stats_record'' ''alice'' ''share_with_user'' ''user'' ''bob''])))) ''alice'' ''bob''"
  using revoke_other_spelling_keeps_grant [of "sharing_env ''x'' 5" sample_service "''Bob''" "signed_in ''alice''" "''bob''"
      "sample_sharing [Rel ''stats_record'' ''alice'' ''share_with_user'' ''user'' ''bob'']" sharing_pf]
  by (simp add: sample_valid_handles sample_lowers)

end
