(* ===== verification/Rsi_Pages.thy ===== *)
theory Rsi_Pages
  imports Accounts
begin

text \<open>
  Models \<^verbatim>\<open>crates/starstats-server/src/rsi_verify.rs\<close>: reading a citizen's public pages. The HTTP
  exchange is a value (what the server sent), the HTML parser with its CSS selectors is the parameter
  \<open>dm\<close> (the crate \<open>scraper\<close>), and \<open>chrono\<close>'s date reader one of its fields; everything that is done with
  the selected elements, the addresses and the bodies is defined here.
\<close>

section \<open>UTF-8\<close>

text \<open>\<open>String::from_utf8\<close>: the well-formed byte sequences of the Unicode standard, table 3-7.\<close>

definition byte_in :: "nat \<Rightarrow> nat \<Rightarrow> char \<Rightarrow> bool" where
  "byte_in lo hi c \<longleftrightarrow> lo \<le> of_char c \<and> of_char c \<le> hi"

fun utf8_valid :: "string \<Rightarrow> bool" where
  "utf8_valid [] \<longleftrightarrow> True"
| "utf8_valid (a # s) \<longleftrightarrow>
     (if byte_in 0 0x7F a then utf8_valid s
      else case s of
        [] \<Rightarrow> False
      | b # s2 \<Rightarrow>
          if byte_in 0xC2 0xDF a then byte_in 0x80 0xBF b \<and> utf8_valid s2
          else (case s2 of
             [] \<Rightarrow> False
           | c # s3 \<Rightarrow>
               if byte_in 0xE0 0xEF a
               then byte_in (if a = CHR 0xE0 then 0xA0 else 0x80) (if a = CHR 0xED then 0x9F else 0xBF) b \<and> byte_in 0x80 0xBF c \<and>
                 utf8_valid s3
               else (case s3 of
                  [] \<Rightarrow> False
                | d # s4 \<Rightarrow>
                    byte_in 0xF0 0xF4 a \<and>
                    byte_in (if a = CHR 0xF0 then 0x90 else 0x80) (if a = CHR 0xF4 then 0x8F else 0xBF) b \<and>
                    byte_in 0x80 0xBF c \<and> byte_in 0x80 0xBF d \<and> utf8_valid s4)))"

section \<open>Fetching\<close>

text \<open>
  What a GET gave: no response, or a status, the chunks of the body (\<open>None\<close> is a read error) and the
  text that \<open>reqwest\<close>'s own \<open>text\<close> makes of the body, if any.
\<close>

record http_response =
  hr_status :: nat
  hr_chunks :: "string option list"
  hr_text :: "string option"

type_synonym fetch = "string \<Rightarrow> http_response option"

definition PROFILE_BASE :: string where
  "PROFILE_BASE = ''https://robertsspaceindustries.com/citizens''"

definition MAX_PROFILE_BODY_BYTES :: nat where
  "MAX_PROFILE_BODY_BYTES = 2 * 1024 * 1024"

definition is_success :: "nat \<Rightarrow> bool" where
  "is_success status \<longleftrightarrow> 200 \<le> status \<and> status < 300"

definition encode_path_segment :: "string \<Rightarrow> string" where
  "encode_path_segment seg = concat (map (\<lambda>c. if is_unreserved c then [c]
     else [CHR ''%'', hex_digit (of_char c div 16), hex_digit (of_char c mod 16)]) seg)"

definition check_bio :: "fetch \<Rightarrow> string \<Rightarrow> string \<Rightarrow> rsi_check_outcome" where
  "check_bio send citizen code =
     (case send (PROFILE_BASE @ ''/'' @ encode_path_segment citizen) of
        None \<Rightarrow> UpstreamUnavailable
      | Some resp \<Rightarrow>
          if hr_status resp = 404 then HandleNotFound
          else if \<not> is_success (hr_status resp) then UpstreamUnavailable
          else (case hr_text resp of
             None \<Rightarrow> UpstreamUnavailable
           | Some body \<Rightarrow> if contains body code then BioContains else BioMissing))"

fun read_chunks :: "string \<Rightarrow> string option list \<Rightarrow> string option" where
  "read_chunks buf [] = (if utf8_valid buf then Some buf else None)"
| "read_chunks buf (None # rest) = None"
| "read_chunks buf (Some chunk # rest) =
     (if length buf + length chunk > MAX_PROFILE_BODY_BYTES then None else read_chunks (buf @ chunk) rest)"

definition read_capped_text :: "http_response \<Rightarrow> string option" where
  "read_capped_text resp = read_chunks [] (hr_chunks resp)"

section \<open>Elements\<close>

record ('d, 'e) dom =
  dm_parse :: "string \<Rightarrow> 'd"
  dm_select_doc :: "string \<Rightarrow> 'd \<Rightarrow> 'e list"
  dm_select :: "string \<Rightarrow> 'e \<Rightarrow> 'e list"
  dm_text :: "'e \<Rightarrow> string list"
  dm_classes :: "'e \<Rightarrow> string list"
  dm_attr :: "string \<Rightarrow> 'e \<Rightarrow> string option"
  dm_parse_date :: "string \<Rightarrow> int option"

definition starts_with_ws :: "string \<Rightarrow> bool" where
  "starts_with_ws s \<longleftrightarrow> match_len ws_encodings s \<noteq> 0"

definition ends_with_ws :: "string \<Rightarrow> bool" where
  "ends_with_ws s \<longleftrightarrow> match_len (map rev ws_encodings) (rev s) \<noteq> 0"

definition collect_text :: "('d, 'e) dom \<Rightarrow> 'e \<Rightarrow> string" where
  "collect_text dm el = fold (\<lambda>chunk out.
     (if out \<noteq> [] \<and> \<not> ends_with_ws out \<and> \<not> starts_with_ws chunk then out @ '' '' else out) @ chunk) (dm_text dm el) []"

definition non_empty :: "string \<Rightarrow> string option" where
  "non_empty s = (if s = [] then None else Some s)"

definition or_else :: "'a option \<Rightarrow> 'a option \<Rightarrow> 'a option" where
  "or_else x y = (case x of Some a \<Rightarrow> Some a | None \<Rightarrow> y)"

definition normal_label :: "string \<Rightarrow> string" where
  "normal_label s = to_ascii_lowercase (trim_end_matches '':'' (trim s))"

text \<open>The walk over the entries, shared by the two lookups.\<close>

fun labelled_value :: "('d, 'e) dom \<Rightarrow> string \<Rightarrow> 'e list \<Rightarrow> string option" where
  "labelled_value dm target [] = None"
| "labelled_value dm target (entry # entries) =
     (case dm_select dm ''.label'' entry of
        [] \<Rightarrow> labelled_value dm target entries
      | label_el # _ \<Rightarrow>
          if normal_label (collect_text dm label_el) \<noteq> target then labelled_value dm target entries
          else (case dm_select dm ''.value'' entry of
             [] \<Rightarrow> labelled_value dm target entries
           | value_el # _ \<Rightarrow> non_empty (trim (collect_text dm value_el))))"

definition find_labelled_entry_value :: "('d, 'e) dom \<Rightarrow> 'e \<Rightarrow> string \<Rightarrow> string option" where
  "find_labelled_entry_value dm el label = labelled_value dm (normal_label label) (dm_select dm ''.entry'' el)"

definition find_labelled_value :: "('d, 'e) dom \<Rightarrow> 'd \<Rightarrow> string \<Rightarrow> string option" where
  "find_labelled_value dm doc label = labelled_value dm (normal_label label) (dm_select_doc dm ''.profile-content .entry'' doc)"

definition find_first_anchor_value :: "('d, 'e) dom \<Rightarrow> 'e \<Rightarrow> string option" where
  "find_first_anchor_value dm el = (case dm_select dm ''.info .entry a.value'' el of [] \<Rightarrow> None | a # _ \<Rightarrow> Some (collect_text dm a))"

section \<open>Organisations\<close>

record rsi_org =
  ro_sid :: string
  ro_name :: string
  ro_rank :: "string option"
  ro_is_main :: bool

definition parse_org_block :: "('d, 'e) dom \<Rightarrow> 'e \<Rightarrow> rsi_org option" where
  "parse_org_block dm el =
     (case Option.bind (or_else (find_labelled_entry_value dm el ''Spectrum Identification (SID)'') (find_labelled_entry_value dm el ''SID''))
             (\<lambda>s. non_empty (trim s)) of
        None \<Rightarrow> None
      | Some sid \<Rightarrow>
     (case Option.bind (or_else (find_first_anchor_value dm el) (find_labelled_entry_value dm el ''Name'')) (\<lambda>s. non_empty (trim s)) of
        None \<Rightarrow> None
      | Some name \<Rightarrow>
          Some \<lparr>ro_sid = sid, ro_name = name,
            ro_rank = Option.bind (or_else (find_labelled_entry_value dm el ''Organization rank'') (find_labelled_entry_value dm el ''Rank''))
              (\<lambda>s. non_empty (trim s)),
            ro_is_main = list_ex (\<lambda>c. c = ''org--main'' \<or> c = ''main'') (dm_classes dm el)\<rparr>))"

definition parse_orgs_html :: "('d, 'e) dom \<Rightarrow> string \<Rightarrow> rsi_org list" where
  "parse_orgs_html dm body = List.map_filter (parse_org_block dm) (dm_select_doc dm ''div.org'' (dm_parse dm body))"

datatype rsi_orgs_outcome = OrgsFound "rsi_org list" | OrgsHandleNotFound | OrgsUpstreamUnavailable

definition fetch_orgs :: "('d, 'e) dom \<Rightarrow> fetch \<Rightarrow> string \<Rightarrow> rsi_orgs_outcome" where
  "fetch_orgs dm send citizen =
     (case send (PROFILE_BASE @ ''/'' @ encode_path_segment citizen @ ''/organizations'') of
        None \<Rightarrow> OrgsUpstreamUnavailable
      | Some resp \<Rightarrow>
          if hr_status resp = 404 then OrgsHandleNotFound
          else if \<not> is_success (hr_status resp) then OrgsUpstreamUnavailable
          else (case read_capped_text resp of
             None \<Rightarrow> OrgsUpstreamUnavailable
           | Some body \<Rightarrow> OrgsFound (parse_orgs_html dm body)))"

section \<open>Profiles\<close>

record badge =
  bd_name :: string
  bd_image_url :: "string option"

record rsi_profile =
  rp_display_name :: "string option"
  rp_enlistment_date :: "int option"
  rp_location :: "string option"
  rp_badges :: "badge list"
  rp_bio :: "string option"
  rp_primary_org_summary :: "string option"

text \<open>\<open>split_whitespace\<close>, with the word that is being read.\<close>

function split_words :: "string \<Rightarrow> string \<Rightarrow> string list" where
  "split_words cur s =
     (if s = [] then (if cur = [] then [] else [cur])
      else let n = match_len ws_encodings s
        in if n = 0 then split_words (cur @ [hd s]) (tl s)
           else (if cur = [] then [] else [cur]) @ split_words [] (drop n s))"
  by auto
termination by (relation "measure (\<lambda>(_, s). length s)") auto

declare split_words.simps [simp del]

fun join_spaces :: "string list \<Rightarrow> string" where
  "join_spaces [] = []"
| "join_spaces [w] = w"
| "join_spaces (w # ws) = w @ '' '' @ join_spaces ws"

definition find_bio :: "('d, 'e) dom \<Rightarrow> 'd \<Rightarrow> string option" where
  "find_bio dm doc =
     Option.bind (or_else (find_labelled_value dm doc ''Bio'')
         (case dm_select_doc dm ''.profile-content .entry.bio .value'' doc of
            [] \<Rightarrow> None
          | el # _ \<Rightarrow> non_empty (trim (collect_text dm el))))
       (\<lambda>value. non_empty (join_spaces (split_words [] value)))"

definition strip_prefix_opt :: "string \<Rightarrow> string \<Rightarrow> string option" where
  "strip_prefix_opt p s = (if starts_with s p then Some (drop (length p) s) else None)"

definition is_rsi_host :: "string \<Rightarrow> bool" where
  "is_rsi_host raw =
     (let host = to_ascii_lowercase (hd (split_on '':'' raw))
      in host = ''robertsspaceindustries.com'' \<or> ends_with host ''.robertsspaceindustries.com'')"

definition is_rsi_url :: "string \<Rightarrow> bool" where
  "is_rsi_url absolute =
     (case strip_prefix_opt ''https://'' absolute of
        None \<Rightarrow> False
      | Some rest \<Rightarrow> is_rsi_host (hd (split_on ''/'' rest)))"

definition normalise_badge_src :: "string \<Rightarrow> string option" where
  "normalise_badge_src raw =
     (let trimmed = trim raw
      in if trimmed = [] then None
         else case strip_prefix_opt ''//'' trimmed of
           Some stripped \<Rightarrow> (let absolute = ''https://'' @ stripped in if is_rsi_url absolute then Some absolute else None)
         | None \<Rightarrow>
             if starts_with trimmed ''/'' then Some (''https://robertsspaceindustries.com'' @ trimmed)
             else (case strip_prefix_opt ''https://'' trimmed of
                Some rest \<Rightarrow> if is_rsi_host (hd (split_on ''/'' rest)) then Some trimmed else None
              | None \<Rightarrow> None))"

definition find_badges :: "('d, 'e) dom \<Rightarrow> 'd \<Rightarrow> badge list" where
  "find_badges dm doc = List.map_filter (\<lambda>img.
     let alt = Option.bind (dm_attr dm ''alt'' img) (\<lambda>s. non_empty (trim s));
         src = Option.bind (Option.bind (dm_attr dm ''src'' img) (\<lambda>s. non_empty (trim s))) normalise_badge_src
     in map_option (\<lambda>name. \<lparr>bd_name = name, bd_image_url = src\<rparr>) alt) (dm_select_doc dm ''.profile-content .badges img'' doc)"

definition find_primary_org_summary :: "('d, 'e) dom \<Rightarrow> 'd \<Rightarrow> string option" where
  "find_primary_org_summary dm doc =
     (case dm_select_doc dm ''.profile-content .main-org .info .entry a.value'' doc of
        [] \<Rightarrow> None
      | el # _ \<Rightarrow> non_empty (trim (collect_text dm el)))"

definition parse_enlistment_date :: "('d, 'e) dom \<Rightarrow> string \<Rightarrow> int option" where
  "parse_enlistment_date dm raw = (let cleaned = trim raw in if cleaned = [] then None else dm_parse_date dm cleaned)"

definition parse_profile_html :: "('d, 'e) dom \<Rightarrow> string \<Rightarrow> rsi_profile" where
  "parse_profile_html dm body =
     (let doc = dm_parse dm body
      in \<lparr>rp_display_name = or_else (find_labelled_value dm doc ''Handle name'') (find_labelled_value dm doc ''Display Name''),
          rp_enlistment_date = Option.bind (find_labelled_value dm doc ''Enlisted'') (parse_enlistment_date dm),
          rp_location = or_else (find_labelled_value dm doc ''Location'') (find_labelled_value dm doc ''Country''),
          rp_badges = find_badges dm doc,
          rp_bio = find_bio dm doc,
          rp_primary_org_summary = find_primary_org_summary dm doc\<rparr>)"

datatype rsi_profile_outcome = ProfileFound rsi_profile | ProfileHandleNotFound | ProfileUpstreamUnavailable

definition fetch_profile :: "('d, 'e) dom \<Rightarrow> fetch \<Rightarrow> string \<Rightarrow> rsi_profile_outcome" where
  "fetch_profile dm send citizen =
     (case send (PROFILE_BASE @ ''/'' @ encode_path_segment citizen) of
        None \<Rightarrow> ProfileUpstreamUnavailable
      | Some resp \<Rightarrow>
          if hr_status resp = 404 then ProfileHandleNotFound
          else if \<not> is_success (hr_status resp) then ProfileUpstreamUnavailable
          else (case read_capped_text resp of
             None \<Rightarrow> ProfileUpstreamUnavailable
           | Some body \<Rightarrow> ProfileFound (parse_profile_html dm body)))"

section \<open>Verification codes\<close>

definition hex_byte :: "u8 \<Rightarrow> string" where
  "hex_byte b = [hex_digit (unat b div 16), hex_digit (unat b mod 16)]"

definition generate_verify_code :: "u8 \<Rightarrow> u8 \<Rightarrow> u8 \<Rightarrow> u8 \<Rightarrow> string" where
  "generate_verify_code b0 b1 b2 b3 = ''STARSTATS-'' @ hex_byte b0 @ hex_byte b1 @ hex_byte b2 @ hex_byte b3"

section \<open>Addresses\<close>

lemma encode_path_segment_eq: "encode_path_segment seg = encode_uri_segment seg"
  unfolding encode_path_segment_def encode_uri_segment_def encode_byte_def ..

lemma separators_reserved: "\<not> is_unreserved (CHR ''/'')" "\<not> is_unreserved (CHR ''?'')" "\<not> is_unreserved (CHR ''#'')"
  by code_simp+

lemma encoded_segment_chars: "set (encode_path_segment seg) \<inter> set ''/?#'' = {}"
proof -
  have "\<forall>c \<in> set (encode_path_segment seg). is_unreserved c \<or> c = CHR ''%''"
    using encode_uri_segment_safe [of seg] by (simp add: encode_path_segment_eq list_all_iff)
  then show ?thesis using separators_reserved by fastforce
qed

text \<open>
  Only the holder of the page can have a handle marked as verified: whenever the verify handler changes
  anything, the caller has an unexpired code, the page asked for is exactly the one whose last path
  segment decodes to the caller's handle (no handle can reach another path), the answer was a success,
  its text contains the code, and the change is the mark on the caller's own row.
\<close>

theorem verified_only_by_page:
  assumes "rsi_verify (check_bio send) pf d auth st = (reply, st')" and "st' \<noteq> st"
  shows "\<exists>u code expiry segment resp body. session_user pf auth st = Inr u \<and> us_rsi_verify_code u = Some code \<and>
    us_rsi_verify_expires_at u = Some expiry \<and> dw_now d < expiry \<and>
    percent_decode segment = us_claimed_handle u \<and> set segment \<inter> set ''/?#'' = {} \<and>
    send (PROFILE_BASE @ ''/'' @ segment) = Some resp \<and> 200 \<le> hr_status resp \<and> hr_status resp < 300 \<and>
    hr_text resp = Some body \<and> contains body code \<and>
    reply = RsiVerifyResponse ''verified'' \<and> st' = st\<lparr>ac_users := mark_rsi_verified (us_id u) (dw_now d) (ac_users st)\<rparr>"
proof -
  obtain u code expiry where u: "session_user pf auth st = Inr u" "us_rsi_verify_code u = Some code" "us_rsi_verify_expires_at u = Some expiry"
    "dw_now d < expiry" "check_bio send (us_claimed_handle u) code = BioContains"
    "reply = RsiVerifyResponse ''verified''" "st' = st\<lparr>ac_users := mark_rsi_verified (us_id u) (dw_now d) (ac_users st)\<rparr>"
    using assms by (auto simp: rsi_verify_def not_le split: sum.splits if_splits option.splits rsi_check_outcome.splits)
  moreover obtain resp body where "send (PROFILE_BASE @ ''/'' @ encode_path_segment (us_claimed_handle u)) = Some resp"
    "200 \<le> hr_status resp" "hr_status resp < 300" "hr_text resp = Some body" "contains body code"
    using u(5) by (auto simp: check_bio_def is_success_def split: option.splits if_splits)
  moreover have "percent_decode (encode_path_segment (us_claimed_handle u)) = us_claimed_handle u"
    using encode_uri_segment_safe by (simp add: encode_path_segment_eq)
  ultimately show ?thesis using encoded_segment_chars by blast
qed

section \<open>Bodies\<close>

lemma read_chunks_Some:
  "read_chunks buf chunks = Some body \<Longrightarrow> length buf \<le> MAX_PROFILE_BODY_BYTES \<Longrightarrow>
   body = buf @ concat (somes chunks) \<and> None \<notin> set chunks \<and> length body \<le> MAX_PROFILE_BODY_BYTES \<and> utf8_valid body"
  by (induction buf chunks rule: read_chunks.induct) (auto split: if_splits)

lemma read_capped_text_Some:
  "read_capped_text resp = Some body \<Longrightarrow>
   body = concat (somes (hr_chunks resp)) \<and> None \<notin> set (hr_chunks resp) \<and> length body \<le> MAX_PROFILE_BODY_BYTES \<and> utf8_valid body"
  using read_chunks_Some [of "[]" "hr_chunks resp" body] by (auto simp: read_capped_text_def)

section \<open>Badge images\<close>

text \<open>The host of an address by RFC 3986: the authority ends at a slash, a question mark or a hash, the user information with the last at sign.\<close>

definition url_host :: "string \<Rightarrow> string" where
  "url_host u =
     (let authority = takeWhile (\<lambda>c. c \<notin> set ''/?#'') (drop 8 u)
      in takeWhile (\<lambda>c. c \<noteq> CHR '':'') (rev (takeWhile (\<lambda>c. c \<noteq> CHR ''@'') (rev authority))))"

definition rsi_name :: "string \<Rightarrow> bool" where
  "rsi_name host \<longleftrightarrow> to_ascii_lowercase host = ''robertsspaceindustries.com'' \<or>
     ends_with (to_ascii_lowercase host) ''.robertsspaceindustries.com''"

definition plain_authority :: "string \<Rightarrow> bool" where
  "plain_authority u \<longleftrightarrow> set (hd (split_on ''/'' (drop 8 u))) \<inter> set ''@?#'' = {}"

lemma takeWhile_authority:
  "\<forall>c \<in> set (takeWhile (\<lambda>c. c \<noteq> CHR ''/'') s). c \<noteq> CHR ''?'' \<and> c \<noteq> CHR ''#'' \<Longrightarrow>
   takeWhile (\<lambda>c. c \<notin> set ''/?#'') s = takeWhile (\<lambda>c. c \<noteq> CHR ''/'') s"
  by (induction s) auto

lemma plain_host:
  assumes "plain_authority u"
  shows "url_host u = hd (split_on '':'' (hd (split_on ''/'' (drop 8 u))))"
proof -
  let ?rest = "drop 8 u" and ?a = "takeWhile (\<lambda>c. c \<noteq> CHR ''/'') (drop 8 u)"
  have a: "hd (split_on ''/'' ?rest) = ?a" by (simp add: split_on_first)
  have plain: "\<forall>c \<in> set ?a. c \<noteq> CHR ''@'' \<and> c \<noteq> CHR ''?'' \<and> c \<noteq> CHR ''#''" using assms a by (auto simp: plain_authority_def)
  then have tw: "takeWhile (\<lambda>c. c \<notin> set ''/?#'') ?rest = ?a" by (intro takeWhile_authority) blast
  have "takeWhile (\<lambda>c. c \<noteq> CHR ''@'') (rev ?a) = rev ?a" using plain unfolding takeWhile_eq_all_conv by simp
  then have at_sign: "rev (takeWhile (\<lambda>c. c \<noteq> CHR ''@'') (rev ?a)) = ?a" by (simp only: rev_rev_ident)
  show ?thesis unfolding url_host_def Let_def tw at_sign a by (simp add: split_on_first)
qed

lemma prefix_cut: "starts_with s p \<Longrightarrow> s = p @ drop (length p) s"
  by (auto simp: starts_with_iff)

text \<open>
  A badge image points at RSI unless its authority has user information, a query or a fragment: an address
  that is kept is an \<open>https\<close> address, and with a plain authority its host is the RSI domain or a
  subdomain, whatever the scraped attribute was; a path of the page is resolved against the RSI domain.
\<close>

theorem badge_image_is_rsi:
  assumes "normalise_badge_src raw = Some u"
  shows "starts_with u ''https://'' \<and> (plain_authority u \<longrightarrow> rsi_name (url_host u))"
proof -
  let ?t = "trim raw"
  have https: "is_rsi_host (hd (split_on ''/'' (drop 8 v))) \<Longrightarrow> plain_authority v \<Longrightarrow> rsi_name (url_host v)" for v
    by (simp add: plain_host is_rsi_host_def rsi_name_def Let_def)
  consider (scheme_relative) "starts_with ?t ''//''" "u = ''https://'' @ drop 2 ?t" "is_rsi_host (hd (split_on ''/'' (drop 2 ?t)))"
    | (path) "starts_with ?t ''/''" "u = ''https://robertsspaceindustries.com'' @ ?t"
    | (absolute) "starts_with ?t ''https://''" "u = ?t" "is_rsi_host (hd (split_on ''/'' (drop 8 ?t)))"
    using assms by (auto simp: normalise_badge_src_def strip_prefix_opt_def is_rsi_url_def starts_with_iff Let_def split: if_splits)
  then show ?thesis
  proof cases
    case scheme_relative
    then show ?thesis using https [of u] by (simp add: starts_with_iff)
  next
    case path
    then obtain v where v: "?t = CHR ''/'' # v" by (auto simp: starts_with_iff)
    have "url_host u = ''robertsspaceindustries.com''" unfolding path(2) v by (simp add: url_host_def)
    then show ?thesis using path(2) by (simp add: starts_with_iff rsi_name_def to_ascii_lowercase_def to_lower_char_def)
  next
    case absolute
    then show ?thesis using https [of u] by simp
  qed
qed

text \<open>
  The check of the host is too weak: with user information that starts like the RSI domain, or a question
  mark before it, an address of another host is kept.
\<close>

theorem badge_image_host_bypass:
  "normalise_badge_src ''https://robertsspaceindustries.com:x@evil.example/b.png'' =
     Some ''https://robertsspaceindustries.com:x@evil.example/b.png'' \<and>
   url_host ''https://robertsspaceindustries.com:x@evil.example/b.png'' = ''evil.example'' \<and>
   normalise_badge_src ''//evil.example?.robertsspaceindustries.com/b.png'' =
     Some ''https://evil.example?.robertsspaceindustries.com/b.png'' \<and>
   url_host ''https://evil.example?.robertsspaceindustries.com/b.png'' = ''evil.example''"
  by code_simp

section \<open>Snapshots\<close>

lemma non_empty_Some [simp]: "non_empty s = Some t \<longleftrightarrow> s = t \<and> t \<noteq> []"
  by (auto simp: non_empty_def)

text \<open>
  A snapshot of the organisations is only taken from a complete page of bounded size: the status is a
  success, no chunk failed, the chunks make at most two megabytes of well-formed UTF-8, and every entry
  comes from an organisation block with a spectrum id and a name that are not empty; a page that does not
  exist or cannot be read gives no snapshot.
\<close>

theorem orgs_snapshot_sound:
  assumes "fetch_orgs dm send citizen = OrgsFound orgs"
  shows "\<exists>resp body. send (PROFILE_BASE @ ''/'' @ encode_path_segment citizen @ ''/organizations'') = Some resp \<and>
    200 \<le> hr_status resp \<and> hr_status resp < 300 \<and> None \<notin> set (hr_chunks resp) \<and> body = concat (somes (hr_chunks resp)) \<and>
    length body \<le> 2097152 \<and> utf8_valid body \<and> orgs = parse_orgs_html dm body \<and>
    list_all (\<lambda>g. ro_sid g \<noteq> [] \<and> ro_name g \<noteq> [] \<and> ro_rank g \<noteq> Some []) orgs"
proof -
  obtain resp body where r: "send (PROFILE_BASE @ ''/'' @ encode_path_segment citizen @ ''/organizations'') = Some resp"
    "200 \<le> hr_status resp" "hr_status resp < 300" "read_capped_text resp = Some body" "orgs = parse_orgs_html dm body"
    using assms by (auto simp: fetch_orgs_def is_success_def split: option.splits if_splits)
  have "list_all (\<lambda>g. ro_sid g \<noteq> [] \<and> ro_name g \<noteq> [] \<and> ro_rank g \<noteq> Some []) orgs"
    unfolding r(5) parse_orgs_html_def list_all_iff
    by (auto simp: List.map_filter_def parse_org_block_def bind_eq_Some_conv split: option.splits)
  then show ?thesis using r read_capped_text_Some [OF r(4)] by (auto simp: MAX_PROFILE_BODY_BYTES_def)
qed

section \<open>Verification codes\<close>

lemma hex_byte_inj:
  assumes "hex_byte a = hex_byte b"
  shows "a = b"
proof -
  have u: "unat x < 2 ^ LENGTH(8)" for x :: u8 by (rule unsigned_less)
  have n: "unat x div 16 < 16" "unat x mod 16 < 16" for x :: u8
    using u [of x] by (simp_all add: less_mult_imp_div_less)
  have "hex_val (hex_digit (unat a div 16)) = hex_val (hex_digit (unat b div 16))"
    "hex_val (hex_digit (unat a mod 16)) = hex_val (hex_digit (unat b mod 16))" using assms by (simp_all add: hex_byte_def)
  then have "unat a div 16 = unat b div 16" "unat a mod 16 = unat b mod 16" using n by (simp_all add: hex_digit_val)
  then have "unat a = unat b" by (metis div_mod_decomp)
  then show ?thesis by (simp add: word_unat_eq_iff)
qed

text \<open>No two draws of four bytes give the same verification code, and every code has 18 characters.\<close>

theorem verify_codes_distinct:
  "(generate_verify_code a0 a1 a2 a3 = generate_verify_code b0 b1 b2 b3) = ([a0, a1, a2, a3] = [b0, b1, b2, b3]) \<and>
   length (generate_verify_code a0 a1 a2 a3) = 18"
proof -
  have l: "length (hex_byte b) = 2" for b by (simp add: hex_byte_def)
  have "hex_byte a0 @ hex_byte a1 @ hex_byte a2 @ hex_byte a3 = hex_byte b0 @ hex_byte b1 @ hex_byte b2 @ hex_byte b3 \<longleftrightarrow>
      hex_byte a0 = hex_byte b0 \<and> hex_byte a1 = hex_byte b1 \<and> hex_byte a2 = hex_byte b2 \<and> hex_byte a3 = hex_byte b3"
    using l by (simp add: append_eq_append_conv)
  then show ?thesis using hex_byte_inj l by (auto simp: generate_verify_code_def)
qed

section \<open>Concrete instances\<close>

definition sample_pending :: account_state where
  "sample_pending = empty_accounts\<lparr>ac_users :=
     [sample_account\<lparr>us_rsi_verify_code := Some ''code'', us_rsi_verify_expires_at := Some 200\<rparr>]\<rparr>"

definition sample_page :: fetch where
  "sample_page url = (if url = ''https://robertsspaceindustries.com/citizens/pilot''
     then Some \<lparr>hr_status = 200, hr_chunks = [], hr_text = Some ''my code is here''\<rparr> else None)"

definition sample_auth :: authenticated_user where
  "sample_auth = \<lparr>au_sub = ''u'', au_preferred_username = ''pilot'', au_token_type = User, au_device_id = None\<rparr>"

lemma sample_pending_verified:
  "rsi_verify (check_bio sample_page) sample_pf sample_draws sample_auth sample_pending =
     (RsiVerifyResponse ''verified'', sample_pending\<lparr>ac_users := mark_rsi_verified ''u'' 100 (ac_users sample_pending)\<rparr>)"
proof -
  have "encode_path_segment ''pilot'' = ''pilot''" by code_simp
  then have "check_bio sample_page ''pilot'' ''code'' = BioContains"
    by (simp add: check_bio_def sample_page_def PROFILE_BASE_def is_success_def starts_with_def)
  then show ?thesis
    by (simp add: rsi_verify_def session_user_def sample_auth_def sample_pending_def require_user_token_def find_by_id_def sample_pf_def sample_draws_def
        sample_account_def empty_accounts_def)
qed

theorem verified_only_by_page_witness:
  "\<exists>resp body. sample_page ''https://robertsspaceindustries.com/citizens/pilot'' = Some resp \<and> hr_text resp = Some body \<and> contains body ''code''"
proof -
  have "mark_rsi_verified ''u'' 100 (ac_users sample_pending) \<noteq> ac_users sample_pending"
    by (simp add: mark_rsi_verified_def update_user_def sample_pending_def sample_account_def)
  then have "sample_pending\<lparr>ac_users := mark_rsi_verified ''u'' 100 (ac_users sample_pending)\<rparr> \<noteq> sample_pending"
    by (metis account_state.select_convs(1) account_state.surjective account_state.update_convs(1))
  from verified_only_by_page [OF sample_pending_verified this] obtain resp body where
    "hr_text resp = Some body" "\<exists>url. sample_page url = Some resp"
    by blast
  then show ?thesis
    by (auto simp: sample_page_def starts_with_def split: if_splits)
qed

theorem badge_image_is_rsi_witness:
  "normalise_badge_src '' //media.robertsspaceindustries.com/a.png'' = Some ''https://media.robertsspaceindustries.com/a.png'' \<and>
   rsi_name (url_host ''https://media.robertsspaceindustries.com/a.png'')"
proof -
  have n: "normalise_badge_src '' //media.robertsspaceindustries.com/a.png'' = Some ''https://media.robertsspaceindustries.com/a.png''"
    by code_simp
  have "plain_authority ''https://media.robertsspaceindustries.com/a.png''" by code_simp
  with badge_image_is_rsi [OF n] n show ?thesis by blast
qed

text \<open>A document of text elements, with one organisation block.\<close>

definition sample_dom :: "(unit, string) dom" where
  "sample_dom = \<lparr>dm_parse = (\<lambda>_. ()), dm_select_doc = (\<lambda>sel _. if sel = ''div.org'' then [''block''] else []),
     dm_select = (\<lambda>sel el. if el = ''block'' then [''Name''] else if sel = ''.label'' then [''SID''] else [''AEGS'']),
     dm_text = (\<lambda>el. [el]), dm_classes = (\<lambda>_. [''org'', ''main'']), dm_attr = (\<lambda>_ _. None), dm_parse_date = (\<lambda>_. None)\<rparr>"

definition sample_listing :: fetch where
  "sample_listing url = Some \<lparr>hr_status = 200, hr_chunks = [Some ''<ht'', Some ''ml>''], hr_text = None\<rparr>"

theorem orgs_snapshot_sound_witness:
  "\<exists>org. fetch_orgs sample_dom sample_listing ''pilot'' = OrgsFound [org] \<and> ro_sid org = ''AEGS'' \<and> ro_is_main org \<and>
     length (''<ht'' @ ''ml>'') \<le> 2097152 \<and> utf8_valid (''<ht'' @ ''ml>'')"
proof -
  have p: "parse_orgs_html sample_dom (''<ht'' @ ''ml>'') = [\<lparr>ro_sid = ''AEGS'', ro_name = ''Name'', ro_rank = None, ro_is_main = True\<rparr>]"
    by code_simp
  have "utf8_valid (''<ht'' @ ''ml>'')" by code_simp
  then have "fetch_orgs sample_dom sample_listing ''pilot'' = OrgsFound (parse_orgs_html sample_dom (''<ht'' @ ''ml>''))"
    by (simp add: fetch_orgs_def sample_listing_def is_success_def read_capped_text_def MAX_PROFILE_BODY_BYTES_def)
  then have f: "fetch_orgs sample_dom sample_listing ''pilot'' = OrgsFound [\<lparr>ro_sid = ''AEGS'', ro_name = ''Name'', ro_rank = None, ro_is_main = True\<rparr>]"
    unfolding p .
  obtain resp body where "sample_listing (PROFILE_BASE @ ''/'' @ encode_path_segment ''pilot'' @ ''/organizations'') = Some resp"
    "body = concat (somes (hr_chunks resp))" "length body \<le> 2097152" "utf8_valid body"
    using orgs_snapshot_sound [OF f] by blast
  then have "length (''<ht'' @ ''ml>'') \<le> 2097152 \<and> utf8_valid (''<ht'' @ ''ml>'')" by (auto simp: sample_listing_def simp del: utf8_valid.simps)
  with f show ?thesis by (intro exI [of _ "\<lparr>ro_sid = ''AEGS'', ro_name = ''Name'', ro_rank = None, ro_is_main = True\<rparr>"]) simp
qed

end
