(* ===== verification/Snapshots.thy ===== *)
theory Snapshots
  imports Rsi_Pages Sharing Admin_Routes
begin

text \<open>
  Models the per-user snapshots of \<^verbatim>\<open>crates/starstats-server/src\<close>: \<^verbatim>\<open>profile_store.rs\<close>,
  \<^verbatim>\<open>rsi_org_store.rs\<close>, \<^verbatim>\<open>hangar_store.rs\<close> and \<^verbatim>\<open>preferences_store.rs\<close> with the handlers of
  \<^verbatim>\<open>rsi_profile_routes.rs\<close>, \<^verbatim>\<open>rsi_org_routes.rs\<close>, \<^verbatim>\<open>hangar_routes.rs\<close> and \<^verbatim>\<open>preferences_routes.rs\<close>.
  The tables refer to the users (migrations 0011, 0013, 0014, 0015). Rate limits per address and body
  limits belong to the HTTP layer and are left out; whether the n-th statement of a request reaches the
  database is a parameter.
\<close>

section \<open>Stores\<close>

record profile_snapshot =
  zp_user_id :: uuid
  zp_captured_at :: micros
  zp_profile :: rsi_profile

record hangar_ship =
  sh_name :: string
  sh_manufacturer :: "string option"
  sh_pledge_id :: "string option"
  sh_kind :: "string option"

record hangar_snapshot =
  zh_captured_at :: micros
  zh_ships :: "hangar_ship list"

record rsi_orgs_snapshot =
  zo_captured_at :: micros
  zo_orgs :: "rsi_org list"

record user_preferences =
  up_theme :: "string option"

record snapshot_tables =
  sz_users :: user_table
  sz_profiles :: "profile_snapshot list"
  sz_hangars :: "uuid \<Rightarrow> hangar_snapshot option"
  sz_rsi_orgs :: "uuid \<Rightarrow> rsi_orgs_snapshot option"
  sz_preferences :: "uuid \<Rightarrow> user_preferences"

text \<open>A snapshot needs its user, and a profile snapshot a time of its own.\<close>

definition user_exists :: "uuid \<Rightarrow> snapshot_tables \<Rightarrow> bool" where
  "user_exists i st \<longleftrightarrow> i \<in> us_id ` set (sz_users st)"

definition save_profile :: "profile_snapshot \<Rightarrow> snapshot_tables \<Rightarrow> snapshot_tables option" where
  "save_profile s st =
     (if \<not> user_exists (zp_user_id s) st \<or>
         (\<exists>p \<in> set (sz_profiles st). zp_user_id p = zp_user_id s \<and> zp_captured_at p = zp_captured_at s) then None
      else Some (st\<lparr>sz_profiles := sz_profiles st @ [s]\<rparr>))"

definition newest_profile :: "profile_snapshot list \<Rightarrow> profile_snapshot option" where
  "newest_profile ps = (case sort_key (\<lambda>p. - zp_captured_at p) ps of [] \<Rightarrow> None | p # _ \<Rightarrow> Some p)"

definition latest_profile_for_user :: "uuid \<Rightarrow> snapshot_tables \<Rightarrow> profile_snapshot option" where
  "latest_profile_for_user i st = newest_profile (filter (\<lambda>p. zp_user_id p = i) (sz_profiles st))"

definition latest_profile_for_handle :: "(string \<Rightarrow> string) \<Rightarrow> string \<Rightarrow> snapshot_tables \<Rightarrow> profile_snapshot option" where
  "latest_profile_for_handle lower citizen st =
     newest_profile (filter (\<lambda>p. \<exists>u \<in> set (sz_users st). us_id u = zp_user_id p \<and> lower (us_claimed_handle u) = lower citizen) (sz_profiles st))"

definition put_hangar :: "micros \<Rightarrow> uuid \<Rightarrow> hangar_ship list \<Rightarrow> snapshot_tables \<Rightarrow> (hangar_snapshot \<times> snapshot_tables) option" where
  "put_hangar now i ships st =
     (if \<not> user_exists i st then None
      else let s = \<lparr>zh_captured_at = now, zh_ships = ships\<rparr> in Some (s, st\<lparr>sz_hangars := (sz_hangars st)(i \<mapsto> s)\<rparr>))"

definition get_hangar :: "uuid \<Rightarrow> snapshot_tables \<Rightarrow> hangar_snapshot option" where
  "get_hangar i st = sz_hangars st i"

definition save_rsi_orgs :: "micros \<Rightarrow> uuid \<Rightarrow> rsi_org list \<Rightarrow> snapshot_tables \<Rightarrow> (rsi_orgs_snapshot \<times> snapshot_tables) option" where
  "save_rsi_orgs now i orgs st =
     (if \<not> user_exists i st then None
      else let s = \<lparr>zo_captured_at = now, zo_orgs = orgs\<rparr> in Some (s, st\<lparr>sz_rsi_orgs := (sz_rsi_orgs st)(i \<mapsto> s)\<rparr>))"

definition latest_rsi_orgs :: "uuid \<Rightarrow> snapshot_tables \<Rightarrow> rsi_orgs_snapshot option" where
  "latest_rsi_orgs i st = sz_rsi_orgs st i"

text \<open>The preferences are a column of the user's row; an update of no row is no error.\<close>

definition get_preferences :: "uuid \<Rightarrow> snapshot_tables \<Rightarrow> user_preferences option" where
  "get_preferences i st = (if user_exists i st then Some (sz_preferences st i) else None)"

definition put_preferences :: "uuid \<Rightarrow> user_preferences \<Rightarrow> snapshot_tables \<Rightarrow> snapshot_tables" where
  "put_preferences i p st = (if user_exists i st then st\<lparr>sz_preferences := (sz_preferences st)(i := p)\<rparr> else st)"

section \<open>Handlers\<close>

record snapshot_env =
  zv_db_ok :: "nat \<Rightarrow> bool"
  zv_now :: micros
  zv_db_now :: micros
  zv_spice :: "spice_service option"

datatype snapshot_reply =
    SnapshotError nat string
  | RefreshTooSoon int
  | SnapshotNotFound
  | ProfileResponse profile_snapshot
  | HangarResponse hangar_snapshot
  | OrgsResponse rsi_orgs_snapshot
  | PreferencesResponse user_preferences

definition PROFILE_REFRESH_COOLDOWN :: micros where
  "PROFILE_REFRESH_COOLDOWN = 3600 * 1000000"

definition RSI_ORGS_REFRESH_COOLDOWN :: micros where
  "RSI_ORGS_REFRESH_COOLDOWN = 3600 * 1000000"

definition MAX_SHIPS_PER_PUSH :: nat where
  "MAX_SHIPS_PER_PUSH = 5000"

definition MAX_FIELD_CHARS :: nat where
  "MAX_FIELD_CHARS = 200"

definition ALLOWED_THEMES :: "string list" where
  "ALLOWED_THEMES = [''nyx'', ''pyro'', ''stanton'', ''terra'']"

text \<open>The minutes of the hint; the remaining time is positive.\<close>

definition wait_minutes :: "micros \<Rightarrow> int" where
  "wait_minutes remaining = max (quot_zero remaining 1000000 div 60) 0 + 1"

text \<open>The checks both refresh handlers make before they fetch: the caller's row, or the answer.\<close>

definition refresh_guard ::
    "platform \<Rightarrow> snapshot_env \<Rightarrow> authenticated_user \<Rightarrow> (uuid \<Rightarrow> micros option) \<Rightarrow> micros \<Rightarrow> snapshot_tables \<Rightarrow> snapshot_reply + user" where
  "refresh_guard pf en auth last_capture cooldown st =
     (case pf_parse_uuid pf (au_sub auth) of
        None \<Rightarrow> Inl (SnapshotError 500 ''bad_subject'')
      | Some i \<Rightarrow>
          if \<not> zv_db_ok en 0 then Inl (SnapshotError 500 ''internal'')
          else (case find_by_id i (sz_users st) of
             None \<Rightarrow> Inl (SnapshotError 401 ''unauthorized'')
           | Some u \<Rightarrow>
               if us_rsi_verified_at u = None then Inl (SnapshotError 422 ''rsi_handle_not_verified'')
               else if \<not> zv_db_ok en 1 then Inl (SnapshotError 500 ''internal'')
               else (case last_capture i of
                  None \<Rightarrow> Inr u
                | Some captured \<Rightarrow>
                    if captured + cooldown > zv_now en then Inl (RefreshTooSoon (wait_minutes (captured + cooldown - zv_now en)))
                    else Inr u)))"

definition refresh_profile ::
    "platform \<Rightarrow> snapshot_env \<Rightarrow> ('d, 'e) dom \<Rightarrow> fetch \<Rightarrow> authenticated_user \<Rightarrow> snapshot_tables \<Rightarrow> snapshot_reply \<times> snapshot_tables" where
  "refresh_profile pf en dm send auth st =
     (case refresh_guard pf en auth (\<lambda>i. map_option zp_captured_at (latest_profile_for_user i st)) PROFILE_REFRESH_COOLDOWN st of
        Inl r \<Rightarrow> (r, st)
      | Inr u \<Rightarrow>
          (case fetch_profile dm send (us_claimed_handle u) of
             ProfileFound profile \<Rightarrow>
               (let s = \<lparr>zp_user_id = us_id u, zp_captured_at = zv_now en, zp_profile = profile\<rparr>
                in case (if zv_db_ok en 2 then save_profile s st else None) of
                     None \<Rightarrow> (SnapshotError 500 ''internal'', st)
                   | Some st' \<Rightarrow> (ProfileResponse s, st'))
           | ProfileHandleNotFound \<Rightarrow> (SnapshotError 404 ''rsi_handle_not_found'', st)
           | ProfileUpstreamUnavailable \<Rightarrow> (SnapshotError 503 ''rsi_unavailable'', st)))"

definition my_profile :: "platform \<Rightarrow> snapshot_env \<Rightarrow> authenticated_user \<Rightarrow> snapshot_tables \<Rightarrow> snapshot_reply" where
  "my_profile pf en auth st =
     (case pf_parse_uuid pf (au_sub auth) of
        None \<Rightarrow> SnapshotError 500 ''bad_subject''
      | Some i \<Rightarrow>
          if \<not> zv_db_ok en 0 then SnapshotError 500 ''internal''
          else (case latest_profile_for_user i st of
             Some s \<Rightarrow> ProfileResponse s
           | None \<Rightarrow> SnapshotError 404 ''no_profile_yet''))"

text \<open>Who asks for a public page: the owner's row once the record is public, or the answer.\<close>

definition public_guard :: "platform \<Rightarrow> snapshot_env \<Rightarrow> string \<Rightarrow> relationships \<Rightarrow> snapshot_tables \<Rightarrow> snapshot_reply + user" where
  "public_guard pf en citizen rels st =
     (if \<not> validate_handle citizen then Inl SnapshotNotFound
      else if \<not> zv_db_ok en 0 then Inl (SnapshotError 500 ''internal'')
      else case find_by_handle (pf_lower pf) citizen (sz_users st) of
        None \<Rightarrow> Inl SnapshotNotFound
      | Some u \<Rightarrow>
     (case zv_spice en of
        None \<Rightarrow> Inl (SnapshotError 503 ''spicedb_unavailable'')
      | Some client \<Rightarrow>
          (case check_permission client \<lparr>ob_type = ''stats_record'', ob_id = us_claimed_handle u\<rparr> ''view''
                  \<lparr>ob_type = ''user'', ob_id = ''*''\<rparr> rels of
             None \<Rightarrow> Inl (SnapshotError 503 ''spicedb_unavailable'')
           | Some False \<Rightarrow> Inl SnapshotNotFound
           | Some True \<Rightarrow> Inr u)))"

definition public_profile :: "platform \<Rightarrow> snapshot_env \<Rightarrow> string \<Rightarrow> relationships \<Rightarrow> snapshot_tables \<Rightarrow> snapshot_reply" where
  "public_profile pf en citizen rels st =
     (case public_guard pf en citizen rels st of
        Inl r \<Rightarrow> r
      | Inr u \<Rightarrow>
          if \<not> zv_db_ok en 1 then SnapshotError 500 ''internal''
          else (case latest_profile_for_handle (pf_lower pf) (us_claimed_handle u) st of
             Some s \<Rightarrow> ProfileResponse s
           | None \<Rightarrow> SnapshotNotFound))"

text \<open>
  Entries with a field that is too long are dropped; after the first main organisation the others are
  made affiliations.
\<close>

definition org_fits :: "rsi_org \<Rightarrow> bool" where
  "org_fits g \<longleftrightarrow> chars_count (ro_sid g) \<le> MAX_FIELD_CHARS \<and> chars_count (ro_name g) \<le> MAX_FIELD_CHARS \<and>
     (case ro_rank g of None \<Rightarrow> True | Some s \<Rightarrow> chars_count s \<le> MAX_FIELD_CHARS)"

fun demote_mains :: "bool \<Rightarrow> rsi_org list \<Rightarrow> rsi_org list" where
  "demote_mains seen_main [] = []"
| "demote_mains seen_main (g # gs) =
     (if ro_is_main g
      then (if seen_main then g\<lparr>ro_is_main := False\<rparr> # demote_mains True gs else g # demote_mains True gs)
      else g # demote_mains seen_main gs)"

definition sanitise_orgs :: "rsi_org list \<Rightarrow> rsi_org list" where
  "sanitise_orgs orgs = demote_mains False (filter org_fits orgs)"

definition refresh_orgs ::
    "platform \<Rightarrow> snapshot_env \<Rightarrow> ('d, 'e) dom \<Rightarrow> fetch \<Rightarrow> authenticated_user \<Rightarrow> snapshot_tables \<Rightarrow> snapshot_reply \<times> snapshot_tables" where
  "refresh_orgs pf en dm send auth st =
     (case refresh_guard pf en auth (\<lambda>i. map_option zo_captured_at (latest_rsi_orgs i st)) RSI_ORGS_REFRESH_COOLDOWN st of
        Inl r \<Rightarrow> (r, st)
      | Inr u \<Rightarrow>
          (case fetch_orgs dm send (us_claimed_handle u) of
             OrgsFound orgs \<Rightarrow>
               (case (if zv_db_ok en 2 then save_rsi_orgs (zv_db_now en) (us_id u) (sanitise_orgs orgs) st else None) of
                  None \<Rightarrow> (SnapshotError 500 ''internal'', st)
                | Some (s, st') \<Rightarrow> (OrgsResponse s, st'))
           | OrgsHandleNotFound \<Rightarrow> (SnapshotError 404 ''rsi_handle_not_found'', st)
           | OrgsUpstreamUnavailable \<Rightarrow> (SnapshotError 503 ''rsi_unavailable'', st)))"

definition my_orgs :: "platform \<Rightarrow> snapshot_env \<Rightarrow> authenticated_user \<Rightarrow> snapshot_tables \<Rightarrow> snapshot_reply" where
  "my_orgs pf en auth st =
     (case pf_parse_uuid pf (au_sub auth) of
        None \<Rightarrow> SnapshotError 500 ''bad_subject''
      | Some i \<Rightarrow>
          if \<not> zv_db_ok en 0 then SnapshotError 500 ''internal''
          else (case latest_rsi_orgs i st of
             Some s \<Rightarrow> OrgsResponse s
           | None \<Rightarrow> SnapshotError 404 ''no_orgs_yet''))"

definition public_orgs :: "platform \<Rightarrow> snapshot_env \<Rightarrow> string \<Rightarrow> relationships \<Rightarrow> snapshot_tables \<Rightarrow> snapshot_reply" where
  "public_orgs pf en citizen rels st =
     (case public_guard pf en citizen rels st of
        Inl r \<Rightarrow> r
      | Inr u \<Rightarrow>
          if \<not> zv_db_ok en 1 then SnapshotError 500 ''internal''
          else (case latest_rsi_orgs (us_id u) st of
             Some s \<Rightarrow> OrgsResponse s
           | None \<Rightarrow> SnapshotNotFound))"

text \<open>The first ship that is refused; the detail of the answer names it.\<close>

definition ship_ok :: "hangar_ship \<Rightarrow> bool" where
  "ship_ok s \<longleftrightarrow> trim (sh_name s) \<noteq> [] \<and> chars_count (sh_name s) \<le> MAX_FIELD_CHARS \<and>
     list_all (\<lambda>x. case x of None \<Rightarrow> True | Some v \<Rightarrow> chars_count v \<le> MAX_FIELD_CHARS) [sh_manufacturer s, sh_pledge_id s, sh_kind s]"

definition validate_ships :: "hangar_ship list \<Rightarrow> hangar_ship option" where
  "validate_ships ships = find (\<lambda>s. \<not> ship_ok s) ships"

definition push_hangar ::
    "platform \<Rightarrow> snapshot_env \<Rightarrow> authenticated_user \<Rightarrow> u16 \<Rightarrow> hangar_ship list \<Rightarrow> snapshot_tables \<Rightarrow> snapshot_reply \<times> snapshot_tables" where
  "push_hangar pf en auth schema_version ships st =
     (if schema_version \<noteq> 1 then (SnapshotError 400 ''unsupported_schema_version'', st)
      else if length ships > MAX_SHIPS_PER_PUSH then (SnapshotError 400 ''ships_too_large'', st)
      else if validate_ships ships \<noteq> None then (SnapshotError 400 ''invalid_ship'', st)
      else case pf_parse_uuid pf (au_sub auth) of
        None \<Rightarrow> (SnapshotError 500 ''bad_subject'', st)
      | Some i \<Rightarrow>
          (case (if zv_db_ok en 0 then put_hangar (zv_db_now en) i ships st else None) of
             None \<Rightarrow> (SnapshotError 500 ''internal'', st)
           | Some (s, st') \<Rightarrow> (HangarResponse s, st')))"

definition my_hangar :: "platform \<Rightarrow> snapshot_env \<Rightarrow> authenticated_user \<Rightarrow> snapshot_tables \<Rightarrow> snapshot_reply" where
  "my_hangar pf en auth st =
     (case pf_parse_uuid pf (au_sub auth) of
        None \<Rightarrow> SnapshotError 500 ''bad_subject''
      | Some i \<Rightarrow>
          if \<not> zv_db_ok en 0 then SnapshotError 500 ''internal''
          else (case get_hangar i st of
             Some s \<Rightarrow> HangarResponse s
           | None \<Rightarrow> SnapshotError 404 ''no_hangar_yet''))"

definition preferences_gate :: "authenticated_user \<Rightarrow> snapshot_reply option" where
  "preferences_gate auth = (if au_token_type auth \<noteq> User then Some (SnapshotError 403 ''user_token_required'') else None)"

definition preferences_get :: "platform \<Rightarrow> snapshot_env \<Rightarrow> authenticated_user \<Rightarrow> snapshot_tables \<Rightarrow> snapshot_reply" where
  "preferences_get pf en auth st =
     (case preferences_gate auth of
        Some r \<Rightarrow> r
      | None \<Rightarrow>
     (case pf_parse_uuid pf (au_sub auth) of
        None \<Rightarrow> SnapshotError 500 ''bad_subject''
      | Some i \<Rightarrow>
          (case (if zv_db_ok en 0 then get_preferences i st else None) of
             Some p \<Rightarrow> PreferencesResponse p
           | None \<Rightarrow> SnapshotError 500 ''internal'')))"

definition preferences_put ::
    "platform \<Rightarrow> snapshot_env \<Rightarrow> authenticated_user \<Rightarrow> user_preferences \<Rightarrow> snapshot_tables \<Rightarrow> snapshot_reply \<times> snapshot_tables" where
  "preferences_put pf en auth body st =
     (case preferences_gate auth of
        Some r \<Rightarrow> (r, st)
      | None \<Rightarrow>
          if (case up_theme body of None \<Rightarrow> False | Some theme \<Rightarrow> theme \<notin> set ALLOWED_THEMES) then (SnapshotError 400 ''invalid_theme'', st)
          else (case pf_parse_uuid pf (au_sub auth) of
             None \<Rightarrow> (SnapshotError 500 ''bad_subject'', st)
           | Some i \<Rightarrow>
               if zv_db_ok en 0 then (PreferencesResponse body, put_preferences i body st)
               else (SnapshotError 500 ''internal'', st)))"

section \<open>The requests as one server\<close>

datatype ('d, 'e) snapshot_request =
    RefreshProfile "('d, 'e) dom" fetch
  | RefreshOrgs "('d, 'e) dom" fetch
  | PushHangar u16 "hangar_ship list"
  | PutPreferences user_preferences

fun serve_snapshot ::
    "platform \<Rightarrow> snapshot_env \<Rightarrow> authenticated_user \<Rightarrow> ('d, 'e) snapshot_request \<Rightarrow> snapshot_tables \<Rightarrow> snapshot_reply \<times> snapshot_tables" where
  "serve_snapshot pf en auth (RefreshProfile dm send) st = refresh_profile pf en dm send auth st"
| "serve_snapshot pf en auth (RefreshOrgs dm send) st = refresh_orgs pf en dm send auth st"
| "serve_snapshot pf en auth (PushHangar version ships) st = push_hangar pf en auth version ships st"
| "serve_snapshot pf en auth (PutPreferences body) st = preferences_put pf en auth body st"

end
