(* ===== verification/Snapshot_Props.thy ===== *)
theory Snapshot_Props
  imports Snapshots
begin

text \<open>
  Properties of the per-user snapshots: what every request keeps of the tables, what a push or a refresh
  stores, how long a caller has to wait, and who may read a public page.
\<close>

section \<open>The stores\<close>

lemma newest_profile_None [simp]: "newest_profile ps = None \<longleftrightarrow> ps = []"
proof -
  have "sort_key (\<lambda>p. - zp_captured_at p) ps = [] \<longleftrightarrow> ps = []" by (metis length_0_conv length_sort)
  then show ?thesis by (auto simp: newest_profile_def split: list.split)
qed

lemma newest_profile_Some: "newest_profile ps = Some p \<Longrightarrow> p \<in> set ps \<and> (\<forall>q \<in> set ps. zp_captured_at q \<le> zp_captured_at p)"
proof -
  assume a: "newest_profile ps = Some p"
  let ?l = "sort_key (\<lambda>p. - zp_captured_at p) ps"
  obtain rest where l: "?l = p # rest" using a by (auto simp: newest_profile_def split: list.splits)
  have s: "sorted (map (\<lambda>p. - zp_captured_at p) ?l)" by (rule sorted_sort_key)
  have "set ?l = set ps" by simp
  then have "set ps = insert p (set rest)" unfolding l by simp
  then show ?thesis using s unfolding l by auto
qed

lemma find_by_id_exists: "find_by_id i (sz_users st) = Some u \<Longrightarrow> us_id u = i \<and> user_exists i st"
  by (auto simp: find_by_id_def find_Some_iff user_exists_def)

lemma refresh_guard_Inr:
  assumes "refresh_guard pf en auth last_capture cooldown st = Inr u"
  shows "pf_parse_uuid pf (au_sub auth) = Some (us_id u) \<and> find_by_id (us_id u) (sz_users st) = Some u \<and> us_rsi_verified_at u \<noteq> None \<and>
    (\<forall>t. last_capture (us_id u) = Some t \<longrightarrow> t + cooldown \<le> zv_now en)"
  using assms find_by_id_exists by (auto simp: refresh_guard_def split: option.splits if_splits)

section \<open>Sanitised organisations\<close>

lemma demote_mains_fields: "map (\<lambda>g. g\<lparr>ro_is_main := False\<rparr>) (demote_mains b gs) = map (\<lambda>g. g\<lparr>ro_is_main := False\<rparr>) gs"
  by (induction b gs rule: demote_mains.induct) simp_all

lemma demote_mains_seen: "filter ro_is_main (demote_mains True gs) = []"
  by (induction gs) simp_all

lemma demote_mains_first: "filter ro_is_main (demote_mains False gs) = take 1 (filter ro_is_main gs)"
  by (induction gs) (simp_all add: demote_mains_seen)

lemma org_fits_unmain [simp]: "org_fits (g\<lparr>ro_is_main := b\<rparr>) = org_fits g"
  by (simp add: org_fits_def)

lemma demote_mains_fit: "list_all org_fits gs \<Longrightarrow> list_all org_fits (demote_mains b gs)"
  by (induction b gs rule: demote_mains.induct) simp_all

text \<open>
  The organisations that are stored are those of the page whose fields fit, in order and unchanged but for
  the mark of the main one: the first marked entry keeps it and no other has it.
\<close>

theorem sanitised_orgs_exact:
  "map (\<lambda>g. g\<lparr>ro_is_main := False\<rparr>) (sanitise_orgs orgs) = map (\<lambda>g. g\<lparr>ro_is_main := False\<rparr>) (filter org_fits orgs) \<and>
   filter ro_is_main (sanitise_orgs orgs) = take 1 (filter ro_is_main (filter org_fits orgs)) \<and> list_all org_fits (sanitise_orgs orgs)"
proof -
  have "list_all org_fits (filter org_fits orgs)" by (simp add: list_all_iff)
  then show ?thesis
    unfolding sanitise_orgs_def demote_mains_fields demote_mains_first by (simp add: demote_mains_fit)
qed

lemma sanitise_orgs_ok: "length (filter ro_is_main (sanitise_orgs orgs)) \<le> 1" "list_all org_fits (sanitise_orgs orgs)"
proof -
  show "length (filter ro_is_main (sanitise_orgs orgs)) \<le> 1" unfolding sanitise_orgs_def demote_mains_first by simp
  have "list_all org_fits (filter org_fits orgs)" by (simp add: list_all_iff)
  then show "list_all org_fits (sanitise_orgs orgs)" unfolding sanitise_orgs_def by (rule demote_mains_fit)
qed

section \<open>What the tables keep\<close>

text \<open>
  Profile snapshots of one user are at least an hour apart, in the order they were taken; a hangar holds at
  most 5000 valid ships; a list of organisations has at most one main one and only fields that fit; a theme
  is one of the four.
\<close>

definition snapshots_ok :: "snapshot_tables \<Rightarrow> bool" where
  "snapshots_ok st \<longleftrightarrow>
     sorted_wrt (\<lambda>p q. zp_user_id p = zp_user_id q \<longrightarrow> zp_captured_at p + 3600000000 \<le> zp_captured_at q) (sz_profiles st) \<and>
     (\<forall>i h. sz_hangars st i = Some h \<longrightarrow> length (zh_ships h) \<le> 5000 \<and> list_all ship_ok (zh_ships h)) \<and>
     (\<forall>i g. sz_rsi_orgs st i = Some g \<longrightarrow> length (filter ro_is_main (zo_orgs g)) \<le> 1 \<and> list_all org_fits (zo_orgs g)) \<and>
     (\<forall>i t. up_theme (sz_preferences st i) = Some t \<longrightarrow> t \<in> set ALLOWED_THEMES)"

lemma refresh_profile_cases:
  assumes "refresh_profile pf en dm send auth st = (r, st')"
  shows "st' = st \<or> (\<exists>u profile s. refresh_guard pf en auth (\<lambda>i. map_option zp_captured_at (latest_profile_for_user i st)) PROFILE_REFRESH_COOLDOWN st = Inr u \<and>
    fetch_profile dm send (us_claimed_handle u) = ProfileFound profile \<and>
    s = \<lparr>zp_user_id = us_id u, zp_captured_at = zv_now en, zp_profile = profile\<rparr> \<and> r = ProfileResponse s \<and>
    st' = st\<lparr>sz_profiles := sz_profiles st @ [s]\<rparr>)"
  using assms by (auto simp: refresh_profile_def save_profile_def Let_def split: sum.splits rsi_profile_outcome.splits if_splits)

lemma refresh_orgs_cases:
  assumes "refresh_orgs pf en dm send auth st = (r, st')"
  shows "st' = st \<or> (\<exists>u orgs s. refresh_guard pf en auth (\<lambda>i. map_option zo_captured_at (latest_rsi_orgs i st)) RSI_ORGS_REFRESH_COOLDOWN st = Inr u \<and>
    fetch_orgs dm send (us_claimed_handle u) = OrgsFound orgs \<and> s = \<lparr>zo_captured_at = zv_db_now en, zo_orgs = sanitise_orgs orgs\<rparr> \<and>
    r = OrgsResponse s \<and> st' = st\<lparr>sz_rsi_orgs := (sz_rsi_orgs st)(us_id u \<mapsto> s)\<rparr>)"
  using assms by (auto simp: refresh_orgs_def save_rsi_orgs_def Let_def split: sum.splits rsi_orgs_outcome.splits if_splits)

lemma push_hangar_cases:
  assumes "push_hangar pf en auth version ships st = (r, st')"
  shows "(st' = st \<and> (\<forall>s. r \<noteq> HangarResponse s)) \<or> (\<exists>i s. pf_parse_uuid pf (au_sub auth) = Some i \<and> user_exists i st \<and> version = 1 \<and> length ships \<le> 5000 \<and>
    list_all ship_ok ships \<and> s = \<lparr>zh_captured_at = zv_db_now en, zh_ships = ships\<rparr> \<and> r = HangarResponse s \<and>
    st' = st\<lparr>sz_hangars := (sz_hangars st)(i \<mapsto> s)\<rparr>)"
  using assms
  by (auto simp: push_hangar_def put_hangar_def validate_ships_def MAX_SHIPS_PER_PUSH_def find_None_iff list_all_iff Let_def not_less
      split: option.splits if_splits)

lemma preferences_put_cases:
  assumes "preferences_put pf en auth body st = (r, st')"
  shows "st' = st \<or> (\<exists>i. pf_parse_uuid pf (au_sub auth) = Some i \<and> user_exists i st \<and> au_token_type auth = User \<and>
    (\<forall>t. up_theme body = Some t \<longrightarrow> t \<in> set ALLOWED_THEMES) \<and> r = PreferencesResponse body \<and>
    st' = st\<lparr>sz_preferences := (sz_preferences st)(i := body)\<rparr>)"
  using assms by (auto simp: preferences_put_def preferences_gate_def put_preferences_def split: option.splits if_splits)

text \<open>
  Every request keeps the tables valid, whatever page, body or token it carries: profile snapshots of one
  user stay at least an hour apart, hangars and organisations within their bounds, and themes known.
\<close>

theorem snapshots_stay_ok:
  assumes "snapshots_ok st" and "serve_snapshot pf en auth req st = (r, st')"
  shows "snapshots_ok st'"
proof (cases req)
  case (RefreshProfile dm send)
  with assms(2) have "refresh_profile pf en dm send auth st = (r, st')" by simp
  from refresh_profile_cases [OF this] show ?thesis
  proof (elim disjE exE conjE)
    fix u profile s
    assume u: "refresh_guard pf en auth (\<lambda>i. map_option zp_captured_at (latest_profile_for_user i st)) PROFILE_REFRESH_COOLDOWN st = Inr u"
      and s: "s = \<lparr>zp_user_id = us_id u, zp_captured_at = zv_now en, zp_profile = profile\<rparr>" "st' = st\<lparr>sz_profiles := sz_profiles st @ [s]\<rparr>"
    have "zp_captured_at p + 3600000000 \<le> zv_now en" if p: "p \<in> set (sz_profiles st)" "zp_user_id p = us_id u" for p
    proof (cases "latest_profile_for_user (us_id u) st")
      case None
      then show ?thesis using p by (auto simp: latest_profile_for_user_def filter_empty_conv)
    next
      case (Some q)
      then have "zp_captured_at p \<le> zp_captured_at q" using newest_profile_Some p by (auto simp: latest_profile_for_user_def)
      moreover have "zp_captured_at q + 3600000000 \<le> zv_now en"
        using refresh_guard_Inr [OF u] Some by (simp add: PROFILE_REFRESH_COOLDOWN_def)
      ultimately show ?thesis by simp
    qed
    then show ?thesis using assms(1) s by (auto simp: snapshots_ok_def sorted_wrt_append)
  qed (use assms(1) in simp)
next
  case (RefreshOrgs dm send)
  with assms(2) have "refresh_orgs pf en dm send auth st = (r, st')" by simp
  from refresh_orgs_cases [OF this] show ?thesis using assms(1) sanitise_orgs_ok
    by (auto simp: snapshots_ok_def split: if_splits)
next
  case (PushHangar version ships)
  with assms(2) have "push_hangar pf en auth version ships st = (r, st')" by simp
  from push_hangar_cases [OF this] show ?thesis using assms(1) by (auto simp: snapshots_ok_def split: if_splits)
next
  case (PutPreferences body)
  with assms(2) have "preferences_put pf en auth body st = (r, st')" by simp
  from preferences_put_cases [OF this] show ?thesis using assms(1) by (auto simp: snapshots_ok_def split: if_splits)
qed

text \<open>
  A pushed hangar is what the owner reads back, and nothing else changes: after a push was answered with a
  snapshot, reading with any token of the same user gives exactly the ships that were sent, other users'
  hangars are as before, and a refused push changes nothing.
\<close>

theorem hangar_push_reads_back:
  assumes "push_hangar pf en auth version ships st = (r, st')"
  shows "(case r of
      HangarResponse s \<Rightarrow> zh_ships s = ships \<and>
        (\<forall>en' auth'. zv_db_ok en' 0 \<longrightarrow> au_sub auth' = au_sub auth \<longrightarrow> my_hangar pf en' auth' st' = HangarResponse s) \<and>
        (\<forall>en' auth'. pf_parse_uuid pf (au_sub auth') \<noteq> pf_parse_uuid pf (au_sub auth) \<longrightarrow> my_hangar pf en' auth' st' = my_hangar pf en' auth' st)
    | _ \<Rightarrow> st' = st)"
  using push_hangar_cases [OF assms]
proof (elim disjE exE conjE)
  assume "st' = st" "\<forall>s. r \<noteq> HangarResponse s"
  then show ?thesis by (cases r) auto
qed (auto simp: my_hangar_def get_hangar_def split: option.split)

lemma wait_minutes_bounds:
  assumes "0 < d"
  shows "d < wait_minutes d * 60000000" "(wait_minutes d - 1) * 60000000 \<le> d"
proof -
  let ?s = "d div 1000000"
  have w: "wait_minutes d = ?s div 60 + 1" using assms by (simp add: wait_minutes_def quot_zero_def pos_imp_zdiv_nonneg_iff)
  have s: "?s * 1000000 \<le> d" "d < (?s + 1) * 1000000"
    using div_mult_mod_eq [of d 1000000] pos_mod_bound [of 1000000 d] pos_mod_sign [of 1000000 d] by (simp_all add: algebra_simps)
  have m: "?s div 60 * 60 \<le> ?s" "?s < (?s div 60 + 1) * 60"
    using div_mult_mod_eq [of ?s 60] pos_mod_bound [of 60 ?s] pos_mod_sign [of 60 ?s] by (simp_all add: algebra_simps)
  show "d < wait_minutes d * 60000000" unfolding w using s(2) m(2) by linarith
  show "(wait_minutes d - 1) * 60000000 \<le> d" unfolding w using order_trans [OF mult_right_mono [OF m(1), of 1000000] s(1)] by simp
qed

lemma refresh_guard_TooSoon:
  assumes "refresh_guard pf en auth last_capture cooldown st = Inl (RefreshTooSoon m)"
  shows "\<exists>i captured. pf_parse_uuid pf (au_sub auth) = Some i \<and> last_capture i = Some captured \<and>
    captured + cooldown > zv_now en \<and> m = wait_minutes (captured + cooldown - zv_now en)"
  using assms by (auto simp: refresh_guard_def split: option.splits if_splits)

lemma refresh_profile_TooSoon:
  "refresh_profile pf en dm send auth st = (RefreshTooSoon m, st') \<Longrightarrow>
   st' = st \<and> refresh_guard pf en auth (\<lambda>i. map_option zp_captured_at (latest_profile_for_user i st)) PROFILE_REFRESH_COOLDOWN st = Inl (RefreshTooSoon m)"
  by (auto simp: refresh_profile_def Let_def split: sum.splits rsi_profile_outcome.splits option.splits)

text \<open>
  The hint of a refused refresh is enough and not much too long: the tables are unchanged, a caller who waits
  the minutes it names is not refused for that reason, and one minute less would end before the hour is over.
\<close>

theorem refresh_hint_suffices:
  assumes "refresh_profile pf en dm send auth st = (RefreshTooSoon m, st')"
  shows "st' = st \<and> 0 < m \<and>
    (\<forall>en' m'. zv_now en' \<ge> zv_now en + m * 60000000 \<longrightarrow> fst (refresh_profile pf en' dm send auth st) \<noteq> RefreshTooSoon m') \<and>
    (\<exists>i captured. pf_parse_uuid pf (au_sub auth) = Some i \<and> map_option zp_captured_at (latest_profile_for_user i st) = Some captured \<and>
      zv_now en + (m - 1) * 60000000 \<le> captured + 3600000000)"
proof -
  note g = refresh_profile_TooSoon [OF assms]
  then obtain i captured where i: "pf_parse_uuid pf (au_sub auth) = Some i" "map_option zp_captured_at (latest_profile_for_user i st) = Some captured"
    "captured + PROFILE_REFRESH_COOLDOWN > zv_now en" "m = wait_minutes (captured + PROFILE_REFRESH_COOLDOWN - zv_now en)"
    using refresh_guard_TooSoon by blast
  let ?d = "captured + PROFILE_REFRESH_COOLDOWN - zv_now en"
  have d: "0 < ?d" using i(3) by simp
  note b = wait_minutes_bounds [OF d, folded i(4)]
  have "fst (refresh_profile pf en' dm send auth st) \<noteq> RefreshTooSoon m'" if "zv_now en' \<ge> zv_now en + m * 60000000" for en' m'
  proof
    assume "fst (refresh_profile pf en' dm send auth st) = RefreshTooSoon m'"
    then have "refresh_profile pf en' dm send auth st = (RefreshTooSoon m', snd (refresh_profile pf en' dm send auth st))" by (metis prod.collapse)
    from refresh_profile_TooSoon [OF this] refresh_guard_TooSoon i(1,2) have "captured + PROFILE_REFRESH_COOLDOWN > zv_now en'" by fastforce
    then show False using that b(1) by linarith
  qed
  moreover have "zv_now en + (m - 1) * 60000000 \<le> captured + 3600000000" using b(2) by (simp add: PROFILE_REFRESH_COOLDOWN_def)
  moreover have "0 < m" using b(1) d by (smt (verit) mult_nonpos_nonneg)
  ultimately show ?thesis using g i(1,2) by blast
qed

section \<open>Public pages\<close>

lemma public_guard_Inr:
  assumes "public_guard pf en citizen rels st = Inr u"
  shows "find_by_handle (pf_lower pf) citizen (sz_users st) = Some u \<and>
    (\<exists>client seen. zv_spice en = Some client \<and> sp_read client rels = Some seen \<and> stats_view seen (us_claimed_handle u) ''*'')"
  using assms by (auto simp: public_guard_def check_permission_def has_permission_def split: option.splits bool.splits if_splits)

text \<open>
  C25. A public page is only shown for a record that everybody may view: whenever an anonymous caller gets a
  profile or a list of organisations, a user exists whose handle is the one asked for up to letter case, the
  relationship service has the public view of that user's own spelling, and what is shown is a stored
  snapshot of that very user.
\<close>

theorem public_pages_need_consent:
  assumes "users_ok (pf_lower pf) (sz_users st)" and "reply = public_profile pf en citizen rels st \<or> reply = public_orgs pf en citizen rels st"
    and "(\<exists>s. reply = ProfileResponse s) \<or> (\<exists>g. reply = OrgsResponse g)"
  shows "\<exists>u client seen. u \<in> set (sz_users st) \<and> pf_lower pf (us_claimed_handle u) = pf_lower pf citizen \<and>
    zv_spice en = Some client \<and> sp_read client rels = Some seen \<and> stats_view seen (us_claimed_handle u) ''*'' \<and>
    ((\<exists>s \<in> set (sz_profiles st). zp_user_id s = us_id u \<and> reply = ProfileResponse s) \<or>
     (\<exists>g. sz_rsi_orgs st (us_id u) = Some g \<and> reply = OrgsResponse g))"
proof -
  obtain u where u: "public_guard pf en citizen rels st = Inr u" and
    shown: "(\<exists>s. latest_profile_for_handle (pf_lower pf) (us_claimed_handle u) st = Some s \<and> reply = ProfileResponse s) \<or>
      (\<exists>g. sz_rsi_orgs st (us_id u) = Some g \<and> reply = OrgsResponse g)"
  proof (cases "public_guard pf en citizen rels st")
    case (Inl r)
    then have "reply = r" using assms(2) by (auto simp: public_profile_def public_orgs_def)
    moreover have "r \<noteq> ProfileResponse s" "r \<noteq> OrgsResponse g" for s g
      using Inl by (auto simp: public_guard_def split: option.splits bool.splits if_splits)
    ultimately show ?thesis using assms(3) by blast
  next
    case (Inr u)
    then show ?thesis using that assms(2,3)
      by (auto simp: public_profile_def public_orgs_def latest_rsi_orgs_def split: if_splits option.splits)
  qed
  have m: "u \<in> set (sz_users st)" "pf_lower pf (us_claimed_handle u) = pf_lower pf citizen"
    using public_guard_Inr [OF u] by (auto simp: find_by_handle_def find_Some_iff)
  have "v = u" if "v \<in> set (sz_users st)" "pf_lower pf (us_claimed_handle v) = pf_lower pf (us_claimed_handle u)" for v
    using that m(1) assms(1) by (auto simp: users_ok_def distinct_map inj_on_def)
  then have "s \<in> set (sz_profiles st) \<and> zp_user_id s = us_id u" if "latest_profile_for_handle (pf_lower pf) (us_claimed_handle u) st = Some s" for s
    using newest_profile_Some that by (fastforce simp: latest_profile_for_handle_def)
  then show ?thesis using public_guard_Inr [OF u] m shown by blast
qed

section \<open>Tokens\<close>

text \<open>
  The hangar takes any token: a valid push replaces the hangar of the token's user for a device's token and
  for the interim token that a login gives before the second factor alike, while the preferences ask for a
  session's token.
\<close>

theorem hangar_takes_any_token:
  assumes "pf_parse_uuid pf (au_sub auth) = Some i" and "user_exists i st" and "zv_db_ok en 0" and "length ships \<le> 5000" and "list_all ship_ok ships"
  shows "push_hangar pf en (auth\<lparr>au_token_type := t\<rparr>) 1 ships st =
      (HangarResponse \<lparr>zh_captured_at = zv_db_now en, zh_ships = ships\<rparr>,
       st\<lparr>sz_hangars := (sz_hangars st)(i \<mapsto> \<lparr>zh_captured_at = zv_db_now en, zh_ships = ships\<rparr>)\<rparr>) \<and>
    (t \<noteq> User \<longrightarrow> preferences_put pf en (auth\<lparr>au_token_type := t\<rparr>) body st = (SnapshotError 403 ''user_token_required'', st))"
proof -
  have "find (\<lambda>s. \<not> ship_ok s) ships = None" using assms(5) by (simp add: find_None_iff list_all_iff)
  then show ?thesis using assms
    by (simp add: push_hangar_def put_hangar_def validate_ships_def MAX_SHIPS_PER_PUSH_def Let_def preferences_put_def preferences_gate_def not_less)
qed

section \<open>Concrete instances\<close>

definition sample_citizen :: user where
  "sample_citizen = sample_account\<lparr>us_rsi_verified_at := Some 5\<rparr>"

definition sample_tables :: snapshot_tables where
  "sample_tables = \<lparr>sz_users = [sample_citizen],
     sz_profiles = [\<lparr>zp_user_id = ''u'', zp_captured_at = 0, zp_profile = parse_profile_html sample_dom []\<rparr>],
     sz_hangars = (\<lambda>_. None), sz_rsi_orgs = (\<lambda>_. None), sz_preferences = (\<lambda>_. \<lparr>up_theme = None\<rparr>)\<rparr>"

definition sample_public :: spice_service where
  "sample_public = \<lparr>sp_writes = 9, sp_read = Some, sp_wildcard_checks = True\<rparr>"

definition sample_senv :: "micros \<Rightarrow> snapshot_env" where
  "sample_senv now = \<lparr>zv_db_ok = (\<lambda>_. True), zv_now = now, zv_db_now = now, zv_spice = Some sample_public\<rparr>"

definition sample_ship :: hangar_ship where
  "sample_ship = \<lparr>sh_name = ''Aurora'', sh_manufacturer = Some ''RSI'', sh_pledge_id = None, sh_kind = None\<rparr>"

lemma sample_ship_ok: "ship_ok sample_ship"
  by code_simp

lemma sample_tables_ok: "snapshots_ok sample_tables"
  by (simp add: snapshots_ok_def sample_tables_def)

lemma sample_push:
  "push_hangar sample_pf (sample_senv 7) sample_auth 1 [sample_ship] sample_tables =
     (HangarResponse \<lparr>zh_captured_at = 7, zh_ships = [sample_ship]\<rparr>,
      sample_tables\<lparr>sz_hangars := (sz_hangars sample_tables)(''u'' \<mapsto> \<lparr>zh_captured_at = 7, zh_ships = [sample_ship]\<rparr>)\<rparr>)"
  using sample_ship_ok
  by (simp add: push_hangar_def put_hangar_def Let_def validate_ships_def MAX_SHIPS_PER_PUSH_def sample_senv_def sample_auth_def sample_pf_def
      user_exists_def sample_tables_def sample_citizen_def sample_account_def)

theorem snapshots_stay_ok_witness:
  "snapshots_ok (snd (push_hangar sample_pf (sample_senv 7) sample_auth 1 [sample_ship] sample_tables))"
proof -
  have "serve_snapshot sample_pf (sample_senv 7) sample_auth (PushHangar 1 [sample_ship]) sample_tables =
      push_hangar sample_pf (sample_senv 7) sample_auth 1 [sample_ship] sample_tables" by simp
  from snapshots_stay_ok [OF sample_tables_ok this [unfolded sample_push]] show ?thesis by (simp add: sample_push)
qed

theorem hangar_push_reads_back_witness:
  "my_hangar sample_pf (sample_senv 9) sample_auth
     (snd (push_hangar sample_pf (sample_senv 7) sample_auth 1 [sample_ship] sample_tables)) =
   HangarResponse \<lparr>zh_captured_at = 7, zh_ships = [sample_ship]\<rparr>"
  using hangar_push_reads_back [OF sample_push] unfolding sample_push by (simp add: sample_senv_def)

theorem refresh_hint_suffices_witness:
  "fst (refresh_profile sample_pf (sample_senv 3540000000) sample_dom sample_page sample_auth sample_tables) = RefreshTooSoon 2 \<and>
   fst (refresh_profile sample_pf (sample_senv (3540000000 + 2 * 60000000)) sample_dom sample_page sample_auth sample_tables) \<noteq> RefreshTooSoon 1"
proof -
  have "refresh_profile sample_pf (sample_senv 3540000000) sample_dom sample_page sample_auth sample_tables = (RefreshTooSoon 2, sample_tables)"
    by (simp add: refresh_profile_def refresh_guard_def sample_pf_def sample_auth_def sample_senv_def find_by_id_def sample_tables_def
        sample_citizen_def sample_account_def latest_profile_for_user_def newest_profile_def PROFILE_REFRESH_COOLDOWN_def wait_minutes_def
        quot_zero_def)
  with refresh_hint_suffices [OF this] show ?thesis by (simp add: sample_senv_def)
qed

theorem public_pages_need_consent_witness:
  "\<exists>s. public_profile sample_pf (sample_senv 7) ''pilot'' [Rel ''stats_record'' ''pilot'' ''public_view'' ''user'' ''*''] sample_tables = ProfileResponse s \<and>
     zp_user_id s = ''u''"
proof -
  let ?rels = "[Rel ''stats_record'' ''pilot'' ''public_view'' ''user'' ''*'']"
  let ?s = "\<lparr>zp_user_id = ''u'', zp_captured_at = 0, zp_profile = parse_profile_html sample_dom []\<rparr>"
  have v: "validate_handle ''pilot''" by (rule sample_strings)
  have "stats_view ?rels ''pilot'' ''*''" by code_simp
  then have p: "public_profile sample_pf (sample_senv 7) ''pilot'' ?rels sample_tables = ProfileResponse ?s"
    using v by (simp add: public_profile_def public_guard_def sample_pf_def sample_senv_def sample_tables_def sample_citizen_def sample_account_def
        find_by_handle_def check_permission_def has_permission_def sample_public_def latest_profile_for_handle_def newest_profile_def)
  have "users_ok (pf_lower sample_pf) (sz_users sample_tables)" by (simp add: users_ok_def sample_tables_def)
  from public_pages_need_consent [OF this, of "ProfileResponse ?s" "sample_senv 7" "''pilot''" ?rels] p show ?thesis
    by auto
qed

theorem hangar_takes_any_token_witness:
  "from_request_parts (pf_jwt sample_pf) (pf_verifier sample_pf) (nat (dw_now sample_draws)) (Some ''ti'') (ac_devices sample_accounts) =
     Inr (sample_auth\<lparr>au_token_type := LoginInterim\<rparr>) \<and>
   fst (push_hangar sample_pf (sample_senv 7) (sample_auth\<lparr>au_token_type := LoginInterim\<rparr>) 1 [] sample_tables) =
     HangarResponse \<lparr>zh_captured_at = 7, zh_ships = []\<rparr>"
proof -
  have "pf_parse_uuid sample_pf (au_sub sample_auth) = Some ''u''" "user_exists ''u'' sample_tables" "zv_db_ok (sample_senv 7) 0"
    by (simp_all add: sample_pf_def sample_auth_def user_exists_def sample_tables_def sample_citizen_def sample_account_def sample_senv_def)
  from hangar_takes_any_token [OF this, of "[]" LoginInterim] show ?thesis
    using sample_interim_user by (simp add: sample_auth_def sample_senv_def)
qed

end
