(* ===== verification/Parser_Submissions.thy ===== *)
theory Parser_Submissions
  imports Ingest
begin

text \<open>
  Models \<^verbatim>\<open>crates/starstats-server/src/parser_submissions.rs\<close> with the wire types of
  \<^verbatim>\<open>crates/starstats-core/src/wire.rs\<close> and the table of \<^verbatim>\<open>migrations/0029_parser_submissions.sql\<close>: the
  intake of unknown lines that users promote. The JSON writers, the clock and the success of each
  statement are parameters; the columns no code writes (status, notes, rule, submitter count) are left out.
\<close>

section \<open>Model\<close>

record context_example =
  ce_before :: "string list"
  ce_after :: "string list"

record parser_submission =
  pb_shape_hash :: string
  pb_raw_examples :: "string list"
  pb_partial_structured :: "(string \<times> string) list"
  pb_shell_tag :: "string option"
  pb_suggested_event_name :: "string option"
  pb_suggested_field_names :: "(string \<times> string) list option"
  pb_notes :: "string option"
  pb_context_examples :: "context_example list"
  pb_game_build :: "string option"
  pb_channel :: log_source
  pb_occurrence_count :: u32
  pb_client_anon_id :: string

record parser_row =
  pw_id :: int
  pw_shape_hash :: string
  pw_client_anon_id :: string
  pw_first_submitted_at :: micros
  pw_last_submitted_at :: micros
  pw_total :: int
  pw_payload :: json

record parser_table =
  pt_rows :: "parser_row list"
  pt_next_id :: int

record parser_env =
  pv_to_vec :: "parser_submission \<Rightarrow> string option"
  pv_to_value :: "parser_submission \<Rightarrow> json option"
  pv_now :: "nat \<Rightarrow> micros"
  pv_db_ok :: "nat \<Rightarrow> bool"

definition MAX_BATCH_SIZE :: nat where
  "MAX_BATCH_SIZE = 200"

definition MAX_PAYLOAD_BYTES :: nat where
  "MAX_PAYLOAD_BYTES = 64 * 1024"

datatype parser_reply =
    ParserError nat string
  | ParserSubmissionResponse u32 u32 "string list"

definition parser_key :: "parser_submission \<Rightarrow> string \<times> string" where
  "parser_key sub = (pb_shape_hash sub, pb_client_anon_id sub)"

definition row_key :: "parser_row \<Rightarrow> string \<times> string" where
  "row_key r = (pw_shape_hash r, pw_client_anon_id r)"

text \<open>The first check that fails, in the order of the loop.\<close>

definition validate_submission :: "parser_env \<Rightarrow> parser_submission \<Rightarrow> string option" where
  "validate_submission en sub =
     (if trim (pb_shape_hash sub) = [] then Some ''invalid_shape_hash''
      else if trim (pb_client_anon_id sub) = [] then Some ''invalid_client_anon_id''
      else if pb_raw_examples sub = [] then Some ''missing_raw_examples''
      else case pv_to_vec en sub of
        Some bytes \<Rightarrow> if length bytes > MAX_PAYLOAD_BYTES then Some ''payload_too_large'' else None
      | None \<Rightarrow> Some ''payload_not_serializable'')"

fun validate_all :: "parser_env \<Rightarrow> parser_submission list \<Rightarrow> string option" where
  "validate_all en [] = None"
| "validate_all en (sub # subs) = (case validate_submission en sub of Some e \<Rightarrow> Some e | None \<Rightarrow> validate_all en subs)"

text \<open>
  The upsert. The count is cast to \<open>i32\<close>; a sum outside the \<open>INTEGER\<close> column fails the statement; the
  sequence of ids moves on whether or not the row was there. The row's state before is told by the flag.
\<close>

definition int4 :: "int \<Rightarrow> bool" where
  "int4 n \<longleftrightarrow> - (2 ^ 31) \<le> n \<and> n < 2 ^ 31"

definition upsert_submission :: "micros \<Rightarrow> parser_submission \<Rightarrow> json \<Rightarrow> parser_table \<Rightarrow> (bool \<times> int) option \<times> parser_table" where
  "upsert_submission now sub payload tbl =
     (let tbl' = tbl\<lparr>pt_next_id := pt_next_id tbl + 1\<rparr>; count = sint (pb_occurrence_count sub)
      in case find (\<lambda>r. row_key r = parser_key sub) (pt_rows tbl) of
           None \<Rightarrow>
             (Some (True, pt_next_id tbl),
              tbl'\<lparr>pt_rows := pt_rows tbl @ [\<lparr>pw_id = pt_next_id tbl, pw_shape_hash = pb_shape_hash sub, pw_client_anon_id = pb_client_anon_id sub,
                pw_first_submitted_at = now, pw_last_submitted_at = now, pw_total = count, pw_payload = payload\<rparr>]\<rparr>)
         | Some r \<Rightarrow>
             if \<not> int4 (pw_total r + count) then (None, tbl')
             else (Some (False, pw_id r),
               tbl'\<lparr>pt_rows := map (\<lambda>q. if row_key q = parser_key sub
                 then q\<lparr>pw_last_submitted_at := now, pw_total := pw_total q + count, pw_payload := payload\<rparr> else q) (pt_rows tbl)\<rparr>))"

text \<open>The write loop; \<open>k\<close> numbers the statements.\<close>

fun store_submissions ::
    "parser_env \<Rightarrow> nat \<Rightarrow> parser_submission list \<Rightarrow> u32 \<times> u32 \<times> string list \<Rightarrow> parser_table \<Rightarrow> parser_reply \<times> parser_table" where
  "store_submissions en k [] (accepted, deduped, ids) tbl = (ParserSubmissionResponse accepted deduped ids, tbl)"
| "store_submissions en k (sub # subs) (accepted, deduped, ids) tbl =
     (case pv_to_value en sub of
        None \<Rightarrow> (ParserError 500 ''submission_serialize_failed'', tbl)
      | Some payload \<Rightarrow>
          if \<not> pv_db_ok en k then (ParserError 500 ''submission_write_failed'', tbl)
          else (case upsert_submission (pv_now en k) sub payload tbl of
             (None, tbl') \<Rightarrow> (ParserError 500 ''submission_write_failed'', tbl')
           | (Some (inserted, i), tbl') \<Rightarrow>
               store_submissions en (Suc k) subs
                 (if inserted then accepted + 1 else accepted, if inserted then deduped else deduped + 1, ids @ [i64_to_string i]) tbl'))"

definition submit :: "parser_env \<Rightarrow> parser_submission list \<Rightarrow> parser_table \<Rightarrow> parser_reply \<times> parser_table" where
  "submit en submissions tbl =
     (if submissions = [] then (ParserError 400 ''empty_batch'', tbl)
      else if length submissions > MAX_BATCH_SIZE then (ParserError 400 ''batch_too_large'', tbl)
      else case validate_all en submissions of
        Some e \<Rightarrow> (ParserError 400 e, tbl)
      | None \<Rightarrow> store_submissions en 0 submissions (0, 0, []) tbl)"

section \<open>Lemmas\<close>

text \<open>One row per shape and install, with identifiers below the sequence.\<close>

definition parser_table_ok :: "parser_table \<Rightarrow> bool" where
  "parser_table_ok tbl \<longleftrightarrow> distinct (map row_key (pt_rows tbl)) \<and> distinct (map pw_id (pt_rows tbl)) \<and>
     list_all (\<lambda>r. pw_id r < pt_next_id tbl \<and> int4 (pw_total r)) (pt_rows tbl)"

text \<open>What is on file for a shape from an install.\<close>

definition total_of :: "parser_table \<Rightarrow> string \<times> string \<Rightarrow> int" where
  "total_of tbl key = (case find (\<lambda>r. row_key r = key) (pt_rows tbl) of None \<Rightarrow> 0 | Some r \<Rightarrow> pw_total r)"

definition id_of :: "parser_table \<Rightarrow> string \<times> string \<Rightarrow> int option" where
  "id_of tbl key = map_option pw_id (find (\<lambda>r. row_key r = key) (pt_rows tbl))"

lemma find_append_option: "find P (xs @ ys) = (case find P xs of Some x \<Rightarrow> Some x | None \<Rightarrow> find P ys)"
  by (induction xs) auto

lemma find_map_key: "(\<And>x. P (f x) = P x) \<Longrightarrow> find P (map f xs) = map_option f (find P xs)"
  by (induction xs) auto

lemma int4_sint [simp]: "int4 (sint (w :: u32))"
  using sint_range_size [of w] by (auto simp: int4_def word_size)

lemma row_key_update [simp]:
  "row_key (q\<lparr>pw_last_submitted_at := a\<rparr>) = row_key q" "row_key (q\<lparr>pw_total := n\<rparr>) = row_key q" "row_key (q\<lparr>pw_payload := p\<rparr>) = row_key q"
  by (simp_all add: row_key_def)

lemma upsert_cases:
  assumes "upsert_submission now sub payload tbl = (out, tbl')"
  shows "pt_next_id tbl' = pt_next_id tbl + 1 \<and>
    (case out of
       None \<Rightarrow> pt_rows tbl' = pt_rows tbl
     | Some (inserted, i) \<Rightarrow>
         id_of tbl' (parser_key sub) = Some i \<and> (inserted \<longleftrightarrow> id_of tbl (parser_key sub) = None) \<and>
         length (pt_rows tbl') = length (pt_rows tbl) + (if inserted then 1 else 0) \<and>
         (\<forall>key. key \<noteq> parser_key sub \<longrightarrow> id_of tbl' key = id_of tbl key \<and> total_of tbl' key = total_of tbl key) \<and>
         (\<forall>key i. id_of tbl key = Some i \<longrightarrow> id_of tbl' key = Some i) \<and>
         total_of tbl' (parser_key sub) = total_of tbl (parser_key sub) + sint (pb_occurrence_count sub))"
proof (cases "find (\<lambda>r. row_key r = parser_key sub) (pt_rows tbl)")
  case None
  then show ?thesis using assms
    by (auto simp: upsert_submission_def id_of_def total_of_def find_append_option row_key_def parser_key_def split: option.split if_splits)
next
  case (Some r)
  let ?f = "\<lambda>q. if row_key q = parser_key sub
    then q\<lparr>pw_last_submitted_at := now, pw_total := pw_total q + sint (pb_occurrence_count sub), pw_payload := payload\<rparr> else q"
  have k: "row_key r = parser_key sub" using Some by (auto simp: find_Some_iff)
  have f: "find (\<lambda>q. row_key q = key) (map ?f rows) = map_option ?f (find (\<lambda>q. row_key q = key) rows)" for key rows
    by (rule find_map_key) simp
  have id: "id_of (tbl\<lparr>pt_next_id := n, pt_rows := map ?f (pt_rows tbl)\<rparr>) key = id_of tbl key" for key n
    unfolding id_of_def by (cases "find (\<lambda>r. row_key r = key) (pt_rows tbl)") (simp_all add: f)
  have total: "total_of (tbl\<lparr>pt_next_id := n, pt_rows := map ?f (pt_rows tbl)\<rparr>) key = total_of tbl key" if "key \<noteq> parser_key sub" for key n
  proof (cases "find (\<lambda>r. row_key r = key) (pt_rows tbl)")
    case None
    then show ?thesis by (simp add: total_of_def f)
  next
    case (Some q)
    then have "row_key q = key" by (auto simp: find_Some_iff)
    then show ?thesis using Some that by (simp add: total_of_def f)
  qed
  have added: "total_of (tbl\<lparr>pt_next_id := n, pt_rows := map ?f (pt_rows tbl)\<rparr>) (parser_key sub) =
      total_of tbl (parser_key sub) + sint (pb_occurrence_count sub)" for n
    using Some k by (simp add: total_of_def f)
  have "id_of tbl (parser_key sub) = Some (pw_id r)" using Some by (simp add: id_of_def)
  then show ?thesis using assms Some
    by (cases "int4 (pw_total r + sint (pb_occurrence_count sub))") (auto simp: upsert_submission_def Let_def id total added)
qed

lemma parser_table_ok_step:
  assumes "upsert_submission now sub payload tbl = (out, tbl')" and "parser_table_ok tbl"
  shows "parser_table_ok tbl'"
proof (cases "find (\<lambda>r. row_key r = parser_key sub) (pt_rows tbl)")
  case None
  then have "parser_key sub \<notin> row_key ` set (pt_rows tbl)" by (auto simp: find_None_iff)
  then show ?thesis using assms None
    by (force simp: upsert_submission_def parser_table_ok_def list_all_iff row_key_def parser_key_def)
next
  case (Some r)
  have r: "r \<in> set (pt_rows tbl)" "row_key r = parser_key sub" using Some by (auto simp: find_Some_iff)
  have u: "q = r" if "q \<in> set (pt_rows tbl)" "row_key q = parser_key sub" for q
    using that r assms(2) by (auto simp: parser_table_ok_def distinct_map inj_on_def)
  let ?f = "\<lambda>q. if row_key q = parser_key sub
    then q\<lparr>pw_last_submitted_at := now, pw_total := pw_total q + sint (pb_occurrence_count sub), pw_payload := payload\<rparr> else q"
  have k: "map row_key (map ?f rows) = map row_key rows" "map pw_id (map ?f rows) = map pw_id rows" for rows by auto
  show ?thesis
  proof (cases "int4 (pw_total r + sint (pb_occurrence_count sub))")
    case True
    then have t: "tbl' = tbl\<lparr>pt_next_id := pt_next_id tbl + 1, pt_rows := map ?f (pt_rows tbl)\<rparr>"
      using assms(1) Some by (simp add: upsert_submission_def Let_def)
    have "list_all (\<lambda>q. pw_id q < pt_next_id tbl + 1 \<and> int4 (pw_total q)) (map ?f (pt_rows tbl))"
      using assms(2) True u by (auto simp: parser_table_ok_def list_all_iff)
    then show ?thesis using assms(2) k by (simp add: t parser_table_ok_def del: map_map)
  next
    case False
    then have "tbl' = tbl\<lparr>pt_next_id := pt_next_id tbl + 1\<rparr>" using assms(1) Some by (simp add: upsert_submission_def Let_def)
    then show ?thesis using assms(2) by (force simp: parser_table_ok_def list_all_iff)
  qed
qed

text \<open>What a batch sends for a key: the sum of its counts. What the casts make of them.\<close>

definition added :: "parser_submission list \<Rightarrow> string \<times> string \<Rightarrow> int" where
  "added subs key = sum_list (map (\<lambda>sub. int (unat (pb_occurrence_count sub))) (filter (\<lambda>sub. parser_key sub = key) subs))"

definition cast_added :: "parser_submission list \<Rightarrow> string \<times> string \<Rightarrow> int" where
  "cast_added subs key = sum_list (map (\<lambda>sub. sint (pb_occurrence_count sub)) (filter (\<lambda>sub. parser_key sub = key) subs))"

lemma sint_low: "unat (w :: u32) < 2 ^ 31 \<Longrightarrow> sint w = int (unat w)"
proof -
  assume "unat w < 2 ^ 31"
  then have "int (unat w) < int (2 ^ 31)" by (simp only: of_nat_less_iff)
  then have "uint w < 2 ^ 31" unfolding uint_nat by simp
  moreover have "- (2 ^ 31) \<le> (0 :: int)" by simp
  then have "- (2 ^ 31) \<le> uint w" by (rule order_trans) (rule uint_ge_0)
  ultimately have "signed_take_bit 31 (uint w) = uint w" by (intro signed_take_bit_int_eq_self)
  then show ?thesis by (simp only: sint_uint uint_nat) simp
qed

lemma cast_added_small:
  assumes "\<And>sub. sub \<in> set subs \<Longrightarrow> parser_key sub = key \<Longrightarrow> unat (pb_occurrence_count sub) < 2 ^ 31"
  shows "cast_added subs key = added subs key"
  unfolding cast_added_def added_def
  by (intro arg_cong [where f = sum_list] map_cong refl sint_low assms) auto

lemma store_submissions_ok:
  "store_submissions en k subs (a, d, ids) tbl = (ParserSubmissionResponse a' d' ids', tbl') \<Longrightarrow> parser_table_ok tbl \<Longrightarrow>
   parser_table_ok tbl' \<and>
   (\<forall>key. total_of tbl' key = total_of tbl key + cast_added subs key) \<and>
   (\<forall>key i. id_of tbl key = Some i \<longrightarrow> id_of tbl' key = Some i) \<and>
   length (pt_rows tbl') \<ge> length (pt_rows tbl) \<and>
   a' = a + of_nat (length (pt_rows tbl') - length (pt_rows tbl)) \<and>
   d' = d + of_nat (length subs - (length (pt_rows tbl') - length (pt_rows tbl))) \<and>
   length (pt_rows tbl') - length (pt_rows tbl) \<le> length subs \<and>
   ids' = ids @ map (\<lambda>sub. i64_to_string (the (id_of tbl' (parser_key sub)))) subs"
proof (induction subs arbitrary: k a d ids tbl)
  case Nil
  then show ?case by (simp add: cast_added_def)
next
  case (Cons sub subs)
  obtain payload where p: "pv_to_value en sub = Some payload" "pv_db_ok en k"
    using Cons.prems(1) by (auto split: option.splits if_splits)
  obtain out tbl1 where u: "upsert_submission (pv_now en k) sub payload tbl = (out, tbl1)" by fastforce
  obtain inserted i where o: "out = Some (inserted, i)" using Cons.prems(1) p u by (auto split: option.splits)
  have rec: "store_submissions en (Suc k) subs
      (if inserted then a + 1 else a, if inserted then d else d + 1, ids @ [i64_to_string i]) tbl1 = (ParserSubmissionResponse a' d' ids', tbl')"
    using Cons.prems(1) p u o by simp
  note step = upsert_cases [OF u, unfolded o option.case prod.case]
  note ih = Cons.IH [OF rec parser_table_ok_step [OF u Cons.prems(2)]]
  have id: "id_of tbl' (parser_key sub) = Some i" using step ih by blast
  have add: "cast_added (sub # subs) key = (if key = parser_key sub then sint (pb_occurrence_count sub) else 0) + cast_added subs key" for key
    by (simp add: cast_added_def)
  have other: "total_of tbl1 key = total_of tbl key" if "key \<noteq> parser_key sub" for key using step that by blast
  have same: "total_of tbl1 (parser_key sub) = total_of tbl (parser_key sub) + sint (pb_occurrence_count sub)" using step by blast
  have "total_of tbl' key = total_of tbl1 key + cast_added subs key" for key using ih by blast
  then have total: "total_of tbl' key = total_of tbl key + cast_added (sub # subs) key" for key
    using other [of key] same add [of key] by (cases "key = parser_key sub") auto
  have ids: "id_of tbl' key = Some j" if "id_of tbl key = Some j" for key j using that step ih by blast
  have len: "length (pt_rows tbl1) = length (pt_rows tbl) + (if inserted then 1 else 0)" using step by simp
  have ih': "parser_table_ok tbl'" "length (pt_rows tbl1) \<le> length (pt_rows tbl')"
    "a' = (if inserted then a + 1 else a) + of_nat (length (pt_rows tbl') - length (pt_rows tbl1))"
    "d' = (if inserted then d else d + 1) + of_nat (length subs - (length (pt_rows tbl') - length (pt_rows tbl1)))"
    "length (pt_rows tbl') - length (pt_rows tbl1) \<le> length subs"
    "ids' = (ids @ [i64_to_string i]) @ map (\<lambda>sub. i64_to_string (the (id_of tbl' (parser_key sub)))) subs"
    using ih by blast+
  let ?n = "length (pt_rows tbl')" and ?m = "length (pt_rows tbl)"
  have "a' = a + of_nat (?n - ?m) \<and> d' = d + of_nat (length (sub # subs) - (?n - ?m)) \<and> ?m \<le> ?n \<and> ?n - ?m \<le> length (sub # subs)"
  proof (cases inserted)
    case True
    then have "?n - ?m = Suc (?n - length (pt_rows tbl1))" using len ih'(2) by simp
    then show ?thesis using True ih'(3,4,5) len ih'(2) by (simp add: add.assoc)
  next
    case False
    then have "length (sub # subs) - (?n - ?m) = Suc (length subs - (?n - ?m))" using ih'(5) len by simp
    then show ?thesis using False ih'(2-5) len by (simp add: add.assoc)
  qed
  then show ?case using total ids ih'(1,6) id by auto
qed

text \<open>
  C32. An accepted batch is on file completely: every shape and install keeps one row, rows that were there
  keep their id, the numbers of accepted and deduplicated submissions are those of new rows and of the
  rest, and the answer names, in the order of the batch, the row each submission is in. It is counted
  exactly as long as the counts fit the column: the total of a key grew by the sum of the counts sent for
  it, if each of these is below \<open>2 ^ 31\<close> (what happens to a larger one is \<open>huge_count_lowers_total\<close>).
\<close>

theorem batch_on_file:
  assumes "parser_table_ok tbl" and "submit en subs tbl = (ParserSubmissionResponse a d ids, tbl')"
  shows "parser_table_ok tbl' \<and>
    (\<forall>key. (\<forall>sub \<in> set subs. parser_key sub = key \<longrightarrow> unat (pb_occurrence_count sub) < 2 ^ 31) \<longrightarrow>
       total_of tbl' key = total_of tbl key + added subs key) \<and>
    (\<forall>key i. id_of tbl key = Some i \<longrightarrow> id_of tbl' key = Some i) \<and>
    unat a = length (pt_rows tbl') - length (pt_rows tbl) \<and> unat a + unat d = length subs \<and>
    ids = map (\<lambda>sub. i64_to_string (the (id_of tbl' (parser_key sub)))) subs"
proof -
  have s: "store_submissions en 0 subs (0, 0, []) tbl = (ParserSubmissionResponse a d ids, tbl')" and l: "length subs \<le> 200"
    using assms(2) by (auto simp: submit_def MAX_BATCH_SIZE_def split: if_splits option.splits)
  let ?k = "length (pt_rows tbl') - length (pt_rows tbl)"
  have r: "a = 0 + of_nat ?k" "d = 0 + of_nat (length subs - ?k)" "?k \<le> length subs"
    "parser_table_ok tbl'" "\<forall>key. total_of tbl' key = total_of tbl key + cast_added subs key"
    "\<forall>key i. id_of tbl key = Some i \<longrightarrow> id_of tbl' key = Some i"
    "ids = [] @ map (\<lambda>sub. i64_to_string (the (id_of tbl' (parser_key sub)))) subs"
    using store_submissions_ok [OF s assms(1)] by blast+
  have "unat (of_nat n :: u32) = n" if "n \<le> 200" for n using that by (simp add: unat_of_nat take_bit_eq_mod)
  then have "unat (of_nat ?k :: u32) = ?k" "unat (of_nat (length subs - ?k) :: u32) = length subs - ?k" using r(3) l by (meson diff_le_self le_trans)+
  then have "unat a = ?k" "unat d = length subs - ?k" using r(1,2) unfolding add_0_left by metis+
  moreover have "cast_added subs key = added subs key"
    if "\<forall>sub \<in> set subs. parser_key sub = key \<longrightarrow> unat (pb_occurrence_count sub) < 2 ^ 31" for key
    by (rule cast_added_small) (use that in blast)
  ultimately show ?thesis using r(3-7) by simp
qed

text \<open>
  A rejected batch changes nothing, but a batch that fails while it is written is half on file: the answer
  is an error of the server and exactly the submissions before the failing one were stored.
\<close>

fun stored_prefix :: "parser_env \<Rightarrow> nat \<Rightarrow> parser_submission list \<Rightarrow> parser_table \<Rightarrow> parser_table" where
  "stored_prefix en k [] tbl = tbl"
| "stored_prefix en k (sub # subs) tbl =
     stored_prefix en (Suc k) subs (snd (upsert_submission (pv_now en k) sub (the (pv_to_value en sub)) tbl))"

lemma store_submissions_error:
  "store_submissions en k subs c tbl = (ParserError status code, tbl') \<Longrightarrow>
   \<exists>n < length subs. status = 500 \<and> pt_rows tbl' = pt_rows (stored_prefix en k (take n subs) tbl)"
proof (induction subs arbitrary: k c tbl)
  case Nil
  then show ?case by (cases c) auto
next
  case (Cons sub subs)
  obtain a d ids where c: "c = (a, d, ids)" by (cases c) auto
  show ?case
  proof (cases "\<exists>payload inserted i tbl1. pv_to_value en sub = Some payload \<and> pv_db_ok en k \<and>
      upsert_submission (pv_now en k) sub payload tbl = (Some (inserted, i), tbl1)")
    case True
    then obtain payload inserted i tbl1 where u: "pv_to_value en sub = Some payload" "pv_db_ok en k"
      "upsert_submission (pv_now en k) sub payload tbl = (Some (inserted, i), tbl1)" by blast
    have "\<exists>n < length subs. status = 500 \<and> pt_rows tbl' = pt_rows (stored_prefix en (Suc k) (take n subs) tbl1)"
      by (rule Cons.IH) (use Cons.prems c u in simp)
    then obtain n where "n < length subs" "status = 500" "pt_rows tbl' = pt_rows (stored_prefix en (Suc k) (take n subs) tbl1)" by blast
    then show ?thesis using u by (intro exI [of _ "Suc n"]) simp
  next
    case False
    have "pt_rows tbl' = pt_rows tbl \<and> status = 500"
    proof (cases "pv_to_value en sub")
      case None
      then show ?thesis using Cons.prems c by simp
    next
      case (Some payload)
      obtain out tbl1 where u: "upsert_submission (pv_now en k) sub payload tbl = (out, tbl1)" by fastforce
      then have "out = None \<or> \<not> pv_db_ok en k" using False Some by (cases out) auto
      then show ?thesis using Cons.prems c Some u upsert_cases [OF u] by (cases "pv_db_ok en k") auto
    qed
    then show ?thesis by (intro exI [of _ 0]) simp
  qed
qed

theorem failed_batch_is_half_stored:
  assumes "submit en subs tbl = (ParserError status code, tbl')"
  shows "(status = 400 \<longrightarrow> tbl' = tbl) \<and>
    (status \<noteq> 400 \<longrightarrow> (\<exists>n < length subs. status = 500 \<and> pt_rows tbl' = pt_rows (stored_prefix en 0 (take n subs) tbl)))"
  using assms store_submissions_error [of en 0 subs "(0, 0, [])" tbl status code tbl']
  by (auto simp: submit_def split: if_splits option.splits)

lemma div_high_half: "2147483648 \<le> (x :: int) \<Longrightarrow> x < 4294967296 \<Longrightarrow> x div 2147483648 = 1"
  by (rule int_div_pos_eq [where r = "x - 2147483648"]) simp_all

lemma sint_high:
  assumes "unat (w :: u32) \<ge> 2 ^ 31"
  shows "sint w < 0"
proof -
  have "int (2 ^ 31) \<le> int (unat w)" using assms by (simp only: of_nat_le_iff)
  then have "2147483648 \<le> uint w" unfolding uint_nat by simp
  moreover have "uint w < 4294967296" using uint_range_size [of w] by (simp add: word_size)
  ultimately have "uint w div 2147483648 = 1" by (rule div_high_half)
  then have "uint w div 2 ^ 31 = 1" by simp
  then have "odd (uint w div 2 ^ 31)" by (simp only:) simp
  then have "bit (uint w) 31" by (simp only: bit_iff_odd not_False_eq_True)
  then have "bit w 31" by (simp only: bit_uint_iff)
  then show ?thesis using bit_last_iff [of w] by simp
qed

text \<open>
  The count of a submission is cast to a signed number: one above \<open>i32::MAX\<close> lowers the total on file.
\<close>

theorem huge_count_lowers_total:
  assumes "submit en [sub] tbl = (ParserSubmissionResponse a d ids, tbl')" and "unat (pb_occurrence_count sub) \<ge> 2 ^ 31"
    and "parser_table_ok tbl"
  shows "total_of tbl' (parser_key sub) < total_of tbl (parser_key sub)"
proof -
  have "sint (pb_occurrence_count sub) < 0" by (rule sint_high) (rule assms(2))
  moreover have "store_submissions en 0 [sub] (0, 0, []) tbl = (ParserSubmissionResponse a d ids, tbl')"
    using assms(1) by (auto simp: submit_def split: if_splits option.splits)
  from store_submissions_ok [OF this assms(3)]
  have "total_of tbl' (parser_key sub) = total_of tbl (parser_key sub) + cast_added [sub] (parser_key sub)" by blast
  ultimately show ?thesis by (simp add: cast_added_def)
qed

section \<open>Concrete instances\<close>

definition sample_sub :: "u32 \<Rightarrow> parser_submission" where
  "sample_sub n = \<lparr>pb_shape_hash = ''shape'', pb_raw_examples = [''line''], pb_partial_structured = [], pb_shell_tag = None,
     pb_suggested_event_name = None, pb_suggested_field_names = None, pb_notes = None, pb_context_examples = [],
     pb_game_build = None, pb_channel = Live, pb_occurrence_count = n, pb_client_anon_id = ''install''\<rparr>"

definition sample_parser_env :: parser_env where
  "sample_parser_env = \<lparr>pv_to_vec = (\<lambda>_. Some []), pv_to_value = (\<lambda>_. Some JNull), pv_now = int, pv_db_ok = (\<lambda>k. k < 2)\<rparr>"

definition no_submissions :: parser_table where
  "no_submissions = \<lparr>pt_rows = [], pt_next_id = 1\<rparr>"

lemma no_submissions_ok: "parser_table_ok no_submissions"
  by (simp add: parser_table_ok_def no_submissions_def)

definition sample_row :: "micros \<Rightarrow> int \<Rightarrow> parser_row" where
  "sample_row seen n = \<lparr>pw_id = 1, pw_shape_hash = ''shape'', pw_client_anon_id = ''install'', pw_first_submitted_at = 0,
     pw_last_submitted_at = seen, pw_total = n, pw_payload = JNull\<rparr>"

lemma sample_parser_strings: "trim ''shape'' \<noteq> []" "trim ''install'' \<noteq> []" "i64_to_string 1 = ''1''"
  by code_simp+

lemma sample_submit:
  "submit sample_parser_env [sample_sub 5, sample_sub 7] no_submissions =
     (ParserSubmissionResponse 1 1 [''1'', ''1''], \<lparr>pt_rows = [sample_row 1 12], pt_next_id = 3\<rparr>)"
  "submit sample_parser_env [sample_sub 0xFFFFFFFF] no_submissions =
     (ParserSubmissionResponse 1 0 [''1''], \<lparr>pt_rows = [sample_row 0 (-1)], pt_next_id = 2\<rparr>)"
  "submit sample_parser_env [sample_sub 5, sample_sub 7, sample_sub 9] no_submissions =
     (ParserError 500 ''submission_write_failed'', \<lparr>pt_rows = [sample_row 1 12], pt_next_id = 3\<rparr>)"
  using sample_parser_strings
  by (simp_all add: submit_def validate_submission_def MAX_BATCH_SIZE_def MAX_PAYLOAD_BYTES_def sample_parser_env_def sample_sub_def
      no_submissions_def upsert_submission_def row_key_def parser_key_def int4_def sample_row_def Let_def)

theorem batch_on_file_witness:
  "total_of (snd (submit sample_parser_env [sample_sub 5, sample_sub 7] no_submissions)) (''shape'', ''install'') =
     0 + added [sample_sub 5, sample_sub 7] (''shape'', ''install'') \<and>
   unat (1 :: u32) + unat (1 :: u32) = length [sample_sub 5, sample_sub 7]"
proof -
  have "\<forall>sub \<in> set [sample_sub 5, sample_sub 7]. unat (pb_occurrence_count sub) < 2 ^ 31" by (simp add: sample_sub_def)
  moreover have "total_of no_submissions key = 0" for key by (simp add: total_of_def no_submissions_def)
  ultimately show ?thesis
    using batch_on_file [OF no_submissions_ok sample_submit(1)] unfolding sample_submit(1) by (simp add: snd_conv)
qed

theorem failed_batch_is_half_stored_witness:
  "\<exists>n < 3. pt_rows (snd (submit sample_parser_env [sample_sub 5, sample_sub 7, sample_sub 9] no_submissions)) =
     pt_rows (stored_prefix sample_parser_env 0 (take n [sample_sub 5, sample_sub 7, sample_sub 9]) no_submissions)"
  using failed_batch_is_half_stored [OF sample_submit(3)] unfolding sample_submit(3) by (simp add: numeral_3_eq_3)

theorem huge_count_lowers_total_witness:
  "total_of (snd (submit sample_parser_env [sample_sub 0xFFFFFFFF] no_submissions)) (''shape'', ''install'') < 0"
proof -
  have "unat (pb_occurrence_count (sample_sub 0xFFFFFFFF)) \<ge> 2 ^ 31" by (simp add: sample_sub_def)
  from huge_count_lowers_total [OF sample_submit(2) this no_submissions_ok] show ?thesis
    unfolding sample_submit(2) by (simp add: total_of_def no_submissions_def parser_key_def sample_sub_def)
qed

end
