(* ===== verification/Spec2Isabelle.thy ===== *)
theory Spec2Isabelle
  imports Transactions Inference Classify Templates Gamelog Sync Tray_Health_Props Reparse_Props
    Ingest Metrics_Props Moderation Payments Sharing_Abuse Snapshot_Props Parser_Submissions
begin

text \<open>
  StarStats reads the \<^verbatim>\<open>Game.log\<close> of a game, classifies its lines into events, keeps them in a local store
  and ships them to a server, where their owner can query and share them. This development models the
  Rust code of the three crates and proves what makes it correct. Paths below are under \<^verbatim>\<open>src/crates\<close>.

  \<^bold>\<open>The parts and how they meet.\<close> \<^verbatim>\<open>starstats-core\<close> is pure: events, the two passes of the parser, burst templates,
  purchase pairing, inference, validators. \<^verbatim>\<open>starstats-client\<close> is the tray: its tail drains the live log, collapses
  bursts, classifies each line with the core and inserts it into SQLite under a key of source, offset and
  line; its sync worker sends the rows above a cursor to \<open>POST /v1/ingest\<close>. \<^verbatim>\<open>starstats-server\<close> stores them once per
  handle and key, appends to a hash-chained audit log, answers the queries, and carries accounts, devices,
  staff roles, sharing over SpiceDB, submissions, donations and the snapshots of public RSI pages. The two
  sides meet in the envelope and batch types (\<open>Metadata\<close>), and in the theories \<open>Sync\<close> and \<open>Ingest\<close>: a batch is resent
  until it is confirmed, and a resent batch is counted as duplicates.

  \<^bold>\<open>Shared theories.\<close>

  \<^item> \<open>Prelude\<close>: word types, a panic as a value (\<open>outcome\<close>), the string operations of the standard library on UTF-8
    bytes, integer parsing, generic lemmas with the collections \<open>str_simps\<close> and \<open>outcome_simps\<close>.
  \<^item> \<open>Single_Use\<close>: the contract of one-shot credentials as a locale, with the lemma that a token is honoured at
    most once. It is interpreted by \<open>Devices\<close>, \<open>Magic_Link\<close>, \<open>Recovery_Codes\<close> and \<open>Payments\<close>. Other interfaces are the
    locales \<open>insert_or_ignore\<close> (\<open>Storage\<close>), \<open>window_scan\<close> (\<open>Inference\<close>) and \<open>role_store\<close> (\<open>Staff_Roles\<close>), each interpreted on
    the code's own definitions.

  \<^bold>\<open>The core crate.\<close>

  \<^item> \<open>Events\<close> (\<^verbatim>\<open>events.rs\<close>): one record per payload, one constructor per variant. \<open>Metadata\<close> (\<^verbatim>\<open>metadata.rs\<close>, \<^verbatim>\<open>wire.rs\<close>): type
    keys, entities, group keys, envelopes. \<open>Validators\<close> (\<^verbatim>\<open>validators.rs\<close>): exactly which envelopes pass.
  \<^item> \<open>Log_Line\<close>, \<open>Parser_Defs\<close>, \<open>Unknown_Lines\<close>, \<open>Classify\<close> (\<^verbatim>\<open>parser.rs\<close>, \<^verbatim>\<open>parser_defs.rs\<close>, \<^verbatim>\<open>unknown_lines.rs\<close>): the shell of a line, the
    remote rules, the capture of unknown shapes, the classifier; it does not panic, and what it emits
    passes the validators.
  \<^item> \<open>Templates\<close> (\<^verbatim>\<open>templates.rs\<close>): a reported burst is one and every burst is reported. \<open>Transactions\<close>
    (\<^verbatim>\<open>transactions.rs\<close>): no request or response is lost or used twice; the calendar algorithm. \<open>Inference\<close>
    (\<^verbatim>\<open>inference.rs\<close>): when an event is synthesised and when superseded.

  \<^bold>\<open>The tray.\<close>

  \<^item> \<open>Storage\<close> (\<^verbatim>\<open>storage.rs\<close>): every method over the tables of \<^verbatim>\<open>schema.sql\<close>, the invariant of all of them, the contract of
    \<open>ON CONFLICT DO NOTHING\<close>.
  \<^item> \<open>Gamelog\<close> (\<^verbatim>\<open>gamelog.rs\<close>, \<^verbatim>\<open>burst_rules.rs\<close>, \<^verbatim>\<open>backfill.rs\<close>): over any growth of the file the drains deliver each complete
    line once; delivering a buffer again stores nothing.
  \<^item> \<open>Sync\<close> (\<^verbatim>\<open>sync.rs\<close>): the worker as a step relation beside the writers of the store; each row is confirmed at most
    once and in order, and enough successful drains empty the queue.
  \<^item> \<open>Reparse\<close>, \<open>Reparse_Props\<close> (\<^verbatim>\<open>commands.rs\<close>): the maintenance commands. Phase 1 is one pass of the current rules over
    the rows, and repeating it changes nothing; the command is total and keeps the store's invariant; and
    what it does to burst summaries and stored samples.
  \<^item> \<open>Tray_Health\<close>, \<open>Tray_Health_Props\<close>: the configuration (\<^verbatim>\<open>config.rs\<close>), the health surface (\<^verbatim>\<open>health.rs\<close>) and the
    commands of \<^verbatim>\<open>commands.rs\<close> around them. The items shown are exactly those called for and not dismissed, in
    a strict order; a dismissal hides one item; a configuration the settings pane has held since it was
    opened undoes it.

  \<^bold>\<open>The server.\<close>

  \<^item> \<open>Audit_Chain\<close> (\<^verbatim>\<open>audit.rs\<close>), \<open>Event_Repo\<close> (\<^verbatim>\<open>repo.rs\<close>, \<^verbatim>\<open>validation.rs\<close>, \<^verbatim>\<open>query.rs\<close>), \<open>Ingest\<close> (\<^verbatim>\<open>ingest.rs\<close>), \<open>Locations\<close> (\<^verbatim>\<open>locations.rs\<close>),
    \<open>Metrics\<close> and \<open>Metrics_Props\<close> (the aggregates of \<^verbatim>\<open>repo.rs\<close> and \<^verbatim>\<open>query.rs\<close>): the chain verifies; an ingest stores and
    counts its fresh events under the caller's handle, and what it does to each event whose insert fails; paging is complete, dwell times and traces
    against reference definitions.
  \<^item> \<open>Users\<close>, \<open>Devices\<close>, \<open>Magic_Link\<close>, \<open>Recovery_Codes\<close>, \<open>Totp\<close>, \<open>Auth\<close>, \<open>Account_Routes\<close>, \<open>Login_Routes\<close>, \<open>Accounts\<close> (the files of
    the same names and \<^verbatim>\<open>auth_routes.rs\<close>, \<^verbatim>\<open>totp_routes.rs\<close>, \<^verbatim>\<open>magic_link_routes.rs\<close>, \<^verbatim>\<open>device_routes.rs\<close>,
    \<^verbatim>\<open>rsi_verify_routes.rs\<close>): every handler as a function of platform, drawn values and state; all requests as
    one step; a session needs the second factor, codes are used once, the answers of three flows do not tell
    which e-mails have accounts (sign-up does).
  \<^item> \<open>Staff_Roles\<close>, \<open>Submissions\<close>, \<open>Admin_Routes\<close>, \<open>Submission_Routes\<close>, \<open>Moderation\<close>: staff roles, community submissions, their
    handlers, and the invariant of the whole site; a submission refines an abstract automaton.
  \<^item> \<open>Spicedb\<close>, \<open>Orgs\<close>, \<open>Share_Stores\<close>, \<open>Sharing\<close>, \<open>Org_Routes\<close>, \<open>Sharing_Steps\<close>, \<open>Sharing_Props\<close>, \<open>Sharing_Abuse\<close>: relationships and
    their permissions (\<^verbatim>\<open>infra/spicedb/schema.zed\<close>), organizations, shares with expiry and scope, reports; sign-up
    and the closing of an account as far as they reach relationships and organizations; who can come to see a
    record and what they see.
  \<^item> \<open>Payments\<close> (\<^verbatim>\<open>orders.rs\<close>, \<^verbatim>\<open>revolut.rs\<close>, \<^verbatim>\<open>revolut_routes.rs\<close>, \<^verbatim>\<open>supporters.rs\<close>, \<^verbatim>\<open>supporter_routes.rs\<close>): a payment is credited
    once, and what a failed credit leaves behind.
  \<^item> \<open>Rsi_Pages\<close> (\<^verbatim>\<open>rsi_verify.rs\<close>), \<open>Snapshots\<close>, \<open>Snapshot_Props\<close> (profile, organization, hangar and preference stores and
    routes), \<open>Parser_Submissions\<close> (\<^verbatim>\<open>parser_submissions.rs\<close>): a handle is verified only by its page, public pages need
    consent, what a batch of submissions leaves on file.

  \<^bold>\<open>Conventions.\<close> A table is the list of its rows in insertion order, with the unique and foreign keys of the
  migrations as guards; a handler takes its environment, the values it draws and the state and returns the
  reply and the new state; an error is a value of the reply. Integers keep their width where they can wrap.
  A main property with a hypothesis is followed by a concrete instance named \<open>..._witness\<close>. Theorems whose text says
  that something is lost, left behind or possible describe the code as it is; the more serious ones are
  defects.

  \<^bold>\<open>Parameters and hypotheses.\<close> Third-party code is an argument. The regex engine (\<open>regex_engine\<close>), with the
  hypotheses that a match of the tag pattern ends its input (\<open>tag_tail_is_suffix\<close>) and that a match reports its
  mandatory groups (\<open>groups_present\<close>, \<open>groups_nonempty\<close>); UUIDs and hashes; JSON writers and readers; Argon2; the
  token library (\<open>signing_lib\<close>: what was signed verifies); \<open>totp_lite\<close>; the SpiceDB service, with the snapshot each
  call sees; the clock; the failure of an event's insert (before it is
  sent, refused by the database, or with the answer lost), and whether the statements of the sharing, donation, snapshot
  and parser submission stores succeed, where the other stores fail only on their keys; one HTTP answer per address; the HTML
  scraper as a record of its queries. Fresh identifiers are drawn values, with \<open>ids_fresh\<close> where uniqueness matters.

  \<^bold>\<open>Bounds and fuel.\<close> One helper has fuel: the decimal printer \<open>digits_rev\<close> (\<open>Audit_Chain\<close>) gets
  the value of the number plus one, which its lemmas show to be enough. All other loops are structural recursions or functions with a measure (the
  window of a burst scan, the rows above the last id of a page, the digits of a number, the rest of a text).
  A file is shorter than \<open>2 ^ 64\<close> bytes where the tail's offset must not wrap, counters are words, and statements
  about counts say \<open>of_nat\<close> or bound the number of steps.

  \<^bold>\<open>Not modelled.\<close> Set-up and glue of both programs (\<^verbatim>\<open>main.rs\<close>, routing, telemetry, API description, mail, rate limiters);
  file watching and task spawning; key files and AES (\<^verbatim>\<open>kek.rs\<close>); the mirror of the audit log; reference data and its
  refresh, update manifests and SMTP settings, which are I/O around third-party services; the tray's
  collectors (crash folders, launcher log, log discovery, the probes, the hangar page and the cache of parser rules);
  in-memory test doubles. The commands that only format data for the user interface are not modelled.
\<close>

end
